(* ===== verification/Base.thy ===== *)
theory Base
  imports Main "HOL-Library.Word" "HOL-Library.Monad_Syntax"
begin

text \<open>
  Shared vocabulary of the development: the machine types of \<open>rtos_types.h\<close>, the status
  codes, addresses and null-able pointers, linked structures threaded through a store (singly
  and doubly linked segments), and the word lemmas that several components use.

  Pointers are \<open>addr option\<close>, with \<open>None\<close> for \<open>NULL\<close>; an address is an \<open>int\<close>,
  because the code compares and subtracts addresses and no object of the program sits at the
  ends of the 64-bit range. An operation that may fault (null dereference, access outside an
  object) or spin forever returns \<open>None\<close> of an option type; its normal results are \<open>Some\<close>.
\<close>

unbundle bit_operations_syntax

named_theorems dseg_simps \<open>facts on doubly linked segments\<close>
named_theorems status_simps \<open>facts on status codes\<close>

section \<open>Machine types\<close>

type_synonym u8 = "8 word"
type_synonym u16 = "16 word"
type_synonym u32 = "32 word"
type_synonym u64 = "64 word"
type_synonym addr = int
type_synonym ptr = "int option"

text \<open>The \<open>STATUS_*\<close> codes of \<open>rtos_types.h\<close>, with the integer each stands for.\<close>

datatype status =
    STATUS_OK | STATUS_ERROR | STATUS_TIMEOUT | STATUS_BUSY | STATUS_NO_MEM
  | STATUS_INVALID | STATUS_WOULD_BLOCK

fun status_code :: "status \<Rightarrow> int" where
  "status_code STATUS_OK = 0"
| "status_code STATUS_ERROR = -1"
| "status_code STATUS_TIMEOUT = -2"
| "status_code STATUS_BUSY = -3"
| "status_code STATUS_NO_MEM = -4"
| "status_code STATUS_INVALID = -5"
| "status_code STATUS_WOULD_BLOCK = -6"

lemma status_code_inj [status_simps]: "status_code a = status_code b \<longleftrightarrow> a = b"
  by (cases a; cases b) simp_all

text \<open>
  Accesses to the registers of a device, and what the device answers: the value of a read at an
  address, from the accesses made before it (the latest first).
\<close>

datatype mmio = Rd addr | Wr addr u32

type_synonym mmio_hw = "mmio list \<Rightarrow> addr \<Rightarrow> u32"

section \<open>Words\<close>

text \<open>Clearing low bits, the idiom \<open>x & ~(2^n - 1)\<close>, rounds down to a multiple of \<open>2^n\<close>.\<close>

lemma word_and_not_mask: "(x :: 'a::len word) AND NOT (mask n) = push_bit n (drop_bit n x)"
  by (rule bit_eqI) (auto simp: bit_simps)

lemma unat_and_not_mask: "unat ((x :: 'a::len word) AND NOT (mask n)) = unat x div 2 ^ n * 2 ^ n"
proof -
  have "unat x div 2 ^ n * 2 ^ n \<le> unat x" by simp
  also have "\<dots> < 2 ^ LENGTH('a)" by (rule unsigned_less)
  finally have "take_bit LENGTH('a) (unat x div 2 ^ n * 2 ^ n) = unat x div 2 ^ n * 2 ^ n"
    by (simp add: take_bit_nat_eq_self)
  then show ?thesis
    unfolding word_and_not_mask unsigned_push_bit_eq unat_drop_bit_eq push_bit_eq_mult[where 'a = nat]
      drop_bit_eq_div[where 'a = nat] .
qed

lemma uint_and_not_mask: "uint ((x :: 'a::len word) AND NOT (mask n)) = uint x div 2 ^ n * 2 ^ n"
  using arg_cong[OF unat_and_not_mask[of x n], of int]
  by (simp add: of_nat_unat zdiv_int)

lemma uint_add_no_wrap:
  "uint (a :: 'a::len word) + uint b < 2 ^ LENGTH('a) \<Longrightarrow> uint (a + b) = uint a + uint b"
  by (simp add: uint_word_ariths)

lemma uint_of_int_id:
  "0 \<le> x \<Longrightarrow> x < 2 ^ LENGTH('a) \<Longrightarrow> uint (word_of_int x :: 'a::len word) = x"
  by (simp add: unsigned_of_int take_bit_int_eq_self)

lemma uint_two_power: "k < LENGTH('a) \<Longrightarrow> uint (2 ^ k :: 'a::len word) = 2 ^ k"
  using uint_of_int_id[of "2 ^ k", where 'a = 'a] power_strict_increasing[of k "LENGTH('a)" "2::int"]
  by simp

lemma uint_minus_one: "0 < uint (x :: 'a::len word) \<Longrightarrow> uint (x - 1) = uint x - 1"
proof -
  assume "0 < uint x"
  then have "(uint x - 1) mod 2 ^ LENGTH('a) = uint x - 1"
    using uint_lt2p[of x] by (intro mod_pos_pos_trivial) linarith+
  then show ?thesis by (simp add: uint_word_ariths)
qed

lemma int_less_uint: "i < unat x \<Longrightarrow> int i < uint (x :: 'a::len word)"
  unfolding unat_eq_nat_uint by linarith

section \<open>Linked structures in a store\<close>

text \<open>
  \<open>sseg nx p xs\<close>: following \<open>nx\<close> from \<open>p\<close> visits exactly \<open>xs\<close> and ends at \<open>NULL\<close>.
\<close>

fun sseg :: "('a \<Rightarrow> 'a option) \<Rightarrow> 'a option \<Rightarrow> 'a list \<Rightarrow> bool" where
  "sseg nx p [] \<longleftrightarrow> p = None"
| "sseg nx p (a # as) \<longleftrightarrow> p = Some a \<and> sseg nx (nx a) as"

lemma sseg_None [simp]: "sseg nx None xs \<longleftrightarrow> xs = []"
  by (cases xs) auto

lemma sseg_Some: "sseg nx (Some a) xs \<longleftrightarrow> (\<exists>ys. xs = a # ys \<and> sseg nx (nx a) ys)"
  by (cases xs) auto

lemma sseg_cong:
  "(\<And>x. x \<in> set xs \<Longrightarrow> nx x = nx' x) \<Longrightarrow> sseg nx p xs = sseg nx' p xs"
  by (induction xs arbitrary: p) auto

lemma sseg_upd [simp]: "a \<notin> set xs \<Longrightarrow> sseg (nx(a := v)) p xs = sseg nx p xs"
  by (rule sseg_cong) auto

lemma sseg_unique: "sseg nx p xs \<Longrightarrow> sseg nx p ys \<Longrightarrow> xs = ys"
proof (induction xs arbitrary: p ys)
  case Nil
  then show ?case by (cases ys) auto
next
  case (Cons a xs)
  then show ?case by (cases ys) auto
qed

text \<open>
  \<open>dseg nx pv pr p xs la q\<close>: from \<open>p\<close>, whose predecessor is \<open>pr\<close>, the \<open>nx\<close> links visit
  \<open>xs\<close> and arrive at \<open>q\<close>; each node's \<open>pv\<close> link names the node before it, and \<open>la\<close> is
  the last node (\<open>pr\<close> when there is none).
\<close>

fun dseg :: "('a \<Rightarrow> 'a option) \<Rightarrow> ('a \<Rightarrow> 'a option) \<Rightarrow> 'a option \<Rightarrow> 'a option \<Rightarrow> 'a list
    \<Rightarrow> 'a option \<Rightarrow> 'a option \<Rightarrow> bool" where
  "dseg nx pv pr p [] la q \<longleftrightarrow> p = q \<and> la = pr"
| "dseg nx pv pr p (a # as) la q \<longleftrightarrow>
     p = Some a \<and> pv a = pr \<and> dseg nx pv (Some a) (nx a) as la q"

abbreviation dll :: "('a \<Rightarrow> 'a option) \<Rightarrow> ('a \<Rightarrow> 'a option) \<Rightarrow> 'a option \<Rightarrow> 'a list \<Rightarrow> bool" where
  "dll nx pv p xs \<equiv> \<exists>la. dseg nx pv None p xs la None"

lemma dseg_append [dseg_simps]:
  "dseg nx pv pr p (xs @ ys) la q \<longleftrightarrow>
     (\<exists>m r. dseg nx pv pr p xs m r \<and> dseg nx pv m r ys la q)"
  by (induction xs arbitrary: pr p) auto

lemma dseg_last:
  "dseg nx pv pr p xs la q \<Longrightarrow> la = (if xs = [] then pr else Some (last xs))"
  by (induction xs arbitrary: pr p) (auto split: if_splits)

lemma dseg_first:
  "dseg nx pv pr p xs la q \<Longrightarrow> p = (if xs = [] then q else Some (hd xs))"
  by (cases xs) auto

lemma dseg_cong:
  assumes "\<And>x. x \<in> set xs \<Longrightarrow> nx x = nx' x" and "\<And>x. x \<in> set xs \<Longrightarrow> pv x = pv' x"
  shows "dseg nx pv pr p xs la q = dseg nx' pv' pr p xs la q"
  using assms by (induction xs arbitrary: pr p) auto

text \<open>Writing a node outside a segment leaves the segment as it is.\<close>

lemma dseg_upd_nx [dseg_simps]:
  "a \<notin> set xs \<Longrightarrow> dseg (nx(a := v)) pv pr p xs la q = dseg nx pv pr p xs la q"
  by (rule dseg_cong) auto

lemma dseg_upd_pv [dseg_simps]:
  "a \<notin> set xs \<Longrightarrow> dseg nx (pv(a := v)) pr p xs la q = dseg nx pv pr p xs la q"
  by (rule dseg_cong) auto

text \<open>
  A non-empty segment can be re-targeted: only its last node's \<open>nx\<close> decides where it
  arrives, and only its first node's \<open>pv\<close> names what came before.
\<close>

lemma dseg_snoc_nx:
  assumes "dseg nx pv pr p (xs @ [a]) la q" and "a \<notin> set xs"
  shows "dseg (nx(a := q')) pv pr p (xs @ [a]) (Some a) q'"
  using assms by (auto simp: dseg_simps)

lemma dseg_Cons_pv:
  assumes "dseg nx pv pr p (a # xs) la q" and "a \<notin> set xs"
  shows "dseg nx (pv(a := pr')) pr' (Some a) (a # xs) la q"
  using assms by (auto simp: dseg_simps)

text \<open>
  The general form: a segment survives any change of the links that keeps the \<open>nx\<close> of all but
  its last node and the \<open>pv\<close> of all but its first.
\<close>

lemma dseg_retarget:
  assumes "dseg nx pv pr p xs la q"
    and "\<And>x. x \<in> set (butlast xs) \<Longrightarrow> nx' x = nx x"
    and "\<And>x. x \<in> set (tl xs) \<Longrightarrow> pv' x = pv x"
    and "xs \<noteq> [] \<Longrightarrow> nx' (last xs) = q'"
    and "xs \<noteq> [] \<Longrightarrow> pv' (hd xs) = pr'"
    and "p' = (if xs = [] then q' else p)"
    and "la' = (if xs = [] then pr' else la)"
  shows "dseg nx' pv' pr' p' xs la' q'"
  using assms
proof (induction xs arbitrary: pr p pr' p')
  case Nil
  then show ?case by simp
next
  case (Cons a xs)
  show ?case
  proof (cases "xs = []")
    case True
    with Cons.prems show ?thesis by simp
  next
    case False
    have tail: "dseg nx pv (Some a) (nx a) xs la q" using Cons.prems(1) by simp
    then have hd: "nx a = Some (hd xs)" using dseg_first[OF tail] False by simp
    have "pv (hd xs) = Some a" using tail False by (cases xs) auto
    then have "dseg nx' pv' (Some a) (nx a) xs la' q'"
      using Cons.prems False
      by (intro Cons.IH[OF tail]) (auto simp: hd_in_set list.set_sel(2))
    then show ?thesis using Cons.prems False by simp
  qed
qed

lemma dseg_sseg: "dseg nx pv pr p xs la None \<Longrightarrow> sseg nx p xs"
  by (induction xs arbitrary: pr p) auto

lemma dseg_ends:
  assumes "dseg nx pv pr p xs la q"
  shows "xs \<noteq> [] \<Longrightarrow> la = Some (last xs)" "xs \<noteq> [] \<Longrightarrow> p = Some (hd xs)"
    "xs = [] \<Longrightarrow> la = pr" "xs = [] \<Longrightarrow> p = q"
    "xs \<noteq> [] \<Longrightarrow> pv (hd xs) = pr"
  using dseg_last[OF assms] dseg_first[OF assms] assms by (cases xs; auto)+

lemma last_notin_butlast: "distinct xs \<Longrightarrow> xs \<noteq> [] \<Longrightarrow> last xs \<notin> set (butlast xs)"
  by (induction xs) auto

lemma hd_notin_tl: "distinct xs \<Longrightarrow> xs \<noteq> [] \<Longrightarrow> hd xs \<notin> set (tl xs)"
  by (cases xs) auto

text \<open>
  Cutting a list between \<open>fx\<close> and \<open>fy\<close> and putting \<open>cs\<close> there: it is enough that the new links
  agree with the old ones but for the last node of \<open>fx\<close>, which must lead to \<open>cs\<close>, and the first
  node of \<open>fy\<close>, which must name the last of \<open>cs\<close>. With \<open>cs = []\<close> the two parts are joined.
\<close>

lemma relink:
  assumes fx: "dseg nx pv None p fx m qe" and fy: "dseg nx pv pre q fy la None"
    and dist: "distinct fx" "distinct fy"
    and nx': "\<And>x. x \<in> set fx \<Longrightarrow> Some x \<noteq> m \<Longrightarrow> nx' x = nx x"
      "\<And>x. x \<in> set fy \<Longrightarrow> nx' x = nx x" "\<And>x. m = Some x \<Longrightarrow> nx' x = c"
    and pv': "\<And>x. x \<in> set fx \<Longrightarrow> pv' x = pv x"
      "\<And>x. x \<in> set fy \<Longrightarrow> Some x \<noteq> q \<Longrightarrow> pv' x = pv x" "\<And>x. q = Some x \<Longrightarrow> pv' x = m'"
    and p': "p' = (if m = None then c else p)"
    and mid: "dseg nx' pv' m c cs m' q"
  shows "dll nx' pv' p' (fx @ cs @ fy)"
proof -
  have left: "dseg nx' pv' None p' fx m c"
  proof (cases "fx = []")
    case True
    then show ?thesis using fx p' by simp
  next
    case False
    note e = dseg_ends(1,2,5)[OF fx False]
    show ?thesis
    proof (rule dseg_retarget[OF fx])
      show "nx' x = nx x" if "x \<in> set (butlast fx)" for x
        using that e(1) nx'(1) last_notin_butlast[OF dist(1) False] by (auto dest: in_set_butlastD)
      show "pv' x = pv x" if "x \<in> set (tl fx)" for x
        using that pv'(1) False by (auto dest: list.set_sel(2))
    qed (use False e nx'(3) pv'(1) p' in auto)
  qed
  have right: "dseg nx' pv' m' q fy (if fy = [] then m' else la) None"
  proof (cases "fy = []")
    case True
    then show ?thesis using fy by simp
  next
    case False
    note e = dseg_ends(1,2,5)[OF fy False]
    have end': "nx (last fy) = None"
      using fy False by (cases fy rule: rev_cases) (auto simp: dseg_append)
    show ?thesis
    proof (rule dseg_retarget[OF fy])
      show "nx' x = nx x" if "x \<in> set (butlast fy)" for x
        using that nx'(2) by (auto dest: in_set_butlastD)
      show "pv' x = pv x" if "x \<in> set (tl fy)" for x
        using that e(2) pv'(2) False hd_notin_tl[OF dist(2) False] by (auto dest: list.set_sel(2))
    qed (use False e nx'(2) end' pv'(3) in auto)
  qed
  show ?thesis unfolding dseg_append using left mid right by blast
qed

text \<open>Pushing a node on the front of a doubly linked list and popping it off.\<close>

lemma dll_push:
  assumes "dll nx pv p xs" and "distinct xs"
    and "\<And>x. x \<in> set xs \<Longrightarrow> nx' x = nx x" and "nx' a = p" and "pv' a = None"
    and "\<And>x. x \<in> set xs \<Longrightarrow> p \<noteq> Some x \<Longrightarrow> pv' x = pv x" and "\<And>x. p = Some x \<Longrightarrow> pv' x = Some a"
  shows "dll nx' pv' (Some a) (a # xs)"
proof -
  obtain la where la: "dseg nx pv None p xs la None" using assms(1) by blast
  have "dll nx' pv' (Some a) ([] @ [a] @ xs)"
    by (rule relink[where nx = nx and pv = pv and m = None and q = p and qe = p and p = p
          and pre = None and la = la and c = "Some a" and m' = "Some a"])
      (use assms la in auto)
  then show ?thesis by simp
qed

lemma dll_pop:
  assumes "dll nx pv (Some a) (a # xs)" and "distinct xs"
    and "\<And>x. x \<in> set xs \<Longrightarrow> nx' x = nx x"
    and "\<And>x. x \<in> set xs \<Longrightarrow> nx a \<noteq> Some x \<Longrightarrow> pv' x = pv x" and "\<And>x. nx a = Some x \<Longrightarrow> pv' x = None"
  shows "dll nx' pv' (nx a) xs"
proof -
  obtain la where la: "dseg nx pv (Some a) (nx a) xs la None" using assms(1) by auto
  have "dll nx' pv' (nx a) ([] @ [] @ xs)"
    by (rule relink[where nx = nx and pv = pv and m = None and q = "nx a" and qe = "nx a"
          and p = "nx a" and pre = "Some a" and la = la and c = "nx a" and m' = None])
      (use assms la in auto)
  then show ?thesis by simp
qed

end
