(* ===== verification/Config.thy ===== *)
theory Config
  imports Base
begin

text \<open>
  The build configuration: the values of \<open>configs/defconfig\<close>, which are also the fall-back
  values of \<open>include/rtos_config.h\<close>. Sizes are integers; a component that stores one in a
  fixed-width field converts it there.
\<close>

definition CONFIG_TICK_RATE_HZ :: int where "CONFIG_TICK_RATE_HZ = 1000"
definition CONFIG_MAX_TASKS :: nat where "CONFIG_MAX_TASKS = 32"
definition CONFIG_MAX_PRIORITY :: nat where "CONFIG_MAX_PRIORITY = 16"
definition CONFIG_IDLE_STACK_SIZE :: int where "CONFIG_IDLE_STACK_SIZE = 1024"
definition CONFIG_HEAP_SIZE :: int where "CONFIG_HEAP_SIZE = 16 * 1024 * 1024"
definition CONFIG_DMA_POOL_SIZE :: int where "CONFIG_DMA_POOL_SIZE = 4 * 1024 * 1024"
definition CONFIG_ZBUF_POOL_SIZE :: int where "CONFIG_ZBUF_POOL_SIZE = 2 * 1024 * 1024"
definition CONFIG_ZBUF_COUNT :: nat where "CONFIG_ZBUF_COUNT = 1024"
definition CONFIG_ZBUF_SIZE :: int where "CONFIG_ZBUF_SIZE = 2048"
definition CONFIG_ZBUF_HEADROOM :: int where "CONFIG_ZBUF_HEADROOM = 128"
definition CONFIG_NET_MAX_SOCKETS :: nat where "CONFIG_NET_MAX_SOCKETS = 64"
definition CONFIG_TCP_WINDOW_SIZE :: int where "CONFIG_TCP_WINDOW_SIZE = 65535"
definition CONFIG_MODBUS_MAX_REGS :: nat where "CONFIG_MODBUS_MAX_REGS = 256"
definition CONFIG_MODBUS_MAX_COILS :: nat where "CONFIG_MODBUS_MAX_COILS = 2048"
definition CONFIG_MODBUS_TCP_PORT :: int where "CONFIG_MODBUS_TCP_PORT = 502"

lemmas config_defs =
  CONFIG_TICK_RATE_HZ_def CONFIG_MAX_TASKS_def CONFIG_MAX_PRIORITY_def CONFIG_IDLE_STACK_SIZE_def
  CONFIG_HEAP_SIZE_def CONFIG_DMA_POOL_SIZE_def CONFIG_ZBUF_POOL_SIZE_def CONFIG_ZBUF_COUNT_def
  CONFIG_ZBUF_SIZE_def CONFIG_ZBUF_HEADROOM_def CONFIG_NET_MAX_SOCKETS_def
  CONFIG_TCP_WINDOW_SIZE_def CONFIG_MODBUS_MAX_REGS_def CONFIG_MODBUS_MAX_COILS_def
  CONFIG_MODBUS_TCP_PORT_def

end
