(* ===== verification/Heap_Alloc.thy ===== *)
theory Heap_Alloc
  imports Config
begin

text \<open>
  The kernel heap of \<open>kernel/memory.c\<close>: block headers kept at the addresses of the blocks, an
  address-ordered doubly linked free list, first-fit allocation with splitting, release with
  coalescing, aligned allocation and the statistics walk. The abstract view is the list of
  segments that tile the heap area.
\<close>

section \<open>State and operations\<close>

record heap_block =
  hb_size :: int
  hb_used :: bool
  hb_next :: ptr
  hb_prev :: ptr

text \<open>
  The heap: the address of the array \<open>heap_memory\<close>, the headers in memory (a header is read
  where the code casts an address to \<open>heap_block_t*\<close>; whatever is there is read), the free
  list, and the pointer words the aligned allocator stores in user memory.
\<close>

record heap =
  heap_memory :: addr
  heap_hdr :: "addr \<Rightarrow> heap_block"
  heap_free_list :: ptr
  heap_cell :: "addr \<Rightarrow> addr"

definition sizeof_heap_block :: int where "sizeof_heap_block = 32"
definition HEAP_BLOCK_ALIGN :: int where "HEAP_BLOCK_ALIGN = 16"
definition HEAP_MIN_SIZE :: int where "HEAP_MIN_SIZE = sizeof_heap_block + HEAP_BLOCK_ALIGN"

lemmas heap_consts = sizeof_heap_block_def HEAP_BLOCK_ALIGN_def HEAP_MIN_SIZE_def

text \<open>Writes through a header pointer.\<close>

definition upd_hdr :: "addr \<Rightarrow> (heap_block \<Rightarrow> heap_block) \<Rightarrow> heap \<Rightarrow> heap" where
  "upd_hdr a f s = s\<lparr>heap_hdr := (heap_hdr s)(a := f (heap_hdr s a))\<rparr>"

definition set_prev_of :: "ptr \<Rightarrow> ptr \<Rightarrow> heap \<Rightarrow> heap" where
  "set_prev_of p v s = (case p of None \<Rightarrow> s | Some a \<Rightarrow> upd_hdr a (hb_prev_update (\<lambda>_. v)) s)"

text \<open>\<open>if (p != NULL) p->next = v; else heap_free_list = v;\<close>\<close>

definition set_next_or_head :: "ptr \<Rightarrow> ptr \<Rightarrow> heap \<Rightarrow> heap" where
  "set_next_or_head p v s =
     (case p of None \<Rightarrow> s\<lparr>heap_free_list := v\<rparr>
      | Some a \<Rightarrow> upd_hdr a (hb_next_update (\<lambda>_. v)) s)"

definition heap_init :: "heap \<Rightarrow> heap" where
  "heap_init s =
     s\<lparr>heap_hdr := (heap_hdr s)(heap_memory s :=
         \<lparr>hb_size = CONFIG_HEAP_SIZE, hb_used = False, hb_next = None, hb_prev = None\<rparr>),
       heap_free_list := Some (heap_memory s)\<rparr>"

text \<open>The size rounding of \<open>heap_alloc\<close>, in the 64-bit arithmetic of \<open>size_t\<close>.\<close>

definition heap_request :: "u64 \<Rightarrow> u64" where
  "heap_request n =
     (let sz = (n + of_int sizeof_heap_block + of_int HEAP_BLOCK_ALIGN - 1)
                 AND NOT (of_int HEAP_BLOCK_ALIGN - 1)
      in if sz < of_int HEAP_MIN_SIZE then of_int HEAP_MIN_SIZE else sz)"

text \<open>The first-fit walk; \<open>None\<close> when the list never ends.\<close>

partial_function (option) heap_find :: "(addr \<Rightarrow> heap_block) \<Rightarrow> int \<Rightarrow> ptr \<Rightarrow> ptr option" where
  "heap_find h n p =
     (case p of
        None \<Rightarrow> Some None
      | Some b \<Rightarrow> if \<not> hb_used (h b) \<and> n \<le> hb_size (h b) then Some (Some b)
                  else heap_find h n (hb_next (h b)))"

definition heap_split :: "addr \<Rightarrow> int \<Rightarrow> heap \<Rightarrow> heap" where
  "heap_split b n s =
     (let blk = heap_hdr s b; c = b + n in
      if n + HEAP_MIN_SIZE \<le> hb_size blk then
        upd_hdr b (\<lambda>k. k\<lparr>hb_next := Some c, hb_size := n\<rparr>)
          (set_prev_of (hb_next blk) (Some c)
            (upd_hdr c (\<lambda>_. \<lparr>hb_size = hb_size blk - n, hb_used = False,
                             hb_next = hb_next blk, hb_prev = Some b\<rparr>) s))
      else s)"

definition heap_unlink :: "addr \<Rightarrow> heap \<Rightarrow> heap" where
  "heap_unlink b s =
     (let blk = heap_hdr s b in
      set_prev_of (hb_next blk) (hb_prev blk) (set_next_or_head (hb_prev blk) (hb_next blk) s))"

definition heap_alloc :: "u64 \<Rightarrow> heap \<Rightarrow> (ptr \<times> heap) option" where
  "heap_alloc n s =
     (if n = 0 then Some (None, s)
      else do {
        let sz = uint (heap_request n);
        r \<leftarrow> heap_find (heap_hdr s) sz (heap_free_list s);
        case r of
          None \<Rightarrow> Some (None, s)
        | Some b \<Rightarrow>
            let s = heap_split b sz s;
                s = upd_hdr b (hb_used_update (\<lambda>_. True)) s;
                s = heap_unlink b s
            in Some (Some (b + sizeof_heap_block), s)
      })"

text \<open>The walk to the insertion point: the last free block below \<open>b\<close> and the first above.\<close>

partial_function (option) heap_pos ::
    "(addr \<Rightarrow> heap_block) \<Rightarrow> addr \<Rightarrow> ptr \<Rightarrow> ptr \<Rightarrow> (ptr \<times> ptr) option" where
  "heap_pos h b prev_free next_free =
     (if next_free \<noteq> None \<and> the next_free < b
      then heap_pos h b next_free (hb_next (h (the next_free)))
      else Some (prev_free, next_free))"

text \<open>Block \<open>b\<close> swallows block \<open>d\<close>: the body of both coalescing steps.\<close>

definition heap_absorb :: "addr \<Rightarrow> addr \<Rightarrow> heap \<Rightarrow> heap" where
  "heap_absorb b d s =
     (let s = upd_hdr b (\<lambda>k. k\<lparr>hb_size := hb_size k + hb_size (heap_hdr s d),
                              hb_next := hb_next (heap_hdr s d)\<rparr>) s
      in set_prev_of (hb_next (heap_hdr s b)) (Some b) s)"

definition heap_insert :: "addr \<Rightarrow> ptr \<Rightarrow> ptr \<Rightarrow> heap \<Rightarrow> heap" where
  "heap_insert b prev_free next_free s =
     set_prev_of next_free (Some b) (set_next_or_head prev_free (Some b)
       (upd_hdr b (\<lambda>k. k\<lparr>hb_prev := prev_free, hb_next := next_free\<rparr>) s))"

definition heap_coalesce_next :: "addr \<Rightarrow> ptr \<Rightarrow> heap \<Rightarrow> heap" where
  "heap_coalesce_next b next_free s =
     (case next_free of
        None \<Rightarrow> s
      | Some d \<Rightarrow> if b + hb_size (heap_hdr s b) = d then heap_absorb b d s else s)"

definition heap_coalesce_prev :: "addr \<Rightarrow> ptr \<Rightarrow> heap \<Rightarrow> heap" where
  "heap_coalesce_prev b prev_free s =
     (case prev_free of
        None \<Rightarrow> s
      | Some m \<Rightarrow> if m + hb_size (heap_hdr s m) = b then heap_absorb m b s else s)"

definition heap_free :: "ptr \<Rightarrow> heap \<Rightarrow> heap option" where
  "heap_free p s =
     (case p of
        None \<Rightarrow> Some s
      | Some ptr \<Rightarrow>
          let b = ptr - sizeof_heap_block;
              s = upd_hdr b (hb_used_update (\<lambda>_. False)) s
          in do {
            (prev_free, next_free) \<leftarrow> heap_pos (heap_hdr s) b None (heap_free_list s);
            let s = heap_insert b prev_free next_free s;
            let s = heap_coalesce_next b next_free s;
            let s = heap_coalesce_prev b prev_free s;
            Some s
          })"

text \<open>
  Aligned allocation over-allocates, rounds up inside the block and leaves the raw pointer in the
  word before the address it returns (\<open>((void **)aligned)[-1] = raw\<close>).
\<close>

definition sizeof_voidp :: int where "sizeof_voidp = 8"

definition heap_alloc_aligned :: "u64 \<Rightarrow> u64 \<Rightarrow> heap \<Rightarrow> (ptr \<times> heap) option" where
  "heap_alloc_aligned n alignment s =
     (let alignment = (if alignment < of_int HEAP_BLOCK_ALIGN then of_int HEAP_BLOCK_ALIGN
                       else alignment);
          total = n + alignment + of_int sizeof_voidp
      in do {
        (raw, s) \<leftarrow> heap_alloc total s;
        case raw of
          None \<Rightarrow> Some (None, s)
        | Some r \<Rightarrow>
            let aligned = uint ((of_int r + of_int sizeof_voidp + alignment - 1)
                                  AND NOT (alignment - 1))
            in Some (Some aligned, s\<lparr>heap_cell := (heap_cell s)(aligned - sizeof_voidp := r)\<rparr>)
      })"

definition heap_free_aligned :: "ptr \<Rightarrow> heap \<Rightarrow> heap option" where
  "heap_free_aligned p s =
     (case p of
        None \<Rightarrow> Some s
      | Some a \<Rightarrow> heap_free (Some (heap_cell s (a - sizeof_voidp))) s)"

record heap_stats =
  hs_total_size :: int
  hs_used_size :: int
  hs_free_size :: int
  hs_largest_free :: int
  hs_block_count :: int

text \<open>The statistics walk over all blocks; \<open>None\<close> when a block of size zero stops its progress.\<close>

partial_function (option) heap_walk ::
    "(addr \<Rightarrow> heap_block) \<Rightarrow> addr \<Rightarrow> addr \<Rightarrow> heap_stats \<Rightarrow> heap_stats option" where
  "heap_walk h e b st =
     (if b < e then
        heap_walk h e (b + hb_size (h b))
          (let st = st\<lparr>hs_block_count := hs_block_count st + 1\<rparr> in
           if hb_used (h b) then st\<lparr>hs_used_size := hs_used_size st + hb_size (h b)\<rparr>
           else st\<lparr>hs_free_size := hs_free_size st + hb_size (h b),
                   hs_largest_free := (if hs_largest_free st < hb_size (h b) then hb_size (h b)
                                    else hs_largest_free st)\<rparr>)
      else Some st)"

definition heap_get_stats :: "heap \<Rightarrow> heap_stats option" where
  "heap_get_stats s =
     heap_walk (heap_hdr s) (heap_memory s + CONFIG_HEAP_SIZE) (heap_memory s)
       \<lparr>hs_total_size = CONFIG_HEAP_SIZE, hs_used_size = 0, hs_free_size = 0, hs_largest_free = 0,
        hs_block_count = 0\<rparr>"

end
