(* ===== verification/Allocator.thy ===== *)
theory Allocator
  imports Base
begin

text \<open>
  The interface of a block allocator: \<open>alloc\<close> hands out an address that is not live or refuses,
  \<open>free\<close> takes a live address back, both keep the provider's representation. The client lemma is
  proved once, for any sequence of requests and releases; the kernel heap and the fixed-block
  memory pool are its two providers.
\<close>

datatype 'n client_op = Get 'n | Put nat

text \<open>
  A client that holds a list of blocks: \<open>Get\<close> adds what the allocator returns, \<open>Put i\<close> gives the
  \<open>i\<close>-th held block back (nothing when there is none).
\<close>

fun client_run ::
    "('n \<Rightarrow> 's \<Rightarrow> (ptr \<times> 's) option) \<Rightarrow> (addr \<Rightarrow> 's \<Rightarrow> 's option) \<Rightarrow> 'n client_op list
      \<Rightarrow> addr list \<Rightarrow> 's \<Rightarrow> (addr list \<times> 's) option" where
  "client_run al fr [] held s = Some (held, s)"
| "client_run al fr (Get n # ops) held s = do {
     (p, s) \<leftarrow> al n s;
     client_run al fr ops (case p of None \<Rightarrow> held | Some a \<Rightarrow> held @ [a]) s
   }"
| "client_run al fr (Put i # ops) held s =
     (if i < length held then do {
        s \<leftarrow> fr (held ! i) s;
        client_run al fr ops (take i held @ drop (Suc i) held) s
      } else client_run al fr ops held s)"

locale allocator =
  fixes rep :: "'s \<Rightarrow> 'r \<Rightarrow> bool"
    and live :: "'r \<Rightarrow> addr set"
    and alloc :: "'n \<Rightarrow> 's \<Rightarrow> (ptr \<times> 's) option"
    and free :: "addr \<Rightarrow> 's \<Rightarrow> 's option"
  assumes alloc_law: "rep s r \<Longrightarrow>
      \<exists>p s' r'. alloc n s = Some (p, s') \<and> rep s' r' \<and>
        (case p of None \<Rightarrow> live r' = live r | Some a \<Rightarrow> a \<notin> live r \<and> live r' = insert a (live r))"
    and free_law: "rep s r \<Longrightarrow> a \<in> live r \<Longrightarrow>
      \<exists>s' r'. free a s = Some s' \<and> rep s' r' \<and> live r' = live r - {a}"
begin

lemma client_run_safe:
  assumes "rep s r" and "distinct held" and "set held = live r"
  shows "\<exists>held' s' r'. client_run alloc free ops held s = Some (held', s') \<and> rep s' r' \<and>
           distinct held' \<and> set held' = live r'"
  using assms
proof (induction ops arbitrary: held s r)
  case Nil
  then show ?case by auto
next
  case (Cons op ops)
  show ?case
  proof (cases op)
    case (Get n)
    obtain p s' r' where al: "alloc n s = Some (p, s')" and rep': "rep s' r'" and
      p: "case p of None \<Rightarrow> live r' = live r | Some a \<Rightarrow> a \<notin> live r \<and> live r' = insert a (live r)"
      using alloc_law[OF Cons.prems(1)] by blast
    show ?thesis
      using Cons.IH[OF rep', of "case p of None \<Rightarrow> held | Some a \<Rightarrow> held @ [a]"] Cons.prems p
      by (cases p) (auto simp: Get al)
  next
    case (Put i)
    show ?thesis
    proof (cases "i < length held")
      case True
      then have "held ! i \<in> live r" using Cons.prems(3) nth_mem by blast
      then obtain s' r' where fr: "free (held ! i) s = Some s'" "rep s' r'"
        "live r' = live r - {held ! i}" using free_law[OF Cons.prems(1)] by blast
      have split: "held = take i held @ held ! i # drop (Suc i) held"
        using True by (simp add: id_take_nth_drop)
      then have d: "distinct (take i held @ held ! i # drop (Suc i) held)"
        using Cons.prems(2) by metis
      have "set (take i held @ drop (Suc i) held) =
          set (take i held @ held ! i # drop (Suc i) held) - {held ! i}"
        using d by auto
      also have "\<dots> = live r'" using split Cons.prems(3) fr(3) by metis
      finally have "set (take i held @ drop (Suc i) held) = live r'" .
      then show ?thesis
        using Cons.IH[OF fr(2), of "take i held @ drop (Suc i) held"] d True fr(1)
        by (auto simp: Put)
    next
      case False
      then show ?thesis using Cons by (auto simp: Put)
    qed
  qed
qed

end

end
