(* ===== verification/Heap_Refine.thy ===== *)
theory Heap_Refine
  imports Heap_Alloc Allocator
begin

text \<open>
  The abstract heap (a list of segments that tile the heap area), first-fit allocation and
  coalescing on it, and the refinement: every operation of the code keeps the relation between
  the headers in memory and the segments, and does to the segments what the specification says.
\<close>

section \<open>The abstract heap\<close>

datatype seg = Seg (seg_addr: addr) (seg_size: int) (seg_used: bool)

text \<open>The segments fill the addresses from \<open>a\<close> to \<open>e\<close> without gap or overlap.\<close>

fun tiles :: "addr \<Rightarrow> seg list \<Rightarrow> addr \<Rightarrow> bool" where
  "tiles a [] e \<longleftrightarrow> a = e"
| "tiles a (Seg b z u # r) e \<longleftrightarrow> b = a \<and> HEAP_MIN_SIZE \<le> z \<and> 16 dvd z \<and> tiles (a + z) r e"

definition free_addrs :: "seg list \<Rightarrow> addr list" where
  "free_addrs r = map seg_addr (filter (\<lambda>g. \<not> seg_used g) r)"

text \<open>No two free segments are neighbours.\<close>

fun coalesced :: "seg list \<Rightarrow> bool" where
  "coalesced [] \<longleftrightarrow> True"
| "coalesced [g] \<longleftrightarrow> True"
| "coalesced (g # g' # r) \<longleftrightarrow> (seg_used g \<or> seg_used g') \<and> coalesced (g' # r)"

fun ff_alloc :: "int \<Rightarrow> seg list \<Rightarrow> (addr \<times> seg list) option" where
  "ff_alloc n [] = None"
| "ff_alloc n (Seg a z u # r) =
     (if \<not> u \<and> n \<le> z then
        Some (a, if n + HEAP_MIN_SIZE \<le> z then Seg a n True # Seg (a + n) (z - n) False # r
                 else Seg a z True # r)
      else map_option (\<lambda>(b, r'). (b, Seg a z u # r')) (ff_alloc n r))"

text \<open>Release: mark the segment free, then merge every run of free neighbours.\<close>

fun mark_free :: "addr \<Rightarrow> seg list \<Rightarrow> seg list" where
  "mark_free b [] = []"
| "mark_free b (Seg a z u # r) = (if a = b then Seg a z False # r else Seg a z u # mark_free b r)"

fun merge_free :: "seg list \<Rightarrow> seg list" where
  "merge_free [] = []"
| "merge_free (Seg a z u # r) =
     (case merge_free r of
        Seg b y False # r' \<Rightarrow> if u then Seg a z u # Seg b y False # r' else Seg a (z + y) False # r'
      | r' \<Rightarrow> Seg a z u # r')"

definition seg_rep :: "(addr \<Rightarrow> heap_block) \<Rightarrow> seg \<Rightarrow> bool" where
  "seg_rep h g \<longleftrightarrow> hb_size (h (seg_addr g)) = seg_size g \<and> hb_used (h (seg_addr g)) = seg_used g"

definition heap_rep :: "heap \<Rightarrow> seg list \<Rightarrow> bool" where
  "heap_rep s r \<longleftrightarrow>
     tiles (heap_memory s) r (heap_memory s + CONFIG_HEAP_SIZE) \<and>
     (\<forall>g \<in> set r. seg_rep (heap_hdr s) g) \<and>
     dll (\<lambda>a. hb_next (heap_hdr s a)) (\<lambda>a. hb_prev (heap_hdr s a)) (heap_free_list s) (free_addrs r)"

definition heap_inv :: "heap \<Rightarrow> seg list \<Rightarrow> bool" where
  "heap_inv s r \<longleftrightarrow> heap_rep s r \<and> coalesced r"

section \<open>Facts on segment lists\<close>

lemma free_addrs_simps [simp]:
  "free_addrs [] = []"
  "free_addrs (Seg a z u # r) = (if u then free_addrs r else a # free_addrs r)"
  "free_addrs (r @ r') = free_addrs r @ free_addrs r'"
  by (simp_all add: free_addrs_def)

lemma tiles_append: "tiles a (r @ r') e \<longleftrightarrow> (\<exists>m. tiles a r m \<and> tiles m r' e)"
  by (induction a r e rule: tiles.induct) auto

lemma tiles_le: "tiles a r e \<Longrightarrow> a \<le> e"
  by (induction a r e rule: tiles.induct) (auto simp: heap_consts)

lemma tiles_bounds:
  "tiles a r e \<Longrightarrow> g \<in> set r \<Longrightarrow>
     a \<le> seg_addr g \<and> seg_addr g + seg_size g \<le> e \<and> HEAP_MIN_SIZE \<le> seg_size g"
proof (induction a r e rule: tiles.induct)
  case (2 a b z u r e)
  then show ?case using tiles_le[of "a + z" r e] by (auto simp: heap_consts)
qed simp

lemma tiles_free_bounds: "tiles a r e \<Longrightarrow> x \<in> set (free_addrs r) \<Longrightarrow> a \<le> x \<and> x < e"
  using tiles_bounds[of a r e] by (fastforce simp: free_addrs_def heap_consts)

lemma tiles_addr_notin:
  assumes "tiles a r m" and "tiles m (Seg b z u # r') e"
  shows "b \<notin> seg_addr ` set r" and "b \<notin> seg_addr ` set r'"
proof -
  show "b \<notin> seg_addr ` set r"
    using assms tiles_bounds[OF assms(1)] by (fastforce simp: heap_consts)
  show "b \<notin> seg_addr ` set r'"
    using assms tiles_bounds[of "m + z" r' e] by (fastforce simp: heap_consts)
qed

lemma tiles_distinct: "tiles a r e \<Longrightarrow> distinct (map seg_addr r)"
proof (induction a r e rule: tiles.induct)
  case (2 a b z u r e)
  then show ?case using tiles_bounds[of "a + z" r e] by (fastforce simp: heap_consts)
qed simp

lemma tiles_sorted: "tiles a r e \<Longrightarrow> sorted (map seg_addr r)"
proof (induction a r e rule: tiles.induct)
  case (2 a b z u r e)
  then show ?case using tiles_bounds[of "a + z" r e] by (fastforce simp: heap_consts)
qed simp

text \<open>Allocated segments do not overlap: the two ranges of a tiling are disjoint.\<close>

lemma tiles_disjoint:
  assumes "tiles a r e" and "g \<in> set r" and "g' \<in> set r" and "seg_addr g < seg_addr g'"
  shows "seg_addr g + seg_size g \<le> seg_addr g'"
  using assms
proof (induction a r e rule: tiles.induct)
  case (2 a b z u r e)
  then show ?case
    using tiles_bounds[of "a + z" r e g] tiles_bounds[of "a + z" r e g'] by (auto simp: heap_consts)
qed simp

lemma ff_alloc_SomeD:
  "ff_alloc n r = Some (b, r') \<Longrightarrow>
     \<exists>xs z ys. r = xs @ Seg b z False # ys \<and> n \<le> z \<and>
       r' = xs @ (if n + HEAP_MIN_SIZE \<le> z then Seg b n True # Seg (b + n) (z - n) False # ys
                  else Seg b z True # ys)"
proof (induction n r arbitrary: r' rule: ff_alloc.induct)
  case (2 n a z u r)
  show ?case
  proof (cases "\<not> u \<and> n \<le> z")
    case True
    then show ?thesis using 2(2) by (intro exI[of _ "[]"]) (auto split: if_splits)
  next
    case False
    then obtain r'' where r'': "ff_alloc n r = Some (b, r'')" "r' = Seg a z u # r''"
      using 2(2) by (auto split: if_splits)
    then obtain xs y ys where "r = xs @ Seg b y False # ys \<and> n \<le> y \<and>
       r'' = xs @ (if n + HEAP_MIN_SIZE \<le> y then Seg b n True # Seg (b + n) (y - n) False # ys
                  else Seg b y True # ys)" using 2(1)[OF False] by blast
    then show ?thesis using r''(2)
      by (intro exI[of _ "Seg a z u # xs"] exI[of _ y] exI[of _ ys]) simp
  qed
qed simp

section \<open>The first-fit walk\<close>

lemma heap_find_sseg:
  "sseg (\<lambda>a. hb_next (h a)) p xs \<Longrightarrow>
     heap_find h n p = Some (List.find (\<lambda>b. \<not> hb_used (h b) \<and> n \<le> hb_size (h b)) xs)"
proof (induction xs arbitrary: p)
  case Nil
  then show ?case by (simp add: heap_find.simps)
next
  case (Cons x xs)
  then show ?case by (subst heap_find.simps) auto
qed

lemma find_free_addrs:
  "\<forall>g \<in> set r. seg_rep h g \<Longrightarrow>
     List.find (\<lambda>b. \<not> hb_used (h b) \<and> n \<le> hb_size (h b)) (free_addrs r) =
     map_option fst (ff_alloc n r)"
  by (induction n r rule: ff_alloc.induct)
    (auto simp: seg_rep_def option.map_comp comp_def case_prod_beta)

lemma heap_find_rep:
  assumes "heap_rep s r"
  shows "heap_find (heap_hdr s) n (heap_free_list s) = Some (map_option fst (ff_alloc n r))"
proof -
  have "sseg (\<lambda>a. hb_next (heap_hdr s a)) (heap_free_list s) (free_addrs r)"
    using assms by (auto simp: heap_rep_def dest: dseg_sseg)
  then show ?thesis
    using assms by (simp add: heap_find_sseg find_free_addrs heap_rep_def)
qed

section \<open>Link updates\<close>

lemmas heap_upd_defs = upd_hdr_def set_prev_of_def set_next_or_head_def

abbreviation nxt :: "heap \<Rightarrow> addr \<Rightarrow> ptr" where "nxt s a \<equiv> hb_next (heap_hdr s a)"
abbreviation prv :: "heap \<Rightarrow> addr \<Rightarrow> ptr" where "prv s a \<equiv> hb_prev (heap_hdr s a)"

text \<open>
  What the representation says around one free segment \<open>b\<close>: the free list before it, its own
  links, the free list after it, and that its address occurs nowhere else.
\<close>

lemma heap_rep_around:
  assumes "heap_rep s (xs @ Seg b z False # ys)"
  obtains la where
    "dseg (nxt s) (prv s) None (heap_free_list s) (free_addrs xs) (prv s b) (Some b)"
    "dseg (nxt s) (prv s) (Some b) (nxt s b) (free_addrs ys) la None"
    "tiles (heap_memory s) xs b" "HEAP_MIN_SIZE \<le> z" "16 dvd z"
    "tiles (b + z) ys (heap_memory s + CONFIG_HEAP_SIZE)"
    "\<forall>g \<in> set xs \<union> set ys. seg_rep (heap_hdr s) g"
    "hb_size (heap_hdr s b) = z" "\<not> hb_used (heap_hdr s b)"
  using assms by (auto simp: heap_rep_def dseg_append tiles_append seg_rep_def)

lemma free_addrs_distinct: "tiles a r e \<Longrightarrow> distinct (free_addrs r)"
  using tiles_distinct[of a r e] by (simp add: free_addrs_def distinct_map_filter)


section \<open>Taking a block\<close>

lemma free_addrs_ends:
  assumes fx: "dseg nx pv None p (free_addrs xs) m q" and fy: "dseg nx pv pr q' (free_addrs ys) la None"
    and "tiles a xs b" "tiles e ys f" "b < e"
  shows "m = Some x \<Longrightarrow> x \<in> set (free_addrs xs) \<and> x < b"
    and "q' = Some x \<Longrightarrow> x \<in> set (free_addrs ys) \<and> e \<le> x"
proof -
  show "x \<in> set (free_addrs xs) \<and> x < b" if "m = Some x"
  proof -
    have "free_addrs xs \<noteq> []" using dseg_ends(3)[OF fx] that by auto
    then have "x \<in> set (free_addrs xs)" using dseg_ends(1)[OF fx] that by auto
    then show ?thesis using tiles_free_bounds[OF assms(3)] by auto
  qed
  show "x \<in> set (free_addrs ys) \<and> e \<le> x" if "q' = Some x"
  proof -
    have "free_addrs ys \<noteq> []" using dseg_ends(4)[OF fy] that by auto
    then have "x \<in> set (free_addrs ys)" using dseg_ends(2)[OF fy] that by auto
    then show ?thesis using tiles_free_bounds[OF assms(4)] by auto
  qed
qed

lemma seg_rep_upd:
  "b \<noteq> seg_addr g \<Longrightarrow> seg_rep (h(b := k)) g = seg_rep h g"
  by (simp add: seg_rep_def)

lemma heap_take_whole:
  assumes rep: "heap_rep s (xs @ Seg b z False # ys)"
  shows "heap_rep (heap_unlink b (upd_hdr b (hb_used_update (\<lambda>_. True)) s)) (xs @ Seg b z True # ys)"
proof -
  let ?s = "heap_unlink b (upd_hdr b (hb_used_update (\<lambda>_. True)) s)"
  from rep obtain la where
    fx: "dseg (nxt s) (prv s) None (heap_free_list s) (free_addrs xs) (prv s b) (Some b)" and
    fy: "dseg (nxt s) (prv s) (Some b) (nxt s b) (free_addrs ys) la None" and
    tx: "tiles (heap_memory s) xs b" and z: "HEAP_MIN_SIZE \<le> z" "16 dvd z" and
    ty: "tiles (b + z) ys (heap_memory s + CONFIG_HEAP_SIZE)" and
    rs: "\<forall>g \<in> set xs \<union> set ys. seg_rep (heap_hdr s) g" and
    hb: "hb_size (heap_hdr s b) = z" "\<not> hb_used (heap_hdr s b)"
    by (rule heap_rep_around) blast
  have bz: "b < b + z" using z by (simp add: heap_consts)
  note ends = free_addrs_ends[OF fx fy tx ty bz]
  have inx: "x < b" "nxt s b \<noteq> Some x" if "x \<in> set (free_addrs xs)" for x
    using tiles_free_bounds[OF tx that] ends(2)[of x] bz by auto
  have iny: "b + z \<le> x" "prv s b \<noteq> Some x" if "x \<in> set (free_addrs ys)" for x
    using tiles_free_bounds[OF ty that] ends(1)[of x] bz by auto
  have nx': "nxt ?s x = (if prv s b = Some x then nxt s b else nxt s x)" for x
    using ends bz by (auto simp: heap_unlink_def heap_upd_defs Let_def split: option.splits)
  have pv': "prv ?s x = (if nxt s b = Some x then prv s b else prv s x)" for x
    using ends bz by (auto simp: heap_unlink_def heap_upd_defs Let_def split: option.splits)
  have fl: "heap_free_list ?s = (if prv s b = None then nxt s b else heap_free_list s)"
    by (auto simp: heap_unlink_def heap_upd_defs Let_def split: option.splits)
  have "dll (nxt ?s) (prv ?s) (heap_free_list ?s) (free_addrs xs @ [] @ free_addrs ys)"
    by (rule relink[OF fx fy])
      (use tx ty fl in \<open>auto simp: nx' pv' inx iny intro: free_addrs_distinct\<close>)
  moreover have "hb_size (heap_hdr ?s x) = hb_size (heap_hdr s x)"
    "hb_used (heap_hdr ?s x) = (x = b \<or> hb_used (heap_hdr s x))" for x
    by (simp_all add: heap_unlink_def heap_upd_defs Let_def split: option.split)
  then have "\<forall>g \<in> set (xs @ Seg b z True # ys). seg_rep (heap_hdr ?s) g"
    using rs hb tiles_addr_notin[of _ xs b b z False ys] tx ty z
    by (auto simp: seg_rep_def)
  moreover have "heap_memory ?s = heap_memory s"
    by (auto simp: heap_unlink_def heap_upd_defs Let_def split: option.splits)
  ultimately show ?thesis
    using tx ty z by (auto simp: heap_rep_def tiles_append)
qed

lemma heap_split_rep:
  assumes rep: "heap_rep s (xs @ Seg b z False # ys)"
    and n: "HEAP_MIN_SIZE \<le> n" "16 dvd n"
  shows "heap_rep (heap_split b n s)
           (xs @ (if n + HEAP_MIN_SIZE \<le> z then Seg b n False # Seg (b + n) (z - n) False # ys
                  else Seg b z False # ys))"
proof (cases "n + HEAP_MIN_SIZE \<le> z")
  case False
  have "hb_size (heap_hdr s b) = z"
    using rep by (auto simp: heap_rep_def seg_rep_def)
  then show ?thesis using False rep by (simp add: heap_split_def Let_def)
next
  case True
  let ?s = "heap_split b n s"
  from rep obtain la where
    fx: "dseg (nxt s) (prv s) None (heap_free_list s) (free_addrs xs) (prv s b) (Some b)" and
    fy: "dseg (nxt s) (prv s) (Some b) (nxt s b) (free_addrs ys) la None" and
    tx: "tiles (heap_memory s) xs b" and z: "HEAP_MIN_SIZE \<le> z" "16 dvd z" and
    ty: "tiles (b + z) ys (heap_memory s + CONFIG_HEAP_SIZE)" and
    rs: "\<forall>g \<in> set xs \<union> set ys. seg_rep (heap_hdr s) g" and
    hb: "hb_size (heap_hdr s b) = z" "\<not> hb_used (heap_hdr s b)"
    by (rule heap_rep_around) blast
  have bz: "b < b + z" and nz: "0 < n" "n < z" using n True by (auto simp: heap_consts)
  note ends = free_addrs_ends[OF fx fy tx ty bz]
  have inx: "x < b" "nxt s b \<noteq> Some x" if "x \<in> set (free_addrs xs)" for x
    using tiles_free_bounds[OF tx that] ends(2)[of x] bz by auto
  have iny: "b + n < x" "prv s b \<noteq> Some x" if "x \<in> set (free_addrs ys)" for x
    using tiles_free_bounds[OF ty that] ends(1)[of x] bz nz by auto
  have hdr: "heap_hdr ?s x =
      (if x = b then (heap_hdr s b)\<lparr>hb_next := Some (b + n), hb_size := n\<rparr>
       else if x = b + n then \<lparr>hb_size = z - n, hb_used = False, hb_next = nxt s b, hb_prev = Some b\<rparr>
       else if nxt s b = Some x then (heap_hdr s x)\<lparr>hb_prev := Some (b + n)\<rparr>
       else heap_hdr s x)" for x
    using True hb(1) ends nz
    by (auto simp: heap_split_def heap_upd_defs Let_def split: option.splits)
  have fl: "heap_free_list ?s = heap_free_list s" "heap_memory ?s = heap_memory s"
    by (auto simp: heap_split_def heap_upd_defs Let_def split: option.splits)
  have bn: "nxt s b \<noteq> Some b" "prv s b \<noteq> Some b" "nxt s b \<noteq> Some (b + n)" "prv s b \<noteq> Some (b + n)"
    using ends[of b] ends[of "b + n"] nz by auto
  have m: "nxt s x = Some b" "x < b" if "prv s b = Some x" for x
  proof -
    have ne: "free_addrs xs \<noteq> []" using dseg_ends(3)[OF fx] that by auto
    then have "x = last (free_addrs xs)" using dseg_ends(1)[OF fx] that by simp
    then show "nxt s x = Some b"
      using fx ne by (cases "free_addrs xs" rule: rev_cases) (auto simp: dseg_append)
    show "x < b" using ends(1)[OF that] by simp
  qed
  have "dll (nxt ?s) (prv ?s) (heap_free_list ?s) (free_addrs xs @ [b, b + n] @ free_addrs ys)"
  proof (rule relink[OF fx fy])
    show "heap_free_list ?s = (if prv s b = None then Some b else heap_free_list s)"
      using fl dseg_ends(1,4)[OF fx] by (cases "free_addrs xs = []") auto
  qed (use tx ty nz bn m in \<open>auto simp: hdr dest: inx iny intro: free_addrs_distinct\<close>)
  moreover have "\<forall>g \<in> set (xs @ Seg b n False # Seg (b + n) (z - n) False # ys). seg_rep (heap_hdr ?s) g"
  proof
    fix g assume "g \<in> set (xs @ Seg b n False # Seg (b + n) (z - n) False # ys)"
    then consider "g \<in> set xs" | "g \<in> set ys" | "g = Seg b n False" | "g = Seg (b + n) (z - n) False"
      by auto
    then show "seg_rep (heap_hdr ?s) g"
    proof cases
      case 1
      then have "seg_addr g \<noteq> b" "seg_addr g \<noteq> b + n" "seg_rep (heap_hdr s) g"
        using rs tiles_bounds[OF tx, of g] nz by (auto simp: heap_consts)
      then show ?thesis by (simp add: seg_rep_def hdr)
    next
      case 2
      then have "seg_addr g \<noteq> b" "seg_addr g \<noteq> b + n" "seg_rep (heap_hdr s) g"
        using rs tiles_bounds[OF ty, of g] nz by auto
      then show ?thesis by (simp add: seg_rep_def hdr)
    qed (use hb nz in \<open>auto simp: seg_rep_def hdr\<close>)
  qed
  ultimately show ?thesis
    using tx ty n z True fl by (auto simp: heap_rep_def tiles_append)
qed

section \<open>Allocation\<close>

lemma heap_request_alt:
  "heap_request n = (let sz = (n + 47) AND NOT (mask 4) in if sz < 48 then 48 else sz)"
proof -
  have "NOT (mask 4 :: u64) = NOT 15" by (simp add: mask_eq_exp_minus_1)
  then show ?thesis by (simp add: heap_request_def heap_consts Let_def add.commute[of n 47])
qed

lemma uint_heap_request:
  "uint (heap_request n) = max 48 (uint (n + 47) div 16 * 16)"
  by (auto simp: heap_request_alt Let_def uint_and_not_mask word_less_def)

lemma heap_request_ok: "HEAP_MIN_SIZE \<le> uint (heap_request n)" "16 dvd uint (heap_request n)"
proof -
  have "uint (n + 47) div 16 * 16 \<ge> 48 \<or> max 48 (uint (n + 47) div 16 * 16) = 48" by linarith
  then show "HEAP_MIN_SIZE \<le> uint (heap_request n)" "16 dvd uint (heap_request n)"
    unfolding uint_heap_request by (auto simp: heap_consts max_def)
qed

text \<open>Without wrap-around the rounded size holds the header and the request, and wastes less than 48 bytes.\<close>

lemma heap_request_fits:
  assumes "n \<noteq> 0" and "uint n \<le> 2 ^ 64 - 48"
  shows "uint n + sizeof_heap_block \<le> uint (heap_request n)"
    and "uint (heap_request n) < uint n + sizeof_heap_block + 48"
proof -
  have "uint n \<noteq> 0" using assms(1) by (metis uint_0_iff)
  then have "1 \<le> uint n" using uint_ge_0[of n] by linarith
  moreover have "uint (n + 47) = uint n + 47" using assms(2) by (subst uint_add_no_wrap) auto
  ultimately show "uint n + sizeof_heap_block \<le> uint (heap_request n)"
    "uint (heap_request n) < uint n + sizeof_heap_block + 48"
    unfolding uint_heap_request heap_consts by linarith+
qed

lemma coalesced_append_Cons:
  "coalesced (xs @ g # ys) \<longleftrightarrow>
     coalesced xs \<and> coalesced ys \<and> (xs \<noteq> [] \<longrightarrow> seg_used (last xs) \<or> seg_used g) \<and>
     (ys \<noteq> [] \<longrightarrow> seg_used g \<or> seg_used (hd ys))"
proof (induction xs rule: coalesced.induct)
  case 1
  then show ?case by (cases ys) auto
next
  case (2 a)
  then show ?case by (cases ys) auto
next
  case (3 a b r)
  then show ?case by auto
qed

lemma ff_alloc_coalesced:
  assumes "coalesced r" and "ff_alloc n r = Some (b, r')"
  shows "coalesced r'"
proof -
  from ff_alloc_SomeD[OF assms(2)] obtain xs z ys where r: "r = xs @ Seg b z False # ys" and
    r': "r' = xs @ (if n + HEAP_MIN_SIZE \<le> z then Seg b n True # Seg (b + n) (z - n) False # ys
                  else Seg b z True # ys)" by blast
  have "coalesced ys" "ys \<noteq> [] \<longrightarrow> seg_used (hd ys)" "coalesced xs"
    using assms(1) by (auto simp: r coalesced_append_Cons)
  then show ?thesis by (cases ys) (auto simp: r' coalesced_append_Cons)
qed

lemma heap_alloc_sim:
  assumes inv: "heap_inv s r" and "n \<noteq> 0"
  shows "\<exists>s'. heap_alloc n s =
            Some (map_option (\<lambda>x. fst x + sizeof_heap_block) (ff_alloc (uint (heap_request n)) r), s')
          \<and> heap_inv s' (case ff_alloc (uint (heap_request n)) r of None \<Rightarrow> r | Some x \<Rightarrow> snd x)
          \<and> heap_memory s' = heap_memory s"
proof -
  let ?n = "uint (heap_request n)"
  have rep: "heap_rep s r" using inv by (simp add: heap_inv_def)
  show ?thesis
  proof (cases "ff_alloc ?n r")
    case None
    then show ?thesis using assms heap_find_rep[OF rep, of ?n] by (simp add: heap_alloc_def)
  next
    case (Some x)
    obtain b r' where x: "x = (b, r')" by (cases x)
    from ff_alloc_SomeD[OF Some[unfolded x]] obtain xs z ys where
      r: "r = xs @ Seg b z False # ys" and nz: "?n \<le> z" and
      r': "r' = xs @ (if ?n + HEAP_MIN_SIZE \<le> z then Seg b ?n True # Seg (b + ?n) (z - ?n) False # ys
                      else Seg b z True # ys)" by blast
    let ?s = "heap_unlink b (upd_hdr b (hb_used_update (\<lambda>_. True)) (heap_split b ?n s))"
    have "heap_rep ?s r'"
      using heap_split_rep[OF rep[unfolded r] heap_request_ok, of n]
      by (auto simp: r' intro!: heap_take_whole split: if_splits)
    moreover have "coalesced r'" using ff_alloc_coalesced[OF _ Some[unfolded x]] inv
      by (simp add: heap_inv_def)
    moreover have "heap_memory ?s = heap_memory s"
      by (simp add: heap_unlink_def heap_split_def heap_upd_defs Let_def split: option.split)
    moreover have "heap_alloc n s = Some (Some (b + sizeof_heap_block), ?s)"
      using assms(2) heap_find_rep[OF rep, of ?n] Some x by (simp add: heap_alloc_def Let_def)
    ultimately show ?thesis using Some x by (simp add: heap_inv_def)
  qed
qed

section \<open>Merging free neighbours\<close>

lemma merge_free_hd:
  "r \<noteq> [] \<Longrightarrow> merge_free r \<noteq> [] \<and> seg_used (hd (merge_free r)) = seg_used (hd r)"
  by (cases r rule: merge_free.cases) (auto split: list.split seg.split bool.split)

lemma merge_free_coalesced: "coalesced (merge_free r)"
proof (induction r rule: merge_free.induct)
  case (2 a z u r)
  show ?case
  proof (cases "merge_free r")
    case Nil
    then show ?thesis by simp
  next
    case (Cons g r')
    obtain b y v where "g = Seg b y v" by (cases g)
    then show ?thesis using 2 Cons by (cases r') (auto split: bool.split)
  qed
qed simp

lemma merge_free_id: "coalesced r \<Longrightarrow> merge_free r = r"
proof (induction r rule: coalesced.induct)
  case (2 g)
  then show ?case by (cases g) simp
next
  case (3 g g' r)
  then show ?case by (cases g; cases g') (auto split: bool.split)
qed simp

lemma merge_free_append: "merge_free (xs @ ys) = merge_free (xs @ merge_free ys)"
proof (induction xs)
  case Nil
  then show ?case by (simp add: merge_free_id merge_free_coalesced)
next
  case (Cons g xs)
  then show ?case by (cases g) simp
qed

definition join_next :: "seg list \<Rightarrow> seg list" where
  "join_next r =
     (case r of Seg b z False # Seg d y False # ys \<Rightarrow> Seg b (z + y) False # ys | _ \<Rightarrow> r)"

lemma merge_free_join:
  assumes "coalesced ys"
  shows "merge_free (Seg b z False # ys) = join_next (Seg b z False # ys)"
  using assms by (simp add: merge_free_id join_next_def split: list.split seg.split bool.split)

text \<open>Merging around one newly freed segment, in the two steps the code takes.\<close>

lemma merge_free_around:
  assumes xs: "coalesced xs" and ys: "coalesced ys" and r: "join_next (Seg b z False # ys) = Seg b z' False # ys'"
  shows "merge_free (xs @ Seg b z False # ys) =
     (case rev xs of Seg m w False # xs' \<Rightarrow> rev xs' @ Seg m (w + z') False # ys'
      | _ \<Rightarrow> xs @ Seg b z' False # ys')"
proof -
  have m: "merge_free (xs @ Seg b z False # ys) = merge_free (xs @ Seg b z' False # ys')"
    using merge_free_append[of xs "Seg b z False # ys"] merge_free_join[OF ys, of b z] r by simp
  have co: "coalesced (Seg b z' False # ys')"
    using merge_free_coalesced[of "Seg b z False # ys"] merge_free_join[OF ys, of b z] r by simp
  then have ys': "ys' = [] \<or> seg_used (hd ys')" "coalesced ys'" by (cases ys'; auto)+
  show ?thesis
  proof (cases "xs = [] \<or> seg_used (last xs)")
    case True
    then have "coalesced (xs @ Seg b z' False # ys')"
      using xs ys' by (auto simp: coalesced_append_Cons)
    moreover have "\<not> (\<exists>m w xs'. rev xs = Seg m w False # xs')"
      using True by (cases xs rule: rev_cases) auto
    ultimately show ?thesis
      unfolding m by (auto simp: merge_free_id split: list.split seg.split bool.split)
  next
    case False
    then obtain xs' g where g: "xs = xs' @ [g]" by (cases xs rule: rev_cases) auto
    obtain e w where e: "g = Seg e w False" using False g by (cases g) auto
    have "merge_free (Seg e w False # Seg b z' False # ys') = Seg e (w + z') False # ys'"
      by (subst merge_free.simps) (simp del: merge_free.simps add: merge_free_id[OF co])
    then have "merge_free (xs @ Seg b z' False # ys') = merge_free (xs' @ Seg e (w + z') False # ys')"
      using merge_free_append[of xs' "Seg e w False # Seg b z' False # ys'"] by (simp add: g e)
    moreover have "coalesced (xs' @ Seg e (w + z') False # ys')"
      using xs ys' by (auto simp: g e coalesced_append_Cons)
    ultimately show ?thesis unfolding m by (simp add: merge_free_id g e)
  qed
qed

section \<open>Release\<close>

lemma heap_pos_dseg:
  assumes "dseg (\<lambda>a. hb_next (h a)) pv pr p (fx @ fy) la None"
    and "\<And>x. x \<in> set fx \<Longrightarrow> x < b" and "fy \<noteq> [] \<Longrightarrow> \<not> hd fy < b"
  shows "heap_pos h b pr p =
    Some (if fx = [] then pr else Some (last fx), if fy = [] then None else Some (hd fy))"
  using assms
proof (induction fx arbitrary: pr p)
  case Nil
  then show ?case by (subst heap_pos.simps) (cases fy; auto)
next
  case (Cons x fx)
  then show ?case by (subst heap_pos.simps) auto
qed

text \<open>Insertion of the released block, before any coalescing.\<close>

lemma heap_insert_rep:
  assumes rep: "heap_rep s (xs @ Seg b z True # ys)"
  defines "fx \<equiv> free_addrs xs" and "fy \<equiv> free_addrs ys"
  defines "m \<equiv> if fx = [] then None else Some (last fx)"
    and "q \<equiv> if fy = [] then None else Some (hd fy)"
  shows "heap_pos (heap_hdr (upd_hdr b (hb_used_update (\<lambda>_. False)) s)) b None (heap_free_list s) = Some (m, q)"
    and "heap_rep (heap_insert b m q (upd_hdr b (hb_used_update (\<lambda>_. False)) s)) (xs @ Seg b z False # ys)"
proof -
  let ?s = "heap_insert b m q (upd_hdr b (hb_used_update (\<lambda>_. False)) s)"
  from rep obtain la where
    d: "dseg (nxt s) (prv s) None (heap_free_list s) (fx @ fy) la None" and
    tx: "tiles (heap_memory s) xs b" and z: "HEAP_MIN_SIZE \<le> z" "16 dvd z" and
    ty: "tiles (b + z) ys (heap_memory s + CONFIG_HEAP_SIZE)" and
    rs: "\<forall>g \<in> set xs \<union> set ys. seg_rep (heap_hdr s) g" and
    hb: "hb_size (heap_hdr s b) = z" "hb_used (heap_hdr s b)"
    by (auto simp: heap_rep_def tiles_append seg_rep_def fx_def fy_def)
  from d obtain m0 q0 where
    fx0: "dseg (nxt s) (prv s) None (heap_free_list s) fx m0 q0" and
    fy0: "dseg (nxt s) (prv s) m0 q0 fy la None" by (auto simp: dseg_append)
  have m0: "m0 = m" and q0: "q0 = q"
    using dseg_ends(1,3)[OF fx0] dseg_ends(2,4)[OF fy0] by (auto simp: m_def q_def)
  have bz: "b < b + z" using z by (simp add: heap_consts)
  note fx1 = fx0[unfolded m0 q0] and fy1 = fy0[unfolded m0 q0]
  note ends = free_addrs_ends[OF fx1[unfolded fx_def] fy1[unfolded fy_def] tx ty bz, folded fx_def fy_def]
  have inx: "x < b" "q \<noteq> Some x" if "x \<in> set fx" for x
    using tiles_free_bounds[OF tx that[unfolded fx_def]] ends(2)[of x] bz by auto
  have iny: "b < x" "m \<noteq> Some x" if "x \<in> set fy" for x
    using tiles_free_bounds[OF ty that[unfolded fy_def]] ends(1)[of x] bz by auto
  show "heap_pos (heap_hdr (upd_hdr b (hb_used_update (\<lambda>_. False)) s)) b None (heap_free_list s) = Some (m, q)"
    unfolding m_def q_def
  proof (rule heap_pos_dseg[where la = la])
    have "nxt (upd_hdr b (hb_used_update (\<lambda>_. False)) s) = nxt s" by (auto simp: upd_hdr_def)
    then show "dseg (nxt (upd_hdr b (hb_used_update (\<lambda>_. False)) s)) (prv s) None (heap_free_list s) (fx @ fy) la None"
      using d by simp
    show "x < b" if "x \<in> set fx" for x using inx(1)[OF that] .
    show "\<not> hd fy < b" if "fy \<noteq> []" using iny(1)[of "hd fy"] that by simp
  qed
  have mq: "m \<noteq> Some b" "q \<noteq> Some b" using ends[of b] bz by auto
  have hdr: "nxt ?s x = (if x = b then q else if m = Some x then Some b else nxt s x)"
    "prv ?s x = (if x = b then m else if q = Some x then Some b else prv s x)"
    "hb_size (heap_hdr ?s x) = hb_size (heap_hdr s x)"
    "hb_used (heap_hdr ?s x) = (x \<noteq> b \<and> hb_used (heap_hdr s x))" for x
    using mq by (auto simp: heap_insert_def heap_upd_defs split: option.split)
  have fl: "heap_free_list ?s = (if m = None then Some b else heap_free_list s)"
    "heap_memory ?s = heap_memory s"
    by (simp_all add: heap_insert_def heap_upd_defs split: option.split)
  have "dll (nxt ?s) (prv ?s) (heap_free_list ?s) (fx @ [b] @ fy)"
  proof (rule relink[OF fx1 fy1])
    show "nxt ?s x = Some b" if "m = Some x" for x using hdr(1)[of x] mq that by simp
    show "prv ?s x = Some b" if "q = Some x" for x using hdr(2)[of x] mq that by simp
    show "nxt ?s x = nxt s x" if "x \<in> set fx" "Some x \<noteq> m" for x
      using hdr(1)[of x] that inx(1)[of x] by auto
    show "nxt ?s x = nxt s x" if "x \<in> set fy" for x using hdr(1)[of x] iny[OF that] by auto
    show "prv ?s x = prv s x" if "x \<in> set fx" for x using hdr(2)[of x] inx[OF that] by auto
    show "prv ?s x = prv s x" if "x \<in> set fy" "Some x \<noteq> q" for x
      using hdr(2)[of x] iny(1)[OF that(1)] that(2) by auto
    show "dseg (nxt ?s) (prv ?s) m (Some b) [b] (Some b) q" by (simp add: hdr)
  qed (use tx ty fl fx_def fy_def in \<open>auto intro: free_addrs_distinct\<close>)
  moreover have "\<forall>g \<in> set (xs @ Seg b z False # ys). seg_rep (heap_hdr ?s) g"
    using rs hb tiles_addr_notin[of _ xs b b z False ys] tx ty z by (auto simp: seg_rep_def hdr)
  ultimately show "heap_rep ?s (xs @ Seg b z False # ys)"
    using tx ty z fl by (auto simp: heap_rep_def tiles_append fx_def fy_def)
qed

lemma heap_absorb_rep:
  assumes rep: "heap_rep s (xs @ Seg b z False # Seg d y False # ys)"
  shows "heap_rep (heap_absorb b d s) (xs @ Seg b (z + y) False # ys)"
proof -
  let ?s = "heap_absorb b d s"
  from rep obtain la where
    fx: "dseg (nxt s) (prv s) None (heap_free_list s) (free_addrs xs) (prv s b) (Some b)" and
    nb: "nxt s b = Some d" and
    fy: "dseg (nxt s) (prv s) (Some d) (nxt s d) (free_addrs ys) la None" and
    tx: "tiles (heap_memory s) xs b" and z: "HEAP_MIN_SIZE \<le> z" "16 dvd z" and
    y: "HEAP_MIN_SIZE \<le> y" "16 dvd y" and d: "d = b + z" and
    ty: "tiles (b + z + y) ys (heap_memory s + CONFIG_HEAP_SIZE)" and
    rs: "\<forall>g \<in> set xs \<union> set ys. seg_rep (heap_hdr s) g" and
    hb: "hb_size (heap_hdr s b) = z" "\<not> hb_used (heap_hdr s b)" "hb_size (heap_hdr s d) = y"
    by (auto simp: heap_rep_def dseg_append tiles_append seg_rep_def)
  have zy: "0 < z" "0 < y" and bz: "b < b + z + y" using z y by (auto simp: heap_consts)
  note ends = free_addrs_ends[OF fx fy tx ty bz]
  have inx: "x < b" "nxt s d \<noteq> Some x" if "x \<in> set (free_addrs xs)" for x
    using tiles_free_bounds[OF tx that] ends(2)[of x] zy by auto
  have iny: "b < x" "prv s b \<noteq> Some x" if "x \<in> set (free_addrs ys)" for x
    using tiles_free_bounds[OF ty that] ends(1)[of x] zy by auto
  have nd: "nxt s d \<noteq> Some b" "prv s b \<noteq> Some b" using ends[of b] zy by auto
  have hdr: "nxt ?s x = (if x = b then nxt s d else nxt s x)"
    "prv ?s x = (if nxt s d = Some x then Some b else prv s x)"
    "hb_size (heap_hdr ?s x) = (if x = b then z + y else hb_size (heap_hdr s x))"
    "hb_used (heap_hdr ?s x) = hb_used (heap_hdr s x)" for x
    using nd hb d zy by (auto simp: heap_absorb_def heap_upd_defs Let_def split: option.split)
  have fl: "heap_free_list ?s = heap_free_list s" "heap_memory ?s = heap_memory s"
    by (simp_all add: heap_absorb_def heap_upd_defs Let_def split: option.split)
  have m: "nxt s x = Some b" if "prv s b = Some x" for x
  proof -
    have ne: "free_addrs xs \<noteq> []" using dseg_ends(3)[OF fx] that by auto
    then have "x = last (free_addrs xs)" using dseg_ends(1)[OF fx] that by simp
    then show ?thesis using fx ne by (cases "free_addrs xs" rule: rev_cases) (auto simp: dseg_append)
  qed
  have "dll (nxt ?s) (prv ?s) (heap_free_list ?s) (free_addrs xs @ [b] @ free_addrs ys)"
  proof (rule relink[OF fx fy])
    show "heap_free_list ?s = (if prv s b = None then Some b else heap_free_list s)"
      using fl dseg_ends(1,4)[OF fx] by (cases "free_addrs xs = []") auto
  qed (use tx ty nd m in \<open>auto simp: hdr dest: inx iny intro: free_addrs_distinct\<close>)
  moreover have "\<forall>g \<in> set (xs @ Seg b (z + y) False # ys). seg_rep (heap_hdr ?s) g"
    using rs hb tiles_addr_notin[of _ xs b b "z + y" False ys] tx ty z y
    by (auto simp: seg_rep_def hdr heap_consts add.assoc)
  ultimately show ?thesis
    using tx ty z y fl by (auto simp: heap_rep_def tiles_append add.assoc heap_consts)
qed

lemma heap_memory_simps [simp]:
  "heap_memory (upd_hdr a f s) = heap_memory s"
  "heap_memory (heap_insert b m q s) = heap_memory s"
  "heap_memory (heap_coalesce_next b q s) = heap_memory s"
  "heap_memory (heap_coalesce_prev b m s) = heap_memory s"
  by (simp_all add: heap_insert_def heap_coalesce_next_def heap_coalesce_prev_def heap_absorb_def
      heap_upd_defs Let_def split: option.split)

lemma heap_coalesce_next_rep:
  assumes rep: "heap_rep s (xs @ Seg b z False # ys)"
  obtains z' ys' where "join_next (Seg b z False # ys) = Seg b z' False # ys'"
    and "heap_rep (heap_coalesce_next b (if free_addrs ys = [] then None else Some (hd (free_addrs ys))) s)
           (xs @ Seg b z' False # ys')"
proof (cases "\<exists>d y ys'. ys = Seg d y False # ys'")
  case True
  then obtain d y ys' where ys: "ys = Seg d y False # ys'" by blast
  have "d = b + z" "hb_size (heap_hdr s b) = z"
    using rep by (auto simp: ys heap_rep_def tiles_append seg_rep_def)
  then show ?thesis
    using heap_absorb_rep[OF rep[unfolded ys]]
    by (intro that[of "z + y" ys']) (simp_all add: ys join_next_def heap_coalesce_next_def)
next
  case False
  have ty: "tiles (b + z) ys (heap_memory s + CONFIG_HEAP_SIZE)" and hb: "hb_size (heap_hdr s b) = z"
    using rep by (auto simp: heap_rep_def tiles_append seg_rep_def)
  have "hd (free_addrs ys) \<noteq> b + z" if ne: "free_addrs ys \<noteq> []"
  proof (cases ys)
    case (Cons g r)
    obtain d y u where g: "g = Seg d y u" by (cases g)
    have u: "u" using False Cons g by auto
    then have "hd (free_addrs ys) \<in> set (free_addrs r)" using ne Cons g by auto
    moreover have "tiles (b + z + y) r (heap_memory s + CONFIG_HEAP_SIZE)" "0 < y"
      using ty Cons g by (auto simp: heap_consts)
    ultimately show ?thesis using tiles_free_bounds by fastforce
  qed (use ne in simp)
  then have "heap_coalesce_next b (if free_addrs ys = [] then None else Some (hd (free_addrs ys))) s = s"
    using hb by (auto simp: heap_coalesce_next_def)
  moreover have "join_next (Seg b z False # ys) = Seg b z False # ys"
    using False by (auto simp: join_next_def split: list.split seg.split bool.split)
  ultimately show ?thesis using rep that by simp
qed

lemma heap_coalesce_prev_rep:
  assumes rep: "heap_rep s (xs @ Seg b z False # ys)"
  shows "heap_rep (heap_coalesce_prev b (if free_addrs xs = [] then None else Some (last (free_addrs xs))) s)
     (case rev xs of Seg m w False # xs' \<Rightarrow> rev xs' @ Seg m (w + z) False # ys
      | _ \<Rightarrow> xs @ Seg b z False # ys)"
proof (cases "\<exists>m w xs'. xs = xs' @ [Seg m w False]")
  case True
  then obtain m w xs' where xs: "xs = xs' @ [Seg m w False]" by blast
  have "m + w = b" "hb_size (heap_hdr s m) = w"
    using rep by (auto simp: xs heap_rep_def tiles_append seg_rep_def)
  moreover have "heap_rep (heap_absorb m b s) (xs' @ Seg m (w + z) False # ys)"
    using rep by (intro heap_absorb_rep) (simp add: xs)
  ultimately show ?thesis by (simp add: xs heap_coalesce_prev_def)
next
  case False
  have tx: "tiles (heap_memory s) xs b" and rs: "\<forall>g \<in> set xs. seg_rep (heap_hdr s) g"
    using rep by (auto simp: heap_rep_def tiles_append)
  have "m + hb_size (heap_hdr s m) \<noteq> b" if ne: "free_addrs xs \<noteq> []" and m: "m = last (free_addrs xs)" for m
  proof (cases xs rule: rev_cases)
    case (snoc r g)
    obtain d y u where g: "g = Seg d y u" by (cases g)
    have u: "u" using False snoc g by auto
    then have "m \<in> set (free_addrs r)" using ne snoc g m by auto
    then obtain w where w: "Seg m w False \<in> set r"
      by (auto simp: free_addrs_def image_iff) (metis seg.collapse)
    then have "hb_size (heap_hdr s m) = w" using rs snoc by (auto simp: seg_rep_def)
    moreover have "tiles (heap_memory s) r d" "d + y = b" "0 < y"
      using tx snoc g by (auto simp: tiles_append heap_consts)
    ultimately show ?thesis using tiles_bounds[OF _ w] by fastforce
  qed (use ne in simp)
  then have "heap_coalesce_prev b (if free_addrs xs = [] then None else Some (last (free_addrs xs))) s = s"
    by (auto simp: heap_coalesce_prev_def)
  moreover have "\<not> (\<exists>m w xs'. rev xs = Seg m w False # xs')"
    using False by (metis rev.simps(2) rev_rev_ident)
  ultimately show ?thesis using rep by (auto split: list.split seg.split bool.split)
qed

lemma heap_free_sim:
  assumes inv: "heap_inv s (xs @ Seg b z True # ys)"
  shows "\<exists>s'. heap_free (Some (b + sizeof_heap_block)) s = Some s'
          \<and> heap_inv s' (merge_free (xs @ Seg b z False # ys)) \<and> heap_memory s' = heap_memory s"
proof -
  let ?m = "if free_addrs xs = [] then None else Some (last (free_addrs xs))"
  let ?q = "if free_addrs ys = [] then None else Some (hd (free_addrs ys))"
  let ?s1 = "heap_insert b ?m ?q (upd_hdr b (hb_used_update (\<lambda>_. False)) s)"
  have rep: "heap_rep s (xs @ Seg b z True # ys)" and co: "coalesced xs" "coalesced ys"
    using inv by (auto simp: heap_inv_def coalesced_append_Cons)
  note ins = heap_insert_rep[OF rep]
  obtain z' ys' where j: "join_next (Seg b z False # ys) = Seg b z' False # ys'"
    and r2: "heap_rep (heap_coalesce_next b ?q ?s1) (xs @ Seg b z' False # ys')"
    by (rule heap_coalesce_next_rep[OF ins(2)])
  let ?s3 = "heap_coalesce_prev b ?m (heap_coalesce_next b ?q ?s1)"
  have "heap_rep ?s3 (merge_free (xs @ Seg b z False # ys))"
    using heap_coalesce_prev_rep[OF r2] by (simp add: merge_free_around[OF co j])
  moreover have "heap_free (Some (b + sizeof_heap_block)) s = Some ?s3"
    using ins(1) by (simp add: heap_free_def Let_def upd_hdr_def)
  ultimately show ?thesis by (auto simp: heap_inv_def merge_free_coalesced)
qed

section \<open>The heap as an allocator\<close>

text \<open>The pointers the clients hold: one past the header of every used segment.\<close>

definition heap_live :: "seg list \<Rightarrow> addr set" where
  "heap_live r = (\<lambda>g. seg_addr g + sizeof_heap_block) ` set (filter seg_used r)"

lemma heap_live_simps [simp]:
  "heap_live [] = {}"
  "heap_live (Seg a z u # r) = (if u then insert (a + sizeof_heap_block) (heap_live r) else heap_live r)"
  "heap_live (r @ r') = heap_live r \<union> heap_live r'"
  by (auto simp: heap_live_def image_Un)

lemma heap_live_merge: "heap_live (merge_free r) = heap_live r"
proof (induction r rule: merge_free.induct)
  case (2 a z u r)
  show ?case
  proof (cases "merge_free r")
    case Nil
    then show ?thesis using 2 by simp
  next
    case (Cons g r')
    obtain b y v where "g = Seg b y v" by (cases g)
    then show ?thesis using 2 Cons by (cases v) simp_all
  qed
qed simp

lemma heap_inv_tiles: "heap_inv s r \<Longrightarrow> tiles (heap_memory s) r (heap_memory s + CONFIG_HEAP_SIZE)"
  by (simp add: heap_inv_def heap_rep_def)

lemma seg_addr_notin_live:
  assumes "tiles a (xs @ Seg b z u # ys) e"
  shows "b + sizeof_heap_block \<notin> heap_live xs \<union> heap_live ys"
  using tiles_distinct[OF assms] by (auto simp: heap_live_def)

lemma heap_alloc_live:
  assumes "heap_inv s r"
  shows "\<exists>p s' r'. heap_alloc n s = Some (p, s') \<and> heap_inv s' r' \<and>
     (case p of None \<Rightarrow> heap_live r' = heap_live r
      | Some a \<Rightarrow> a \<notin> heap_live r \<and> heap_live r' = insert a (heap_live r))"
proof (cases "n = 0")
  case True
  then show ?thesis using assms by (auto simp: heap_alloc_def)
next
  case False
  let ?n = "uint (heap_request n)"
  from heap_alloc_sim[OF assms False] obtain s' where
    al: "heap_alloc n s = Some (map_option (\<lambda>x. fst x + sizeof_heap_block) (ff_alloc ?n r), s')"
    and inv': "heap_inv s' (case ff_alloc ?n r of None \<Rightarrow> r | Some x \<Rightarrow> snd x)" by blast
  show ?thesis
  proof (cases "ff_alloc ?n r")
    case None
    then show ?thesis using al inv' by auto
  next
    case (Some x)
    obtain b r' where x: "x = (b, r')" by (cases x)
    from ff_alloc_SomeD[OF Some[unfolded x]] obtain xs z ys where
      r: "r = xs @ Seg b z False # ys" and
      r': "r' = xs @ (if ?n + HEAP_MIN_SIZE \<le> z then Seg b ?n True # Seg (b + ?n) (z - ?n) False # ys
                      else Seg b z True # ys)" by blast
    have "b + sizeof_heap_block \<notin> heap_live xs \<union> heap_live ys"
      using seg_addr_notin_live heap_inv_tiles[OF assms] r by blast
    then show ?thesis using al inv' Some x r r' by (auto split: if_splits)
  qed
qed

lemma heap_free_live:
  assumes "heap_inv s r" and "a \<in> heap_live r"
  shows "\<exists>s' r'. heap_free (Some a) s = Some s' \<and> heap_inv s' r' \<and> heap_live r' = heap_live r - {a}"
proof -
  obtain k where k: "k \<in> set r" "seg_used k" "a = seg_addr k + sizeof_heap_block"
    using assms(2) by (auto simp: heap_live_def)
  define b z where "b = seg_addr k" and "z = seg_size k"
  have "k = Seg b z True" using k(2) by (cases k) (simp add: b_def z_def)
  then have g: "Seg b z True \<in> set r" and a: "a = b + sizeof_heap_block" using k by simp_all
  obtain xs ys where r: "r = xs @ Seg b z True # ys" using g by (meson split_list)
  have "a \<notin> heap_live xs \<union> heap_live ys"
    using seg_addr_notin_live heap_inv_tiles[OF assms(1)] r a by blast
  then show ?thesis
    using heap_free_sim[OF assms(1)[unfolded r]] by (fastforce simp: r a heap_live_merge)
qed

interpretation kheap: allocator heap_inv heap_live heap_alloc "\<lambda>a. heap_free (Some a)"
  by unfold_locales (rule heap_alloc_live heap_free_live; assumption)+

end
