(* ===== verification/Heap_Props.thy ===== *)
theory Heap_Props
  imports Heap_Refine
begin

text \<open>
  The properties of the kernel heap: initialisation, first-fit allocation, release, the round trip
  of the two, safety of any client, the statistics walk, aligned allocation, and what the size
  rounding does to a request near \<open>SIZE_MAX\<close>.
\<close>

section \<open>Helper facts\<close>

lemma heap_init_inv: "heap_inv (heap_init s) [Seg (heap_memory s) CONFIG_HEAP_SIZE False]"
  by (simp add: heap_inv_def heap_rep_def heap_init_def seg_rep_def heap_consts CONFIG_HEAP_SIZE_def)

text \<open>A concrete heap for the witnesses: the initialised heap at address 4096.\<close>

definition heap_blank :: heap where
  "heap_blank = \<lparr>heap_memory = 4096,
     heap_hdr = (\<lambda>_. \<lparr>hb_size = 0, hb_used = False, hb_next = None, hb_prev = None\<rparr>),
     heap_free_list = None, heap_cell = (\<lambda>_. 0)\<rparr>"

definition heap0 :: heap where
  "heap0 = heap_init heap_blank"

lemma heap0_memory [simp]: "heap_memory heap0 = 4096"
  by (simp add: heap0_def heap_init_def heap_blank_def)

lemma heap0_inv: "heap_inv heap0 [Seg 4096 16777216 False]"
  using heap_init_inv[of heap_blank] by (simp add: heap0_def heap_blank_def CONFIG_HEAP_SIZE_def)

lemma heap0_alloc_100:
  "\<exists>s'. heap_alloc 100 heap0 = Some (Some 4128, s')
    \<and> heap_inv s' [Seg 4096 144 True, Seg 4240 (16777216 - 144) False]"
proof -
  have "uint (heap_request 100) = 144" by (simp add: uint_heap_request)
  then show ?thesis
    using heap_alloc_sim[OF heap0_inv, of 100] by (auto simp: heap_consts)
qed

lemma mark_free_append:
  "b \<notin> seg_addr ` set xs \<Longrightarrow> mark_free b (xs @ Seg b z u # ys) = xs @ Seg b z False # ys"
proof (induction xs)
  case (Cons g xs)
  then show ?case by (cases g) auto
qed simp

lemma heap_inv_split:
  assumes "heap_inv s r" and "Seg b z u \<in> set r"
  obtains xs ys where "r = xs @ Seg b z u # ys" "mark_free b r = xs @ Seg b z False # ys"
proof -
  obtain xs ys where r: "r = xs @ Seg b z u # ys" using assms(2) by (meson split_list)
  have "b \<notin> seg_addr ` set xs" using tiles_distinct[OF heap_inv_tiles[OF assms(1)]] by (auto simp: r)
  then show ?thesis using that r mark_free_append by blast
qed

lemma merge_free_unsplit:
  assumes co: "coalesced (xs @ Seg b z False # ys)"
  shows "merge_free (xs @ Seg b n False # Seg (b + n) (z - n) False # ys) = xs @ Seg b z False # ys"
proof -
  have "coalesced (Seg (b + n) (z - n) False # ys)"
    using co by (cases ys) (auto simp: coalesced_append_Cons)
  then have "merge_free (Seg b n False # Seg (b + n) (z - n) False # ys) = Seg b z False # ys"
    by (subst merge_free.simps) (simp del: merge_free.simps add: merge_free_id)
  then show ?thesis
    using merge_free_append[of xs "Seg b n False # Seg (b + n) (z - n) False # ys"]
      merge_free_id[OF co] by simp
qed

lemma ff_alloc_free_id:
  assumes "heap_inv s r" and "ff_alloc n r = Some (b, r')" and "heap_inv s' r'"
  shows "merge_free (mark_free b r') = r"
proof -
  from ff_alloc_SomeD[OF assms(2)] obtain xs z ys where r: "r = xs @ Seg b z False # ys" and
    r': "r' = xs @ (if n + HEAP_MIN_SIZE \<le> z then Seg b n True # Seg (b + n) (z - n) False # ys
                  else Seg b z True # ys)" by blast
  have b: "b \<notin> seg_addr ` set xs" using tiles_distinct[OF heap_inv_tiles[OF assms(1)]] by (auto simp: r)
  have co: "coalesced r" using assms(1) by (simp add: heap_inv_def)
  show ?thesis
  proof (cases "n + HEAP_MIN_SIZE \<le> z")
    case True
    then have "mark_free b r' = xs @ Seg b n False # Seg (b + n) (z - n) False # ys"
      using mark_free_append[OF b] by (simp add: r')
    then show ?thesis using merge_free_unsplit[OF co[unfolded r]] by (simp add: r)
  next
    case False
    then show ?thesis using mark_free_append[OF b] merge_free_id[OF co] by (simp add: r r')
  qed
qed

lemma heap_walk_tiles:
  assumes "tiles a r e" and "\<forall>g \<in> set r. seg_rep h g"
  shows "\<exists>st'. heap_walk h e a st = Some st' \<and> hs_total_size st' = hs_total_size st \<and>
     hs_block_count st' = hs_block_count st + int (length r) \<and>
     hs_used_size st' = hs_used_size st + sum_list (map seg_size (filter seg_used r)) \<and>
     hs_free_size st' = hs_free_size st + sum_list (map seg_size (filter (\<lambda>g. \<not> seg_used g) r)) \<and>
     hs_largest_free st' = fold max (map seg_size (filter (\<lambda>g. \<not> seg_used g) r)) (hs_largest_free st)"
  using assms
proof (induction a r e arbitrary: st rule: tiles.induct)
  case (1 a e)
  then have "heap_walk h e a st = Some st" by (subst heap_walk.simps) simp
  then show ?case by simp
next
  case (2 a b z u r e)
  have b: "b = a" "tiles (a + z) r e" "0 < z" and rs: "\<forall>g \<in> set r. seg_rep h g"
    and g: "hb_size (h a) = z" "hb_used (h a) = u"
    using 2(2,3) by (auto simp: seg_rep_def heap_consts)
  have lt: "a < e" using tiles_le[OF b(2)] b(3) by simp
  have m: "(if l < z then z else l) = max z l" for l by simp
  show ?case
    using 2(1)[OF b(2) rs] lt g
    by (subst heap_walk.simps) (cases u; simp add: Let_def b(1) m; fastforce simp: max.commute)
qed

lemma tiles_dvd: "tiles a r e \<Longrightarrow> 16 dvd (e - a)"
proof (induction a r e rule: tiles.induct)
  case (2 a b z u r e)
  then have "16 dvd (e - (a + z)) + z" by (intro dvd_add) auto
  then show ?case by (simp add: algebra_simps)
qed simp

lemma tiles_sum: "tiles a r e \<Longrightarrow> a + sum_list (map seg_size r) = e"
  by (induction a r e rule: tiles.induct) auto

lemma sum_list_partition:
  "sum_list (map f (filter P r)) + sum_list (map f (filter (\<lambda>g. \<not> P g) r)) =
     (sum_list (map f r) :: int)"
  by (induction r) auto

text \<open>The stored pointer words are no part of the heap structure.\<close>

lemma heap_inv_cell [simp]: "heap_inv (s\<lparr>heap_cell := c\<rparr>) r = heap_inv s r"
  by (simp add: heap_inv_def heap_rep_def)

lemma heap_upd_cell:
  "upd_hdr a f (s\<lparr>heap_cell := c\<rparr>) = (upd_hdr a f s)\<lparr>heap_cell := c\<rparr>"
  "set_prev_of p v (s\<lparr>heap_cell := c\<rparr>) = (set_prev_of p v s)\<lparr>heap_cell := c\<rparr>"
  "set_next_or_head p v (s\<lparr>heap_cell := c\<rparr>) = (set_next_or_head p v s)\<lparr>heap_cell := c\<rparr>"
  by (simp_all add: heap_upd_defs split: option.split)

lemma heap_absorb_cell: "heap_absorb b d (s\<lparr>heap_cell := c\<rparr>) = (heap_absorb b d s)\<lparr>heap_cell := c\<rparr>"
  by (simp add: heap_absorb_def Let_def heap_upd_cell)

lemma heap_step_cell:
  "heap_insert b m q (s\<lparr>heap_cell := c\<rparr>) = (heap_insert b m q s)\<lparr>heap_cell := c\<rparr>"
  "heap_coalesce_next b q (s\<lparr>heap_cell := c\<rparr>) = (heap_coalesce_next b q s)\<lparr>heap_cell := c\<rparr>"
  "heap_coalesce_prev b m (s\<lparr>heap_cell := c\<rparr>) = (heap_coalesce_prev b m s)\<lparr>heap_cell := c\<rparr>"
  by (simp_all add: heap_insert_def heap_coalesce_next_def heap_coalesce_prev_def heap_upd_cell
      heap_absorb_cell split: option.split)

lemma heap_free_cell:
  "heap_free p (s\<lparr>heap_cell := c\<rparr>) = map_option (\<lambda>t. t\<lparr>heap_cell := c\<rparr>) (heap_free p s)"
proof (cases p)
  case (Some a)
  let ?b = "a - sizeof_heap_block"
  let ?s = "upd_hdr ?b (hb_used_update (\<lambda>_. False)) s"
  show ?thesis
    by (cases "heap_pos (heap_hdr ?s) ?b None (heap_free_list ?s)")
      (simp_all add: Some heap_free_def Let_def heap_upd_cell heap_step_cell case_prod_beta)
qed (simp add: heap_free_def)

lemma heap_alloc_free_aux:
  assumes "heap_inv s r" and "heap_alloc n s = Some (Some p, s')"
  shows "\<exists>s''. heap_free (Some p) s' = Some s'' \<and> heap_inv s'' r"
proof -
  have n0: "n \<noteq> 0" using assms(2) by (auto simp: heap_alloc_def)
  let ?n = "uint (heap_request n)"
  obtain x where x: "ff_alloc ?n r = Some x" "p = fst x + sizeof_heap_block" "heap_inv s' (snd x)"
    using heap_alloc_sim[OF assms(1) n0] assms(2) by (cases "ff_alloc ?n r") auto
  obtain b r' where br: "x = (b, r')" by (cases x)
  have "\<exists>z. Seg b z True \<in> set r'" using ff_alloc_SomeD[of ?n r b r'] x br by auto
  then obtain z where "Seg b z True \<in> set r'" by blast
  then show ?thesis
    using heap_inv_split[of s' r' b z True] heap_free_sim[of s' _ b z] x br
      ff_alloc_free_id[OF assms(1), of ?n b r' s']
    by (metis fst_conv snd_conv)
qed

lemma heap_alloc_block_aux:
  assumes "heap_inv s r" and "uint n \<le> 2 ^ 64 - 48" and "heap_alloc n s = Some (Some p, s')"
  shows "heap_memory s + sizeof_heap_block \<le> p" "p + uint n \<le> heap_memory s + CONFIG_HEAP_SIZE"
    "16 dvd (p - heap_memory s)"
    "\<forall>g \<in> set r. seg_used g \<longrightarrow>
       p + uint n \<le> seg_addr g \<or> seg_addr g + seg_size g \<le> p - sizeof_heap_block"
proof -
  have n0: "n \<noteq> 0" using assms(3) by (auto simp: heap_alloc_def)
  let ?n = "uint (heap_request n)"
  obtain b r' where x: "ff_alloc ?n r = Some (b, r')" "p = b + sizeof_heap_block"
    using heap_alloc_sim[OF assms(1) n0] assms(3) by (cases "ff_alloc ?n r") auto
  from ff_alloc_SomeD[OF x(1)] obtain xs z ys where r: "r = xs @ Seg b z False # ys" and nz: "?n \<le> z"
    by blast
  have t: "tiles (heap_memory s) r (heap_memory s + CONFIG_HEAP_SIZE)"
    by (rule heap_inv_tiles[OF assms(1)])
  have fits: "uint n + sizeof_heap_block \<le> z" using heap_request_fits(1)[OF n0 assms(2)] nz by simp
  have bounds: "heap_memory s \<le> b" "b + z \<le> heap_memory s + CONFIG_HEAP_SIZE"
    using tiles_bounds[OF t, of "Seg b z False"] by (auto simp: r)
  then show "heap_memory s + sizeof_heap_block \<le> p" "p + uint n \<le> heap_memory s + CONFIG_HEAP_SIZE"
    using x(2) fits by auto
  have tx: "tiles (heap_memory s) xs b" and ty: "tiles (b + z) ys (heap_memory s + CONFIG_HEAP_SIZE)"
    using t by (auto simp: r tiles_append)
  show "16 dvd (p - heap_memory s)"
    using tiles_dvd[OF tx] unfolding x(2) sizeof_heap_block_def by presburger
  show "\<forall>g \<in> set r. seg_used g \<longrightarrow>
       p + uint n \<le> seg_addr g \<or> seg_addr g + seg_size g \<le> p - sizeof_heap_block"
  proof (intro ballI impI)
    fix g assume "g \<in> set r" "seg_used g"
    then consider "g \<in> set xs" | "g \<in> set ys" by (auto simp: r)
    then show "p + uint n \<le> seg_addr g \<or> seg_addr g + seg_size g \<le> p - sizeof_heap_block"
      using tiles_bounds[OF tx, of g] tiles_bounds[OF ty, of g] x(2) fits by cases auto
  qed
qed

lemma heap_aligned_aux:
  fixes s :: heap
  assumes inv: "heap_inv s r" and k: "4 \<le> k" "k < 32"
    and area: "0 \<le> heap_memory s" "heap_memory s + CONFIG_HEAP_SIZE < 2 ^ 63"
    and n: "uint n < 2 ^ 32"
    and al: "heap_alloc_aligned n (2 ^ k) s = Some (Some a, s')"
  shows "\<exists>raw s1. heap_alloc (n + 2 ^ k + 8) s = Some (Some raw, s1) \<and> 2 ^ k dvd a \<and>
     raw + sizeof_voidp \<le> a \<and> a + uint n \<le> raw + uint (n + 2 ^ k + 8) \<and>
     heap_free_aligned (Some a) s' = heap_free (Some raw) s' \<and>
     s' = s1\<lparr>heap_cell := heap_cell s'\<rparr>"
proof -
  let ?al = "2 ^ k :: u64"
  have k2: "(2::int) ^ k < 2 ^ 32" "(16::int) \<le> 2 ^ k"
    using k power_strict_increasing[of k 32 "2::int"] power_increasing[of 4 k "2::int"] by auto
  then have ual: "uint ?al = 2 ^ k" using uint_two_power[of k, where 'a = 64] k(2) by simp
  have tot: "uint (n + ?al + 8) = uint n + 2 ^ k + 8"
    using n k2 ual by (simp add: uint_word_ariths)
  have "\<not> ?al < 16" using ual k2 by (simp add: word_less_def)
  then obtain raw s1 where r1: "heap_alloc (n + ?al + 8) s = Some (Some raw, s1)"
    and a: "a = uint ((of_int raw + 8 + ?al - 1) AND NOT (?al - 1))"
    and s': "s' = s1\<lparr>heap_cell := (heap_cell s1)(a - 8 := raw)\<rparr>"
    using al by (auto simp: heap_alloc_aligned_def HEAP_BLOCK_ALIGN_def sizeof_voidp_def Let_def
        bind_eq_Some_conv split: option.splits)
  have bnd: "heap_memory s + 32 \<le> raw" "raw + uint (n + ?al + 8) \<le> heap_memory s + CONFIG_HEAP_SIZE"
    using heap_alloc_block_aux(1,2)[OF inv _ r1] tot n k2 by (auto simp: sizeof_heap_block_def)
  let ?x = "raw + 8 + 2 ^ k - 1"
  have b: "0 \<le> ?x" "?x < 2 ^ 63"
    using bnd tot k2 area uint_ge_0[of n] by linarith+
  have "uint (of_int ?x :: u64) = ?x"
    using b by (intro uint_of_int_id) simp_all
  moreover have "(of_int raw + 8 + ?al - 1) AND NOT (?al - 1) = (of_int ?x) AND NOT (mask k)"
    by (simp add: mask_eq_exp_minus_1)
  ultimately have a': "a = ?x div 2 ^ k * 2 ^ k" by (simp only: a uint_and_not_mask)
  have "?x - 2 ^ k < a" "a \<le> ?x"
  proof -
    have "a = ?x - ?x mod 2 ^ k" by (simp only: a' minus_mod_eq_div_mult)
    then show "?x - 2 ^ k < a" "a \<le> ?x"
      using pos_mod_bound[of "2 ^ k" ?x] pos_mod_sign[of "2 ^ k" ?x] by auto
  qed
  moreover have "2 ^ k dvd a" by (simp add: a')
  moreover have "heap_free_aligned (Some a) s' = heap_free (Some raw) s'"
    by (simp add: heap_free_aligned_def s' sizeof_voidp_def)
  moreover have "s' = s1\<lparr>heap_cell := heap_cell s'\<rparr>" by (simp add: s')
  ultimately show ?thesis using r1 tot by (auto simp: sizeof_voidp_def)
qed

section \<open>Properties\<close>

text \<open>After initialisation the heap is one free segment that fills the area, and satisfies the
  heap invariant (blocks tile the area, headers and free list agree, no two free neighbours).\<close>

theorem heap_init_establishes:
  "heap_inv (heap_init s) [Seg (heap_memory s) CONFIG_HEAP_SIZE False]"
  by (rule heap_init_inv)

text \<open>C2: allocation is first fit. In every state of the invariant the walk ends, the returned
  pointer is the one first fit picks for the rounded size (\<open>NULL\<close> when it finds none), the
  segments change as first fit with splitting says, and the invariant is kept.\<close>

theorem heap_alloc_first_fit:
  assumes "heap_inv s r" and "n \<noteq> 0"
  shows "\<exists>s'. heap_alloc n s =
            Some (map_option (\<lambda>x. fst x + sizeof_heap_block) (ff_alloc (uint (heap_request n)) r), s')
          \<and> heap_inv s' (case ff_alloc (uint (heap_request n)) r of None \<Rightarrow> r | Some x \<Rightarrow> snd x)"
  using heap_alloc_sim[OF assms] by blast

theorem heap_alloc_first_fit_witness:
  "\<exists>s'. heap_alloc 100 heap0 = Some (Some 4128, s')
    \<and> heap_inv s' [Seg 4096 144 True, Seg 4240 (16777216 - 144) False]"
proof -
  have "uint (heap_request 100) = 144" by (simp add: uint_heap_request)
  then show ?thesis
    using heap_alloc_first_fit[OF heap0_inv, of 100] by (auto simp: heap_consts)
qed

text \<open>C3: releasing a block marks its segment free and leaves the list fully coalesced: the new
  segments are the old ones with every run of free neighbours merged.\<close>

theorem heap_free_coalesces:
  assumes "heap_inv s r" and "Seg b z True \<in> set r"
  shows "\<exists>s'. heap_free (Some (b + sizeof_heap_block)) s = Some s' \<and>
           heap_inv s' (merge_free (mark_free b r))"
proof (rule heap_inv_split[OF assms])
  fix xs ys assume "r = xs @ Seg b z True # ys" "mark_free b r = xs @ Seg b z False # ys"
  then show ?thesis using heap_free_sim[of s xs b z ys] assms(1) by auto
qed

theorem heap_free_coalesces_witness:
  "\<exists>s' s''. heap_alloc 100 heap0 = Some (Some 4128, s') \<and>
     heap_free (Some 4128) s' = Some s'' \<and> heap_inv s'' [Seg 4096 16777216 False]"
  using heap0_alloc_100 heap_free_coalesces[of _ _ 4096 144] by (fastforce simp: sizeof_heap_block_def)

text \<open>Allocation followed by release of the block it returned restores the segments, whatever
  the heap looked like: nothing leaks and no fragment is left.\<close>

theorem heap_alloc_free_restores:
  assumes "heap_inv s r" and "heap_alloc n s = Some (Some p, s')"
  shows "\<exists>s''. heap_free (Some p) s' = Some s'' \<and> heap_inv s'' r"
  using assms by (rule heap_alloc_free_aux)

theorem heap_alloc_free_restores_witness:
  "\<exists>s' s''. heap_alloc 100 heap0 = Some (Some 4128, s') \<and>
     heap_free (Some 4128) s' = Some s'' \<and> heap_inv s'' [Seg 4096 16777216 False]"
  using heap0_alloc_100 heap_alloc_free_restores[OF heap0_inv] by blast

text \<open>A returned pointer \<open>p\<close> addresses at least the \<open>n\<close> requested bytes inside the heap area,
  at a multiple of 16 from its start, and the new block overlaps no block that was in use.\<close>

theorem heap_alloc_block:
  assumes "heap_inv s r" and "uint n \<le> 2 ^ 64 - 48" and "heap_alloc n s = Some (Some p, s')"
  shows "heap_memory s + sizeof_heap_block \<le> p \<and> p + uint n \<le> heap_memory s + CONFIG_HEAP_SIZE \<and>
    16 dvd (p - heap_memory s) \<and>
    (\<forall>g \<in> set r. seg_used g \<longrightarrow>
       p + uint n \<le> seg_addr g \<or> seg_addr g + seg_size g \<le> p - sizeof_heap_block)"
  using heap_alloc_block_aux[OF assms] by blast

theorem heap_alloc_block_witness:
  "\<exists>s'. heap_alloc 100 heap0 = Some (Some 4128, s') \<and> (4128 :: int) + uint (100 :: u64) \<le> 16781312"
  using heap0_alloc_100 heap_alloc_block[OF heap0_inv, of 100] by (auto simp: CONFIG_HEAP_SIZE_def)

text \<open>The rounding of the request wraps for sizes near \<open>SIZE_MAX\<close>: a request for
  \<open>2^64 - 1\<close> bytes succeeds on the fresh heap and gets the smallest block, 16 usable bytes.\<close>

theorem heap_alloc_size_wraps:
  "\<exists>s'. heap_alloc (- 1) (heap_init s) = Some (Some (heap_memory s + sizeof_heap_block), s') \<and>
     heap_inv s' [Seg (heap_memory s) HEAP_MIN_SIZE True,
                  Seg (heap_memory s + HEAP_MIN_SIZE) (CONFIG_HEAP_SIZE - HEAP_MIN_SIZE) False]"
proof -
  have "uint (heap_request (- 1)) = 48" by (simp add: uint_heap_request)
  then show ?thesis
    using heap_alloc_sim[OF heap_init_inv[of s], of "- 1"]
    by (auto simp: heap_consts CONFIG_HEAP_SIZE_def)
qed

text \<open>C1: a client that starts from the initialised heap and issues any sequence of requests and
  releases of blocks it holds never faults and never loops; the pointers it holds are distinct and
  are exactly the used segments of a heap that satisfies the invariant.\<close>

theorem heap_client_safe:
  "\<exists>held s' r. client_run heap_alloc (\<lambda>a. heap_free (Some a)) ops [] (heap_init s) = Some (held, s')
     \<and> heap_inv s' r \<and> distinct held \<and> set held = heap_live r"
  using kheap.client_run_safe[OF heap_init_inv[of s], of "[]" ops] by simp

text \<open>The statistics walk ends in every state of the invariant; it counts every block once, the
  used and free sizes it reports are those of the segments and add up to the heap, and
  \<open>hs_largest_free\<close> is the maximum over the free segments.\<close>

theorem heap_stats_correct:
  assumes "heap_inv s r"
  shows "\<exists>st. heap_get_stats s = Some st \<and> hs_block_count st = int (length r) \<and>
     hs_used_size st = sum_list (map seg_size (filter seg_used r)) \<and>
     hs_used_size st + hs_free_size st = hs_total_size st \<and> hs_total_size st = CONFIG_HEAP_SIZE \<and>
     hs_largest_free st = Max (set (0 # map seg_size (filter (\<lambda>g. \<not> seg_used g) r)))"
proof -
  have t: "tiles (heap_memory s) r (heap_memory s + CONFIG_HEAP_SIZE)"
    and rs: "\<forall>g \<in> set r. seg_rep (heap_hdr s) g" using assms by (auto simp: heap_inv_def heap_rep_def)
  show ?thesis
    using heap_walk_tiles[OF t rs, of "\<lparr>hs_total_size = CONFIG_HEAP_SIZE, hs_used_size = 0, hs_free_size = 0,
        hs_largest_free = 0, hs_block_count = 0\<rparr>"] tiles_sum[OF t]
      sum_list_partition[of seg_size seg_used r]
    unfolding heap_get_stats_def Max.set_eq_fold by auto
qed

theorem heap_stats_correct_witness:
  "\<exists>st. heap_get_stats heap0 = Some st \<and> hs_block_count st = 1 \<and> hs_used_size st = 0 \<and>
     hs_largest_free st = 16777216"
  using heap_stats_correct[OF heap0_inv] by auto

text \<open>Aligned allocation for an alignment \<open>2^k\<close> returns a multiple of \<open>2^k\<close> with the \<open>n\<close>
  bytes inside the raw block it allocated and room below for the stored pointer, and releasing it
  releases exactly that raw block.\<close>

theorem heap_aligned_correct:
  fixes s :: heap
  assumes inv: "heap_inv s r" and k: "4 \<le> k" "k < 32"
    and area: "0 \<le> heap_memory s" "heap_memory s + CONFIG_HEAP_SIZE < 2 ^ 63"
    and n: "uint n < 2 ^ 32"
    and al: "heap_alloc_aligned n (2 ^ k) s = Some (Some a, s')"
  shows "\<exists>raw s1. heap_alloc (n + 2 ^ k + 8) s = Some (Some raw, s1) \<and> 2 ^ k dvd a \<and>
     raw + sizeof_voidp \<le> a \<and> a + uint n \<le> raw + uint (n + 2 ^ k + 8) \<and>
     heap_free_aligned (Some a) s' = heap_free (Some raw) s'"
  using heap_aligned_aux[OF assms] by blast

theorem heap_aligned_correct_witness:
  "\<exists>s' raw. heap_alloc_aligned 100 (2 ^ 4) heap0 = Some (Some 4144, s') \<and>
     heap_free_aligned (Some 4144) s' = heap_free (Some raw) s'"
proof -
  have "uint (heap_request 124) = 160" by (simp add: uint_heap_request)
  then obtain s1 where "heap_alloc 124 heap0 = Some (Some 4128, s1)"
    using heap_alloc_sim[OF heap0_inv, of 124] by (auto simp: heap_consts)
  then obtain s' where al: "heap_alloc_aligned 100 (2 ^ 4) heap0 = Some (Some 4144, s')"
    by (simp add: heap_alloc_aligned_def heap_consts sizeof_voidp_def)
  have "\<exists>raw. heap_free_aligned (Some 4144) s' = heap_free (Some raw) s'"
    using heap_aligned_correct[OF heap0_inv _ _ _ _ _ al] by (auto simp: CONFIG_HEAP_SIZE_def)
  then show ?thesis using al by blast
qed

end
