(* ===== verification/Mempool.thy ===== *)
theory Mempool
  imports Heap_Props
begin

text \<open>
  The fixed-block memory pool of \<open>kernel/memory.c\<close>, whose free list is threaded through the first
  word of each free block, and the DMA allocator built on it: one page from the pool, anything
  larger from the kernel heap.
\<close>

section \<open>The pool\<close>

record mempool =
  mp_base :: ptr
  mp_block_size :: u64
  mp_block_count :: u64
  mp_free_list :: ptr
  mp_cell :: "addr \<Rightarrow> ptr"   \<comment> \<open>the pointer word at each block address\<close>

text \<open>The linking loop: \<open>n\<close> rounds of \<open>*(void **)block = block + block_size; block += block_size\<close>.\<close>

fun mempool_chain :: "nat \<Rightarrow> int \<Rightarrow> addr \<Rightarrow> (addr \<Rightarrow> ptr) \<Rightarrow> addr \<times> (addr \<Rightarrow> ptr)" where
  "mempool_chain 0 bs b c = (b, c)"
| "mempool_chain (Suc n) bs b c = mempool_chain n bs (b + bs) (c(b := Some (b + bs)))"

definition mempool_init :: "ptr \<Rightarrow> u64 \<Rightarrow> u64 \<Rightarrow> mempool \<Rightarrow> status \<times> mempool" where
  "mempool_init base block_size block_count pool =
     (case base of
        None \<Rightarrow> (STATUS_INVALID, pool)
      | Some b \<Rightarrow>
          if block_size = 0 \<or> block_count = 0 then (STATUS_INVALID, pool)
          else
            let block_size = (block_size + 15) AND NOT 15;
                (last_block, c) = mempool_chain (unat (block_count - 1)) (uint block_size) b (mp_cell pool)
            in (STATUS_OK,
                pool\<lparr>mp_base := base, mp_block_size := block_size, mp_block_count := block_count,
                     mp_free_list := base, mp_cell := c(last_block := None)\<rparr>))"

definition mempool_alloc :: "mempool \<Rightarrow> ptr \<times> mempool" where
  "mempool_alloc pool =
     (case mp_free_list pool of
        None \<Rightarrow> (None, pool)
      | Some b \<Rightarrow> (Some b, pool\<lparr>mp_free_list := mp_cell pool b\<rparr>))"

definition mempool_free :: "ptr \<Rightarrow> mempool \<Rightarrow> mempool" where
  "mempool_free block pool =
     (case block of
        None \<Rightarrow> pool
      | Some b \<Rightarrow> pool\<lparr>mp_cell := (mp_cell pool)(b := mp_free_list pool), mp_free_list := Some b\<rparr>)"

section \<open>The DMA allocator\<close>

record dma_state =
  dma_heap :: heap
  dma_mempool :: mempool

definition dma_pool_init :: "addr \<Rightarrow> dma_state \<Rightarrow> dma_state" where
  "dma_pool_init dma_pool s =
     s\<lparr>dma_mempool := snd (mempool_init (Some dma_pool) 4096 (of_int (CONFIG_DMA_POOL_SIZE div 4096))
                            (dma_mempool s))\<rparr>"

definition dma_pages :: "u64 \<Rightarrow> u64" where
  "dma_pages n = (n + 4095) div 4096"

definition dma_alloc :: "u64 \<Rightarrow> dma_state \<Rightarrow> (ptr \<times> dma_state) option" where
  "dma_alloc n s =
     (if dma_pages n > 1 then do {
        (p, h) \<leftarrow> heap_alloc_aligned n 4096 (dma_heap s);
        Some (p, s\<lparr>dma_heap := h\<rparr>)
      } else let (p, m) = mempool_alloc (dma_mempool s) in Some (p, s\<lparr>dma_mempool := m\<rparr>))"

definition dma_free :: "ptr \<Rightarrow> u64 \<Rightarrow> dma_state \<Rightarrow> dma_state option" where
  "dma_free p n s =
     (if dma_pages n > 1 then do {
        h \<leftarrow> heap_free_aligned p (dma_heap s);
        Some (s\<lparr>dma_heap := h\<rparr>)
      } else Some (s\<lparr>dma_mempool := mempool_free p (dma_mempool s)\<rparr>))"

section \<open>The free list as a stack, and the pool as an allocator\<close>

text \<open>
  The abstract pool is the stack of free blocks and the set of blocks handed out. Nothing is said
  of the words inside live blocks: their owners may overwrite them.
\<close>

definition pool_rep :: "mempool \<Rightarrow> addr list \<times> addr set \<Rightarrow> bool" where
  "pool_rep pool r \<longleftrightarrow>
     sseg (mp_cell pool) (mp_free_list pool) (fst r) \<and> distinct (fst r) \<and> set (fst r) \<inter> snd r = {}"

definition pool_blocks :: "addr \<Rightarrow> int \<Rightarrow> nat \<Rightarrow> addr list" where
  "pool_blocks b bs n = map (\<lambda>i. b + int i * bs) [0..<n]"

lemma pool_blocks_Suc: "pool_blocks b bs (Suc n) = b # pool_blocks (b + bs) bs n"
  by (simp add: pool_blocks_def upt_conv_Cons map_Suc_upt[symmetric] algebra_simps comp_def
      del: upt_Suc map_Suc_upt)

lemma pool_blocks_ge: "0 < bs \<Longrightarrow> x \<in> set (pool_blocks b bs n) \<Longrightarrow> b \<le> x"
  by (auto simp: pool_blocks_def)

lemma distinct_pool_blocks: "0 < bs \<Longrightarrow> distinct (pool_blocks b bs n)"
  by (auto simp: pool_blocks_def distinct_map inj_on_def)

lemma mempool_chain_frame:
  "0 < bs \<Longrightarrow> x < b \<Longrightarrow> snd (mempool_chain n bs b c) x = c x"
  by (induction n arbitrary: b c) auto

lemma mempool_chain_sseg:
  "0 < bs \<Longrightarrow> mempool_chain n bs b c = (l, c') \<Longrightarrow>
     sseg (c'(l := None)) (Some b) (pool_blocks b bs (Suc n)) \<and> b \<le> l"
proof (induction n arbitrary: b c)
  case 0
  then show ?case by (simp add: pool_blocks_def)
next
  case (Suc n)
  have c: "mempool_chain n bs (b + bs) (c(b := Some (b + bs))) = (l, c')" using Suc.prems by simp
  have "c' b = Some (b + bs)"
    using mempool_chain_frame[OF Suc.prems(1), of b "b + bs" n "c(b := Some (b + bs))"] c Suc.prems(1)
    by simp
  then show ?case
    using Suc.IH[OF Suc.prems(1) c] Suc.prems(1) by (simp add: pool_blocks_Suc[of b bs "Suc n"])
qed

lemma pool_alloc_law:
  assumes "pool_rep pool (fs, ls)"
  shows "mempool_alloc pool = (case fs of [] \<Rightarrow> (None, pool)
           | b # _ \<Rightarrow> (Some b, pool\<lparr>mp_free_list := mp_cell pool b\<rparr>))"
    and "fs = b # fs' \<Longrightarrow> pool_rep (pool\<lparr>mp_free_list := mp_cell pool b\<rparr>) (fs', insert b ls)"
  using assms by (auto simp: pool_rep_def mempool_alloc_def split: list.splits)

lemma pool_free_law:
  assumes "pool_rep pool (fs, ls)" and "b \<in> ls"
  shows "pool_rep (mempool_free (Some b) pool) (b # fs, ls - {b})"
proof -
  have "b \<notin> set fs" using assms by (auto simp: pool_rep_def)
  then have "sseg ((mp_cell pool)(b := mp_free_list pool)) (mp_free_list pool) fs"
    using assms(1) by (simp add: pool_rep_def)
  then show ?thesis using assms \<open>b \<notin> set fs\<close> by (auto simp: pool_rep_def mempool_free_def)
qed

text \<open>Free and live blocks together are the blocks \<open>B\<close> the pool was set up with.\<close>

definition pool_of :: "addr set \<Rightarrow> mempool \<Rightarrow> addr list \<times> addr set \<Rightarrow> bool" where
  "pool_of B pool r \<longleftrightarrow> pool_rep pool r \<and> set (fst r) \<union> snd r = B"

interpretation mpool: allocator "pool_of B" snd "\<lambda>_ :: unit. \<lambda>p. Some (mempool_alloc p)"
  "\<lambda>a p. Some (mempool_free (Some a) p)" for B
proof unfold_locales
  fix pool r and n :: unit
  assume rep: "pool_of B pool r"
  obtain fs ls where r: "r = (fs, ls)" by (cases r)
  show "\<exists>p s' r'. Some (mempool_alloc pool) = Some (p, s') \<and> pool_of B s' r' \<and>
     (case p of None \<Rightarrow> snd r' = snd r | Some a \<Rightarrow> a \<notin> snd r \<and> snd r' = insert a (snd r))"
  proof (cases fs)
    case Nil
    then show ?thesis
      using rep pool_alloc_law(1)[of pool fs ls]
      by (intro exI[of _ None] exI[of _ pool] exI[of _ r]) (auto simp: r pool_of_def)
  next
    case (Cons b fs')
    then have "b \<notin> ls" using rep by (auto simp: r pool_of_def pool_rep_def)
    then show ?thesis
      using rep pool_alloc_law[of pool fs ls] Cons
      by (intro exI[of _ "Some b"] exI[of _ "pool\<lparr>mp_free_list := mp_cell pool b\<rparr>"]
          exI[of _ "(fs', insert b ls)"]) (auto simp: r pool_of_def)
  qed
next
  fix pool r a
  assume "pool_of B pool r" "a \<in> snd r"
  then show "\<exists>s' r'. Some (mempool_free (Some a) pool) = Some s' \<and> pool_of B s' r' \<and> snd r' = snd r - {a}"
    using pool_free_law[of pool "fst r" "snd r" a]
    by (intro exI[of _ "mempool_free (Some a) pool"] exI[of _ "(a # fst r, snd r - {a})"])
      (auto simp: pool_of_def)
qed

lemma mempool_init_rep:
  assumes "0 < uint bs" "uint bs \<le> 2 ^ 64 - 16" and "n \<noteq> 0"
  shows "\<exists>bs'. bs' = (uint bs + 15) div 16 * 16 \<and>
     fst (mempool_init (Some b) bs n pool) = STATUS_OK \<and>
     pool_rep (snd (mempool_init (Some b) bs n pool)) (pool_blocks b bs' (unat n), {})"
proof -
  have "NOT (15 :: u64) = NOT (mask 4)" by (simp add: mask_eq_exp_minus_1)
  then have bs': "uint ((bs + 15) AND NOT 15) = (uint bs + 15) div 16 * 16"
    using assms(2) by (simp only: uint_and_not_mask) (simp add: uint_add_no_wrap)
  then have bs'': "uint ((bs + 15) AND - 16) = (uint bs + 15) div 16 * 16" by simp
  have pos: "0 < (uint bs + 15) div 16 * 16" using assms(1) by linarith
  have n: "unat n = Suc (unat (n - 1))"
    using assms(3) by (simp add: unat_gt_0 unat_minus_one)
  obtain l c where c: "mempool_chain (unat (n - 1)) ((uint bs + 15) div 16 * 16) b (mp_cell pool) = (l, c)"
    by fastforce
  show ?thesis
    using mempool_chain_sseg[OF pos c] distinct_pool_blocks[OF pos] assms c n
    by (auto simp: mempool_init_def pool_rep_def bs'' Let_def)
qed

section \<open>Properties\<close>

text \<open>\<open>mempool_init\<close> links the blocks in address order: afterwards the free list visits the
  \<open>block_count\<close> blocks \<open>base + i * size\<close>, each once, where the block size is the requested one
  rounded up to 16 bytes.\<close>

theorem mempool_init_links_all:
  assumes "0 < uint bs" and "uint bs \<le> 2 ^ 64 - 16" and "n \<noteq> 0"
    and "mempool_init (Some b) bs n pool = (st, pool')"
  shows "st = STATUS_OK \<and> sseg (mp_cell pool') (mp_free_list pool')
           (map (\<lambda>i. b + int i * ((uint bs + 15) div 16 * 16)) [0..<unat n])"
  using mempool_init_rep[OF assms(1-3), of b pool] assms(4)
  by (auto simp: pool_rep_def pool_blocks_def)

theorem mempool_init_links_all_witness:
  "sseg (mp_cell (snd (mempool_init (Some 64) 20 3 (undefined :: mempool))))
     (mp_free_list (snd (mempool_init (Some 64) 20 3 (undefined :: mempool)))) [64, 96, 128]"
  using mempool_init_links_all[of 20 3 64 undefined, OF _ _ _ prod.collapse[symmetric]]
  by (simp add: upt_rec)

text \<open>From a freshly initialised pool, any sequence of requests and releases of held blocks
  hands out only blocks of the pool, never one that is still held, and gets \<open>NULL\<close> only when all
  \<open>block_count\<close> blocks are held.\<close>

theorem mempool_client_safe:
  assumes "0 < uint bs" and "uint bs \<le> 2 ^ 64 - 16" and "n \<noteq> 0"
  shows "\<exists>held pool'.
     client_run (\<lambda>_ :: unit. \<lambda>p. Some (mempool_alloc p)) (\<lambda>a p. Some (mempool_free (Some a) p)) ops []
       (snd (mempool_init (Some b) bs n pool)) = Some (held, pool') \<and>
     distinct held \<and>
     set held \<subseteq> set (pool_blocks b ((uint bs + 15) div 16 * 16) (unat n)) \<and>
     (fst (mempool_alloc pool') = None \<longleftrightarrow> length held = unat n)"
proof -
  let ?bs = "(uint bs + 15) div 16 * 16" and ?p = "snd (mempool_init (Some b) bs n pool)"
  let ?B = "set (pool_blocks b ?bs (unat n))"
  have "pool_of ?B ?p (pool_blocks b ?bs (unat n), {})"
    using mempool_init_rep[OF assms, of b pool] by (simp add: pool_of_def)
  from mpool.client_run_safe[OF this, of "[]" ops] obtain held pool' r where
    run: "client_run (\<lambda>_ :: unit. \<lambda>p. Some (mempool_alloc p)) (\<lambda>a p. Some (mempool_free (Some a) p))
            ops [] ?p = Some (held, pool')" and
    r: "pool_of ?B pool' r" "distinct held" "set held = snd r" by auto
  obtain fs ls where fl: "r = (fs, ls)" by (cases r)
  have rep: "pool_rep pool' (fs, ls)" and B: "set fs \<union> set held = ?B"
    using r fl by (auto simp: pool_of_def)
  have dis: "distinct (fs @ held)" using rep r fl by (auto simp: pool_rep_def)
  have "card ?B = unat n"
    using distinct_card[OF distinct_pool_blocks[of ?bs b "unat n"]] assms(1)
    by (simp add: pool_blocks_def)
  moreover have "card ?B = length (fs @ held)" using distinct_card[OF dis] B by simp
  ultimately have "length held = unat n \<longleftrightarrow> fs = []" by auto
  moreover have "fst (mempool_alloc pool') = None \<longleftrightarrow> fs = []"
    using pool_alloc_law(1)[OF rep] by (cases fs) auto
  ultimately have ex: "fst (mempool_alloc pool') = None \<longleftrightarrow> length held = unat n" by blast
  have "set held \<subseteq> ?B" using B by blast
  then show ?thesis using run r(2) ex by (intro exI[of _ held] exI[of _ pool']) simp
qed

theorem mempool_client_safe_witness:
  "\<exists>held pool'.
     client_run (\<lambda>_ :: unit. \<lambda>p. Some (mempool_alloc p)) (\<lambda>a p. Some (mempool_free (Some a) p))
       [Get (), Get (), Put 0, Get ()] [] (snd (mempool_init (Some 64) 20 3 (undefined :: mempool)))
       = Some (held, pool') \<and> distinct held"
  using mempool_client_safe[of 20 3 "[Get (), Get (), Put 0, Get ()]" 64 undefined] by auto

lemma mempool_free_alloc: "mempool_alloc pool = (Some b, pool') \<Longrightarrow> mempool_free (Some b) pool' = pool"
  by (auto simp: mempool_alloc_def mempool_free_def split: option.splits)

lemma uint_dma_pages: "uint n < 2 ^ 32 \<Longrightarrow> uint (dma_pages n) = (uint n + 4095) div 4096"
  by (simp add: dma_pages_def uint_div uint_add_no_wrap)

text \<open>Releasing a DMA block with the size it was requested with undoes the request. A request
  of at most a page leaves the whole state as it was; a larger one goes through the kernel heap and
  leaves the heap's segments as they were.\<close>

theorem dma_free_undoes_alloc:
  assumes inv: "heap_inv (dma_heap s) r"
    and area: "0 \<le> heap_memory (dma_heap s)" "heap_memory (dma_heap s) + CONFIG_HEAP_SIZE < 2 ^ 63"
    and n: "uint n < 2 ^ 32"
    and al: "dma_alloc n s = Some (Some p, s')"
  shows "\<exists>s''. dma_free (Some p) n s' = Some s'' \<and> heap_inv (dma_heap s'') r \<and>
     dma_mempool s'' = dma_mempool s \<and> (uint n \<le> 4096 \<longrightarrow> s'' = s)"
proof (cases "dma_pages n > 1")
  case False
  then obtain m where m: "mempool_alloc (dma_mempool s) = (Some p, m)" "s' = s\<lparr>dma_mempool := m\<rparr>"
    using al by (auto simp: dma_alloc_def split: prod.splits)
  then show ?thesis using False inv mempool_free_alloc[OF m(1)] by (simp add: dma_free_def)
next
  case True
  then obtain h where h: "heap_alloc_aligned n (2 ^ 12) (dma_heap s) = Some (Some p, h)"
    "s' = s\<lparr>dma_heap := h\<rparr>"
    using al by (auto simp: dma_alloc_def bind_eq_Some_conv)
  obtain raw s1 where raw: "heap_alloc (n + 2 ^ 12 + 8) (dma_heap s) = Some (Some raw, s1)"
    and fr: "heap_free_aligned (Some p) h = heap_free (Some raw) h" and hs: "h = s1\<lparr>heap_cell := heap_cell h\<rparr>"
    using heap_aligned_aux[OF inv _ _ area n h(1)] by auto
  obtain s2 where s2: "heap_free (Some raw) s1 = Some s2" "heap_inv s2 r"
    using heap_alloc_free_aux[OF inv raw] by blast
  have "heap_free (Some raw) h = Some (s2\<lparr>heap_cell := heap_cell h\<rparr>)"
    by (subst hs) (simp only: heap_free_cell s2(1) option.map)
  moreover have "\<not> uint n \<le> 4096" using True n by (simp add: word_less_def uint_dma_pages)
  ultimately show ?thesis using True s2(2) h(2) fr by (simp add: dma_free_def)
qed

theorem dma_free_undoes_alloc_witness:
  "\<exists>s' s''. dma_alloc 100 \<lparr>dma_heap = heap0,
       dma_mempool = snd (mempool_init (Some 64) 4096 3 undefined)\<rparr> = Some (Some 64, s') \<and>
     dma_free (Some 64) 100 s' = Some s'' \<and> dma_mempool s'' = snd (mempool_init (Some 64) 4096 3 undefined)"
proof -
  let ?s = "\<lparr>dma_heap = heap0, dma_mempool = snd (mempool_init (Some 64) 4096 3 undefined)\<rparr>"
  have "mp_free_list (snd (mempool_init (Some 64) 4096 3 undefined)) = Some 64"
    by (simp add: mempool_init_def Let_def split: prod.split)
  then obtain s' where al: "dma_alloc 100 ?s = Some (Some 64, s')"
    by (simp add: dma_alloc_def dma_pages_def mempool_alloc_def)
  show ?thesis
    using dma_free_undoes_alloc[of ?s _ 100 64 s'] heap0_inv al by (auto simp: CONFIG_HEAP_SIZE_def)
qed

end
