(* ===== verification/Zbuf.thy ===== *)
theory Zbuf
  imports Config
begin

text \<open>
  The zero-copy network buffers of \<open>net/buffer/zbuf.c\<close> and \<open>include/zbuf.h\<close>: the descriptor,
  the pool with its free list, allocation, reference counting, cloning and the operations that move
  the data window. A descriptor is stored at the address of its \<open>zbuf_t\<close>; the bytes of all buffers
  are one memory, and code that touches a byte outside the buffer it works on faults (\<open>None\<close>).
\<close>

section \<open>Data\<close>

record zbuf =
  zb_head :: addr
  zb_data :: addr
  zb_tail :: addr
  zb_end :: addr
  zb_len :: u16
  zb_size :: u16
  zb_refcount :: u16
  zb_flags :: u16
  zb_protocol :: u16
  zb_l2_offset :: u16
  zb_l3_offset :: u16
  zb_l4_offset :: u16
  zb_netif :: ptr
  zb_hash :: u32
  zb_dma_addr :: addr
  zb_next :: ptr
  zb_prev :: ptr
  zb_timestamp :: u64

definition sizeof_zbuf :: int where "sizeof_zbuf = 104"

definition ZBUF_F_TX :: u16 where "ZBUF_F_TX = 1"
definition ZBUF_F_RX :: u16 where "ZBUF_F_RX = 2"
definition ZBUF_F_DMA :: u16 where "ZBUF_F_DMA = 4"
definition ZBUF_F_SHARED :: u16 where "ZBUF_F_SHARED = 8"
definition ZBUF_F_CLONED :: u16 where "ZBUF_F_CLONED = 16"

lemmas zbuf_flag_defs =
  ZBUF_F_TX_def ZBUF_F_RX_def ZBUF_F_DMA_def ZBUF_F_SHARED_def ZBUF_F_CLONED_def

record zpool =
  zp_buf :: "addr \<Rightarrow> zbuf"
  zp_mem :: "addr \<Rightarrow> u8"
  zp_free_list :: ptr
  zp_total_count :: u32
  zp_free_count :: u32
  zp_alloc_failures :: u32
  zp_memory :: addr

definition zb_upd :: "addr \<Rightarrow> (zbuf \<Rightarrow> zbuf) \<Rightarrow> zpool \<Rightarrow> zpool" where
  "zb_upd b f z = z\<lparr>zp_buf := (zp_buf z)(b := f (zp_buf z b))\<rparr>"

definition zb_set_prev :: "ptr \<Rightarrow> ptr \<Rightarrow> zpool \<Rightarrow> zpool" where
  "zb_set_prev p v z = (case p of None \<Rightarrow> z | Some b \<Rightarrow> zb_upd b (zb_prev_update (\<lambda>_. v)) z)"

section \<open>The pool\<close>

text \<open>Size of one pool slot: descriptor and buffer, rounded up to 64 bytes.\<close>

definition zbuf_slot :: int where
  "zbuf_slot = (sizeof_zbuf + CONFIG_ZBUF_SIZE + 63) div 64 * 64"

text \<open>One round of the initialisation loop for the descriptor at \<open>b\<close>.\<close>

definition zbuf_init_one :: "addr \<Rightarrow> zpool \<Rightarrow> zpool" where
  "zbuf_init_one b z =
     (let head = b + sizeof_zbuf;
          z = zb_upd b (\<lambda>k. k\<lparr>zb_head := head, zb_end := head + CONFIG_ZBUF_SIZE,
                zb_data := head + CONFIG_ZBUF_HEADROOM, zb_tail := head + CONFIG_ZBUF_HEADROOM,
                zb_len := 0, zb_size := of_int CONFIG_ZBUF_SIZE, zb_refcount := 0,
                zb_flags := ZBUF_F_DMA, zb_protocol := 0, zb_netif := None, zb_dma_addr := head,
                zb_timestamp := 0, zb_next := zp_free_list z, zb_prev := None\<rparr>) z;
          z = zb_set_prev (zp_free_list z) (Some b) z
      in z\<lparr>zp_free_list := Some b\<rparr>)"

fun zbuf_init_loop :: "nat \<Rightarrow> addr \<Rightarrow> zpool \<Rightarrow> zpool" where
  "zbuf_init_loop 0 b z = z"
| "zbuf_init_loop (Suc n) b z = zbuf_init_loop n (b + zbuf_slot) (zbuf_init_one b z)"

definition zbuf_pool_init :: "zpool \<Rightarrow> status \<times> zpool" where
  "zbuf_pool_init z =
     (STATUS_OK,
      zbuf_init_loop CONFIG_ZBUF_COUNT (zp_memory z)
        (z\<lparr>zp_free_list := None, zp_total_count := of_nat CONFIG_ZBUF_COUNT,
           zp_free_count := of_nat CONFIG_ZBUF_COUNT, zp_alloc_failures := 0\<rparr>))"

definition zbuf_pool_stats :: "zpool \<Rightarrow> u32 \<times> u32 \<times> u32" where
  "zbuf_pool_stats z = (zp_total_count z, zp_free_count z, zp_alloc_failures z)"

section \<open>Allocation\<close>

definition zbuf_alloc :: "u16 \<Rightarrow> zpool \<Rightarrow> ptr \<times> zpool" where
  "zbuf_alloc n z =
     (if uint n > CONFIG_ZBUF_SIZE - CONFIG_ZBUF_HEADROOM then (None, z)
      else case zp_free_list z of
        None \<Rightarrow> (None, z\<lparr>zp_alloc_failures := zp_alloc_failures z + 1\<rparr>)
      | Some b \<Rightarrow>
          let z = z\<lparr>zp_free_list := zb_next (zp_buf z b)\<rparr>;
              z = zb_set_prev (zp_free_list z) None z;
              z = z\<lparr>zp_free_count := zp_free_count z - 1\<rparr>;
              z = zb_upd b (\<lambda>k. k\<lparr>zb_data := zb_head k + CONFIG_ZBUF_HEADROOM,
                    zb_tail := zb_head k + CONFIG_ZBUF_HEADROOM, zb_len := 0, zb_refcount := 1,
                    zb_flags := ZBUF_F_DMA, zb_protocol := 0, zb_l2_offset := 0, zb_l3_offset := 0,
                    zb_l4_offset := 0, zb_netif := None, zb_hash := 0, zb_timestamp := 0,
                    zb_next := None, zb_prev := None\<rparr>) z
          in (Some b, z))"

definition zbuf_alloc_tx :: "u16 \<Rightarrow> zpool \<Rightarrow> ptr \<times> zpool" where
  "zbuf_alloc_tx n z =
     (case zbuf_alloc n z of
        (None, z) \<Rightarrow> (None, z)
      | (Some b, z) \<Rightarrow> (Some b, zb_upd b (\<lambda>k. k\<lparr>zb_flags := zb_flags k OR ZBUF_F_TX\<rparr>) z))"

definition zbuf_alloc_rx :: "u16 \<Rightarrow> zpool \<Rightarrow> ptr \<times> zpool" where
  "zbuf_alloc_rx n z =
     (case zbuf_alloc n z of
        (None, z) \<Rightarrow> (None, z)
      | (Some b, z) \<Rightarrow>
          (Some b, zb_upd b (\<lambda>k. k\<lparr>zb_flags := zb_flags k OR ZBUF_F_RX,
                     zb_data := zb_head k, zb_tail := zb_head k\<rparr>) z))"

section \<open>Reference counting and release\<close>

text \<open>
  The code hands the address of the 16-bit \<open>refcount\<close> to the 32-bit atomics. The word they read and
  write holds \<open>refcount\<close> in its low half and the next field, \<open>flags\<close>, in its high half
  (little endian; \<open>refcount\<close> sits at offset 36, \<open>flags\<close> at 38).
\<close>

definition ref_word :: "zbuf \<Rightarrow> u32" where
  "ref_word k = push_bit 16 (ucast (zb_flags k)) OR ucast (zb_refcount k)"

definition set_ref_word :: "u32 \<Rightarrow> zbuf \<Rightarrow> zbuf" where
  "set_ref_word w k = k\<lparr>zb_refcount := ucast w, zb_flags := ucast (drop_bit 16 w)\<rparr>"

text \<open>\<open>atomic_add\<close> and \<open>atomic_sub\<close> return the new value.\<close>

definition atomic_add_ref :: "addr \<Rightarrow> u32 \<Rightarrow> zpool \<Rightarrow> u32 \<times> zpool" where
  "atomic_add_ref b v z =
     (let w = ref_word (zp_buf z b) + v in (w, zb_upd b (set_ref_word w) z))"

definition atomic_sub_ref :: "addr \<Rightarrow> u32 \<Rightarrow> zpool \<Rightarrow> u32 \<times> zpool" where
  "atomic_sub_ref b v z =
     (let w = ref_word (zp_buf z b) - v in (w, zb_upd b (set_ref_word w) z))"

definition zbuf_to_pool :: "addr \<Rightarrow> zpool \<Rightarrow> zpool" where
  "zbuf_to_pool b z =
     (let z = zb_upd b (\<lambda>k. k\<lparr>zb_next := zp_free_list z, zb_prev := None\<rparr>) z;
          z = zb_set_prev (zp_free_list z) (Some b) z
      in z\<lparr>zp_free_list := Some b, zp_free_count := zp_free_count z + 1\<rparr>)"

definition zbuf_free :: "ptr \<Rightarrow> zpool \<Rightarrow> zpool" where
  "zbuf_free p z =
     (case p of
        None \<Rightarrow> z
      | Some b \<Rightarrow>
          if zb_flags (zp_buf z b) AND ZBUF_F_SHARED \<noteq> 0 then z
          else let (w, z) = atomic_sub_ref b 1 z in
               if w > 1 then z else zbuf_to_pool b z)"

definition zbuf_ref :: "ptr \<Rightarrow> zpool \<Rightarrow> ptr \<times> zpool" where
  "zbuf_ref p z = (p, case p of None \<Rightarrow> z | Some b \<Rightarrow> snd (atomic_add_ref b 1 z))"

definition zbuf_unref :: "ptr \<Rightarrow> zpool \<Rightarrow> zpool" where
  "zbuf_unref p z = zbuf_free p z"

section \<open>Bytes of a buffer\<close>

definition in_buf :: "zbuf \<Rightarrow> addr \<Rightarrow> nat \<Rightarrow> bool" where
  "in_buf k a n \<longleftrightarrow> zb_head k \<le> a \<and> a + int n \<le> zb_end k"

definition mem_bytes :: "(addr \<Rightarrow> u8) \<Rightarrow> addr \<Rightarrow> nat \<Rightarrow> u8 list" where
  "mem_bytes m a n = map (\<lambda>i. m (a + int i)) [0..<n]"

definition mem_write :: "addr \<Rightarrow> u8 list \<Rightarrow> (addr \<Rightarrow> u8) \<Rightarrow> addr \<Rightarrow> u8" where
  "mem_write a bs m = (\<lambda>x. if a \<le> x \<and> x < a + int (length bs) then bs ! nat (x - a) else m x)"

definition zb_load :: "addr \<Rightarrow> addr \<Rightarrow> nat \<Rightarrow> zpool \<Rightarrow> u8 list option" where
  "zb_load b a n z = (if in_buf (zp_buf z b) a n then Some (mem_bytes (zp_mem z) a n) else None)"

definition zb_store :: "addr \<Rightarrow> addr \<Rightarrow> u8 list \<Rightarrow> zpool \<Rightarrow> zpool option" where
  "zb_store b a bs z =
     (if in_buf (zp_buf z b) a (length bs) then Some (z\<lparr>zp_mem := mem_write a bs (zp_mem z)\<rparr>)
      else None)"

definition zb_payload :: "addr \<Rightarrow> zpool \<Rightarrow> u8 list" where
  "zb_payload b z = mem_bytes (zp_mem z) (zb_data (zp_buf z b)) (unat (zb_len (zp_buf z b)))"

section \<open>Cloning\<close>

text \<open>The copy loop \<open>dst[i] = src[i]\<close> for \<open>i < len\<close>.\<close>

fun copy_loop :: "nat \<Rightarrow> addr \<Rightarrow> addr \<Rightarrow> (addr \<Rightarrow> u8) \<Rightarrow> addr \<Rightarrow> u8" where
  "copy_loop 0 src dst m = m"
| "copy_loop (Suc n) src dst m = copy_loop n (src + 1) (dst + 1) (m(dst := m src))"

definition zbuf_clone :: "ptr \<Rightarrow> zpool \<Rightarrow> (ptr \<times> zpool) option" where
  "zbuf_clone p z =
     (case p of
        None \<Rightarrow> Some (None, z)
      | Some b \<Rightarrow>
          (case zbuf_alloc (zb_len (zp_buf z b)) z of
             (None, z) \<Rightarrow> Some (None, z)
           | (Some c, z) \<Rightarrow>
               let k = zp_buf z b; n = unat (zb_len k) in
               if in_buf k (zb_data k) n \<and> in_buf (zp_buf z c) (zb_data (zp_buf z c)) n then
                 let z = z\<lparr>zp_mem := copy_loop n (zb_data k) (zb_data (zp_buf z c)) (zp_mem z)\<rparr>;
                     z = zb_upd c (\<lambda>c. c\<lparr>zb_tail := zb_data c + uint (zb_len k), zb_len := zb_len k,
                           zb_flags := (zb_flags k AND NOT ZBUF_F_CLONED) OR ZBUF_F_CLONED,
                           zb_protocol := zb_protocol k, zb_l2_offset := zb_l2_offset k,
                           zb_l3_offset := zb_l3_offset k, zb_l4_offset := zb_l4_offset k,
                           zb_netif := zb_netif k, zb_hash := zb_hash k,
                           zb_timestamp := zb_timestamp k\<rparr>) z
                 in Some (Some c, z)
               else None))"

section \<open>The data window\<close>

definition zbuf_push :: "u16 \<Rightarrow> zbuf \<Rightarrow> ptr \<times> zbuf" where
  "zbuf_push n k =
     (if zb_data k - uint n < zb_head k then (None, k)
      else let k = k\<lparr>zb_data := zb_data k - uint n, zb_len := zb_len k + n\<rparr>
           in (Some (zb_data k), k))"

definition zbuf_pull :: "u16 \<Rightarrow> zbuf \<Rightarrow> ptr \<times> zbuf" where
  "zbuf_pull n k =
     (if n > zb_len k then (None, k)
      else let k = k\<lparr>zb_data := zb_data k + uint n, zb_len := zb_len k - n\<rparr>
           in (Some (zb_data k), k))"

definition zbuf_put :: "u16 \<Rightarrow> zbuf \<Rightarrow> ptr \<times> zbuf" where
  "zbuf_put n k =
     (if zb_tail k + uint n > zb_end k then (None, k)
      else (Some (zb_tail k), k\<lparr>zb_tail := zb_tail k + uint n, zb_len := zb_len k + n\<rparr>))"

definition zbuf_trim :: "u16 \<Rightarrow> zbuf \<Rightarrow> zbuf" where
  "zbuf_trim n k =
     (let n = (if n > zb_len k then zb_len k else n)
      in k\<lparr>zb_tail := zb_tail k - uint n, zb_len := zb_len k - n\<rparr>)"

definition zbuf_reserve :: "u16 \<Rightarrow> zbuf \<Rightarrow> zbuf" where
  "zbuf_reserve n k = k\<lparr>zb_data := zb_data k + uint n, zb_tail := zb_data k + uint n\<rparr>"

definition zbuf_reset :: "zbuf \<Rightarrow> zbuf" where
  "zbuf_reset k =
     k\<lparr>zb_data := zb_head k + CONFIG_ZBUF_HEADROOM, zb_tail := zb_head k + CONFIG_ZBUF_HEADROOM,
       zb_len := 0, zb_protocol := 0, zb_l2_offset := 0, zb_l3_offset := 0, zb_l4_offset := 0\<rparr>"

definition zbuf_headroom :: "zbuf \<Rightarrow> u16" where
  "zbuf_headroom k = of_int (zb_data k - zb_head k)"

definition zbuf_tailroom :: "zbuf \<Rightarrow> u16" where
  "zbuf_tailroom k = of_int (zb_end k - zb_tail k)"

text \<open>A window operation applied to the buffer at an address.\<close>

definition zb_op :: "addr \<Rightarrow> (zbuf \<Rightarrow> ptr \<times> zbuf) \<Rightarrow> zpool \<Rightarrow> ptr \<times> zpool" where
  "zb_op b f z = (fst (f (zp_buf z b)), zb_upd b (\<lambda>_. snd (f (zp_buf z b))) z)"

end
