(* ===== verification/Zbuf_Props.thy ===== *)
theory Zbuf_Props
  imports Zbuf Allocator
begin

text \<open>
  The invariant of the buffer pool (the free list is a doubly linked list of slots of the pool, its
  length is the free count, every slot has its fixed layout), the well-formedness of one buffer's
  data window, and the properties of \<open>net/buffer/zbuf.c\<close>.
\<close>

section \<open>The pool invariant\<close>

definition zbuf_slots :: "addr \<Rightarrow> addr list" where
  "zbuf_slots m = map (\<lambda>i. m + int i * zbuf_slot) [0..<CONFIG_ZBUF_COUNT]"

definition zb_layout :: "addr \<Rightarrow> zbuf \<Rightarrow> bool" where
  "zb_layout b k \<longleftrightarrow> zb_head k = b + sizeof_zbuf \<and> zb_end k = b + sizeof_zbuf + CONFIG_ZBUF_SIZE"

abbreviation zp_next :: "zpool \<Rightarrow> addr \<Rightarrow> ptr" where
  "zp_next z \<equiv> \<lambda>a. zb_next (zp_buf z a)"

abbreviation zp_prev :: "zpool \<Rightarrow> addr \<Rightarrow> ptr" where
  "zp_prev z \<equiv> \<lambda>a. zb_prev (zp_buf z a)"

definition zpool_inv :: "zpool \<Rightarrow> addr list \<Rightarrow> bool" where
  "zpool_inv z fl \<longleftrightarrow>
     dll (zp_next z) (zp_prev z) (zp_free_list z) fl \<and> distinct fl \<and>
     set fl \<subseteq> set (zbuf_slots (zp_memory z)) \<and> uint (zp_free_count z) = int (length fl) \<and>
     (\<forall>b \<in> set (zbuf_slots (zp_memory z)). zb_layout b (zp_buf z b))"

lemma zb_upd_simps [simp]:
  "zp_free_list (zb_upd b f z) = zp_free_list z" "zp_free_count (zb_upd b f z) = zp_free_count z"
  "zp_mem (zb_upd b f z) = zp_mem z" "zp_memory (zb_upd b f z) = zp_memory z"
  "zp_alloc_failures (zb_upd b f z) = zp_alloc_failures z"
  "zp_total_count (zb_upd b f z) = zp_total_count z"
  "zp_buf (zb_upd b f z) a = (if a = b then f (zp_buf z b) else zp_buf z a)"
  by (simp_all add: zb_upd_def)

lemma zb_set_prev_simps [simp]:
  "zp_free_list (zb_set_prev p v z) = zp_free_list z"
  "zp_free_count (zb_set_prev p v z) = zp_free_count z"
  "zp_mem (zb_set_prev p v z) = zp_mem z" "zp_memory (zb_set_prev p v z) = zp_memory z"
  "zp_alloc_failures (zb_set_prev p v z) = zp_alloc_failures z"
  "zp_total_count (zb_set_prev p v z) = zp_total_count z"
  "zp_buf (zb_set_prev p v z) a =
     (if p = Some a then zp_buf z a\<lparr>zb_prev := v\<rparr> else zp_buf z a)"
  by (auto simp: zb_set_prev_def split: option.split)

lemma zbuf_slot_value: "zbuf_slot = 2176"
  by (simp add: zbuf_slot_def sizeof_zbuf_def CONFIG_ZBUF_SIZE_def)

lemma zb_layout_upd [simp]:
  "zb_layout b (k\<lparr>zb_prev := v\<rparr>) = zb_layout b k" "zb_layout b (k\<lparr>zb_next := v\<rparr>) = zb_layout b k"
  "zb_layout b (set_ref_word w k) = zb_layout b k"
  by (simp_all add: zb_layout_def set_ref_word_def)

section \<open>Initialisation\<close>

lemma zbuf_init_one_inv:
  assumes "dll (zp_next z) (zp_prev z) (zp_free_list z) fl" and "distinct fl" and "b \<notin> set fl"
    and "\<forall>a \<in> set fl. zb_layout a (zp_buf z a)"
  shows "dll (zp_next (zbuf_init_one b z)) (zp_prev (zbuf_init_one b z)) (Some b) (b # fl)"
    and "zp_free_list (zbuf_init_one b z) = Some b" and "zp_free_count (zbuf_init_one b z) = zp_free_count z"
    and "zp_memory (zbuf_init_one b z) = zp_memory z"
    and "\<forall>a \<in> set (b # fl). zb_layout a (zp_buf (zbuf_init_one b z) a)"
proof -
  have ne: "zp_free_list z \<noteq> Some b"
    using assms(1,3) by (cases fl) auto
  show "dll (zp_next (zbuf_init_one b z)) (zp_prev (zbuf_init_one b z)) (Some b) (b # fl)"
    by (rule dll_push[OF assms(1,2)]) (use assms ne in \<open>auto simp: zbuf_init_one_def Let_def\<close>)
  show "\<forall>a \<in> set (b # fl). zb_layout a (zp_buf (zbuf_init_one b z) a)"
    using assms ne by (auto simp: zbuf_init_one_def Let_def) (auto simp: zb_layout_def)
qed (simp_all add: zbuf_init_one_def Let_def)

lemma zbuf_init_loop_inv:
  assumes "dll (zp_next z) (zp_prev z) (zp_free_list z) fl" and "distinct fl" and "\<forall>a \<in> set fl. a < b"
    and "\<forall>a \<in> set fl. zb_layout a (zp_buf z a)"
    and "z' = zbuf_init_loop n b z" and "fl' = rev (map (\<lambda>i. b + int i * zbuf_slot) [0..<n]) @ fl"
  shows "dll (zp_next z') (zp_prev z') (zp_free_list z') fl' \<and> distinct fl' \<and>
    zp_free_count z' = zp_free_count z \<and> zp_memory z' = zp_memory z \<and>
    (\<forall>a \<in> set fl'. zb_layout a (zp_buf z' a))"
  using assms
proof (induction n arbitrary: b z fl z' fl')
  case 0
  then show ?case by simp
next
  case (Suc n)
  have "b \<notin> set fl" using Suc.prems(3) by auto
  note one = zbuf_init_one_inv[OF Suc.prems(1,2) this Suc.prems(4)]
  have m: "rev (map (\<lambda>i. b + int i * zbuf_slot) [0..<Suc n]) @ fl =
      rev (map (\<lambda>i. (b + zbuf_slot) + int i * zbuf_slot) [0..<n]) @ b # fl"
    by (simp add: upt_rec[of 0 "Suc n"] map_Suc_upt[symmetric] del: upt_Suc) (simp add: algebra_simps)
  have "dll (zp_next z') (zp_prev z') (zp_free_list z') fl' \<and> distinct fl' \<and>
    zp_free_count z' = zp_free_count (zbuf_init_one b z) \<and> zp_memory z' = zp_memory (zbuf_init_one b z) \<and>
    (\<forall>a \<in> set fl'. zb_layout a (zp_buf z' a))"
  proof (rule Suc.IH[of "zbuf_init_one b z" "b # fl" "b + zbuf_slot"])
    show "dll (zp_next (zbuf_init_one b z)) (zp_prev (zbuf_init_one b z)) (zp_free_list (zbuf_init_one b z)) (b # fl)"
      using one(1) unfolding one(2) .
    show "\<forall>a\<in>set (b # fl). a < b + zbuf_slot" using Suc.prems(3) by (auto simp: zbuf_slot_value)
    show "fl' = rev (map (\<lambda>i. (b + zbuf_slot) + int i * zbuf_slot) [0..<n]) @ b # fl"
      using Suc.prems(6) m by simp
  qed (use one Suc.prems in auto)
  then show ?case using one by simp
qed

lemma zbuf_pool_init_aux:
  assumes "zbuf_pool_init z = (st, z')"
  shows "st = STATUS_OK \<and> zp_memory z' = zp_memory z \<and> zpool_inv z' (rev (zbuf_slots (zp_memory z)))"
  using zbuf_init_loop_inv[of "z\<lparr>zp_free_list := None, zp_total_count := of_nat CONFIG_ZBUF_COUNT,
           zp_free_count := of_nat CONFIG_ZBUF_COUNT, zp_alloc_failures := 0\<rparr>" "[]" "zp_memory z",
        OF _ _ _ _ refl refl, of CONFIG_ZBUF_COUNT] assms
  by (simp add: zbuf_pool_init_def zpool_inv_def zbuf_slots_def CONFIG_ZBUF_COUNT_def)

section \<open>Allocation and release\<close>

text \<open>A buffer as the allocator hands it out.\<close>

definition zb_ready :: "zbuf \<Rightarrow> bool" where
  "zb_ready k \<longleftrightarrow> zb_data k = zb_head k + CONFIG_ZBUF_HEADROOM \<and> zb_tail k = zb_data k \<and>
     zb_len k = 0 \<and> zb_refcount k = 1 \<and> zb_flags k = ZBUF_F_DMA \<and> zb_next k = None \<and> zb_prev k = None"

lemma zbuf_alloc_Some:
  assumes inv: "zpool_inv z (b # fl)" and n: "uint n \<le> CONFIG_ZBUF_SIZE - CONFIG_ZBUF_HEADROOM"
  shows "\<exists>z'. zbuf_alloc n z = (Some b, z') \<and> zpool_inv z' fl \<and> zb_ready (zp_buf z' b) \<and>
    (\<forall>a. a \<notin> set (b # fl) \<longrightarrow> zp_buf z' a = zp_buf z a) \<and> zp_mem z' = zp_mem z \<and> zp_memory z' = zp_memory z"
proof -
  have fl: "zp_free_list z = Some b" and d: "distinct (b # fl)"
    and dll: "dll (zp_next z) (zp_prev z) (Some b) (b # fl)"
    using inv by (auto simp: zpool_inv_def)
  let ?z = "snd (zbuf_alloc n z)"
  have fst: "fst (zbuf_alloc n z) = Some b" using fl n by (simp add: zbuf_alloc_def Let_def)
  have nb: "zb_next (zp_buf z b) \<noteq> Some b"
    using dll d by (cases fl) auto
  have hd: "a \<in> set fl" if "zb_next (zp_buf z b) = Some a" for a
    using dll that by (cases fl) auto
  have "dll (zp_next ?z) (zp_prev ?z) (zb_next (zp_buf z b)) fl"
    by (rule dll_pop[OF dll]) (use d n fl nb in \<open>auto simp: zbuf_alloc_def Let_def\<close>)
  moreover have "uint (zp_free_count z - 1) = int (length fl)"
    using inv uint_minus_one[of "zp_free_count z"] by (simp add: zpool_inv_def)
  moreover have "zp_free_list ?z = zb_next (zp_buf z b)" "zp_free_count ?z = zp_free_count z - 1"
    "zp_memory ?z = zp_memory z" "zp_mem ?z = zp_mem z" "zb_ready (zp_buf ?z b)"
    "\<forall>a. a \<notin> set (b # fl) \<longrightarrow> zp_buf ?z a = zp_buf z a"
    "\<forall>a \<in> set (zbuf_slots (zp_memory z)). zb_layout a (zp_buf ?z a)"
    using n fl nb hd inv by (auto simp: zbuf_alloc_def Let_def zb_ready_def zb_layout_def zpool_inv_def)
  ultimately show ?thesis using fst inv d
    by (intro exI[of _ ?z]) (auto simp: zpool_inv_def prod_eq_iff)
qed

lemma zbuf_alloc_None:
  "zpool_inv z [] \<Longrightarrow> uint n \<le> CONFIG_ZBUF_SIZE - CONFIG_ZBUF_HEADROOM \<Longrightarrow>
     zbuf_alloc n z = (None, z\<lparr>zp_alloc_failures := zp_alloc_failures z + 1\<rparr>)"
  by (auto simp: zpool_inv_def zbuf_alloc_def)

lemma zbuf_alloc_large:
  "uint n > CONFIG_ZBUF_SIZE - CONFIG_ZBUF_HEADROOM \<Longrightarrow> zbuf_alloc n z = (None, z)"
  by (simp add: zbuf_alloc_def)

lemma zpool_inv_failures [simp]: "zpool_inv (z\<lparr>zp_alloc_failures := c\<rparr>) fl = zpool_inv z fl"
  by (simp add: zpool_inv_def)

lemma uint_ref_word: "uint (ref_word k) = 65536 * uint (zb_flags k) + uint (zb_refcount k)"
proof -
  have "(push_bit 16 (ucast (zb_flags k)) :: u32) AND ucast (zb_refcount k) = 0"
    by (rule bit_eqI) (auto simp: bit_simps dest: bit_imp_le_length)
  then have "ref_word k = push_bit 16 (ucast (zb_flags k)) + ucast (zb_refcount k)"
    by (simp add: ref_word_def disjunctive_add_eq_or)
  moreover have "uint (push_bit 16 (ucast (zb_flags k)) :: u32) = 65536 * uint (zb_flags k)"
    using uint_lt2p[of "zb_flags k"]
    by (simp add: push_bit_eq_mult uint_word_ariths unsigned_ucast_eq take_bit_eq_mod)
  moreover have "uint (ucast (zb_refcount k) :: u32) = uint (zb_refcount k)"
    using uint_lt2p[of "zb_refcount k"] by (simp add: unsigned_ucast_eq take_bit_eq_mod)
  ultimately show ?thesis
    using uint_lt2p[of "zb_flags k"] uint_lt2p[of "zb_refcount k"]
    by (simp add: uint_add_no_wrap)
qed

lemma length_zbuf_slots [simp]: "length (zbuf_slots m) = 1024"
  by (simp add: zbuf_slots_def CONFIG_ZBUF_COUNT_def)

lemma zpool_inv_length: "zpool_inv z fl \<Longrightarrow> length fl \<le> 1024"
  using card_mono[of "set (zbuf_slots (zp_memory z))" "set fl"] card_length[of "zbuf_slots (zp_memory z)"]
  by (auto simp: zpool_inv_def distinct_card)

lemma zbuf_to_pool_inv:
  assumes inv: "zpool_inv z fl" and b: "b \<in> set (zbuf_slots (zp_memory z))" "b \<notin> set fl"
  shows "zpool_inv (zbuf_to_pool b z) (b # fl)"
proof -
  have dll: "dll (zp_next z) (zp_prev z) (zp_free_list z) fl" and d: "distinct fl"
    using inv by (auto simp: zpool_inv_def)
  have ne: "zp_free_list z \<noteq> Some b" using dll b(2) by (cases fl) auto
  have "dll (zp_next (zbuf_to_pool b z)) (zp_prev (zbuf_to_pool b z)) (Some b) (b # fl)"
    by (rule dll_push[OF dll d]) (use b ne in \<open>auto simp: zbuf_to_pool_def Let_def\<close>)
  moreover have "uint (zp_free_count z + 1) = int (length fl) + 1"
    using inv zpool_inv_length[OF inv] by (subst uint_add_no_wrap) (auto simp: zpool_inv_def)
  ultimately show ?thesis
    using inv b ne by (auto simp: zpool_inv_def zbuf_to_pool_def Let_def zb_layout_def)
qed

lemma zpool_inv_ref_word:
  "zpool_inv (zb_upd b (set_ref_word w) z) fl = zpool_inv z fl"
proof -
  have "zp_next (zb_upd b (set_ref_word w) z) = zp_next z" "zp_prev (zb_upd b (set_ref_word w) z) = zp_prev z"
    by (auto simp: set_ref_word_def)
  then show ?thesis by (auto simp: zpool_inv_def)
qed

lemma zbuf_free_cases:
  assumes "zb_flags (zp_buf z b) AND ZBUF_F_SHARED = 0"
  shows "zbuf_free (Some b) z =
    (let w = ref_word (zp_buf z b) - 1; z' = zb_upd b (set_ref_word w) z
     in if zb_flags (zp_buf z b) = 0 \<and> (zb_refcount (zp_buf z b) = 1 \<or> zb_refcount (zp_buf z b) = 2)
        then zbuf_to_pool b z' else z')"
proof -
  let ?k = "zp_buf z b"
  have r: "0 \<le> uint (zb_refcount ?k)" "uint (zb_refcount ?k) < 65536" "0 \<le> uint (zb_flags ?k)"
    using uint_lt2p[of "zb_refcount ?k"] by simp_all
  have eq: "zb_refcount ?k = 1 \<longleftrightarrow> uint (zb_refcount ?k) = 1" "zb_refcount ?k = 2 \<longleftrightarrow> uint (zb_refcount ?k) = 2"
    "zb_flags ?k = 0 \<longleftrightarrow> uint (zb_flags ?k) = 0"
    by (simp_all add: word_uint_eq_iff)
  have "(1 < ref_word ?k - 1) \<longleftrightarrow> \<not> (zb_flags ?k = 0 \<and> (zb_refcount ?k = 1 \<or> zb_refcount ?k = 2))"
  proof (cases "uint (ref_word ?k) = 0")
    case True
    then have "ref_word ?k = 0" by (simp only: uint_0_iff)
    moreover have "uint (zb_refcount ?k) = 0" using True r unfolding uint_ref_word by linarith
    moreover have "(1 :: u32) < 0 - 1" by (simp add: word_less_def unsigned_minus_1_eq_mask mask_eq_exp_minus_1)
    ultimately show ?thesis unfolding eq by simp
  next
    case False
    then have "uint (ref_word ?k - 1) = uint (ref_word ?k) - 1"
      by (intro uint_minus_one) (simp add: order_less_le)
    moreover have "(1 < 65536 * f + r - 1) \<longleftrightarrow> \<not> (f = 0 \<and> (r = 1 \<or> r = 2))"
      if "0 \<le> f" "0 \<le> r" "65536 * f + r \<noteq> 0" for f r :: int
      using that by (cases "f = 0"; cases "r \<le> 2"; auto)
    ultimately show ?thesis using False r unfolding word_less_def eq uint_ref_word by simp
  qed
  then show ?thesis using assms by (simp add: zbuf_free_def atomic_sub_ref_def Let_def)
qed

lemma zbuf_free_leaks:
  assumes "zpool_inv z fl" and "zb_flags (zp_buf z b) \<noteq> 0" and "zb_flags (zp_buf z b) AND ZBUF_F_SHARED = 0"
  shows "zbuf_free (Some b) z = zb_upd b (set_ref_word (ref_word (zp_buf z b) - 1)) z"
    "zpool_inv (zbuf_free (Some b) z) fl"
  using assms by (simp_all add: zbuf_free_cases Let_def zpool_inv_ref_word)

text \<open>The requests among a client's operations, and the effect of all of them on the pool.\<close>

fun gets :: "'n client_op list \<Rightarrow> nat" where
  "gets [] = 0"
| "gets (Get n # ops) = Suc (gets ops)"
| "gets (Put i # ops) = gets ops"

abbreviation zbuf_client :: "u16 client_op list \<Rightarrow> addr list \<Rightarrow> zpool \<Rightarrow> (addr list \<times> zpool) option" where
  "zbuf_client \<equiv> client_run (\<lambda>n z. Some (zbuf_alloc n z)) (\<lambda>b z. Some (zbuf_free (Some b) z))"

lemma zbuf_client_aux:
  assumes "zpool_inv z fl" and "\<forall>n. Get n \<in> set ops \<longrightarrow> uint n \<le> CONFIG_ZBUF_SIZE - CONFIG_ZBUF_HEADROOM"
    and "\<forall>b \<in> set held. b \<notin> set fl \<and> zb_flags (zp_buf z b) = ZBUF_F_DMA \<and> zb_refcount (zp_buf z b) = 1"
    and "distinct held"
  shows "\<exists>held' z'. zbuf_client ops held z = Some (held', z') \<and>
    zpool_inv z' (drop (gets ops) fl)"
  using assms
proof (induction ops arbitrary: held z fl)
  case Nil
  then show ?case by simp
next
  case (Cons op ops)
  show ?case
  proof (cases op)
    case (Get n)
    then have n: "uint n \<le> CONFIG_ZBUF_SIZE - CONFIG_ZBUF_HEADROOM" using Cons.prems(2) by simp
    show ?thesis
    proof (cases fl)
      case Nil
      have "\<exists>held' z'. zbuf_client ops held (z\<lparr>zp_alloc_failures := zp_alloc_failures z + 1\<rparr>) = Some (held', z') \<and>
          zpool_inv z' (drop (gets ops) [])"
        using Cons.prems Nil by (intro Cons.IH) auto
      then show ?thesis using Nil Cons.prems(1) zbuf_alloc_None[OF _ n, of z] by (simp add: Get)
    next
      case (Cons b fl')
      obtain z1 where z1: "zbuf_alloc n z = (Some b, z1)" "zpool_inv z1 fl'" "zb_ready (zp_buf z1 b)"
        "\<forall>a. a \<notin> set (b # fl') \<longrightarrow> zp_buf z1 a = zp_buf z a"
        using zbuf_alloc_Some[OF Cons.prems(1)[unfolded Cons] n] by auto
      have "distinct (b # fl')" using Cons.prems(1) unfolding Cons by (simp add: zpool_inv_def)
      then have "\<exists>held' z'. zbuf_client ops (held @ [b]) z1 = Some (held', z') \<and> zpool_inv z' (drop (gets ops) fl')"
        using Cons.prems z1(3,4) unfolding Cons
        by (intro Cons.IH[OF z1(2)]) (auto simp: zb_ready_def)
      then show ?thesis using z1(1) by (simp add: Get Cons)
    qed
  next
    case (Put i)
    show ?thesis
    proof (cases "i < length held")
      case False
      then show ?thesis using Cons by (simp add: Put)
    next
      case True
      define b where "b = held ! i"
      have b: "b \<in> set held" using True by (simp add: b_def)
      then have fr: "zbuf_free (Some b) z = zb_upd b (set_ref_word (ref_word (zp_buf z b) - 1)) z"
        "zpool_inv (zbuf_free (Some b) z) fl"
        using Cons.prems(1,3) by (intro zbuf_free_leaks; auto simp: zbuf_flag_defs)+
      have split: "held = take i held @ b # drop (Suc i) held"
        using True by (simp add: b_def id_take_nth_drop)
      then have "distinct (take i held @ b # drop (Suc i) held)" using Cons.prems(4) by metis
      then have d: "distinct (take i held @ drop (Suc i) held)" "b \<notin> set (take i held @ drop (Suc i) held)"
        by auto
      have sub: "set (take i held @ drop (Suc i) held) \<subseteq> set held"
        by (auto dest: in_set_takeD in_set_dropD)
      have "\<exists>held' z'. zbuf_client ops (take i held @ drop (Suc i) held) (zbuf_free (Some b) z) = Some (held', z') \<and>
          zpool_inv z' (drop (gets ops) fl)"
        using Cons.prems(2,3) d sub by (intro Cons.IH[OF fr(2)]) (auto simp: fr(1))
      then show ?thesis using True by (simp add: Put b_def)
    qed
  qed
qed

section \<open>The data window\<close>

definition zb_wf :: "zbuf \<Rightarrow> bool" where
  "zb_wf k \<longleftrightarrow> zb_end k = zb_head k + CONFIG_ZBUF_SIZE \<and> zb_head k \<le> zb_data k \<and>
     zb_tail k = zb_data k + uint (zb_len k) \<and> zb_tail k \<le> zb_end k"

lemma uint_sub_le: "uint n \<le> uint (m :: 'a::len word) \<Longrightarrow> uint (m - n) = uint m - uint n"
  using uint_lt2p[of m] by (simp add: uint_word_ariths mod_pos_pos_trivial)

lemma zb_wf_order: "zb_wf k \<Longrightarrow> zb_head k \<le> zb_data k \<and> zb_data k \<le> zb_tail k \<and> zb_tail k \<le> zb_end k"
  by (simp add: zb_wf_def)

lemma zb_wf_len: "zb_wf k \<Longrightarrow> uint (zb_len k) \<le> 2048"
  by (simp add: zb_wf_def CONFIG_ZBUF_SIZE_def)

lemma zb_wf_len_add:
  "zb_wf k \<Longrightarrow> uint (zb_len k) + uint n \<le> 2048 \<Longrightarrow> uint (zb_len k + n) = uint (zb_len k) + uint n"
  by (subst uint_add_no_wrap) simp_all

lemma zb_wf_ready: "zb_ready k \<Longrightarrow> zb_layout b k \<Longrightarrow> zb_wf k"
  by (simp add: zb_ready_def zb_layout_def zb_wf_def config_defs)

lemma zbuf_push_cases:
  assumes "zb_wf k"
  shows "zbuf_push n k =
    (if uint n \<le> zb_data k - zb_head k
     then (Some (zb_data k - uint n), k\<lparr>zb_data := zb_data k - uint n, zb_len := zb_len k + n\<rparr>) else (None, k))"
    "uint n \<le> zb_data k - zb_head k \<Longrightarrow> uint (zb_len k + n) = uint (zb_len k) + uint n"
  using assms zb_wf_len_add[OF assms, of n] by (auto simp: zbuf_push_def zb_wf_def CONFIG_ZBUF_SIZE_def)

lemma zbuf_put_cases:
  assumes "zb_wf k"
  shows "zbuf_put n k =
    (if uint n \<le> zb_end k - zb_tail k
     then (Some (zb_tail k), k\<lparr>zb_tail := zb_tail k + uint n, zb_len := zb_len k + n\<rparr>) else (None, k))"
    "uint n \<le> zb_end k - zb_tail k \<Longrightarrow> uint (zb_len k + n) = uint (zb_len k) + uint n"
  using assms zb_wf_len_add[OF assms, of n] by (auto simp: zbuf_put_def zb_wf_def CONFIG_ZBUF_SIZE_def)

lemma zbuf_pull_cases:
  "zbuf_pull n k =
    (if uint n \<le> uint (zb_len k)
     then (Some (zb_data k + uint n), k\<lparr>zb_data := zb_data k + uint n, zb_len := zb_len k - n\<rparr>) else (None, k))"
  by (simp add: zbuf_pull_def Let_def word_less_def not_le)

lemma diff_le_self_uint: "a - uint n \<le> a"
  by simp

lemma zb_wf_push: "zb_wf k \<Longrightarrow> zb_wf (snd (zbuf_push n k))"
  using zbuf_push_cases[of k n] by (cases "uint n \<le> zb_data k - zb_head k") (simp_all add: zb_wf_def)

lemma zb_wf_put: "zb_wf k \<Longrightarrow> zb_wf (snd (zbuf_put n k))"
  using zbuf_put_cases[of k n] by (cases "uint n \<le> zb_end k - zb_tail k") (simp_all add: zb_wf_def)

lemma zb_wf_pull: "zb_wf k \<Longrightarrow> zb_wf (snd (zbuf_pull n k))"
  using uint_sub_le[of n "zb_len k"] add_increasing2[OF uint_ge_0[of n], of "zb_head k" "zb_data k"]
  by (cases "uint n \<le> uint (zb_len k)") (simp_all add: zbuf_pull_cases zb_wf_def)

lemma zb_wf_trim: "zb_wf k \<Longrightarrow> zb_wf (zbuf_trim n k)"
  using uint_sub_le[of n "zb_len k"] diff_le_self_uint[THEN order_trans, of "zb_tail k" "zb_end k" n]
    diff_le_self_uint[THEN order_trans, of "zb_tail k" "zb_end k" "zb_len k"]
  by (cases "uint n \<le> uint (zb_len k)") (simp_all add: zbuf_trim_def Let_def zb_wf_def word_less_def)

lemma zb_wf_reset: "zb_wf k \<Longrightarrow> zb_wf (zbuf_reset k)"
  by (simp add: zbuf_reset_def zb_wf_def config_defs)

lemma zb_wf_reserve:
  "zb_wf k \<Longrightarrow> zb_wf (zbuf_reserve n k) \<longleftrightarrow> zb_len k = 0 \<and> uint n \<le> zb_end k - zb_tail k"
  using add_increasing2[OF uint_ge_0[of n], of "zb_head k" "zb_data k"]
  by (auto simp: zbuf_reserve_def zb_wf_def uint_0_iff)

lemmas zb_wf_ops = zb_wf_push zb_wf_put zb_wf_pull zb_wf_trim zb_wf_reset

section \<open>Copying and cloning\<close>

lemma copy_loop_frame: "x < dst \<or> dst + int n \<le> x \<Longrightarrow> copy_loop n src dst m x = m x"
  by (induction n arbitrary: src dst m) auto

lemma copy_loop_at:
  "src + int n \<le> dst \<or> dst + int n \<le> src \<Longrightarrow> i < n \<Longrightarrow>
     copy_loop n src dst m (dst + int i) = m (src + int i)"
proof (induction n arbitrary: src dst m i)
  case (Suc n)
  show ?case
  proof (cases i)
    case 0
    then show ?thesis using copy_loop_frame[of dst "dst + 1" n "src + 1"] by simp
  next
    case (Suc j)
    have "copy_loop n (src + 1) (dst + 1) (m(dst := m src)) (dst + 1 + int j)
        = (m(dst := m src)) (src + 1 + int j)"
      using Suc.prems Suc by (intro Suc.IH) auto
    moreover have "src + 1 + int j \<noteq> dst" using Suc.prems Suc by auto
    ultimately show ?thesis by (simp add: Suc add.assoc)
  qed
qed simp

lemma mem_bytes_eqI: "(\<And>i. i < n \<Longrightarrow> m (a + int i) = m' (a' + int i)) \<Longrightarrow> mem_bytes m a n = mem_bytes m' a' n"
  by (simp add: mem_bytes_def)

text \<open>Different slots do not overlap.\<close>

lemma zbuf_slots_apart:
  assumes "b \<in> set (zbuf_slots m)" and "c \<in> set (zbuf_slots m)" and "b \<noteq> c"
  shows "b + zbuf_slot \<le> c \<or> c + zbuf_slot \<le> b"
proof -
  obtain i j where ij: "b = m + int i * zbuf_slot" "c = m + int j * zbuf_slot"
    using assms(1,2) by (auto simp: zbuf_slots_def)
  then have "i \<noteq> j" using assms(3) by auto
  then consider "Suc i \<le> j" | "Suc j \<le> i" by linarith
  then show ?thesis
  proof cases
    case 1
    then have "int (Suc i) * zbuf_slot \<le> int j * zbuf_slot"
      by (intro mult_right_mono) (auto simp: zbuf_slot_value)
    then show ?thesis using ij by (simp add: algebra_simps)
  next
    case 2
    then have "int (Suc j) * zbuf_slot \<le> int i * zbuf_slot"
      by (intro mult_right_mono) (auto simp: zbuf_slot_value)
    then show ?thesis using ij by (simp add: algebra_simps)
  qed
qed

lemma zbuf_clone_aux:
  assumes inv: "zpool_inv z (c # fl)" and b: "b \<in> set (zbuf_slots (zp_memory z))" "b \<notin> set (c # fl)"
    and wf: "zb_wf (zp_buf z b)" and len: "uint (zb_len (zp_buf z b)) \<le> CONFIG_ZBUF_SIZE - CONFIG_ZBUF_HEADROOM"
  shows "\<exists>z'. zbuf_clone (Some b) z = Some (Some c, z') \<and> zb_payload c z' = zb_payload b z \<and>
    zb_payload b z' = zb_payload b z \<and> zp_buf z' b = zp_buf z b \<and> zb_wf (zp_buf z' c) \<and> zpool_inv z' fl"
proof -
  let ?k = "zp_buf z b"
  obtain z1 where z1: "zbuf_alloc (zb_len ?k) z = (Some c, z1)" "zpool_inv z1 fl" "zb_ready (zp_buf z1 c)"
    "\<forall>a. a \<notin> set (c # fl) \<longrightarrow> zp_buf z1 a = zp_buf z a" "zp_mem z1 = zp_mem z" "zp_memory z1 = zp_memory z"
    using zbuf_alloc_Some[OF inv len] by auto
  define n where "n = unat (zb_len ?k)"
  have nlen: "int n = uint (zb_len ?k)" by (simp add: n_def)
  have bk: "zp_buf z1 b = ?k" using z1(4) b(2) by simp
  have c: "c \<in> set (zbuf_slots (zp_memory z))" "c \<noteq> b" using inv b(2) by (auto simp: zpool_inv_def)
  have lay: "zb_layout b ?k" "zb_layout c (zp_buf z1 c)"
    using inv z1(2,6) b(1) c(1) by (auto simp: zpool_inv_def)
  define src where "src = zb_data ?k"
  define dst where "dst = zb_data (zp_buf z1 c)"
  have src: "b \<le> src" "src + int n \<le> b + zbuf_slot"
    using wf lay(1) nlen
    by (auto simp: src_def zb_wf_def zb_layout_def zbuf_slot_value sizeof_zbuf_def CONFIG_ZBUF_SIZE_def)
  have dst: "c \<le> dst" "dst + int n \<le> c + zbuf_slot"
    using lay(2) z1(3) len nlen
    by (auto simp: dst_def zb_ready_def zb_layout_def zbuf_slot_value sizeof_zbuf_def config_defs)
  have apart: "src + int n \<le> dst \<or> dst + int n \<le> src"
    using zbuf_slots_apart[OF b(1) c(1)] c(2) src dst by auto
  have ib: "in_buf ?k src n" "in_buf (zp_buf z1 c) dst n"
    using wf lay z1(3) len nlen
    by (auto simp: in_buf_def src_def dst_def zb_wf_def zb_ready_def zb_layout_def config_defs)
  define m where "m = copy_loop n src dst (zp_mem z1)"
  let ?z = "zb_upd c (\<lambda>c. c\<lparr>zb_tail := zb_data c + uint (zb_len ?k), zb_len := zb_len ?k,
                zb_flags := (zb_flags ?k AND NOT ZBUF_F_CLONED) OR ZBUF_F_CLONED,
                zb_protocol := zb_protocol ?k, zb_l2_offset := zb_l2_offset ?k,
                zb_l3_offset := zb_l3_offset ?k, zb_l4_offset := zb_l4_offset ?k,
                zb_netif := zb_netif ?k, zb_hash := zb_hash ?k,
                zb_timestamp := zb_timestamp ?k\<rparr>) (z1\<lparr>zp_mem := m\<rparr>)"
  have run: "zbuf_clone (Some b) z = Some (Some c, ?z)"
    using ib unfolding zbuf_clone_def by (simp add: z1(1) bk src_def dst_def n_def m_def Let_def)
  have bb: "zp_buf ?z b = ?k" using c(2) bk by simp
  have "zb_payload c ?z = mem_bytes m dst n" by (simp add: zb_payload_def dst_def n_def)
  also have "\<dots> = mem_bytes (zp_mem z) src n"
    by (rule mem_bytes_eqI) (simp add: m_def copy_loop_at[OF apart] z1(5))
  finally have pc: "zb_payload c ?z = zb_payload b z" by (simp add: zb_payload_def src_def n_def)
  have "zb_payload b ?z = mem_bytes m src n" using bb by (simp add: zb_payload_def src_def n_def)
  also have "\<dots> = mem_bytes (zp_mem z) src n"
    using apart by (intro mem_bytes_eqI) (auto simp: m_def z1(5) intro!: copy_loop_frame)
  finally have pb: "zb_payload b ?z = zb_payload b z" by (simp add: zb_payload_def src_def n_def)
  have "zb_wf (zp_buf ?z c)"
    using z1(3) lay(2) len by (simp add: zb_wf_def zb_ready_def zb_layout_def config_defs)
  moreover have "zp_next ?z = zp_next z1" "zp_prev ?z = zp_prev z1" by auto
  then have "zpool_inv ?z fl" using z1(2) by (auto simp: zpool_inv_def zb_layout_def)
  ultimately show ?thesis using run pc pb bb by blast
qed

section \<open>Properties\<close>

text \<open>A concrete pool for the witnesses: the initialised pool with its memory at address 0.\<close>

definition zbuf_blank :: zbuf where
  "zbuf_blank = \<lparr>zb_head = 0, zb_data = 0, zb_tail = 0, zb_end = 0, zb_len = 0, zb_size = 0,
     zb_refcount = 0, zb_flags = 0, zb_protocol = 0, zb_l2_offset = 0, zb_l3_offset = 0,
     zb_l4_offset = 0, zb_netif = None, zb_hash = 0, zb_dma_addr = 0, zb_next = None,
     zb_prev = None, zb_timestamp = 0\<rparr>"

definition zpool_blank :: zpool where
  "zpool_blank = \<lparr>zp_buf = (\<lambda>_. zbuf_blank), zp_mem = (\<lambda>_. 0), zp_free_list = None,
     zp_total_count = 0, zp_free_count = 0, zp_alloc_failures = 0, zp_memory = 0\<rparr>"

definition zpool0 :: zpool where
  "zpool0 = snd (zbuf_pool_init zpool_blank)"

definition zbuf_ex :: zbuf where
  "zbuf_ex = zbuf_blank\<lparr>zb_head := 104, zb_data := 232, zb_tail := 332, zb_end := 2152, zb_len := 100\<rparr>"

lemma zpool0_inv: "zpool_inv zpool0 (rev (zbuf_slots 0))" and zpool0_memory [simp]: "zp_memory zpool0 = 0"
  using zbuf_pool_init_aux[of zpool_blank] by (simp_all add: zpool0_def zpool_blank_def prod_eq_iff)

lemma rev_zbuf_slots_Cons:
  "rev (zbuf_slots m) = (m + 1023 * zbuf_slot) # rev (map (\<lambda>i. m + int i * zbuf_slot) [0..<1023])"
proof -
  have "[0..<1024] = [0..<1023] @ [1023]" using upt_Suc_append[of 0 1023] by simp
  then show ?thesis by (simp only: zbuf_slots_def CONFIG_ZBUF_COUNT_def map_append rev_append) simp
qed

lemma zbuf_ex_wf: "zb_wf zbuf_ex"
  by (simp add: zb_wf_def zbuf_ex_def zbuf_blank_def CONFIG_ZBUF_SIZE_def)

text \<open>After \<open>zbuf_pool_init\<close> the free list is a well-formed doubly linked list of all 1024 slots,
  the free count is right and every descriptor has its own 2048-byte buffer behind it. The slots do
  not fit in \<open>zbuf_memory\<close> though: the buffer of the last slot ends 131048 bytes behind the array.\<close>

theorem zbuf_pool_init_layout:
  assumes "zbuf_pool_init z = (st, z')"
  shows "st = STATUS_OK \<and> zpool_inv z' (rev (zbuf_slots (zp_memory z))) \<and>
    zb_end (zp_buf z' (last (zbuf_slots (zp_memory z)))) = zp_memory z + CONFIG_ZBUF_POOL_SIZE + 131048"
proof -
  note i = zbuf_pool_init_aux[OF assms]
  have l: "last (zbuf_slots (zp_memory z)) = zp_memory z + 1023 * zbuf_slot"
    using rev_zbuf_slots_Cons[of "zp_memory z"] by (metis hd_rev list.sel(1))
  have "last (zbuf_slots (zp_memory z)) \<in> set (zbuf_slots (zp_memory z))"
    by (rule last_in_set) (metis length_zbuf_slots list.size(3) zero_neq_numeral)
  then have "zb_layout (last (zbuf_slots (zp_memory z))) (zp_buf z' (last (zbuf_slots (zp_memory z))))"
    using i by (auto simp: zpool_inv_def)
  then show ?thesis
    using i by (simp add: zb_layout_def l zbuf_slot_value sizeof_zbuf_def config_defs)
qed

theorem zbuf_pool_init_layout_witness:
  "zb_end (zp_buf zpool0 (last (zbuf_slots 0))) = 2228200"
  using zbuf_pool_init_layout[of zpool_blank STATUS_OK zpool0]
  by (simp add: zpool0_def zbuf_pool_init_def zpool_blank_def CONFIG_ZBUF_POOL_SIZE_def)

text \<open>Allocation against the list of free buffers. A size above 1920 is refused; an empty list is
  refused and counted; otherwise the first free buffer is taken off the list and handed out empty,
  with the 128 bytes of headroom, one reference and no links, and no buffer in use changes.\<close>

theorem zbuf_alloc_spec:
  assumes "zpool_inv z fl"
  shows "(case (uint n \<le> CONFIG_ZBUF_SIZE - CONFIG_ZBUF_HEADROOM, fl) of
      (False, _) \<Rightarrow> zbuf_alloc n z = (None, z)
    | (True, []) \<Rightarrow> zbuf_alloc n z = (None, z\<lparr>zp_alloc_failures := zp_alloc_failures z + 1\<rparr>)
    | (True, b # fl') \<Rightarrow> \<exists>z'. zbuf_alloc n z = (Some b, z') \<and> zpool_inv z' fl' \<and>
        zb_ready (zp_buf z' b) \<and> zb_wf (zp_buf z' b) \<and> zb_payload b z' = [] \<and>
        (\<forall>a. a \<notin> set fl \<longrightarrow> zp_buf z' a = zp_buf z a))"
proof (cases "uint n \<le> CONFIG_ZBUF_SIZE - CONFIG_ZBUF_HEADROOM")
  case True
  show ?thesis
  proof (cases fl)
    case (Cons b fl')
    obtain z' where z': "zbuf_alloc n z = (Some b, z')" "zpool_inv z' fl'" "zb_ready (zp_buf z' b)"
      "\<forall>a. a \<notin> set fl \<longrightarrow> zp_buf z' a = zp_buf z a" "zp_memory z' = zp_memory z"
      using zbuf_alloc_Some[OF assms[unfolded Cons] True] unfolding Cons by blast
    have "zb_layout b (zp_buf z' b)" using z'(2,5) assms Cons by (auto simp: zpool_inv_def)
    then have "zb_wf (zp_buf z' b)" by (rule zb_wf_ready[OF z'(3)])
    moreover have "zb_payload b z' = []"
      using z'(3) by (simp add: zb_payload_def mem_bytes_def zb_ready_def)
    ultimately show ?thesis using z' True Cons by auto
  qed (use True assms zbuf_alloc_None in simp)
qed (simp add: zbuf_alloc_def)

theorem zbuf_alloc_spec_witness:
  "\<exists>z'. zbuf_alloc 1500 zpool0 = (Some 2226048, z') \<and> zb_ready (zp_buf z' 2226048)"
  using zbuf_alloc_spec[OF zpool0_inv, of 1500]
  by (auto simp: rev_zbuf_slots_Cons zbuf_slot_value config_defs)

text \<open>When \<open>zbuf_free\<close> returns a buffer to the pool. For a buffer that is not marked shared it
  does so exactly when the flags are zero and the reference count is 1 or 2: the 32-bit atomic
  takes the flags for the high half of the count, and the new value is compared with 1, so a
  buffer that still has one reference is released, and one with a flag set never is.\<close>

theorem zbuf_free_returns:
  assumes "zpool_inv z fl" and "b \<in> set (zbuf_slots (zp_memory z))" and "b \<notin> set fl"
    and "zb_flags (zp_buf z b) AND ZBUF_F_SHARED = 0"
  shows "zpool_inv (zbuf_free (Some b) z)
    (if zb_flags (zp_buf z b) = 0 \<and> (zb_refcount (zp_buf z b) = 1 \<or> zb_refcount (zp_buf z b) = 2)
     then b # fl else fl)"
  using assms by (auto simp: zbuf_free_cases Let_def zpool_inv_ref_word zbuf_to_pool_inv)

theorem zbuf_free_returns_witness:
  "\<exists>z b. zb_refcount (zp_buf z b) = 1 \<and> zpool_inv z (rev (map (\<lambda>i. int i * zbuf_slot) [0..<1023])) \<and>
     zpool_inv (zbuf_free (Some b) z) (rev (map (\<lambda>i. int i * zbuf_slot) [0..<1023]))"
proof -
  let ?b = "1023 * zbuf_slot" and ?fl = "rev (map (\<lambda>i. int i * zbuf_slot) [0..<1023])"
  obtain z where z: "zpool_inv z ?fl" "zb_ready (zp_buf z ?b)" "zp_memory z = 0"
    using zbuf_alloc_Some[of zpool0 ?b ?fl 100] zpool0_inv rev_zbuf_slots_Cons[of 0] by (auto simp: config_defs)
  have "?b \<in> set (rev (zbuf_slots 0))" "?b \<notin> set ?fl"
    by (simp only: rev_zbuf_slots_Cons) (auto simp: zbuf_slot_value)
  then show ?thesis
    using zbuf_free_returns[OF z(1), of ?b] z by (intro exI[of _ z] exI[of _ ?b]) (auto simp: zb_ready_def zbuf_flag_defs)
qed

text \<open>Buffers from \<open>zbuf_alloc\<close> never come back. For every client, whatever it releases, the free
  count is 1024 less the number of its requests, until it stays at zero: release is without effect
  on the pool, because every allocated buffer carries the DMA flag.\<close>

theorem zbuf_pool_leaks:
  assumes "\<forall>n. Get n \<in> set ops \<longrightarrow> uint n \<le> CONFIG_ZBUF_SIZE - CONFIG_ZBUF_HEADROOM"
  shows "\<exists>held z'. zbuf_client ops [] (snd (zbuf_pool_init z)) = Some (held, z') \<and>
    uint (zp_free_count z') = int (1024 - gets ops)"
proof -
  have "zpool_inv (snd (zbuf_pool_init z)) (rev (zbuf_slots (zp_memory z)))"
    using zbuf_pool_init_aux[of z] by (metis prod.collapse)
  from zbuf_client_aux[OF this assms, of "[]"]
  show ?thesis by (auto simp: zpool_inv_def)
qed

theorem zbuf_pool_leaks_witness:
  "\<exists>held z'. zbuf_client [Get 64, Put 0, Get 64, Put 0] [] zpool0 = Some (held, z') \<and>
     uint (zp_free_count z') = 1022"
  using zbuf_pool_leaks[of "[Get 64, Put 0, Get 64, Put 0]" zpool_blank]
  by (simp add: zpool0_def config_defs)

text \<open>C37: the data window. \<open>zbuf_push\<close>, \<open>zbuf_pull\<close>, \<open>zbuf_put\<close>, \<open>zbuf_trim\<close> and \<open>zbuf_reset\<close> keep it inside
  the buffer with the length field equal to the distance of its ends, and the area that \<open>push\<close> or
  \<open>put\<close> hands out for writing lies inside the buffer. \<open>zbuf_reserve\<close> checks nothing: it keeps the
  window only for an empty buffer and an amount that fits.\<close>

theorem zbuf_window_invariant:
  assumes "zb_wf k"
  shows "zb_wf (snd (zbuf_push n k)) \<and> zb_wf (snd (zbuf_pull n k)) \<and> zb_wf (snd (zbuf_put n k)) \<and>
    zb_wf (zbuf_trim n k) \<and> zb_wf (zbuf_reset k) \<and>
    (fst (zbuf_push n k) = Some p \<longrightarrow> in_buf k p (unat n)) \<and>
    (fst (zbuf_put n k) = Some p \<longrightarrow> in_buf k p (unat n)) \<and>
    (zb_wf (zbuf_reserve n k) \<longleftrightarrow> zb_len k = 0 \<and> uint n \<le> zb_end k - zb_tail k)"
proof -
  have push: "fst (zbuf_push n k) = Some p \<longrightarrow> in_buf k p (unat n)"
    using assms zb_wf_order[OF assms] by (auto simp: zbuf_push_cases in_buf_def)
  have "fst (zbuf_put n k) = Some p \<longrightarrow> in_buf k p (unat n)"
    using assms zb_wf_order[OF assms] by (auto simp: zbuf_put_cases in_buf_def)
  with push show ?thesis using zb_wf_ops[OF assms] zb_wf_reserve[OF assms] by blast
qed

theorem zbuf_window_invariant_witness:
  "zb_wf (snd (zbuf_push 14 zbuf_ex)) \<and> in_buf zbuf_ex 218 14 \<and> \<not> zb_wf (zbuf_reserve 14 zbuf_ex)"
proof -
  have "fst (zbuf_push 14 zbuf_ex) = Some 218"
    by (simp add: zbuf_push_def zbuf_ex_def zbuf_blank_def)
  moreover have "zb_len zbuf_ex \<noteq> 0" by (simp add: zbuf_ex_def)
  ultimately show ?thesis using zbuf_window_invariant[OF zbuf_ex_wf, of 14 218] by auto
qed

text \<open>Round trips. Pulling off a header that was pushed, and trimming bytes that were put, gives
  back the buffer exactly; the same holds for pushing back a header that was pulled.\<close>

theorem zbuf_window_roundtrip:
  assumes "zb_wf k"
  shows "(fst (zbuf_push n k) \<noteq> None \<longrightarrow> snd (zbuf_pull n (snd (zbuf_push n k))) = k) \<and>
    (fst (zbuf_put n k) \<noteq> None \<longrightarrow> zbuf_trim n (snd (zbuf_put n k)) = k) \<and>
    (fst (zbuf_pull n k) \<noteq> None \<longrightarrow> snd (zbuf_push n (snd (zbuf_pull n k))) = k)"
  using assms zbuf_push_cases(2)[OF assms, of n] zbuf_put_cases(2)[OF assms, of n]
    uint_ge_0[of "zb_len k"]
  by (auto simp: zbuf_push_cases zbuf_put_cases zbuf_pull_cases zbuf_trim_def zbuf_push_def Let_def
      word_less_def zb_wf_def)

theorem zbuf_window_roundtrip_witness:
  "snd (zbuf_pull 14 (snd (zbuf_push 14 zbuf_ex))) = zbuf_ex"
  using zbuf_window_roundtrip[OF zbuf_ex_wf, of 14] by (simp add: zbuf_push_def zbuf_ex_def zbuf_blank_def)

text \<open>A clone is a fresh buffer with the same payload bytes; the source buffer and its payload
  stay as they were, and the pool only loses the clone's slot.\<close>

theorem zbuf_clone_copies:
  assumes "zpool_inv z (c # fl)" and "b \<in> set (zbuf_slots (zp_memory z))" and "b \<notin> set (c # fl)"
    and "zb_wf (zp_buf z b)" and "uint (zb_len (zp_buf z b)) \<le> CONFIG_ZBUF_SIZE - CONFIG_ZBUF_HEADROOM"
  shows "\<exists>z'. zbuf_clone (Some b) z = Some (Some c, z') \<and> zb_payload c z' = zb_payload b z \<and>
    zb_payload b z' = zb_payload b z \<and> zp_buf z' b = zp_buf z b \<and> zb_wf (zp_buf z' c) \<and> zpool_inv z' fl"
  using zbuf_clone_aux[OF assms] .

theorem zbuf_clone_copies_witness:
  "\<exists>z z' b c. b \<noteq> c \<and> length (zb_payload b z) = 4 \<and> zbuf_clone (Some b) z = Some (Some c, z') \<and>
     zb_payload c z' = zb_payload b z"
proof -
  let ?b = "1023 * zbuf_slot" and ?fl = "rev (map (\<lambda>i. int i * zbuf_slot) [0..<1023])"
  have "[0..<1023] = [0..<1022] @ [1022]" using upt_Suc_append[of 0 1022] by simp
  then have fl: "?fl = 1022 * zbuf_slot # rev (map (\<lambda>i. int i * zbuf_slot) [0..<1022])" by simp
  obtain z0 where z0: "zpool_inv z0 ?fl" "zb_ready (zp_buf z0 ?b)" "zp_memory z0 = 0"
    using zbuf_alloc_Some[of zpool0 ?b ?fl 100] zpool0_inv rev_zbuf_slots_Cons[of 0] by (auto simp: config_defs)
  have b: "?b \<in> set (rev (zbuf_slots 0))" "?b \<notin> set ?fl"
    by (simp only: rev_zbuf_slots_Cons) (auto simp: zbuf_slot_value)
  have lay: "zb_layout ?b (zp_buf z0 ?b)" using z0(1,3) b by (auto simp: zpool_inv_def)
  let ?z = "zb_upd ?b (\<lambda>k. snd (zbuf_put 4 k)) z0"
  have put: "zbuf_put 4 (zp_buf z0 ?b) = (Some (zb_tail (zp_buf z0 ?b)),
      zp_buf z0 ?b\<lparr>zb_tail := zb_tail (zp_buf z0 ?b) + 4, zb_len := 4\<rparr>)"
    using z0(2) lay by (simp add: zbuf_put_def zb_ready_def zb_layout_def config_defs)
  have inv: "zpool_inv ?z ?fl"
  proof -
    have "zp_next ?z = zp_next z0" "zp_prev ?z = zp_prev z0" using put by auto
    then show ?thesis using z0(1) put by (auto simp: zpool_inv_def zb_layout_def)
  qed
  have wf: "zb_wf (zp_buf ?z ?b)" using zb_wf_put[OF zb_wf_ready[OF z0(2) lay]] by simp
  have len: "uint (zb_len (zp_buf ?z ?b)) = 4" using put by simp
  then have "length (zb_payload ?b ?z) = 4" by (simp add: zb_payload_def mem_bytes_def unat_eq_nat_uint)
  moreover have "\<exists>z'. zbuf_clone (Some ?b) ?z = Some (Some (1022 * zbuf_slot), z') \<and>
      zb_payload (1022 * zbuf_slot) z' = zb_payload ?b ?z"
    using zbuf_clone_copies[OF inv[unfolded fl], of ?b] b(1) b(2)[unfolded fl] wf z0(3) len
    by (auto simp: config_defs)
  moreover have "?b \<noteq> 1022 * zbuf_slot" by (simp add: zbuf_slot_value)
  ultimately show ?thesis by blast
qed

end
