(* ===== verification/Fifo.thy ===== *)
theory Fifo
  imports Base
begin

text \<open>
  The interface of a first-in first-out queue: \<open>enq\<close> appends a value the queue accepts, \<open>deq\<close> takes
  the oldest one or reports an empty queue. The client lemmas are proved once, for any sequence of
  operations; the buffer queue of \<open>net/buffer/zbuf.c\<close> and the message queue of \<open>kernel/sync.c\<close>
  are its two providers.
\<close>

datatype 'a fifo_op = Enq 'a | Deq

text \<open>The values the dequeues of a run return, on an implementation and on the abstract list.\<close>

fun fifo_run ::
    "('a \<Rightarrow> 's \<Rightarrow> 's option) \<Rightarrow> ('s \<Rightarrow> ('a option \<times> 's) option) \<Rightarrow> 'a fifo_op list \<Rightarrow> 's
      \<Rightarrow> ('a option list \<times> 's) option" where
  "fifo_run enq deq [] s = Some ([], s)"
| "fifo_run enq deq (Enq a # ops) s = do { s \<leftarrow> enq a s; fifo_run enq deq ops s }"
| "fifo_run enq deq (Deq # ops) s = do {
     (r, s) \<leftarrow> deq s;
     (rs, s) \<leftarrow> fifo_run enq deq ops s;
     Some (r # rs, s)
   }"

fun fifo_abs ::
    "('a list \<Rightarrow> 'a \<Rightarrow> bool) \<Rightarrow> 'a fifo_op list \<Rightarrow> 'a list \<Rightarrow> ('a option list \<times> 'a list) option" where
  "fifo_abs ok [] xs = Some ([], xs)"
| "fifo_abs ok (Enq a # ops) xs = (if ok xs a then fifo_abs ok ops (xs @ [a]) else None)"
| "fifo_abs ok (Deq # ops) xs = do {
     (rs, ys) \<leftarrow> fifo_abs ok ops (tl xs);
     Some ((if xs = [] then None else Some (hd xs)) # rs, ys)
   }"

fun enq_values :: "'a fifo_op list \<Rightarrow> 'a list" where
  "enq_values [] = []"
| "enq_values (Enq a # ops) = a # enq_values ops"
| "enq_values (Deq # ops) = enq_values ops"

text \<open>What comes out, followed by what is left, is what was there followed by what went in.\<close>

lemma fifo_abs_order:
  "fifo_abs ok ops xs = Some (rs, ys) \<Longrightarrow> xs @ enq_values ops = List.map_filter id rs @ ys"
proof (induction ok ops xs arbitrary: rs rule: fifo_abs.induct)
  case (2 ok a ops xs)
  then show ?case by (auto split: if_splits)
next
  case (3 ok ops xs)
  then obtain rs' where rs': "fifo_abs ok ops (tl xs) = Some (rs', ys)"
    "rs = (if xs = [] then None else Some (hd xs)) # rs'"
    by (auto simp: bind_eq_Some_conv)
  then show ?case using "3.IH"[OF rs'(1)] by (cases xs) (auto simp: List.map_filter_def)
qed (simp add: List.map_filter_def)

locale fifo =
  fixes rep :: "'s \<Rightarrow> 'a list \<Rightarrow> bool"
    and ok :: "'a list \<Rightarrow> 'a \<Rightarrow> bool"
    and enq :: "'a \<Rightarrow> 's \<Rightarrow> 's option"
    and deq :: "'s \<Rightarrow> ('a option \<times> 's) option"
  assumes enq_law: "rep s xs \<Longrightarrow> ok xs a \<Longrightarrow> \<exists>s'. enq a s = Some s' \<and> rep s' (xs @ [a])"
    and deq_law: "rep s (a # xs) \<Longrightarrow> \<exists>s'. deq s = Some (Some a, s') \<and> rep s' xs"
    and deq_empty: "rep s [] \<Longrightarrow> \<exists>s'. deq s = Some (None, s') \<and> rep s' []"
begin

lemma run_refines:
  "rep s xs \<Longrightarrow> fifo_abs ok ops xs = Some (rs, ys) \<Longrightarrow>
     \<exists>s'. fifo_run enq deq ops s = Some (rs, s') \<and> rep s' ys"
proof (induction ops arbitrary: s xs rs)
  case Nil
  then show ?case by simp
next
  case (Cons op ops)
  show ?case
  proof (cases op)
    case (Enq a)
    then show ?thesis
      using Cons enq_law[OF Cons.prems(1), of a] by (fastforce split: if_splits)
  next
    case Deq
    then obtain rs' where rs': "fifo_abs ok ops (tl xs) = Some (rs', ys)"
      "rs = (if xs = [] then None else Some (hd xs)) # rs'"
      using Cons.prems(2) by (auto simp: bind_eq_Some_conv)
    have "\<exists>s1. deq s = Some (if xs = [] then None else Some (hd xs), s1) \<and> rep s1 (tl xs)"
      using Cons.prems(1) deq_law deq_empty by (cases xs) auto
    then show ?thesis using Cons.IH[OF _ rs'(1)] rs'(2) Deq by fastforce
  qed
qed

lemma run_in_order:
  assumes "rep s []" and "fifo_abs ok ops [] = Some (rs, ys)"
  shows "\<exists>s'. fifo_run enq deq ops s = Some (rs, s') \<and> rep s' ys \<and>
    enq_values ops = List.map_filter id rs @ ys"
  using run_refines[OF assms] fifo_abs_order[OF assms(2)] by simp

end

end
