(* ===== verification/Zbuf_Queue.thy ===== *)
theory Zbuf_Queue
  imports Zbuf_Props Fifo
begin

text \<open>
  The buffer queue of \<open>net/buffer/zbuf.c\<close>: a doubly linked list through the descriptors' own links,
  with pointers to both ends and a count. A queue is a fifo over the buffers it holds.
\<close>

section \<open>Operations\<close>

record zbuf_queue =
  zq_head :: ptr
  zq_tail :: ptr
  zq_count :: u32

definition zbuf_queue_init :: zbuf_queue where
  "zbuf_queue_init = \<lparr>zq_head = None, zq_tail = None, zq_count = 0\<rparr>"

definition zbuf_queue_push :: "addr \<Rightarrow> zbuf_queue \<times> zpool \<Rightarrow> zbuf_queue \<times> zpool" where
  "zbuf_queue_push b = (\<lambda>(q, z).
     let z = zb_upd b (\<lambda>k. k\<lparr>zb_next := None, zb_prev := zq_tail q\<rparr>) z;
         (q, z) = (case zq_tail q of
             Some t \<Rightarrow> (q, zb_upd t (zb_next_update (\<lambda>_. Some b)) z)
           | None \<Rightarrow> (q\<lparr>zq_head := Some b\<rparr>, z))
     in (q\<lparr>zq_tail := Some b, zq_count := zq_count q + 1\<rparr>, z))"

definition zbuf_queue_pop :: "zbuf_queue \<times> zpool \<Rightarrow> ptr \<times> zbuf_queue \<times> zpool" where
  "zbuf_queue_pop = (\<lambda>(q, z).
     case zq_head q of
       None \<Rightarrow> (None, q, z)
     | Some b \<Rightarrow>
         let q = q\<lparr>zq_head := zb_next (zp_buf z b)\<rparr>;
             (q, z) = (case zq_head q of
                 Some h \<Rightarrow> (q, zb_set_prev (Some h) None z)
               | None \<Rightarrow> (q\<lparr>zq_tail := None\<rparr>, z));
             z = zb_upd b (\<lambda>k. k\<lparr>zb_next := None, zb_prev := None\<rparr>) z
         in (Some b, q\<lparr>zq_count := zq_count q - 1\<rparr>, z))"

definition zbuf_queue_peek :: "zbuf_queue \<Rightarrow> ptr" where
  "zbuf_queue_peek q = zq_head q"

definition zbuf_queue_len :: "zbuf_queue \<Rightarrow> u32" where
  "zbuf_queue_len q = zq_count q"

text \<open>\<open>while ((zb = zbuf_queue_pop(q)) != NULL) zbuf_free(zb);\<close>\<close>

partial_function (option) zbuf_queue_flush :: "zbuf_queue \<Rightarrow> zpool \<Rightarrow> (zbuf_queue \<times> zpool) option" where
  "zbuf_queue_flush q z =
     (let (zb, q', z') = zbuf_queue_pop (q, z)
      in if zb \<noteq> None then zbuf_queue_flush q' (zbuf_free zb z') else Some (q', z'))"

section \<open>The queue as a fifo\<close>

definition zq_rep :: "zbuf_queue \<times> zpool \<Rightarrow> addr list \<Rightarrow> bool" where
  "zq_rep = (\<lambda>(q, z) xs. dseg (zp_next z) (zp_prev z) None (zq_head q) xs (zq_tail q) None \<and>
     distinct xs \<and> zq_count q = of_nat (length xs))"

lemma zq_rep_init: "zq_rep (zbuf_queue_init, z) []"
  by (simp add: zq_rep_def zbuf_queue_init_def)

lemma zq_push_rep:
  assumes rep: "zq_rep s xs" and b: "b \<notin> set xs"
  shows "zq_rep (zbuf_queue_push b s) (xs @ [b])"
proof -
  obtain q z where s: "s = (q, z)" by (cases s)
  have d: "dseg (zp_next z) (zp_prev z) None (zq_head q) xs (zq_tail q) None" and dist: "distinct xs"
    using rep by (auto simp: zq_rep_def s)
  obtain q' z' where s': "zbuf_queue_push b (q, z) = (q', z')" by (cases "zbuf_queue_push b (q, z)")
  have last: "zq_tail q = (if xs = [] then None else Some (last xs))" by (rule dseg_last[OF d])
  have "dseg (zp_next z') (zp_prev z') None (zq_head q') (xs @ [b]) (Some b) None"
  proof (cases xs rule: rev_cases)
    case Nil
    then show ?thesis using s' d by (auto simp: zbuf_queue_push_def Let_def)
  next
    case (snoc ys t)
    then have t: "zq_tail q = Some t" "t \<notin> set ys" "t \<noteq> b" "b \<notin> set ys" using last dist b by auto
    then have z': "z' = zb_upd t (zb_next_update (\<lambda>_. Some b)) (zb_upd b (\<lambda>k. k\<lparr>zb_next := None, zb_prev := Some t\<rparr>) z)"
      "zq_head q' = zq_head q"
      using s' by (auto simp: zbuf_queue_push_def Let_def)
    have "dseg (zp_next z') (zp_prev z') None (zq_head q) xs (Some t) (Some b)"
    proof (rule dseg_retarget[OF d])
      show "zp_next z' x = zp_next z x" if "x \<in> set (butlast xs)" for x
        using that t snoc by (auto simp: z')
      show "zp_prev z' x = zp_prev z x" if "x \<in> set (tl xs)" for x
      proof -
        have "x \<in> set xs" using that by (cases xs) auto
        then show ?thesis using b by (auto simp: z')
      qed
    next
      have "hd xs \<noteq> b" using b snoc by (cases ys) auto
      then show "zp_prev z' (hd xs) = None" using dseg_ends(5)[OF d] snoc by (auto simp: z')
    qed (use snoc t in \<open>auto simp: z'\<close>)
    then show ?thesis using t by (auto simp: dseg_append z')
  qed
  moreover have "zq_tail q' = Some b" "zq_count q' = zq_count q + 1"
    using s' by (auto simp: zbuf_queue_push_def Let_def split: option.splits)
  ultimately show ?thesis using rep b by (simp add: s s' zq_rep_def)
qed

lemma zq_pop_rep:
  assumes rep: "zq_rep (q, z) (b # xs)"
  shows "\<exists>q' z'. zbuf_queue_pop (q, z) = (Some b, q', z') \<and> zq_rep (q', z') xs \<and>
    (\<forall>a. a \<notin> set (b # xs) \<longrightarrow> zp_buf z' a = zp_buf z a) \<and>
    zp_free_list z' = zp_free_list z \<and> zp_free_count z' = zp_free_count z \<and> zp_memory z' = zp_memory z \<and>
    (\<forall>a. zb_head (zp_buf z' a) = zb_head (zp_buf z a) \<and> zb_end (zp_buf z' a) = zb_end (zp_buf z a) \<and>
       zb_flags (zp_buf z' a) = zb_flags (zp_buf z a) \<and> zb_refcount (zp_buf z' a) = zb_refcount (zp_buf z a))"
proof -
  have d: "zq_head q = Some b" "dseg (zp_next z) (zp_prev z) (Some b) (zb_next (zp_buf z b)) xs (zq_tail q) None"
    and dist: "distinct (b # xs)"
    using rep by (auto simp: zq_rep_def)
  obtain p q' z' where r: "zbuf_queue_pop (q, z) = (p, q', z')" by (cases "zbuf_queue_pop (q, z)")
  have cnt: "zq_count q - 1 = of_nat (length xs)" using rep by (simp add: zq_rep_def)
  show ?thesis
  proof (cases xs)
    case Nil
    then have "zb_next (zp_buf z b) = None" using d by simp
    then show ?thesis using d(1) cnt Nil by (auto simp: zbuf_queue_pop_def Let_def zq_rep_def)
  next
    case (Cons h ys)
    then have h: "zb_next (zp_buf z b) = Some h" "h \<noteq> b" "h \<notin> set ys" "b \<notin> set ys" using d dist by auto
    let ?z = "zb_upd b (\<lambda>k. k\<lparr>zb_next := None, zb_prev := None\<rparr>) (zb_set_prev (Some h) None z)"
    have run: "zbuf_queue_pop (q, z) = (Some b, q\<lparr>zq_head := Some h, zq_count := zq_count q - 1\<rparr>, ?z)"
      using d(1) h(1) by (simp add: zbuf_queue_pop_def Let_def)
    have nh: "zb_next (zp_buf ?z h) = zb_next (zp_buf z h)" using h by simp
    have "dseg (zp_next z) (zp_prev z) (Some h) (zb_next (zp_buf z h)) ys (zq_tail q) None"
      using d(2) by (simp add: Cons)
    moreover have "dseg (zp_next ?z) (zp_prev ?z) (Some h) (zb_next (zp_buf z h)) ys (zq_tail q) None =
        dseg (zp_next z) (zp_prev z) (Some h) (zb_next (zp_buf z h)) ys (zq_tail q) None"
      by (rule dseg_cong) (use h in auto)
    ultimately have "dseg (zp_next ?z) (zp_prev ?z) (Some h) (zb_next (zp_buf ?z h)) ys (zq_tail q) None"
      unfolding nh by blast
    moreover have "zp_prev ?z h = None" using h by simp
    ultimately have "zq_rep (q\<lparr>zq_head := Some h, zq_count := zq_count q - 1\<rparr>, ?z) xs"
      using dist cnt unfolding Cons zq_rep_def by (simp del: zb_upd_simps zb_set_prev_simps)
    then show ?thesis
      using run h by (intro exI[of _ "q\<lparr>zq_head := Some h, zq_count := zq_count q - 1\<rparr>"] exI[of _ ?z] conjI)
        (simp_all add: Cons)
  qed
qed

lemma zq_pop_empty: "zq_rep (q, z) [] \<Longrightarrow> zbuf_queue_pop (q, z) = (None, q, z)"
  by (simp add: zq_rep_def zbuf_queue_pop_def)

interpretation zq: fifo zq_rep "\<lambda>xs b. b \<notin> set xs" "\<lambda>b s. Some (zbuf_queue_push b s)"
  "\<lambda>s. Some (zbuf_queue_pop s)"
proof
  fix s xs a assume "zq_rep s xs" "a \<notin> set xs"
  then show "\<exists>s'. Some (zbuf_queue_push a s) = Some s' \<and> zq_rep s' (xs @ [a])"
    using zq_push_rep by simp
next
  fix s a xs assume "zq_rep s (a # xs)"
  then show "\<exists>s'. Some (zbuf_queue_pop s) = Some (Some a, s') \<and> zq_rep s' xs"
    using zq_pop_rep by (cases s) fastforce
next
  fix s assume "zq_rep s []"
  then show "\<exists>s'. Some (zbuf_queue_pop s) = Some (None, s') \<and> zq_rep s' []"
    using zq_pop_empty by (cases s) simp
qed

section \<open>Flushing\<close>

lemma zq_rep_frame:
  "zq_rep (q, z) xs \<Longrightarrow> (\<And>a. a \<in> set xs \<Longrightarrow> zp_buf z' a = zp_buf z a) \<Longrightarrow> zq_rep (q, z') xs"
  using dseg_cong[of xs "zp_next z'" "zp_next z" "zp_prev z'" "zp_prev z" None "zq_head q" "zq_tail q" None]
  by (simp add: zq_rep_def)

lemma zpool_inv_frame:
  assumes "zpool_inv z fl" and "\<And>a. a \<in> set fl \<Longrightarrow> zp_buf z' a = zp_buf z a"
    and "zp_free_list z' = zp_free_list z" "zp_free_count z' = zp_free_count z" "zp_memory z' = zp_memory z"
    and "\<And>a. zb_head (zp_buf z' a) = zb_head (zp_buf z a) \<and> zb_end (zp_buf z' a) = zb_end (zp_buf z a)"
  shows "zpool_inv z' fl"
proof -
  have "dseg (zp_next z') (zp_prev z') None p fl la None = dseg (zp_next z) (zp_prev z) None p fl la None" for p la
    by (rule dseg_cong) (simp_all add: assms(2))
  then show ?thesis using assms by (simp add: zpool_inv_def zb_layout_def)
qed

lemma zbuf_free_inv:
  assumes inv: "zpool_inv z fl" and b: "b \<in> set (zbuf_slots (zp_memory z))" "b \<notin> set fl"
  shows "(\<exists>fl'. zpool_inv (zbuf_free (Some b) z) fl' \<and> set fl' \<subseteq> insert b (set fl)) \<and>
    (\<forall>a. a \<noteq> b \<longrightarrow> a \<notin> set fl \<longrightarrow> zp_buf (zbuf_free (Some b) z) a = zp_buf z a) \<and>
    zp_memory (zbuf_free (Some b) z) = zp_memory z"
proof (cases "zb_flags (zp_buf z b) AND ZBUF_F_SHARED = 0")
  case False
  then show ?thesis using inv by (auto simp: zbuf_free_def)
next
  case True
  let ?z = "zb_upd b (set_ref_word (ref_word (zp_buf z b) - 1)) z"
  have fl: "zp_free_list z \<noteq> Some a" if "a \<notin> set fl" for a
    using inv that by (cases fl) (auto simp: zpool_inv_def)
  have "zpool_inv (zbuf_to_pool b ?z) (b # fl)"
    using inv b by (intro zbuf_to_pool_inv) (simp_all add: zpool_inv_ref_word)
  moreover have "a \<noteq> b \<longrightarrow> a \<notin> set fl \<longrightarrow> zp_buf (zbuf_to_pool b ?z) a = zp_buf z a" for a
    using fl by (simp add: zbuf_to_pool_def Let_def)
  moreover have "zp_memory (zbuf_to_pool b ?z) = zp_memory z" by (simp add: zbuf_to_pool_def Let_def)
  moreover have "zpool_inv ?z fl" using inv by (simp add: zpool_inv_ref_word)
  ultimately show ?thesis
    unfolding zbuf_free_cases[OF True] Let_def by (auto split: if_split)
qed

lemma zbuf_queue_flush_aux:
  assumes "zq_rep (q, z) xs" and "zpool_inv z fl" and "set xs \<inter> set fl = {}"
    and "set xs \<subseteq> set (zbuf_slots (zp_memory z))"
  shows "\<exists>q' z' fl'. zbuf_queue_flush q z = Some (q', z') \<and> zq_rep (q', z') [] \<and> zpool_inv z' fl' \<and>
    set fl' \<subseteq> set fl \<union> set xs"
  using assms
proof (induction xs arbitrary: q z fl)
  case Nil
  then show ?case using zq_pop_empty[OF Nil(1)] by (subst zbuf_queue_flush.simps) auto
next
  case (Cons b xs)
  obtain q1 z1 where pop: "zbuf_queue_pop (q, z) = (Some b, q1, z1)" "zq_rep (q1, z1) xs"
    "\<forall>a. a \<notin> set (b # xs) \<longrightarrow> zp_buf z1 a = zp_buf z a" "zp_free_list z1 = zp_free_list z"
    "zp_free_count z1 = zp_free_count z" "zp_memory z1 = zp_memory z"
    "\<forall>a. zb_head (zp_buf z1 a) = zb_head (zp_buf z a) \<and> zb_end (zp_buf z1 a) = zb_end (zp_buf z a)"
    using zq_pop_rep[OF Cons.prems(1)] by blast
  have inv1: "zpool_inv z1 fl"
    using Cons.prems(3) pop by (intro zpool_inv_frame[OF Cons.prems(2)]) auto
  let ?z = "zbuf_free (Some b) z1"
  have b: "b \<in> set (zbuf_slots (zp_memory z1))" "b \<notin> set fl" "b \<notin> set xs"
    using Cons.prems pop(6) by (auto simp: zq_rep_def)
  obtain fl1 where fl1: "zpool_inv ?z fl1" "set fl1 \<subseteq> insert b (set fl)" and
    fr: "\<forall>a. a \<noteq> b \<longrightarrow> a \<notin> set fl \<longrightarrow> zp_buf ?z a = zp_buf z1 a" "zp_memory ?z = zp_memory z1"
    using zbuf_free_inv[OF inv1 b(1,2)] by blast
  have rep: "zq_rep (q1, ?z) xs"
    by (rule zq_rep_frame[OF pop(2)]) (use fr(1) b Cons.prems(3) in auto)
  have "\<exists>q' z' fl'. zbuf_queue_flush q1 ?z = Some (q', z') \<and> zq_rep (q', z') [] \<and> zpool_inv z' fl' \<and>
      set fl' \<subseteq> set fl1 \<union> set xs"
    using Cons.prems fl1 b pop(6) fr(2) by (intro Cons.IH[OF rep]) auto
  then show ?case using fl1(2) pop(1) by (subst zbuf_queue_flush.simps) fastforce
qed

section \<open>Properties\<close>

text \<open>The queue is a fifo. Starting empty, for every sequence of pushes of buffers not already
  queued and of pops, the pops return the pushed buffers in order, \<open>NULL\<close> when nothing is queued,
  and the links, both end pointers and the count represent what is left.\<close>

theorem zbuf_queue_fifo:
  assumes "fifo_abs (\<lambda>xs b. b \<notin> set xs) ops [] = Some (rs, ys)"
  shows "\<exists>s'. fifo_run (\<lambda>b s. Some (zbuf_queue_push b s)) (\<lambda>s. Some (zbuf_queue_pop s)) ops (zbuf_queue_init, z)
       = Some (rs, s') \<and> zq_rep s' ys \<and> enq_values ops = List.map_filter id rs @ ys"
  by (rule zq.run_in_order[OF zq_rep_init assms])

theorem zbuf_queue_fifo_witness:
  "\<exists>s'. fifo_run (\<lambda>b s. Some (zbuf_queue_push b s)) (\<lambda>s. Some (zbuf_queue_pop s))
     [Enq 2176, Enq 0, Deq, Enq 4352, Deq, Deq, Deq] (zbuf_queue_init, zpool0)
       = Some ([Some 2176, Some 0, Some 4352, None], s')"
  using zbuf_queue_fifo[of "[Enq 2176, Enq 0, Deq, Enq 4352, Deq, Deq, Deq]"
      "[Some 2176, Some 0, Some 4352, None]" "[]" zpool0] by auto

text \<open>Flushing a queue of allocated buffers ends, leaves the queue empty and keeps the pool
  invariant; only buffers of the queue can have joined the free list.\<close>

theorem zbuf_queue_flush_ends:
  assumes "zq_rep (q, z) xs" and "zpool_inv z fl" and "set xs \<inter> set fl = {}"
    and "set xs \<subseteq> set (zbuf_slots (zp_memory z))"
  shows "\<exists>q' z' fl'. zbuf_queue_flush q z = Some (q', z') \<and> zq_rep (q', z') [] \<and> zpool_inv z' fl' \<and>
    set fl' \<subseteq> set fl \<union> set xs"
  using zbuf_queue_flush_aux[OF assms] .

theorem zbuf_queue_flush_ends_witness:
  "\<exists>q' z1 z'. zbuf_alloc 64 zpool0 = (Some 2226048, z1) \<and>
     case_prod zbuf_queue_flush (zbuf_queue_push 2226048 (zbuf_queue_init, z1)) = Some (q', z') \<and>
     zq_rep (q', z') []"
proof -
  let ?b = "2226048 :: addr" and ?fl = "rev (map (\<lambda>i. int i * zbuf_slot) [0..<1023])"
  have slots: "rev (zbuf_slots 0) = ?b # ?fl"
    using rev_zbuf_slots_Cons[of 0] by (simp add: zbuf_slot_value)
  obtain z1 where z1: "zbuf_alloc 64 zpool0 = (Some ?b, z1)" "zpool_inv z1 ?fl" "zp_memory z1 = 0"
    using zbuf_alloc_Some[of zpool0 ?b ?fl 64] zpool0_inv slots by (auto simp: config_defs)
  obtain q z where s: "zbuf_queue_push ?b (zbuf_queue_init, z1) = (q, z)" by (rule prod.exhaust)
  have rep: "zq_rep (q, z) [?b]" using zq_push_rep[OF zq_rep_init, of ?b z1] s by simp
  have z: "z = zb_upd ?b (\<lambda>k. k\<lparr>zb_next := None, zb_prev := None\<rparr>) z1"
    using s by (auto simp: zbuf_queue_push_def zbuf_queue_init_def)
  have b: "?b \<in> set (rev (zbuf_slots 0))" "?b \<notin> set ?fl"
    by (simp only: slots) (auto simp: zbuf_slot_value)
  then have "zpool_inv z ?fl"
    by (intro zpool_inv_frame[OF z1(2)]) (auto simp: z)
  then show ?thesis
    using zbuf_queue_flush_ends[OF rep, of ?fl] b s z1(1,3) by (auto simp: z)
qed

end
