(* ===== verification/Sched.thy ===== *)
theory Sched
  imports Config
begin

text \<open>
  The scheduler of \<open>kernel/scheduler.c\<close>: task control blocks at their addresses, one circular doubly
  linked ready list per priority, task creation and start, voluntary and timed switches, the timer
  tick; with the spin locks it takes, the interrupt mask of \<open>kernel/interrupt.c\<close> and the context
  switch of \<open>arch/arm64/startup.S\<close>.

  There is one core. A lock that is held when \<open>spin_lock_irq\<close> asks for it is therefore never
  released, because interrupts are masked: the model returns \<open>None\<close>, as it does for a null or
  out-of-range access. A function that may switch returns \<open>Ret s\<close> when control comes back to its
  caller, and \<open>Sw s\<close> right after a context switch: then the task \<open>sc_current s\<close> runs on at the
  program counter that was loaded for it.
\<close>

section \<open>Interrupt mask and spin locks\<close>

definition DAIF_I :: u64 where "DAIF_I = 128"

definition arch_irq_save :: "u64 \<Rightarrow> u64 \<times> u64" where
  "arch_irq_save daif = (daif, daif OR DAIF_I)"

definition arch_irq_restore :: "u64 \<Rightarrow> u64 \<Rightarrow> u64" where
  "arch_irq_restore flags daif = flags"

definition arch_irq_enable :: "u64 \<Rightarrow> u64" where
  "arch_irq_enable daif = daif AND NOT DAIF_I"

definition arch_irq_disable :: "u64 \<Rightarrow> u64" where
  "arch_irq_disable daif = daif OR DAIF_I"

definition arch_irq_enabled :: "u64 \<Rightarrow> bool" where
  "arch_irq_enabled daif \<longleftrightarrow> daif AND 128 = 0"

record spinlock =
  sl_lock :: u32
  sl_irq_flags :: u32

definition SPINLOCK_INIT :: spinlock where
  "SPINLOCK_INIT = \<lparr>sl_lock = 0, sl_irq_flags = 0\<rparr>"

definition spin_lock :: "spinlock \<Rightarrow> spinlock option" where
  "spin_lock l = (if sl_lock l = 0 then Some (l\<lparr>sl_lock := 1\<rparr>) else None)"

definition spin_unlock :: "spinlock \<Rightarrow> spinlock" where
  "spin_unlock l = l\<lparr>sl_lock := 0\<rparr>"

definition spin_lock_irq :: "spinlock \<Rightarrow> u64 \<Rightarrow> (spinlock \<times> u64) option" where
  "spin_lock_irq l daif =
     (let (flags, daif) = arch_irq_save daif in do {
        l \<leftarrow> spin_lock (l\<lparr>sl_irq_flags := ucast flags\<rparr>);
        Some (l, daif)
      })"

definition spin_unlock_irq :: "spinlock \<Rightarrow> u64 \<Rightarrow> spinlock \<times> u64" where
  "spin_unlock_irq l daif =
     (let l = spin_unlock l in (l, arch_irq_restore (ucast (sl_irq_flags l)) daif))"

section \<open>Tasks and scheduler state\<close>

datatype task_state =
    TASK_STATE_READY | TASK_STATE_RUNNING | TASK_STATE_BLOCKED
  | TASK_STATE_SUSPENDED | TASK_STATE_TERMINATED

record tcb =
  t_sp :: u64
  t_regs :: "nat \<Rightarrow> u64"
  t_elr :: u64
  t_spsr :: u64
  t_id :: u32
  t_name :: string
  t_priority :: u8
  t_state :: task_state
  t_stack_base :: u64
  t_stack_size :: u64
  t_wake_tick :: u32
  t_time_slice :: u32
  t_remaining_slice :: u32
  t_next :: ptr
  t_prev :: ptr
  t_wait_obj :: ptr
  t_wait_result :: status

record cpu =
  cpu_sp :: u64
  cpu_x :: "nat \<Rightarrow> u64"
  cpu_pc :: u64
  cpu_elr :: u64
  cpu_spsr :: u64
  cpu_daif :: u64

text \<open>
  The static state of \<open>scheduler.c\<close>, with the control blocks, the processor, the address of
  \<open>idle_tcb\<close> and two code addresses: \<open>task_entry_wrapper\<close>, and the instruction behind the call of
  \<open>arch_context_switch\<close> in \<open>schedule_locked\<close>.
\<close>

record sched =
  sc_tcb :: "addr \<Rightarrow> tcb"
  sc_current :: ptr
  sc_ready :: "nat \<Rightarrow> ptr"
  sc_table :: "addr list"      \<comment> \<open>\<open>task_table[0 .. task_count-1]\<close>\<close>
  sc_ticks :: u32
  sc_running :: bool
  sc_lock :: spinlock
  sc_cpu :: cpu
  sc_idle :: addr
  sc_wrapper_addr :: u64
  sc_schedule_ra :: u64

datatype 's ctl = Ret (ctl_state: 's) | Sw (ctl_state: 's)

definition t_upd :: "addr \<Rightarrow> (tcb \<Rightarrow> tcb) \<Rightarrow> sched \<Rightarrow> sched" where
  "t_upd a f s = s\<lparr>sc_tcb := (sc_tcb s)(a := f (sc_tcb s a))\<rparr>"

definition sched_lock_irq :: "sched \<Rightarrow> sched option" where
  "sched_lock_irq s = do {
     (l, daif) \<leftarrow> spin_lock_irq (sc_lock s) (cpu_daif (sc_cpu s));
     Some (s\<lparr>sc_lock := l, sc_cpu := (sc_cpu s)\<lparr>cpu_daif := daif\<rparr>\<rparr>)
   }"

definition sched_unlock_irq :: "sched \<Rightarrow> sched" where
  "sched_unlock_irq s =
     (let (l, daif) = spin_unlock_irq (sc_lock s) (cpu_daif (sc_cpu s))
      in s\<lparr>sc_lock := l, sc_cpu := (sc_cpu s)\<lparr>cpu_daif := daif\<rparr>\<rparr>)"

section \<open>Ready lists\<close>

definition ready_list_add :: "addr \<Rightarrow> sched \<Rightarrow> sched option" where
  "ready_list_add task s =
     (let prio = unat (t_priority (sc_tcb s task));
          s = t_upd task (t_state_update (\<lambda>_. TASK_STATE_READY)) s
      in if CONFIG_MAX_PRIORITY \<le> prio then None
         else case sc_ready s prio of
           None \<Rightarrow>
             Some (t_upd task (\<lambda>t. t\<lparr>t_next := Some task, t_prev := Some task\<rparr>)
                     (s\<lparr>sc_ready := (sc_ready s)(prio := Some task)\<rparr>))
         | Some head \<Rightarrow>
             let s = t_upd task (t_next_update (\<lambda>_. Some head)) s;
                 s = t_upd task (t_prev_update (\<lambda>_. t_prev (sc_tcb s head))) s
             in do {
               hp \<leftarrow> t_prev (sc_tcb s head);
               let s = t_upd hp (t_next_update (\<lambda>_. Some task)) s;
               Some (t_upd head (t_prev_update (\<lambda>_. Some task)) s)
             })"

definition ready_list_remove :: "addr \<Rightarrow> sched \<Rightarrow> sched option" where
  "ready_list_remove task s =
     (let prio = unat (t_priority (sc_tcb s task)) in do {
        s \<leftarrow> (if CONFIG_MAX_PRIORITY \<le> prio then None
             else if t_next (sc_tcb s task) = Some task
             then Some (s\<lparr>sc_ready := (sc_ready s)(prio := None)\<rparr>)
             else do {
               p \<leftarrow> t_prev (sc_tcb s task);
               let s = t_upd p (t_next_update (\<lambda>_. t_next (sc_tcb s task))) s;
               n \<leftarrow> t_next (sc_tcb s task);
               let s = t_upd n (t_prev_update (\<lambda>_. t_prev (sc_tcb s task))) s;
               Some (if sc_ready s prio = Some task
                     then s\<lparr>sc_ready := (sc_ready s)(prio := t_next (sc_tcb s task))\<rparr> else s)
             });
        Some (t_upd task (\<lambda>t. t\<lparr>t_next := None, t_prev := None\<rparr>) s)
      })"

text \<open>The scan \<open>for (i = CONFIG_MAX_PRIORITY - 1; i >= 0; i--)\<close>.\<close>

fun highest_ready_below :: "(nat \<Rightarrow> ptr) \<Rightarrow> nat \<Rightarrow> ptr" where
  "highest_ready_below r 0 = None"
| "highest_ready_below r (Suc i) = (case r i of Some a \<Rightarrow> Some a | None \<Rightarrow> highest_ready_below r i)"

definition get_highest_ready :: "sched \<Rightarrow> addr" where
  "get_highest_ready s =
     (case highest_ready_below (sc_ready s) CONFIG_MAX_PRIORITY of
        Some a \<Rightarrow> a
      | None \<Rightarrow> sc_idle s)"

section \<open>Context switch\<close>

text \<open>
  \<open>arch_context_switch\<close> saves \<open>x19\<close> to \<open>x30\<close> at offsets 8 to 96 of the outgoing block, which are
  \<open>regs[0]\<close> to \<open>regs[11]\<close>, loads the same from the incoming one, and returns through \<open>x30\<close>.
\<close>

definition arch_context_switch :: "addr \<Rightarrow> addr \<Rightarrow> sched \<Rightarrow> sched" where
  "arch_context_switch p n s =
     (let c = sc_cpu s;
          s = t_upd p (\<lambda>t. t\<lparr>t_sp := cpu_sp c,
                t_regs := (\<lambda>i. if i < 12 then cpu_x c (i + 19) else t_regs t i),
                t_elr := cpu_elr c, t_spsr := cpu_spsr c\<rparr>) s;
          t = sc_tcb s n
      in s\<lparr>sc_cpu := c\<lparr>cpu_sp := t_sp t,
             cpu_x := (\<lambda>i. if 19 \<le> i \<and> i < 31 then t_regs t (i - 19)
                           else if i = 2 then t_elr t else if i = 3 then t_spsr t else cpu_x c i),
             cpu_elr := t_elr t, cpu_spsr := t_spsr t, cpu_pc := t_regs t 11\<rparr>\<rparr>)"

text \<open>\<open>arch_first_switch\<close> also loads \<open>x0\<close> and \<open>x1\<close> from offset 104, \<open>regs[12]\<close> and \<open>regs[13]\<close>.\<close>

definition arch_first_switch :: "addr \<Rightarrow> sched \<Rightarrow> sched" where
  "arch_first_switch n s =
     (let c = sc_cpu s; t = sc_tcb s n
      in s\<lparr>sc_cpu := c\<lparr>cpu_sp := t_sp t,
             cpu_x := (\<lambda>i. if 19 \<le> i \<and> i < 31 then t_regs t (i - 19)
                           else if i = 0 then t_regs t 12 else if i = 1 then t_regs t 13
                           else if i = 2 then t_sp t else cpu_x c i),
             cpu_pc := t_regs t 11, cpu_daif := arch_irq_enable (cpu_daif c)\<rparr>\<rparr>)"

definition schedule_locked :: "sched \<Rightarrow> sched ctl option" where
  "schedule_locked s =
     (let next = get_highest_ready s in
      if Some next \<noteq> sc_current s then do {
        s \<leftarrow> (if next \<noteq> sc_idle s then ready_list_remove next s else Some s);
        let s = t_upd next (t_state_update (\<lambda>_. TASK_STATE_RUNNING)) s;
        prev \<leftarrow> sc_current s;
        let s = s\<lparr>sc_current := Some next\<rparr>;
        let s = s\<lparr>sc_cpu := (sc_cpu s)\<lparr>cpu_x := (cpu_x (sc_cpu s))(30 := sc_schedule_ra s)\<rparr>\<rparr>;
        Some (Sw (arch_context_switch prev next s))
      } else Some (Ret s))"

text \<open>What follows \<open>schedule_locked\<close> in its callers: the lock is released, by the task that runs then.\<close>

definition after_schedule :: "sched ctl \<Rightarrow> sched ctl" where
  "after_schedule c = (case c of Ret s \<Rightarrow> Ret (sched_unlock_irq s) | Sw s \<Rightarrow> Sw s)"

section \<open>Task operations\<close>

definition task_create ::
    "ptr \<Rightarrow> string \<Rightarrow> u64 \<Rightarrow> u64 \<Rightarrow> u8 \<Rightarrow> u64 \<Rightarrow> u64 \<Rightarrow> sched \<Rightarrow> (status \<times> sched) option" where
  "task_create tcbp name entry arg priority stack stack_size s =
     (case tcbp of
        None \<Rightarrow> Some (STATUS_INVALID, s)
      | Some a \<Rightarrow>
          if entry = 0 \<or> stack = 0 then Some (STATUS_INVALID, s)
          else if CONFIG_MAX_PRIORITY \<le> unat priority then Some (STATUS_INVALID, s)
          else if CONFIG_MAX_TASKS \<le> length (sc_table s) then Some (STATUS_NO_MEM, s)
          else
            let sp = ((stack + stack_size) AND NOT 15) - 34 * 8;
                s = t_upd a (\<lambda>t. t\<lparr>t_name := name, t_priority := priority,
                      t_state := TASK_STATE_SUSPENDED, t_stack_base := stack,
                      t_stack_size := stack_size, t_time_slice := 10, t_remaining_slice := 10,
                      t_wait_obj := None, t_next := None, t_prev := None,
                      t_regs := (t_regs t)(0 := entry, 1 := arg, 29 := 0, 30 := 0),
                      t_elr := sc_wrapper_addr s, t_spsr := 0x305, t_sp := sp\<rparr>) s
            in do {
              s \<leftarrow> sched_lock_irq s;
              let s = t_upd a (t_id_update (\<lambda>_. of_nat (length (sc_table s)))) s;
              let s = s\<lparr>sc_table := sc_table s @ [a]\<rparr>;
              Some (STATUS_OK, sched_unlock_irq s)
            })"

definition task_terminate :: "sched \<Rightarrow> sched ctl option" where
  "task_terminate s = do {
     s \<leftarrow> sched_lock_irq s;
     c \<leftarrow> sc_current s;
     schedule_locked (t_upd c (t_state_update (\<lambda>_. TASK_STATE_TERMINATED)) s)
   }"

text \<open>The wrapper every task is meant to start in; \<open>entry\<close> is the task's function.\<close>

definition task_entry_wrapper :: "('a \<Rightarrow> sched \<Rightarrow> sched option) \<Rightarrow> 'a \<Rightarrow> sched \<Rightarrow> sched ctl option" where
  "task_entry_wrapper entry arg s = do { s \<leftarrow> entry arg s; task_terminate s }"

definition task_yield :: "sched \<Rightarrow> sched ctl option" where
  "task_yield s = do {
     s \<leftarrow> sched_lock_irq s;
     c \<leftarrow> sc_current s;
     s \<leftarrow> (if t_state (sc_tcb s c) = TASK_STATE_RUNNING then do {
            s \<leftarrow> ready_list_add c s;
            Some (s\<lparr>sc_ready := (sc_ready s)(unat (t_priority (sc_tcb s c)) := t_next (sc_tcb s c))\<rparr>)
          } else Some s);
     r \<leftarrow> schedule_locked s;
     Some (after_schedule r)
   }"

definition task_sleep :: "u32 \<Rightarrow> sched \<Rightarrow> sched ctl option" where
  "task_sleep ticks s = do {
     s \<leftarrow> sched_lock_irq s;
     c \<leftarrow> sc_current s;
     let s = t_upd c (\<lambda>t. t\<lparr>t_state := TASK_STATE_BLOCKED, t_wake_tick := sc_ticks s + ticks\<rparr>) s;
     r \<leftarrow> schedule_locked s;
     Some (after_schedule r)
   }"

definition task_start :: "ptr \<Rightarrow> sched \<Rightarrow> (status \<times> sched ctl) option" where
  "task_start tcbp s =
     (case tcbp of
        None \<Rightarrow> Some (STATUS_INVALID, Ret s)
      | Some a \<Rightarrow> do {
          s \<leftarrow> sched_lock_irq s;
          if t_state (sc_tcb s a) = TASK_STATE_SUSPENDED then do {
            s \<leftarrow> ready_list_add a s;
            if sc_running s \<and> sc_current s \<noteq> None \<and>
               t_priority (sc_tcb s (the (sc_current s))) < t_priority (sc_tcb s a)
            then do {
              r \<leftarrow> task_yield (sched_unlock_irq s);
              Some (STATUS_OK, r)
            } else Some (STATUS_OK, Ret (sched_unlock_irq s))
          } else Some (STATUS_OK, Ret (sched_unlock_irq s))
        })"

definition task_current :: "sched \<Rightarrow> ptr" where
  "task_current s = sc_current s"

definition get_system_ticks :: "sched \<Rightarrow> u32" where
  "get_system_ticks s = sc_ticks s"

section \<open>Timer tick and start\<close>

text \<open>The body of the wake-up loop for one task of the table.\<close>

definition tick_wake :: "addr \<Rightarrow> sched \<Rightarrow> sched option" where
  "tick_wake task s =
     (if t_state (sc_tcb s task) = TASK_STATE_BLOCKED \<and> t_wait_obj (sc_tcb s task) = None \<and>
         t_wake_tick (sc_tcb s task) \<le> sc_ticks s
      then do {
        l \<leftarrow> spin_lock (sc_lock s);
        let s = s\<lparr>sc_lock := l\<rparr>;
        s \<leftarrow> (if t_state (sc_tcb s task) = TASK_STATE_BLOCKED then ready_list_add task s else Some s);
        Some (s\<lparr>sc_lock := spin_unlock (sc_lock s)\<rparr>)
      } else Some s)"

fun tick_loop :: "addr list \<Rightarrow> sched \<Rightarrow> sched option" where
  "tick_loop [] s = Some s"
| "tick_loop (task # tasks) s = do { s \<leftarrow> tick_wake task s; tick_loop tasks s }"

definition scheduler_tick :: "sched \<Rightarrow> sched ctl option" where
  "scheduler_tick s = do {
     let s = s\<lparr>sc_ticks := sc_ticks s + 1\<rparr>;
     s \<leftarrow> tick_loop (sc_table s) s;
     if sc_current s \<noteq> Some (sc_idle s) then do {
       c \<leftarrow> sc_current s;
       let s = t_upd c (\<lambda>t. t\<lparr>t_remaining_slice := t_remaining_slice t - 1\<rparr>) s;
       if t_remaining_slice (sc_tcb s c) = 0
       then task_yield (t_upd c (\<lambda>t. t\<lparr>t_remaining_slice := t_time_slice t\<rparr>) s)
       else Some (Ret s)
     } else Some (Ret s)
   }"

text \<open>\<open>scheduler_start\<close>; \<open>entry\<close> and \<open>stack\<close> are the addresses of \<open>idle_task\<close> and \<open>idle_stack\<close>.\<close>

definition scheduler_start :: "u64 \<Rightarrow> u64 \<Rightarrow> sched \<Rightarrow> sched option" where
  "scheduler_start idle_task idle_stack s = do {
     (st, s) \<leftarrow> task_create (Some (sc_idle s)) ''idle'' idle_task 0 0 idle_stack
                  (of_int CONFIG_IDLE_STACK_SIZE) s;
     let s = t_upd (sc_idle s) (t_state_update (\<lambda>_. TASK_STATE_READY)) s;
     let c = get_highest_ready s;
     s \<leftarrow> (if c \<noteq> sc_idle s then ready_list_remove c s else Some s);
     let s = t_upd c (t_state_update (\<lambda>_. TASK_STATE_RUNNING)) s;
     let s = s\<lparr>sc_current := Some c, sc_running := True\<rparr>;
     Some (arch_first_switch c s)
   }"

end
