(* ===== verification/Sync.thy ===== *)
theory Sync
  imports Sched
begin

text \<open>
  The synchronisation objects of \<open>kernel/sync.c\<close>: wait lists threaded through the control blocks'
  own links, semaphores, recursive mutexes with priority inheritance, event flags and message
  queues.

  A call that blocks is cut where it calls \<open>task_yield\<close>: \<open>WBlock\<close> carries the object with its lock
  released and what the yield did; when the task runs again it goes on with the \<open>_resume\<close> function.
  \<open>WDone\<close> carries the status the call returns.
\<close>

section \<open>Wait lists and locks\<close>

definition wait_list_add :: "ptr \<Rightarrow> addr \<Rightarrow> sched \<Rightarrow> ptr \<times> sched" where
  "wait_list_add list task s =
     (let s = t_upd task (\<lambda>t. t\<lparr>t_next := list, t_prev := None\<rparr>) s;
          s = (case list of None \<Rightarrow> s | Some h \<Rightarrow> t_upd h (t_prev_update (\<lambda>_. Some task)) s)
      in (Some task, s))"

definition wait_list_remove_first :: "ptr \<Rightarrow> sched \<Rightarrow> ptr \<times> ptr \<times> sched" where
  "wait_list_remove_first list s =
     (case list of
        None \<Rightarrow> (None, None, s)
      | Some task \<Rightarrow>
          let list = t_next (sc_tcb s task);
              s = (case list of None \<Rightarrow> s | Some h \<Rightarrow> t_upd h (t_prev_update (\<lambda>_. None)) s);
              s = t_upd task (t_next_update (\<lambda>_. None)) s
          in (Some task, list, s))"

definition wait_list_remove :: "ptr \<Rightarrow> addr \<Rightarrow> sched \<Rightarrow> ptr \<times> sched" where
  "wait_list_remove list task s =
     (let t = sc_tcb s task;
          (list, s) = (case t_prev t of
              Some p \<Rightarrow> (list, t_upd p (t_next_update (\<lambda>_. t_next t)) s)
            | None \<Rightarrow> (t_next t, s));
          t = sc_tcb s task;
          s = (case t_next t of None \<Rightarrow> s | Some n \<Rightarrow> t_upd n (t_prev_update (\<lambda>_. t_prev t)) s)
      in (list, t_upd task (\<lambda>t. t\<lparr>t_next := None, t_prev := None\<rparr>) s))"

definition obj_lock :: "spinlock \<Rightarrow> sched \<Rightarrow> (spinlock \<times> sched) option" where
  "obj_lock l s = do {
     (l, daif) \<leftarrow> spin_lock_irq l (cpu_daif (sc_cpu s));
     Some (l, s\<lparr>sc_cpu := (sc_cpu s)\<lparr>cpu_daif := daif\<rparr>\<rparr>)
   }"

definition obj_unlock :: "spinlock \<Rightarrow> sched \<Rightarrow> spinlock \<times> sched" where
  "obj_unlock l s =
     (let (l, daif) = spin_unlock_irq l (cpu_daif (sc_cpu s))
      in (l, s\<lparr>sc_cpu := (sc_cpu s)\<lparr>cpu_daif := daif\<rparr>\<rparr>))"

datatype 'o wait_out = WDone status 'o sched | WBlock 'o "sched ctl"

text \<open>The three lines that mark the calling task blocked on the object at \<open>obj\<close>, and queue it.\<close>

definition block_on :: "addr \<Rightarrow> ptr \<Rightarrow> addr \<Rightarrow> sched \<Rightarrow> ptr \<times> sched" where
  "block_on obj list task s =
     wait_list_add list task (t_upd task (\<lambda>t. t\<lparr>t_state := TASK_STATE_BLOCKED, t_wait_obj := Some obj\<rparr>) s)"

text \<open>The three lines that wake a waiter taken off a list. The ready lists are not touched.\<close>

definition wake :: "ptr \<Rightarrow> sched \<Rightarrow> sched" where
  "wake w s =
     (case w of
        None \<Rightarrow> s
      | Some a \<Rightarrow> t_upd a (\<lambda>t. t\<lparr>t_wait_obj := None, t_wait_result := STATUS_OK,
                              t_state := TASK_STATE_READY\<rparr>) s)"

section \<open>Semaphores\<close>

record semaphore =
  sem_count :: "32 word"
  sem_lock :: spinlock
  sem_wait_list :: ptr

definition sem_init :: "32 word \<Rightarrow> semaphore" where
  "sem_init initial = \<lparr>sem_count = initial, sem_lock = SPINLOCK_INIT, sem_wait_list = None\<rparr>"

definition sem_release :: "status \<Rightarrow> semaphore \<Rightarrow> sched \<Rightarrow> semaphore wait_out" where
  "sem_release st sem s =
     (let (l, s) = obj_unlock (sem_lock sem) s in WDone st (sem\<lparr>sem_lock := l\<rparr>) s)"

text \<open>The loop of \<open>sem_wait\<close>, entered with the lock held; \<open>a\<close> is the semaphore's address.\<close>

definition sem_wait_loop :: "addr \<Rightarrow> semaphore \<Rightarrow> sched \<Rightarrow> semaphore wait_out option" where
  "sem_wait_loop a sem s =
     (if sint (sem_count sem) \<le> 0 then do {
        task \<leftarrow> task_current s;
        let (list, s) = block_on a (sem_wait_list sem) task s;
        let (l, s) = obj_unlock (sem_lock sem) s;
        r \<leftarrow> task_yield s;
        Some (WBlock (sem\<lparr>sem_wait_list := list, sem_lock := l\<rparr>) r)
      } else Some (sem_release STATUS_OK (sem\<lparr>sem_count := sem_count sem - 1\<rparr>) s))"

definition sem_wait :: "addr \<Rightarrow> semaphore \<Rightarrow> sched \<Rightarrow> semaphore wait_out option" where
  "sem_wait a sem s = do {
     (l, s) \<leftarrow> obj_lock (sem_lock sem) s;
     sem_wait_loop a (sem\<lparr>sem_lock := l\<rparr>) s
   }"

definition sem_wait_resume :: "addr \<Rightarrow> addr \<Rightarrow> semaphore \<Rightarrow> sched \<Rightarrow> semaphore wait_out option" where
  "sem_wait_resume a task sem s = do {
     (l, s) \<leftarrow> obj_lock (sem_lock sem) s;
     let sem = sem\<lparr>sem_lock := l\<rparr>;
     if t_wait_result (sc_tcb s task) \<noteq> STATUS_OK
     then Some (sem_release (t_wait_result (sc_tcb s task)) sem s)
     else sem_wait_loop a sem s
   }"

definition sem_trywait :: "semaphore \<Rightarrow> sched \<Rightarrow> semaphore wait_out option" where
  "sem_trywait sem s = do {
     (l, s) \<leftarrow> obj_lock (sem_lock sem) s;
     let sem = sem\<lparr>sem_lock := l\<rparr>;
     Some (if sint (sem_count sem) > 0
           then sem_release STATUS_OK (sem\<lparr>sem_count := sem_count sem - 1\<rparr>) s
           else sem_release STATUS_WOULD_BLOCK sem s)
   }"

definition sem_post :: "semaphore \<Rightarrow> sched \<Rightarrow> (semaphore \<times> sched) option" where
  "sem_post sem s = do {
     (l, s) \<leftarrow> obj_lock (sem_lock sem) s;
     let (w, list, s) = wait_list_remove_first (sem_wait_list sem) s;
     let s = wake w s;
     let (l, s) = obj_unlock l s;
     Some (sem\<lparr>sem_count := sem_count sem + 1, sem_wait_list := list, sem_lock := l\<rparr>, s)
   }"

section \<open>Mutexes\<close>

record mutex =
  mtx_owner :: ptr
  mtx_lock_count :: u32
  mtx_orig_priority :: u8
  mtx_lock :: spinlock
  mtx_wait_list :: ptr

definition mutex_init :: mutex where
  "mutex_init = \<lparr>mtx_owner = None, mtx_lock_count = 0, mtx_orig_priority = 0,
     mtx_lock = SPINLOCK_INIT, mtx_wait_list = None\<rparr>"

definition mutex_release :: "status \<Rightarrow> mutex \<Rightarrow> sched \<Rightarrow> mutex wait_out" where
  "mutex_release st m s =
     (let (l, s) = obj_unlock (mtx_lock m) s in WDone st (m\<lparr>mtx_lock := l\<rparr>) s)"

definition mutex_take :: "addr \<Rightarrow> mutex \<Rightarrow> sched \<Rightarrow> mutex" where
  "mutex_take task m s =
     m\<lparr>mtx_owner := Some task, mtx_lock_count := 1, mtx_orig_priority := t_priority (sc_tcb s task)\<rparr>"

definition mutex_lock_loop :: "addr \<Rightarrow> addr \<Rightarrow> mutex \<Rightarrow> sched \<Rightarrow> mutex wait_out option" where
  "mutex_lock_loop a task m s =
     (case mtx_owner m of
        None \<Rightarrow> Some (mutex_release STATUS_OK (mutex_take task m s) s)
      | Some owner \<Rightarrow>
          let s = (if t_priority (sc_tcb s owner) < t_priority (sc_tcb s task)
                   then t_upd owner (t_priority_update (\<lambda>_. t_priority (sc_tcb s task))) s else s);
              (list, s) = block_on a (mtx_wait_list m) task s;
              (l, s) = obj_unlock (mtx_lock m) s
          in do {
            r \<leftarrow> task_yield s;
            Some (WBlock (m\<lparr>mtx_wait_list := list, mtx_lock := l\<rparr>) r)
          })"

definition mutex_lock :: "addr \<Rightarrow> mutex \<Rightarrow> sched \<Rightarrow> mutex wait_out option" where
  "mutex_lock a m s = do {
     (l, s) \<leftarrow> obj_lock (mtx_lock m) s;
     let m = m\<lparr>mtx_lock := l\<rparr>;
     if mtx_owner m = task_current s
     then Some (mutex_release STATUS_OK (m\<lparr>mtx_lock_count := mtx_lock_count m + 1\<rparr>) s)
     else do { task \<leftarrow> task_current s; mutex_lock_loop a task m s }
   }"

definition mutex_lock_resume :: "addr \<Rightarrow> addr \<Rightarrow> mutex \<Rightarrow> sched \<Rightarrow> mutex wait_out option" where
  "mutex_lock_resume a task m s = do {
     (l, s) \<leftarrow> obj_lock (mtx_lock m) s;
     let m = m\<lparr>mtx_lock := l\<rparr>;
     if t_wait_result (sc_tcb s task) \<noteq> STATUS_OK
     then Some (mutex_release (t_wait_result (sc_tcb s task)) m s)
     else mutex_lock_loop a task m s
   }"

definition mutex_trylock :: "mutex \<Rightarrow> sched \<Rightarrow> mutex wait_out option" where
  "mutex_trylock m s = do {
     (l, s) \<leftarrow> obj_lock (mtx_lock m) s;
     let m = m\<lparr>mtx_lock := l\<rparr>;
     if mtx_owner m = None
     then do { task \<leftarrow> task_current s; Some (mutex_release STATUS_OK (mutex_take task m s) s) }
     else Some (if mtx_owner m = task_current s
           then mutex_release STATUS_OK (m\<lparr>mtx_lock_count := mtx_lock_count m + 1\<rparr>) s
           else mutex_release STATUS_WOULD_BLOCK m s)
   }"

definition mutex_unlock :: "mutex \<Rightarrow> sched \<Rightarrow> (mutex \<times> sched) option" where
  "mutex_unlock m s = do {
     (l, s) \<leftarrow> obj_lock (mtx_lock m) s;
     if mtx_owner m \<noteq> task_current s
     then let (l, s) = obj_unlock l s in Some (m\<lparr>mtx_lock := l\<rparr>, s)
     else
       let m = m\<lparr>mtx_lock_count := mtx_lock_count m - 1\<rparr> in
       if mtx_lock_count m > 0 then let (l, s) = obj_unlock l s in Some (m\<lparr>mtx_lock := l\<rparr>, s)
       else do {
         task \<leftarrow> task_current s;
         let s = t_upd task (t_priority_update (\<lambda>_. mtx_orig_priority m)) s;
         let (w, list, s) = wait_list_remove_first (mtx_wait_list m) s;
         let s = wake w s;
         let (l, s) = obj_unlock l s;
         Some (m\<lparr>mtx_owner := None, mtx_wait_list := list, mtx_lock := l\<rparr>, s)
       }
   }"

section \<open>Event flags\<close>

record event =
  ev_flags :: u32
  ev_lock :: spinlock
  ev_wait_list :: ptr

definition event_init :: event where
  "event_init = \<lparr>ev_flags = 0, ev_lock = SPINLOCK_INIT, ev_wait_list = None\<rparr>"

definition event_match :: "u32 \<Rightarrow> u32 \<Rightarrow> bool \<Rightarrow> bool" where
  "event_match flags bits wait_all \<longleftrightarrow>
     (wait_all \<and> flags AND bits = bits) \<or> (\<not> wait_all \<and> flags AND bits \<noteq> 0)"

text \<open>One round of \<open>event_wait\<close>; the flags it reports come with the result.\<close>

definition event_wait :: "addr \<Rightarrow> u32 \<Rightarrow> bool \<Rightarrow> bool \<Rightarrow> event \<Rightarrow> sched \<Rightarrow> (u32 \<times> event wait_out) option" where
  "event_wait a bits wait_all clear e s = do {
     (l, s) \<leftarrow> obj_lock (ev_lock e) s;
     if event_match (ev_flags e) bits wait_all then
       let flags = ev_flags e;
           e = (if clear then e\<lparr>ev_flags := ev_flags e AND NOT bits\<rparr> else e);
           (l, s) = obj_unlock l s
       in Some (flags, WDone STATUS_OK (e\<lparr>ev_lock := l\<rparr>) s)
     else do {
       task \<leftarrow> task_current s;
       let (list, s) = block_on a (ev_wait_list e) task s;
       let (l, s) = obj_unlock l s;
       r \<leftarrow> task_yield s;
       Some (ev_flags e, WBlock (e\<lparr>ev_wait_list := list, ev_lock := l\<rparr>) r)
     }
   }"

text \<open>\<open>while ((waiter = wait_list_remove_first(...)) != NULL)\<close>; \<open>None\<close> when the list never ends.\<close>

partial_function (option) wake_all :: "ptr \<Rightarrow> sched \<Rightarrow> (ptr \<times> sched) option" where
  "wake_all list s =
     (let (w, list', s') = wait_list_remove_first list s
      in if w \<noteq> None then wake_all list' (wake w s') else Some (list', s'))"

definition event_set :: "u32 \<Rightarrow> event \<Rightarrow> sched \<Rightarrow> (event \<times> sched) option" where
  "event_set bits e s = do {
     (l, s) \<leftarrow> obj_lock (ev_lock e) s;
     (list, s) \<leftarrow> wake_all (ev_wait_list e) s;
     let (l, s) = obj_unlock l s;
     Some (e\<lparr>ev_flags := ev_flags e OR bits, ev_wait_list := list, ev_lock := l\<rparr>, s)
   }"

definition event_clear :: "u32 \<Rightarrow> event \<Rightarrow> sched \<Rightarrow> (event \<times> sched) option" where
  "event_clear bits e s = do {
     (l, s) \<leftarrow> obj_lock (ev_lock e) s;
     let (l, s) = obj_unlock l s;
     Some (e\<lparr>ev_flags := ev_flags e AND NOT bits, ev_lock := l\<rparr>, s)
   }"

section \<open>Message queues\<close>

text \<open>Sizes and indices are natural numbers: they stay below \<open>capacity * msg_size\<close>, the buffer's size.\<close>

record msgqueue =
  mq_buffer :: "nat \<Rightarrow> u8"    \<comment> \<open>the bytes at \<open>buffer\<close>, by offset\<close>
  mq_msg_size :: nat
  mq_capacity :: nat
  mq_head :: nat
  mq_tail :: nat
  mq_count :: nat
  mq_lock :: spinlock
  mq_send_wait :: ptr
  mq_recv_wait :: ptr

definition msgq_init :: "(nat \<Rightarrow> u8) option \<Rightarrow> nat \<Rightarrow> nat \<Rightarrow> msgqueue \<Rightarrow> status \<times> msgqueue" where
  "msgq_init buffer msg_size capacity mq =
     (case buffer of
        None \<Rightarrow> (STATUS_INVALID, mq)
      | Some b \<Rightarrow>
          if msg_size = 0 \<or> capacity = 0 then (STATUS_INVALID, mq)
          else (STATUS_OK, \<lparr>mq_buffer = b, mq_msg_size = msg_size, mq_capacity = capacity, mq_head = 0,
                  mq_tail = 0, mq_count = 0, mq_lock = SPINLOCK_INIT, mq_send_wait = None,
                  mq_recv_wait = None\<rparr>))"

text \<open>The two copy loops; \<open>None\<close> when the message is shorter than \<open>msg_size\<close>.\<close>

fun msgq_copy_in :: "nat \<Rightarrow> nat \<Rightarrow> u8 list \<Rightarrow> (nat \<Rightarrow> u8) \<Rightarrow> (nat \<Rightarrow> u8) option" where
  "msgq_copy_in 0 dst src f = Some f"
| "msgq_copy_in (Suc n) dst [] f = None"
| "msgq_copy_in (Suc n) dst (b # bs) f = msgq_copy_in n (dst + 1) bs (f(dst := b))"

fun msgq_copy_out :: "nat \<Rightarrow> nat \<Rightarrow> (nat \<Rightarrow> u8) \<Rightarrow> u8 list" where
  "msgq_copy_out 0 src f = []"
| "msgq_copy_out (Suc n) src f = f src # msgq_copy_out n (src + 1) f"

definition msgq_release :: "status \<Rightarrow> msgqueue \<Rightarrow> sched \<Rightarrow> msgqueue wait_out" where
  "msgq_release st mq s =
     (let (l, s) = obj_unlock (mq_lock mq) s in WDone st (mq\<lparr>mq_lock := l\<rparr>) s)"

definition msgq_send :: "addr \<Rightarrow> u8 list \<Rightarrow> u32 \<Rightarrow> msgqueue \<Rightarrow> sched \<Rightarrow> msgqueue wait_out option" where
  "msgq_send a msg timeout mq s = do {
     (l, s) \<leftarrow> obj_lock (mq_lock mq) s;
     let mq = mq\<lparr>mq_lock := l\<rparr>;
     if mq_capacity mq \<le> mq_count mq then
       if timeout = 0 then Some (msgq_release STATUS_WOULD_BLOCK mq s)
       else do {
         task \<leftarrow> task_current s;
         let (list, s) = block_on a (mq_send_wait mq) task s;
         let (l, s) = obj_unlock (mq_lock mq) s;
         r \<leftarrow> task_yield s;
         Some (WBlock (mq\<lparr>mq_send_wait := list, mq_lock := l\<rparr>) r)
       }
     else do {
       b \<leftarrow> msgq_copy_in (mq_msg_size mq) (mq_tail mq * mq_msg_size mq) msg (mq_buffer mq);
       let mq = mq\<lparr>mq_buffer := b, mq_tail := (mq_tail mq + 1) mod mq_capacity mq,
                   mq_count := mq_count mq + 1\<rparr>;
       let (w, list, s) = wait_list_remove_first (mq_recv_wait mq) s;
       Some (msgq_release STATUS_OK (mq\<lparr>mq_recv_wait := list\<rparr>) (wake w s))
     }
   }"

definition msgq_recv :: "addr \<Rightarrow> u32 \<Rightarrow> msgqueue \<Rightarrow> sched \<Rightarrow> (u8 list \<times> msgqueue wait_out) option" where
  "msgq_recv a timeout mq s = do {
     (l, s) \<leftarrow> obj_lock (mq_lock mq) s;
     let mq = mq\<lparr>mq_lock := l\<rparr>;
     if mq_count mq = 0 then
       if timeout = 0 then Some ([], msgq_release STATUS_WOULD_BLOCK mq s)
       else do {
         task \<leftarrow> task_current s;
         let (list, s) = block_on a (mq_recv_wait mq) task s;
         let (l, s) = obj_unlock (mq_lock mq) s;
         r \<leftarrow> task_yield s;
         Some ([], WBlock (mq\<lparr>mq_recv_wait := list, mq_lock := l\<rparr>) r)
       }
     else
       let msg = msgq_copy_out (mq_msg_size mq) (mq_head mq * mq_msg_size mq) (mq_buffer mq);
           mq = mq\<lparr>mq_head := (mq_head mq + 1) mod mq_capacity mq, mq_count := mq_count mq - 1\<rparr>;
           (w, list, s) = wait_list_remove_first (mq_send_wait mq) s
       in Some (msg, msgq_release STATUS_OK (mq\<lparr>mq_send_wait := list\<rparr>) (wake w s))
   }"

end
