(* ===== verification/Sched_Inv.thy ===== *)
theory Sched_Inv
  imports Sched
begin

text \<open>
  Circular doubly linked lists, the invariant of the ready lists, and what the list operations and
  \<open>schedule_locked\<close> do to it.
\<close>

section \<open>Circular doubly linked lists\<close>

definition cdll :: "('a \<Rightarrow> 'a option) \<Rightarrow> ('a \<Rightarrow> 'a option) \<Rightarrow> 'a option \<Rightarrow> 'a list \<Rightarrow> bool" where
  "cdll nx pv p xs \<longleftrightarrow>
     (if xs = [] then p = None else dseg nx pv (Some (last xs)) p xs (Some (last xs)) p)"

lemma cdll_Nil [simp]: "cdll nx pv p [] \<longleftrightarrow> p = None"
  by (simp add: cdll_def)

lemma cdll_None [simp]: "cdll nx pv None xs \<longleftrightarrow> xs = []"
  by (cases xs) (auto simp: cdll_def)

lemma cdll_head: "cdll nx pv p xs \<Longrightarrow> p = (if xs = [] then None else Some (hd xs))"
  by (auto simp: cdll_def dest: dseg_ends(2))

lemma cdll_head_Some: "cdll nx pv (Some h) xs \<Longrightarrow> \<exists>ys. xs = h # ys"
  by (cases xs) (auto simp: cdll_def)

lemma cdll_cong:
  "(\<And>x. x \<in> set xs \<Longrightarrow> nx x = nx' x) \<Longrightarrow> (\<And>x. x \<in> set xs \<Longrightarrow> pv x = pv' x) \<Longrightarrow>
     cdll nx pv p xs = cdll nx' pv' p xs"
  using dseg_cong[of xs nx nx' pv pv'] by (simp add: cdll_def)

lemma cdll_prev_head: "cdll nx pv p (h # xs) \<Longrightarrow> pv h = Some (last (h # xs))"
  by (simp add: cdll_def)

lemma cdll_add:
  assumes c: "cdll nx pv (Some h) xs" and d: "distinct xs" and a: "a \<notin> set xs"
    and nx': "\<And>x. x \<in> set xs \<Longrightarrow> x \<noteq> last xs \<Longrightarrow> nx' x = nx x" "nx' (last xs) = Some a" "nx' a = Some h"
    and pv': "\<And>x. x \<in> set xs \<Longrightarrow> x \<noteq> h \<Longrightarrow> pv' x = pv x" "pv' h = Some a" "pv' a = Some (last xs)"
  shows "cdll nx' pv' (Some h) (xs @ [a])"
proof -
  obtain ys where xs: "xs = h # ys" using cdll_head_Some[OF c] by blast
  then have ne: "xs \<noteq> []" by simp
  have seg: "dseg nx pv (Some (last xs)) (Some h) xs (Some (last xs)) (Some h)"
    using c ne by (simp add: cdll_def)
  have "dseg nx' pv' (Some a) (Some h) xs (Some (last xs)) (Some a)"
  proof (rule dseg_retarget[OF seg])
    show "nx' x = nx x" if "x \<in> set (butlast xs)" for x
      using that last_notin_butlast[OF d ne] by (intro nx'(1)) (auto dest: in_set_butlastD)
    show "pv' x = pv x" if "x \<in> set (tl xs)" for x
      using that d xs by (intro pv'(1)) auto
  qed (use ne nx' pv' xs in simp_all)
  then show ?thesis using nx'(3) pv'(3) by (auto simp: cdll_def dseg_append)
qed

lemma cdll_neighbours:
  assumes c: "cdll nx pv p (ys @ a # zs)" and ne: "ys @ zs \<noteq> []"
  shows "pv a = Some (if ys = [] then last zs else last ys)" "nx a = Some (if zs = [] then hd ys else hd zs)"
proof -
  have head: "p = Some (hd (ys @ a # zs))" using cdll_head[OF c] by simp
  obtain m r where seg: "dseg nx pv (Some (last (a # zs))) p ys m r" "dseg nx pv m r (a # zs) (Some (last (a # zs))) p"
    using c by (auto simp: cdll_def dseg_append split: if_splits)
  show "pv a = Some (if ys = [] then last zs else last ys)"
    using seg dseg_ends(1,3)[OF seg(1)] ne by (auto split: if_splits)
  have "dseg nx pv (Some a) (nx a) zs (Some (last (a # zs))) p" using seg(2) by simp
  from dseg_ends(2,4)[OF this] show "nx a = Some (if zs = [] then hd ys else hd zs)"
    using head ne by auto
qed

lemma cdll_remove:
  assumes c: "cdll nx pv p (ys @ a # zs)" and d: "distinct (ys @ a # zs)" and ne: "ys @ zs \<noteq> []"
    and nx': "\<And>x. x \<in> set (ys @ zs) \<Longrightarrow> Some x \<noteq> pv a \<Longrightarrow> nx' x = nx x" "\<And>x. pv a = Some x \<Longrightarrow> nx' x = nx a"
    and pv': "\<And>x. x \<in> set (ys @ zs) \<Longrightarrow> Some x \<noteq> nx a \<Longrightarrow> pv' x = pv x" "\<And>x. nx a = Some x \<Longrightarrow> pv' x = pv a"
  shows "cdll nx' pv' (if p = Some a then nx a else p) (ys @ zs)"
proof -
  have head: "p = Some (hd (ys @ a # zs))" using cdll_head[OF c] by simp
  note nb = cdll_neighbours[OF c ne]
  obtain m r where seg: "dseg nx pv (Some (last (a # zs))) p ys m r" "dseg nx pv m r (a # zs) (Some (last (a # zs))) p"
    using c by (auto simp: cdll_def dseg_append split: if_splits)
  have r: "r = Some a" using seg(2) by simp
  have segz: "dseg nx pv (Some a) (nx a) zs (Some (last (a # zs))) p" using seg(2) by simp
  have dy: "distinct ys" "distinct zs" using d by auto
  have disj: "set ys \<inter> set zs = {}" using d by auto
  have apart: "ys \<noteq> [] \<Longrightarrow> last ys \<notin> set zs" "zs \<noteq> [] \<Longrightarrow> hd zs \<notin> set ys"
    using disj last_in_set[of ys] hd_in_set[of zs] by blast+
  define q where "q = (if p = Some a then nx a else p)"
  have q: "q = Some (hd (ys @ zs))" using head nb(2) d by (cases ys) (auto simp: q_def)
  have left: "dseg nx' pv' (Some (last (ys @ zs))) (if ys = [] then nx a else p) ys
      (if ys = [] then Some (last (ys @ zs)) else m) (nx a)" if y: "ys \<noteq> []"
  proof (rule dseg_retarget[OF seg(1)])
    show "nx' x = nx x" if "x \<in> set (butlast ys)" for x
      using that last_notin_butlast[OF dy(1)] y nb(1) by (intro nx'(1)) (auto dest: in_set_butlastD)
    show "pv' x = pv x" if "x \<in> set (tl ys)" for x
      using that hd_notin_tl[OF dy(1)] y nb(2) apart by (intro pv'(1)) (auto dest: list.set_sel(2))
    show "nx' (last ys) = nx a" using nb(1) y nx'(2) by simp
    have phd: "pv (hd ys) = Some (last (a # zs))" using dseg_ends(5)[OF seg(1)] y by simp
    show "pv' (hd ys) = Some (last (ys @ zs))"
    proof (cases "zs = []")
      case True
      then show ?thesis using nb y pv'(2) by simp
    next
      case False
      then have "nx a \<noteq> Some (hd ys)" using nb(2) d hd_in_set[OF y] hd_in_set[OF False] by force
      then show ?thesis using phd False pv'(1)[of "hd ys"] y by simp
    qed
  qed (use y in simp_all)
  have right: "dseg nx' pv' (Some (last (zs @ ys))) (nx a) zs (Some (last zs)) q" if z: "zs \<noteq> []"
  proof (rule dseg_retarget[OF segz])
    show "nx' x = nx x" if "x \<in> set (butlast zs)" for x
      using that last_notin_butlast[OF dy(2)] z nb(1) apart by (intro nx'(1)) (auto dest: in_set_butlastD)
    show "pv' x = pv x" if "x \<in> set (tl zs)" for x
      using that hd_notin_tl[OF dy(2)] z nb(2) by (intro pv'(1)) (auto dest: list.set_sel(2))
    show "pv' (hd zs) = Some (last (zs @ ys))" using nb z pv'(2)[of "hd zs"] by auto
    show "nx' (last zs) = q"
    proof (cases "ys = []")
      case True
      then show ?thesis using nb(1) nx'(2) head by (simp add: q_def)
    next
      case False
      then have "pv a \<noteq> Some (last zs)" using nb(1) d last_in_set[OF z] last_in_set[OF False] by force
      moreover have "nx (last zs) = p"
        using segz z by (cases zs rule: rev_cases) (auto simp: dseg_append)
      ultimately show ?thesis using nx'(1)[of "last zs"] z head False d by (auto simp: q_def)
    qed
  qed (use z in simp_all)
  show ?thesis
  proof (cases "ys = []")
    case True
    then have "q = nx a" using q nb(2) ne by auto
    then show ?thesis using right True ne by (simp add: cdll_def q_def[symmetric])
  next
    case False
    have m: "m = Some (last ys)" using dseg_ends(1)[OF seg(1) False] .
    have pq: "p = q" using head q False by simp
    have pa: "p \<noteq> Some a" using head False d by (cases ys) auto
    show ?thesis
    proof (cases "zs = []")
      case True
      then show ?thesis using left[OF False] False m q nb(2) pq pa by (auto simp: cdll_def)
    next
      case z: False
      then show ?thesis using left[OF False] right[OF z] False m pq pa
        by (auto simp: cdll_def dseg_append)
    qed
  qed
qed

section \<open>The ready lists\<close>

text \<open>
  \<open>rl p\<close> lists the tasks of priority \<open>p\<close> in the order they are taken. The invariant speaks of the
  control blocks and list heads only, so it is not affected by the other parts of the state.
\<close>

definition lists_ok :: "(addr \<Rightarrow> tcb) \<Rightarrow> (nat \<Rightarrow> ptr) \<Rightarrow> addr \<Rightarrow> (nat \<Rightarrow> addr list) \<Rightarrow> bool" where
  "lists_ok T R idle rl \<longleftrightarrow>
     (\<forall>p. if p < CONFIG_MAX_PRIORITY
          then cdll (\<lambda>a. t_next (T a)) (\<lambda>a. t_prev (T a)) (R p) (rl p) \<and> distinct (rl p)
          else rl p = []) \<and>
     (\<forall>p. \<forall>a \<in> set (rl p). unat (t_priority (T a)) = p \<and> t_state (T a) = TASK_STATE_READY \<and> a \<noteq> idle)"

abbreviation ready_inv :: "sched \<Rightarrow> (nat \<Rightarrow> addr list) \<Rightarrow> bool" where
  "ready_inv s rl \<equiv> lists_ok (sc_tcb s) (sc_ready s) (sc_idle s) rl"

text \<open>A control block without its links.\<close>

definition t_core :: "tcb \<Rightarrow> tcb" where
  "t_core t = t\<lparr>t_next := None, t_prev := None\<rparr>"

lemma t_core_eqD:
  assumes "t_core t = t_core t'"
  shows "t_priority t = t_priority t'" "t_state t = t_state t'" "t_wait_obj t = t_wait_obj t'"
    "t_wake_tick t = t_wake_tick t'" "t_time_slice t = t_time_slice t'"
    "t_remaining_slice t = t_remaining_slice t'" "t_wait_result t = t_wait_result t'"
    "t_sp t = t_sp t'" "t_regs t = t_regs t'" "t_elr t = t_elr t'" "t_spsr t = t_spsr t'" "t_id t = t_id t'"
  using arg_cong[OF assms, of t_priority] arg_cong[OF assms, of t_state] arg_cong[OF assms, of t_wait_obj]
    arg_cong[OF assms, of t_wake_tick] arg_cong[OF assms, of t_time_slice]
    arg_cong[OF assms, of t_remaining_slice] arg_cong[OF assms, of t_wait_result]
    arg_cong[OF assms, of t_sp] arg_cong[OF assms, of t_regs] arg_cong[OF assms, of t_elr]
    arg_cong[OF assms, of t_spsr] arg_cong[OF assms, of t_id]
  by (simp_all add: t_core_def)

lemma t_core_links [simp]:
  "t_core (t\<lparr>t_next := n\<rparr>) = t_core t" "t_core (t\<lparr>t_prev := n\<rparr>) = t_core t"
  by (simp_all add: t_core_def)

lemma t_core_state: "t_core t = t_core t' \<Longrightarrow> t_core (t\<lparr>t_state := x\<rparr>) = t_core (t'\<lparr>t_state := x\<rparr>)"
  unfolding t_core_def by (cases t; cases t') simp

lemma t_upd_simps [simp]:
  "sc_ready (t_upd a f s) = sc_ready s" "sc_current (t_upd a f s) = sc_current s"
  "sc_table (t_upd a f s) = sc_table s" "sc_ticks (t_upd a f s) = sc_ticks s"
  "sc_running (t_upd a f s) = sc_running s" "sc_lock (t_upd a f s) = sc_lock s"
  "sc_cpu (t_upd a f s) = sc_cpu s" "sc_idle (t_upd a f s) = sc_idle s"
  "sc_wrapper_addr (t_upd a f s) = sc_wrapper_addr s" "sc_schedule_ra (t_upd a f s) = sc_schedule_ra s"
  "sc_tcb (t_upd a f s) = (sc_tcb s)(a := f (sc_tcb s a))"
  by (simp_all add: t_upd_def)

lemma lists_okD:
  assumes "lists_ok T R idle rl"
  shows "p < CONFIG_MAX_PRIORITY \<Longrightarrow> cdll (\<lambda>a. t_next (T a)) (\<lambda>a. t_prev (T a)) (R p) (rl p)"
    "distinct (rl p)" "a \<in> set (rl p) \<Longrightarrow> unat (t_priority (T a)) = p"
    "a \<in> set (rl p) \<Longrightarrow> t_state (T a) = TASK_STATE_READY" "a \<in> set (rl p) \<Longrightarrow> a \<noteq> idle"
    "a \<in> set (rl p) \<Longrightarrow> p < CONFIG_MAX_PRIORITY" "\<not> p < CONFIG_MAX_PRIORITY \<Longrightarrow> rl p = []"
proof -
  have q: "if p < CONFIG_MAX_PRIORITY
      then cdll (\<lambda>a. t_next (T a)) (\<lambda>a. t_prev (T a)) (R p) (rl p) \<and> distinct (rl p)
      else rl p = []" for p using assms unfolding lists_ok_def by blast
  show "p < CONFIG_MAX_PRIORITY \<Longrightarrow> cdll (\<lambda>a. t_next (T a)) (\<lambda>a. t_prev (T a)) (R p) (rl p)"
    using q[of p] by simp
  show "distinct (rl p)" "a \<in> set (rl p) \<Longrightarrow> p < CONFIG_MAX_PRIORITY" "\<not> p < CONFIG_MAX_PRIORITY \<Longrightarrow> rl p = []"
    using q[of p] by (auto split: if_splits)
qed (use assms in \<open>auto simp: lists_ok_def\<close>)

lemma lists_ok_same_prio:
  "lists_ok T R idle rl \<Longrightarrow> a \<in> set (rl p) \<Longrightarrow> a \<in> set (rl q) \<Longrightarrow> p = q"
  using lists_okD(3) by metis

text \<open>A task with a priority in range is queued only on the list of its own priority.\<close>

lemma lists_ok_frame:
  assumes ok: "lists_ok T R idle rl"
    and "\<And>p a. a \<in> set (rl p) \<Longrightarrow> t_next (T' a) = t_next (T a) \<and> t_prev (T' a) = t_prev (T a) \<and>
        t_priority (T' a) = t_priority (T a) \<and> t_state (T' a) = t_state (T a)"
  shows "lists_ok T' R idle rl"
proof -
  have "cdll (\<lambda>a. t_next (T' a)) (\<lambda>a. t_prev (T' a)) (R p) (rl p) =
      cdll (\<lambda>a. t_next (T a)) (\<lambda>a. t_prev (T a)) (R p) (rl p)" for p
    by (rule cdll_cong) (simp_all add: assms(2))
  then show ?thesis using ok assms(2) by (simp add: lists_ok_def)
qed

lemma lists_ok_upd:
  assumes "lists_ok T R idle rl" and "\<And>p. a \<notin> set (rl p)"
  shows "lists_ok (T(a := t)) R idle rl"
  by (rule lists_ok_frame[OF assms(1)]) (use assms(2) in auto)

text \<open>Replacing one list.\<close>

lemma lists_ok_change:
  assumes ok: "lists_ok T R idle rl" and p: "p < CONFIG_MAX_PRIORITY"
    and new: "cdll (\<lambda>a. t_next (T' a)) (\<lambda>a. t_prev (T' a)) q xs" "distinct xs"
    and elems: "\<And>a. a \<in> set xs \<Longrightarrow> unat (t_priority (T' a)) = p \<and> t_state (T' a) = TASK_STATE_READY \<and> a \<noteq> idle"
    and other: "\<And>p' a. p' \<noteq> p \<Longrightarrow> a \<in> set (rl p') \<Longrightarrow> T' a = T a"
  shows "lists_ok T' (R(p := q)) idle (rl(p := xs))"
proof -
  have "cdll (\<lambda>a. t_next (T' a)) (\<lambda>a. t_prev (T' a)) (R p') (rl p') =
      cdll (\<lambda>a. t_next (T a)) (\<lambda>a. t_prev (T a)) (R p') (rl p')" if "p' \<noteq> p" for p'
    by (rule cdll_cong) (use other[OF that] in auto)
  then show ?thesis using ok p new elems other unfolding lists_ok_def by auto
qed

lemma ready_list_add_ok:
  assumes inv: "ready_inv s rl" and pr: "unat (t_priority (sc_tcb s a)) = p" "p < CONFIG_MAX_PRIORITY"
    and a: "a \<notin> set (rl p)" "a \<noteq> sc_idle s"
  shows "\<exists>T R. ready_list_add a s = Some (s\<lparr>sc_tcb := T, sc_ready := R\<rparr>) \<and>
    lists_ok T R (sc_idle s) (rl(p := rl p @ [a])) \<and>
    (\<forall>b. t_core (T b) = t_core (if b = a then (sc_tcb s a)\<lparr>t_state := TASK_STATE_READY\<rparr> else sc_tcb s b))"
proof -
  let ?T = "sc_tcb s"
  have c: "cdll (\<lambda>a. t_next (?T a)) (\<lambda>a. t_prev (?T a)) (sc_ready s p) (rl p)" and d: "distinct (rl p)"
    using lists_okD(1,2)[OF inv] pr by auto
  have notin: "a \<notin> set (rl p')" for p' using lists_okD(3)[OF inv] pr a(1) by metis
  show ?thesis
  proof (cases "sc_ready s p")
    case None
    then have Nil: "rl p = []" using c by simp
    define T where "T = ?T(a := (?T a)\<lparr>t_state := TASK_STATE_READY, t_next := Some a, t_prev := Some a\<rparr>)"
    have run: "ready_list_add a s = Some (s\<lparr>sc_tcb := T, sc_ready := (sc_ready s)(p := Some a)\<rparr>)"
      using None pr by (simp add: ready_list_add_def Let_def t_upd_def T_def)
    have "lists_ok T ((sc_ready s)(p := Some a)) (sc_idle s) (rl(p := [a]))"
      by (rule lists_ok_change[OF inv pr(2)]) (use notin pr a in \<open>auto simp: T_def cdll_def\<close>)
    then show ?thesis using run Nil by (intro exI[of _ T] exI conjI) (auto simp: T_def t_core_def)
  next
    case (Some h)
    then obtain ys where xs: "rl p = h # ys" using c cdll_head_Some by metis
    define l where "l = last (rl p)"
    have l: "t_prev (?T h) = Some l" using cdll_prev_head[of _ _ _ h ys] c xs by (simp add: l_def)
    have ne: "h \<noteq> a" "l \<noteq> a" using a xs last_in_set[of "rl p"] by (auto simp: l_def)
    define T where "T = (\<lambda>b. if b = a then (?T a)\<lparr>t_state := TASK_STATE_READY, t_next := Some h, t_prev := Some l\<rparr>
        else (let t = (if b = l then (?T b)\<lparr>t_next := Some a\<rparr> else ?T b)
              in if b = h then t\<lparr>t_prev := Some a\<rparr> else t))"
    have run: "ready_list_add a s = Some (s\<lparr>sc_tcb := T, sc_ready := sc_ready s\<rparr>)"
      using Some pr l ne by (auto simp: ready_list_add_def Let_def t_upd_def T_def fun_eq_iff intro!: sched.equality)
    have "lists_ok T ((sc_ready s)(p := Some h)) (sc_idle s) (rl(p := rl p @ [a]))"
    proof (rule lists_ok_change[OF inv pr(2)])
      show "cdll (\<lambda>a. t_next (T a)) (\<lambda>a. t_prev (T a)) (Some h) (rl p @ [a])"
        by (rule cdll_add[OF c[unfolded Some] d a(1)]) (use ne a(1) in \<open>auto simp: T_def Let_def l_def\<close>)
      show "unat (t_priority (T b)) = p \<and> t_state (T b) = TASK_STATE_READY \<and> b \<noteq> sc_idle s"
        if "b \<in> set (rl p @ [a])" for b
        using that lists_okD(3-5)[OF inv, of b p] pr a by (auto simp: T_def Let_def)
      show "T b = ?T b" if "p' \<noteq> p" "b \<in> set (rl p')" for p' b
      proof -
        have "b \<notin> set (rl p)" using lists_ok_same_prio[OF inv that(2)] that(1) by metis
        then have "b \<noteq> h" "b \<noteq> l" "b \<noteq> a" using xs last_in_set[of "rl p"] notin that by (auto simp: l_def)
        then show ?thesis by (simp add: T_def)
      qed
    qed (use d a in simp)
    moreover have "(sc_ready s)(p := Some h) = sc_ready s" using Some by auto
    ultimately show ?thesis using run by (intro exI[of _ T] exI conjI) (auto simp: T_def Let_def)
  qed
qed

lemma ready_list_remove_ok:
  assumes inv: "ready_inv s rl" and a: "rl p = ys @ a # zs"
  shows "\<exists>T R. ready_list_remove a s = Some (s\<lparr>sc_tcb := T, sc_ready := R\<rparr>) \<and>
    lists_ok T R (sc_idle s) (rl(p := ys @ zs)) \<and> (\<forall>b. t_core (T b) = t_core (sc_tcb s b)) \<and>
    (\<forall>b. b \<notin> set (rl p) \<longrightarrow> T b = sc_tcb s b)"
proof -
  let ?T = "sc_tcb s"
  have ain: "a \<in> set (rl p)" using a by simp
  note pr = lists_okD(3,6)[OF inv ain]
  have c: "cdll (\<lambda>a. t_next (?T a)) (\<lambda>a. t_prev (?T a)) (sc_ready s p) (ys @ a # zs)" and d: "distinct (ys @ a # zs)"
    using lists_okD(1,2)[OF inv, of p] pr a by auto
  have elems: "unat (t_priority (?T b)) = p \<and> t_state (?T b) = TASK_STATE_READY \<and> b \<noteq> sc_idle s"
    if "b \<in> set (ys @ zs)" for b using that lists_okD(3-5)[OF inv, of b p] a by auto
  have other: "b \<notin> set (ys @ a # zs)" if "p' \<noteq> p" "b \<in> set (rl p')" for p' b
    using lists_ok_same_prio[OF inv that(2), of p] that(1) a by auto
  show ?thesis
  proof (cases "ys @ zs = []")
    case True
    then have "t_next (?T a) = Some a" using c by (auto simp: cdll_def)
    define T where "T = ?T(a := (?T a)\<lparr>t_next := None, t_prev := None\<rparr>)"
    have run: "ready_list_remove a s = Some (s\<lparr>sc_tcb := T, sc_ready := (sc_ready s)(p := None)\<rparr>)"
      using \<open>t_next (?T a) = Some a\<close> pr by (simp add: ready_list_remove_def Let_def t_upd_def T_def)
    have "lists_ok T ((sc_ready s)(p := None)) (sc_idle s) (rl(p := []))"
      by (rule lists_ok_change[OF inv pr(2)]) (use other in \<open>auto simp: T_def\<close>)
    then show ?thesis using run True a by (intro exI[of _ T] exI conjI) (auto simp: T_def)
  next
    case False
    note nb = cdll_neighbours[OF c False]
    define P where "P = (if ys = [] then last zs else last ys)"
    define N where "N = (if zs = [] then hd ys else hd zs)"
    have PN: "t_prev (?T a) = Some P" "t_next (?T a) = Some N" using nb by (simp_all add: P_def N_def)
    have mem: "P \<in> set (ys @ zs)" "N \<in> set (ys @ zs)" using False by (auto simp: P_def N_def)
    then have ne: "P \<noteq> a" "N \<noteq> a" using d by auto
    define T where "T = (\<lambda>b. if b = a then (?T a)\<lparr>t_next := None, t_prev := None\<rparr>
        else (let t = (if b = P then (?T b)\<lparr>t_next := Some N\<rparr> else ?T b)
              in if b = N then t\<lparr>t_prev := Some P\<rparr> else t))"
    define q where "q = (if sc_ready s p = Some a then Some N else sc_ready s p)"
    have run: "ready_list_remove a s = Some (s\<lparr>sc_tcb := T, sc_ready := (sc_ready s)(p := q)\<rparr>)"
      using pr PN ne by (auto simp: ready_list_remove_def Let_def t_upd_def T_def q_def fun_eq_iff intro!: sched.equality)
    have "lists_ok T ((sc_ready s)(p := q)) (sc_idle s) (rl(p := ys @ zs))"
    proof (rule lists_ok_change[OF inv pr(2)])
      have q': "q = (if sc_ready s p = Some a then t_next (?T a) else sc_ready s p)" using PN by (simp add: q_def)
      show "cdll (\<lambda>a. t_next (T a)) (\<lambda>a. t_prev (T a)) q (ys @ zs)"
        unfolding q' by (rule cdll_remove[OF c d False]) (use PN ne d in \<open>auto simp: T_def Let_def\<close>)
      show "unat (t_priority (T b)) = p \<and> t_state (T b) = TASK_STATE_READY \<and> b \<noteq> sc_idle s"
        if "b \<in> set (ys @ zs)" for b
        using elems[OF that] by (auto simp: T_def Let_def)
      show "T b = ?T b" if "p' \<noteq> p" "b \<in> set (rl p')" for p' b
        using other[OF that] mem by (auto simp: T_def Let_def)
    qed (use d in auto)
    then show ?thesis using run mem a by (intro exI[of _ T] exI conjI) (auto simp: T_def Let_def)
  qed
qed

lemma highest_ready_below_Some:
  "highest_ready_below r n = Some a \<longleftrightarrow>
     (\<exists>p < n. r p = Some a \<and> (\<forall>q. p < q \<and> q < n \<longrightarrow> r q = None))"
proof (induction n)
  case (Suc n)
  then show ?case by (auto split: option.split simp: less_Suc_eq)
qed simp

lemma highest_ready_below_None: "highest_ready_below r n = None \<longleftrightarrow> (\<forall>p < n. r p = None)"
  by (induction n) (auto split: option.split simp: less_Suc_eq)

text \<open>The abstract choice: the head of the highest non-empty list, with that list's tail left.\<close>

definition highest :: "(nat \<Rightarrow> addr list) \<Rightarrow> nat option" where
  "highest rl = (if \<forall>p < CONFIG_MAX_PRIORITY. rl p = [] then None
                 else Some (Max {p. p < CONFIG_MAX_PRIORITY \<and> rl p \<noteq> []}))"

lemma highest_Some:
  "highest rl = Some p \<longleftrightarrow> p < CONFIG_MAX_PRIORITY \<and> rl p \<noteq> [] \<and>
     (\<forall>q. p < q \<and> q < CONFIG_MAX_PRIORITY \<longrightarrow> rl q = [])"
proof -
  let ?S = "{p. p < CONFIG_MAX_PRIORITY \<and> rl p \<noteq> []}"
  have fin: "finite ?S" by simp
  show ?thesis
  proof (cases "?S = {}")
    case True
    then show ?thesis by (auto simp: highest_def)
  next
    case False
    then have "highest rl = Some (Max ?S)" unfolding highest_def by auto
    moreover have "Max ?S = p \<longleftrightarrow> p \<in> ?S \<and> (\<forall>q \<in> ?S. q \<le> p)"
      using Max_eq_iff[OF fin False] by simp
    ultimately show ?thesis by (auto simp: not_le)
  qed
qed

lemma highest_None: "highest rl = None \<longleftrightarrow> (\<forall>p < CONFIG_MAX_PRIORITY. rl p = [])"
  by (simp add: highest_def)

lemma get_highest_ready_ok:
  assumes "ready_inv s rl"
  shows "get_highest_ready s = (case highest rl of Some p \<Rightarrow> hd (rl p) | None \<Rightarrow> sc_idle s)"
proof -
  have R: "sc_ready s p = (if rl p = [] then None else Some (hd (rl p)))" if "p < CONFIG_MAX_PRIORITY" for p
    using cdll_head[OF lists_okD(1)[OF assms that]] by simp
  show ?thesis
  proof (cases "highest rl")
    case None
    then have "highest_ready_below (sc_ready s) CONFIG_MAX_PRIORITY = None"
      by (simp add: highest_ready_below_None highest_None R)
    then show ?thesis using None by (simp add: get_highest_ready_def)
  next
    case (Some p)
    then have "highest_ready_below (sc_ready s) CONFIG_MAX_PRIORITY = Some (hd (rl p))"
      unfolding highest_ready_below_Some highest_Some by (intro exI[of _ p]) (auto simp: R)
    then show ?thesis using Some by (simp add: get_highest_ready_def)
  qed
qed

section \<open>Switching\<close>

text \<open>A control block without its links and its saved context.\<close>

definition t_info :: "tcb \<Rightarrow> tcb" where
  "t_info t = t\<lparr>t_next := None, t_prev := None, t_sp := 0, t_regs := (\<lambda>_. 0), t_elr := 0, t_spsr := 0\<rparr>"

lemma t_info_eqD:
  assumes "t_info t = t_info t'"
  shows "t_priority t = t_priority t'" "t_state t = t_state t'" "t_wait_obj t = t_wait_obj t'"
    "t_wake_tick t = t_wake_tick t'" "t_time_slice t = t_time_slice t'"
    "t_remaining_slice t = t_remaining_slice t'" "t_wait_result t = t_wait_result t'" "t_id t = t_id t'"
  using arg_cong[OF assms, of t_priority] arg_cong[OF assms, of t_state] arg_cong[OF assms, of t_wait_obj]
    arg_cong[OF assms, of t_wake_tick] arg_cong[OF assms, of t_time_slice]
    arg_cong[OF assms, of t_remaining_slice] arg_cong[OF assms, of t_wait_result] arg_cong[OF assms, of t_id]
  by (simp_all add: t_info_def)

lemma t_core_info: "t_core t = t_core t' \<Longrightarrow> t_info t = t_info t'"
  unfolding t_core_def t_info_def by (cases t; cases t') simp

lemma t_info_state: "t_info t = t_info t' \<Longrightarrow> t_info (t\<lparr>t_state := x\<rparr>) = t_info (t'\<lparr>t_state := x\<rparr>)"
  unfolding t_info_def by (cases t; cases t') simp

lemma t_info_context [simp]:
  "t_info (t\<lparr>t_sp := a, t_regs := b, t_elr := c, t_spsr := d\<rparr>) = t_info t"
  "t_info (t\<lparr>t_next := n\<rparr>) = t_info t" "t_info (t\<lparr>t_prev := n\<rparr>) = t_info t"
  by (simp_all add: t_info_def)

definition take_highest :: "(nat \<Rightarrow> addr list) \<Rightarrow> addr \<Rightarrow> addr \<times> (nat \<Rightarrow> addr list)" where
  "take_highest rl idle =
     (case highest rl of None \<Rightarrow> (idle, rl) | Some p \<Rightarrow> (hd (rl p), rl(p := tl (rl p))))"

lemma take_highest_Some:
  "highest rl = Some p \<Longrightarrow> rl p \<noteq> [] \<and> take_highest rl idle = (hd (rl p), rl(p := tl (rl p)))"
  by (simp add: take_highest_def) (simp add: highest_Some)

lemma take_highest_notin:
  assumes "lists_ok T R idle rl" and "take_highest rl idle = (n, rl')"
  shows "n \<notin> set (rl' q)" "set (rl' q) \<subseteq> set (rl q)"
    "n = idle \<or> (\<exists>p. n \<in> set (rl p))"
proof -
  have "n \<notin> set (rl' q) \<and> set (rl' q) \<subseteq> set (rl q) \<and> (n = idle \<or> (\<exists>p. n \<in> set (rl p)))"
  proof (cases "highest rl")
    case None
    then show ?thesis using assms lists_okD(5)[OF assms(1)] by (auto simp: take_highest_def)
  next
    case (Some p)
    then have ne: "rl p \<noteq> []" and n: "n = hd (rl p)" and rl': "rl' = rl(p := tl (rl p))"
      using assms(2) take_highest_Some[OF Some, of idle] by auto
    have np: "n \<in> set (rl p)" using n ne by simp
    have "n \<notin> set (rl' q)"
      using hd_notin_tl[OF lists_okD(2)[OF assms(1)] ne] n lists_ok_same_prio[OF assms(1) np, of q] rl' by auto
    then show ?thesis using np rl' ne by (auto dest: list.set_sel(2))
  qed
  then show "n \<notin> set (rl' q)" "set (rl' q) \<subseteq> set (rl q)" "n = idle \<or> (\<exists>p. n \<in> set (rl p))" by auto
qed

lemma schedule_locked_ok:
  assumes inv: "ready_inv s rl" and cur: "sc_current s = Some c" and th: "take_highest rl (sc_idle s) = (n, rl')"
    and nc: "n \<noteq> c"
  shows "\<exists>T R cpu. schedule_locked s = Some (Sw (s\<lparr>sc_tcb := T, sc_ready := R, sc_current := Some n, sc_cpu := cpu\<rparr>)) \<and>
    lists_ok T R (sc_idle s) rl' \<and>
    (\<forall>b. t_info (T b) = t_info (if b = n then (sc_tcb s n)\<lparr>t_state := TASK_STATE_RUNNING\<rparr> else sc_tcb s b)) \<and>
    cpu_daif cpu = cpu_daif (sc_cpu s) \<and> cpu_pc cpu = t_regs (sc_tcb s n) 11 \<and> t_regs (T c) 11 = sc_schedule_ra s \<and>
    (\<forall>b. (\<forall>p. b \<notin> set (rl p)) \<longrightarrow> t_next (T b) = t_next (sc_tcb s b) \<and> t_prev (T b) = t_prev (sc_tcb s b))"
proof -
  let ?T = "sc_tcb s"
  have hn: "get_highest_ready s = n"
    using get_highest_ready_ok[OF inv] th by (auto simp: take_highest_def split: option.splits)
  obtain T0 R where rm: "(if n \<noteq> sc_idle s then ready_list_remove n s else Some s) = Some (s\<lparr>sc_tcb := T0, sc_ready := R\<rparr>)"
    and ok0: "lists_ok T0 R (sc_idle s) rl'" and core: "\<forall>b. t_core (T0 b) = t_core (?T b)"
    and off: "\<forall>b. (\<forall>p. b \<notin> set (rl p)) \<longrightarrow> T0 b = ?T b"
  proof (cases "highest rl")
    case None
    then have "n = sc_idle s" "rl' = rl" using th by (auto simp: take_highest_def)
    then show ?thesis using that[of "sc_ready s" ?T] inv by simp
  next
    case (Some p)
    then have ne: "rl p \<noteq> []" and n: "n = hd (rl p)" and rl': "rl' = rl(p := tl (rl p))"
      using th take_highest_Some[OF Some, of "sc_idle s"] by auto
    then have split: "rl p = [] @ n # tl (rl p)" by simp
    have "n \<noteq> sc_idle s" using lists_okD(5)[OF inv, of n p] n ne by simp
    then show ?thesis using ready_list_remove_ok[OF inv split] rl' by (auto intro: that)
  qed
  define T where "T = (\<lambda>b. let t = (if b = n then (T0 n)\<lparr>t_state := TASK_STATE_RUNNING\<rparr> else T0 b) in
      if b = c then t\<lparr>t_sp := cpu_sp (sc_cpu s),
          t_regs := (\<lambda>i. if i < 12 then ((cpu_x (sc_cpu s))(30 := sc_schedule_ra s)) (i + 19) else t_regs t i),
          t_elr := cpu_elr (sc_cpu s), t_spsr := cpu_spsr (sc_cpu s)\<rparr> else t)"
  define cpu0 where "cpu0 = (sc_cpu s)\<lparr>cpu_x := (cpu_x (sc_cpu s))(30 := sc_schedule_ra s)\<rparr>"
  define s1 where "s1 = s\<lparr>sc_ready := R, sc_tcb := T0(n := (T0 n)\<lparr>t_state := TASK_STATE_RUNNING\<rparr>),
    sc_current := Some n, sc_cpu := cpu0\<rparr>"
  have sl: "schedule_locked s = Some (Sw (arch_context_switch c n s1))"
    using nc by (simp add: schedule_locked_def hn cur rm t_upd_def s1_def cpu0_def)
  have sw: "arch_context_switch c n s1 = s\<lparr>sc_tcb := T, sc_ready := R, sc_current := Some n,
      sc_cpu := sc_cpu (arch_context_switch c n s1)\<rparr>"
    using nc by (auto simp: arch_context_switch_def t_upd_def s1_def cpu0_def T_def Let_def fun_eq_iff intro!: sched.equality)
  obtain cpu where run: "schedule_locked s = Some (Sw (s\<lparr>sc_tcb := T, sc_ready := R, sc_current := Some n, sc_cpu := cpu\<rparr>))"
    and cpu: "cpu_daif cpu = cpu_daif (sc_cpu s)" "cpu_pc cpu = t_regs (T n) 11"
  proof
    show "schedule_locked s = Some (Sw (s\<lparr>sc_tcb := T, sc_ready := R, sc_current := Some n,
        sc_cpu := sc_cpu (arch_context_switch c n s1)\<rparr>))" using sl sw by simp
    show "cpu_daif (sc_cpu (arch_context_switch c n s1)) = cpu_daif (sc_cpu s)"
      by (simp add: arch_context_switch_def s1_def cpu0_def Let_def)
    show "cpu_pc (sc_cpu (arch_context_switch c n s1)) = t_regs (T n) 11"
      using nc by (simp add: arch_context_switch_def s1_def cpu0_def T_def Let_def)
  qed
  have nl: "n \<notin> set (rl' p)" for p using take_highest_notin(1)[OF inv th] .
  have "lists_ok T R (sc_idle s) rl'"
  proof (rule lists_ok_frame[OF ok0])
    fix p b assume "b \<in> set (rl' p)"
    then have "b \<noteq> n" using nl by auto
    then show "t_next (T b) = t_next (T0 b) \<and> t_prev (T b) = t_prev (T0 b) \<and>
        t_priority (T b) = t_priority (T0 b) \<and> t_state (T b) = t_state (T0 b)"
      by (simp add: T_def Let_def)
  qed
  moreover have "t_info (T b) = t_info (if b = n then (?T n)\<lparr>t_state := TASK_STATE_RUNNING\<rparr> else ?T b)" for b
    using t_core_info[OF spec[OF core, of b]] t_info_state[OF t_core_info[OF spec[OF core, of n]]]
    by (auto simp: T_def Let_def)
  moreover have "t_regs (T n) = t_regs (?T n)"
    using nc t_core_eqD(9)[OF spec[OF core, of n]] by (simp add: T_def)
  moreover have "t_regs (T c) 11 = sc_schedule_ra s" by (simp add: T_def Let_def)
  moreover have "(\<forall>p. b \<notin> set (rl p)) \<longrightarrow> t_next (T b) = t_next (?T b) \<and> t_prev (T b) = t_prev (?T b)" for b
    using spec[OF off, of b] by (auto simp: T_def Let_def)
  ultimately show ?thesis
    using run cpu by (intro exI[of _ T] exI[of _ R] exI[of _ cpu] conjI allI) simp_all
qed

end
