(* ===== verification/Sched_Props.thy ===== *)
theory Sched_Props
  imports Sched_Inv
begin

text \<open>
  What the scheduler operations do, against the ready lists: yielding, sleeping, waking, creating and
  starting tasks.
\<close>

section \<open>Helper facts\<close>

abbreviation unlocked :: "sched \<Rightarrow> bool" where
  "unlocked s \<equiv> sl_lock (sc_lock s) = 0"

text \<open>Task \<open>c\<close> runs, and the others that can run are on the ready lists.\<close>

definition run_inv :: "sched \<Rightarrow> (nat \<Rightarrow> addr list) \<Rightarrow> addr \<Rightarrow> bool" where
  "run_inv s rl c \<longleftrightarrow> ready_inv s rl \<and> sc_current s = Some c \<and> t_state (sc_tcb s c) = TASK_STATE_RUNNING \<and>
     (\<forall>p. c \<notin> set (rl p)) \<and> unat (t_priority (sc_tcb s c)) < CONFIG_MAX_PRIORITY \<and> unlocked s"

definition sched_locked :: "sched \<Rightarrow> sched" where
  "sched_locked s = s\<lparr>sc_lock := (sc_lock s)\<lparr>sl_irq_flags := ucast (cpu_daif (sc_cpu s)), sl_lock := 1\<rparr>,
     sc_cpu := (sc_cpu s)\<lparr>cpu_daif := cpu_daif (sc_cpu s) OR DAIF_I\<rparr>\<rparr>"

lemma sched_lock_ok: "unlocked s \<Longrightarrow> sched_lock_irq s = Some (sched_locked s)"
  by (simp add: sched_lock_irq_def spin_lock_irq_def spin_lock_def arch_irq_save_def sched_locked_def)

lemma sched_locked_simps [simp]:
  "sc_tcb (sched_locked s) = sc_tcb s" "sc_ready (sched_locked s) = sc_ready s"
  "sc_idle (sched_locked s) = sc_idle s" "sc_current (sched_locked s) = sc_current s"
  "sc_table (sched_locked s) = sc_table s" "sc_ticks (sched_locked s) = sc_ticks s"
  "sc_running (sched_locked s) = sc_running s" "sc_wrapper_addr (sched_locked s) = sc_wrapper_addr s"
  "sc_schedule_ra (sched_locked s) = sc_schedule_ra s" "sl_lock (sc_lock (sched_locked s)) = 1"
  by (simp_all add: sched_locked_def)

lemma sched_lock_held: "sl_lock (sc_lock s) \<noteq> 0 \<Longrightarrow> sched_lock_irq s = None"
  by (simp add: sched_lock_irq_def spin_lock_irq_def spin_lock_def arch_irq_save_def)

lemma sched_unlock_simps [simp]:
  "sc_tcb (sched_unlock_irq s) = sc_tcb s" "sc_ready (sched_unlock_irq s) = sc_ready s"
  "sc_idle (sched_unlock_irq s) = sc_idle s" "sc_current (sched_unlock_irq s) = sc_current s"
  "sc_table (sched_unlock_irq s) = sc_table s" "sc_ticks (sched_unlock_irq s) = sc_ticks s"
  "sc_running (sched_unlock_irq s) = sc_running s" "sc_wrapper_addr (sched_unlock_irq s) = sc_wrapper_addr s"
  "sc_schedule_ra (sched_unlock_irq s) = sc_schedule_ra s" "sl_lock (sc_lock (sched_unlock_irq s)) = 0"
  by (simp_all add: sched_unlock_irq_def spin_unlock_irq_def spin_unlock_def Let_def)

lemma cdll_last_next: "cdll nx pv p (xs @ [a]) \<Longrightarrow> nx a = p"
  by (auto simp: cdll_def dseg_append)

text \<open>The first half of \<open>task_yield\<close>: the running task goes to the tail of its list; rotation is then void.\<close>

lemma yield_requeue:
  assumes inv: "ready_inv s rl" and p: "unat (t_priority (sc_tcb s c)) = p" "p < CONFIG_MAX_PRIORITY"
    and c: "c \<notin> set (rl p)" "c \<noteq> sc_idle s"
  shows "\<exists>T R. ready_list_add c s = Some (s\<lparr>sc_tcb := T, sc_ready := R\<rparr>) \<and>
    R(unat (t_priority (T c)) := t_next (T c)) = R \<and> lists_ok T R (sc_idle s) (rl(p := rl p @ [c])) \<and>
    (\<forall>b. t_core (T b) = t_core (if b = c then (sc_tcb s c)\<lparr>t_state := TASK_STATE_READY\<rparr> else sc_tcb s b))"
proof -
  obtain T R where a: "ready_list_add c s = Some (s\<lparr>sc_tcb := T, sc_ready := R\<rparr>)"
    "lists_ok T R (sc_idle s) (rl(p := rl p @ [c]))"
    "\<forall>b. t_core (T b) = t_core (if b = c then (sc_tcb s c)\<lparr>t_state := TASK_STATE_READY\<rparr> else sc_tcb s b)"
    using ready_list_add_ok[OF inv p c] by blast
  have "t_priority (T c) = t_priority (sc_tcb s c)" using t_core_eqD(1)[OF spec[OF a(3), of c]] by simp
  moreover have "t_next (T c) = R p" using cdll_last_next lists_okD(1)[OF a(2) p(2)] by fastforce
  ultimately have "R(unat (t_priority (T c)) := t_next (T c)) = R" using p by auto
  then show ?thesis using a by blast
qed

lemma task_yield_switch:
  assumes run: "run_inv s rl c" and ci: "c \<noteq> sc_idle s" and p: "p = unat (t_priority (sc_tcb s c))"
    and th: "take_highest (rl(p := rl p @ [c])) (sc_idle s) = (n, rl')" and nc: "n \<noteq> c"
  shows "\<exists>s'. task_yield s = Some (Sw s') \<and> ready_inv s' rl' \<and> sc_current s' = Some n \<and>
    sc_idle s' = sc_idle s \<and> sl_lock (sc_lock s') = 1 \<and> cpu_pc (sc_cpu s') = t_regs (sc_tcb s n) 11 \<and>
    (\<forall>b. t_info (sc_tcb s' b) = t_info (if b = n then (sc_tcb s n)\<lparr>t_state := TASK_STATE_RUNNING\<rparr>
       else if b = c then (sc_tcb s c)\<lparr>t_state := TASK_STATE_READY\<rparr> else sc_tcb s b))"
proof -
  have r: "ready_inv s rl" "sc_current s = Some c" "t_state (sc_tcb s c) = TASK_STATE_RUNNING"
    "\<forall>p. c \<notin> set (rl p)" "p < CONFIG_MAX_PRIORITY" "unlocked s" using run p by (auto simp: run_inv_def)
  let ?s1 = "sched_locked s"
  obtain T R where add: "ready_list_add c ?s1 = Some (?s1\<lparr>sc_tcb := T, sc_ready := R\<rparr>)"
    "R(unat (t_priority (T c)) := t_next (T c)) = R" "lists_ok T R (sc_idle s) (rl(p := rl p @ [c]))"
    "\<forall>b. t_core (T b) = t_core (if b = c then (sc_tcb s c)\<lparr>t_state := TASK_STATE_READY\<rparr> else sc_tcb s b)"
    using yield_requeue[of ?s1 rl c p] r p ci unfolding sched_locked_simps by blast
  let ?s2 = "?s1\<lparr>sc_tcb := T, sc_ready := R\<rparr>"
  obtain T' R' cpu where sch: "schedule_locked ?s2 = Some (Sw (?s2\<lparr>sc_tcb := T', sc_ready := R', sc_current := Some n, sc_cpu := cpu\<rparr>))"
    "lists_ok T' R' (sc_idle s) rl'"
    "\<forall>b. t_info (T' b) = t_info (if b = n then (T n)\<lparr>t_state := TASK_STATE_RUNNING\<rparr> else T b)"
    "cpu_pc cpu = t_regs (T n) 11"
    using schedule_locked_ok[of ?s2 "rl(p := rl p @ [c])" c n rl'] add(3) r(2) th nc by auto
  let ?s3 = "?s2\<lparr>sc_tcb := T', sc_ready := R', sc_current := Some n, sc_cpu := cpu\<rparr>"
  have "?s2\<lparr>sc_ready := (sc_ready ?s2)(unat (t_priority (sc_tcb ?s2 c)) := t_next (sc_tcb ?s2 c))\<rparr> = ?s2"
    using add(2) by simp
  then have "task_yield s = Some (Sw ?s3)"
    using r(2,3) add(1) sch(1) unfolding task_yield_def sched_lock_ok[OF r(6)]
    by (simp add: after_schedule_def)
  moreover have "t_info (T' b) = t_info (if b = n then (sc_tcb s n)\<lparr>t_state := TASK_STATE_RUNNING\<rparr>
       else if b = c then (sc_tcb s c)\<lparr>t_state := TASK_STATE_READY\<rparr> else sc_tcb s b)" for b
    using spec[OF sch(3), of b] t_core_info[OF spec[OF add(4), of b]] nc
      t_info_state[OF t_core_info[OF spec[OF add(4), of n]]] by auto
  moreover have "t_regs (T n) 11 = t_regs (sc_tcb s n) 11"
    using t_core_eqD(9)[OF spec[OF add(4), of n]] nc by simp
  ultimately show ?thesis using sch(2,4) by (intro exI[of _ ?s3]) simp
qed

lemma take_highest_snoc:
  assumes "lists_ok T R idle rl" and "p < CONFIG_MAX_PRIORITY" and "rl p \<noteq> []" and "\<forall>q. p < q \<longrightarrow> rl q = []"
  shows "take_highest (rl(p := rl p @ [c])) idle = (hd (rl p), rl(p := tl (rl p) @ [c]))"
proof -
  have "highest (rl(p := rl p @ [c])) = Some p"
    unfolding highest_Some using assms(2-4) by auto
  then show ?thesis using assms(3) by (simp add: take_highest_def)
qed

text \<open>Yielding repeatedly: every task that is switched in releases the lock and yields in turn.\<close>

fun yields :: "nat \<Rightarrow> sched \<Rightarrow> sched option" where
  "yields 0 s = Some s"
| "yields (Suc k) s = do {
     r \<leftarrow> task_yield s;
     yields k (case r of Ret s \<Rightarrow> s | Sw s \<Rightarrow> sched_unlock_irq s)
   }"

lemma yields_rotate_aux:
  assumes "run_inv s rl c" and "c # xs = rotate j ys" and "\<forall>y \<in> set ys. y \<noteq> sc_idle s"
    and "p = unat (t_priority (sc_tcb s c))" and "rl p = xs" and "xs \<noteq> []" and "\<forall>q. p < q \<longrightarrow> rl q = []"
  shows "\<exists>s'. yields k s = Some s' \<and>
    run_inv s' (rl(p := tl (rotate (k + j) ys))) (hd (rotate (k + j) ys))"
  using assms
proof (induction k arbitrary: s rl c xs j)
  case 0
  then show ?case by (metis add_0 list.sel(1,3) fun_upd_triv yields.simps(1))
next
  case (Suc k)
  have r: "ready_inv s rl" "p < CONFIG_MAX_PRIORITY" "\<forall>p. c \<notin> set (rl p)" using Suc.prems(1,4) by (auto simp: run_inv_def)
  have set: "set ys = set (c # xs)" using Suc.prems(2) by (metis set_rotate)
  have ci: "c \<noteq> sc_idle s" using Suc.prems(3) set by simp
  define n where "n = hd xs"
  let ?rl = "rl(p := tl xs @ [c])"
  have th: "take_highest (rl(p := rl p @ [c])) (sc_idle s) = (n, ?rl)"
    using take_highest_snoc[OF r(1,2), of c] Suc.prems(5-7) by (simp add: n_def)
  have nin: "n \<in> set (rl p)" using Suc.prems(5,6) by (simp add: n_def)
  then have nc: "n \<noteq> c" using r(3) by auto
  obtain s1 where s1: "task_yield s = Some (Sw s1)" "ready_inv s1 ?rl" "sc_current s1 = Some n" "sc_idle s1 = sc_idle s"
    "\<forall>b. t_info (sc_tcb s1 b) = t_info (if b = n then (sc_tcb s n)\<lparr>t_state := TASK_STATE_RUNNING\<rparr>
       else if b = c then (sc_tcb s c)\<lparr>t_state := TASK_STATE_READY\<rparr> else sc_tcb s b)"
    using task_yield_switch[OF Suc.prems(1) ci Suc.prems(4) th nc] by blast
  have np: "t_priority (sc_tcb s1 n) = t_priority (sc_tcb s n)" "t_state (sc_tcb s1 n) = TASK_STATE_RUNNING"
    using t_info_eqD(1,2)[OF spec[OF s1(5), of n]] by simp_all
  have pn: "unat (t_priority (sc_tcb s n)) = p" using lists_okD(3)[OF r(1) nin] .
  have notin: "n \<notin> set (?rl q)" for q using take_highest_notin(1)[OF _ th, of _ _ q] r
    by (metis (no_types, lifting) th take_highest_notin(1) yield_requeue ci Suc.prems(4) Suc.prems(1))
  have run1: "run_inv (sched_unlock_irq s1) ?rl n"
    using s1(2-4) np pn r(2) notin by (simp add: run_inv_def)
  have rot: "n # (tl xs @ [c]) = rotate (Suc j) ys"
  proof -
    have "rotate (Suc j) ys = rotate1 (c # xs)" using Suc.prems(2) by simp
    then show ?thesis using Suc.prems(6) by (simp add: n_def)
  qed
  have "\<exists>s'. yields k (sched_unlock_irq s1) = Some s' \<and>
      run_inv s' (?rl(p := tl (rotate (k + Suc j) ys))) (hd (rotate (k + Suc j) ys))"
    using run1 rot Suc.prems(3,7) s1(4) np(1) pn
    by (intro Suc.IH[OF run1 rot]) simp_all
  then show ?case using s1(1) by (simp del: fun_upd_apply)
qed

text \<open>Yielding when nothing of the same or a higher priority is ready.\<close>

lemma task_yield_alone:
  assumes run: "run_inv s rl c" and ci: "c \<noteq> sc_idle s" and p: "p = unat (t_priority (sc_tcb s c))"
    and none: "\<forall>q \<ge> p. rl q = []"
  shows "\<exists>s'. task_yield s = Some (Ret s') \<and> ready_inv s' (rl(p := [c])) \<and> sc_current s' = Some c \<and>
    t_state (sc_tcb s' c) = TASK_STATE_READY \<and> unlocked s' \<and> get_highest_ready s' = c"
proof -
  have r: "ready_inv s rl" "sc_current s = Some c" "t_state (sc_tcb s c) = TASK_STATE_RUNNING"
    "\<forall>p. c \<notin> set (rl p)" "p < CONFIG_MAX_PRIORITY" "unlocked s" using run p by (auto simp: run_inv_def)
  let ?s1 = "sched_locked s"
  obtain T R where add: "ready_list_add c ?s1 = Some (?s1\<lparr>sc_tcb := T, sc_ready := R\<rparr>)"
    "R(unat (t_priority (T c)) := t_next (T c)) = R" "lists_ok T R (sc_idle s) (rl(p := rl p @ [c]))"
    "\<forall>b. t_core (T b) = t_core (if b = c then (sc_tcb s c)\<lparr>t_state := TASK_STATE_READY\<rparr> else sc_tcb s b)"
    using yield_requeue[of ?s1 rl c p] r p ci unfolding sched_locked_simps by blast
  let ?s2 = "?s1\<lparr>sc_tcb := T, sc_ready := R\<rparr>"
  have ok: "lists_ok T R (sc_idle s) (rl(p := [c]))" using add(3) none by simp
  have "highest (rl(p := [c])) = Some p" unfolding highest_Some using r(5) none by auto
  then have hr: "get_highest_ready ?s2 = c"
    using get_highest_ready_ok[of ?s2 "rl(p := [c])"] ok by simp
  have "?s2\<lparr>sc_ready := (sc_ready ?s2)(unat (t_priority (sc_tcb ?s2 c)) := t_next (sc_tcb ?s2 c))\<rparr> = ?s2"
    using add(2) by simp
  then have "task_yield s = Some (Ret (sched_unlock_irq ?s2))"
    using r(2,3) add(1) hr unfolding task_yield_def sched_lock_ok[OF r(6)]
    by (simp add: after_schedule_def schedule_locked_def)
  moreover have "t_state (T c) = TASK_STATE_READY" using t_core_eqD(2)[OF spec[OF add(4), of c]] by simp
  moreover have "get_highest_ready (sched_unlock_irq ?s2) = get_highest_ready ?s2"
    by (simp add: get_highest_ready_def split: option.split)
  ultimately show ?thesis using ok r(2) hr by (intro exI[of _ "sched_unlock_irq ?s2"]) simp
qed

section \<open>Sleeping and waking\<close>

lemma task_sleep_ok:
  assumes run: "run_inv s rl c" and ci: "c \<noteq> sc_idle s" and th: "take_highest rl (sc_idle s) = (n, rl')"
  shows "\<exists>s'. task_sleep k s = Some (Sw s') \<and> ready_inv s' rl' \<and> sc_current s' = Some n \<and>
    sl_lock (sc_lock s') = 1 \<and>
    (\<forall>b. t_info (sc_tcb s' b) = t_info (if b = n then (sc_tcb s n)\<lparr>t_state := TASK_STATE_RUNNING\<rparr>
       else if b = c then (sc_tcb s c)\<lparr>t_state := TASK_STATE_BLOCKED, t_wake_tick := sc_ticks s + k\<rparr>
       else sc_tcb s b))"
proof -
  have r: "ready_inv s rl" "sc_current s = Some c" "\<forall>p. c \<notin> set (rl p)" "unlocked s"
    using run by (auto simp: run_inv_def)
  have nc: "n \<noteq> c" using take_highest_notin(3)[OF r(1) th] ci r(3) by auto
  let ?f = "\<lambda>t. t\<lparr>t_state := TASK_STATE_BLOCKED, t_wake_tick := sc_ticks s + k\<rparr>"
  let ?s1 = "t_upd c ?f (sched_locked s)"
  have ok: "ready_inv ?s1 rl" using lists_ok_upd[OF r(1)] r(3) by simp
  obtain T R cpu where sch: "schedule_locked ?s1 = Some (Sw (?s1\<lparr>sc_tcb := T, sc_ready := R, sc_current := Some n, sc_cpu := cpu\<rparr>))"
    "lists_ok T R (sc_idle s) rl'"
    "\<forall>b. t_info (T b) = t_info (if b = n then (sc_tcb ?s1 n)\<lparr>t_state := TASK_STATE_RUNNING\<rparr> else sc_tcb ?s1 b)"
    using schedule_locked_ok[OF ok, of c n rl'] r(2) th nc by auto
  let ?s2 = "?s1\<lparr>sc_tcb := T, sc_ready := R, sc_current := Some n, sc_cpu := cpu\<rparr>"
  have "task_sleep k s = Some (Sw ?s2)"
    using sch(1) r(2) by (simp add: task_sleep_def sched_lock_ok[OF r(4)] after_schedule_def)
  then show ?thesis using sch(2,3) nc by (intro exI[of _ ?s2]) auto
qed

text \<open>A sleeper whose time has come.\<close>

definition due :: "sched \<Rightarrow> addr \<Rightarrow> bool" where
  "due s a \<longleftrightarrow> t_state (sc_tcb s a) = TASK_STATE_BLOCKED \<and> t_wait_obj (sc_tcb s a) = None \<and>
     t_wake_tick (sc_tcb s a) \<le> sc_ticks s"

lemma tick_wake_ok:
  assumes inv: "ready_inv s rl" and u: "unlocked s" and pr: "unat (t_priority (sc_tcb s a)) < CONFIG_MAX_PRIORITY"
    and ai: "a \<noteq> sc_idle s"
  shows "\<exists>s' rl'. tick_wake a s = Some s' \<and> ready_inv s' rl' \<and> unlocked s' \<and>
    (\<forall>p. \<exists>new. rl' p = rl p @ new) \<and> (due s a \<longrightarrow> a \<in> set (rl' (unat (t_priority (sc_tcb s a))))) \<and>
    sc_current s' = sc_current s \<and> sc_idle s' = sc_idle s \<and> sc_ticks s' = sc_ticks s \<and>
    (\<forall>b. t_core (sc_tcb s' b) =
       t_core (if b = a \<and> due s a then (sc_tcb s a)\<lparr>t_state := TASK_STATE_READY\<rparr> else sc_tcb s b))"
proof (cases "due s a")
  case False
  then show ?thesis using inv u unfolding tick_wake_def due_def
    by (intro exI[of _ s] exI[of _ rl]) auto
next
  case True
  define p where "p = unat (t_priority (sc_tcb s a))"
  have notin: "a \<notin> set (rl p)" using lists_okD(4)[OF inv] True by (auto simp: due_def)
  let ?s1 = "s\<lparr>sc_lock := (sc_lock s)\<lparr>sl_lock := 1\<rparr>\<rparr>"
  obtain T R where add: "ready_list_add a ?s1 = Some (?s1\<lparr>sc_tcb := T, sc_ready := R\<rparr>)"
    "lists_ok T R (sc_idle s) (rl(p := rl p @ [a]))"
    "\<forall>b. t_core (T b) = t_core (if b = a then (sc_tcb s a)\<lparr>t_state := TASK_STATE_READY\<rparr> else sc_tcb s b)"
    using ready_list_add_ok[of ?s1 rl a p] inv pr ai notin p_def by auto
  let ?s2 = "s\<lparr>sc_lock := (sc_lock s)\<lparr>sl_lock := 0\<rparr>, sc_tcb := T, sc_ready := R\<rparr>"
  have "tick_wake a s = Some ?s2"
    using True u add(1) by (auto simp: tick_wake_def due_def spin_lock_def spin_unlock_def intro!: sched.equality)
  then show ?thesis using add(2,3) True
    by (intro exI[of _ ?s2] exI[of _ "rl(p := rl p @ [a])"]) (auto simp: p_def)
qed

lemma tick_loop_ok:
  assumes "ready_inv s rl" and "unlocked s"
    and "\<forall>a \<in> set as. unat (t_priority (sc_tcb s a)) < CONFIG_MAX_PRIORITY \<and> (due s a \<longrightarrow> a \<noteq> sc_idle s)"
  shows "\<exists>s' rl'. tick_loop as s = Some s' \<and> ready_inv s' rl' \<and> unlocked s' \<and>
    (\<forall>p. \<exists>new. rl' p = rl p @ new) \<and>
    (\<forall>a \<in> set as. due s a \<longrightarrow> a \<in> set (rl' (unat (t_priority (sc_tcb s a))))) \<and>
    sc_current s' = sc_current s \<and> sc_idle s' = sc_idle s \<and> sc_ticks s' = sc_ticks s \<and>
    (\<forall>b. t_core (sc_tcb s' b) =
       t_core (if b \<in> set as \<and> due s b then (sc_tcb s b)\<lparr>t_state := TASK_STATE_READY\<rparr> else sc_tcb s b))"
  using assms
proof (induction as arbitrary: s rl)
  case Nil
  then show ?case by (intro exI[of _ s] exI[of _ rl]) auto
next
  case (Cons a as)
  have a: "unat (t_priority (sc_tcb s a)) < CONFIG_MAX_PRIORITY" "due s a \<longrightarrow> a \<noteq> sc_idle s"
    using Cons.prems(3) by auto
  show ?case
  proof (cases "due s a")
    case False
    have run: "tick_wake a s = Some s" using False by (auto simp: tick_wake_def due_def)
    then show ?thesis using Cons.IH[OF Cons.prems(1,2)] Cons.prems(3) False by (auto split: if_splits)
  next
    case True
    then obtain s1 rl1 where s1: "tick_wake a s = Some s1" "ready_inv s1 rl1" "unlocked s1"
      "\<forall>p. \<exists>new. rl1 p = rl p @ new" "a \<in> set (rl1 (unat (t_priority (sc_tcb s a))))"
      "sc_current s1 = sc_current s" "sc_idle s1 = sc_idle s" "sc_ticks s1 = sc_ticks s"
      "\<forall>b. t_core (sc_tcb s1 b) = t_core (if b = a then (sc_tcb s a)\<lparr>t_state := TASK_STATE_READY\<rparr> else sc_tcb s b)"
      using tick_wake_ok[OF Cons.prems(1,2) a(1)] a(2) by auto
    have due1: "due s1 b \<longleftrightarrow> b \<noteq> a \<and> due s b" for b
      using t_core_eqD(2-4)[OF spec[OF s1(9), of b]] s1(8) by (auto simp: due_def)
    have pr1: "t_priority (sc_tcb s1 b) = t_priority (sc_tcb s b)" for b
      using t_core_eqD(1)[OF spec[OF s1(9), of b]] by simp
    obtain s' rl' where s': "tick_loop as s1 = Some s'" "ready_inv s' rl'" "unlocked s'"
      "\<forall>p. \<exists>new. rl' p = rl1 p @ new"
      "\<forall>a \<in> set as. due s1 a \<longrightarrow> a \<in> set (rl' (unat (t_priority (sc_tcb s1 a))))"
      "sc_current s' = sc_current s1" "sc_idle s' = sc_idle s1" "sc_ticks s' = sc_ticks s1"
      "\<forall>b. t_core (sc_tcb s' b) = t_core (if b \<in> set as \<and> due s1 b then (sc_tcb s1 b)\<lparr>t_state := TASK_STATE_READY\<rparr> else sc_tcb s1 b)"
      using Cons.IH[OF s1(2,3)] Cons.prems(3) s1(7) by (auto simp: due1 pr1)
    have ext: "\<exists>new. rl' p = rl p @ new" for p using s1(4) s'(4) by (metis append.assoc)
    have ina: "a \<in> set (rl' (unat (t_priority (sc_tcb s a))))" using s1(5) s'(4) by (metis UnI1 set_append)
    have core: "t_core (sc_tcb s' b) =
        t_core (if b \<in> set (a # as) \<and> due s b then (sc_tcb s b)\<lparr>t_state := TASK_STATE_READY\<rparr> else sc_tcb s b)" for b
      using spec[OF s'(9), of b] spec[OF s1(9), of b] t_core_state[OF trans[OF spec[OF s1(9), of b]], of "sc_tcb s b"] True
      by (auto simp: due1)
    have mem: "\<forall>b \<in> set (a # as). due s b \<longrightarrow> b \<in> set (rl' (unat (t_priority (sc_tcb s b))))"
      using ina s'(5) by (auto simp: due1 pr1)
    show ?thesis
      using s'(1-3,6-8) s1(1,6-8) ext core mem by (intro exI[of _ s'] exI[of _ rl'] conjI allI) simp_all
  qed
qed

section \<open>Creating and starting tasks\<close>

lemma task_create_ok:
  assumes u: "unlocked s" and "entry \<noteq> 0" "stk \<noteq> 0" "unat prio < CONFIG_MAX_PRIORITY" "length (sc_table s) < CONFIG_MAX_TASKS"
  shows "\<exists>s'. task_create (Some a) name entry arg prio stk n s = Some (STATUS_OK, s') \<and>
    sc_table s' = sc_table s @ [a] \<and> unlocked s' \<and> sc_ready s' = sc_ready s \<and> sc_idle s' = sc_idle s \<and>
    sc_current s' = sc_current s \<and> sc_running s' = sc_running s \<and> sc_schedule_ra s' = sc_schedule_ra s \<and>
    (\<forall>b. b \<noteq> a \<longrightarrow> sc_tcb s' b = sc_tcb s b) \<and>
    t_state (sc_tcb s' a) = TASK_STATE_SUSPENDED \<and> t_priority (sc_tcb s' a) = prio \<and>
    t_elr (sc_tcb s' a) = sc_wrapper_addr s \<and> t_regs (sc_tcb s' a) 0 = entry \<and> t_regs (sc_tcb s' a) 1 = arg \<and>
    t_sp (sc_tcb s' a) = ((stk + n) AND NOT 15) - 272 \<and>
    (\<forall>i. i \<notin> {0, 1, 29, 30} \<longrightarrow> t_regs (sc_tcb s' a) i = t_regs (sc_tcb s a) i)"
proof -
  let ?f = "\<lambda>t. t\<lparr>t_name := name, t_priority := prio, t_state := TASK_STATE_SUSPENDED, t_stack_base := stk,
       t_stack_size := n, t_time_slice := 10, t_remaining_slice := 10,
       t_wait_obj := None, t_next := None, t_prev := None,
       t_regs := (t_regs t)(0 := entry, 1 := arg, 29 := 0, 30 := 0),
       t_elr := sc_wrapper_addr s, t_spsr := 0x305, t_sp := ((stk + n) AND NOT 15) - 34 * 8\<rparr>"
  let ?s1 = "sched_locked (t_upd a ?f s)"
  let ?s2 = "(t_upd a (t_id_update (\<lambda>_. of_nat (length (sc_table s)))) ?s1)\<lparr>sc_table := sc_table s @ [a]\<rparr>"
  have "sched_lock_irq (t_upd a ?f s) = Some ?s1" using u by (intro sched_lock_ok) simp
  then have "task_create (Some a) name entry arg prio stk n s = Some (STATUS_OK, sched_unlock_irq ?s2)"
    using assms by (simp add: task_create_def Let_def)
  then show ?thesis by (intro exI[of _ "sched_unlock_irq ?s2"]) simp
qed

lemma task_start_ok:
  assumes inv: "ready_inv s rl" and u: "unlocked s" and st: "t_state (sc_tcb s a) = TASK_STATE_SUSPENDED"
    and pr: "unat (t_priority (sc_tcb s a)) = p" "p < CONFIG_MAX_PRIORITY" and ai: "a \<noteq> sc_idle s" and nr: "\<not> sc_running s"
  shows "\<exists>s'. task_start (Some a) s = Some (STATUS_OK, Ret s') \<and> ready_inv s' (rl(p := rl p @ [a])) \<and> unlocked s' \<and>
    sc_idle s' = sc_idle s \<and> sc_current s' = sc_current s \<and>
    (\<forall>b. t_core (sc_tcb s' b) = t_core (if b = a then (sc_tcb s a)\<lparr>t_state := TASK_STATE_READY\<rparr> else sc_tcb s b)) \<and>
    sc_running s' = sc_running s \<and> sc_table s' = sc_table s"
proof -
  have notin: "a \<notin> set (rl p)" using lists_okD(4)[OF inv, of a p] st by auto
  let ?s1 = "sched_locked s"
  obtain T R where add: "ready_list_add a ?s1 = Some (?s1\<lparr>sc_tcb := T, sc_ready := R\<rparr>)"
    "lists_ok T R (sc_idle s) (rl(p := rl p @ [a]))"
    "\<forall>b. t_core (T b) = t_core (if b = a then (sc_tcb s a)\<lparr>t_state := TASK_STATE_READY\<rparr> else sc_tcb s b)"
    using ready_list_add_ok[of ?s1 rl a p] inv pr ai notin unfolding sched_locked_simps by blast
  let ?s2 = "sched_unlock_irq (?s1\<lparr>sc_tcb := T, sc_ready := R\<rparr>)"
  have "task_start (Some a) s = Some (STATUS_OK, Ret ?s2)"
    using st nr add(1) by (simp add: task_start_def sched_lock_ok[OF u])
  then show ?thesis using add(2,3) by (intro exI[of _ ?s2]) simp
qed

section \<open>Properties\<close>

text \<open>A concrete scheduler for the witnesses: task \<open>c\<close> runs, 200 and 300 are ready, all at priority 5;
  1 is the idle task, 400 sleeps until tick 7.\<close>

definition tcb_blank :: tcb where
  "tcb_blank = \<lparr>t_sp = 0, t_regs = (\<lambda>_. 0), t_elr = 0, t_spsr = 0, t_id = 0, t_name = ''x'', t_priority = 5,
     t_state = TASK_STATE_SUSPENDED, t_stack_base = 0, t_stack_size = 0, t_wake_tick = 7, t_time_slice = 10,
     t_remaining_slice = 10, t_next = None, t_prev = None, t_wait_obj = None, t_wait_result = STATUS_OK\<rparr>"

definition sched_ex :: "addr \<Rightarrow> sched" where
  "sched_ex c = \<lparr>sc_tcb = (\<lambda>_. tcb_blank)(c := tcb_blank\<lparr>t_state := TASK_STATE_RUNNING\<rparr>,
       200 := tcb_blank\<lparr>t_state := TASK_STATE_READY, t_next := Some 300, t_prev := Some 300\<rparr>,
       300 := tcb_blank\<lparr>t_state := TASK_STATE_READY, t_next := Some 200, t_prev := Some 200\<rparr>,
       400 := tcb_blank\<lparr>t_state := TASK_STATE_BLOCKED\<rparr>),
     sc_current = Some c, sc_ready = (\<lambda>_. None)(5 := Some 200), sc_table = [200, 300, 400],
     sc_ticks = 6, sc_running = False, sc_lock = SPINLOCK_INIT,
     sc_cpu = \<lparr>cpu_sp = 0, cpu_x = (\<lambda>_. 0), cpu_pc = 0, cpu_elr = 0, cpu_spsr = 0, cpu_daif = 0\<rparr>,
     sc_idle = 1, sc_wrapper_addr = 4096, sc_schedule_ra = 8192\<rparr>"

definition rl_ex :: "nat \<Rightarrow> addr list" where
  "rl_ex = (\<lambda>_. [])(5 := [200, 300])"

lemma sched_ex_inv: "c \<noteq> 200 \<Longrightarrow> c \<noteq> 300 \<Longrightarrow> c \<noteq> 400 \<Longrightarrow> run_inv (sched_ex c) rl_ex c"
  by (auto simp: run_inv_def lists_ok_def sched_ex_def rl_ex_def tcb_blank_def CONFIG_MAX_PRIORITY_def
      cdll_def SPINLOCK_INIT_def)

definition sched_alone :: sched where
  "sched_alone = (sched_ex 100)\<lparr>sc_ready := (\<lambda>_. None)\<rparr>"

lemma sched_alone_inv: "run_inv sched_alone (\<lambda>_. []) 100"
  by (auto simp: run_inv_def lists_ok_def sched_alone_def sched_ex_def tcb_blank_def CONFIG_MAX_PRIORITY_def
      SPINLOCK_INIT_def)

text \<open>C13: round robin. Among tasks of one priority, with nothing above them ready, \<open>k\<close> yields in a row
  rotate the sequence of running task and ready list by \<open>k\<close> places, and the scheduler's invariant
  (well-formed circular lists, the running task on none of them, lock free) holds throughout.\<close>

theorem task_yield_round_robin:
  assumes "run_inv s rl c" and "p = unat (t_priority (sc_tcb s c))" and "rl p \<noteq> []" and "\<forall>q. p < q \<longrightarrow> rl q = []"
    and "c \<noteq> sc_idle s"
  shows "\<exists>s'. yields k s = Some s' \<and>
    run_inv s' (rl(p := tl (rotate k (c # rl p)))) (hd (rotate k (c # rl p)))"
proof -
  have "\<forall>y \<in> set (c # rl p). y \<noteq> sc_idle s"
    using assms(1,5) lists_okD(5)[of "sc_tcb s" "sc_ready s" "sc_idle s" rl _ p] by (auto simp: run_inv_def)
  then show ?thesis using yields_rotate_aux[OF assms(1), of "rl p" 0 "c # rl p" p k] assms by simp
qed

theorem task_yield_round_robin_witness:
  "\<exists>s'. yields 4 (sched_ex 100) = Some s' \<and> sc_current s' = Some 200"
proof -
  have ex: "unat (t_priority (sc_tcb (sched_ex 100) 100)) = 5" "sc_idle (sched_ex 100) = 1"
    "rl_ex 5 = [200, 300]" "\<forall>q > 5. rl_ex q = []"
    by (simp_all add: sched_ex_def tcb_blank_def rl_ex_def)
  have rot: "rotate 4 [100, 200, 300 :: addr] = [200, 300, 100]" by (simp add: rotate_def numeral_eq_Suc)
  show ?thesis
    using task_yield_round_robin[OF sched_ex_inv[of 100], of 5 4, unfolded ex(3) rot] ex
    by (auto simp: run_inv_def)
qed

text \<open>A switch always goes to the head of the highest non-empty ready list, or to the idle task when
  all are empty; that task leaves its list and runs, and the other lists stay as they were. Stated
  for a task that goes to sleep, which is then blocked until the wake-up tick and on no list.\<close>

theorem task_sleep_switches:
  assumes "run_inv s rl c" and "c \<noteq> sc_idle s"
  shows "\<exists>s' n rl'. task_sleep k s = Some (Sw s') \<and> sc_current s' = Some n \<and> ready_inv s' rl' \<and>
    (case highest rl of None \<Rightarrow> n = sc_idle s \<and> rl' = rl
     | Some p \<Rightarrow> rl p = n # rl' p \<and> (\<forall>q. q \<noteq> p \<longrightarrow> rl' q = rl q)) \<and>
    t_state (sc_tcb s' n) = TASK_STATE_RUNNING \<and> t_state (sc_tcb s' c) = TASK_STATE_BLOCKED \<and>
    t_wake_tick (sc_tcb s' c) = sc_ticks s + k \<and> (\<forall>q. c \<notin> set (rl' q))"
proof -
  obtain n rl' where th: "take_highest rl (sc_idle s) = (n, rl')" by (rule prod.exhaust)
  obtain s' where s': "task_sleep k s = Some (Sw s')" "ready_inv s' rl'" "sc_current s' = Some n"
    "\<forall>b. t_info (sc_tcb s' b) = t_info (if b = n then (sc_tcb s n)\<lparr>t_state := TASK_STATE_RUNNING\<rparr>
       else if b = c then (sc_tcb s c)\<lparr>t_state := TASK_STATE_BLOCKED, t_wake_tick := sc_ticks s + k\<rparr>
       else sc_tcb s b)"
    using task_sleep_ok[OF assms th] by blast
  have inv: "ready_inv s rl" "\<forall>p. c \<notin> set (rl p)" using assms(1) by (auto simp: run_inv_def)
  have nc: "n \<noteq> c" using take_highest_notin(3)[OF inv(1) th] inv(2) assms(2) by auto
  have "case highest rl of None \<Rightarrow> n = sc_idle s \<and> rl' = rl
     | Some p \<Rightarrow> rl p = n # rl' p \<and> (\<forall>q. q \<noteq> p \<longrightarrow> rl' q = rl q)"
  proof (cases "highest rl")
    case None
    then show ?thesis using th by (auto simp: take_highest_def)
  next
    case (Some p)
    then show ?thesis using take_highest_Some[OF Some, of "sc_idle s"] th by auto
  qed
  moreover have "\<forall>q. c \<notin> set (rl' q)" using take_highest_notin(2)[OF inv(1) th] inv(2) by blast
  ultimately show ?thesis
    using s' t_info_eqD(2,4)[OF spec[OF s'(4), of c]] t_info_eqD(2)[OF spec[OF s'(4), of n]] nc
    by (intro exI[of _ s'] exI[of _ n] exI[of _ rl']) simp
qed

theorem task_sleep_switches_witness:
  "\<exists>s'. task_sleep 3 (sched_ex 100) = Some (Sw s') \<and> t_wake_tick (sc_tcb s' 100) = 9"
  using task_sleep_switches[OF sched_ex_inv[of 100], of 3] by (auto simp: sched_ex_def)

text \<open>A yield with nothing of the same or a higher priority ready leaves the running task marked
  ready and on its ready list, and a sleep right after it returns at once without a switch: the
  task runs on although it is marked blocked, and is still queued.\<close>

theorem task_yield_alone_then_sleep:
  assumes "run_inv s rl c" and "c \<noteq> sc_idle s" and "p = unat (t_priority (sc_tcb s c))" and "\<forall>q \<ge> p. rl q = []"
  shows "\<exists>s1 s2. task_yield s = Some (Ret s1) \<and> ready_inv s1 (rl(p := [c])) \<and>
    t_state (sc_tcb s1 c) = TASK_STATE_READY \<and>
    task_sleep k s1 = Some (Ret s2) \<and> sc_current s2 = Some c \<and> t_state (sc_tcb s2 c) = TASK_STATE_BLOCKED \<and>
    sc_ready s2 p = Some c"
proof -
  obtain s1 where s1: "task_yield s = Some (Ret s1)" "ready_inv s1 (rl(p := [c]))" "sc_current s1 = Some c"
    "t_state (sc_tcb s1 c) = TASK_STATE_READY" "unlocked s1" "get_highest_ready s1 = c"
    using task_yield_alone[OF assms] by blast
  have p: "p < CONFIG_MAX_PRIORITY" using assms(1,3) by (simp add: run_inv_def)
  let ?s2 = "t_upd c (\<lambda>t. t\<lparr>t_state := TASK_STATE_BLOCKED, t_wake_tick := sc_ticks s1 + k\<rparr>) (sched_locked s1)"
  have "get_highest_ready ?s2 = c" using s1(6) by (simp add: get_highest_ready_def split: option.splits)
  then have "task_sleep k s1 = Some (Ret (sched_unlock_irq ?s2))"
    using s1(3) by (simp add: task_sleep_def sched_lock_ok[OF s1(5)] schedule_locked_def after_schedule_def)
  moreover have "sc_ready s1 p = Some c" using cdll_head[OF lists_okD(1)[OF s1(2) p]] by simp
  ultimately show ?thesis using s1 by (intro exI[of _ s1] exI[of _ "sched_unlock_irq ?s2"]) simp
qed

theorem task_yield_alone_then_sleep_witness:
  "\<exists>s1 s2. task_yield sched_alone = Some (Ret s1) \<and> task_sleep 50 s1 = Some (Ret s2) \<and> sc_current s2 = Some 100"
proof -
  have "(100 :: addr) \<noteq> sc_idle sched_alone" "5 = unat (t_priority (sc_tcb sched_alone 100))"
    by (simp_all add: sched_alone_def sched_ex_def tcb_blank_def)
  then show ?thesis using task_yield_alone_then_sleep[OF sched_alone_inv, of 5 50] by auto
qed

text \<open>A timer tick while the idle task runs. Every sleeper whose wake-up tick has come becomes
  ready and joins the list of its priority, nothing else changes state, no list loses a task; but
  the idle task runs on, whatever is ready: only another task's call can take the processor from it.\<close>

theorem scheduler_tick_idle:
  assumes "ready_inv s rl" and "unlocked s" and "sc_current s = Some (sc_idle s)" and "s1 = s\<lparr>sc_ticks := sc_ticks s + 1\<rparr>"
    and "\<forall>a \<in> set (sc_table s). unat (t_priority (sc_tcb s a)) < CONFIG_MAX_PRIORITY \<and> (due s1 a \<longrightarrow> a \<noteq> sc_idle s)"
  shows "\<exists>s' rl'. scheduler_tick s = Some (Ret s') \<and> ready_inv s' rl' \<and> unlocked s' \<and>
    sc_ticks s' = sc_ticks s + 1 \<and> sc_current s' = Some (sc_idle s) \<and>
    (\<forall>p. \<exists>new. rl' p = rl p @ new) \<and>
    (\<forall>a \<in> set (sc_table s). due s1 a \<longrightarrow> a \<in> set (rl' (unat (t_priority (sc_tcb s a))))) \<and>
    (\<forall>a. t_state (sc_tcb s' a) = (if a \<in> set (sc_table s) \<and> due s1 a then TASK_STATE_READY else t_state (sc_tcb s a)))"
proof -
  obtain s' rl' where s': "tick_loop (sc_table s1) s1 = Some s'" "ready_inv s' rl'" "unlocked s'"
    "\<forall>p. \<exists>new. rl' p = rl p @ new"
    "\<forall>a \<in> set (sc_table s1). due s1 a \<longrightarrow> a \<in> set (rl' (unat (t_priority (sc_tcb s1 a))))"
    "sc_current s' = sc_current s1" "sc_idle s' = sc_idle s1" "sc_ticks s' = sc_ticks s1"
    "\<forall>b. t_core (sc_tcb s' b) = t_core (if b \<in> set (sc_table s1) \<and> due s1 b then (sc_tcb s1 b)\<lparr>t_state := TASK_STATE_READY\<rparr> else sc_tcb s1 b)"
    using tick_loop_ok[of s1 rl "sc_table s1"] assms by auto
  have "scheduler_tick s = Some (Ret s')"
    using s'(1,6,7) assms(3,4) by (simp add: scheduler_tick_def)
  moreover have "t_state (sc_tcb s' a) = (if a \<in> set (sc_table s) \<and> due s1 a then TASK_STATE_READY else t_state (sc_tcb s a))" for a
    using t_core_eqD(2)[OF spec[OF s'(9), of a]] assms(4) by simp
  ultimately show ?thesis using s' assms(3,4) by (intro exI[of _ s'] exI[of _ rl'] conjI allI) simp_all
qed

theorem scheduler_tick_idle_witness:
  "\<exists>s'. scheduler_tick (sched_ex 1) = Some (Ret s') \<and> t_state (sc_tcb s' 400) = TASK_STATE_READY \<and> sc_current s' = Some 1"
proof -
  have "ready_inv (sched_ex 1) rl_ex" "unlocked (sched_ex 1)" "sc_current (sched_ex 1) = Some (sc_idle (sched_ex 1))"
    using sched_ex_inv[of 1] by (simp_all add: run_inv_def sched_ex_def)
  from scheduler_tick_idle[OF this refl] show ?thesis
    by (auto simp: sched_ex_def due_def tcb_blank_def CONFIG_MAX_PRIORITY_def)
qed

text \<open>Creating and starting a task before the scheduler runs. Valid arguments give \<open>STATUS_OK\<close>; the
  task is registered in the table, then queued at the tail of the list of its priority, ready, with
  the entry point and argument in its saved registers 0 and 1, and no other task changes.\<close>

theorem task_create_start:
  assumes inv: "ready_inv s rl" and u: "unlocked s" and nr: "\<not> sc_running s"
    and args: "entry \<noteq> 0" "stk \<noteq> 0" "unat prio < CONFIG_MAX_PRIORITY" "length (sc_table s) < CONFIG_MAX_TASKS"
    and new: "a \<noteq> sc_idle s" "\<forall>p. a \<notin> set (rl p)"
  shows "\<exists>s1 s2. task_create (Some a) name entry arg prio stk n s = Some (STATUS_OK, s1) \<and>
    sc_table s1 = sc_table s @ [a] \<and> task_start (Some a) s1 = Some (STATUS_OK, Ret s2) \<and>
    ready_inv s2 (rl(unat prio := rl (unat prio) @ [a])) \<and> unlocked s2 \<and>
    t_regs (sc_tcb s2 a) 0 = entry \<and> t_regs (sc_tcb s2 a) 1 = arg \<and> t_elr (sc_tcb s2 a) = sc_wrapper_addr s \<and>
    t_sp (sc_tcb s2 a) = ((stk + n) AND NOT 15) - 272 \<and>
    (\<forall>b. b \<noteq> a \<longrightarrow> t_core (sc_tcb s2 b) = t_core (sc_tcb s b))"
proof -
  obtain s1 where s1: "task_create (Some a) name entry arg prio stk n s = Some (STATUS_OK, s1)"
    "sc_table s1 = sc_table s @ [a]" "unlocked s1" "sc_ready s1 = sc_ready s" "sc_idle s1 = sc_idle s"
    "sc_running s1 = sc_running s" "\<forall>b. b \<noteq> a \<longrightarrow> sc_tcb s1 b = sc_tcb s b"
    "t_state (sc_tcb s1 a) = TASK_STATE_SUSPENDED" "t_priority (sc_tcb s1 a) = prio"
    "t_elr (sc_tcb s1 a) = sc_wrapper_addr s" "t_regs (sc_tcb s1 a) 0 = entry" "t_regs (sc_tcb s1 a) 1 = arg"
    "t_sp (sc_tcb s1 a) = ((stk + n) AND NOT 15) - 272"
    using task_create_ok[OF u args, of a name arg n] by blast
  have inv1: "ready_inv s1 rl"
    unfolding s1(4,5) by (rule lists_ok_frame[OF inv]) (use s1(7) new in metis)
  obtain s2 where s2: "task_start (Some a) s1 = Some (STATUS_OK, Ret s2)"
    "ready_inv s2 (rl(unat prio := rl (unat prio) @ [a]))" "unlocked s2"
    "\<forall>b. t_core (sc_tcb s2 b) = t_core (if b = a then (sc_tcb s1 a)\<lparr>t_state := TASK_STATE_READY\<rparr> else sc_tcb s1 b)"
    using task_start_ok[OF inv1 s1(3,8), of "unat prio"] s1(5,6,9) args(3) new(1) nr by auto
  have core: "t_core (sc_tcb s2 b) = t_core (sc_tcb s b)" if "b \<noteq> a" for b
    using spec[OF s2(4), of b] s1(7) that by simp
  show ?thesis
    using s1(1,2,9-13) s2(1-3) core t_core_eqD(8-10)[OF spec[OF s2(4), of a]]
    by (intro exI[of _ s1] exI[of _ s2] conjI allI impI) simp_all
qed

theorem task_create_start_witness:
  "\<exists>s1 s2. task_create (Some 500) ''net'' 64 0 7 4096 1024 (sched_ex 100) = Some (STATUS_OK, s1) \<and>
     task_start (Some 500) s1 = Some (STATUS_OK, Ret s2) \<and> ready_inv s2 (rl_ex(7 := [500]))"
proof -
  have "ready_inv (sched_ex 100) rl_ex" "unlocked (sched_ex 100)" "\<not> sc_running (sched_ex 100)"
    using sched_ex_inv[of 100] by (simp_all add: run_inv_def sched_ex_def)
  moreover have "length (sc_table (sched_ex 100)) < CONFIG_MAX_TASKS" "500 \<noteq> sc_idle (sched_ex 100)"
    "\<forall>p. 500 \<notin> set (rl_ex p)" "rl_ex 7 = []"
    by (simp_all add: sched_ex_def rl_ex_def CONFIG_MAX_TASKS_def)
  ultimately show ?thesis
    using task_create_start[of "sched_ex 100" rl_ex 64 4096 7 500 "''net''" 0 1024]
    by (fastforce simp: CONFIG_MAX_PRIORITY_def)
qed

text \<open>How a new task starts. The context switch returns to the address in \<open>regs[11]\<close> of the incoming
  block, which \<open>task_create\<close> never sets: wherever the new task begins, its entry point does not
  decide it. Nor does it pass through the end of \<open>task_yield\<close>, so the scheduler lock stays held,
  and the next operation that takes it never returns.\<close>

theorem new_task_context:
  assumes run: "run_inv s rl c" and ci: "c \<noteq> sc_idle s" and args: "entry \<noteq> 0" "stk \<noteq> 0" "unat prio < CONFIG_MAX_PRIORITY"
    "length (sc_table s) < CONFIG_MAX_TASKS" and nr: "\<not> sc_running s"
    and a: "a \<noteq> c" "a \<noteq> sc_idle s" "\<forall>p. a \<notin> set (rl p)"
    and high: "\<forall>p \<ge> unat prio. rl p = []" "unat (t_priority (sc_tcb s c)) < unat prio"
  shows "\<exists>s1 s2 s3. task_create (Some a) name entry arg prio stk n s = Some (STATUS_OK, s1) \<and>
    task_start (Some a) s1 = Some (STATUS_OK, Ret s2) \<and> task_yield s2 = Some (Sw s3) \<and> sc_current s3 = Some a \<and>
    cpu_pc (sc_cpu s3) = t_regs (sc_tcb s a) 11 \<and> task_yield s3 = None \<and> task_sleep k s3 = None"
proof -
  have r: "ready_inv s rl" "sc_current s = Some c" "t_state (sc_tcb s c) = TASK_STATE_RUNNING"
    "\<forall>p. c \<notin> set (rl p)" "unlocked s" "unat (t_priority (sc_tcb s c)) < CONFIG_MAX_PRIORITY"
    using run by (auto simp: run_inv_def)
  obtain s1 where s1: "task_create (Some a) name entry arg prio stk n s = Some (STATUS_OK, s1)"
    "unlocked s1" "sc_ready s1 = sc_ready s" "sc_idle s1 = sc_idle s" "sc_current s1 = sc_current s"
    "sc_running s1 = sc_running s" "\<forall>b. b \<noteq> a \<longrightarrow> sc_tcb s1 b = sc_tcb s b"
    "t_state (sc_tcb s1 a) = TASK_STATE_SUSPENDED" "t_priority (sc_tcb s1 a) = prio"
    "\<forall>i. i \<notin> {0, 1, 29, 30} \<longrightarrow> t_regs (sc_tcb s1 a) i = t_regs (sc_tcb s a) i"
    using task_create_ok[OF r(5) args, of a name arg n] by blast
  have inv1: "ready_inv s1 rl"
    unfolding s1(3,4) by (rule lists_ok_frame[OF r(1)]) (use s1(7) a(3) in metis)
  let ?rl = "rl(unat prio := rl (unat prio) @ [a])"
  obtain s2 where s2: "task_start (Some a) s1 = Some (STATUS_OK, Ret s2)" "ready_inv s2 ?rl" "unlocked s2"
    "sc_idle s2 = sc_idle s" "sc_current s2 = Some c"
    "\<forall>b. t_core (sc_tcb s2 b) = t_core (if b = a then (sc_tcb s1 a)\<lparr>t_state := TASK_STATE_READY\<rparr> else sc_tcb s1 b)"
    using task_start_ok[OF inv1 s1(2,8), of "unat prio"] s1(4-6,9) args(3) a(2) nr r(2) by auto
  have c2: "t_state (sc_tcb s2 c) = TASK_STATE_RUNNING" "t_priority (sc_tcb s2 c) = t_priority (sc_tcb s c)"
    using t_core_eqD(1,2)[OF spec[OF s2(6), of c]] a(1) s1(7) r(3) by simp_all
  have run2: "run_inv s2 ?rl c" using s2(2,3,5) c2 r(4,6) a(1) by (simp add: run_inv_def)
  define p where "p = unat (t_priority (sc_tcb s c))"
  have "highest (?rl(p := ?rl p @ [c])) = Some (unat prio)"
    unfolding highest_Some using args(3) high by (auto simp: p_def)
  then have th: "take_highest (?rl(p := ?rl p @ [c])) (sc_idle s2) = (a, (?rl(p := ?rl p @ [c]))(unat prio := []))"
    using high by (simp add: take_highest_def p_def)
  obtain s3 where s3: "task_yield s2 = Some (Sw s3)" "sc_current s3 = Some a" "sl_lock (sc_lock s3) = 1"
    "cpu_pc (sc_cpu s3) = t_regs (sc_tcb s2 a) 11"
    using task_yield_switch[OF run2 _ _ th a(1)] ci s2(4) c2(2) by (auto simp: p_def)
  have "t_regs (sc_tcb s2 a) 11 = t_regs (sc_tcb s a) 11"
    using t_core_eqD(9)[OF spec[OF s2(6), of a]] s1(10) by simp
  moreover have "sched_lock_irq s3 = None" by (rule sched_lock_held) (simp add: s3(3))
  ultimately show ?thesis using s1(1) s2(1) s3
    by (intro exI[of _ s1] exI[of _ s2] exI[of _ s3]) (simp add: task_yield_def task_sleep_def)
qed

theorem new_task_context_witness:
  "\<exists>s1 s2 s3. task_create (Some 500) ''net'' 64 0 7 4096 1024 (sched_ex 100) = Some (STATUS_OK, s1) \<and>
     task_start (Some 500) s1 = Some (STATUS_OK, Ret s2) \<and> task_yield s2 = Some (Sw s3) \<and>
     sc_current s3 = Some 500 \<and> cpu_pc (sc_cpu s3) = 0"
proof -
  have ex: "100 \<noteq> sc_idle (sched_ex 100)" "length (sc_table (sched_ex 100)) < CONFIG_MAX_TASKS"
    "\<not> sc_running (sched_ex 100)" "500 \<noteq> sc_idle (sched_ex 100)" "\<forall>p. 500 \<notin> set (rl_ex p)"
    "\<forall>p \<ge> unat (7 :: u8). rl_ex p = []" "unat (t_priority (sc_tcb (sched_ex 100) 100)) < unat (7 :: u8)"
    "t_regs (sc_tcb (sched_ex 100) 500) 11 = 0"
    by (simp_all add: sched_ex_def tcb_blank_def rl_ex_def CONFIG_MAX_TASKS_def)
  show ?thesis
    using new_task_context[where k = 0, OF sched_ex_inv[of 100] ex(1) _ _ _ ex(2,3) _ ex(4-7), of 64 4096 "''net''" 0 1024] ex(8)
    by (auto simp: CONFIG_MAX_PRIORITY_def)
qed

end
