(* ===== verification/Sync_Props.thy ===== *)
theory Sync_Props
  imports Sync Sched_Props Fifo
begin

text \<open>
  Properties of the synchronisation objects: what blocks whom and who is woken, and what waking
  means for the ready lists; recursive locking; event flags; message queues as fifos.
\<close>

section \<open>Helper facts\<close>

definition set_daif :: "u64 \<Rightarrow> sched \<Rightarrow> sched" where
  "set_daif d s = s\<lparr>sc_cpu := (sc_cpu s)\<lparr>cpu_daif := d\<rparr>\<rparr>"

lemma set_daif_simps [simp]:
  "sc_tcb (set_daif d s) = sc_tcb s" "sc_ready (set_daif d s) = sc_ready s"
  "sc_idle (set_daif d s) = sc_idle s" "sc_current (set_daif d s) = sc_current s"
  "sc_table (set_daif d s) = sc_table s" "sc_ticks (set_daif d s) = sc_ticks s"
  "sc_running (set_daif d s) = sc_running s" "sc_lock (set_daif d s) = sc_lock s"
  "sc_schedule_ra (set_daif d s) = sc_schedule_ra s"
  by (simp_all add: set_daif_def)

lemma obj_lock_free:
  "sl_lock l = 0 \<Longrightarrow> obj_lock l s =
     Some (l\<lparr>sl_irq_flags := ucast (cpu_daif (sc_cpu s)), sl_lock := 1\<rparr>, set_daif (cpu_daif (sc_cpu s) OR DAIF_I) s)"
  by (simp add: obj_lock_def spin_lock_irq_def spin_lock_def arch_irq_save_def set_daif_def)

lemma obj_unlock_eq: "obj_unlock l s = (l\<lparr>sl_lock := 0\<rparr>, set_daif (ucast (sl_irq_flags l)) s)"
  by (simp add: obj_unlock_def spin_unlock_irq_def spin_unlock_def arch_irq_restore_def set_daif_def)

text \<open>\<open>wl s p ws\<close>: the wait list at \<open>p\<close> holds the tasks \<open>ws\<close>, most recent first.\<close>

abbreviation wl :: "sched \<Rightarrow> ptr \<Rightarrow> addr list \<Rightarrow> bool" where
  "wl s p ws \<equiv> dll (\<lambda>a. t_next (sc_tcb s a)) (\<lambda>a. t_prev (sc_tcb s a)) p ws"

lemma wl_add:
  assumes "wl s p ws" and "distinct ws" and "a \<notin> set ws" and "wait_list_add p a s = (p', s')"
  shows "p' = Some a" "wl s' p' (a # ws)"
    "\<And>b. t_core (sc_tcb s' b) = t_core (sc_tcb s b)"
    "\<And>b. b \<notin> set (a # ws) \<Longrightarrow> sc_tcb s' b = sc_tcb s b"
    "\<exists>T. s' = s\<lparr>sc_tcb := T\<rparr>"
proof -
  have pne: "p \<noteq> Some a" using assms(1,3) by (cases ws) auto
  have pin: "p = Some x \<Longrightarrow> x \<in> set ws" for x using assms(1) by (cases ws) auto
  show p': "p' = Some a" using assms(4) by (auto simp: wait_list_add_def Let_def)
  have s': "s' = (case p of None \<Rightarrow> t_upd a (\<lambda>t. t\<lparr>t_next := p, t_prev := None\<rparr>) s
      | Some h \<Rightarrow> t_upd h (t_prev_update (\<lambda>_. Some a)) (t_upd a (\<lambda>t. t\<lparr>t_next := p, t_prev := None\<rparr>) s))"
    using assms(4) by (auto simp: wait_list_add_def Let_def split: option.splits)
  show "wl s' p' (a # ws)"
    unfolding p' by (rule dll_push[OF assms(1,2)]) (use assms(3) pne in \<open>auto simp: s' split: option.split\<close>)
  show "t_core (sc_tcb s' b) = t_core (sc_tcb s b)" for b
    using pne by (auto simp: s' split: option.split)
  show "b \<notin> set (a # ws) \<Longrightarrow> sc_tcb s' b = sc_tcb s b" for b
    using pin by (auto simp: s' split: option.split)
  show "\<exists>T. s' = s\<lparr>sc_tcb := T\<rparr>"
    by (auto simp: s' t_upd_def split: option.split)
qed

lemma wl_remove_first:
  assumes "wl s p (a # ws)" and "distinct (a # ws)" and "wait_list_remove_first p s = (w, p', s')"
  shows "w = Some a" "wl s' p' ws"
    "\<And>b. t_core (sc_tcb s' b) = t_core (sc_tcb s b)"
    "\<And>b. b \<notin> set (a # ws) \<Longrightarrow> sc_tcb s' b = sc_tcb s b"
    "\<exists>T. s' = s\<lparr>sc_tcb := T\<rparr>"
proof -
  have p: "p = Some a" using assms(1) by auto
  let ?n = "t_next (sc_tcb s a)"
  have nne: "?n \<noteq> Some a" using assms(1,2) by (cases ws) auto
  have nin: "?n = Some x \<Longrightarrow> x \<in> set ws" for x using assms(1) by (cases ws) auto
  have p': "p' = ?n" and w: "w = Some a" using assms(3) by (auto simp: wait_list_remove_first_def p Let_def)
  have s': "s' = t_upd a (t_next_update (\<lambda>_. None))
      (case ?n of None \<Rightarrow> s | Some h \<Rightarrow> t_upd h (t_prev_update (\<lambda>_. None)) s)"
    using assms(3) by (auto simp: wait_list_remove_first_def p Let_def)
  show "w = Some a" by (rule w)
  show "wl s' p' ws"
    unfolding p' by (rule dll_pop[OF assms(1)[unfolded p]])
      (use assms(2) nne in \<open>auto simp: s' split: option.split\<close>)
  show "t_core (sc_tcb s' b) = t_core (sc_tcb s b)" for b
    using nne by (auto simp: s' split: option.split)
  show "b \<notin> set (a # ws) \<Longrightarrow> sc_tcb s' b = sc_tcb s b" for b
    using nin by (auto simp: s' split: option.split)
  show "\<exists>T. s' = s\<lparr>sc_tcb := T\<rparr>"
    by (auto simp: s' t_upd_def split: option.split)
qed

lemma wl_empty: "wl s p [] \<Longrightarrow> wait_list_remove_first p s = (None, None, s)"
  by (simp add: wait_list_remove_first_def)

text \<open>A task that is not running gives up the processor.\<close>

lemma task_yield_blocked:
  assumes inv: "ready_inv s rl" and cur: "sc_current s = Some c" and st: "t_state (sc_tcb s c) \<noteq> TASK_STATE_RUNNING"
    and c: "\<forall>p. c \<notin> set (rl p)" "c \<noteq> sc_idle s" and u: "unlocked s" and th: "take_highest rl (sc_idle s) = (n, rl')"
  shows "\<exists>s'. task_yield s = Some (Sw s') \<and> ready_inv s' rl' \<and> sc_current s' = Some n \<and> sc_idle s' = sc_idle s \<and>
    sl_lock (sc_lock s') = 1 \<and> n \<noteq> c \<and>
    (\<forall>b. (\<forall>p. b \<notin> set (rl p)) \<longrightarrow> t_next (sc_tcb s' b) = t_next (sc_tcb s b) \<and> t_prev (sc_tcb s' b) = t_prev (sc_tcb s b)) \<and>
    (\<forall>b. t_info (sc_tcb s' b) = t_info (if b = n then (sc_tcb s n)\<lparr>t_state := TASK_STATE_RUNNING\<rparr> else sc_tcb s b))"
proof -
  have nc: "n \<noteq> c" using take_highest_notin(3)[OF inv th] c by auto
  let ?s1 = "sched_locked s"
  obtain T R cpu where sch: "schedule_locked ?s1 = Some (Sw (?s1\<lparr>sc_tcb := T, sc_ready := R, sc_current := Some n, sc_cpu := cpu\<rparr>))"
    "lists_ok T R (sc_idle s) rl'"
    "\<forall>b. t_info (T b) = t_info (if b = n then (sc_tcb s n)\<lparr>t_state := TASK_STATE_RUNNING\<rparr> else sc_tcb s b)"
    "\<forall>b. (\<forall>p. b \<notin> set (rl p)) \<longrightarrow> t_next (T b) = t_next (sc_tcb s b) \<and> t_prev (T b) = t_prev (sc_tcb s b)"
    using schedule_locked_ok[of ?s1 rl c n rl'] inv cur th nc by auto
  let ?s2 = "?s1\<lparr>sc_tcb := T, sc_ready := R, sc_current := Some n, sc_cpu := cpu\<rparr>"
  have "task_yield s = Some (Sw ?s2)"
    using sch(1) cur st by (simp add: task_yield_def sched_lock_ok[OF u] after_schedule_def)
  then show ?thesis using sch(2-4) nc by (intro exI[of _ ?s2]) simp
qed

lemma wl_cong:
  "(\<And>x. x \<in> set ws \<Longrightarrow> t_next (sc_tcb s' x) = t_next (sc_tcb s x) \<and> t_prev (sc_tcb s' x) = t_prev (sc_tcb s x)) \<Longrightarrow>
     wl s p ws \<Longrightarrow> wl s' p ws"
  using dseg_cong[of ws "\<lambda>a. t_next (sc_tcb s' a)" "\<lambda>a. t_next (sc_tcb s a)" "\<lambda>a. t_prev (sc_tcb s' a)"
      "\<lambda>a. t_prev (sc_tcb s a)" None p _ None] by auto

lemma block_on_ok:
  assumes "wl s p ws" and "distinct ws" and "c \<notin> set ws" and "block_on a p c s = (p', s')"
  shows "p' = Some c" "wl s' p' (c # ws)" "\<exists>T. s' = s\<lparr>sc_tcb := T\<rparr>"
    "\<And>b. b \<notin> set (c # ws) \<Longrightarrow> sc_tcb s' b = sc_tcb s b"
    "\<And>b. t_core (sc_tcb s' b) =
       t_core (if b = c then (sc_tcb s c)\<lparr>t_state := TASK_STATE_BLOCKED, t_wait_obj := Some a\<rparr> else sc_tcb s b)"
proof -
  let ?s = "t_upd c (\<lambda>t. t\<lparr>t_state := TASK_STATE_BLOCKED, t_wait_obj := Some a\<rparr>) s"
  have wl: "wl ?s p ws" by (rule wl_cong[OF _ assms(1)]) (use assms(3) in auto)
  note r = wl_add[OF wl assms(2,3) assms(4)[unfolded block_on_def]]
  show "p' = Some c" "wl s' p' (c # ws)" by (rule r)+
  show "\<exists>T. s' = s\<lparr>sc_tcb := T\<rparr>" using r(5) by (auto simp: t_upd_def)
  show "b \<notin> set (c # ws) \<Longrightarrow> sc_tcb s' b = sc_tcb s b" for b using r(4)[of b] by simp
  show "t_core (sc_tcb s' b) =
       t_core (if b = c then (sc_tcb s c)\<lparr>t_state := TASK_STATE_BLOCKED, t_wait_obj := Some a\<rparr> else sc_tcb s b)" for b
    using r(3)[of b] by simp
qed

text \<open>The running task \<open>c\<close> blocks on the object at \<open>a\<close> and yields.\<close>

lemma block_and_yield:
  assumes run: "run_inv s rl c" and ci: "c \<noteq> sc_idle s" and w: "wl s p ws" "distinct ws"
    and ws: "\<And>x q. x \<in> set ws \<Longrightarrow> x \<noteq> c \<and> x \<notin> set (rl q) \<and> x \<noteq> sc_idle s"
    and th: "take_highest rl (sc_idle s) = (n, rl')"
    and eq: "block_on a p c (set_daif d s) = (p', s1)"
  shows "\<exists>s'. task_yield (set_daif d' s1) = Some (Sw s') \<and> ready_inv s' rl' \<and> sc_current s' = Some n \<and>
    sc_idle s' = sc_idle s \<and> sl_lock (sc_lock s') = 1 \<and> p' = Some c \<and> wl s' p' (c # ws) \<and>
    t_state (sc_tcb s' c) = TASK_STATE_BLOCKED \<and> t_wait_obj (sc_tcb s' c) = Some a \<and> n \<noteq> c \<and>
    (\<forall>q. c \<notin> set (rl' q)) \<and> t_state (sc_tcb s' n) = TASK_STATE_RUNNING"
proof -
  have r: "ready_inv s rl" "sc_current s = Some c" "\<forall>p. c \<notin> set (rl p)" "unlocked s"
    using run by (auto simp: run_inv_def)
  have w': "wl (set_daif d s) p ws" using w(1) by simp
  note b = block_on_ok[OF w' w(2) _ eq]
  have cw: "c \<notin> set ws" using ws by blast
  obtain T where s1: "s1 = (set_daif d s)\<lparr>sc_tcb := T\<rparr>" using b(3)[OF cw] by blast
  let ?s = "set_daif d' s1"
  have inv1: "ready_inv ?s rl"
  proof -
    have "T x = sc_tcb s x" if "x \<in> set (rl q)" for x q
      using b(4)[OF cw, of x] that ws r(3) s1 by auto
    then show ?thesis using lists_ok_frame[OF r(1), of T] by (simp add: s1)
  qed
  have core: "t_state (sc_tcb ?s c) = TASK_STATE_BLOCKED" "t_wait_obj (sc_tcb ?s c) = Some a"
    using t_core_eqD(2,3)[OF b(5)[OF cw, of c]] by simp_all
  obtain s' where s': "task_yield ?s = Some (Sw s')" "ready_inv s' rl'" "sc_current s' = Some n"
    "sc_idle s' = sc_idle s" "sl_lock (sc_lock s') = 1" "n \<noteq> c"
    "\<forall>b. (\<forall>p. b \<notin> set (rl p)) \<longrightarrow> t_next (sc_tcb s' b) = t_next (sc_tcb ?s b) \<and> t_prev (sc_tcb s' b) = t_prev (sc_tcb ?s b)"
    "\<forall>b. t_info (sc_tcb s' b) = t_info (if b = n then (sc_tcb ?s n)\<lparr>t_state := TASK_STATE_RUNNING\<rparr> else sc_tcb ?s b)"
    using task_yield_blocked[OF inv1, of c n rl'] core r ci th by (auto simp: s1)
  have "wl s' p' (c # ws)"
    by (rule wl_cong[OF _ b(2)[OF cw]]) (use s'(7) r(3) ws in auto)
  moreover have "\<forall>q. c \<notin> set (rl' q)" using take_highest_notin(2)[OF r(1) th] r(3) by blast
  ultimately show ?thesis
    using s' b(1)[OF cw] core t_info_eqD(2,3)[OF spec[OF s'(8), of c]] t_info_eqD(2)[OF spec[OF s'(8), of n]]
    by (intro exI[of _ s']) simp
qed

lemma sem_wait_blocks_aux:
  assumes run: "run_inv s rl c" and ci: "c \<noteq> sc_idle s" and w: "wl s (sem_wait_list sem) ws" "distinct ws"
    and ws: "\<And>x q. x \<in> set ws \<Longrightarrow> x \<noteq> c \<and> x \<notin> set (rl q) \<and> x \<noteq> sc_idle s"
    and th: "take_highest rl (sc_idle s) = (n, rl')" and sem: "sint (sem_count sem) \<le> 0" "sl_lock (sem_lock sem) = 0"
  shows "\<exists>sem' s'. sem_wait a sem s = Some (WBlock sem' (Sw s')) \<and> sem_count sem' = sem_count sem \<and>
    sl_lock (sem_lock sem') = 0 \<and> ready_inv s' rl' \<and> sc_current s' = Some n \<and> sc_idle s' = sc_idle s \<and>
    wl s' (sem_wait_list sem') (c # ws) \<and>
    t_state (sc_tcb s' c) = TASK_STATE_BLOCKED \<and> t_wait_obj (sc_tcb s' c) = Some a \<and>
    (\<forall>q. c \<notin> set (rl' q)) \<and> n \<noteq> c \<and> t_state (sc_tcb s' n) = TASK_STATE_RUNNING"
proof -
  let ?l = "(sem_lock sem)\<lparr>sl_irq_flags := ucast (cpu_daif (sc_cpu s)), sl_lock := 1\<rparr>"
  obtain p' s1 where b: "block_on a (sem_wait_list sem) c (set_daif (cpu_daif (sc_cpu s) OR DAIF_I) s) = (p', s1)"
    by (rule prod.exhaust)
  let ?d = "ucast (sl_irq_flags ?l)"
  obtain s' where s': "task_yield (set_daif ?d s1) = Some (Sw s')" "ready_inv s' rl'" "sc_current s' = Some n"
    "sc_idle s' = sc_idle s" "p' = Some c" "wl s' p' (c # ws)" "t_state (sc_tcb s' c) = TASK_STATE_BLOCKED"
    "t_wait_obj (sc_tcb s' c) = Some a" "n \<noteq> c" "\<forall>q. c \<notin> set (rl' q)" "t_state (sc_tcb s' n) = TASK_STATE_RUNNING"
    using block_and_yield[OF run ci w ws th b] by blast
  have "sem_wait a sem s = Some (WBlock (sem\<lparr>sem_lock := ?l\<lparr>sl_lock := 0\<rparr>, sem_wait_list := p'\<rparr>) (Sw s'))"
    using sem run b s'(1) by (simp add: sem_wait_def obj_lock_free sem_wait_loop_def task_current_def run_inv_def obj_unlock_eq)
  then show ?thesis using s' by auto
qed

lemma lists_ok_not_ready:
  "lists_ok T R idle rl \<Longrightarrow> t_state (T a) \<noteq> TASK_STATE_READY \<Longrightarrow> a \<notin> set (rl p)"
  using lists_okD(4) by blast

lemma sem_post_aux:
  assumes inv: "ready_inv s rl" and sem: "sl_lock (sem_lock sem) = 0"
    and w: "wl s (sem_wait_list sem) (c # ws)" "distinct (c # ws)"
    and off: "\<And>x q. x \<in> set (c # ws) \<Longrightarrow> x \<notin> set (rl q)"
  shows "\<exists>sem' s'. sem_post sem s = Some (sem', s') \<and> sem_count sem' = sem_count sem + 1 \<and>
    sl_lock (sem_lock sem') = 0 \<and> wl s' (sem_wait_list sem') ws \<and> ready_inv s' rl \<and> sc_current s' = sc_current s \<and>
    t_state (sc_tcb s' c) = TASK_STATE_READY \<and> t_wait_obj (sc_tcb s' c) = None \<and>
    (\<forall>b. b \<noteq> c \<longrightarrow> t_core (sc_tcb s' b) = t_core (sc_tcb s b))"
proof -
  let ?d = "cpu_daif (sc_cpu s)"
  let ?s = "set_daif (?d OR DAIF_I) s"
  obtain w' list s1 where rm: "wait_list_remove_first (sem_wait_list sem) ?s = (w', list, s1)"
    using prod_cases3 by blast
  note r = wl_remove_first[of ?s "sem_wait_list sem" c ws, OF _ w(2) rm]
  have wl': "wl ?s (sem_wait_list sem) (c # ws)" using w(1) by simp
  obtain T where s1: "s1 = ?s\<lparr>sc_tcb := T\<rparr>" using r(5)[OF wl'] by blast
  let ?s2 = "wake (Some c) s1"
  let ?s3 = "set_daif (ucast (ucast ?d :: u32)) ?s2"
  let ?sem = "sem\<lparr>sem_count := sem_count sem + 1, sem_wait_list := list,
      sem_lock := (sem_lock sem)\<lparr>sl_irq_flags := ucast ?d, sl_lock := 0\<rparr>\<rparr>"
  have post: "sem_post sem s = Some (?sem, ?s3)"
    using rm r(1)[OF wl'] by (simp add: sem_post_def obj_lock_free[OF sem] obj_unlock_eq)
  have "wl ?s3 list ws"
    by (rule wl_cong[OF _ r(2)[OF wl']]) (use w(2) in \<open>auto simp: wake_def\<close>)
  moreover have "ready_inv ?s3 rl"
  proof -
    have "sc_tcb ?s3 x = sc_tcb s x" if "x \<in> set (rl q)" for x q
    proof -
      have "x \<notin> set (c # ws)" using off that by blast
      then show ?thesis using r(4)[OF wl', of x] by (simp add: wake_def)
    qed
    then show ?thesis using lists_ok_frame[OF inv, of "sc_tcb ?s3"] by (simp add: wake_def s1)
  qed
  moreover have "\<forall>b. b \<noteq> c \<longrightarrow> t_core (sc_tcb ?s3 b) = t_core (sc_tcb s b)"
    using r(3)[OF wl'] by (simp add: wake_def)
  ultimately show ?thesis using post
    by (intro exI[of _ ?sem] exI[of _ ?s3]) (simp add: wake_def s1)
qed

section \<open>Waking every waiter\<close>

lemma wake_all_ok:
  assumes "wl s p ws" and "distinct ws"
  shows "\<exists>s' T. wake_all p s = Some (None, s') \<and> s' = s\<lparr>sc_tcb := T\<rparr> \<and>
    (\<forall>b. b \<notin> set ws \<longrightarrow> T b = sc_tcb s b) \<and>
    (\<forall>b. t_core (T b) = t_core (if b \<in> set ws
       then (sc_tcb s b)\<lparr>t_wait_obj := None, t_wait_result := STATUS_OK, t_state := TASK_STATE_READY\<rparr> else sc_tcb s b))"
  using assms
proof (induction ws arbitrary: p s)
  case Nil
  then show ?case by (subst wake_all.simps) (auto simp: wl_empty intro!: exI[of _ "sc_tcb s"])
next
  case (Cons a ws)
  obtain w p1 s1 where rm: "wait_list_remove_first p s = (w, p1, s1)" using prod_cases3 by blast
  note r = wl_remove_first[OF Cons.prems rm]
  obtain T1 where T1: "s1 = s\<lparr>sc_tcb := T1\<rparr>" using r(5) by blast
  let ?s2 = "wake (Some a) s1"
  have "wl ?s2 p1 ws"
    by (rule wl_cong[OF _ r(2)]) (use Cons.prems(2) in \<open>auto simp: wake_def\<close>)
  then obtain s' T where s': "wake_all p1 ?s2 = Some (None, s')" "s' = ?s2\<lparr>sc_tcb := T\<rparr>"
    "\<forall>b. b \<notin> set ws \<longrightarrow> T b = sc_tcb ?s2 b"
    "\<forall>b. t_core (T b) = t_core (if b \<in> set ws
       then (sc_tcb ?s2 b)\<lparr>t_wait_obj := None, t_wait_result := STATUS_OK, t_state := TASK_STATE_READY\<rparr> else sc_tcb ?s2 b)"
    using Cons.IH Cons.prems(2) by force
  have run: "wake_all p s = Some (None, s')" using rm r(1) s'(1) by (subst wake_all.simps) simp
  have s'eq: "s' = s\<lparr>sc_tcb := T\<rparr>" using s'(2) by (simp add: wake_def T1 t_upd_def)
  have off: "T b = sc_tcb s b" if "b \<notin> set (a # ws)" for b
    using s'(3) r(4)[OF that] that by (simp add: wake_def)
  have upd: "t_core (t\<lparr>t_wait_obj := None, t_wait_result := STATUS_OK, t_state := TASK_STATE_READY\<rparr>) =
      t_core (t'\<lparr>t_wait_obj := None, t_wait_result := STATUS_OK, t_state := TASK_STATE_READY\<rparr>)"
    if "t_core t = t_core t'" for t t' using that unfolding t_core_def by (cases t; cases t') simp
  have "t_core (T b) = t_core (if b \<in> set (a # ws)
       then (sc_tcb s b)\<lparr>t_wait_obj := None, t_wait_result := STATUS_OK, t_state := TASK_STATE_READY\<rparr> else sc_tcb s b)" for b
    using spec[OF s'(4), of b] r(3)[of b] upd[OF r(3)[of b]] Cons.prems(2) by (auto simp: wake_def)
  then show ?case using run s'eq off by blast
qed

section \<open>Message queues as fifos\<close>

lemma msgq_copy_in_ok:
  "length src = n \<Longrightarrow> \<exists>g. msgq_copy_in n dst src f = Some g \<and>
     (\<forall>x. g x = (if dst \<le> x \<and> x < dst + n then src ! (x - dst) else f x))"
proof (induction n arbitrary: dst src f)
  case (Suc n)
  then obtain b bs where src: "src = b # bs" "length bs = n" by (cases src) auto
  from Suc.IH[OF src(2), of "dst + 1" "f(dst := b)"] obtain g where
    g: "msgq_copy_in n (dst + 1) bs (f(dst := b)) = Some g"
    "\<forall>x. g x = (if dst + 1 \<le> x \<and> x < dst + 1 + n then bs ! (x - (dst + 1)) else (f(dst := b)) x)" by blast
  have "g x = (if dst \<le> x \<and> x < dst + Suc n then src ! (x - dst) else f x)" for x
    using spec[OF g(2), of x] by (cases "x = dst") (auto simp: src nth_Cons' Suc_diff_le)
  then show ?case using g(1) src by auto
qed auto

lemma msgq_copy_out_eq: "msgq_copy_out n src f = map (\<lambda>i. f (src + i)) [0..<n]"
proof (induction n arbitrary: src)
  case (Suc n)
  then show ?case by (simp add: upt_rec[of 0 "Suc n"] map_Suc_upt[symmetric] del: upt_Suc)
qed simp

text \<open>Message \<open>i\<close> of the queue is in slot \<open>(head + i) mod capacity\<close>; nobody waits.\<close>

definition mq_rep :: "nat \<Rightarrow> nat \<Rightarrow> msgqueue \<times> sched \<Rightarrow> u8 list list \<Rightarrow> bool" where
  "mq_rep cap sz = (\<lambda>(mq, s) xs.
     0 < cap \<and> 0 < sz \<and> mq_capacity mq = cap \<and> mq_msg_size mq = sz \<and> mq_head mq < cap \<and>
     mq_count mq = length xs \<and> length xs \<le> cap \<and> mq_tail mq = (mq_head mq + length xs) mod cap \<and>
     (\<forall>i < length xs. xs ! i = map (\<lambda>j. mq_buffer mq ((mq_head mq + i) mod cap * sz + j)) [0..<sz]) \<and>
     sl_lock (mq_lock mq) = 0 \<and> mq_send_wait mq = None \<and> mq_recv_wait mq = None)"

definition mq_ok :: "nat \<Rightarrow> nat \<Rightarrow> u8 list list \<Rightarrow> u8 list \<Rightarrow> bool" where
  "mq_ok cap sz xs m \<longleftrightarrow> length xs < cap \<and> length m = sz"

text \<open>Non-blocking calls (timeout 0) as operations of a queue.\<close>

definition mq_enq :: "addr \<Rightarrow> u8 list \<Rightarrow> msgqueue \<times> sched \<Rightarrow> (msgqueue \<times> sched) option" where
  "mq_enq a m = (\<lambda>(mq, s). case msgq_send a m 0 mq s of
     Some (WDone STATUS_OK mq s) \<Rightarrow> Some (mq, s) | _ \<Rightarrow> None)"

definition mq_deq :: "addr \<Rightarrow> msgqueue \<times> sched \<Rightarrow> (u8 list option \<times> msgqueue \<times> sched) option" where
  "mq_deq a = (\<lambda>(mq, s). case msgq_recv a 0 mq s of
     Some (m, WDone STATUS_OK mq s) \<Rightarrow> Some (Some m, mq, s)
   | Some (_, WDone STATUS_WOULD_BLOCK mq s) \<Rightarrow> Some (None, mq, s) | _ \<Rightarrow> None)"

lemma slot_apart:
  assumes "i < n" "j < n" "i \<noteq> (j :: nat)" "x < sz"
  shows "\<not> (j * sz \<le> i * sz + x \<and> i * sz + x < j * sz + sz)"
proof -
  consider "Suc i \<le> j" | "Suc j \<le> i" using assms by linarith
  then show ?thesis
  proof cases
    case 1
    then have "Suc i * sz \<le> j * sz" by (rule mult_right_mono) simp
    then show ?thesis using assms by simp
  next
    case 2
    then have "Suc j * sz \<le> i * sz" by (rule mult_right_mono) simp
    then show ?thesis by simp
  qed
qed

lemma mod_slot_inj:
  assumes "i < cap" "j < cap" "(h + i) mod cap = (h + j) mod (cap :: nat)"
  shows "i = j"
proof -
  have "cap dvd (h + j) - (h + i)" if "i \<le> j"
    using mod_eq_dvd_iff_nat[of "h + i" "h + j" cap] assms(3) that by simp
  moreover have "cap dvd (h + i) - (h + j)" if "j \<le> i"
    using mod_eq_dvd_iff_nat[of "h + j" "h + i" cap] assms(3) that by simp
  ultimately have "cap dvd j - i" "cap dvd i - j" by (cases "i \<le> j"; simp)+
  then have "j - i = 0" "i - j = 0" using assms(1,2) nat_dvd_not_less[of "j - i" cap] nat_dvd_not_less[of "i - j" cap]
    by (metis gr_zeroI less_imp_diff_less)+
  then show ?thesis by simp
qed

lemma mq_send_rep:
  assumes rep: "mq_rep cap sz (mq, s) xs" and ok: "mq_ok cap sz xs m"
  shows "\<exists>t. mq_enq a m (mq, s) = Some t \<and> mq_rep cap sz t (xs @ [m])"
proof -
  have r: "0 < cap" "0 < sz" "mq_capacity mq = cap" "mq_msg_size mq = sz" "mq_head mq < cap"
    "mq_count mq = length xs" "mq_tail mq = (mq_head mq + length xs) mod cap"
    "sl_lock (mq_lock mq) = 0" "mq_send_wait mq = None" "mq_recv_wait mq = None"
    "\<forall>i < length xs. xs ! i = map (\<lambda>j. mq_buffer mq ((mq_head mq + i) mod cap * sz + j)) [0..<sz]"
    using rep by (auto simp: mq_rep_def)
  have o: "length xs < cap" "length m = sz" using ok by (auto simp: mq_ok_def)
  obtain g where g: "msgq_copy_in sz (mq_tail mq * sz) m (mq_buffer mq) = Some g"
    "\<forall>x. g x = (if mq_tail mq * sz \<le> x \<and> x < mq_tail mq * sz + sz then m ! (x - mq_tail mq * sz) else mq_buffer mq x)"
    using msgq_copy_in_ok[OF o(2), of "mq_tail mq * sz" "mq_buffer mq"] by blast
  let ?l = "(mq_lock mq)\<lparr>sl_irq_flags := ucast (cpu_daif (sc_cpu s)), sl_lock := 0\<rparr>"
  let ?mq = "mq\<lparr>mq_buffer := g, mq_tail := (mq_tail mq + 1) mod cap, mq_count := length xs + 1,
      mq_lock := ?l\<rparr>"
  obtain s' mq' where run: "mq_enq a m (mq, s) = Some (mq', s')" and mq': "mq_buffer mq' = g"
    "mq_tail mq' = (mq_tail mq + 1) mod cap" "mq_count mq' = length xs + 1" "sl_lock (mq_lock mq') = 0"
    "mq_capacity mq' = cap" "mq_msg_size mq' = sz" "mq_head mq' = mq_head mq"
    "mq_send_wait mq' = None" "mq_recv_wait mq' = None"
    using r o g(1) by (simp add: mq_enq_def msgq_send_def obj_lock_free wait_list_remove_first_def msgq_release_def
        obj_unlock_eq wake_def)
  have tail: "mq_tail mq' = (mq_head mq + length (xs @ [m])) mod cap"
    using r(7) mq'(2) by (simp add: mod_Suc_eq)
  have "(xs @ [m]) ! i = map (\<lambda>j. g ((mq_head mq + i) mod cap * sz + j)) [0..<sz]"
    if "i < length (xs @ [m])" for i
  proof (cases "i = length xs")
    case True
    then show ?thesis using o g(2) r(7) by (intro nth_equalityI) auto
  next
    case False
    then have i: "i < length xs" using that by simp
    have ne: "(mq_head mq + i) mod cap \<noteq> mq_tail mq"
      using mod_slot_inj[of i cap "length xs" "mq_head mq"] i o(1) r(7) by auto
    have "g ((mq_head mq + i) mod cap * sz + j) = mq_buffer mq ((mq_head mq + i) mod cap * sz + j)" if "j < sz" for j
      using slot_apart[of "(mq_head mq + i) mod cap" cap "mq_tail mq" j sz] ne that g(2) r(1,7) by auto
    then show ?thesis using r(11) i by (simp add: nth_append)
  qed
  then show ?thesis using run mq' tail r(1,2,5) o(1) by (simp add: mq_rep_def)
qed

lemma mq_recv_rep:
  assumes rep: "mq_rep cap sz (mq, s) (m # xs)"
  shows "\<exists>t. mq_deq a (mq, s) = Some (Some m, t) \<and> mq_rep cap sz t xs"
proof -
  have r: "0 < cap" "0 < sz" "mq_capacity mq = cap" "mq_msg_size mq = sz" "mq_head mq < cap"
    "mq_count mq = Suc (length xs)" "mq_tail mq = (mq_head mq + Suc (length xs)) mod cap" "Suc (length xs) \<le> cap"
    "sl_lock (mq_lock mq) = 0" "mq_send_wait mq = None" "mq_recv_wait mq = None"
    "\<forall>i < Suc (length xs). (m # xs) ! i = map (\<lambda>j. mq_buffer mq ((mq_head mq + i) mod cap * sz + j)) [0..<sz]"
    using rep by (auto simp: mq_rep_def)
  have m: "m = map (\<lambda>j. mq_buffer mq (mq_head mq * sz + j)) [0..<sz]"
    using spec[OF r(12), of 0] r(5) by simp
  obtain s' mq' where run: "mq_deq a (mq, s) = Some (Some m, mq', s')" and mq': "mq_buffer mq' = mq_buffer mq"
    "mq_tail mq' = mq_tail mq" "mq_count mq' = length xs" "sl_lock (mq_lock mq') = 0"
    "mq_capacity mq' = cap" "mq_msg_size mq' = sz" "mq_head mq' = (mq_head mq + 1) mod cap"
    "mq_send_wait mq' = None" "mq_recv_wait mq' = None"
    using r m by (simp add: mq_deq_def msgq_recv_def obj_lock_free wait_list_remove_first_def msgq_release_def
        obj_unlock_eq wake_def msgq_copy_out_eq)
  have shift: "((mq_head mq + 1) mod cap + i) mod cap = (mq_head mq + Suc i) mod cap" for i
    by (simp add: mod_simps)
  have "xs ! i = map (\<lambda>j. mq_buffer mq (((mq_head mq + 1) mod cap + i) mod cap * sz + j)) [0..<sz]"
    if "i < length xs" for i
    unfolding shift using spec[OF r(12), of "Suc i"] that by simp
  then show ?thesis using run mq' r(1,2,7,8) shift[of "length xs"] by (simp add: mq_rep_def)
qed

lemma mq_recv_empty:
  assumes rep: "mq_rep cap sz (mq, s) []"
  shows "\<exists>t. mq_deq a (mq, s) = Some (None, t) \<and> mq_rep cap sz t []"
  using rep by (auto simp: mq_rep_def mq_deq_def msgq_recv_def obj_lock_free msgq_release_def obj_unlock_eq)

interpretation mq: fifo "mq_rep cap sz" "mq_ok cap sz" "mq_enq a" "mq_deq a" for cap sz a
  by unfold_locales (use mq_send_rep mq_recv_rep mq_recv_empty in \<open>auto simp: split_paired_all\<close>)

section \<open>Mutexes\<close>

text \<open>\<open>k\<close> further locks by the owner, then as many unlocks.\<close>

fun mutex_nest :: "nat \<Rightarrow> addr \<Rightarrow> mutex \<times> sched \<Rightarrow> (mutex \<times> sched) option" where
  "mutex_nest 0 a ms = Some ms"
| "mutex_nest (Suc k) a ms =
     (case mutex_lock a (fst ms) (snd ms) of
        Some (WDone STATUS_OK m s) \<Rightarrow> do { (m, s) \<leftarrow> mutex_nest k a (m, s); mutex_unlock m s }
      | _ \<Rightarrow> None)"

lemma mutex_nest_ok:
  assumes "sc_current s = Some c" and "mtx_owner m = Some c" and "sl_lock (mtx_lock m) = 0"
    and "0 < mtx_lock_count m" and "uint (mtx_lock_count m) + int k < 2 ^ 32"
  shows "\<exists>m' s'. mutex_nest k a (m, s) = Some (m', s') \<and> mtx_owner m' = Some c \<and>
    mtx_lock_count m' = mtx_lock_count m \<and> mtx_orig_priority m' = mtx_orig_priority m \<and>
    sl_lock (mtx_lock m') = 0 \<and> mtx_wait_list m' = mtx_wait_list m \<and>
    sc_tcb s' = sc_tcb s \<and> sc_ready s' = sc_ready s \<and> sc_idle s' = sc_idle s \<and> sc_current s' = sc_current s"
  using assms
proof (induction k arbitrary: m s)
  case 0
  then show ?case by simp
next
  case (Suc k)
  obtain m1 s1 where l: "mutex_lock a m s = Some (WDone STATUS_OK m1 s1)"
    and m1: "mtx_owner m1 = Some c" "sl_lock (mtx_lock m1) = 0" "mtx_lock_count m1 = mtx_lock_count m + 1"
      "mtx_orig_priority m1 = mtx_orig_priority m" "mtx_wait_list m1 = mtx_wait_list m"
      "sc_tcb s1 = sc_tcb s" "sc_ready s1 = sc_ready s" "sc_idle s1 = sc_idle s" "sc_current s1 = Some c"
    using Suc.prems(1-3) by (simp add: mutex_lock_def task_current_def obj_lock_free mutex_release_def obj_unlock_eq)
  have cnt: "uint (mtx_lock_count m1) = uint (mtx_lock_count m) + 1"
    using Suc.prems(5) by (simp add: m1(3) uint_add_no_wrap)
  have pos: "0 < mtx_lock_count m1" using cnt by (simp add: word_less_def)
  obtain m2 s2 where n: "mutex_nest k a (m1, s1) = Some (m2, s2)"
    and m2: "mtx_owner m2 = Some c" "mtx_lock_count m2 = mtx_lock_count m1" "mtx_orig_priority m2 = mtx_orig_priority m1"
      "sl_lock (mtx_lock m2) = 0" "mtx_wait_list m2 = mtx_wait_list m1" "sc_tcb s2 = sc_tcb s1"
      "sc_ready s2 = sc_ready s1" "sc_idle s2 = sc_idle s1" "sc_current s2 = sc_current s1"
    using Suc.IH[OF m1(9,1,2) pos] cnt Suc.prems(5) by auto
  show ?case
    using l n m1 m2 Suc.prems(1,4)
    by (simp add: mutex_unlock_def task_current_def obj_lock_free obj_unlock_eq)
qed

lemma mutex_unlock_wakes_aux:
  assumes cur: "sc_current s = Some c" and own: "mtx_owner m = Some c" "mtx_lock_count m = 1" "sl_lock (mtx_lock m) = 0"
    and w: "wl s (mtx_wait_list m) (x # ws)" "distinct (x # ws)" "c \<notin> set (x # ws)"
  shows "\<exists>m' s'. mutex_unlock m s = Some (m', s') \<and> mtx_owner m' = None \<and> sl_lock (mtx_lock m') = 0 \<and>
    wl s' (mtx_wait_list m') ws \<and> t_priority (sc_tcb s' c) = mtx_orig_priority m \<and>
    t_state (sc_tcb s' x) = TASK_STATE_READY \<and> t_wait_obj (sc_tcb s' x) = None \<and> sc_ready s' = sc_ready s \<and>
    (\<forall>b \<in> set ws. t_core (sc_tcb s' b) = t_core (sc_tcb s b))"
proof -
  let ?d = "cpu_daif (sc_cpu s)"
  let ?s = "t_upd c (t_priority_update (\<lambda>_. mtx_orig_priority m)) (set_daif (?d OR DAIF_I) s)"
  have wl': "wl ?s (mtx_wait_list m) (x # ws)"
    by (rule wl_cong[OF _ w(1)]) (use w(3) in auto)
  obtain w' list s1 where rm: "wait_list_remove_first (mtx_wait_list m) ?s = (w', list, s1)"
    using prod_cases3 by blast
  note r = wl_remove_first[OF wl' w(2) rm]
  obtain T where s1: "s1 = ?s\<lparr>sc_tcb := T\<rparr>" using r(5) by blast
  let ?s2 = "wake (Some x) s1"
  let ?s3 = "set_daif (ucast (ucast ?d :: u32)) ?s2"
  have post: "mutex_unlock m s = Some (m\<lparr>mtx_lock_count := 0, mtx_owner := None, mtx_wait_list := list,
      mtx_lock := (mtx_lock m)\<lparr>sl_irq_flags := ucast ?d, sl_lock := 0\<rparr>\<rparr>, ?s3)"
    using rm r(1) cur own by (simp add: mutex_unlock_def task_current_def obj_lock_free obj_unlock_eq Let_def)
  have "wl ?s3 list ws"
    by (rule wl_cong[OF _ r(2)]) (use w(2) in \<open>auto simp: wake_def\<close>)
  moreover have "t_priority (sc_tcb ?s3 c) = mtx_orig_priority m"
    using t_core_eqD(1)[OF r(3)[of c]] w(3) by (simp add: wake_def)
  moreover have "\<forall>b \<in> set ws. t_core (sc_tcb ?s3 b) = t_core (sc_tcb s b)"
  proof
    fix b assume "b \<in> set ws"
    then have "b \<noteq> x" "b \<noteq> c" using w(2,3) by auto
    then show "t_core (sc_tcb ?s3 b) = t_core (sc_tcb s b)" using r(3)[of b] by (simp add: wake_def)
  qed
  ultimately show ?thesis using post by (simp add: wake_def s1)
qed

lemma mutex_boost_aux:
  assumes run: "run_inv s rl c" and hi: "highest rl = Some p" "rl p = [x]"
    and m: "mtx_owner m = Some x" "sl_lock (mtx_lock m) = 0" "mtx_wait_list m = None"
    and pr: "t_priority (sc_tcb s x) < t_priority (sc_tcb s c)"
  shows "\<exists>m' s'. mutex_lock a m s = Some (WBlock m' (Sw s')) \<and> sc_current s' = Some x \<and>
    t_state (sc_tcb s' x) = TASK_STATE_RUNNING \<and> sc_ready s' p = Some x \<and> p < CONFIG_MAX_PRIORITY"
proof -
  have r: "ready_inv s rl" "sc_current s = Some c" "\<forall>p. c \<notin> set (rl p)" "unlocked s"
    "unat (t_priority (sc_tcb s c)) < CONFIG_MAX_PRIORITY"
    using run by (auto simp: run_inv_def)
  have x: "x \<in> set (rl p)" using hi(2) by simp
  note xp = lists_okD(3,5,6)[OF r(1) x]
  have xc: "x \<noteq> c" using x r(3) by auto
  have Rp: "sc_ready s p = Some x" "t_next (sc_tcb s x) = Some x"
    using lists_okD(1)[OF r(1) xp(3)] hi(2) by (auto simp: cdll_def)
  let ?q = "unat (t_priority (sc_tcb s c))"
  have pq: "p < ?q" using pr xp(1) by (simp add: word_less_nat_alt)
  let ?d = "cpu_daif (sc_cpu s)"
  let ?s1 = "t_upd x (t_priority_update (\<lambda>_. t_priority (sc_tcb s c))) (set_daif (?d OR DAIF_I) s)"
  define s3 where "s3 = set_daif (ucast (ucast ?d :: u32)) (snd (block_on a None c ?s1))"
  have s3: "sc_ready s3 = sc_ready s" "sc_idle s3 = sc_idle s" "sc_current s3 = Some c" "sc_lock s3 = sc_lock s"
    "t_state (sc_tcb s3 c) = TASK_STATE_BLOCKED"
    "sc_tcb s3 x = (sc_tcb s x)\<lparr>t_priority := t_priority (sc_tcb s c)\<rparr>"
    using r(2) xc by (simp_all add: s3_def block_on_def wait_list_add_def Let_def)
  let ?s4 = "sched_locked s3"
  have hr: "get_highest_ready ?s4 = x"
    using get_highest_ready_ok[OF r(1)] hi by (simp add: get_highest_ready_def s3 split: option.splits)
  have rm: "ready_list_remove x ?s4 =
      Some (t_upd x (\<lambda>t. t\<lparr>t_next := None, t_prev := None\<rparr>) (?s4\<lparr>sc_ready := (sc_ready s)(?q := None)\<rparr>))"
    using r(5) Rp(2) by (simp add: ready_list_remove_def Let_def s3)
  have "\<exists>s'. schedule_locked ?s4 = Some (Sw s') \<and> sc_current s' = Some x \<and>
      t_state (sc_tcb s' x) = TASK_STATE_RUNNING \<and> sc_ready s' = (sc_ready s)(?q := None)"
    using xc xp(2) by (simp add: schedule_locked_def hr s3 rm arch_context_switch_def Let_def)
  then obtain s' where s': "schedule_locked ?s4 = Some (Sw s')" "sc_current s' = Some x"
      "t_state (sc_tcb s' x) = TASK_STATE_RUNNING" "sc_ready s' = (sc_ready s)(?q := None)" by blast
  have "unlocked s3" using r(4) s3(4) by simp
  then have y: "task_yield s3 = Some (Sw s')"
    using s'(1) s3(3,5) by (simp add: task_yield_def sched_lock_ok after_schedule_def)
  have "\<exists>m'. mutex_lock a m s = Some (WBlock m' (Sw s'))"
    using m r(2) xc pr y by (simp add: mutex_lock_def task_current_def obj_lock_free mutex_lock_loop_def Let_def
        obj_unlock_eq case_prod_beta s3_def)
  then show ?thesis using s' Rp(1) pq xp(3) by auto
qed

section \<open>Properties\<close>

definition sem_zero :: semaphore where "sem_zero = sem_init 0"

text \<open>A semaphore without tokens blocks its caller, who is queued first among the waiters, while the
  scheduler goes on to the highest ready task; a later \<open>sem_post\<close> adds a token and marks that waiter
  ready again, but puts it on no ready list. No timer tick will either, at whatever time it comes,
  because the tick looks at blocked tasks only: the waiter never runs again.\<close>

theorem sem_post_loses_waiter:
  assumes "run_inv s rl c" and "c \<noteq> sc_idle s" and "wl s (sem_wait_list sem) ws" and "distinct ws"
    and "\<And>x q. x \<in> set ws \<Longrightarrow> x \<noteq> c \<and> x \<notin> set (rl q) \<and> x \<noteq> sc_idle s"
    and "sint (sem_count sem) \<le> 0" and "sl_lock (sem_lock sem) = 0"
  shows "\<exists>sem1 s1 sem2 s2 rl'. sem_wait a sem s = Some (WBlock sem1 (Sw s1)) \<and>
    wl s1 (sem_wait_list sem1) (c # ws) \<and> t_state (sc_tcb s1 c) = TASK_STATE_BLOCKED \<and>
    sem_post sem1 (sched_unlock_irq s1) = Some (sem2, s2) \<and> sem_count sem2 = sem_count sem + 1 \<and>
    wl s2 (sem_wait_list sem2) ws \<and> ready_inv s2 rl' \<and> t_state (sc_tcb s2 c) = TASK_STATE_READY \<and>
    (\<forall>p. c \<notin> set (rl' p)) \<and> (\<forall>t. tick_wake c (s2\<lparr>sc_ticks := t\<rparr>) = Some (s2\<lparr>sc_ticks := t\<rparr>))"
proof -
  obtain n rl' where th: "take_highest rl (sc_idle s) = (n, rl')" by (rule prod.exhaust)
  have inv: "ready_inv s rl" "\<forall>p. c \<notin> set (rl p)" using assms(1) by (auto simp: run_inv_def)
  obtain sem1 s1 where b: "sem_wait a sem s = Some (WBlock sem1 (Sw s1))" "sem_count sem1 = sem_count sem"
    "sl_lock (sem_lock sem1) = 0" "ready_inv s1 rl'" "wl s1 (sem_wait_list sem1) (c # ws)"
    "t_state (sc_tcb s1 c) = TASK_STATE_BLOCKED" "\<forall>q. c \<notin> set (rl' q)"
    using sem_wait_blocks_aux[OF assms(1-5) th assms(6,7)] by blast
  have d: "distinct (c # ws)" using assms(4,5) by auto
  have off: "x \<notin> set (rl' q)" if "x \<in> set (c # ws)" for x q
    using that b(7) assms(5) take_highest_notin(2)[OF inv(1) th, of q] by auto
  have u: "ready_inv (sched_unlock_irq s1) rl'" "wl (sched_unlock_irq s1) (sem_wait_list sem1) (c # ws)"
    using b(4,5) by simp_all
  obtain sem2 s2 where p: "sem_post sem1 (sched_unlock_irq s1) = Some (sem2, s2)" "sem_count sem2 = sem_count sem1 + 1"
    "wl s2 (sem_wait_list sem2) ws" "ready_inv s2 rl'" "t_state (sc_tcb s2 c) = TASK_STATE_READY"
    using sem_post_aux[OF u(1) b(3) u(2) d off] by blast
  have "tick_wake c (s2\<lparr>sc_ticks := t\<rparr>) = Some (s2\<lparr>sc_ticks := t\<rparr>)" for t
    using p(5) by (simp add: tick_wake_def)
  then show ?thesis using b p
    by (intro exI[of _ sem1] exI[of _ s1] exI[of _ sem2] exI[of _ s2] exI[of _ rl'] conjI allI) simp_all
qed

theorem sem_post_loses_waiter_witness:
  "\<exists>sem1 s1 sem2 s2. sem_wait 9000 sem_zero (sched_ex 100) = Some (WBlock sem1 (Sw s1)) \<and>
     sem_post sem1 (sched_unlock_irq s1) = Some (sem2, s2) \<and> sem_count sem2 = 1 \<and>
     t_state (sc_tcb s2 100) = TASK_STATE_READY"
proof -
  have ex: "100 \<noteq> sc_idle (sched_ex 100)" "wl (sched_ex 100) (sem_wait_list sem_zero) []"
    "sint (sem_count sem_zero) \<le> 0" "sl_lock (sem_lock sem_zero) = 0" "sem_count sem_zero = 0"
    by (simp_all add: sched_ex_def sem_zero_def sem_init_def SPINLOCK_INIT_def)
  have "run_inv (sched_ex 100) rl_ex 100" by (rule sched_ex_inv) simp_all
  from sem_post_loses_waiter[OF this ex(1,2) _ _ ex(3,4), of 9000] show ?thesis using ex(5) by auto
qed

text \<open>Recursive locking. For the owner of a mutex, \<open>k\<close> further locks followed by \<open>k\<close> unlocks give
  back ownership, count, saved priority and waiters, and leave every task alone, as long as the
  32-bit count does not wrap.\<close>

theorem mutex_recursive:
  assumes "sc_current s = Some c" and "mtx_owner m = Some c" and "sl_lock (mtx_lock m) = 0"
    and "0 < mtx_lock_count m" and "uint (mtx_lock_count m) + int k < 2 ^ 32"
  shows "\<exists>m' s'. mutex_nest k a (m, s) = Some (m', s') \<and> mtx_owner m' = Some c \<and>
    mtx_lock_count m' = mtx_lock_count m \<and> mtx_orig_priority m' = mtx_orig_priority m \<and>
    sl_lock (mtx_lock m') = 0 \<and> mtx_wait_list m' = mtx_wait_list m \<and>
    sc_tcb s' = sc_tcb s \<and> sc_ready s' = sc_ready s \<and> sc_current s' = sc_current s"
  using mutex_nest_ok[OF assms] by blast

theorem mutex_recursive_witness:
  "\<exists>m' s'. mutex_nest 3 9000 (mutex_init\<lparr>mtx_owner := Some 100, mtx_lock_count := 1\<rparr>, sched_ex 100) = Some (m', s') \<and>
     mtx_lock_count m' = 1"
  using mutex_recursive[of "sched_ex 100" 100 "mutex_init\<lparr>mtx_owner := Some 100, mtx_lock_count := 1\<rparr>" 3 9000]
  by (auto simp: sched_ex_def mutex_init_def SPINLOCK_INIT_def)

text \<open>The last unlock restores the owner's priority, frees the mutex and wakes one waiter: the one that
  came last, whatever the waiters' priorities are. All others stay queued and blocked.\<close>

theorem mutex_unlock_wakes_latest:
  assumes "sc_current s = Some c" and "mtx_owner m = Some c" and "mtx_lock_count m = 1" and "sl_lock (mtx_lock m) = 0"
    and "wl s (mtx_wait_list m) (x # ws)" and "distinct (x # ws)" and "c \<notin> set (x # ws)"
  shows "\<exists>m' s'. mutex_unlock m s = Some (m', s') \<and> mtx_owner m' = None \<and> sl_lock (mtx_lock m') = 0 \<and>
    wl s' (mtx_wait_list m') ws \<and> t_priority (sc_tcb s' c) = mtx_orig_priority m \<and>
    t_state (sc_tcb s' x) = TASK_STATE_READY \<and> t_wait_obj (sc_tcb s' x) = None \<and> sc_ready s' = sc_ready s \<and>
    (\<forall>b \<in> set ws. t_core (sc_tcb s' b) = t_core (sc_tcb s b))"
  using mutex_unlock_wakes_aux[OF assms] .

text \<open>Task 700, of priority 12, waits behind the later 600, of priority 5.\<close>

definition sched_wait2 :: sched where
  "sched_wait2 = (sched_ex 100)\<lparr>sc_tcb := (sc_tcb (sched_ex 100))(
     600 := tcb_blank\<lparr>t_state := TASK_STATE_BLOCKED, t_next := Some 700\<rparr>,
     700 := tcb_blank\<lparr>t_state := TASK_STATE_BLOCKED, t_priority := 12, t_prev := Some 600\<rparr>)\<rparr>"

definition mutex_wait2 :: mutex where
  "mutex_wait2 = mutex_init\<lparr>mtx_owner := Some 100, mtx_lock_count := 1, mtx_orig_priority := 5, mtx_wait_list := Some 600\<rparr>"

theorem mutex_unlock_wakes_latest_witness:
  "\<exists>m' s'. mutex_unlock mutex_wait2 sched_wait2 = Some (m', s') \<and> t_state (sc_tcb s' 600) = TASK_STATE_READY \<and>
     t_state (sc_tcb s' 700) = TASK_STATE_BLOCKED \<and> t_priority (sc_tcb s' 700) = 12"
proof -
  have ex: "sc_current sched_wait2 = Some 100" "mtx_owner mutex_wait2 = Some 100" "mtx_lock_count mutex_wait2 = 1"
    "sl_lock (mtx_lock mutex_wait2) = 0" "wl sched_wait2 (mtx_wait_list mutex_wait2) [600, 700]"
    by (auto simp: sched_wait2_def mutex_wait2_def mutex_init_def sched_ex_def SPINLOCK_INIT_def tcb_blank_def)
  obtain m' s' where r: "mutex_unlock mutex_wait2 sched_wait2 = Some (m', s')"
    "t_state (sc_tcb s' 600) = TASK_STATE_READY" "t_core (sc_tcb s' 700) = t_core (sc_tcb sched_wait2 700)"
    using mutex_unlock_wakes_latest[OF ex] by auto
  show ?thesis
    using r t_core_eqD(1,2)[OF r(3)] by (intro exI[of _ m'] exI[of _ s']) (simp add: sched_wait2_def)
qed

text \<open>Priority inheritance against the ready lists. A task of higher priority locks a mutex whose
  owner is the only task on the highest non-empty ready list. The owner's priority is raised
  in place, so taking it off \<open>the list of its priority\<close> misses the list it is on: it is switched to and
  runs, but is still the head of its old list. The ready lists are then ill-formed for every reading.\<close>

theorem mutex_inheritance_corrupts:
  assumes "run_inv s rl c" and "highest rl = Some p" "rl p = [x]"
    and "mtx_owner m = Some x" "sl_lock (mtx_lock m) = 0" "mtx_wait_list m = None"
    and "t_priority (sc_tcb s x) < t_priority (sc_tcb s c)"
  shows "\<exists>m' s'. mutex_lock a m s = Some (WBlock m' (Sw s')) \<and> sc_current s' = Some x \<and>
    t_state (sc_tcb s' x) = TASK_STATE_RUNNING \<and> sc_ready s' p = Some x \<and> (\<nexists>rl'. ready_inv s' rl')"
proof -
  obtain m' s' where r: "mutex_lock a m s = Some (WBlock m' (Sw s'))" "sc_current s' = Some x"
    "t_state (sc_tcb s' x) = TASK_STATE_RUNNING" "sc_ready s' p = Some x" "p < CONFIG_MAX_PRIORITY"
    using mutex_boost_aux[OF assms] by blast
  have "False" if "ready_inv s' rl'" for rl'
  proof -
    have "x \<in> set (rl' p)" using cdll_head[OF lists_okD(1)[OF that r(5)]] r(4) by (cases "rl' p") auto
    then show False using lists_okD(4)[OF that] r(3) by auto
  qed
  then show ?thesis using r by blast
qed

definition sched_one :: sched where
  "sched_one = (sched_ex 100)\<lparr>sc_ready := (\<lambda>_. None)(5 := Some 200),
     sc_tcb := (sc_tcb (sched_ex 100))(100 := tcb_blank\<lparr>t_state := TASK_STATE_RUNNING, t_priority := 9\<rparr>,
       200 := tcb_blank\<lparr>t_state := TASK_STATE_READY, t_next := Some 200, t_prev := Some 200\<rparr>)\<rparr>"

theorem mutex_inheritance_corrupts_witness:
  "\<exists>m' s'. mutex_lock 9000 (mutex_init\<lparr>mtx_owner := Some 200\<rparr>) sched_one = Some (WBlock m' (Sw s')) \<and>
     sc_current s' = Some 200 \<and> sc_ready s' 5 = Some 200"
proof -
  let ?rl = "(\<lambda>_. [])(5 := [200]) :: nat \<Rightarrow> addr list"
  have "run_inv sched_one ?rl 100"
    by (auto simp: run_inv_def lists_ok_def sched_one_def sched_ex_def tcb_blank_def CONFIG_MAX_PRIORITY_def
        SPINLOCK_INIT_def cdll_def)
  moreover have "highest ?rl = Some 5" unfolding highest_Some by (auto simp: CONFIG_MAX_PRIORITY_def)
  moreover have "t_priority (sc_tcb sched_one 200) < t_priority (sc_tcb sched_one 100)"
    by (simp add: sched_one_def tcb_blank_def)
  ultimately show ?thesis
    using mutex_inheritance_corrupts[of sched_one ?rl 100 5 200 "mutex_init\<lparr>mtx_owner := Some 200\<rparr>" 9000]
    by (auto simp: mutex_init_def SPINLOCK_INIT_def)
qed

text \<open>Setting event flags ends, wakes every waiter whatever it waits for, empties the wait list and
  touches no other task; the flags are the union. A wait whose condition the flags satisfy returns
  them at once, and clears exactly the requested bits when asked to.\<close>

theorem event_set_wait:
  assumes "wl s (ev_wait_list e) ws" and "distinct ws" and "sl_lock (ev_lock e) = 0"
  shows "\<exists>e' s'. event_set bits e s = Some (e', s') \<and> ev_flags e' = ev_flags e OR bits \<and> ev_wait_list e' = None \<and>
    (\<forall>b. t_state (sc_tcb s' b) = (if b \<in> set ws then TASK_STATE_READY else t_state (sc_tcb s b))) \<and>
    (\<forall>b. b \<notin> set ws \<longrightarrow> sc_tcb s' b = sc_tcb s b) \<and> sc_ready s' = sc_ready s \<and>
    (event_match (ev_flags e') want wait_all \<longrightarrow>
      (\<exists>e'' s''. event_wait a want wait_all clear e' s' = Some (ev_flags e', WDone STATUS_OK e'' s'') \<and>
        ev_flags e'' = (if clear then ev_flags e' AND NOT want else ev_flags e') \<and> sc_tcb s'' = sc_tcb s'))"
proof -
  let ?d = "cpu_daif (sc_cpu s)"
  let ?s = "set_daif (?d OR DAIF_I) s"
  obtain s1 T where w: "wake_all (ev_wait_list e) ?s = Some (None, s1)" "s1 = ?s\<lparr>sc_tcb := T\<rparr>"
    "\<forall>b. b \<notin> set ws \<longrightarrow> T b = sc_tcb s b"
    "\<forall>b. t_core (T b) = t_core (if b \<in> set ws
       then (sc_tcb s b)\<lparr>t_wait_obj := None, t_wait_result := STATUS_OK, t_state := TASK_STATE_READY\<rparr> else sc_tcb s b)"
    using wake_all_ok[of ?s "ev_wait_list e" ws] assms by auto
  let ?e = "e\<lparr>ev_flags := ev_flags e OR bits, ev_wait_list := None,
      ev_lock := (ev_lock e)\<lparr>sl_irq_flags := ucast ?d, sl_lock := 0\<rparr>\<rparr>"
  let ?s' = "set_daif (ucast (ucast ?d :: u32)) s1"
  have set: "event_set bits e s = Some (?e, ?s')"
    using w(1) by (simp add: event_set_def obj_lock_free[OF assms(3)] obj_unlock_eq)
  have st: "t_state (sc_tcb ?s' b) = (if b \<in> set ws then TASK_STATE_READY else t_state (sc_tcb s b))" for b
    using t_core_eqD(2)[OF spec[OF w(4), of b]] by (simp add: w(2))
  have wait: "event_match (ev_flags ?e) want wait_all \<longrightarrow>
      (\<exists>e'' s''. event_wait a want wait_all clear ?e ?s' = Some (ev_flags ?e, WDone STATUS_OK e'' s'') \<and>
        ev_flags e'' = (if clear then ev_flags ?e AND NOT want else ev_flags ?e) \<and> sc_tcb s'' = sc_tcb ?s')"
    by (simp add: event_wait_def obj_lock_free obj_unlock_eq Let_def)
  show ?thesis using set st wait w(2,3)
    by (intro exI[of _ ?e] exI[of _ ?s'] conjI allI) simp_all
qed

theorem event_set_wait_witness:
  "\<exists>e' s'. event_set 4 (event_init\<lparr>ev_flags := 1, ev_wait_list := Some 600\<rparr>) sched_wait2 = Some (e', s') \<and>
     ev_flags e' = 5 \<and> t_state (sc_tcb s' 700) = TASK_STATE_READY"
proof -
  have "wl sched_wait2 (Some 600) [600, 700]"
    by (auto simp: sched_wait2_def tcb_blank_def)
  then show ?thesis
    using event_set_wait[of sched_wait2 "event_init\<lparr>ev_flags := 1, ev_wait_list := Some 600\<rparr>" "[600, 700]" 4 0 True 0 True]
    by (auto simp: event_init_def SPINLOCK_INIT_def)
qed

text \<open>C31: a message queue is a bounded fifo. On a freshly initialised queue, for every sequence of
  non-blocking sends, of messages of the queue's size and never more than its capacity at once, and
  of receives, the receives return the sent bytes in order, \<open>STATUS_WOULD_BLOCK\<close> when it is empty.\<close>

theorem msgq_fifo:
  assumes "msgq_init (Some buf) sz cap mq0 = (STATUS_OK, mq)" and "fifo_abs (mq_ok cap sz) ops [] = Some (rs, ys)"
  shows "\<exists>t. fifo_run (mq_enq a) (mq_deq a) ops (mq, s) = Some (rs, t) \<and> mq_rep cap sz t ys \<and>
    enq_values ops = List.map_filter id rs @ ys"
proof (rule mq.run_in_order[OF _ assms(2)])
  show "mq_rep cap sz (mq, s) []"
    using assms(1) by (auto simp: msgq_init_def mq_rep_def SPINLOCK_INIT_def split: if_splits)
qed

theorem msgq_fifo_witness:
  "\<exists>t. fifo_run (mq_enq 1) (mq_deq 1) [Enq [1, 2], Deq, Enq [3, 4], Enq [5, 6], Deq, Deq, Deq]
     (snd (msgq_init (Some (\<lambda>_. 0)) 2 2 undefined), sched_ex 100) = Some ([Some [1, 2], Some [3, 4], Some [5, 6], None], t)"
  using msgq_fifo[of "\<lambda>_. 0" 2 2 undefined "snd (msgq_init (Some (\<lambda>_. 0)) 2 2 undefined)"
      "[Enq [1, 2], Deq, Enq [3, 4], Enq [5, 6], Deq, Deq, Deq]" "[Some [1, 2], Some [3, 4], Some [5, 6], None]" "[]" 1 "sched_ex 100"]
  by (auto simp: msgq_init_def mq_ok_def)

text \<open>The timeout of a blocking receive has no effect. Any two non-zero timeouts do the same, and
  the task that waits on the queue is not woken by a timer tick, whatever the tick count.\<close>

theorem msgq_timeout_ignored:
  assumes "timeout \<noteq> 0" and "timeout' \<noteq> 0" and "run_inv s rl c" and "c \<noteq> sc_idle s" and "mq_count mq = 0"
    and "sl_lock (mq_lock mq) = 0" and "mq_recv_wait mq = None"
  shows "msgq_recv a timeout mq s = msgq_recv a timeout' mq s \<and>
    (\<exists>mq' s'. msgq_recv a timeout mq s = Some ([], WBlock mq' (Sw s')) \<and> t_state (sc_tcb s' c) = TASK_STATE_BLOCKED \<and>
       (\<forall>t. tick_wake c (s'\<lparr>sc_ticks := t\<rparr>) = Some (s'\<lparr>sc_ticks := t\<rparr>)))"
proof -
  let ?l = "(mq_lock mq)\<lparr>sl_irq_flags := ucast (cpu_daif (sc_cpu s)), sl_lock := 1\<rparr>"
  obtain n rl' where th: "take_highest rl (sc_idle s) = (n, rl')" by (rule prod.exhaust)
  obtain p' s1 where b: "block_on a None c (set_daif (cpu_daif (sc_cpu s) OR DAIF_I) s) = (p', s1)"
    by (rule prod.exhaust)
  let ?d = "ucast (sl_irq_flags ?l)"
  obtain s' where s': "task_yield (set_daif ?d s1) = Some (Sw s')" "t_state (sc_tcb s' c) = TASK_STATE_BLOCKED"
    "t_wait_obj (sc_tcb s' c) = Some a"
    using block_and_yield[where ws = "[]" and d' = ?d, OF assms(3,4) _ _ _ th b] by auto
  have cur: "sc_current s = Some c" using assms(3) by (simp add: run_inv_def)
  have run: "msgq_recv a t mq s = Some ([], WBlock (mq\<lparr>mq_lock := ?l\<lparr>sl_lock := 0\<rparr>, mq_recv_wait := p'\<rparr>) (Sw s'))"
    if "t \<noteq> 0" for t
    using that assms(5-7) cur b s'(1) by (simp add: msgq_recv_def obj_lock_free task_current_def obj_unlock_eq)
  have "tick_wake c (s'\<lparr>sc_ticks := t\<rparr>) = Some (s'\<lparr>sc_ticks := t\<rparr>)" for t
    using s'(3) by (simp add: tick_wake_def)
  then show ?thesis using run[OF assms(1)] run[OF assms(2)] s'(2) by auto
qed

theorem msgq_timeout_ignored_witness:
  "\<exists>mq' s'. msgq_recv 9000 10 (snd (msgq_init (Some (\<lambda>_. 0)) 2 2 undefined)) (sched_ex 100) = Some ([], WBlock mq' (Sw s')) \<and>
     t_state (sc_tcb s' 100) = TASK_STATE_BLOCKED"
proof -
  let ?mq = "snd (msgq_init (Some (\<lambda>_. 0)) 2 2 undefined)"
  have "run_inv (sched_ex 100) rl_ex 100" "100 \<noteq> sc_idle (sched_ex 100)"
    by (rule sched_ex_inv) (simp_all add: sched_ex_def)
  moreover have "mq_count ?mq = 0" "sl_lock (mq_lock ?mq) = 0" "mq_recv_wait ?mq = None"
    by (simp_all add: msgq_init_def SPINLOCK_INIT_def)
  ultimately show ?thesis using msgq_timeout_ignored[of 10 20 "sched_ex 100" rl_ex 100 ?mq 9000] by fastforce
qed

end
