(* ===== verification/Irq.thy ===== *)
theory Irq
  imports Sched
begin

text \<open>
  Interrupts, from \<open>kernel/interrupt.c\<close> and the timer part of \<open>kernel/main.c\<close>: the accesses to the
  interrupt controller, the handler table, the dispatch of an interrupt, and the clock interrupt.

  The controller is not part of the program: the state keeps the accesses made to its registers,
  the latest first, and a parameter \<open>hw\<close> answers a read at an address from what was accessed before.
  A handler is the address of a function; a parameter says what the function at an address does. It
  returns \<open>Sw s\<close> when it leads to another task, so that the rest of the caller does not run before
  the interrupted task does.
\<close>

section \<open>State\<close>

record irq_entry =
  ie_handler :: ptr
  ie_arg :: ptr

record timer =
  tm_expire :: u32
  tm_period :: u32
  tm_callback :: ptr
  tm_arg :: ptr
  tm_active :: bool
  tm_periodic :: bool
  tm_next :: ptr

text \<open>
  The static variables of \<open>interrupt.c\<close>, the timers at their addresses, the compare register of the
  clock, the scheduler, and whatever else handlers and callbacks work on.
\<close>

record 'w intr =
  in_table :: "nat \<Rightarrow> irq_entry"
  in_lock :: spinlock
  in_nest :: u32
  in_gic :: "mmio list"
  in_timer :: "addr \<Rightarrow> timer"
  in_timer_list :: ptr
  in_timer_lock :: spinlock
  in_cval :: u64          \<comment> \<open>\<open>cntv_cval_el0\<close>\<close>
  in_ctl :: u64           \<comment> \<open>\<open>cntv_ctl_el0\<close>\<close>
  in_sched :: sched
  in_app :: 'w

type_synonym gic_hw = mmio_hw
type_synonym 'w handler = "addr \<Rightarrow> u32 \<Rightarrow> ptr \<Rightarrow> 'w intr \<Rightarrow> 'w intr ctl option"
type_synonym 'w callback = "addr \<Rightarrow> ptr \<Rightarrow> 'w intr \<Rightarrow> 'w intr ctl option"

section \<open>Registers of the controller\<close>

definition CONFIG_GICD_BASE :: addr where "CONFIG_GICD_BASE = 0x08000000"
definition CONFIG_GICC_BASE :: addr where "CONFIG_GICC_BASE = 0x08010000"
definition CONFIG_TIMER_IRQ :: u32 where "CONFIG_TIMER_IRQ = 27"
definition CONFIG_CPU_FREQ_HZ :: u64 where "CONFIG_CPU_FREQ_HZ = 1000000000"

definition GICD_CTLR :: addr where "GICD_CTLR = CONFIG_GICD_BASE + 0x000"
definition GICD_TYPER :: addr where "GICD_TYPER = CONFIG_GICD_BASE + 0x004"
definition GICD_ISENABLER :: "nat \<Rightarrow> addr" where "GICD_ISENABLER n = CONFIG_GICD_BASE + 0x100 + int n * 4"
definition GICD_ICENABLER :: "nat \<Rightarrow> addr" where "GICD_ICENABLER n = CONFIG_GICD_BASE + 0x180 + int n * 4"
definition GICD_ICPENDR :: "nat \<Rightarrow> addr" where "GICD_ICPENDR n = CONFIG_GICD_BASE + 0x280 + int n * 4"
definition GICD_IPRIORITYR :: "nat \<Rightarrow> addr" where "GICD_IPRIORITYR n = CONFIG_GICD_BASE + 0x400 + int n"
definition GICD_ITARGETSR :: "nat \<Rightarrow> addr" where "GICD_ITARGETSR n = CONFIG_GICD_BASE + 0x800 + int n"
definition GICD_ICFGR :: "nat \<Rightarrow> addr" where "GICD_ICFGR n = CONFIG_GICD_BASE + 0xC00 + int n * 4"

definition GICC_CTLR :: addr where "GICC_CTLR = CONFIG_GICC_BASE + 0x000"
definition GICC_PMR :: addr where "GICC_PMR = CONFIG_GICC_BASE + 0x004"
definition GICC_BPR :: addr where "GICC_BPR = CONFIG_GICC_BASE + 0x008"
definition GICC_IAR :: addr where "GICC_IAR = CONFIG_GICC_BASE + 0x00C"
definition GICC_EOIR :: addr where "GICC_EOIR = CONFIG_GICC_BASE + 0x010"

definition MAX_IRQS :: nat where "MAX_IRQS = 1024"

definition mmio_write32 :: "addr \<Rightarrow> u32 \<Rightarrow> 'w intr \<Rightarrow> 'w intr" where
  "mmio_write32 a v s = s\<lparr>in_gic := Wr a v # in_gic s\<rparr>"

definition mmio_read32 :: "gic_hw \<Rightarrow> addr \<Rightarrow> 'w intr \<Rightarrow> u32 \<times> 'w intr" where
  "mmio_read32 hw a s = (hw (in_gic s) a, s\<lparr>in_gic := Rd a # in_gic s\<rparr>)"

text \<open>\<open>for (i = lo; i < hi; i++) mmio_write32(reg(i), v);\<close>\<close>

definition mmio_fill :: "(nat \<Rightarrow> addr) \<Rightarrow> u32 \<Rightarrow> nat \<Rightarrow> nat \<Rightarrow> 'w intr \<Rightarrow> 'w intr" where
  "mmio_fill reg v lo hi s = fold (\<lambda>i. mmio_write32 (reg i) v) [lo ..< hi] s"

definition gic_max_irqs :: "u32 \<Rightarrow> nat" where
  "gic_max_irqs typer = min MAX_IRQS (unat (((typer AND 0x1F) + 1) * 32))"

definition gic_init :: "gic_hw \<Rightarrow> 'w intr \<Rightarrow> 'w intr" where
  "gic_init hw s =
     (let s = mmio_write32 GICD_CTLR 0 s;
          (typer, s) = mmio_read32 hw GICD_TYPER s;
          max_irqs = gic_max_irqs typer;
          s = mmio_fill GICD_ICENABLER 0xFFFFFFFF 0 (max_irqs div 32) s;
          s = mmio_fill GICD_ICPENDR 0xFFFFFFFF 0 (max_irqs div 32) s;
          s = mmio_fill GICD_IPRIORITYR 0xA0 0 max_irqs s;
          s = mmio_fill GICD_ITARGETSR 0x01 32 max_irqs s;
          s = mmio_fill GICD_ICFGR 0 2 (max_irqs div 16) s;
          s = mmio_write32 GICD_CTLR 1 s;
          s = mmio_write32 GICC_PMR 0xF0 s;
          s = mmio_write32 GICC_BPR 0 s
      in mmio_write32 GICC_CTLR 1 s)"

definition irq_enable :: "u32 \<Rightarrow> 'w intr \<Rightarrow> 'w intr" where
  "irq_enable irq s =
     (if MAX_IRQS \<le> unat irq then s
      else mmio_write32 (GICD_ISENABLER (unat irq div 32)) (push_bit (unat irq mod 32) 1) s)"

definition irq_disable :: "u32 \<Rightarrow> 'w intr \<Rightarrow> 'w intr" where
  "irq_disable irq s =
     (if MAX_IRQS \<le> unat irq then s
      else mmio_write32 (GICD_ICENABLER (unat irq div 32)) (push_bit (unat irq mod 32) 1) s)"

definition irq_set_priority :: "u32 \<Rightarrow> u8 \<Rightarrow> 'w intr \<Rightarrow> 'w intr" where
  "irq_set_priority irq priority s =
     (if MAX_IRQS \<le> unat irq then s
      else mmio_write32 (GICD_IPRIORITYR (unat irq)) (ucast priority) s)"

section \<open>Handlers\<close>

text \<open>\<open>spin_lock_irq\<close> and \<open>spin_unlock_irq\<close> on the lock of the table.\<close>

definition irq_lock_irq :: "'w intr \<Rightarrow> 'w intr option" where
  "irq_lock_irq s = do {
     (l, daif) \<leftarrow> spin_lock_irq (in_lock s) (cpu_daif (sc_cpu (in_sched s)));
     Some (s\<lparr>in_lock := l, in_sched := (in_sched s)\<lparr>sc_cpu := (sc_cpu (in_sched s))\<lparr>cpu_daif := daif\<rparr>\<rparr>\<rparr>)
   }"

definition irq_unlock_irq :: "'w intr \<Rightarrow> 'w intr" where
  "irq_unlock_irq s =
     (let (l, daif) = spin_unlock_irq (in_lock s) (cpu_daif (sc_cpu (in_sched s)))
      in s\<lparr>in_lock := l, in_sched := (in_sched s)\<lparr>sc_cpu := (sc_cpu (in_sched s))\<lparr>cpu_daif := daif\<rparr>\<rparr>\<rparr>)"

definition irq_register :: "u32 \<Rightarrow> ptr \<Rightarrow> ptr \<Rightarrow> 'w intr \<Rightarrow> (status \<times> 'w intr) option" where
  "irq_register irq h arg s =
     (if MAX_IRQS \<le> unat irq \<or> h = None then Some (STATUS_INVALID, s)
      else do {
        s \<leftarrow> irq_lock_irq s;
        let s = s\<lparr>in_table := (in_table s)(unat irq := (in_table s (unat irq))\<lparr>ie_handler := h\<rparr>)\<rparr>;
        let s = s\<lparr>in_table := (in_table s)(unat irq := (in_table s (unat irq))\<lparr>ie_arg := arg\<rparr>)\<rparr>;
        Some (STATUS_OK, irq_unlock_irq s)
      })"

definition irq_unregister :: "u32 \<Rightarrow> 'w intr \<Rightarrow> (status \<times> 'w intr) option" where
  "irq_unregister irq s =
     (if MAX_IRQS \<le> unat irq then Some (STATUS_INVALID, s)
      else do {
        s \<leftarrow> irq_lock_irq s;
        let s = irq_disable irq s;
        let s = s\<lparr>in_table := (in_table s)(unat irq := (in_table s (unat irq))\<lparr>ie_handler := None\<rparr>)\<rparr>;
        let s = s\<lparr>in_table := (in_table s)(unat irq := (in_table s (unat irq))\<lparr>ie_arg := None\<rparr>)\<rparr>;
        Some (STATUS_OK, irq_unlock_irq s)
      })"

definition irq_handler :: "gic_hw \<Rightarrow> 'w handler \<Rightarrow> 'w intr \<Rightarrow> 'w intr ctl option" where
  "irq_handler hw code s =
     (let (iar, s) = mmio_read32 hw GICC_IAR s;
          irq = iar AND 0x3FF
      in if 1020 \<le> irq then Some (Ret s)
         else do {
           let s = s\<lparr>in_nest := in_nest s + 1\<rparr>;
           r \<leftarrow> (if unat irq < MAX_IRQS then
                  (case ie_handler (in_table s (unat irq)) of
                     None \<Rightarrow> Some (Ret s)
                   | Some h \<Rightarrow> code h irq (ie_arg (in_table s (unat irq))) s)
                else Some (Ret s));
           Some (case r of
             Sw s \<Rightarrow> Sw s
           | Ret s \<Rightarrow>
               let s = mmio_write32 GICC_EOIR iar s
               in Ret (s\<lparr>in_nest := in_nest s - 1\<rparr>))
         })"

definition in_irq_context :: "'w intr \<Rightarrow> bool" where
  "in_irq_context s \<longleftrightarrow> 0 < in_nest s"

section \<open>Software timers\<close>

text \<open>A \<open>timer_t **\<close> of the list walks: the list head, or the \<open>next\<close> field of a timer.\<close>

datatype link = Head | Next addr

definition link_get :: "link \<Rightarrow> 'w intr \<Rightarrow> ptr" where
  "link_get pp s = (case pp of Head \<Rightarrow> in_timer_list s | Next a \<Rightarrow> tm_next (in_timer s a))"

definition tm_upd :: "addr \<Rightarrow> (timer \<Rightarrow> timer) \<Rightarrow> 'w intr \<Rightarrow> 'w intr" where
  "tm_upd a f s = s\<lparr>in_timer := (in_timer s)(a := f (in_timer s a))\<rparr>"

definition link_set :: "link \<Rightarrow> ptr \<Rightarrow> 'w intr \<Rightarrow> 'w intr" where
  "link_set pp v s =
     (case pp of Head \<Rightarrow> s\<lparr>in_timer_list := v\<rparr> | Next a \<Rightarrow> tm_upd a (tm_next_update (\<lambda>_. v)) s)"

definition timer_lock_irq :: "'w intr \<Rightarrow> 'w intr option" where
  "timer_lock_irq s = do {
     (l, daif) \<leftarrow> spin_lock_irq (in_timer_lock s) (cpu_daif (sc_cpu (in_sched s)));
     Some (s\<lparr>in_timer_lock := l, in_sched := (in_sched s)\<lparr>sc_cpu := (sc_cpu (in_sched s))\<lparr>cpu_daif := daif\<rparr>\<rparr>\<rparr>)
   }"

definition timer_unlock_irq :: "'w intr \<Rightarrow> 'w intr" where
  "timer_unlock_irq s =
     (let (l, daif) = spin_unlock_irq (in_timer_lock s) (cpu_daif (sc_cpu (in_sched s)))
      in s\<lparr>in_timer_lock := l, in_sched := (in_sched s)\<lparr>sc_cpu := (sc_cpu (in_sched s))\<lparr>cpu_daif := daif\<rparr>\<rparr>\<rparr>)"

definition timer_init :: "addr \<Rightarrow> ptr \<Rightarrow> ptr \<Rightarrow> 'w intr \<Rightarrow> 'w intr" where
  "timer_init t cb arg s =
     tm_upd t (\<lambda>k. k\<lparr>tm_callback := cb, tm_arg := arg, tm_active := False, tm_periodic := False,
                     tm_next := None\<rparr>) s"

text \<open>The walk that takes a timer off the list, and the one that looks for its place.\<close>

partial_function (option) timer_unlink :: "addr \<Rightarrow> link \<Rightarrow> 'w intr \<Rightarrow> 'w intr option" where
  "timer_unlink t pp s =
     (case link_get pp s of
        None \<Rightarrow> Some s
      | Some a \<Rightarrow>
          if a = t then Some (link_set pp (tm_next (in_timer s t)) s) else timer_unlink t (Next a) s)"

partial_function (option) timer_place :: "addr \<Rightarrow> link \<Rightarrow> 'w intr \<Rightarrow> link option" where
  "timer_place t pp s =
     (case link_get pp s of
        None \<Rightarrow> Some pp
      | Some a \<Rightarrow>
          if tm_expire (in_timer s a) \<le> tm_expire (in_timer s t) then timer_place t (Next a) s
          else Some pp)"

definition timer_insert :: "addr \<Rightarrow> 'w intr \<Rightarrow> 'w intr option" where
  "timer_insert t s = do {
     pp \<leftarrow> timer_place t Head s;
     let s = tm_upd t (tm_next_update (\<lambda>_. link_get pp s)) s;
     Some (link_set pp (Some t) s)
   }"

definition timer_start :: "ptr \<Rightarrow> u32 \<Rightarrow> bool \<Rightarrow> 'w intr \<Rightarrow> (status \<times> 'w intr) option" where
  "timer_start timer delay periodic s =
     (case timer of
        None \<Rightarrow> Some (STATUS_INVALID, s)
      | Some t \<Rightarrow>
          if tm_callback (in_timer s t) = None then Some (STATUS_INVALID, s)
          else do {
            s \<leftarrow> timer_lock_irq s;
            s \<leftarrow> timer_unlink t Head s;
            let s = tm_upd t (\<lambda>k. k\<lparr>tm_expire := get_system_ticks (in_sched s) + delay,
                      tm_period := if periodic then delay else 0, tm_periodic := periodic,
                      tm_active := True\<rparr>) s;
            s \<leftarrow> timer_insert t s;
            Some (STATUS_OK, timer_unlock_irq s)
          })"

definition timer_stop :: "ptr \<Rightarrow> 'w intr \<Rightarrow> 'w intr option" where
  "timer_stop timer s =
     (case timer of
        None \<Rightarrow> Some s
      | Some t \<Rightarrow> do {
          s \<leftarrow> timer_lock_irq s;
          let s = tm_upd t (tm_active_update (\<lambda>_. False)) s;
          s \<leftarrow> timer_unlink t Head s;
          Some (timer_unlock_irq s)
        })"

definition timer_lock_plain :: "'w intr \<Rightarrow> 'w intr option" where
  "timer_lock_plain s = do { l \<leftarrow> spin_lock (in_timer_lock s); Some (s\<lparr>in_timer_lock := l\<rparr>) }"

definition timer_unlock_plain :: "'w intr \<Rightarrow> 'w intr" where
  "timer_unlock_plain s = s\<lparr>in_timer_lock := spin_unlock (in_timer_lock s)\<rparr>"

text \<open>What follows the callback: the lock again, and a periodic timer goes back on the list.\<close>

definition timer_reschedule :: "u32 \<Rightarrow> addr \<Rightarrow> 'w intr \<Rightarrow> 'w intr option" where
  "timer_reschedule now t s = do {
     s \<leftarrow> timer_lock_plain s;
     if tm_periodic (in_timer s t) \<and> tm_active (in_timer s t)
     then timer_insert t (tm_upd t (\<lambda>k. k\<lparr>tm_expire := now + tm_period k\<rparr>) s)
     else Some s
   }"

partial_function (option) timer_expire_loop :: "'w callback \<Rightarrow> u32 \<Rightarrow> 'w intr \<Rightarrow> 'w intr ctl option" where
  "timer_expire_loop code now s =
     (case in_timer_list s of
        None \<Rightarrow> Some (Ret s)
      | Some t \<Rightarrow>
          if tm_expire (in_timer s t) \<le> now then
            let s = s\<lparr>in_timer_list := tm_next (in_timer s t)\<rparr> in
            if tm_active (in_timer s t) then
              (case tm_callback (in_timer s t) of
                 None \<Rightarrow> None
               | Some f \<Rightarrow> do {
                   r \<leftarrow> code f (tm_arg (in_timer s t)) (timer_unlock_plain s);
                   case r of
                     Sw s \<Rightarrow> Some (Sw s)
                   | Ret s \<Rightarrow> do {
                       s \<leftarrow> timer_reschedule now t s;
                       timer_expire_loop code now s
                     }
                 })
            else timer_expire_loop code now s
          else Some (Ret s))"

definition timer_tick_handler :: "'w callback \<Rightarrow> 'w intr \<Rightarrow> 'w intr ctl option" where
  "timer_tick_handler code s =
     (let now = get_system_ticks (in_sched s) in do {
        s \<leftarrow> timer_lock_plain s;
        r \<leftarrow> timer_expire_loop code now s;
        Some (case r of Sw s \<Rightarrow> Sw s | Ret s \<Rightarrow> Ret (timer_unlock_plain s))
      })"

section \<open>The clock interrupt\<close>

definition clock_step :: u64 where
  "clock_step = CONFIG_CPU_FREQ_HZ div of_int CONFIG_TICK_RATE_HZ"

definition timer_irq_handler :: "'w callback \<Rightarrow> 'w intr \<Rightarrow> 'w intr ctl option" where
  "timer_irq_handler code s = do {
     let s = s\<lparr>in_cval := in_cval s + clock_step\<rparr>;
     r \<leftarrow> scheduler_tick (in_sched s);
     case r of
       Sw sc \<Rightarrow> Some (Sw (s\<lparr>in_sched := sc\<rparr>))
     | Ret sc \<Rightarrow> timer_tick_handler code (s\<lparr>in_sched := sc\<rparr>)
   }"

text \<open>\<open>timer_init\<close> of \<open>main.c\<close>; \<open>cnt\<close> is the counter, \<open>h\<close> the address of \<open>timer_irq_handler\<close>.\<close>

definition clock_init :: "u64 \<Rightarrow> addr \<Rightarrow> 'w intr \<Rightarrow> 'w intr option" where
  "clock_init cnt h s = do {
     let s = s\<lparr>in_cval := cnt + clock_step, in_ctl := 1\<rparr>;
     (st, s) \<leftarrow> irq_register CONFIG_TIMER_IRQ (Some h) None s;
     Some (irq_enable CONFIG_TIMER_IRQ s)
   }"

end
