(* ===== verification/Timer_Props.thy ===== *)
theory Timer_Props
  imports Irq Sched_Props "HOL-Library.Multiset"
begin

text \<open>
  The software timers of \<open>kernel/interrupt.c\<close>: the list of running timers as a queue sorted by expiry,
  what starting and stopping do to it, which callbacks a clock tick runs, and the timer that starts
  itself again.
\<close>

section \<open>The queue\<close>

text \<open>The queue as a list of expiry time and timer; among equal times the earlier start goes first.\<close>

type_synonym tqueue = "(u32 \<times> addr) list"

definition tq_insert :: "u32 \<Rightarrow> addr \<Rightarrow> tqueue \<Rightarrow> tqueue" where
  "tq_insert e t q = takeWhile (\<lambda>x. fst x \<le> e) q @ (e, t) # dropWhile (\<lambda>x. fst x \<le> e) q"

definition tq_remove :: "addr \<Rightarrow> tqueue \<Rightarrow> tqueue" where
  "tq_remove t q = filter (\<lambda>x. snd x \<noteq> t) q"

abbreviation t_nx :: "'w intr \<Rightarrow> addr \<Rightarrow> ptr" where
  "t_nx s \<equiv> \<lambda>a. tm_next (in_timer s a)"

definition tq_rep :: "'w intr \<Rightarrow> tqueue \<Rightarrow> bool" where
  "tq_rep s q \<longleftrightarrow> sseg (t_nx s) (in_timer_list s) (map snd q) \<and> distinct (map snd q) \<and> sorted (map fst q) \<and>
     (\<forall>(e, t) \<in> set q. tm_expire (in_timer s t) = e \<and> tm_active (in_timer s t) \<and>
        tm_callback (in_timer s t) \<noteq> None)"

abbreviation timers_free :: "'w intr \<Rightarrow> bool" where
  "timers_free s \<equiv> sl_lock (in_timer_lock s) = 0"

definition tm_core :: "timer \<Rightarrow> timer" where
  "tm_core k = k\<lparr>tm_next := None\<rparr>"

lemma tm_core_eqD:
  assumes "tm_core k = tm_core k'"
  shows "tm_expire k = tm_expire k'" "tm_period k = tm_period k'" "tm_callback k = tm_callback k'"
    "tm_arg k = tm_arg k'" "tm_active k = tm_active k'" "tm_periodic k = tm_periodic k'"
  using assms by (cases k; cases k'; simp add: tm_core_def)+

lemma tm_core_next [simp]: "tm_core (k\<lparr>tm_next := p\<rparr>) = tm_core k"
  by (simp add: tm_core_def)

lemma link_simps [simp]:
  "link_get Head s = in_timer_list s" "link_get (Next a) s = tm_next (in_timer s a)"
  "link_set Head v s = s\<lparr>in_timer_list := v\<rparr>"
  "link_set (Next a) v s = s\<lparr>in_timer := (in_timer s)(a := (in_timer s a)\<lparr>tm_next := v\<rparr>)\<rparr>"
  by (simp_all add: link_get_def link_set_def tm_upd_def)

text \<open>The list from a link on, with the link itself not inside.\<close>

definition seg_at :: "'w intr \<Rightarrow> link \<Rightarrow> addr list \<Rightarrow> bool" where
  "seg_at s pp xs \<longleftrightarrow> sseg (t_nx s) (link_get pp s) xs \<and> distinct xs \<and> (\<forall>a. pp = Next a \<longrightarrow> a \<notin> set xs)"

lemma seg_at_Cons: "seg_at s pp (a # xs) \<Longrightarrow> link_get pp s = Some a \<and> seg_at s (Next a) xs"
  by (auto simp: seg_at_def)

text \<open>Only links of the segment and the link in front of it change.\<close>

definition relinked :: "'w intr \<Rightarrow> link \<Rightarrow> addr set \<Rightarrow> 'w intr \<Rightarrow> bool" where
  "relinked s pp A s' \<longleftrightarrow> s' = s\<lparr>in_timer := in_timer s', in_timer_list := in_timer_list s'\<rparr> \<and>
     (\<forall>a. tm_core (in_timer s' a) = tm_core (in_timer s a)) \<and>
     (pp \<noteq> Head \<longrightarrow> in_timer_list s' = in_timer_list s) \<and>
     (\<forall>a. a \<notin> A \<longrightarrow> pp \<noteq> Next a \<longrightarrow> in_timer s' a = in_timer s a)"

lemma relinkedD:
  assumes "relinked s pp A s'"
  shows "in_sched s' = in_sched s" "in_app s' = in_app s" "in_timer_lock s' = in_timer_lock s"
    "tm_core (in_timer s' a) = tm_core (in_timer s a)"
proof -
  note e = assms[unfolded relinked_def, THEN conjunct1]
  show "in_sched s' = in_sched s" "in_app s' = in_app s" "in_timer_lock s' = in_timer_lock s"
    by (subst e, simp)+
  show "tm_core (in_timer s' a) = tm_core (in_timer s a)" using assms by (simp add: relinked_def)
qed

lemma relinked_link:
  assumes "relinked s (Next a) A s'" and "link_get pp s = Some a" and "\<forall>b. pp = Next b \<longrightarrow> b \<noteq> a \<and> b \<notin> A"
  shows "link_get pp s' = Some a"
  using assms by (cases pp) (auto simp: relinked_def)

lemma relinked_weaken:
  "relinked s (Next a) A s' \<Longrightarrow> insert a A \<subseteq> B \<Longrightarrow> relinked s pp B s'"
  by (auto simp: relinked_def)

lemma timer_unlink_ok:
  assumes "seg_at s pp xs"
  shows "\<exists>s'. timer_unlink t pp s = Some s' \<and> relinked s pp (set xs) s' \<and>
    sseg (t_nx s') (link_get pp s') (filter (\<lambda>a. a \<noteq> t) xs)"
  using assms
proof (induction xs arbitrary: pp)
  case Nil
  then show ?case
    by (subst timer_unlink.simps) (auto simp: seg_at_def relinked_def)
next
  case (Cons a xs)
  note c = seg_at_Cons[OF Cons.prems]
  show ?case
  proof (cases "a = t")
    case True
    have ot: "filter (\<lambda>b. b \<noteq> t) xs = xs" using Cons.prems True by (auto simp: seg_at_def filter_id_conv)
    let ?s' = "link_set pp (tm_next (in_timer s t)) s"
    have eq: "t_nx ?s' b = t_nx s b" if "b \<in> set xs" for b
      using that Cons.prems by (cases pp) (auto simp: seg_at_def)
    have "link_get pp ?s' = tm_next (in_timer s t)" by (cases pp) simp_all
    moreover have "sseg (t_nx s) (tm_next (in_timer s t)) xs" using c True by (simp add: seg_at_def)
    ultimately have "sseg (t_nx ?s') (link_get pp ?s') xs" using sseg_cong[of xs, OF eq] by simp
    moreover have "relinked s pp (set (a # xs)) (link_set pp (tm_next (in_timer s t)) s)"
      by (cases pp) (auto simp: relinked_def)
    ultimately show ?thesis using c True ot by (subst timer_unlink.simps) simp
  next
    case False
    obtain s' where s': "timer_unlink t (Next a) s = Some s'" "relinked s (Next a) (set xs) s'"
      "sseg (t_nx s') (link_get (Next a) s') (filter (\<lambda>b. b \<noteq> t) xs)"
      using Cons.IH[of "Next a"] c by blast
    have "link_get pp s' = Some a"
      using relinked_link[OF s'(2), of pp] c Cons.prems by (auto simp: seg_at_def)
    then show ?thesis using s' c False relinked_weaken[OF s'(2), of "set (a # xs)" pp]
      by (subst timer_unlink.simps) auto
  qed
qed

lemma timer_place_ok:
  assumes "seg_at s pp xs" and "t \<notin> set xs" and "pp \<noteq> Next t"
    and "le = (\<lambda>a. tm_expire (in_timer s a) \<le> tm_expire (in_timer s t))"
  shows "\<exists>pp' s'. timer_place t pp s = Some pp' \<and>
    link_set pp' (Some t) (tm_upd t (tm_next_update (\<lambda>_. link_get pp' s)) s) = s' \<and>
    relinked s pp (insert t (set xs)) s' \<and>
    sseg (t_nx s') (link_get pp s') (takeWhile le xs @ t # dropWhile le xs)"
  using assms(1-3)
proof (induction xs arbitrary: pp)
  case Nil
  then show ?case
    by (subst timer_place.simps) (cases pp; auto simp: seg_at_def relinked_def tm_upd_def)
next
  case (Cons a xs)
  note c = seg_at_Cons[OF Cons.prems(1)]
  show ?case
  proof (cases "le a")
    case True
    obtain pp' s' where s': "timer_place t (Next a) s = Some pp'"
      "link_set pp' (Some t) (tm_upd t (tm_next_update (\<lambda>_. link_get pp' s)) s) = s'"
      "relinked s (Next a) (insert t (set xs)) s'"
      "sseg (t_nx s') (link_get (Next a) s') (takeWhile le xs @ t # dropWhile le xs)"
      using Cons.IH[of "Next a"] c Cons.prems by auto
    have "link_get pp s' = Some a"
      using relinked_link[OF s'(3), of pp] c Cons.prems by (auto simp: seg_at_def)
    then show ?thesis using s' c True relinked_weaken[OF s'(3), of "insert t (set (a # xs))" pp] assms(4)
      by (subst timer_place.simps) auto
  next
    case False
    have nx: "sseg (t_nx s) (Some a) (a # xs)" using c Cons.prems(1) by (simp add: seg_at_def)
    let ?s' = "link_set pp (Some t) (tm_upd t (tm_next_update (\<lambda>_. link_get pp s)) s)"
    have "t_nx ?s' b = t_nx s b" if "b \<in> set (a # xs)" for b
      using that Cons.prems by (cases pp) (auto simp: seg_at_def tm_upd_def)
    then have "sseg (t_nx ?s') (Some a) (a # xs)" using nx by (subst sseg_cong) auto
    moreover have "t_nx ?s' t = Some a" "link_get pp ?s' = Some t"
      using c Cons.prems(3) by (cases pp; auto simp: tm_upd_def)+
    moreover have "relinked s pp (insert t (set (a # xs))) ?s'"
      by (cases pp) (auto simp: relinked_def tm_upd_def)
    ultimately show ?thesis using c False assms(4) by (subst timer_place.simps) auto
  qed
qed

section \<open>Starting and stopping\<close>

lemma timer_lock_irq_ok:
  "timers_free s \<Longrightarrow> \<exists>l sc. timer_lock_irq s = Some (s\<lparr>in_timer_lock := l, in_sched := sc\<rparr>) \<and> sc_ticks sc = sc_ticks (in_sched s)"
  unfolding timer_lock_irq_def spin_lock_irq_def spin_lock_def arch_irq_save_def
  by (intro exI[of _ "(in_timer_lock s)\<lparr>sl_irq_flags := ucast (cpu_daif (sc_cpu (in_sched s))), sl_lock := 1\<rparr>"]
      exI[of _ "(in_sched s)\<lparr>sc_cpu := (sc_cpu (in_sched s))\<lparr>cpu_daif := cpu_daif (sc_cpu (in_sched s)) OR DAIF_I\<rparr>\<rparr>"])
    simp

lemma timer_unlock_irq_eq:
  "\<exists>l sc. timer_unlock_irq s = s\<lparr>in_timer_lock := l, in_sched := sc\<rparr> \<and> sl_lock l = 0 \<and>
     sc_ticks sc = sc_ticks (in_sched s)"
  unfolding timer_unlock_irq_def spin_unlock_irq_def spin_unlock_def Let_def split
  by (intro exI[of _ "(in_timer_lock s)\<lparr>sl_lock := 0\<rparr>"]
      exI[of _ "(in_sched s)\<lparr>sc_cpu := (sc_cpu (in_sched s))\<lparr>cpu_daif :=
         arch_irq_restore (ucast (sl_irq_flags (in_timer_lock s))) (cpu_daif (sc_cpu (in_sched s)))\<rparr>\<rparr>"])
    simp

text \<open>The queue only depends on the list and the timers.\<close>

lemma tq_rep_cong:
  "in_timer s' = in_timer s \<Longrightarrow> in_timer_list s' = in_timer_list s \<Longrightarrow> tq_rep s' q = tq_rep s q"
  by (simp add: tq_rep_def)

lemma seg_at_cong:
  "in_timer s' = in_timer s \<Longrightarrow> in_timer_list s' = in_timer_list s \<Longrightarrow> seg_at s' pp xs = seg_at s pp xs"
  by (cases pp) (simp_all add: seg_at_def)

lemma tq_rep_seg: "tq_rep s q \<Longrightarrow> seg_at s Head (map snd q)"
  by (simp add: tq_rep_def seg_at_def)

lemma tq_repD:
  assumes "tq_rep s q" and "(e, t) \<in> set q"
  shows "tm_expire (in_timer s t) = e" "tm_active (in_timer s t)" "tm_callback (in_timer s t) \<noteq> None"
  using assms by (auto simp: tq_rep_def)

lemma map_snd_remove: "map snd (tq_remove t q) = filter (\<lambda>a. a \<noteq> t) (map snd q)"
  by (induction q) (auto simp: tq_remove_def)

lemma set_tq_remove: "x \<in> set (tq_remove t q) \<longleftrightarrow> x \<in> set q \<and> snd x \<noteq> t"
  by (auto simp: tq_remove_def)

lemma sorted_tq_remove: "sorted (map fst q) \<Longrightarrow> sorted (map fst (tq_remove t q))"
  by (simp add: tq_remove_def sorted_filter)

lemma set_tq_insert: "set (tq_insert e t q) = insert (e, t) (set q)"
proof -
  have "set q = set (takeWhile (\<lambda>x. fst x \<le> e) q) \<union> set (dropWhile (\<lambda>x. fst x \<le> e) q)"
    by (metis set_append takeWhile_dropWhile_id)
  then show ?thesis by (auto simp: tq_insert_def)
qed

lemma sorted_tq_insert: "sorted (map fst q) \<Longrightarrow> sorted (map fst (tq_insert e t q))"
proof (induction q)
  case Nil
  then show ?case by (simp add: tq_insert_def)
next
  case (Cons x q)
  then show ?case
    by (cases "fst x \<le> e") (auto simp: tq_insert_def dest: set_takeWhileD set_dropWhileD intro: order_trans)
qed

lemma map_snd_tq_insert:
  assumes "\<forall>(e', t') \<in> set q. tm_expire (f t') = e'"
  shows "map snd (tq_insert e t q) =
    takeWhile (\<lambda>a. tm_expire (f a) \<le> e) (map snd q) @ t # dropWhile (\<lambda>a. tm_expire (f a) \<le> e) (map snd q)"
proof -
  have "takeWhile (\<lambda>a. tm_expire (f a) \<le> e) (map snd q) = map snd (takeWhile (\<lambda>x. fst x \<le> e) q)"
    "dropWhile (\<lambda>a. tm_expire (f a) \<le> e) (map snd q) = map snd (dropWhile (\<lambda>x. fst x \<le> e) q)"
    using assms by (induction q) auto
  then show ?thesis by (simp add: tq_insert_def)
qed

lemma timer_unlink_rep:
  assumes "tq_rep s q"
  shows "\<exists>s'. timer_unlink t Head s = Some s' \<and> tq_rep s' (tq_remove t q) \<and> relinked s Head (set (map snd q)) s'"
proof -
  obtain s' where s': "timer_unlink t Head s = Some s'" "relinked s Head (set (map snd q)) s'"
    "sseg (t_nx s') (in_timer_list s') (filter (\<lambda>a. a \<noteq> t) (map snd q))"
    using timer_unlink_ok[OF tq_rep_seg[OF assms]] by auto
  have core: "tm_core (in_timer s' a) = tm_core (in_timer s a)" for a using relinkedD(4)[OF s'(2)] .
  have "tq_rep s' (tq_remove t q)" unfolding tq_rep_def map_snd_remove
    using s'(3) assms tm_core_eqD[OF core]
    by (auto simp: tq_rep_def set_tq_remove sorted_tq_remove)
  then show ?thesis using s' by blast
qed

lemma timer_insert_rep:
  assumes "tq_rep s q" and "t \<notin> snd ` set q" and "tm_active (in_timer s t)" and "tm_callback (in_timer s t) \<noteq> None"
  shows "\<exists>s'. timer_insert t s = Some s' \<and> tq_rep s' (tq_insert (tm_expire (in_timer s t)) t q) \<and>
    relinked s Head (insert t (set (map snd q))) s'"
proof -
  let ?e = "tm_expire (in_timer s t)"
  obtain pp' s' where s': "timer_place t Head s = Some pp'"
    "link_set pp' (Some t) (tm_upd t (tm_next_update (\<lambda>_. link_get pp' s)) s) = s'"
    "relinked s Head (insert t (set (map snd q))) s'"
    "sseg (t_nx s') (in_timer_list s') (takeWhile (\<lambda>a. tm_expire (in_timer s a) \<le> ?e) (map snd q) @
       t # dropWhile (\<lambda>a. tm_expire (in_timer s a) \<le> ?e) (map snd q))"
    using timer_place_ok[OF tq_rep_seg[OF assms(1)], of t] assms(2) by auto
  have core: "tm_core (in_timer s' a) = tm_core (in_timer s a)" for a using relinkedD(4)[OF s'(3)] .
  have seg: "sseg (t_nx s') (in_timer_list s') (map snd (tq_insert ?e t q))"
    using s'(4) assms(1) by (subst map_snd_tq_insert[of q "in_timer s"]) (auto simp: tq_rep_def)
  have "distinct (map snd (tq_insert ?e t q))"
  proof -
    have "mset (map snd (tq_insert ?e t q)) = mset (t # map snd q)"
      unfolding tq_insert_def by (metis (no_types, lifting) list.simps(9) map_append mset.simps(2) mset_append
          snd_conv takeWhile_dropWhile_id union_mset_add_mset_right)
    then show ?thesis using assms(1,2) mset_eq_imp_distinct_iff by (fastforce simp: tq_rep_def)
  qed
  then have "tq_rep s' (tq_insert ?e t q)"
    using seg assms tm_core_eqD[OF core]
    by (auto simp: tq_rep_def set_tq_insert sorted_tq_insert)
  then show ?thesis using s' by (auto simp: timer_insert_def)
qed

text \<open>Changing a timer that is not on the list.\<close>

lemma tq_rep_upd:
  assumes "tq_rep s q" and "t \<notin> snd ` set q"
  shows "tq_rep (tm_upd t f s) q"
proof -
  have "sseg (t_nx (tm_upd t f s)) p (map snd q) = sseg (t_nx s) p (map snd q)" for p
    using assms(2) by (intro sseg_cong) (auto simp: tm_upd_def)
  then show ?thesis using assms by (auto simp: tq_rep_def tm_upd_def image_iff)
qed

lemma timer_start_rep:
  assumes "tq_rep s q" and "timers_free s" and "tm_callback (in_timer s t) \<noteq> None"
  shows "\<exists>s'. timer_start (Some t) d p s = Some (STATUS_OK, s') \<and>
    tq_rep s' (tq_insert (sc_ticks (in_sched s) + d) t (tq_remove t q)) \<and> timers_free s' \<and>
    sc_ticks (in_sched s') = sc_ticks (in_sched s) \<and> in_app s' = in_app s \<and>
    tm_periodic (in_timer s' t) = p \<and> tm_period (in_timer s' t) = (if p then d else 0) \<and>
    (\<forall>a. tm_callback (in_timer s' a) = tm_callback (in_timer s a) \<and> tm_arg (in_timer s' a) = tm_arg (in_timer s a))"
proof -
  obtain l sc where lk: "timer_lock_irq s = Some (s\<lparr>in_timer_lock := l, in_sched := sc\<rparr>)"
    "sc_ticks sc = sc_ticks (in_sched s)" using timer_lock_irq_ok[OF assms(2)] by blast
  let ?s1 = "s\<lparr>in_timer_lock := l, in_sched := sc\<rparr>"
  have "tq_rep ?s1 q" using assms(1) tq_rep_cong[of ?s1 s] by simp
  then obtain s2 where s2: "timer_unlink t Head ?s1 = Some s2" "tq_rep s2 (tq_remove t q)"
    "relinked ?s1 Head (set (map snd q)) s2" using timer_unlink_rep by blast
  have c2: "tm_core (in_timer s2 a) = tm_core (in_timer s a)" "in_sched s2 = sc" "in_app s2 = in_app s" for a
    using relinkedD[OF s2(3)] by simp_all
  let ?f = "\<lambda>k. k\<lparr>tm_expire := get_system_ticks (in_sched s2) + d, tm_period := if p then d else 0,
      tm_periodic := p, tm_active := True\<rparr>"
  let ?s3 = "tm_upd t ?f s2"
  have nt: "t \<notin> snd ` set (tq_remove t q)" by (auto simp: set_tq_remove)
  have cb: "tm_callback (in_timer ?s3 t) \<noteq> None" using tm_core_eqD(3)[OF c2(1), of t] assms(3) by (simp add: tm_upd_def)
  obtain s4 where s4: "timer_insert t ?s3 = Some s4"
    "tq_rep s4 (tq_insert (tm_expire (in_timer ?s3 t)) t (tq_remove t q))"
    "relinked ?s3 Head (insert t (set (map snd (tq_remove t q)))) s4"
    using timer_insert_rep[OF tq_rep_upd[OF s2(2) nt] nt _ cb] by (auto simp: tm_upd_def)
  have c4: "tm_core (in_timer s4 a) = tm_core (in_timer ?s3 a)" "in_sched s4 = sc" "in_app s4 = in_app s" for a
    using relinkedD[OF s4(3)] c2(2,3) by (simp_all add: tm_upd_def)
  obtain l' sc' where ul: "timer_unlock_irq s4 = s4\<lparr>in_timer_lock := l', in_sched := sc'\<rparr>" "sl_lock l' = 0"
    "sc_ticks sc' = sc_ticks (in_sched s4)" using timer_unlock_irq_eq by blast
  have "tm_callback (in_timer s4 a) = tm_callback (in_timer s a) \<and> tm_arg (in_timer s4 a) = tm_arg (in_timer s a)" for a
    using tm_core_eqD(3,4)[OF c4(1), of a] tm_core_eqD(3,4)[OF c2(1), of a] by (auto simp: tm_upd_def)
  moreover have "tm_periodic (in_timer s4 t) = p \<and> tm_period (in_timer s4 t) = (if p then d else 0)"
    using tm_core_eqD(2,6)[OF c4(1), of t] by (simp add: tm_upd_def)
  moreover have "tq_rep (timer_unlock_irq s4) (tq_insert (sc_ticks (in_sched s) + d) t (tq_remove t q))"
    using s4(2) tq_rep_cong[of "timer_unlock_irq s4" s4] ul(1) c2(2) lk(2) by (simp add: tm_upd_def get_system_ticks_def)
  moreover have "timer_start (Some t) d p s = Some (STATUS_OK, timer_unlock_irq s4)"
    using assms(3) lk(1) s2(1) s4(1) by (simp add: timer_start_def)
  ultimately show ?thesis using ul c4(2,3) lk(2) by (intro exI[of _ "timer_unlock_irq s4"]) simp
qed

lemma timer_stop_rep:
  assumes "tq_rep s q" and "timers_free s"
  shows "\<exists>s'. timer_stop (Some t) s = Some s' \<and> tq_rep s' (tq_remove t q) \<and> timers_free s' \<and>
    sc_ticks (in_sched s') = sc_ticks (in_sched s) \<and> in_app s' = in_app s \<and> \<not> tm_active (in_timer s' t) \<and>
    (\<forall>a. tm_callback (in_timer s' a) = tm_callback (in_timer s a) \<and> tm_arg (in_timer s' a) = tm_arg (in_timer s a))"
proof -
  obtain l sc where lk: "timer_lock_irq s = Some (s\<lparr>in_timer_lock := l, in_sched := sc\<rparr>)"
    "sc_ticks sc = sc_ticks (in_sched s)" using timer_lock_irq_ok[OF assms(2)] by blast
  let ?s1 = "tm_upd t (tm_active_update (\<lambda>_. False)) (s\<lparr>in_timer_lock := l, in_sched := sc\<rparr>)"
  have "sseg (t_nx ?s1) (in_timer_list ?s1) (map snd q)"
    using assms(1) by (subst sseg_cong[of _ _ "t_nx s"]) (auto simp: tq_rep_def tm_upd_def)
  then have "seg_at ?s1 Head (map snd q)" using assms(1) by (simp add: seg_at_def tq_rep_def)
  then obtain s2 where s2: "timer_unlink t Head ?s1 = Some s2" "relinked ?s1 Head (set (map snd q)) s2"
    "sseg (t_nx s2) (in_timer_list s2) (filter (\<lambda>a. a \<noteq> t) (map snd q))"
    using timer_unlink_ok by fastforce
  have c2: "tm_core (in_timer s2 a) = tm_core (in_timer ?s1 a)" "in_sched s2 = sc" "in_app s2 = in_app s" for a
    using relinkedD[OF s2(2)] by (simp_all add: tm_upd_def)
  obtain l' sc' where ul: "timer_unlock_irq s2 = s2\<lparr>in_timer_lock := l', in_sched := sc'\<rparr>" "sl_lock l' = 0"
    "sc_ticks sc' = sc_ticks (in_sched s2)" using timer_unlock_irq_eq by blast
  have "tm_expire (in_timer s2 a) = tm_expire (in_timer s a) \<and> tm_callback (in_timer s2 a) = tm_callback (in_timer s a) \<and>
      tm_arg (in_timer s2 a) = tm_arg (in_timer s a) \<and> tm_active (in_timer s2 a) = (tm_active (in_timer s a) \<and> a \<noteq> t)" for a
    using tm_core_eqD[OF c2(1), of a] by (auto simp: tm_upd_def)
  note f = this
  have "tq_rep s2 (tq_remove t q)" unfolding tq_rep_def map_snd_remove
    using s2(3) assms(1) f by (auto simp: tq_rep_def set_tq_remove sorted_tq_remove)
  then have "tq_rep (timer_unlock_irq s2) (tq_remove t q)" using tq_rep_cong[of "timer_unlock_irq s2" s2] ul(1) by simp
  moreover have "timer_stop (Some t) s = Some (timer_unlock_irq s2)" using lk(1) s2(1) by (simp add: timer_stop_def)
  ultimately show ?thesis using ul c2(2,3) lk(2) f by (intro exI[of _ "timer_unlock_irq s2"]) simp
qed

section \<open>Any sequence of starts and stops\<close>

datatype tq_op = T_start addr u32 bool | T_stop addr

fun tq_exec :: "tq_op list \<Rightarrow> 'w intr \<Rightarrow> 'w intr option" where
  "tq_exec [] s = Some s"
| "tq_exec (T_start t d p # ops) s = do { (st, s) \<leftarrow> timer_start (Some t) d p s; tq_exec ops s }"
| "tq_exec (T_stop t # ops) s = do { s \<leftarrow> timer_stop (Some t) s; tq_exec ops s }"

fun tq_ops :: "u32 \<Rightarrow> tq_op list \<Rightarrow> tqueue \<Rightarrow> tqueue" where
  "tq_ops now [] q = q"
| "tq_ops now (T_start t d p # ops) q = tq_ops now ops (tq_insert (now + d) t (tq_remove t q))"
| "tq_ops now (T_stop t # ops) q = tq_ops now ops (tq_remove t q)"

fun op_ready :: "'w intr \<Rightarrow> tq_op \<Rightarrow> bool" where
  "op_ready s (T_start t d p) \<longleftrightarrow> tm_callback (in_timer s t) \<noteq> None"
| "op_ready s (T_stop t) \<longleftrightarrow> True"

lemma op_ready_cong:
  "\<forall>a. tm_callback (in_timer s' a) = tm_callback (in_timer s a) \<Longrightarrow> op_ready s' x = op_ready s x"
  by (cases x) auto

lemma tq_exec_ok:
  assumes "tq_rep s q" and "timers_free s" and "\<forall>x \<in> set ops. op_ready s x"
  shows "\<exists>s'. tq_exec ops s = Some s' \<and> tq_rep s' (tq_ops (sc_ticks (in_sched s)) ops q) \<and> timers_free s' \<and>
    in_app s' = in_app s"
  using assms
proof (induction ops arbitrary: s q)
  case Nil
  then show ?case by simp
next
  case (Cons x ops)
  show ?case
  proof (cases x)
    case (T_start t d p)
    then obtain s1 where s1: "timer_start (Some t) d p s = Some (STATUS_OK, s1)"
      "tq_rep s1 (tq_insert (sc_ticks (in_sched s) + d) t (tq_remove t q))" "timers_free s1"
      "sc_ticks (in_sched s1) = sc_ticks (in_sched s)" "in_app s1 = in_app s"
      "\<forall>a. tm_callback (in_timer s1 a) = tm_callback (in_timer s a)"
      using timer_start_rep[OF Cons.prems(1,2), of t d p] Cons.prems(3) by auto
    show ?thesis using Cons.IH[OF s1(2,3)] Cons.prems(3) op_ready_cong[OF s1(6)] s1(1,4,5) T_start by auto
  next
    case (T_stop t)
    obtain s1 where s1: "timer_stop (Some t) s = Some s1" "tq_rep s1 (tq_remove t q)" "timers_free s1"
      "sc_ticks (in_sched s1) = sc_ticks (in_sched s)" "in_app s1 = in_app s"
      "\<forall>a. tm_callback (in_timer s1 a) = tm_callback (in_timer s a)"
      using timer_stop_rep[OF Cons.prems(1,2), of t] by auto
    show ?thesis using Cons.IH[OF s1(2,3)] Cons.prems(3) op_ready_cong[OF s1(6)] s1(1,4,5) T_stop by auto
  qed
qed

section \<open>A clock tick\<close>

text \<open>Callbacks that return and keep to their own data: \<open>g\<close> is what each does to it.\<close>

definition quiet :: "'w callback \<Rightarrow> (addr \<Rightarrow> ptr \<Rightarrow> 'w \<Rightarrow> 'w) \<Rightarrow> bool" where
  "quiet code g \<longleftrightarrow> (\<forall>f arg s. code f arg s = Some (Ret (s\<lparr>in_app := g f arg (in_app s)\<rparr>)))"

text \<open>The timers that have expired, what their callbacks do, and the queue afterwards.\<close>

definition tq_due :: "u32 \<Rightarrow> tqueue \<Rightarrow> tqueue" where
  "tq_due now q = takeWhile (\<lambda>x. fst x \<le> now) q"

definition tq_later :: "u32 \<Rightarrow> tqueue \<Rightarrow> tqueue" where
  "tq_later now q = dropWhile (\<lambda>x. fst x \<le> now) q"

definition run_callbacks :: "(addr \<Rightarrow> ptr \<Rightarrow> 'w \<Rightarrow> 'w) \<Rightarrow> (addr \<Rightarrow> timer) \<Rightarrow> addr list \<Rightarrow> 'w \<Rightarrow> 'w" where
  "run_callbacks g T ts w = fold (\<lambda>t. g (the (tm_callback (T t))) (tm_arg (T t))) ts w"

definition requeue :: "u32 \<Rightarrow> (addr \<Rightarrow> timer) \<Rightarrow> addr list \<Rightarrow> tqueue \<Rightarrow> tqueue" where
  "requeue now T ts q =
     fold (\<lambda>t q. if tm_periodic (T t) then tq_insert (now + tm_period (T t)) t q else q) ts q"

text \<open>What a tick does not change of a timer.\<close>

definition tm_conf :: "timer \<Rightarrow> ptr \<times> ptr \<times> bool \<times> u32" where
  "tm_conf k = (tm_callback k, tm_arg k, tm_periodic k, tm_period k)"

lemma tm_conf_eqD:
  "tm_conf k = tm_conf k' \<Longrightarrow> tm_callback k = tm_callback k' \<and> tm_arg k = tm_arg k' \<and>
     tm_periodic k = tm_periodic k' \<and> tm_period k = tm_period k'"
  by (simp add: tm_conf_def)

lemma run_callbacks_cong:
  "\<forall>a. tm_conf (T a) = tm_conf (T' a) \<Longrightarrow> run_callbacks g T ts w = run_callbacks g T' ts w"
  unfolding run_callbacks_def by (intro fold_cong) (auto simp: tm_conf_def)

lemma requeue_cong:
  "\<forall>a. tm_conf (T a) = tm_conf (T' a) \<Longrightarrow> requeue now T ts q = requeue now T' ts q"
  unfolding requeue_def by (intro fold_cong ext) (auto simp: tm_conf_def)

lemma timer_reschedule_rep:
  assumes "tq_rep s q" and "t \<notin> snd ` set q" and "timers_free s" and "tm_active (in_timer s t)"
    and "tm_callback (in_timer s t) \<noteq> None"
  shows "\<exists>s'. timer_reschedule now t s = Some s' \<and>
    tq_rep s' (if tm_periodic (in_timer s t) then tq_insert (now + tm_period (in_timer s t)) t q else q) \<and>
    in_app s' = in_app s \<and> in_sched s' = in_sched s \<and> (\<forall>a. tm_conf (in_timer s' a) = tm_conf (in_timer s a))"
proof -
  let ?s1 = "s\<lparr>in_timer_lock := (in_timer_lock s)\<lparr>sl_lock := 1\<rparr>\<rparr>"
  have lk: "timer_lock_plain s = Some ?s1" using assms(3) by (simp add: timer_lock_plain_def spin_lock_def)
  have r1: "tq_rep ?s1 q" using tq_rep_cong[of ?s1 s] assms(1) by simp
  show ?thesis
  proof (cases "tm_periodic (in_timer s t)")
    case False
    then show ?thesis using lk r1 by (simp add: timer_reschedule_def)
  next
    case True
    let ?s2 = "tm_upd t (\<lambda>k. k\<lparr>tm_expire := now + tm_period k\<rparr>) ?s1"
    have k2: "tm_active (in_timer ?s2 t)" "tm_callback (in_timer ?s2 t) \<noteq> None"
      "tm_expire (in_timer ?s2 t) = now + tm_period (in_timer s t)" using assms(4,5) by (simp_all add: tm_upd_def)
    obtain s3 where s3: "timer_insert t ?s2 = Some s3" "tq_rep s3 (tq_insert (now + tm_period (in_timer s t)) t q)"
      "relinked ?s2 Head (insert t (set (map snd q))) s3"
      using timer_insert_rep[OF tq_rep_upd[OF r1 assms(2)] assms(2) k2(1,2)] unfolding k2(3) by blast
    have "tm_conf (in_timer s3 a) = tm_conf (in_timer s a)" for a
      using tm_core_eqD[OF relinkedD(4)[OF s3(3)], of a] by (simp add: tm_conf_def tm_upd_def)
    then show ?thesis using lk s3 True assms(4) relinkedD[OF s3(3)]
      by (simp add: timer_reschedule_def tm_upd_def)
  qed
qed

lemma tq_insert_later:
  assumes "\<forall>x \<in> set dq. fst x \<le> e"
  shows "tq_insert e t (dq @ rest) = dq @ tq_insert e t rest"
  using assms by (simp add: tq_insert_def takeWhile_append dropWhile_append)

lemma timer_expire_loop_ok:
  assumes "quiet code g" and "tq_rep s (dq @ rest)" and "\<forall>x \<in> set dq. fst x \<le> now"
    and "\<forall>x \<in> set rest. now < fst x"
    and "\<forall>x \<in> set dq. tm_periodic (in_timer s (snd x)) \<longrightarrow> now < now + tm_period (in_timer s (snd x))"
  shows "\<exists>s'. timer_expire_loop code now s = Some (Ret s') \<and>
    tq_rep s' (requeue now (in_timer s) (map snd dq) rest) \<and>
    in_app s' = run_callbacks g (in_timer s) (map snd dq) (in_app s) \<and> in_sched s' = in_sched s \<and>
    (\<forall>a. tm_conf (in_timer s' a) = tm_conf (in_timer s a))"
  using assms(2-5)
proof (induction dq arbitrary: s rest)
  case Nil
  have "in_timer_list s = None \<or> (\<exists>t. in_timer_list s = Some t \<and> now < tm_expire (in_timer s t))"
    using Nil by (cases rest) (auto simp: tq_rep_def)
  then show ?case using Nil(1)
    by (subst timer_expire_loop.simps) (auto simp: requeue_def run_callbacks_def)
next
  case (Cons x dq)
  obtain e t where x: "x = (e, t)" by force
  have t: "in_timer_list s = Some t" "tm_expire (in_timer s t) = e" "tm_active (in_timer s t)" "e \<le> now"
    "t \<notin> snd ` set (dq @ rest)" using Cons.prems(1,2) x by (auto simp: tq_rep_def)
  obtain f where f: "tm_callback (in_timer s t) = Some f" using Cons.prems(1) x by (auto simp: tq_rep_def)
  let ?s1 = "s\<lparr>in_timer_list := tm_next (in_timer s t)\<rparr>"
  let ?s2 = "(timer_unlock_plain ?s1)\<lparr>in_app := g f (tm_arg (in_timer s t)) (in_app s)\<rparr>"
  have r2: "tq_rep ?s2 (dq @ rest)" using Cons.prems(1) x by (auto simp: tq_rep_def timer_unlock_plain_def)
  have cb: "code f (tm_arg (in_timer s t)) (timer_unlock_plain ?s1) = Some (Ret ?s2)"
    using assms(1) by (simp add: quiet_def timer_unlock_plain_def)
  have pr: "timers_free ?s2" "tm_active (in_timer ?s2 t)" "tm_callback (in_timer ?s2 t) \<noteq> None"
    using t f by (simp_all add: timer_unlock_plain_def spin_unlock_def)
  have same: "in_timer ?s2 = in_timer s" "in_app ?s2 = g f (tm_arg (in_timer s t)) (in_app s)" "in_sched ?s2 = in_sched s"
    by (simp_all add: timer_unlock_plain_def)
  define rest' where "rest' = (if tm_periodic (in_timer s t) then tq_insert (now + tm_period (in_timer s t)) t rest else rest)"
  have app: "(if tm_periodic (in_timer s t) then tq_insert (now + tm_period (in_timer s t)) t (dq @ rest) else dq @ rest) = dq @ rest'"
    using Cons.prems(2,4) x tq_insert_later[of dq "now + tm_period (in_timer s t)" t rest]
    by (fastforce simp: rest'_def intro: order_trans less_imp_le)
  obtain s3 where s3: "timer_reschedule now t ?s2 = Some s3" "tq_rep s3 (dq @ rest')"
    "in_app s3 = g f (tm_arg (in_timer s t)) (in_app s)" "in_sched s3 = in_sched s"
    "\<forall>a. tm_conf (in_timer s3 a) = tm_conf (in_timer s a)"
    using timer_reschedule_rep[OF r2 t(5) pr, of now] unfolding same app by auto
  have "\<forall>x \<in> set rest'. now < fst x" using Cons.prems(3,4) x by (auto simp: rest'_def set_tq_insert)
  moreover have "\<forall>x \<in> set dq. tm_periodic (in_timer s3 (snd x)) \<longrightarrow> now < now + tm_period (in_timer s3 (snd x))"
    using Cons.prems(4) tm_conf_eqD[OF s3(5)[rule_format]] by auto
  ultimately obtain s' where s': "timer_expire_loop code now s3 = Some (Ret s')"
    "tq_rep s' (requeue now (in_timer s3) (map snd dq) rest')"
    "in_app s' = run_callbacks g (in_timer s3) (map snd dq) (in_app s3)" "in_sched s' = in_sched s3"
    "\<forall>a. tm_conf (in_timer s' a) = tm_conf (in_timer s3 a)"
    using Cons.IH[OF s3(2)] Cons.prems(2) by auto
  have "timer_expire_loop code now s = Some (Ret s')"
    using t f cb s3(1) s'(1) by (subst timer_expire_loop.simps) simp
  moreover have "requeue now (in_timer s3) (map snd dq) rest' = requeue now (in_timer s) (map snd (x # dq)) rest"
    using requeue_cong[OF s3(5)] x by (simp add: requeue_def rest'_def)
  moreover have "run_callbacks g (in_timer s3) (map snd dq) (in_app s3) = run_callbacks g (in_timer s) (map snd (x # dq)) (in_app s)"
    using run_callbacks_cong[OF s3(5), of g] s3(3) f x by (simp add: run_callbacks_def)
  ultimately show ?case using s' s3(4,5) by auto
qed

lemma timer_tick_ok:
  assumes "quiet code g" and "tq_rep s q" and "timers_free s" and "now = sc_ticks (in_sched s)"
    and "\<forall>x \<in> set q. tm_periodic (in_timer s (snd x)) \<longrightarrow> now < now + tm_period (in_timer s (snd x))"
  shows "\<exists>s'. timer_tick_handler code s = Some (Ret s') \<and>
    tq_rep s' (requeue now (in_timer s) (map snd (tq_due now q)) (tq_later now q)) \<and>
    in_app s' = run_callbacks g (in_timer s) (map snd (tq_due now q)) (in_app s) \<and>
    timers_free s' \<and> in_sched s' = in_sched s"
proof -
  let ?s1 = "s\<lparr>in_timer_lock := (in_timer_lock s)\<lparr>sl_lock := 1\<rparr>\<rparr>"
  have lk: "timer_lock_plain s = Some ?s1" using assms(3) by (simp add: timer_lock_plain_def spin_lock_def)
  have q: "tq_due now q @ tq_later now q = q" by (simp add: tq_due_def tq_later_def)
  have r1: "tq_rep ?s1 (tq_due now q @ tq_later now q)" unfolding q using tq_rep_cong[of ?s1 s] assms(2) by simp
  have due: "\<forall>x \<in> set (tq_due now q). fst x \<le> now" by (auto simp: tq_due_def dest: set_takeWhileD)
  have later: "\<forall>x \<in> set (tq_later now q). now < fst x"
  proof -
    have "sorted (map fst q)" using assms(2) by (simp add: tq_rep_def)
    then show ?thesis unfolding tq_later_def by (induction q) (auto intro: less_le_trans)
  qed
  have per: "\<forall>x \<in> set (tq_due now q). tm_periodic (in_timer ?s1 (snd x)) \<longrightarrow> now < now + tm_period (in_timer ?s1 (snd x))"
    using assms(5) by (auto simp: tq_due_def dest: set_takeWhileD)
  obtain s' where s': "timer_expire_loop code now ?s1 = Some (Ret s')"
    "tq_rep s' (requeue now (in_timer s) (map snd (tq_due now q)) (tq_later now q))"
    "in_app s' = run_callbacks g (in_timer s) (map snd (tq_due now q)) (in_app s)" "in_sched s' = in_sched s"
    using timer_expire_loop_ok[OF assms(1) r1 due later per] by auto
  have "timer_tick_handler code s = Some (Ret (timer_unlock_plain s'))"
    using lk s'(1) assms(4) by (simp add: timer_tick_handler_def get_system_ticks_def)
  then show ?thesis using s' tq_rep_cong[of "timer_unlock_plain s'" s']
    by (simp add: timer_unlock_plain_def spin_unlock_def)
qed

section \<open>A timer that starts itself\<close>

text \<open>A timer whose successor is itself: a walk that reaches it and does not stop there never ends.\<close>

lemma timer_unlink_stuck:
  assumes "link_get pp s = Some t" and "t_nx s t = Some t" and "u \<noteq> t"
  shows "timer_unlink u pp s = None"
proof (cases "timer_unlink u pp s")
  case (Some s')
  have "link_get pp s = Some t \<and> t_nx s t = Some t \<and> u \<noteq> t \<longrightarrow> False"
    by (rule timer_unlink.raw_induct[where P = "\<lambda>u pp s s'. link_get pp s = Some t \<and> t_nx s t = Some t \<and> u \<noteq> t \<longrightarrow> False",
          OF _ Some]) (auto split: option.splits if_splits)
  then show ?thesis using assms by simp
qed simp

lemma timer_place_stuck:
  assumes "link_get pp s = Some t" and "t_nx s t = Some t" and "tm_expire (in_timer s t) \<le> tm_expire (in_timer s u)"
  shows "timer_place u pp s = None"
proof (cases "timer_place u pp s")
  case (Some pp')
  have "link_get pp s = Some t \<and> t_nx s t = Some t \<and> tm_expire (in_timer s t) \<le> tm_expire (in_timer s u) \<longrightarrow> False"
    by (rule timer_place.raw_induct[where P = "\<lambda>u pp s pp'. link_get pp s = Some t \<and> t_nx s t = Some t \<and>
          tm_expire (in_timer s t) \<le> tm_expire (in_timer s u) \<longrightarrow> False", OF _ Some])
      (auto split: option.splits if_splits)
  then show ?thesis using assms by simp
qed simp

definition self_looped :: "'w intr \<Rightarrow> addr \<Rightarrow> bool" where
  "self_looped s t \<longleftrightarrow> in_timer_list s = Some t \<and> t_nx s t = Some t \<and> tm_active (in_timer s t)"

lemma self_looped_stop:
  assumes "self_looped s t" and "u \<noteq> t"
  shows "timer_stop (Some u) s = None"
proof (cases "timer_lock_irq s")
  case (Some s1)
  have "link_get Head (tm_upd u (tm_active_update (\<lambda>_. False)) s1) = Some t"
    "t_nx (tm_upd u (tm_active_update (\<lambda>_. False)) s1) t = Some t"
    using Some assms by (auto simp: timer_lock_irq_def self_looped_def tm_upd_def bind_eq_Some_conv)
  then have "timer_unlink u Head (tm_upd u (tm_active_update (\<lambda>_. False)) s1) = None"
    by (rule timer_unlink_stuck[OF _ _ assms(2)])
  then show ?thesis using Some by (simp add: timer_stop_def)
qed (simp add: timer_stop_def)

lemma self_looped_start:
  assumes "self_looped s t" and "tm_callback (in_timer s t) \<noteq> None"
  shows "timer_start (Some t) d p s = None"
proof (cases "timer_lock_irq s")
  case (Some s1)
  have l1: "in_timer_list s1 = Some t" "t_nx s1 t = Some t"
    using Some assms by (auto simp: timer_lock_irq_def self_looped_def bind_eq_Some_conv)
  let ?s2 = "s1\<lparr>in_timer_list := Some t\<rparr>"
  let ?s3 = "tm_upd t (\<lambda>k. k\<lparr>tm_expire := get_system_ticks (in_sched ?s2) + d,
                      tm_period := if p then d else 0, tm_periodic := p, tm_active := True\<rparr>) ?s2"
  have "timer_unlink t Head s1 = Some ?s2" using l1 by (subst timer_unlink.simps) simp
  moreover have "timer_place t Head ?s3 = None"
    using l1 by (intro timer_place_stuck[where t = t]) (simp_all add: tm_upd_def)
  ultimately show ?thesis using Some assms(2) by (simp add: timer_start_def timer_insert_def)
qed (use assms in \<open>simp add: timer_start_def\<close>)

text \<open>The callback that starts its own timer again.\<close>

definition restarts :: "'w callback \<Rightarrow> addr \<Rightarrow> ptr \<Rightarrow> addr \<Rightarrow> u32 \<Rightarrow> bool" where
  "restarts code f arg t d \<longleftrightarrow>
     (\<forall>s. code f arg s = map_option (\<lambda>(st, s). Ret s) (timer_start (Some t) d True s))"

lemma timer_restart_ok:
  assumes rep: "tq_rep s [(e, t)]" and due: "e \<le> now" "now = sc_ticks (in_sched s)" "now < now + d"
    and free: "timers_free s" and k: "tm_callback (in_timer s t) = Some f" "tm_arg (in_timer s t) = a"
    and code: "restarts code f a t d"
  shows "\<exists>s'. timer_tick_handler code s = Some (Ret s') \<and> self_looped s' t \<and> timers_free s' \<and>
    tm_expire (in_timer s' t) = now + d \<and> tm_callback (in_timer s' t) = Some f \<and> tm_arg (in_timer s' t) = a"
proof -
  let ?s0 = "s\<lparr>in_timer_lock := (in_timer_lock s)\<lparr>sl_lock := 1\<rparr>\<rparr>"
  let ?s1 = "timer_unlock_plain (?s0\<lparr>in_timer_list := None\<rparr>)"
  have lk: "timer_lock_plain s = Some ?s0" using free by (simp add: timer_lock_plain_def spin_lock_def)
  have h: "in_timer_list s = Some t" "t_nx s t = None" "tm_expire (in_timer s t) = e" "tm_active (in_timer s t)"
    using rep by (auto simp: tq_rep_def)
  have p1: "tq_rep ?s1 []" "timers_free ?s1" "tm_callback (in_timer ?s1 t) \<noteq> None"
    and q1: "sc_ticks (in_sched ?s1) = now" "tq_insert (now + d) t (tq_remove t []) = [(now + d, t)]"
      "tm_callback (in_timer ?s1 t) = Some f" "tm_arg (in_timer ?s1 t) = a"
    using k due by (simp_all add: tq_rep_def timer_unlock_plain_def spin_unlock_def tq_insert_def tq_remove_def)
  obtain s2 where s2: "timer_start (Some t) d True ?s1 = Some (STATUS_OK, s2)" "tq_rep s2 [(now + d, t)]"
    "timers_free s2" "tm_periodic (in_timer s2 t)" "tm_period (in_timer s2 t) = d"
    "tm_callback (in_timer s2 t) = Some f" "tm_arg (in_timer s2 t) = a"
    using timer_start_rep[OF p1, of d True] unfolding q1 by (metis (full_types) q1(3,4))
  have h2: "in_timer_list s2 = Some t" "t_nx s2 t = None" "tm_active (in_timer s2 t)"
    using s2(2) by (auto simp: tq_rep_def)
  let ?s3 = "tm_upd t (\<lambda>k. k\<lparr>tm_expire := now + tm_period k\<rparr>) (s2\<lparr>in_timer_lock := (in_timer_lock s2)\<lparr>sl_lock := 1\<rparr>\<rparr>)"
  let ?s4 = "tm_upd t (tm_next_update (\<lambda>_. Some t)) (tm_upd t (tm_next_update (\<lambda>_. None)) ?s3)"
  have "timer_place t Head ?s3 = Some (Next t)"
    using h2 by (subst timer_place.simps, simp add: tm_upd_def, subst timer_place.simps, simp add: tm_upd_def)
  then have "timer_insert t ?s3 = Some ?s4" using h2 by (simp add: timer_insert_def tm_upd_def)
  then have rs: "timer_reschedule now t s2 = Some ?s4"
    using s2(3,4) h2 by (simp add: timer_reschedule_def timer_lock_plain_def spin_lock_def)
  have f4: "in_timer_list ?s4 = Some t" "t_nx ?s4 t = Some t" "tm_active (in_timer ?s4 t)"
    "tm_expire (in_timer ?s4 t) = now + d" "tm_callback (in_timer ?s4 t) = Some f" "tm_arg (in_timer ?s4 t) = a"
    using h2 s2 by (simp_all add: tm_upd_def)
  have "timer_expire_loop code now ?s4 = Some (Ret ?s4)"
    using f4(1,4) due(3)[folded not_le] by (subst timer_expire_loop.simps) auto
  moreover have "code f a ?s1 = Some (Ret s2)" using code s2(1) by (simp add: restarts_def)
  ultimately have "timer_expire_loop code now ?s0 = Some (Ret ?s4)"
    using h k due(1) rs by (subst timer_expire_loop.simps) simp
  then have "timer_tick_handler code s = Some (Ret (timer_unlock_plain ?s4))"
    using lk due(2) by (simp add: timer_tick_handler_def get_system_ticks_def)
  then show ?thesis using f4 by (intro exI[of _ "timer_unlock_plain ?s4"])
    (simp add: self_looped_def timer_unlock_plain_def spin_unlock_def)
qed

lemma self_looped_tick:
  assumes "self_looped s t" and "timers_free s" and "tm_expire (in_timer s t) \<le> sc_ticks (in_sched s)"
    and "tm_callback (in_timer s t) = Some f" and "restarts code f (tm_arg (in_timer s t)) t d"
  shows "timer_tick_handler code s = None"
proof -
  let ?s0 = "s\<lparr>in_timer_lock := (in_timer_lock s)\<lparr>sl_lock := 1\<rparr>\<rparr>"
  let ?s1 = "timer_unlock_plain (?s0\<lparr>in_timer_list := Some t\<rparr>)"
  have h: "in_timer_list s = Some t" "t_nx s t = Some t" "tm_active (in_timer s t)"
    using assms(1) by (auto simp: self_looped_def)
  have "self_looped ?s1 t" using h by (simp add: self_looped_def timer_unlock_plain_def)
  moreover have "tm_callback (in_timer ?s1 t) \<noteq> None" using assms(4) by (simp add: timer_unlock_plain_def)
  ultimately have "timer_start (Some t) d True ?s1 = None" by (rule self_looped_start)
  then have "code f (tm_arg (in_timer s t)) ?s1 = None" using assms(5) by (simp add: restarts_def)
  then have "timer_expire_loop code (sc_ticks (in_sched s)) ?s0 = None"
    using h assms(3,4) by (subst timer_expire_loop.simps) simp
  then show ?thesis using assms(2)
    by (simp add: timer_tick_handler_def timer_lock_plain_def spin_lock_def get_system_ticks_def)
qed

section \<open>Properties\<close>

text \<open>Three running timers at tick 6: 10 is due, 20 is due and periodic, 30 expires at tick 9.
  Each callback appends the address of its function.\<close>

definition timers_demo :: "addr list intr" where
  "timers_demo = \<lparr>in_table = (\<lambda>_. \<lparr>ie_handler = None, ie_arg = None\<rparr>), in_lock = SPINLOCK_INIT, in_nest = 0,
     in_gic = [],
     in_timer = (\<lambda>_. \<lparr>tm_expire = 0, tm_period = 0, tm_callback = Some 1000, tm_arg = None, tm_active = False,
                     tm_periodic = False, tm_next = None\<rparr>)
       (10 := \<lparr>tm_expire = 5, tm_period = 0, tm_callback = Some 1001, tm_arg = None, tm_active = True,
               tm_periodic = False, tm_next = Some 20\<rparr>,
        20 := \<lparr>tm_expire = 6, tm_period = 4, tm_callback = Some 1002, tm_arg = None, tm_active = True,
               tm_periodic = True, tm_next = Some 30\<rparr>,
        30 := \<lparr>tm_expire = 9, tm_period = 0, tm_callback = Some 1003, tm_arg = None, tm_active = True,
               tm_periodic = False, tm_next = None\<rparr>),
     in_timer_list = Some 10, in_timer_lock = SPINLOCK_INIT, in_cval = 0, in_ctl = 1,
     in_sched = sched_ex 100, in_app = []\<rparr>"

definition log_callback :: "addr list callback" where
  "log_callback f arg s = Some (Ret (s\<lparr>in_app := in_app s @ [f]\<rparr>))"

lemma log_callback_quiet: "quiet log_callback (\<lambda>f arg w. w @ [f])"
  by (simp add: quiet_def log_callback_def)

lemma timers_demo_rep: "tq_rep timers_demo [(5, 10), (6, 20), (9, 30)]"
  by (simp add: tq_rep_def timers_demo_def)

lemma timers_demo_free: "timers_free timers_demo" "sc_ticks (in_sched timers_demo) = 6"
  by (simp_all add: timers_demo_def SPINLOCK_INIT_def sched_ex_def)

text \<open>C15: the timer list is a queue sorted by expiry. For every sequence of starts and stops the calls
  end, and the list afterwards holds the timers that sequence leaves running, once each, ordered by
  expiry and, among equal expiries, by start: starting a running timer moves it, stopping one that is
  not on the list changes nothing.\<close>

theorem timer_queue_refines:
  assumes "tq_rep s q" and "timers_free s" and "\<forall>x \<in> set ops. op_ready s x"
  shows "\<exists>s'. tq_exec ops s = Some s' \<and> tq_rep s' (tq_ops (sc_ticks (in_sched s)) ops q) \<and> timers_free s'"
  using tq_exec_ok[OF assms] by blast

theorem timer_queue_refines_witness:
  "\<exists>s'. tq_exec [T_start 40 3 False, T_start 10 1 True, T_stop 20] timers_demo = Some s' \<and>
     tq_rep s' [(7, 10), (9, 30), (9, 40)]"
proof -
  have "\<forall>x \<in> set [T_start 40 3 False, T_start 10 1 True, T_stop 20]. op_ready timers_demo x"
    by (simp add: timers_demo_def)
  from timer_queue_refines[OF timers_demo_rep timers_demo_free(1) this]
  show ?thesis by (auto simp: timers_demo_free(2) tq_insert_def tq_remove_def)
qed

text \<open>C14: what a clock tick does to the timers, with callbacks that return and keep to their own data. It
  runs the callbacks of exactly the timers that have expired, once each and in the order of their
  expiry, then the one-shot timers are off the list and the periodic ones are back on it one period
  after now. The condition is that a period is not zero and does not run over the end of the tick
  counter; a periodic timer with period zero would be taken and put back for ever.\<close>

theorem timer_tick_fires:
  assumes "quiet code g" and "tq_rep s q" and "timers_free s" and "now = sc_ticks (in_sched s)"
    and "\<forall>x \<in> set q. tm_periodic (in_timer s (snd x)) \<longrightarrow> now < now + tm_period (in_timer s (snd x))"
  shows "\<exists>s'. timer_tick_handler code s = Some (Ret s') \<and>
    tq_rep s' (requeue now (in_timer s) (map snd (tq_due now q)) (tq_later now q)) \<and>
    in_app s' = run_callbacks g (in_timer s) (map snd (tq_due now q)) (in_app s) \<and> timers_free s'"
  using timer_tick_ok[OF assms] by blast

theorem timer_tick_fires_witness:
  "\<exists>s'. timer_tick_handler log_callback timers_demo = Some (Ret s') \<and>
     in_app s' = [1001, 1002] \<and> tq_rep s' [(9, 30), (10, 20)]"
proof -
  have tm: "in_timer timers_demo 10 = \<lparr>tm_expire = 5, tm_period = 0, tm_callback = Some 1001, tm_arg = None,
      tm_active = True, tm_periodic = False, tm_next = Some 20\<rparr>"
    "in_timer timers_demo 20 = \<lparr>tm_expire = 6, tm_period = 4, tm_callback = Some 1002, tm_arg = None,
      tm_active = True, tm_periodic = True, tm_next = Some 30\<rparr>"
    "in_timer timers_demo 30 = \<lparr>tm_expire = 9, tm_period = 0, tm_callback = Some 1003, tm_arg = None,
      tm_active = True, tm_periodic = False, tm_next = None\<rparr>" "in_app timers_demo = []"
    by (simp_all add: timers_demo_def)
  have per: "\<forall>x \<in> set [(5, 10), (6, 20), (9, 30)]. tm_periodic (in_timer timers_demo (snd x)) \<longrightarrow>
      (6 :: u32) < 6 + tm_period (in_timer timers_demo (snd x))"
    by (simp add: tm)
  have q: "tq_due 6 [(5, 10), (6, 20), (9, 30)] = [(5, 10), (6, 20)]" "tq_later 6 [(5, 10), (6, 20), (9, 30)] = [(9, 30)]"
    by (simp_all add: tq_due_def tq_later_def)
  show ?thesis
    using timer_tick_fires[OF log_callback_quiet timers_demo_rep timers_demo_free(1) timers_demo_free(2)[symmetric] per]
    by (auto simp: q requeue_def run_callbacks_def tm tq_insert_def)
qed

text \<open>A periodic timer whose callback starts it again. The tick puts it on the list a second time, so
  that its successor is the timer itself: from then on stopping any other timer never returns, and
  neither does the tick at which it is due again, both with interrupts off.\<close>

theorem timer_restart_loops:
  assumes "tq_rep s [(e, t)]" and "e \<le> now" and "now = sc_ticks (in_sched s)" and "now < now + d"
    and "timers_free s" and "tm_callback (in_timer s t) = Some f" and "restarts code f (tm_arg (in_timer s t)) t d"
  shows "\<exists>s'. timer_tick_handler code s = Some (Ret s') \<and>
    (\<forall>u. u \<noteq> t \<longrightarrow> timer_stop (Some u) s' = None) \<and>
    (\<forall>sc. now + d \<le> sc_ticks sc \<longrightarrow> timer_tick_handler code (s'\<lparr>in_sched := sc\<rparr>) = None)"
proof -
  obtain s' where s': "timer_tick_handler code s = Some (Ret s')" "self_looped s' t" "timers_free s'"
    "tm_expire (in_timer s' t) = now + d" "tm_callback (in_timer s' t) = Some f"
    "tm_arg (in_timer s' t) = tm_arg (in_timer s t)"
    using timer_restart_ok[OF assms(1-6) refl assms(7)] by blast
  have "timer_tick_handler code (s'\<lparr>in_sched := sc\<rparr>) = None" if "now + d \<le> sc_ticks sc" for sc
  proof (rule self_looped_tick)
    show "restarts code f (tm_arg (in_timer (s'\<lparr>in_sched := sc\<rparr>) t)) t d" using assms(7) s'(6) by simp
  qed (use s' that in \<open>simp_all add: self_looped_def\<close>)
  then show ?thesis using s' self_looped_stop by blast
qed

text \<open>Timer 20 of the example alone, with a callback that restarts it.\<close>

definition restart_callback :: "addr list callback" where
  "restart_callback f arg s = map_option (\<lambda>(st, s). Ret s) (timer_start (Some 20) 4 True s)"

definition restart_demo :: "addr list intr" where
  "restart_demo = timers_demo\<lparr>in_timer_list := Some 20,
     in_timer := (in_timer timers_demo)(20 := (in_timer timers_demo 20)\<lparr>tm_next := None\<rparr>)\<rparr>"

theorem timer_restart_loops_witness:
  "\<exists>s'. timer_tick_handler restart_callback restart_demo = Some (Ret s') \<and> timer_stop (Some 10) s' = None"
proof -
  have rep: "tq_rep restart_demo [(6, 20)]" "timers_free restart_demo" "(6 :: u32) = sc_ticks (in_sched restart_demo)"
    "tm_callback (in_timer restart_demo 20) = Some 1002"
    by (simp_all add: tq_rep_def restart_demo_def timers_demo_def SPINLOCK_INIT_def sched_ex_def)
  have cb: "restarts restart_callback 1002 (tm_arg (in_timer restart_demo 20)) 20 4"
    by (simp add: restarts_def restart_callback_def)
  show ?thesis using timer_restart_loops[OF rep(1) order_refl rep(3) _ rep(2,4) cb] by auto
qed

end
