(* ===== verification/Irq_Props.thy ===== *)
theory Irq_Props
  imports Timer_Props
begin

text \<open>
  Properties of the interrupt code: the registers of the controller after its initialisation, byte by
  byte, what setting a priority does to its neighbours, the handler table, and the clock interrupt
  that preempts a task.
\<close>

section \<open>The controller's registers as bytes\<close>

text \<open>The byte at an address as the last write left it; a 32-bit write sets four bytes, low one first.\<close>

fun last_byte :: "mmio list \<Rightarrow> addr \<Rightarrow> u8 option" where
  "last_byte [] a = None"
| "last_byte (Rd b # l) a = last_byte l a"
| "last_byte (Wr b v # l) a =
     (if b \<le> a \<and> a < b + 4 then Some (ucast (drop_bit (8 * nat (a - b)) v)) else last_byte l a)"

lemma mmio_fill_Suc:
  "lo \<le> hi \<Longrightarrow> mmio_fill reg v lo (Suc hi) s = mmio_write32 (reg hi) v (mmio_fill reg v lo hi s)"
  by (simp add: mmio_fill_def)

lemma mmio_fill_empty: "hi \<le> lo \<Longrightarrow> mmio_fill reg v lo hi s = s"
  by (simp add: mmio_fill_def)

lemma last_byte_write [simp]:
  "last_byte (in_gic (mmio_write32 b v s)) a =
     (if b \<le> a \<and> a < b + 4 then Some (ucast (drop_bit (8 * nat (a - b)) v)) else last_byte (in_gic s) a)"
  by (simp add: mmio_write32_def)

lemma last_byte_read [simp]: "last_byte (in_gic (snd (mmio_read32 hw b s))) a = last_byte (in_gic s) a"
  by (simp add: mmio_read32_def)

text \<open>A fill leaves the addresses outside its words alone.\<close>

lemma mmio_fill_other:
  assumes "\<And>i. lo \<le> i \<Longrightarrow> i < hi \<Longrightarrow> a < reg i \<or> reg i + 4 \<le> a"
  shows "last_byte (in_gic (mmio_fill reg v lo hi s)) a = last_byte (in_gic s) a"
  using assms
proof (induction hi)
  case 0
  then show ?case by (simp add: mmio_fill_empty)
next
  case (Suc hi)
  show ?case
  proof (cases "lo \<le> hi")
    case True
    have "a < reg hi \<or> reg hi + 4 \<le> a" using True by (intro Suc.prems) simp_all
    moreover have "last_byte (in_gic (mmio_fill reg v lo hi s)) a = last_byte (in_gic s) a"
      by (intro Suc.IH Suc.prems) simp_all
    ultimately show ?thesis using True by (auto simp: mmio_fill_Suc)
  qed (simp add: mmio_fill_empty)
qed

text \<open>A fill of one word per byte address: each byte gets the low byte, the next write repairs the rest.\<close>

lemma mmio_fill_bytes:
  assumes "\<And>i. reg i = base + int i" and "lo \<le> n" and "n < hi"
  shows "last_byte (in_gic (mmio_fill reg v lo hi s)) (base + int n) = Some (ucast v)"
  using assms(2,3)
proof (induction hi)
  case (Suc hi)
  then show ?case by (cases "n = hi") (auto simp: mmio_fill_Suc assms(1))
qed simp

lemma gic_max_irqs_le: "gic_max_irqs t \<le> 1024"
  by (simp add: gic_max_irqs_def MAX_IRQS_def)

lemmas gic_addrs = GICD_CTLR_def GICD_TYPER_def GICD_ISENABLER_def GICD_ICENABLER_def GICD_ICPENDR_def
  GICD_IPRIORITYR_def GICD_ITARGETSR_def GICD_ICFGR_def GICC_CTLR_def GICC_PMR_def GICC_BPR_def GICC_IAR_def
  GICC_EOIR_def CONFIG_GICD_BASE_def CONFIG_GICC_BASE_def

lemma gic_init_priorities:
  assumes "m = gic_max_irqs (hw (Wr GICD_CTLR 0 # in_gic s) GICD_TYPER)" and "n < m"
  shows "last_byte (in_gic (gic_init hw s)) (GICD_IPRIORITYR n) = Some 0xA0"
proof -
  have n: "n < 1024" using assms(2) gic_max_irqs_le assms(1) by (metis less_le_trans)
  have fill: "last_byte (in_gic (mmio_fill GICD_IPRIORITYR 0xA0 0 m r)) (GICD_IPRIORITYR n) = Some 0xA0" for r :: "'a intr"
    using mmio_fill_bytes[of GICD_IPRIORITYR "CONFIG_GICD_BASE + 0x400" 0 n m "0xA0" r] assms(2)
    by (simp add: GICD_IPRIORITYR_def)
  have t: "last_byte (in_gic (mmio_fill GICD_ITARGETSR 1 32 m r)) (GICD_IPRIORITYR n) = last_byte (in_gic r) (GICD_IPRIORITYR n)"
    "last_byte (in_gic (mmio_fill GICD_ICFGR 0 2 k r)) (GICD_IPRIORITYR n) = last_byte (in_gic r) (GICD_IPRIORITYR n)"
    for r :: "'a intr" and k
    using n by (intro mmio_fill_other; simp add: gic_addrs)+
  have w: "\<not> (GICD_CTLR \<le> GICD_IPRIORITYR n \<and> GICD_IPRIORITYR n < GICD_CTLR + 4)"
    "\<not> (GICC_PMR \<le> GICD_IPRIORITYR n)" "\<not> (GICC_BPR \<le> GICD_IPRIORITYR n)" "\<not> (GICC_CTLR \<le> GICD_IPRIORITYR n)"
    using n by (simp_all add: gic_addrs)
  have rd: "fst (mmio_read32 hw GICD_TYPER (mmio_write32 GICD_CTLR 0 s)) = hw (Wr GICD_CTLR 0 # in_gic s) GICD_TYPER"
    by (simp add: mmio_read32_def mmio_write32_def)
  show ?thesis
    by (simp add: gic_init_def Let_def split_beta rd assms(1)[symmetric] t w fill)
qed

text \<open>Setting one priority clears the three behind it. The priority registers are bytes but are
  written as 32-bit words: after the initialisation every supported interrupt has priority 0xA0, and
  \<open>irq_set_priority\<close> then sets the one asked for but also gives the next three, as far as they are
  supported, priority 0, the highest there is. All others keep 0xA0.\<close>

theorem irq_set_priority_clobbers:
  assumes "m = gic_max_irqs (hw (Wr GICD_CTLR 0 # in_gic s) GICD_TYPER)" and "unat irq < m" and "n < m"
  shows "last_byte (in_gic (irq_set_priority irq p (gic_init hw s))) (GICD_IPRIORITYR n) =
    Some (if n = unat irq then p else if unat irq < n \<and> n \<le> unat irq + 3 then 0 else 0xA0)"
proof -
  have small: "unat irq < MAX_IRQS" using assms(1,2) gic_max_irqs_le by (metis MAX_IRQS_def less_le_trans)
  have word: "(ucast (drop_bit k (ucast p :: u32)) :: u8) = 0" if "8 \<le> k" for k
    using that by (intro bit_eqI) (auto simp: bit_simps dest: bit_imp_le_length)
  have "(ucast (ucast p :: u32) :: u8) = p" by (rule bit_eqI) (auto simp: bit_simps)
  moreover have "last_byte (in_gic (irq_set_priority irq p (gic_init hw s))) (GICD_IPRIORITYR n) =
      (if unat irq \<le> n \<and> n < unat irq + 4 then Some (ucast (drop_bit (8 * (n - unat irq)) (ucast p :: u32))) else Some 0xA0)"
  proof -
    have "GICD_IPRIORITYR (unat irq) \<le> GICD_IPRIORITYR n \<and> GICD_IPRIORITYR n < GICD_IPRIORITYR (unat irq) + 4 \<longleftrightarrow>
        unat irq \<le> n \<and> n < unat irq + 4"
      unfolding GICD_IPRIORITYR_def by linarith
    moreover have "nat (GICD_IPRIORITYR n - GICD_IPRIORITYR (unat irq)) = n - unat irq"
      unfolding GICD_IPRIORITYR_def by linarith
    ultimately show ?thesis
      using small gic_init_priorities[where hw = hw and s = s, OF assms(1,3)] by (simp add: irq_set_priority_def)
  qed
  ultimately show ?thesis using word by (cases "n = unat irq") auto
qed

text \<open>A controller that reports 64 interrupts, on the state of the timer example.\<close>

theorem irq_set_priority_clobbers_witness:
  "last_byte (in_gic (irq_set_priority 40 0x80 (gic_init (\<lambda>_ _. 1) timers_demo))) (GICD_IPRIORITYR 42) = Some 0"
proof -
  have "64 = gic_max_irqs ((\<lambda>_ _. 1 :: u32) (Wr GICD_CTLR 0 # in_gic timers_demo) GICD_TYPER)"
    by (simp add: gic_max_irqs_def MAX_IRQS_def)
  from irq_set_priority_clobbers[OF this, where irq = 40 and n = 42 and p = "0x80"] show ?thesis by simp
qed

section \<open>Dispatch\<close>

lemma irq_register_ok:
  assumes "unat irq < MAX_IRQS" and "sl_lock (in_lock s) = 0"
  shows "\<exists>s'. irq_register irq (Some h) arg s = Some (STATUS_OK, s') \<and> sl_lock (in_lock s') = 0 \<and>
    in_table s' = (in_table s)(unat irq := \<lparr>ie_handler = Some h, ie_arg = arg\<rparr>) \<and>
    in_gic s' = in_gic s \<and> in_nest s' = in_nest s"
proof -
  have "k\<lparr>ie_handler := h, ie_arg := a\<rparr> = \<lparr>ie_handler = h, ie_arg = a\<rparr>" for k :: irq_entry and h a by (cases k) simp
  note entry = this
  show ?thesis using assms
    by (simp add: irq_register_def irq_lock_irq_def spin_lock_irq_def spin_lock_def arch_irq_save_def
        irq_unlock_irq_def spin_unlock_irq_def spin_unlock_def Let_def not_le entry)
qed

lemma irq_handler_calls:
  assumes "iar = hw (in_gic s) GICC_IAR" and "iar AND 0x3FF = irq" and "irq < 1020"
    and "in_table s (unat irq) = \<lparr>ie_handler = Some h, ie_arg = arg\<rparr>"
  shows "irq_handler hw code s =
    map_option (\<lambda>r. case r of Sw s \<Rightarrow> Sw s | Ret s \<Rightarrow> Ret (s\<lparr>in_gic := Wr GICC_EOIR iar # in_gic s, in_nest := in_nest s - 1\<rparr>))
      (code h irq arg (s\<lparr>in_gic := Rd GICC_IAR # in_gic s, in_nest := in_nest s + 1\<rparr>))"
proof -
  have "unat irq < 1024" using assms(3) by (simp add: word_less_nat_alt)
  then have "irq_handler hw code s = code h irq arg (s\<lparr>in_gic := Rd GICC_IAR # in_gic s, in_nest := in_nest s + 1\<rparr>) \<bind>
      (\<lambda>r. Some (case r of Sw s \<Rightarrow> Sw s | Ret s \<Rightarrow> Ret (s\<lparr>in_gic := Wr GICC_EOIR iar # in_gic s, in_nest := in_nest s - 1\<rparr>)))"
    using assms leD[of 1020 irq]
    by (auto simp: irq_handler_def mmio_read32_def mmio_write32_def MAX_IRQS_def Let_def
        intro!: Option.bind_cong split: ctl.split)
  then show ?thesis by (cases "code h irq arg (s\<lparr>in_gic := Rd GICC_IAR # in_gic s, in_nest := in_nest s + 1\<rparr>)") simp_all
qed

section \<open>The clock interrupt\<close>

text \<open>A tick that ends the time slice of a task while another of its priority is ready.\<close>

lemma scheduler_tick_preempts:
  assumes run: "run_inv s rl c" and ci: "c \<noteq> sc_idle s" and slice: "t_remaining_slice (sc_tcb s c) = 1"
    and p: "p = unat (t_priority (sc_tcb s c))" and ready: "rl p \<noteq> []"
    and table: "\<forall>a \<in> set (sc_table s). unat (t_priority (sc_tcb s a)) < CONFIG_MAX_PRIORITY"
    and idle: "t_state (sc_tcb s (sc_idle s)) \<noteq> TASK_STATE_BLOCKED"
  shows "\<exists>s' n. scheduler_tick s = Some (Sw s') \<and> n \<noteq> c \<and> sc_current s' = Some n \<and>
    t_state (sc_tcb s' c) = TASK_STATE_READY"
proof -
  let ?s0 = "s\<lparr>sc_ticks := sc_ticks s + 1\<rparr>"
  have r: "ready_inv s rl" "sc_current s = Some c" "t_state (sc_tcb s c) = TASK_STATE_RUNNING"
    "p < CONFIG_MAX_PRIORITY" "unlocked s" using run p by (auto simp: run_inv_def)
  have "\<not> due ?s0 (sc_idle s)" using idle by (simp add: due_def)
  then have tab: "\<forall>a \<in> set (sc_table s). unat (t_priority (sc_tcb s a)) < CONFIG_MAX_PRIORITY \<and> (due ?s0 a \<longrightarrow> a \<noteq> sc_idle s)"
    using table by auto
  obtain s1 rl1 where s1: "tick_loop (sc_table s) ?s0 = Some s1" "ready_inv s1 rl1" "unlocked s1"
    "\<forall>p. \<exists>new. rl1 p = rl p @ new" "sc_current s1 = Some c" "sc_idle s1 = sc_idle s" "sc_ticks s1 = sc_ticks s + 1"
    "\<forall>b. t_core (sc_tcb s1 b) = t_core (if b \<in> set (sc_table s) \<and> due ?s0 b
       then (sc_tcb s b)\<lparr>t_state := TASK_STATE_READY\<rparr> else sc_tcb s b)"
    using tick_loop_ok[of ?s0 rl "sc_table s"] r tab by auto
  have "\<not> due ?s0 c" using r(3) by (simp add: due_def)
  then have c1: "t_core (sc_tcb s1 c) = t_core (sc_tcb s c)" using spec[OF s1(8), of c] by simp
  note c1 = t_core_eqD[OF c1]
  have notin: "c \<notin> set (rl1 q)" for q using lists_okD(4)[OF s1(2), of c q] c1(2) r(3) by auto
  let ?s2 = "t_upd c (\<lambda>t. t\<lparr>t_remaining_slice := t_time_slice t\<rparr>)
    (t_upd c (\<lambda>t. t\<lparr>t_remaining_slice := t_remaining_slice t - 1\<rparr>) s1)"
  have "ready_inv ?s2 rl1" using lists_ok_upd[OF lists_ok_upd[OF s1(2) notin] notin] by simp
  then have run2: "run_inv ?s2 rl1 c" using s1(3,5) c1(1,2) r(3,4) p notin by (simp add: run_inv_def)
  have ne: "rl1 p \<noteq> []" using s1(4) ready by (metis Nil_is_append_conv)
  obtain n rl2 where th: "take_highest (rl1(p := rl1 p @ [c])) (sc_idle ?s2) = (n, rl2)" by (rule prod.exhaust)
  have nc: "n \<noteq> c"
  proof -
    have "highest (rl1(p := rl1 p @ [c])) \<noteq> None" using r(4) by (auto simp: highest_None)
    then obtain q where q: "highest (rl1(p := rl1 p @ [c])) = Some q" by blast
    then have "n = hd ((rl1(p := rl1 p @ [c])) q)" "(rl1(p := rl1 p @ [c])) q \<noteq> []"
      using take_highest_Some[OF q, of "sc_idle ?s2"] th by auto
    then have "n \<in> set (rl1 q)" using ne by (cases "q = p") auto
    then show ?thesis using notin by auto
  qed
  obtain s3 where s3: "task_yield ?s2 = Some (Sw s3)" "sc_current s3 = Some n"
    "\<forall>b. t_info (sc_tcb s3 b) = t_info (if b = n then (sc_tcb ?s2 n)\<lparr>t_state := TASK_STATE_RUNNING\<rparr>
       else if b = c then (sc_tcb ?s2 c)\<lparr>t_state := TASK_STATE_READY\<rparr> else sc_tcb ?s2 b)"
    using task_yield_switch[OF run2 _ _ th nc] ci s1(6) p c1(1) by auto
  have "scheduler_tick s = Some (Sw s3)"
    using s1(1,5,6) ci slice c1(6) s3(1) by (simp add: scheduler_tick_def)
  moreover have "t_state (sc_tcb s3 c) = TASK_STATE_READY" using t_info_eqD(2)[OF spec[OF s3(3), of c]] nc by simp
  ultimately show ?thesis using s3(2) nc by blast
qed

text \<open>C36: the clock interrupt that preempts. When the tick ends the running task's time slice and another
  task of its priority is ready, the handler switches to that task from inside the interrupt: the end
  of the interrupt is not signalled to the controller, the nesting count stays one higher, so that
  the next task counts as interrupt context, and the software timers of this tick are not looked at.
  All of that waits until the preempted task runs again. The scheduler's invariant holds, the tasks of the
  table have valid priorities, the idle task, which is in the table since the start, is not blocked
  and is not the task that runs.\<close>

theorem clock_preempts_before_eoi:
  assumes "run_inv (in_sched s) rl c" and "c \<noteq> sc_idle (in_sched s)" and "t_remaining_slice (sc_tcb (in_sched s) c) = 1"
    and "rl (unat (t_priority (sc_tcb (in_sched s) c))) \<noteq> []"
    and "\<forall>a \<in> set (sc_table (in_sched s)). unat (t_priority (sc_tcb (in_sched s) a)) < CONFIG_MAX_PRIORITY"
    and "t_state (sc_tcb (in_sched s) (sc_idle (in_sched s))) \<noteq> TASK_STATE_BLOCKED"
    and "hw (in_gic s) GICC_IAR AND 0x3FF = CONFIG_TIMER_IRQ"
    and "in_table s 27 = \<lparr>ie_handler = Some h, ie_arg = arg\<rparr>"
    and "\<forall>irq arg s. code h irq arg s = timer_irq_handler cb s"
  shows "\<exists>s' n. irq_handler hw code s = Some (Sw s') \<and> n \<noteq> c \<and> sc_current (in_sched s') = Some n \<and>
    in_gic s' = Rd GICC_IAR # in_gic s \<and> in_nest s' = in_nest s + 1 \<and>
    in_timer s' = in_timer s \<and> in_timer_list s' = in_timer_list s \<and> in_app s' = in_app s"
proof -
  obtain sc n where sc: "scheduler_tick (in_sched s) = Some (Sw sc)" "n \<noteq> c" "sc_current sc = Some n"
    using scheduler_tick_preempts[OF assms(1,2,3) refl assms(4,5,6)] by blast
  let ?s1 = "s\<lparr>in_gic := Rd GICC_IAR # in_gic s, in_nest := in_nest s + 1\<rparr>"
  have "timer_irq_handler cb ?s1 = Some (Sw (?s1\<lparr>in_cval := in_cval s + clock_step, in_sched := sc\<rparr>))"
    using sc(1) by (simp add: timer_irq_handler_def)
  moreover have "irq_handler hw code s = map_option (\<lambda>r. case r of Sw s \<Rightarrow> Sw s
      | Ret r \<Rightarrow> Ret (r\<lparr>in_gic := Wr GICC_EOIR (hw (in_gic s) GICC_IAR) # in_gic r, in_nest := in_nest r - 1\<rparr>))
      (code h CONFIG_TIMER_IRQ arg ?s1)"
    using assms(8) by (intro irq_handler_calls[where hw = hw and s = s, OF refl assms(7)]) (simp_all add: CONFIG_TIMER_IRQ_def)
  ultimately show ?thesis using sc(2,3) assms(9)
    by (intro exI[of _ "?s1\<lparr>in_cval := in_cval s + clock_step, in_sched := sc\<rparr>"] exI[of _ n]) simp
qed

text \<open>A running kernel: the idle task at address 1, of priority 0, is READY and in the task table, task 100 has one tick left,
  200 and 300 wait in the ready list of its priority, 400 sleeps until the next tick; the clock handler is at address 500.\<close>

definition sched_running :: sched where
  "sched_running = (let s = sched_ex 100 in s\<lparr>
     sc_tcb := (sc_tcb s)(100 := (sc_tcb s 100)\<lparr>t_remaining_slice := 1\<rparr>,
       1 := tcb_blank\<lparr>t_state := TASK_STATE_READY, t_priority := 0\<rparr>),
     sc_table := [100, 200, 300, 400, 1], sc_running := True\<rparr>)"

lemma sched_running_inv: "run_inv sched_running rl_ex 100"
  by (auto simp: run_inv_def lists_ok_def sched_running_def sched_ex_def rl_ex_def tcb_blank_def CONFIG_MAX_PRIORITY_def
      cdll_def SPINLOCK_INIT_def)

definition clock_demo :: "addr list intr" where
  "clock_demo = timers_demo\<lparr>in_sched := sched_running,
     in_table := (in_table timers_demo)(27 := \<lparr>ie_handler = Some 500, ie_arg = None\<rparr>)\<rparr>"

theorem clock_preempts_before_eoi_witness:
  "sc_idle (in_sched clock_demo) \<in> set (sc_table (in_sched clock_demo)) \<and> sc_running (in_sched clock_demo) \<and>
   (\<exists>s'. irq_handler (\<lambda>_ _. 27) (\<lambda>_ _ _. timer_irq_handler log_callback) clock_demo = Some (Sw s') \<and>
     in_gic s' = [Rd GICC_IAR] \<and> in_irq_context s')"
proof -
  have d: "in_sched clock_demo = sched_running" "in_table clock_demo 27 = \<lparr>ie_handler = Some 500, ie_arg = None\<rparr>"
    "in_gic clock_demo = []" "in_nest clock_demo = 0"
    by (simp_all add: clock_demo_def timers_demo_def)
  have ex: "(100 :: addr) \<noteq> sc_idle sched_running" "t_remaining_slice (sc_tcb sched_running 100) = 1"
    "rl_ex (unat (t_priority (sc_tcb sched_running 100))) \<noteq> []"
    "\<forall>a \<in> set (sc_table sched_running). unat (t_priority (sc_tcb sched_running a)) < CONFIG_MAX_PRIORITY"
    "t_state (sc_tcb sched_running (sc_idle sched_running)) \<noteq> TASK_STATE_BLOCKED"
    by (simp_all add: sched_running_def sched_ex_def tcb_blank_def rl_ex_def CONFIG_MAX_PRIORITY_def)
  have iar: "(\<lambda>_ _. 27 :: u32) (in_gic clock_demo) GICC_IAR AND 0x3FF = CONFIG_TIMER_IRQ"
    by (simp add: CONFIG_TIMER_IRQ_def)
  have "sc_idle sched_running \<in> set (sc_table sched_running)" "sc_running sched_running"
    by (simp_all add: sched_running_def sched_ex_def)
  then show ?thesis
    using clock_preempts_before_eoi[of clock_demo, unfolded d(1), OF sched_running_inv ex iar d(2),
        of "\<lambda>_ _ _. timer_irq_handler log_callback" log_callback]
    by (auto simp: d in_irq_context_def)
qed

end
