(* ===== verification/Packet.thy ===== *)
theory Packet
  imports Zbuf_Props
begin

text \<open>
  Reading and writing packet bytes through a buffer: single bytes, big-endian 16-bit fields, and the
  facts the protocol components share on a freshly allocated transmit buffer (the allocate, put,
  fill sequence every sender of the code starts with).
\<close>

named_theorems mem_simps \<open>facts on byte ranges of the memory\<close>

section \<open>Access\<close>

definition zb_byte :: "addr \<Rightarrow> addr \<Rightarrow> zpool \<Rightarrow> u8 option" where
  "zb_byte b a z = (if in_buf (zp_buf z b) a 1 then Some (zp_mem z a) else None)"

text \<open>\<open>(hi << 8) | lo\<close>, and the two bytes \<open>v >> 8\<close> and \<open>v & 0xFF\<close>.\<close>

definition be16 :: "u8 \<Rightarrow> u8 \<Rightarrow> u16" where
  "be16 hi lo = push_bit 8 (ucast hi) OR ucast lo"

definition hi8 :: "u16 \<Rightarrow> u8" where "hi8 v = ucast (drop_bit 8 v)"
definition lo8 :: "u16 \<Rightarrow> u8" where "lo8 v = ucast (v AND 0xFF)"

lemma mask_FF: "(0xFF :: 'a::len word) = mask 8"
  by (simp add: mask_eq_exp_minus_1)

lemma lo8_ucast: "lo8 v = ucast v"
  unfolding lo8_def mask_FF by (rule bit_word_eqI) (auto simp: bit_simps)

lemma be16_hi_lo [simp]: "be16 (hi8 v) (lo8 v) = v"
  unfolding be16_def hi8_def lo8_ucast by (rule bit_word_eqI) (auto simp: bit_simps not_le)

lemma hi8_be16 [simp]: "hi8 (be16 a b) = a"
  unfolding be16_def hi8_def
  by (rule bit_word_eqI) (auto simp: bit_simps not_le dest: bit_imp_le_length)

lemma lo8_be16 [simp]: "lo8 (be16 a b) = b"
  unfolding be16_def lo8_ucast by (rule bit_word_eqI) (auto simp: bit_simps)

section \<open>Byte ranges\<close>

lemma length_mem_bytes [simp]: "length (mem_bytes m a n) = n"
  by (simp add: mem_bytes_def)

lemma nth_mem_bytes [simp]: "i < n \<Longrightarrow> mem_bytes m a n ! i = m (a + int i)"
  by (simp add: mem_bytes_def)

lemma mem_bytes_0 [simp]: "mem_bytes m a 0 = []"
  by (simp add: mem_bytes_def)

lemma mem_bytes_add: "mem_bytes m a (n + k) = mem_bytes m a n @ mem_bytes m (a + int n) k"
  by (rule nth_equalityI) (auto simp: nth_append add.assoc)

lemma mem_bytes_write:
  "mem_bytes (mem_write a bs m) a (length bs) = bs"
  by (rule nth_equalityI) (auto simp: mem_write_def)

lemma mem_bytes_write_apart [mem_simps]:
  "x + int n \<le> a \<or> a + int (length bs) \<le> x \<Longrightarrow> mem_bytes (mem_write a bs m) x n = mem_bytes m x n"
  by (rule nth_equalityI) (auto simp: mem_write_def)

lemma mem_write_append:
  "mem_write (a + int (length xs)) ys (mem_write a xs m) = mem_write a (xs @ ys) m"
  by (rule ext) (auto simp: mem_write_def nth_append nat_less_iff nat_diff_distrib intro!: arg_cong2[where f = nth])

lemma mem_write_Nil [simp]: "mem_write a [] m = m"
  by (rule ext) (auto simp: mem_write_def)

lemma zb_store_append:
  "zb_store b a xs z = Some z' \<Longrightarrow> zb_store b (a + int (length xs)) ys z' = Some z'' \<Longrightarrow>
     zb_store b a (xs @ ys) z = Some z''"
  by (auto simp: zb_store_def in_buf_def mem_write_append split: if_splits)

lemma zb_store_split:
  "zb_store b a (xs @ ys) z = zb_store b a xs z \<bind> zb_store b (a + int (length xs)) ys"
  by (auto simp: zb_store_def in_buf_def mem_write_append split: if_splits bind_splits)

section \<open>Transmit buffers\<close>

text \<open>What holds of the first free buffer \<open>r\<close> after \<open>zbuf_alloc_tx\<close> and \<open>zbuf_put\<close> of \<open>n\<close> bytes.\<close>

definition tx_buf :: "addr \<Rightarrow> u16 \<Rightarrow> addr list \<Rightarrow> zpool \<Rightarrow> zpool \<Rightarrow> bool" where
  "tx_buf r n fl z z' \<longleftrightarrow> zpool_inv z' fl \<and> zp_memory z' = zp_memory z \<and> zp_mem z' = zp_mem z \<and>
     zb_head (zp_buf z' r) = r + 104 \<and> zb_end (zp_buf z' r) = r + 2152 \<and>
     zb_data (zp_buf z' r) = r + 232 \<and> zb_tail (zp_buf z' r) = r + 232 + uint n \<and>
     zb_len (zp_buf z' r) = n \<and> zb_flags (zp_buf z' r) = ZBUF_F_DMA OR ZBUF_F_TX \<and>
     (\<forall>a. a \<notin> set (r # fl) \<longrightarrow> zp_buf z' a = zp_buf z a)"

lemma zpool_inv_upd_window:
  assumes "\<And>k. zb_next (f k) = zb_next k" and "\<And>k. zb_prev (f k) = zb_prev k"
    and "\<And>k. zb_head (f k) = zb_head k" and "\<And>k. zb_end (f k) = zb_end k"
  shows "zpool_inv (zb_upd b f z) fl = zpool_inv z fl"
proof -
  have "zp_next (zb_upd b f z) = zp_next z" "zp_prev (zb_upd b f z) = zp_prev z" using assms by auto
  then show ?thesis using assms by (auto simp: zpool_inv_def zb_layout_def)
qed

lemma zpool_inv_mem [simp]: "zpool_inv (z\<lparr>zp_mem := m\<rparr>) fl = zpool_inv z fl"
  by (simp add: zpool_inv_def)

lemma zb_op_put:
  "zb_tail (zp_buf z b) + uint n \<le> zb_end (zp_buf z b) \<Longrightarrow>
   zb_op b (zbuf_put n) z = (Some (zb_tail (zp_buf z b)),
     zb_upd b (\<lambda>k. k\<lparr>zb_tail := zb_tail k + uint n, zb_len := zb_len k + n\<rparr>) z)"
  by (simp add: zb_op_def zbuf_put_def zb_upd_def)

lemma tx_alloc_put_of:
  assumes inv: "zpool_inv z (r # fl)" and k: "uint k \<le> 1920" and n: "uint n \<le> 1920"
  shows "\<exists>z1 z2. zbuf_alloc_tx k z = (Some r, z1) \<and> zb_op r (zbuf_put n) z1 = (Some (r + 232), z2) \<and>
    tx_buf r n fl z z2"
proof -
  have k': "uint k \<le> CONFIG_ZBUF_SIZE - CONFIG_ZBUF_HEADROOM" using k by (simp add: config_defs)
  obtain z1 where z1: "zbuf_alloc k z = (Some r, z1)" "zpool_inv z1 fl" "zb_ready (zp_buf z1 r)"
    "\<forall>a. a \<notin> set (r # fl) \<longrightarrow> zp_buf z1 a = zp_buf z a" "zp_mem z1 = zp_mem z" "zp_memory z1 = zp_memory z"
    using zbuf_alloc_Some[OF inv k'] by auto
  have lay: "zb_head (zp_buf z1 r) = r + 104" "zb_end (zp_buf z1 r) = r + 2152"
    using inv z1(2,6) by (auto simp: zpool_inv_def zb_layout_def sizeof_zbuf_def config_defs)
  define z2 where "z2 = zb_upd r (\<lambda>k. k\<lparr>zb_flags := zb_flags k OR ZBUF_F_TX\<rparr>) z1"
  define z3 where "z3 = zb_upd r (\<lambda>k. k\<lparr>zb_tail := zb_tail k + uint n, zb_len := zb_len k + n\<rparr>) z2"
  have "zbuf_alloc_tx k z = (Some r, z2)" by (simp add: zbuf_alloc_tx_def z1(1) z2_def)
  moreover have "zb_op r (zbuf_put n) z2 = (Some (r + 232), z3)"
    using z1(3) lay n by (subst zb_op_put) (auto simp: z2_def z3_def zb_ready_def config_defs)
  moreover have "zpool_inv z3 fl"
    using z1(2) unfolding z3_def z2_def by (simp add: zpool_inv_upd_window)
  then have "tx_buf r n fl z z3"
    using z1 lay by (simp add: tx_buf_def z3_def z2_def zb_ready_def config_defs)
  ultimately show ?thesis by blast
qed

lemma tx_alloc_put:
  assumes "zpool_inv z (r # fl)" and "uint n \<le> 1920"
  shows "\<exists>z1 z2. zbuf_alloc_tx n z = (Some r, z1) \<and> zb_op r (zbuf_put n) z1 = (Some (r + 232), z2) \<and>
    tx_buf r n fl z z2"
  using tx_alloc_put_of[OF assms(1,2,2)] .

lemma tx_alloc_none:
  assumes "zpool_inv z []" and "uint n \<le> 1920"
  shows "zbuf_alloc_tx n z = (None, z\<lparr>zp_alloc_failures := zp_alloc_failures z + 1\<rparr>)"
  using zbuf_alloc_None[OF assms(1), of n] assms(2) by (simp add: zbuf_alloc_tx_def config_defs)

lemma tx_store:
  assumes "tx_buf r n fl z z'" and "r + 104 \<le> a" and "a + int (length bs) \<le> r + 2152"
  shows "zb_store r a bs z' = Some (z'\<lparr>zp_mem := mem_write a bs (zp_mem z')\<rparr>)"
  using assms by (simp add: zb_store_def in_buf_def tx_buf_def)

text \<open>Filling exactly the area that was put: the payload is the bytes written.\<close>

lemma tx_payload:
  assumes "tx_buf r n fl z z'" and "length bs = unat n"
  shows "zb_payload r (z'\<lparr>zp_mem := mem_write (r + 232) bs (zp_mem z')\<rparr>) = bs"
  using assms mem_bytes_write[of "r + 232" bs "zp_mem z'"] by (simp add: zb_payload_def tx_buf_def)

text \<open>Bytes of another buffer of the pool are left alone by writes into \<open>r\<close>.\<close>

lemma tx_other_bytes:
  assumes "tx_buf r n fl z z'" and "zpool_inv z (r # fl)" and "q \<in> set (zbuf_slots (zp_memory z))"
    and "q \<noteq> r" and "r + 104 \<le> a" and "a + int (length bs) \<le> r + 2152"
    and "q + 104 \<le> x" and "x + int k \<le> q + 2152"
  shows "mem_bytes (mem_write a bs (zp_mem z')) x k = mem_bytes (zp_mem z) x k"
proof -
  have "r \<in> set (zbuf_slots (zp_memory z))" using assms(2) by (simp add: zpool_inv_def)
  from zbuf_slots_apart[OF this assms(3)] assms(4-) have "x + int k \<le> a \<or> a + int (length bs) \<le> x"
    by (auto simp: zbuf_slot_value)
  then show ?thesis using assms(1) by (simp add: mem_simps tx_buf_def)
qed

end
