(* ===== verification/Modbus.thy ===== *)
theory Modbus
  imports Packet Sched
begin

text \<open>
  The Modbus core of \<open>protocols/modbus/modbus.c\<close>: the CRC-16 of the serial framing, the server's data
  tables, and \<open>modbus_process_request\<close>, one definition per function code. The request and the
  response are buffers of the packet pool; a read or write outside the buffer at hand, or outside a
  data table, gives \<open>None\<close>. The framing and the sockets are in \<open>Modbus_Tcp\<close>.
\<close>

section \<open>CRC-16\<close>

definition crc16_table :: "u16 list" where
  "crc16_table = [
     0x0000, 0xC0C1, 0xC181, 0x0140, 0xC301, 0x03C0, 0x0280, 0xC241,
     0xC601, 0x06C0, 0x0780, 0xC741, 0x0500, 0xC5C1, 0xC481, 0x0440,
     0xCC01, 0x0CC0, 0x0D80, 0xCD41, 0x0F00, 0xCFC1, 0xCE81, 0x0E40,
     0x0A00, 0xCAC1, 0xCB81, 0x0B40, 0xC901, 0x09C0, 0x0880, 0xC841,
     0xD801, 0x18C0, 0x1980, 0xD941, 0x1B00, 0xDBC1, 0xDA81, 0x1A40,
     0x1E00, 0xDEC1, 0xDF81, 0x1F40, 0xDD01, 0x1DC0, 0x1C80, 0xDC41,
     0x1400, 0xD4C1, 0xD581, 0x1540, 0xD701, 0x17C0, 0x1680, 0xD641,
     0xD201, 0x12C0, 0x1380, 0xD341, 0x1100, 0xD1C1, 0xD081, 0x1040,
     0xF001, 0x30C0, 0x3180, 0xF141, 0x3300, 0xF3C1, 0xF281, 0x3240,
     0x3600, 0xF6C1, 0xF781, 0x3740, 0xF501, 0x35C0, 0x3480, 0xF441,
     0x3C00, 0xFCC1, 0xFD81, 0x3D40, 0xFF01, 0x3FC0, 0x3E80, 0xFE41,
     0xFA01, 0x3AC0, 0x3B80, 0xFB41, 0x3900, 0xF9C1, 0xF881, 0x3840,
     0x2800, 0xE8C1, 0xE981, 0x2940, 0xEB01, 0x2BC0, 0x2A80, 0xEA41,
     0xEE01, 0x2EC0, 0x2F80, 0xEF41, 0x2D00, 0xEDC1, 0xEC81, 0x2C40,
     0xE401, 0x24C0, 0x2580, 0xE541, 0x2700, 0xE7C1, 0xE681, 0x2640,
     0x2200, 0xE2C1, 0xE381, 0x2340, 0xE101, 0x21C0, 0x2080, 0xE041,
     0xA001, 0x60C0, 0x6180, 0xA141, 0x6300, 0xA3C1, 0xA281, 0x6240,
     0x6600, 0xA6C1, 0xA781, 0x6740, 0xA501, 0x65C0, 0x6480, 0xA441,
     0x6C00, 0xACC1, 0xAD81, 0x6D40, 0xAF01, 0x6FC0, 0x6E80, 0xAE41,
     0xAA01, 0x6AC0, 0x6B80, 0xAB41, 0x6900, 0xA9C1, 0xA881, 0x6840,
     0x7800, 0xB8C1, 0xB981, 0x7940, 0xBB01, 0x7BC0, 0x7A80, 0xBA41,
     0xBE01, 0x7EC0, 0x7F80, 0xBF41, 0x7D00, 0xBDC1, 0xBC81, 0x7C40,
     0xB401, 0x74C0, 0x7580, 0xB541, 0x7700, 0xB7C1, 0xB681, 0x7640,
     0x7200, 0xB2C1, 0xB381, 0x7340, 0xB101, 0x71C0, 0x7080, 0xB041,
     0x5000, 0x90C1, 0x9181, 0x5140, 0x9301, 0x53C0, 0x5280, 0x9241,
     0x9601, 0x56C0, 0x5780, 0x9741, 0x5500, 0x95C1, 0x9481, 0x5440,
     0x9C01, 0x5CC0, 0x5D80, 0x9D41, 0x5F00, 0x9FC1, 0x9E81, 0x5E40,
     0x5A00, 0x9AC1, 0x9B81, 0x5B40, 0x9901, 0x59C0, 0x5880, 0x9841,
     0x8801, 0x48C0, 0x4980, 0x8941, 0x4B00, 0x8BC1, 0x8A81, 0x4A40,
     0x4E00, 0x8EC1, 0x8F81, 0x4F40, 0x8D01, 0x4DC0, 0x4C80, 0x8C41,
     0x4400, 0x84C1, 0x8581, 0x4540, 0x8701, 0x47C0, 0x4680, 0x8641,
     0x8201, 0x42C0, 0x4380, 0x8341, 0x4100, 0x81C1, 0x8081, 0x4040
   ]"

fun crc16_loop :: "u16 \<Rightarrow> u8 list \<Rightarrow> u16" where
  "crc16_loop crc [] = crc"
| "crc16_loop crc (d # data) =
     crc16_loop (drop_bit 8 crc XOR crc16_table ! unat ((crc XOR ucast d) AND 0xFF)) data"

definition modbus_crc16 :: "u8 list \<Rightarrow> u16" where
  "modbus_crc16 data = crc16_loop 0xFFFF data"

section \<open>Data model and server\<close>

definition MODBUS_FC_READ_COILS :: u8 where "MODBUS_FC_READ_COILS = 0x01"
definition MODBUS_FC_READ_DISCRETE_INPUTS :: u8 where "MODBUS_FC_READ_DISCRETE_INPUTS = 0x02"
definition MODBUS_FC_READ_HOLDING_REGISTERS :: u8 where "MODBUS_FC_READ_HOLDING_REGISTERS = 0x03"
definition MODBUS_FC_READ_INPUT_REGISTERS :: u8 where "MODBUS_FC_READ_INPUT_REGISTERS = 0x04"
definition MODBUS_FC_WRITE_SINGLE_COIL :: u8 where "MODBUS_FC_WRITE_SINGLE_COIL = 0x05"
definition MODBUS_FC_WRITE_SINGLE_REGISTER :: u8 where "MODBUS_FC_WRITE_SINGLE_REGISTER = 0x06"
definition MODBUS_FC_WRITE_MULTIPLE_COILS :: u8 where "MODBUS_FC_WRITE_MULTIPLE_COILS = 0x0F"
definition MODBUS_FC_WRITE_MULTIPLE_REGISTERS :: u8 where "MODBUS_FC_WRITE_MULTIPLE_REGISTERS = 0x10"

lemmas modbus_fc_defs =
  MODBUS_FC_READ_COILS_def MODBUS_FC_READ_DISCRETE_INPUTS_def MODBUS_FC_READ_HOLDING_REGISTERS_def
  MODBUS_FC_READ_INPUT_REGISTERS_def MODBUS_FC_WRITE_SINGLE_COIL_def
  MODBUS_FC_WRITE_SINGLE_REGISTER_def MODBUS_FC_WRITE_MULTIPLE_COILS_def
  MODBUS_FC_WRITE_MULTIPLE_REGISTERS_def

definition MODBUS_EX_ILLEGAL_FUNCTION :: u8 where "MODBUS_EX_ILLEGAL_FUNCTION = 0x01"
definition MODBUS_EX_ILLEGAL_DATA_ADDRESS :: u8 where "MODBUS_EX_ILLEGAL_DATA_ADDRESS = 0x02"
definition MODBUS_EX_ILLEGAL_DATA_VALUE :: u8 where "MODBUS_EX_ILLEGAL_DATA_VALUE = 0x03"

lemmas modbus_ex_defs =
  MODBUS_EX_ILLEGAL_FUNCTION_def MODBUS_EX_ILLEGAL_DATA_ADDRESS_def MODBUS_EX_ILLEGAL_DATA_VALUE_def

text \<open>
  The arrays of the application, by address: two tables of the data model may be the same array (in
  \<open>kernel/main.c\<close> the coils and the discrete inputs are). A callback of the application may change them.
\<close>

record modbus_mem =
  mm_bytes :: "addr \<Rightarrow> u8 list"
  mm_words :: "addr \<Rightarrow> u16 list"

type_synonym modbus_cb = "u16 \<Rightarrow> u16 \<Rightarrow> modbus_mem \<Rightarrow> modbus_mem"

record modbus_data =
  md_coils :: addr
  md_coils_count :: u16
  md_discrete_inputs :: addr
  md_discrete_inputs_count :: u16
  md_holding_registers :: addr
  md_holding_registers_count :: u16
  md_input_registers :: addr
  md_input_registers_count :: u16
  md_on_read_coils :: "modbus_cb option"
  md_on_write_coils :: "modbus_cb option"
  md_on_read_holding :: "modbus_cb option"
  md_on_write_holding :: "modbus_cb option"
  md_lock :: spinlock

text \<open>The server, with the data model its \<open>data\<close> field points to and the arrays behind that.\<close>

record modbus_server =
  ms_slave_addr :: u8
  ms_data :: modbus_data
  ms_mem :: modbus_mem
  ms_tcp_socket :: int
  ms_tcp_running :: bool
  ms_uart_handle :: ptr
  ms_rtu_running :: bool
  ms_requests :: u32
  ms_responses :: u32
  ms_errors :: u32
  ms_exceptions :: u32

definition modbus_server_init :: "u8 \<Rightarrow> modbus_data \<Rightarrow> modbus_mem \<Rightarrow> status \<times> modbus_server" where
  "modbus_server_init slave_addr data mem =
     (STATUS_OK, \<lparr>ms_slave_addr = slave_addr, ms_data = data, ms_mem = mem, ms_tcp_socket = -1,
        ms_tcp_running = False, ms_uart_handle = None, ms_rtu_running = False, ms_requests = 0,
        ms_responses = 0, ms_errors = 0, ms_exceptions = 0\<rparr>)"

definition ms_call :: "modbus_cb option \<Rightarrow> u16 \<Rightarrow> u16 \<Rightarrow> modbus_server \<Rightarrow> modbus_server" where
  "ms_call cb addr count s =
     (case cb of None \<Rightarrow> s | Some f \<Rightarrow> s\<lparr>ms_mem := f addr count (ms_mem s)\<rparr>)"

section \<open>Table access\<close>

text \<open>\<open>coils[a / 8] & (1 << (a % 8))\<close>, setting and clearing that bit, and the register array.\<close>

definition bit_get :: "u8 list \<Rightarrow> nat \<Rightarrow> bool option" where
  "bit_get cs a = (if a div 8 < length cs then Some (cs ! (a div 8) AND push_bit (a mod 8) 1 \<noteq> 0) else None)"

definition bit_put :: "nat \<Rightarrow> bool \<Rightarrow> u8 list \<Rightarrow> u8 list option" where
  "bit_put a v cs =
     (if a div 8 < length cs
      then Some (cs[a div 8 := (if v then cs ! (a div 8) OR push_bit (a mod 8) 1
                                else cs ! (a div 8) AND NOT (push_bit (a mod 8) 1))])
      else None)"

definition reg_get :: "u16 list \<Rightarrow> nat \<Rightarrow> u16 option" where
  "reg_get rs a = (if a < length rs then Some (rs ! a) else None)"

definition reg_put :: "nat \<Rightarrow> u16 \<Rightarrow> u16 list \<Rightarrow> u16 list option" where
  "reg_put a v rs = (if a < length rs then Some (rs[a := v]) else None)"

definition ms_set_bytes :: "addr \<Rightarrow> u8 list \<Rightarrow> modbus_server \<Rightarrow> modbus_server" where
  "ms_set_bytes p cs s = s\<lparr>ms_mem := (ms_mem s)\<lparr>mm_bytes := (mm_bytes (ms_mem s))(p := cs)\<rparr>\<rparr>"

definition ms_set_words :: "addr \<Rightarrow> u16 list \<Rightarrow> modbus_server \<Rightarrow> modbus_server" where
  "ms_set_words p rs s = s\<lparr>ms_mem := (ms_mem s)\<lparr>mm_words := (mm_words (ms_mem s))(p := rs)\<rparr>\<rparr>"

section \<open>Responses\<close>

type_synonym reply = "(ptr \<times> modbus_server \<times> zpool) option"

definition modbus_build_exception :: "u8 \<Rightarrow> u8 \<Rightarrow> zpool \<Rightarrow> (ptr \<times> zpool) option" where
  "modbus_build_exception function exception z =
     (case zbuf_alloc_tx 2 z of
        (None, z) \<Rightarrow> Some (None, z)
      | (Some zb, z) \<Rightarrow>
          let (p, z) = zb_op zb (zbuf_put 2) z in do {
            data \<leftarrow> p;
            z \<leftarrow> zb_store zb data [function OR 0x80] z;
            z \<leftarrow> zb_store zb (data + 1) [exception] z;
            Some (Some zb, z)
          })"

text \<open>\<open>resp = modbus_build_exception(...); server->exceptions++; break;\<close>\<close>

definition modbus_exception :: "u8 \<Rightarrow> u8 \<Rightarrow> modbus_server \<Rightarrow> zpool \<Rightarrow> reply" where
  "modbus_exception function exception s z = do {
     (resp, z) \<leftarrow> modbus_build_exception function exception z;
     Some (resp, s\<lparr>ms_exceptions := ms_exceptions s + 1\<rparr>, z)
   }"

text \<open>\<open>resp = zbuf_alloc_tx(n); if (resp == NULL) break; out = zbuf_put(resp, n);\<close> and the rest of a case.\<close>

definition modbus_respond ::
    "u16 \<Rightarrow> (addr \<Rightarrow> addr \<Rightarrow> zpool \<Rightarrow> zpool option) \<Rightarrow> modbus_server \<Rightarrow> zpool \<Rightarrow> reply" where
  "modbus_respond n body s z =
     (case zbuf_alloc_tx n z of
        (None, z) \<Rightarrow> Some (None, s, z)
      | (Some resp, z) \<Rightarrow>
          let (p, z) = zb_op resp (zbuf_put n) z in do {
            out \<leftarrow> p;
            z \<leftarrow> body resp out z;
            Some (Some resp, s, z)
          })"

section \<open>Reading\<close>

text \<open>The 16-bit field at offset \<open>i\<close> of the request.\<close>

definition pdu16 :: "addr \<Rightarrow> addr \<Rightarrow> nat \<Rightarrow> zpool \<Rightarrow> u16 option" where
  "pdu16 q pdu i z = do {
     hi \<leftarrow> zb_byte q (pdu + int i) z;
     lo \<leftarrow> zb_byte q (pdu + int i + 1) z;
     Some (be16 hi lo)
   }"

text \<open>
  The inner loop \<open>for (bit = 0; bit < 8 && i * 8 + bit < count; bit++)\<close>, from \<open>bit\<close> on for \<open>n\<close> more
  rounds; \<open>v\<close> is the output byte so far.
\<close>

fun bits_byte :: "u8 list \<Rightarrow> u16 \<Rightarrow> u16 \<Rightarrow> nat \<Rightarrow> nat \<Rightarrow> nat \<Rightarrow> u8 \<Rightarrow> u8 option" where
  "bits_byte cs addr count i b 0 v = Some v"
| "bits_byte cs addr count i b (Suc n) v =
     (if i * 8 + b < unat count then do {
        on \<leftarrow> bit_get cs (unat (addr + of_nat (i * 8 + b)));
        bits_byte cs addr count i (b + 1) n (if on then v OR push_bit b 1 else v)
      } else Some v)"

fun bits_out :: "addr \<Rightarrow> addr \<Rightarrow> u8 list \<Rightarrow> u16 \<Rightarrow> u16 \<Rightarrow> nat \<Rightarrow> nat \<Rightarrow> zpool \<Rightarrow> zpool option" where
  "bits_out resp out cs addr count i 0 z = Some z"
| "bits_out resp out cs addr count i (Suc n) z = do {
     v \<leftarrow> bits_byte cs addr count i 0 8 0;
     z \<leftarrow> zb_store resp (out + 2 + int i) [v] z;
     bits_out resp out cs addr count (i + 1) n z
   }"

fun regs_out :: "addr \<Rightarrow> addr \<Rightarrow> u16 list \<Rightarrow> nat \<Rightarrow> nat \<Rightarrow> nat \<Rightarrow> zpool \<Rightarrow> zpool option" where
  "regs_out resp out rs addr i 0 z = Some z"
| "regs_out resp out rs addr i (Suc n) z = do {
     val \<leftarrow> reg_get rs (addr + i);
     z \<leftarrow> zb_store resp (out + 2 + int i * 2) [hi8 val] z;
     z \<leftarrow> zb_store resp (out + 2 + int i * 2 + 1) [lo8 val] z;
     regs_out resp out rs addr (i + 1) n z
   }"

text \<open>The second half of the two bit-reading cases, and of the two register-reading cases.\<close>

definition modbus_read_bits :: "u8 \<Rightarrow> u16 \<Rightarrow> u16 \<Rightarrow> u8 list \<Rightarrow> modbus_server \<Rightarrow> zpool \<Rightarrow> reply" where
  "modbus_read_bits function addr count cs s z =
     (let byte_count :: u8 = of_int ((uint count + 7) div 8)
      in modbus_respond (2 + ucast byte_count) (\<lambda>resp out z. do {
           z \<leftarrow> zb_store resp out [function] z;
           z \<leftarrow> zb_store resp (out + 1) [byte_count] z;
           bits_out resp out cs addr count 0 (unat byte_count) z
         }) s z)"

definition modbus_read_regs :: "u8 \<Rightarrow> u16 \<Rightarrow> u16 \<Rightarrow> u16 list \<Rightarrow> modbus_server \<Rightarrow> zpool \<Rightarrow> reply" where
  "modbus_read_regs function addr count rs s z =
     (let byte_count :: u8 = of_int (uint count * 2)
      in modbus_respond (2 + ucast byte_count) (\<lambda>resp out z. do {
           z \<leftarrow> zb_store resp out [function] z;
           z \<leftarrow> zb_store resp (out + 1) [byte_count] z;
           regs_out resp out rs (unat addr) 0 (unat count) z
         }) s z)"

definition fc_read_coils :: "addr \<Rightarrow> addr \<Rightarrow> u8 \<Rightarrow> modbus_server \<Rightarrow> zpool \<Rightarrow> reply" where
  "fc_read_coils q pdu function s z = do {
     addr \<leftarrow> pdu16 q pdu 1 z;
     count \<leftarrow> pdu16 q pdu 3 z;
     if unat addr + unat count > unat (md_coils_count (ms_data s))
     then modbus_exception function MODBUS_EX_ILLEGAL_DATA_ADDRESS s z
     else let s = ms_call (md_on_read_coils (ms_data s)) addr count s
          in modbus_read_bits function addr count (mm_bytes (ms_mem s) (md_coils (ms_data s))) s z
   }"

definition fc_read_discrete_inputs :: "addr \<Rightarrow> addr \<Rightarrow> u8 \<Rightarrow> modbus_server \<Rightarrow> zpool \<Rightarrow> reply" where
  "fc_read_discrete_inputs q pdu function s z = do {
     addr \<leftarrow> pdu16 q pdu 1 z;
     count \<leftarrow> pdu16 q pdu 3 z;
     if unat addr + unat count > unat (md_discrete_inputs_count (ms_data s))
     then modbus_exception function MODBUS_EX_ILLEGAL_DATA_ADDRESS s z
     else modbus_read_bits function addr count (mm_bytes (ms_mem s) (md_discrete_inputs (ms_data s))) s z
   }"

definition fc_read_holding_registers :: "addr \<Rightarrow> addr \<Rightarrow> u8 \<Rightarrow> modbus_server \<Rightarrow> zpool \<Rightarrow> reply" where
  "fc_read_holding_registers q pdu function s z = do {
     addr \<leftarrow> pdu16 q pdu 1 z;
     count \<leftarrow> pdu16 q pdu 3 z;
     if unat addr + unat count > unat (md_holding_registers_count (ms_data s))
     then modbus_exception function MODBUS_EX_ILLEGAL_DATA_ADDRESS s z
     else let s = ms_call (md_on_read_holding (ms_data s)) addr count s
          in modbus_read_regs function addr count
               (mm_words (ms_mem s) (md_holding_registers (ms_data s))) s z
   }"

definition fc_read_input_registers :: "addr \<Rightarrow> addr \<Rightarrow> u8 \<Rightarrow> modbus_server \<Rightarrow> zpool \<Rightarrow> reply" where
  "fc_read_input_registers q pdu function s z = do {
     addr \<leftarrow> pdu16 q pdu 1 z;
     count \<leftarrow> pdu16 q pdu 3 z;
     if unat addr + unat count > unat (md_input_registers_count (ms_data s))
     then modbus_exception function MODBUS_EX_ILLEGAL_DATA_ADDRESS s z
     else modbus_read_regs function addr count
            (mm_words (ms_mem s) (md_input_registers (ms_data s))) s z
   }"

section \<open>Writing\<close>

text \<open>\<open>for (i = 0; i < 5; i++) out[i] = pdu[i];\<close>\<close>

fun echo_loop :: "addr \<Rightarrow> addr \<Rightarrow> addr \<Rightarrow> addr \<Rightarrow> nat \<Rightarrow> nat \<Rightarrow> zpool \<Rightarrow> zpool option" where
  "echo_loop q pdu resp out i 0 z = Some z"
| "echo_loop q pdu resp out i (Suc n) z = do {
     v \<leftarrow> zb_byte q (pdu + int i) z;
     z \<leftarrow> zb_store resp (out + int i) [v] z;
     echo_loop q pdu resp out (i + 1) n z
   }"

text \<open>\<open>out[0] = function;\<close> then \<open>out[1]\<close> to \<open>out[4]\<close> from the request.\<close>

definition modbus_ack :: "addr \<Rightarrow> addr \<Rightarrow> u8 \<Rightarrow> addr \<Rightarrow> addr \<Rightarrow> zpool \<Rightarrow> zpool option" where
  "modbus_ack q pdu function resp out z = do {
     z \<leftarrow> zb_store resp out [function] z;
     echo_loop q pdu resp out 1 4 z
   }"

definition fc_write_single_coil :: "addr \<Rightarrow> addr \<Rightarrow> u8 \<Rightarrow> modbus_server \<Rightarrow> zpool \<Rightarrow> reply" where
  "fc_write_single_coil q pdu function s z = do {
     addr \<leftarrow> pdu16 q pdu 1 z;
     value \<leftarrow> pdu16 q pdu 3 z;
     if addr \<ge> md_coils_count (ms_data s)
     then modbus_exception function MODBUS_EX_ILLEGAL_DATA_ADDRESS s z
     else if value \<noteq> 0xFF00 \<and> value \<noteq> 0x0000
     then modbus_exception function MODBUS_EX_ILLEGAL_DATA_VALUE s z
     else do {
       let p = md_coils (ms_data s);
       cs \<leftarrow> bit_put (unat addr) (value = 0xFF00) (mm_bytes (ms_mem s) p);
       let s = ms_set_bytes p cs s;
       let s = ms_call (md_on_write_coils (ms_data s)) addr 1 s;
       modbus_respond 5 (\<lambda>resp out z. echo_loop q pdu resp out 0 5 z) s z
     }
   }"

definition fc_write_single_register :: "addr \<Rightarrow> addr \<Rightarrow> u8 \<Rightarrow> modbus_server \<Rightarrow> zpool \<Rightarrow> reply" where
  "fc_write_single_register q pdu function s z = do {
     addr \<leftarrow> pdu16 q pdu 1 z;
     value \<leftarrow> pdu16 q pdu 3 z;
     if addr \<ge> md_holding_registers_count (ms_data s)
     then modbus_exception function MODBUS_EX_ILLEGAL_DATA_ADDRESS s z
     else do {
       let p = md_holding_registers (ms_data s);
       rs \<leftarrow> reg_put (unat addr) value (mm_words (ms_mem s) p);
       let s = ms_set_words p rs s;
       let s = ms_call (md_on_write_holding (ms_data s)) addr 1 s;
       modbus_respond 5 (\<lambda>resp out z. echo_loop q pdu resp out 0 5 z) s z
     }
   }"

fun coils_in :: "addr \<Rightarrow> addr \<Rightarrow> zpool \<Rightarrow> u16 \<Rightarrow> nat \<Rightarrow> nat \<Rightarrow> u8 list \<Rightarrow> u8 list option" where
  "coils_in q pdu z addr i 0 cs = Some cs"
| "coils_in q pdu z addr i (Suc n) cs = do {
     v \<leftarrow> zb_byte q (pdu + 6 + int (i div 8)) z;
     cs \<leftarrow> bit_put (unat (addr + of_nat i)) (v AND push_bit (i mod 8) 1 \<noteq> 0) cs;
     coils_in q pdu z addr (i + 1) n cs
   }"

fun regs_in :: "addr \<Rightarrow> addr \<Rightarrow> zpool \<Rightarrow> nat \<Rightarrow> nat \<Rightarrow> nat \<Rightarrow> u16 list \<Rightarrow> u16 list option" where
  "regs_in q pdu z addr i 0 rs = Some rs"
| "regs_in q pdu z addr i (Suc n) rs = do {
     v \<leftarrow> pdu16 q pdu (6 + i * 2) z;
     rs \<leftarrow> reg_put (addr + i) v rs;
     regs_in q pdu z addr (i + 1) n rs
   }"

definition fc_write_multiple_coils :: "addr \<Rightarrow> addr \<Rightarrow> u8 \<Rightarrow> modbus_server \<Rightarrow> zpool \<Rightarrow> reply" where
  "fc_write_multiple_coils q pdu function s z = do {
     addr \<leftarrow> pdu16 q pdu 1 z;
     count \<leftarrow> pdu16 q pdu 3 z;
     if unat addr + unat count > unat (md_coils_count (ms_data s))
     then modbus_exception function MODBUS_EX_ILLEGAL_DATA_ADDRESS s z
     else do {
       let p = md_coils (ms_data s);
       cs \<leftarrow> coils_in q pdu z addr 0 (unat count) (mm_bytes (ms_mem s) p);
       let s = ms_set_bytes p cs s;
       let s = ms_call (md_on_write_coils (ms_data s)) addr count s;
       modbus_respond 5 (modbus_ack q pdu function) s z
     }
   }"

definition fc_write_multiple_registers :: "addr \<Rightarrow> addr \<Rightarrow> u8 \<Rightarrow> modbus_server \<Rightarrow> zpool \<Rightarrow> reply" where
  "fc_write_multiple_registers q pdu function s z = do {
     addr \<leftarrow> pdu16 q pdu 1 z;
     count \<leftarrow> pdu16 q pdu 3 z;
     if unat addr + unat count > unat (md_holding_registers_count (ms_data s))
     then modbus_exception function MODBUS_EX_ILLEGAL_DATA_ADDRESS s z
     else do {
       let p = md_holding_registers (ms_data s);
       rs \<leftarrow> regs_in q pdu z (unat addr) 0 (unat count) (mm_words (ms_mem s) p);
       let s = ms_set_words p rs s;
       let s = ms_call (md_on_write_holding (ms_data s)) addr count s;
       modbus_respond 5 (modbus_ack q pdu function) s z
     }
   }"

section \<open>The request handler\<close>

definition modbus_dispatch :: "addr \<Rightarrow> addr \<Rightarrow> u8 \<Rightarrow> modbus_server \<Rightarrow> zpool \<Rightarrow> reply" where
  "modbus_dispatch q pdu function s z =
     (if function = MODBUS_FC_READ_COILS then fc_read_coils q pdu function s z
      else if function = MODBUS_FC_READ_DISCRETE_INPUTS then fc_read_discrete_inputs q pdu function s z
      else if function = MODBUS_FC_READ_HOLDING_REGISTERS then fc_read_holding_registers q pdu function s z
      else if function = MODBUS_FC_READ_INPUT_REGISTERS then fc_read_input_registers q pdu function s z
      else if function = MODBUS_FC_WRITE_SINGLE_COIL then fc_write_single_coil q pdu function s z
      else if function = MODBUS_FC_WRITE_SINGLE_REGISTER then fc_write_single_register q pdu function s z
      else if function = MODBUS_FC_WRITE_MULTIPLE_COILS then fc_write_multiple_coils q pdu function s z
      else if function = MODBUS_FC_WRITE_MULTIPLE_REGISTERS then fc_write_multiple_registers q pdu function s z
      else modbus_exception function MODBUS_EX_ILLEGAL_FUNCTION s z)"

definition ms_lock :: "modbus_server \<Rightarrow> modbus_server option" where
  "ms_lock s = do {
     l \<leftarrow> spin_lock (md_lock (ms_data s));
     Some (s\<lparr>ms_data := (ms_data s)\<lparr>md_lock := l\<rparr>\<rparr>)
   }"

definition ms_unlock :: "modbus_server \<Rightarrow> modbus_server" where
  "ms_unlock s = s\<lparr>ms_data := (ms_data s)\<lparr>md_lock := spin_unlock (md_lock (ms_data s))\<rparr>\<rparr>"

text \<open>The request is the buffer at \<open>q\<close>.\<close>

definition modbus_process_request :: "addr \<Rightarrow> modbus_server \<Rightarrow> zpool \<Rightarrow> reply" where
  "modbus_process_request q s z = do {
     let pdu = zb_data (zp_buf z q);
     function \<leftarrow> zb_byte q pdu z;
     let s = s\<lparr>ms_requests := ms_requests s + 1\<rparr>;
     s \<leftarrow> ms_lock s;
     (resp, s, z) \<leftarrow> modbus_dispatch q pdu function s z;
     let s = ms_unlock s;
     let s = (if resp \<noteq> None then s\<lparr>ms_responses := ms_responses s + 1\<rparr>
              else s\<lparr>ms_errors := ms_errors s + 1\<rparr>);
     Some (resp, s, z)
   }"

end
