(* ===== verification/Modbus_Props.thy ===== *)
theory Modbus_Props
  imports Modbus
begin

text \<open>
  Properties of the Modbus core: the table-driven CRC against the bit-wise definition, the reply to
  each kind of request as a function of the data tables, the requests that are refused, and what
  happens beyond the sizes the byte count can express.
\<close>

section \<open>CRC-16\<close>

text \<open>The reflected CRC-16 of the serial-line specification: one bit at a time, polynomial \<open>0xA001\<close>.\<close>

definition crc_shift :: "u16 \<Rightarrow> u16" where
  "crc_shift c = (if bit c 0 then drop_bit 1 c XOR 0xA001 else drop_bit 1 c)"

definition crc_bits :: "u16 \<Rightarrow> u8 \<Rightarrow> u16" where
  "crc_bits c d = (crc_shift ^^ 8) (c XOR ucast d)"

lemma crc_shift_xor: "crc_shift (a XOR b) = crc_shift a XOR crc_shift b"
  by (rule bit_word_eqI) (auto simp: crc_shift_def bit_simps)

lemma crc_shifts_xor: "(crc_shift ^^ n) (a XOR b) = (crc_shift ^^ n) a XOR (crc_shift ^^ n) b"
  by (induction n) (simp_all add: crc_shift_xor)

lemma crc_shifts_zeros: "(\<And>i. i < n \<Longrightarrow> \<not> bit c i) \<Longrightarrow> (crc_shift ^^ n) c = drop_bit n c"
proof (induction n)
  case (Suc n)
  have "(crc_shift ^^ n) c = drop_bit n c" using Suc by simp
  moreover have "\<not> bit (drop_bit n c) 0" using Suc.prems[of n] by (simp add: bit_simps)
  ultimately have "(crc_shift ^^ Suc n) c = drop_bit 1 (drop_bit n c)"
    by (simp del: funpow.simps add: funpow.simps(2) crc_shift_def)
  then show ?case by simp
qed simp

text \<open>The table, generated from its entries for the eight single-bit bytes.\<close>

lemma crc_shift_eval:
  "crc_shift (numeral n) = (if even (numeral n :: u16) then drop_bit 1 (numeral n)
                            else drop_bit 1 (numeral n) XOR 0xA001)"
  "crc_shift 1 = 0xA001"
  by (simp_all add: crc_shift_def bit_0)

lemma crc_shift_basis:
  "(crc_shift ^^ 8) 1 = 0xC0C1" "(crc_shift ^^ 8) 2 = 0xC181" "(crc_shift ^^ 8) 4 = 0xC301"
  "(crc_shift ^^ 8) 8 = 0xC601" "(crc_shift ^^ 8) 16 = 0xCC01" "(crc_shift ^^ 8) 32 = 0xD801"
  "(crc_shift ^^ 8) 64 = 0xF001" "(crc_shift ^^ 8) 128 = 0xA001"
proof -
  have e: "(crc_shift ^^ 8) x = crc_shift (crc_shift (crc_shift (crc_shift (crc_shift (crc_shift
      (crc_shift (crc_shift x)))))))" for x
    by (simp add: numeral_eq_Suc)
  show "(crc_shift ^^ 8) 1 = 0xC0C1" "(crc_shift ^^ 8) 2 = 0xC181" "(crc_shift ^^ 8) 4 = 0xC301"
    "(crc_shift ^^ 8) 8 = 0xC601" "(crc_shift ^^ 8) 16 = 0xCC01" "(crc_shift ^^ 8) 32 = 0xD801"
    "(crc_shift ^^ 8) 64 = 0xF001" "(crc_shift ^^ 8) 128 = 0xA001"
    unfolding e by (simp_all add: crc_shift_eval)
qed

fun crc_tab :: "nat \<Rightarrow> u16 list" where
  "crc_tab 0 = [0]"
| "crc_tab (Suc k) = crc_tab k @ map (\<lambda>v. (crc_shift ^^ 8) (push_bit k 1) XOR v) (crc_tab k)"

lemma crc_tab_numeral:
  "crc_tab (numeral n) = crc_tab (pred_numeral n) @
     map (\<lambda>v. (crc_shift ^^ 8) (push_bit (pred_numeral n) 1) XOR v) (crc_tab (pred_numeral n))"
  by (simp add: numeral_eq_Suc del: funpow.simps)

lemma crc16_table_tab: "crc16_table = crc_tab 8"
  by (simp add: crc16_table_def crc_tab_numeral crc_shift_basis del: funpow.simps)

lemma length_crc_tab [simp]: "length (crc_tab k) = 2 ^ k"
  by (induction k) simp_all

lemma of_nat_top_bit: "j < 2 ^ k \<Longrightarrow> (of_nat (2 ^ k + j) :: 'a::len word) = push_bit k 1 XOR of_nat j"
proof -
  assume "j < 2 ^ k"
  then have z: "\<not> bit j k" by (simp add: bit_iff_odd)
  have "(push_bit k 1 :: 'a word) AND of_nat j = 0"
    using z by (intro bit_word_eqI) (auto simp: bit_simps)
  then have "(push_bit k 1 :: 'a word) + of_nat j = push_bit k 1 XOR of_nat j"
    by (simp add: disjunctive_add_eq_xor)
  then show ?thesis by (simp add: push_bit_eq_mult)
qed

lemma crc_tab_nth: "i < 2 ^ k \<Longrightarrow> crc_tab k ! i = (crc_shift ^^ 8) (of_nat i)"
proof (induction k arbitrary: i)
  case 0
  have "(crc_shift ^^ 8) 0 = drop_bit 8 0" by (rule crc_shifts_zeros) simp
  then show ?case using 0 by simp
next
  case (Suc k)
  show ?case
  proof (cases "i < 2 ^ k")
    case True
    then show ?thesis using Suc.IH by (simp add: nth_append del: funpow.simps)
  next
    case False
    then obtain j where j: "i = 2 ^ k + j" "j < 2 ^ k"
      using Suc.prems by (auto simp: not_less dest!: le_Suc_ex)
    then show ?thesis
      using Suc.IH[OF j(2)] of_nat_top_bit[OF j(2), where 'a = 16]
      by (simp add: nth_append crc_shifts_xor del: funpow.simps of_nat_add)
  qed
qed

lemma crc_step:
  "drop_bit 8 crc XOR crc16_table ! unat ((crc XOR ucast d) AND 0xFF) = crc_bits crc d"
proof -
  define x where "x = crc XOR ucast d"
  define lo where "lo = x AND mask 8"
  define hi where "hi = x AND NOT (mask 8)"
  have "unat lo < 2 ^ 8"
    unfolding lo_def take_bit_eq_mask[symmetric] unsigned_take_bit_eq by (rule take_bit_nat_less_exp)
  then have t: "crc16_table ! unat lo = (crc_shift ^^ 8) lo"
    unfolding crc16_table_tab by (subst crc_tab_nth) simp_all
  have "(crc_shift ^^ 8) hi = drop_bit 8 hi"
    by (rule crc_shifts_zeros) (auto simp: hi_def bit_simps)
  also have "\<dots> = drop_bit 8 crc"
    by (rule bit_word_eqI) (auto simp: hi_def x_def bit_simps dest: bit_imp_le_length)
  finally have h: "(crc_shift ^^ 8) hi = drop_bit 8 crc" .
  have "x = hi XOR lo" by (rule bit_word_eqI) (auto simp: hi_def lo_def bit_simps)
  then have "crc_bits crc d = drop_bit 8 crc XOR (crc_shift ^^ 8) lo"
    unfolding crc_bits_def x_def[symmetric] using h by (simp add: crc_shifts_xor del: funpow.simps)
  then show ?thesis using t by (simp add: lo_def x_def mask_FF)
qed

lemma crc16_loop_foldl: "crc16_loop crc data = foldl crc_bits crc data"
  by (induction data arbitrary: crc) (simp_all only: crc16_loop.simps foldl.simps crc_step)

lemma crc16_loop_append: "crc16_loop crc (xs @ ys) = crc16_loop (crc16_loop crc xs) ys"
  by (induction xs arbitrary: crc) auto

lemma crc_shift_0_iff: "crc_shift c = 0 \<longleftrightarrow> c = 0"
proof
  assume z: "crc_shift c = 0"
  have "bit (crc_shift c) 15 \<longleftrightarrow> bit c 0"
    by (auto simp: crc_shift_def bit_simps dest: bit_imp_le_length)
  then have b: "\<not> bit c 0" using z by simp
  then have "drop_bit 1 c = 0" using z by (simp add: crc_shift_def)
  then have "bit (drop_bit 1 c) n = False" for n by simp
  then have "\<not> bit c n" for n using b by (cases n) (auto simp: bit_simps)
  then show "c = 0" by (intro bit_word_eqI) simp
qed (simp add: crc_shift_def)

lemma crc_shifts_0_iff: "(crc_shift ^^ n) c = 0 \<longleftrightarrow> c = 0"
  by (induction n) (simp_all add: crc_shift_0_iff)

lemma crc16_residue_aux: "crc16_loop c [lo, hi] = 0 \<longleftrightarrow> be16 hi lo = c"
proof -
  have hi: "ucast hi = (crc_shift ^^ 8) (push_bit 8 (ucast hi))"
  proof -
    have "(crc_shift ^^ 8) (push_bit 8 (ucast hi)) = drop_bit 8 (push_bit 8 (ucast hi))"
      by (rule crc_shifts_zeros) (simp add: bit_simps)
    also have "\<dots> = ucast hi"
      by (rule bit_word_eqI) (auto simp: bit_simps dest: bit_imp_le_length)
    finally show ?thesis ..
  qed
  have x: "(c XOR ucast lo) XOR push_bit 8 (ucast hi) = c XOR be16 hi lo"
    by (rule bit_word_eqI) (auto simp: be16_def bit_simps dest: bit_imp_le_length)
  have "crc16_loop c [lo, hi] = (crc_shift ^^ 8) ((crc_shift ^^ 8) (c XOR ucast lo) XOR (crc_shift ^^ 8) (push_bit 8 (ucast hi)))"
    unfolding crc16_loop_foldl using hi by (simp del: funpow.simps add: crc_bits_def)
  also have "\<dots> = (crc_shift ^^ 8) ((crc_shift ^^ 8) (c XOR be16 hi lo))"
    by (simp only: crc_shifts_xor[symmetric] x)
  finally have "crc16_loop c [lo, hi] = 0 \<longleftrightarrow> c XOR be16 hi lo = 0"
    by (simp only: crc_shifts_0_iff)
  also have "\<dots> \<longleftrightarrow> be16 hi lo = c" by (metis xor.left_neutral xor.assoc xor_self_eq)
  finally show ?thesis .
qed

section \<open>Requests and replies\<close>

text \<open>The buffer at \<open>q\<close> holds the request \<open>pdu\<close>; it is a buffer of the pool that is not free.\<close>

definition req_at :: "addr \<Rightarrow> u8 list \<Rightarrow> addr list \<Rightarrow> zpool \<Rightarrow> bool" where
  "req_at q pdu fl z \<longleftrightarrow> q \<in> set (zbuf_slots (zp_memory z)) \<and> q \<notin> set fl \<and>
     in_buf (zp_buf z q) (zb_data (zp_buf z q)) (length pdu) \<and>
     mem_bytes (zp_mem z) (zb_data (zp_buf z q)) (length pdu) = pdu"

text \<open>
  The buffer \<open>r\<close> was taken from the pool and carries exactly \<open>bs\<close>; the buffers in use, with all
  their bytes, are as before.
\<close>

definition sent :: "addr \<Rightarrow> u8 list \<Rightarrow> addr list \<Rightarrow> zpool \<Rightarrow> zpool \<Rightarrow> bool" where
  "sent r bs fl z z' \<longleftrightarrow> zpool_inv z' fl \<and> zp_memory z' = zp_memory z \<and> zb_payload r z' = bs \<and>
     zb_wf (zp_buf z' r) \<and> zb_data (zp_buf z' r) - zb_head (zp_buf z' r) = CONFIG_ZBUF_HEADROOM \<and>
     (\<forall>a \<in> set (zbuf_slots (zp_memory z)). a \<notin> set (r # fl) \<longrightarrow>
        zp_buf z' a = zp_buf z a \<and>
        (\<forall>x k. in_buf (zp_buf z a) x k \<longrightarrow> mem_bytes (zp_mem z') x k = mem_bytes (zp_mem z) x k))"

lemma tx_sent:
  assumes tx: "tx_buf r n fl z z'" and inv: "zpool_inv z (r # fl)" and bs: "length bs = unat n" and n: "uint n \<le> 1920"
  shows "sent r bs fl z (z'\<lparr>zp_mem := mem_write (r + 232) bs (zp_mem z')\<rparr>)"
proof -
  have len: "int (length bs) = uint n" using bs by simp
  have "mem_bytes (mem_write (r + 232) bs (zp_mem z')) x k = mem_bytes (zp_mem z) x k"
    if "a \<in> set (zbuf_slots (zp_memory z))" "a \<notin> set (r # fl)" "in_buf (zp_buf z a) x k" for a x k
  proof (rule tx_other_bytes[OF tx inv that(1)])
    have "zb_layout a (zp_buf z a)" using inv that(1) by (simp add: zpool_inv_def)
    then show "a + 104 \<le> x" "x + int k \<le> a + 2152"
      using that(3) by (auto simp: in_buf_def zb_layout_def sizeof_zbuf_def config_defs)
  qed (use that(2) len n in auto)
  then show ?thesis
    using tx tx_payload[OF tx bs] n
    by (auto simp: sent_def tx_buf_def zb_wf_def config_defs)
qed

lemma respond_ex:
  assumes inv: "zpool_inv z (r # fl)" and n: "uint n \<le> 1920"
    and body: "\<And>z'. tx_buf r n fl z z' \<Longrightarrow> \<exists>bs. length bs = unat n \<and> Q bs \<and>
      body r (r + 232) z' = Some (z'\<lparr>zp_mem := mem_write (r + 232) bs (zp_mem z')\<rparr>)"
  shows "\<exists>z' bs. modbus_respond n body s z = Some (Some r, s, z') \<and> sent r bs fl z z' \<and> Q bs"
proof -
  obtain z1 z2 where z: "zbuf_alloc_tx n z = (Some r, z1)" "zb_op r (zbuf_put n) z1 = (Some (r + 232), z2)"
    "tx_buf r n fl z z2"
    using tx_alloc_put[OF inv n] by blast
  obtain bs where bs: "length bs = unat n" "Q bs"
    "body r (r + 232) z2 = Some (z2\<lparr>zp_mem := mem_write (r + 232) bs (zp_mem z2)\<rparr>)"
    using body[OF z(3)] by blast
  have "modbus_respond n body s z = Some (Some r, s, z2\<lparr>zp_mem := mem_write (r + 232) bs (zp_mem z2)\<rparr>)"
    using z bs(3) by (simp add: modbus_respond_def)
  then show ?thesis using tx_sent[OF z(3) inv bs(1) n] bs(2) by blast
qed

lemma respond_ok:
  assumes inv: "zpool_inv z (r # fl)" and n: "uint n \<le> 1920" and bs: "length bs = unat n"
    and body: "\<And>z'. tx_buf r n fl z z' \<Longrightarrow>
      body r (r + 232) z' = Some (z'\<lparr>zp_mem := mem_write (r + 232) bs (zp_mem z')\<rparr>)"
  shows "\<exists>z'. modbus_respond n body s z = Some (Some r, s, z') \<and> sent r bs fl z z'"
  using respond_ex[OF inv n, of "\<lambda>b. b = bs" body s] bs body by auto

lemma respond_none:
  "zpool_inv z [] \<Longrightarrow> uint n \<le> 1920 \<Longrightarrow>
     modbus_respond n body s z = Some (None, s, z\<lparr>zp_alloc_failures := zp_alloc_failures z + 1\<rparr>)"
  by (simp add: modbus_respond_def tx_alloc_none)

lemma req_byte: "req_at q pdu fl z \<Longrightarrow> i < length pdu \<Longrightarrow> zb_byte q (zb_data (zp_buf z q) + int i) z = Some (pdu ! i)"
  using nth_mem_bytes[of i "length pdu" "zp_mem z" "zb_data (zp_buf z q)"]
  by (auto simp: req_at_def zb_byte_def in_buf_def)

lemma req_pdu16:
  "req_at q pdu fl z \<Longrightarrow> i + 1 < length pdu \<Longrightarrow>
     pdu16 q (zb_data (zp_buf z q)) i z = Some (be16 (pdu ! i) (pdu ! (i + 1)))"
  using req_byte[of q pdu fl z i] req_byte[of q pdu fl z "i + 1"] by (simp add: pdu16_def add_ac)

text \<open>The request bytes survive the making of the reply buffer.\<close>

lemma req_at_tx:
  assumes "req_at q pdu (r # fl) z" and "tx_buf r n fl z z'"
  shows "req_at q pdu fl z'" "q \<noteq> r" "zp_buf z' q = zp_buf z q"
  using assms by (auto simp: req_at_def tx_buf_def)

lemma req_apart:
  assumes "req_at q pdu (r # fl) z" and "zpool_inv z (r # fl)"
  shows "zb_data (zp_buf z q) + int (length pdu) \<le> r + 104 \<or> r + 2152 \<le> zb_data (zp_buf z q)"
proof -
  have "q \<in> set (zbuf_slots (zp_memory z))" "r \<in> set (zbuf_slots (zp_memory z))" "q \<noteq> r"
    using assms by (auto simp: req_at_def zpool_inv_def)
  moreover have "zb_layout q (zp_buf z q)" using assms(2) calculation(1) by (simp add: zpool_inv_def)
  ultimately show ?thesis
    using zbuf_slots_apart[of q "zp_memory z" r] assms(1)
    by (auto simp: req_at_def in_buf_def zb_layout_def zbuf_slot_value sizeof_zbuf_def config_defs)
qed

text \<open>The lock is taken and given back around the dispatch.\<close>

definition ms_locked :: "modbus_server \<Rightarrow> modbus_server" where
  "ms_locked s = s\<lparr>ms_data := (ms_data s)\<lparr>md_lock := (md_lock (ms_data s))\<lparr>sl_lock := 1\<rparr>\<rparr>\<rparr>"

definition ms_free :: "modbus_server \<Rightarrow> bool" where
  "ms_free s \<longleftrightarrow> sl_lock (md_lock (ms_data s)) = 0"

lemma ms_lock_ok: "ms_free s \<Longrightarrow> ms_lock s = Some (ms_locked s)"
  by (simp add: ms_lock_def ms_locked_def ms_free_def spin_lock_def)

lemma ms_unlock_ok: "ms_free s \<Longrightarrow> ms_unlock (ms_locked s) = s"
  by (simp add: ms_unlock_def ms_locked_def ms_free_def spin_unlock_def)

definition ms_request :: "modbus_server \<Rightarrow> modbus_server" where
  "ms_request s = s\<lparr>ms_requests := ms_requests s + 1\<rparr>"

definition ms_reply :: "modbus_server \<Rightarrow> modbus_server" where
  "ms_reply s = s\<lparr>ms_responses := ms_responses s + 1\<rparr>"

lemma process_ok:
  assumes "req_at q (f # pdu) fl z" and "ms_free s" and "ms_free s'"
    and "modbus_dispatch q (zb_data (zp_buf z q)) f (ms_locked (ms_request s)) z = Some (Some r, ms_locked s', z')"
  shows "modbus_process_request q s z = Some (Some r, ms_reply s', z')"
proof -
  have "ms_free (ms_request s)" using assms(2) by (simp add: ms_free_def ms_request_def)
  from ms_lock_ok[OF this] have l: "ms_lock (ms_request s) = Some (ms_locked (ms_request s))" .
  have b: "zb_byte q (zb_data (zp_buf z q)) z = Some f" using req_byte[OF assms(1), of 0] by simp
  show ?thesis
    using l b assms(4) ms_unlock_ok[OF assms(3)]
    by (simp add: modbus_process_request_def ms_request_def[symmetric] ms_reply_def Let_def)
qed

section \<open>The loops\<close>

lemma in_buf_sub: "in_buf k a n \<Longrightarrow> a \<le> x \<Longrightarrow> x + int m \<le> a + int n \<Longrightarrow> in_buf k x m"
  by (auto simp: in_buf_def)

lemma zb_store_in: "in_buf (zp_buf z b) a (length bs) \<Longrightarrow> zb_store b a bs z = Some (z\<lparr>zp_mem := mem_write a bs (zp_mem z)\<rparr>)"
  by (simp add: zb_store_def)

lemma mem_write_Cons:
  "mem_write (a + 1) ys (mem_write a [v] m) = mem_write a (v # ys) m"
  using mem_write_append[of a "[v]" ys m] by simp

definition reg_bytes :: "u16 list \<Rightarrow> u8 list" where
  "reg_bytes vs = concat (map (\<lambda>v. [hi8 v, lo8 v]) vs)"

lemma reg_bytes_simps [simp]:
  "reg_bytes [] = []" "reg_bytes (v # vs) = hi8 v # lo8 v # reg_bytes vs" "length (reg_bytes vs) = 2 * length vs"
proof -
  show "length (reg_bytes vs) = 2 * length vs" by (induction vs) (simp_all add: reg_bytes_def)
qed (simp_all add: reg_bytes_def)

lemma regs_out_ok:
  assumes "in_buf (zp_buf z r) (out + 2 + int i * 2) (2 * n)" and "addr + i + n \<le> length rs"
  shows "regs_out r out rs addr i n z =
    Some (z\<lparr>zp_mem := mem_write (out + 2 + int i * 2) (reg_bytes (take n (drop (addr + i) rs))) (zp_mem z)\<rparr>)"
  using assms
proof (induction n arbitrary: i z)
  case (Suc n)
  let ?a = "out + 2 + int i * 2" and ?v = "rs ! (addr + i)"
  have d: "take (Suc n) (drop (addr + i) rs) = ?v # take n (drop (addr + i + 1) rs)"
    using Suc.prems(2) by (simp add: Cons_nth_drop_Suc[symmetric])
  let ?z = "z\<lparr>zp_mem := mem_write ?a [hi8 ?v, lo8 ?v] (zp_mem z)\<rparr>"
  have st: "zb_store r ?a [hi8 ?v] z = Some (z\<lparr>zp_mem := mem_write ?a [hi8 ?v] (zp_mem z)\<rparr>)"
    "zb_store r (?a + 1) [lo8 ?v] (z\<lparr>zp_mem := mem_write ?a [hi8 ?v] (zp_mem z)\<rparr>) = Some ?z"
    using Suc.prems(1) mem_write_Cons[of ?a "[lo8 ?v]" "hi8 ?v" "zp_mem z"]
    by (auto simp: zb_store_def in_buf_def)
  have "regs_out r out rs addr (i + 1) n ?z = Some (?z\<lparr>zp_mem :=
      mem_write (out + 2 + int (i + 1) * 2) (reg_bytes (take n (drop (addr + (i + 1)) rs))) (zp_mem ?z)\<rparr>)"
    using Suc.prems by (intro Suc.IH) (auto simp: in_buf_def)
  moreover have "mem_write (out + 2 + int (i + 1) * 2) xs (mem_write ?a [hi8 ?v, lo8 ?v] m) =
      mem_write ?a (hi8 ?v # lo8 ?v # xs) m" for xs m
    using mem_write_append[of ?a "[hi8 ?v, lo8 ?v]" xs m] by (simp add: algebra_simps)
  ultimately show ?case using Suc.prems(2) st by (simp add: reg_get_def d add.assoc)
qed simp

text \<open>The register loop runs over the end of the buffer when the count is too large for it.\<close>

lemma regs_out_over:
  assumes "zb_end (zp_buf z r) < out + 2 + int (i + n) * 2" and "0 < n"
  shows "regs_out r out rs addr i n z = None"
  using assms
proof (induction n arbitrary: i z)
  case (Suc n)
  show ?case
  proof (cases n)
    case 0
    then show ?thesis
      using Suc.prems by (auto simp: zb_store_def in_buf_def reg_get_def split: bind_splits)
  next
    case (Suc m)
    have "regs_out r out rs addr (i + 1) n z' = None" if "zp_buf z' r = zp_buf z r" for z'
      using Suc Suc.prems that by (intro Suc.IH) auto
    then show ?thesis by (auto simp: zb_store_def split: bind_splits if_splits)
  qed
qed simp

text \<open>The bits of a byte table.\<close>

definition coil :: "u8 list \<Rightarrow> nat \<Rightarrow> bool" where
  "coil cs a \<longleftrightarrow> bit (cs ! (a div 8)) (a mod 8)"

lemma bit_get_coil: "a div 8 < length cs \<Longrightarrow> bit_get cs a = Some (coil cs a)"
  by (simp add: bit_get_def coil_def push_bit_eq_mult and_exp_eq_0_iff_not_bit)

lemma unat_add_of_nat:
  "unat (a :: 'a::len word) + i < 2 ^ LENGTH('a) \<Longrightarrow> unat (a + of_nat i) = unat a + i"
  by (simp add: unat_word_ariths unsigned_of_nat take_bit_nat_eq_self)

lemma bits_byte_ok:
  assumes "b + n \<le> 8" and "unat addr + unat count \<le> 8 * length cs" and "unat addr + unat count < 65536"
  shows "\<exists>v'. bits_byte cs addr count i b n v = Some v' \<and>
    (\<forall>j < 8. bit v' j \<longleftrightarrow> bit v j \<or> b \<le> j \<and> j < b + n \<and> i * 8 + j < unat count \<and> coil cs (unat addr + (i * 8 + j)))"
  using assms
proof (induction n arbitrary: b v)
  case (Suc n)
  show ?case
  proof (cases "i * 8 + b < unat count")
    case False
    then show ?thesis by auto
  next
    case True
    then have a: "unat (addr + of_nat (i * 8 + b)) = unat addr + (i * 8 + b)"
      using Suc.prems(3) by (intro unat_add_of_nat) simp
    then have g: "bit_get cs (unat (addr + of_nat (i * 8 + b))) = Some (coil cs (unat addr + (i * 8 + b)))"
      using True Suc.prems(2) unfolding a by (intro bit_get_coil) linarith
    define w where "w = (if coil cs (unat addr + (i * 8 + b)) then v OR push_bit b 1 else v)"
    have w: "bit w j \<longleftrightarrow> bit v j \<or> j = b \<and> coil cs (unat addr + (i * 8 + b))" if "j < 8" for j
      using that by (auto simp: w_def bit_simps)
    obtain v' where v': "bits_byte cs addr count i (b + 1) n w = Some v'"
      "\<forall>j < 8. bit v' j \<longleftrightarrow> bit w j \<or> b + 1 \<le> j \<and> j < b + 1 + n \<and> i * 8 + j < unat count \<and> coil cs (unat addr + (i * 8 + j))"
      using Suc.IH[of "b + 1" w] Suc.prems by auto
    have "bits_byte cs addr count i b (Suc n) v = Some v'"
      using v'(1) g True by (simp add: w_def)
    moreover have "bit v' j \<longleftrightarrow> bit v j \<or> b \<le> j \<and> j < b + Suc n \<and> i * 8 + j < unat count \<and> coil cs (unat addr + (i * 8 + j))"
      if "j < 8" for j
      using v'(2) w[OF that] that True by (cases "j = b") auto
    ultimately show ?thesis by blast
  qed
qed auto

lemma coil_append:
  "coil (xs @ ys) a = (if a < 8 * length xs then coil xs a else coil ys (a - 8 * length xs))"
proof (cases "a < 8 * length xs")
  case True
  then have "a div 8 < length xs" by linarith
  then show ?thesis using True by (simp add: coil_def nth_append)
next
  case False
  then obtain d where "a = 8 * length xs + d" by (metis le_add_diff_inverse not_less)
  then show ?thesis by (simp add: coil_def nth_append)
qed

lemma bits_out_ok:
  assumes "in_buf (zp_buf z r) (out + 2 + int i) n"
    and "unat addr + unat count \<le> 8 * length cs" and "unat addr + unat count < 65536"
  shows "\<exists>bs. bits_out r out cs addr count i n z = Some (z\<lparr>zp_mem := mem_write (out + 2 + int i) bs (zp_mem z)\<rparr>) \<and>
    length bs = n \<and> (\<forall>k < 8 * n. coil bs k \<longleftrightarrow> i * 8 + k < unat count \<and> coil cs (unat addr + (i * 8 + k)))"
  using assms(1)
proof (induction n arbitrary: i z)
  case 0
  then show ?case by simp
next
  case (Suc n)
  obtain v where v: "bits_byte cs addr count i 0 8 0 = Some v"
    "\<forall>j < 8. bit v j \<longleftrightarrow> i * 8 + j < unat count \<and> coil cs (unat addr + (i * 8 + j))"
    using bits_byte_ok[of 0 8 addr count cs i 0] assms(2,3) by auto
  let ?a = "out + 2 + int i"
  let ?z = "z\<lparr>zp_mem := mem_write ?a [v] (zp_mem z)\<rparr>"
  have st: "zb_store r ?a [v] z = Some ?z" using Suc.prems by (auto simp: zb_store_def in_buf_def)
  obtain bs where bs: "bits_out r out cs addr count (i + 1) n ?z =
      Some (?z\<lparr>zp_mem := mem_write (out + 2 + int (i + 1)) bs (zp_mem ?z)\<rparr>)" "length bs = n"
    "\<forall>k < 8 * n. coil bs k \<longleftrightarrow> (i + 1) * 8 + k < unat count \<and> coil cs (unat addr + ((i + 1) * 8 + k))"
    using Suc.IH[of ?z "i + 1"] Suc.prems by (auto simp: in_buf_def)
  have "mem_write (out + 2 + int (i + 1)) bs (mem_write ?a [v] m) = mem_write ?a (v # bs) m" for m
    using mem_write_Cons[of ?a bs v m] by (simp add: algebra_simps)
  then have "bits_out r out cs addr count i (Suc n) z = Some (z\<lparr>zp_mem := mem_write ?a (v # bs) (zp_mem z)\<rparr>)"
    using v(1) st bs(1) by simp
  moreover have "coil (v # bs) k \<longleftrightarrow> i * 8 + k < unat count \<and> coil cs (unat addr + (i * 8 + k))"
    if "k < 8 * Suc n" for k
  proof (cases "k < 8")
    case True
    then show ?thesis using v(2) by (simp add: coil_def)
  next
    case False
    then obtain d where d: "k = 8 + d" by (metis le_add_diff_inverse not_less)
    have "coil (v # bs) k = coil bs d" using coil_append[of "[v]" bs k] d by simp
    then show ?thesis using bs(3) that d by (simp add: algebra_simps)
  qed
  ultimately show ?case using bs(2) by (intro exI[of _ "v # bs"]) simp
qed

lemma echo_loop_ok:
  assumes "in_buf (zp_buf z r) (out + int i) n" and "in_buf (zp_buf z q) (pdu + int i) n"
    and "pdu + int (i + n) \<le> out + int i \<or> out + int (i + n) \<le> pdu + int i"
  shows "echo_loop q pdu r out i n z =
    Some (z\<lparr>zp_mem := mem_write (out + int i) (mem_bytes (zp_mem z) (pdu + int i) n) (zp_mem z)\<rparr>)"
  using assms
proof (induction n arbitrary: i z)
  case (Suc n)
  let ?a = "out + int i" and ?v = "zp_mem z (pdu + int i)"
  let ?z = "z\<lparr>zp_mem := mem_write ?a [?v] (zp_mem z)\<rparr>"
  have st: "zb_byte q (pdu + int i) z = Some ?v" "zb_store r ?a [?v] z = Some ?z"
    using Suc.prems by (auto simp: zb_store_def zb_byte_def in_buf_def)
  have rest: "mem_bytes (zp_mem ?z) (pdu + int (i + 1)) n = mem_bytes (zp_mem z) (pdu + int (i + 1)) n"
    using Suc.prems(3) by (auto simp: mem_simps)
  have "echo_loop q pdu r out (i + 1) n ?z = Some (?z\<lparr>zp_mem :=
      mem_write (out + int (i + 1)) (mem_bytes (zp_mem ?z) (pdu + int (i + 1)) n) (zp_mem ?z)\<rparr>)"
    using Suc.prems by (intro Suc.IH) (auto simp: in_buf_def)
  moreover have "mem_bytes (zp_mem z) (pdu + int i) (Suc n) = ?v # mem_bytes (zp_mem z) (pdu + int (i + 1)) n"
    using mem_bytes_add[of "zp_mem z" "pdu + int i" 1 n] by (simp add: mem_bytes_def algebra_simps)
  moreover have "mem_write (out + int (i + 1)) xs (mem_write ?a [?v] m) = mem_write ?a (?v # xs) m" for xs m
    using mem_write_Cons[of ?a xs ?v m] by (simp add: algebra_simps)
  ultimately show ?case using st rest by simp
qed simp

lemma regs_in_ok:
  assumes req: "req_at q pdu fl z" and len: "length pdu = 6 + 2 * (i + n)" and n: "addr + i + n \<le> length rs"
  shows "\<exists>rs'. regs_in q (zb_data (zp_buf z q)) z addr i n rs = Some rs' \<and> length rs' = length rs \<and>
    (\<forall>a < length rs. rs' ! a = (if addr + i \<le> a \<and> a < addr + i + n
       then be16 (pdu ! (6 + 2 * (a - addr))) (pdu ! (7 + 2 * (a - addr))) else rs ! a))"
  using len n
proof (induction n arbitrary: i rs)
  case 0
  then show ?case by auto
next
  case (Suc n)
  let ?v = "be16 (pdu ! (6 + i * 2)) (pdu ! (6 + i * 2 + 1))"
  have v: "pdu16 q (zb_data (zp_buf z q)) (6 + i * 2) z = Some ?v"
    using Suc.prems by (intro req_pdu16[OF req]) simp
  obtain rs' where rs': "regs_in q (zb_data (zp_buf z q)) z addr (i + 1) n (rs[addr + i := ?v]) = Some rs'"
    "length rs' = length rs"
    "\<forall>a < length rs. rs' ! a = (if addr + (i + 1) \<le> a \<and> a < addr + (i + 1) + n
       then be16 (pdu ! (6 + 2 * (a - addr))) (pdu ! (7 + 2 * (a - addr))) else rs[addr + i := ?v] ! a)"
    using Suc.IH[of "i + 1" "rs[addr + i := ?v]"] Suc.prems by auto
  have "regs_in q (zb_data (zp_buf z q)) z addr i (Suc n) rs = Some rs'"
    using v rs'(1) Suc.prems(2) by (simp add: reg_put_def)
  moreover have "rs' ! a = (if addr + i \<le> a \<and> a < addr + i + Suc n
       then be16 (pdu ! (6 + 2 * (a - addr))) (pdu ! (7 + 2 * (a - addr))) else rs ! a)" if "a < length rs" for a
    using rs'(3) that by (cases "a = addr + i") (auto simp: mult.commute)
  ultimately show ?case using rs'(2) by blast
qed

lemma bit_put_coil:
  assumes "a div 8 < length cs"
  shows "\<exists>cs'. bit_put a v cs = Some cs' \<and> length cs' = length cs \<and> (\<forall>x. coil cs' x = (if x = a then v else coil cs x))"
proof -
  define w where "w = (if v then cs ! (a div 8) OR push_bit (a mod 8) 1
                       else cs ! (a div 8) AND NOT (push_bit (a mod 8) 1))"
  have w: "bit w j \<longleftrightarrow> (if j = a mod 8 then v else bit (cs ! (a div 8)) j)" if "j < 8" for j
    using that by (auto simp: w_def bit_simps)
  have "coil (cs[a div 8 := w]) x = (if x = a then v else coil cs x)" for x
  proof (cases "x div 8 = a div 8")
    case True
    then have "x = a \<longleftrightarrow> x mod 8 = a mod 8" by (metis div_mult_mod_eq)
    then show ?thesis using True assms w[of "x mod 8"] by (simp add: coil_def)
  next
    case False
    then show ?thesis by (auto simp: coil_def)
  qed
  then show ?thesis using assms by (simp add: bit_put_def w_def)
qed

lemma coils_in_ok:
  assumes req: "req_at q pdu fl z" and len: "8 * (length pdu - 6) \<ge> i + n" and n: "unat addr + i + n \<le> 8 * length cs"
    and small: "unat addr + i + n < 65536"
  shows "\<exists>cs'. coils_in q (zb_data (zp_buf z q)) z addr i n cs = Some cs' \<and> length cs' = length cs \<and>
    (\<forall>a. coil cs' a = (if unat addr + i \<le> a \<and> a < unat addr + i + n then coil (drop 6 pdu) (a - unat addr) else coil cs a))"
  using len n small
proof (induction n arbitrary: i cs)
  case 0
  then show ?case by auto
next
  case (Suc n)
  define v where "v = coil (drop 6 pdu) i"
  have lp: "6 + i div 8 < length pdu" using Suc.prems(1) by linarith
  then have b: "zb_byte q (zb_data (zp_buf z q) + 6 + int (i div 8)) z = Some (pdu ! (6 + i div 8))"
    using req_byte[OF req lp] by (simp add: add.assoc)
  have bv: "pdu ! (6 + i div 8) AND 2 ^ (i mod 8) \<noteq> 0 \<longleftrightarrow> v"
    using lp by (simp add: v_def coil_def and_exp_eq_0_iff_not_bit)
  have ua: "unat (addr + of_nat i) = unat addr + i"
    using Suc.prems(3) by (intro unat_add_of_nat) simp
  have "(unat addr + i) div 8 < length cs" using Suc.prems(2) by linarith
  then obtain cs1 where cs1: "bit_put (unat addr + i) v cs = Some cs1" "length cs1 = length cs"
    "\<forall>x. coil cs1 x = (if x = unat addr + i then v else coil cs x)"
    using bit_put_coil by blast
  obtain cs' where cs': "coils_in q (zb_data (zp_buf z q)) z addr (i + 1) n cs1 = Some cs'" "length cs' = length cs1"
    "\<forall>a. coil cs' a = (if unat addr + (i + 1) \<le> a \<and> a < unat addr + (i + 1) + n
       then coil (drop 6 pdu) (a - unat addr) else coil cs1 a)"
    using Suc.IH[of "i + 1" cs1] Suc.prems cs1(2) by auto
  have "coils_in q (zb_data (zp_buf z q)) z addr i (Suc n) cs = Some cs'"
    using b cs1(1) cs'(1) by (simp add: ua bv)
  moreover have "coil cs' a = (if unat addr + i \<le> a \<and> a < unat addr + i + Suc n
      then coil (drop 6 pdu) (a - unat addr) else coil cs a)" for a
    using cs'(3) cs1(3) by (cases "a = unat addr + i") (auto simp: v_def)
  ultimately show ?case using cs'(2) cs1(2) by auto
qed

section \<open>The cases of the handler\<close>

text \<open>Storing the two leading bytes, then the body.\<close>

lemma store_two_then:
  assumes "in_buf (zp_buf z r) out (2 + n)" and "length bs = n"
    and "\<And>z'. zp_buf z' = zp_buf z \<Longrightarrow> f z' = Some (z'\<lparr>zp_mem := mem_write (out + 2) bs (zp_mem z')\<rparr>)"
  shows "do { z \<leftarrow> zb_store r out [x] z; z \<leftarrow> zb_store r (out + 1) [y] z; f z } =
    Some (z\<lparr>zp_mem := mem_write out (x # y # bs) (zp_mem z)\<rparr>)"
proof -
  let ?z = "z\<lparr>zp_mem := mem_write out [x, y] (zp_mem z)\<rparr>"
  have "zb_store r out [x] z = Some (z\<lparr>zp_mem := mem_write out [x] (zp_mem z)\<rparr>)"
    "zb_store r (out + 1) [y] (z\<lparr>zp_mem := mem_write out [x] (zp_mem z)\<rparr>) = Some ?z"
    using assms(1) by (auto simp: zb_store_def in_buf_def mem_write_Cons)
  moreover have "f ?z = Some (?z\<lparr>zp_mem := mem_write (out + 2) bs (zp_mem ?z)\<rparr>)" by (rule assms(3)) simp
  ultimately show ?thesis using mem_write_append[of out "[x, y]" bs "zp_mem z"] by simp
qed

lemma uint_le: "unat x \<le> k \<Longrightarrow> uint x \<le> int k"
  by (metis of_nat_unat of_nat_le_iff)

lemma le_uint: "k \<le> unat x \<Longrightarrow> int k \<le> uint x"
  by (metis of_nat_unat of_nat_le_iff)

lemma tx_in_buf: "tx_buf r n fl z z' \<Longrightarrow> uint n \<le> 1920 \<Longrightarrow> m \<le> unat n \<Longrightarrow> in_buf (zp_buf z' r) (r + 232) m"
proof -
  assume a: "tx_buf r n fl z z'" "uint n \<le> 1920" "m \<le> unat n"
  show ?thesis using a(1,2) le_uint[OF a(3)] by (simp add: tx_buf_def in_buf_def)
qed

lemma unat_byte_count: "k < 256 \<Longrightarrow> unat (of_int (int k) :: u8) = k" "k < 256 \<Longrightarrow> unat (2 + ucast (of_int (int k) :: u8) :: u16) = 2 + k"
  by (simp_all add: unsigned_of_nat unat_word_ariths take_bit_nat_eq_self unsigned_ucast_eq)

lemma read_regs_ok:
  assumes inv: "zpool_inv z (r # fl)" and count: "unat count \<le> 127" and "unat addr + unat count \<le> length rs"
  shows "\<exists>z'. modbus_read_regs f addr count rs s z = Some (Some r, s, z') \<and>
    sent r (f # of_nat (2 * unat count) # reg_bytes (take (unat count) (drop (unat addr) rs))) fl z z'"
proof -
  define bc :: u8 where "bc = of_nat (2 * unat count)"
  have bc': "of_int (uint count * 2) = bc" by (simp add: bc_def)
  have n: "unat (2 + ucast bc :: u16) = 2 + 2 * unat count"
    using unat_byte_count(2)[of "2 * unat count"] count by (simp add: bc_def)
  have "uint (2 + ucast bc :: u16) = int (2 + 2 * unat count)" unfolding n[symmetric] by simp
  then have n': "uint (2 + ucast bc :: u16) \<le> 1920" using uint_le[OF count] by simp
  let ?bs = "reg_bytes (take (unat count) (drop (unat addr) rs))"
  have len: "length ?bs = 2 * unat count" using assms(3) by simp
  show ?thesis
    unfolding modbus_read_regs_def Let_def bc' bc_def[symmetric]
  proof (rule respond_ok[OF inv n'])
    show "length (f # bc # ?bs) = unat (2 + ucast bc :: u16)" using n len by simp
    fix z' assume tx: "tx_buf r (2 + ucast bc) fl z z'"
    have ib: "in_buf (zp_buf z' r) (r + 232) (2 + 2 * unat count)" using tx_in_buf[OF tx n'] n by simp
    show "do { z \<leftarrow> zb_store r (r + 232) [f] z'; z \<leftarrow> zb_store r (r + 232 + 1) [bc] z;
               regs_out r (r + 232) rs (unat addr) 0 (unat count) z } =
      Some (z'\<lparr>zp_mem := mem_write (r + 232) (f # bc # ?bs) (zp_mem z')\<rparr>)"
    proof (rule store_two_then[OF ib len])
      fix y :: zpool assume "zp_buf y = zp_buf z'"
      then have "in_buf (zp_buf y r) (r + 232 + 2 + int 0 * 2) (2 * unat count)" using ib by (auto simp: in_buf_def)
      from regs_out_ok[OF this, of "unat addr" rs] assms(3)
      show "regs_out r (r + 232) rs (unat addr) 0 (unat count) y = Some (y\<lparr>zp_mem := mem_write (r + 232 + 2) ?bs (zp_mem y)\<rparr>)"
        by simp
    qed
  qed
qed

lemma read_bits_ok:
  assumes inv: "zpool_inv z (r # fl)" and count: "unat count \<le> 2040"
    and table: "unat addr + unat count \<le> 8 * length cs" "unat addr + unat count < 65536"
  shows "\<exists>z' bs. modbus_read_bits f addr count cs s z = Some (Some r, s, z') \<and>
    sent r (f # of_nat ((unat count + 7) div 8) # bs) fl z z' \<and> length bs = (unat count + 7) div 8 \<and>
    (\<forall>k < 8 * length bs. coil bs k \<longleftrightarrow> k < unat count \<and> coil cs (unat addr + k))"
proof -
  define m where "m = (unat count + 7) div 8"
  have m: "m < 256" using count unfolding m_def by linarith
  define bc :: u8 where "bc = of_nat m"
  have bc': "of_int ((uint count + 7) div 8) = bc"
  proof -
    have "(uint count + 7) div 8 = int m" by (simp add: m_def zdiv_int)
    then show ?thesis by (simp add: bc_def)
  qed
  have ub: "unat bc = m" "unat (2 + ucast bc :: u16) = 2 + m"
    using unat_byte_count[OF m] by (simp_all add: bc_def)
  have "uint (2 + ucast bc :: u16) = int (2 + m)" unfolding ub(2)[symmetric] by simp
  then have n': "uint (2 + ucast bc :: u16) \<le> 1920" using m by simp
  let ?Q = "\<lambda>bs'. \<exists>bs. bs' = f # bc # bs \<and> length bs = m \<and>
      (\<forall>k < 8 * m. coil bs k \<longleftrightarrow> k < unat count \<and> coil cs (unat addr + k))"
  have "\<exists>z' bs'. modbus_read_bits f addr count cs s z = Some (Some r, s, z') \<and> sent r bs' fl z z' \<and> ?Q bs'"
    unfolding modbus_read_bits_def Let_def bc'
  proof (rule respond_ex[OF inv n'])
    fix z' assume tx: "tx_buf r (2 + ucast bc) fl z z'"
    have ib: "in_buf (zp_buf z' r) (r + 232) (2 + m)" using tx_in_buf[OF tx n'] ub by simp
    let ?z = "z'\<lparr>zp_mem := mem_write (r + 232) [f, bc] (zp_mem z')\<rparr>"
    have st: "zb_store r (r + 232) [f] z' = Some (z'\<lparr>zp_mem := mem_write (r + 232) [f] (zp_mem z')\<rparr>)"
      "zb_store r (r + 232 + 1) [bc] (z'\<lparr>zp_mem := mem_write (r + 232) [f] (zp_mem z')\<rparr>) = Some ?z"
      using ib by (auto simp: zb_store_def in_buf_def mem_write_Cons[of "r + 232", simplified])
    have "in_buf (zp_buf ?z r) (r + 232 + 2 + int 0) m" using ib by (auto simp: in_buf_def)
    from bits_out_ok[OF this table]
    obtain bs where bs: "bits_out r (r + 232) cs addr count 0 m ?z = Some (?z\<lparr>zp_mem := mem_write (r + 232 + 2) bs (zp_mem ?z)\<rparr>)"
      "length bs = m" "\<forall>k < 8 * m. coil bs k \<longleftrightarrow> k < unat count \<and> coil cs (unat addr + k)"
      by auto
    have "mem_write (r + 232 + 2) bs (mem_write (r + 232) [f, bc] (zp_mem z')) = mem_write (r + 232) (f # bc # bs) (zp_mem z')"
      using mem_write_append[of "r + 232" "[f, bc]" bs "zp_mem z'"] by simp
    then have "do { z \<leftarrow> zb_store r (r + 232) [f] z'; z \<leftarrow> zb_store r (r + 232 + 1) [bc] z;
          bits_out r (r + 232) cs addr count 0 (unat bc) z } =
      Some (z'\<lparr>zp_mem := mem_write (r + 232) (f # bc # bs) (zp_mem z')\<rparr>)"
      using st bs(1) ub(1) by simp
    then show "\<exists>bs'. length bs' = unat (2 + ucast bc :: u16) \<and> ?Q bs' \<and>
      do { z \<leftarrow> zb_store r (r + 232) [f] z'; z \<leftarrow> zb_store r (r + 232 + 1) [bc] z;
          bits_out r (r + 232) cs addr count 0 (unat bc) z } =
      Some (z'\<lparr>zp_mem := mem_write (r + 232) bs' (zp_mem z')\<rparr>)"
      using bs(2,3) ub(2) by (intro exI[of _ "f # bc # bs"]) simp
  qed
  then show ?thesis unfolding m_def[symmetric] bc_def[symmetric] by blast
qed

text \<open>Every request starts with the function code and two 16-bit fields.\<close>

definition req_pdu :: "u8 \<Rightarrow> u16 \<Rightarrow> u16 \<Rightarrow> u8 list \<Rightarrow> u8 list" where
  "req_pdu f addr v rest = f # hi8 addr # lo8 addr # hi8 v # lo8 v # rest"

lemma req_fields:
  assumes "req_at q (req_pdu f addr v rest) fl z"
  shows "pdu16 q (zb_data (zp_buf z q)) 1 z = Some addr" "pdu16 q (zb_data (zp_buf z q)) 3 z = Some v"
  using req_pdu16[OF assms, of 1] req_pdu16[OF assms, of 3] by (simp_all add: req_pdu_def)

lemma echo_req:
  assumes req: "req_at q (req_pdu f addr v rest) (r # fl) z" and inv: "zpool_inv z (r # fl)"
    and y: "zp_buf y = zp_buf z'" "\<And>x. x \<notin> {r + 104 ..< r + 2152} \<Longrightarrow> zp_mem y x = zp_mem z x"
    and tx: "tx_buf r 5 fl z z'" and i: "i + n \<le> 5"
  shows "echo_loop q (zb_data (zp_buf z q)) r (r + 232) i n y =
    Some (y\<lparr>zp_mem := mem_write (r + 232 + int i) (take n (drop i (req_pdu f addr v rest))) (zp_mem y)\<rparr>)"
proof -
  let ?p = "zb_data (zp_buf z q)" and ?l = "req_pdu f addr v rest"
  have l: "5 \<le> length ?l" by (simp add: req_pdu_def)
  note ap = req_apart[OF req inv]
  have qb: "zp_buf y q = zp_buf z q" using req_at_tx(3)[OF req tx] y(1) by simp
  have "mem_bytes (zp_mem y) (?p + int i) n = mem_bytes (zp_mem z) (?p + int i) n"
    using ap l i by (intro mem_bytes_eqI y(2)) auto
  also have "\<dots> = take n (drop i (mem_bytes (zp_mem z) ?p (length ?l)))"
    using l i by (intro nth_equalityI) (auto simp: add.assoc)
  also have "mem_bytes (zp_mem z) ?p (length ?l) = ?l" using req by (simp add: req_at_def)
  finally have mb: "mem_bytes (zp_mem y) (?p + int i) n = take n (drop i ?l)" .
  show ?thesis
    unfolding mb[symmetric]
  proof (rule echo_loop_ok)
    show "in_buf (zp_buf y r) (r + 232 + int i) n" using tx y(1) i by (simp add: tx_buf_def in_buf_def)
    show "in_buf (zp_buf y q) (?p + int i) n"
      using req l i unfolding qb by (auto simp: req_at_def in_buf_def)
    show "?p + int (i + n) \<le> r + 232 + int i \<or> r + 232 + int (i + n) \<le> ?p + int i"
      using ap l i by auto
  qed
qed

lemma respond_echo:
  assumes req: "req_at q (req_pdu f addr v rest) (r # fl) z" and inv: "zpool_inv z (r # fl)"
  shows "\<exists>z'. modbus_respond 5 (\<lambda>resp out z'. echo_loop q (zb_data (zp_buf z q)) resp out 0 5 z') s z = Some (Some r, s, z') \<and>
    sent r (req_pdu f addr v []) fl z z'"
proof (rule respond_ok[OF inv])
  fix z' assume tx: "tx_buf r 5 fl z z'"
  have "take 5 (req_pdu f addr v rest) = req_pdu f addr v []" by (simp add: req_pdu_def)
  then show "echo_loop q (zb_data (zp_buf z q)) r (r + 232) 0 5 z' =
      Some (z'\<lparr>zp_mem := mem_write (r + 232) (req_pdu f addr v []) (zp_mem z')\<rparr>)"
    using echo_req[OF req inv refl _ tx, of 0 5] tx by (simp add: tx_buf_def)
qed (simp_all add: req_pdu_def)

lemma respond_ack:
  assumes req: "req_at q (req_pdu f addr v rest) (r # fl) z" and inv: "zpool_inv z (r # fl)"
  shows "\<exists>z'. modbus_respond 5 (modbus_ack q (zb_data (zp_buf z q)) f) s z = Some (Some r, s, z') \<and>
    sent r (req_pdu f addr v []) fl z z'"
proof (rule respond_ok[OF inv])
  fix z' assume tx: "tx_buf r 5 fl z z'"
  let ?y = "z'\<lparr>zp_mem := mem_write (r + 232) [f] (zp_mem z')\<rparr>"
  have st: "zb_store r (r + 232) [f] z' = Some ?y" using tx_store[OF tx, of "r + 232" "[f]"] by simp
  have "\<And>x. x \<notin> {r + 104 ..< r + 2152} \<Longrightarrow> zp_mem ?y x = zp_mem z x"
    using tx by (auto simp: tx_buf_def mem_write_def)
  from echo_req[OF req inv _ this tx, of 1 4]
  have "echo_loop q (zb_data (zp_buf z q)) r (r + 232) 1 4 ?y =
      Some (?y\<lparr>zp_mem := mem_write (r + 232 + 1) [hi8 addr, lo8 addr, hi8 v, lo8 v] (zp_mem ?y)\<rparr>)"
    by (simp add: req_pdu_def)
  then show "modbus_ack q (zb_data (zp_buf z q)) f r (r + 232) z' =
      Some (z'\<lparr>zp_mem := mem_write (r + 232) (req_pdu f addr v []) (zp_mem z')\<rparr>)"
    using st mem_write_Cons[of "r + 232" "[hi8 addr, lo8 addr, hi8 v, lo8 v]" f "zp_mem z'"]
    by (simp add: modbus_ack_def req_pdu_def)
qed (simp_all add: req_pdu_def)

lemma exception_ok:
  assumes inv: "zpool_inv z (r # fl)"
  shows "\<exists>z'. modbus_exception f ex s z = Some (Some r, s\<lparr>ms_exceptions := ms_exceptions s + 1\<rparr>, z') \<and>
    sent r [f OR 0x80, ex] fl z z'"
proof -
  obtain z1 z2 where z: "zbuf_alloc_tx 2 z = (Some r, z1)" "zb_op r (zbuf_put 2) z1 = (Some (r + 232), z2)"
    "tx_buf r 2 fl z z2"
    using tx_alloc_put[OF inv, of 2] by auto
  have "do { z \<leftarrow> zb_store r (r + 232) [f OR 0x80] z2; z \<leftarrow> zb_store r (r + 232 + 1) [ex] z; Some z } =
      Some (z2\<lparr>zp_mem := mem_write (r + 232) [f OR 0x80, ex] (zp_mem z2)\<rparr>)"
  proof (rule store_two_then)
    show "in_buf (zp_buf z2 r) (r + 232) (2 + 0)" using tx_in_buf[OF z(3), of 2] by simp
  qed simp_all
  moreover have "sent r [f OR 0x80, ex] fl z (z2\<lparr>zp_mem := mem_write (r + 232) [f OR 0x80, ex] (zp_mem z2)\<rparr>)"
    by (rule tx_sent[OF z(3) inv]) simp_all
  ultimately show ?thesis using z(1,2)
    by (auto simp: modbus_exception_def modbus_build_exception_def split: bind_splits)
qed

section \<open>Whole requests\<close>

lemma ms_locked_simps [simp]:
  "ms_mem (ms_locked s) = ms_mem s" "md_coils (ms_data (ms_locked s)) = md_coils (ms_data s)"
  "md_coils_count (ms_data (ms_locked s)) = md_coils_count (ms_data s)"
  "md_discrete_inputs (ms_data (ms_locked s)) = md_discrete_inputs (ms_data s)"
  "md_discrete_inputs_count (ms_data (ms_locked s)) = md_discrete_inputs_count (ms_data s)"
  "md_holding_registers (ms_data (ms_locked s)) = md_holding_registers (ms_data s)"
  "md_holding_registers_count (ms_data (ms_locked s)) = md_holding_registers_count (ms_data s)"
  "md_input_registers (ms_data (ms_locked s)) = md_input_registers (ms_data s)"
  "md_input_registers_count (ms_data (ms_locked s)) = md_input_registers_count (ms_data s)"
  "md_on_read_coils (ms_data (ms_locked s)) = md_on_read_coils (ms_data s)"
  "md_on_write_coils (ms_data (ms_locked s)) = md_on_write_coils (ms_data s)"
  "md_on_read_holding (ms_data (ms_locked s)) = md_on_read_holding (ms_data s)"
  "md_on_write_holding (ms_data (ms_locked s)) = md_on_write_holding (ms_data s)"
  "ms_call cb a c (ms_locked s) = ms_locked (ms_call cb a c s)"
  "ms_set_bytes p cs (ms_locked s) = ms_locked (ms_set_bytes p cs s)"
  "ms_set_words p rs (ms_locked s) = ms_locked (ms_set_words p rs s)"
  "(ms_locked s)\<lparr>ms_exceptions := ms_exceptions (ms_locked s) + 1\<rparr> = ms_locked (s\<lparr>ms_exceptions := ms_exceptions s + 1\<rparr>)"
  by (simp_all add: ms_locked_def ms_call_def ms_set_bytes_def ms_set_words_def split: option.split)

lemma ms_request_simps [simp]:
  "ms_mem (ms_request s) = ms_mem s" "ms_data (ms_request s) = ms_data s" "ms_free (ms_request s) = ms_free s"
  "ms_mem (ms_reply s) = ms_mem s" "ms_data (ms_reply s) = ms_data s" "ms_free (ms_reply s) = ms_free s"
  by (simp_all add: ms_request_def ms_reply_def ms_free_def)

lemma ms_table_simps [simp]:
  "ms_data (ms_call cb a c s) = ms_data s" "ms_data (ms_set_bytes p cs s) = ms_data s"
  "ms_data (ms_set_words p rs s) = ms_data s" "ms_free (ms_call cb a c s) = ms_free s"
  "ms_free (ms_set_bytes p cs s) = ms_free s" "ms_free (ms_set_words p rs s) = ms_free s"
  "ms_free (s\<lparr>ms_exceptions := e\<rparr>) = ms_free s"
  "mm_bytes (ms_mem (ms_set_bytes p cs s)) p = cs" "mm_words (ms_mem (ms_set_words p rs s)) p = rs"
  "ms_call None a c s = s"
  by (simp_all add: ms_call_def ms_set_bytes_def ms_set_words_def ms_free_def split: option.split)

text \<open>A request of the general form, answered by one of the cases.\<close>

lemma process_req:
  assumes "req_at q (req_pdu f addr v rest) fl z" and "ms_free s" and "ms_free s'"
    and "modbus_dispatch q (zb_data (zp_buf z q)) f (ms_locked (ms_request s)) z = Some (Some r, ms_locked s', z')"
  shows "modbus_process_request q s z = Some (Some r, ms_reply s', z')"
  using process_ok[OF assms(1)[unfolded req_pdu_def] assms(2,3)] assms(4) by simp

lemma modbus_dispatch_simps:
  "modbus_dispatch q p MODBUS_FC_READ_COILS s z = fc_read_coils q p MODBUS_FC_READ_COILS s z"
  "modbus_dispatch q p MODBUS_FC_READ_DISCRETE_INPUTS s z = fc_read_discrete_inputs q p MODBUS_FC_READ_DISCRETE_INPUTS s z"
  "modbus_dispatch q p MODBUS_FC_READ_HOLDING_REGISTERS s z = fc_read_holding_registers q p MODBUS_FC_READ_HOLDING_REGISTERS s z"
  "modbus_dispatch q p MODBUS_FC_READ_INPUT_REGISTERS s z = fc_read_input_registers q p MODBUS_FC_READ_INPUT_REGISTERS s z"
  "modbus_dispatch q p MODBUS_FC_WRITE_SINGLE_COIL s z = fc_write_single_coil q p MODBUS_FC_WRITE_SINGLE_COIL s z"
  "modbus_dispatch q p MODBUS_FC_WRITE_SINGLE_REGISTER s z = fc_write_single_register q p MODBUS_FC_WRITE_SINGLE_REGISTER s z"
  "modbus_dispatch q p MODBUS_FC_WRITE_MULTIPLE_COILS s z = fc_write_multiple_coils q p MODBUS_FC_WRITE_MULTIPLE_COILS s z"
  "modbus_dispatch q p MODBUS_FC_WRITE_MULTIPLE_REGISTERS s z = fc_write_multiple_registers q p MODBUS_FC_WRITE_MULTIPLE_REGISTERS s z"
  by (simp_all add: modbus_dispatch_def modbus_fc_defs)

lemma process_read_regs:
  assumes req: "req_at q (req_pdu f addr count rest) (r # fl) z" and inv: "zpool_inv z (r # fl)" and free: "ms_free s"
    and count: "unat count \<le> 127"
    and f: "f = MODBUS_FC_READ_HOLDING_REGISTERS \<and> s1 = ms_call (md_on_read_holding (ms_data s)) addr count (ms_request s) \<and>
        rs = mm_words (ms_mem s1) (md_holding_registers (ms_data s)) \<and> n = md_holding_registers_count (ms_data s) \<or>
      f = MODBUS_FC_READ_INPUT_REGISTERS \<and> s1 = ms_request s \<and>
        rs = mm_words (ms_mem s) (md_input_registers (ms_data s)) \<and> n = md_input_registers_count (ms_data s)"
    and range: "unat addr + unat count \<le> unat n" "unat n \<le> length rs"
  shows "\<exists>z'. modbus_process_request q s z = Some (Some r, ms_reply s1, z') \<and>
    sent r (f # of_nat (2 * unat count) # reg_bytes (take (unat count) (drop (unat addr) rs))) fl z z'"
proof -
  have free1: "ms_free s1" using f free by auto
  have len: "unat addr + unat count \<le> length rs" using range by simp
  from read_regs_ok[OF inv count this, of f "ms_locked s1"]
  obtain z' where z': "modbus_read_regs f addr count rs (ms_locked s1) z = Some (Some r, ms_locked s1, z')"
    "sent r (f # of_nat (2 * unat count) # reg_bytes (take (unat count) (drop (unat addr) rs))) fl z z'"
    by blast
  have "modbus_dispatch q (zb_data (zp_buf z q)) f (ms_locked (ms_request s)) z = Some (Some r, ms_locked s1, z')"
    using f range(1) z'(1) req_fields[OF req]
    by (auto simp: modbus_dispatch_def modbus_fc_defs fc_read_holding_registers_def fc_read_input_registers_def Let_def)
  from process_req[OF req free free1 this] show ?thesis using z'(2) by blast
qed

lemma process_read_bits:
  assumes req: "req_at q (req_pdu f addr count rest) (r # fl) z" and inv: "zpool_inv z (r # fl)" and free: "ms_free s"
    and count: "unat count \<le> 2040"
    and f: "f = MODBUS_FC_READ_COILS \<and> s1 = ms_call (md_on_read_coils (ms_data s)) addr count (ms_request s) \<and>
        cs = mm_bytes (ms_mem s1) (md_coils (ms_data s)) \<and> n = md_coils_count (ms_data s) \<or>
      f = MODBUS_FC_READ_DISCRETE_INPUTS \<and> s1 = ms_request s \<and>
        cs = mm_bytes (ms_mem s) (md_discrete_inputs (ms_data s)) \<and> n = md_discrete_inputs_count (ms_data s)"
    and range: "unat addr + unat count \<le> unat n" "unat n \<le> 8 * length cs"
  shows "\<exists>z' bs. modbus_process_request q s z = Some (Some r, ms_reply s1, z') \<and>
    sent r (f # of_nat ((unat count + 7) div 8) # bs) fl z z' \<and> length bs = (unat count + 7) div 8 \<and>
    (\<forall>k < 8 * length bs. coil bs k \<longleftrightarrow> k < unat count \<and> coil cs (unat addr + k))"
proof -
  have free1: "ms_free s1" using f free by auto
  have "unat n < 2 ^ 16" using unsigned_less[of n] by simp
  then have len: "unat addr + unat count \<le> 8 * length cs" "unat addr + unat count < 65536" using range by simp_all
  obtain z' bs where z': "modbus_read_bits f addr count cs (ms_locked s1) z = Some (Some r, ms_locked s1, z')"
    "sent r (f # of_nat ((unat count + 7) div 8) # bs) fl z z'" "length bs = (unat count + 7) div 8"
    "\<forall>k < 8 * length bs. coil bs k \<longleftrightarrow> k < unat count \<and> coil cs (unat addr + k)"
    using read_bits_ok[OF inv count len, of f "ms_locked s1"] by blast
  have "modbus_dispatch q (zb_data (zp_buf z q)) f (ms_locked (ms_request s)) z = Some (Some r, ms_locked s1, z')"
    using f range(1) z'(1) req_fields[OF req]
    by (auto simp: modbus_dispatch_def modbus_fc_defs fc_read_coils_def fc_read_discrete_inputs_def Let_def)
  from process_req[OF req free free1 this] show ?thesis using z'(2-4) by blast
qed

lemma reg_bytes_nth:
  "i < length vs \<Longrightarrow> be16 (reg_bytes vs ! (2 * i)) (reg_bytes vs ! (2 * i + 1)) = vs ! i"
proof (induction vs arbitrary: i)
  case (Cons v vs)
  then show ?case by (cases i) auto
qed simp

lemma regs_in_list:
  assumes req: "req_at q (req_pdu f addr count (bc # reg_bytes vs)) fl z" and n: "a + length vs \<le> length rs"
  shows "regs_in q (zb_data (zp_buf z q)) z a 0 (length vs) rs = Some (take a rs @ vs @ drop (a + length vs) rs)"
proof -
  let ?pdu = "req_pdu f addr count (bc # reg_bytes vs)"
  have l: "length ?pdu = 6 + 2 * (0 + length vs)" by (simp add: req_pdu_def)
  obtain rs' where rs': "regs_in q (zb_data (zp_buf z q)) z a 0 (length vs) rs = Some rs'" "length rs' = length rs"
    "\<forall>x < length rs. rs' ! x = (if a + 0 \<le> x \<and> x < a + 0 + length vs
       then be16 (?pdu ! (6 + 2 * (x - a))) (?pdu ! (7 + 2 * (x - a))) else rs ! x)"
    using regs_in_ok[OF req l, of a rs] n by auto
  have p: "?pdu ! (6 + j) = reg_bytes vs ! j" "?pdu ! (7 + j) = reg_bytes vs ! (j + 1)" for j
    by (simp_all add: req_pdu_def eval_nat_numeral)
  have "rs' = take a rs @ vs @ drop (a + length vs) rs"
  proof (rule nth_equalityI)
    show "length rs' = length (take a rs @ vs @ drop (a + length vs) rs)" using rs'(2) n by simp
    fix x assume "x < length rs'"
    then have x: "x < length rs" using rs'(2) by simp
    show "rs' ! x = (take a rs @ vs @ drop (a + length vs) rs) ! x"
    proof (cases "a \<le> x \<and> x < a + length vs")
      case True
      then have l: "x - a < length vs" by linarith
      then have "rs' ! x = vs ! (x - a)" using True rs'(3) x reg_bytes_nth[of "x - a" vs] by (simp add: p)
      then show ?thesis using True n l by (simp add: nth_append)
    next
      case False
      then show ?thesis using rs'(3) x n by (auto simp: nth_append)
    qed
  qed
  then show ?thesis using rs'(1) by simp
qed

lemma process_write_regs:
  assumes req: "req_at q (req_pdu MODBUS_FC_WRITE_MULTIPLE_REGISTERS addr count (bc # reg_bytes vs)) (r # fl) z"
    and inv: "zpool_inv z (r # fl)" and free: "ms_free s" and count: "unat count = length vs"
    and p: "p = md_holding_registers (ms_data s)" "rs = mm_words (ms_mem s) p"
    and range: "unat addr + length vs \<le> unat (md_holding_registers_count (ms_data s))"
      "unat (md_holding_registers_count (ms_data s)) \<le> length rs"
    and s1: "s1 = ms_call (md_on_write_holding (ms_data s)) addr count
      (ms_set_words p (take (unat addr) rs @ vs @ drop (unat addr + length vs) rs) (ms_request s))"
  shows "\<exists>z'. modbus_process_request q s z = Some (Some r, ms_reply s1, z') \<and>
    sent r (req_pdu MODBUS_FC_WRITE_MULTIPLE_REGISTERS addr count []) fl z z'"
proof -
  have free1: "ms_free s1" using free s1 by simp
  obtain z' where z': "modbus_respond 5 (modbus_ack q (zb_data (zp_buf z q)) MODBUS_FC_WRITE_MULTIPLE_REGISTERS) (ms_locked s1) z =
      Some (Some r, ms_locked s1, z')" "sent r (req_pdu MODBUS_FC_WRITE_MULTIPLE_REGISTERS addr count []) fl z z'"
    using respond_ack[OF req inv] by blast
  have "regs_in q (zb_data (zp_buf z q)) z (unat addr) 0 (unat count) rs = Some (take (unat addr) rs @ vs @ drop (unat addr + length vs) rs)"
    using regs_in_list[OF req, of "unat addr" rs] range by (simp add: count)
  then have "modbus_dispatch q (zb_data (zp_buf z q)) MODBUS_FC_WRITE_MULTIPLE_REGISTERS (ms_locked (ms_request s)) z = Some (Some r, ms_locked s1, z')"
    using range(1) z'(1) req_fields[OF req] p s1 count
    by (simp add: modbus_dispatch_simps fc_write_multiple_registers_def Let_def)
  from process_req[OF req free free1 this] show ?thesis using z'(2) by blast
qed

lemma process_write_coils:
  assumes req: "req_at q (req_pdu MODBUS_FC_WRITE_MULTIPLE_COILS addr count (bc # bits)) (r # fl) z"
    and inv: "zpool_inv z (r # fl)" and free: "ms_free s" and bits: "unat count \<le> 8 * length bits"
    and p: "p = md_coils (ms_data s)" "cs = mm_bytes (ms_mem s) p"
    and range: "unat addr + unat count \<le> unat (md_coils_count (ms_data s))"
      "unat (md_coils_count (ms_data s)) \<le> 8 * length cs"
  shows "\<exists>z' cs'. modbus_process_request q s z = Some (Some r, ms_reply (ms_call (md_on_write_coils (ms_data s)) addr count
        (ms_set_bytes p cs' (ms_request s))), z') \<and>
    sent r (req_pdu MODBUS_FC_WRITE_MULTIPLE_COILS addr count []) fl z z' \<and> length cs' = length cs \<and>
    (\<forall>a. coil cs' a = (if unat addr \<le> a \<and> a < unat addr + unat count then coil bits (a - unat addr) else coil cs a))"
proof -
  have "unat (md_coils_count (ms_data s)) < 2 ^ 16" using unsigned_less[of "md_coils_count (ms_data s)"] by simp
  then have small: "unat addr + 0 + unat count < 65536" using range(1) by simp
  let ?pdu = "req_pdu MODBUS_FC_WRITE_MULTIPLE_COILS addr count (bc # bits)"
  have d: "drop 6 ?pdu = bits" "0 + unat count \<le> 8 * (length ?pdu - 6)"
    using bits by (simp_all add: req_pdu_def eval_nat_numeral)
  obtain cs' where cs': "coils_in q (zb_data (zp_buf z q)) z addr 0 (unat count) cs = Some cs'" "length cs' = length cs"
    "\<forall>a. coil cs' a = (if unat addr \<le> a \<and> a < unat addr + unat count then coil bits (a - unat addr) else coil cs a)"
    using coils_in_ok[OF req d(2) _ small, of cs] range unfolding d(1) by auto
  define s1 where "s1 = ms_call (md_on_write_coils (ms_data s)) addr count (ms_set_bytes p cs' (ms_request s))"
  have free1: "ms_free s1" using free by (simp add: s1_def)
  obtain z' where z': "modbus_respond 5 (modbus_ack q (zb_data (zp_buf z q)) MODBUS_FC_WRITE_MULTIPLE_COILS) (ms_locked s1) z =
      Some (Some r, ms_locked s1, z')" "sent r (req_pdu MODBUS_FC_WRITE_MULTIPLE_COILS addr count []) fl z z'"
    using respond_ack[OF req inv] by blast
  have "modbus_dispatch q (zb_data (zp_buf z q)) MODBUS_FC_WRITE_MULTIPLE_COILS (ms_locked (ms_request s)) z = Some (Some r, ms_locked s1, z')"
    using range(1) z'(1) req_fields[OF req] p cs'(1)
    by (simp add: modbus_dispatch_simps fc_write_multiple_coils_def Let_def s1_def)
  from process_req[OF req free free1 this] show ?thesis
    using z'(2) cs'(2,3) unfolding s1_def by blast
qed

text \<open>The requests that are answered by an exception, and the exception code.\<close>

definition modbus_refusal :: "modbus_data \<Rightarrow> u8 \<Rightarrow> u16 \<Rightarrow> u16 \<Rightarrow> u8 option" where
  "modbus_refusal d f addr v =
     (if f = 1 \<or> f = 15 then
        if unat (md_coils_count d) < unat addr + unat v then Some 2 else None
      else if f = 2 then
        if unat (md_discrete_inputs_count d) < unat addr + unat v then Some 2 else None
      else if f = 3 \<or> f = 16 then
        if unat (md_holding_registers_count d) < unat addr + unat v then Some 2 else None
      else if f = 4 then
        if unat (md_input_registers_count d) < unat addr + unat v then Some 2 else None
      else if f = 5 then
        if unat (md_coils_count d) \<le> unat addr then Some 2
        else if v \<noteq> 0xFF00 \<and> v \<noteq> 0 then Some 3 else None
      else if f = 6 then
        if unat (md_holding_registers_count d) \<le> unat addr then Some 2 else None
      else Some 1)"

lemma dispatch_refuses:
  assumes "pdu16 q p 1 z = Some addr" and "pdu16 q p 3 z = Some v" and "modbus_refusal (ms_data s) f addr v = Some ex"
  shows "modbus_dispatch q p f (ms_locked s) z = modbus_exception f ex (ms_locked s) z"
proof -
  note defs = fc_read_coils_def fc_read_discrete_inputs_def fc_read_holding_registers_def
    fc_read_input_registers_def fc_write_single_coil_def fc_write_single_register_def
    fc_write_multiple_coils_def fc_write_multiple_registers_def
  note req = assms(1,2)
  consider "f = 1" | "f = 2" | "f = 3" | "f = 4" | "f = 5" | "f = 6" | "f = 15" | "f = 16"
    | "f \<notin> {1, 2, 3, 4, 5, 6, 15, 16}" by auto
  then show ?thesis
  proof cases
    case 9
    then show ?thesis using assms(3)
      by (auto simp: modbus_dispatch_def modbus_fc_defs modbus_refusal_def modbus_ex_defs)
  qed (use req assms(3) in \<open>auto simp: modbus_dispatch_def modbus_fc_defs modbus_refusal_def modbus_ex_defs
        defs word_le_nat_alt Let_def split: if_splits\<close>)
qed

lemma process_refuses:
  assumes req: "req_at q (req_pdu f addr v rest) (r # fl) z" and inv: "zpool_inv z (r # fl)" and free: "ms_free s"
    and ex: "modbus_refusal (ms_data s) f addr v = Some ex"
  shows "\<exists>z'. modbus_process_request q s z =
      Some (Some r, ms_reply ((ms_request s)\<lparr>ms_exceptions := ms_exceptions (ms_request s) + 1\<rparr>), z') \<and>
    sent r [f OR 0x80, ex] fl z z'"
proof -
  let ?s = "(ms_request s)\<lparr>ms_exceptions := ms_exceptions (ms_request s) + 1\<rparr>"
  have "modbus_dispatch q (zb_data (zp_buf z q)) f (ms_locked (ms_request s)) z =
      modbus_exception f ex (ms_locked (ms_request s)) z"
    by (rule dispatch_refuses[OF req_fields[OF req]]) (simp add: ex)
  moreover obtain z' where "modbus_exception f ex (ms_locked (ms_request s)) z = Some (Some r, ms_locked ?s, z')"
    "sent r [f OR 0x80, ex] fl z z'"
    using exception_ok[OF inv, of f ex "ms_locked (ms_request s)"] unfolding ms_locked_simps by blast
  ultimately show ?thesis
    using process_req[OF req free, of ?s r z'] free by auto
qed

text \<open>Beyond 127 registers the byte count, an 8-bit value, no longer holds twice the count.\<close>

lemma read_regs_over:
  assumes inv: "zpool_inv z (r # fl)" and len: "unat addr + unat count \<le> length rs"
  shows "case modbus_read_regs f addr count rs s z of
      None \<Rightarrow> 960 \<le> unat count
    | Some (p, s', z') \<Rightarrow> unat count < 960 \<and> p = Some r \<and> s' = s \<and>
        length (zb_payload r z') = 2 + 2 * unat count mod 256"
proof -
  define bc :: u8 where "bc = of_int (uint count * 2)"
  have "unat bc = 2 * unat count mod 256"
  proof -
    define k where "k = 2 * unat count"
    have "uint count * 2 = int k" by (simp add: k_def)
    then have "bc = of_nat k" by (simp add: bc_def)
    then show ?thesis by (simp add: unsigned_of_nat take_bit_eq_mod flip: k_def)
  qed
  then have n: "unat (2 + ucast bc :: u16) = 2 + 2 * unat count mod 256"
    using unsigned_less[of bc] by (simp add: unat_word_ariths unsigned_ucast_eq take_bit_nat_eq_self)
  have "unat (2 + ucast bc :: u16) \<le> 1920" unfolding n using mod_less_divisor[of 256 "2 * unat count"] by linarith
  from uint_le[OF this] have n': "uint (2 + ucast bc :: u16) \<le> 1920" by simp
  obtain z1 z2 where z: "zbuf_alloc_tx (2 + ucast bc) z = (Some r, z1)"
    "zb_op r (zbuf_put (2 + ucast bc)) z1 = (Some (r + 232), z2)" "tx_buf r (2 + ucast bc) fl z z2"
    using tx_alloc_put[OF inv n'] by blast
  let ?z = "z2\<lparr>zp_mem := mem_write (r + 232) [f, bc] (zp_mem z2)\<rparr>"
  have st: "zb_store r (r + 232) [f] z2 = Some (z2\<lparr>zp_mem := mem_write (r + 232) [f] (zp_mem z2)\<rparr>)"
    "zb_store r (r + 232 + 1) [bc] (z2\<lparr>zp_mem := mem_write (r + 232) [f] (zp_mem z2)\<rparr>) = Some ?z"
    using z(3) mem_write_Cons[of "r + 232" "[bc]" f "zp_mem z2"] by (auto simp: zb_store_def in_buf_def tx_buf_def)
  have run: "modbus_read_regs f addr count rs s z =
      regs_out r (r + 232) rs (unat addr) 0 (unat count) ?z \<bind> (\<lambda>z'. Some (Some r, s, z'))"
    unfolding modbus_read_regs_def modbus_respond_def Let_def bc_def[symmetric] using z(1,2) st by simp
  have ends: "zb_end (zp_buf ?z r) = r + 2152" "zb_head (zp_buf ?z r) = r + 104" using z(3) by (simp_all add: tx_buf_def)
  show ?thesis
  proof (cases "960 \<le> unat count")
    case True
    then have "regs_out r (r + 232) rs (unat addr) 0 (unat count) ?z = None"
      by (intro regs_out_over) (use ends le_uint[OF True] in simp_all)
    then show ?thesis using run True by simp
  next
    case False
    then have "unat count \<le> 959" by simp
    from uint_le[OF this] have "in_buf (zp_buf ?z r) (r + 232 + 2 + int 0 * 2) (2 * unat count)"
      using ends by (simp add: in_buf_def)
    from regs_out_ok[OF this, of "unat addr" rs] len
    have "modbus_read_regs f addr count rs s z = Some (Some r, s, ?z\<lparr>zp_mem := mem_write (r + 232 + 2)
        (reg_bytes (take (unat count) (drop (unat addr) rs))) (zp_mem ?z)\<rparr>)" (is "_ = Some (_, _, ?z')")
      using run by simp
    moreover have "length (zb_payload r ?z') = 2 + 2 * unat count mod 256"
      using z(3) n by (simp add: zb_payload_def tx_buf_def)
    ultimately show ?thesis using False by simp
  qed
qed

section \<open>Properties\<close>

text \<open>
  For the witnesses: the initialised pool with a request in its first buffer, and the server as
  \<open>kernel/main.c\<close> sets it up (256 coil bytes shared with the discrete inputs, 256 registers each).
\<close>

definition req_buf :: addr where "req_buf = 1023 * zbuf_slot"
definition rep_buf :: addr where "rep_buf = 1022 * zbuf_slot"
definition req_free :: "addr list" where "req_free = rev (map (\<lambda>i. int i * zbuf_slot) [0..<1022])"

definition req_pool :: "u8 list \<Rightarrow> zpool" where
  "req_pool pdu =
     (let n = of_nat (length pdu);
          z = snd (zb_op req_buf (zbuf_put n) (snd (zbuf_alloc_tx n zpool0)))
      in z\<lparr>zp_mem := mem_write (req_buf + 232) pdu (zp_mem z)\<rparr>)"

lemma req_pool_ok:
  assumes "length pdu \<le> 1920"
  shows "zpool_inv (req_pool pdu) (rep_buf # req_free)" "req_at req_buf pdu (rep_buf # req_free) (req_pool pdu)"
proof -
  define n :: u16 where "n = of_nat (length pdu)"
  have "[0..<1023] = [0..<1022] @ [1022]" using upt_Suc_append[of 0 1022] by simp
  then have sl: "rev (zbuf_slots 0) = req_buf # rep_buf # req_free"
    using rev_zbuf_slots_Cons[of 0] by (simp add: req_buf_def rep_buf_def req_free_def)
  have un: "unat n = length pdu" using assms by (simp add: n_def unsigned_of_nat take_bit_nat_eq_self)
  from uint_le[of n 1920] have n': "uint n \<le> 1920" using assms un by simp
  from tx_alloc_put[OF zpool0_inv[unfolded sl] n'] obtain z1 z2 where
    z: "zbuf_alloc_tx n zpool0 = (Some req_buf, z1)" "zb_op req_buf (zbuf_put n) z1 = (Some (req_buf + 232), z2)"
    "tx_buf req_buf n (rep_buf # req_free) zpool0 z2" by blast
  have pool: "req_pool pdu = z2\<lparr>zp_mem := mem_write (req_buf + 232) pdu (zp_mem z2)\<rparr>"
    using z(1,2) by (simp add: req_pool_def n_def)
  show "zpool_inv (req_pool pdu) (rep_buf # req_free)" using z(3) by (simp add: pool tx_buf_def)
  have "req_buf \<in> set (rev (zbuf_slots 0))" unfolding sl by simp
  then have "req_buf \<in> set (zbuf_slots 0)" by simp
  moreover have "req_buf \<notin> set (rep_buf # req_free)"
    using zpool0_inv unfolding zpool_inv_def sl by simp
  ultimately show "req_at req_buf pdu (rep_buf # req_free) (req_pool pdu)"
    using z(3) assms mem_bytes_write[of "req_buf + 232" pdu "zp_mem z2"]
    by (simp add: pool req_at_def tx_buf_def in_buf_def)
qed

definition modbus_main_data :: modbus_data where
  "modbus_main_data = \<lparr>md_coils = 1000, md_coils_count = 2048, md_discrete_inputs = 1000,
     md_discrete_inputs_count = 2048, md_holding_registers = 2000, md_holding_registers_count = 256,
     md_input_registers = 3000, md_input_registers_count = 256, md_on_read_coils = None,
     md_on_write_coils = None, md_on_read_holding = None, md_on_write_holding = None,
     md_lock = SPINLOCK_INIT\<rparr>"

definition modbus_main :: modbus_server where
  "modbus_main = snd (modbus_server_init 1 modbus_main_data
     \<lparr>mm_bytes = (\<lambda>_. replicate 256 0), mm_words = (\<lambda>_. replicate 256 7)\<rparr>)"

lemma modbus_main_simps [simp]:
  "ms_data modbus_main = modbus_main_data" "ms_free modbus_main"
  "mm_bytes (ms_mem modbus_main) a = replicate 256 0" "mm_words (ms_mem modbus_main) a = replicate 256 7"
  by (simp_all add: modbus_main_def modbus_server_init_def modbus_main_data_def ms_free_def SPINLOCK_INIT_def)

text \<open>C35: the CRC. The table-driven loop of \<open>modbus_crc16\<close> computes the bit-serial CRC-16 of the
  Modbus serial line (reflected polynomial \<open>0xA001\<close>, initial value \<open>0xFFFF\<close>) for every message, so all
  256 table entries are right; and a frame has residue zero exactly when its last two bytes are the
  CRC of the rest, low byte first.\<close>

theorem modbus_crc16_correct:
  "modbus_crc16 data = foldl crc_bits 0xFFFF data \<and>
   (modbus_crc16 (data @ [lo, hi]) = 0 \<longleftrightarrow> be16 hi lo = modbus_crc16 data)"
  using crc16_residue_aux[of "modbus_crc16 data" lo hi] crc16_loop_append[of "0xFFFF" data "[lo, hi]"]
  by (simp only: modbus_crc16_def crc16_loop_foldl simp_thms)

text \<open>Reading registers (function codes 3 and 4). For at most 127 registers within the table, the
  reply is the function code, twice the count, and the registers from the start address on, high
  byte first; for holding registers the application's callback runs first and its changes are what
  is read. The request is counted, one buffer is taken, no other buffer in use changes.\<close>

theorem modbus_read_registers:
  assumes "req_at q (req_pdu f addr count rest) (r # fl) z" and "zpool_inv z (r # fl)" and "ms_free s"
    and "unat count \<le> 127"
    and "f = 3 \<and> s1 = ms_call (md_on_read_holding (ms_data s)) addr count (ms_request s) \<and>
        rs = mm_words (ms_mem s1) (md_holding_registers (ms_data s)) \<and> n = md_holding_registers_count (ms_data s) \<or>
      f = 4 \<and> s1 = ms_request s \<and>
        rs = mm_words (ms_mem s) (md_input_registers (ms_data s)) \<and> n = md_input_registers_count (ms_data s)"
    and "unat addr + unat count \<le> unat n" and "unat n \<le> length rs"
  shows "\<exists>z'. modbus_process_request q s z = Some (Some r, ms_reply s1, z') \<and>
    sent r (f # of_nat (2 * unat count) # reg_bytes (take (unat count) (drop (unat addr) rs))) fl z z'"
  using process_read_regs[OF assms(1-4) _ assms(6,7), unfolded modbus_fc_defs, OF assms(5)] .

theorem modbus_read_registers_witness:
  "\<exists>z'. modbus_process_request req_buf modbus_main (req_pool (req_pdu 3 16 2 [])) =
      Some (Some rep_buf, ms_reply (ms_request modbus_main), z') \<and>
    zb_payload rep_buf z' = [3, 4, 0, 7, 0, 7]"
proof -
  note p = req_pool_ok[of "req_pdu 3 16 2 []"]
  have two: "replicate 2 (7 :: u16) = [7, 7]" by (simp add: numeral_2_eq_2)
  show ?thesis
    using modbus_read_registers[OF p(2) p(1), of modbus_main "ms_request modbus_main" "replicate 256 7" 256]
    by (auto simp: req_pdu_def modbus_main_data_def sent_def hi8_def lo8_def two)
qed

text \<open>Reading bits (function codes 1 and 2). For at most 2040 bits within the table, the reply is the
  function code, the number of data bytes, and data bytes whose bit \<open>k\<close> (low bit of the first byte
  first) is the table's bit at address \<open>addr + k\<close>; the bits beyond the count are zero.\<close>

theorem modbus_read_bits_reply:
  assumes "req_at q (req_pdu f addr count rest) (r # fl) z" and "zpool_inv z (r # fl)" and "ms_free s"
    and "unat count \<le> 2040"
    and "f = 1 \<and> s1 = ms_call (md_on_read_coils (ms_data s)) addr count (ms_request s) \<and>
        cs = mm_bytes (ms_mem s1) (md_coils (ms_data s)) \<and> n = md_coils_count (ms_data s) \<or>
      f = 2 \<and> s1 = ms_request s \<and>
        cs = mm_bytes (ms_mem s) (md_discrete_inputs (ms_data s)) \<and> n = md_discrete_inputs_count (ms_data s)"
    and "unat addr + unat count \<le> unat n" and "unat n \<le> 8 * length cs"
  shows "\<exists>z' bs. modbus_process_request q s z = Some (Some r, ms_reply s1, z') \<and>
    sent r (f # of_nat ((unat count + 7) div 8) # bs) fl z z' \<and> length bs = (unat count + 7) div 8 \<and>
    (\<forall>k < 8 * length bs. coil bs k \<longleftrightarrow> k < unat count \<and> coil cs (unat addr + k))"
  using process_read_bits[OF assms(1-4) _ assms(6,7), unfolded modbus_fc_defs, OF assms(5)] .

theorem modbus_read_bits_reply_witness:
  "\<exists>z' bs. modbus_process_request req_buf modbus_main (req_pool (req_pdu 2 100 10 [])) =
      Some (Some rep_buf, ms_reply (ms_request modbus_main), z') \<and>
    zb_payload rep_buf z' = 2 # 2 # bs \<and> length bs = 2"
proof -
  note p = req_pool_ok[of "req_pdu 2 100 10 []"]
  show ?thesis
    using modbus_read_bits_reply[OF p(2) p(1), of modbus_main "ms_request modbus_main" "replicate 256 0" 2048]
    by (auto simp: req_pdu_def modbus_main_data_def sent_def)
qed

text \<open>C7: writing registers and reading them back, up to 127 of them. Function code 16 with values \<open>vs\<close>, at most
  127 and inside the range of the holding registers, is acknowledged with the head of the request and, when no
  callback interferes, a later request with function code 3 for the same range, in any pool, is answered with
  exactly \<open>vs\<close>. Of longer ranges, which the code accepts as well, nothing is claimed: the byte count of the
  answer is a \<open>u8\<close>. The server's lock is free, and both pools satisfy their invariant.\<close>

theorem modbus_registers_roundtrip:
  assumes "req_at q (req_pdu 16 addr count (bc # reg_bytes vs)) (r # fl) z" and "zpool_inv z (r # fl)"
    and "ms_free s" and "unat count = length vs" and "length vs \<le> 127"
    and "md_on_write_holding (ms_data s) = None" and "md_on_read_holding (ms_data s) = None"
    and "unat addr + length vs \<le> unat (md_holding_registers_count (ms_data s))"
    and "unat (md_holding_registers_count (ms_data s)) \<le> length (mm_words (ms_mem s) (md_holding_registers (ms_data s)))"
    and "req_at q' (req_pdu 3 addr count rest) (r' # fl') y" and "zpool_inv y (r' # fl')"
  shows "\<exists>s' z' y' s''. modbus_process_request q s z = Some (Some r, s', z') \<and>
    sent r (req_pdu 16 addr count []) fl z z' \<and>
    modbus_process_request q' s' y = Some (Some r', s'', y') \<and>
    sent r' (3 # of_nat (2 * length vs) # reg_bytes vs) fl' y y'"
proof -
  let ?p = "md_holding_registers (ms_data s)"
  define rs where "rs = mm_words (ms_mem s) ?p"
  define rs' where "rs' = take (unat addr) rs @ vs @ drop (unat addr + length vs) rs"
  define s1 where "s1 = ms_set_words ?p rs' (ms_request s)"
  obtain z' where z': "modbus_process_request q s z = Some (Some r, ms_reply s1, z')"
    "sent r (req_pdu 16 addr count []) fl z z'"
    using process_write_regs[unfolded modbus_fc_defs, OF assms(1-4) refl rs_def assms(8) assms(9)[folded rs_def] refl]
    by (auto simp: assms(6) s1_def rs'_def)
  have rs': "take (unat count) (drop (unat addr) rs') = vs" "length rs' = length rs"
    using assms(4,8,9) by (simp_all add: rs'_def rs_def)
  have s1: "ms_data (ms_reply s1) = ms_data s" "mm_words (ms_mem (ms_reply s1)) ?p = rs'" "ms_free (ms_reply s1)"
    using assms(3) by (simp_all add: s1_def)
  from assms(4,5) have count: "unat count \<le> 127" by simp
  have "\<exists>y'. modbus_process_request q' (ms_reply s1) y = Some (Some r', ms_reply (ms_request (ms_reply s1)), y') \<and>
      sent r' (3 # of_nat (2 * unat count) # reg_bytes (take (unat count) (drop (unat addr) rs'))) fl' y y'"
    using process_read_regs[unfolded modbus_fc_defs, OF assms(10,11) s1(3) count, of _ rs'] s1 assms(4,7,8,9) rs'(2)
    by (simp add: rs_def)
  then show ?thesis using z' rs'(1) assms(4) by auto
qed

theorem modbus_registers_roundtrip_witness:
  "\<exists>s' z' y' s''. modbus_process_request req_buf modbus_main (req_pool (req_pdu 16 5 2 (4 # reg_bytes [300, 2]))) = Some (Some rep_buf, s', z') \<and>
     modbus_process_request req_buf s' (req_pool (req_pdu 3 5 2 [])) = Some (Some rep_buf, s'', y') \<and>
     zb_payload rep_buf y' = [3, 4, 1, 44, 0, 2]"
proof -
  note p = req_pool_ok[of "req_pdu 16 5 2 (4 # reg_bytes [300, 2])"] and p' = req_pool_ok[of "req_pdu 3 5 2 []"]
  show ?thesis
    using modbus_registers_roundtrip[OF p(2) p(1), of modbus_main req_buf "[]" rep_buf req_free "req_pool (req_pdu 3 5 2 [])"] p'
    by (auto simp: req_pdu_def modbus_main_data_def sent_def hi8_def lo8_def)
qed

text \<open>The requests that are refused. When the address range does not fit the table, a coil value is
  neither \<open>0xFF00\<close> nor \<open>0\<close>, or the function code is not one of the eight, the reply is the function
  code with its top bit set and the exception code 2, 3 or 1; the exception is counted and neither
  the tables nor any buffer in use changes.\<close>

theorem modbus_refuses:
  assumes "req_at q (req_pdu f addr v rest) (r # fl) z" and "zpool_inv z (r # fl)" and "ms_free s"
    and "modbus_refusal (ms_data s) f addr v = Some ex"
  shows "\<exists>z' s'. modbus_process_request q s z = Some (Some r, s', z') \<and> sent r [f OR 0x80, ex] fl z z' \<and>
    ms_mem s' = ms_mem s \<and> ms_exceptions s' = ms_exceptions s + 1 \<and> ms_data s' = ms_data s"
  using process_refuses[OF assms] by (fastforce simp: ms_request_def ms_reply_def)

theorem modbus_refuses_witness:
  "\<exists>z' s'. modbus_process_request req_buf modbus_main (req_pool (req_pdu 3 250 10 [])) = Some (Some rep_buf, s', z') \<and>
    zb_payload rep_buf z' = [0x83, 2]"
proof -
  note p = req_pool_ok[of "req_pdu 3 250 10 []"]
  have "modbus_refusal modbus_main_data 3 250 10 = Some 2"
    by (simp add: modbus_refusal_def modbus_main_data_def)
  then show ?thesis
    using modbus_refuses[OF p(2) p(1), of modbus_main 2] by (auto simp: req_pdu_def sent_def)
qed

text \<open>Beyond 127 registers. The byte count is an 8-bit value and the reply's length is computed from
  it, so a read of 128 to 959 registers is answered with a payload that is too short (its length is
  \<open>2 + 2 * count mod 256\<close>), and from 960 registers on the loop writes behind the end of the buffer.\<close>

theorem modbus_read_overruns:
  assumes "req_at q (req_pdu 4 addr count rest) (r # fl) z" and "zpool_inv z (r # fl)" and "ms_free s"
    and "unat addr + unat count \<le> unat (md_input_registers_count (ms_data s))"
    and "unat (md_input_registers_count (ms_data s)) \<le> length (mm_words (ms_mem s) (md_input_registers (ms_data s)))"
  shows "if unat count < 960
    then \<exists>s' z'. modbus_process_request q s z = Some (Some r, s', z') \<and>
      length (zb_payload r z') = 2 + 2 * unat count mod 256
    else modbus_process_request q s z = None"
proof -
  let ?rs = "mm_words (ms_mem s) (md_input_registers (ms_data s))"
  have len: "unat addr + unat count \<le> length ?rs" using assms(4,5) by simp
  have d: "modbus_dispatch q (zb_data (zp_buf z q)) 4 (ms_locked (ms_request s)) z =
      modbus_read_regs 4 addr count ?rs (ms_locked (ms_request s)) z"
    using req_fields[OF assms(1)] assms(4)
    by (simp add: modbus_dispatch_def modbus_fc_defs fc_read_input_registers_def)
  note over = read_regs_over[OF assms(2) len, where f = 4 and s = "ms_locked (ms_request s)"]
  show ?thesis
  proof (cases "modbus_read_regs 4 addr count ?rs (ms_locked (ms_request s)) z")
    case None
    have b: "zb_byte q (zb_data (zp_buf z q)) z = Some 4"
      using req_byte[OF assms(1), of 0] by (simp add: req_pdu_def)
    have "ms_free (ms_request s)" using assms(3) by simp
    from ms_lock_ok[OF this] have "modbus_process_request q s z = None"
      using b d None by (simp add: modbus_process_request_def Let_def ms_request_def)
    then show ?thesis using over None by simp
  next
    case (Some res)
    obtain p s' z' where res: "res = (p, s', z')" by (cases res)
    have r: "p = Some r" "s' = ms_locked (ms_request s)" "unat count < 960"
      "length (zb_payload r z') = 2 + 2 * unat count mod 256"
      using over Some res by auto
    have "modbus_process_request q s z = Some (Some r, ms_reply (ms_request s), z')"
      by (rule process_req[OF assms(1,3)]) (use assms(3) d Some res r in simp_all)
    then show ?thesis using r by auto
  qed
qed

theorem modbus_read_overruns_witness:
  "\<exists>s' z'. modbus_process_request req_buf modbus_main (req_pool (req_pdu 4 0 200 [])) = Some (Some rep_buf, s', z') \<and>
    length (zb_payload rep_buf z') = 146"
proof -
  note p = req_pool_ok[of "req_pdu 4 0 200 []"]
  show ?thesis
    using modbus_read_overruns[OF p(2) p(1), of modbus_main] by (simp add: req_pdu_def modbus_main_data_def)
qed

end
