(* ===== verification/Virtq.thy ===== *)
theory Virtq
  imports Mempool Sched
begin

text \<open>
  The virtqueues of \<open>drivers/eth/eth.c\<close> and the device context: the descriptor table, whose free
  entries are threaded through \<open>next\<close>, the two rings shared with the device, and taking and giving
  back a descriptor.

  The descriptor table fills whole pages, so that an index below \<open>VIRTQ_SIZE\<close> stays inside it and
  inside \<open>buffers\<close>; any other index faults (\<open>None\<close>).
\<close>

section \<open>Data\<close>

definition VIRTQ_SIZE :: nat where "VIRTQ_SIZE = 256"
definition VIRTQ_ALIGN :: u64 where "VIRTQ_ALIGN = 4096"

definition VRING_DESC_F_NEXT :: u16 where "VRING_DESC_F_NEXT = 1"
definition VRING_DESC_F_WRITE :: u16 where "VRING_DESC_F_WRITE = 2"

record vring_desc =
  vd_addr :: addr
  vd_len :: u32
  vd_flags :: u16
  vd_next :: u16

record vring_used_elem =
  ue_id :: u32
  ue_len :: u32

text \<open>\<open>vq_avail\<close> and \<open>vq_used\<close> are the ring arrays; the \<open>_at\<close> fields are where the parts lie.\<close>

record virtqueue =
  vq_num :: u16
  vq_free_head :: u16
  vq_num_free :: u16
  vq_last_used_idx :: u16
  vq_desc_at :: addr
  vq_avail_at :: addr
  vq_used_at :: addr
  vq_desc :: "nat \<Rightarrow> vring_desc"
  vq_avail_idx :: u16
  vq_avail :: "nat \<Rightarrow> u16"
  vq_used_idx :: u16
  vq_used :: "nat \<Rightarrow> vring_used_elem"
  vq_buffers :: "nat \<Rightarrow> ptr"
  vq_lock :: spinlock

text \<open>
  The device context; \<open>ed_self\<close> and \<open>ed_netif\<close> are the addresses of the context and of the
  interface inside it, \<open>ed_mmio\<close> the accesses to the device's registers, the latest first.
\<close>

record eth_dev =
  ed_self :: addr
  ed_netif :: addr
  ed_base :: addr
  ed_irq :: u32
  ed_mac :: "u8 list"
  ed_rxq :: virtqueue
  ed_txq :: virtqueue
  ed_rx_packets :: u64
  ed_tx_packets :: u64
  ed_rx_bytes :: u64
  ed_tx_bytes :: u64
  ed_rx_errors :: u64
  ed_tx_errors :: u64
  ed_rx_dropped :: u64
  ed_lock :: spinlock
  ed_initialized :: bool
  ed_mmio :: "mmio list"

section \<open>Descriptors\<close>

definition vd_ok :: "u16 \<Rightarrow> bool" where
  "vd_ok i \<longleftrightarrow> unat i < VIRTQ_SIZE"

definition vd_upd :: "u16 \<Rightarrow> (vring_desc \<Rightarrow> vring_desc) \<Rightarrow> virtqueue \<Rightarrow> virtqueue option" where
  "vd_upd i f q =
     (if vd_ok i then Some (q\<lparr>vq_desc := (vq_desc q)(unat i := f (vq_desc q (unat i)))\<rparr>) else None)"

definition vd_get :: "u16 \<Rightarrow> virtqueue \<Rightarrow> vring_desc option" where
  "vd_get i q = (if vd_ok i then Some (vq_desc q (unat i)) else None)"

text \<open>The C function returns an \<open>int\<close>, \<open>-1\<close> when there is no free descriptor.\<close>

definition virtq_alloc_desc :: "virtqueue \<Rightarrow> (int \<times> virtqueue) option" where
  "virtq_alloc_desc q =
     (if vq_num_free q = 0 then Some (-1, q)
      else do {
        let idx = vq_free_head q;
        d \<leftarrow> vd_get idx q;
        Some (uint idx, q\<lparr>vq_free_head := vd_next d, vq_num_free := vq_num_free q - 1\<rparr>)
      })"

definition virtq_free_desc :: "u16 \<Rightarrow> virtqueue \<Rightarrow> virtqueue option" where
  "virtq_free_desc idx q = do {
     q \<leftarrow> vd_upd idx (vd_next_update (\<lambda>_. vq_free_head q)) q;
     Some (q\<lparr>vq_free_head := idx, vq_num_free := vq_num_free q + 1\<rparr>)
   }"

text \<open>\<open>idx % vq->num\<close>; dividing by zero faults.\<close>

definition ring_slot :: "u16 \<Rightarrow> virtqueue \<Rightarrow> nat option" where
  "ring_slot idx q = (if vq_num q = 0 then None else Some (unat (idx mod vq_num q)))"

text \<open>Putting a descriptor chain on the available ring: the slot is written before the index moves.\<close>

definition virtq_post :: "u16 \<Rightarrow> virtqueue \<Rightarrow> virtqueue option" where
  "virtq_post head q = do {
     slot \<leftarrow> ring_slot (vq_avail_idx q) q;
     let q = q\<lparr>vq_avail := (vq_avail q)(slot := head)\<rparr>;
     Some (q\<lparr>vq_avail_idx := vq_avail_idx q + 1\<rparr>)
   }"

section \<open>The memory of a queue\<close>

definition virtq_align :: "u64 \<Rightarrow> u64" where
  "virtq_align n = (n + VIRTQ_ALIGN - 1) AND NOT (VIRTQ_ALIGN - 1)"

definition desc_size :: "u32 \<Rightarrow> u64" where
  "desc_size qmax = virtq_align (16 * ucast qmax)"

definition avail_size :: "u32 \<Rightarrow> u64" where
  "avail_size qmax = virtq_align (2 * ucast (3 + qmax))"

definition used_size :: "u32 \<Rightarrow> u64" where
  "used_size qmax = virtq_align (2 * 3 + 8 * ucast qmax)"

text \<open>The three areas cleared and put in place at \<open>mem\<close>.\<close>

definition virtq_clear :: "u32 \<Rightarrow> addr \<Rightarrow> virtqueue \<Rightarrow> virtqueue" where
  "virtq_clear qmax mem q =
     q\<lparr>vq_desc := (\<lambda>_. \<lparr>vd_addr = 0, vd_len = 0, vd_flags = 0, vd_next = 0\<rparr>),
       vq_avail_idx := 0, vq_avail := (\<lambda>_. 0), vq_used_idx := 0,
       vq_used := (\<lambda>_. \<lparr>ue_id = 0, ue_len = 0\<rparr>),
       vq_desc_at := mem, vq_avail_at := mem + uint (desc_size qmax),
       vq_used_at := mem + uint (desc_size qmax) + uint (avail_size qmax)\<rparr>"

text \<open>The free list: \<open>desc[i].next = i + 1\<close> for \<open>i < qmax - 1\<close>, and \<open>0xFFFF\<close> in the last one.\<close>

definition virtq_link :: "u32 \<Rightarrow> virtqueue \<Rightarrow> virtqueue" where
  "virtq_link qmax q =
     (let set = (\<lambda>i v d. d(i := (d i)\<lparr>vd_next := v\<rparr>));
          d = fold (\<lambda>i. set i (of_nat (i + 1))) [0 ..< unat (qmax - 1)] (vq_desc q)
      in q\<lparr>vq_desc := set (unat (qmax - 1)) 0xFFFF d\<rparr>)"

text \<open>For the witnesses: two empty queues of 256, and a pool that was never set up.\<close>

definition virtq_demo :: virtqueue where
  "virtq_demo = virtq_link 256 (virtq_clear 256 0x4000
     \<lparr>vq_num = 256, vq_free_head = 0, vq_num_free = 256, vq_last_used_idx = 0, vq_desc_at = 0,
      vq_avail_at = 0, vq_used_at = 0, vq_desc = (\<lambda>_. \<lparr>vd_addr = 0, vd_len = 0, vd_flags = 0, vd_next = 0\<rparr>),
      vq_avail_idx = 0, vq_avail = (\<lambda>_. 0), vq_used_idx = 0, vq_used = (\<lambda>_. \<lparr>ue_id = 0, ue_len = 0\<rparr>),
      vq_buffers = (\<lambda>_. None), vq_lock = SPINLOCK_INIT\<rparr>)"

definition eth_demo :: eth_dev where
  "eth_demo = \<lparr>ed_self = 0x2000, ed_netif = 8, ed_base = 0x0A000000, ed_irq = 47,
     ed_mac = [2, 0, 0, 0, 0, 1], ed_rxq = virtq_demo, ed_txq = virtq_demo, ed_rx_packets = 0,
     ed_tx_packets = 0, ed_rx_bytes = 0, ed_tx_bytes = 0, ed_rx_errors = 0, ed_tx_errors = 0,
     ed_rx_dropped = 0, ed_lock = SPINLOCK_INIT, ed_initialized = True, ed_mmio = []\<rparr>"

definition mempool_demo :: mempool where
  "mempool_demo = \<lparr>mp_base = None, mp_block_size = 0, mp_block_count = 0, mp_free_list = None,
     mp_cell = (\<lambda>_. None)\<rparr>"

end
