(* ===== verification/Net.thy ===== *)
theory Net
  imports Packet Zbuf_Queue Sync Virtq
begin

text \<open>
  The lower half of the network stack of \<open>net/stack/net_core.c\<close> and the declarations of
  \<open>include/net_stack.h\<close>: byte order, checksums, interfaces, Ethernet output, the ARP cache, and IP and
  UDP output. The interface's driver is not under this file's control: \<open>drv nif zb w\<close> stands for the
  call \<open>nif->send(nif, zb)\<close> and is a parameter of every function that sends.

  A spin lock that is taken and released inside one function, around code that neither blocks nor
  calls out, is always free on the single core and is not modelled; \<open>tcp_lock\<close> is, because the TCP
  timer holds it across calls.
\<close>

section \<open>Byte order\<close>

definition htons :: "u16 \<Rightarrow> u16" where
  "htons h = push_bit 8 (h AND 0xFF) OR (drop_bit 8 h AND 0xFF)"

definition htonl :: "u32 \<Rightarrow> u32" where
  "htonl h = push_bit 24 (h AND 0xFF) OR push_bit 8 (h AND 0xFF00) OR (drop_bit 8 h AND 0xFF00) OR
     (drop_bit 24 h AND 0xFF)"

definition ntohs :: "u16 \<Rightarrow> u16" where "ntohs n = htons n"
definition ntohl :: "u32 \<Rightarrow> u32" where "ntohl n = htonl n"

text \<open>The processor is little endian: the bytes of a 16- or 32-bit field in memory.\<close>

definition le16 :: "u8 \<Rightarrow> u8 \<Rightarrow> u16" where "le16 a b = be16 b a"

definition bytes16 :: "u16 \<Rightarrow> u8 list" where "bytes16 v = [lo8 v, hi8 v]"

definition le32 :: "u8 \<Rightarrow> u8 \<Rightarrow> u8 \<Rightarrow> u8 \<Rightarrow> u32" where
  "le32 a b c d = push_bit 24 (ucast d) OR push_bit 16 (ucast c) OR push_bit 8 (ucast b) OR ucast a"

definition bytes32 :: "u32 \<Rightarrow> u8 list" where
  "bytes32 v = [ucast v, ucast (drop_bit 8 v), ucast (drop_bit 16 v), ucast (drop_bit 24 v)]"

section \<open>Checksums\<close>

text \<open>The arithmetic of one folding step, for the termination of the loop below.\<close>

lemma unat_high16: "unat (drop_bit 16 (s :: u32)) = unat s div 65536"
  unfolding unat_drop_bit_eq drop_bit_eq_div[where 'a = nat] by simp

lemma unat_low16: "unat ((s :: u32) AND 0xFFFF) = unat s mod 65536"
proof -
  have "s AND 0xFFFF = take_bit 16 s" by (simp add: take_bit_eq_mask mask_eq_exp_minus_1)
  moreover have "unat (take_bit 16 s) = unat s mod 65536"
    unfolding unsigned_take_bit_eq take_bit_eq_mod[where 'a = nat] by simp
  ultimately show ?thesis by simp
qed

lemma drop_bit_16_pos: "drop_bit 16 (s :: u32) \<noteq> 0 \<longleftrightarrow> 65536 \<le> unat s"
proof -
  have "drop_bit 16 s \<noteq> 0 \<longleftrightarrow> unat (drop_bit 16 s) \<noteq> 0" by (simp only: unsigned_eq_0_iff)
  then show ?thesis unfolding unat_high16 by (simp add: div_eq_0_iff not_less)
qed

lemma fold_step: "unat ((s AND 0xFFFF) + drop_bit 16 (s :: u32)) = unat s mod 65536 + unat s div 65536"
proof -
  note m = unat_low16[of s] and d = unat_high16[of s]
  have "unat s < 65536 * 65536" using unsigned_less[of s] by simp
  then have "unat s div 65536 < 65536" by (simp add: less_mult_imp_div_less)
  moreover have "unat s mod 65536 < 65536" by simp
  ultimately have "unat (s AND 0xFFFF) + unat (drop_bit 16 s) < 4294967296" unfolding m d by linarith
  then show ?thesis unfolding m[symmetric] d[symmetric]
    by (simp add: unat_word_ariths)
qed

text \<open>\<open>while (sum >> 16) sum = (sum & 0xFFFF) + (sum >> 16);\<close>\<close>

function fold_sum :: "u32 \<Rightarrow> u32" where
  "fold_sum acc = (if drop_bit 16 acc \<noteq> 0 then fold_sum ((acc AND 0xFFFF) + drop_bit 16 acc) else acc)"
  by pat_completeness auto

termination
proof (relation "measure unat")
  fix s :: u32 assume "drop_bit 16 s \<noteq> 0"
  then have "65536 \<le> unat s" by (simp add: drop_bit_16_pos)
  moreover have "unat s mod 65536 + 65536 * (unat s div 65536) = unat s" by simp
  ultimately have "unat s mod 65536 + unat s div 65536 < unat s" by linarith
  then show "((s AND 0xFFFF) + drop_bit 16 s, s) \<in> measure unat" by (simp add: fold_step)
qed simp

declare fold_sum.simps [simp del]

text \<open>The summation loop: little-endian words, an odd byte at the end on its own.\<close>

fun sum_words :: "u8 list \<Rightarrow> u32 \<Rightarrow> u32" where
  "sum_words (a # b # bs) acc = sum_words bs (acc + ucast (le16 a b))"
| "sum_words [a] acc = acc + ucast a"
| "sum_words [] acc = acc"

definition inet_checksum :: "u8 list \<Rightarrow> u16" where
  "inet_checksum data = NOT (ucast (fold_sum (sum_words data 0)))"

definition inet_pseudo_checksum :: "u32 \<Rightarrow> u32 \<Rightarrow> u8 \<Rightarrow> u16 \<Rightarrow> u16" where
  "inet_pseudo_checksum src dst proto len =
     (let acc = (drop_bit 16 src AND 0xFFFF) + (src AND 0xFFFF) + (drop_bit 16 dst AND 0xFFFF) +
                (dst AND 0xFFFF) + ucast (htons (ucast proto)) + ucast (htons len)
      in ucast (fold_sum acc))"

section \<open>State\<close>

text \<open>An interface; its \<open>send\<close> and \<open>ioctl\<close> callbacks are the driver parameter.\<close>

record netif =
  nif_name :: string
  nif_mac :: "u8 list"      \<comment> \<open>six bytes\<close>
  nif_ip :: u32
  nif_netmask :: u32
  nif_gateway :: u32
  nif_mtu :: u16
  nif_up :: bool
  nif_priv :: ptr
  nif_rx_packets :: u64
  nif_rx_bytes :: u64
  nif_tx_packets :: u64
  nif_tx_bytes :: u64
  nif_rx_errors :: u64
  nif_tx_errors :: u64
  nif_next :: ptr

record sockaddr =
  sa_addr :: u32
  sa_port :: u16

datatype tcp_state =
    TCP_CLOSED | TCP_LISTEN | TCP_SYN_SENT | TCP_SYN_RECEIVED | TCP_ESTABLISHED | TCP_FIN_WAIT_1
  | TCP_FIN_WAIT_2 | TCP_CLOSE_WAIT | TCP_CLOSING | TCP_LAST_ACK | TCP_TIME_WAIT

definition SOCK_STREAM :: int where "SOCK_STREAM = 1"
definition SOCK_DGRAM :: int where "SOCK_DGRAM = 2"

record socket =
  sk_fd :: int
  sk_type :: int
  sk_state :: tcp_state
  sk_local :: sockaddr
  sk_remote :: sockaddr
  sk_snd_una :: u32
  sk_snd_nxt :: u32
  sk_snd_wnd :: u32
  sk_rcv_nxt :: u32
  sk_rcv_wnd :: u32
  sk_rx_queue :: zbuf_queue
  sk_tx_queue :: zbuf_queue
  sk_rx_sem :: semaphore
  sk_tx_sem :: semaphore
  sk_lock :: mutex
  sk_flags :: u32
  sk_timeout :: u32
  sk_next :: ptr

text \<open>The size of the C struct, and the addresses of the objects inside it that a task can wait on.\<close>

definition sizeof_socket :: u64 where "sizeof_socket = 208"
definition rx_sem_addr :: "addr \<Rightarrow> addr" where "rx_sem_addr a = a + 112"
definition tx_sem_addr :: "addr \<Rightarrow> addr" where "tx_sem_addr a = a + 136"
definition sk_lock_addr :: "addr \<Rightarrow> addr" where "sk_lock_addr a = a + 160"

record arp_entry =
  arp_ip :: u32
  arp_mac :: "u8 list"
  arp_expire :: u32
  arp_valid :: bool

record tcp_rto_t =
  rto_rto :: u32
  rto_srtt :: u32
  rto_rttvar :: u32
  rto_last_tx_time :: u32
  rto_retries :: u8
  rto_timer_active :: bool

text \<open>
  The whole state: the buffer pool, scheduler and heap the stack works on, the static variables of
  \<open>net_core.c\<close> and \<open>tcp.c\<close>, the interfaces and sockets at their addresses, and the Ethernet
  device with the pool its rings come from.
\<close>

record net =
  n_pool :: zpool
  n_sched :: sched
  n_heap :: heap
  n_nif :: "addr \<Rightarrow> netif"
  n_netif_list :: ptr
  n_netif_default :: ptr
  n_arp :: "nat \<Rightarrow> arp_entry"
  n_ip_id :: u16
  n_sock :: "addr \<Rightarrow> socket"
  n_table :: "nat \<Rightarrow> ptr"
  n_next_fd :: int
  n_listen :: ptr
  n_conn :: ptr
  n_tcp_lock :: spinlock
  n_rto :: "nat \<Rightarrow> tcp_rto_t"
  n_dma :: mempool
  n_eth :: eth_dev

type_synonym driver = "addr \<Rightarrow> addr \<Rightarrow> net \<Rightarrow> (status \<times> net) option"

definition nif_upd :: "addr \<Rightarrow> (netif \<Rightarrow> netif) \<Rightarrow> net \<Rightarrow> net" where
  "nif_upd a f w = w\<lparr>n_nif := (n_nif w)(a := f (n_nif w a))\<rparr>"

definition sk_upd :: "addr \<Rightarrow> (socket \<Rightarrow> socket) \<Rightarrow> net \<Rightarrow> net" where
  "sk_upd a f w = w\<lparr>n_sock := (n_sock w)(a := f (n_sock w a))\<rparr>"

text \<open>Operations of the buffer pool, in the whole state.\<close>

definition nb_upd :: "addr \<Rightarrow> (zbuf \<Rightarrow> zbuf) \<Rightarrow> net \<Rightarrow> net" where
  "nb_upd b f w = w\<lparr>n_pool := zb_upd b f (n_pool w)\<rparr>"

definition nb_op :: "addr \<Rightarrow> (zbuf \<Rightarrow> ptr \<times> zbuf) \<Rightarrow> net \<Rightarrow> ptr \<times> net" where
  "nb_op b f w = (let (p, z) = zb_op b f (n_pool w) in (p, w\<lparr>n_pool := z\<rparr>))"

definition nb_free :: "addr \<Rightarrow> net \<Rightarrow> net" where
  "nb_free b w = w\<lparr>n_pool := zbuf_free (Some b) (n_pool w)\<rparr>"

definition nb_alloc_tx :: "u16 \<Rightarrow> net \<Rightarrow> ptr \<times> net" where
  "nb_alloc_tx n w = (let (p, z) = zbuf_alloc_tx n (n_pool w) in (p, w\<lparr>n_pool := z\<rparr>))"

definition nb_store :: "addr \<Rightarrow> addr \<Rightarrow> u8 list \<Rightarrow> net \<Rightarrow> net option" where
  "nb_store b a bs w = do { z \<leftarrow> zb_store b a bs (n_pool w); Some (w\<lparr>n_pool := z\<rparr>) }"

abbreviation nb_get :: "addr \<Rightarrow> net \<Rightarrow> zbuf" where
  "nb_get b w \<equiv> zp_buf (n_pool w) b"

definition nb_load :: "addr \<Rightarrow> addr \<Rightarrow> nat \<Rightarrow> net \<Rightarrow> u8 list option" where
  "nb_load b a n w = zb_load b a n (n_pool w)"

definition nb_ld8 :: "addr \<Rightarrow> addr \<Rightarrow> net \<Rightarrow> u8 option" where
  "nb_ld8 b a w = do { bs \<leftarrow> nb_load b a 1 w; Some (bs ! 0) }"

definition nb_ld16 :: "addr \<Rightarrow> addr \<Rightarrow> net \<Rightarrow> u16 option" where
  "nb_ld16 b a w = do { bs \<leftarrow> nb_load b a 2 w; Some (le16 (bs ! 0) (bs ! 1)) }"

definition nb_ld32 :: "addr \<Rightarrow> addr \<Rightarrow> net \<Rightarrow> u32 option" where
  "nb_ld32 b a w = do { bs \<leftarrow> nb_load b a 4 w; Some (le32 (bs ! 0) (bs ! 1) (bs ! 2) (bs ! 3)) }"

section \<open>Interfaces\<close>

definition net_stack_init :: "net \<Rightarrow> net" where
  "net_stack_init w =
     w\<lparr>n_arp := (\<lambda>i. if i < 64 then (n_arp w i)\<lparr>arp_valid := False\<rparr> else n_arp w i),
       n_table := (\<lambda>i. if i < CONFIG_NET_MAX_SOCKETS then None else n_table w i)\<rparr>"

definition netif_register :: "addr \<Rightarrow> net \<Rightarrow> status \<times> net" where
  "netif_register nif w =
     (let w = nif_upd nif (nif_next_update (\<lambda>_. n_netif_list w)) w;
          w = w\<lparr>n_netif_list := Some nif\<rparr>;
          w = (if n_netif_default w = None then w\<lparr>n_netif_default := Some nif\<rparr> else w)
      in (STATUS_OK, w))"

definition netif_get_default :: "net \<Rightarrow> ptr" where
  "netif_get_default w = n_netif_default w"

section \<open>Ethernet output\<close>

definition ETH_TYPE_IP :: u16 where "ETH_TYPE_IP = 0x0800"
definition ETH_TYPE_ARP :: u16 where "ETH_TYPE_ARP = 0x0806"
definition ETH_TYPE_PNIO :: u16 where "ETH_TYPE_PNIO = 0x8892"

definition eth_output :: "driver \<Rightarrow> addr \<Rightarrow> addr \<Rightarrow> u8 list \<Rightarrow> u16 \<Rightarrow> net \<Rightarrow> (status \<times> net) option" where
  "eth_output drv nif zb dst_mac type w =
     (case nb_op zb (zbuf_push 14) w of
        (None, w) \<Rightarrow> Some (STATUS_NO_MEM, nb_free zb w)
      | (Some eth, w) \<Rightarrow> do {
          w \<leftarrow> nb_store zb eth (dst_mac @ nif_mac (n_nif w nif)) w;
          w \<leftarrow> nb_store zb (eth + 12) (bytes16 (htons type)) w;
          let w = nb_upd zb (\<lambda>k. k\<lparr>zb_l2_offset := 0, zb_protocol := type\<rparr>) w;
          let w = nif_upd nif (\<lambda>n. n\<lparr>nif_tx_packets := nif_tx_packets n + 1,
                    nif_tx_bytes := nif_tx_bytes n + ucast (zb_len (nb_get zb w))\<rparr>) w;
          drv nif zb w
        })"

section \<open>ARP cache\<close>

definition ARP_CACHE_SIZE :: nat where "ARP_CACHE_SIZE = 64"
definition ARP_OP_REQUEST :: u16 where "ARP_OP_REQUEST = 1"
definition ARP_OP_REPLY :: u16 where "ARP_OP_REPLY = 2"

text \<open>The lookup loop of \<open>arp_resolve\<close>, from entry \<open>i\<close> on for \<open>n\<close> more entries.\<close>

fun arp_lookup :: "(nat \<Rightarrow> arp_entry) \<Rightarrow> u32 \<Rightarrow> nat \<Rightarrow> nat \<Rightarrow> u8 list option" where
  "arp_lookup c ip i 0 = None"
| "arp_lookup c ip i (Suc n) =
     (if arp_valid (c i) \<and> arp_ip (c i) = ip then Some (arp_mac (c i)) else arp_lookup c ip (i + 1) n)"

text \<open>The update loop of \<open>arp_input\<close>: the first entry that is not valid is filled.\<close>

fun arp_learn :: "u32 \<Rightarrow> u8 list \<Rightarrow> u32 \<Rightarrow> nat \<Rightarrow> nat \<Rightarrow> (nat \<Rightarrow> arp_entry) \<Rightarrow> nat \<Rightarrow> arp_entry" where
  "arp_learn ip mac now i 0 c = c"
| "arp_learn ip mac now i (Suc n) c =
     (if \<not> arp_valid (c i)
      then c(i := \<lparr>arp_ip = ip, arp_mac = mac, arp_expire = now + 300000, arp_valid = True\<rparr>)
      else arp_learn ip mac now (i + 1) n c)"

text \<open>The 28 bytes of an ARP header for Ethernet and IPv4.\<close>

definition arp_bytes :: "u16 \<Rightarrow> u8 list \<Rightarrow> u32 \<Rightarrow> u8 list \<Rightarrow> u32 \<Rightarrow> u8 list" where
  "arp_bytes oper sha spa tha tpa =
     bytes16 (htons 1) @ bytes16 (htons ETH_TYPE_IP) @ [6, 4] @ bytes16 (htons oper) @
     sha @ bytes32 spa @ tha @ bytes32 tpa"

definition arp_resolve :: "driver \<Rightarrow> u32 \<Rightarrow> net \<Rightarrow> (status \<times> u8 list \<times> net) option" where
  "arp_resolve drv ip w =
     (case arp_lookup (n_arp w) ip 0 ARP_CACHE_SIZE of
        Some mac \<Rightarrow> Some (STATUS_OK, mac, w)
      | None \<Rightarrow>
          (case n_netif_default w of
             None \<Rightarrow> Some (STATUS_ERROR, [], w)
           | Some nif \<Rightarrow>
               (case nb_alloc_tx 28 w of
                  (None, w) \<Rightarrow> Some (STATUS_NO_MEM, [], w)
                | (Some zb, w) \<Rightarrow>
                    let (p, w) = nb_op zb (zbuf_put 28) w in do {
                      arp \<leftarrow> p;
                      w \<leftarrow> nb_store zb arp (arp_bytes ARP_OP_REQUEST (nif_mac (n_nif w nif))
                             (htonl (nif_ip (n_nif w nif))) (replicate 6 0xFF) (htonl ip)) w;
                      (st, w) \<leftarrow> eth_output drv nif zb (replicate 6 0xFF) ETH_TYPE_ARP w;
                      Some (STATUS_WOULD_BLOCK, [], w)
                    })))"

section \<open>IP and UDP output\<close>

definition IP_PROTO_ICMP :: u8 where "IP_PROTO_ICMP = 1"
definition IP_PROTO_TCP :: u8 where "IP_PROTO_TCP = 6"
definition IP_PROTO_UDP :: u8 where "IP_PROTO_UDP = 17"
definition IP4_ADDR_ANY :: u32 where "IP4_ADDR_ANY = 0"
definition IP4_ADDR_BROADCAST :: u32 where "IP4_ADDR_BROADCAST = 0xFFFFFFFF"

text \<open>The 20 bytes of the IP header, with a checksum field given.\<close>

definition ip_hdr_bytes :: "u16 \<Rightarrow> u16 \<Rightarrow> u8 \<Rightarrow> u16 \<Rightarrow> u32 \<Rightarrow> u32 \<Rightarrow> u8 list" where
  "ip_hdr_bytes len ident proto checksum src dst =
     [0x45, 0] @ bytes16 (htons len) @ bytes16 (htons ident) @ bytes16 0 @ [64, proto] @
     bytes16 checksum @ bytes32 (htonl src) @ bytes32 (htonl dst)"

definition ip_broadcast :: "netif \<Rightarrow> u32 \<Rightarrow> bool" where
  "ip_broadcast nif dst \<longleftrightarrow>
     dst = IP4_ADDR_BROADCAST \<or> dst AND NOT (nif_netmask nif) = NOT (nif_netmask nif)"

definition ip_output :: "driver \<Rightarrow> addr \<Rightarrow> u32 \<Rightarrow> u32 \<Rightarrow> u8 \<Rightarrow> net \<Rightarrow> (status \<times> net) option" where
  "ip_output drv zb src dst proto w =
     (case n_netif_default w of
        None \<Rightarrow> Some (STATUS_ERROR, nb_free zb w)
      | Some nif \<Rightarrow>
          let src = (if src = 0 then nif_ip (n_nif w nif) else src) in
          (case nb_op zb (zbuf_push 20) w of
             (None, w) \<Rightarrow> Some (STATUS_NO_MEM, nb_free zb w)
           | (Some ip, w) \<Rightarrow> do {
               w \<leftarrow> nb_store zb ip (ip_hdr_bytes (zb_len (nb_get zb w)) (n_ip_id w) proto 0 src dst) w;
               let w = w\<lparr>n_ip_id := n_ip_id w + 1\<rparr>;
               hdr \<leftarrow> nb_load zb ip 20 w;
               w \<leftarrow> nb_store zb (ip + 10) (bytes16 (inet_checksum hdr)) w;
               let n = n_nif w nif;
               let next_hop = (if dst AND nif_netmask n \<noteq> nif_ip n AND nif_netmask n
                               then nif_gateway n else dst);
               if ip_broadcast n dst then eth_output drv nif zb (replicate 6 0xFF) ETH_TYPE_IP w
               else do {
                 (ret, dst_mac, w) \<leftarrow> arp_resolve drv next_hop w;
                 if ret \<noteq> STATUS_OK then Some (ret, nb_free zb w)
                 else eth_output drv nif zb dst_mac ETH_TYPE_IP w
               }
             }))"

definition UDP_HDR_LEN :: u16 where "UDP_HDR_LEN = 8"

definition udp_output :: "driver \<Rightarrow> addr \<Rightarrow> sockaddr \<Rightarrow> sockaddr \<Rightarrow> net \<Rightarrow> (status \<times> net) option" where
  "udp_output drv zb src dst w =
     (case nb_op zb (zbuf_push UDP_HDR_LEN) w of
        (None, w) \<Rightarrow> Some (STATUS_NO_MEM, nb_free zb w)
      | (Some udp, w) \<Rightarrow> do {
          w \<leftarrow> nb_store zb udp (bytes16 (htons (sa_port src)) @ bytes16 (htons (sa_port dst)) @
                 bytes16 (htons (zb_len (nb_get zb w))) @ bytes16 0) w;
          ip_output drv zb (sa_addr src) (sa_addr dst) IP_PROTO_UDP w
        })"

section \<open>Blocking and waking\<close>

text \<open>
  A socket call may block on the socket's lock or one of its semaphores: \<open>Blocked c\<close> is the state
  right after the switch (\<open>c\<close> as in the scheduler). The rest of such a call is a definition of its
  own, to run when the waiting ends (\<open>lock_resume\<close>, \<open>rx_resume\<close>, \<open>tx_resume\<close>).
\<close>

datatype 'a io = Done 'a net | Blocked "net ctl"

text \<open>The state a call leaves when it is done, or when it blocks.\<close>

definition io_world :: "'a io \<Rightarrow> net" where
  "io_world r = (case r of Done x w \<Rightarrow> w | Blocked c \<Rightarrow> ctl_state c)"

lemma io_world_simps [simp]: "io_world (Done x w) = w" "io_world (Blocked c) = ctl_state c"
  by (simp_all add: io_world_def)

lemma ctl_state_map [simp]: "ctl_state (map_ctl f c) = f (ctl_state c)"
  by (cases c) simp_all

definition io_bind :: "'a io option \<Rightarrow> ('a \<Rightarrow> net \<Rightarrow> 'b io option) \<Rightarrow> 'b io option" where
  "io_bind r f = do {
     x \<leftarrow> r;
     case x of Done a w \<Rightarrow> f a w | Blocked c \<Rightarrow> Some (Blocked c)
   }"

definition lock_out :: "addr \<Rightarrow> mutex wait_out \<Rightarrow> (net \<Rightarrow> 'a io option) \<Rightarrow> net \<Rightarrow> 'a io option" where
  "lock_out a r body w =
     (case r of
        WDone st m s \<Rightarrow> body (sk_upd a (sk_lock_update (\<lambda>_. m)) (w\<lparr>n_sched := s\<rparr>))
      | WBlock m c \<Rightarrow>
          Some (Blocked (map_ctl (\<lambda>s. sk_upd a (sk_lock_update (\<lambda>_. m)) (w\<lparr>n_sched := s\<rparr>)) c)))"

text \<open>\<open>mutex_lock(&sock->lock);\<close> followed by \<open>body\<close>, and the same for a task that had to wait.\<close>

definition with_lock :: "addr \<Rightarrow> (net \<Rightarrow> 'a io option) \<Rightarrow> net \<Rightarrow> 'a io option" where
  "with_lock a body w = do {
     r \<leftarrow> mutex_lock (sk_lock_addr a) (sk_lock (n_sock w a)) (n_sched w);
     lock_out a r body w
   }"

definition lock_resume :: "addr \<Rightarrow> addr \<Rightarrow> (net \<Rightarrow> 'a io option) \<Rightarrow> net \<Rightarrow> 'a io option" where
  "lock_resume a task body w = do {
     r \<leftarrow> mutex_lock_resume (sk_lock_addr a) task (sk_lock (n_sock w a)) (n_sched w);
     lock_out a r body w
   }"

definition sk_unlock :: "addr \<Rightarrow> net \<Rightarrow> net option" where
  "sk_unlock a w = do {
     (m, s) \<leftarrow> mutex_unlock (sk_lock (n_sock w a)) (n_sched w);
     Some (sk_upd a (sk_lock_update (\<lambda>_. m)) (w\<lparr>n_sched := s\<rparr>))
   }"

definition rx_out :: "addr \<Rightarrow> semaphore wait_out \<Rightarrow> (net \<Rightarrow> 'a io option) \<Rightarrow> net \<Rightarrow> 'a io option" where
  "rx_out a r body w =
     (case r of
        WDone st m s \<Rightarrow> body (sk_upd a (sk_rx_sem_update (\<lambda>_. m)) (w\<lparr>n_sched := s\<rparr>))
      | WBlock m c \<Rightarrow>
          Some (Blocked (map_ctl (\<lambda>s. sk_upd a (sk_rx_sem_update (\<lambda>_. m)) (w\<lparr>n_sched := s\<rparr>)) c)))"

text \<open>\<open>sem_wait(&sock->rx_sem);\<close> followed by \<open>body\<close>.\<close>

definition rx_wait :: "addr \<Rightarrow> (net \<Rightarrow> 'a io option) \<Rightarrow> net \<Rightarrow> 'a io option" where
  "rx_wait a body w = do {
     r \<leftarrow> sem_wait (rx_sem_addr a) (sk_rx_sem (n_sock w a)) (n_sched w);
     rx_out a r body w
   }"

definition rx_resume :: "addr \<Rightarrow> addr \<Rightarrow> (net \<Rightarrow> 'a io option) \<Rightarrow> net \<Rightarrow> 'a io option" where
  "rx_resume a task body w = do {
     r \<leftarrow> sem_wait_resume (rx_sem_addr a) task (sk_rx_sem (n_sock w a)) (n_sched w);
     rx_out a r body w
   }"

definition tx_out :: "addr \<Rightarrow> semaphore wait_out \<Rightarrow> (net \<Rightarrow> 'a io option) \<Rightarrow> net \<Rightarrow> 'a io option" where
  "tx_out a r body w =
     (case r of
        WDone st m s \<Rightarrow> body (sk_upd a (sk_tx_sem_update (\<lambda>_. m)) (w\<lparr>n_sched := s\<rparr>))
      | WBlock m c \<Rightarrow>
          Some (Blocked (map_ctl (\<lambda>s. sk_upd a (sk_tx_sem_update (\<lambda>_. m)) (w\<lparr>n_sched := s\<rparr>)) c)))"

definition tx_wait :: "addr \<Rightarrow> (net \<Rightarrow> 'a io option) \<Rightarrow> net \<Rightarrow> 'a io option" where
  "tx_wait a body w = do {
     r \<leftarrow> sem_wait (tx_sem_addr a) (sk_tx_sem (n_sock w a)) (n_sched w);
     tx_out a r body w
   }"

definition tx_resume :: "addr \<Rightarrow> addr \<Rightarrow> (net \<Rightarrow> 'a io option) \<Rightarrow> net \<Rightarrow> 'a io option" where
  "tx_resume a task body w = do {
     r \<leftarrow> sem_wait_resume (tx_sem_addr a) task (sk_tx_sem (n_sock w a)) (n_sched w);
     tx_out a r body w
   }"

definition rx_post :: "addr \<Rightarrow> net \<Rightarrow> net option" where
  "rx_post a w = do {
     (m, s) \<leftarrow> sem_post (sk_rx_sem (n_sock w a)) (n_sched w);
     Some (sk_upd a (sk_rx_sem_update (\<lambda>_. m)) (w\<lparr>n_sched := s\<rparr>))
   }"

definition tx_post :: "addr \<Rightarrow> net \<Rightarrow> net option" where
  "tx_post a w = do {
     (m, s) \<leftarrow> sem_post (sk_tx_sem (n_sock w a)) (n_sched w);
     Some (sk_upd a (sk_tx_sem_update (\<lambda>_. m)) (w\<lparr>n_sched := s\<rparr>))
   }"

text \<open>Queueing a received buffer on a socket, taking one off, and emptying a queue.\<close>

definition rx_push :: "addr \<Rightarrow> addr \<Rightarrow> net \<Rightarrow> net" where
  "rx_push a zb w =
     (let (q, z) = zbuf_queue_push zb (sk_rx_queue (n_sock w a), n_pool w)
      in sk_upd a (sk_rx_queue_update (\<lambda>_. q)) (w\<lparr>n_pool := z\<rparr>))"

definition rx_pop :: "addr \<Rightarrow> net \<Rightarrow> ptr \<times> net" where
  "rx_pop a w =
     (let (zb, q, z) = zbuf_queue_pop (sk_rx_queue (n_sock w a), n_pool w)
      in (zb, sk_upd a (sk_rx_queue_update (\<lambda>_. q)) (w\<lparr>n_pool := z\<rparr>)))"

end
