(* ===== verification/Tcp.thy ===== *)
theory Tcp
  imports Net
begin

text \<open>
  TCP and the socket interface of \<open>net/stack/tcp.c\<close>: retransmission timing, the checksum, sending a
  segment, looking up the socket of an incoming segment, the connection state machine (one definition
  per state), the socket calls, and the periodic timer.
\<close>

section \<open>Constants and headers\<close>

definition TCP_FLAG_FIN :: u8 where "TCP_FLAG_FIN = 0x01"
definition TCP_FLAG_SYN :: u8 where "TCP_FLAG_SYN = 0x02"
definition TCP_FLAG_RST :: u8 where "TCP_FLAG_RST = 0x04"
definition TCP_FLAG_PSH :: u8 where "TCP_FLAG_PSH = 0x08"
definition TCP_FLAG_ACK :: u8 where "TCP_FLAG_ACK = 0x10"

lemmas tcp_flag_defs =
  TCP_FLAG_FIN_def TCP_FLAG_SYN_def TCP_FLAG_RST_def TCP_FLAG_PSH_def TCP_FLAG_ACK_def

definition TCP_RTO_MIN :: u32 where "TCP_RTO_MIN = 200"
definition TCP_RTO_MAX :: u32 where "TCP_RTO_MAX = 60000"
definition TCP_RTO_INITIAL :: u32 where "TCP_RTO_INITIAL = 1000"
definition TCP_MSL :: u32 where "TCP_MSL = 30000"
definition TCP_TIME_WAIT_TIME :: u32 where "TCP_TIME_WAIT_TIME = 2 * TCP_MSL"

definition MS_TO_TICKS :: "u32 \<Rightarrow> u32" where
  "MS_TO_TICKS ms = (ms * of_int CONFIG_TICK_RATE_HZ) div 1000"

text \<open>The 20 bytes of a TCP header; the fields as they are stored, with checksum and urgent pointer zero.\<close>

definition tcp_hdr_bytes :: "u16 \<Rightarrow> u16 \<Rightarrow> u32 \<Rightarrow> u32 \<Rightarrow> u8 \<Rightarrow> u16 \<Rightarrow> u8 list" where
  "tcp_hdr_bytes sport dport seq ack flags win =
     bytes16 sport @ bytes16 dport @ bytes32 seq @ bytes32 ack @ [push_bit 4 5, flags] @
     bytes16 win @ bytes16 0 @ bytes16 0"

definition TCP_HDR_LEN :: "u8 \<Rightarrow> u8" where
  "TCP_HDR_LEN off_rsvd = push_bit 2 (drop_bit 4 off_rsvd AND 0x0F)"

section \<open>Sending\<close>

text \<open>The reset that answers the segment at \<open>tcp_in\<close>, with IP header at \<open>ip\<close>, in the buffer \<open>q\<close>.\<close>

definition tcp_send_rst :: "driver \<Rightarrow> addr \<Rightarrow> addr \<Rightarrow> addr \<Rightarrow> u16 \<Rightarrow> net \<Rightarrow> net option" where
  "tcp_send_rst drv q ip tcp_in tcp_len w =
     (case nb_alloc_tx 0 w of
        (None, w) \<Rightarrow> Some w
      | (Some zb, w) \<Rightarrow>
          (case nb_op zb (zbuf_push 20) w of
             (None, w) \<Rightarrow> Some (nb_free zb w)
           | (Some tcp, w) \<Rightarrow> do {
               seq_in \<leftarrow> nb_ld32 q (tcp_in + 4) w;
               ack_raw \<leftarrow> nb_ld32 q (tcp_in + 8) w;
               off \<leftarrow> nb_ld8 q (tcp_in + 12) w;
               flags_in \<leftarrow> nb_ld8 q (tcp_in + 13) w;
               sport \<leftarrow> nb_ld16 q tcp_in w;
               dport \<leftarrow> nb_ld16 q (tcp_in + 2) w;
               src \<leftarrow> nb_ld32 q (ip + 12) w;
               dst \<leftarrow> nb_ld32 q (ip + 16) w;
               let hdr = (if flags_in AND TCP_FLAG_ACK \<noteq> 0
                 then tcp_hdr_bytes dport sport ack_raw 0 TCP_FLAG_RST 0
                 else
                   let ack_seq = ntohl seq_in + (if flags_in AND TCP_FLAG_SYN \<noteq> 0 then 1 else 0) +
                         (if flags_in AND TCP_FLAG_FIN \<noteq> 0 then 1 else 0) +
                         (ucast tcp_len - ucast (TCP_HDR_LEN off))
                   in tcp_hdr_bytes dport sport 0 (htonl ack_seq) (TCP_FLAG_RST OR TCP_FLAG_ACK) 0);
               w \<leftarrow> nb_store zb tcp hdr w;
               (st, w) \<leftarrow> ip_output drv zb (ntohl dst) (ntohl src) IP_PROTO_TCP w;
               Some w
             }))"

definition tcp_update_rto :: "u32 \<Rightarrow> tcp_rto_t \<Rightarrow> tcp_rto_t" where
  "tcp_update_rto rtt r =
     (let r = (if rto_srtt r = 0 then r\<lparr>rto_srtt := rtt, rto_rttvar := rtt div 2\<rparr>
               else
                 let delta = (if rtt > rto_srtt r then rtt - rto_srtt r else rto_srtt r - rtt)
                 in r\<lparr>rto_rttvar := (3 * rto_rttvar r + delta) div 4,
                      rto_srtt := (7 * rto_srtt r + rtt) div 8\<rparr>);
          r = r\<lparr>rto_rto := rto_srtt r + 4 * rto_rttvar r\<rparr>;
          r = (if rto_rto r < TCP_RTO_MIN then r\<lparr>rto_rto := TCP_RTO_MIN\<rparr> else r)
      in if rto_rto r > TCP_RTO_MAX then r\<lparr>rto_rto := TCP_RTO_MAX\<rparr> else r)"

definition tcp_init_rto :: tcp_rto_t where
  "tcp_init_rto = \<lparr>rto_rto = TCP_RTO_INITIAL, rto_srtt = 0, rto_rttvar = 0, rto_last_tx_time = 0,
     rto_retries = 0, rto_timer_active = False\<rparr>"

text \<open>The segment's bytes as big-endian words, an odd byte at the end in the high half.\<close>

fun sum_be :: "u8 list \<Rightarrow> u32 \<Rightarrow> u32" where
  "sum_be (a # b # bs) acc = sum_be bs (acc + ucast (be16 a b))"
| "sum_be [a] acc = acc + ucast (be16 a 0)"
| "sum_be [] acc = acc"

definition tcp_checksum :: "u32 \<Rightarrow> u32 \<Rightarrow> u8 list \<Rightarrow> u16" where
  "tcp_checksum src dst seg =
     NOT (ucast (fold_sum (sum_be seg
       (ucast (inet_pseudo_checksum src dst IP_PROTO_TCP (of_nat (length seg)))))))"

text \<open>The segment is built in \<open>data\<close>, or in a fresh buffer when that is \<open>NULL\<close>.\<close>

definition tcp_build_segment :: "driver \<Rightarrow> addr \<Rightarrow> u8 \<Rightarrow> bool \<Rightarrow> addr \<Rightarrow> net \<Rightarrow> (status \<times> net) option" where
  "tcp_build_segment drv a flags fresh zb w =
     (case nb_op zb (zbuf_push 20) w of
        (None, w) \<Rightarrow> Some (STATUS_NO_MEM, if fresh then nb_free zb w else w)
      | (Some tcp, w) \<Rightarrow> do {
          let sk = n_sock w a;
          w \<leftarrow> nb_store zb tcp (tcp_hdr_bytes (htons (sa_port (sk_local sk))) (htons (sa_port (sk_remote sk)))
                 (htonl (sk_snd_nxt sk)) (htonl (sk_rcv_nxt sk)) flags (htons (ucast (sk_rcv_wnd sk)))) w;
          let data_len = zb_len (nb_get zb w) - 20;
          let w = (if flags AND (TCP_FLAG_SYN OR TCP_FLAG_FIN) \<noteq> 0
                   then sk_upd a (\<lambda>k. k\<lparr>sk_snd_nxt := sk_snd_nxt k + 1\<rparr>) w else w);
          let w = sk_upd a (\<lambda>k. k\<lparr>sk_snd_nxt := sk_snd_nxt k + ucast data_len\<rparr>) w;
          ip_output drv zb (sa_addr (sk_local sk)) (sa_addr (sk_remote sk)) IP_PROTO_TCP w
        })"

definition tcp_send_segment :: "driver \<Rightarrow> addr \<Rightarrow> u8 \<Rightarrow> ptr \<Rightarrow> net \<Rightarrow> (status \<times> net) option" where
  "tcp_send_segment drv a flags data w =
     (case data of
        Some zb \<Rightarrow> tcp_build_segment drv a flags False zb w
      | None \<Rightarrow>
          (case nb_alloc_tx 0 w of
             (None, w) \<Rightarrow> Some (STATUS_NO_MEM, w)
           | (Some zb, w) \<Rightarrow> tcp_build_segment drv a flags True zb w))"

text \<open>A call whose status is ignored.\<close>

definition tcp_send_ctl :: "driver \<Rightarrow> addr \<Rightarrow> u8 \<Rightarrow> net \<Rightarrow> net option" where
  "tcp_send_ctl drv a flags w = do { (st, w) \<leftarrow> tcp_send_segment drv a flags None w; Some w }"

section \<open>Connection lookup\<close>

text \<open>The two list walks; \<open>None\<close> when a list is cyclic and holds no match.\<close>

partial_function (option) find_conn ::
    "(addr \<Rightarrow> socket) \<Rightarrow> u16 \<Rightarrow> u32 \<Rightarrow> u16 \<Rightarrow> ptr \<Rightarrow> ptr option" where
  "find_conn sk lport rip rport p =
     (case p of
        None \<Rightarrow> Some None
      | Some a \<Rightarrow>
          if sa_port (sk_local (sk a)) = lport \<and> sa_port (sk_remote (sk a)) = rport \<and>
             sa_addr (sk_remote (sk a)) = rip
          then Some (Some a) else find_conn sk lport rip rport (sk_next (sk a)))"

partial_function (option) find_listen :: "(addr \<Rightarrow> socket) \<Rightarrow> u16 \<Rightarrow> ptr \<Rightarrow> ptr option" where
  "find_listen sk lport p =
     (case p of
        None \<Rightarrow> Some None
      | Some a \<Rightarrow>
          if sa_port (sk_local (sk a)) = lport then Some (Some a)
          else find_listen sk lport (sk_next (sk a)))"

definition tcp_find_socket :: "u16 \<Rightarrow> u32 \<Rightarrow> u16 \<Rightarrow> net \<Rightarrow> ptr option" where
  "tcp_find_socket lport rip rport w = do {
     l \<leftarrow> spin_lock (n_tcp_lock w);
     r \<leftarrow> find_conn (n_sock w) lport rip rport (n_conn w);
     case r of Some a \<Rightarrow> Some (Some a) | None \<Rightarrow> find_listen (n_sock w) lport (n_listen w)
   }"

section \<open>Segment arrival\<close>

text \<open>What \<open>tcp_input\<close> reads from the headers before it turns to the socket.\<close>

record tcp_seg =
  ts_src_ip :: u32
  ts_src_port :: u16
  ts_seq :: u32
  ts_ack :: u32
  ts_flags :: u8
  ts_hdr_len :: u8

abbreviation has_flag :: "tcp_seg \<Rightarrow> u8 \<Rightarrow> bool" where
  "has_flag g f \<equiv> ts_flags g AND f \<noteq> 0"

definition tcp_in_listen :: "driver \<Rightarrow> addr \<Rightarrow> tcp_seg \<Rightarrow> net \<Rightarrow> net option" where
  "tcp_in_listen drv a g w =
     (if has_flag g TCP_FLAG_SYN then do {
        let now = get_system_ticks (n_sched w);
        let w = sk_upd a (\<lambda>k. k\<lparr>sk_remote := \<lparr>sa_addr = ts_src_ip g, sa_port = ts_src_port g\<rparr>,
                  sk_rcv_nxt := ts_seq g + 1, sk_snd_nxt := now, sk_snd_una := now,
                  sk_state := TCP_SYN_RECEIVED\<rparr>) w;
        tcp_send_ctl drv a (TCP_FLAG_SYN OR TCP_FLAG_ACK) w
      } else Some w)"

definition tcp_in_syn_sent :: "driver \<Rightarrow> addr \<Rightarrow> tcp_seg \<Rightarrow> net \<Rightarrow> net option" where
  "tcp_in_syn_sent drv a g w =
     (if ts_flags g AND (TCP_FLAG_SYN OR TCP_FLAG_ACK) = TCP_FLAG_SYN OR TCP_FLAG_ACK then do {
        let w = sk_upd a (\<lambda>k. k\<lparr>sk_rcv_nxt := ts_seq g + 1, sk_snd_una := ts_ack g,
                  sk_state := TCP_ESTABLISHED\<rparr>) w;
        w \<leftarrow> tcp_send_ctl drv a TCP_FLAG_ACK w;
        tx_post a w
      } else Some w)"

definition tcp_in_syn_received :: "addr \<Rightarrow> tcp_seg \<Rightarrow> net \<Rightarrow> net option" where
  "tcp_in_syn_received a g w =
     (if has_flag g TCP_FLAG_ACK
      then rx_post a (sk_upd a (\<lambda>k. k\<lparr>sk_snd_una := ts_ack g, sk_state := TCP_ESTABLISHED\<rparr>) w)
      else Some w)"

text \<open>Data in state \<open>TCP_ESTABLISHED\<close>: the buffer left to the caller is \<open>NULL\<close> when it was queued.\<close>

definition tcp_in_data :: "driver \<Rightarrow> addr \<Rightarrow> tcp_seg \<Rightarrow> addr \<Rightarrow> net \<Rightarrow> (ptr \<times> net) option" where
  "tcp_in_data drv a g zb w =
     (if ucast (ts_hdr_len g) < zb_len (nb_get zb w) then
        let (p, w) = nb_op zb (zbuf_pull (ucast (ts_hdr_len g))) w in
        if ts_seq g = sk_rcv_nxt (n_sock w a) then do {
          let w = sk_upd a (\<lambda>k. k\<lparr>sk_rcv_nxt := sk_rcv_nxt k + ucast (zb_len (nb_get zb w))\<rparr>) w;
          w \<leftarrow> rx_post a (rx_push a zb w);
          w \<leftarrow> tcp_send_ctl drv a TCP_FLAG_ACK w;
          Some (None, w)
        } else Some (Some zb, w)
      else Some (Some zb, w))"

definition tcp_in_established :: "driver \<Rightarrow> addr \<Rightarrow> tcp_seg \<Rightarrow> addr \<Rightarrow> net \<Rightarrow> (ptr \<times> net) option" where
  "tcp_in_established drv a g zb w = do {
     let w = (if has_flag g TCP_FLAG_ACK then sk_upd a (sk_snd_una_update (\<lambda>_. ts_ack g)) w else w);
     (p, w) \<leftarrow> tcp_in_data drv a g zb w;
     w \<leftarrow> (if has_flag g TCP_FLAG_FIN then do {
            let w = sk_upd a (\<lambda>k. k\<lparr>sk_rcv_nxt := sk_rcv_nxt k + 1, sk_state := TCP_CLOSE_WAIT\<rparr>) w;
            w \<leftarrow> tcp_send_ctl drv a TCP_FLAG_ACK w;
            rx_post a w
          } else Some w);
     Some (p, w)
   }"

definition tcp_in_fin_wait_1 :: "driver \<Rightarrow> addr \<Rightarrow> tcp_seg \<Rightarrow> net \<Rightarrow> net option" where
  "tcp_in_fin_wait_1 drv a g w =
     (if has_flag g TCP_FLAG_ACK then
        let w = sk_upd a (sk_snd_una_update (\<lambda>_. ts_ack g)) w in
        if has_flag g TCP_FLAG_FIN then
          let w = sk_upd a (\<lambda>k. k\<lparr>sk_rcv_nxt := sk_rcv_nxt k + 1, sk_state := TCP_TIME_WAIT\<rparr>) w
          in tcp_send_ctl drv a TCP_FLAG_ACK w
        else Some (sk_upd a (sk_state_update (\<lambda>_. TCP_FIN_WAIT_2)) w)
      else Some w)"

definition tcp_in_fin_wait_2 :: "driver \<Rightarrow> addr \<Rightarrow> tcp_seg \<Rightarrow> net \<Rightarrow> net option" where
  "tcp_in_fin_wait_2 drv a g w =
     (if has_flag g TCP_FLAG_FIN then
        let w = sk_upd a (\<lambda>k. k\<lparr>sk_rcv_nxt := sk_rcv_nxt k + 1, sk_state := TCP_TIME_WAIT\<rparr>) w
        in tcp_send_ctl drv a TCP_FLAG_ACK w
      else Some w)"

definition tcp_in_last_ack :: "addr \<Rightarrow> tcp_seg \<Rightarrow> net \<Rightarrow> net option" where
  "tcp_in_last_ack a g w =
     (if has_flag g TCP_FLAG_ACK then Some (sk_upd a (sk_state_update (\<lambda>_. TCP_CLOSED)) w) else Some w)"

definition keep_buf :: "addr \<Rightarrow> net option \<Rightarrow> (ptr \<times> net) option" where
  "keep_buf zb r = do { w \<leftarrow> r; Some (Some zb, w) }"

text \<open>The \<open>switch\<close> over the socket's state.\<close>

definition tcp_switch :: "driver \<Rightarrow> addr \<Rightarrow> tcp_seg \<Rightarrow> addr \<Rightarrow> net \<Rightarrow> (ptr \<times> net) option" where
  "tcp_switch drv a g zb w =
     (case sk_state (n_sock w a) of
        TCP_LISTEN \<Rightarrow> keep_buf zb (tcp_in_listen drv a g w)
      | TCP_SYN_SENT \<Rightarrow> keep_buf zb (tcp_in_syn_sent drv a g w)
      | TCP_SYN_RECEIVED \<Rightarrow> keep_buf zb (tcp_in_syn_received a g w)
      | TCP_ESTABLISHED \<Rightarrow> tcp_in_established drv a g zb w
      | TCP_FIN_WAIT_1 \<Rightarrow> keep_buf zb (tcp_in_fin_wait_1 drv a g w)
      | TCP_FIN_WAIT_2 \<Rightarrow> keep_buf zb (tcp_in_fin_wait_2 drv a g w)
      | TCP_CLOSE_WAIT \<Rightarrow> Some (Some zb, w)
      | TCP_LAST_ACK \<Rightarrow> keep_buf zb (tcp_in_last_ack a g w)
      | TCP_TIME_WAIT \<Rightarrow> Some (Some zb, w)
      | _ \<Rightarrow> Some (Some zb, w))"

text \<open>From behind \<open>mutex_lock\<close> to the end of \<open>tcp_input\<close>.\<close>

definition tcp_input_locked :: "driver \<Rightarrow> addr \<Rightarrow> tcp_seg \<Rightarrow> addr \<Rightarrow> net \<Rightarrow> unit io option" where
  "tcp_input_locked drv a g zb w = do {
     (p, w) \<leftarrow> tcp_switch drv a g zb w;
     w \<leftarrow> sk_unlock a w;
     Some (Done () (case p of None \<Rightarrow> w | Some b \<Rightarrow> nb_free b w))
   }"

definition tcp_input :: "driver \<Rightarrow> addr \<Rightarrow> addr \<Rightarrow> net \<Rightarrow> unit io option" where
  "tcp_input drv nif zb w =
     (if zb_len (nb_get zb w) < 20 then Some (Done () (nb_free zb w))
      else do {
        let tcp = zb_data (nb_get zb w);
        let ip = tcp - 20;
        let tcp_len = zb_len (nb_get zb w);
        src \<leftarrow> nb_ld32 zb (ip + 12) w;
        dst \<leftarrow> nb_ld32 zb (ip + 16) w;
        seg \<leftarrow> nb_load zb tcp (unat tcp_len) w;
        if tcp_checksum (ntohl src) (ntohl dst) seg \<noteq> 0
        then Some (Done () (nb_free zb (nif_upd nif (\<lambda>n. n\<lparr>nif_rx_errors := nif_rx_errors n + 1\<rparr>) w)))
        else do {
          sport \<leftarrow> nb_ld16 zb tcp w;
          dport \<leftarrow> nb_ld16 zb (tcp + 2) w;
          seq \<leftarrow> nb_ld32 zb (tcp + 4) w;
          ack \<leftarrow> nb_ld32 zb (tcp + 8) w;
          off \<leftarrow> nb_ld8 zb (tcp + 12) w;
          flags \<leftarrow> nb_ld8 zb (tcp + 13) w;
          let g = \<lparr>ts_src_ip = ntohl src, ts_src_port = ntohs sport, ts_seq = ntohl seq,
                   ts_ack = ntohl ack, ts_flags = flags, ts_hdr_len = TCP_HDR_LEN off\<rparr>;
          sock \<leftarrow> tcp_find_socket (ntohs dport) (ntohl src) (ntohs sport) w;
          case sock of
            None \<Rightarrow> do {
              w \<leftarrow> (if flags AND TCP_FLAG_RST = 0 then tcp_send_rst drv zb ip tcp tcp_len w else Some w);
              Some (Done () (nb_free zb w))
            }
          | Some a \<Rightarrow> with_lock a (tcp_input_locked drv a g zb) w
        }
      })"

section \<open>Socket calls\<close>

definition tcp_output :: "driver \<Rightarrow> addr \<Rightarrow> addr \<Rightarrow> net \<Rightarrow> (status \<times> net) option" where
  "tcp_output drv a zb w =
     (if sk_state (n_sock w a) \<noteq> TCP_ESTABLISHED then Some (STATUS_ERROR, nb_free zb w)
      else tcp_send_segment drv a (TCP_FLAG_ACK OR TCP_FLAG_PSH) (Some zb) w)"

text \<open>
  The index \<open>fd % CONFIG_NET_MAX_SOCKETS\<close>, with C's sign rule: a negative remainder is outside the
  table. \<open>sock_at\<close> reads the table.
\<close>

definition fd_slot :: "int \<Rightarrow> nat option" where
  "fd_slot fd =
     (if 0 \<le> fd then Some (nat (fd mod int CONFIG_NET_MAX_SOCKETS))
      else if (- fd) mod int CONFIG_NET_MAX_SOCKETS = 0 then Some 0 else None)"

definition sock_at :: "int \<Rightarrow> net \<Rightarrow> ptr option" where
  "sock_at fd w = do { i \<leftarrow> fd_slot fd; Some (n_table w i) }"

definition sock_socket :: "int \<Rightarrow> net \<Rightarrow> (int \<times> net) option" where
  "sock_socket type w = do {
     (p, h) \<leftarrow> heap_alloc sizeof_socket (n_heap w);
     let w = w\<lparr>n_heap := h\<rparr>;
     case p of
       None \<Rightarrow> Some (-1, w)
     | Some a \<Rightarrow> do {
         let w = sk_upd a (\<lambda>k. k\<lparr>sk_type := type, sk_state := TCP_CLOSED,
               sk_local := \<lparr>sa_addr = 0, sa_port = 0\<rparr>, sk_remote := \<lparr>sa_addr = 0, sa_port = 0\<rparr>,
               sk_snd_una := 0, sk_snd_nxt := 0, sk_snd_wnd := of_int CONFIG_TCP_WINDOW_SIZE,
               sk_rcv_nxt := 0, sk_rcv_wnd := of_int CONFIG_TCP_WINDOW_SIZE, sk_flags := 0,
               sk_timeout := 0, sk_rx_queue := zbuf_queue_init, sk_tx_queue := zbuf_queue_init,
               sk_rx_sem := sem_init 0, sk_tx_sem := sem_init 0, sk_lock := mutex_init\<rparr>) w;
         let fd = n_next_fd w;
         i \<leftarrow> fd_slot fd;
         let w = w\<lparr>n_next_fd := fd + 1, n_table := (n_table w)(i := Some a)\<rparr>;
         Some (fd, sk_upd a (sk_fd_update (\<lambda>_. fd)) w)
       }
   }"

text \<open>Here and below, \<open>_locked\<close> is the rest of a call from behind \<open>mutex_lock\<close> on.\<close>

definition bind_locked :: "addr \<Rightarrow> sockaddr \<Rightarrow> net \<Rightarrow> int io option" where
  "bind_locked a addr w = do {
     w \<leftarrow> sk_unlock a (sk_upd a (sk_local_update (\<lambda>_. addr)) w);
     Some (Done 0 w)
   }"

definition sock_bind :: "int \<Rightarrow> sockaddr \<Rightarrow> net \<Rightarrow> int io option" where
  "sock_bind fd addr w = do {
     p \<leftarrow> sock_at fd w;
     case p of
       None \<Rightarrow> Some (Done (-1) w)
     | Some a \<Rightarrow> with_lock a (bind_locked a addr) w
   }"

text \<open>Pushing a socket on a list under \<open>tcp_lock\<close>.\<close>

definition tcp_lock_irq :: "net \<Rightarrow> net option" where
  "tcp_lock_irq w = do {
     (l, s) \<leftarrow> obj_lock (n_tcp_lock w) (n_sched w);
     Some (w\<lparr>n_tcp_lock := l, n_sched := s\<rparr>)
   }"

definition tcp_unlock_irq :: "net \<Rightarrow> net" where
  "tcp_unlock_irq w =
     (let (l, s) = obj_unlock (n_tcp_lock w) (n_sched w) in w\<lparr>n_tcp_lock := l, n_sched := s\<rparr>)"

definition listen_add :: "addr \<Rightarrow> net \<Rightarrow> net option" where
  "listen_add a w = do {
     w \<leftarrow> tcp_lock_irq w;
     let w = sk_upd a (sk_next_update (\<lambda>_. n_listen w)) w;
     Some (tcp_unlock_irq (w\<lparr>n_listen := Some a\<rparr>))
   }"

definition conn_add :: "addr \<Rightarrow> net \<Rightarrow> net option" where
  "conn_add a w = do {
     w \<leftarrow> tcp_lock_irq w;
     let w = sk_upd a (sk_next_update (\<lambda>_. n_conn w)) w;
     Some (tcp_unlock_irq (w\<lparr>n_conn := Some a\<rparr>))
   }"

definition listen_locked :: "addr \<Rightarrow> net \<Rightarrow> int io option" where
  "listen_locked a w = do {
     w \<leftarrow> sk_unlock a (sk_upd a (sk_state_update (\<lambda>_. TCP_LISTEN)) w);
     w \<leftarrow> listen_add a w;
     Some (Done 0 w)
   }"

definition sock_listen :: "int \<Rightarrow> net \<Rightarrow> int io option" where
  "sock_listen fd w = do {
     p \<leftarrow> sock_at fd w;
     case p of
       None \<Rightarrow> Some (Done (-1) w)
     | Some a \<Rightarrow>
         if sk_type (n_sock w a) \<noteq> SOCK_STREAM then Some (Done (-1) w)
         else with_lock a (listen_locked a) w
   }"

text \<open>The result of \<open>sock_accept\<close>: the descriptor, and what was stored at \<open>addr\<close>.\<close>

definition accept_ready :: "int \<Rightarrow> addr \<Rightarrow> net \<Rightarrow> (int \<times> sockaddr option) io option" where
  "accept_ready fd a w = Some (Done (fd, Some (sk_remote (n_sock w a))) w)"

definition sock_accept :: "int \<Rightarrow> net \<Rightarrow> (int \<times> sockaddr option) io option" where
  "sock_accept fd w = do {
     p \<leftarrow> sock_at fd w;
     case p of
       None \<Rightarrow> Some (Done (-1, None) w)
     | Some a \<Rightarrow>
         if sk_state (n_sock w a) \<noteq> TCP_LISTEN then Some (Done (-1, None) w)
         else rx_wait a (accept_ready fd a) w
   }"

definition connect_done :: "addr \<Rightarrow> net \<Rightarrow> int io option" where
  "connect_done a w = Some (Done (if sk_state (n_sock w a) = TCP_ESTABLISHED then 0 else -1) w)"

definition connect_locked :: "driver \<Rightarrow> addr \<Rightarrow> sockaddr \<Rightarrow> net \<Rightarrow> int io option" where
  "connect_locked drv a addr w = do {
     let now = get_system_ticks (n_sched w);
     let w = sk_upd a (sk_remote_update (\<lambda>_. addr)) w;
     let w = (if sa_port (sk_local (n_sock w a)) = 0
              then sk_upd a (sk_local_update (sa_port_update (\<lambda>_. 49152 + ucast (now mod 16384)))) w else w);
     let w = (if sa_addr (sk_local (n_sock w a)) = 0
              then case netif_get_default w of
                  None \<Rightarrow> w
                | Some nif \<Rightarrow> sk_upd a (sk_local_update (sa_addr_update (\<lambda>_. nif_ip (n_nif w nif)))) w
              else w);
     let w = sk_upd a (\<lambda>k. k\<lparr>sk_snd_nxt := now, sk_snd_una := now, sk_state := TCP_SYN_SENT\<rparr>) w;
     w \<leftarrow> tcp_send_ctl drv a TCP_FLAG_SYN w;
     w \<leftarrow> sk_unlock a w;
     w \<leftarrow> conn_add a w;
     tx_wait a (connect_done a) w
   }"

definition sock_connect :: "driver \<Rightarrow> int \<Rightarrow> sockaddr \<Rightarrow> net \<Rightarrow> int io option" where
  "sock_connect drv fd addr w = do {
     p \<leftarrow> sock_at fd w;
     case p of
       None \<Rightarrow> Some (Done (-1) w)
     | Some a \<Rightarrow> with_lock a (connect_locked drv a addr) w
   }"

text \<open>
  \<open>zbuf_alloc_tx(len)\<close>, \<open>zbuf_put(zb, len)\<close> and the copy loop of the two sending calls: the length is
  a \<open>size_t\<close> that the buffer calls take as 16 bits.
\<close>

definition sock_copy_in :: "u8 list \<Rightarrow> net \<Rightarrow> (ptr \<times> net) option" where
  "sock_copy_in data w =
     (case nb_alloc_tx (of_nat (length data)) w of
        (None, w) \<Rightarrow> Some (None, w)
      | (Some zb, w) \<Rightarrow>
          let (p, w) = nb_op zb (zbuf_put (of_nat (length data))) w in
          if data = [] then Some (Some zb, w)
          else do { dst \<leftarrow> p; w \<leftarrow> nb_store zb dst data w; Some (Some zb, w) })"

definition sock_send :: "driver \<Rightarrow> int \<Rightarrow> u8 list \<Rightarrow> net \<Rightarrow> (int \<times> net) option" where
  "sock_send drv fd data w = do {
     p \<leftarrow> sock_at fd w;
     case p of
       None \<Rightarrow> Some (-1, w)
     | Some a \<Rightarrow> do {
         (zb, w) \<leftarrow> sock_copy_in data w;
         case zb of
           None \<Rightarrow> Some (-1, w)
         | Some b \<Rightarrow> do {
             (ret, w) \<leftarrow> tcp_output drv a b w;
             Some (if ret = STATUS_OK then int (length data) else -1, w)
           }
       }
   }"

text \<open>Copying a received buffer out: at most \<open>len\<close> bytes, and the buffer is freed.\<close>

definition sock_copy_out :: "addr \<Rightarrow> nat \<Rightarrow> net \<Rightarrow> (u8 list \<times> net) option" where
  "sock_copy_out zb len w = do {
     let copy_len = (if unat (zb_len (nb_get zb w)) < len then unat (zb_len (nb_get zb w)) else len);
     bs \<leftarrow> nb_load zb (zb_data (nb_get zb w)) copy_len w;
     Some (bs, nb_free zb w)
   }"

definition recv_ready :: "nat \<Rightarrow> addr \<Rightarrow> net \<Rightarrow> (int \<times> u8 list) io option" where
  "recv_ready len a w =
     (case rx_pop a w of
        (None, w) \<Rightarrow> Some (Done (if sk_state (n_sock w a) \<noteq> TCP_ESTABLISHED then 0 else -1, []) w)
      | (Some zb, w) \<Rightarrow> do {
          (bs, w) \<leftarrow> sock_copy_out zb len w;
          Some (Done (int (length bs), bs) w)
        })"

definition sock_recv :: "int \<Rightarrow> nat \<Rightarrow> net \<Rightarrow> (int \<times> u8 list) io option" where
  "sock_recv fd len w = do {
     p \<leftarrow> sock_at fd w;
     case p of
       None \<Rightarrow> Some (Done (-1, []) w)
     | Some a \<Rightarrow> rx_wait a (recv_ready len a) w
   }"

definition recv_zbuf_ready :: "addr \<Rightarrow> net \<Rightarrow> ptr io option" where
  "recv_zbuf_ready a w = (let (zb, w) = rx_pop a w in Some (Done zb w))"

definition sock_recv_zbuf :: "int \<Rightarrow> net \<Rightarrow> ptr io option" where
  "sock_recv_zbuf fd w = do {
     p \<leftarrow> sock_at fd w;
     case p of
       None \<Rightarrow> Some (Done None w)
     | Some a \<Rightarrow> rx_wait a (recv_zbuf_ready a) w
   }"

definition sock_send_zbuf :: "driver \<Rightarrow> int \<Rightarrow> addr \<Rightarrow> net \<Rightarrow> (int \<times> net) option" where
  "sock_send_zbuf drv fd zb w = do {
     p \<leftarrow> sock_at fd w;
     case p of
       None \<Rightarrow> Some (-1, nb_free zb w)
     | Some a \<Rightarrow> do {
         (ret, w) \<leftarrow> tcp_output drv a zb w;
         Some (if ret = STATUS_OK then 0 else -1, w)
       }
   }"

definition sock_sendto :: "driver \<Rightarrow> int \<Rightarrow> u8 list \<Rightarrow> sockaddr \<Rightarrow> net \<Rightarrow> (int \<times> net) option" where
  "sock_sendto drv fd data dst w = do {
     p \<leftarrow> sock_at fd w;
     case p of
       None \<Rightarrow> Some (-1, w)
     | Some a \<Rightarrow>
         if sk_type (n_sock w a) \<noteq> SOCK_DGRAM then Some (-1, w)
         else do {
           (zb, w) \<leftarrow> sock_copy_in data w;
           case zb of
             None \<Rightarrow> Some (-1, w)
           | Some b \<Rightarrow> do {
               (ret, w) \<leftarrow> udp_output drv b (sk_local (n_sock w a)) dst w;
               Some (if ret = STATUS_OK then int (length data) else -1, w)
             }
         }
   }"

definition recvfrom_ready :: "nat \<Rightarrow> addr \<Rightarrow> net \<Rightarrow> (int \<times> u8 list \<times> sockaddr option) io option" where
  "recvfrom_ready len a w =
     (case rx_pop a w of
        (None, w) \<Rightarrow> Some (Done (-1, [], None) w)
      | (Some zb, w) \<Rightarrow> do {
          let src = sk_remote (n_sock w a);
          (bs, w) \<leftarrow> sock_copy_out zb len w;
          Some (Done (int (length bs), bs, Some src) w)
        })"

definition sock_recvfrom :: "int \<Rightarrow> nat \<Rightarrow> net \<Rightarrow> (int \<times> u8 list \<times> sockaddr option) io option" where
  "sock_recvfrom fd len w = do {
     p \<leftarrow> sock_at fd w;
     case p of
       None \<Rightarrow> Some (Done (-1, [], None) w)
     | Some a \<Rightarrow>
         if sk_type (n_sock w a) \<noteq> SOCK_DGRAM then Some (Done (-1, [], None) w)
         else rx_wait a (recvfrom_ready len a) w
   }"

definition close_locked :: "driver \<Rightarrow> int \<Rightarrow> addr \<Rightarrow> net \<Rightarrow> int io option" where
  "close_locked drv fd a w = do {
     w \<leftarrow> (if sk_type (n_sock w a) = SOCK_STREAM \<and> sk_state (n_sock w a) = TCP_ESTABLISHED
           then tcp_send_ctl drv a (TCP_FLAG_FIN OR TCP_FLAG_ACK)
                  (sk_upd a (sk_state_update (\<lambda>_. TCP_FIN_WAIT_1)) w)
           else Some w);
     w \<leftarrow> sk_unlock a w;
     (q, z) \<leftarrow> zbuf_queue_flush (sk_rx_queue (n_sock w a)) (n_pool w);
     let w = sk_upd a (sk_rx_queue_update (\<lambda>_. q)) (w\<lparr>n_pool := z\<rparr>);
     (q, z) \<leftarrow> zbuf_queue_flush (sk_tx_queue (n_sock w a)) (n_pool w);
     let w = sk_upd a (sk_tx_queue_update (\<lambda>_. q)) (w\<lparr>n_pool := z\<rparr>);
     i \<leftarrow> fd_slot fd;
     let w = w\<lparr>n_table := (n_table w)(i := None)\<rparr>;
     h \<leftarrow> heap_free (Some a) (n_heap w);
     Some (Done 0 (w\<lparr>n_heap := h\<rparr>))
   }"

definition sock_close :: "driver \<Rightarrow> int \<Rightarrow> net \<Rightarrow> int io option" where
  "sock_close drv fd w = do {
     p \<leftarrow> sock_at fd w;
     case p of
       None \<Rightarrow> Some (Done (-1) w)
     | Some a \<Rightarrow> with_lock a (close_locked drv fd a) w
   }"

section \<open>The periodic timer\<close>

definition rto_upd :: "nat \<Rightarrow> (tcp_rto_t \<Rightarrow> tcp_rto_t) \<Rightarrow> net \<Rightarrow> net" where
  "rto_upd i f w = w\<lparr>n_rto := (n_rto w)(i := f (n_rto w i))\<rparr>"

text \<open>\<open>retries++; rto *= 2;\<close> with the upper bound, and the new transmission time.\<close>

definition rto_backoff :: "u32 \<Rightarrow> tcp_rto_t \<Rightarrow> tcp_rto_t" where
  "rto_backoff now r =
     (let r = r\<lparr>rto_retries := rto_retries r + 1, rto_rto := rto_rto r * 2\<rparr>;
          r = (if rto_rto r > TCP_RTO_MAX then r\<lparr>rto_rto := TCP_RTO_MAX\<rparr> else r)
      in r\<lparr>rto_last_tx_time := now\<rparr>)"

definition rto_expired :: "u32 \<Rightarrow> tcp_rto_t \<Rightarrow> bool" where
  "rto_expired now r \<longleftrightarrow> now - rto_last_tx_time r \<ge> MS_TO_TICKS (rto_rto r)"

definition sk_rewind :: "addr \<Rightarrow> net \<Rightarrow> net" where
  "sk_rewind a w = sk_upd a (\<lambda>k. k\<lparr>sk_snd_nxt := sk_snd_una k\<rparr>) w"

definition sk_close :: "addr \<Rightarrow> net \<Rightarrow> net" where
  "sk_close a w = sk_upd a (sk_state_update (\<lambda>_. TCP_CLOSED)) w"

definition timer_time_wait :: "u32 \<Rightarrow> addr \<Rightarrow> nat \<Rightarrow> net \<Rightarrow> net" where
  "timer_time_wait now a i w =
     (if sk_state (n_sock w a) = TCP_TIME_WAIT \<and>
         now - rto_last_tx_time (n_rto w i) \<ge> MS_TO_TICKS TCP_TIME_WAIT_TIME
      then sk_close a w else w)"

definition timer_syn :: "driver \<Rightarrow> u32 \<Rightarrow> addr \<Rightarrow> nat \<Rightarrow> net \<Rightarrow> net option" where
  "timer_syn drv now a i w =
     (if (sk_state (n_sock w a) = TCP_SYN_SENT \<or> sk_state (n_sock w a) = TCP_SYN_RECEIVED) \<and>
         rto_timer_active (n_rto w i) \<and> rto_expired now (n_rto w i)
      then if rto_retries (n_rto w i) < 5 then
          let w = rto_upd i (rto_backoff now) w in
          if sk_state (n_sock w a) = TCP_SYN_SENT then tcp_send_ctl drv a TCP_FLAG_SYN (sk_rewind a w)
          else tcp_send_ctl drv a (TCP_FLAG_SYN OR TCP_FLAG_ACK) (sk_rewind a w)
        else tx_post a (sk_close a w)
      else Some w)"

definition timer_established :: "driver \<Rightarrow> u32 \<Rightarrow> addr \<Rightarrow> nat \<Rightarrow> net \<Rightarrow> net option" where
  "timer_established drv now a i w =
     (if sk_state (n_sock w a) = TCP_ESTABLISHED \<and> rto_timer_active (n_rto w i) \<and>
         sk_snd_una (n_sock w a) < sk_snd_nxt (n_sock w a) \<and> rto_expired now (n_rto w i)
      then if rto_retries (n_rto w i) < 10 then
          let w = rto_upd i (rto_backoff now) w in
          (case zbuf_queue_peek (sk_tx_queue (n_sock w a)) of
             None \<Rightarrow> Some w
           | Some zb \<Rightarrow> do {
               let w = w\<lparr>n_pool := snd (zbuf_ref (Some zb) (n_pool w))\<rparr>;
               (st, w) \<leftarrow> tcp_send_segment drv a (TCP_FLAG_ACK OR TCP_FLAG_PSH) (Some zb) (sk_rewind a w);
               Some w
             })
        else rx_post a (sk_close a w)
      else Some w)"

definition timer_fin :: "driver \<Rightarrow> u32 \<Rightarrow> addr \<Rightarrow> nat \<Rightarrow> net \<Rightarrow> net option" where
  "timer_fin drv now a i w =
     (if (sk_state (n_sock w a) = TCP_FIN_WAIT_1 \<or> sk_state (n_sock w a) = TCP_LAST_ACK) \<and>
         rto_timer_active (n_rto w i) \<and> rto_expired now (n_rto w i)
      then if rto_retries (n_rto w i) < 5
        then tcp_send_ctl drv a (TCP_FLAG_FIN OR TCP_FLAG_ACK) (sk_rewind a (rto_upd i (rto_backoff now) w))
        else Some (sk_close a w)
      else Some w)"

text \<open>The body of the loop for the socket at \<open>a\<close>, from behind \<open>mutex_lock\<close> to \<open>mutex_unlock\<close>.\<close>

definition tcp_timer_locked :: "driver \<Rightarrow> u32 \<Rightarrow> addr \<Rightarrow> net \<Rightarrow> unit io option" where
  "tcp_timer_locked drv now a w = do {
     i \<leftarrow> fd_slot (sk_fd (n_sock w a));
     let w = timer_time_wait now a i w;
     w \<leftarrow> timer_syn drv now a i w;
     w \<leftarrow> timer_established drv now a i w;
     w \<leftarrow> timer_fin drv now a i w;
     w \<leftarrow> sk_unlock a w;
     Some (Done () w)
   }"

partial_function (option) tcp_timer_loop :: "driver \<Rightarrow> u32 \<Rightarrow> ptr \<Rightarrow> net \<Rightarrow> unit io option" where
  "tcp_timer_loop drv now p w =
     (case p of
        None \<Rightarrow> Some (Done () w)
      | Some a \<Rightarrow>
          let nx = sk_next (n_sock w a) in
          with_lock a (tcp_timer_locked drv now a) w \<bind>
          (\<lambda>r. case r of Blocked c \<Rightarrow> Some (Blocked c) | Done u w \<Rightarrow> tcp_timer_loop drv now nx w))"

text \<open>
  \<open>tcp_lock\<close> is taken with interrupts on and stays taken while the loop waits for a socket's lock;
  \<open>tcp_timer_resume\<close> is what follows such a wait at the socket \<open>a\<close> with successor \<open>nx\<close>.
\<close>

definition tcp_timer_end :: "unit io \<Rightarrow> unit io option" where
  "tcp_timer_end r =
     (case r of
        Blocked c \<Rightarrow> Some (Blocked c)
      | Done u w \<Rightarrow> Some (Done () (w\<lparr>n_tcp_lock := spin_unlock (n_tcp_lock w)\<rparr>)))"

definition tcp_timer :: "driver \<Rightarrow> net \<Rightarrow> unit io option" where
  "tcp_timer drv w = do {
     l \<leftarrow> spin_lock (n_tcp_lock w);
     let w = w\<lparr>n_tcp_lock := l\<rparr>;
     r \<leftarrow> tcp_timer_loop drv (get_system_ticks (n_sched w)) (n_conn w) w;
     tcp_timer_end r
   }"

definition tcp_timer_resume :: "driver \<Rightarrow> u32 \<Rightarrow> addr \<Rightarrow> ptr \<Rightarrow> addr \<Rightarrow> net \<Rightarrow> unit io option" where
  "tcp_timer_resume drv now a nx task w = do {
     r \<leftarrow> lock_resume a task (tcp_timer_locked drv now a) w;
     case r of
       Blocked c \<Rightarrow> Some (Blocked c)
     | Done u w \<Rightarrow> do { r \<leftarrow> tcp_timer_loop drv now nx w; tcp_timer_end r }
   }"

end
