(* ===== verification/Net_Input.thy ===== *)
theory Net_Input
  imports Tcp
begin

text \<open>
  The receiving half of \<open>net/stack/net_core.c\<close>: UDP and ICMP input, IP input with its dispatch to the
  transports, ARP input, and \<open>netif_input\<close>, where the driver hands a frame to the stack.
\<close>

section \<open>UDP and ICMP\<close>

text \<open>The search for a datagram socket on a port, from table slot \<open>i\<close> on for \<open>n\<close> more slots.\<close>

fun udp_find :: "(nat \<Rightarrow> ptr) \<Rightarrow> (addr \<Rightarrow> socket) \<Rightarrow> u16 \<Rightarrow> nat \<Rightarrow> nat \<Rightarrow> ptr" where
  "udp_find tab sk port i 0 = None"
| "udp_find tab sk port i (Suc n) =
     (case tab i of
        Some a \<Rightarrow>
          if sk_type (sk a) = SOCK_DGRAM \<and> sa_port (sk_local (sk a)) = port then Some a
          else udp_find tab sk port (i + 1) n
      | None \<Rightarrow> udp_find tab sk port (i + 1) n)"

definition udp_input :: "addr \<Rightarrow> net \<Rightarrow> net option" where
  "udp_input zb w =
     (if zb_len (nb_get zb w) < 8 then Some (nb_free zb w)
      else do {
        let udp = zb_data (nb_get zb w);
        sport \<leftarrow> nb_ld16 zb udp w;
        dport \<leftarrow> nb_ld16 zb (udp + 2) w;
        src \<leftarrow> nb_ld32 zb (udp - 20 + 12) w;
        case udp_find (n_table w) (n_sock w) (ntohs dport) 0 CONFIG_NET_MAX_SOCKETS of
          None \<Rightarrow> Some (nb_free zb w)
        | Some a \<Rightarrow> do {
            let w = sk_upd a (sk_remote_update (\<lambda>_. \<lparr>sa_addr = ntohl src, sa_port = ntohs sport\<rparr>)) w;
            let (p, w) = nb_op zb (zbuf_pull UDP_HDR_LEN) w;
            rx_post a (rx_push a zb w)
          }
      })"

definition ICMP_ECHO_REQUEST :: u8 where "ICMP_ECHO_REQUEST = 8"
definition ICMP_ECHO_REPLY :: u8 where "ICMP_ECHO_REPLY = 0"

definition icmp_input :: "driver \<Rightarrow> addr \<Rightarrow> net \<Rightarrow> net option" where
  "icmp_input drv zb w =
     (if zb_len (nb_get zb w) < 8 then Some (nb_free zb w)
      else do {
        let icmp = zb_data (nb_get zb w);
        type \<leftarrow> nb_ld8 zb icmp w;
        if type = ICMP_ECHO_REQUEST then do {
          src \<leftarrow> nb_ld32 zb (icmp - 20 + 12) w;
          dst \<leftarrow> nb_ld32 zb (icmp - 20 + 16) w;
          w \<leftarrow> nb_store zb icmp [ICMP_ECHO_REPLY] w;
          w \<leftarrow> nb_store zb (icmp + 2) (bytes16 0) w;
          msg \<leftarrow> nb_load zb icmp (unat (zb_len (nb_get zb w))) w;
          w \<leftarrow> nb_store zb (icmp + 2) (bytes16 (inet_checksum msg)) w;
          (st, w) \<leftarrow> ip_output drv zb (ntohl dst) (ntohl src) IP_PROTO_ICMP w;
          Some w
        } else Some (nb_free zb w)
      })"

section \<open>IP\<close>

definition lift_io :: "net option \<Rightarrow> unit io option" where
  "lift_io r = do { w \<leftarrow> r; Some (Done () w) }"

definition IP_HDR_LEN :: "u8 \<Rightarrow> u8" where
  "IP_HDR_LEN ver_ihl = push_bit 2 (ver_ihl AND 0x0F)"

definition ip_dispatch :: "driver \<Rightarrow> addr \<Rightarrow> addr \<Rightarrow> u8 \<Rightarrow> net \<Rightarrow> unit io option" where
  "ip_dispatch drv nif zb proto w =
     (if proto = IP_PROTO_ICMP then lift_io (icmp_input drv zb w)
      else if proto = IP_PROTO_UDP then lift_io (udp_input zb w)
      else if proto = IP_PROTO_TCP then tcp_input drv nif zb w
      else Some (Done () (nb_free zb w)))"

definition ip_input :: "driver \<Rightarrow> addr \<Rightarrow> addr \<Rightarrow> net \<Rightarrow> unit io option" where
  "ip_input drv nif zb w =
     (if zb_len (nb_get zb w) < 20 then Some (Done () (nb_free zb w))
      else do {
        let ip = zb_data (nb_get zb w);
        ver_ihl \<leftarrow> nb_ld8 zb ip w;
        let ihl = IP_HDR_LEN ver_ihl;
        hdr \<leftarrow> nb_load zb ip (unat ihl) w;
        if inet_checksum hdr \<noteq> 0
        then Some (Done () (nb_free zb (nif_upd nif (\<lambda>n. n\<lparr>nif_rx_errors := nif_rx_errors n + 1\<rparr>) w)))
        else do {
          dst \<leftarrow> nb_ld32 zb (ip + 16) w;
          if ntohl dst \<noteq> nif_ip (n_nif w nif) \<and> ntohl dst \<noteq> IP4_ADDR_BROADCAST
          then Some (Done () (nb_free zb w))
          else do {
            let w = nb_upd zb (\<lambda>k. k\<lparr>zb_l4_offset := zb_l3_offset k + ucast ihl\<rparr>) w;
            let (p, w) = nb_op zb (zbuf_pull (ucast ihl)) w;
            proto \<leftarrow> nb_ld8 zb (ip + 9) w;
            ip_dispatch drv nif zb proto w
          }
        }
      })"

section \<open>ARP and Ethernet\<close>

text \<open>The reply to a request from \<open>sha\<close> with protocol address \<open>spa\<close> (as it is stored).\<close>

definition arp_reply :: "driver \<Rightarrow> addr \<Rightarrow> u8 list \<Rightarrow> u32 \<Rightarrow> net \<Rightarrow> net option" where
  "arp_reply drv nif sha spa w =
     (case nb_alloc_tx 28 w of
        (None, w) \<Rightarrow> Some w
      | (Some reply, w) \<Rightarrow>
          let (p, w) = nb_op reply (zbuf_put 28) w in do {
            rep \<leftarrow> p;
            w \<leftarrow> nb_store reply rep (arp_bytes ARP_OP_REPLY (nif_mac (n_nif w nif))
                   (htonl (nif_ip (n_nif w nif))) sha spa) w;
            (st, w) \<leftarrow> eth_output drv nif reply sha ETH_TYPE_ARP w;
            Some w
          })"

definition arp_input :: "driver \<Rightarrow> addr \<Rightarrow> addr \<Rightarrow> net \<Rightarrow> net option" where
  "arp_input drv nif zb w =
     (if zb_len (nb_get zb w) < 28 then Some (nb_free zb w)
      else do {
        let arp = zb_data (nb_get zb w);
        htype \<leftarrow> nb_ld16 zb arp w;
        ptype \<leftarrow> nb_ld16 zb (arp + 2) w;
        if ntohs htype \<noteq> 1 \<or> ntohs ptype \<noteq> ETH_TYPE_IP then Some (nb_free zb w)
        else do {
          oper \<leftarrow> nb_ld16 zb (arp + 6) w;
          sha \<leftarrow> nb_load zb (arp + 8) 6 w;
          spa \<leftarrow> nb_ld32 zb (arp + 14) w;
          tpa \<leftarrow> nb_ld32 zb (arp + 24) w;
          let w = w\<lparr>n_arp := arp_learn (ntohl spa) sha (get_system_ticks (n_sched w)) 0 ARP_CACHE_SIZE (n_arp w)\<rparr>;
          w \<leftarrow> (if ntohs oper = ARP_OP_REQUEST \<and> ntohl tpa = nif_ip (n_nif w nif)
                then arp_reply drv nif sha spa w else Some w);
          Some (nb_free zb w)
        }
      })"

definition netif_input :: "driver \<Rightarrow> addr \<Rightarrow> addr \<Rightarrow> net \<Rightarrow> unit io option" where
  "netif_input drv nif zb w =
     (if zb_len (nb_get zb w) < 14 then Some (Done () (nb_free zb w))
      else do {
        type \<leftarrow> nb_ld16 zb (zb_data (nb_get zb w) + 12) w;
        let type = ntohs type;
        let w = nb_upd zb (\<lambda>k. k\<lparr>zb_l2_offset := 0, zb_l3_offset := 14, zb_protocol := type,
                  zb_netif := Some nif\<rparr>) w;
        let (p, w) = nb_op zb (zbuf_pull 14) w;
        let w = nif_upd nif (\<lambda>n. n\<lparr>nif_rx_packets := nif_rx_packets n + 1,
                  nif_rx_bytes := nif_rx_bytes n + ucast (zb_len (nb_get zb w))\<rparr>) w;
        if type = ETH_TYPE_IP then ip_input drv nif zb w
        else if type = ETH_TYPE_ARP then lift_io (arp_input drv nif zb w)
        else Some (Done () (nb_free zb w))
      })"

end
