(* ===== verification/Modbus_Tcp.thy ===== *)
theory Modbus_Tcp
  imports Modbus Net_Input
begin

text \<open>
  Modbus over TCP, from \<open>protocols/modbus/modbus.c\<close>: starting the server, one round of its poll loop
  with the MBAP header, and the client's calls. A function that may block returns its object with the
  outcome of the call; the part that runs after the waiting is a definition of its own.
\<close>

section \<open>Server\<close>

definition MODBUS_TCP_HDR_LEN :: u16 where "MODBUS_TCP_HDR_LEN = 7"

definition io_unit :: "'a io \<Rightarrow> unit io" where
  "io_unit r = (case r of Done a w \<Rightarrow> Done () w | Blocked c \<Rightarrow> Blocked c)"

text \<open>The MBAP header: transaction, protocol, length, unit.\<close>

definition mbap_bytes :: "u16 \<Rightarrow> u16 \<Rightarrow> u8 \<Rightarrow> u8 list" where
  "mbap_bytes trans_id len unit_id =
     bytes16 (htons trans_id) @ bytes16 0 @ bytes16 (htons len) @ [unit_id]"

definition modbus_start_fail :: "driver \<Rightarrow> modbus_server \<Rightarrow> net \<Rightarrow> (modbus_server \<times> status io) option" where
  "modbus_start_fail drv s w = do {
     r \<leftarrow> sock_close drv (ms_tcp_socket s) w;
     Some (s, case r of Done v w \<Rightarrow> Done STATUS_ERROR w | Blocked c \<Rightarrow> Blocked c)
   }"

definition modbus_start_listen :: "driver \<Rightarrow> modbus_server \<Rightarrow> net \<Rightarrow> (modbus_server \<times> status io) option" where
  "modbus_start_listen drv s w = do {
     r \<leftarrow> sock_listen (ms_tcp_socket s) w;
     case r of
       Blocked c \<Rightarrow> Some (s, Blocked c)
     | Done v w \<Rightarrow>
         if v < 0 then modbus_start_fail drv s w
         else Some (s\<lparr>ms_tcp_running := True\<rparr>, Done STATUS_OK w)
   }"

definition modbus_tcp_server_start ::
    "driver \<Rightarrow> u16 \<Rightarrow> modbus_server \<Rightarrow> net \<Rightarrow> (modbus_server \<times> status io) option" where
  "modbus_tcp_server_start drv port s w = do {
     (fd, w) \<leftarrow> sock_socket SOCK_STREAM w;
     let s = s\<lparr>ms_tcp_socket := fd\<rparr>;
     if fd < 0 then Some (s, Done STATUS_ERROR w)
     else do {
       r \<leftarrow> sock_bind fd \<lparr>sa_addr = IP4_ADDR_ANY, sa_port = port\<rparr> w;
       case r of
         Blocked c \<Rightarrow> Some (s, Blocked c)
       | Done v w \<Rightarrow> if v < 0 then modbus_start_fail drv s w else modbus_start_listen drv s w
     }
   }"

definition modbus_poll_close :: "driver \<Rightarrow> int \<Rightarrow> modbus_server \<Rightarrow> net \<Rightarrow> (modbus_server \<times> unit io) option" where
  "modbus_poll_close drv fd s w = do { r \<leftarrow> sock_close drv fd w; Some (s, io_unit r) }"

text \<open>The request in buffer \<open>q\<close>, already stripped of its MBAP header, is processed and answered.\<close>

definition modbus_poll_answer ::
    "driver \<Rightarrow> int \<Rightarrow> u16 \<Rightarrow> addr \<Rightarrow> modbus_server \<Rightarrow> net \<Rightarrow> (modbus_server \<times> unit io) option" where
  "modbus_poll_answer drv fd trans_id q s w = do {
     (resp, s, z) \<leftarrow> modbus_process_request q s (n_pool w);
     let w = nb_free q (w\<lparr>n_pool := z\<rparr>);
     case resp of
       None \<Rightarrow> modbus_poll_close drv fd s w
     | Some r \<Rightarrow> do {
         let (p, w) = nb_op r (zbuf_push MODBUS_TCP_HDR_LEN) w;
         mbap \<leftarrow> p;
         w \<leftarrow> nb_store r mbap (mbap_bytes trans_id (zb_len (nb_get r w) - MODBUS_TCP_HDR_LEN + 1)
                (ms_slave_addr s)) w;
         (v, w) \<leftarrow> sock_send_zbuf drv fd r w;
         modbus_poll_close drv fd s w
       }
   }"

definition modbus_poll_received ::
    "driver \<Rightarrow> int \<Rightarrow> ptr \<Rightarrow> modbus_server \<Rightarrow> net \<Rightarrow> (modbus_server \<times> unit io) option" where
  "modbus_poll_received drv fd zb s w =
     (case zb of
        None \<Rightarrow> modbus_poll_close drv fd s w
      | Some q \<Rightarrow>
          if zb_len (nb_get q w) < MODBUS_TCP_HDR_LEN + 1
          then modbus_poll_close drv fd s (nb_free q w)
          else do {
            let mbap = zb_data (nb_get q w);
            trans_id \<leftarrow> nb_ld16 q mbap w;
            unit_id \<leftarrow> nb_ld8 q (mbap + 6) w;
            if unit_id \<noteq> ms_slave_addr s \<and> unit_id \<noteq> 0
            then modbus_poll_close drv fd s (nb_free q w)
            else
              let (p, w) = nb_op q (zbuf_pull MODBUS_TCP_HDR_LEN) w
              in modbus_poll_answer drv fd (ntohs trans_id) q s w
          })"

definition modbus_poll_accepted ::
    "driver \<Rightarrow> int \<Rightarrow> modbus_server \<Rightarrow> net \<Rightarrow> (modbus_server \<times> unit io) option" where
  "modbus_poll_accepted drv fd s w =
     (if fd < 0 then Some (s, Done () w)
      else do {
        r \<leftarrow> sock_recv_zbuf fd w;
        case r of
          Blocked c \<Rightarrow> Some (s, Blocked c)
        | Done zb w \<Rightarrow> modbus_poll_received drv fd zb s w
      })"

definition modbus_server_poll :: "driver \<Rightarrow> modbus_server \<Rightarrow> net \<Rightarrow> (modbus_server \<times> unit io) option" where
  "modbus_server_poll drv s w =
     (if \<not> ms_tcp_running s then Some (s, Done () w)
      else do {
        r \<leftarrow> sock_accept (ms_tcp_socket s) w;
        case r of
          Blocked c \<Rightarrow> Some (s, Blocked c)
        | Done (fd, client_addr) w \<Rightarrow> modbus_poll_accepted drv fd s w
      })"

section \<open>Client\<close>

record modbus_client =
  mc_slave_addr :: u8
  mc_transaction_id :: u16
  mc_tcp_socket :: int
  mc_server_addr :: sockaddr
  mc_uart_handle :: ptr
  mc_timeout :: u32

definition modbus_client_init :: "modbus_client \<Rightarrow> status \<times> modbus_client" where
  "modbus_client_init c =
     (STATUS_OK, c\<lparr>mc_slave_addr := 1, mc_transaction_id := 0, mc_tcp_socket := -1,
        mc_uart_handle := None, mc_timeout := 1000\<rparr>)"

definition modbus_client_close :: "driver \<Rightarrow> modbus_client \<Rightarrow> net \<Rightarrow> (modbus_client \<times> unit io) option" where
  "modbus_client_close drv c w =
     (if mc_tcp_socket c \<ge> 0 then do {
        r \<leftarrow> sock_close drv (mc_tcp_socket c) w;
        case r of
          Blocked b \<Rightarrow> Some (c, Blocked b)
        | Done v w \<Rightarrow> Some (c\<lparr>mc_tcp_socket := -1\<rparr>, Done () w)
      } else Some (c, Done () w))"

text \<open>What \<open>modbus_tcp_connect\<close> does with the result of \<open>sock_connect\<close>.\<close>

definition modbus_connected :: "driver \<Rightarrow> int \<Rightarrow> modbus_client \<Rightarrow> net \<Rightarrow> (modbus_client \<times> status io) option" where
  "modbus_connected drv v c w =
     (if v < 0 then do {
        r \<leftarrow> sock_close drv (mc_tcp_socket c) w;
        case r of
          Blocked b \<Rightarrow> Some (c, Blocked b)
        | Done u w \<Rightarrow> Some (c\<lparr>mc_tcp_socket := -1\<rparr>, Done STATUS_ERROR w)
      } else Some (c, Done STATUS_OK w))"

definition modbus_tcp_connect ::
    "driver \<Rightarrow> u32 \<Rightarrow> u16 \<Rightarrow> modbus_client \<Rightarrow> net \<Rightarrow> (modbus_client \<times> status io) option" where
  "modbus_tcp_connect drv ip port c w = do {
     (fd, w) \<leftarrow> sock_socket SOCK_STREAM w;
     let c = c\<lparr>mc_tcp_socket := fd\<rparr>;
     if fd < 0 then Some (c, Done STATUS_ERROR w)
     else do {
       let c = c\<lparr>mc_server_addr := \<lparr>sa_addr = ip, sa_port = port\<rparr>\<rparr>;
       r \<leftarrow> sock_connect drv fd (mc_server_addr c) w;
       case r of
         Blocked b \<Rightarrow> Some (c, Blocked b)
       | Done v w \<Rightarrow> modbus_connected drv v c w
     }
   }"

text \<open>\<open>data\<close> is \<open>None\<close> for \<open>NULL\<close>; it holds at least \<open>len\<close> bytes otherwise.\<close>

definition modbus_build_request ::
    "u8 \<Rightarrow> u8 \<Rightarrow> u8 list option \<Rightarrow> u16 \<Rightarrow> modbus_client \<Rightarrow> net \<Rightarrow> (ptr \<times> modbus_client \<times> net) option" where
  "modbus_build_request slave function data len c w =
     (case nb_alloc_tx (MODBUS_TCP_HDR_LEN + 1 + len) w of
        (None, w) \<Rightarrow> Some (None, c, w)
      | (Some zb, w) \<Rightarrow>
          let (p, w) = nb_op zb (zbuf_put (MODBUS_TCP_HDR_LEN + 1 + len)) w in do {
            buf \<leftarrow> p;
            w \<leftarrow> nb_store zb buf (mbap_bytes (mc_transaction_id c) (len + 2) slave) w;
            let c = c\<lparr>mc_transaction_id := mc_transaction_id c + 1\<rparr>;
            w \<leftarrow> nb_store zb (buf + 7) [function] w;
            w \<leftarrow> (case data of
                   None \<Rightarrow> Some w
                 | Some src \<Rightarrow>
                     if len = 0 then Some w
                     else if length src < unat len then None
                     else nb_store zb (buf + 8) (take (unat len) src) w);
            Some (Some zb, c, w)
          })"

definition modbus_send_request :: "driver \<Rightarrow> addr \<Rightarrow> modbus_client \<Rightarrow> net \<Rightarrow> (status \<times> net) option" where
  "modbus_send_request drv zb c w = do {
     (v, w) \<leftarrow> sock_send_zbuf drv (mc_tcp_socket c) zb w;
     Some (if v = 0 then STATUS_OK else STATUS_ERROR, w)
   }"

definition modbus_recv_response :: "modbus_client \<Rightarrow> net \<Rightarrow> ptr io option" where
  "modbus_recv_response c w = sock_recv_zbuf (mc_tcp_socket c) w"

text \<open>
  The part the five calls share: build the request, send it, wait for the response, and hand the
  address of its PDU to \<open>parse\<close>. \<open>modbus_response\<close> is what follows the waiting; \<open>r\<close> is the content
  of the caller's result array.
\<close>

definition modbus_response ::
    "'r \<Rightarrow> (addr \<Rightarrow> addr \<Rightarrow> net \<Rightarrow> (status \<times> 'r) option) \<Rightarrow> ptr \<Rightarrow> net \<Rightarrow> (status \<times> 'r) io option" where
  "modbus_response r parse resp w =
     (case resp of
        None \<Rightarrow> Some (Done (STATUS_TIMEOUT, r) w)
      | Some b \<Rightarrow> do {
          v \<leftarrow> parse b (zb_data (nb_get b w) + 7) w;
          Some (Done v (nb_free b w))
        })"

definition modbus_exchange ::
    "driver \<Rightarrow> addr \<Rightarrow> 'r \<Rightarrow> (addr \<Rightarrow> addr \<Rightarrow> net \<Rightarrow> (status \<times> 'r) option) \<Rightarrow> modbus_client \<Rightarrow> net
       \<Rightarrow> (status \<times> 'r) io option" where
  "modbus_exchange drv req r parse c w = do {
     (ret, w) \<leftarrow> modbus_send_request drv req c w;
     if ret \<noteq> STATUS_OK then Some (Done (ret, r) w)
     else do {
       x \<leftarrow> modbus_recv_response c w;
       case x of
         Blocked b \<Rightarrow> Some (Blocked b)
       | Done resp w \<Rightarrow> modbus_response r parse resp w
     }
   }"

definition modbus_call ::
    "driver \<Rightarrow> u8 \<Rightarrow> u8 \<Rightarrow> u8 list \<Rightarrow> 'r \<Rightarrow> (addr \<Rightarrow> addr \<Rightarrow> net \<Rightarrow> (status \<times> 'r) option) \<Rightarrow> modbus_client \<Rightarrow> net
       \<Rightarrow> (modbus_client \<times> (status \<times> 'r) io) option" where
  "modbus_call drv slave function data r parse c w = do {
     (req, c, w) \<leftarrow> modbus_build_request slave function (Some data) (of_nat (length data)) c w;
     case req of
       None \<Rightarrow> Some (c, Done (STATUS_NO_MEM, r) w)
     | Some b \<Rightarrow> do { v \<leftarrow> modbus_exchange drv b r parse c w; Some (c, v) }
   }"

text \<open>\<open>ret = (data[0] & 0x80) ? STATUS_ERROR : STATUS_OK;\<close>\<close>

definition parse_ack :: "addr \<Rightarrow> addr \<Rightarrow> net \<Rightarrow> (status \<times> unit) option" where
  "parse_ack b data w = do {
     f \<leftarrow> nb_ld8 b data w;
     Some (if f AND 0x80 \<noteq> 0 then STATUS_ERROR else STATUS_OK, ())
   }"

text \<open>The result loops; \<open>r\<close> is the caller's array, long enough or the write faults.\<close>

fun parse_regs_loop :: "addr \<Rightarrow> addr \<Rightarrow> net \<Rightarrow> nat \<Rightarrow> nat \<Rightarrow> u16 list \<Rightarrow> u16 list option" where
  "parse_regs_loop b data w i 0 r = Some r"
| "parse_regs_loop b data w i (Suc n) r = do {
     hi \<leftarrow> nb_ld8 b (data + 2 + int i * 2) w;
     lo \<leftarrow> nb_ld8 b (data + 2 + int i * 2 + 1) w;
     r \<leftarrow> reg_put i (be16 hi lo) r;
     parse_regs_loop b data w (i + 1) n r
   }"

fun parse_bytes_loop :: "addr \<Rightarrow> addr \<Rightarrow> net \<Rightarrow> nat \<Rightarrow> nat \<Rightarrow> u8 list \<Rightarrow> u8 list option" where
  "parse_bytes_loop b data w i 0 r = Some r"
| "parse_bytes_loop b data w i (Suc n) r = do {
     v \<leftarrow> nb_ld8 b (data + 2 + int i) w;
     if i < length r then parse_bytes_loop b data w (i + 1) n (r[i := v]) else None
   }"

definition parse_regs :: "u16 \<Rightarrow> u16 list \<Rightarrow> addr \<Rightarrow> addr \<Rightarrow> net \<Rightarrow> (status \<times> u16 list) option" where
  "parse_regs count r b data w = do {
     f \<leftarrow> nb_ld8 b data w;
     if f AND 0x80 \<noteq> 0 then Some (STATUS_ERROR, r)
     else do { r \<leftarrow> parse_regs_loop b data w 0 (unat count) r; Some (STATUS_OK, r) }
   }"

definition parse_coils :: "u8 list \<Rightarrow> addr \<Rightarrow> addr \<Rightarrow> net \<Rightarrow> (status \<times> u8 list) option" where
  "parse_coils r b data w = do {
     f \<leftarrow> nb_ld8 b data w;
     if f AND 0x80 \<noteq> 0 then Some (STATUS_ERROR, r)
     else do {
       byte_count \<leftarrow> nb_ld8 b (data + 1) w;
       r \<leftarrow> parse_bytes_loop b data w 0 (unat byte_count) r;
       Some (STATUS_OK, r)
     }
   }"

definition modbus_read_holding_registers ::
    "driver \<Rightarrow> u8 \<Rightarrow> u16 \<Rightarrow> u16 \<Rightarrow> u16 list \<Rightarrow> modbus_client \<Rightarrow> net \<Rightarrow> (modbus_client \<times> (status \<times> u16 list) io) option" where
  "modbus_read_holding_registers drv slave addr count r c w =
     modbus_call drv slave MODBUS_FC_READ_HOLDING_REGISTERS [hi8 addr, lo8 addr, hi8 count, lo8 count]
       r (parse_regs count r) c w"

definition modbus_write_single_register ::
    "driver \<Rightarrow> u8 \<Rightarrow> u16 \<Rightarrow> u16 \<Rightarrow> modbus_client \<Rightarrow> net \<Rightarrow> (modbus_client \<times> (status \<times> unit) io) option" where
  "modbus_write_single_register drv slave addr value c w =
     modbus_call drv slave MODBUS_FC_WRITE_SINGLE_REGISTER [hi8 addr, lo8 addr, hi8 value, lo8 value]
       () parse_ack c w"

definition modbus_read_coils ::
    "driver \<Rightarrow> u8 \<Rightarrow> u16 \<Rightarrow> u16 \<Rightarrow> u8 list \<Rightarrow> modbus_client \<Rightarrow> net \<Rightarrow> (modbus_client \<times> (status \<times> u8 list) io) option" where
  "modbus_read_coils drv slave addr count r c w =
     modbus_call drv slave MODBUS_FC_READ_COILS [hi8 addr, lo8 addr, hi8 count, lo8 count]
       r (parse_coils r) c w"

definition modbus_write_single_coil ::
    "driver \<Rightarrow> u8 \<Rightarrow> u16 \<Rightarrow> bool \<Rightarrow> modbus_client \<Rightarrow> net \<Rightarrow> (modbus_client \<times> (status \<times> unit) io) option" where
  "modbus_write_single_coil drv slave addr value c w =
     modbus_call drv slave MODBUS_FC_WRITE_SINGLE_COIL [hi8 addr, lo8 addr, if value then 0xFF else 0, 0]
       () parse_ack c w"

text \<open>
  The request buffer of \<open>modbus_write_multiple_registers\<close> comes from the heap; its size is computed in
  16 bits, and a write behind it faults.
\<close>

definition modbus_write_multiple_registers ::
    "driver \<Rightarrow> u8 \<Rightarrow> u16 \<Rightarrow> u16 \<Rightarrow> u16 list \<Rightarrow> modbus_client \<Rightarrow> net \<Rightarrow> (modbus_client \<times> (status \<times> unit) io) option" where
  "modbus_write_multiple_registers drv slave addr count values c w = do {
     let data_len = 5 + count * 2;
     (p, h) \<leftarrow> heap_alloc (ucast data_len) (n_heap w);
     let w = w\<lparr>n_heap := h\<rparr>;
     case p of
       None \<Rightarrow> Some (c, Done (STATUS_NO_MEM, ()) w)
     | Some a \<Rightarrow>
         if unat data_len < 5 + 2 * unat count \<or> length values < unat count then None
         else do {
           let data = [hi8 addr, lo8 addr, hi8 count, lo8 count, lo8 (count * 2)] @
                 concat (map (\<lambda>v. [hi8 v, lo8 v]) (take (unat count) values));
           (req, c, w) \<leftarrow> modbus_build_request slave MODBUS_FC_WRITE_MULTIPLE_REGISTERS (Some data) data_len c w;
           h \<leftarrow> heap_free (Some a) (n_heap w);
           let w = w\<lparr>n_heap := h\<rparr>;
           case req of
             None \<Rightarrow> Some (c, Done (STATUS_NO_MEM, ()) w)
           | Some b \<Rightarrow> do { v \<leftarrow> modbus_exchange drv b () parse_ack c w; Some (c, v) }
         }
   }"

end
