(* ===== verification/Net_Props.thy ===== *)
theory Net_Props
  imports Net_Input Heap_Props Sched_Props
begin

text \<open>
  Properties of \<open>net/stack/net_core.c\<close>: byte order, the internet checksum as one's-complement
  arithmetic (a message with its checksum in place verifies), the frame that IP output hands to the
  driver, and the life of the ARP cache.
\<close>

section \<open>Byte order\<close>

lemma htons_involutive [simp]: "htons (htons x) = x"
  unfolding htons_def mask_FF by (rule bit_word_eqI) (auto simp: bit_simps)

lemma hi8_htons [simp]: "hi8 (htons x) = lo8 x" and lo8_htons [simp]: "lo8 (htons x) = hi8 x"
  unfolding htons_def mask_FF hi8_def lo8_ucast
  by (rule bit_word_eqI; auto simp: bit_simps dest: bit_imp_le_length)+

lemma htons_be16: "htons (be16 a b) = be16 b a"
  by (metis be16_hi_lo hi8_be16 hi8_htons lo8_be16 lo8_htons)

lemma bit_htonl:
  "bit (htonl x) n \<longleftrightarrow> (if n < 8 then bit x (n + 24) else if n < 16 then bit x (n + 8)
     else if n < 24 then bit x (n - 8) else n < 32 \<and> bit x (n - 24))"
proof -
  have m: "(0xFF :: u32) = mask 8" "(0xFF00 :: u32) = push_bit 8 (mask 8)"
    by (simp_all add: mask_eq_exp_minus_1 push_bit_eq_mult)
  have "n < 8 \<or> 8 \<le> n \<and> n < 16 \<or> 16 \<le> n \<and> n < 24 \<or> 24 \<le> n \<and> n < 32 \<or> 32 \<le> n" by linarith
  then show ?thesis unfolding htonl_def m
    by (elim disjE) (auto simp: bit_simps add.commute dest: bit_imp_le_length)
qed

lemma htonl_involutive [simp]: "htonl (htonl x) = x"
  by (rule bit_word_eqI) (auto simp: bit_htonl)

lemma unat_u8: "unat (x :: u8) < 256"
proof -
  have "unat x < 2 ^ LENGTH(8)" by (rule unsigned_less)
  then show ?thesis by simp
qed

lemma unat_u16: "unat (x :: u16) < 65536"
proof -
  have "unat x < 2 ^ LENGTH(16)" by (rule unsigned_less)
  then show ?thesis by simp
qed

section \<open>One's-complement sums\<close>

text \<open>The sum the loop computes, as a number.\<close>

fun wsum :: "u8 list \<Rightarrow> nat" where
  "wsum (a # b # bs) = unat a + 256 * unat b + wsum bs"
| "wsum [a] = unat a"
| "wsum [] = 0"

lemma unat_be16: "unat (be16 a b) = 256 * unat a + unat b"
proof -
  have "(push_bit 8 (ucast a) :: u16) AND ucast b = 0"
    by (rule bit_word_eqI) (auto simp: bit_simps dest: bit_imp_le_length)
  then have "be16 a b = push_bit 8 (ucast a) + ucast b"
    by (simp add: be16_def disjunctive_add_eq_or)
  moreover have a: "unat (push_bit 8 (ucast a) :: u16) = 256 * unat a"
    using unat_u8[of a]
    by (simp add: push_bit_eq_mult unat_word_ariths unsigned_ucast_eq take_bit_nat_eq_self)
  moreover have b: "unat (ucast b :: u16) = unat b"
    using unat_u8[of b] by (simp add: unsigned_ucast_eq take_bit_nat_eq_self)
  moreover have "unat a < 256" "unat b < 256" by (rule unat_u8)+
  then have "256 * unat a + unat b < 65536" by linarith
  ultimately show ?thesis by (simp add: unat_word_ariths)
qed

lemma unat_le16: "unat (le16 a b) = unat a + 256 * unat b"
  by (simp add: le16_def unat_be16)

lemma wsum_le: "wsum bs \<le> 65535 * ((length bs + 1) div 2)"
proof (induction bs rule: wsum.induct)
  case (1 a b bs)
  have "unat a < 256" "unat b < 256" by (rule unat_u8)+
  then show ?case using 1 by simp
next
  case (2 a)
  then show ?case using unat_u8[of a] by simp
qed simp

lemma sum_words_wsum:
  "unat acc + wsum bs < 2 ^ 32 \<Longrightarrow> unat (sum_words bs acc) = unat acc + wsum bs"
proof (induction bs acc rule: sum_words.induct)
  case (1 a b bs acc)
  have u: "unat (ucast (le16 a b) :: u32) = unat a + 256 * unat b"
    using unat_u16[of "le16 a b"] by (simp add: unsigned_ucast_eq take_bit_nat_eq_self unat_le16)
  have "unat (acc + ucast (le16 a b)) = unat acc + (unat a + 256 * unat b)"
    using "1.prems" u by (simp add: unat_word_ariths)
  then show ?case using 1 by simp
next
  case (2 a acc)
  have "unat (ucast a :: u32) = unat a"
    using unat_u8[of a] by (simp add: unsigned_ucast_eq take_bit_nat_eq_self)
  then show ?case using 2 by (simp add: unat_word_ariths)
qed simp

lemma fold_sum_props:
  "unat (fold_sum s) mod 65535 = unat s mod 65535 \<and> unat (fold_sum s) \<le> 65535 \<and> (fold_sum s = 0 \<longleftrightarrow> s = 0)"
proof (induction s rule: fold_sum.induct)
  case (1 s)
  show ?case
  proof (cases "drop_bit 16 s = 0")
    case True
    then have "unat s < 65536" using drop_bit_16_pos[of s] by linarith
    then show ?thesis using True by (simp add: fold_sum.simps[of s])
  next
    case False
    let ?t = "(s AND 0xFFFF) + drop_bit 16 s"
    have big: "65536 \<le> unat s" using False drop_bit_16_pos by blast
    have t: "unat ?t = unat s mod 65536 + unat s div 65536" by (rule fold_step)
    have "unat s = 65535 * (unat s div 65536) + unat ?t"
      unfolding t using div_mult_mod_eq[of "unat s" 65536] by linarith
    then have "unat ?t mod 65535 = unat s mod 65535" by (metis mod_mult_self4 mult.commute add.commute)
    moreover have "?t \<noteq> 0"
    proof
      assume "?t = 0"
      then have "unat ?t = 0" by simp
      then show False using t big by (simp add: div_eq_0_iff)
    qed
    moreover have "s \<noteq> 0" using big by auto
    ultimately show ?thesis using 1[OF False] False by (simp add: fold_sum.simps[of s])
  qed
qed

lemma unat_NOT16: "unat (NOT x :: u16) = 65535 - unat x"
proof -
  have "x \<le> - 1" by simp
  then have "unat (- 1 - x) = unat (- 1 :: u16) - unat x" by (rule unat_sub)
  then show ?thesis unfolding not_eq_complement minus_diff_commute[of x 1] by (simp add: unsigned_minus_1_eq_mask mask_eq_exp_minus_1)
qed

lemma unat_inet_checksum:
  assumes "wsum bs < 2 ^ 32"
  shows "unat (inet_checksum bs) = 65535 - unat (fold_sum (sum_words bs 0))" "unat (sum_words bs 0) = wsum bs"
    "unat (fold_sum (sum_words bs 0)) \<le> 65535" "unat (fold_sum (sum_words bs 0)) mod 65535 = wsum bs mod 65535"
    "unat (fold_sum (sum_words bs 0)) = 0 \<longleftrightarrow> wsum bs = 0"
proof -
  show s: "unat (sum_words bs 0) = wsum bs" using sum_words_wsum[of 0 bs] assms by simp
  note f = fold_sum_props[of "sum_words bs 0"]
  then show "unat (fold_sum (sum_words bs 0)) \<le> 65535" "unat (fold_sum (sum_words bs 0)) mod 65535 = wsum bs mod 65535"
    using s by simp_all
  have "unat (ucast (fold_sum (sum_words bs 0)) :: u16) = unat (fold_sum (sum_words bs 0))"
    using f by (simp add: unsigned_ucast_eq take_bit_nat_eq_self)
  then show "unat (inet_checksum bs) = 65535 - unat (fold_sum (sum_words bs 0))"
    unfolding inet_checksum_def unat_NOT16 by simp
  have "unat (fold_sum (sum_words bs 0)) = 0 \<longleftrightarrow> sum_words bs 0 = 0" using f by (simp add: unsigned_eq_0_iff)
  also have "\<dots> \<longleftrightarrow> wsum bs = 0" using s by (metis unsigned_0 unsigned_eq_0_iff)
  finally show "unat (fold_sum (sum_words bs 0)) = 0 \<longleftrightarrow> wsum bs = 0" .
qed

text \<open>A message verifies exactly when its sum is a positive multiple of 65535.\<close>

lemma inet_checksum_0_iff:
  assumes "wsum bs < 2 ^ 32"
  shows "inet_checksum bs = 0 \<longleftrightarrow> wsum bs mod 65535 = 0 \<and> 0 < wsum bs"
proof -
  note u = unat_inet_checksum[OF assms]
  let ?f = "unat (fold_sum (sum_words bs 0))"
  have "inet_checksum bs = 0 \<longleftrightarrow> unat (inet_checksum bs) = 0" by (simp add: unsigned_eq_0_iff)
  also have "\<dots> \<longleftrightarrow> ?f = 65535" using u(1,3) by linarith
  also have "\<dots> \<longleftrightarrow> ?f mod 65535 = 0 \<and> ?f \<noteq> 0"
  proof
    assume a: "?f mod 65535 = 0 \<and> ?f \<noteq> 0"
    then obtain k where "?f = 65535 * k" by (auto simp: mod_eq_0_iff_dvd)
    then show "?f = 65535" using a u(3) by (cases k) auto
  qed simp
  finally show ?thesis using u(4,5) by simp
qed

lemma wsum_append: "even (length xs) \<Longrightarrow> wsum (xs @ ys) = wsum xs + wsum ys"
  by (induction xs rule: wsum.induct) simp_all

text \<open>Putting the checksum into a field that was zero makes the message verify.\<close>

lemma inet_checksum_fill:
  assumes "even (length xs)" and "length xs + length ys < 65536" and "c = inet_checksum (xs @ [0, 0] @ ys)"
  shows "inet_checksum (xs @ bytes16 c @ ys) = 0"
proof -
  let ?b = "xs @ [0, 0] @ ys" and ?m = "xs @ bytes16 c @ ys"
  have w: "wsum ?b = wsum xs + wsum ys" "wsum ?m = wsum ?b + unat c"
    using assms(1) unat_le16[of "lo8 c" "hi8 c"] by (simp_all add: wsum_append bytes16_def le16_def)
  have b: "wsum ?b < 2 ^ 32 - 65536" using wsum_le[of ?b] assms(2) by simp
  then have b32: "wsum ?b < 2 ^ 32" by simp
  note u = unat_inet_checksum[OF b32]
  have c: "unat c + unat (fold_sum (sum_words ?b 0)) = 65535" using u(1,3) assms(3) by simp
  have m32: "wsum ?m < 2 ^ 32" using b w(2) unat_u16[of c] by simp
  have "(wsum ?b + unat c) mod 65535 = (wsum ?b mod 65535 + unat c) mod 65535" by (simp only: mod_add_left_eq)
  also have "\<dots> = (unat (fold_sum (sum_words ?b 0)) + unat c) mod 65535" unfolding u(4)[symmetric] by (simp only: mod_add_left_eq)
  also have "\<dots> = 0" using c by (simp add: add.commute)
  finally have "wsum ?m mod 65535 = 0" using w(2) by simp
  moreover have "0 < wsum ?m" using w(2) u(5) c by (cases "wsum ?b = 0") auto
  ultimately show ?thesis using inet_checksum_0_iff[OF m32] by simp
qed

section \<open>Headers in a buffer\<close>

text \<open>Writing \<open>bs\<close> at offset \<open>i\<close> of the payload.\<close>

lemma store_payload:
  assumes wf: "zb_wf (zp_buf z b)" and fit: "i + length bs \<le> unat (zb_len (zp_buf z b))"
  shows "\<exists>z'. zb_store b (zb_data (zp_buf z b) + int i) bs z = Some z' \<and> zp_buf z' = zp_buf z \<and>
    z' = z\<lparr>zp_mem := mem_write (zb_data (zp_buf z b) + int i) bs (zp_mem z)\<rparr> \<and>
    zb_payload b z' = take i (zb_payload b z) @ bs @ drop (i + length bs) (zb_payload b z)"
proof -
  let ?k = "zp_buf z b"
  let ?a = "zb_data ?k + int i"
  define n where "n = unat (zb_len ?k)"
  have n: "int n = uint (zb_len ?k)" by (simp add: n_def)
  have "int (i + length bs) \<le> int n" using fit unfolding n_def by (rule of_nat_mono)
  then have "int i + int (length bs) \<le> uint (zb_len ?k)" using n by simp
  then have ib: "in_buf ?k ?a (length bs)" using wf by (auto simp: in_buf_def zb_wf_def)
  let ?z = "z\<lparr>zp_mem := mem_write ?a bs (zp_mem z)\<rparr>"
  have "zb_payload b ?z = take i (zb_payload b z) @ bs @ drop (i + length bs) (zb_payload b z)"
  proof (rule nth_equalityI)
    fix j assume "j < length (zb_payload b ?z)"
    then have j: "j < n" by (simp add: zb_payload_def n_def)
    then have l: "zb_payload b ?z ! j = mem_write ?a bs (zp_mem z) (zb_data ?k + int j)"
      by (simp add: zb_payload_def n_def)
    have r: "zb_payload b z ! j = zp_mem z (zb_data ?k + int j)" using j by (simp add: zb_payload_def n_def)
    have len: "length (zb_payload b z) = n" by (simp add: zb_payload_def n_def)
    consider "j < i" | "i \<le> j" "j < i + length bs" | "i + length bs \<le> j" by linarith
    then show "zb_payload b ?z ! j = (take i (zb_payload b z) @ bs @ drop (i + length bs) (zb_payload b z)) ! j"
    proof cases
      case 1
      then show ?thesis using l r len j by (simp add: mem_write_def nth_append)
    next
      case 2
      then have "nat (zb_data ?k + int j - ?a) = j - i" by linarith
      then show ?thesis using 2 l len j by (auto simp: mem_write_def nth_append)
    next
      case 3
      then show ?thesis using l r len j by (auto simp: mem_write_def nth_append)
    qed
  qed (use fit in \<open>simp add: zb_payload_def\<close>)
  then show ?thesis using ib by (simp add: zb_store_def)
qed

text \<open>Pushing a header of \<open>n\<close> bytes and writing it puts it before the payload.\<close>

lemma push_header:
  assumes wf: "zb_wf (nb_get b w)" and room: "uint n \<le> zb_data (nb_get b w) - zb_head (nb_get b w)"
    and bs: "length bs = unat n"
  shows "\<exists>w1 w2. nb_op b (zbuf_push n) w = (Some (zb_data (nb_get b w) - uint n), w1) \<and>
    w1 = w\<lparr>n_pool := n_pool w1\<rparr> \<and> zb_len (nb_get b w1) = zb_len (nb_get b w) + n \<and>
    nb_store b (zb_data (nb_get b w) - uint n) bs w1 = Some w2 \<and> w2 = w\<lparr>n_pool := n_pool w2\<rparr> \<and>
    zb_wf (nb_get b w2) \<and> zb_data (nb_get b w2) = zb_data (nb_get b w) - uint n \<and>
    zb_head (nb_get b w2) = zb_head (nb_get b w) \<and> nb_get b w2 = nb_get b w1 \<and>
    zb_len (nb_get b w2) = zb_len (nb_get b w) + n \<and>
    zb_payload b (n_pool w2) = bs @ zb_payload b (n_pool w)"
proof -
  let ?k = "nb_get b w"
  define k where "k = ?k\<lparr>zb_data := zb_data ?k - uint n, zb_len := zb_len ?k + n\<rparr>"
  have p: "zbuf_push n ?k = (Some (zb_data ?k - uint n), k)" and len: "uint (zb_len ?k + n) = uint (zb_len ?k) + uint n"
    using zbuf_push_cases[OF wf, of n] room by (simp_all add: k_def)
  have wfk: "zb_wf k" using zb_wf_push[OF wf, of n] p by simp
  define z1 where "z1 = zb_upd b (\<lambda>_. k) (n_pool w)"
  define w1 where "w1 = w\<lparr>n_pool := z1\<rparr>"
  have op: "nb_op b (zbuf_push n) w = (Some (zb_data ?k - uint n), w1)"
    using p by (simp add: nb_op_def zb_op_def w1_def z1_def)
  have kb: "zp_buf z1 b = k" by (simp add: z1_def)
  have nlen: "unat (zb_len k) = unat n + unat (zb_len ?k)"
  proof -
    have "zb_len k = zb_len ?k + n" by (simp add: k_def)
    then have "int (unat (zb_len k)) = int (unat n + unat (zb_len ?k))" using len by simp
    then show ?thesis by (simp only: of_nat_eq_iff)
  qed
  have "0 + length bs \<le> unat (zb_len (zp_buf z1 b))" using bs nlen kb by simp
  from store_payload[OF _ this] obtain z2 where
    z2: "zb_store b (zb_data k + int 0) bs z1 = Some z2" "zp_buf z2 = zp_buf z1"
    "zb_payload b z2 = take 0 (zb_payload b z1) @ bs @ drop (0 + length bs) (zb_payload b z1)"
    using wfk kb by auto
  have pl: "drop (unat n) (zb_payload b z1) = zb_payload b (n_pool w)"
  proof -
    have "zb_payload b z1 = mem_bytes (zp_mem (n_pool w)) (zb_data k) (unat n + unat (zb_len ?k))"
      using kb nlen by (simp add: zb_payload_def z1_def)
    also have "\<dots> = mem_bytes (zp_mem (n_pool w)) (zb_data k) (unat n) @
        mem_bytes (zp_mem (n_pool w)) (zb_data k + int (unat n)) (unat (zb_len ?k))" by (rule mem_bytes_add)
    finally show ?thesis by (simp add: zb_payload_def k_def)
  qed
  define w2 where "w2 = w\<lparr>n_pool := z2\<rparr>"
  have st: "nb_store b (zb_data ?k - uint n) bs w1 = Some w2"
    using z2(1) by (simp add: nb_store_def w1_def w2_def k_def)
  have "nb_get b w1 = k" "nb_get b w2 = k" using z2(2) kb by (simp_all add: w1_def w2_def)
  moreover have "zb_payload b (n_pool w2) = bs @ zb_payload b (n_pool w)"
    using z2(3) pl bs by (simp add: w2_def)
  ultimately show ?thesis using op st wfk
    by (intro exI[of _ w1] exI[of _ w2]) (simp add: k_def w1_def w2_def)
qed

lemma load_payload:
  assumes wf: "zb_wf (nb_get b w)" and fit: "i + n \<le> unat (zb_len (nb_get b w))"
  shows "nb_load b (zb_data (nb_get b w) + int i) n w = Some (take n (drop i (zb_payload b (n_pool w))))"
proof -
  have "int (i + n) \<le> int (unat (zb_len (nb_get b w)))" using fit by (rule of_nat_mono)
  then have "in_buf (nb_get b w) (zb_data (nb_get b w) + int i) n" using wf by (auto simp: in_buf_def zb_wf_def)
  moreover have "mem_bytes (zp_mem (n_pool w)) (zb_data (nb_get b w) + int i) n = take n (drop i (zb_payload b (n_pool w)))"
    using fit by (intro nth_equalityI) (auto simp: zb_payload_def add.assoc)
  ultimately show ?thesis by (simp add: nb_load_def zb_load_def)
qed

lemma nb_store_append:
  "nb_store b a xs w = Some w1 \<Longrightarrow> nb_store b a (xs @ ys) w = nb_store b (a + int (length xs)) ys w1"
  by (auto simp: nb_store_def zb_store_split split: bind_splits)

lemma nb_store_prefix:
  "nb_store b a (xs @ ys) w = Some w2 \<Longrightarrow>
    \<exists>w1. nb_store b a xs w = Some w1 \<and> nb_store b (a + int (length xs)) ys w1 = Some w2"
  by (auto simp: nb_store_def zb_store_split split: bind_splits)

lemma nb_store_keeps:
  "nb_store b a bs w = Some w' \<Longrightarrow> w' = w\<lparr>n_pool := n_pool w'\<rparr> \<and> zp_buf (n_pool w') = zp_buf (n_pool w)"
  by (auto simp: nb_store_def zb_store_def split: if_splits bind_splits)

text \<open>Work on the window and the bytes of one buffer, and on counters, nothing else.\<close>

definition only_buf :: "addr \<Rightarrow> net \<Rightarrow> net \<Rightarrow> bool" where
  "only_buf b w w' \<longleftrightarrow> n_eth w' = n_eth w \<and> zp_memory (n_pool w') = zp_memory (n_pool w) \<and>
     zb_head (nb_get b w') = zb_head (nb_get b w) \<and> zb_end (nb_get b w') = zb_end (nb_get b w) \<and>
     zb_dma_addr (nb_get b w') = zb_dma_addr (nb_get b w) \<and>
     (\<forall>a. nif_priv (n_nif w' a) = nif_priv (n_nif w a)) \<and>
     (\<forall>a. a < zb_head (nb_get b w) \<or> zb_end (nb_get b w) \<le> a \<longrightarrow> zp_mem (n_pool w') a = zp_mem (n_pool w) a)"

lemma only_buf_refl [simp]: "only_buf b w w"
  by (simp add: only_buf_def)

lemma only_buf_trans: "only_buf b w v \<Longrightarrow> only_buf b v u \<Longrightarrow> only_buf b w u"
  by (simp add: only_buf_def)

lemma only_buf_push: "nb_op b (zbuf_push n) w = (p, w') \<Longrightarrow> only_buf b w w'"
  by (auto simp: nb_op_def zb_op_def zbuf_push_def Let_def only_buf_def)

lemma only_buf_store: "nb_store b a bs w = Some w' \<Longrightarrow> only_buf b w w'"
  by (auto simp: nb_store_def zb_store_def in_buf_def only_buf_def mem_write_def split: if_splits)

text \<open>What a sender leaves in the buffer for the driver.\<close>

lemma eth_output_frame:
  assumes wf: "zb_wf (nb_get zb w)" and room: "14 \<le> zb_data (nb_get zb w) - zb_head (nb_get zb w)"
    and mac: "length mac = 6" "length (nif_mac (n_nif w nif)) = 6"
  shows "\<exists>w'. eth_output drv nif zb mac type w = drv nif zb w' \<and> n_ip_id w' = n_ip_id w \<and> zb_wf (nb_get zb w') \<and>
    only_buf zb w w' \<and> zb_data (nb_get zb w') = zb_data (nb_get zb w) - 14 \<and>
    zb_payload zb (n_pool w') = mac @ nif_mac (n_nif w nif) @ bytes16 (htons type) @ zb_payload zb (n_pool w)"
proof -
  let ?bs = "(mac @ nif_mac (n_nif w nif)) @ bytes16 (htons type)"
  have bs: "length ?bs = unat (14 :: u16)" using mac by (simp add: bytes16_def)
  have r: "uint (14 :: u16) \<le> zb_data (nb_get zb w) - zb_head (nb_get zb w)" using room by simp
  obtain w1 w2 where w1: "nb_op zb (zbuf_push 14) w = (Some (zb_data (nb_get zb w) - 14), w1)"
      "w1 = w\<lparr>n_pool := n_pool w1\<rparr>"
    and w2: "nb_store zb (zb_data (nb_get zb w) - 14) ?bs w1 = Some w2" "w2 = w\<lparr>n_pool := n_pool w2\<rparr>"
      "zb_payload zb (n_pool w2) = ?bs @ zb_payload zb (n_pool w)" "zb_wf (nb_get zb w2)"
      "zb_data (nb_get zb w2) = zb_data (nb_get zb w) - 14"
    using push_header[OF wf r bs] by auto
  from nb_store_prefix[OF w2(1)] obtain w3 where
    w3: "nb_store zb (zb_data (nb_get zb w) - 14) (mac @ nif_mac (n_nif w nif)) w1 = Some w3"
    "nb_store zb (zb_data (nb_get zb w) - 14 + 12) (bytes16 (htons type)) w3 = Some w2"
    using mac by auto
  have n1: "n_nif w1 = n_nif w" by (subst w1(2)) simp
  define w4 where "w4 = nif_upd nif (\<lambda>n. n\<lparr>nif_tx_packets := nif_tx_packets n + 1,
      nif_tx_bytes := nif_tx_bytes n + ucast (zb_len (nb_get zb w2))\<rparr>)
      (nb_upd zb (\<lambda>k. k\<lparr>zb_l2_offset := 0, zb_protocol := type\<rparr>) w2)"
  have "eth_output drv nif zb mac type w = drv nif zb w4"
    using w1(1) w3 n1 by (simp add: eth_output_def w4_def nb_upd_def Let_def)
  moreover have "n_ip_id w4 = n_ip_id w2" by (simp add: w4_def nif_upd_def nb_upd_def)
  moreover have "n_ip_id w2 = n_ip_id w" by (subst w2(2)) simp
  moreover have "zb_payload zb (n_pool w4) = zb_payload zb (n_pool w2)"
    by (simp add: w4_def nif_upd_def nb_upd_def zb_payload_def)
  moreover have "zb_wf (nb_get zb w4)"
    using w2(4) by (simp add: w4_def nif_upd_def nb_upd_def zb_wf_def)
  moreover have "only_buf zb w2 w4" by (simp add: only_buf_def w4_def nif_upd_def nb_upd_def)
  then have "only_buf zb w w4"
    using only_buf_push[OF w1(1)] only_buf_store[OF w2(1)] by (blast intro: only_buf_trans)
  moreover have "zb_data (nb_get zb w4) = zb_data (nb_get zb w) - 14"
    using w2(5) by (simp add: w4_def nif_upd_def nb_upd_def)
  ultimately show ?thesis using w2(3) by (intro exI[of _ w4]) simp
qed

section \<open>IP frames\<close>

text \<open>The address whose MAC address is looked up.\<close>

definition ip_next_hop :: "netif \<Rightarrow> u32 \<Rightarrow> u32" where
  "ip_next_hop n dst = (if dst AND nif_netmask n \<noteq> nif_ip n AND nif_netmask n then nif_gateway n else dst)"

lemma length_ip_hdr: "length (ip_hdr_bytes len ident proto c src dst) = 20"
  by (simp add: ip_hdr_bytes_def bytes16_def bytes32_def)

lemma ip_hdr_split:
  "ip_hdr_bytes len ident proto c src dst =
     take 10 (ip_hdr_bytes len ident proto 0 src dst) @ bytes16 c @ drop 12 (ip_hdr_bytes len ident proto 0 src dst)"
  by (simp add: ip_hdr_bytes_def bytes16_def bytes32_def)

text \<open>The header that \<open>ip_output\<close> builds verifies.\<close>

lemma ip_hdr_verifies:
  assumes "c = inet_checksum (ip_hdr_bytes len ident proto 0 src dst)"
  shows "inet_checksum (ip_hdr_bytes len ident proto c src dst) = 0"
proof -
  let ?h = "ip_hdr_bytes len ident proto 0 src dst"
  have "?h = take 10 ?h @ [0, 0] @ drop 12 ?h"
    by (simp add: ip_hdr_bytes_def bytes16_def bytes32_def hi8_def lo8_def)
  then have "c = inet_checksum (take 10 ?h @ [0, 0] @ drop 12 ?h)" using assms by simp
  from inet_checksum_fill[OF _ _ this] show ?thesis
    by (simp add: ip_hdr_split[of len ident proto c] length_ip_hdr)
qed

lemma nb_push_inv:
  assumes "nb_op b (zbuf_push n) w = (p, w')"
  shows "zpool_inv (n_pool w') fl = zpool_inv (n_pool w) fl"
proof -
  have "n_pool w' = zb_upd b (\<lambda>_. snd (zbuf_push n (nb_get b w))) (n_pool w)"
    using assms by (auto simp: nb_op_def zb_op_def split: prod.splits)
  moreover have "zb_upd b (\<lambda>_. snd (zbuf_push n (nb_get b w))) (n_pool w) =
      zb_upd b (\<lambda>k. snd (zbuf_push n k)) (n_pool w)" by (simp add: zb_upd_def)
  ultimately show ?thesis
    by (simp only:) (rule zpool_inv_upd_window; simp add: zbuf_push_def Let_def)
qed

lemma nb_store_inv: "nb_store b a bs w = Some w' \<Longrightarrow> zpool_inv (n_pool w') fl = zpool_inv (n_pool w) fl"
  by (auto simp: nb_store_def zb_store_def split: if_splits)

text \<open>The first half of \<open>ip_output\<close>: the header is in place and verifies.\<close>

lemma ip_output_prepare:
  assumes nif: "n_netif_default w = Some nif" and wf: "zb_wf (nb_get zb w)"
    and room: "34 \<le> zb_data (nb_get zb w) - zb_head (nb_get zb w)"
    and hdr: "h = (\<lambda>c. ip_hdr_bytes (zb_len (nb_get zb w) + 20) (n_ip_id w) proto c
      (if src = 0 then nif_ip (n_nif w nif) else src) dst)"
  shows "\<exists>w' c. ip_output drv zb src dst proto w =
      (if ip_broadcast (n_nif w nif) dst then eth_output drv nif zb (replicate 6 0xFF) ETH_TYPE_IP w'
       else do {
         (ret, dst_mac, w'') \<leftarrow> arp_resolve drv (ip_next_hop (n_nif w nif) dst) w';
         if ret \<noteq> STATUS_OK then Some (ret, nb_free zb w'') else eth_output drv nif zb dst_mac ETH_TYPE_IP w''
       }) \<and>
    w' = w\<lparr>n_pool := n_pool w', n_ip_id := n_ip_id w + 1\<rparr> \<and> zb_wf (nb_get zb w') \<and> only_buf zb w w' \<and>
    zb_data (nb_get zb w') = zb_data (nb_get zb w) - 20 \<and> zb_head (nb_get zb w') = zb_head (nb_get zb w) \<and>
    zb_payload zb (n_pool w') = h c @ zb_payload zb (n_pool w) \<and> inet_checksum (h c) = 0 \<and>
    (\<forall>fl. zpool_inv (n_pool w') fl = zpool_inv (n_pool w) fl)"
proof -
  let ?k = "nb_get zb w" and ?a = "zb_data (nb_get zb w) - 20"
  have r: "uint (20 :: u16) \<le> zb_data ?k - zb_head ?k" using room by simp
  have l: "length (h 0) = unat (20 :: u16)" by (simp add: hdr length_ip_hdr)
  from push_header[OF wf r l] obtain w1 w2 where
    w1: "nb_op zb (zbuf_push 20) w = (Some ?a, w1)" "w1 = w\<lparr>n_pool := n_pool w1\<rparr>" "zb_len (nb_get zb w1) = zb_len ?k + 20"
    and w2: "nb_store zb ?a (h 0) w1 = Some w2" "w2 = w\<lparr>n_pool := n_pool w2\<rparr>" "zb_wf (nb_get zb w2)"
      "zb_data (nb_get zb w2) = ?a" "zb_head (nb_get zb w2) = zb_head ?k"
      "zb_payload zb (n_pool w2) = h 0 @ zb_payload zb (n_pool w)"
    by auto
  define w3 where "w3 = w2\<lparr>n_ip_id := n_ip_id w2 + 1\<rparr>"
  have len2: "20 \<le> unat (zb_len (nb_get zb w2))"
  proof -
    have "length (zb_payload zb (n_pool w2)) = 20 + length (zb_payload zb (n_pool w))"
      using w2(6) l by simp
    then show ?thesis by (simp add: zb_payload_def)
  qed
  have ld: "nb_load zb ?a 20 w3 = Some (h 0)"
    using load_payload[of w3 zb 0 20] w2(3,4,6) l len2 by (simp add: w3_def)
  define c where "c = inet_checksum (h 0)"
  obtain z4 where z4: "zb_store zb (?a + 10) (bytes16 c) (n_pool w3) = Some z4" "zp_buf z4 = zp_buf (n_pool w3)"
    "zb_payload zb z4 = take 10 (h 0 @ zb_payload zb (n_pool w)) @ bytes16 c @ drop 12 (h 0 @ zb_payload zb (n_pool w))"
    using store_payload[of "n_pool w3" zb 10 "bytes16 c"] w2(3,4,6) len2 by (auto simp: w3_def bytes16_def)
  define w4 where "w4 = w3\<lparr>n_pool := z4\<rparr>"
  have st: "nb_store zb (?a + 10) (bytes16 c) w3 = Some w4" using z4(1) by (simp add: nb_store_def w4_def)
  have p4: "zb_payload zb (n_pool w4) = h c @ zb_payload zb (n_pool w)"
    using z4(3) l ip_hdr_split[of "zb_len ?k + 20" "n_ip_id w" proto c _ dst] by (simp add: w4_def hdr)
  have w4: "w4 = w\<lparr>n_pool := n_pool w4, n_ip_id := n_ip_id w + 1\<rparr>"
    unfolding w4_def w3_def by (subst w2(2), subst (2) w2(2)) simp
  have f4: "n_nif w4 = n_nif w" by (subst w4) simp
  have f1: "n_nif w1 = n_nif w" "n_ip_id w1 = n_ip_id w" by (subst w1(2), simp)+
  have b4: "nb_get zb w4 = nb_get zb w2" using z4(2) by (simp add: w4_def w3_def)
  have "only_buf zb w2 w3" by (simp add: only_buf_def w3_def)
  then have ob: "only_buf zb w w4"
    using only_buf_push[OF w1(1)] only_buf_store[OF w2(1)] only_buf_store[OF st] by (blast intro: only_buf_trans)
  have inv: "zpool_inv (n_pool w4) fl = zpool_inv (n_pool w) fl" for fl
    using nb_push_inv[OF w1(1)] nb_store_inv[OF w2(1)] nb_store_inv[OF st] by (simp add: w3_def)
  have "ip_output drv zb src dst proto w =
      (if ip_broadcast (n_nif w nif) dst then eth_output drv nif zb (replicate 6 0xFF) ETH_TYPE_IP w4
       else do {
         (ret, dst_mac, w'') \<leftarrow> arp_resolve drv (ip_next_hop (n_nif w nif) dst) w4;
         if ret \<noteq> STATUS_OK then Some (ret, nb_free zb w'') else eth_output drv nif zb dst_mac ETH_TYPE_IP w''
       })"
    using nif w1(1,3) w2(1) ld st[unfolded c_def] f4
    by (simp add: ip_output_def Let_def f1 hdr w3_def[symmetric] ip_next_hop_def[symmetric])
  moreover have "inet_checksum (h c) = 0" unfolding hdr by (rule ip_hdr_verifies) (simp add: c_def hdr)
  ultimately show ?thesis using p4 w4 b4 w2(3-5) inv ob by (intro exI[of _ w4] exI[of _ c]) simp
qed

lemma ip_output_ok:
  assumes nif: "n_netif_default w = Some nif" and wf: "zb_wf (nb_get zb w)"
    and room: "34 \<le> zb_data (nb_get zb w) - zb_head (nb_get zb w)"
    and mac: "length mac = 6" "length (nif_mac (n_nif w nif)) = 6"
    and route: "if ip_broadcast (n_nif w nif) dst then mac = replicate 6 0xFF
      else arp_lookup (n_arp w) (ip_next_hop (n_nif w nif) dst) 0 ARP_CACHE_SIZE = Some mac"
    and hdr: "h = (\<lambda>c. ip_hdr_bytes (zb_len (nb_get zb w) + 20) (n_ip_id w) proto c
      (if src = 0 then nif_ip (n_nif w nif) else src) dst)"
  shows "\<exists>w' c. ip_output drv zb src dst proto w = drv nif zb w' \<and> n_ip_id w' = n_ip_id w + 1 \<and> zb_wf (nb_get zb w') \<and>
    only_buf zb w w' \<and> zb_data (nb_get zb w') = zb_data (nb_get zb w) - 34 \<and>
    zb_payload zb (n_pool w') = mac @ nif_mac (n_nif w nif) @ [8, 0] @ h c @ zb_payload zb (n_pool w) \<and>
    inet_checksum (h c) = 0"
proof -
  from ip_output_prepare[OF nif wf room hdr, of drv] obtain w4 c where
    o: "ip_output drv zb src dst proto w =
      (if ip_broadcast (n_nif w nif) dst then eth_output drv nif zb (replicate 6 0xFF) ETH_TYPE_IP w4
       else do {
         (ret, dst_mac, w'') \<leftarrow> arp_resolve drv (ip_next_hop (n_nif w nif) dst) w4;
         if ret \<noteq> STATUS_OK then Some (ret, nb_free zb w'') else eth_output drv nif zb dst_mac ETH_TYPE_IP w''
       })" and
    w4: "w4 = w\<lparr>n_pool := n_pool w4, n_ip_id := n_ip_id w + 1\<rparr>" "zb_wf (nb_get zb w4)"
    "zb_data (nb_get zb w4) = zb_data (nb_get zb w) - 20" "zb_head (nb_get zb w4) = zb_head (nb_get zb w)"
    "zb_payload zb (n_pool w4) = h c @ zb_payload zb (n_pool w)" "inet_checksum (h c) = 0" "only_buf zb w w4"
    by auto
  have f4: "n_nif w4 = n_nif w" "n_arp w4 = n_arp w" "n_ip_id w4 = n_ip_id w + 1" by (subst w4(1), simp)+
  have "ip_output drv zb src dst proto w = eth_output drv nif zb mac ETH_TYPE_IP w4"
    using route f4 by (simp add: o arp_resolve_def)
  moreover obtain w5 where "eth_output drv nif zb mac ETH_TYPE_IP w4 = drv nif zb w5" "n_ip_id w5 = n_ip_id w4" "zb_wf (nb_get zb w5)"
    "only_buf zb w4 w5" "zb_data (nb_get zb w5) = zb_data (nb_get zb w4) - 14"
    "zb_payload zb (n_pool w5) = mac @ nif_mac (n_nif w4 nif) @ bytes16 (htons ETH_TYPE_IP) @ zb_payload zb (n_pool w4)"
    using eth_output_frame[where zb = zb and w = w4 and mac = mac and nif = nif and drv = drv and type = ETH_TYPE_IP]
      w4(2-4) room mac f4 by auto
  moreover have "bytes16 (htons ETH_TYPE_IP) = [8, 0]" by code_simp
  moreover have "only_buf zb w w5" by (rule only_buf_trans[OF w4(7) \<open>only_buf zb w4 w5\<close>])
  ultimately show ?thesis using w4(3,5,6) f4 by (intro exI[of _ w5] exI[of _ c]) simp
qed

text \<open>Stripping a header.\<close>

lemma pull_header:
  assumes wf: "zb_wf (nb_get b w)" and p: "zb_payload b (n_pool w) = xs @ ys" and n: "length xs = unat n"
  shows "\<exists>w'. nb_op b (zbuf_pull n) w = (Some (zb_data (nb_get b w) + uint n), w') \<and>
    w' = w\<lparr>n_pool := n_pool w'\<rparr> \<and> zb_wf (nb_get b w') \<and> zb_payload b (n_pool w') = ys \<and>
    zb_data (nb_get b w') = zb_data (nb_get b w) + uint n \<and> (\<forall>a k. nb_load b a k w' = nb_load b a k w)"
proof -
  let ?k = "nb_get b w"
  define k where "k = ?k\<lparr>zb_data := zb_data ?k + uint n, zb_len := zb_len ?k - n\<rparr>"
  have len: "unat (zb_len ?k) = length xs + length ys"
    using arg_cong[OF p, of length] by (simp add: zb_payload_def)
  then have "int (unat n) \<le> int (unat (zb_len ?k))" using n by simp
  then have le: "uint n \<le> uint (zb_len ?k)" by simp
  then have op: "zbuf_pull n ?k = (Some (zb_data ?k + uint n), k)" by (simp add: zbuf_pull_cases k_def)
  have wfk: "zb_wf k" using zb_wf_pull[OF wf, of n] op by simp
  define w' where "w' = w\<lparr>n_pool := zb_upd b (\<lambda>_. k) (n_pool w)\<rparr>"
  have "uint (zb_len k) = uint (zb_len ?k) - uint n" using uint_sub_le[OF le] by (simp add: k_def)
  then have "int (unat (zb_len k)) = int (unat (zb_len ?k)) - int (unat n)" by simp
  then have lk: "unat (zb_len k) = length ys" using len n by linarith
  have "zb_payload b (n_pool w) = mem_bytes (zp_mem (n_pool w)) (zb_data ?k) (length xs + length ys)"
    by (simp add: zb_payload_def len)
  then have "xs @ ys = mem_bytes (zp_mem (n_pool w)) (zb_data ?k) (length xs) @
      mem_bytes (zp_mem (n_pool w)) (zb_data ?k + int (length xs)) (length ys)"
    using p by (simp add: mem_bytes_add)
  then have "ys = mem_bytes (zp_mem (n_pool w)) (zb_data ?k + int (unat n)) (length ys)" using n by simp
  then have "zb_payload b (n_pool w') = ys" by (simp add: zb_payload_def w'_def lk) (simp add: k_def)
  moreover have "nb_load b a j w' = nb_load b a j w" for a j
    by (simp add: nb_load_def zb_load_def in_buf_def w'_def k_def)
  moreover have "nb_op b (zbuf_pull n) w = (Some (zb_data ?k + uint n), w')"
    using op by (simp add: nb_op_def zb_op_def w'_def)
  ultimately show ?thesis using wfk by (intro exI[of _ w']) (simp add: w'_def k_def)
qed

lemma le16_bytes16: "le16 (lo8 v) (hi8 v) = v"
  by (simp add: le16_def)

lemma le32_bytes32: "le32 (ucast v) (ucast (drop_bit 8 v)) (ucast (drop_bit 16 v)) (ucast (drop_bit 24 v)) = v"
proof (rule bit_word_eqI)
  fix n assume "n < LENGTH(32)"
  then have "n < 8 \<or> 8 \<le> n \<and> n < 16 \<or> 16 \<le> n \<and> n < 24 \<or> 24 \<le> n \<and> n < 32" by auto
  then show "bit (le32 (ucast v) (ucast (drop_bit 8 v)) (ucast (drop_bit 16 v)) (ucast (drop_bit 24 v))) n = bit v n"
    unfolding le32_def by (elim disjE) (auto simp: bit_simps)
qed

text \<open>Reading fields of the payload.\<close>

lemma load_field:
  assumes "zb_wf (nb_get b w)" and "zb_payload b (n_pool w) = xs @ bs @ ys" and "i = int (length xs)" and "length bs = n"
  shows "nb_load b (zb_data (nb_get b w) + i) n w = Some bs"
proof -
  have "length (zb_payload b (n_pool w)) = length xs + n + length ys" using assms by simp
  then have "length xs + n \<le> unat (zb_len (nb_get b w))" by (simp add: zb_payload_def)
  from load_payload[OF assms(1) this] show ?thesis using assms by simp
qed

lemmas load_start = load_field[where xs = "[]" and i = 0, simplified]

lemma payload_len: "zb_payload b (n_pool w) = xs \<Longrightarrow> unat (zb_len (nb_get b w)) = length xs"
  by (auto simp: zb_payload_def)

lemma word_less_unat: "(a :: 'a::len word) < b \<longleftrightarrow> unat a < unat b"
  by (simp add: word_less_nat_alt)

lemma ld16_field:
  assumes "zb_wf (nb_get b w)" and "zb_payload b (n_pool w) = xs @ bytes16 v @ ys" and "i = int (length xs)"
  shows "nb_ld16 b (zb_data (nb_get b w) + i) w = Some v"
  using load_field[OF assms, of 2] by (simp add: nb_ld16_def bytes16_def le16_bytes16)

lemma ld32_field:
  assumes "zb_wf (nb_get b w)" and "zb_payload b (n_pool w) = xs @ bytes32 v @ ys" and "i = int (length xs)"
  shows "nb_ld32 b (zb_data (nb_get b w) + i) w = Some v"
  using load_field[OF assms, of 4] by (simp add: nb_ld32_def bytes32_def le32_bytes32)

lemma ld8_field:
  assumes "zb_wf (nb_get b w)" and "zb_payload b (n_pool w) = xs @ [v] @ ys" and "i = int (length xs)"
  shows "nb_ld8 b (zb_data (nb_get b w) + i) w = Some v"
  using load_field[OF assms, of 1] by (simp add: nb_ld8_def)

lemma ip_input_ok:
  assumes wf: "zb_wf (nb_get b w)" and p: "zb_payload b (n_pool w) = ip_hdr_bytes len ident proto c src dst @ P"
    and ck: "inet_checksum (ip_hdr_bytes len ident proto c src dst) = 0"
    and dst: "dst = nif_ip (n_nif w nif) \<or> dst = IP4_ADDR_BROADCAST"
  shows "\<exists>w'. ip_input drv nif b w = ip_dispatch drv nif b proto w' \<and> zb_payload b (n_pool w') = P \<and>
    w' = w\<lparr>n_pool := n_pool w'\<rparr> \<and> zb_wf (nb_get b w') \<and> zb_data (nb_get b w') = zb_data (nb_get b w) + 20 \<and>
    nb_load b (zb_data (nb_get b w)) 20 w' = Some (ip_hdr_bytes len ident proto c src dst)"
proof -
  let ?h = "ip_hdr_bytes len ident proto c src dst" and ?a = "zb_data (nb_get b w)"
  have l: "\<not> zb_len (nb_get b w) < 20"
    using payload_len[OF p] by (simp add: word_less_unat length_ip_hdr)
  have v: "nb_ld8 b ?a w = Some 0x45"
    using ld8_field[OF wf, of "[]" "0x45" _ 0] p by (simp add: ip_hdr_bytes_def)
  have h: "nb_load b ?a 20 w = Some ?h" using load_start[OF wf p] by (simp add: length_ip_hdr)
  have d: "nb_ld32 b (?a + 16) w = Some (htonl dst)"
    using ld32_field[OF wf, of "take 16 ?h" "htonl dst" P 16] p by (simp add: ip_hdr_bytes_def bytes16_def bytes32_def)
  have pr: "nb_ld8 b (?a + 9) w = Some proto"
    using ld8_field[OF wf, of "take 9 ?h" proto "drop 10 ?h @ P" 9] p by (simp add: ip_hdr_bytes_def bytes16_def bytes32_def)
  have ihl: "IP_HDR_LEN 0x45 = 20" by code_simp
  have u20: "unat (20 :: u8) = 20" "ucast (20 :: u8) = (20 :: u16)" "unat (20 :: u16) = 20" by simp_all
  define w1 where "w1 = nb_upd b (\<lambda>k. k\<lparr>zb_l4_offset := zb_l3_offset k + 20\<rparr>) w"
  have w1: "zb_wf (nb_get b w1)" "zb_payload b (n_pool w1) = ?h @ P" "zb_data (nb_get b w1) = ?a"
    "\<And>a k. nb_load b a k w1 = nb_load b a k w" "w1 = w\<lparr>n_pool := n_pool w1\<rparr>"
    using wf p by (simp_all add: w1_def nb_upd_def zb_wf_def zb_payload_def nb_load_def zb_load_def in_buf_def)
  obtain w2 where w2: "nb_op b (zbuf_pull 20) w1 = (Some (?a + 20), w2)" "w2 = w1\<lparr>n_pool := n_pool w2\<rparr>"
    "zb_wf (nb_get b w2)" "zb_payload b (n_pool w2) = P" "zb_data (nb_get b w2) = ?a + 20"
    "\<And>a k. nb_load b a k w2 = nb_load b a k w1"
    using pull_header[OF w1(1,2), of 20] w1(3) by (auto simp: length_ip_hdr)
  have w2w: "w2 = w\<lparr>n_pool := n_pool w2\<rparr>" by (subst w2(2), subst w1(5)) simp
  have "nb_ld8 b (?a + 9) w2 = Some proto" using pr w1(4) w2(6) by (simp add: nb_ld8_def)
  moreover have "\<not> (dst \<noteq> nif_ip (n_nif w nif) \<and> dst \<noteq> IP4_ADDR_BROADCAST)" using dst by blast
  ultimately have "ip_input drv nif b w = ip_dispatch drv nif b proto w2"
    using l v h d ck w2(1) unfolding ip_input_def ntohl_def
    by (auto simp: Let_def ihl u20 w1_def[symmetric])
  then show ?thesis using w2(3-6) w2w w1(4) h by auto
qed

lemma netif_input_ok:
  assumes wf: "zb_wf (nb_get b w)" and p: "zb_payload b (n_pool w) = xs @ [8, 0] @ P" and xs: "length xs = 12"
  shows "\<exists>w'. netif_input drv nif b w = ip_input drv nif b w' \<and> zb_payload b (n_pool w') = P \<and>
    zb_wf (nb_get b w') \<and> nif_ip (n_nif w' nif) = nif_ip (n_nif w nif) \<and>
    zb_data (nb_get b w') = zb_data (nb_get b w) + 14"
proof -
  let ?a = "zb_data (nb_get b w)"
  have l: "\<not> zb_len (nb_get b w) < 14"
    using payload_len[OF p] xs by (simp add: word_less_unat)
  have e: "[8, 0] = bytes16 (8 :: u16)" "ntohs 8 = ETH_TYPE_IP" by code_simp+
  have t: "nb_ld16 b (?a + 12) w = Some 8"
    using ld16_field[OF wf p[unfolded e(1)], of 12] xs by simp
  define w1 where "w1 = nb_upd b (\<lambda>k. k\<lparr>zb_l2_offset := 0, zb_l3_offset := 14, zb_protocol := ETH_TYPE_IP,
      zb_netif := Some nif\<rparr>) w"
  have w1: "zb_wf (nb_get b w1)" "zb_payload b (n_pool w1) = (xs @ [8, 0]) @ P" "zb_data (nb_get b w1) = ?a" "n_nif w1 = n_nif w"
    using wf p by (simp_all add: w1_def nb_upd_def zb_wf_def zb_payload_def)
  obtain w2 where w2: "nb_op b (zbuf_pull 14) w1 = (Some (?a + 14), w2)" "w2 = w1\<lparr>n_pool := n_pool w2\<rparr>"
    "zb_wf (nb_get b w2)" "zb_payload b (n_pool w2) = P" "zb_data (nb_get b w2) = ?a + 14"
    using pull_header[OF w1(1,2), of 14] w1(3) xs by auto
  have n2: "n_nif w2 = n_nif w" by (subst w2(2)) (simp add: w1(4))
  define w3 where "w3 = nif_upd nif (\<lambda>n. n\<lparr>nif_rx_packets := nif_rx_packets n + 1,
      nif_rx_bytes := nif_rx_bytes n + ucast (zb_len (nb_get b w2))\<rparr>) w2"
  have "netif_input drv nif b w = ip_input drv nif b w3"
    using l t w2(1) by (simp add: netif_input_def Let_def e(2) w1_def[symmetric] w3_def)
  then show ?thesis using w2 n2 by (intro exI[of _ w3]) (simp add: w3_def nif_upd_def)
qed

section \<open>Properties\<close>

text \<open>For the witnesses: one interface, at address 8, and every buffer with 100 bytes of payload.\<close>

definition nif_demo :: netif where
  "nif_demo = \<lparr>nif_name = ''eth0'', nif_mac = [2, 0, 0, 0, 0, 1], nif_ip = 0xC0A80164, nif_netmask = 0xFFFFFF00,
     nif_gateway = 0xC0A80101, nif_mtu = 1500, nif_up = True, nif_priv = None, nif_rx_packets = 0, nif_rx_bytes = 0,
     nif_tx_packets = 0, nif_tx_bytes = 0, nif_rx_errors = 0, nif_tx_errors = 0, nif_next = None\<rparr>"

definition sock_demo :: socket where
  "sock_demo = \<lparr>sk_fd = 0, sk_type = SOCK_STREAM, sk_state = TCP_CLOSED, sk_local = \<lparr>sa_addr = 0, sa_port = 502\<rparr>,
     sk_remote = \<lparr>sa_addr = 0, sa_port = 0\<rparr>, sk_snd_una = 0, sk_snd_nxt = 0, sk_snd_wnd = 8192, sk_rcv_nxt = 0,
     sk_rcv_wnd = 8192, sk_rx_queue = zbuf_queue_init, sk_tx_queue = zbuf_queue_init, sk_rx_sem = sem_init 0,
     sk_tx_sem = sem_init 0, sk_lock = mutex_init, sk_flags = 0, sk_timeout = 0, sk_next = None\<rparr>"

definition net_demo :: net where
  "net_demo = \<lparr>n_pool = zpool_blank\<lparr>zp_buf := (\<lambda>_. zbuf_ex)\<rparr>, n_sched = sched_alone, n_heap = heap0,
     n_nif = (\<lambda>_. nif_demo), n_netif_list = Some 8, n_netif_default = Some 8,
     n_arp = (\<lambda>_. \<lparr>arp_ip = 0, arp_mac = [], arp_expire = 0, arp_valid = False\<rparr>), n_ip_id = 0,
     n_sock = (\<lambda>_. sock_demo), n_table = (\<lambda>_. None), n_next_fd = 0, n_listen = None, n_conn = None,
     n_tcp_lock = SPINLOCK_INIT, n_rto = (\<lambda>_. tcp_init_rto), n_dma = mempool_demo, n_eth = eth_demo\<rparr>"

text \<open>C6: an IP packet arrives. With a default interface, 34 bytes of headroom and a MAC address for the next
  hop (the broadcast address, or a hit in the ARP cache for the destination or the gateway), \<open>ip_output\<close>
  hands the driver a well-formed buffer whose bytes are the Ethernet header, an IP header that
  verifies, and the caller's payload, and counts the identification up; and any stack whose interface
  has the destination address (or any stack at all, when the destination is 255.255.255.255) takes a buffer
  with these bytes through \<open>netif_input\<close> and \<open>ip_input\<close> to the handler of the protocol, with exactly the
  caller's payload. Of other destinations, a broadcast to the subnet among them, the second half says
  nothing.\<close>

theorem ip_roundtrip:
  assumes "n_netif_default w = Some nif" and "zb_wf (nb_get zb w)"
    and "34 \<le> zb_data (nb_get zb w) - zb_head (nb_get zb w)"
    and "length mac = 6" and "length (nif_mac (n_nif w nif)) = 6"
    and "if ip_broadcast (n_nif w nif) dst then mac = replicate 6 0xFF
      else arp_lookup (n_arp w) (ip_next_hop (n_nif w nif) dst) 0 ARP_CACHE_SIZE = Some mac"
  shows "\<exists>w' hdr. ip_output drv zb src dst proto w = drv nif zb w' \<and> n_ip_id w' = n_ip_id w + 1 \<and>
    zb_wf (nb_get zb w') \<and> length hdr = 20 \<and> inet_checksum hdr = 0 \<and>
    zb_payload zb (n_pool w') = mac @ nif_mac (n_nif w nif) @ [8, 0] @ hdr @ zb_payload zb (n_pool w) \<and>
    (\<forall>drv' nif' b v. zb_wf (nb_get b v) \<longrightarrow> zb_payload b (n_pool v) = zb_payload zb (n_pool w') \<longrightarrow>
      dst = nif_ip (n_nif v nif') \<or> dst = IP4_ADDR_BROADCAST \<longrightarrow>
      (\<exists>v'. netif_input drv' nif' b v = ip_dispatch drv' nif' b proto v' \<and>
        zb_payload b (n_pool v') = zb_payload zb (n_pool w)))"
proof -
  define h where h: "h = (\<lambda>c. ip_hdr_bytes (zb_len (nb_get zb w) + 20) (n_ip_id w) proto c
      (if src = 0 then nif_ip (n_nif w nif) else src) dst)"
  obtain w' c where o: "ip_output drv zb src dst proto w = drv nif zb w'" "n_ip_id w' = n_ip_id w + 1" "zb_wf (nb_get zb w')"
    "zb_payload zb (n_pool w') = mac @ nif_mac (n_nif w nif) @ [8, 0] @ h c @ zb_payload zb (n_pool w)"
    "inet_checksum (h c) = 0"
    using ip_output_ok[OF assms h] by blast
  have "\<exists>v'. netif_input drv' nif' b v = ip_dispatch drv' nif' b proto v' \<and>
        zb_payload b (n_pool v') = zb_payload zb (n_pool w)"
    if v: "zb_wf (nb_get b v)" "zb_payload b (n_pool v) = zb_payload zb (n_pool w')"
      "dst = nif_ip (n_nif v nif') \<or> dst = IP4_ADDR_BROADCAST" for drv' nif' b v
  proof -
    have "zb_payload b (n_pool v) = (mac @ nif_mac (n_nif w nif)) @ [8, 0] @ h c @ zb_payload zb (n_pool w)"
      using v(2) o(4) by simp
    from netif_input_ok[OF v(1) this] assms(4,5) obtain v1 where
      v1: "netif_input drv' nif' b v = ip_input drv' nif' b v1" "zb_payload b (n_pool v1) = h c @ zb_payload zb (n_pool w)"
        "zb_wf (nb_get b v1)" "nif_ip (n_nif v1 nif') = nif_ip (n_nif v nif')" by auto
    show ?thesis using ip_input_ok[OF v1(3) v1(2)[unfolded h] o(5)[unfolded h], of nif'] v(3) v1(1,4) by auto
  qed
  moreover have "length (h c) = 20" by (simp add: h length_ip_hdr)
  ultimately show ?thesis using o by (intro exI[of _ w'] exI[of _ "h c"]) simp
qed

theorem ip_roundtrip_witness:
  "\<exists>w' v'. ip_output (\<lambda>nif zb w. Some (STATUS_OK, w)) 0 0 IP4_ADDR_BROADCAST IP_PROTO_UDP net_demo = Some (STATUS_OK, w') \<and>
    netif_input (\<lambda>nif zb w. None) 8 0 w' = ip_dispatch (\<lambda>nif zb w. None) 8 0 IP_PROTO_UDP v' \<and>
    zb_payload 0 (n_pool v') = zb_payload 0 (n_pool net_demo)"
proof -
  have "n_netif_default net_demo = Some 8" "zb_wf (nb_get 0 net_demo)"
    "34 \<le> zb_data (nb_get 0 net_demo) - zb_head (nb_get 0 net_demo)" "length (nif_mac (n_nif net_demo 8)) = 6"
    "ip_broadcast (n_nif net_demo 8) IP4_ADDR_BROADCAST"
    by (simp_all add: net_demo_def nif_demo_def zbuf_ex_def zbuf_blank_def zb_wf_def ip_broadcast_def config_defs)
  from ip_roundtrip[OF this(1-3) _ this(4), of "replicate 6 0xFF" IP4_ADDR_BROADCAST
      "\<lambda>nif zb w. Some (STATUS_OK, w)" 0 IP_PROTO_UDP] this(5)
  show ?thesis by fastforce
qed

text \<open>Entries are only ever filled in order.\<close>

definition arp_filled :: "(nat \<Rightarrow> arp_entry) \<Rightarrow> nat \<Rightarrow> bool" where
  "arp_filled c k \<longleftrightarrow> k \<le> ARP_CACHE_SIZE \<and> (\<forall>i < ARP_CACHE_SIZE. arp_valid (c i) \<longleftrightarrow> i < k)"

lemma arp_lookup_cong: "(\<And>j. i \<le> j \<Longrightarrow> c j = c' j) \<Longrightarrow> arp_lookup c ip i n = arp_lookup c' ip i n"
  by (induction n arbitrary: i) simp_all

lemma arp_lookup_none: "(\<And>j. i \<le> j \<Longrightarrow> j < i + n \<Longrightarrow> \<not> arp_valid (c j)) \<Longrightarrow> arp_lookup c ip i n = None"
  by (induction n arbitrary: i) simp_all

text \<open>With the entries below \<open>k\<close> valid, learning fills entry \<open>k\<close>.\<close>

lemma arp_learn_fills:
  assumes "i \<le> k" and "\<And>j. i \<le> j \<Longrightarrow> j < i + n \<Longrightarrow> arp_valid (c j) \<longleftrightarrow> j < k"
  shows "arp_learn ip mac now i n c =
    (if k < i + n then c(k := \<lparr>arp_ip = ip, arp_mac = mac, arp_expire = now + 300000, arp_valid = True\<rparr>) else c)"
  using assms
proof (induction n arbitrary: i)
  case (Suc n)
  show ?case
  proof (cases "i = k")
    case True
    then show ?thesis using Suc.prems(2)[of i] by simp
  next
    case False
    then have "i + 1 \<le> k" using Suc.prems(1) by simp
    from Suc.IH[OF this] Suc.prems False show ?thesis by simp
  qed
qed simp

lemma arp_lookup_fill:
  assumes "i \<le> k" and "\<And>j. i \<le> j \<Longrightarrow> j < i + n \<Longrightarrow> arp_valid (c j) \<longleftrightarrow> j < k" and "k < i + n" and "arp_valid e"
  shows "arp_lookup (c(k := e)) ip i n =
    (case arp_lookup c ip i n of Some m \<Rightarrow> Some m | None \<Rightarrow> if ip = arp_ip e then Some (arp_mac e) else None)"
  using assms(1-3)
proof (induction n arbitrary: i)
  case (Suc n)
  show ?case
  proof (cases "i = k")
    case True
    have "arp_lookup (c(k := e)) ip (Suc i) n = arp_lookup c ip (Suc i) n" using True by (intro arp_lookup_cong) simp
    moreover have "arp_lookup c ip (Suc i) n = None" using Suc.prems(2) True by (intro arp_lookup_none) simp
    ultimately show ?thesis using True Suc.prems(2)[of i] assms(4) by (simp del: fun_upd_apply add: fun_upd_same)
  next
    case False
    then have "i + 1 \<le> k" using Suc.prems(1) by simp
    from Suc.IH[OF this] Suc.prems False show ?thesis by simp
  qed
qed simp

lemma arp_learn_ok:
  assumes "arp_filled c k" and "c' = arp_learn ip mac now 0 ARP_CACHE_SIZE c"
  shows "arp_filled c' (min ARP_CACHE_SIZE (k + 1))" and "arp_lookup c' ip' 0 ARP_CACHE_SIZE =
    (case arp_lookup c ip' 0 ARP_CACHE_SIZE of Some m \<Rightarrow> Some m
     | None \<Rightarrow> if ip' = ip \<and> k < ARP_CACHE_SIZE then Some mac else None)"
proof -
  let ?e = "\<lparr>arp_ip = ip, arp_mac = mac, arp_expire = now + 300000, arp_valid = True\<rparr>"
  have v: "\<And>j. 0 \<le> j \<Longrightarrow> j < 0 + ARP_CACHE_SIZE \<Longrightarrow> arp_valid (c j) \<longleftrightarrow> j < k"
    using assms(1) by (simp add: arp_filled_def)
  have c': "c' = (if k < ARP_CACHE_SIZE then c(k := ?e) else c)"
    using arp_learn_fills[where i = 0 and k = k and n = ARP_CACHE_SIZE and c = c and ip = ip and mac = mac and now = now, OF _ v] assms(2) by simp
  show "arp_filled c' (min ARP_CACHE_SIZE (k + 1))" using assms(1) by (auto simp: arp_filled_def c')
  show "arp_lookup c' ip' 0 ARP_CACHE_SIZE =
    (case arp_lookup c ip' 0 ARP_CACHE_SIZE of Some m \<Rightarrow> Some m
     | None \<Rightarrow> if ip' = ip \<and> k < ARP_CACHE_SIZE then Some mac else None)"
    using arp_lookup_fill[of 0 k ARP_CACHE_SIZE c ?e ip', OF _ v] by (auto simp: c' split: option.splits)
qed

text \<open>The ARP cache. Entries are filled in order and stay: an ARP packet (not a request for the
  interface's own address) fills the next entry, also when its sender is known already, and changes
  no address that resolves; an unknown sender is learnt exactly as long as fewer than 64 packets have
  been received. So a host's new MAC address is never taken over, and 64 packets of one host are
  enough that no other host is learnt.\<close>

theorem arp_cache_frozen:
  assumes "arp_filled (n_arp w) k" and "zb_wf (nb_get zb w)" and "length sha = 6" and "length tha = 6"
    and "zb_payload zb (n_pool w) = arp_bytes oper sha (htonl spa) tha (htonl tpa) @ rest"
    and "oper = ARP_OP_REQUEST \<longrightarrow> tpa \<noteq> nif_ip (n_nif w nif)"
  shows "\<exists>w'. arp_input drv nif zb w = Some w' \<and> arp_filled (n_arp w') (min ARP_CACHE_SIZE (k + 1)) \<and>
    (\<forall>ip. arp_lookup (n_arp w') ip 0 ARP_CACHE_SIZE =
      (case arp_lookup (n_arp w) ip 0 ARP_CACHE_SIZE of Some m \<Rightarrow> Some m
       | None \<Rightarrow> if ip = spa \<and> k < ARP_CACHE_SIZE then Some sha else None))"
proof -
  let ?a = "zb_data (nb_get zb w)" and ?p = "arp_bytes oper sha (htonl spa) tha (htonl tpa) @ rest"
  note d = arp_bytes_def bytes16_def bytes32_def
  note f16 = ld16_field[OF assms(2)] and f32 = ld32_field[OF assms(2)]
  have len: "\<not> zb_len (nb_get zb w) < 28"
    using payload_len[OF assms(5)] assms(3,4) by (simp add: word_less_unat d)
  have f: "nb_ld16 zb ?a w = Some (htons 1)" "nb_ld16 zb (?a + 2) w = Some (htons ETH_TYPE_IP)"
    "nb_ld16 zb (?a + 6) w = Some (htons oper)" "nb_load zb (?a + 8) 6 w = Some sha"
    "nb_ld32 zb (?a + 14) w = Some (htonl spa)" "nb_ld32 zb (?a + 24) w = Some (htonl tpa)"
    using f16[of "[]" "htons 1" "drop 2 ?p" 0] f16[of "take 2 ?p" "htons ETH_TYPE_IP" "drop 4 ?p" 2]
      f16[of "take 6 ?p" "htons oper" "drop 8 ?p" 6] load_field[OF assms(2), of "take 8 ?p" sha "drop 14 ?p" 8 6]
      f32[of "take 14 ?p" "htonl spa" "drop 18 ?p" 14] f32[of "take 24 ?p" "htonl tpa" rest 24] assms(3-5)
    by (simp_all add: d)
  define w1 where "w1 = w\<lparr>n_arp := arp_learn spa sha (get_system_ticks (n_sched w)) 0 ARP_CACHE_SIZE (n_arp w)\<rparr>"
  have "\<not> (oper = ARP_OP_REQUEST \<and> tpa = nif_ip (n_nif w nif))" using assms(6) by blast
  then have "arp_input drv nif zb w = Some (nb_free zb w1)"
    using len f by (auto simp: arp_input_def Let_def ntohs_def ntohl_def w1_def)
  moreover have "n_arp (nb_free zb w1) = n_arp w1" by (simp add: nb_free_def)
  moreover have "n_arp w1 = arp_learn spa sha (get_system_ticks (n_sched w)) 0 ARP_CACHE_SIZE (n_arp w)"
    by (simp add: w1_def)
  ultimately show ?thesis using arp_learn_ok[OF assms(1)] by auto
qed

theorem arp_cache_frozen_witness:
  "\<exists>w'. arp_input (\<lambda>nif zb w. None) 8 0 (net_demo\<lparr>n_pool := zpool_blank\<lparr>zp_buf := (\<lambda>_. zbuf_ex\<lparr>zb_len := 28, zb_tail := 260\<rparr>),
      zp_mem := mem_write 232 (arp_bytes ARP_OP_REPLY [2, 0, 0, 0, 0, 9] (htonl 7) (replicate 6 0) (htonl 9)) (\<lambda>_. 0)\<rparr>\<rparr>) = Some w' \<and>
    arp_lookup (n_arp w') 7 0 ARP_CACHE_SIZE = Some [2, 0, 0, 0, 0, 9]"
proof -
  let ?p = "arp_bytes ARP_OP_REPLY [2, 0, 0, 0, 0, 9] (htonl 7) (replicate 6 0) (htonl 9)"
  let ?w = "net_demo\<lparr>n_pool := zpool_blank\<lparr>zp_buf := (\<lambda>_. zbuf_ex\<lparr>zb_len := 28, zb_tail := 260\<rparr>),
      zp_mem := mem_write 232 ?p (\<lambda>_. 0)\<rparr>\<rparr>"
  have l: "length ?p = 28" by (simp add: arp_bytes_def bytes16_def bytes32_def)
  have "arp_filled (n_arp ?w) 0" by (simp add: arp_filled_def net_demo_def)
  moreover have "zb_wf (nb_get 0 ?w)" by (simp add: zb_wf_def zbuf_ex_def zbuf_blank_def config_defs)
  moreover have "zb_payload 0 (n_pool ?w) = ?p @ []"
    using mem_bytes_write[of 232 ?p "\<lambda>_. 0"] l by (simp add: zb_payload_def zbuf_ex_def)
  moreover have "arp_lookup (n_arp ?w) 7 0 ARP_CACHE_SIZE = None"
    by (rule arp_lookup_none) (simp add: net_demo_def)
  moreover have "ARP_OP_REPLY = ARP_OP_REQUEST \<longrightarrow> 9 \<noteq> nif_ip (n_nif ?w 8)"
    by (simp add: ARP_OP_REPLY_def ARP_OP_REQUEST_def)
  ultimately show ?thesis
    using arp_cache_frozen[of ?w 0 0 "[2, 0, 0, 0, 0, 9]" "replicate 6 0" ARP_OP_REPLY 7 9 "[]" 8 "\<lambda>nif zb w. None"]
    by (auto simp: ARP_CACHE_SIZE_def)
qed

end
