(* ===== verification/Tcp_Props.thy ===== *)
theory Tcp_Props
  imports Net_Props
begin

text \<open>
  Properties of \<open>net/stack/tcp.c\<close>: the checksum against RFC 793, the state machine as a transition
  relation that every operation refines, and the passive open.
\<close>

section \<open>The checksum\<close>

text \<open>The sum of big-endian words, and the sum that RFC 793 prescribes: the halves of the two addresses,
  the protocol number, the length, and the segment.\<close>

fun wsum_be :: "u8 list \<Rightarrow> nat" where
  "wsum_be (a # b # bs) = 256 * unat a + unat b + wsum_be bs"
| "wsum_be [a] = 256 * unat a"
| "wsum_be [] = 0"

definition halves :: "u32 \<Rightarrow> nat" where
  "halves x = unat x div 65536 + unat x mod 65536"

definition tcp_rfc_sum :: "u32 \<Rightarrow> u32 \<Rightarrow> u8 list \<Rightarrow> nat" where
  "tcp_rfc_sum src dst seg = halves src + halves dst + 6 + length seg + wsum_be seg"

lemma wsum_be_le: "wsum_be bs \<le> 65535 * ((length bs + 1) div 2)"
proof (induction bs rule: wsum_be.induct)
  case (1 a b bs)
  have "unat a < 256" "unat b < 256" by (rule unat_u8)+
  then show ?case using 1 by simp
next
  case (2 a)
  then show ?case using unat_u8[of a] by simp
qed simp

lemma unat_ucast_be16: "unat (ucast (be16 a b) :: u32) = 256 * unat a + unat b"
  using unat_u16[of "be16 a b"] by (simp add: unsigned_ucast_eq take_bit_nat_eq_self unat_be16)

lemma sum_be_wsum: "unat acc + wsum_be bs < 2 ^ 32 \<Longrightarrow> unat (sum_be bs acc) = unat acc + wsum_be bs"
proof (induction bs acc rule: sum_be.induct)
  case (1 a b bs acc)
  have "unat (acc + ucast (be16 a b)) = unat acc + (256 * unat a + unat b)"
    using "1.prems" unat_ucast_be16[of a b] by (simp add: unat_word_ariths)
  then show ?case using 1 by simp
next
  case (2 a acc)
  then show ?case using unat_ucast_be16[of a 0] by (simp add: unat_word_ariths)
qed simp

lemma unat_hi_lo: "unat v = 256 * unat (hi8 v) + unat (lo8 v)"
  using unat_be16[of "hi8 v" "lo8 v"] by simp

lemma unat_htons: "unat (htons v) + 65535 * unat (hi8 v) = 256 * unat v"
  using unat_hi_lo[of v] unat_hi_lo[of "htons v"] by simp

lemma unat_half: "unat (drop_bit 16 x AND 0xFFFF :: u32) = unat x div 65536" "unat (x AND 0xFFFF :: u32) = unat x mod 65536"
proof -
  have "unat x < 65536 * 65536" using unsigned_less[of x] by simp
  then have "unat x div 65536 < 65536" by (simp add: less_mult_imp_div_less)
  then show "unat (drop_bit 16 x AND 0xFFFF :: u32) = unat x div 65536" unfolding unat_low16 unat_high16 by simp
qed (rule unat_low16)

lemma unat_u16_32: "unat (ucast (v :: u16) :: u32) = unat v"
  using unat_u16[of v] by (simp add: unsigned_ucast_eq take_bit_nat_eq_self)

lemma unat_add6:
  assumes "unat a < 65536" "unat b < 65536" "unat c < 65536" "unat d < 65536" "unat e < 65536" "unat f < 65536"
  shows "unat (a + b + c + d + e + f :: u32) = unat a + unat b + unat c + unat d + unat e + unat f"
proof -
  have add: "unat x + unat y < 4294967296 \<Longrightarrow> unat (x + y :: u32) = unat x + unat y" for x y
    by (simp add: unat_word_ariths)
  have "unat (a + b) = unat a + unat b" using assms by (intro add) linarith
  moreover from this have "unat (a + b + c) = unat a + unat b + unat c" using assms by (subst add) linarith+
  moreover from this have "unat (a + b + c + d) = unat a + unat b + unat c + unat d" using assms by (subst add) linarith+
  moreover from this have "unat (a + b + c + d + e) = unat a + unat b + unat c + unat d + unat e" using assms by (subst add) linarith+
  ultimately show ?thesis using assms by (subst add) linarith+
qed

lemma pseudo_props:
  defines "s \<equiv> \<lambda>src dst p len. halves src + halves dst + unat (htons (ucast (p :: u8))) + unat (htons len)"
  shows "unat (inet_pseudo_checksum src dst p len) mod 65535 = s src dst p len mod 65535"
    and "inet_pseudo_checksum src dst p len = 0 \<longleftrightarrow> s src dst p len = 0"
proof -
  define acc :: u32 where "acc = (drop_bit 16 src AND 0xFFFF) + (src AND 0xFFFF) + (drop_bit 16 dst AND 0xFFFF) +
                (dst AND 0xFFFF) + ucast (htons (ucast p)) + ucast (htons len)"
  have "unat src < 65536 * 65536" "unat dst < 65536 * 65536" using unsigned_less[of src] unsigned_less[of dst] by simp_all
  then have b: "unat src div 65536 < 65536" "unat dst div 65536 < 65536" by (simp_all add: less_mult_imp_div_less)
  have m: "unat src mod 65536 < 65536" "unat dst mod 65536 < 65536" by simp_all
  note h = unat_u16[of "htons (ucast p)"] unat_u16[of "htons len"]
  have "unat acc = unat src div 65536 + unat src mod 65536 + unat dst div 65536 + unat dst mod 65536 +
      unat (htons (ucast p)) + unat (htons len)"
    unfolding acc_def by (subst unat_add6) (simp_all only: unat_half(1) unat_half(2)[of src] unat_half(2)[of dst] unat_u16_32 b m h)
  then have a: "unat acc = s src dst p len" by (simp add: s_def halves_def)
  have p: "inet_pseudo_checksum src dst p len = ucast (fold_sum acc)"
    by (simp add: inet_pseudo_checksum_def acc_def Let_def)
  note f = fold_sum_props[of acc]
  have u: "unat (ucast (fold_sum acc) :: u16) = unat (fold_sum acc)"
    using f by (simp add: unsigned_ucast_eq take_bit_nat_eq_self)
  show "unat (inet_pseudo_checksum src dst p len) mod 65535 = s src dst p len mod 65535"
    using f a by (simp only: p u)
  have "inet_pseudo_checksum src dst p len = 0 \<longleftrightarrow> unat (fold_sum acc) = 0" by (metis p u unsigned_eq_0_iff)
  also have "\<dots> \<longleftrightarrow> acc = 0" using f by (simp add: unsigned_eq_0_iff)
  also have "\<dots> \<longleftrightarrow> s src dst p len = 0" using a by (metis unsigned_eq_0_iff)
  finally show "inet_pseudo_checksum src dst p len = 0 \<longleftrightarrow> s src dst p len = 0" .
qed

lemma NOT16_0_iff: "unat x \<le> 65535 \<Longrightarrow> NOT (ucast (x :: u32)) = (0 :: u16) \<longleftrightarrow> unat x = 65535"
proof -
  assume x: "unat x \<le> 65535"
  then have "unat (ucast x :: u16) = unat x" by (simp add: unsigned_ucast_eq take_bit_nat_eq_self)
  moreover have "NOT (ucast x) = (0 :: u16) \<longleftrightarrow> unat (NOT (ucast x :: u16)) = 0" by (simp only: unsigned_eq_0_iff)
  ultimately show ?thesis using x by (simp only: unat_NOT16) linarith
qed

lemma tcp_checksum_aux:
  assumes n: "length seg < 65536" and rfc: "tcp_rfc_sum src dst seg mod 65535 = 0"
  shows "tcp_checksum src dst seg = 0 \<longleftrightarrow> 257 dvd length seg + 6"
proof -
  define len :: u16 where "len = of_nat (length seg)"
  have len: "unat len = length seg" using n by (simp add: len_def unat_of_nat)
  define c where "c = inet_pseudo_checksum src dst IP_PROTO_TCP len"
  have six: "unat (htons (ucast IP_PROTO_TCP)) = 1536" by code_simp
  have c: "unat c mod 65535 = (halves src + halves dst + 1536 + unat (htons len)) mod 65535" "c \<noteq> 0"
    using pseudo_props[of src dst IP_PROTO_TCP len] six by (simp_all add: c_def)
  have "wsum_be seg \<le> 65535 * 32768" using wsum_be_le[of seg] n by simp
  then have s: "unat (sum_be seg (ucast c)) = unat c + wsum_be seg"
    using sum_be_wsum[of "ucast c" seg] unat_u16[of c] by (simp add: unat_u16_32)
  define f where "f = fold_sum (sum_be seg (ucast c))"
  note fp = fold_sum_props[of "sum_be seg (ucast c)", folded f_def]
  have "sum_be seg (ucast c) \<noteq> 0" using s c(2) by (metis add_is_0 unsigned_0 unsigned_eq_0_iff)
  then have pos: "unat f \<noteq> 0" using fp by (simp add: unsigned_eq_0_iff)
  have "tcp_checksum src dst seg = 0 \<longleftrightarrow> unat f = 65535"
    using NOT16_0_iff[of f] fp by (simp add: tcp_checksum_def c_def f_def len_def)
  also have "\<dots> \<longleftrightarrow> unat f mod 65535 = 0"
  proof
    assume "unat f mod 65535 = 0"
    then obtain k where "unat f = 65535 * k" by (auto simp: mod_eq_0_iff_dvd)
    then show "unat f = 65535" using fp pos by (cases k) auto
  qed simp
  also have "\<dots> \<longleftrightarrow> (halves src + halves dst + 1536 + unat (htons len) + wsum_be seg) mod 65535 = 0"
  proof -
    have "unat f mod 65535 = (unat c mod 65535 + wsum_be seg) mod 65535"
      using fp s by (simp only: mod_add_left_eq)
    then show ?thesis unfolding c(1) by (simp only: mod_add_left_eq)
  qed
  also have "\<dots> \<longleftrightarrow> (halves src + halves dst + 1536 + unat (htons len) + wsum_be seg + 65535 * unat (hi8 len)) mod 65535 = 0"
    by simp
  also have "halves src + halves dst + 1536 + unat (htons len) + wsum_be seg + 65535 * unat (hi8 len) =
      tcp_rfc_sum src dst seg + 255 * (length seg + 6)"
    using unat_htons[of len] len by (simp add: tcp_rfc_sum_def)
  also have "\<dots> mod 65535 = 0 \<longleftrightarrow> 255 * (length seg + 6) mod 65535 = 0"
    using rfc by (metis mod_add_left_eq add_0)
  also have "\<dots> \<longleftrightarrow> 255 * 257 dvd 255 * (length seg + 6)" by (simp add: mod_eq_0_iff_dvd)
  also have "\<dots> \<longleftrightarrow> 257 dvd length seg + 6" by (simp only: nat_mult_dvd_cancel_disj) simp
  finally show ?thesis .
qed

text \<open>The checksum test of \<open>tcp_input\<close> is not the one of RFC 793. The protocol number and the length
  enter the pseudo-header sum byte-swapped while addresses and segment do not, so a segment whose
  checksum is right is accepted only when 257 divides its length plus 6; every other one, a SYN of 20
  bytes for instance, is counted as an error and freed, and nothing else happens.\<close>

theorem tcp_checksum_rfc:
  assumes "length seg < 65536" and "tcp_rfc_sum src dst seg mod 65535 = 0"
    and "zb_wf (nb_get zb w)" and "zb_payload zb (n_pool w) = seg" and "20 \<le> length seg"
    and "nb_ld32 zb (zb_data (nb_get zb w) - 8) w = Some (htonl src)"
    and "nb_ld32 zb (zb_data (nb_get zb w) - 4) w = Some (htonl dst)"
  shows "(tcp_checksum src dst seg = 0 \<longleftrightarrow> 257 dvd length seg + 6) \<and>
    (257 dvd length seg + 6 \<or> tcp_input drv nif zb w =
      Some (Done () (nb_free zb (nif_upd nif (\<lambda>n. n\<lparr>nif_rx_errors := nif_rx_errors n + 1\<rparr>) w))))"
proof -
  note ck = tcp_checksum_aux[OF assms(1,2)]
  have l: "unat (zb_len (nb_get zb w)) = length seg" by (rule payload_len[OF assms(4)])
  then have "\<not> zb_len (nb_get zb w) < 20" using assms(5) by (simp add: word_less_unat)
  moreover have "nb_load zb (zb_data (nb_get zb w)) (unat (zb_len (nb_get zb w))) w = Some seg"
    using load_start[OF assms(3), of seg "[]"] assms(4) l by simp
  ultimately show ?thesis using ck assms(6,7) by (simp add: tcp_input_def Let_def ntohl_def)
qed

text \<open>For the witness: a SYN from port 80 to port 80, behind an IP header of zeros.\<close>

definition syn_demo :: "u8 list" where
  "syn_demo = [0, 80, 0, 80, 0, 0, 0, 0, 0, 0, 0, 0, 0x50, 2, 0x20, 0, 0x8F, 0x43, 0, 0]"

theorem tcp_checksum_rfc_witness:
  "tcp_checksum 0 0 syn_demo \<noteq> 0 \<and> (\<exists>w. zb_payload 0 (n_pool w) = syn_demo \<and>
    tcp_input (\<lambda>nif zb w. None) 8 0 w =
      Some (Done () (nb_free 0 (nif_upd 8 (\<lambda>n. n\<lparr>nif_rx_errors := nif_rx_errors n + 1\<rparr>) w))))"
proof -
  let ?w = "net_demo\<lparr>n_pool := zpool_blank\<lparr>zp_buf := (\<lambda>_. zbuf_ex\<lparr>zb_len := 20, zb_tail := 252\<rparr>),
      zp_mem := mem_write 232 syn_demo (\<lambda>_. 0)\<rparr>\<rparr>"
  have l: "length syn_demo = 20" by (simp add: syn_demo_def)
  have r: "tcp_rfc_sum 0 0 syn_demo mod 65535 = 0"
    by (simp add: tcp_rfc_sum_def halves_def syn_demo_def)
  have p: "zb_payload 0 (n_pool ?w) = syn_demo"
    using mem_bytes_write[of 232 syn_demo "\<lambda>_. 0"] l by (simp add: zb_payload_def zbuf_ex_def)
  have wf: "zb_wf (nb_get 0 ?w)" by (simp add: zb_wf_def zbuf_ex_def zbuf_blank_def config_defs)
  have z: "nb_ld32 0 (zb_data (nb_get 0 ?w) - 8) ?w = Some (htonl 0)" "nb_ld32 0 (zb_data (nb_get 0 ?w) - 4) ?w = Some (htonl 0)"
    by (simp_all add: nb_ld32_def nb_load_def zb_load_def in_buf_def zbuf_ex_def mem_write_def htonl_def le32_def)
  show ?thesis
    using tcp_checksum_rfc[where seg = syn_demo and drv = "\<lambda>nif zb w. None" and nif = 8, OF _ r wf p _ z] p l by (intro conjI exI[of _ ?w]) auto
qed

end
