(* ===== verification/Tcp_States.thy ===== *)
theory Tcp_States
  imports Tcp_Props Sync_Props
begin

text \<open>
  The connection states of \<open>net/stack/tcp.c\<close> as a labelled transition relation, and the proof that
  every operation that can touch a socket, and every run of such operations, only makes its moves.
\<close>

section \<open>The states of the sockets\<close>

definition st_of :: "net \<Rightarrow> addr \<Rightarrow> tcp_state" where
  "st_of w a = sk_state (n_sock w a)"

text \<open>A driver that leaves the sockets alone.\<close>

definition keeps_sockets :: "driver \<Rightarrow> bool" where
  "keeps_sockets drv \<longleftrightarrow> (\<forall>nif zb w st w'. drv nif zb w = Some (st, w') \<longrightarrow> n_sock w' = n_sock w)"

named_theorems same_sock \<open>operations that do not touch the sockets\<close>
named_theorems same_state \<open>operations that do not change a socket's state\<close>

lemma keeps_socketsD [same_sock]: "drv nif zb w = Some (st, w') \<Longrightarrow> keeps_sockets drv \<Longrightarrow> n_sock w' = n_sock w"
  by (auto simp: keeps_sockets_def)

lemma st_of_cong: "n_sock w' = n_sock w \<Longrightarrow> st_of w' = st_of w"
  by (simp add: st_of_def fun_eq_iff)

lemma n_sock_simps [simp]:
  "n_sock (nb_upd b f w) = n_sock w" "n_sock (nif_upd a g w) = n_sock w" "n_sock (nb_free b w) = n_sock w"
  "n_sock (rto_upd i h w) = n_sock w"
  by (simp_all add: nb_upd_def nif_upd_def nb_free_def rto_upd_def)

lemma nb_op_same [same_sock]: "nb_op b f w = (p, w') \<Longrightarrow> n_sock w' = n_sock w"
  by (auto simp: nb_op_def split: prod.splits)

lemma nb_alloc_tx_same [same_sock]: "nb_alloc_tx n w = (p, w') \<Longrightarrow> n_sock w' = n_sock w"
  by (auto simp: nb_alloc_tx_def split: prod.splits)

lemma nb_store_same [same_sock]: "nb_store b a bs w = Some w' \<Longrightarrow> n_sock w' = n_sock w"
  by (auto simp: nb_store_def Option.bind_eq_Some_conv)

lemmas steps = Option.bind_eq_Some_conv Let_def option.splits prod.splits

lemma eth_output_same [same_sock]:
  "eth_output drv nif zb mac type w = Some (st, w') \<Longrightarrow> keeps_sockets drv \<Longrightarrow> n_sock w' = n_sock w"
  by (auto simp: eth_output_def Let_def Option.bind_eq_Some_conv split: option.splits prod.splits dest!: same_sock)

lemma arp_resolve_same [same_sock]:
  "arp_resolve drv ip w = Some (st, mac, w') \<Longrightarrow> keeps_sockets drv \<Longrightarrow> n_sock w' = n_sock w"
  by (auto simp: arp_resolve_def Let_def Option.bind_eq_Some_conv split: option.splits prod.splits dest!: same_sock)

lemma ip_output_same [same_sock]:
  "ip_output drv zb src dst proto w = Some (st, w') \<Longrightarrow> keeps_sockets drv \<Longrightarrow> n_sock w' = n_sock w"
  by (auto simp: ip_output_def Let_def Option.bind_eq_Some_conv split: option.splits prod.splits if_splits dest!: same_sock)

lemma udp_output_same [same_sock]:
  "udp_output drv zb src dst w = Some (st, w') \<Longrightarrow> keeps_sockets drv \<Longrightarrow> n_sock w' = n_sock w"
  by (auto simp: udp_output_def Option.bind_eq_Some_conv split: option.splits prod.splits dest!: same_sock)

lemma arp_reply_same [same_sock]:
  "arp_reply drv nif sha spa w = Some w' \<Longrightarrow> keeps_sockets drv \<Longrightarrow> n_sock w' = n_sock w"
  by (auto simp: arp_reply_def Let_def Option.bind_eq_Some_conv split: option.splits prod.splits dest!: same_sock)

lemma arp_input_same [same_sock]:
  "arp_input drv nif zb w = Some w' \<Longrightarrow> keeps_sockets drv \<Longrightarrow> n_sock w' = n_sock w"
  by (auto simp: arp_input_def Let_def Option.bind_eq_Some_conv split: if_splits dest!: same_sock)

lemma icmp_input_same [same_sock]:
  "icmp_input drv zb w = Some w' \<Longrightarrow> keeps_sockets drv \<Longrightarrow> n_sock w' = n_sock w"
  by (auto simp: icmp_input_def Let_def Option.bind_eq_Some_conv split: prod.splits if_splits dest!: same_sock)

lemma tcp_send_rst_same [same_sock]:
  "tcp_send_rst drv q ip t n w = Some w' \<Longrightarrow> keeps_sockets drv \<Longrightarrow> n_sock w' = n_sock w"
  by (auto simp: tcp_send_rst_def Let_def Option.bind_eq_Some_conv split: option.splits prod.splits if_splits dest!: same_sock)


lemma st_of_sk_upd: "(\<And>k. sk_state (f k) = sk_state k) \<Longrightarrow> st_of (sk_upd a f w) = st_of w"
  by (simp add: st_of_def sk_upd_def fun_eq_iff)

lemma st_of_simps [simp]:
  "st_of (w\<lparr>n_pool := z\<rparr>) = st_of w" "st_of (w\<lparr>n_sched := s\<rparr>) = st_of w" "st_of (w\<lparr>n_heap := h\<rparr>) = st_of w"
  "st_of (w\<lparr>n_table := t\<rparr>) = st_of w" "st_of (w\<lparr>n_next_fd := fd\<rparr>) = st_of w" "st_of (w\<lparr>n_listen := p\<rparr>) = st_of w"
  "st_of (w\<lparr>n_conn := p\<rparr>) = st_of w" "st_of (w\<lparr>n_tcp_lock := l\<rparr>) = st_of w" "st_of (w\<lparr>n_arp := c\<rparr>) = st_of w"
  "st_of (nb_upd b f w) = st_of w" "st_of (nif_upd a g w) = st_of w" "st_of (nb_free b w) = st_of w"
  "st_of (rto_upd i r w) = st_of w"
  "st_of (sk_upd a (sk_rx_sem_update e) w) = st_of w" "st_of (sk_upd a (sk_tx_sem_update e) w) = st_of w"
  "st_of (sk_upd a (sk_lock_update e2) w) = st_of w" "st_of (sk_upd a (sk_rx_queue_update e3) w) = st_of w"
  "st_of (sk_upd a (sk_tx_queue_update e3) w) = st_of w" "st_of (sk_upd a (sk_remote_update e4) w) = st_of w"
  "st_of (sk_upd a (sk_local_update e4) w) = st_of w" "st_of (sk_upd a (sk_next_update e5) w) = st_of w"
  "st_of (sk_upd a (sk_fd_update e6) w) = st_of w" "st_of (sk_upd a (sk_snd_una_update e7) w) = st_of w"
  "st_of (sk_rewind a w) = st_of w"
  by (simp_all add: st_of_def fun_eq_iff sk_upd_def sk_rewind_def)

lemma tcp_unlock_irq_same [simp]: "st_of (tcp_unlock_irq w) = st_of w"
  by (simp add: tcp_unlock_irq_def split: prod.split)

lemma st_of_set [simp]: "st_of (sk_upd a (sk_state_update (\<lambda>_. s)) w) = (st_of w)(a := s)"
  by (simp add: st_of_def sk_upd_def fun_eq_iff)

lemmas same_st [same_state] = same_sock[THEN st_of_cong]

lemma tcp_build_segment_same [same_state]:
  "tcp_build_segment drv a flags fresh zb w = Some (st, w') \<Longrightarrow> keeps_sockets drv \<Longrightarrow> st_of w' = st_of w"
  by (auto simp: tcp_build_segment_def Let_def Option.bind_eq_Some_conv st_of_sk_upd
      split: option.splits prod.splits if_splits dest!: same_st)

lemma tcp_send_segment_same [same_state]:
  "tcp_send_segment drv a flags data w = Some (st, w') \<Longrightarrow> keeps_sockets drv \<Longrightarrow> st_of w' = st_of w"
  by (auto simp: tcp_send_segment_def split: option.splits prod.splits dest!: same_state)

lemma tcp_send_ctl_same [same_state]:
  "tcp_send_ctl drv a flags w = Some w' \<Longrightarrow> keeps_sockets drv \<Longrightarrow> st_of w' = st_of w"
  by (auto simp: tcp_send_ctl_def Option.bind_eq_Some_conv dest!: same_state)

lemma sk_unlock_same [same_state]: "sk_unlock a w = Some w' \<Longrightarrow> st_of w' = st_of w"
  and rx_post_same [same_state]: "rx_post a w = Some w' \<Longrightarrow> st_of w' = st_of w"
  and tx_post_same [same_state]: "tx_post a w = Some w' \<Longrightarrow> st_of w' = st_of w"
  by (auto simp: sk_unlock_def rx_post_def tx_post_def Option.bind_eq_Some_conv)

lemma rx_push_same [simp]: "st_of (rx_push a zb w) = st_of w"
  by (simp add: rx_push_def split: prod.split)

lemma rx_pop_same [same_state]: "rx_pop a w = (p, w') \<Longrightarrow> st_of w' = st_of w"
  by (auto simp: rx_pop_def split: prod.splits)

lemma tcp_lock_irq_same [same_state]: "tcp_lock_irq w = Some w' \<Longrightarrow> st_of w' = st_of w"
  by (auto simp: tcp_lock_irq_def Option.bind_eq_Some_conv)

lemma listen_add_same [same_state]: "listen_add a w = Some w' \<Longrightarrow> st_of w' = st_of w"
  and conn_add_same [same_state]: "conn_add a w = Some w' \<Longrightarrow> st_of w' = st_of w"
  by (auto simp: listen_add_def conn_add_def Option.bind_eq_Some_conv Let_def dest!: same_state)

section \<open>The transition relation\<close>

datatype tcp_event = Ev_create | Ev_listen | Ev_connect | Ev_segment | Ev_timeout | Ev_close

inductive tcp_trans :: "tcp_event \<Rightarrow> tcp_state \<Rightarrow> tcp_state \<Rightarrow> bool" where
  create: "tcp_trans Ev_create s TCP_CLOSED"
| listen: "tcp_trans Ev_listen s TCP_LISTEN"
| connect: "tcp_trans Ev_connect s TCP_SYN_SENT"
| syn: "tcp_trans Ev_segment TCP_LISTEN TCP_SYN_RECEIVED"
| syn_ack: "tcp_trans Ev_segment TCP_SYN_SENT TCP_ESTABLISHED"
| ack: "tcp_trans Ev_segment TCP_SYN_RECEIVED TCP_ESTABLISHED"
| fin: "tcp_trans Ev_segment TCP_ESTABLISHED TCP_CLOSE_WAIT"
| fin_acked: "tcp_trans Ev_segment TCP_FIN_WAIT_1 TCP_FIN_WAIT_2"
| fin_both: "tcp_trans Ev_segment TCP_FIN_WAIT_1 TCP_TIME_WAIT"
| fin_2: "tcp_trans Ev_segment TCP_FIN_WAIT_2 TCP_TIME_WAIT"
| last: "tcp_trans Ev_segment TCP_LAST_ACK TCP_CLOSED"
| expire: "s \<in> {TCP_SYN_SENT, TCP_SYN_RECEIVED, TCP_ESTABLISHED, TCP_FIN_WAIT_1, TCP_LAST_ACK, TCP_TIME_WAIT} \<Longrightarrow>
    tcp_trans Ev_timeout s TCP_CLOSED"
| close: "tcp_trans Ev_close TCP_ESTABLISHED TCP_FIN_WAIT_1"

inductive_cases tcp_trans_from_close_wait: "tcp_trans e TCP_CLOSE_WAIT t"
inductive_simps tcp_trans_timeout: "tcp_trans Ev_timeout s t"
inductive_simps tcp_trans_to_closing: "tcp_trans e s TCP_CLOSING"
inductive_simps tcp_trans_to_last_ack: "tcp_trans e s TCP_LAST_ACK"

text \<open>One event moves every socket by at most one transition.\<close>

definition moves :: "tcp_event \<Rightarrow> net \<Rightarrow> net \<Rightarrow> bool" where
  "moves e w w' \<longleftrightarrow> (\<forall>a. st_of w' a = st_of w a \<or> tcp_trans e (st_of w a) (st_of w' a))"

lemma moves_same: "st_of w' = st_of w \<Longrightarrow> moves e w w'"
  by (simp add: moves_def)

lemma moves_at: "st_of w' = (st_of w)(a := t) \<Longrightarrow> tcp_trans e (st_of w a) t \<Longrightarrow> moves e w w'"
  by (simp add: moves_def)

lemma moves_stay: "st_of w' = (st_of w)(a := t) \<Longrightarrow> st_of w a = t \<Longrightarrow> moves e w w'"
  by (simp add: moves_def)

lemma moves_cong: "moves e w w' \<Longrightarrow> st_of v = st_of w \<Longrightarrow> st_of v' = st_of w' \<Longrightarrow> moves e v v'"
  by (simp add: moves_def)

lemma moves_target: "moves e w w' \<Longrightarrow> st_of v = st_of w' \<Longrightarrow> moves e w v"
  by (simp add: moves_def)

lemma st_of_upd: "st_of (sk_upd a f w) = (st_of w)(a := sk_state (f (n_sock w a)))"
  by (simp add: st_of_def sk_upd_def fun_eq_iff)

lemma st_at: "sk_state (n_sock w a) = st_of w a"
  by (simp add: st_of_def)

section \<open>Segments\<close>

lemma tcp_in_listen_moves:
  "tcp_in_listen drv a g w = Some w' \<Longrightarrow> keeps_sockets drv \<Longrightarrow> st_of w a = TCP_LISTEN \<Longrightarrow> moves Ev_segment w w'"
  by (auto simp: tcp_in_listen_def Let_def st_of_upd tcp_trans.syn split: if_splits dest!: same_state
      intro: moves_same moves_at[of _ _ a])

lemma tcp_in_syn_sent_moves:
  "tcp_in_syn_sent drv a g w = Some w' \<Longrightarrow> keeps_sockets drv \<Longrightarrow> st_of w a = TCP_SYN_SENT \<Longrightarrow> moves Ev_segment w w'"
  by (auto simp: tcp_in_syn_sent_def Let_def st_of_upd tcp_trans.syn_ack Option.bind_eq_Some_conv split: if_splits
      dest!: same_state intro: moves_same moves_at[of _ _ a])

lemma tcp_in_syn_received_moves:
  "tcp_in_syn_received a g w = Some w' \<Longrightarrow> st_of w a = TCP_SYN_RECEIVED \<Longrightarrow> moves Ev_segment w w'"
  by (auto simp: tcp_in_syn_received_def st_of_upd tcp_trans.ack split: if_splits dest!: same_state
      intro: moves_same moves_at[of _ _ a])

lemma tcp_in_data_same [same_state]:
  "tcp_in_data drv a g zb w = Some (p, w') \<Longrightarrow> keeps_sockets drv \<Longrightarrow> st_of w' = st_of w"
  by (auto simp: tcp_in_data_def Let_def st_of_sk_upd Option.bind_eq_Some_conv split: if_splits prod.splits dest!: same_state)

lemma tcp_in_established_moves:
  "tcp_in_established drv a g zb w = Some (p, w') \<Longrightarrow> keeps_sockets drv \<Longrightarrow> st_of w a = TCP_ESTABLISHED \<Longrightarrow>
   moves Ev_segment w w'"
  by (auto simp: tcp_in_established_def Let_def st_of_upd st_at tcp_trans.fin Option.bind_eq_Some_conv split: if_splits
      dest!: same_state intro: moves_same moves_stay moves_at[of _ _ a])

lemma tcp_in_fin_wait_1_moves:
  "tcp_in_fin_wait_1 drv a g w = Some w' \<Longrightarrow> keeps_sockets drv \<Longrightarrow> st_of w a = TCP_FIN_WAIT_1 \<Longrightarrow> moves Ev_segment w w'"
  by (auto simp: tcp_in_fin_wait_1_def Let_def st_of_upd tcp_trans.fin_acked tcp_trans.fin_both split: if_splits
      dest!: same_state intro: moves_same moves_at[of _ _ a])

lemma tcp_in_fin_wait_2_moves:
  "tcp_in_fin_wait_2 drv a g w = Some w' \<Longrightarrow> keeps_sockets drv \<Longrightarrow> st_of w a = TCP_FIN_WAIT_2 \<Longrightarrow> moves Ev_segment w w'"
  by (auto simp: tcp_in_fin_wait_2_def Let_def st_of_upd tcp_trans.fin_2 split: if_splits
      dest!: same_state intro: moves_same moves_at[of _ _ a])

lemma tcp_in_last_ack_moves:
  "tcp_in_last_ack a g w = Some w' \<Longrightarrow> st_of w a = TCP_LAST_ACK \<Longrightarrow> moves Ev_segment w w'"
  by (auto simp: tcp_in_last_ack_def st_of_upd tcp_trans.last split: if_splits intro: moves_same moves_at[of _ _ a])

lemmas tcp_in_moves = tcp_in_listen_moves tcp_in_syn_sent_moves tcp_in_syn_received_moves tcp_in_established_moves
  tcp_in_fin_wait_1_moves tcp_in_fin_wait_2_moves tcp_in_last_ack_moves

lemma keep_buf_Some: "keep_buf zb r = Some (p, w) \<longleftrightarrow> p = Some zb \<and> r = Some w"
  by (auto simp: keep_buf_def Option.bind_eq_Some_conv)

lemma tcp_switch_moves:
  "tcp_switch drv a g zb w = Some (p, w') \<Longrightarrow> keeps_sockets drv \<Longrightarrow> moves Ev_segment w w'"
  by (cases "st_of w a") (auto simp: tcp_switch_def st_at keep_buf_Some intro: tcp_in_moves moves_same)

section \<open>Blocking\<close>

lemma lock_out_cases:
  "lock_out a res body w = Some r \<Longrightarrow>
    st_of (io_world r) = st_of w \<or> (\<exists>w1. st_of w1 = st_of w \<and> body w1 = Some r)"
  by (cases res) (auto simp: lock_out_def)

lemma rx_out_cases:
  "rx_out a res body w = Some r \<Longrightarrow>
    st_of (io_world r) = st_of w \<or> (\<exists>w1. st_of w1 = st_of w \<and> body w1 = Some r)"
  by (cases res) (auto simp: rx_out_def)

lemma tx_out_cases:
  "tx_out a res body w = Some r \<Longrightarrow>
    st_of (io_world r) = st_of w \<or> (\<exists>w1. st_of w1 = st_of w \<and> body w1 = Some r)"
  by (cases res) (auto simp: tx_out_def)

text \<open>Waiting, before or after the switch, moves no socket: what counts is the body.\<close>

lemma waits_cases:
  assumes "with_lock a body w = Some r \<or> lock_resume a t body w = Some r \<or> rx_wait a body w = Some r \<or>
    rx_resume a t body w = Some r \<or> tx_wait a body w = Some r \<or> tx_resume a t body w = Some r"
  shows "st_of (io_world r) = st_of w \<or> (\<exists>w1. st_of w1 = st_of w \<and> body w1 = Some r)"
  using assms
  by (auto simp: with_lock_def lock_resume_def rx_wait_def rx_resume_def tx_wait_def tx_resume_def
      Option.bind_eq_Some_conv dest: lock_out_cases rx_out_cases tx_out_cases)

lemma waits_moves:
  assumes "with_lock a body w = Some r \<or> lock_resume a t body w = Some r \<or> rx_wait a body w = Some r \<or>
    rx_resume a t body w = Some r \<or> tx_wait a body w = Some r \<or> tx_resume a t body w = Some r"
    and "\<And>w1 r. body w1 = Some r \<Longrightarrow> moves e w1 (io_world r)"
  shows "moves e w (io_world r)"
  using waits_cases[OF assms(1)] assms(2) by (metis moves_cong moves_same)

lemma with_lock_moves:
  "with_lock a body w = Some r \<Longrightarrow> (\<And>w1 r. body w1 = Some r \<Longrightarrow> moves e w1 (io_world r)) \<Longrightarrow> moves e w (io_world r)"
  and lock_resume_moves:
  "lock_resume a t body w = Some r \<Longrightarrow> (\<And>w1 r. body w1 = Some r \<Longrightarrow> moves e w1 (io_world r)) \<Longrightarrow> moves e w (io_world r)"
  and rx_wait_moves:
  "rx_wait a body w = Some r \<Longrightarrow> (\<And>w1 r. body w1 = Some r \<Longrightarrow> moves e w1 (io_world r)) \<Longrightarrow> moves e w (io_world r)"
  and rx_resume_moves:
  "rx_resume a t body w = Some r \<Longrightarrow> (\<And>w1 r. body w1 = Some r \<Longrightarrow> moves e w1 (io_world r)) \<Longrightarrow> moves e w (io_world r)"
  and tx_wait_moves:
  "tx_wait a body w = Some r \<Longrightarrow> (\<And>w1 r. body w1 = Some r \<Longrightarrow> moves e w1 (io_world r)) \<Longrightarrow> moves e w (io_world r)"
  and tx_resume_moves:
  "tx_resume a t body w = Some r \<Longrightarrow> (\<And>w1 r. body w1 = Some r \<Longrightarrow> moves e w1 (io_world r)) \<Longrightarrow> moves e w (io_world r)"
  by (rule waits_moves[of a body w r t e]; blast)+

lemma tcp_input_locked_moves:
  "tcp_input_locked drv a g zb w = Some r \<Longrightarrow> keeps_sockets drv \<Longrightarrow> moves Ev_segment w (io_world r)"
  by (auto simp: tcp_input_locked_def Option.bind_eq_Some_conv dest!: sk_unlock_same tcp_switch_moves
      elim!: moves_target split: option.splits)

lemma tcp_input_moves:
  "tcp_input drv nif zb w = Some r \<Longrightarrow> keeps_sockets drv \<Longrightarrow> moves Ev_segment w (io_world r)"
  by (auto simp: tcp_input_def Let_def Option.bind_eq_Some_conv split: if_splits option.splits dest!: same_st
      intro: moves_same with_lock_moves tcp_input_locked_moves)

lemma nb_op_snd [simp]: "st_of (snd (nb_op b f w)) = st_of w"
  by (rule st_of_cong[OF nb_op_same]) (rule surjective_pairing)

lemma udp_input_same: "udp_input zb w = Some w' \<Longrightarrow> st_of w' = st_of w"
  by (auto simp: udp_input_def Let_def split_beta Option.bind_eq_Some_conv split: if_splits option.splits
      dest!: rx_post_same)

lemma ip_dispatch_moves:
  "ip_dispatch drv nif zb proto w = Some r \<Longrightarrow> keeps_sockets drv \<Longrightarrow> moves Ev_segment w (io_world r)"
  by (auto simp: ip_dispatch_def lift_io_def Option.bind_eq_Some_conv split: if_splits
      dest!: icmp_input_same[THEN st_of_cong] udp_input_same intro: moves_same tcp_input_moves)

lemma ip_input_moves:
  "ip_input drv nif zb w = Some r \<Longrightarrow> keeps_sockets drv \<Longrightarrow> moves Ev_segment w (io_world r)"
  by (auto simp: ip_input_def Let_def split_beta Option.bind_eq_Some_conv split: if_splits
      dest!: ip_dispatch_moves elim!: moves_cong intro: moves_same)

lemma netif_input_moves:
  "netif_input drv nif zb w = Some r \<Longrightarrow> keeps_sockets drv \<Longrightarrow> moves Ev_segment w (io_world r)"
  by (auto simp: netif_input_def Let_def split_beta lift_io_def Option.bind_eq_Some_conv split: if_splits
      dest!: arp_input_same[THEN st_of_cong] ip_input_moves elim!: moves_cong intro: moves_same)

section \<open>Socket calls\<close>

lemma listen_locked_moves:
  "listen_locked a w = Some r \<Longrightarrow> moves Ev_listen w (io_world r)"
  by (auto simp: listen_locked_def Option.bind_eq_Some_conv tcp_trans.listen dest!: same_state intro: moves_at[of _ _ a])

text \<open>Calls start by looking the descriptor up.\<close>

lemma sock_at_cases:
  "do { p \<leftarrow> sock_at fd w; case p of None \<Rightarrow> x | Some a \<Rightarrow> f a } = Some r \<Longrightarrow> x = Some r \<or> (\<exists>a. f a = Some r)"
  by (cases "sock_at fd w") (auto split: option.splits)

lemma sock_listen_moves: "sock_listen fd w = Some r \<Longrightarrow> moves Ev_listen w (io_world r)"
  unfolding sock_listen_def
  by (drule sock_at_cases) (auto split: if_splits intro: moves_same with_lock_moves listen_locked_moves)

lemma connect_done_moves: "connect_done a w = Some r \<Longrightarrow> moves e w (io_world r)"
  by (auto simp: connect_done_def intro: moves_same)

lemma connect_locked_moves:
  assumes "connect_locked drv a addr w = Some r" and "keeps_sockets drv"
  shows "moves Ev_connect w (io_world r)"
proof -
  obtain w1 where w1: "st_of w1 = (st_of w)(a := TCP_SYN_SENT)" "tx_wait a (connect_done a) w1 = Some r"
    using assms
    by (auto simp: connect_locked_def Let_def st_of_upd Option.bind_eq_Some_conv fun_upd_idem_iff st_at
        split: if_splits option.splits dest!: same_state)
  have "moves Ev_connect w w1" using w1(1) by (intro moves_at[of _ _ a]) (auto intro: tcp_trans.connect)
  moreover have "st_of (io_world r) = st_of w1"
    using waits_cases[of a "connect_done a" w1 r] w1(2) by (auto simp: connect_done_def)
  ultimately show ?thesis by (rule moves_target)
qed

lemma sock_connect_moves:
  "sock_connect drv fd addr w = Some r \<Longrightarrow> keeps_sockets drv \<Longrightarrow> moves Ev_connect w (io_world r)"
  by (auto simp: sock_connect_def Option.bind_eq_Some_conv split: option.splits
      intro: moves_same with_lock_moves connect_locked_moves)

lemma sock_socket_moves:
  assumes "sock_socket ty w = Some (fd, w')"
  shows "moves Ev_create w w'"
proof -
  obtain p h where "heap_alloc sizeof_socket (n_heap w) = Some (p, h)"
    using assms by (auto simp: sock_socket_def Option.bind_eq_Some_conv)
  then have "st_of w' = st_of w \<or> (\<exists>a. st_of w' = (st_of w)(a := TCP_CLOSED))"
    using assms by (cases p) (auto simp: sock_socket_def Let_def Option.bind_eq_Some_conv st_of_upd[where f = "\<lambda>k. k\<lparr>sk_type := _, sk_state := _, sk_local := _, sk_remote := _, sk_snd_una := _, sk_snd_nxt := _, sk_snd_wnd := _, sk_rcv_nxt := _, sk_rcv_wnd := _, sk_flags := _, sk_timeout := _, sk_rx_queue := _, sk_tx_queue := _, sk_rx_sem := _, sk_tx_sem := _, sk_lock := _\<rparr>"])
  then show ?thesis by (auto intro: moves_same moves_at tcp_trans.create)
qed

lemma close_locked_moves:
  "close_locked drv fd a w = Some r \<Longrightarrow> keeps_sockets drv \<Longrightarrow> moves Ev_close w (io_world r)"
  by (auto simp: close_locked_def Let_def Option.bind_eq_Some_conv st_at tcp_trans.close split: if_splits
      dest!: same_state intro: moves_same moves_at[of _ _ a])

lemma sock_close_moves:
  "sock_close drv fd w = Some r \<Longrightarrow> keeps_sockets drv \<Longrightarrow> moves Ev_close w (io_world r)"
  by (auto simp: sock_close_def Option.bind_eq_Some_conv split: option.splits
      intro: moves_same with_lock_moves close_locked_moves)

section \<open>The timer\<close>

lemma moves_timeout_trans:
  "moves Ev_timeout w w1 \<Longrightarrow> moves Ev_timeout w1 w2 \<Longrightarrow> moves Ev_timeout w w2"
  unfolding moves_def tcp_trans_timeout by (metis (no_types, lifting) empty_iff insert_iff tcp_state.distinct)

lemma sk_close_moves:
  "st_of w a \<in> {TCP_SYN_SENT, TCP_SYN_RECEIVED, TCP_ESTABLISHED, TCP_FIN_WAIT_1, TCP_LAST_ACK, TCP_TIME_WAIT} \<Longrightarrow>
   moves Ev_timeout w (sk_close a w)"
  by (rule moves_at[of _ _ a]) (auto simp: sk_close_def intro: tcp_trans.expire)

lemma timer_time_wait_moves: "moves Ev_timeout w (timer_time_wait now a i w)"
  by (auto simp: timer_time_wait_def st_at intro: sk_close_moves moves_same)

lemma timer_syn_moves:
  "timer_syn drv now a i w = Some w' \<Longrightarrow> keeps_sockets drv \<Longrightarrow> moves Ev_timeout w w'"
  by (auto simp: timer_syn_def Let_def st_at split: if_splits dest!: same_state
      intro: moves_same moves_target[OF sk_close_moves])

lemma timer_established_moves:
  "timer_established drv now a i w = Some w' \<Longrightarrow> keeps_sockets drv \<Longrightarrow> moves Ev_timeout w w'"
  by (auto simp: timer_established_def Let_def st_at Option.bind_eq_Some_conv split: if_splits option.splits dest!: same_state
      intro: moves_same moves_target[OF sk_close_moves])

lemma timer_fin_moves:
  "timer_fin drv now a i w = Some w' \<Longrightarrow> keeps_sockets drv \<Longrightarrow> moves Ev_timeout w w'"
  by (auto simp: timer_fin_def st_at split: if_splits dest!: same_state intro: moves_same sk_close_moves)

lemma tcp_timer_locked_moves:
  assumes "tcp_timer_locked drv now a w = Some r" and "keeps_sockets drv"
  shows "moves Ev_timeout w (io_world r)"
proof -
  obtain i w1 w2 w3 w4 where "timer_syn drv now a i (timer_time_wait now a i w) = Some w1"
    "timer_established drv now a i w1 = Some w2" "timer_fin drv now a i w2 = Some w3" "sk_unlock a w3 = Some w4"
    "r = Done () w4"
    using assms(1) by (auto simp: tcp_timer_locked_def Let_def Option.bind_eq_Some_conv)
  with assms(2) show ?thesis
    using timer_time_wait_moves timer_syn_moves timer_established_moves timer_fin_moves sk_unlock_same
    by (metis io_world_simps(1) moves_timeout_trans moves_target)
qed

lemma tcp_timer_loop_moves:
  assumes "tcp_timer_loop drv now p w = Some r" and "keeps_sockets drv"
  shows "moves Ev_timeout w (io_world r)"
proof (rule tcp_timer_loop.raw_induct[where P = "\<lambda>drv now p w r. keeps_sockets drv \<longrightarrow> moves Ev_timeout w (io_world r)",
      OF _ assms(1), THEN mp, OF _ assms(2)], intro impI)
  fix loop drv now p w r
  assume IH: "\<And>drv now p w r. loop drv now p w = Some r \<Longrightarrow> keeps_sockets drv \<longrightarrow> moves Ev_timeout w (io_world r)"
    and k: "keeps_sockets drv"
    and step: "(case p of None \<Rightarrow> Some (Done () w)
      | Some a \<Rightarrow> let nx = sk_next (n_sock w a)
          in with_lock a (tcp_timer_locked drv now a) w \<bind>
             (\<lambda>r. case r of Done u w \<Rightarrow> loop drv now nx w | Blocked c \<Rightarrow> Some (Blocked c))) = Some r"
  show "moves Ev_timeout w (io_world r)"
  proof (cases p)
    case None
    then show ?thesis using step by (auto intro: moves_same)
  next
    case (Some a)
    obtain r1 where r1: "with_lock a (tcp_timer_locked drv now a) w = Some r1"
      and r: "(case r1 of Done u w' \<Rightarrow> loop drv now (sk_next (n_sock w a)) w' | Blocked c \<Rightarrow> Some (Blocked c)) = Some r"
      using step Some by (auto simp: Let_def Option.bind_eq_Some_conv)
    have m: "moves Ev_timeout w (io_world r1)"
      using r1 k by (auto intro: with_lock_moves tcp_timer_locked_moves)
    show ?thesis
    proof (cases r1)
      case (Blocked c)
      then show ?thesis using r m by simp
    next
      case (Done u w1)
      then have "moves Ev_timeout w1 (io_world r)" using r IH k by simp
      then show ?thesis using m Done by (auto intro: moves_timeout_trans)
    qed
  qed
qed

lemma tcp_timer_end_same: "tcp_timer_end r = Some r' \<Longrightarrow> st_of (io_world r') = st_of (io_world r)"
  by (auto simp: tcp_timer_end_def split: io.splits)

lemma tcp_timer_moves:
  assumes "tcp_timer drv w = Some r" and "keeps_sockets drv"
  shows "moves Ev_timeout w (io_world r)"
proof -
  obtain l r1 where "tcp_timer_loop drv (get_system_ticks (n_sched w)) (n_conn w) (w\<lparr>n_tcp_lock := l\<rparr>) = Some r1"
    "tcp_timer_end r1 = Some r"
    using assms(1) by (auto simp: tcp_timer_def Let_def Option.bind_eq_Some_conv)
  from tcp_timer_loop_moves[OF this(1) assms(2)] tcp_timer_end_same[OF this(2)] show ?thesis
    by (auto elim: moves_cong)
qed

lemma tcp_timer_resume_moves:
  assumes "tcp_timer_resume drv now a nx t w = Some r" and "keeps_sockets drv"
  shows "moves Ev_timeout w (io_world r)"
proof -
  obtain r1 where r1: "lock_resume a t (tcp_timer_locked drv now a) w = Some r1"
    using assms(1) by (auto simp: tcp_timer_resume_def Option.bind_eq_Some_conv)
  have m: "moves Ev_timeout w (io_world r1)"
    using r1 assms(2) by (auto intro: lock_resume_moves tcp_timer_locked_moves)
  show ?thesis
  proof (cases r1)
    case (Blocked c)
    then show ?thesis using assms(1) r1 m by (simp add: tcp_timer_resume_def)
  next
    case (Done u w1)
    then obtain r2 where "tcp_timer_loop drv now nx w1 = Some r2" "tcp_timer_end r2 = Some r"
      using assms(1) r1 by (auto simp: tcp_timer_resume_def Option.bind_eq_Some_conv)
    from tcp_timer_loop_moves[OF this(1) assms(2)] tcp_timer_end_same[OF this(2)] m Done show ?thesis
      by (auto intro: moves_timeout_trans elim: moves_target)
  qed
qed

section \<open>Runs\<close>

text \<open>
  What can happen to the stack: a frame arrives, a socket call is made or goes on after a wait, the
  timer runs, or anything that leaves the sockets alone (other tasks, interrupts, the driver). The
  last rule covers the calls that move no socket, too: binding, sending and receiving.
\<close>

inductive net_step :: "driver \<Rightarrow> tcp_event option \<Rightarrow> net \<Rightarrow> net \<Rightarrow> bool" for drv where
  input: "netif_input drv nif zb w = Some r \<Longrightarrow> net_step drv (Some Ev_segment) w (io_world r)"
| input_resume: "lock_resume a t (tcp_input_locked drv a g zb) w = Some r \<Longrightarrow> net_step drv (Some Ev_segment) w (io_world r)"
| socket: "sock_socket ty w = Some (fd, w') \<Longrightarrow> net_step drv (Some Ev_create) w w'"
| listen: "sock_listen fd w = Some r \<Longrightarrow> net_step drv (Some Ev_listen) w (io_world r)"
| listen_resume: "lock_resume a t (listen_locked a) w = Some r \<Longrightarrow> net_step drv (Some Ev_listen) w (io_world r)"
| connect: "sock_connect drv fd addr w = Some r \<Longrightarrow> net_step drv (Some Ev_connect) w (io_world r)"
| connect_resume: "lock_resume a t (connect_locked drv a addr) w = Some r \<Longrightarrow> net_step drv (Some Ev_connect) w (io_world r)"
| close: "sock_close drv fd w = Some r \<Longrightarrow> net_step drv (Some Ev_close) w (io_world r)"
| close_resume: "lock_resume a t (close_locked drv fd a) w = Some r \<Longrightarrow> net_step drv (Some Ev_close) w (io_world r)"
| timer: "tcp_timer drv w = Some r \<Longrightarrow> net_step drv (Some Ev_timeout) w (io_world r)"
| timer_resume: "tcp_timer_resume drv now a nx t w = Some r \<Longrightarrow> net_step drv (Some Ev_timeout) w (io_world r)"
| bind: "sock_bind fd addr w = Some r \<Longrightarrow> net_step drv None w (io_world r)"
| bind_resume: "lock_resume a t (bind_locked a addr) w = Some r \<Longrightarrow> net_step drv None w (io_world r)"
| accept: "sock_accept fd w = Some r \<Longrightarrow> net_step drv None w (io_world r)"
| accept_resume: "rx_resume a t (accept_ready fd a) w = Some r \<Longrightarrow> net_step drv None w (io_world r)"
| connect_done: "tx_resume a t (connect_done a) w = Some r \<Longrightarrow> net_step drv None w (io_world r)"
| send: "sock_send drv fd data w = Some (n, w') \<Longrightarrow> net_step drv None w w'"
| send_zbuf: "sock_send_zbuf drv fd zb w = Some (n, w') \<Longrightarrow> net_step drv None w w'"
| sendto: "sock_sendto drv fd data dst w = Some (n, w') \<Longrightarrow> net_step drv None w w'"
| recv: "sock_recv fd len w = Some r \<Longrightarrow> net_step drv None w (io_world r)"
| recv_resume: "rx_resume a t (recv_ready len a) w = Some r \<Longrightarrow> net_step drv None w (io_world r)"
| recv_zbuf: "sock_recv_zbuf fd w = Some r \<Longrightarrow> net_step drv None w (io_world r)"
| recv_zbuf_resume: "rx_resume a t (recv_zbuf_ready a) w = Some r \<Longrightarrow> net_step drv None w (io_world r)"
| recvfrom: "sock_recvfrom fd len w = Some r \<Longrightarrow> net_step drv None w (io_world r)"
| recvfrom_resume: "rx_resume a t (recvfrom_ready len a) w = Some r \<Longrightarrow> net_step drv None w (io_world r)"
| other: "n_sock w' = n_sock w \<Longrightarrow> net_step drv None w w'"

definition stays :: "net \<Rightarrow> net \<Rightarrow> bool" where
  "stays w w' \<longleftrightarrow> st_of w' = st_of w"

lemma waits_stay:
  assumes "with_lock a body w = Some r \<or> lock_resume a t body w = Some r \<or> rx_wait a body w = Some r \<or>
    rx_resume a t body w = Some r \<or> tx_wait a body w = Some r \<or> tx_resume a t body w = Some r"
    and "\<And>w1 r. body w1 = Some r \<Longrightarrow> st_of (io_world r) = st_of w1"
  shows "st_of (io_world r) = st_of w"
  using waits_cases[OF assms(1)] assms(2) by metis

lemma bind_locked_same: "bind_locked a addr w = Some r \<Longrightarrow> st_of (io_world r) = st_of w"
  by (auto simp: bind_locked_def Option.bind_eq_Some_conv dest!: same_state)

lemma sock_copy_out_same [same_state]: "sock_copy_out zb len w = Some (bs, w') \<Longrightarrow> st_of w' = st_of w"
  by (auto simp: sock_copy_out_def Let_def Option.bind_eq_Some_conv)

lemma sock_copy_in_same [same_state]: "sock_copy_in data w = Some (zb, w') \<Longrightarrow> st_of w' = st_of w"
  by (auto simp: sock_copy_in_def Let_def Option.bind_eq_Some_conv split: option.splits prod.splits if_splits dest!: same_st)

lemma ready_same:
  "accept_ready fd a w = Some ra \<Longrightarrow> st_of (io_world ra) = st_of w"
  "connect_done a w = Some rc \<Longrightarrow> st_of (io_world rc) = st_of w"
  "recv_ready len a w = Some rr \<Longrightarrow> st_of (io_world rr) = st_of w"
  "recv_zbuf_ready a w = Some rz \<Longrightarrow> st_of (io_world rz) = st_of w"
  "recvfrom_ready len a w = Some rf \<Longrightarrow> st_of (io_world rf) = st_of w"
  by (auto simp: accept_ready_def connect_done_def recv_ready_def recv_zbuf_ready_def recvfrom_ready_def Let_def
      Option.bind_eq_Some_conv split: prod.splits option.splits dest!: same_state)

lemma tcp_output_same [same_state]:
  "tcp_output drv a zb w = Some (st, w') \<Longrightarrow> keeps_sockets drv \<Longrightarrow> st_of w' = st_of w"
  by (auto simp: tcp_output_def split: if_splits dest!: same_state)

lemma calls_same:
  "sock_bind fd addr w = Some rb \<Longrightarrow> st_of (io_world rb) = st_of w"
  "sock_accept fd w = Some ra \<Longrightarrow> st_of (io_world ra) = st_of w"
  "sock_recv fd len w = Some rr \<Longrightarrow> st_of (io_world rr) = st_of w"
  "sock_recv_zbuf fd w = Some rz \<Longrightarrow> st_of (io_world rz) = st_of w"
  "sock_recvfrom fd len w = Some rf \<Longrightarrow> st_of (io_world rf) = st_of w"
  unfolding sock_bind_def sock_accept_def sock_recv_def sock_recv_zbuf_def sock_recvfrom_def
  by (drule sock_at_cases; auto split: if_splits intro: waits_stay ready_same bind_locked_same)+

lemma sends_same:
  "sock_send drv fd data w = Some (n, w1) \<Longrightarrow> keeps_sockets drv \<Longrightarrow> st_of w1 = st_of w"
  "sock_send_zbuf drv fd zb w = Some (n, w2) \<Longrightarrow> keeps_sockets drv \<Longrightarrow> st_of w2 = st_of w"
  "sock_sendto drv fd data dst w = Some (n, w3) \<Longrightarrow> keeps_sockets drv \<Longrightarrow> st_of w3 = st_of w"
  unfolding sock_send_def sock_send_zbuf_def sock_sendto_def
  by (drule sock_at_cases; auto simp: Option.bind_eq_Some_conv split: if_splits option.splits dest!: same_state)+

lemma net_step_event: "net_step drv (Some e) w w' \<Longrightarrow> keeps_sockets drv \<Longrightarrow> moves e w w'"
  by (erule net_step.cases)
    (auto intro: netif_input_moves sock_socket_moves sock_listen_moves sock_connect_moves sock_close_moves
      tcp_timer_moves tcp_timer_resume_moves
      lock_resume_moves[OF _ tcp_input_locked_moves] lock_resume_moves[OF _ listen_locked_moves]
      lock_resume_moves[OF _ connect_locked_moves] lock_resume_moves[OF _ close_locked_moves])

lemma net_step_silent: "net_step drv None w w' \<Longrightarrow> keeps_sockets drv \<Longrightarrow> st_of w' = st_of w"
  by (erule net_step.cases)
    (auto intro: calls_same sends_same st_of_cong waits_stay ready_same bind_locked_same)

text \<open>Runs, with the events in order, and what they mean for one socket: every event moves it or not.\<close>

inductive net_run :: "driver \<Rightarrow> tcp_event list \<Rightarrow> net \<Rightarrow> net \<Rightarrow> bool" for drv where
  empty: "net_run drv [] w w"
| event: "net_step drv (Some e) w w1 \<Longrightarrow> net_run drv es w1 w2 \<Longrightarrow> net_run drv (e # es) w w2"
| silent: "net_step drv None w w1 \<Longrightarrow> net_run drv es w1 w2 \<Longrightarrow> net_run drv es w w2"

inductive tcp_path :: "tcp_event list \<Rightarrow> tcp_state \<Rightarrow> tcp_state \<Rightarrow> bool" where
  empty: "tcp_path [] s s"
| stay: "tcp_path es s t \<Longrightarrow> tcp_path (e # es) s t"
| move: "tcp_trans e s s1 \<Longrightarrow> tcp_path es s1 t \<Longrightarrow> tcp_path (e # es) s t"

lemma net_run_path:
  "net_run drv es w w' \<Longrightarrow> keeps_sockets drv \<Longrightarrow> tcp_path es (st_of w a) (st_of w' a)"
proof (induction rule: net_run.induct)
  case (event e w w1 es w2)
  then have "moves e w w1" by (blast intro: net_step_event)
  then have "st_of w1 a = st_of w a \<or> tcp_trans e (st_of w a) (st_of w1 a)" by (simp add: moves_def)
  then show ?case using event by (metis tcp_path.stay tcp_path.move)
next
  case (silent w w1 es w2)
  then show ?case by (simp add: net_step_silent)
qed (rule tcp_path.empty)

lemma path_unreached: "tcp_path es s t \<Longrightarrow> s \<notin> {TCP_CLOSING, TCP_LAST_ACK} \<Longrightarrow> t \<notin> {TCP_CLOSING, TCP_LAST_ACK}"
proof (induction rule: tcp_path.induct)
  case (move e s s1 es t)
  then show ?case using tcp_trans_to_closing[of e s] tcp_trans_to_last_ack[of e s] by auto
qed auto

lemma path_close_wait:
  "tcp_path es s t \<Longrightarrow> s = TCP_CLOSE_WAIT \<Longrightarrow> set es \<subseteq> {Ev_segment, Ev_timeout, Ev_close} \<Longrightarrow> t = TCP_CLOSE_WAIT"
  by (induction rule: tcp_path.induct) (auto elim: tcp_trans_from_close_wait)

section \<open>Free and held locks\<close>

definition mtx_free :: "mutex \<Rightarrow> bool" where
  "mtx_free m \<longleftrightarrow> mtx_owner m = None \<and> mtx_wait_list m = None \<and> sl_lock (mtx_lock m) = 0"

definition mtx_held :: "addr \<Rightarrow> mutex \<Rightarrow> bool" where
  "mtx_held t m \<longleftrightarrow> mtx_owner m = Some t \<and> mtx_lock_count m = 1 \<and> mtx_wait_list m = None \<and> sl_lock (mtx_lock m) = 0"

lemma mutex_lock_free:
  "mtx_free m \<Longrightarrow> sc_current s = Some t \<Longrightarrow>
   \<exists>m' s'. mutex_lock a m s = Some (WDone STATUS_OK m' s') \<and> mtx_held t m' \<and> sc_current s' = Some t"
  by (auto simp: mtx_free_def mtx_held_def mutex_lock_def obj_lock_free obj_unlock_eq mutex_lock_loop_def
      mutex_release_def mutex_take_def task_current_def Let_def)

lemma mutex_unlock_held:
  "mtx_held t m \<Longrightarrow> sc_current s = Some t \<Longrightarrow>
   \<exists>m' s'. mutex_unlock m s = Some (m', s') \<and> mtx_free m' \<and> sc_current s' = Some t"
  by (auto simp: mtx_free_def mtx_held_def mutex_unlock_def obj_lock_free obj_unlock_eq
      wait_list_remove_first_def wake_def task_current_def t_upd_def Let_def)

lemma with_lock_free:
  assumes "mtx_free (sk_lock (n_sock w a))" and "sc_current (n_sched w) = Some t"
  shows "\<exists>m s. with_lock a body w = body (sk_upd a (sk_lock_update (\<lambda>_. m)) (w\<lparr>n_sched := s\<rparr>)) \<and>
    mtx_held t m \<and> sc_current s = Some t"
proof -
  obtain m s where "mutex_lock (sk_lock_addr a) (sk_lock (n_sock w a)) (n_sched w) = Some (WDone STATUS_OK m s)"
    "mtx_held t m" "sc_current s = Some t"
    using mutex_lock_free[OF assms] by blast
  then show ?thesis by (intro exI[of _ m] exI[of _ s]) (simp add: with_lock_def lock_out_def)
qed

lemma sk_unlock_held:
  assumes "mtx_held t (sk_lock (n_sock w a))" and "sc_current (n_sched w) = Some t"
  shows "\<exists>m s. sk_unlock a w = Some (sk_upd a (sk_lock_update (\<lambda>_. m)) (w\<lparr>n_sched := s\<rparr>)) \<and>
    mtx_free m \<and> sc_current s = Some t"
proof -
  obtain m s where "mutex_unlock (sk_lock (n_sock w a)) (n_sched w) = Some (m, s)" "mtx_free m" "sc_current s = Some t"
    using mutex_unlock_held[OF assms] by blast
  then show ?thesis by (intro exI[of _ m] exI[of _ s]) (simp add: sk_unlock_def)
qed

lemma sk_upd_simps [simp]:
  "n_sock (sk_upd a f w) a = f (n_sock w a)" "b \<noteq> a \<Longrightarrow> n_sock (sk_upd a f w) b = n_sock w b"
  "n_sched (sk_upd a f w) = n_sched w" "n_pool (sk_upd a f w) = n_pool w" "n_tcp_lock (sk_upd a f w) = n_tcp_lock w"
  "n_table (sk_upd a f w) = n_table w" "n_nif (sk_upd a f w) = n_nif w" "n_arp (sk_upd a f w) = n_arp w"
  "n_netif_default (sk_upd a f w) = n_netif_default w"
  by (simp_all add: sk_upd_def)

text \<open>C4: the connection states. In any run of the stack over a driver that leaves the sockets alone, each
  socket goes through the transition relation \<open>tcp_trans\<close>, at most one transition per event. The states
  \<open>TCP_CLOSING\<close> and \<open>TCP_LAST_ACK\<close> are never reached, although the code handles the latter; and a socket
  whose peer has closed stays in \<open>TCP_CLOSE_WAIT\<close> whatever segments, timeouts and \<open>sock_close\<close> calls come, until the memory is used for another socket.\<close>

theorem tcp_run_states:
  assumes "keeps_sockets drv" and "net_run drv es w w'"
  shows "tcp_path es (st_of w a) (st_of w' a) \<and>
    (st_of w a \<notin> {TCP_CLOSING, TCP_LAST_ACK} \<longrightarrow> st_of w' a \<notin> {TCP_CLOSING, TCP_LAST_ACK}) \<and>
    (st_of w a = TCP_CLOSE_WAIT \<and> set es \<subseteq> {Ev_segment, Ev_timeout, Ev_close} \<longrightarrow> st_of w' a = TCP_CLOSE_WAIT)"
  using net_run_path[OF assms(2,1)] path_unreached path_close_wait by blast


definition table_demo :: net where
  "table_demo = net_demo\<lparr>n_table := (\<lambda>_. Some 5000)\<rparr>"

lemma table_demo_simps [simp]:
  "n_sock table_demo a = sock_demo" "n_table table_demo i = Some 5000" "sc_current (n_sched table_demo) = Some 100"
  "n_tcp_lock table_demo = SPINLOCK_INIT" "mtx_free (sk_lock sock_demo)" "sk_type sock_demo = SOCK_STREAM"
  by (simp_all add: table_demo_def net_demo_def sched_alone_def sched_ex_def sock_demo_def mtx_free_def mutex_init_def
      SPINLOCK_INIT_def)

lemma table_demo_listen: "\<exists>w'. sock_listen 3 table_demo = Some (Done 0 w')"
proof -
  obtain m s where 1: "with_lock 5000 (listen_locked 5000) table_demo =
      listen_locked 5000 (sk_upd 5000 (sk_lock_update (\<lambda>_. m)) (table_demo\<lparr>n_sched := s\<rparr>))"
    "mtx_held 100 m" "sc_current s = Some 100"
    using with_lock_free[of table_demo 5000 100 "listen_locked 5000"] by auto
  show ?thesis
    using sk_unlock_held[of 100 "sk_upd 5000 (sk_state_update (\<lambda>_. TCP_LISTEN))
      (sk_upd 5000 (sk_lock_update (\<lambda>_. m)) (table_demo\<lparr>n_sched := s\<rparr>))" 5000] 1
    by (auto simp: sock_listen_def sock_at_def fd_slot_def listen_locked_def listen_add_def tcp_lock_irq_def
        obj_lock_free SPINLOCK_INIT_def Let_def)
qed

theorem tcp_run_states_witness:
  "\<exists>w'. sock_listen 3 table_demo = Some (Done 0 w') \<and>
     tcp_path [Ev_listen] (st_of table_demo 5000) (st_of w' 5000) \<and> st_of w' 5000 \<notin> {TCP_CLOSING, TCP_LAST_ACK}"
proof -
  let ?drv = "\<lambda>nif zb w. Some (STATUS_OK, w)"
  obtain w' where w': "sock_listen 3 table_demo = Some (Done 0 w')" using table_demo_listen by blast
  then have "net_run ?drv [Ev_listen] table_demo w'"
    using net_step.listen[of 3 table_demo "Done 0 w'" ?drv] by (auto intro: net_run.intros)
  moreover have "keeps_sockets ?drv" by (simp add: keeps_sockets_def)
  moreover have "st_of table_demo 5000 = TCP_CLOSED" by (simp add: st_of_def sock_demo_def)
  ultimately show ?thesis using tcp_run_states[of ?drv "[Ev_listen]" table_demo w' 5000] w' by auto
qed

end
