(* ===== verification/Tcp_Open.thy ===== *)
theory Tcp_Open
  imports Tcp_States
begin

text \<open>
  The passive open of \<open>net/stack/tcp.c\<close> as it runs: sending a control segment always comes back,
  whatever becomes of the segment, and the two segments of the handshake take a listening socket to
  the established state.
\<close>

section \<open>Sending always comes back\<close>

text \<open>What a working driver does: it answers, and leaves sockets, scheduler and table alone.\<close>

definition driver_ok :: "driver \<Rightarrow> bool" where
  "driver_ok drv \<longleftrightarrow> (\<forall>nif zb w. \<exists>st w'. drv nif zb w = Some (st, w') \<and>
     n_sock w' = n_sock w \<and> n_sched w' = n_sched w \<and> n_table w' = n_table w)"

text \<open>A pool in order, and hardware addresses of six bytes.\<close>

definition net_ok :: "net \<Rightarrow> bool" where
  "net_ok w \<longleftrightarrow> (\<exists>fl. zpool_inv (n_pool w) fl) \<and> (\<forall>nif. n_netif_default w = Some nif \<longrightarrow> length (nif_mac (n_nif w nif)) = 6) \<and>
     (\<forall>i. length (arp_mac (n_arp w i)) = 6)"

definition front :: "net \<Rightarrow> (addr \<Rightarrow> socket) \<times> sched \<times> (nat \<Rightarrow> ptr)" where
  "front w = (n_sock w, n_sched w, n_table w)"

lemma driver_okD: "driver_ok drv \<Longrightarrow> \<exists>st w'. drv nif zb w = Some (st, w') \<and> front w' = front w"
  by (simp add: driver_ok_def front_def)

lemma front_simps [simp]:
  "front (w\<lparr>n_pool := z\<rparr>) = front w" "front (w\<lparr>n_ip_id := i\<rparr>) = front w" "front (nb_free b w) = front w"
  "front (nb_upd b f w) = front w" "front (nif_upd a g w) = front w"
  by (simp_all add: front_def nb_free_def nb_upd_def nif_upd_def)

lemma alloc_tx_wf:
  assumes inv: "zpool_inv (n_pool w) (r # fl)" and n: "uint n \<le> 1920"
  shows "\<exists>w1. nb_alloc_tx n w = (Some r, w1) \<and> w1 = w\<lparr>n_pool := n_pool w1\<rparr> \<and> zpool_inv (n_pool w1) fl \<and>
    zb_wf (nb_get r w1) \<and> zb_data (nb_get r w1) = zb_head (nb_get r w1) + 128 \<and>
    zb_tail (nb_get r w1) + 1920 = zb_end (nb_get r w1)"
proof -
  obtain z1 where z1: "zbuf_alloc n (n_pool w) = (Some r, z1)" "zpool_inv z1 fl" "zb_ready (zp_buf z1 r)"
    "zp_memory z1 = zp_memory (n_pool w)"
    using zbuf_alloc_Some[OF inv, of n] n by (auto simp: config_defs)
  have lay: "zb_layout r (zp_buf z1 r)" using inv z1(2,4) by (simp add: zpool_inv_def)
  define z2 where "z2 = zb_upd r (\<lambda>k. k\<lparr>zb_flags := zb_flags k OR ZBUF_F_TX\<rparr>) z1"
  have inv2: "zpool_inv z2 fl" unfolding z2_def using z1(2) by (subst zpool_inv_upd_window) simp_all
  have wf: "zb_wf (zp_buf z2 r)" using zb_wf_ready[OF z1(3) lay] by (simp add: z2_def zb_wf_def)
  have "zb_data (zp_buf z2 r) = zb_head (zp_buf z2 r) + 128" "zb_tail (zp_buf z2 r) + 1920 = zb_end (zp_buf z2 r)"
    using z1(3) lay by (simp_all add: z2_def zb_ready_def zb_layout_def config_defs)
  then show ?thesis using inv2 wf z1(1)
    by (intro exI[of _ "w\<lparr>n_pool := z2\<rparr>"]) (simp add: nb_alloc_tx_def zbuf_alloc_tx_def z2_def)
qed

lemma alloc_tx_none:
  "zpool_inv (n_pool w) [] \<Longrightarrow> uint n \<le> 1920 \<Longrightarrow> \<exists>w1. nb_alloc_tx n w = (None, w1) \<and> front w1 = front w"
  by (simp add: nb_alloc_tx_def tx_alloc_none)

named_theorems same_front \<open>operations that leave sockets, scheduler and table alone\<close>

lemma driver_front [same_front]: "drv nif zb w = Some (st, w') \<Longrightarrow> driver_ok drv \<Longrightarrow> front w' = front w"
  using driver_okD[of drv nif zb w] by auto

lemma nb_op_front [same_front]: "nb_op b f w = (p, w') \<Longrightarrow> front w' = front w"
  and nb_alloc_tx_front [same_front]: "nb_alloc_tx n w = (p, w') \<Longrightarrow> front w' = front w"
  and nb_store_front [same_front]: "nb_store b a bs w = Some w' \<Longrightarrow> front w' = front w"
  by (auto simp: nb_op_def nb_alloc_tx_def nb_store_def Option.bind_eq_Some_conv split: prod.splits)

lemma eth_output_front [same_front]:
  "eth_output drv nif zb mac type w = Some (st, w') \<Longrightarrow> driver_ok drv \<Longrightarrow> front w' = front w"
  by (auto simp: eth_output_def Let_def Option.bind_eq_Some_conv split: option.splits prod.splits dest!: same_front)

lemma arp_resolve_front [same_front]:
  "arp_resolve drv ip w = Some (st, mac, w') \<Longrightarrow> driver_ok drv \<Longrightarrow> front w' = front w"
  by (auto simp: arp_resolve_def Let_def Option.bind_eq_Some_conv split: option.splits prod.splits dest!: same_front)

lemma ip_output_front [same_front]:
  "ip_output drv zb src dst proto w = Some (st, w') \<Longrightarrow> driver_ok drv \<Longrightarrow> front w' = front w"
  by (auto simp: ip_output_def Let_def Option.bind_eq_Some_conv split: option.splits prod.splits if_splits dest!: same_front)

lemma eth_output_total:
  assumes "zb_wf (nb_get zb w)" and "14 \<le> zb_data (nb_get zb w) - zb_head (nb_get zb w)"
    and "length mac = 6" and "length (nif_mac (n_nif w nif)) = 6" and "driver_ok drv"
  shows "\<exists>st w'. eth_output drv nif zb mac type w = Some (st, w')"
proof -
  obtain w' where "eth_output drv nif zb mac type w = drv nif zb w'"
    using eth_output_frame[OF assms(1-4), of drv type] by blast
  then show ?thesis using driver_okD[OF assms(5), of nif zb w'] by auto
qed

lemma length_arp_bytes: "length sha = 6 \<Longrightarrow> length tha = 6 \<Longrightarrow> length (arp_bytes oper sha spa tha tpa) = 28"
  by (simp add: arp_bytes_def bytes16_def bytes32_def)

text \<open>\<open>zbuf_put\<close> on a fresh buffer, and filling what was put.\<close>

lemma put_store:
  assumes wf: "zb_wf (nb_get r w)" and room: "zb_tail (nb_get r w) + uint n \<le> zb_end (nb_get r w)"
    and bs: "length bs = unat n"
  shows "\<exists>w1 w2. nb_op r (zbuf_put n) w = (Some (zb_tail (nb_get r w)), w1) \<and>
    nb_store r (zb_tail (nb_get r w)) bs w1 = Some w2 \<and> w2 = w\<lparr>n_pool := n_pool w2\<rparr> \<and> zb_wf (nb_get r w2) \<and>
    zb_data (nb_get r w2) = zb_data (nb_get r w) \<and> zb_head (nb_get r w2) = zb_head (nb_get r w) \<and>
    n_nif w1 = n_nif w"
proof -
  let ?k = "nb_get r w"
  define k where "k = ?k\<lparr>zb_tail := zb_tail ?k + uint n, zb_len := zb_len ?k + n\<rparr>"
  define z1 where "z1 = zb_upd r (\<lambda>_. k) (n_pool w)"
  have p: "zbuf_put n ?k = (Some (zb_tail ?k), k)" using room by (simp add: zbuf_put_def k_def)
  have wfk: "zb_wf k" using zb_wf_put[OF wf, of n] p by simp
  have ib: "in_buf k (zb_tail ?k) (length bs)"
    using wf room bs zb_wf_order[OF wf] by (simp add: in_buf_def k_def)
  have "nb_op r (zbuf_put n) w = (Some (zb_tail ?k), w\<lparr>n_pool := z1\<rparr>)"
    using p by (simp add: nb_op_def zb_op_def z1_def)
  then show ?thesis using ib wfk
    by (intro exI[of _ "w\<lparr>n_pool := z1\<rparr>"] exI[of _ "w\<lparr>n_pool := z1\<lparr>zp_mem := mem_write (zb_tail ?k) bs (zp_mem z1)\<rparr>\<rparr>"])
      (simp add: nb_store_def zb_store_def z1_def k_def)
qed

lemma arp_resolve_total:
  assumes "net_ok w" and "driver_ok drv" and "n_netif_default w = Some nif"
  shows "\<exists>st mac w'. arp_resolve drv ip w = Some (st, mac, w') \<and> (st = STATUS_OK \<longrightarrow> length mac = 6 \<and> w' = w)"
proof (cases "arp_lookup (n_arp w) ip 0 ARP_CACHE_SIZE")
  case (Some mac)
  have "arp_lookup c ip i n = Some mac \<Longrightarrow> \<exists>j. mac = arp_mac (c j)" for c i n
    by (induction n arbitrary: i) (auto split: if_splits)
  from this[OF Some] have "length mac = 6" using assms(1) by (auto simp: net_ok_def)
  then show ?thesis using Some by (simp add: arp_resolve_def)
next
  case None
  obtain fl where fl: "zpool_inv (n_pool w) fl" using assms(1) by (auto simp: net_ok_def)
  have mac: "length (nif_mac (n_nif w nif)) = 6" using assms(1,3) by (simp add: net_ok_def)
  show ?thesis
  proof (cases fl)
    case Nil
    then obtain w1 where "nb_alloc_tx 28 w = (None, w1)" using alloc_tx_none[of w 28] fl by auto
    then show ?thesis using None assms(3) by (simp add: arp_resolve_def)
  next
    case (Cons r fl')
    obtain w1 where w1: "nb_alloc_tx 28 w = (Some r, w1)" "w1 = w\<lparr>n_pool := n_pool w1\<rparr>" "zb_wf (nb_get r w1)"
      "zb_data (nb_get r w1) = zb_head (nb_get r w1) + 128" "zb_tail (nb_get r w1) + 1920 = zb_end (nb_get r w1)"
      using alloc_tx_wf[of w r fl' 28] fl Cons by auto
    have n1: "n_nif w1 = n_nif w" by (subst w1(2)) simp
    let ?bs = "arp_bytes ARP_OP_REQUEST (nif_mac (n_nif w nif)) (htonl (nif_ip (n_nif w nif))) (replicate 6 0xFF) (htonl ip)"
    have "length ?bs = unat (28 :: u16)" using mac by (simp add: length_arp_bytes)
    from put_store[OF w1(3) _ this] w1(5) obtain w2 w3 where
      w2: "nb_op r (zbuf_put 28) w1 = (Some (zb_tail (nb_get r w1)), w2)" "nb_store r (zb_tail (nb_get r w1)) ?bs w2 = Some w3"
        "w3 = w1\<lparr>n_pool := n_pool w3\<rparr>" "zb_wf (nb_get r w3)" "zb_data (nb_get r w3) = zb_data (nb_get r w1)"
        "zb_head (nb_get r w3) = zb_head (nb_get r w1)" "n_nif w2 = n_nif w1"
      by auto
    have "n_nif w3 = n_nif w" by (subst w2(3)) (simp add: n1)
    then obtain st w4 where "eth_output drv nif r (replicate 6 0xFF) ETH_TYPE_ARP w3 = Some (st, w4)"
      using eth_output_total[where zb = r and w = w3 and mac = "replicate 6 0xFF" and nif = nif and drv = drv and type = ETH_TYPE_ARP] w1(4) w2(4-6) mac assms(2) by auto
    then show ?thesis using None assms(3) w1(1) w2(1,2) w2(7) n1
      by (simp add: arp_resolve_def)
  qed
qed

lemma ip_output_total:
  assumes ok: "net_ok w" and drv: "driver_ok drv" and wf: "zb_wf (nb_get zb w)"
    and room: "34 \<le> zb_data (nb_get zb w) - zb_head (nb_get zb w)"
  shows "\<exists>st w'. ip_output drv zb src dst proto w = Some (st, w') \<and> front w' = front w"
proof -
  have "\<exists>st w'. ip_output drv zb src dst proto w = Some (st, w')"
  proof (cases "n_netif_default w")
    case None
    then show ?thesis by (simp add: ip_output_def)
  next
    case (Some nif)
    from ip_output_prepare[OF Some wf room refl, where drv = drv and proto = proto and src = src and dst = dst] obtain w1 where
      o: "ip_output drv zb src dst proto w =
        (if ip_broadcast (n_nif w nif) dst then eth_output drv nif zb (replicate 6 0xFF) ETH_TYPE_IP w1
         else do {
           (ret, dst_mac, w'') \<leftarrow> arp_resolve drv (ip_next_hop (n_nif w nif) dst) w1;
           if ret \<noteq> STATUS_OK then Some (ret, nb_free zb w'') else eth_output drv nif zb dst_mac ETH_TYPE_IP w''
         })" and
      w1: "w1 = w\<lparr>n_pool := n_pool w1, n_ip_id := n_ip_id w + 1\<rparr>" "zb_wf (nb_get zb w1)"
      "zb_data (nb_get zb w1) = zb_data (nb_get zb w) - 20" "zb_head (nb_get zb w1) = zb_head (nb_get zb w)"
      "\<And>fl. zpool_inv (n_pool w1) fl = zpool_inv (n_pool w) fl"
      by auto
    have f: "n_nif w1 = n_nif w" "n_arp w1 = n_arp w" "n_netif_default w1 = n_netif_default w" by (subst w1(1), simp)+
    then have ok1: "net_ok w1" using ok w1(5) by (simp add: net_ok_def)
    have mac: "length (nif_mac (n_nif w1 nif)) = 6" using ok Some f by (simp add: net_ok_def)
    have room1: "14 \<le> zb_data (nb_get zb w1) - zb_head (nb_get zb w1)" using room w1(3,4) by simp
    note e = eth_output_total[OF w1(2) room1 _ mac drv, where type = ETH_TYPE_IP]
    show ?thesis
    proof (cases "ip_broadcast (n_nif w nif) dst")
      case True
      then show ?thesis using e[where mac = "replicate 6 0xFF"] o by simp
    next
      case False
      obtain st mac w2 where r: "arp_resolve drv (ip_next_hop (n_nif w nif) dst) w1 = Some (st, mac, w2)"
        "st = STATUS_OK \<longrightarrow> length mac = 6 \<and> w2 = w1"
        using arp_resolve_total[OF ok1 drv, of nif] f Some by metis
      then show ?thesis using e[where mac = mac] o False by auto
    qed
  qed
  then show ?thesis using ip_output_front drv by metis
qed

lemma net_ok_cong:
  "net_ok w \<Longrightarrow> n_netif_default w' = n_netif_default w \<Longrightarrow> n_nif w' = n_nif w \<Longrightarrow> n_arp w' = n_arp w \<Longrightarrow>
   zpool_inv (n_pool w') fl \<Longrightarrow> net_ok w'"
  by (auto simp: net_ok_def)

lemma length_tcp_hdr: "length (tcp_hdr_bytes sp dp seq ack flags win) = 20"
  by (simp add: tcp_hdr_bytes_def bytes16_def bytes32_def)

text \<open>A control segment: sent, dropped or not even allocated, the call returns, and of the sockets only the
  sender's next sequence number may have changed.\<close>

lemma tcp_send_ctl_total:
  assumes ok: "net_ok w" and drv: "driver_ok drv"
  shows "\<exists>w' n. tcp_send_ctl drv a flags w = Some w' \<and> front w' = front (sk_upd a (sk_snd_nxt_update (\<lambda>_. n)) w)"
proof -
  obtain fl where fl: "zpool_inv (n_pool w) fl" using ok by (auto simp: net_ok_def)
  have id: "front (sk_upd a (sk_snd_nxt_update (\<lambda>_. sk_snd_nxt (n_sock w a))) w) = front w"
    by (simp add: front_def sk_upd_def)
  show ?thesis
  proof (cases fl)
    case Nil
    then obtain w1 where "nb_alloc_tx 0 w = (None, w1)" "front w1 = front w" using alloc_tx_none[of w 0] fl by auto
    then show ?thesis using id by (intro exI[of _ w1] exI[of _ "sk_snd_nxt (n_sock w a)"]) (simp add: tcp_send_ctl_def tcp_send_segment_def)
  next
    case (Cons r fl')
    obtain w1 where w1: "nb_alloc_tx 0 w = (Some r, w1)" "w1 = w\<lparr>n_pool := n_pool w1\<rparr>" "zpool_inv (n_pool w1) fl'"
      "zb_wf (nb_get r w1)" "zb_data (nb_get r w1) = zb_head (nb_get r w1) + 128"
      using alloc_tx_wf[of w r fl' 0] fl Cons by auto
    have s1: "n_sock w1 = n_sock w" by (subst w1(2)) simp
    let ?sk = "n_sock w a"
    define hdr where "hdr = tcp_hdr_bytes (htons (sa_port (sk_local ?sk))) (htons (sa_port (sk_remote ?sk)))
                 (htonl (sk_snd_nxt ?sk)) (htonl (sk_rcv_nxt ?sk)) flags (htons (ucast (sk_rcv_wnd ?sk)))"
    have "length hdr = unat (20 :: u16)" by (simp add: hdr_def length_tcp_hdr)
    from push_header[OF w1(4) _ this] w1(5) obtain w2 w3 where
      w2: "nb_op r (zbuf_push 20) w1 = (Some (zb_data (nb_get r w1) - 20), w2)" "w2 = w1\<lparr>n_pool := n_pool w2\<rparr>"
        "nb_store r (zb_data (nb_get r w1) - 20) hdr w2 = Some w3" "w3 = w1\<lparr>n_pool := n_pool w3\<rparr>"
        "zb_wf (nb_get r w3)" "zb_data (nb_get r w3) = zb_data (nb_get r w1) - 20" "zb_head (nb_get r w3) = zb_head (nb_get r w1)"
      by auto
    have s2: "n_sock w2 = n_sock w" by (subst w2(2)) (simp add: s1)
    have s3: "n_sock w3 = n_sock w" by (subst w2(4)) (simp add: s1)
    have f3: "front w3 = front w" using s3 by (subst w2(4), subst w1(2)) (simp add: front_def)
    define n where "n = sk_snd_nxt ?sk + (if flags AND (TCP_FLAG_SYN OR TCP_FLAG_FIN) \<noteq> 0 then 1 else 0) +
        ucast (zb_len (nb_get r w3) - 20)"
    define w4 where "w4 = sk_upd a (\<lambda>k. k\<lparr>sk_snd_nxt := sk_snd_nxt k + ucast (zb_len (nb_get r w3) - 20)\<rparr>)
      (if flags AND (TCP_FLAG_SYN OR TCP_FLAG_FIN) \<noteq> 0 then sk_upd a (\<lambda>k. k\<lparr>sk_snd_nxt := sk_snd_nxt k + 1\<rparr>) w3 else w3)"
    have p4: "n_pool w4 = n_pool w3" "n_netif_default w4 = n_netif_default w3" "n_nif w4 = n_nif w3" "n_arp w4 = n_arp w3"
      by (simp_all add: w4_def)
    have f4: "front w4 = front (sk_upd a (sk_snd_nxt_update (\<lambda>_. n)) w)"
      using f3 by (auto simp: front_def w4_def n_def sk_upd_def fun_eq_iff)
    have "n_netif_default w3 = n_netif_default w" "n_nif w3 = n_nif w" "n_arp w3 = n_arp w"
      by (subst w2(4), subst w1(2), simp)+
    moreover have "zpool_inv (n_pool w3) fl'" using nb_push_inv[OF w2(1)] nb_store_inv[OF w2(3)] w1(3) by simp
    ultimately have ok4: "net_ok w4" using net_ok_cong[OF ok, of w4 fl'] p4 by simp
    have "34 \<le> zb_data (nb_get r w4) - zb_head (nb_get r w4)" "zb_wf (nb_get r w4)" using w1(5) w2(5-7) p4 by simp_all
    from ip_output_total[OF ok4 drv this(2,1)] obtain st w5 where
      w5: "ip_output drv r (sa_addr (sk_local (n_sock w4 a))) (sa_addr (sk_remote (n_sock w4 a))) IP_PROTO_TCP w4 = Some (st, w5)"
      "front w5 = front w4" by blast
    have s4: "sk_local (n_sock w4 a) = sk_local ?sk" "sk_remote (n_sock w4 a) = sk_remote ?sk"
      by (simp_all add: w4_def s3)
    have "tcp_send_ctl drv a flags w = Some w5"
      using w1(1) w2(1,3) w5(1)[unfolded s4]
      by (simp add: tcp_send_ctl_def tcp_send_segment_def tcp_build_segment_def Let_def s2 hdr_def[symmetric] w4_def[symmetric])
    then show ?thesis using w5(2) f4 by auto
  qed
qed

section \<open>The passive open\<close>

definition sem_idle :: "semaphore \<Rightarrow> bool" where
  "sem_idle m \<longleftrightarrow> sem_wait_list m = None \<and> sl_lock (sem_lock m) = 0"

lemma sem_post_idle:
  "sem_idle m \<Longrightarrow> \<exists>m' s'. sem_post m s = Some (m', s') \<and> sem_count m' = sem_count m + 1 \<and> sc_current s' = sc_current s"
  by (simp add: sem_idle_def sem_post_def obj_lock_free obj_unlock_eq wl_empty wake_def Let_def)

text \<open>A segment for a socket whose lock is free.\<close>

lemma tcp_input_unlocked:
  assumes lock: "mtx_free (sk_lock (n_sock w a))" "sc_current (n_sched w) = Some t"
    and body: "\<And>m s. mtx_held t m \<Longrightarrow> sc_current s = Some t \<Longrightarrow>
      \<exists>w1. tcp_switch drv a g zb (sk_upd a (sk_lock_update (\<lambda>_. m)) (w\<lparr>n_sched := s\<rparr>)) = Some (Some zb, w1) \<and>
        mtx_held t (sk_lock (n_sock w1 a)) \<and> sc_current (n_sched w1) = Some t \<and> P w1"
  shows "\<exists>w1 m s. with_lock a (tcp_input_locked drv a g zb) w =
      Some (Done () (nb_free zb (sk_upd a (sk_lock_update (\<lambda>_. m)) (w1\<lparr>n_sched := s\<rparr>)))) \<and>
    mtx_free m \<and> sc_current s = Some t \<and> P w1"
proof -
  obtain m s where 1: "with_lock a (tcp_input_locked drv a g zb) w =
      tcp_input_locked drv a g zb (sk_upd a (sk_lock_update (\<lambda>_. m)) (w\<lparr>n_sched := s\<rparr>))"
    "mtx_held t m" "sc_current s = Some t"
    using with_lock_free[OF lock] by blast
  from body[OF 1(2,3)] obtain w1 where
    2: "tcp_switch drv a g zb (sk_upd a (sk_lock_update (\<lambda>_. m)) (w\<lparr>n_sched := s\<rparr>)) = Some (Some zb, w1)"
    "mtx_held t (sk_lock (n_sock w1 a))" "sc_current (n_sched w1) = Some t" "P w1" by blast
  from sk_unlock_held[OF 2(2,3)] obtain m' s' where
    "sk_unlock a w1 = Some (sk_upd a (sk_lock_update (\<lambda>_. m')) (w1\<lparr>n_sched := s'\<rparr>))" "mtx_free m'" "sc_current s' = Some t"
    by blast
  then show ?thesis using 1(1) 2(1,4)
    by (intro exI[of _ w1] exI[of _ m'] exI[of _ s']) (simp add: tcp_input_locked_def)
qed

lemma frontD: "front w' = front w \<Longrightarrow> n_sock w' = n_sock w \<and> n_sched w' = n_sched w \<and> n_table w' = n_table w"
  by (simp add: front_def)

lemma tcp_syn_arrives:
  assumes "net_ok w" and "driver_ok drv" and "sk_state (n_sock w a) = TCP_LISTEN" and "has_flag g TCP_FLAG_SYN"
    and "mtx_free (sk_lock (n_sock w a))" and "sc_current (n_sched w) = Some t"
  shows "\<exists>w1. with_lock a (tcp_input_locked drv a g zb) w = Some (Done () w1) \<and>
    mtx_free (sk_lock (n_sock w1 a)) \<and> sc_current (n_sched w1) = Some t \<and> n_table w1 = n_table w \<and>
    sk_state (n_sock w1 a) = TCP_SYN_RECEIVED \<and> sk_rcv_nxt (n_sock w1 a) = ts_seq g + 1 \<and>
    sk_remote (n_sock w1 a) = \<lparr>sa_addr = ts_src_ip g, sa_port = ts_src_port g\<rparr> \<and>
    sk_rx_sem (n_sock w1 a) = sk_rx_sem (n_sock w a)"
proof -
  let ?P = "\<lambda>w1. n_table w1 = n_table w \<and> sk_state (n_sock w1 a) = TCP_SYN_RECEIVED \<and> sk_rcv_nxt (n_sock w1 a) = ts_seq g + 1 \<and>
    sk_remote (n_sock w1 a) = \<lparr>sa_addr = ts_src_ip g, sa_port = ts_src_port g\<rparr> \<and>
    sk_rx_sem (n_sock w1 a) = sk_rx_sem (n_sock w a)"
  have "\<exists>w1 m s. with_lock a (tcp_input_locked drv a g zb) w =
      Some (Done () (nb_free zb (sk_upd a (sk_lock_update (\<lambda>_. m)) (w1\<lparr>n_sched := s\<rparr>)))) \<and>
    mtx_free m \<and> sc_current s = Some t \<and> ?P w1"
  proof (rule tcp_input_unlocked[OF assms(5,6)])
    fix m and s :: sched assume m: "mtx_held t m" "sc_current s = Some t"
    define v where "v = sk_upd a (\<lambda>k. k\<lparr>sk_remote := \<lparr>sa_addr = ts_src_ip g, sa_port = ts_src_port g\<rparr>,
                  sk_rcv_nxt := ts_seq g + 1, sk_snd_nxt := get_system_ticks s, sk_snd_una := get_system_ticks s,
                  sk_state := TCP_SYN_RECEIVED\<rparr>) (sk_upd a (sk_lock_update (\<lambda>_. m)) (w\<lparr>n_sched := s\<rparr>))"
    have "net_ok v" using assms(1) by (simp add: v_def net_ok_def)
    from tcp_send_ctl_total[OF this assms(2)] obtain v1 n where
      v1: "tcp_send_ctl drv a (TCP_FLAG_SYN OR TCP_FLAG_ACK) v = Some v1"
        "front v1 = front (sk_upd a (sk_snd_nxt_update (\<lambda>_. n)) v)" by blast
    have "tcp_switch drv a g zb (sk_upd a (sk_lock_update (\<lambda>_. m)) (w\<lparr>n_sched := s\<rparr>)) = Some (Some zb, v1)"
      using assms(3,4) v1(1)
      by (simp add: tcp_switch_def tcp_in_listen_def keep_buf_def Let_def v_def[symmetric])
    then show "\<exists>w1. tcp_switch drv a g zb (sk_upd a (sk_lock_update (\<lambda>_. m)) (w\<lparr>n_sched := s\<rparr>)) = Some (Some zb, w1) \<and>
        mtx_held t (sk_lock (n_sock w1 a)) \<and> sc_current (n_sched w1) = Some t \<and> ?P w1"
      using frontD[OF v1(2)] m by (simp add: v_def)
  qed
  then obtain w1 m s where "with_lock a (tcp_input_locked drv a g zb) w =
      Some (Done () (nb_free zb (sk_upd a (sk_lock_update (\<lambda>_. m)) (w1\<lparr>n_sched := s\<rparr>))))"
    "mtx_free m" "sc_current s = Some t" "?P w1" by blast
  then show ?thesis
    by (intro exI[of _ "nb_free zb (sk_upd a (sk_lock_update (\<lambda>_. m)) (w1\<lparr>n_sched := s\<rparr>))"]) (simp add: nb_free_def)
qed

lemma tcp_ack_arrives:
  assumes "sk_state (n_sock w a) = TCP_SYN_RECEIVED" and "has_flag g TCP_FLAG_ACK" and "sem_idle (sk_rx_sem (n_sock w a))"
    and "mtx_free (sk_lock (n_sock w a))" and "sc_current (n_sched w) = Some t"
  shows "\<exists>w1. with_lock a (tcp_input_locked drv a g zb) w = Some (Done () w1) \<and>
    mtx_free (sk_lock (n_sock w1 a)) \<and> n_table w1 = n_table w \<and>
    sk_state (n_sock w1 a) = TCP_ESTABLISHED \<and> sk_rcv_nxt (n_sock w1 a) = sk_rcv_nxt (n_sock w a) \<and>
    sk_remote (n_sock w1 a) = sk_remote (n_sock w a) \<and> sk_snd_una (n_sock w1 a) = ts_ack g \<and>
    sem_count (sk_rx_sem (n_sock w1 a)) = sem_count (sk_rx_sem (n_sock w a)) + 1"
proof -
  let ?P = "\<lambda>w1. n_table w1 = n_table w \<and> sk_state (n_sock w1 a) = TCP_ESTABLISHED \<and> sk_rcv_nxt (n_sock w1 a) = sk_rcv_nxt (n_sock w a) \<and>
    sk_remote (n_sock w1 a) = sk_remote (n_sock w a) \<and> sk_snd_una (n_sock w1 a) = ts_ack g \<and>
    sem_count (sk_rx_sem (n_sock w1 a)) = sem_count (sk_rx_sem (n_sock w a)) + 1"
  have "\<exists>w1 m s. with_lock a (tcp_input_locked drv a g zb) w =
      Some (Done () (nb_free zb (sk_upd a (sk_lock_update (\<lambda>_. m)) (w1\<lparr>n_sched := s\<rparr>)))) \<and>
    mtx_free m \<and> sc_current s = Some t \<and> ?P w1"
  proof (rule tcp_input_unlocked[OF assms(4,5)])
    fix m and s :: sched assume m: "mtx_held t m" "sc_current s = Some t"
    obtain q s1 where "sem_post (sk_rx_sem (n_sock w a)) s = Some (q, s1)"
      "sem_count q = sem_count (sk_rx_sem (n_sock w a)) + 1" "sc_current s1 = sc_current s"
      using sem_post_idle[OF assms(3)] by blast
    then show "\<exists>w1. tcp_switch drv a g zb (sk_upd a (sk_lock_update (\<lambda>_. m)) (w\<lparr>n_sched := s\<rparr>)) = Some (Some zb, w1) \<and>
        mtx_held t (sk_lock (n_sock w1 a)) \<and> sc_current (n_sched w1) = Some t \<and> ?P w1"
      using m assms(1,2) by (simp add: tcp_switch_def tcp_in_syn_received_def keep_buf_def rx_post_def)
  qed
  then obtain w1 m s where "with_lock a (tcp_input_locked drv a g zb) w =
      Some (Done () (nb_free zb (sk_upd a (sk_lock_update (\<lambda>_. m)) (w1\<lparr>n_sched := s\<rparr>))))"
    "mtx_free m" "sc_current s = Some t" "?P w1" by blast
  then show ?thesis
    by (intro exI[of _ "nb_free zb (sk_upd a (sk_lock_update (\<lambda>_. m)) (w1\<lparr>n_sched := s\<rparr>))"]) (simp add: nb_free_def)
qed

text \<open>C19: the passive open. A SYN for a listening socket and an ACK after it take the socket, whose lock
  and semaphore are free, to \<open>TCP_ESTABLISHED\<close>, with the peer's address, its sequence number plus one
  and its acknowledgement number recorded and the receive semaphore posted once; whatever becomes of
  the answer (no buffer, no route, no ARP entry, or sent), both calls return. But \<open>sock_accept\<close>, which
  wants the state \<open>TCP_LISTEN\<close>, fails on the socket from the SYN on, so the established connection is
  only accepted by a call that was waiting before.\<close>

theorem tcp_passive_open:
  assumes "net_ok w" and "driver_ok drv" and "sock_at fd w = Some (Some a)" and "sk_state (n_sock w a) = TCP_LISTEN"
    and "mtx_free (sk_lock (n_sock w a))" and "sem_idle (sk_rx_sem (n_sock w a))" and "sc_current (n_sched w) = Some t"
    and "has_flag g TCP_FLAG_SYN" and "has_flag g' TCP_FLAG_ACK"
  shows "\<exists>w1 w2. with_lock a (tcp_input_locked drv a g zb) w = Some (Done () w1) \<and>
    sk_state (n_sock w1 a) = TCP_SYN_RECEIVED \<and> sock_accept fd w1 = Some (Done (-1, None) w1) \<and>
    with_lock a (tcp_input_locked drv a g' zb') w1 = Some (Done () w2) \<and>
    sk_state (n_sock w2 a) = TCP_ESTABLISHED \<and> sock_accept fd w2 = Some (Done (-1, None) w2) \<and>
    sk_remote (n_sock w2 a) = \<lparr>sa_addr = ts_src_ip g, sa_port = ts_src_port g\<rparr> \<and>
    sk_rcv_nxt (n_sock w2 a) = ts_seq g + 1 \<and> sk_snd_una (n_sock w2 a) = ts_ack g' \<and>
    sem_count (sk_rx_sem (n_sock w2 a)) = sem_count (sk_rx_sem (n_sock w a)) + 1"
proof -
  obtain w1 where w1: "with_lock a (tcp_input_locked drv a g zb) w = Some (Done () w1)"
    "mtx_free (sk_lock (n_sock w1 a))" "sc_current (n_sched w1) = Some t" "n_table w1 = n_table w"
    "sk_state (n_sock w1 a) = TCP_SYN_RECEIVED" "sk_rcv_nxt (n_sock w1 a) = ts_seq g + 1"
    "sk_remote (n_sock w1 a) = \<lparr>sa_addr = ts_src_ip g, sa_port = ts_src_port g\<rparr>"
    "sk_rx_sem (n_sock w1 a) = sk_rx_sem (n_sock w a)"
    using tcp_syn_arrives[OF assms(1,2,4,8,5,7), of zb] by blast
  obtain w2 where w2: "with_lock a (tcp_input_locked drv a g' zb') w1 = Some (Done () w2)" "n_table w2 = n_table w1"
    "sk_state (n_sock w2 a) = TCP_ESTABLISHED" "sk_rcv_nxt (n_sock w2 a) = sk_rcv_nxt (n_sock w1 a)"
    "sk_remote (n_sock w2 a) = sk_remote (n_sock w1 a)" "sk_snd_una (n_sock w2 a) = ts_ack g'"
    "sem_count (sk_rx_sem (n_sock w2 a)) = sem_count (sk_rx_sem (n_sock w1 a)) + 1"
    using tcp_ack_arrives[OF w1(5) assms(9) _ w1(2,3), of drv zb'] assms(6) w1(8) by auto
  have "sock_at fd w1 = Some (Some a)" "sock_at fd w2 = Some (Some a)"
    using assms(3) w1(4) w2(2) by (simp_all add: sock_at_def)
  then show ?thesis using w1 w2 by (intro exI[of _ w1] exI[of _ w2]) (simp add: sock_accept_def)
qed

definition listen_demo :: net where
  "listen_demo = sk_upd 5000 (sk_state_update (\<lambda>_. TCP_LISTEN)) (table_demo\<lparr>n_pool := zpool0,
     n_arp := (\<lambda>_. \<lparr>arp_ip = 0, arp_mac = replicate 6 0, arp_expire = 0, arp_valid = False\<rparr>)\<rparr>)"

definition seg_demo :: "u8 \<Rightarrow> tcp_seg" where
  "seg_demo fl = \<lparr>ts_src_ip = 9, ts_src_port = 1024, ts_seq = 700, ts_ack = 7, ts_flags = fl, ts_hdr_len = 20\<rparr>"

theorem tcp_passive_open_witness:
  "\<exists>w1 w2. with_lock 5000 (tcp_input_locked (\<lambda>nif zb w. Some (STATUS_OK, w)) 5000 (seg_demo TCP_FLAG_SYN) 0) listen_demo =
      Some (Done () w1) \<and>
    with_lock 5000 (tcp_input_locked (\<lambda>nif zb w. Some (STATUS_OK, w)) 5000 (seg_demo TCP_FLAG_ACK) 0) w1 = Some (Done () w2) \<and>
    sk_state (n_sock w2 5000) = TCP_ESTABLISHED \<and> sk_rcv_nxt (n_sock w2 5000) = 701 \<and> sock_accept 3 w2 = Some (Done (-1, None) w2)"
proof -
  let ?drv = "\<lambda>nif zb w. Some (STATUS_OK, w)"
  have "net_ok listen_demo"
    using zpool0_inv by (auto simp: net_ok_def listen_demo_def table_demo_def net_demo_def nif_demo_def)
  moreover have "driver_ok ?drv" by (simp add: driver_ok_def)
  moreover have "sock_at 3 listen_demo = Some (Some 5000)" by (simp add: sock_at_def fd_slot_def listen_demo_def)
  moreover have "sk_state (n_sock listen_demo 5000) = TCP_LISTEN" "mtx_free (sk_lock (n_sock listen_demo 5000))"
    "sem_idle (sk_rx_sem (n_sock listen_demo 5000))" "sc_current (n_sched listen_demo) = Some 100"
    by (simp_all add: listen_demo_def) (simp add: sock_demo_def sem_init_def sem_idle_def SPINLOCK_INIT_def)
  moreover have "has_flag (seg_demo TCP_FLAG_SYN) TCP_FLAG_SYN" "has_flag (seg_demo TCP_FLAG_ACK) TCP_FLAG_ACK"
    by (simp_all add: seg_demo_def tcp_flag_defs)
  ultimately show ?thesis
    using tcp_passive_open[of listen_demo ?drv 3 5000 100 "seg_demo TCP_FLAG_SYN" "seg_demo TCP_FLAG_ACK" 0 0]
    by (auto simp: seg_demo_def)
qed

end
