(* ===== verification/Opcua.thy ===== *)
theory Opcua
  imports Net_Input
begin

text \<open>
  OPC UA, from \<open>protocols/opcua/opcua.c\<close>: the binary encoding of numbers, strings, node ids and
  variants, the address space (nodes at their addresses, linked as first child and next sibling), the
  messages of the server, and its poll loop.

  An encoder returns the bytes it writes from \<open>buf\<close> on, and so the pointer \<open>buf\<close> moves by their
  number; a decoder takes the address \<open>buf\<close> and returns the new one. A \<open>reader\<close> gives the byte at an
  address, or \<open>None\<close> outside the object that is read. A union is a datatype with one constructor per
  member; reading another member than the one written has no value, \<open>None\<close>.
\<close>

section \<open>Numbers\<close>

type_synonym reader = "addr \<Rightarrow> u8 option"

definition write_u8 :: "u8 \<Rightarrow> u8 list" where "write_u8 v = [v]"

definition write_u16 :: "u16 \<Rightarrow> u8 list" where "write_u16 v = [lo8 v, hi8 v]"

definition write_u32 :: "u32 \<Rightarrow> u8 list" where
  "write_u32 v = [ucast v, ucast (drop_bit 8 v), ucast (drop_bit 16 v), ucast (drop_bit 24 v)]"

definition write_u64 :: "u64 \<Rightarrow> u8 list" where
  "write_u64 v = write_u32 (ucast v) @ write_u32 (ucast (drop_bit 32 v))"

definition read_u8 :: "reader \<Rightarrow> addr \<Rightarrow> (u8 \<times> addr) option" where
  "read_u8 m a = do { v \<leftarrow> m a; Some (v, a + 1) }"

definition read_u16 :: "reader \<Rightarrow> addr \<Rightarrow> (u16 \<times> addr) option" where
  "read_u16 m a = do { x \<leftarrow> m a; y \<leftarrow> m (a + 1); Some (ucast x OR push_bit 8 (ucast y), a + 2) }"

definition read_u32 :: "reader \<Rightarrow> addr \<Rightarrow> (u32 \<times> addr) option" where
  "read_u32 m a = do {
     x \<leftarrow> m a; y \<leftarrow> m (a + 1); z \<leftarrow> m (a + 2); u \<leftarrow> m (a + 3);
     Some (ucast x OR push_bit 8 (ucast y) OR push_bit 16 (ucast z) OR push_bit 24 (ucast u), a + 4)
   }"

definition read_u64 :: "reader \<Rightarrow> addr \<Rightarrow> (u64 \<times> addr) option" where
  "read_u64 m a = do {
     (low, a) \<leftarrow> read_u32 m a;
     (high, a) \<leftarrow> read_u32 m a;
     Some (ucast low OR push_bit 32 (ucast high), a)
   }"

section \<open>Strings\<close>

text \<open>The bytes of a C string, up to the first zero.\<close>

partial_function (option) cstr :: "reader \<Rightarrow> addr \<Rightarrow> u8 list option" where
  "cstr m a = do {
     v \<leftarrow> m a;
     if v = 0 then Some [] else do { r \<leftarrow> cstr m (a + 1); Some (v # r) }
   }"

definition opcua_encode_string :: "reader \<Rightarrow> ptr \<Rightarrow> u8 list option" where
  "opcua_encode_string m str =
     (case str of
        None \<Rightarrow> Some (write_u32 0xFFFFFFFF)
      | Some p \<Rightarrow> do {
          s \<leftarrow> cstr m p;
          let len = (of_nat (length s) :: u32);
          Some (write_u32 len @ take (unat len) s)
        })"

definition opcua_decode_string :: "reader \<Rightarrow> addr \<Rightarrow> (ptr \<times> u32 \<times> addr) option" where
  "opcua_decode_string m a = do {
     (slen, a) \<leftarrow> read_u32 m a;
     if slen = 0xFFFFFFFF then Some (None, 0, a) else Some (Some a, slen, a + uint slen)
   }"

section \<open>Node ids\<close>

definition OPCUA_NODEID_NUMERIC :: u32 where "OPCUA_NODEID_NUMERIC = 0"
definition OPCUA_NODEID_STRING :: u32 where "OPCUA_NODEID_STRING = 3"

datatype nodeid_union =
    Id_numeric u32
  | Id_string ptr u16
  | Id_guid "u8 list"

record opcua_nodeid =
  ni_ns :: u16
  ni_type :: u32
  ni_id :: nodeid_union

text \<open>\<open>for (i = 0; i < len; i++) *buf++ = data[i];\<close>\<close>

fun read_bytes :: "reader \<Rightarrow> addr \<Rightarrow> nat \<Rightarrow> u8 list option" where
  "read_bytes m a 0 = Some []"
| "read_bytes m a (Suc n) = do { v \<leftarrow> m a; r \<leftarrow> read_bytes m (a + 1) n; Some (v # r) }"

definition opcua_encode_nodeid :: "reader \<Rightarrow> opcua_nodeid \<Rightarrow> u8 list option" where
  "opcua_encode_nodeid m n =
     (if ni_type n = OPCUA_NODEID_NUMERIC then
        (case ni_id n of
           Id_numeric v \<Rightarrow>
             Some (if ni_ns n = 0 \<and> v < 256 then write_u8 0x00 @ write_u8 (ucast v)
                   else if ni_ns n < 256 \<and> v < 65536
                   then write_u8 0x01 @ write_u8 (ucast (ni_ns n)) @ write_u16 (ucast v)
                   else write_u8 0x02 @ write_u16 (ni_ns n) @ write_u32 v)
         | _ \<Rightarrow> None)
      else if ni_type n = OPCUA_NODEID_STRING then
        (case ni_id n of
           Id_string data len \<Rightarrow> do {
             s \<leftarrow> (if len = 0 then Some [] else do { p \<leftarrow> data; read_bytes m p (unat len) });
             Some (write_u8 0x03 @ write_u16 (ni_ns n) @ write_u32 (ucast len) @ s)
           }
         | _ \<Rightarrow> None)
      else Some [])"

text \<open>
  \<open>old\<close> is what the structure held before, \<open>None\<close> for indeterminate; an encoding byte that is not
  known leaves it as it was.
\<close>

definition opcua_decode_nodeid ::
    "reader \<Rightarrow> opcua_nodeid option \<Rightarrow> addr \<Rightarrow> (opcua_nodeid option \<times> addr) option" where
  "opcua_decode_nodeid m old a = do {
     (encoding, a) \<leftarrow> read_u8 m a;
     let e = encoding AND 0x0F;
     if e = 0x00 then do {
       (v, a) \<leftarrow> read_u8 m a;
       Some (Some \<lparr>ni_ns = 0, ni_type = OPCUA_NODEID_NUMERIC, ni_id = Id_numeric (ucast v)\<rparr>, a)
     } else if e = 0x01 then do {
       (ns, a) \<leftarrow> read_u8 m a;
       (v, a) \<leftarrow> read_u16 m a;
       Some (Some \<lparr>ni_ns = ucast ns, ni_type = OPCUA_NODEID_NUMERIC, ni_id = Id_numeric (ucast v)\<rparr>, a)
     } else if e = 0x02 then do {
       (ns, a) \<leftarrow> read_u16 m a;
       (v, a) \<leftarrow> read_u32 m a;
       Some (Some \<lparr>ni_ns = ns, ni_type = OPCUA_NODEID_NUMERIC, ni_id = Id_numeric v\<rparr>, a)
     } else if e = 0x03 then do {
       (ns, a) \<leftarrow> read_u16 m a;
       (len, a) \<leftarrow> read_u32 m a;
       let len = (ucast len :: u16);
       Some (Some \<lparr>ni_ns = ns, ni_type = OPCUA_NODEID_STRING, ni_id = Id_string (Some a) len\<rparr>, a + uint len)
     } else Some (old, a)
   }"

section \<open>Variants\<close>

definition OPCUA_TYPE_NULL :: u32 where "OPCUA_TYPE_NULL = 0"
definition OPCUA_TYPE_BOOLEAN :: u32 where "OPCUA_TYPE_BOOLEAN = 1"
definition OPCUA_TYPE_SBYTE :: u32 where "OPCUA_TYPE_SBYTE = 2"
definition OPCUA_TYPE_BYTE :: u32 where "OPCUA_TYPE_BYTE = 3"
definition OPCUA_TYPE_INT16 :: u32 where "OPCUA_TYPE_INT16 = 4"
definition OPCUA_TYPE_UINT16 :: u32 where "OPCUA_TYPE_UINT16 = 5"
definition OPCUA_TYPE_INT32 :: u32 where "OPCUA_TYPE_INT32 = 6"
definition OPCUA_TYPE_UINT32 :: u32 where "OPCUA_TYPE_UINT32 = 7"
definition OPCUA_TYPE_INT64 :: u32 where "OPCUA_TYPE_INT64 = 8"
definition OPCUA_TYPE_UINT64 :: u32 where "OPCUA_TYPE_UINT64 = 9"
definition OPCUA_TYPE_FLOAT :: u32 where "OPCUA_TYPE_FLOAT = 10"
definition OPCUA_TYPE_DOUBLE :: u32 where "OPCUA_TYPE_DOUBLE = 11"
definition OPCUA_TYPE_STRING :: u32 where "OPCUA_TYPE_STRING = 12"
definition OPCUA_TYPE_NODEID :: u32 where "OPCUA_TYPE_NODEID = 17"

lemmas opcua_type_defs =
  OPCUA_TYPE_NULL_def OPCUA_TYPE_BOOLEAN_def OPCUA_TYPE_SBYTE_def OPCUA_TYPE_BYTE_def OPCUA_TYPE_INT16_def
  OPCUA_TYPE_UINT16_def OPCUA_TYPE_INT32_def OPCUA_TYPE_UINT32_def OPCUA_TYPE_INT64_def OPCUA_TYPE_UINT64_def
  OPCUA_TYPE_FLOAT_def OPCUA_TYPE_DOUBLE_def OPCUA_TYPE_STRING_def OPCUA_TYPE_NODEID_def

text \<open>Signed members and floating-point numbers are kept as their bit patterns.\<close>

datatype variant_union =
    V_boolean bool | V_sbyte u8 | V_byte u8 | V_i16 u16 | V_u16 u16 | V_i32 u32 | V_u32 u32
  | V_i64 u64 | V_u64 u64 | V_f32 u32 | V_f64 u64 | V_string ptr u32 | V_nodeid "opcua_nodeid option"
  | V_indeterminate

record opcua_variant =
  va_type :: u32
  va_value :: variant_union

definition opcua_encode_variant :: "reader \<Rightarrow> opcua_variant \<Rightarrow> u8 list option" where
  "opcua_encode_variant m v = do {
     let t = va_type v;
     rest \<leftarrow>
       (if t = OPCUA_TYPE_BOOLEAN then
          (case va_value v of V_boolean b \<Rightarrow> Some (write_u8 (if b then 1 else 0)) | _ \<Rightarrow> None)
        else if t = OPCUA_TYPE_SBYTE then (case va_value v of V_sbyte x \<Rightarrow> Some (write_u8 x) | _ \<Rightarrow> None)
        else if t = OPCUA_TYPE_BYTE then (case va_value v of V_byte x \<Rightarrow> Some (write_u8 x) | _ \<Rightarrow> None)
        else if t = OPCUA_TYPE_INT16 then (case va_value v of V_i16 x \<Rightarrow> Some (write_u16 x) | _ \<Rightarrow> None)
        else if t = OPCUA_TYPE_UINT16 then (case va_value v of V_u16 x \<Rightarrow> Some (write_u16 x) | _ \<Rightarrow> None)
        else if t = OPCUA_TYPE_INT32 then (case va_value v of V_i32 x \<Rightarrow> Some (write_u32 x) | _ \<Rightarrow> None)
        else if t = OPCUA_TYPE_UINT32 then (case va_value v of V_u32 x \<Rightarrow> Some (write_u32 x) | _ \<Rightarrow> None)
        else if t = OPCUA_TYPE_INT64 then (case va_value v of V_i64 x \<Rightarrow> Some (write_u64 x) | _ \<Rightarrow> None)
        else if t = OPCUA_TYPE_UINT64 then (case va_value v of V_u64 x \<Rightarrow> Some (write_u64 x) | _ \<Rightarrow> None)
        else if t = OPCUA_TYPE_FLOAT then (case va_value v of V_f32 x \<Rightarrow> Some (write_u32 x) | _ \<Rightarrow> None)
        else if t = OPCUA_TYPE_DOUBLE then (case va_value v of V_f64 x \<Rightarrow> Some (write_u64 x) | _ \<Rightarrow> None)
        else if t = OPCUA_TYPE_STRING then
          (case va_value v of V_string data len \<Rightarrow> opcua_encode_string m data | _ \<Rightarrow> None)
        else if t = OPCUA_TYPE_NODEID then
          (case va_value v of V_nodeid (Some n) \<Rightarrow> opcua_encode_nodeid m n | _ \<Rightarrow> None)
        else Some []);
     Some (write_u8 (ucast t) @ rest)
   }"

text \<open>\<open>old\<close> is what the union held before.\<close>

definition opcua_decode_variant :: "reader \<Rightarrow> variant_union \<Rightarrow> addr \<Rightarrow> (opcua_variant \<times> addr) option" where
  "opcua_decode_variant m old a = do {
     (t, a) \<leftarrow> read_u8 m a;
     let t = (ucast t :: u32);
     (u, a) \<leftarrow>
       (if t = OPCUA_TYPE_BOOLEAN then do { (x, a) \<leftarrow> read_u8 m a; Some (V_boolean (x \<noteq> 0), a) }
        else if t = OPCUA_TYPE_SBYTE then do { (x, a) \<leftarrow> read_u8 m a; Some (V_sbyte x, a) }
        else if t = OPCUA_TYPE_BYTE then do { (x, a) \<leftarrow> read_u8 m a; Some (V_byte x, a) }
        else if t = OPCUA_TYPE_INT16 then do { (x, a) \<leftarrow> read_u16 m a; Some (V_i16 x, a) }
        else if t = OPCUA_TYPE_UINT16 then do { (x, a) \<leftarrow> read_u16 m a; Some (V_u16 x, a) }
        else if t = OPCUA_TYPE_INT32 then do { (x, a) \<leftarrow> read_u32 m a; Some (V_i32 x, a) }
        else if t = OPCUA_TYPE_UINT32 then do { (x, a) \<leftarrow> read_u32 m a; Some (V_u32 x, a) }
        else if t = OPCUA_TYPE_INT64 then do { (x, a) \<leftarrow> read_u64 m a; Some (V_i64 x, a) }
        else if t = OPCUA_TYPE_UINT64 then do { (x, a) \<leftarrow> read_u64 m a; Some (V_u64 x, a) }
        else if t = OPCUA_TYPE_FLOAT then do { (x, a) \<leftarrow> read_u32 m a; Some (V_f32 x, a) }
        else if t = OPCUA_TYPE_DOUBLE then do { (x, a) \<leftarrow> read_u64 m a; Some (V_f64 x, a) }
        else if t = OPCUA_TYPE_STRING then do { (p, n, a) \<leftarrow> opcua_decode_string m a; Some (V_string p n, a) }
        else if t = OPCUA_TYPE_NODEID then do {
          (n, a) \<leftarrow> opcua_decode_nodeid m (case old of V_nodeid n \<Rightarrow> n | _ \<Rightarrow> None) a;
          Some (V_nodeid n, a)
        } else Some (old, a));
     Some (\<lparr>va_type = t, va_value = u\<rparr>, a)
   }"

section \<open>The address space\<close>

record opcua_node =
  nd_id :: opcua_nodeid
  nd_class :: u32
  nd_browse :: ptr
  nd_display :: ptr
  nd_value :: opcua_variant
  nd_data_type :: u32
  nd_access :: u8
  nd_parent :: ptr
  nd_children :: ptr
  nd_next :: ptr

definition sizeof_opcua_node :: u64 where "sizeof_opcua_node = 112"

record opcua_session =
  se_id :: u32
  se_auth :: u32
  se_activated :: bool
  se_timeout :: u32
  se_last_activity :: u32
  se_channel :: u32

definition CONFIG_OPCUA_PORT :: u16 where "CONFIG_OPCUA_PORT = 4840"
definition CONFIG_OPCUA_MAX_SESSIONS :: nat where "CONFIG_OPCUA_MAX_SESSIONS = 8"

text \<open>
  The server, with the nodes at their addresses and the data of the application's callbacks. A callback
  gets the node id and the value and returns its status, the value as it leaves it, and its own data.
\<close>

type_synonym 'a opcua_cb = "opcua_nodeid \<Rightarrow> opcua_variant \<Rightarrow> 'a \<Rightarrow> status \<times> opcua_variant \<times> 'a"

record 'a opcua_server =
  os_socket :: int
  os_port :: u16
  os_running :: bool
  os_channel_id :: u32
  os_sequence_num :: u32
  os_request_id :: u32
  os_sessions :: "nat \<Rightarrow> opcua_session"
  os_session_count :: u32
  os_subscriptions :: ptr
  os_root :: ptr
  os_nodes :: ptr
  os_node_count :: u32
  os_on_read :: "'a opcua_cb option"
  os_on_write :: "'a opcua_cb option"
  os_lock :: spinlock
  os_node :: "addr \<Rightarrow> opcua_node"
  os_app :: 'a

definition opcua_server_init :: "'a opcua_server \<Rightarrow> status \<times> 'a opcua_server" where
  "opcua_server_init s =
     (STATUS_OK, s\<lparr>os_socket := -1, os_port := CONFIG_OPCUA_PORT, os_running := False, os_channel_id := 1,
        os_sequence_num := 1, os_request_id := 0, os_session_count := 0, os_subscriptions := None,
        os_root := None, os_nodes := None, os_node_count := 0, os_on_read := None, os_on_write := None,
        os_lock := SPINLOCK_INIT\<rparr>)"

definition nd_upd :: "addr \<Rightarrow> (opcua_node \<Rightarrow> opcua_node) \<Rightarrow> 'a opcua_server \<Rightarrow> 'a opcua_server" where
  "nd_upd a f s = s\<lparr>os_node := (os_node s)(a := f (os_node s a))\<rparr>"

definition opcua_add_node ::
    "ptr \<Rightarrow> opcua_nodeid \<Rightarrow> u32 \<Rightarrow> ptr \<Rightarrow> ptr \<Rightarrow> 'a opcua_server \<Rightarrow> heap \<Rightarrow> (ptr \<times> 'a opcua_server \<times> heap) option" where
  "opcua_add_node parent node_id nc browse_name display_name s h = do {
     (p, h) \<leftarrow> heap_alloc sizeof_opcua_node h;
     case p of
       None \<Rightarrow> Some (None, s, h)
     | Some a \<Rightarrow> do {
         let s = nd_upd a (\<lambda>n. n\<lparr>nd_id := node_id, nd_class := nc, nd_browse := browse_name,
                   nd_display := display_name, nd_value := (nd_value n)\<lparr>va_type := OPCUA_TYPE_NULL\<rparr>,
                   nd_data_type := OPCUA_TYPE_NULL, nd_access := 0x03, nd_parent := parent,
                   nd_children := None, nd_next := None\<rparr>) s;
         l \<leftarrow> spin_lock (os_lock s);
         let s = s\<lparr>os_lock := l\<rparr>;
         let s = (case parent of
                    Some q \<Rightarrow>
                      let s = nd_upd a (nd_next_update (\<lambda>_. nd_children (os_node s q))) s
                      in nd_upd q (nd_children_update (\<lambda>_. Some a)) s
                  | None \<Rightarrow> if os_root s = None then s\<lparr>os_root := Some a\<rparr> else s);
         let s = s\<lparr>os_node_count := os_node_count s + 1\<rparr>;
         Some (Some a, s\<lparr>os_lock := spin_unlock (os_lock s)\<rparr>, h)
       }
   }"

text \<open>The test of \<open>find_recursive\<close> on one node, and the search: the node, its children, its siblings.\<close>

definition node_matches :: "opcua_node \<Rightarrow> opcua_nodeid \<Rightarrow> bool option" where
  "node_matches n i =
     (if ni_ns (nd_id n) = ni_ns i \<and> ni_type (nd_id n) = ni_type i \<and> ni_type i = OPCUA_NODEID_NUMERIC then
        (case (ni_id (nd_id n), ni_id i) of
           (Id_numeric v, Id_numeric u) \<Rightarrow> Some (v = u)
         | _ \<Rightarrow> None)
      else Some False)"

partial_function (option) find_recursive :: "(addr \<Rightarrow> opcua_node) \<Rightarrow> ptr \<Rightarrow> opcua_nodeid \<Rightarrow> ptr option" where
  "find_recursive nd p i =
     (case p of
        None \<Rightarrow> Some None
      | Some a \<Rightarrow> do {
          b \<leftarrow> node_matches (nd a) i;
          if b then Some (Some a)
          else do {
            found \<leftarrow> find_recursive nd (nd_children (nd a)) i;
            if found \<noteq> None then Some found else find_recursive nd (nd_next (nd a)) i
          }
        })"

definition opcua_find_node :: "opcua_nodeid \<Rightarrow> 'a opcua_server \<Rightarrow> (ptr \<times> 'a opcua_server) option" where
  "opcua_find_node i s = do {
     l \<leftarrow> spin_lock (os_lock s);
     let s = s\<lparr>os_lock := l\<rparr>;
     p \<leftarrow> find_recursive (os_node s) (os_root s) i;
     Some (p, s\<lparr>os_lock := spin_unlock (os_lock s)\<rparr>)
   }"

definition opcua_set_value :: "ptr \<Rightarrow> opcua_variant \<Rightarrow> 'a opcua_server \<Rightarrow> status \<times> 'a opcua_server" where
  "opcua_set_value node v s =
     (case node of
        None \<Rightarrow> (STATUS_INVALID, s)
      | Some a \<Rightarrow> (STATUS_OK, nd_upd a (nd_value_update (\<lambda>_. v)) s))"

definition opcua_get_value :: "ptr \<Rightarrow> opcua_variant \<Rightarrow> 'a opcua_server \<Rightarrow> status \<times> opcua_variant" where
  "opcua_get_value node v s =
     (case node of
        None \<Rightarrow> (STATUS_INVALID, v)
      | Some a \<Rightarrow> (STATUS_OK, nd_value (os_node s a)))"

end
