(* ===== verification/Opcua_Server.thy ===== *)
theory Opcua_Server
  imports Opcua
begin

text \<open>
  The OPC UA server of \<open>protocols/opcua/opcua.c\<close>: building a message, the answers to the Hello, open
  channel and service requests, and the server's start, poll loop and stop over the sockets.

  A response is collected as the list of the bytes written from \<open>resp\<close> on; a write behind the array
  faults. String values are read where their pointers lead, in the memory of the buffer pool.
\<close>

section \<open>Messages\<close>

definition ascii :: "string \<Rightarrow> u8 list" where "ascii s = map of_char s"

definition req_reader :: "addr \<Rightarrow> net \<Rightarrow> reader" where
  "req_reader q w = (\<lambda>a. nb_ld8 q a w)"

definition mem_reader :: "net \<Rightarrow> reader" where
  "mem_reader w = (\<lambda>a. Some (zp_mem (n_pool w) a))"

definition opcua_build_message :: "string \<Rightarrow> u8 list \<Rightarrow> net \<Rightarrow> (ptr \<times> net) option" where
  "opcua_build_message type payload w =
     (let msg_len = (8 + of_nat (length payload) :: u32) in
      case nb_alloc_tx (ucast msg_len) w of
        (None, w) \<Rightarrow> Some (None, w)
      | (Some zb, w) \<Rightarrow>
          let (p, w) = nb_op zb (zbuf_put (ucast msg_len)) w in do {
            buf \<leftarrow> p;
            w \<leftarrow> nb_store zb buf (ascii type @ ascii ''F'' @ write_u32 msg_len) w;
            w \<leftarrow> nb_store zb (buf + 8) payload w;
            Some (Some zb, w)
          })"

text \<open>A response array of \<open>n\<close> bytes, of which \<open>bs\<close> have been written.\<close>

definition fits :: "nat \<Rightarrow> u8 list \<Rightarrow> u8 list option" where
  "fits n bs = (if length bs \<le> n then Some bs else None)"

definition opcua_handle_hello :: "net \<Rightarrow> (ptr \<times> net) option" where
  "opcua_handle_hello w =
     opcua_build_message ''ACK''
       (write_u32 0 @ write_u32 65536 @ write_u32 65536 @ write_u32 0 @ write_u32 0) w"

definition OPCUA_STATUS_GOOD :: u32 where "OPCUA_STATUS_GOOD = 0x00000000"
definition OPCUA_STATUS_BAD :: u32 where "OPCUA_STATUS_BAD = 0x80000000"
definition OPCUA_STATUS_BAD_NODEID_UNKNOWN :: u32 where "OPCUA_STATUS_BAD_NODEID_UNKNOWN = 0x80340000"

text \<open>The bytes every response has: the numeric type id and the response header.\<close>

definition type_id_bytes :: "u16 \<Rightarrow> u8 list" where
  "type_id_bytes t = write_u8 0x01 @ write_u8 0x00 @ write_u16 t"

definition resp_header :: "u32 \<Rightarrow> net \<Rightarrow> u8 list" where
  "resp_header status w =
     write_u64 (ucast (get_system_ticks (n_sched w) * 10000)) @ write_u32 0 @ write_u32 status @
     write_u8 0 @ write_u32 0xFFFFFFFF @ write_u32 0"

definition security_policy :: "u8 list" where
  "security_policy = ascii ''http://opcfoundation.org/UA/SecurityPolicy#None''"

definition opcua_handle_open_channel ::
    "addr \<Rightarrow> 'a opcua_server \<Rightarrow> net \<Rightarrow> (ptr \<times> 'a opcua_server \<times> net) option" where
  "opcua_handle_open_channel req s w = do {
     let m = req_reader req w;
     let data = zb_data (nb_get req w) + 12;
     (req_type, data) \<leftarrow> read_u32 m data;
     (sec_mode, data) \<leftarrow> read_u32 m data;
     resp \<leftarrow> fits 128
       (write_u32 (os_channel_id s) @
        write_u32 47 @ security_policy @ write_u32 0xFFFFFFFF @ write_u32 0xFFFFFFFF @
        write_u32 (os_sequence_num s) @ write_u32 (os_request_id s) @
        type_id_bytes 449 @ resp_header OPCUA_STATUS_GOOD w @
        write_u32 0 @ write_u32 (os_channel_id s) @ write_u32 1 @
        write_u64 (ucast (get_system_ticks (n_sched w) * 10000)) @ write_u32 3600000 @ write_u32 0xFFFFFFFF);
     let s = s\<lparr>os_sequence_num := os_sequence_num s + 1, os_request_id := os_request_id s + 1\<rparr>;
     (p, w) \<leftarrow> opcua_build_message ''OPN'' resp w;
     Some (p, s, w)
   }"

section \<open>Services\<close>

text \<open>
  The answer to a request for endpoints. The loop copies 14 bytes of the 12-byte literal \<open>"RTOS OPC UA"\<close>;
  \<open>behind\<close> holds the two bytes that follow it in memory.
\<close>

definition svc_get_endpoints :: "u8 list \<Rightarrow> net \<Rightarrow> u8 list" where
  "svc_get_endpoints behind w =
     type_id_bytes 431 @ resp_header OPCUA_STATUS_GOOD w @
     write_u32 1 @
     write_u32 24 @ ascii ''opc.tcp://localhost:4840'' @
     write_u32 0xFFFFFFFF @ write_u32 0xFFFFFFFF @ write_u8 0x02 @ write_u32 0xFFFFFFFF @
     write_u32 14 @ ascii ''RTOS OPC UA'' @ [0] @ take 2 behind @
     write_u32 0 @ write_u32 0xFFFFFFFF @ write_u32 0xFFFFFFFF @ write_u32 0 @
     write_u32 0xFFFFFFFF @
     write_u32 1 @
     write_u32 47 @ security_policy @
     write_u32 1 @ write_u32 9 @ ascii ''anonymous'' @ write_u32 0 @ write_u32 0xFFFFFFFF @
     write_u32 0xFFFFFFFF @ write_u32 0xFFFFFFFF @
     write_u32 65 @ ascii ''http://opcfoundation.org/UA-Profile/Transport/uatcp-uasc-uabinary'' @
     write_u8 0"

definition svc_create_session :: "u32 \<Rightarrow> 'a opcua_server \<Rightarrow> net \<Rightarrow> u8 list \<times> 'a opcua_server" where
  "svc_create_session channel_id s w =
     (let session_id = os_session_count s + 1;
          p = type_id_bytes 464 @ resp_header OPCUA_STATUS_GOOD w @
              write_u8 0x02 @ write_u16 1 @ write_u32 session_id @
              write_u8 0x02 @ write_u16 1 @ write_u32 session_id @
              write_u64 0 @ write_u32 0xFFFFFFFF @ write_u32 0xFFFFFFFF @ write_u32 0 @ write_u32 0 @
              write_u32 0xFFFFFFFF @ write_u32 0
      in if unat (os_session_count s) < CONFIG_OPCUA_MAX_SESSIONS
         then let i = unat (os_session_count s);
                  s = s\<lparr>os_session_count := os_session_count s + 1,
                        os_sessions := (os_sessions s)(i := (os_sessions s i)\<lparr>se_id := session_id,
                          se_auth := session_id, se_activated := False, se_channel := channel_id,
                          se_last_activity := get_system_ticks (n_sched w)\<rparr>)\<rparr>
              in (p, s)
         else (p, s))"

definition svc_activate_session :: "net \<Rightarrow> u8 list" where
  "svc_activate_session w =
     type_id_bytes 470 @ resp_header OPCUA_STATUS_GOOD w @
     write_u32 0xFFFFFFFF @ write_u32 0 @ write_u32 0"

text \<open>
  What the stack holds before the code writes there: the two bytes behind \<open>"RTOS OPC UA"\<close>, and the locals \<open>node_id\<close> and \<open>value\<close> of
  the loops, which are not initialised, in the round with \<open>n\<close> items behind it. An encoding the decoder does not know leaves
  \<open>node_id\<close> as it was, and a write whose encoding byte has bit 0 clear leaves \<open>value\<close> as it was; the code uses both all the same.
\<close>

record opcua_locals =
  lo_node_id :: opcua_nodeid
  lo_value :: opcua_variant

record leftovers =
  lf_behind :: "u8 list"
  lf_locals :: "nat \<Rightarrow> opcua_locals"

text \<open>One round of the loop of a read: the bytes for one result and the pointer behind the item.\<close>

definition opcua_read_item ::
    "opcua_locals \<Rightarrow> reader \<Rightarrow> reader \<Rightarrow> addr \<Rightarrow> 'a opcua_server \<Rightarrow> (u8 list \<times> addr \<times> 'a opcua_server) option" where
  "opcua_read_item lo m mem data s = do {
     (nid, data) \<leftarrow> opcua_decode_nodeid m (Some (lo_node_id lo)) data;
     (attr_id, data) \<leftarrow> read_u32 m data;
     (ir_len, data) \<leftarrow> read_u32 m data;
     let data = (if ir_len \<noteq> 0xFFFFFFFF then data + uint ir_len else data);
     let data = data + 3;
     i \<leftarrow> nid;
     (node, s) \<leftarrow> opcua_find_node i s;
     case node of
       Some a \<Rightarrow> do {
         let s = (case os_on_read s of
                    Some f \<Rightarrow>
                      let (st, v, app) = f i (nd_value (os_node s a)) (os_app s)
                      in (nd_upd a (nd_value_update (\<lambda>_. v)) s)\<lparr>os_app := app\<rparr>
                  | None \<Rightarrow> s);
         bs \<leftarrow> opcua_encode_variant mem (nd_value (os_node s a));
         Some (write_u8 0x01 @ bs, data, s)
       }
     | None \<Rightarrow> Some (write_u8 0x02 @ write_u32 OPCUA_STATUS_BAD_NODEID_UNKNOWN, data, s)
   }"

fun opcua_read_items ::
    "nat \<Rightarrow> (nat \<Rightarrow> opcua_locals) \<Rightarrow> reader \<Rightarrow> reader \<Rightarrow> addr \<Rightarrow> 'a opcua_server \<Rightarrow> (u8 list \<times> 'a opcua_server) option" where
  "opcua_read_items 0 lo m mem data s = Some ([], s)"
| "opcua_read_items (Suc n) lo m mem data s = do {
     (bs, data, s) \<leftarrow> opcua_read_item (lo n) m mem data s;
     (r, s) \<leftarrow> opcua_read_items n lo m mem data s;
     Some (bs @ r, s)
   }"

definition svc_read :: "(nat \<Rightarrow> opcua_locals) \<Rightarrow> reader \<Rightarrow> addr \<Rightarrow> 'a opcua_server \<Rightarrow> net \<Rightarrow> (u8 list \<times> 'a opcua_server) option" where
  "svc_read lo m data s w = do {
     let data = data + 24;
     (max_age, data) \<leftarrow> read_u64 m data;
     (timestamps, data) \<leftarrow> read_u32 m data;
     (node_count, data) \<leftarrow> read_u32 m data;
     (r, s) \<leftarrow> opcua_read_items (min (unat node_count) 16) lo m (mem_reader w) data s;
     Some (type_id_bytes 634 @ resp_header OPCUA_STATUS_GOOD w @ write_u32 node_count @ r @ write_u32 0, s)
   }"

text \<open>One round of the loop of a write.\<close>

definition opcua_write_item ::
    "opcua_locals \<Rightarrow> reader \<Rightarrow> addr \<Rightarrow> 'a opcua_server \<Rightarrow> (u8 list \<times> addr \<times> 'a opcua_server) option" where
  "opcua_write_item lo m data s = do {
     (nid, data) \<leftarrow> opcua_decode_nodeid m (Some (lo_node_id lo)) data;
     (attr_id, data) \<leftarrow> read_u32 m data;
     (ir_len, data) \<leftarrow> read_u32 m data;
     let data = (if ir_len \<noteq> 0xFFFFFFFF then data + uint ir_len else data);
     (enc, data) \<leftarrow> read_u8 m data;
     (v, data) \<leftarrow> (if enc AND 0x01 \<noteq> 0 then opcua_decode_variant m (va_value (lo_value lo)) data
                    else Some (lo_value lo, data));
     i \<leftarrow> nid;
     (node, s) \<leftarrow> opcua_find_node i s;
     case node of
       Some a \<Rightarrow> do {
         let s = nd_upd a (nd_value_update (\<lambda>_. v)) s;
         let s = (case os_on_write s of
                    Some f \<Rightarrow> let (st, v', app) = f i v (os_app s) in s\<lparr>os_app := app\<rparr>
                  | None \<Rightarrow> s);
         Some (write_u32 OPCUA_STATUS_GOOD, data, s)
       }
     | None \<Rightarrow> Some (write_u32 OPCUA_STATUS_BAD_NODEID_UNKNOWN, data, s)
   }"

fun opcua_write_items :: "nat \<Rightarrow> (nat \<Rightarrow> opcua_locals) \<Rightarrow> reader \<Rightarrow> addr \<Rightarrow> 'a opcua_server \<Rightarrow> (u8 list \<times> 'a opcua_server) option" where
  "opcua_write_items 0 lo m data s = Some ([], s)"
| "opcua_write_items (Suc n) lo m data s = do {
     (bs, data, s) \<leftarrow> opcua_write_item (lo n) m data s;
     (r, s) \<leftarrow> opcua_write_items n lo m data s;
     Some (bs @ r, s)
   }"

definition svc_write :: "(nat \<Rightarrow> opcua_locals) \<Rightarrow> reader \<Rightarrow> addr \<Rightarrow> 'a opcua_server \<Rightarrow> net \<Rightarrow> (u8 list \<times> 'a opcua_server) option" where
  "svc_write lo m data s w = do {
     let data = data + 24;
     (node_count, data) \<leftarrow> read_u32 m data;
     (r, s) \<leftarrow> opcua_write_items (min (unat node_count) 16) lo m data s;
     Some (type_id_bytes 676 @ resp_header OPCUA_STATUS_GOOD w @ write_u32 node_count @ r @ write_u32 0, s)
   }"

definition svc_fault :: "net \<Rightarrow> u8 list" where
  "svc_fault w = type_id_bytes 397 @ resp_header OPCUA_STATUS_BAD w"

definition opcua_service ::
    "leftovers \<Rightarrow> u16 \<Rightarrow> u32 \<Rightarrow> reader \<Rightarrow> addr \<Rightarrow> 'a opcua_server \<Rightarrow> net \<Rightarrow> (u8 list \<times> 'a opcua_server) option" where
  "opcua_service left type_id channel_id m data s w =
     (if type_id = 428 then Some (svc_get_endpoints (lf_behind left) w, s)
      else if type_id = 461 then Some (svc_create_session channel_id s w)
      else if type_id = 467 then Some (svc_activate_session w, s)
      else if type_id = 631 then svc_read (lf_locals left) m data s w
      else if type_id = 673 then svc_write (lf_locals left) m data s w
      else Some (svc_fault w, s))"

definition opcua_handle_service ::
    "leftovers \<Rightarrow> addr \<Rightarrow> 'a opcua_server \<Rightarrow> net \<Rightarrow> (ptr \<times> 'a opcua_server \<times> net) option" where
  "opcua_handle_service left req s w = do {
     let m = req_reader req w;
     let data = zb_data (nb_get req w) + 8;
     (channel_id, data) \<leftarrow> read_u32 m data;
     (token_id, data) \<leftarrow> read_u32 m data;
     (seq_num, data) \<leftarrow> read_u32 m data;
     (req_id, data) \<leftarrow> read_u32 m data;
     (encoding, data) \<leftarrow> read_u8 m data;
     (ns, data) \<leftarrow> read_u8 m data;
     (type_id, data) \<leftarrow> read_u16 m data;
     let hdr = write_u32 channel_id @ write_u32 token_id @ write_u32 (os_sequence_num s) @ write_u32 req_id;
     let s = s\<lparr>os_sequence_num := os_sequence_num s + 1\<rparr>;
     (body, s) \<leftarrow> opcua_service left type_id channel_id m data s w;
     resp \<leftarrow> fits 1024 (hdr @ body);
     (p, w) \<leftarrow> opcua_build_message ''MSG'' resp w;
     Some (p, s, w)
   }"

section \<open>The server\<close>

definition opcua_start_fail :: "driver \<Rightarrow> 'a opcua_server \<Rightarrow> net \<Rightarrow> ('a opcua_server \<times> status io) option" where
  "opcua_start_fail drv s w = do {
     r \<leftarrow> sock_close drv (os_socket s) w;
     Some (s, case r of Done v w \<Rightarrow> Done STATUS_ERROR w | Blocked c \<Rightarrow> Blocked c)
   }"

definition opcua_start_listen :: "driver \<Rightarrow> u16 \<Rightarrow> 'a opcua_server \<Rightarrow> net \<Rightarrow> ('a opcua_server \<times> status io) option" where
  "opcua_start_listen drv port s w = do {
     r \<leftarrow> sock_listen (os_socket s) w;
     case r of
       Blocked c \<Rightarrow> Some (s, Blocked c)
     | Done v w \<Rightarrow>
         if v < 0 then opcua_start_fail drv s w
         else Some (s\<lparr>os_port := port, os_running := True\<rparr>, Done STATUS_OK w)
   }"

definition opcua_server_start :: "driver \<Rightarrow> u16 \<Rightarrow> 'a opcua_server \<Rightarrow> net \<Rightarrow> ('a opcua_server \<times> status io) option" where
  "opcua_server_start drv port s w = do {
     (fd, w) \<leftarrow> sock_socket SOCK_STREAM w;
     let s = s\<lparr>os_socket := fd\<rparr>;
     if fd < 0 then Some (s, Done STATUS_ERROR w)
     else do {
       r \<leftarrow> sock_bind fd \<lparr>sa_addr = IP4_ADDR_ANY, sa_port = port\<rparr> w;
       case r of
         Blocked c \<Rightarrow> Some (s, Blocked c)
       | Done v w \<Rightarrow> if v < 0 then opcua_start_fail drv s w else opcua_start_listen drv port s w
     }
   }"

text \<open>
  The body of the loop behind \<open>sock_recv_zbuf\<close>. The first component says whether the loop goes on.
\<close>

definition opcua_poll_body ::
    "leftovers \<Rightarrow> driver \<Rightarrow> int \<Rightarrow> ptr \<Rightarrow> 'a opcua_server \<Rightarrow> net \<Rightarrow> (bool \<times> 'a opcua_server \<times> net) option" where
  "opcua_poll_body left drv fd req s w =
     (case req of
        None \<Rightarrow> Some (False, s, w)
      | Some q \<Rightarrow>
          if zb_len (nb_get q w) < 8 then Some (False, s, nb_free q w)
          else do {
            type \<leftarrow> nb_load q (zb_data (nb_get q w)) 3 w;
            if type = ascii ''CLO'' then Some (False, s, nb_free q w)
            else do {
              (resp, s, w) \<leftarrow>
                (if type = ascii ''HEL'' then do { (p, w) \<leftarrow> opcua_handle_hello w; Some (p, s, w) }
                 else if type = ascii ''OPN'' then opcua_handle_open_channel q s w
                 else if type = ascii ''MSG'' then opcua_handle_service left q s w
                 else Some (None, s, w));
              let w = nb_free q w;
              case resp of
                None \<Rightarrow> Some (True, s, w)
              | Some r \<Rightarrow> do { (v, w) \<leftarrow> sock_send_zbuf drv fd r w; Some (True, s, w) }
            }
          })"

definition io_done :: "'a io \<Rightarrow> unit io" where
  "io_done r = (case r of Done a w \<Rightarrow> Done () w | Blocked c \<Rightarrow> Blocked c)"

partial_function (option) opcua_poll_loop ::
    "leftovers \<Rightarrow> driver \<Rightarrow> int \<Rightarrow> 'a opcua_server \<Rightarrow> net \<Rightarrow> ('a opcua_server \<times> unit io) option" where
  "opcua_poll_loop left drv fd s w = do {
     r \<leftarrow> sock_recv_zbuf fd w;
     case r of
       Blocked c \<Rightarrow> Some (s, Blocked c)
     | Done req w \<Rightarrow> do {
         (more, s, w) \<leftarrow> opcua_poll_body left drv fd req s w;
         if more then opcua_poll_loop left drv fd s w
         else do { r \<leftarrow> sock_close drv fd w; Some (s, io_done r) }
       }
   }"

text \<open>What follows \<open>sock_recv_zbuf\<close> when it had to wait.\<close>

definition opcua_poll_received ::
    "leftovers \<Rightarrow> driver \<Rightarrow> int \<Rightarrow> ptr \<Rightarrow> 'a opcua_server \<Rightarrow> net \<Rightarrow> ('a opcua_server \<times> unit io) option" where
  "opcua_poll_received left drv fd req s w = do {
     (more, s, w) \<leftarrow> opcua_poll_body left drv fd req s w;
     if more then opcua_poll_loop left drv fd s w
     else do { r \<leftarrow> sock_close drv fd w; Some (s, io_done r) }
   }"

definition opcua_server_poll :: "leftovers \<Rightarrow> driver \<Rightarrow> 'a opcua_server \<Rightarrow> net \<Rightarrow> ('a opcua_server \<times> unit io) option" where
  "opcua_server_poll left drv s w =
     (if \<not> os_running s then Some (s, Done () w)
      else do {
        r \<leftarrow> sock_accept (os_socket s) w;
        case r of
          Blocked c \<Rightarrow> Some (s, Blocked c)
        | Done (fd, client_addr) w \<Rightarrow>
            if fd < 0 then Some (s, Done () w) else opcua_poll_loop left drv fd s w
      })"

definition opcua_server_stop :: "driver \<Rightarrow> 'a opcua_server \<Rightarrow> net \<Rightarrow> ('a opcua_server \<times> unit io) option" where
  "opcua_server_stop drv s w =
     (let s = s\<lparr>os_running := False\<rparr> in
      if os_socket s \<ge> 0 then do {
        r \<leftarrow> sock_close drv (os_socket s) w;
        case r of
          Blocked c \<Rightarrow> Some (s, Blocked c)
        | Done v w \<Rightarrow> Some (s\<lparr>os_socket := -1\<rparr>, Done () w)
      } else Some (s, Done () w))"

end
