(* ===== verification/Opcua_Props.thy ===== *)
theory Opcua_Props
  imports Opcua_Server Heap_Props Net_Props
begin

text \<open>
  Properties of OPC UA: decoding what was encoded, the address space as a tree with its search order,
  adding nodes and finding them, a value written by one request and read by another, and the table of
  sessions.
\<close>

section \<open>Encoding and decoding\<close>

text \<open>A reader that finds the bytes \<open>bs\<close> from \<open>a\<close> on.\<close>

definition bytes_at :: "reader \<Rightarrow> addr \<Rightarrow> u8 list \<Rightarrow> bool" where
  "bytes_at m a bs \<longleftrightarrow> (\<forall>i < length bs. m (a + int i) = Some (bs ! i))"

named_theorems read_back \<open>reading encoded numbers\<close>

lemma bytes_at_Nil [simp]: "bytes_at m a []"
  by (simp add: bytes_at_def)

lemma bytes_at_Cons [simp]: "bytes_at m a (b # bs) \<longleftrightarrow> m a = Some b \<and> bytes_at m (a + 1) bs"
proof -
  have "(\<forall>i < Suc (length bs). m (a + int i) = Some ((b # bs) ! i)) \<longleftrightarrow>
      m a = Some b \<and> (\<forall>i < length bs. m (a + 1 + int i) = Some (bs ! i))"
    unfolding all_simps less_Suc_eq_0_disj by (auto simp: add.assoc)
  then show ?thesis by (simp add: bytes_at_def)
qed

lemma bytes_at_append [simp]:
  "bytes_at m a (xs @ ys) \<longleftrightarrow> bytes_at m a xs \<and> bytes_at m (a + int (length xs)) ys"
  by (induction xs arbitrary: a) (auto simp: add.assoc)

lemma length_write [simp]:
  "length (write_u8 x) = 1" "length (write_u16 v) = 2" "length (write_u32 u) = 4" "length (write_u64 l) = 8"
  by (simp_all add: write_u8_def write_u16_def write_u32_def write_u64_def)

lemma read_u8_at [read_back]: "bytes_at m a (write_u8 v) \<Longrightarrow> read_u8 m a = Some (v, a + 1)"
  by (simp add: read_u8_def write_u8_def)

lemma join16: "ucast (lo8 v) OR push_bit 8 (ucast (hi8 v)) = v"
  using be16_hi_lo[of v] by (simp add: be16_def or.commute)

lemma read_u16_at [read_back]: "bytes_at m a (write_u16 v) \<Longrightarrow> read_u16 m a = Some (v, a + 2)"
  by (simp add: read_u16_def write_u16_def join16)

lemma join32:
  "ucast (ucast v :: u8) OR push_bit 8 (ucast (ucast (drop_bit 8 v) :: u8)) OR
   push_bit 16 (ucast (ucast (drop_bit 16 v) :: u8)) OR push_bit 24 (ucast (ucast (drop_bit 24 v) :: u8)) = (v :: u32)"
  using le32_bytes32[of v] by (simp add: le32_def ac_simps)

lemma read_u32_at [read_back]: "bytes_at m a (write_u32 v) \<Longrightarrow> read_u32 m a = Some (v, a + 4)"
  by (simp add: read_u32_def write_u32_def join32 add.assoc)

lemma join64: "ucast (ucast v :: u32) OR push_bit 32 (ucast (ucast (drop_bit 32 v) :: u32)) = (v :: u64)"
  by (rule bit_word_eqI) (auto simp: bit_simps not_le not_less)

lemma read_u64_at [read_back]: "bytes_at m a (write_u64 v) \<Longrightarrow> read_u64 m a = Some (v, a + 8)"
proof -
  assume "bytes_at m a (write_u64 v)"
  then have "bytes_at m a (write_u32 (ucast v))" "bytes_at m (a + 4) (write_u32 (ucast (drop_bit 32 v)))"
    by (simp_all add: write_u64_def)
  from this[THEN read_u32_at] show ?thesis by (simp add: read_u64_def join64)
qed

lemma length_read_bytes: "read_bytes m p n = Some s \<Longrightarrow> length s = n"
  by (induction n arbitrary: p s) (auto simp: bind_eq_Some_conv)

lemma read_bytes_at: "bytes_at m a bs \<Longrightarrow> read_bytes m a (length bs) = Some bs"
  by (induction bs arbitrary: a) auto

text \<open>What a node id has become after encoding and decoding: a string now lies in the buffer.\<close>

definition nodeid_eq :: "reader \<Rightarrow> opcua_nodeid \<Rightarrow> reader \<Rightarrow> opcua_nodeid \<Rightarrow> bool" where
  "nodeid_eq m n m' n' \<longleftrightarrow> ni_ns n' = ni_ns n \<and> ni_type n' = ni_type n \<and>
     (case ni_id n of
        Id_numeric v \<Rightarrow> ni_id n' = Id_numeric v
      | Id_string d len \<Rightarrow> (\<exists>p s. ni_id n' = Id_string (Some p) len \<and> length s = unat len \<and>
          bytes_at m' p s \<and> (len \<noteq> 0 \<longrightarrow> (\<exists>q. d = Some q \<and> read_bytes m q (unat len) = Some s)))
      | Id_guid g \<Rightarrow> False)"

lemma small_words:
  "v < 256 \<Longrightarrow> ucast (ucast v :: u8) = (v :: u32)" "w < 256 \<Longrightarrow> ucast (ucast w :: u8) = (w :: u16)"
  "v < 65536 \<Longrightarrow> ucast (ucast v :: u16) = (v :: u32)"
proof -
  have id: "ucast (ucast x :: 'b::len word) = (x :: 'a::len word)" if "unat x < 2 ^ LENGTH('b)" for x
    using that by (simp add: word_unat_eq_iff unsigned_ucast_eq) (simp add: unsigned_take_bit_eq take_bit_nat_eq_self)
  show "v < 256 \<Longrightarrow> ucast (ucast v :: u8) = v" "w < 256 \<Longrightarrow> ucast (ucast w :: u8) = w"
    "v < 65536 \<Longrightarrow> ucast (ucast v :: u16) = v"
    by (intro id, simp add: word_less_nat_alt)+
qed

lemma opcua_nodeid_roundtrip_aux:
  assumes "opcua_encode_nodeid m n = Some bs" and "ni_type n = OPCUA_NODEID_NUMERIC \<or> ni_type n = OPCUA_NODEID_STRING"
    and "bytes_at m' a bs"
  shows "\<exists>n'. opcua_decode_nodeid m' old a = Some (Some n', a + int (length bs)) \<and> nodeid_eq m n m' n'"
proof (cases "ni_type n = OPCUA_NODEID_NUMERIC")
  case True
  then obtain v where v: "ni_id n = Id_numeric v" using assms(1)
    by (cases "ni_id n") (auto simp: opcua_encode_nodeid_def)
  let ?bs = "if ni_ns n = 0 \<and> v < 256 then write_u8 0x00 @ write_u8 (ucast v)
                   else if ni_ns n < 256 \<and> v < 65536
                   then write_u8 0x01 @ write_u8 (ucast (ni_ns n)) @ write_u16 (ucast v)
                   else write_u8 0x02 @ write_u16 (ni_ns n) @ write_u32 v"
  have bs: "bs = ?bs" using assms(1) True v by (simp add: opcua_encode_nodeid_def)
  show ?thesis using assms(3) True v unfolding bs
    by (auto simp: opcua_decode_nodeid_def read_back nodeid_eq_def small_words)
next
  case False
  then have t: "ni_type n = OPCUA_NODEID_STRING" using assms(2) by simp
  then obtain d len s where d: "ni_id n = Id_string d len"
    "(if len = 0 then Some [] else do { p \<leftarrow> d; read_bytes m p (unat len) }) = Some s"
    "bs = write_u8 0x03 @ write_u16 (ni_ns n) @ write_u32 (ucast len) @ s"
    using assms(1) False by (cases "ni_id n") (auto simp: opcua_encode_nodeid_def bind_eq_Some_conv)
  have "length s = unat len" using d(2) by (auto simp: bind_eq_Some_conv dest: length_read_bytes split: if_splits)
  moreover have "(ucast (ucast len :: u32) :: u16) = len" by (rule bit_word_eqI) (auto simp: bit_simps)
  ultimately show ?thesis using assms(3) t d
    by (auto simp: opcua_decode_nodeid_def read_back nodeid_eq_def bind_eq_Some_conv split: if_splits)
qed

text \<open>Variants whose value does not lie behind a pointer.\<close>

definition flat_variant :: "opcua_variant \<Rightarrow> bool" where
  "flat_variant v \<longleftrightarrow> va_type v \<in> {OPCUA_TYPE_BOOLEAN, OPCUA_TYPE_SBYTE, OPCUA_TYPE_BYTE, OPCUA_TYPE_INT16,
      OPCUA_TYPE_UINT16, OPCUA_TYPE_INT32, OPCUA_TYPE_UINT32, OPCUA_TYPE_INT64, OPCUA_TYPE_UINT64,
      OPCUA_TYPE_FLOAT, OPCUA_TYPE_DOUBLE} \<or>
     (\<exists>ns u. v = \<lparr>va_type = OPCUA_TYPE_NODEID, va_value = V_nodeid (Some
        \<lparr>ni_ns = ns, ni_type = OPCUA_NODEID_NUMERIC, ni_id = Id_numeric u\<rparr>)\<rparr>)"

lemma nodeid_numeric_back:
  assumes "opcua_encode_nodeid m \<lparr>ni_ns = ns, ni_type = OPCUA_NODEID_NUMERIC, ni_id = Id_numeric u\<rparr> = Some bs"
    and "bytes_at m' a bs"
  shows "opcua_decode_nodeid m' old a =
    Some (Some \<lparr>ni_ns = ns, ni_type = OPCUA_NODEID_NUMERIC, ni_id = Id_numeric u\<rparr>, a + int (length bs))"
proof -
  obtain n' where "opcua_decode_nodeid m' old a = Some (Some n', a + int (length bs))"
    "nodeid_eq m \<lparr>ni_ns = ns, ni_type = OPCUA_NODEID_NUMERIC, ni_id = Id_numeric u\<rparr> m' n'"
    using opcua_nodeid_roundtrip_aux[OF assms(1) _ assms(2), of old] by auto
  then show ?thesis by (cases n') (simp add: nodeid_eq_def)
qed

lemma opcua_variant_roundtrip_aux:
  assumes "opcua_encode_variant m v = Some bs" and "flat_variant v" and "bytes_at m' a bs"
  shows "opcua_decode_variant m' old a = Some (v, a + int (length bs))"
proof (cases "va_type v = OPCUA_TYPE_NODEID")
  case True
  then obtain ns u where v: "v = \<lparr>va_type = OPCUA_TYPE_NODEID, va_value = V_nodeid (Some
        \<lparr>ni_ns = ns, ni_type = OPCUA_NODEID_NUMERIC, ni_id = Id_numeric u\<rparr>)\<rparr>"
    using assms(2) by (auto simp: flat_variant_def opcua_type_defs)
  then obtain r where r: "bs = write_u8 17 @ r"
    "opcua_encode_nodeid m \<lparr>ni_ns = ns, ni_type = OPCUA_NODEID_NUMERIC, ni_id = Id_numeric u\<rparr> = Some r"
    using assms(1) by (auto simp: opcua_encode_variant_def opcua_type_defs bind_eq_Some_conv)
  have b: "bytes_at m' a (write_u8 17)" "bytes_at m' (a + 1) r" using assms(3) r(1) by simp_all
  show ?thesis using read_u8_at[OF b(1)] nodeid_numeric_back[OF r(2) b(2)] r(1) v
    by (simp add: opcua_decode_variant_def opcua_type_defs)
next
  case False
  obtain t u where v: "v = \<lparr>va_type = t, va_value = u\<rparr>" by (cases v) auto
  have t: "t \<in> {1, 2, 3, 4, 5, 6, 7, 8, 9, 10, 11}" using assms(2) False v
    by (auto simp: flat_variant_def opcua_type_defs)
  show ?thesis using t assms(1,3) unfolding v
    by (elim insertE emptyE; cases u)
      (auto simp: opcua_encode_variant_def opcua_decode_variant_def opcua_type_defs read_back)
qed

section \<open>The address space\<close>

text \<open>A node with its children, and the forest that hangs on a pointer.\<close>

datatype otree = ONode addr "otree list"

fun forest :: "(addr \<Rightarrow> opcua_node) \<Rightarrow> ptr \<Rightarrow> otree list \<Rightarrow> bool" where
  "forest nd p [] \<longleftrightarrow> p = None"
| "forest nd p (ONode a cs # ts) \<longleftrightarrow>
     p = Some a \<and> forest nd (nd_children (nd a)) cs \<and> forest nd (nd_next (nd a)) ts"

text \<open>The nodes in the order of the search.\<close>

fun preorder :: "otree list \<Rightarrow> addr list" where
  "preorder [] = []"
| "preorder (ONode a cs # ts) = a # preorder cs @ preorder ts"

text \<open>Node ids that can be compared: a numeric type goes with a numeric member.\<close>

definition id_ok :: "opcua_nodeid \<Rightarrow> bool" where
  "id_ok i \<longleftrightarrow> (ni_type i = OPCUA_NODEID_NUMERIC \<longrightarrow> (\<exists>v. ni_id i = Id_numeric v))"

definition same_id :: "opcua_nodeid \<Rightarrow> opcua_nodeid \<Rightarrow> bool" where
  "same_id i j \<longleftrightarrow> ni_ns i = ni_ns j \<and> ni_type i = ni_type j \<and> ni_type j = OPCUA_NODEID_NUMERIC \<and> ni_id i = ni_id j"

lemma node_matches_eq: "id_ok (nd_id n) \<Longrightarrow> id_ok i \<Longrightarrow> node_matches n i = Some (same_id (nd_id n) i)"
  by (auto simp: node_matches_def id_ok_def same_id_def)

lemma find_append: "List.find P (xs @ ys) = (case List.find P xs of None \<Rightarrow> List.find P ys | Some a \<Rightarrow> Some a)"
  by (induction xs) auto

lemma find_recursive_ok:
  assumes "forest nd p ts" and "\<forall>a \<in> set (preorder ts). id_ok (nd_id (nd a))" and "id_ok i"
  shows "find_recursive nd p i = Some (List.find (\<lambda>a. same_id (nd_id (nd a)) i) (preorder ts))"
  using assms
proof (induction ts arbitrary: p rule: preorder.induct)
  case 1
  then show ?case by (subst find_recursive.simps) simp
next
  case (2 a cs ts)
  have m: "node_matches (nd a) i = Some (same_id (nd_id (nd a)) i)" using 2 by (intro node_matches_eq) auto
  have c: "find_recursive nd (nd_children (nd a)) i = Some (List.find (\<lambda>a. same_id (nd_id (nd a)) i) (preorder cs))"
    using 2 by auto
  have n: "find_recursive nd (nd_next (nd a)) i = Some (List.find (\<lambda>a. same_id (nd_id (nd a)) i) (preorder ts))"
    using 2 by auto
  show ?case using 2(3) m c n
    by (subst find_recursive.simps) (auto simp: find_append split: option.split)
qed

text \<open>A new child in front of the children of \<open>q\<close>.\<close>

fun add_child :: "addr \<Rightarrow> addr \<Rightarrow> otree list \<Rightarrow> otree list" where
  "add_child q a [] = []"
| "add_child q a (ONode b cs # ts) =
     (if b = q then ONode b (ONode a [] # cs) # ts else ONode b (add_child q a cs) # add_child q a ts)"

lemma forest_cong:
  assumes "forest nd p ts" and "\<And>b. b \<in> set (preorder ts) \<Longrightarrow> nd_children (nd' b) = nd_children (nd b) \<and> nd_next (nd' b) = nd_next (nd b)"
  shows "forest nd' p ts"
  using assms by (induction ts arbitrary: p rule: preorder.induct) auto

lemma forest_frame:
  assumes "forest nd p ts" and "a \<notin> set (preorder ts)" and "q \<notin> set (preorder ts)"
    and "\<And>b. b \<noteq> a \<Longrightarrow> b \<noteq> q \<Longrightarrow> nd_children (nd' b) = nd_children (nd b) \<and> nd_next (nd' b) = nd_next (nd b)"
  shows "forest nd' p ts"
  by (rule forest_cong[OF assms(1)], rule assms(4)) (use assms(2,3) in auto)

lemma add_child_id: "q \<notin> set (preorder ts) \<Longrightarrow> add_child q a ts = ts"
  by (induction ts rule: preorder.induct) auto

lemma forest_add_child:
  assumes "forest nd p ts" and "distinct (preorder ts)" and "q \<in> set (preorder ts)" and "a \<notin> set (preorder ts)"
    and "nd_children (nd' a) = None" and "nd_next (nd' a) = nd_children (nd q)"
    and "nd_children (nd' q) = Some a" and "nd_next (nd' q) = nd_next (nd q)"
    and "\<And>b. b \<noteq> a \<Longrightarrow> b \<noteq> q \<Longrightarrow> nd_children (nd' b) = nd_children (nd b) \<and> nd_next (nd' b) = nd_next (nd b)"
  shows "forest nd' p (add_child q a ts)"
  using assms(1-4)
proof (induction ts arbitrary: p rule: preorder.induct)
  case 1
  then show ?case by simp
next
  case (2 b cs ts)
  show ?case
  proof (cases "b = q")
    case True
    have "forest nd' (nd_children (nd b)) cs" "forest nd' (nd_next (nd b)) ts"
      by (rule forest_frame[OF _ _ _ assms(9)]; use 2(3,4,6) True in auto)+
    then show ?thesis using 2(3) True assms(5-8) by simp
  next
    case False
    have ba: "b \<noteq> a" using 2(6) by auto
    have "forest nd' (nd_children (nd b)) (add_child q a cs)"
    proof (cases "q \<in> set (preorder cs)")
      case True
      then show ?thesis using 2 by simp
    next
      case q: False
      have "forest nd' (nd_children (nd b)) cs" using 2(3,6) q
        by (intro forest_frame[OF _ _ _ assms(9)]) auto
      then show ?thesis using add_child_id[OF q] by simp
    qed
    moreover have "forest nd' (nd_next (nd b)) (add_child q a ts)"
    proof (cases "q \<in> set (preorder ts)")
      case True
      then show ?thesis using 2 by simp
    next
      case q: False
      have "forest nd' (nd_next (nd b)) ts" using 2(3,6) q
        by (intro forest_frame[OF _ _ _ assms(9)]) auto
      then show ?thesis using add_child_id[OF q] by simp
    qed
    ultimately show ?thesis using 2(3) False ba assms(9) by simp
  qed
qed

text \<open>The new node comes right behind its parent in the order of the search.\<close>

fun insert_after :: "addr \<Rightarrow> addr \<Rightarrow> addr list \<Rightarrow> addr list" where
  "insert_after q a [] = []"
| "insert_after q a (b # bs) = (if b = q then b # a # bs else b # insert_after q a bs)"

lemma insert_after_id: "q \<notin> set xs \<Longrightarrow> insert_after q a xs = xs"
  by (induction xs) auto

lemma insert_after_append:
  "insert_after q a (xs @ ys) = (if q \<in> set xs then insert_after q a xs @ ys else xs @ insert_after q a ys)"
  by (induction xs) auto

lemma preorder_add_child: "distinct (preorder ts) \<Longrightarrow> preorder (add_child q a ts) = insert_after q a (preorder ts)"
proof (induction ts rule: preorder.induct)
  case (2 b cs ts)
  have "q \<notin> set (preorder ts)" if "q \<in> set (preorder cs)" using 2(3) that by auto
  then show ?case using 2 by (auto simp: insert_after_append insert_after_id)
qed simp

lemma set_insert_after: "q \<in> set xs \<Longrightarrow> set (insert_after q a xs) = insert a (set xs)"
  by (induction xs) auto

lemma distinct_insert_after: "distinct xs \<Longrightarrow> a \<notin> set xs \<Longrightarrow> distinct (insert_after q a xs)"
proof (induction xs)
  case (Cons x xs)
  then show ?case by (cases "q \<in> set xs") (auto simp: set_insert_after insert_after_id)
qed simp

lemma find_insert_after:
  assumes "\<not> P a \<or> (\<forall>b \<in> set xs. \<not> P b)" and "q \<in> set xs"
  shows "List.find P (insert_after q a xs) = (if P a then Some a else List.find P xs)"
  using assms by (induction xs) (auto simp: find_None_iff)

text \<open>The server's address space holds the forest \<open>ts\<close>, and nobody holds its lock.\<close>

definition space_ok :: "'a opcua_server \<Rightarrow> otree list \<Rightarrow> bool" where
  "space_ok s ts \<longleftrightarrow> forest (os_node s) (os_root s) ts \<and> distinct (preorder ts) \<and>
     (\<forall>a \<in> set (preorder ts). id_ok (nd_id (os_node s a))) \<and> sl_lock (os_lock s) = 0"

abbreviation space_find :: "'a opcua_server \<Rightarrow> otree list \<Rightarrow> opcua_nodeid \<Rightarrow> ptr" where
  "space_find s ts i \<equiv> List.find (\<lambda>a. same_id (nd_id (os_node s a)) i) (preorder ts)"

lemma opcua_find_ok:
  assumes "space_ok s ts" and "id_ok i"
  shows "opcua_find_node i s = Some (space_find s ts i, s)"
proof -
  have l: "(os_lock s)\<lparr>sl_lock := 1\<rparr>\<lparr>sl_lock := 0\<rparr> = os_lock s" using assms(1) by (simp add: space_ok_def)
  have "find_recursive (os_node s) (os_root s) i = Some (space_find s ts i)"
    using assms by (intro find_recursive_ok) (simp_all add: space_ok_def)
  then show ?thesis using assms(1) l
    by (simp add: opcua_find_node_def spin_lock_def spin_unlock_def space_ok_def)
qed

text \<open>Values and application data do not matter for the search.\<close>

lemma space_ok_frame:
  assumes "space_ok s ts" and "os_root s' = os_root s" and "sl_lock (os_lock s') = 0"
    and "\<And>b. b \<in> set (preorder ts) \<Longrightarrow> nd_children (os_node s' b) = nd_children (os_node s b) \<and>
      nd_next (os_node s' b) = nd_next (os_node s b) \<and> nd_id (os_node s' b) = nd_id (os_node s b)"
  shows "space_ok s' ts" "space_find s' ts i = space_find s ts i"
proof -
  have "forest (os_node s') (os_root s') ts" using assms unfolding space_ok_def
    by (intro forest_cong[where nd = "os_node s" and nd' = "os_node s'"]) auto
  then show "space_ok s' ts" using assms unfolding space_ok_def by auto
  show "space_find s' ts i = space_find s ts i"
    by (rule find_cong) (use assms(4) in auto)
qed

lemma opcua_add_child_ok:
  assumes sp: "space_ok s ts" and q: "q \<in> set (preorder ts)" and al: "heap_alloc sizeof_opcua_node h = Some (Some a, h')"
    and new: "a \<notin> set (preorder ts)" and id: "id_ok i"
  shows "\<exists>s'. opcua_add_node (Some q) i nc bn dn s h = Some (Some a, s', h') \<and> space_ok s' (add_child q a ts) \<and>
    nd_id (os_node s' a) = i \<and> (\<forall>b. b \<noteq> a \<longrightarrow> nd_id (os_node s' b) = nd_id (os_node s b))"
proof -
  have qa: "q \<noteq> a" using q new by auto
  let ?n = "(os_node s a)\<lparr>nd_id := i, nd_class := nc, nd_browse := bn, nd_display := dn,
     nd_value := (nd_value (os_node s a))\<lparr>va_type := OPCUA_TYPE_NULL\<rparr>, nd_data_type := OPCUA_TYPE_NULL,
     nd_access := 0x03, nd_parent := Some q, nd_children := None, nd_next := nd_children (os_node s q)\<rparr>"
  let ?nd = "(os_node s)(a := ?n, q := (os_node s q)\<lparr>nd_children := Some a\<rparr>)"
  let ?s' = "s\<lparr>os_node := ?nd, os_node_count := os_node_count s + 1\<rparr>"
  have "(os_lock s)\<lparr>sl_lock := 1\<rparr>\<lparr>sl_lock := 0\<rparr> = os_lock s" using sp by (simp add: space_ok_def)
  then have "opcua_add_node (Some q) i nc bn dn s h = Some (Some a, ?s', h')"
    using al sp qa
    by (simp add: opcua_add_node_def nd_upd_def spin_lock_def spin_unlock_def space_ok_def fun_upd_twist)
  moreover have "forest ?nd (os_root s) (add_child q a ts)"
    using sp q new qa by (intro forest_add_child[where nd = "os_node s"]) (auto simp: space_ok_def)
  then have "space_ok ?s' (add_child q a ts)"
    using sp q new id qa
    by (auto simp: space_ok_def preorder_add_child set_insert_after distinct_insert_after)
  ultimately show ?thesis using qa by (intro exI[of _ ?s']) auto
qed

lemma opcua_add_orphan_ok:
  assumes sp: "space_ok s ts" and root: "os_root s \<noteq> None" and al: "heap_alloc sizeof_opcua_node h = Some (Some a, h')"
    and new: "a \<notin> set (preorder ts)"
  shows "\<exists>s'. opcua_add_node None i nc bn dn s h = Some (Some a, s', h') \<and> space_ok s' ts \<and>
    (\<forall>j. space_find s' ts j = space_find s ts j) \<and> os_node_count s' = os_node_count s + 1"
proof -
  let ?n = "(os_node s a)\<lparr>nd_id := i, nd_class := nc, nd_browse := bn, nd_display := dn,
     nd_value := (nd_value (os_node s a))\<lparr>va_type := OPCUA_TYPE_NULL\<rparr>, nd_data_type := OPCUA_TYPE_NULL,
     nd_access := 0x03, nd_parent := None, nd_children := None, nd_next := None\<rparr>"
  let ?s' = "s\<lparr>os_node := (os_node s)(a := ?n), os_node_count := os_node_count s + 1\<rparr>"
  have "(os_lock s)\<lparr>sl_lock := 1\<rparr>\<lparr>sl_lock := 0\<rparr> = os_lock s" using sp by (simp add: space_ok_def)
  then have "opcua_add_node None i nc bn dn s h = Some (Some a, ?s', h')"
    using al sp root
    by (auto simp: opcua_add_node_def nd_upd_def spin_lock_def spin_unlock_def space_ok_def Let_def)
  moreover have fr: "\<And>b. b \<in> set (preorder ts) \<Longrightarrow> nd_children (os_node ?s' b) = nd_children (os_node s b) \<and>
      nd_next (os_node ?s' b) = nd_next (os_node s b) \<and> nd_id (os_node ?s' b) = nd_id (os_node s b)"
    using new by auto
  have "space_ok ?s' ts" "space_find ?s' ts j = space_find s ts j" for j
    using space_ok_frame[OF sp, of ?s'] sp fr by (simp_all add: space_ok_def)
  moreover have "os_node_count ?s' = os_node_count s + 1" by simp
  ultimately show ?thesis by blast
qed

section \<open>Reading and writing values\<close>

lemma encode_flat_reader: "flat_variant v \<Longrightarrow> opcua_encode_variant m v = opcua_encode_variant m' v"
  by (auto simp: flat_variant_def opcua_encode_variant_def opcua_encode_nodeid_def opcua_type_defs
      split: variant_union.split)

text \<open>The item of a read or write request up to the value; the index range is null.\<close>

definition item_head :: "u8 list \<Rightarrow> u32 \<Rightarrow> u8 list" where
  "item_head nid attr = nid @ write_u32 attr @ write_u32 0xFFFFFFFF"

definition numeric_id :: "u16 \<Rightarrow> u32 \<Rightarrow> opcua_nodeid" where
  "numeric_id ns v = \<lparr>ni_ns = ns, ni_type = OPCUA_NODEID_NUMERIC, ni_id = Id_numeric v\<rparr>"

lemma id_ok_numeric [simp]: "id_ok (numeric_id ns v)"
  by (simp add: id_ok_def numeric_id_def)

lemma item_head_back:
  assumes "opcua_encode_nodeid m0 (numeric_id ns u) = Some nb" and "bytes_at m data (item_head nb attr)"
  shows "opcua_decode_nodeid m old data = Some (Some (numeric_id ns u), data + int (length nb))"
    "read_u32 m (data + int (length nb)) = Some (attr, data + int (length nb) + 4)"
    "read_u32 m (data + int (length nb) + 4) = Some (0xFFFFFFFF, data + int (length nb) + 8)"
proof -
  have b: "bytes_at m data nb" "bytes_at m (data + int (length nb)) (write_u32 attr)"
    "bytes_at m (data + int (length nb) + 4) (write_u32 0xFFFFFFFF)"
    using assms(2) by (simp_all add: item_head_def add.assoc)
  show "opcua_decode_nodeid m old data = Some (Some (numeric_id ns u), data + int (length nb))"
    using nodeid_numeric_back[OF assms(1)[unfolded numeric_id_def] b(1)] by (simp add: numeric_id_def)
  show "read_u32 m (data + int (length nb)) = Some (attr, data + int (length nb) + 4)"
    "read_u32 m (data + int (length nb) + 4) = Some (0xFFFFFFFF, data + int (length nb) + 8)"
    using read_u32_at[OF b(2)] read_u32_at[OF b(3)] by simp_all
qed

lemma opcua_write_item_ok:
  assumes "opcua_encode_nodeid m0 (numeric_id ns u) = Some nb" and "opcua_encode_variant m0 v = Some vb" and "flat_variant v"
    and "bytes_at m data (item_head nb attr @ write_u8 1 @ vb)"
    and sp: "space_ok s ts" and fd: "space_find s ts (numeric_id ns u) = Some a"
  shows "\<exists>s' data'. opcua_write_item lo m data s = Some (write_u32 OPCUA_STATUS_GOOD, data', s') \<and>
    space_ok s' ts \<and> space_find s' ts (numeric_id ns u) = Some a \<and> nd_value (os_node s' a) = v \<and>
    os_on_read s' = os_on_read s"
proof -
  let ?d = "data + int (length nb) + 8"
  note h = item_head_back[OF assms(1), of m data attr]
  have hb: "bytes_at m data (item_head nb attr)" "bytes_at m ?d (write_u8 1)" "bytes_at m (?d + 1) vb"
    using assms(4) by (simp_all add: item_head_def add.assoc)
  note val = opcua_variant_roundtrip_aux[OF assms(2,3) hb(3), of "va_value (lo_value lo)"]
  let ?s1 = "nd_upd a (nd_value_update (\<lambda>_. v)) s"
  let ?s2 = "case os_on_write ?s1 of
                    Some f \<Rightarrow> let (st, v', app) = f (numeric_id ns u) v (os_app ?s1) in ?s1\<lparr>os_app := app\<rparr>
                  | None \<Rightarrow> ?s1"
  have eq: "opcua_write_item lo m data s = Some (write_u32 OPCUA_STATUS_GOOD, ?d + 1 + int (length vb), ?s2)"
    using h[OF hb(1)] read_u8_at[OF hb(2)] val opcua_find_ok[OF sp id_ok_numeric] fd
    by (simp add: opcua_write_item_def Let_def)
  have f: "os_node ?s2 = os_node ?s1" "os_root ?s2 = os_root s" "os_lock ?s2 = os_lock s" "os_on_read ?s2 = os_on_read s"
    by (auto simp: nd_upd_def split: option.split prod.split)
  have "sl_lock (os_lock ?s2) = 0" using sp f(3) by (simp add: space_ok_def)
  note sp2 = space_ok_frame[OF sp f(2) this]
  have "space_ok ?s2 ts" "space_find ?s2 ts (numeric_id ns u) = Some a"
    unfolding fd[symmetric] by (rule sp2; unfold f(1); simp add: nd_upd_def)+
  moreover have "nd_value (os_node ?s2 a) = v" unfolding f(1) by (simp add: nd_upd_def)
  ultimately show ?thesis using eq f(4) by blast
qed

lemma opcua_read_item_ok:
  assumes "opcua_encode_nodeid m0 (numeric_id ns u) = Some nb" and "bytes_at m data (item_head nb attr)"
    and sp: "space_ok s ts" and fd: "space_find s ts (numeric_id ns u) = Some a" and cb: "os_on_read s = None"
    and enc: "opcua_encode_variant mem (nd_value (os_node s a)) = Some vb"
  shows "opcua_read_item lo m mem data s = Some (write_u8 1 @ vb, data + int (length nb) + 11, s)"
  using item_head_back[OF assms(1,2)] opcua_find_ok[OF sp id_ok_numeric] fd cb enc
  by (simp add: opcua_read_item_def)

lemma opcua_write_read_aux:
  assumes "opcua_encode_nodeid m0 (numeric_id ns u) = Some nb" and "opcua_encode_variant m0 v = Some vb" and "flat_variant v"
    and "bytes_at m (data + 24) (write_u32 1 @ item_head nb attr @ write_u8 1 @ vb)"
    and "bytes_at m' (data' + 24) (write_u64 age @ write_u32 stamps @ write_u32 1 @ item_head nb attr')"
    and "space_ok s ts" and "space_find s ts (numeric_id ns u) = Some a" and "os_on_read s = None"
  shows "\<exists>s'. opcua_service left 673 ch m data s w =
      Some (type_id_bytes 676 @ resp_header OPCUA_STATUS_GOOD w @ write_u32 1 @ write_u32 OPCUA_STATUS_GOOD @ write_u32 0, s') \<and>
    opcua_service left' 631 ch' m' data' s' w' =
      Some (type_id_bytes 634 @ resp_header OPCUA_STATUS_GOOD w' @ write_u32 1 @ write_u8 1 @ vb @ write_u32 0, s')"
proof -
  have w: "bytes_at m (data + 24) (write_u32 1)" "bytes_at m (data + 28) (item_head nb attr @ write_u8 1 @ vb)"
    using assms(4) by (simp_all add: add.assoc)
  have r: "bytes_at m' (data' + 24) (write_u64 age)" "bytes_at m' (data' + 32) (write_u32 stamps)"
    "bytes_at m' (data' + 36) (write_u32 1)" "bytes_at m' (data' + 40) (item_head nb attr')"
    using assms(5) by (simp_all add: add.assoc)
  obtain s' d where s': "opcua_write_item (lf_locals left 0) m (data + 28) s = Some (write_u32 OPCUA_STATUS_GOOD, d, s')"
    "space_ok s' ts" "space_find s' ts (numeric_id ns u) = Some a" "nd_value (os_node s' a) = v" "os_on_read s' = None"
    using opcua_write_item_ok[OF assms(1-3) w(2) assms(6,7), where lo = "lf_locals left 0"] assms(8) by auto
  have "opcua_service left 673 ch m data s w =
      Some (type_id_bytes 676 @ resp_header OPCUA_STATUS_GOOD w @ write_u32 1 @ write_u32 OPCUA_STATUS_GOOD @ write_u32 0, s')"
    using read_u32_at[OF w(1)] s'(1) by (simp add: opcua_service_def svc_write_def add.assoc)
  moreover have "opcua_encode_variant (mem_reader w') (nd_value (os_node s' a)) = Some vb"
    using assms(2) s'(4) encode_flat_reader[OF assms(3)] by metis
  note it = opcua_read_item_ok[OF assms(1) r(4) s'(2,3,5) this]
  have "opcua_service left' 631 ch' m' data' s' w' =
      Some (type_id_bytes 634 @ resp_header OPCUA_STATUS_GOOD w' @ write_u32 1 @ write_u8 1 @ vb @ write_u32 0, s')"
    using read_u64_at[OF r(1)] read_u32_at[OF r(2)] read_u32_at[OF r(3)] it
    by (simp add: opcua_service_def svc_read_def add.assoc)
  ultimately show ?thesis by blast
qed

text \<open>Strings: only a zero byte ends the string that is written, whatever length was decoded.\<close>

lemma opcua_string_echo:
  assumes "opcua_decode_string m a = Some (Some p, n, a')" and "cstr m p = Some s" and "length s < 2 ^ 32"
  shows "opcua_encode_string m (Some p) = Some (write_u32 (of_nat (length s)) @ s)"
  using assms(2,3) by (simp add: opcua_encode_string_def unat_of_nat take_bit_nat_eq_self)

text \<open>A request whose answer does not fit the response array of 1024 bytes.\<close>

lemma length_resp_header [simp]: "length (resp_header st w) = 25" "length (type_id_bytes t) = 4"
  by (simp_all add: resp_header_def type_id_bytes_def)

lemma opcua_read_string_long_aux:
  assumes "opcua_encode_nodeid m0 (numeric_id ns u) = Some nb"
    and rq: "bytes_at (req_reader q w) (zb_data (nb_get q w) + 8)
      (write_u32 ch @ write_u32 tok @ write_u32 sq @ write_u32 rid @ write_u8 e @ write_u8 x @ write_u16 631)"
    and it: "bytes_at (req_reader q w) (zb_data (nb_get q w) + 52)
      (write_u64 age @ write_u32 stamps @ write_u32 1 @ item_head nb attr)"
    and "space_ok s ts" and "space_find s ts (numeric_id ns u) = Some a" and "os_on_read s = None"
    and val: "nd_value (os_node s a) = \<lparr>va_type = OPCUA_TYPE_STRING, va_value = V_string (Some p) n\<rparr>"
    and str: "cstr (mem_reader w) p = Some str" "966 \<le> length str" "length str < 2 ^ 32"
  shows "opcua_handle_service left q s w = None"
proof -
  let ?m = "req_reader q w" and ?d = "zb_data (nb_get q w)"
  have h: "bytes_at ?m (?d + 8) (write_u32 ch)" "bytes_at ?m (?d + 12) (write_u32 tok)" "bytes_at ?m (?d + 16) (write_u32 sq)"
    "bytes_at ?m (?d + 20) (write_u32 rid)" "bytes_at ?m (?d + 24) (write_u8 e)" "bytes_at ?m (?d + 25) (write_u8 x)"
    "bytes_at ?m (?d + 26) (write_u16 631)"
    using rq by (simp_all add: add.assoc)
  have r: "bytes_at ?m (?d + 52) (write_u64 age)" "bytes_at ?m (?d + 60) (write_u32 stamps)"
    "bytes_at ?m (?d + 64) (write_u32 1)" "bytes_at ?m (?d + 68) (item_head nb attr)"
    using it by (simp_all add: add.assoc)
  let ?s = "s\<lparr>os_sequence_num := os_sequence_num s + 1\<rparr>"
  have sp: "space_ok ?s ts" "space_find ?s ts (numeric_id ns u) = Some a" "os_on_read ?s = None"
    "nd_value (os_node ?s a) = nd_value (os_node s a)"
    using assms(4-6) by (simp_all add: space_ok_def)
  have "opcua_encode_variant (mem_reader w) (nd_value (os_node ?s a)) = Some (write_u8 12 @ write_u32 (of_nat (length str)) @ str)"
    using str(1,3) val by (simp add: opcua_encode_variant_def opcua_encode_string_def opcua_type_defs unat_of_nat take_bit_nat_eq_self)
  note item = opcua_read_item_ok[OF assms(1) r(4) sp(1-3) this]
  have "opcua_service left 631 ch ?m (?d + 28) ?s w = Some (type_id_bytes 634 @ resp_header OPCUA_STATUS_GOOD w @ write_u32 1 @
      (write_u8 1 @ write_u8 12 @ write_u32 (of_nat (length str)) @ str) @ write_u32 0, ?s)"
    using read_u64_at[OF r(1)] read_u32_at[OF r(2)] read_u32_at[OF r(3)] item
    by (simp add: opcua_service_def svc_read_def add.assoc)
  moreover have "fits 1024 ((write_u32 ch @ write_u32 tok @ write_u32 (os_sequence_num s) @ write_u32 rid) @
      type_id_bytes 634 @ resp_header OPCUA_STATUS_GOOD w @ write_u32 1 @
      (write_u8 1 @ write_u8 12 @ write_u32 (of_nat (length str)) @ str) @ write_u32 0) = None"
    using str(2) by (simp add: fits_def)
  ultimately show ?thesis
    using read_u32_at[OF h(1)] read_u32_at[OF h(2)] read_u32_at[OF h(3)] read_u32_at[OF h(4)] read_u8_at[OF h(5)]
      read_u8_at[OF h(6)] read_u16_at[OF h(7)]
    by (simp add: opcua_handle_service_def Let_def add.assoc)
qed

section \<open>The types of the stored values\<close>

text \<open>The member of the union that is in use is the one the type names; a null value has none.\<close>

definition variant_typed :: "opcua_variant \<Rightarrow> bool" where
  "variant_typed v \<longleftrightarrow> va_type v \<notin> {1, 2, 3, 4, 5, 6, 7, 8, 9, 10, 11, 12, 17} \<or>
     (case va_value v of
        V_boolean _ \<Rightarrow> va_type v = OPCUA_TYPE_BOOLEAN
      | V_sbyte _ \<Rightarrow> va_type v = OPCUA_TYPE_SBYTE | V_byte _ \<Rightarrow> va_type v = OPCUA_TYPE_BYTE
      | V_i16 _ \<Rightarrow> va_type v = OPCUA_TYPE_INT16 | V_u16 _ \<Rightarrow> va_type v = OPCUA_TYPE_UINT16
      | V_i32 _ \<Rightarrow> va_type v = OPCUA_TYPE_INT32 | V_u32 _ \<Rightarrow> va_type v = OPCUA_TYPE_UINT32
      | V_i64 _ \<Rightarrow> va_type v = OPCUA_TYPE_INT64 | V_u64 _ \<Rightarrow> va_type v = OPCUA_TYPE_UINT64
      | V_f32 _ \<Rightarrow> va_type v = OPCUA_TYPE_FLOAT | V_f64 _ \<Rightarrow> va_type v = OPCUA_TYPE_DOUBLE
      | V_string _ _ \<Rightarrow> va_type v = OPCUA_TYPE_STRING | V_nodeid _ \<Rightarrow> va_type v = OPCUA_TYPE_NODEID
      | V_indeterminate \<Rightarrow> False)"

lemma opcua_decode_variant_typed:
  assumes "opcua_decode_variant m old a = Some (v, a')"
  shows "variant_typed v"
  using assms unfolding opcua_decode_variant_def opcua_type_defs Let_def
  by (auto simp: bind_eq_Some_conv variant_typed_def opcua_type_defs split: if_splits prod.splits)

text \<open>Every node's value is well typed, and the application's read callback keeps it so.\<close>

definition nodes_typed :: "'a opcua_server \<Rightarrow> bool" where
  "nodes_typed s \<longleftrightarrow> (\<forall>a. variant_typed (nd_value (os_node s a)))"

definition reads_typed :: "'a opcua_server \<Rightarrow> bool" where
  "reads_typed s \<longleftrightarrow> (\<forall>f i v app. os_on_read s = Some f \<longrightarrow> variant_typed v \<longrightarrow> variant_typed (fst (snd (f i v app))))"

definition server_typed :: "'a opcua_server \<Rightarrow> bool" where
  "server_typed s \<longleftrightarrow> nodes_typed s \<and> reads_typed s"

lemma server_typed_frame [simp]:
  "server_typed (s\<lparr>os_app := x\<rparr>) = server_typed s" "server_typed (s\<lparr>os_lock := l\<rparr>) = server_typed s"
  "server_typed (s\<lparr>os_session_count := n, os_sessions := f\<rparr>) = server_typed s"
  "server_typed (s\<lparr>os_sequence_num := k\<rparr>) = server_typed s"
  by (simp_all add: server_typed_def nodes_typed_def reads_typed_def)

lemma server_typed_value: "server_typed s \<Longrightarrow> variant_typed v \<Longrightarrow> server_typed (nd_upd a (nd_value_update (\<lambda>_. v)) s)"
  by (simp add: server_typed_def nodes_typed_def reads_typed_def nd_upd_def)

lemma opcua_find_node_typed: "opcua_find_node i s = Some (p, s') \<Longrightarrow> server_typed s' = server_typed s"
  by (auto simp: opcua_find_node_def bind_eq_Some_conv)

text \<open>What a found node's callbacks do to the server, as in the loops of a read and of a write.\<close>

lemma read_callback_typed:
  assumes "server_typed s"
  shows "server_typed (case os_on_read s of
      Some f \<Rightarrow> let (st, v, app) = f i (nd_value (os_node s a)) (os_app s)
        in (nd_upd a (nd_value_update (\<lambda>_. v)) s)\<lparr>os_app := app\<rparr>
    | None \<Rightarrow> s)"
proof (cases "os_on_read s")
  case (Some f)
  obtain st v app where v: "f i (nd_value (os_node s a)) (os_app s) = (st, v, app)" by (metis prod_cases3)
  have "variant_typed (fst (snd (f i (nd_value (os_node s a)) (os_app s))))"
    using assms Some by (simp add: server_typed_def reads_typed_def nodes_typed_def)
  then show ?thesis using assms Some v by (simp add: server_typed_value)
qed (simp add: assms)

lemma opcua_read_item_typed:
  assumes "opcua_read_item lo m mem a s = Some (bs, a', s')" and "server_typed s"
  shows "server_typed s'"
proof -
  obtain i p s1 where f: "opcua_find_node i s = Some (p, s1)" and
    c: "p = None \<and> s' = s1 \<or> (\<exists>b. p = Some b \<and> s' = (case os_on_read s1 of
        Some f \<Rightarrow> let (st, v, app) = f i (nd_value (os_node s1 b)) (os_app s1)
          in (nd_upd b (nd_value_update (\<lambda>_. v)) s1)\<lparr>os_app := app\<rparr>
      | None \<Rightarrow> s1))"
    using assms(1) unfolding opcua_read_item_def Let_def bind_eq_Some_conv
    by (elim exE conjE; clarsimp simp: bind_eq_Some_conv; case_tac ac)
      (auto simp: bind_eq_Some_conv)
  have t: "server_typed s1" using opcua_find_node_typed[OF f] assms(2) by simp
  show ?thesis using c t read_callback_typed[OF t, of i] by auto
qed

text \<open>After a write, a value is of its type or one of those left on the stack.\<close>

definition left_typed :: "(nat \<Rightarrow> opcua_locals) \<Rightarrow> opcua_variant \<Rightarrow> bool" where
  "left_typed lo v \<longleftrightarrow> variant_typed v \<or> (\<exists>k. v = lo_value (lo k))"

definition nodes_left :: "(nat \<Rightarrow> opcua_locals) \<Rightarrow> 'a opcua_server \<Rightarrow> bool" where
  "nodes_left lo s \<longleftrightarrow> (\<forall>a. left_typed lo (nd_value (os_node s a)))"

lemma nodes_left_frame [simp]:
  "nodes_left lo (s\<lparr>os_app := x\<rparr>) = nodes_left lo s" "nodes_left lo (s\<lparr>os_lock := l\<rparr>) = nodes_left lo s"
  by (simp_all add: nodes_left_def)

lemma nodes_left_value: "nodes_left lo s \<Longrightarrow> left_typed lo v \<Longrightarrow> nodes_left lo (nd_upd a (nd_value_update (\<lambda>_. v)) s)"
  by (simp add: nodes_left_def nd_upd_def)

lemma opcua_find_node_left: "opcua_find_node i s = Some (p, s') \<Longrightarrow> nodes_left lo s' = nodes_left lo s"
  by (auto simp: opcua_find_node_def bind_eq_Some_conv)

lemma opcua_write_item_left:
  assumes "opcua_write_item (lo k) m a s = Some (bs, a', s')" and "nodes_left lo s"
  shows "nodes_left lo s'"
proof -
  have dec: "opcua_decode_variant m old d = Some (v, d') \<Longrightarrow> left_typed lo v" for old d v d'
    using opcua_decode_variant_typed by (auto simp: left_typed_def)
  have own: "left_typed lo (lo_value (lo k))" by (auto simp: left_typed_def)
  obtain i v d where v: "left_typed lo v" and
    r: "Option.bind (opcua_find_node i s) (\<lambda>(p, s). case p of
       Some b \<Rightarrow> let s = nd_upd b (nd_value_update (\<lambda>_. v)) s;
           s = (case os_on_write s of Some f \<Rightarrow> let (st, v', app) = f i v (os_app s) in s\<lparr>os_app := app\<rparr> | None \<Rightarrow> s)
         in Some (write_u32 OPCUA_STATUS_GOOD, d, s)
     | None \<Rightarrow> Some (write_u32 OPCUA_STATUS_BAD_NODEID_UNKNOWN, d, s)) = Some (bs, a', s')"
  proof -
    obtain nid d1 at d2 ln d3 enc d4 where h: "opcua_decode_nodeid m (Some (lo_node_id (lo k))) a = Some (nid, d1)"
      "read_u32 m d1 = Some (at, d2)" "read_u32 m d2 = Some (ln, d3)"
      "read_u8 m (if ln \<noteq> 0xFFFFFFFF then d3 + uint ln else d3) = Some (enc, d4)"
      using assms(1) unfolding opcua_write_item_def Let_def
      by (auto simp only: bind_eq_Some_conv split_paired_Ex prod.case)
    obtain v d where vd: "(if enc AND 0x01 \<noteq> 0 then opcua_decode_variant m (va_value (lo_value (lo k))) d4
        else Some (lo_value (lo k), d4)) = Some (v, d)"
      using assms(1) h unfolding opcua_write_item_def Let_def
      by (auto simp del: split_paired_Ex simp: bind_eq_Some_conv split del: if_split)
    have "left_typed lo v" using vd own dec by (auto split: if_splits)
    moreover obtain i where "nid = Some i"
      using assms(1) h vd unfolding opcua_write_item_def Let_def
      by (cases nid) (simp_all split del: if_split)
    ultimately show ?thesis
      using that[of v i d] assms(1) h vd unfolding opcua_write_item_def Let_def by (simp split del: if_split)
  qed
  obtain p s1 where f: "opcua_find_node i s = Some (p, s1)" using r by (cases "opcua_find_node i s") auto
  have "nodes_left lo s1" using opcua_find_node_left[OF f] assms(2) by simp
  then show ?thesis using r v f by (auto simp: nodes_left_value Let_def split: option.splits prod.splits)
qed

lemma opcua_read_items_typed: "opcua_read_items n lo m mem a s = Some (bs, s') \<Longrightarrow> server_typed s \<Longrightarrow> server_typed s'"
  by (induction n arbitrary: a s bs) (auto simp: bind_eq_Some_conv dest: opcua_read_item_typed)

lemma opcua_write_items_left: "opcua_write_items n lo m a s = Some (bs, s') \<Longrightarrow> nodes_left lo s \<Longrightarrow> nodes_left lo s'"
  by (induction n arbitrary: a s bs) (auto simp: bind_eq_Some_conv dest: opcua_write_item_left)

lemma svc_create_session_typed: "svc_create_session ch s w = (bs, s') \<Longrightarrow> server_typed s \<Longrightarrow> server_typed s'"
  by (auto simp: svc_create_session_def Let_def server_typed_def nodes_typed_def reads_typed_def split: if_splits)

lemma opcua_service_typed:
  assumes "opcua_service left t ch m a s w = Some (bs, s')" and "server_typed s"
  shows "if t = 673 then nodes_left (lf_locals left) s' else server_typed s'"
proof -
  have "nodes_left (lf_locals left) s"
    using assms(2) by (simp add: server_typed_def nodes_typed_def nodes_left_def left_typed_def)
  then show ?thesis using assms
    by (auto simp: opcua_service_def svc_read_def svc_write_def bind_eq_Some_conv split: if_splits
        dest: opcua_read_items_typed opcua_write_items_left svc_create_session_typed)
qed

section \<open>A server to try the properties on\<close>

definition list_reader :: "addr \<Rightarrow> u8 list \<Rightarrow> reader" where
  "list_reader b bs = (\<lambda>a. if b \<le> a \<and> a < b + int (length bs) then Some (bs ! nat (a - b)) else None)"

lemma bytes_at_list_reader: "bytes_at (list_reader b bs) b bs"
  by (simp add: bytes_at_def list_reader_def)

definition node_blank :: opcua_node where
  "node_blank = \<lparr>nd_id = numeric_id 0 0, nd_class = 1, nd_browse = None, nd_display = None,
     nd_value = \<lparr>va_type = OPCUA_TYPE_NULL, va_value = V_indeterminate\<rparr>, nd_data_type = 0, nd_access = 3,
     nd_parent = None, nd_children = None, nd_next = None\<rparr>"

definition left_demo :: leftovers where
  "left_demo = \<lparr>lf_behind = [0, 0], lf_locals = (\<lambda>_. \<lparr>lo_node_id = numeric_id 0 0,
     lo_value = \<lparr>va_type = OPCUA_TYPE_INT32, va_value = V_indeterminate\<rparr>\<rparr>)\<rparr>"

text \<open>A root at 1000 and its child 2000, an integer variable.\<close>

definition opcua_demo :: "unit opcua_server" where
  "opcua_demo = \<lparr>os_socket = 3, os_port = 4840, os_running = True, os_channel_id = 1, os_sequence_num = 1,
     os_request_id = 0, os_sessions = (\<lambda>_. \<lparr>se_id = 0, se_auth = 0, se_activated = False, se_timeout = 0,
       se_last_activity = 0, se_channel = 0\<rparr>), os_session_count = 8, os_subscriptions = None,
     os_root = Some 1000, os_nodes = None, os_node_count = 2, os_on_read = None, os_on_write = None,
     os_lock = SPINLOCK_INIT,
     os_node = (\<lambda>_. node_blank)(
       1000 := node_blank\<lparr>nd_id := numeric_id 0 85, nd_children := Some 2000\<rparr>,
       2000 := node_blank\<lparr>nd_id := numeric_id 2 1001, nd_parent := Some 1000,
         nd_value := \<lparr>va_type = OPCUA_TYPE_INT32, va_value = V_i32 7\<rparr>\<rparr>),
     os_app = ()\<rparr>"

definition tree_demo :: "otree list" where "tree_demo = [ONode 1000 [ONode 2000 []]]"

lemma opcua_demo_ok: "space_ok opcua_demo tree_demo"
  by (simp add: space_ok_def opcua_demo_def tree_demo_def node_blank_def SPINLOCK_INIT_def)

lemma opcua_demo_find:
  "space_find opcua_demo tree_demo i = (if same_id (numeric_id 0 85) i then Some 1000
     else if same_id (numeric_id 2 1001) i then Some 2000 else None)"
  by (simp add: opcua_demo_def tree_demo_def node_blank_def)

lemma same_numeric [simp]: "same_id (numeric_id ns u) (numeric_id ns' u') \<longleftrightarrow> ns = ns' \<and> u = u'"
  by (auto simp: same_id_def numeric_id_def)

lemma heap0_alloc_node: "\<exists>h'. heap_alloc sizeof_opcua_node heap0 = Some (Some 4128, h')"
proof -
  have "uint (heap_request 112) = 144" by (simp add: uint_heap_request)
  then show ?thesis
    using heap_alloc_sim[OF heap0_inv, of 112] by (auto simp: heap_consts sizeof_opcua_node_def)
qed

lemma payload_reader:
  assumes "zb_wf (nb_get q w)" and "zb_payload q (n_pool w) = xs @ bs @ ys"
  shows "bytes_at (req_reader q w) (zb_data (nb_get q w) + int (length xs)) bs"
  unfolding bytes_at_def
proof (intro allI impI)
  fix i assume "i < length bs"
  then have "zb_payload q (n_pool w) = (xs @ take i bs) @ [bs ! i] @ (drop (Suc i) bs @ ys)"
    using assms(2) id_take_nth_drop[of i bs] by simp
  from ld8_field[OF assms(1) this refl] \<open>i < length bs\<close>
  show "req_reader q w (zb_data (nb_get q w) + int (length xs) + int i) = Some (bs ! i)"
    by (simp add: req_reader_def add.assoc)
qed

lemma cstr_at: "bytes_at m p (s @ [0]) \<Longrightarrow> 0 \<notin> set s \<Longrightarrow> cstr m p = Some s"
proof (induction s arbitrary: p)
  case Nil
  then show ?case by (subst cstr.simps) simp
next
  case (Cons c s)
  then show ?case by (subst cstr.simps) simp
qed

section \<open>What the server promises\<close>

text \<open>A node id that is encoded and then decoded from the bytes written is the same node id: namespace, type and numeric value are equal, and a string id has the same length and the same bytes, now at the place it was read from.\<close>

theorem opcua_nodeid_roundtrip:
  assumes "opcua_encode_nodeid m n = Some bs" and "ni_type n = OPCUA_NODEID_NUMERIC \<or> ni_type n = OPCUA_NODEID_STRING"
    and "bytes_at m' a bs"
  shows "\<exists>n'. opcua_decode_nodeid m' old a = Some (Some n', a + int (length bs)) \<and> nodeid_eq m n m' n'"
  using opcua_nodeid_roundtrip_aux[OF assms] .

theorem opcua_nodeid_roundtrip_witness:
  "\<exists>n'. opcua_decode_nodeid (list_reader 100 [3, 2, 0, 2, 0, 0, 0, 65, 66]) None 100 = Some (Some n', 109) \<and>
     ni_ns n' = 2 \<and> ni_type n' = OPCUA_NODEID_STRING"
proof -
  let ?n = "\<lparr>ni_ns = 2, ni_type = OPCUA_NODEID_STRING, ni_id = Id_string (Some 50) 2\<rparr>" and ?bs = "[3, 2, 0, 2, 0, 0, 0, 65, 66] :: u8 list"
  have "opcua_encode_nodeid (list_reader 50 [65, 66]) ?n = Some ?bs"
    by code_simp
  from opcua_nodeid_roundtrip[OF this _ bytes_at_list_reader[of 100], where old = None] show ?thesis
    by (auto simp: nodeid_eq_def)
qed

text \<open>C8: A value written by a Write request is what a later Read request returns: for requests with a single item, a known node, a value of a number type or a numeric node id, and a server without a read callback (it has none after its initialisation), the Write answers Good, and the Read that follows answers with exactly the encoding of that value.\<close>

theorem opcua_write_read:
  assumes "opcua_encode_nodeid m0 (numeric_id ns u) = Some nb" and "opcua_encode_variant m0 v = Some vb" and "flat_variant v"
    and "bytes_at m (data + 24) (write_u32 1 @ item_head nb attr @ write_u8 1 @ vb)"
    and "bytes_at m' (data' + 24) (write_u64 age @ write_u32 stamps @ write_u32 1 @ item_head nb attr')"
    and "space_ok s ts" and "space_find s ts (numeric_id ns u) = Some a" and "os_on_read s = None"
  shows "\<exists>s'. opcua_service left 673 ch m data s w =
      Some (type_id_bytes 676 @ resp_header OPCUA_STATUS_GOOD w @ write_u32 1 @ write_u32 OPCUA_STATUS_GOOD @ write_u32 0, s') \<and>
    opcua_service left' 631 ch' m' data' s' w' =
      Some (type_id_bytes 634 @ resp_header OPCUA_STATUS_GOOD w' @ write_u32 1 @ write_u8 1 @ vb @ write_u32 0, s')"
  using opcua_write_read_aux[OF assms] .

theorem opcua_write_read_witness:
  "\<exists>wr rd s'. opcua_service left_demo 673 1 wr 0 opcua_demo net_demo =
      Some (type_id_bytes 676 @ resp_header OPCUA_STATUS_GOOD net_demo @ write_u32 1 @ write_u32 OPCUA_STATUS_GOOD @ write_u32 0, s') \<and>
    opcua_service left_demo 631 1 rd 0 s' net_demo =
      Some (type_id_bytes 634 @ resp_header OPCUA_STATUS_GOOD net_demo @ write_u32 1 @ write_u8 1 @ (write_u8 6 @ write_u32 42) @ write_u32 0, s')"
proof -
  let ?v = "\<lparr>va_type = OPCUA_TYPE_INT32, va_value = V_i32 42\<rparr>" and ?m = "\<lambda>_. None :: u8 option"
  let ?nb = "write_u8 1 @ write_u8 2 @ write_u16 1001" and ?vb = "write_u8 6 @ write_u32 42"
  have n: "opcua_encode_nodeid ?m (numeric_id 2 1001) = Some ?nb"
    by (simp add: opcua_encode_nodeid_def numeric_id_def OPCUA_NODEID_NUMERIC_def)
  have v: "opcua_encode_variant ?m ?v = Some ?vb" "flat_variant ?v"
    by (simp_all add: opcua_encode_variant_def flat_variant_def opcua_type_defs)
  have f: "space_find opcua_demo tree_demo (numeric_id 2 1001) = Some 2000"
    unfolding opcua_demo_find by simp
  have cb: "os_on_read opcua_demo = None" by (simp add: opcua_demo_def)
  have at: "bytes_at (list_reader 24 bs) (0 + 24) bs" for bs
    using bytes_at_list_reader[of 24 bs] by simp
  show ?thesis
    using opcua_write_read[OF n v at at opcua_demo_ok f cb, where left = left_demo and left' = left_demo and ch = 1 and ch' = 1 and w = net_demo and w' = net_demo] by blast
qed

text \<open>Adding a node below a node of the address space makes it the one that is found under its id, when that id was not known before, and changes the answer for no other id.\<close>

theorem opcua_add_find:
  assumes "space_ok s ts" and "q \<in> set (preorder ts)" and "heap_alloc sizeof_opcua_node h = Some (Some a, h')"
    and "a \<notin> set (preorder ts)" and "id_ok i" and "opcua_find_node i s = Some (None, s)"
    and "id_ok j" and "opcua_find_node j s = Some (p, s)"
  shows "\<exists>s'. opcua_add_node (Some q) i nc bn dn s h = Some (Some a, s', h') \<and>
    opcua_find_node j s' = Some (if same_id i j then Some a else p, s')"
proof -
  obtain s' where s': "opcua_add_node (Some q) i nc bn dn s h = Some (Some a, s', h')" "space_ok s' (add_child q a ts)"
    "nd_id (os_node s' a) = i" "\<forall>b. b \<noteq> a \<longrightarrow> nd_id (os_node s' b) = nd_id (os_node s b)"
    using opcua_add_child_ok[OF assms(1-5)] by blast
  have none: "\<forall>b \<in> set (preorder ts). \<not> same_id (nd_id (os_node s b)) i"
    using assms(6) opcua_find_ok[OF assms(1,5)] by (simp add: find_None_iff)
  have p: "p = space_find s ts j" using assms(8) opcua_find_ok[OF assms(1,7)] by simp
  have pre: "preorder (add_child q a ts) = insert_after q a (preorder ts)"
    using assms(1) by (simp add: preorder_add_child space_ok_def)
  have old: "\<forall>b \<in> set (preorder ts). nd_id (os_node s' b) = nd_id (os_node s b)" using s'(4) assms(4) by metis
  have "space_find s' (add_child q a ts) j =
      (if same_id (nd_id (os_node s' a)) j then Some a else space_find s' ts j)"
    unfolding pre using none old s'(3) assms(2)
    by (intro find_insert_after) (auto simp: same_id_def)
  moreover have "space_find s' ts j = space_find s ts j" using old by (intro find_cong) auto
  ultimately have "space_find s' (add_child q a ts) j = (if same_id i j then Some a else p)"
    using s'(3) p by simp
  then show ?thesis using s'(1) opcua_find_ok[OF s'(2) assms(7)] by auto
qed

theorem opcua_add_find_witness:
  "\<exists>a h' s'. opcua_add_node (Some 1000) (numeric_id 2 1002) 2 None None opcua_demo heap0 = Some (Some a, s', h') \<and>
     opcua_find_node (numeric_id 2 1002) s' = Some (Some a, s')"
proof -
  obtain h' where al: "heap_alloc sizeof_opcua_node heap0 = Some (Some 4128, h')"
    using heap0_alloc_node by blast
  have q: "1000 \<in> set (preorder tree_demo)" "4128 \<notin> set (preorder tree_demo)" by (simp_all add: tree_demo_def)
  have f: "opcua_find_node (numeric_id 2 1002) opcua_demo = Some (None, opcua_demo)"
    unfolding opcua_find_ok[OF opcua_demo_ok id_ok_numeric] opcua_demo_find by simp
  from opcua_add_find[OF opcua_demo_ok q(1) al q(2) id_ok_numeric f id_ok_numeric f, of 2 None None]
  show ?thesis by auto
qed

text \<open>A node added without a parent when the address space already has a root is allocated and counted, and yet no search ever finds it: every id is answered as before.\<close>

theorem opcua_add_orphan:
  assumes "space_ok s ts" and "os_root s \<noteq> None" and "heap_alloc sizeof_opcua_node h = Some (Some a, h')"
    and "a \<notin> set (preorder ts)" and "id_ok j" and "opcua_find_node j s = Some (p, s)"
  shows "\<exists>s'. opcua_add_node None i nc bn dn s h = Some (Some a, s', h') \<and>
    os_node_count s' = os_node_count s + 1 \<and> opcua_find_node j s' = Some (p, s')"
proof -
  obtain s' where s': "opcua_add_node None i nc bn dn s h = Some (Some a, s', h')" "space_ok s' ts"
    "\<forall>j. space_find s' ts j = space_find s ts j" "os_node_count s' = os_node_count s + 1"
    using opcua_add_orphan_ok[OF assms(1-4)] by blast
  have "p = space_find s ts j" using assms(6) opcua_find_ok[OF assms(1,5)] by simp
  then show ?thesis using s' opcua_find_ok[OF s'(2) assms(5)] by auto
qed

theorem opcua_add_orphan_witness:
  "\<exists>a h' s'. opcua_add_node None (numeric_id 2 1002) 2 None None opcua_demo heap0 = Some (Some a, s', h') \<and>
     os_node_count s' = 3 \<and> opcua_find_node (numeric_id 2 1002) s' = Some (None, s')"
proof -
  obtain h' where al: "heap_alloc sizeof_opcua_node heap0 = Some (Some 4128, h')"
    using heap0_alloc_node by blast
  have q: "4128 \<notin> set (preorder tree_demo)" "os_root opcua_demo \<noteq> None" "os_node_count opcua_demo = 2"
    by (simp_all add: tree_demo_def opcua_demo_def)
  have f: "opcua_find_node (numeric_id 2 1002) opcua_demo = Some (None, opcua_demo)"
    unfolding opcua_find_ok[OF opcua_demo_ok id_ok_numeric] opcua_demo_find by simp
  from opcua_add_orphan[OF opcua_demo_ok q(2) al q(1) id_ok_numeric f, of "numeric_id 2 1002" 2 None None]
  show ?thesis using q(3) by auto
qed

text \<open>C32: Whatever a client sends, in the state after any request that is answered the union member in use in every node is the one its
  type names, or the request was a Write and the node holds what the stack had in the uninitialised local of one of its rounds;
  provided that it was so before and that the application's read callback returns values of that kind.\<close>

theorem opcua_values_typed:
  assumes "opcua_service left t ch m a s w = Some (bs, s')" and "server_typed s"
  shows "\<forall>b. variant_typed (nd_value (os_node s' b)) \<or> t = 673 \<and> (\<exists>k. nd_value (os_node s' b) = lo_value (lf_locals left k))"
  using opcua_service_typed[OF assms]
  by (auto simp: server_typed_def nodes_typed_def nodes_left_def left_typed_def split: if_splits)

theorem opcua_values_typed_witness:
  "\<forall>b. variant_typed (nd_value (os_node (snd (the (opcua_service left_demo 461 1 (\<lambda>_. None) 0 opcua_demo net_demo))) b))"
proof -
  have d: "server_typed opcua_demo"
    by (simp add: server_typed_def nodes_typed_def reads_typed_def opcua_demo_def node_blank_def variant_typed_def opcua_type_defs)
  have r: "opcua_service left_demo 461 1 (\<lambda>_. None) 0 opcua_demo net_demo =
      Some (fst (svc_create_session 1 opcua_demo net_demo), snd (svc_create_session 1 opcua_demo net_demo))"
    by (simp add: opcua_service_def)
  show ?thesis using opcua_values_typed[OF r d] by (simp add: r)
qed

text \<open>A Write request for a known node whose encoding byte has bit 0 clear carries no value: the node is given what the stack held in the
  local variable, and the client is told Good.\<close>

theorem opcua_write_uninitialised:
  assumes "opcua_encode_nodeid m0 (numeric_id ns u) = Some nb" and "bytes_at m (data + 24) (write_u32 1 @ item_head nb attr @ write_u8 enc)"
    and "enc AND 1 = 0" and "space_ok s ts" and "space_find s ts (numeric_id ns u) = Some a" and "os_on_write s = None"
  shows "\<exists>s'. opcua_service left 673 ch m data s w =
      Some (type_id_bytes 676 @ resp_header OPCUA_STATUS_GOOD w @ write_u32 1 @ write_u32 OPCUA_STATUS_GOOD @ write_u32 0, s') \<and>
    nd_value (os_node s' a) = lo_value (lf_locals left 0)"
proof -
  have b: "bytes_at m (data + 24) (write_u32 1)" "bytes_at m (data + 28) (item_head nb attr)"
    "bytes_at m (data + 28 + int (length nb) + 8) (write_u8 enc)"
    using assms(2) by (simp_all add: item_head_def add.assoc)
  let ?s = "nd_upd a (nd_value_update (\<lambda>_. lo_value (lf_locals left 0))) s"
  have "opcua_write_item (lf_locals left 0) m (data + 28) s =
      Some (write_u32 OPCUA_STATUS_GOOD, data + 28 + int (length nb) + 8 + 1, ?s)"
    using item_head_back[OF assms(1) b(2)] read_u8_at[OF b(3)] opcua_find_ok[OF assms(4) id_ok_numeric] assms(3,5,6)
    by (simp add: opcua_write_item_def Let_def nd_upd_def)
  then have "opcua_service left 673 ch m data s w =
      Some (type_id_bytes 676 @ resp_header OPCUA_STATUS_GOOD w @ write_u32 1 @ write_u32 OPCUA_STATUS_GOOD @ write_u32 0, ?s)"
    using read_u32_at[OF b(1)] by (simp add: opcua_service_def svc_write_def add.assoc)
  then show ?thesis by (simp add: nd_upd_def)
qed

theorem opcua_write_uninitialised_witness:
  "\<exists>m s'. opcua_service left_demo 673 1 m 0 opcua_demo net_demo =
      Some (type_id_bytes 676 @ resp_header OPCUA_STATUS_GOOD net_demo @ write_u32 1 @ write_u32 OPCUA_STATUS_GOOD @ write_u32 0, s') \<and>
    nd_value (os_node s' 2000) = \<lparr>va_type = OPCUA_TYPE_INT32, va_value = V_indeterminate\<rparr>"
proof -
  let ?nb = "write_u8 1 @ write_u8 2 @ write_u16 1001" and ?m = "\<lambda>_. None :: u8 option"
  have n: "opcua_encode_nodeid ?m (numeric_id 2 1001) = Some ?nb"
    by (simp add: opcua_encode_nodeid_def numeric_id_def OPCUA_NODEID_NUMERIC_def)
  have f: "space_find opcua_demo tree_demo (numeric_id 2 1001) = Some 2000" unfolding opcua_demo_find by simp
  have at: "bytes_at (list_reader 24 bs) (0 + 24) bs" for bs using bytes_at_list_reader[of 24 bs] by simp
  show ?thesis
    using opcua_write_uninitialised[OF n at _ opcua_demo_ok f, where attr = 13 and enc = 0 and left = left_demo and ch = 1 and w = net_demo] by (auto simp: left_demo_def opcua_demo_def)
qed

text \<open>When all session slots are taken, a CreateSession request is still answered Good with a session id, although no session is stored; every further client is given that same id.\<close>

theorem opcua_session_full:
  assumes "CONFIG_OPCUA_MAX_SESSIONS \<le> unat (os_session_count s)"
  shows "\<exists>rest. opcua_service left 461 ch m data s w =
    Some (type_id_bytes 464 @ resp_header OPCUA_STATUS_GOOD w @
      write_u8 2 @ write_u16 1 @ write_u32 (os_session_count s + 1) @ rest, s)"
  using assms by (simp add: opcua_service_def svc_create_session_def Let_def)

theorem opcua_session_full_witness:
  "\<exists>rest. opcua_service left_demo 461 1 (\<lambda>_. None) 0 opcua_demo net_demo =
    Some (type_id_bytes 464 @ resp_header OPCUA_STATUS_GOOD net_demo @ write_u8 2 @ write_u16 1 @ write_u32 9 @ rest, opcua_demo)"
proof -
  have c: "os_session_count opcua_demo = 8" by (simp add: opcua_demo_def)
  then have "CONFIG_OPCUA_MAX_SESSIONS \<le> unat (os_session_count opcua_demo)"
    by (simp add: CONFIG_OPCUA_MAX_SESSIONS_def)
  from opcua_session_full[OF this, of left_demo 1 "\<lambda>_. None" 0 net_demo] c show ?thesis by simp
qed

text \<open>C38: Reading a string variable of 966 bytes or more runs over the end of the 1024-byte response array on the stack: the response is built without any check of its length, so handling the request is a memory error.\<close>

theorem opcua_read_overflow:
  assumes "zb_wf (nb_get q w)" and "opcua_encode_nodeid m0 (numeric_id ns u) = Some nb"
    and "zb_payload q (n_pool w) = hd8 @
      (write_u32 ch @ write_u32 tok @ write_u32 sq @ write_u32 rid @ write_u8 e @ write_u8 x @ write_u16 631) @ rh @
      (write_u64 age @ write_u32 stamps @ write_u32 1 @ item_head nb attr) @ rest"
    and "length hd8 = 8" and "length rh = 24"
    and "space_ok s ts" and "space_find s ts (numeric_id ns u) = Some a" and "os_on_read s = None"
    and "nd_value (os_node s a) = \<lparr>va_type = OPCUA_TYPE_STRING, va_value = V_string (Some p) n\<rparr>"
    and "cstr (mem_reader w) p = Some str" and "966 \<le> length str" and "length str < 2 ^ 32"
  shows "opcua_handle_service left q s w = None"
proof -
  let ?h = "write_u32 ch @ write_u32 tok @ write_u32 sq @ write_u32 rid @ write_u8 e @ write_u8 x @ write_u16 631"
  let ?i = "write_u64 age @ write_u32 stamps @ write_u32 1 @ item_head nb attr"
  have "bytes_at (req_reader q w) (zb_data (nb_get q w) + 8) ?h"
    using payload_reader[OF assms(1), of hd8 ?h "rh @ ?i @ rest"] assms(3,4) by simp
  moreover have "bytes_at (req_reader q w) (zb_data (nb_get q w) + 52) ?i"
    using payload_reader[OF assms(1), of "hd8 @ ?h @ rh" ?i rest] assms(3-5) by simp
  ultimately show ?thesis by (rule opcua_read_string_long_aux[OF assms(2) _ _ assms(6-12)])
qed

text \<open>A request to read the node 2000 of the demonstration server, which now holds a string of 1000 letters.\<close>

definition opcua_read_request :: "u8 list" where
  "opcua_read_request = replicate 8 0 @
     (write_u32 1 @ write_u32 1 @ write_u32 1 @ write_u32 1 @ write_u8 1 @ write_u8 0 @ write_u16 631) @ replicate 24 0 @
     (write_u64 0 @ write_u32 0 @ write_u32 1 @ item_head (write_u8 1 @ write_u8 2 @ write_u16 1001) 13) @ replicate 20 0"

theorem opcua_read_overflow_witness:
  "opcua_handle_service left_demo 0 (nd_upd 2000 (nd_value_update (\<lambda>_. \<lparr>va_type = OPCUA_TYPE_STRING, va_value = V_string (Some 5000) 1000\<rparr>)) opcua_demo)
     (net_demo\<lparr>n_pool := zpool_blank\<lparr>zp_buf := (\<lambda>_. zbuf_ex\<lparr>zb_len := 100, zb_tail := 332\<rparr>),
        zp_mem := mem_write 232 opcua_read_request (mem_write 5000 (replicate 1000 65 @ [0]) (\<lambda>_. 0))\<rparr>\<rparr>) = None"
  (is "opcua_handle_service left_demo 0 ?s ?w = None")
proof -
  let ?nb = "write_u8 1 @ write_u8 2 @ write_u16 1001"
  have l: "length opcua_read_request = 100"
    by (simp add: opcua_read_request_def item_head_def)
  have wf: "zb_wf (nb_get 0 ?w)" by (simp add: zb_wf_def zbuf_ex_def zbuf_blank_def config_defs)
  have n: "opcua_encode_nodeid (\<lambda>_. None) (numeric_id 2 1001) = Some ?nb"
    by (simp add: opcua_encode_nodeid_def numeric_id_def OPCUA_NODEID_NUMERIC_def)
  have p: "zb_payload 0 (n_pool ?w) = replicate 8 0 @
     (write_u32 1 @ write_u32 1 @ write_u32 1 @ write_u32 1 @ write_u8 1 @ write_u8 0 @ write_u16 631) @ replicate 24 0 @
     (write_u64 0 @ write_u32 0 @ write_u32 1 @ item_head ?nb 13) @ replicate 20 0"
    using mem_bytes_write[of 232 opcua_read_request "mem_write 5000 (replicate 1000 65 @ [0]) (\<lambda>_. 0)"] l
    by (simp add: zb_payload_def zbuf_ex_def) (simp add: opcua_read_request_def)
  have sp: "space_ok ?s tree_demo" "space_find ?s tree_demo (numeric_id 2 1001) = Some 2000" "os_on_read ?s = None"
    using opcua_demo_ok opcua_demo_find[of "numeric_id 2 1001"]
    by (simp_all add: space_ok_def nd_upd_def tree_demo_def opcua_demo_def node_blank_def)
  have v: "nd_value (os_node ?s 2000) = \<lparr>va_type = OPCUA_TYPE_STRING, va_value = V_string (Some 5000) 1000\<rparr>"
    by (simp add: nd_upd_def)
  have "bytes_at (mem_reader ?w) 5000 (replicate 1000 65 @ [0])"
    using l by (simp add: bytes_at_def mem_reader_def mem_write_def)
  then have str: "cstr (mem_reader ?w) 5000 = Some (replicate 1000 65)"
    by (rule cstr_at) simp
  show ?thesis
    by (rule opcua_read_overflow[OF wf n p _ _ sp v str]) simp_all
qed

end
