(* ===== verification/Profinet.thy ===== *)
theory Profinet
  imports Net_Input
begin

text \<open>
  The PROFINET device of \<open>protocols/profinet/profinet.c\<close>: its slots and their data, the configuration
  protocol DCP, the cyclic frames and the alarms.

  The bytes the data pointers of the subslots lead to are \<open>pd_mem\<close>; nothing traps an access through the null
  pointer, which goes to address 0 of it. A C array of the device is a function on indices: an access to
  the array of relations behind its last entry is a fault (\<open>None\<close>), and that the counts of slots and subslots
  stay inside their arrays is the invariant of \<open>Profinet_Props\<close>. A callback is a code address; \<open>code\<close> says what running the code at an address
  does to the device and the rest of the state, \<open>None\<close> when it does not return. The device's lock is
  kept in the model because the receive path holds it while it calls the application.
\<close>

section \<open>State\<close>

definition CONFIG_PROFINET_CYCLE_TIME :: u32 where "CONFIG_PROFINET_CYCLE_TIME = 1000"
definition CONFIG_PROFINET_MAX_DEVICES :: nat where "CONFIG_PROFINET_MAX_DEVICES = 32"
definition CONFIG_PROFINET_MAX_SLOTS :: nat where "CONFIG_PROFINET_MAX_SLOTS = 16"
definition CONFIG_PROFINET_MAX_SUBSLOTS :: nat where "CONFIG_PROFINET_MAX_SUBSLOTS = 8"

definition PNIO_FRAME_ID_ALARM_HIGH :: u16 where "PNIO_FRAME_ID_ALARM_HIGH = 0xFC01"
definition PNIO_FRAME_ID_ALARM_LOW :: u16 where "PNIO_FRAME_ID_ALARM_LOW = 0xFE01"
definition PNIO_FRAME_ID_DCP :: u16 where "PNIO_FRAME_ID_DCP = 0xFEFC"
definition PNIO_FRAME_ID_DCP_SET :: u16 where "PNIO_FRAME_ID_DCP_SET = 0xFEFF"
definition DCP_SERVICE_SET :: u8 where "DCP_SERVICE_SET = 4"
definition DCP_SERVICE_IDENTIFY :: u8 where "DCP_SERVICE_IDENTIFY = 5"
definition DCP_OPT_IP :: u8 where "DCP_OPT_IP = 1"
definition DCP_OPT_DEVICE :: u8 where "DCP_OPT_DEVICE = 2"
definition DCP_SUBOPT_IP_PARAM :: u8 where "DCP_SUBOPT_IP_PARAM = 2"
definition DCP_SUBOPT_DEV_VENDOR :: u8 where "DCP_SUBOPT_DEV_VENDOR = 1"
definition DCP_SUBOPT_DEV_NAME :: u8 where "DCP_SUBOPT_DEV_NAME = 2"
definition DCP_SUBOPT_DEV_ROLE :: u8 where "DCP_SUBOPT_DEV_ROLE = 4"
definition DCP_SERVICE_TYPE_REQUEST :: u8 where "DCP_SERVICE_TYPE_REQUEST = 0"
definition DCP_SERVICE_TYPE_RESPONSE :: u8 where "DCP_SERVICE_TYPE_RESPONSE = 1"

lemmas pnio_consts =
  PNIO_FRAME_ID_ALARM_HIGH_def PNIO_FRAME_ID_ALARM_LOW_def PNIO_FRAME_ID_DCP_def PNIO_FRAME_ID_DCP_SET_def
  DCP_SERVICE_SET_def DCP_SERVICE_IDENTIFY_def DCP_OPT_IP_def DCP_OPT_DEVICE_def DCP_SUBOPT_IP_PARAM_def
  DCP_SUBOPT_DEV_VENDOR_def DCP_SUBOPT_DEV_NAME_def DCP_SUBOPT_DEV_ROLE_def DCP_SERVICE_TYPE_REQUEST_def
  DCP_SERVICE_TYPE_RESPONSE_def

record pnio_subslot =
  pb_slot_number :: u16
  pb_subslot_number :: u16
  pb_module_ident :: u32
  pb_submodule_ident :: u32
  pb_input_data :: ptr
  pb_input_length :: u16
  pb_output_data :: ptr
  pb_output_length :: u16
  pb_iocs :: u8
  pb_iops :: u8
  pb_plugged :: bool

record pnio_slot =
  ps_slot_number :: u16
  ps_module_ident :: u32
  ps_subslots :: "nat \<Rightarrow> pnio_subslot"
  ps_subslot_count :: u16
  ps_plugged :: bool

record pnio_ar =
  ar_uuid :: "u8 list"
  ar_properties :: u32
  ar_type :: u16
  ar_session_key :: u16
  ar_active :: bool
  ar_input_frame_id :: u16
  ar_output_frame_id :: u16
  ar_send_clock :: u32
  ar_reduction_ratio :: u32
  ar_phase :: u32
  ar_peer_mac :: "u8 list"

text \<open>An alarm; the idents are \<open>None\<close> while they are indeterminate, the data is the array \<open>data\<close> points to.\<close>

record pnio_alarm =
  al_type :: u16
  al_slot :: u16
  al_subslot :: u16
  al_module_ident :: "u32 option"
  al_submodule_ident :: "u32 option"
  al_sequence_number :: u16
  al_specifier :: u8
  al_data :: "u8 list"
  al_data_length :: u16

record 'a pnio_device =
  pd_name :: "nat \<Rightarrow> u8"
  pd_vendor_id :: u16
  pd_device_id :: u16
  pd_device_role :: u8
  pd_instance_high :: u16
  pd_instance_low :: u16
  pd_netif :: addr
  pd_ip_addr :: u32
  pd_netmask :: u32
  pd_gateway :: u32
  pd_slots :: "nat \<Rightarrow> pnio_slot"
  pd_slot_count :: u16
  pd_ar :: "nat \<Rightarrow> pnio_ar"
  pd_ar_count :: u16
  pd_running :: bool
  pd_cycle_time_us :: u32
  pd_cycle_count :: u64
  pd_last_cycle_time :: u64
  pd_tx_buffer :: ptr
  pd_rx_buffer :: ptr
  pd_on_connect :: ptr
  pd_on_disconnect :: ptr
  pd_on_data_received :: ptr
  pd_on_alarm :: ptr
  pd_on_read :: ptr
  pd_on_write :: ptr
  pd_lock :: spinlock
  pd_mem :: "addr \<Rightarrow> u8"
  pd_app :: 'a

type_synonym 'a pnio_code =
  "addr \<Rightarrow> u16 \<Rightarrow> u16 \<Rightarrow> 'a pnio_device \<Rightarrow> net \<Rightarrow> ('a pnio_device \<times> net) option"

section \<open>Initialisation\<close>

text \<open>Writing the characters \<open>bs\<close> and a zero into an array.\<close>

definition set_name :: "u8 list \<Rightarrow> (nat \<Rightarrow> u8) \<Rightarrow> nat \<Rightarrow> u8" where
  "set_name bs f = (\<lambda>i. if i < length bs then bs ! i else if i = length bs then 0 else f i)"

definition pnio_device_init ::
    "addr \<Rightarrow> u8 list \<Rightarrow> u16 \<Rightarrow> u16 \<Rightarrow> net \<Rightarrow> 'a pnio_device \<Rightarrow> status \<times> 'a pnio_device" where
  "pnio_device_init nif name vendor_id device_id w d =
     (STATUS_OK, d\<lparr>pd_name := set_name (take 63 (takeWhile (\<lambda>c. c \<noteq> 0) name)) (pd_name d),
        pd_vendor_id := vendor_id, pd_device_id := device_id, pd_device_role := 1,
        pd_instance_high := 0, pd_instance_low := 1,
        pd_netif := nif, pd_ip_addr := nif_ip (n_nif w nif), pd_netmask := nif_netmask (n_nif w nif),
        pd_gateway := nif_gateway (n_nif w nif),
        pd_slot_count := 0, pd_ar_count := 0, pd_running := False,
        pd_cycle_time_us := CONFIG_PROFINET_CYCLE_TIME, pd_cycle_count := 0, pd_last_cycle_time := 0,
        pd_tx_buffer := None, pd_rx_buffer := None,
        pd_on_connect := None, pd_on_disconnect := None, pd_on_data_received := None, pd_on_alarm := None,
        pd_on_read := None, pd_on_write := None, pd_lock := SPINLOCK_INIT\<rparr>)"

section \<open>Slots\<close>

definition slot_upd :: "nat \<Rightarrow> (pnio_slot \<Rightarrow> pnio_slot) \<Rightarrow> 'a pnio_device \<Rightarrow> 'a pnio_device" where
  "slot_upd i f d = d\<lparr>pd_slots := (pd_slots d)(i := f (pd_slots d i))\<rparr>"

definition sub_upd :: "nat \<Rightarrow> nat \<Rightarrow> (pnio_subslot \<Rightarrow> pnio_subslot) \<Rightarrow> 'a pnio_device \<Rightarrow> 'a pnio_device" where
  "sub_upd i j f d = slot_upd i (\<lambda>s. s\<lparr>ps_subslots := (ps_subslots s)(j := f (ps_subslots s j))\<rparr>) d"

definition pd_sub :: "'a pnio_device \<Rightarrow> nat \<Rightarrow> nat \<Rightarrow> pnio_subslot" where
  "pd_sub d i j = ps_subslots (pd_slots d i) j"

definition pd_lock_take :: "'a pnio_device \<Rightarrow> 'a pnio_device option" where
  "pd_lock_take d = do { l \<leftarrow> spin_lock (pd_lock d); Some (d\<lparr>pd_lock := l\<rparr>) }"

definition pd_lock_give :: "'a pnio_device \<Rightarrow> 'a pnio_device" where
  "pd_lock_give d = d\<lparr>pd_lock := spin_unlock (pd_lock d)\<rparr>"

definition pnio_add_slot :: "u16 \<Rightarrow> u32 \<Rightarrow> 'a pnio_device \<Rightarrow> (status \<times> 'a pnio_device) option" where
  "pnio_add_slot slot_number module_ident d =
     (if unat (pd_slot_count d) \<ge> CONFIG_PROFINET_MAX_SLOTS then Some (STATUS_NO_MEM, d)
      else do {
        d \<leftarrow> pd_lock_take d;
        let i = unat (pd_slot_count d);
        let d = d\<lparr>pd_slot_count := pd_slot_count d + 1\<rparr>;
        let d = slot_upd i (\<lambda>s. s\<lparr>ps_slot_number := slot_number, ps_module_ident := module_ident,
                  ps_subslot_count := 0, ps_plugged := False\<rparr>) d;
        Some (STATUS_OK, pd_lock_give d)
      })"

text \<open>The search for a slot, from \<open>i\<close> on among \<open>n\<close> entries, and for a subslot in a slot.\<close>

fun find_slot :: "'a pnio_device \<Rightarrow> u16 \<Rightarrow> nat \<Rightarrow> nat \<Rightarrow> nat option" where
  "find_slot d num i 0 = None"
| "find_slot d num i (Suc n) = (if ps_slot_number (pd_slots d i) = num then Some i else find_slot d num (i + 1) n)"

fun find_subslot :: "pnio_slot \<Rightarrow> u16 \<Rightarrow> nat \<Rightarrow> nat \<Rightarrow> nat option" where
  "find_subslot s num j 0 = None"
| "find_subslot s num j (Suc n) =
     (if pb_subslot_number (ps_subslots s j) = num then Some j else find_subslot s num (j + 1) n)"

text \<open>
  A data area from the heap, filled with zeros. The result of \<open>heap_alloc\<close> is not checked: when there is no
  memory, the zeros go to address 0 and the null pointer is kept with the length.
\<close>

definition area_at :: "ptr \<Rightarrow> addr" where
  "area_at p = (case p of Some a \<Rightarrow> a | None \<Rightarrow> 0)"

definition pnio_data_area :: "u16 \<Rightarrow> (addr \<Rightarrow> u8) \<Rightarrow> heap \<Rightarrow> (ptr \<times> (addr \<Rightarrow> u8) \<times> heap) option" where
  "pnio_data_area len m h =
     (if len > 0 then do {
        (p, h) \<leftarrow> heap_alloc (ucast len) h;
        Some (p, mem_write (area_at p) (replicate (unat len) 0) m, h)
      } else Some (None, m, h))"

definition pnio_add_subslot ::
    "u16 \<Rightarrow> u16 \<Rightarrow> u32 \<Rightarrow> u16 \<Rightarrow> u16 \<Rightarrow> 'a pnio_device \<Rightarrow> net \<Rightarrow> (status \<times> 'a pnio_device \<times> net) option" where
  "pnio_add_subslot slot_number subslot_number submodule_ident input_length output_length d w = do {
     d \<leftarrow> pd_lock_take d;
     case find_slot d slot_number 0 (unat (pd_slot_count d)) of
       None \<Rightarrow> Some (STATUS_ERROR, pd_lock_give d, w)
     | Some i \<Rightarrow>
         if unat (ps_subslot_count (pd_slots d i)) \<ge> CONFIG_PROFINET_MAX_SUBSLOTS
         then Some (STATUS_ERROR, pd_lock_give d, w)
         else do {
           let j = unat (ps_subslot_count (pd_slots d i));
           let d = slot_upd i (\<lambda>s. s\<lparr>ps_subslot_count := ps_subslot_count s + 1\<rparr>) d;
           let d = sub_upd i j (\<lambda>b. b\<lparr>pb_slot_number := slot_number, pb_subslot_number := subslot_number,
                     pb_module_ident := ps_module_ident (pd_slots d i), pb_submodule_ident := submodule_ident,
                     pb_input_length := input_length, pb_output_length := output_length\<rparr>) d;
           (p, m, h) \<leftarrow> pnio_data_area input_length (pd_mem d) (n_heap w);
           (q, m, h) \<leftarrow> pnio_data_area output_length m h;
           let d = sub_upd i j (\<lambda>b. b\<lparr>pb_input_data := p, pb_output_data := q, pb_iocs := 0x80, pb_iops := 0x80,
                     pb_plugged := False\<rparr>) (d\<lparr>pd_mem := m\<rparr>);
           Some (STATUS_OK, pd_lock_give d, w\<lparr>n_heap := h\<rparr>)
         }
   }"

text \<open>The loop of \<open>pnio_plug_submodule\<close>: every slot of that number on the way is marked as plugged.\<close>

fun plug_loop :: "u16 \<Rightarrow> u16 \<Rightarrow> nat \<Rightarrow> nat \<Rightarrow> 'a pnio_device \<Rightarrow> status \<times> 'a pnio_device" where
  "plug_loop slot_num subslot_num i 0 d = (STATUS_ERROR, d)"
| "plug_loop slot_num subslot_num i (Suc n) d =
     (if ps_slot_number (pd_slots d i) = slot_num then
        let d = slot_upd i (ps_plugged_update (\<lambda>_. True)) d in
        case find_subslot (pd_slots d i) subslot_num 0 (unat (ps_subslot_count (pd_slots d i))) of
          Some j \<Rightarrow> (STATUS_OK, sub_upd i j (pb_plugged_update (\<lambda>_. True)) d)
        | None \<Rightarrow> plug_loop slot_num subslot_num (i + 1) n d
      else plug_loop slot_num subslot_num (i + 1) n d)"

definition pnio_plug_submodule :: "u16 \<Rightarrow> u16 \<Rightarrow> 'a pnio_device \<Rightarrow> (status \<times> 'a pnio_device) option" where
  "pnio_plug_submodule slot_num subslot_num d = do {
     d \<leftarrow> pd_lock_take d;
     let (st, d) = plug_loop slot_num subslot_num 0 (unat (pd_slot_count d)) d;
     Some (st, pd_lock_give d)
   }"

text \<open>The two nested loops the other functions search a subslot with.\<close>

fun locate :: "'a pnio_device \<Rightarrow> u16 \<Rightarrow> u16 \<Rightarrow> nat \<Rightarrow> nat \<Rightarrow> (nat \<times> nat) option" where
  "locate d slot_num subslot_num i 0 = None"
| "locate d slot_num subslot_num i (Suc n) =
     (if ps_slot_number (pd_slots d i) = slot_num then
        (case find_subslot (pd_slots d i) subslot_num 0 (unat (ps_subslot_count (pd_slots d i))) of
           Some j \<Rightarrow> Some (i, j)
         | None \<Rightarrow> locate d slot_num subslot_num (i + 1) n)
      else locate d slot_num subslot_num (i + 1) n)"

definition pnio_locate :: "u16 \<Rightarrow> u16 \<Rightarrow> 'a pnio_device \<Rightarrow> (nat \<times> nat) option" where
  "pnio_locate slot_num subslot_num d = locate d slot_num subslot_num 0 (unat (pd_slot_count d))"

definition pnio_pull_submodule :: "u16 \<Rightarrow> u16 \<Rightarrow> 'a pnio_device \<Rightarrow> (status \<times> 'a pnio_device) option" where
  "pnio_pull_submodule slot_num subslot_num d = do {
     d \<leftarrow> pd_lock_take d;
     case pnio_locate slot_num subslot_num d of
       Some (i, j) \<Rightarrow> Some (STATUS_OK, pd_lock_give (sub_upd i j (pb_plugged_update (\<lambda>_. False)) d))
     | None \<Rightarrow> Some (STATUS_ERROR, pd_lock_give d)
   }"

definition pnio_get_input_data :: "u16 \<Rightarrow> u16 \<Rightarrow> 'a pnio_device \<Rightarrow> ptr" where
  "pnio_get_input_data slot_num subslot_num d =
     (case pnio_locate slot_num subslot_num d of Some (i, j) \<Rightarrow> pb_input_data (pd_sub d i j) | None \<Rightarrow> None)"

definition pnio_get_output_data :: "u16 \<Rightarrow> u16 \<Rightarrow> 'a pnio_device \<Rightarrow> ptr" where
  "pnio_get_output_data slot_num subslot_num d =
     (case pnio_locate slot_num subslot_num d of Some (i, j) \<Rightarrow> pb_output_data (pd_sub d i j) | None \<Rightarrow> None)"

definition pnio_set_iops :: "u16 \<Rightarrow> u16 \<Rightarrow> u8 \<Rightarrow> 'a pnio_device \<Rightarrow> 'a pnio_device" where
  "pnio_set_iops slot_num subslot_num iops d =
     (case pnio_locate slot_num subslot_num d of
        Some (i, j) \<Rightarrow> sub_upd i j (pb_iops_update (\<lambda>_. iops)) d
      | None \<Rightarrow> d)"

definition pnio_get_iocs :: "u16 \<Rightarrow> u16 \<Rightarrow> 'a pnio_device \<Rightarrow> u8" where
  "pnio_get_iocs slot_num subslot_num d =
     (case pnio_locate slot_num subslot_num d of Some (i, j) \<Rightarrow> pb_iocs (pd_sub d i j) | None \<Rightarrow> 0)"

end
