(* ===== verification/Profinet_Frames.thy ===== *)
theory Profinet_Frames
  imports Profinet
begin

text \<open>
  The frames of the PROFINET device of \<open>protocols/profinet/profinet.c\<close>: DCP requests and the answer to an
  Identify, cyclic data in both directions, alarms, and start, poll and stop.
\<close>

section \<open>DCP\<close>

text \<open>The array \<open>name_of_station\<close> has 64 characters; the length of its string is found by the zero.\<close>

definition name_char :: "'a pnio_device \<Rightarrow> nat \<Rightarrow> u8 option" where
  "name_char d i = (if i < 64 then Some (pd_name d i) else None)"

fun name_length :: "(nat \<Rightarrow> u8) \<Rightarrow> nat \<Rightarrow> nat \<Rightarrow> nat option" where
  "name_length f i 0 = None"
| "name_length f i (Suc n) = (if f i = 0 then Some i else name_length f (i + 1) n)"

text \<open>
  The comparison of a block's name at \<open>req\<close> with the station's: whether it still matches, and the
  index at which the loop stopped; \<open>n\<close> is what is left of the block.
\<close>

fun dcp_compare :: "'a pnio_device \<Rightarrow> addr \<Rightarrow> addr \<Rightarrow> net \<Rightarrow> nat \<Rightarrow> nat \<Rightarrow> (bool \<times> nat) option" where
  "dcp_compare d zb req w i 0 = Some (True, i)"
| "dcp_compare d zb req w i (Suc n) = do {
     c \<leftarrow> name_char d i;
     if c = 0 then Some (True, i)
     else do {
       r \<leftarrow> nb_ld8 zb (req + int i) w;
       if r \<noteq> c then Some (False, i) else dcp_compare d zb req w (i + 1) n
     }
   }"

definition dcp_name_matches :: "'a pnio_device \<Rightarrow> addr \<Rightarrow> addr \<Rightarrow> nat \<Rightarrow> net \<Rightarrow> bool option" where
  "dcp_name_matches d zb req block_len w = do {
     (m, i) \<leftarrow> dcp_compare d zb req w 0 block_len;
     if i < block_len then do { r \<leftarrow> nb_ld8 zb (req + int i) w; Some (m \<and> r = 0) } else Some m
   }"

text \<open>The head of a block at \<open>offset\<close>, and the 16-bit offset of the block behind it.\<close>

definition dcp_block :: "addr \<Rightarrow> addr \<Rightarrow> u16 \<Rightarrow> net \<Rightarrow> (u8 \<times> u8 \<times> u16) option" where
  "dcp_block zb data offset w = do {
     option \<leftarrow> nb_ld8 zb (data + uint offset) w;
     suboption \<leftarrow> nb_ld8 zb (data + uint offset + 1) w;
     hi \<leftarrow> nb_ld8 zb (data + uint offset + 2) w;
     lo \<leftarrow> nb_ld8 zb (data + uint offset + 3) w;
     Some (option, suboption, push_bit 8 (ucast hi) OR ucast lo)
   }"

definition dcp_next :: "u16 \<Rightarrow> u16 \<Rightarrow> u16" where
  "dcp_next offset block_len =
     (let offset = offset + (4 + block_len) in if block_len AND 1 \<noteq> 0 then offset + 1 else offset)"

text \<open>The body of the loop over the blocks of an Identify request.\<close>

definition dcp_match_block :: "'a pnio_device \<Rightarrow> addr \<Rightarrow> addr \<Rightarrow> net \<Rightarrow> u16 \<Rightarrow> bool \<Rightarrow> (bool \<times> u16) option" where
  "dcp_match_block d zb data w offset match = do {
     (option, suboption, block_len) \<leftarrow> dcp_block zb data offset w;
     match \<leftarrow> (if option = DCP_OPT_DEVICE \<and> suboption = DCP_SUBOPT_DEV_NAME
               then do { m \<leftarrow> dcp_name_matches d zb (data + uint offset + 4) (unat block_len) w; Some (match \<and> m) }
               else Some match);
     Some (match, dcp_next offset block_len)
   }"

partial_function (option) dcp_match ::
    "'a pnio_device \<Rightarrow> addr \<Rightarrow> addr \<Rightarrow> u16 \<Rightarrow> net \<Rightarrow> u16 \<Rightarrow> bool \<Rightarrow> bool option" where
  "dcp_match d zb data data_len w offset match =
     (if offset < data_len then do {
        (match, offset) \<leftarrow> dcp_match_block d zb data w offset match;
        dcp_match d zb data data_len w offset match
      } else Some match)"

text \<open>The bytes of the answer to an Identify; the name has the given length.\<close>

definition be16_bytes :: "u16 \<Rightarrow> u8 list" where "be16_bytes v = [hi8 v, lo8 v]"

definition be32_bytes :: "u32 \<Rightarrow> u8 list" where
  "be32_bytes v = [ucast (drop_bit 24 v), ucast (drop_bit 16 v), ucast (drop_bit 8 v), ucast v]"

definition dcp_identify_bytes :: "'a pnio_device \<Rightarrow> u32 \<Rightarrow> nat \<Rightarrow> u8 list" where
  "dcp_identify_bytes d xid name_len =
     be16_bytes PNIO_FRAME_ID_DCP @ [DCP_SERVICE_IDENTIFY, DCP_SERVICE_TYPE_RESPONSE] @ be32_bytes xid @ [0, 0] @
     be16_bytes (of_nat (4 + name_len + name_len mod 2) + 8 + 18 + 8) @
     [DCP_OPT_DEVICE, DCP_SUBOPT_DEV_NAME] @ be16_bytes (of_nat name_len) @ map (pd_name d) [0..<name_len] @
     (if odd name_len then [0] else []) @
     [DCP_OPT_DEVICE, DCP_SUBOPT_DEV_VENDOR, 0, 4] @ be16_bytes (pd_vendor_id d) @ be16_bytes (pd_device_id d) @
     [DCP_OPT_IP, DCP_SUBOPT_IP_PARAM, 0, 14, 0, 0] @
     be32_bytes (pd_ip_addr d) @ be32_bytes (pd_netmask d) @ be32_bytes (pd_gateway d) @
     [DCP_OPT_DEVICE, DCP_SUBOPT_DEV_ROLE, 0, 4, 0, 0, pd_device_role d, 0]"

definition dcp_identify_reply :: "driver \<Rightarrow> 'a pnio_device \<Rightarrow> u32 \<Rightarrow> net \<Rightarrow> net option" where
  "dcp_identify_reply drv d xid w =
     (case nb_alloc_tx 256 w of
        (None, w) \<Rightarrow> Some w
      | (Some resp, w) \<Rightarrow>
          let (p, w) = nb_op resp (zbuf_put 0) w in do {
            p \<leftarrow> p;
            name_len \<leftarrow> name_length (pd_name d) 0 64;
            let bs = dcp_identify_bytes d xid name_len;
            w \<leftarrow> nb_store resp p bs w;
            let w = nb_upd resp (\<lambda>k. k\<lparr>zb_tail := p + int (length bs),
                      zb_len := of_int (p + int (length bs) - zb_data k)\<rparr>) w;
            (st, w) \<leftarrow> drv (pd_netif d) resp w;
            Some w
          })"

text \<open>The body of the loop over the blocks of a Set request.\<close>

definition ld_be32 :: "addr \<Rightarrow> addr \<Rightarrow> net \<Rightarrow> u32 option" where
  "ld_be32 zb a w = do { v \<leftarrow> nb_ld32 zb a w; Some (ntohl v) }"

definition dcp_set_block :: "addr \<Rightarrow> addr \<Rightarrow> net \<Rightarrow> u16 \<Rightarrow> 'a pnio_device \<Rightarrow> ('a pnio_device \<times> u16) option" where
  "dcp_set_block zb data w offset d = do {
     (option, suboption, block_len) \<leftarrow> dcp_block zb data offset w;
     d \<leftarrow>
       (if option = DCP_OPT_IP \<and> suboption = DCP_SUBOPT_IP_PARAM then do {
          ip \<leftarrow> ld_be32 zb (data + uint offset + 6) w;
          mask \<leftarrow> ld_be32 zb (data + uint offset + 10) w;
          gw \<leftarrow> ld_be32 zb (data + uint offset + 14) w;
          Some (d\<lparr>pd_ip_addr := ip, pd_netmask := mask, pd_gateway := gw\<rparr>)
        } else if option = DCP_OPT_DEVICE \<and> suboption = DCP_SUBOPT_DEV_NAME then do {
          bs \<leftarrow> nb_load zb (data + uint offset + 4) (min (unat block_len) 63) w;
          Some (d\<lparr>pd_name := set_name bs (pd_name d)\<rparr>)
        } else Some d);
     Some (d, dcp_next offset block_len)
   }"

partial_function (option) dcp_set ::
    "addr \<Rightarrow> addr \<Rightarrow> u16 \<Rightarrow> net \<Rightarrow> u16 \<Rightarrow> 'a pnio_device \<Rightarrow> 'a pnio_device option" where
  "dcp_set zb data data_len w offset d =
     (if offset < data_len then do {
        (d, offset) \<leftarrow> dcp_set_block zb data w offset d;
        dcp_set zb data data_len w offset d
      } else Some d)"

definition pnio_dcp_input :: "driver \<Rightarrow> addr \<Rightarrow> 'a pnio_device \<Rightarrow> net \<Rightarrow> ('a pnio_device \<times> net) option" where
  "pnio_dcp_input drv zb d w =
     (if zb_len (nb_get zb w) < 10 then Some (d, nb_free zb w)
      else do {
        let dcp = zb_data (nb_get zb w) + 2;
        service_id \<leftarrow> nb_ld8 zb dcp w;
        service_type \<leftarrow> nb_ld8 zb (dcp + 1) w;
        xid \<leftarrow> ld_be32 zb (dcp + 2) w;
        len \<leftarrow> nb_ld16 zb (dcp + 8) w;
        let data_len = ntohs len;
        let data = dcp + 10;
        if service_id = DCP_SERVICE_IDENTIFY \<and> service_type = DCP_SERVICE_TYPE_REQUEST then do {
          match \<leftarrow> dcp_match d zb data data_len w 0 True;
          w \<leftarrow> (if match then dcp_identify_reply drv d xid w else Some w);
          Some (d, nb_free zb w)
        } else if service_id = DCP_SERVICE_SET \<and> service_type = DCP_SERVICE_TYPE_REQUEST then do {
          d \<leftarrow> dcp_set zb data data_len w 0 d;
          Some (d, nb_free zb w)
        } else Some (d, nb_free zb w)
      })"

section \<open>Receiving cyclic data\<close>

text \<open>The relation of a frame, from \<open>i\<close> on among \<open>n\<close> entries: \<open>None\<close> when the search leaves the array.\<close>

fun find_ar :: "'a pnio_device \<Rightarrow> u16 \<Rightarrow> nat \<Rightarrow> nat \<Rightarrow> nat option option" where
  "find_ar d frame_id i 0 = Some None"
| "find_ar d frame_id i (Suc n) =
     (if i \<ge> CONFIG_PROFINET_MAX_DEVICES then None
      else if ar_active (pd_ar d i) \<and> ar_output_frame_id (pd_ar d i) = frame_id then Some (Some i)
      else find_ar d frame_id (i + 1) n)"

text \<open>One subslot: its output data and the consumer status behind it are taken, the application is told.\<close>

definition rt_in_sub ::
    "'a pnio_code \<Rightarrow> addr \<Rightarrow> addr \<Rightarrow> nat \<Rightarrow> nat \<Rightarrow> u16 \<Rightarrow> 'a pnio_device \<Rightarrow> net \<Rightarrow> (u16 \<times> 'a pnio_device \<times> net) option" where
  "rt_in_sub code zb data i j offset d w =
    (let b = pd_sub d i j in
     if pb_plugged b \<and> pb_output_length b > 0 then do {
       let a = area_at (pb_output_data b);
       bs \<leftarrow> nb_load zb (data + uint offset) (unat (pb_output_length b)) w;
       let d = d\<lparr>pd_mem := mem_write a bs (pd_mem d)\<rparr>;
       let offset = offset + pb_output_length b;
       iocs \<leftarrow> nb_ld8 zb (data + uint offset) w;
       let d = sub_upd i j (pb_iocs_update (\<lambda>_. iocs)) d;
       let offset = offset + 1;
       case pd_on_data_received d of
         None \<Rightarrow> Some (offset, d, w)
       | Some f \<Rightarrow> do {
           (d, w) \<leftarrow> code f (ps_slot_number (pd_slots d i)) (pb_subslot_number (pd_sub d i j)) d w;
           Some (offset, d, w)
         }
     } else Some (offset, d, w))"

text \<open>The loops over the subslots of a slot and over the slots; the counts are read again each time.\<close>

partial_function (option) rt_in_subs ::
    "'a pnio_code \<Rightarrow> addr \<Rightarrow> addr \<Rightarrow> nat \<Rightarrow> nat \<Rightarrow> u16 \<Rightarrow> 'a pnio_device \<Rightarrow> net \<Rightarrow> (u16 \<times> 'a pnio_device \<times> net) option" where
  "rt_in_subs code zb data i j offset d w =
     (if j < unat (ps_subslot_count (pd_slots d i)) then do {
        (offset, d, w) \<leftarrow> rt_in_sub code zb data i j offset d w;
        rt_in_subs code zb data i (j + 1) offset d w
      } else Some (offset, d, w))"

partial_function (option) rt_in_slots ::
    "'a pnio_code \<Rightarrow> addr \<Rightarrow> addr \<Rightarrow> nat \<Rightarrow> u16 \<Rightarrow> 'a pnio_device \<Rightarrow> net \<Rightarrow> (u16 \<times> 'a pnio_device \<times> net) option" where
  "rt_in_slots code zb data i offset d w =
     (if i < unat (pd_slot_count d) then do {
        (offset, d, w) \<leftarrow> rt_in_subs code zb data i 0 offset d w;
        rt_in_slots code zb data (i + 1) offset d w
      } else Some (offset, d, w))"

text \<open>A frame of the application relation, and the choice by the frame id.\<close>

definition rt_in_frame :: "'a pnio_code \<Rightarrow> addr \<Rightarrow> 'a pnio_device \<Rightarrow> net \<Rightarrow> ('a pnio_device \<times> net) option" where
  "rt_in_frame code zb d w = do {
     let w = nb_upd zb (\<lambda>k. k\<lparr>zb_timestamp := ucast (get_system_ticks (n_sched w))\<rparr>) w;
     let data = zb_data (nb_get zb w) + 2;
     d \<leftarrow> pd_lock_take d;
     (offset, d, w) \<leftarrow> rt_in_slots code zb data 0 0 d w;
     let d = pd_lock_give d;
     let w = (case pd_rx_buffer d of Some b \<Rightarrow> nb_free b w | None \<Rightarrow> w);
     Some (d\<lparr>pd_rx_buffer := Some zb, pd_cycle_count := pd_cycle_count d + 1\<rparr>, w)
   }"

definition pnio_rt_input ::
    "'a pnio_code \<Rightarrow> driver \<Rightarrow> addr \<Rightarrow> 'a pnio_device \<Rightarrow> net \<Rightarrow> ('a pnio_device \<times> net) option" where
  "pnio_rt_input code drv zb d w =
     (if zb_len (nb_get zb w) < 2 then Some (d, nb_free zb w)
      else do {
        hi \<leftarrow> nb_ld8 zb (zb_data (nb_get zb w)) w;
        lo \<leftarrow> nb_ld8 zb (zb_data (nb_get zb w) + 1) w;
        let frame_id = be16 hi lo;
        found \<leftarrow> find_ar d frame_id 0 (unat (pd_ar_count d));
        case found of
          None \<Rightarrow>
            if PNIO_FRAME_ID_DCP \<le> frame_id \<and> frame_id \<le> PNIO_FRAME_ID_DCP_SET
            then pnio_dcp_input drv zb d w
            else Some (d, nb_free zb w)
        | Some ar \<Rightarrow> rt_in_frame code zb d w
      })"

section \<open>Sending cyclic data\<close>

definition pnio_subs :: "'a pnio_device \<Rightarrow> pnio_subslot list" where
  "pnio_subs d = concat (map (\<lambda>i. map (pd_sub d i) [0..<unat (ps_subslot_count (pd_slots d i))]) [0..<unat (pd_slot_count d)])"

text \<open>The two loops, over the subslots in the order of the slots: the length and the bytes.\<close>

fun rt_length :: "pnio_subslot list \<Rightarrow> u16 \<Rightarrow> u16" where
  "rt_length [] n = n"
| "rt_length (b # bs) n = rt_length bs (if pb_plugged b then n + (pb_input_length b + 1) else n)"

fun rt_body :: "(addr \<Rightarrow> u8) \<Rightarrow> pnio_subslot list \<Rightarrow> u8 list" where
  "rt_body m [] = []"
| "rt_body m (b # bs) =
     (if pb_plugged b \<and> pb_input_length b > 0
      then mem_bytes m (area_at (pb_input_data b)) (unat (pb_input_length b)) @ [pb_iops b]
      else []) @ rt_body m bs"

text \<open>The Ethernet header in front of the frame; a null pointer from \<open>zbuf_push\<close> is written through.\<close>

definition pnio_eth_push :: "addr \<Rightarrow> u8 list \<Rightarrow> u8 list \<Rightarrow> net \<Rightarrow> net option" where
  "pnio_eth_push zb dst src w =
     (let (eth, w) = nb_op zb (zbuf_push 14) w in do {
        eth \<leftarrow> eth;
        nb_store zb eth (dst @ src @ bytes16 (htons ETH_TYPE_PNIO)) w
      })"

definition pnio_rt_send :: "driver \<Rightarrow> 'a pnio_device \<Rightarrow> net \<Rightarrow> (status \<times> 'a pnio_device \<times> net) option" where
  "pnio_rt_send drv d w =
     (if pd_ar_count d = 0 then Some (STATUS_ERROR, d, w)
      else if \<not> ar_active (pd_ar d 0) then Some (STATUS_ERROR, d, w)
      else
        let ar = pd_ar d 0;
            data_len = rt_length (pnio_subs d) 2 + 4
        in (case nb_alloc_tx (data_len + 14) w of
              (None, w) \<Rightarrow> Some (STATUS_NO_MEM, d, w)
            | (Some zb, w) \<Rightarrow>
                let (p, w) = nb_op zb (zbuf_put data_len) w in do {
                  p \<leftarrow> p;
                  d \<leftarrow> pd_lock_take d;
                  let body = rt_body (pd_mem d) (pnio_subs d);
                  let d = pd_lock_give d;
                  w \<leftarrow> nb_store zb p (be16_bytes (ar_input_frame_id ar) @ body @
                         be16_bytes (ucast (pd_cycle_count d AND 0xFFFF)) @ [0x01 OR 0x04 OR 0x10, 0]) w;
                  w \<leftarrow> pnio_eth_push zb (ar_peer_mac ar) (nif_mac (n_nif w (pd_netif d))) w;
                  (ret, w) \<leftarrow> drv (pd_netif d) zb w;
                  Some (ret, d\<lparr>pd_last_cycle_time := ucast (get_system_ticks (n_sched w)),
                               pd_cycle_count := pd_cycle_count d + 1\<rparr>, w)
                }))"

section \<open>Start, stop, poll\<close>

definition pnio_device_start :: "'a pnio_device \<Rightarrow> status \<times> 'a pnio_device" where
  "pnio_device_start d = (STATUS_OK, d\<lparr>pd_running := True, pd_cycle_count := 0\<rparr>)"

definition pnio_device_stop :: "'a pnio_device \<Rightarrow> net \<Rightarrow> 'a pnio_device \<times> net" where
  "pnio_device_stop d w =
     (let w = (case pd_tx_buffer d of Some b \<Rightarrow> nb_free b w | None \<Rightarrow> w);
          w = (case pd_rx_buffer d of Some b \<Rightarrow> nb_free b w | None \<Rightarrow> w)
      in (d\<lparr>pd_running := False, pd_tx_buffer := None, pd_rx_buffer := None\<rparr>, w))"

fun poll_ars :: "driver \<Rightarrow> nat \<Rightarrow> nat \<Rightarrow> 'a pnio_device \<Rightarrow> net \<Rightarrow> ('a pnio_device \<times> net) option" where
  "poll_ars drv i 0 d w = Some (d, w)"
| "poll_ars drv i (Suc n) d w =
     (if i \<ge> CONFIG_PROFINET_MAX_DEVICES then None
      else if ar_active (pd_ar d i) then do {
        (st, d, w) \<leftarrow> pnio_rt_send drv d w;
        poll_ars drv (i + 1) n d w
      } else poll_ars drv (i + 1) n d w)"

definition pnio_device_poll :: "driver \<Rightarrow> 'a pnio_device \<Rightarrow> net \<Rightarrow> ('a pnio_device \<times> net) option" where
  "pnio_device_poll drv d w =
     (if \<not> pd_running d then Some (d, w)
      else
        let now = get_system_ticks (n_sched w);
            elapsed = (ucast (ucast now - pd_last_cycle_time d) :: u32)
        in if elapsed \<ge> pd_cycle_time_us d div 1000 then poll_ars drv 0 (unat (pd_ar_count d)) d w
           else Some (d, w))"

section \<open>Alarms\<close>

definition pnio_alarm_bytes :: "pnio_alarm \<Rightarrow> u8 list option" where
  "pnio_alarm_bytes al = do {
     module \<leftarrow> al_module_ident al;
     submodule \<leftarrow> al_submodule_ident al;
     data \<leftarrow> (if unat (al_data_length al) \<le> length (al_data al)
              then Some (take (unat (al_data_length al)) (al_data al)) else None);
     Some (be16_bytes (if al_type al AND 0x8000 \<noteq> 0 then PNIO_FRAME_ID_ALARM_HIGH else PNIO_FRAME_ID_ALARM_LOW) @
       [0x04, 0x00] @ be16_bytes (al_slot al) @ be16_bytes (al_subslot al) @
       be32_bytes module @ be32_bytes submodule @ be16_bytes (al_type al) @
       be16_bytes (al_sequence_number al) @ [0, al_specifier al] @ data)
   }"

definition pnio_send_alarm :: "driver \<Rightarrow> pnio_alarm \<Rightarrow> 'a pnio_device \<Rightarrow> net \<Rightarrow> (status \<times> net) option" where
  "pnio_send_alarm drv al d w =
     (if pd_ar_count d = 0 then Some (STATUS_ERROR, w)
      else if \<not> ar_active (pd_ar d 0) then Some (STATUS_ERROR, w)
      else
        let frame_len = 32 + al_data_length al
        in (case nb_alloc_tx (frame_len + 14) w of
              (None, w) \<Rightarrow> Some (STATUS_NO_MEM, w)
            | (Some zb, w) \<Rightarrow>
                let (p, w) = nb_op zb (zbuf_put frame_len) w in do {
                  p \<leftarrow> p;
                  bs \<leftarrow> pnio_alarm_bytes al;
                  w \<leftarrow> nb_store zb p bs w;
                  w \<leftarrow> pnio_eth_push zb (ar_peer_mac (pd_ar d 0)) (nif_mac (n_nif w (pd_netif d))) w;
                  drv (pd_netif d) zb w
                }))"

text \<open>
  The static sequence number is threaded through. The idents come from the first slot of that number
  and stay indeterminate when it, or the subslot in it, is not there.
\<close>

definition pnio_diag_alarm :: "u16 \<Rightarrow> u16 \<Rightarrow> u16 \<Rightarrow> u16 \<Rightarrow> u16 \<Rightarrow> 'a pnio_device \<Rightarrow> pnio_alarm" where
  "pnio_diag_alarm slot subslot channel error_type seq_num d =
     (let s = find_slot d slot 0 (unat (pd_slot_count d))
      in \<lparr>al_type = 1, al_slot = slot, al_subslot = subslot,
          al_module_ident = map_option (\<lambda>i. ps_module_ident (pd_slots d i)) s,
          al_submodule_ident = do {
            i \<leftarrow> s;
            j \<leftarrow> find_subslot (pd_slots d i) subslot 0 (unat (ps_subslot_count (pd_slots d i)));
            Some (pb_submodule_ident (pd_sub d i j))
          },
          al_sequence_number = seq_num, al_specifier = 1,
          al_data = be16_bytes channel @ [0x80, 0] @ be16_bytes error_type @ [0, 0], al_data_length = 8\<rparr>)"

definition pnio_send_diag_alarm ::
    "driver \<Rightarrow> u16 \<Rightarrow> u16 \<Rightarrow> u16 \<Rightarrow> u16 \<Rightarrow> u16 \<Rightarrow> 'a pnio_device \<Rightarrow> net \<Rightarrow> (status \<times> u16 \<times> net) option" where
  "pnio_send_diag_alarm drv slot subslot channel error_type seq_num d w = do {
     (st, w) \<leftarrow> pnio_send_alarm drv (pnio_diag_alarm slot subslot channel error_type seq_num d) d w;
     Some (st, seq_num + 1, w)
   }"

end
