(* ===== verification/Profinet_Props.thy ===== *)
theory Profinet_Props
  imports Profinet_Frames Net_Props Heap_Props "HOL-Library.Sublist"
begin

text \<open>
  Properties of PROFINET: which names an Identify request matches, the loop over DCP blocks that never
  ends, the well-formedness of the device that every operation keeps, new subslots, and the way of the
  cyclic data from one device to another.
\<close>

section \<open>Names in DCP\<close>

text \<open>The station name of a device as a string.\<close>

definition has_name :: "'a pnio_device \<Rightarrow> u8 list \<Rightarrow> bool" where
  "has_name d s \<longleftrightarrow> length s < 64 \<and> 0 \<notin> set s \<and> (\<forall>i < length s. pd_name d i = s ! i) \<and> pd_name d (length s) = 0"

text \<open>The loop of the comparison, on strings.\<close>

fun compare_names :: "u8 list \<Rightarrow> u8 list \<Rightarrow> nat \<Rightarrow> bool \<times> nat" where
  "compare_names (r # rs) (s # ss) i = (if r \<noteq> s then (False, i) else compare_names rs ss (i + 1))"
| "compare_names rs ss i = (True, i)"

lemma compare_names_prefix:
  "0 \<notin> set r \<Longrightarrow> (case compare_names r s i of (m, k) \<Rightarrow>
     i \<le> k \<and> k \<le> i + length r \<and> (m \<and> k = i + length r \<longleftrightarrow> prefix r s) \<and> (\<not> m \<longrightarrow> k < i + length r))"
  by (induction r s i rule: compare_names.induct) (auto split: prod.splits)

lemma dcp_compare_ok:
  assumes "has_name d s" and "\<forall>k < length r. nb_ld8 zb (req + int k) w = Some (r ! k)"
    and "i + n = length r" and "i \<le> length s"
  shows "dcp_compare d zb req w i n = Some (compare_names (drop i r) (drop i s) i)"
  using assms(3,4)
proof (induction n arbitrary: i)
  case 0
  then show ?case by simp
next
  case (Suc n)
  have c: "name_char d i = Some (pd_name d i)" using assms(1) Suc(3) by (simp add: name_char_def has_name_def)
  show ?case
  proof (cases "i = length s")
    case True
    then have "drop i s = []" "pd_name d i = 0" using assms(1) by (simp_all add: has_name_def)
    then show ?thesis using c by (cases "drop i r") simp_all
  next
    case False
    then have i: "i < length s" "i < length r" using Suc by auto
    have "pd_name d i = s ! i" using assms(1) i(1) by (simp add: has_name_def)
    moreover have "s ! i \<noteq> 0" using assms(1) i(1) by (metis has_name_def nth_mem)
    moreover have "drop i r = r ! i # drop (Suc i) r" "drop i s = s ! i # drop (Suc i) s"
      using i by (simp_all add: Cons_nth_drop_Suc)
    ultimately show ?thesis using c assms(2) i Suc by simp
  qed
qed

lemma dcp_name_matches_ok:
  assumes "has_name d s" and "\<forall>k < length r. nb_ld8 zb (req + int k) w = Some (r ! k)" and "0 \<notin> set r"
  shows "dcp_name_matches d zb req (length r) w = Some (prefix r s)"
proof -
  obtain m k where mk: "compare_names r s 0 = (m, k)" by (cases "compare_names r s 0")
  have k: "k \<le> length r" "(m \<and> k = length r) = prefix r s" "\<not> m \<longrightarrow> k < length r"
    using compare_names_prefix[OF assms(3), where s = s and i = 0] mk by auto
  have "dcp_compare d zb req w 0 (length r) = Some (m, k)"
    using dcp_compare_ok[OF assms(1,2), where i = 0 and n = "length r"] mk by simp
  moreover have "r ! k \<noteq> 0" if "k < length r" using that assms(3) by (metis nth_mem)
  ultimately show ?thesis using k assms(2) by (auto simp: dcp_name_matches_def)
qed

section \<open>Blocks that never end\<close>

lemma dcp_next_wraps: "dcp_next offset 0xFFFC = offset"
proof -
  have "(4 :: u16) + 0xFFFC = 0" "(0xFFFC :: u16) AND 1 = 0" by code_simp+
  then show ?thesis by (simp add: dcp_next_def Let_def)
qed

lemma dcp_match_stuck:
  assumes "offset < data_len" and "\<And>m. dcp_match_block d zb data w offset m = Some (m, offset)"
  shows "dcp_match d zb data data_len w offset match = None"
proof (rule ccontr)
  let ?P = "\<lambda>d zb data data_len w offset (match :: bool) (r :: bool). offset < data_len \<longrightarrow>
    (\<forall>m. dcp_match_block d zb data w offset m = Some (m, offset)) \<longrightarrow> False"
  assume "\<not> ?thesis"
  then obtain r where r: "dcp_match d zb data data_len w offset match = Some r" by auto
  have "?P d zb data data_len w offset match r"
  proof (rule dcp_match.raw_induct[where P = ?P, OF _ r], intro impI)
    fix f :: "'a pnio_device \<Rightarrow> addr \<Rightarrow> addr \<Rightarrow> u16 \<Rightarrow> net \<Rightarrow> u16 \<Rightarrow> bool \<Rightarrow> bool option" and d zb data data_len w offset match r
    assume ih: "\<And>d zb data data_len w offset match r. f d zb data data_len w offset match = Some r \<Longrightarrow>
        ?P d zb data data_len w offset match r"
      and eq: "(if offset < data_len then do {
          (match, offset) \<leftarrow> dcp_match_block d zb data w offset match; f d zb data data_len w offset match
        } else Some match) = Some r"
      and st: "offset < data_len" "\<forall>m. dcp_match_block d zb data w offset m = Some (m, offset)"
    then have "f d zb data data_len w offset match = Some r" by simp
    then show False using ih st by blast
  qed
  then show False using assms by blast
qed

lemma dcp_set_stuck:
  assumes "offset < data_len" and "\<And>e :: 'a pnio_device. dcp_set_block zb data w offset e = Some (e, offset)"
  shows "dcp_set zb data data_len w offset (d :: 'a pnio_device) = None"
proof (rule ccontr)
  let ?P = "\<lambda>zb data data_len w offset (d :: 'a pnio_device) (r :: 'a pnio_device). offset < data_len \<longrightarrow>
    (\<forall>e :: 'a pnio_device. dcp_set_block zb data w offset e = Some (e, offset)) \<longrightarrow> False"
  assume "\<not> ?thesis"
  then obtain r where r: "dcp_set zb data data_len w offset d = Some r" by auto
  have "?P zb data data_len w offset d r"
  proof (rule dcp_set.raw_induct[where P = ?P, OF _ r], intro impI)
    fix f :: "addr \<Rightarrow> addr \<Rightarrow> u16 \<Rightarrow> net \<Rightarrow> u16 \<Rightarrow> 'a pnio_device \<Rightarrow> 'a pnio_device option" and zb data data_len w offset d r
    assume ih: "\<And>zb data data_len w offset d r. f zb data data_len w offset d = Some r \<Longrightarrow> ?P zb data data_len w offset d r"
      and eq: "(if offset < data_len then do {
          (d, offset) \<leftarrow> dcp_set_block zb data w offset d; f zb data data_len w offset d
        } else Some d) = Some r"
      and st: "offset < data_len" "\<forall>e :: 'a pnio_device. dcp_set_block zb data w offset e = Some (e, offset)"
    then have "f zb data data_len w offset d = Some r" by simp
    then show False using ih st by blast
  qed
  then show False using assms by blast
qed

lemma pnio_dcp_stuck:
  assumes wf: "zb_wf (nb_get zb w)" and p: "zb_payload zb (n_pool w) =
      [f1, f2, svc, 0] @ xid @ delay @ [lh, ll] @ [opt, sub, 0xFF, 0xFC] @ rest"
    and len: "length xid = 4" "length delay = 2" and svc: "svc = DCP_SERVICE_IDENTIFY \<or> svc = DCP_SERVICE_SET"
    and opt: "opt \<noteq> DCP_OPT_IP" "opt \<noteq> DCP_OPT_DEVICE" and nz: "be16 lh ll \<noteq> 0"
  shows "(\<forall>m. dcp_match_block d zb (zb_data (nb_get zb w) + 12) w 0 m = Some (m, 0)) \<and>
    (\<forall>e :: 'a pnio_device. dcp_set_block zb (zb_data (nb_get zb w) + 12) w 0 e = Some (e, 0)) \<and>
    pnio_dcp_input drv zb (d :: 'a pnio_device) w = None"
proof -
  let ?a = "zb_data (nb_get zb w)"
  let ?p = "[f1, f2, svc, 0] @ xid @ delay @ [lh, ll] @ [opt, sub, 0xFF, 0xFC] @ rest"
  note l8 = ld8_field[OF wf]
  have b: "nb_ld8 zb (?a + 12) w = Some opt" "nb_ld8 zb (?a + 13) w = Some sub"
    "nb_ld8 zb (?a + 14) w = Some 0xFF" "nb_ld8 zb (?a + 15) w = Some 0xFC"
    using l8[of "take 12 ?p" opt "drop 13 ?p" 12] l8[of "take 13 ?p" sub "drop 14 ?p" 13]
      l8[of "take 14 ?p" "0xFF" "drop 15 ?p" 14] l8[of "take 15 ?p" "0xFC" "drop 16 ?p" 15] p len by simp_all
  have h: "nb_ld8 zb (?a + 2) w = Some svc" "nb_ld8 zb (?a + 3) w = Some 0"
    using l8[of "take 2 ?p" svc "drop 3 ?p" 2] l8[of "take 3 ?p" 0 "drop 4 ?p" 3] p len by simp_all
  obtain x where x: "nb_ld32 zb (?a + 4) w = Some x"
    using load_field[OF wf, of "take 4 ?p" xid "drop 8 ?p" 4 4] p len by (simp add: nb_ld32_def)
  have ln: "nb_ld16 zb (?a + 10) w = Some (le16 lh ll)"
    using load_field[OF wf, of "take 10 ?p" "[lh, ll]" "drop 12 ?p" 10 2] p len by (simp add: nb_ld16_def)
  have ntohs: "ntohs (le16 lh ll) = be16 lh ll"
    by (simp add: ntohs_def le16_def htons_be16)
  have "(push_bit 8 (ucast (0xFF :: u8)) OR ucast (0xFC :: u8) :: u16) = 0xFFFC" by code_simp
  then have blk: "dcp_block zb (?a + 12) 0 w = Some (opt, sub, 0xFFFC)"
    using b by (simp add: dcp_block_def add.assoc)
  have m: "dcp_match_block d zb (?a + 12) w 0 m = Some (m, 0)" for m
    using blk opt by (simp add: dcp_match_block_def dcp_next_wraps)
  have s: "dcp_set_block zb (?a + 12) w 0 e = Some (e, 0)" for e :: "'a pnio_device"
    using blk opt by (simp add: dcp_set_block_def dcp_next_wraps)
  have pos: "0 < be16 lh ll" using nz by (simp add: word_neq_0_conv)
  have "\<not> zb_len (nb_get zb w) < 10"
    using payload_len[OF p] len by (simp add: word_less_unat)
  then have "pnio_dcp_input drv zb d w = None"
    using svc h x ln dcp_match_stuck[OF pos m, of True] dcp_set_stuck[OF pos s, of d]
    by (auto simp: pnio_dcp_input_def Let_def ld_be32_def add.assoc ntohs pnio_consts)
  then show ?thesis using m s by blast
qed

section \<open>The device stays well formed\<close>

text \<open>
  The counts of slots, subslots and relations stay within the arrays, and the name ends within its
  array. The lock is free between the operations.
\<close>

definition slot_ok :: "pnio_slot \<Rightarrow> bool" where
  "slot_ok s \<longleftrightarrow> unat (ps_subslot_count s) \<le> CONFIG_PROFINET_MAX_SUBSLOTS"

definition dev_body :: "'a pnio_device \<Rightarrow> bool" where
  "dev_body d \<longleftrightarrow> unat (pd_slot_count d) \<le> CONFIG_PROFINET_MAX_SLOTS \<and> unat (pd_ar_count d) \<le> CONFIG_PROFINET_MAX_DEVICES \<and>
     (\<forall>i < unat (pd_slot_count d). slot_ok (pd_slots d i)) \<and> (\<exists>n < 64. pd_name d n = 0)"

definition dev_wf :: "'a pnio_device \<Rightarrow> bool" where
  "dev_wf d \<longleftrightarrow> dev_body d \<and> sl_lock (pd_lock d) = 0"

lemma unat_inc16: "unat (x :: u16) < 65535 \<Longrightarrow> unat (x + 1) = unat x + 1"
  by (simp add: unat_word_ariths)

lemma pd_lock_take_free: "sl_lock (pd_lock d) = 0 \<Longrightarrow> pd_lock_take d = Some (d\<lparr>pd_lock := (pd_lock d)\<lparr>sl_lock := 1\<rparr>\<rparr>)"
  by (simp add: pd_lock_take_def spin_lock_def)

lemma dev_body_lock [simp]: "dev_body (d\<lparr>pd_lock := l\<rparr>) = dev_body d"
  by (simp add: dev_body_def)

lemma dev_wf_give: "dev_body d \<Longrightarrow> dev_wf (pd_lock_give d)"
  by (simp add: dev_wf_def pd_lock_give_def spin_unlock_def)

lemma dev_body_slot_upd:
  assumes "dev_body d" and "slot_ok (pd_slots d i) \<Longrightarrow> slot_ok (f (pd_slots d i))"
  shows "dev_body (slot_upd i f d)"
  using assms by (auto simp: dev_body_def slot_upd_def)

lemma dev_body_sub_upd: "dev_body d \<Longrightarrow> dev_body (sub_upd i j f d)"
  unfolding sub_upd_def by (rule dev_body_slot_upd) (simp_all add: slot_ok_def)

lemma dev_body_add_slot:
  assumes "dev_body d" and "unat (pd_slot_count d) < CONFIG_PROFINET_MAX_SLOTS"
  shows "dev_body (slot_upd (unat (pd_slot_count d))
    (\<lambda>s. s\<lparr>ps_slot_number := n, ps_module_ident := m, ps_subslot_count := 0, ps_plugged := False\<rparr>)
    (d\<lparr>pd_slot_count := pd_slot_count d + 1\<rparr>))"
proof -
  have "unat (pd_slot_count d + 1) = unat (pd_slot_count d) + 1"
    using assms(2) by (intro unat_inc16) (simp add: CONFIG_PROFINET_MAX_SLOTS_def)
  then show ?thesis using assms
    by (auto simp: dev_body_def slot_upd_def slot_ok_def less_Suc_eq)
qed

lemma pnio_add_slot_wf:
  assumes "pnio_add_slot n m d = Some (st, d')" and "dev_wf d"
  shows "dev_wf d'"
proof (cases "unat (pd_slot_count d) \<ge> CONFIG_PROFINET_MAX_SLOTS")
  case True
  then show ?thesis using assms by (simp add: pnio_add_slot_def)
next
  case False
  let ?l = "d\<lparr>pd_lock := (pd_lock d)\<lparr>sl_lock := 1\<rparr>\<rparr>"
  have "dev_body ?l" "unat (pd_slot_count ?l) < CONFIG_PROFINET_MAX_SLOTS" using assms(2) False by (simp_all add: dev_wf_def)
  from dev_wf_give[OF dev_body_add_slot[OF this, where n = n and m = m]] show ?thesis
    using assms False by (auto simp: pnio_add_slot_def Let_def dev_wf_def pd_lock_take_free)
qed

lemma find_slot_Some: "find_slot d num i n = Some k \<Longrightarrow> i \<le> k \<and> k < i + n \<and> ps_slot_number (pd_slots d k) = num"
  by (induction d num i n rule: find_slot.induct) (auto split: if_splits)

lemma find_subslot_Some: "find_subslot s num j n = Some k \<Longrightarrow> j \<le> k \<and> k < j + n \<and> pb_subslot_number (ps_subslots s k) = num"
  by (induction s num j n rule: find_subslot.induct) (auto split: if_splits)

lemma pnio_add_subslot_wf:
  assumes "pnio_add_subslot sn bn ident il ol d w = Some (st, d', w')" and "dev_wf d"
  shows "dev_wf d'"
proof -
  define l where "l = d\<lparr>pd_lock := (pd_lock d)\<lparr>sl_lock := 1\<rparr>\<rparr>"
  have l: "pd_lock_take d = Some l" "dev_body l" using assms(2) by (simp_all add: dev_wf_def l_def pd_lock_take_free)
  show ?thesis
  proof (cases "find_slot l sn 0 (unat (pd_slot_count l))")
    case None
    then show ?thesis using assms(1) l by (auto simp: pnio_add_subslot_def intro: dev_wf_give)
  next
    case (Some i)
    let ?j = "unat (ps_subslot_count (pd_slots l i))"
    have i: "i < unat (pd_slot_count l)" using find_slot_Some[OF Some] by simp
    show ?thesis
    proof (cases "?j \<ge> CONFIG_PROFINET_MAX_SUBSLOTS")
      case True
      then show ?thesis using assms(1) l Some by (auto simp: pnio_add_subslot_def intro: dev_wf_give)
    next
      case False
      then have "unat (ps_subslot_count (pd_slots l i) + 1) = ?j + 1"
        by (intro unat_inc16) (simp add: CONFIG_PROFINET_MAX_SUBSLOTS_def)
      then have ok: "slot_ok ((pd_slots l i)\<lparr>ps_subslot_count := ps_subslot_count (pd_slots l i) + 1,
          ps_subslots := (ps_subslots (pd_slots l i))(?j := b)\<rparr>)" for b
        using l(2) i False by (auto simp: dev_body_def slot_ok_def less_Suc_eq)
      let ?f = "\<lambda>b. b\<lparr>pb_slot_number := sn, pb_subslot_number := bn, pb_module_ident := ps_module_ident (pd_slots l i),
        pb_submodule_ident := ident, pb_input_length := il, pb_output_length := ol\<rparr>"
      obtain p m h q m' h' where pq: "pnio_data_area il (pd_mem l) (n_heap w) = Some (p, m, h)"
        "pnio_data_area ol m h = Some (q, m', h')" and
        d': "d' = pd_lock_give (sub_upd i ?j (\<lambda>b. b\<lparr>pb_input_data := p, pb_output_data := q, pb_iocs := 0x80,
          pb_iops := 0x80, pb_plugged := False\<rparr>) ((sub_upd i ?j ?f (slot_upd i (\<lambda>s. s\<lparr>ps_subslot_count :=
            ps_subslot_count s + 1\<rparr>) l))\<lparr>pd_mem := m'\<rparr>))"
        using assms(1) l(1) Some False
        by (auto simp: pnio_add_subslot_def Let_def bind_eq_Some_conv sub_upd_def slot_upd_def)
      let ?b = "(?f (ps_subslots (pd_slots l i) ?j))\<lparr>pb_input_data := p, pb_output_data := q, pb_iocs := 0x80,
          pb_iops := 0x80, pb_plugged := False\<rparr>"
      from ok[of ?b] l(2) show ?thesis unfolding d'
        by (intro dev_wf_give) (auto simp: dev_body_def sub_upd_def slot_upd_def)
    qed
  qed
qed

lemma plug_loop_body: "dev_body d \<Longrightarrow> dev_body (snd (plug_loop sn bn i n d))"
proof (induction sn bn i n d rule: plug_loop.induct)
  case (2 sn bn i n d)
  have "dev_body (slot_upd i (ps_plugged_update (\<lambda>_. True)) d)"
    using 2(3) by (rule dev_body_slot_upd) (simp add: slot_ok_def)
  moreover from this have "dev_body (sub_upd i j (pb_plugged_update (\<lambda>_. True)) (slot_upd i (ps_plugged_update (\<lambda>_. True)) d))" for j
    by (rule dev_body_sub_upd)
  ultimately show ?case using 2 by (auto simp: Let_def split: option.split)
qed simp

lemma pnio_plug_wf: "pnio_plug_submodule sn bn d = Some (st, d') \<Longrightarrow> dev_wf d \<Longrightarrow> dev_wf d'"
  using plug_loop_body[of "d\<lparr>pd_lock := (pd_lock d)\<lparr>sl_lock := 1\<rparr>\<rparr>" sn bn 0 "unat (pd_slot_count d)"]
  by (auto simp: pnio_plug_submodule_def dev_wf_def[of d] pd_lock_take_free intro: dev_wf_give split: prod.splits)

lemma pnio_pull_wf: "pnio_pull_submodule sn bn d = Some (st, d') \<Longrightarrow> dev_wf d \<Longrightarrow> dev_wf d'"
proof -
  assume a: "pnio_pull_submodule sn bn d = Some (st, d')" "dev_wf d"
  let ?l = "d\<lparr>pd_lock := (pd_lock d)\<lparr>sl_lock := 1\<rparr>\<rparr>"
  have "dev_body ?l" using a(2) by (simp add: dev_wf_def)
  then have "dev_wf (pd_lock_give ?l)" "dev_wf (pd_lock_give (sub_upd i j (pb_plugged_update (\<lambda>_. False)) ?l))" for i j
    by (auto intro!: dev_wf_give dev_body_sub_upd)
  then show ?thesis using a by (auto simp: pnio_pull_submodule_def dev_wf_def[of d] pd_lock_take_free split: option.splits)
qed

lemma pnio_set_iops_wf: "dev_wf d \<Longrightarrow> dev_wf (pnio_set_iops sn bn v d)"
proof -
  assume "dev_wf d"
  then have "dev_body (sub_upd i j (pb_iops_update (\<lambda>_. v)) d)" for i j
    by (auto simp: dev_wf_def intro!: dev_body_sub_upd)
  moreover have "pd_lock (sub_upd i j f d) = pd_lock d" for i j f by (simp add: sub_upd_def slot_upd_def)
  ultimately show ?thesis using \<open>dev_wf d\<close> by (auto simp: pnio_set_iops_def dev_wf_def split: option.split prod.split)
qed

lemma dev_wf_fields [simp]:
  "dev_wf (d\<lparr>pd_ip_addr := a, pd_netmask := b, pd_gateway := c\<rparr>) = dev_wf d"
  "dev_wf (d\<lparr>pd_rx_buffer := p, pd_cycle_count := n\<rparr>) = dev_wf d"
  "dev_wf (d\<lparr>pd_running := r, pd_cycle_count := n\<rparr>) = dev_wf d"
  "dev_wf (d\<lparr>pd_running := r, pd_tx_buffer := p, pd_rx_buffer := p\<rparr>) = dev_wf d"
  "dev_wf (d\<lparr>pd_last_cycle_time := t, pd_cycle_count := n\<rparr>) = dev_wf d"
  by (simp_all add: dev_wf_def dev_body_def)

lemma dev_wf_set_name: "length bs \<le> 63 \<Longrightarrow> dev_wf d \<Longrightarrow> dev_wf (d\<lparr>pd_name := set_name bs (pd_name d)\<rparr>)"
  by (auto simp: dev_wf_def dev_body_def set_name_def intro!: exI[of _ "length bs"])

lemma dcp_set_block_wf: "dcp_set_block zb data w off d = Some (d', off') \<Longrightarrow> dev_wf d \<Longrightarrow> dev_wf d'"
  by (auto simp: dcp_set_block_def bind_eq_Some_conv nb_load_def zb_load_def intro!: dev_wf_set_name split: if_splits)

lemma dcp_set_wf:
  assumes "dcp_set zb data len w off d = Some d'" and "dev_wf d"
  shows "dev_wf d'"
proof -
  have "dev_wf d \<longrightarrow> dev_wf d'"
    by (rule dcp_set.raw_induct[where P = "\<lambda>zb data len w off d d'. dev_wf d \<longrightarrow> dev_wf d'", OF _ assms(1)])
      (auto simp: bind_eq_Some_conv split: if_splits dest: dcp_set_block_wf)
  then show ?thesis using assms(2) by blast
qed

lemma pnio_dcp_input_wf: "pnio_dcp_input drv zb d w = Some (d', w') \<Longrightarrow> dev_wf d \<Longrightarrow> dev_wf d'"
  by (auto simp: pnio_dcp_input_def Let_def bind_eq_Some_conv split: if_splits dest: dcp_set_wf)

text \<open>The application's callback may do what it wants with the device as long as it stays well formed.\<close>

definition code_ok :: "'a pnio_code \<Rightarrow> bool" where
  "code_ok code \<longleftrightarrow> (\<forall>f a b d w d' w'. code f a b d w = Some (d', w') \<longrightarrow> dev_body d \<longrightarrow> dev_body d')"

lemma rt_in_sub_body:
  assumes "rt_in_sub code zb data i j off d w = Some (off', d', w')" and "code_ok code" and "dev_body d"
  shows "dev_body d'"
proof -
  have m: "dev_body (d\<lparr>pd_mem := m\<rparr>)" for m using assms(3) by (simp add: dev_body_def)
  have s: "dev_body (sub_upd i j (pb_iocs_update (\<lambda>_. v)) (d\<lparr>pd_mem := m\<rparr>))" for v m
    using m by (rule dev_body_sub_upd)
  show ?thesis
    using assms(1,3) s assms(2)[unfolded code_ok_def, rule_format, OF _ s]
    by (auto simp: rt_in_sub_def Let_def bind_eq_Some_conv split: if_splits option.splits)
qed

lemma rt_in_subs_body:
  assumes "rt_in_subs code zb data i j off d w = Some (off', d', w')" and "code_ok code" and "dev_body d"
  shows "dev_body d'"
proof -
  have "code_ok code \<longrightarrow> dev_body d \<longrightarrow> dev_body (fst (snd (off', d', w')))"
    by (rule rt_in_subs.raw_induct[where P = "\<lambda>code zb data i j off d w y. code_ok code \<longrightarrow> dev_body d \<longrightarrow>
        dev_body (fst (snd y))", OF _ assms(1)])
      (fastforce simp: bind_eq_Some_conv split: if_splits dest: rt_in_sub_body)
  then show ?thesis using assms(2,3) by simp
qed

lemma rt_in_slots_body:
  assumes "rt_in_slots code zb data i off d w = Some (off', d', w')" and "code_ok code" and "dev_body d"
  shows "dev_body d'"
proof -
  have "code_ok code \<longrightarrow> dev_body d \<longrightarrow> dev_body (fst (snd (off', d', w')))"
    by (rule rt_in_slots.raw_induct[where P = "\<lambda>code zb data i off d w y. code_ok code \<longrightarrow> dev_body d \<longrightarrow>
        dev_body (fst (snd y))", OF _ assms(1)])
      (fastforce simp: bind_eq_Some_conv split: if_splits dest: rt_in_subs_body)
  then show ?thesis using assms(2,3) by simp
qed

lemma rt_in_frame_wf:
  assumes "rt_in_frame code zb d w = Some (d', w')" and "code_ok code" and "dev_wf d"
  shows "dev_wf d'"
proof -
  let ?l = "d\<lparr>pd_lock := (pd_lock d)\<lparr>sl_lock := 1\<rparr>\<rparr>"
  have l: "dev_body ?l" "pd_lock_take d = Some ?l" using assms(3) by (simp_all add: dev_wf_def pd_lock_take_free)
  obtain w1 off d2 w2 b n where r: "rt_in_slots code zb (zb_data (nb_get zb w1) + 2) 0 0 ?l w1 = Some (off, d2, w2)"
    "d' = (pd_lock_give d2)\<lparr>pd_rx_buffer := b, pd_cycle_count := n\<rparr>"
    using assms(1) l(2) by (auto simp: rt_in_frame_def Let_def bind_eq_Some_conv)
  then show ?thesis using dev_wf_give[OF rt_in_slots_body[OF r(1) assms(2) l(1)]] by simp
qed

lemma pnio_rt_input_wf:
  "pnio_rt_input code drv zb d w = Some (d', w') \<Longrightarrow> code_ok code \<Longrightarrow> dev_wf d \<Longrightarrow> dev_wf d'"
  by (auto simp: pnio_rt_input_def Let_def bind_eq_Some_conv split: if_splits option.splits
      dest: pnio_dcp_input_wf rt_in_frame_wf)

lemma pnio_rt_send_wf: "pnio_rt_send drv d w = Some (st, d', w') \<Longrightarrow> dev_wf d \<Longrightarrow> dev_wf d'"
proof -
  assume a: "pnio_rt_send drv d w = Some (st, d', w')" "dev_wf d"
  define l where "l = d\<lparr>pd_lock := (pd_lock d)\<lparr>sl_lock := 1\<rparr>\<rparr>"
  have l: "pd_lock_take d = Some l" "dev_wf (pd_lock_give l)"
    using a(2) by (auto simp: dev_wf_def l_def pd_lock_take_free intro!: dev_wf_give[unfolded dev_wf_def])
  show ?thesis using a l
    by (auto simp: pnio_rt_send_def Let_def bind_eq_Some_conv split: if_splits option.splits prod.splits)
qed

lemma poll_ars_wf: "poll_ars drv i n d w = Some (d', w') \<Longrightarrow> dev_wf d \<Longrightarrow> dev_wf d'"
proof (induction n arbitrary: i d w)
  case (Suc n)
  then show ?case by (auto simp: bind_eq_Some_conv split: if_splits dest: pnio_rt_send_wf)
qed simp

lemma pnio_device_poll_wf: "pnio_device_poll drv d w = Some (d', w') \<Longrightarrow> dev_wf d \<Longrightarrow> dev_wf d'"
  by (auto simp: pnio_device_poll_def Let_def split: if_splits dest: poll_ars_wf)

lemma set_name_end: "set_name bs f (length bs) = 0"
  by (simp add: set_name_def)

lemma pnio_device_init_wf: "dev_wf (snd (pnio_device_init nif name v i w d))"
proof -
  let ?bs = "take 63 (takeWhile (\<lambda>c. c \<noteq> 0) name)"
  have "\<exists>n < 64. set_name ?bs (pd_name d) n = 0" by (intro exI[of _ "length ?bs"] conjI) (simp, rule set_name_end)
  then show ?thesis by (simp add: pnio_device_init_def dev_wf_def dev_body_def SPINLOCK_INIT_def CONFIG_PROFINET_MAX_SLOTS_def)
qed

text \<open>
  Everything that happens to a device after its initialisation, with the rest of the state changing
  freely. The code itself never fills the array of relations: that is left to the application (\<open>connect\<close>),
  which is taken to keep to the array, and which may install the callback for received data.
\<close>

inductive pnio_step :: "'a pnio_code \<Rightarrow> driver \<Rightarrow> 'a pnio_device \<Rightarrow> 'a pnio_device \<Rightarrow> bool" for code drv where
  add_slot: "pnio_add_slot n m d = Some (st, d') \<Longrightarrow> pnio_step code drv d d'"
| add_subslot: "pnio_add_subslot sn bn ident il ol d w = Some (st, d', w') \<Longrightarrow> pnio_step code drv d d'"
| plug: "pnio_plug_submodule sn bn d = Some (st, d') \<Longrightarrow> pnio_step code drv d d'"
| pull: "pnio_pull_submodule sn bn d = Some (st, d') \<Longrightarrow> pnio_step code drv d d'"
| iops: "pnio_step code drv d (pnio_set_iops sn bn v d)"
| rt_input: "pnio_rt_input code drv zb d w = Some (d', w') \<Longrightarrow> pnio_step code drv d d'"
| poll: "pnio_device_poll drv d w = Some (d', w') \<Longrightarrow> pnio_step code drv d d'"
| start: "pnio_step code drv d (snd (pnio_device_start d))"
| stop: "pnio_step code drv d (fst (pnio_device_stop d w))"
| connect: "unat k \<le> CONFIG_PROFINET_MAX_DEVICES \<Longrightarrow> pnio_step code drv d (d\<lparr>pd_ar := ar, pd_ar_count := k, pd_on_data_received := f\<rparr>)"

lemma pnio_step_wf: "pnio_step code drv d d' \<Longrightarrow> code_ok code \<Longrightarrow> dev_wf d \<Longrightarrow> dev_wf d'"
proof (induction rule: pnio_step.induct)
  case (connect d ar k f)
  then show ?case by (simp add: dev_wf_def dev_body_def)
qed (auto dest: pnio_add_slot_wf pnio_add_subslot_wf pnio_plug_wf pnio_pull_wf pnio_rt_input_wf pnio_device_poll_wf
    intro: pnio_set_iops_wf simp: pnio_device_start_def pnio_device_stop_def Let_def)

lemma pnio_run_wf_aux: "(pnio_step code drv)\<^sup>*\<^sup>* d d' \<Longrightarrow> code_ok code \<Longrightarrow> dev_wf d \<Longrightarrow> dev_wf d'"
  by (induction rule: rtranclp_induct) (auto dest: pnio_step_wf)

text \<open>What that is good for: no loop over the device leaves an array, and no operation waits for the lock for ever.\<close>

lemma find_ar_in_array: "i + n \<le> CONFIG_PROFINET_MAX_DEVICES \<Longrightarrow> find_ar d fid i n \<noteq> None"
  by (induction d fid i n rule: find_ar.induct) auto

lemma name_length_in_array: "f k = 0 \<Longrightarrow> i \<le> k \<Longrightarrow> k < i + n \<Longrightarrow> name_length f i n \<noteq> None"
  by (induction f i n rule: name_length.induct) (auto simp: not_less_eq_eq intro: Suc_leI dest: order_le_imp_less_or_eq)

section \<open>Receiving cyclic data\<close>

text \<open>The subslots in the order the loops visit them.\<close>

definition sub_indices :: "'a pnio_device \<Rightarrow> (nat \<times> nat) list" where
  "sub_indices d = concat (map (\<lambda>i. map (Pair i) [0..<unat (ps_subslot_count (pd_slots d i))]) [0..<unat (pd_slot_count d)])"

lemma pnio_subs_indices: "pnio_subs d = map (\<lambda>(i, j). pd_sub d i j) (sub_indices d)"
  by (simp add: pnio_subs_def sub_indices_def map_concat o_def)

lemma distinct_concat_pairs: "distinct is \<Longrightarrow> distinct (concat (map (\<lambda>i. map (Pair i) [0..<f i]) is))"
  by (induction "is") (auto simp: distinct_map inj_on_def)

lemma distinct_sub_indices: "distinct (sub_indices d)"
  unfolding sub_indices_def by (rule distinct_concat_pairs) simp

fun in_list ::
    "'a pnio_code \<Rightarrow> addr \<Rightarrow> addr \<Rightarrow> (nat \<times> nat) list \<Rightarrow> u16 \<Rightarrow> 'a pnio_device \<Rightarrow> net \<Rightarrow> (u16 \<times> 'a pnio_device \<times> net) option" where
  "in_list code zb data [] off d w = Some (off, d, w)"
| "in_list code zb data ((i, j) # ps) off d w = do {
     (off, d, w) \<leftarrow> rt_in_sub code zb data i j off d w;
     in_list code zb data ps off d w
   }"

lemma in_list_append:
  "in_list code zb data (ps @ qs) off d w = do { (off, d, w) \<leftarrow> in_list code zb data ps off d w; in_list code zb data qs off d w }"
proof (induction ps arbitrary: off d w)
  case (Cons p ps)
  obtain i j where "p = (i, j)" by (cases p)
  with Cons show ?case by (cases "rt_in_sub code zb data i j off d w") auto
qed simp

text \<open>What a silent round leaves alone: everything but the data bytes and the consumer status.\<close>

definition same_layout :: "'a pnio_device \<Rightarrow> 'a pnio_device \<Rightarrow> bool" where
  "same_layout d e \<longleftrightarrow> pd_slot_count e = pd_slot_count d \<and> pd_on_data_received e = pd_on_data_received d \<and>
     pd_lock e = pd_lock d \<and> pd_rx_buffer e = pd_rx_buffer d \<and> pd_cycle_count e = pd_cycle_count d \<and>
     (\<forall>i. ps_subslot_count (pd_slots e i) = ps_subslot_count (pd_slots d i)) \<and>
     (\<forall>i j. (pd_sub e i j)\<lparr>pb_iocs := 0\<rparr> = (pd_sub d i j)\<lparr>pb_iocs := 0\<rparr>)"

lemma same_layout_refl [simp]: "same_layout d d"
  by (simp add: same_layout_def)

lemma same_layout_trans: "same_layout d e \<Longrightarrow> same_layout e f \<Longrightarrow> same_layout d f"
  unfolding same_layout_def by simp

lemma iocs_eq_fields:
  assumes "b\<lparr>pb_iocs := 0\<rparr> = c\<lparr>pb_iocs := 0\<rparr>"
  shows "pb_plugged b = pb_plugged c" "pb_output_length b = pb_output_length c" "pb_output_data b = pb_output_data c"
    "pb_input_length b = pb_input_length c"
  using arg_cong[OF assms, of pb_plugged] arg_cong[OF assms, of pb_output_length] arg_cong[OF assms, of pb_output_data]
    arg_cong[OF assms, of pb_input_length] by simp_all

lemma same_layout_sub:
  assumes "same_layout d e"
  shows "pb_plugged (pd_sub e i j) = pb_plugged (pd_sub d i j)" "pb_output_length (pd_sub e i j) = pb_output_length (pd_sub d i j)"
    "pb_output_data (pd_sub e i j) = pb_output_data (pd_sub d i j)"
  using assms iocs_eq_fields[of "pd_sub e i j" "pd_sub d i j"] by (simp_all add: same_layout_def)

lemma same_layout_iocs: "same_layout d (sub_upd i j (pb_iocs_update (\<lambda>_. v)) (d\<lparr>pd_mem := m\<rparr>))"
  by (auto simp: same_layout_def sub_upd_def slot_upd_def pd_sub_def)

lemma rt_in_sub_layout:
  assumes "rt_in_sub code zb data i j off d w = Some (off', d', w')" and "pd_on_data_received d = None"
  shows "same_layout d d'"
proof -
  have "pd_on_data_received (sub_upd i j f (d\<lparr>pd_mem := m\<rparr>)) = None" for f m
    using assms(2) by (simp add: sub_upd_def slot_upd_def)
  then show ?thesis
    using assms same_layout_iocs[of d i j]
    by (auto simp: rt_in_sub_def Let_def bind_eq_Some_conv split: if_splits)
qed

lemma rt_in_subs_list:
  assumes "pd_on_data_received d = None"
  shows "rt_in_subs code zb data i j off d w =
    in_list code zb data (map (Pair i) [j..<unat (ps_subslot_count (pd_slots d i))]) off d w"
  using assms
proof (induction "unat (ps_subslot_count (pd_slots d i)) - j" arbitrary: j off d w)
  case 0
  then show ?case by (subst rt_in_subs.simps) simp
next
  case (Suc n)
  then have j: "j < unat (ps_subslot_count (pd_slots d i))" by linarith
  then have u: "[j..<unat (ps_subslot_count (pd_slots d i))] = j # [j + 1..<unat (ps_subslot_count (pd_slots d i))]"
    by (simp add: upt_conv_Cons)
  show ?case
  proof (cases "rt_in_sub code zb data i j off d w")
    case None
    then show ?thesis using j u by (subst rt_in_subs.simps) simp
  next
    case (Some x)
    obtain off' d' w' where x: "x = (off', d', w')" by (cases x) auto
    have l: "same_layout d d'" using rt_in_sub_layout Some x Suc(3) by blast
    then have d': "ps_subslot_count (pd_slots d' i) = ps_subslot_count (pd_slots d i)" "pd_on_data_received d' = None"
      using Suc(3) by (simp_all add: same_layout_def)
    have "rt_in_subs code zb data i (j + 1) off' d' w' =
        in_list code zb data (map (Pair i) [j + 1..<unat (ps_subslot_count (pd_slots d' i))]) off' d' w'"
      using Suc(2) d' by (intro Suc(1)) auto
    then show ?thesis using j u Some x d' by (subst rt_in_subs.simps) simp
  qed
qed

lemma in_list_layout:
  "in_list code zb data ps off d w = Some (off', d', w') \<Longrightarrow> pd_on_data_received d = None \<Longrightarrow> same_layout d d'"
proof (induction ps arbitrary: off d w)
  case (Cons p ps)
  obtain i j where p: "p = (i, j)" by (cases p)
  then obtain o1 d1 w1 where r: "rt_in_sub code zb data i j off d w = Some (o1, d1, w1)"
    "in_list code zb data ps o1 d1 w1 = Some (off', d', w')" using Cons(2) by (auto simp: bind_eq_Some_conv)
  have l: "same_layout d d1" using rt_in_sub_layout[OF r(1) Cons(3)] .
  then have "pd_on_data_received d1 = None" using Cons(3) by (simp add: same_layout_def)
  then show ?case using Cons(1)[OF r(2)] l same_layout_trans by blast
qed simp

lemma rt_in_slots_list:
  assumes "pd_on_data_received d = None"
  shows "rt_in_slots code zb data i off d w =
    in_list code zb data (concat (map (\<lambda>i. map (Pair i) [0..<unat (ps_subslot_count (pd_slots d i))]) [i..<unat (pd_slot_count d)])) off d w"
  using assms
proof (induction "unat (pd_slot_count d) - i" arbitrary: i off d w)
  case 0
  then show ?case by (subst rt_in_slots.simps) simp
next
  case (Suc n)
  then have i: "i < unat (pd_slot_count d)" by linarith
  then have u: "[i..<unat (pd_slot_count d)] = i # [i + 1..<unat (pd_slot_count d)]" by (simp add: upt_conv_Cons)
  note s = rt_in_subs_list[OF Suc(3), of code zb data i 0 off w]
  show ?case
  proof (cases "in_list code zb data (map (Pair i) [0..<unat (ps_subslot_count (pd_slots d i))]) off d w")
    case None
    then show ?thesis using i u s by (subst rt_in_slots.simps) (simp add: in_list_append)
  next
    case (Some x)
    obtain off' d' w' where x: "x = (off', d', w')" by (cases x) auto
    have l: "same_layout d d'" using in_list_layout Some x Suc(3) by blast
    then have d': "\<And>i. ps_subslot_count (pd_slots d' i) = ps_subslot_count (pd_slots d i)" "pd_on_data_received d' = None"
      "pd_slot_count d' = pd_slot_count d"
      using Suc(3) by (simp_all add: same_layout_def)
    have "rt_in_slots code zb data (i + 1) off' d' w' = in_list code zb data (concat (map (\<lambda>i. map (Pair i)
        [0..<unat (ps_subslot_count (pd_slots d' i))]) [i + 1..<unat (pd_slot_count d')])) off' d' w'"
      using Suc(2) d' by (intro Suc(1)) auto
    then show ?thesis using i u s Some x d' by (subst rt_in_slots.simps) (simp add: in_list_append)
  qed
qed

text \<open>
  A subslot \<open>x\<close> of the sender, whose data lies in \<open>m\<close>, has arrived in the subslot \<open>p\<close> of a device that
  went from \<open>d\<close> to \<open>e\<close>; and a receiver's subslot that mirrors one of the sender.
\<close>

definition arrived :: "'a pnio_device \<Rightarrow> 'a pnio_device \<Rightarrow> (addr \<Rightarrow> u8) \<Rightarrow> nat \<times> nat \<Rightarrow> pnio_subslot \<Rightarrow> bool" where
  "arrived d e m p x \<longleftrightarrow> (pb_plugged x \<and> 0 < pb_input_length x \<longrightarrow>
     mem_bytes (pd_mem e) (area_at (pb_output_data (pd_sub d (fst p) (snd p)))) (unat (pb_input_length x)) =
       mem_bytes m (area_at (pb_input_data x)) (unat (pb_input_length x)) \<and>
     pb_iocs (pd_sub e (fst p) (snd p)) = pb_iops x)"

definition mirrors :: "'a pnio_device \<Rightarrow> nat \<times> nat \<Rightarrow> pnio_subslot \<Rightarrow> bool" where
  "mirrors e p x \<longleftrightarrow> pb_plugged (pd_sub e (fst p) (snd p)) = pb_plugged x \<and>
     pb_output_length (pd_sub e (fst p) (snd p)) = pb_input_length x"

text \<open>The area of a subslot, empty when it has no output data.\<close>

definition out_area :: "'a pnio_device \<Rightarrow> nat \<times> nat \<Rightarrow> addr set" where
  "out_area e p = (let b = pd_sub e (fst p) (snd p) in
     {area_at (pb_output_data b)..<area_at (pb_output_data b) + int (unat (pb_output_length b))})"

definition areas_apart :: "'a pnio_device \<Rightarrow> (nat \<times> nat) list \<Rightarrow> bool" where
  "areas_apart e ps \<longleftrightarrow> (\<forall>p \<in> set ps. \<forall>q \<in> set ps. p \<noteq> q \<longrightarrow> out_area e p \<inter> out_area e q = {})"

lemma out_area_layout: "same_layout d e \<Longrightarrow> out_area e p = out_area d p"
  by (simp add: out_area_def same_layout_sub Let_def)
lemma uint_of_unat: "unat x = n \<Longrightarrow> uint x = int n"
  by auto

text \<open>One active subslot: its bytes and the status behind them are stored.\<close>

lemma rt_in_sub_active:
  assumes wf: "zb_wf (nb_get zb w)" and cb: "pd_on_data_received d = None"
    and p: "zb_payload zb (n_pool w) = (pre @ done) @ (bs @ [v]) @ post" and pre: "length pre = 2" and off: "unat off = length done"
    and b: "pb_plugged (pd_sub d i j)" "0 < pb_output_length (pd_sub d i j)" "area_at (pb_output_data (pd_sub d i j)) = a"
    and bs: "length bs = unat (pb_output_length (pd_sub d i j))"
  shows "\<exists>off'. rt_in_sub code zb (zb_data (nb_get zb w) + 2) i j off d w =
    Some (off', sub_upd i j (pb_iocs_update (\<lambda>_. v)) (d\<lparr>pd_mem := mem_write a bs (pd_mem d)\<rparr>), w) \<and>
    unat off' = length (done @ bs @ [v])"
proof -
  let ?n = "pb_output_length (pd_sub d i j)"
  have "length ((pre @ done) @ (bs @ [v]) @ post) < 65536"
    unfolding payload_len[OF p, symmetric] using unsigned_less[of "zb_len (nb_get zb w)"] by simp
  then have small: "unat off + unat ?n + 1 < 65536" using off bs by simp
  have n: "unat (off + ?n) = unat off + unat ?n" using small by (simp add: unat_word_ariths)
  have n1: "unat (off + ?n + 1) = unat off + unat ?n + 1" using small n by (simp add: unat_word_ariths)
  have i1: "uint off = int (length done)" using uint_of_unat[OF off] .
  have i2: "uint (off + ?n) = int (length done + length bs)" using uint_of_unat[OF n] off bs by simp
  have l1: "nb_load zb (zb_data (nb_get zb w) + 2 + uint off) (unat ?n) w = Some bs" unfolding i1
    using load_field[OF wf, of "pre @ done" bs "v # post" "2 + int (length done)" "unat ?n"] p pre bs by (simp add: add.assoc)
  have l2: "nb_ld8 zb (zb_data (nb_get zb w) + 2 + uint (off + ?n)) w = Some v" unfolding i2
    using ld8_field[OF wf, of "pre @ done @ bs" v post "2 + int (length done + length bs)"] p pre by (simp add: add.assoc)
  have cb': "pd_on_data_received (sub_upd i j f (d\<lparr>pd_mem := m\<rparr>)) = None" for f m
    using cb by (simp add: sub_upd_def slot_upd_def)
  show ?thesis using b l1 l2 n1 cb' off bs by (simp add: rt_in_sub_def Let_def)
qed

lemma in_list_arrives:
  assumes "zb_wf (nb_get zb w)" and "pd_on_data_received d = None"
    and "zb_payload zb (n_pool w) = pre @ done @ body @ post" and "length pre = 2" and "unat off = length done"
    and "rt_body m xs = body" and "list_all2 (mirrors d) ps xs" and "distinct ps" and "areas_apart d ps"
  shows "\<exists>off' d'. in_list code zb (zb_data (nb_get zb w) + 2) ps off d w = Some (off', d', w) \<and>
    list_all2 (arrived d d' m) ps xs \<and> (\<forall>a. (\<forall>p \<in> set ps. a \<notin> out_area d p) \<longrightarrow> pd_mem d' a = pd_mem d a) \<and>
    (\<forall>i j. (i, j) \<notin> set ps \<longrightarrow> pd_sub d' i j = pd_sub d i j)"
  using assms(2-)
proof (induction ps arbitrary: d off "done" body xs)
  case Nil
  then show ?case by simp
next
  case (Cons p ps)
  obtain i j where p: "p = (i, j)" by (cases p)
  obtain x ys where xs: "xs = x # ys" "mirrors d p x" "list_all2 (mirrors d) ps ys"
    using Cons.prems(6) by (cases xs) auto
  have mir: "pb_plugged (pd_sub d i j) = pb_plugged x" "pb_output_length (pd_sub d i j) = pb_input_length x"
    using xs(2) p by (simp_all add: mirrors_def)
  let ?b = "area_at (pb_input_data x)" and ?a = "area_at (pb_output_data (pd_sub d i j))"
  obtain u r where ur: "body = u @ r" "rt_body m ys = r"
    "(if pb_plugged x \<and> pb_input_length x > 0 then mem_bytes m ?b (unat (pb_input_length x)) @ [pb_iops x] else []) = u"
    using Cons.prems(5) xs(1) by (intro that[OF _ refl refl]) simp
  have apart: "areas_apart d ps" using Cons.prems(8) by (auto simp: areas_apart_def)
  show ?case
  proof (cases "pb_plugged x \<and> pb_input_length x > 0")
    case False
    have "rt_in_sub code zb (zb_data (nb_get zb w) + 2) i j off d w = Some (off, d, w)"
      using False mir by (auto simp: rt_in_sub_def Let_def)
    moreover have "body = r" using ur(1,3) False by auto
    ultimately show ?thesis
      using Cons.IH[of d "done" body off ys] Cons.prems ur(2) xs p apart False by (auto simp: arrived_def)
  next
    case True
    then have u: "u = mem_bytes m ?b (unat (pb_input_length x)) @ [pb_iops x]" using ur(3) by simp
    let ?bs = "mem_bytes m ?b (unat (pb_input_length x))"
    define d1 where "d1 = sub_upd i j (pb_iocs_update (\<lambda>_. pb_iops x)) (d\<lparr>pd_mem := mem_write ?a ?bs (pd_mem d)\<rparr>)"
    have pay: "zb_payload zb (n_pool w) = (pre @ done) @ (?bs @ [pb_iops x]) @ (r @ post)"
      using Cons.prems(2) ur(1) u by simp
    obtain off1 where r1: "rt_in_sub code zb (zb_data (nb_get zb w) + 2) i j off d w = Some (off1, d1, w)"
      "unat off1 = length (done @ ?bs @ [pb_iops x])"
      using rt_in_sub_active[OF assms(1) Cons.prems(1) pay Cons.prems(3,4) _ _ refl, of i j code] True mir
      by (auto simp: d1_def)
    have lay: "same_layout d d1" unfolding d1_def by (rule same_layout_iocs)
    have cb1: "pd_on_data_received d1 = None" using lay Cons.prems(1) by (simp add: same_layout_def)
    have pr: "list_all2 (mirrors d1) ps ys" "areas_apart d1 ps"
      using lay Cons.prems(1) xs(3) apart
      by (auto simp: mirrors_def[abs_def] same_layout_sub[OF lay] areas_apart_def out_area_layout[OF lay])
    obtain off' d' where r2: "in_list code zb (zb_data (nb_get zb w) + 2) ps off1 d1 w = Some (off', d', w)"
      "list_all2 (arrived d1 d' m) ps ys" "\<forall>a. (\<forall>p \<in> set ps. a \<notin> out_area d1 p) \<longrightarrow> pd_mem d' a = pd_mem d1 a"
      "\<forall>i j. (i, j) \<notin> set ps \<longrightarrow> pd_sub d' i j = pd_sub d1 i j"
      using Cons.IH[OF cb1 _ Cons.prems(3) r1(2) ur(2) pr(1) _ pr(2)] Cons.prems(7) pay by auto
    have "arrived d1 d' m = arrived d d' m" by (intro ext) (simp add: arrived_def same_layout_sub[OF lay])
    then have arr: "list_all2 (arrived d d' m) ps ys" using r2(2) by simp
    have nij: "(i, j) \<notin> set ps" using Cons.prems(7) p by simp
    have area: "out_area d p = {?a..<?a + int (unat (pb_input_length x))}" using mir p by (simp add: out_area_def Let_def)
    have "pd_mem d' y = pd_mem d1 y" if "y \<in> out_area d p" for y
    proof -
      have "y \<notin> out_area d q" if "q \<in> set ps" for q
        using Cons.prems(8) \<open>y \<in> out_area d p\<close> nij p that by (auto simp: areas_apart_def)
      then show ?thesis using r2(3) out_area_layout[OF lay] by blast
    qed
    then have "mem_bytes (pd_mem d') ?a (unat (pb_input_length x)) = mem_bytes (pd_mem d1) ?a (unat (pb_input_length x))"
      unfolding area by (intro nth_equalityI) (auto simp: int_less_uint)
    moreover have "pd_mem d1 = mem_write ?a ?bs (pd_mem d)" by (simp add: d1_def sub_upd_def slot_upd_def)
    moreover have "pd_sub d' i j = (pd_sub d i j)\<lparr>pb_iocs := pb_iops x\<rparr>"
      using r2(4) nij by (simp add: d1_def sub_upd_def slot_upd_def pd_sub_def)
    ultimately have "arrived d d' m p x"
      using p mem_bytes_write[of ?a ?bs "pd_mem d"] by (simp add: arrived_def)
    moreover have "pd_mem d' y = pd_mem d y" if "\<forall>q \<in> set (p # ps). y \<notin> out_area d q" for y
    proof -
      have "pd_mem d' y = pd_mem d1 y" using r2(3) that out_area_layout[OF lay] by simp
      also have "\<dots> = pd_mem d y" using that area \<open>pd_mem d1 = _\<close> by (auto simp: mem_write_def)
      finally show ?thesis .
    qed
    moreover have "pd_sub d' k l = pd_sub d k l" if "(k, l) \<notin> set (p # ps)" for k l
      using r2(4) that p by (auto simp: d1_def sub_upd_def slot_upd_def pd_sub_def)
    ultimately show ?thesis using r1(1) r2(1) arr xs(1) p by (auto simp: xs(1))
  qed
qed

end
