(* ===== verification/Profinet_Exchange.thy ===== *)
theory Profinet_Exchange
  imports Profinet_Props
begin

text \<open>
  The way of cyclic data from one PROFINET device to another, new subslots, alarms, and what the device
  promises.
\<close>

lemma uint_le_of_unat: "unat x \<le> n \<Longrightarrow> uint x \<le> int n"
  unfolding unat_eq_nat_uint by linarith

section \<open>Sending\<close>

text \<open>A frame of \<open>n\<close> bytes of which \<open>bs\<close> are written, with the Ethernet header pushed in front.\<close>

lemma pnio_frame:
  assumes inv: "zpool_inv (n_pool w) (r # fl)" and k: "uint k \<le> 1920" "uint n \<le> 1920" and bs: "length bs \<le> unat n"
    and mac: "length dst = 6" "length src = 6"
  shows "\<exists>w1 w2 w3 w4 junk. nb_alloc_tx k w = (Some r, w1) \<and> nb_op r (zbuf_put n) w1 = (Some (r + 232), w2) \<and>
    nb_store r (r + 232) bs w2 = Some w3 \<and> w3 = w\<lparr>n_pool := n_pool w3\<rparr> \<and> pnio_eth_push r dst src w3 = Some w4 \<and>
    zb_wf (nb_get r w4) \<and> length junk = unat n - length bs \<and>
    zb_payload r (n_pool w4) = dst @ src @ [0x88, 0x92] @ bs @ junk"
proof -
  from tx_alloc_put_of[OF inv k] obtain z1 z2 where z: "zbuf_alloc_tx k (n_pool w) = (Some r, z1)"
    "zb_op r (zbuf_put n) z1 = (Some (r + 232), z2)" "tx_buf r n fl (n_pool w) z2" by blast
  note t = z(3)[unfolded tx_buf_def]
  have un: "int (unat n) \<le> 1920" using k(2) by simp
  let ?z3 = "z2\<lparr>zp_mem := mem_write (r + 232) bs (zp_mem z2)\<rparr>"
  let ?w3 = "w\<lparr>n_pool := ?z3\<rparr>"
  have "int (length bs) \<le> 1920" using bs un by linarith
  then have st: "zb_store r (r + 232) bs z2 = Some ?z3" using tx_store[OF z(3), of "r + 232" bs] by simp
  define junk where "junk = mem_bytes (zp_mem z2) (r + 232 + int (length bs)) (unat n - length bs)"
  have p3: "zb_payload r (n_pool ?w3) = bs @ junk"
  proof -
    have "zb_payload r ?z3 = mem_bytes (mem_write (r + 232) bs (zp_mem z2)) (r + 232) (length bs + (unat n - length bs))"
      using t bs by (simp add: zb_payload_def)
    also have "\<dots> = bs @ junk" unfolding mem_bytes_add junk_def
      by (simp add: mem_bytes_write mem_bytes_write_apart)
    finally show ?thesis by simp
  qed
  have wf3: "zb_wf (nb_get r ?w3)" using t un by (simp add: zb_wf_def config_defs)
  have room: "uint (14 :: u16) \<le> zb_data (nb_get r ?w3) - zb_head (nb_get r ?w3)" using t by simp
  have type: "bytes16 (htons ETH_TYPE_PNIO) = [0x88, 0x92]" by code_simp
  have len: "length ((dst @ src) @ [0x88, 0x92]) = unat (14 :: u16)" using mac by simp
  obtain w' w4 where e: "nb_op r (zbuf_push 14) ?w3 = (Some (zb_data (nb_get r ?w3) - 14), w')"
    "nb_store r (zb_data (nb_get r ?w3) - 14) ((dst @ src) @ [0x88, 0x92]) w' = Some w4" "zb_wf (nb_get r w4)"
    "zb_payload r (n_pool w4) = ((dst @ src) @ [0x88, 0x92]) @ zb_payload r (n_pool ?w3)"
    using push_header[OF wf3 room len] by auto
  have "pnio_eth_push r dst src ?w3 = Some w4" using e(1,2) by (simp add: pnio_eth_push_def type)
  moreover have "nb_alloc_tx k w = (Some r, w\<lparr>n_pool := z1\<rparr>)" using z(1) by (simp add: nb_alloc_tx_def)
  moreover have "nb_op r (zbuf_put n) (w\<lparr>n_pool := z1\<rparr>) = (Some (r + 232), w\<lparr>n_pool := z2\<rparr>)"
    using z(2) by (simp add: nb_op_def)
  moreover have "nb_store r (r + 232) bs (w\<lparr>n_pool := z2\<rparr>) = Some ?w3" using st by (simp add: nb_store_def)
  ultimately show ?thesis using e(3,4) p3 by (auto simp: junk_def)
qed

text \<open>The length of a cyclic frame: a byte is counted also for a plugged subslot without input.\<close>

definition rt_total :: "pnio_subslot list \<Rightarrow> nat" where
  "rt_total xs = (\<Sum>x \<leftarrow> filter pb_plugged xs. unat (pb_input_length x) + 1)"

definition rt_empty :: "pnio_subslot list \<Rightarrow> nat" where
  "rt_empty xs = length (filter (\<lambda>x. pb_plugged x \<and> pb_input_length x = 0) xs)"

lemma rt_length_total: "rt_length xs n = n + of_nat (rt_total xs)"
  by (induction xs n rule: rt_length.induct) (auto simp: rt_total_def ac_simps)

lemma length_rt_body: "length (rt_body m xs) + rt_empty xs = rt_total xs"
  by (induction m xs rule: rt_body.induct) (auto simp: rt_total_def rt_empty_def word_neq_0_conv)

text \<open>The bytes of a cyclic frame.\<close>

definition rt_frame :: "'a pnio_device \<Rightarrow> u8 list \<Rightarrow> u8 list" where
  "rt_frame d body = be16_bytes (ar_input_frame_id (pd_ar d 0)) @ body @
     be16_bytes (ucast (pd_cycle_count d AND 0xFFFF)) @ [0x15, 0]"

lemma pnio_rt_send_ok:
  assumes inv: "zpool_inv (n_pool w) (r # fl)" and free: "sl_lock (pd_lock d) = 0" and ar: "pd_ar_count d \<noteq> 0" "ar_active (pd_ar d 0)"
    and fit: "rt_total (pnio_subs d) \<le> 1900"
    and mac: "length (ar_peer_mac (pd_ar d 0)) = 6" "length (nif_mac (n_nif w (pd_netif d))) = 6"
  shows "\<exists>w' junk. pnio_rt_send drv d w = do {
      (ret, v) \<leftarrow> drv (pd_netif d) r w';
      Some (ret, d\<lparr>pd_last_cycle_time := ucast (get_system_ticks (n_sched v)), pd_cycle_count := pd_cycle_count d + 1\<rparr>, v)
    } \<and> zb_wf (nb_get r w') \<and> length junk = rt_empty (pnio_subs d) \<and>
    zb_payload r (n_pool w') = ar_peer_mac (pd_ar d 0) @ nif_mac (n_nif w (pd_netif d)) @ [0x88, 0x92] @ rt_frame d (rt_body (pd_mem d) (pnio_subs d)) @ junk"
proof -
  let ?xs = "pnio_subs d" and ?n = "rt_length (pnio_subs d) 2 + 4"
  define body where "body = rt_body (pd_mem d) ?xs"
  have n: "?n = of_nat (rt_total ?xs + 6)" "?n + 14 = of_nat (rt_total ?xs + 20)" by (simp_all add: rt_length_total)
  have "unat ?n = rt_total ?xs + 6" unfolding n(1) using fit by (simp add: unat_of_nat take_bit_nat_eq_self del: of_nat_add)
  moreover have "unat (?n + 14) = rt_total ?xs + 20" unfolding n(2) using fit by (simp add: unat_of_nat take_bit_nat_eq_self del: of_nat_add)
  ultimately have u: "unat ?n = rt_total ?xs + 6" "uint ?n \<le> 1920" "uint (?n + 14) \<le> 1920"
    using fit uint_le_of_unat[of ?n 1920] uint_le_of_unat[of "?n + 14" 1920] by simp_all
  have l: "length (rt_frame d body) + rt_empty ?xs = unat ?n"
    using length_rt_body[of "pd_mem d" ?xs] u(1) by (simp add: rt_frame_def be16_bytes_def body_def)
  from pnio_frame[OF inv u(3,2) _ mac, of "rt_frame d body"] l obtain w1 w2 w3 w4 junk where
    f: "nb_alloc_tx (?n + 14) w = (Some r, w1)" "nb_op r (zbuf_put ?n) w1 = (Some (r + 232), w2)"
    "nb_store r (r + 232) (rt_frame d body) w2 = Some w3" "w3 = w\<lparr>n_pool := n_pool w3\<rparr>"
    "pnio_eth_push r (ar_peer_mac (pd_ar d 0)) (nif_mac (n_nif w (pd_netif d))) w3 = Some w4" "zb_wf (nb_get r w4)"
    "length junk = unat ?n - length (rt_frame d body)"
    "zb_payload r (n_pool w4) = ar_peer_mac (pd_ar d 0) @ nif_mac (n_nif w (pd_netif d)) @ [0x88, 0x92] @ rt_frame d body @ junk"
    by auto
  have w3: "n_nif w3 = n_nif w" by (subst f(4)) simp
  have lock: "pd_lock_take d = Some (d\<lparr>pd_lock := (pd_lock d)\<lparr>sl_lock := 1\<rparr>\<rparr>)" "(pd_lock d)\<lparr>sl_lock := 0\<rparr> = pd_lock d"
    using free by (simp_all add: pd_lock_take_free)
  have subs: "pnio_subs (d\<lparr>pd_lock := l\<rparr>) = pnio_subs d" for l by (simp add: pnio_subs_def pd_sub_def[abs_def])
  have st: "(0x01 OR 0x04 OR 0x10 :: u8) = 0x15" by code_simp
  have "pnio_rt_send drv d w = do {
      (ret, v) \<leftarrow> drv (pd_netif d) r w4;
      Some (ret, d\<lparr>pd_last_cycle_time := ucast (get_system_ticks (n_sched v)), pd_cycle_count := pd_cycle_count d + 1\<rparr>, v)
    }"
    using ar f(1-3,5) lock w3 st
    by (simp add: pnio_rt_send_def Let_def subs rt_frame_def body_def pd_lock_give_def spin_unlock_def)
  then show ?thesis using f(6-8) l by (intro exI[of _ w4] exI[of _ junk]) (auto simp: body_def)
qed

text \<open>The receiver of such a frame.\<close>

lemma pnio_rt_input_ok:
  assumes wf: "zb_wf (nb_get b v)" and p: "zb_payload b (n_pool v) = be16_bytes fid @ body @ post"
    and e: "sl_lock (pd_lock e) = 0" "pd_on_data_received e = None" and ar: "\<exists>k. find_ar e fid 0 (unat (pd_ar_count e)) = Some (Some k)"
    and xs: "rt_body m xs = body" "list_all2 (mirrors e) (sub_indices e) xs" and apart: "areas_apart e (sub_indices e)"
  shows "\<exists>e' v'. pnio_rt_input code drv b e v = Some (e', v') \<and> list_all2 (arrived e e' m) (sub_indices e) xs"
proof -
  let ?a = "zb_data (nb_get b v)"
  let ?v = "nb_upd b (\<lambda>k. k\<lparr>zb_timestamp := ucast (get_system_ticks (n_sched v))\<rparr>) v"
  let ?l = "e\<lparr>pd_lock := (pd_lock e)\<lparr>sl_lock := 1\<rparr>\<rparr>"
  have wf': "zb_wf (nb_get b ?v)" using wf by (simp add: nb_upd_def zb_wf_def)
  have p': "zb_payload b (n_pool ?v) = be16_bytes fid @ [] @ body @ post" using p by (simp add: nb_upd_def zb_payload_def)
  have data: "zb_data (nb_get b ?v) = ?a" by (simp add: nb_upd_def)
  have ix: "sub_indices ?l = sub_indices e" by (simp add: sub_indices_def)
  have sub: "pd_sub ?l i j = pd_sub e i j" for i j by (simp add: pd_sub_def)
  have m2: "list_all2 (mirrors ?l) (sub_indices e) xs" "areas_apart ?l (sub_indices e)"
    using xs(2) apart by (simp_all add: mirrors_def[abs_def] areas_apart_def out_area_def sub)
  have cb: "pd_on_data_received ?l = None" using e(2) by simp
  obtain off d' where r: "in_list code b (?a + 2) (sub_indices e) 0 ?l ?v = Some (off, d', ?v)"
    "list_all2 (arrived ?l d' m) (sub_indices e) xs"
    using in_list_arrives[OF wf' cb p' _ _ xs(1) m2(1) distinct_sub_indices m2(2), of 0 code] data
    by (auto simp: be16_bytes_def)
  have slots: "rt_in_slots code b (?a + 2) 0 0 ?l ?v = Some (off, d', ?v)"
    using r(1) rt_in_slots_list[OF cb, of code b "?a + 2" 0 0 ?v] ix by (simp add: sub_indices_def)
  have lock: "pd_lock_take e = Some ?l" using e(1) by (simp add: pd_lock_take_free)
  define d'' where "d'' = (pd_lock_give d')\<lparr>pd_rx_buffer := Some b, pd_cycle_count := pd_cycle_count d' + 1\<rparr>"
  have fr: "\<exists>v'. rt_in_frame code b e v = Some (d'', v')"
    using slots lock data by (simp add: rt_in_frame_def Let_def d''_def pd_lock_give_def)
  have "arrived e d'' m = arrived ?l d' m"
    by (intro ext) (simp add: arrived_def d''_def pd_lock_give_def pd_sub_def)
  moreover have "nb_ld8 b ?a v = Some (hi8 fid)" "nb_ld8 b (?a + 1) v = Some (lo8 fid)"
    using ld8_field[OF wf, of "[]" "hi8 fid" "lo8 fid # body @ post" 0] ld8_field[OF wf, of "[hi8 fid]" "lo8 fid" "body @ post" 1] p
    by (simp_all add: be16_bytes_def)
  moreover have "\<not> zb_len (nb_get b v) < 2" using payload_len[OF p] by (simp add: word_less_unat be16_bytes_def)
  ultimately show ?thesis using fr ar r(2) by (auto simp: pnio_rt_input_def)
qed

section \<open>Adding a subslot\<close>

lemma locate_from:
  "find_slot d num i n = Some k \<Longrightarrow> locate d num bn i n = locate d num bn k (n - (k - i))"
proof (induction d num i n rule: find_slot.induct)
  case (2 d num i n)
  show ?case
  proof (cases "ps_slot_number (pd_slots d i) = num")
    case True
    then show ?thesis using 2(2) by auto
  next
    case False
    then have f: "find_slot d num (i + 1) n = Some k" using 2(2) by simp
    then have "i + 1 \<le> k" "k < i + 1 + n" using find_slot_Some by blast+
    then have "Suc n - (k - i) = n - (k - (i + 1))" by simp
    then show ?thesis using False 2(1)[OF False f] by simp
  qed
qed simp

lemma find_subslot_new:
  "find_subslot s num j n = None \<Longrightarrow> (\<forall>k. j \<le> k \<and> k < j + n \<longrightarrow> ps_subslots s' k = ps_subslots s k) \<Longrightarrow>
   pb_subslot_number (ps_subslots s' (j + n)) = num \<Longrightarrow> find_subslot s' num j (Suc n) = Some (j + n)"
proof (induction s num j n rule: find_subslot.induct)
  case (2 s num j n)
  then have "pb_subslot_number (ps_subslots s' j) \<noteq> num" "find_subslot s' num (j + 1) (Suc n) = Some (j + 1 + n)"
    by (auto split: if_splits)
  then show ?case by simp
qed simp

lemma pnio_subslot_added_aux:
  assumes wf: "dev_wf d" and slot: "find_slot d sn 0 (unat (pd_slot_count d)) = Some i"
    and room: "unat (ps_subslot_count (pd_slots d i)) < CONFIG_PROFINET_MAX_SUBSLOTS"
    and new: "pnio_locate sn bn d = None" and len: "0 < il" "0 < ol"
    and al: "heap_alloc (ucast il) (n_heap w) = Some (Some a, h1)" "heap_alloc (ucast ol) h1 = Some (Some b, h2)"
    and apart: "a + uint il \<le> b \<or> b + uint ol \<le> a"
  shows "\<exists>d'. pnio_add_subslot sn bn ident il ol d w = Some (STATUS_OK, d', w\<lparr>n_heap := h2\<rparr>) \<and>
    pnio_get_input_data sn bn d' = Some a \<and> pnio_get_output_data sn bn d' = Some b \<and>
    mem_bytes (pd_mem d') a (unat il) = replicate (unat il) 0 \<and> mem_bytes (pd_mem d') b (unat ol) = replicate (unat ol) 0"
proof -
  let ?l = "d\<lparr>pd_lock := (pd_lock d)\<lparr>sl_lock := 1\<rparr>\<rparr>" and ?j = "unat (ps_subslot_count (pd_slots d i))"
  let ?m = "mem_write b (replicate (unat ol) 0) (mem_write a (replicate (unat il) 0) (pd_mem d))"
  define sb where "sb = (ps_subslots (pd_slots d i) ?j)\<lparr>pb_slot_number := sn, pb_subslot_number := bn,
    pb_module_ident := ps_module_ident (pd_slots d i), pb_submodule_ident := ident, pb_input_length := il, pb_output_length := ol,
    pb_input_data := Some a, pb_output_data := Some b, pb_iocs := 0x80, pb_iops := 0x80, pb_plugged := False\<rparr>"
  define s' where "s' = (pd_slots d i)\<lparr>ps_subslot_count := ps_subslot_count (pd_slots d i) + 1,
    ps_subslots := (ps_subslots (pd_slots d i))(?j := sb)\<rparr>"
  define d' where "d' = ?l\<lparr>pd_slots := (pd_slots d)(i := s'), pd_mem := ?m, pd_lock := spin_unlock ((pd_lock d)\<lparr>sl_lock := 1\<rparr>)\<rparr>"
  have fl: "find_slot (d\<lparr>pd_lock := l\<rparr>) num k n = find_slot d num k n" for l num k n
    by (induction n arbitrary: k) auto
  have "pd_lock_take d = Some ?l" using wf by (simp add: dev_wf_def pd_lock_take_free)
  then have add: "pnio_add_subslot sn bn ident il ol d w = Some (STATUS_OK, d', w\<lparr>n_heap := h2\<rparr>)"
    using slot room al len
    by (simp add: pnio_add_subslot_def pnio_data_area_def area_at_def fl Let_def d'_def s'_def sb_def sub_upd_def slot_upd_def
        pd_lock_give_def)
  have i: "i < unat (pd_slot_count d)" "ps_slot_number (pd_slots d i) = sn" using find_slot_Some[OF slot] by auto
  then obtain n where n: "unat (pd_slot_count d) - i = Suc n" by (metis Suc_diff_Suc)
  have "locate d sn bn i (Suc n) = None" using locate_from[OF slot, of bn] new n by (simp add: pnio_locate_def)
  then have old: "find_subslot (pd_slots d i) bn 0 ?j = None" using i(2) by (simp split: option.splits)
  have "find_subslot s' bn 0 (Suc ?j) = Some ?j"
    using find_subslot_new[OF old, of s'] by (simp add: s'_def sb_def)
  moreover have "unat (ps_subslot_count s') = Suc ?j"
    using room by (simp add: s'_def unat_inc16 CONFIG_PROFINET_MAX_SUBSLOTS_def)
  moreover have slots': "pd_slots d' = (pd_slots d)(i := s')" "pd_slot_count d' = pd_slot_count d" by (simp_all add: d'_def)
  moreover have num: "ps_slot_number (pd_slots d' k) = ps_slot_number (pd_slots d k)" for k by (simp add: d'_def s'_def)
  have "find_slot d' sn k n = find_slot d sn k n" for k n by (induction n arbitrary: k) (auto simp: num)
  then have "find_slot d' sn 0 (unat (pd_slot_count d')) = Some i" using slot slots' by simp
  from locate_from[OF this, of bn] have "pnio_locate sn bn d' = locate d' sn bn i (Suc n)"
    using n slots' by (simp add: pnio_locate_def)
  ultimately have "pnio_locate sn bn d' = Some (i, ?j)" using i(2) num[of i] by simp
  moreover have "pd_sub d' i ?j = sb" by (simp add: pd_sub_def slots' s'_def)
  moreover have "mem_bytes ?m b (unat ol) = replicate (unat ol) 0"
    using mem_bytes_write[of b "replicate (unat ol) 0"] by simp
  moreover have "mem_bytes ?m a (unat il) = mem_bytes (mem_write a (replicate (unat il) 0) (pd_mem d)) a (unat il)"
    using apart by (intro mem_bytes_write_apart) simp
  moreover have "\<dots> = replicate (unat il) 0" using mem_bytes_write[of a "replicate (unat il) 0"] by simp
  ultimately show ?thesis using add
    by (intro exI[of _ d']) (simp add: pnio_get_input_data_def pnio_get_output_data_def sb_def d'_def)
qed

section \<open>Alarms\<close>

lemma length_alarm_bytes: "pnio_alarm_bytes al = Some bs \<Longrightarrow> length bs = 22 + unat (al_data_length al)"
  by (auto simp: pnio_alarm_bytes_def bind_eq_Some_conv be16_bytes_def be32_bytes_def split: if_splits)

lemma pnio_send_alarm_ok:
  assumes inv: "zpool_inv (n_pool w) (r # fl)" and ar: "pd_ar_count d \<noteq> 0" "ar_active (pd_ar d 0)"
    and al: "pnio_alarm_bytes al = Some bs" and fit: "unat (al_data_length al) \<le> 1800"
    and mac: "length (ar_peer_mac (pd_ar d 0)) = 6" "length (nif_mac (n_nif w (pd_netif d))) = 6"
  shows "\<exists>w' junk. pnio_send_alarm drv al d w = drv (pd_netif d) r w' \<and> length junk = 10 \<and>
    zb_payload r (n_pool w') = ar_peer_mac (pd_ar d 0) @ nif_mac (n_nif w (pd_netif d)) @ [0x88, 0x92] @ bs @ junk"
proof -
  let ?n = "32 + al_data_length al"
  have "unat ?n = unat (al_data_length al) + 32" "unat (?n + 14) = unat (al_data_length al) + 46"
    using fit by (simp_all add: unat_word_ariths)
  then have u: "unat ?n = unat (al_data_length al) + 32" "uint ?n \<le> 1920" "uint (?n + 14) \<le> 1920"
    using fit uint_le_of_unat[of ?n 1920] uint_le_of_unat[of "?n + 14" 1920] by simp_all
  have l: "length bs + 10 = unat ?n" using length_alarm_bytes[OF al] u(1) by simp
  from pnio_frame[OF inv u(3,2) _ mac, of bs] l obtain w1 w2 w3 w4 junk where
    f: "nb_alloc_tx (?n + 14) w = (Some r, w1)" "nb_op r (zbuf_put ?n) w1 = (Some (r + 232), w2)"
    "nb_store r (r + 232) bs w2 = Some w3" "w3 = w\<lparr>n_pool := n_pool w3\<rparr>"
    "pnio_eth_push r (ar_peer_mac (pd_ar d 0)) (nif_mac (n_nif w (pd_netif d))) w3 = Some w4" "zb_wf (nb_get r w4)"
    "length junk = unat ?n - length bs"
    "zb_payload r (n_pool w4) = ar_peer_mac (pd_ar d 0) @ nif_mac (n_nif w (pd_netif d)) @ [0x88, 0x92] @ bs @ junk"
    by auto
  have w3: "n_nif w3 = n_nif w" by (subst f(4)) simp
  have "pnio_send_alarm drv al d w = drv (pd_netif d) r w4"
    using ar f(1-3,5) al w3 by (simp add: pnio_send_alarm_def Let_def)
  then show ?thesis using f(7,8) l by (intro exI[of _ w4] exI[of _ junk]) auto
qed
section \<open>What the device promises\<close>

text \<open>A device for the witnesses: one slot with one subslot of eight bytes each way, in a running exchange.\<close>

definition sub_demo :: pnio_subslot where
  "sub_demo = \<lparr>pb_slot_number = 1, pb_subslot_number = 1, pb_module_ident = 16, pb_submodule_ident = 1,
     pb_input_data = Some 50000, pb_input_length = 8, pb_output_data = Some 60000, pb_output_length = 8,
     pb_iocs = 0x80, pb_iops = 0x80, pb_plugged = True\<rparr>"

definition pnio_demo :: "unit pnio_device" where
  "pnio_demo = \<lparr>pd_name = set_name [114, 116, 111, 115] (\<lambda>_. 0), pd_vendor_id = 0x1234, pd_device_id = 0x5678,
     pd_device_role = 1, pd_instance_high = 0, pd_instance_low = 1, pd_netif = 8, pd_ip_addr = 0, pd_netmask = 0,
     pd_gateway = 0, pd_slots = (\<lambda>_. \<lparr>ps_slot_number = 1, ps_module_ident = 16, ps_subslots = (\<lambda>_. sub_demo),
       ps_subslot_count = 1, ps_plugged = True\<rparr>), pd_slot_count = 1,
     pd_ar = (\<lambda>_. \<lparr>ar_uuid = [], ar_properties = 0, ar_type = 1, ar_session_key = 1, ar_active = True,
       ar_input_frame_id = 0x8001, ar_output_frame_id = 0x8001, ar_send_clock = 32, ar_reduction_ratio = 1,
       ar_phase = 1, ar_peer_mac = [2, 0, 0, 0, 0, 2]\<rparr>), pd_ar_count = 1, pd_running = True,
     pd_cycle_time_us = 1000, pd_cycle_count = 0, pd_last_cycle_time = 0, pd_tx_buffer = None, pd_rx_buffer = None,
     pd_on_connect = None, pd_on_disconnect = None, pd_on_data_received = None, pd_on_alarm = None, pd_on_read = None,
     pd_on_write = None, pd_lock = SPINLOCK_INIT, pd_mem = (\<lambda>a. of_int a), pd_app = ()\<rparr>"

lemma pnio_demo_wf: "dev_wf pnio_demo"
  by (auto simp: dev_wf_def dev_body_def pnio_demo_def sub_demo_def slot_ok_def SPINLOCK_INIT_def
      CONFIG_PROFINET_MAX_DEVICES_def CONFIG_PROFINET_MAX_SLOTS_def CONFIG_PROFINET_MAX_SUBSLOTS_def set_name_def intro!: exI[of _ 4])

lemma pnio_demo_subs: "pnio_subs pnio_demo = [sub_demo]" "sub_indices pnio_demo = [(0, 0)]"
  by (simp_all add: pnio_subs_def sub_indices_def pnio_demo_def pd_sub_def)

definition pnio_net :: net where "pnio_net = net_demo\<lparr>n_pool := zpool0\<rparr>"

lemma pnio_net_pool: "zpool_inv (n_pool pnio_net) (hd (rev (zbuf_slots 0)) # tl (rev (zbuf_slots 0)))"
  using zpool0_inv rev_zbuf_slots_Cons[of 0] by (simp add: pnio_net_def)

text \<open>C9: The cyclic data arrives: in a device whose lock is free, with an active relation, a frame that fits a buffer and a pool with a free one, pnio_rt_send hands its driver a frame; and any other device with a free lock whose relation has the same frame id, which has no callback for received data (none is set by pnio_device_init), whose subslots mirror the sender's and whose output areas do not overlap, when it gets that frame without its Ethernet header, has in the output data of every subslot exactly the sender's input data, and the sender's provider status as its consumer status.\<close>

theorem pnio_cyclic_roundtrip:
  assumes "zpool_inv (n_pool w) (r # fl)" and "sl_lock (pd_lock (d :: 'a pnio_device)) = 0" and "pd_ar_count d \<noteq> 0" and "ar_active (pd_ar d 0)"
    and "rt_total (pnio_subs d) \<le> 1900"
    and "length (ar_peer_mac (pd_ar d 0)) = 6" and "length (nif_mac (n_nif w (pd_netif d))) = 6"
  shows "\<exists>w'. pnio_rt_send drv d w = do {
      (ret, v) \<leftarrow> drv (pd_netif d) r w';
      Some (ret, d\<lparr>pd_last_cycle_time := ucast (get_system_ticks (n_sched v)), pd_cycle_count := pd_cycle_count d + 1\<rparr>, v)
    } \<and>
    (\<forall>code drv' (e :: 'a pnio_device) b v. zb_wf (nb_get b v) \<and> zb_payload b (n_pool v) = drop 14 (zb_payload r (n_pool w')) \<and>
      sl_lock (pd_lock e) = 0 \<and> pd_on_data_received e = None \<and>
      (\<exists>k. find_ar e (ar_input_frame_id (pd_ar d 0)) 0 (unat (pd_ar_count e)) = Some (Some k)) \<and>
      list_all2 (mirrors e) (sub_indices e) (pnio_subs d) \<and> areas_apart e (sub_indices e) \<longrightarrow>
      (\<exists>e' v'. pnio_rt_input code drv' b e v = Some (e', v') \<and> list_all2 (arrived e e' (pd_mem d)) (sub_indices e) (pnio_subs d)))"
proof -
  let ?body = "rt_body (pd_mem d) (pnio_subs d)"
  obtain w' junk where s: "pnio_rt_send drv d w = do {
      (ret, v) \<leftarrow> drv (pd_netif d) r w';
      Some (ret, d\<lparr>pd_last_cycle_time := ucast (get_system_ticks (n_sched v)), pd_cycle_count := pd_cycle_count d + 1\<rparr>, v)
    }"
    "zb_payload r (n_pool w') = ar_peer_mac (pd_ar d 0) @ nif_mac (n_nif w (pd_netif d)) @ [0x88, 0x92] @ rt_frame d ?body @ junk"
    using pnio_rt_send_ok[OF assms] by blast
  have tl: "drop 14 (zb_payload r (n_pool w')) = be16_bytes (ar_input_frame_id (pd_ar d 0)) @ ?body @
      (be16_bytes (ucast (pd_cycle_count d AND 0xFFFF)) @ [0x15, 0] @ junk)"
    using assms(6,7) by (simp add: s(2) rt_frame_def)
  show ?thesis
  proof (intro exI[of _ w'] conjI allI impI, rule s(1), elim conjE)
    fix code drv' b v and e :: "'a pnio_device"
    assume H: "zb_wf (nb_get b v)" "zb_payload b (n_pool v) = drop 14 (zb_payload r (n_pool w'))" "sl_lock (pd_lock e) = 0"
      "pd_on_data_received e = None" "\<exists>k. find_ar e (ar_input_frame_id (pd_ar d 0)) 0 (unat (pd_ar_count e)) = Some (Some k)"
      "list_all2 (mirrors e) (sub_indices e) (pnio_subs d)" "areas_apart e (sub_indices e)"
    show "\<exists>e' v'. pnio_rt_input code drv' b e v = Some (e', v') \<and> list_all2 (arrived e e' (pd_mem d)) (sub_indices e) (pnio_subs d)"
      by (rule pnio_rt_input_ok[OF H(1) H(2)[unfolded tl] H(3-5) refl H(6,7)])
  qed
qed

theorem pnio_cyclic_roundtrip_witness:
  "\<exists>w'. pnio_rt_send (\<lambda>nif zb w. Some (STATUS_OK, w)) pnio_demo pnio_net = Some (STATUS_OK, pnio_demo\<lparr>pd_last_cycle_time :=
      ucast (get_system_ticks (n_sched w')), pd_cycle_count := 1\<rparr>, w') \<and>
    (\<forall>code drv' b v. zb_wf (nb_get b v) \<and> zb_payload b (n_pool v) = drop 14 (zb_payload (hd (rev (zbuf_slots 0))) (n_pool w')) \<longrightarrow>
      (\<exists>e' v'. pnio_rt_input code drv' b pnio_demo v = Some (e', v') \<and>
        mem_bytes (pd_mem e') 60000 8 = mem_bytes (\<lambda>a. of_int a) 50000 8))"
proof -
  have h: "pd_ar_count pnio_demo \<noteq> 0" "ar_active (pd_ar pnio_demo 0)" "length (ar_peer_mac (pd_ar pnio_demo 0)) = 6"
    "length (nif_mac (n_nif pnio_net (pd_netif pnio_demo))) = 6" "pd_netif pnio_demo = 8" "pd_cycle_count pnio_demo = 0"
    by (simp_all add: pnio_demo_def pnio_net_def net_demo_def nif_demo_def)
  have fit: "rt_total (pnio_subs pnio_demo) \<le> 1900" by (simp add: pnio_demo_subs rt_total_def sub_demo_def)
  have e: "\<exists>k. find_ar pnio_demo (ar_input_frame_id (pd_ar pnio_demo 0)) 0 (unat (pd_ar_count pnio_demo)) = Some (Some k)"
    "list_all2 (mirrors pnio_demo) (sub_indices pnio_demo) (pnio_subs pnio_demo)" "areas_apart pnio_demo (sub_indices pnio_demo)"
    "pd_on_data_received pnio_demo = None" "sl_lock (pd_lock pnio_demo) = 0"
    by (simp_all add: pnio_demo_subs areas_apart_def mirrors_def)
      (simp_all add: pnio_demo_def pd_sub_def sub_demo_def SPINLOCK_INIT_def CONFIG_PROFINET_MAX_DEVICES_def)
  have arr: "mem_bytes (pd_mem e') 60000 8 = mem_bytes (\<lambda>a. of_int a) 50000 8"
    if "list_all2 (arrived pnio_demo e' (pd_mem pnio_demo)) (sub_indices pnio_demo) (pnio_subs pnio_demo)" for e' :: "unit pnio_device"
    using that by (auto simp: pnio_demo_subs arrived_def sub_demo_def) (simp add: pnio_demo_def pd_sub_def sub_demo_def area_at_def)
  obtain w' where w': "pnio_rt_send (\<lambda>nif zb w. Some (STATUS_OK, w)) pnio_demo pnio_net = Some (STATUS_OK, pnio_demo\<lparr>pd_last_cycle_time :=
      ucast (get_system_ticks (n_sched w')), pd_cycle_count := 1\<rparr>, w')"
    "\<forall>code drv' (e :: unit pnio_device) b v. zb_wf (nb_get b v) \<and> zb_payload b (n_pool v) = drop 14 (zb_payload (hd (rev (zbuf_slots 0))) (n_pool w')) \<and>
      sl_lock (pd_lock e) = 0 \<and> pd_on_data_received e = None \<and>
      (\<exists>k. find_ar e (ar_input_frame_id (pd_ar pnio_demo 0)) 0 (unat (pd_ar_count e)) = Some (Some k)) \<and>
      list_all2 (mirrors e) (sub_indices e) (pnio_subs pnio_demo) \<and> areas_apart e (sub_indices e) \<longrightarrow>
      (\<exists>e' v'. pnio_rt_input code drv' b e v = Some (e', v') \<and> list_all2 (arrived e e' (pd_mem pnio_demo)) (sub_indices e) (pnio_subs pnio_demo))"
    using pnio_cyclic_roundtrip[OF pnio_net_pool e(5) h(1,2) fit h(3,4), of "\<lambda>nif zb w. Some (STATUS_OK, w)"] h(6) by auto
  show ?thesis
  proof (intro exI[of _ w'] conjI allI impI, rule w'(1))
    fix code drv' b v
    assume "zb_wf (nb_get b v) \<and> zb_payload b (n_pool v) = drop 14 (zb_payload (hd (rev (zbuf_slots 0))) (n_pool w'))"
    with w'(2) e obtain e' v' where "pnio_rt_input code drv' b pnio_demo v = Some (e', v')"
      "list_all2 (arrived pnio_demo e' (pd_mem pnio_demo)) (sub_indices pnio_demo) (pnio_subs pnio_demo)" by blast
    with arr show "\<exists>e' v'. pnio_rt_input code drv' b pnio_demo v = Some (e', v') \<and>
        mem_bytes (pd_mem e') 60000 8 = mem_bytes (\<lambda>a. of_int a) 50000 8" by blast
  qed
qed
text \<open>A name in an Identify request matches when it is a prefix of the station's name, not only when it is the same name: for a request name without zero bytes, the comparison of the code answers exactly that, so a device also answers requests for shorter names, the empty one included.\<close>

theorem pnio_name_prefix:
  assumes "has_name d s" and "\<forall>k < length r. nb_ld8 zb (req + int k) w = Some (r ! k)" and "0 \<notin> set r"
  shows "dcp_name_matches d zb req (length r) w = Some (prefix r s)"
  using dcp_name_matches_ok[OF assms] .

theorem pnio_name_prefix_witness:
  "dcp_name_matches pnio_demo 0 232 (length [114, 116 :: u8])
     (net_demo\<lparr>n_pool := zpool_blank\<lparr>zp_buf := (\<lambda>_. zbuf_ex), zp_mem := mem_write 232 [114, 116] (\<lambda>_. 0)\<rparr>\<rparr>) = Some True"
proof -
  let ?w = "net_demo\<lparr>n_pool := zpool_blank\<lparr>zp_buf := (\<lambda>_. zbuf_ex), zp_mem := mem_write 232 [114, 116 :: u8] (\<lambda>_. 0)\<rparr>\<rparr>"
  have n: "has_name pnio_demo [114, 116, 111, 115]" by (simp add: has_name_def pnio_demo_def set_name_def)
  have "\<forall>k < length [114, 116 :: u8]. nb_ld8 0 (232 + int k) ?w = Some ([114, 116] ! k)"
    by (simp add: less_Suc_eq all_conj_distrib nb_ld8_def nb_load_def zb_load_def in_buf_def mem_bytes_def mem_write_def zbuf_ex_def)
  from pnio_name_prefix[OF n this] show ?thesis by simp
qed

text \<open>C40: One DCP frame stops the device: in an Identify or Set request whose first block has the length 0xFFFC and an option other than IP and device, the 16-bit offset of the next block wraps around to the block itself, so every round of either loop ends where it began and pnio_dcp_input never returns.\<close>

theorem pnio_dcp_hangs:
  assumes "zb_wf (nb_get zb w)" and "zb_payload zb (n_pool w) =
      [f1, f2, svc, 0] @ xid @ delay @ [lh, ll] @ [opt, sub, 0xFF, 0xFC] @ rest"
    and "length xid = 4" and "length delay = 2" and "svc = DCP_SERVICE_IDENTIFY \<or> svc = DCP_SERVICE_SET"
    and "opt \<noteq> DCP_OPT_IP" and "opt \<noteq> DCP_OPT_DEVICE" and "be16 lh ll \<noteq> 0"
  shows "(\<forall>m. dcp_match_block d zb (zb_data (nb_get zb w) + 12) w 0 m = Some (m, 0)) \<and>
    (\<forall>e :: 'a pnio_device. dcp_set_block zb (zb_data (nb_get zb w) + 12) w 0 e = Some (e, 0)) \<and>
    pnio_dcp_input drv zb (d :: 'a pnio_device) w = None"
  using pnio_dcp_stuck[OF assms] .

theorem pnio_dcp_hangs_witness:
  "pnio_dcp_input (\<lambda>nif zb w. Some (STATUS_OK, w)) 0 pnio_demo
     (net_demo\<lparr>n_pool := zpool_blank\<lparr>zp_buf := (\<lambda>_. zbuf_ex\<lparr>zb_len := 16, zb_tail := 248\<rparr>),
       zp_mem := mem_write 232 [0xFE, 0xFE, 5, 0, 0, 0, 0, 1, 0, 0, 0, 4, 0xFF, 0xFF, 0xFF, 0xFC] (\<lambda>_. 0)\<rparr>\<rparr>) = None"
proof -
  let ?p = "[0xFE, 0xFE, 5, 0, 0, 0, 0, 1, 0, 0, 0, 4, 0xFF, 0xFF, 0xFF, 0xFC] :: u8 list"
  let ?w = "net_demo\<lparr>n_pool := zpool_blank\<lparr>zp_buf := (\<lambda>_. zbuf_ex\<lparr>zb_len := 16, zb_tail := 248\<rparr>),
       zp_mem := mem_write 232 ?p (\<lambda>_. 0)\<rparr>\<rparr>"
  have wf: "zb_wf (nb_get 0 ?w)" by (simp add: zb_wf_def zbuf_ex_def zbuf_blank_def config_defs)
  have l: "length ?p = 16" by simp
  have p: "zb_payload 0 (n_pool ?w) = [0xFE, 0xFE, 5, 0] @ [0, 0, 0, 1] @ [0, 0] @ [0, 4] @ [0xFF, 0xFF, 0xFF, 0xFC] @ []"
    using mem_bytes_write[of 232 ?p "\<lambda>_. 0", unfolded l] by (simp add: zb_payload_def zbuf_ex_def)
  have "be16 0 4 \<noteq> 0" by code_simp
  from pnio_dcp_hangs[OF wf p _ _ _ _ _ this, of pnio_demo "\<lambda>nif zb w. Some (STATUS_OK, w)"]
  show ?thesis by (simp add: pnio_consts)
qed

text \<open>C34: From its initialisation on, whatever slots and subslots are added (also when the heap is exhausted), plugged and pulled, whatever frames arrive, however often the device is started, polled and stopped, and whatever relations the application sets up within the array of 32, the device has at most 16 slots with at most 8 subslots each, at most 32 relations, a name that ends within its array, and a free lock: so the searches for a relation and for the end of the name stay inside their arrays, and adding a slot, plugging and pulling come back. The application's callbacks are assumed to keep the counts and the name within these bounds; no claim is made about what follows a fault or a loop that does not end in one of the operations.\<close>

theorem pnio_run_wf:
  assumes "(pnio_step code drv)\<^sup>*\<^sup>* (snd (pnio_device_init nif name vid did w d0)) d" and "code_ok code"
  shows "dev_wf d \<and> find_ar d fid 0 (unat (pd_ar_count d)) \<noteq> None \<and> name_length (pd_name d) 0 64 \<noteq> None \<and>
    pnio_add_slot n m d \<noteq> None \<and> pnio_plug_submodule sn bn d \<noteq> None \<and> pnio_pull_submodule sn bn d \<noteq> None"
proof -
  have wf: "dev_wf d" using pnio_run_wf_aux[OF assms(1,2) pnio_device_init_wf] .
  then have "find_ar d fid 0 (unat (pd_ar_count d)) \<noteq> None" by (simp add: find_ar_in_array dev_wf_def dev_body_def)
  moreover obtain k where "k < 64" "pd_name d k = 0" using wf by (auto simp: dev_wf_def dev_body_def)
  then have "name_length (pd_name d) 0 64 \<noteq> None" using name_length_in_array[of "pd_name d" k 0 64] by simp
  moreover have "pd_lock_take d \<noteq> None" using wf by (simp add: dev_wf_def pd_lock_take_free)
  then have "pnio_add_slot n m d \<noteq> None" "pnio_plug_submodule sn bn d \<noteq> None" "pnio_pull_submodule sn bn d \<noteq> None"
    by (auto simp: pnio_add_slot_def pnio_plug_submodule_def pnio_pull_submodule_def Let_def split: prod.split option.split)
  ultimately show ?thesis using wf by blast
qed

theorem pnio_run_wf_witness:
  "dev_wf (snd (the (pnio_add_slot 1 16 (snd (pnio_device_init 8 [114, 116] 1 2 net_demo pnio_demo)))))"
proof -
  let ?d = "snd (pnio_device_init 8 [114, 116] 1 2 net_demo pnio_demo)"
  have "sl_lock (pd_lock ?d) = 0" by (simp add: pnio_device_init_def SPINLOCK_INIT_def)
  then have "pnio_add_slot 1 16 ?d \<noteq> None" by (simp add: pnio_add_slot_def Let_def pd_lock_take_free)
  then obtain st d' where d': "pnio_add_slot 1 16 ?d = Some (st, d')" by auto
  have c: "code_ok (\<lambda>_ _ _ d w. Some (d :: unit pnio_device, w))" by (simp add: code_ok_def)
  have "pnio_step (\<lambda>_ _ _ d w. Some (d, w)) (\<lambda>nif zb w. None) ?d d'" using d' by (rule pnio_step.add_slot)
  then have "(pnio_step (\<lambda>_ _ _ d w. Some (d, w)) (\<lambda>nif zb w. None))\<^sup>*\<^sup>* ?d d'" by blast
  from pnio_run_wf[OF this c] show ?thesis using d' by simp
qed

text \<open>Adding a subslot that is new to its slot and finding it: with room in the slot and memory in the heap the call succeeds, the lookups then give the two areas the heap returned, and both are filled with zeros.\<close>

theorem pnio_subslot_added:
  assumes "dev_wf d" and "find_slot d sn 0 (unat (pd_slot_count d)) = Some i"
    and "unat (ps_subslot_count (pd_slots d i)) < CONFIG_PROFINET_MAX_SUBSLOTS"
    and "pnio_locate sn bn d = None" and "0 < il" and "0 < ol"
    and "heap_alloc (ucast il) (n_heap w) = Some (Some a, h1)" and "heap_alloc (ucast ol) h1 = Some (Some b, h2)"
    and "a + uint il \<le> b \<or> b + uint ol \<le> a"
  shows "\<exists>d'. pnio_add_subslot sn bn ident il ol d w = Some (STATUS_OK, d', w\<lparr>n_heap := h2\<rparr>) \<and>
    pnio_get_input_data sn bn d' = Some a \<and> pnio_get_output_data sn bn d' = Some b \<and>
    mem_bytes (pd_mem d') a (unat il) = replicate (unat il) 0 \<and> mem_bytes (pd_mem d') b (unat ol) = replicate (unat ol) 0"
  using pnio_subslot_added_aux[OF assms] .

theorem pnio_subslot_added_witness:
  "\<exists>d' h b. pnio_add_subslot 1 2 7 100 100 pnio_demo net_demo = Some (STATUS_OK, d', net_demo\<lparr>n_heap := h\<rparr>) \<and>
     pnio_get_input_data 1 2 d' = Some 4128 \<and> pnio_get_output_data 1 2 d' = Some b \<and>
     mem_bytes (pd_mem d') 4128 100 = replicate 100 0"
proof -
  obtain h1 where h1: "heap_alloc 100 heap0 = Some (Some 4128, h1)"
    "heap_inv h1 [Seg 4096 144 True, Seg 4240 (16777216 - 144) False]" using heap0_alloc_100 by blast
  have "uint (heap_request 100) = 144" by (simp add: uint_heap_request)
  then obtain h2 where h2: "heap_alloc 100 h1 = Some (Some 4272, h2)"
    using heap_alloc_sim[OF h1(2), of 100] by (auto simp: heap_consts)
  have s: "find_slot pnio_demo 1 0 (unat (pd_slot_count pnio_demo)) = Some 0" "pnio_locate 1 2 pnio_demo = None"
    "unat (ps_subslot_count (pd_slots pnio_demo 0)) < CONFIG_PROFINET_MAX_SUBSLOTS"
    by (simp_all add: pnio_demo_def pnio_locate_def sub_demo_def CONFIG_PROFINET_MAX_SUBSLOTS_def)
  have al: "heap_alloc (ucast (100 :: u16)) (n_heap net_demo) = Some (Some 4128, h1)" "heap_alloc (ucast (100 :: u16)) h1 = Some (Some 4272, h2)"
    using h1(1) h2 by (simp_all add: net_demo_def)
  show ?thesis
    using pnio_subslot_added[OF pnio_demo_wf s(1,3,2) _ _ al, of 7] by auto
qed

text \<open>An alarm frame is ten bytes longer than what is written into it: behind the alarm's own bytes, which are all in place, the frame that goes to the driver carries ten bytes of whatever the buffer held before.\<close>

theorem pnio_alarm_leaks:
  assumes "zpool_inv (n_pool w) (r # fl)" and "pd_ar_count d \<noteq> 0" and "ar_active (pd_ar d 0)"
    and "pnio_alarm_bytes al = Some bs" and "unat (al_data_length al) \<le> 1800"
    and "length (ar_peer_mac (pd_ar d 0)) = 6" and "length (nif_mac (n_nif w (pd_netif d))) = 6"
  shows "\<exists>w' junk. pnio_send_alarm drv al d w = drv (pd_netif d) r w' \<and> length junk = 10 \<and>
    zb_payload r (n_pool w') = ar_peer_mac (pd_ar d 0) @ nif_mac (n_nif w (pd_netif d)) @ [0x88, 0x92] @ bs @ junk"
  using pnio_send_alarm_ok[OF assms] .

theorem pnio_alarm_leaks_witness:
  "\<exists>w' bs junk. pnio_send_diag_alarm (\<lambda>nif zb w. Some (STATUS_OK, w)) 1 1 3 4 0 pnio_demo pnio_net = Some (STATUS_OK, 1, w') \<and>
     length bs = 30 \<and> length junk = 10 \<and> zb_payload (hd (rev (zbuf_slots 0))) (n_pool w') =
       [2, 0, 0, 0, 0, 2, 2, 0, 0, 0, 0, 1, 0x88, 0x92] @ bs @ junk"
proof -
  let ?al = "pnio_diag_alarm 1 1 3 4 0 pnio_demo"
  have h: "pd_ar_count pnio_demo \<noteq> 0" "ar_active (pd_ar pnio_demo 0)" "ar_peer_mac (pd_ar pnio_demo 0) = [2, 0, 0, 0, 0, 2]"
    "nif_mac (n_nif pnio_net (pd_netif pnio_demo)) = [2, 0, 0, 0, 0, 1]"
    by (simp_all add: pnio_demo_def pnio_net_def net_demo_def nif_demo_def)
  have al: "al_data_length ?al = 8" "length (al_data ?al) = 8" "al_module_ident ?al = Some 16" "al_submodule_ident ?al = Some 1"
    by (simp_all add: pnio_diag_alarm_def be16_bytes_def pnio_demo_def sub_demo_def pd_sub_def)
  then obtain bs where bs: "pnio_alarm_bytes ?al = Some bs" by (simp add: pnio_alarm_bytes_def)
  have l: "length bs = 30" using length_alarm_bytes[OF bs] al by simp
  obtain w' junk where w': "pnio_send_alarm (\<lambda>nif zb w. Some (STATUS_OK, w)) ?al pnio_demo pnio_net = Some (STATUS_OK, w')"
    "length junk = 10" "zb_payload (hd (rev (zbuf_slots 0))) (n_pool w') =
       [2, 0, 0, 0, 0, 2, 2, 0, 0, 0, 0, 1, 0x88, 0x92] @ bs @ junk"
    using pnio_alarm_leaks[OF pnio_net_pool h(1,2) bs, of "\<lambda>nif zb w. Some (STATUS_OK, w)"] h al by auto
  then show ?thesis using l by (intro exI[of _ w'] exI[of _ bs] exI[of _ junk]) (simp add: pnio_send_diag_alarm_def)
qed

end
