(* ===== verification/Eth.thy ===== *)
theory Eth
  imports Net_Input Irq
begin

text \<open>
  The virtio network driver of \<open>drivers/eth/eth.c\<close>: finding the device and setting its two queues up,
  posting receive buffers, taking received frames to the stack, sending, collecting what was sent, and
  the interrupt.

  The device is not part of the program. \<open>hw\<close> answers a read of one of its registers; \<open>dv w\<close> is the
  state after whatever the device has written to memory by the time the driver looks at a used ring,
  when the driver would have found \<open>w\<close>. The locks of the two queues are modelled, because the
  interrupt handler takes them too.
\<close>

section \<open>State\<close>

datatype vqsel = RXQ | TXQ

type_synonym device = "net \<Rightarrow> net"

definition ed_upd :: "(eth_dev \<Rightarrow> eth_dev) \<Rightarrow> net \<Rightarrow> net" where
  "ed_upd f w = w\<lparr>n_eth := f (n_eth w)\<rparr>"

definition vq_get :: "vqsel \<Rightarrow> net \<Rightarrow> virtqueue" where
  "vq_get x w = (case x of RXQ \<Rightarrow> ed_rxq (n_eth w) | TXQ \<Rightarrow> ed_txq (n_eth w))"

definition vq_set :: "vqsel \<Rightarrow> virtqueue \<Rightarrow> net \<Rightarrow> net" where
  "vq_set x q w = ed_upd (case x of RXQ \<Rightarrow> ed_rxq_update (\<lambda>_. q) | TXQ \<Rightarrow> ed_txq_update (\<lambda>_. q)) w"

definition vq_upd :: "vqsel \<Rightarrow> (virtqueue \<Rightarrow> virtqueue) \<Rightarrow> net \<Rightarrow> net" where
  "vq_upd x f w = vq_set x (f (vq_get x w)) w"

text \<open>An operation of a virtqueue, in the whole state.\<close>

definition vq_do :: "vqsel \<Rightarrow> (virtqueue \<Rightarrow> virtqueue option) \<Rightarrow> net \<Rightarrow> net option" where
  "vq_do x f w = do { q \<leftarrow> f (vq_get x w); Some (vq_set x q w) }"

definition vq_take :: "vqsel \<Rightarrow> net \<Rightarrow> (int \<times> net) option" where
  "vq_take x w = do { (i, q) \<leftarrow> virtq_alloc_desc (vq_get x w); Some (i, vq_set x q w) }"

definition vq_acquire :: "vqsel \<Rightarrow> net \<Rightarrow> net option" where
  "vq_acquire x w = do { l \<leftarrow> spin_lock (vq_lock (vq_get x w)); Some (vq_upd x (vq_lock_update (\<lambda>_. l)) w) }"

definition vq_release :: "vqsel \<Rightarrow> net \<Rightarrow> net" where
  "vq_release x w = vq_upd x (vq_lock_update spin_unlock) w"

definition eth_write :: "addr \<Rightarrow> u32 \<Rightarrow> net \<Rightarrow> net" where
  "eth_write off v w = ed_upd (\<lambda>d. d\<lparr>ed_mmio := Wr (ed_base d + off) v # ed_mmio d\<rparr>) w"

definition eth_read :: "mmio_hw \<Rightarrow> addr \<Rightarrow> net \<Rightarrow> u32 \<times> net" where
  "eth_read hw off w =
     (hw (ed_mmio (n_eth w)) (ed_base (n_eth w) + off),
      ed_upd (\<lambda>d. d\<lparr>ed_mmio := Rd (ed_base d + off) # ed_mmio d\<rparr>) w)"

section \<open>Registers\<close>

definition CONFIG_ETH_BASE :: addr where "CONFIG_ETH_BASE = 0x0A000000"
definition CONFIG_ETH_IRQ :: u32 where "CONFIG_ETH_IRQ = 47"

definition VIRTIO_MMIO_MAGIC :: addr where "VIRTIO_MMIO_MAGIC = 0x000"
definition VIRTIO_MMIO_DEVICE_ID :: addr where "VIRTIO_MMIO_DEVICE_ID = 0x008"
definition VIRTIO_MMIO_DEVICE_FEATURES :: addr where "VIRTIO_MMIO_DEVICE_FEATURES = 0x010"
definition VIRTIO_MMIO_DRIVER_FEATURES :: addr where "VIRTIO_MMIO_DRIVER_FEATURES = 0x020"
definition VIRTIO_MMIO_QUEUE_SEL :: addr where "VIRTIO_MMIO_QUEUE_SEL = 0x030"
definition VIRTIO_MMIO_QUEUE_NUM_MAX :: addr where "VIRTIO_MMIO_QUEUE_NUM_MAX = 0x034"
definition VIRTIO_MMIO_QUEUE_NUM :: addr where "VIRTIO_MMIO_QUEUE_NUM = 0x038"
definition VIRTIO_MMIO_QUEUE_READY :: addr where "VIRTIO_MMIO_QUEUE_READY = 0x044"
definition VIRTIO_MMIO_QUEUE_NOTIFY :: addr where "VIRTIO_MMIO_QUEUE_NOTIFY = 0x050"
definition VIRTIO_MMIO_INTERRUPT_STATUS :: addr where "VIRTIO_MMIO_INTERRUPT_STATUS = 0x060"
definition VIRTIO_MMIO_INTERRUPT_ACK :: addr where "VIRTIO_MMIO_INTERRUPT_ACK = 0x064"
definition VIRTIO_MMIO_STATUS :: addr where "VIRTIO_MMIO_STATUS = 0x070"
definition VIRTIO_MMIO_QUEUE_DESC_LOW :: addr where "VIRTIO_MMIO_QUEUE_DESC_LOW = 0x080"
definition VIRTIO_MMIO_QUEUE_DESC_HIGH :: addr where "VIRTIO_MMIO_QUEUE_DESC_HIGH = 0x084"
definition VIRTIO_MMIO_QUEUE_AVAIL_LOW :: addr where "VIRTIO_MMIO_QUEUE_AVAIL_LOW = 0x090"
definition VIRTIO_MMIO_QUEUE_AVAIL_HIGH :: addr where "VIRTIO_MMIO_QUEUE_AVAIL_HIGH = 0x094"
definition VIRTIO_MMIO_QUEUE_USED_LOW :: addr where "VIRTIO_MMIO_QUEUE_USED_LOW = 0x0a0"
definition VIRTIO_MMIO_QUEUE_USED_HIGH :: addr where "VIRTIO_MMIO_QUEUE_USED_HIGH = 0x0a4"
definition VIRTIO_MMIO_CONFIG :: addr where "VIRTIO_MMIO_CONFIG = 0x100"

definition VIRTIO_STATUS_ACK :: u32 where "VIRTIO_STATUS_ACK = 1"
definition VIRTIO_STATUS_DRIVER :: u32 where "VIRTIO_STATUS_DRIVER = 2"
definition VIRTIO_STATUS_DRIVER_OK :: u32 where "VIRTIO_STATUS_DRIVER_OK = 4"
definition VIRTIO_STATUS_FEATURES_OK :: u32 where "VIRTIO_STATUS_FEATURES_OK = 8"
definition VIRTIO_STATUS_FAILED :: u32 where "VIRTIO_STATUS_FAILED = 128"

definition VIRTIO_DEV_NET :: u32 where "VIRTIO_DEV_NET = 1"
definition VIRTIO_NET_F_MAC :: u32 where "VIRTIO_NET_F_MAC = 32"
definition VIRTQ_RX :: u32 where "VIRTQ_RX = 0"
definition VIRTQ_TX :: u32 where "VIRTQ_TX = 1"
definition VIRTIO_NET_HDR_SIZE :: u16 where "VIRTIO_NET_HDR_SIZE = 12"

section \<open>Setting up a queue\<close>

definition eth_dma_alloc :: "u64 \<Rightarrow> net \<Rightarrow> (ptr \<times> net) option" where
  "eth_dma_alloc n w = do {
     (p, d) \<leftarrow> dma_alloc n \<lparr>dma_heap = n_heap w, dma_mempool = n_dma w\<rparr>;
     Some (p, w\<lparr>n_heap := dma_heap d, n_dma := dma_mempool d\<rparr>)
   }"

text \<open>An address register pair: the low word, then the high one.\<close>

definition eth_write_addr :: "addr \<Rightarrow> addr \<Rightarrow> addr \<Rightarrow> net \<Rightarrow> net" where
  "eth_write_addr lo hi a w =
     eth_write hi (ucast (drop_bit 32 (of_int a :: u64))) (eth_write lo (ucast (of_int a :: u64)) w)"

text \<open>What is written to the device once the queue's memory is there.\<close>

definition virtq_configure :: "vqsel \<Rightarrow> u32 \<Rightarrow> net \<Rightarrow> net" where
  "virtq_configure x qmax w =
     (let w = eth_write VIRTIO_MMIO_QUEUE_NUM qmax w;
          w = eth_write_addr VIRTIO_MMIO_QUEUE_DESC_LOW VIRTIO_MMIO_QUEUE_DESC_HIGH
                (vq_desc_at (vq_get x w)) w;
          w = eth_write_addr VIRTIO_MMIO_QUEUE_AVAIL_LOW VIRTIO_MMIO_QUEUE_AVAIL_HIGH
                (vq_avail_at (vq_get x w)) w;
          w = eth_write_addr VIRTIO_MMIO_QUEUE_USED_LOW VIRTIO_MMIO_QUEUE_USED_HIGH
                (vq_used_at (vq_get x w)) w
      in eth_write VIRTIO_MMIO_QUEUE_READY 1 w)"

definition virtq_init :: "mmio_hw \<Rightarrow> vqsel \<Rightarrow> u32 \<Rightarrow> net \<Rightarrow> (status \<times> net) option" where
  "virtq_init hw x qsel w =
     (let w = eth_write VIRTIO_MMIO_QUEUE_SEL qsel w;
          (qmax, w) = eth_read hw VIRTIO_MMIO_QUEUE_NUM_MAX w
      in if qmax = 0 then Some (STATUS_ERROR, w)
         else
           let qmax = (if qmax > of_nat VIRTQ_SIZE then of_nat VIRTQ_SIZE else qmax);
               w = vq_upd x (\<lambda>q. q\<lparr>vq_num := ucast qmax, vq_free_head := 0, vq_num_free := ucast qmax,
                     vq_last_used_idx := 0, vq_lock := SPINLOCK_INIT\<rparr>) w
           in do {
             (p, w) \<leftarrow> eth_dma_alloc (desc_size qmax + avail_size qmax + used_size qmax) w;
             Some (case p of
               None \<Rightarrow> (STATUS_NO_MEM, w)
             | Some mem \<Rightarrow>
                 let w = vq_upd x (virtq_clear qmax mem) w;
                     w = vq_upd x (virtq_link qmax) w
                 in (STATUS_OK, virtq_configure x qmax w))
           })"

section \<open>Receiving\<close>

text \<open>The two descriptors of a receive buffer, for the header and for the frame, and its posting.\<close>

definition eth_rx_chain :: "addr \<Rightarrow> u16 \<Rightarrow> u16 \<Rightarrow> net \<Rightarrow> net option" where
  "eth_rx_chain zb hdr_idx data_idx w = do {
     w \<leftarrow> vq_do RXQ (vd_upd hdr_idx (\<lambda>d. d\<lparr>vd_addr := zb_dma_addr (nb_get zb w),
            vd_len := ucast VIRTIO_NET_HDR_SIZE, vd_flags := VRING_DESC_F_WRITE OR VRING_DESC_F_NEXT,
            vd_next := data_idx\<rparr>)) w;
     w \<leftarrow> vq_do RXQ (vd_upd data_idx (\<lambda>d. d\<lparr>
            vd_addr := zb_dma_addr (nb_get zb w) + uint VIRTIO_NET_HDR_SIZE,
            vd_len := of_int (CONFIG_ZBUF_SIZE - uint VIRTIO_NET_HDR_SIZE - CONFIG_ZBUF_HEADROOM),
            vd_flags := VRING_DESC_F_WRITE, vd_next := 0\<rparr>)) w;
     let w = vq_upd RXQ (\<lambda>q. q\<lparr>vq_buffers := (vq_buffers q)(unat hdr_idx := Some zb)\<rparr>) w;
     vq_do RXQ (virtq_post hdr_idx) w
   }"

definition eth_rx_add_buffer :: "net \<Rightarrow> (status \<times> net) option" where
  "eth_rx_add_buffer w = do {
     w \<leftarrow> vq_acquire RXQ w;
     if vq_num_free (vq_get RXQ w) < 2 then Some (STATUS_NO_MEM, vq_release RXQ w)
     else
       let (p, z) = zbuf_alloc_rx (of_int CONFIG_ZBUF_SIZE) (n_pool w); w = w\<lparr>n_pool := z\<rparr> in
       case p of
         None \<Rightarrow> Some (STATUS_NO_MEM, vq_release RXQ w)
       | Some zb \<Rightarrow> do {
           let w = nb_upd zb (zbuf_reserve VIRTIO_NET_HDR_SIZE) w;
           (hdr_idx, w) \<leftarrow> vq_take RXQ w;
           (data_idx, w) \<leftarrow> vq_take RXQ w;
           if hdr_idx < 0 \<or> data_idx < 0 then do {
             w \<leftarrow> (if 0 \<le> hdr_idx then vq_do RXQ (virtq_free_desc (of_int hdr_idx)) w else Some w);
             Some (STATUS_NO_MEM, vq_release RXQ (nb_free zb w))
           } else do {
             w \<leftarrow> eth_rx_chain zb (of_int hdr_idx) (of_int data_idx) w;
             Some (STATUS_OK, eth_write VIRTIO_MMIO_QUEUE_NOTIFY VIRTQ_RX (vq_release RXQ w))
           }
         }
   }"

partial_function (option) eth_rx_fill :: "net \<Rightarrow> net option" where
  "eth_rx_fill w = do {
     (st, w) \<leftarrow> eth_rx_add_buffer w;
     if st = STATUS_OK then eth_rx_fill w else Some w
   }"

section \<open>Sending\<close>

text \<open>\<open>eth_send\<close> with a buffer: what the interface's \<open>send\<close> does on its failing and its last stretch.\<close>

definition eth_tx_refuse :: "addr \<Rightarrow> net \<Rightarrow> status \<times> net" where
  "eth_tx_refuse zb w =
     (STATUS_NO_MEM,
      ed_upd (\<lambda>d. d\<lparr>ed_tx_errors := ed_tx_errors d + 1\<rparr>) (nb_free zb (vq_release TXQ w)))"

definition eth_tx_post :: "addr \<Rightarrow> u16 \<Rightarrow> net \<Rightarrow> (status \<times> net) option" where
  "eth_tx_post zb desc_idx w = do {
     let k = nb_get zb w;
     w \<leftarrow> vq_do TXQ (vd_upd desc_idx (\<lambda>d. d\<lparr>vd_addr := zb_dma_addr k + (zb_data k - zb_head k),
            vd_len := ucast (zb_len k), vd_flags := 0, vd_next := 0\<rparr>)) w;
     let w = vq_upd TXQ (\<lambda>q. q\<lparr>vq_buffers := (vq_buffers q)(unat desc_idx := Some zb)\<rparr>) w;
     w \<leftarrow> vq_do TXQ (virtq_post desc_idx) w;
     let w = ed_upd (\<lambda>d. d\<lparr>ed_tx_packets := ed_tx_packets d + 1,
               ed_tx_bytes := ed_tx_bytes d + (ucast (zb_len k) - ucast VIRTIO_NET_HDR_SIZE)\<rparr>) w;
     Some (STATUS_OK, eth_write VIRTIO_MMIO_QUEUE_NOTIFY VIRTQ_TX (vq_release TXQ w))
   }"

definition eth_send :: "addr \<Rightarrow> ptr \<Rightarrow> net \<Rightarrow> (status \<times> net) option" where
  "eth_send nif p w =
     (if nif_priv (n_nif w nif) \<noteq> Some (ed_self (n_eth w)) then None
      else case p of
        None \<Rightarrow> Some (STATUS_INVALID, w)
      | Some zb \<Rightarrow>
          if zb_len (nb_get zb w) = 0 then Some (STATUS_INVALID, nb_free zb w)
          else do {
            w \<leftarrow> vq_acquire TXQ w;
            if vq_num_free (vq_get TXQ w) < 2 then Some (eth_tx_refuse zb w)
            else
              let (hdr, w) = nb_op zb (zbuf_push VIRTIO_NET_HDR_SIZE) w in
              case hdr of
                None \<Rightarrow> Some (eth_tx_refuse zb w)
              | Some h \<Rightarrow> do {
                  w \<leftarrow> nb_store zb h (replicate (unat VIRTIO_NET_HDR_SIZE) 0) w;
                  (desc_idx, w) \<leftarrow> vq_take TXQ w;
                  if desc_idx < 0 then Some (eth_tx_refuse zb w)
                  else eth_tx_post zb (of_int desc_idx) w
                }
          })"

text \<open>The driver as the stack sees it.\<close>

definition eth_driver :: driver where
  "eth_driver nif zb w = eth_send nif (Some zb) w"

section \<open>Taking received frames to the stack\<close>

text \<open>The part of a round under the lock: the buffer of the next used chain, and its length.\<close>

definition eth_rx_take :: "net \<Rightarrow> (ptr \<times> u32 \<times> net) option" where
  "eth_rx_take w = do {
     let q = vq_get RXQ w;
     slot \<leftarrow> ring_slot (vq_last_used_idx q) q;
     let desc_idx = ucast (ue_id (vq_used q slot));
     let len = ue_len (vq_used q slot);
     d \<leftarrow> vd_get desc_idx q;
     let zb = vq_buffers q (unat desc_idx);
     let w = vq_upd RXQ (\<lambda>q. q\<lparr>vq_buffers := (vq_buffers q)(unat desc_idx := None)\<rparr>) w;
     w \<leftarrow> vq_do RXQ (virtq_free_desc desc_idx) w;
     w \<leftarrow> vq_do RXQ (virtq_free_desc (vd_next d)) w;
     let w = vq_upd RXQ (\<lambda>q. q\<lparr>vq_last_used_idx := vq_last_used_idx q + 1\<rparr>) w;
     Some (zb, len, vq_release RXQ w)
   }"

definition eth_rx_window :: "u32 \<Rightarrow> zbuf \<Rightarrow> zbuf" where
  "eth_rx_window len k =
     (let k = k\<lparr>zb_data := zb_head k + uint VIRTIO_NET_HDR_SIZE,
                zb_len := ucast (len - ucast VIRTIO_NET_HDR_SIZE)\<rparr>
      in k\<lparr>zb_tail := zb_data k + uint (zb_len k)\<rparr>)"

definition eth_rx_deliver :: "ptr \<Rightarrow> u32 \<Rightarrow> net \<Rightarrow> unit io option" where
  "eth_rx_deliver p len w =
     (case p of
        Some zb \<Rightarrow>
          if len > ucast VIRTIO_NET_HDR_SIZE then
            let w = nb_upd zb (eth_rx_window len) w;
                w = ed_upd (\<lambda>d. d\<lparr>ed_rx_packets := ed_rx_packets d + 1,
                      ed_rx_bytes := ed_rx_bytes d + ucast (zb_len (nb_get zb w))\<rparr>) w
            in netif_input eth_driver (ed_netif (n_eth w)) zb w
          else Some (Done () (ed_upd (\<lambda>d. d\<lparr>ed_rx_errors := ed_rx_errors d + 1\<rparr>) (nb_free zb w)))
      | None \<Rightarrow> Some (Done () (ed_upd (\<lambda>d. d\<lparr>ed_rx_errors := ed_rx_errors d + 1\<rparr>) w)))"

text \<open>What ends a round: a new buffer in the place of the one taken, and the lock again.\<close>

definition eth_rx_again :: "net \<Rightarrow> net option" where
  "eth_rx_again w = do {
     (st, w) \<leftarrow> eth_rx_add_buffer w;
     vq_acquire RXQ w
   }"

partial_function (option) eth_rx_loop :: "device \<Rightarrow> net \<Rightarrow> unit io option" where
  "eth_rx_loop dv w =
     (let w = dv w in
      if vq_last_used_idx (vq_get RXQ w) = vq_used_idx (vq_get RXQ w)
      then Some (Done () (vq_release RXQ w))
      else do {
        (p, len, w) \<leftarrow> eth_rx_take w;
        r \<leftarrow> eth_rx_deliver p len w;
        case r of
          Blocked c \<Rightarrow> Some (Blocked c)
        | Done u w \<Rightarrow> do { w \<leftarrow> eth_rx_again w; eth_rx_loop dv w }
      })"

definition eth_rx_process :: "device \<Rightarrow> net \<Rightarrow> unit io option" where
  "eth_rx_process dv w = do { w \<leftarrow> vq_acquire RXQ w; eth_rx_loop dv w }"

text \<open>When the stack had to wait for a frame, the loop goes on here once it is done with it.\<close>

definition eth_rx_resume :: "device \<Rightarrow> net \<Rightarrow> unit io option" where
  "eth_rx_resume dv w = do { w \<leftarrow> eth_rx_again w; eth_rx_loop dv w }"

section \<open>Collecting what was sent\<close>

definition eth_tx_collect :: "net \<Rightarrow> net option" where
  "eth_tx_collect w = do {
     let q = vq_get TXQ w;
     slot \<leftarrow> ring_slot (vq_last_used_idx q) q;
     let desc_idx = ucast (ue_id (vq_used q slot));
     d \<leftarrow> vd_get desc_idx q;
     let zb = vq_buffers q (unat desc_idx);
     let w = vq_upd TXQ (\<lambda>q. q\<lparr>vq_buffers := (vq_buffers q)(unat desc_idx := None)\<rparr>) w;
     let w = (case zb of None \<Rightarrow> w | Some b \<Rightarrow> nb_free b w);
     w \<leftarrow> vq_do TXQ (virtq_free_desc desc_idx) w;
     Some (vq_upd TXQ (\<lambda>q. q\<lparr>vq_last_used_idx := vq_last_used_idx q + 1\<rparr>) w)
   }"

partial_function (option) eth_tx_loop :: "device \<Rightarrow> net \<Rightarrow> net option" where
  "eth_tx_loop dv w =
     (let w = dv w in
      if vq_last_used_idx (vq_get TXQ w) = vq_used_idx (vq_get TXQ w) then Some w
      else do { w \<leftarrow> eth_tx_collect w; eth_tx_loop dv w })"

definition eth_tx_process :: "device \<Rightarrow> net \<Rightarrow> net option" where
  "eth_tx_process dv w = do {
     w \<leftarrow> vq_acquire TXQ w;
     w \<leftarrow> eth_tx_loop dv w;
     Some (vq_release TXQ w)
   }"

section \<open>The interrupt, and polling\<close>

definition eth_process :: "device \<Rightarrow> net \<Rightarrow> unit io option" where
  "eth_process dv w = do {
     r \<leftarrow> eth_rx_process dv w;
     case r of
       Blocked c \<Rightarrow> Some (Blocked c)
     | Done u w \<Rightarrow> do { w \<leftarrow> eth_tx_process dv w; Some (Done () w) }
   }"

definition eth_interrupt :: "mmio_hw \<Rightarrow> device \<Rightarrow> net \<Rightarrow> unit io option" where
  "eth_interrupt hw dv w =
     (let (status, w) = eth_read hw VIRTIO_MMIO_INTERRUPT_STATUS w;
          w = eth_write VIRTIO_MMIO_INTERRUPT_ACK status w
      in if status AND 1 \<noteq> 0 then eth_process dv w else Some (Done () w))"

definition eth_poll :: "device \<Rightarrow> net \<Rightarrow> unit io option" where
  "eth_poll dv w = (if \<not> ed_initialized (n_eth w) then Some (Done () w) else eth_process dv w)"

text \<open>
  The interrupt code keeps the scheduler and, as the rest, this state, whose own copy of the scheduler
  is the same one.
\<close>

definition net_of :: "net intr \<Rightarrow> net" where
  "net_of s = (in_app s)\<lparr>n_sched := in_sched s\<rparr>"

definition net_put :: "net \<Rightarrow> net intr \<Rightarrow> net intr" where
  "net_put w s = s\<lparr>in_sched := n_sched w, in_app := w\<rparr>"

text \<open>The handler as the interrupt code calls it; one that has to wait leads to another task.\<close>

definition eth_irq_handler :: "mmio_hw \<Rightarrow> device \<Rightarrow> u32 \<Rightarrow> ptr \<Rightarrow> net intr \<Rightarrow> net intr ctl option" where
  "eth_irq_handler hw dv irq arg s =
     (if arg \<noteq> Some (ed_self (n_eth (in_app s))) then None
      else do {
        r \<leftarrow> eth_interrupt hw dv (net_of s);
        Some (case r of
          Done u w \<Rightarrow> Ret (net_put w s)
        | Blocked c \<Rightarrow> Sw (net_put (ctl_state c) s))
      })"

section \<open>Initialisation\<close>

text \<open>Finding the device and agreeing on features; \<open>None\<close> when the device is refused.\<close>

definition eth_negotiate :: "mmio_hw \<Rightarrow> net \<Rightarrow> u32 option \<times> net" where
  "eth_negotiate hw w =
     (let (magic, w) = eth_read hw VIRTIO_MMIO_MAGIC w in
      if magic \<noteq> 0x74726976 then (None, w)
      else let (id, w) = eth_read hw VIRTIO_MMIO_DEVICE_ID w in
      if id \<noteq> VIRTIO_DEV_NET then (None, w)
      else
        let w = eth_write VIRTIO_MMIO_STATUS 0 w;
            w = eth_write VIRTIO_MMIO_STATUS VIRTIO_STATUS_ACK w;
            w = eth_write VIRTIO_MMIO_STATUS (VIRTIO_STATUS_ACK OR VIRTIO_STATUS_DRIVER) w;
            (features, w) = eth_read hw VIRTIO_MMIO_DEVICE_FEATURES w;
            features = features AND VIRTIO_NET_F_MAC;
            w = eth_write VIRTIO_MMIO_DRIVER_FEATURES features w;
            w = eth_write VIRTIO_MMIO_STATUS
                  (VIRTIO_STATUS_ACK OR VIRTIO_STATUS_DRIVER OR VIRTIO_STATUS_FEATURES_OK) w;
            (st, w) = eth_read hw VIRTIO_MMIO_STATUS w
        in if st AND VIRTIO_STATUS_FEATURES_OK = 0
           then (None, eth_write VIRTIO_MMIO_STATUS VIRTIO_STATUS_FAILED w)
           else (Some features, w))"

text \<open>\<open>n\<close> bytes of the configuration space from byte \<open>i\<close> on.\<close>

fun eth_config_bytes :: "mmio_hw \<Rightarrow> nat \<Rightarrow> nat \<Rightarrow> net \<Rightarrow> u8 list \<times> net" where
  "eth_config_bytes hw i 0 w = ([], w)"
| "eth_config_bytes hw i (Suc n) w =
     (let (v, w) = eth_read hw (VIRTIO_MMIO_CONFIG + int i) w;
          (bs, w) = eth_config_bytes hw (i + 1) n w
      in (ucast v # bs, w))"

definition eth_set_mac :: "mmio_hw \<Rightarrow> u32 \<Rightarrow> net \<Rightarrow> net" where
  "eth_set_mac hw features w =
     (if features AND VIRTIO_NET_F_MAC \<noteq> 0
      then let (mac, w) = eth_config_bytes hw 0 6 w in ed_upd (ed_mac_update (\<lambda>_. mac)) w
      else ed_upd (ed_mac_update (\<lambda>_. [0x52, 0x54, 0x00, 0x12, 0x34, 0x56])) w)"

definition eth_setup_netif :: "net \<Rightarrow> net" where
  "eth_setup_netif w =
     nif_upd (ed_netif (n_eth w)) (\<lambda>n. n\<lparr>nif_name := ''eth0'', nif_mac := ed_mac (n_eth w), nif_mtu := 1500,
       nif_up := True, nif_priv := Some (ed_self (n_eth w))\<rparr>) w"

text \<open>What follows once both queues are set up; \<open>h\<close> is the address of \<open>eth_irq_handler\<close>.\<close>

definition eth_start :: "addr \<Rightarrow> net \<Rightarrow> net intr \<Rightarrow> (status \<times> net intr) option" where
  "eth_start h w s = do {
     let w = eth_write VIRTIO_MMIO_STATUS (VIRTIO_STATUS_ACK OR VIRTIO_STATUS_DRIVER OR
               VIRTIO_STATUS_FEATURES_OK OR VIRTIO_STATUS_DRIVER_OK) w;
     let w = eth_setup_netif w;
     (st, s) \<leftarrow> irq_register (ed_irq (n_eth w)) (Some h) (Some (ed_self (n_eth w))) (net_put w s);
     let s = irq_enable (ed_irq (n_eth w)) s;
     w \<leftarrow> eth_rx_fill (net_of s);
     let (st, w) = netif_register (ed_netif (n_eth w)) w;
     let w = ed_upd (ed_initialized_update (\<lambda>_. True)) w;
     Some (STATUS_OK, net_put w s)
   }"

definition eth_init :: "mmio_hw \<Rightarrow> addr \<Rightarrow> net intr \<Rightarrow> (status \<times> net intr) option" where
  "eth_init hw h s =
     (let w = ed_upd (\<lambda>d. d\<lparr>ed_base := CONFIG_ETH_BASE, ed_irq := CONFIG_ETH_IRQ,
                ed_lock := SPINLOCK_INIT\<rparr>) (net_of s);
          (features, w) = eth_negotiate hw w
      in case features of
           None \<Rightarrow> Some (STATUS_ERROR, net_put w s)
         | Some features \<Rightarrow> do {
             let w = eth_set_mac hw features w;
             (st, w) \<leftarrow> virtq_init hw RXQ VIRTQ_RX w;
             if st \<noteq> STATUS_OK
             then Some (STATUS_ERROR, net_put (eth_write VIRTIO_MMIO_STATUS VIRTIO_STATUS_FAILED w) s)
             else do {
               (st, w) \<leftarrow> virtq_init hw TXQ VIRTQ_TX w;
               if st \<noteq> STATUS_OK
               then Some (STATUS_ERROR, net_put (eth_write VIRTIO_MMIO_STATUS VIRTIO_STATUS_FAILED w) s)
               else eth_start h w s
             }
           })"

section \<open>What others read\<close>

definition eth_get_netif :: "net \<Rightarrow> ptr" where
  "eth_get_netif w = (if \<not> ed_initialized (n_eth w) then None else Some (ed_netif (n_eth w)))"

record eth_stats =
  es_rx_packets :: u64
  es_tx_packets :: u64
  es_rx_bytes :: u64
  es_tx_bytes :: u64
  es_rx_errors :: u64
  es_tx_errors :: u64
  es_rx_dropped :: u64

definition eth_get_stats :: "net \<Rightarrow> eth_stats" where
  "eth_get_stats w =
     (let d = n_eth w
      in \<lparr>es_rx_packets = ed_rx_packets d, es_tx_packets = ed_tx_packets d, es_rx_bytes = ed_rx_bytes d,
          es_tx_bytes = ed_tx_bytes d, es_rx_errors = ed_rx_errors d, es_tx_errors = ed_tx_errors d,
          es_rx_dropped = ed_rx_dropped d\<rparr>)"

end
