(* ===== verification/Virtq_Props.thy ===== *)
theory Virtq_Props
  imports Virtq
begin

text \<open>
  Properties of the virtqueues: the free descriptors as a stack threaded through \<open>next\<close>, the
  descriptors as an allocator, the ring slots of consecutive indices, and the queue a fresh
  initialisation leaves.
\<close>

section \<open>The free descriptors\<close>

fun vd_chain :: "(nat \<Rightarrow> vring_desc) \<Rightarrow> u16 \<Rightarrow> nat list \<Rightarrow> bool" where
  "vd_chain d h [] \<longleftrightarrow> True"
| "vd_chain d h (i # is) \<longleftrightarrow> unat h = i \<and> vd_chain d (vd_next (d i)) is"

lemma vd_chain_cong:
  "(\<And>i. i \<in> set is \<Longrightarrow> vd_next (d' i) = vd_next (d i)) \<Longrightarrow> vd_chain d' h is = vd_chain d h is"
  by (induction "is" arbitrary: h) auto

text \<open>\<open>fs\<close> are the free descriptors of a queue of \<open>n\<close>, the next to be taken first.\<close>

definition vq_free :: "nat \<Rightarrow> virtqueue \<Rightarrow> nat list \<Rightarrow> bool" where
  "vq_free n q fs \<longleftrightarrow> vd_chain (vq_desc q) (vq_free_head q) fs \<and> distinct fs \<and> set fs \<subseteq> {..<n} \<and>
     n \<le> VIRTQ_SIZE \<and> unat (vq_num_free q) = length fs"

lemma vq_free_length: "vq_free n q fs \<Longrightarrow> length fs \<le> n"
  using card_mono[of "{..<n}" "set fs"] by (auto simp: vq_free_def distinct_card)

lemma vq_free_cong:
  "vq_free_head q' = vq_free_head q \<Longrightarrow> vq_num_free q' = vq_num_free q \<Longrightarrow>
   (\<And>i. i \<in> set fs \<Longrightarrow> vd_next (vq_desc q' i) = vd_next (vq_desc q i)) \<Longrightarrow> vq_free n q' fs = vq_free n q fs"
  using vd_chain_cong[of fs "vq_desc q'" "vq_desc q"] by (simp add: vq_free_def)

lemma alloc_none: "vq_free n q [] \<Longrightarrow> virtq_alloc_desc q = Some (-1, q)"
  by (simp add: vq_free_def virtq_alloc_desc_def unat_eq_0)

lemma alloc_some:
  assumes "vq_free n q (i # fs)"
  shows "virtq_alloc_desc q = Some (int i, q\<lparr>vq_free_head := vd_next (vq_desc q i), vq_num_free := vq_num_free q - 1\<rparr>)"
    and "vq_free n (q\<lparr>vq_free_head := vd_next (vq_desc q i), vq_num_free := vq_num_free q - 1\<rparr>) fs"
proof -
  have i: "unat (vq_free_head q) = i" "i < 256" and nz: "vq_num_free q \<noteq> 0"
    using assms by (auto simp: vq_free_def VIRTQ_SIZE_def unat_gt_0[symmetric])
  then have "uint (vq_free_head q) = int i" by (metis of_nat_unat)
  then show "virtq_alloc_desc q = Some (int i, q\<lparr>vq_free_head := vd_next (vq_desc q i), vq_num_free := vq_num_free q - 1\<rparr>)"
    using i nz by (simp add: virtq_alloc_desc_def vd_get_def vd_ok_def VIRTQ_SIZE_def)
  show "vq_free n (q\<lparr>vq_free_head := vd_next (vq_desc q i), vq_num_free := vq_num_free q - 1\<rparr>) fs"
    using assms nz by (auto simp: vq_free_def unat_minus_one)
qed

lemma unat_inc_16: "unat (x :: u16) < 65535 \<Longrightarrow> unat (x + 1) = Suc (unat x)"
  by (simp add: unat_word_ariths)

lemma free_desc:
  assumes f: "vq_free n q fs" and i: "unat idx < n" "unat idx \<notin> set fs"
  shows "\<exists>q'. virtq_free_desc idx q = Some q' \<and> vq_free n q' (unat idx # fs) \<and>
    q' = q\<lparr>vq_desc := (vq_desc q)(unat idx := (vq_desc q (unat idx))\<lparr>vd_next := vq_free_head q\<rparr>),
           vq_free_head := idx, vq_num_free := vq_num_free q + 1\<rparr>"
proof -
  have n: "n \<le> 256" using f by (simp add: vq_free_def VIRTQ_SIZE_def)
  have "set (unat idx # fs) \<subseteq> {..<n}" "distinct (unat idx # fs)" using f i by (auto simp: vq_free_def)
  then have "length (unat idx # fs) \<le> n"
    using card_mono[of "{..<n}" "set (unat idx # fs)"] distinct_card[of "unat idx # fs"] by simp
  then have "unat (vq_num_free q + 1) = length (unat idx # fs)"
    using f n by (simp add: vq_free_def unat_inc_16)
  moreover have "vd_chain ((vq_desc q)(unat idx := (vq_desc q (unat idx))\<lparr>vd_next := vq_free_head q\<rparr>))
      (vq_free_head q) fs"
    using f i(2) by (subst vd_chain_cong[where d = "vq_desc q"]) (auto simp: vq_free_def)
  ultimately show ?thesis using f i n
    by (auto simp: virtq_free_desc_def vd_upd_def vd_ok_def vq_free_def VIRTQ_SIZE_def)
qed

section \<open>The descriptors as an allocator\<close>

definition vq_get_desc :: "unit \<Rightarrow> virtqueue \<Rightarrow> (ptr \<times> virtqueue) option" where
  "vq_get_desc u q = do { (i, q) \<leftarrow> virtq_alloc_desc q; Some (if i < 0 then None else Some i, q) }"

definition vq_put_desc :: "addr \<Rightarrow> virtqueue \<Rightarrow> virtqueue option" where
  "vq_put_desc a q = virtq_free_desc (of_int a) q"

definition vq_live :: "nat \<Rightarrow> nat list \<Rightarrow> addr set" where
  "vq_live n fs = int ` ({..<n} - set fs)"

interpretation vdesc: allocator "vq_free n" "vq_live n" vq_get_desc vq_put_desc for n
proof unfold_locales
  fix q fs and u :: unit
  assume f: "vq_free n q fs"
  show "\<exists>p q' fs'. vq_get_desc u q = Some (p, q') \<and> vq_free n q' fs' \<and>
     (case p of None \<Rightarrow> vq_live n fs' = vq_live n fs
      | Some a \<Rightarrow> a \<notin> vq_live n fs \<and> vq_live n fs' = insert a (vq_live n fs))"
  proof (cases fs)
    case Nil
    then show ?thesis
      using f alloc_none[of n q] by (intro exI[of _ None] exI[of _ q] exI[of _ "[]"]) (auto simp: vq_get_desc_def)
  next
    case (Cons i fs')
    let ?q = "q\<lparr>vq_free_head := vd_next (vq_desc q i), vq_num_free := vq_num_free q - 1\<rparr>"
    have "i < n" "i \<notin> set fs'" using f Cons by (auto simp: vq_free_def)
    then have "vq_live n fs' = insert (int i) (vq_live n fs)" "int i \<notin> vq_live n fs"
      by (auto simp: vq_live_def Cons)
    then show ?thesis
      using alloc_some[of n q i fs'] f Cons
      by (intro exI[of _ "Some (int i)"] exI[of _ ?q] exI[of _ fs']) (auto simp: vq_get_desc_def)
  qed
next
  fix q fs a
  assume f: "vq_free n q fs" and a: "a \<in> vq_live n fs"
  then obtain i where i: "a = int i" "i < n" "i \<notin> set fs" by (auto simp: vq_live_def)
  then have "unat (of_int a :: u16) = i"
    using f by (simp add: vq_free_def VIRTQ_SIZE_def unat_of_nat take_bit_nat_eq_self)
  then obtain q' where "virtq_free_desc (of_int a) q = Some q'" "vq_free n q' (i # fs)"
    using free_desc[OF f, of "of_int a"] i by auto
  moreover have "vq_live n (i # fs) = vq_live n fs - {a}" using i by (auto simp: vq_live_def)
  ultimately show "\<exists>q' fs'. vq_put_desc a q = Some q' \<and> vq_free n q' fs' \<and> vq_live n fs' = vq_live n fs - {a}"
    by (auto simp: vq_put_desc_def)
qed

section \<open>A fresh queue\<close>

lemma link_fold:
  "fold (\<lambda>i d. d(i := (d i)\<lparr>vd_next := f i\<rparr>)) [0 ..< k] d =
   (\<lambda>i. if i < k then (d i)\<lparr>vd_next := f i\<rparr> else d i)"
  by (induction k) (auto simp: fun_eq_iff)

lemma vd_chain_upt:
  "j \<le> k \<Longrightarrow> k < 65536 \<Longrightarrow> (\<And>i. j \<le> i \<Longrightarrow> i < k - 1 \<Longrightarrow> vd_next (d i) = of_nat (i + 1)) \<Longrightarrow>
   vd_chain d (of_nat j) [j ..< k]"
proof (induction "k - j" arbitrary: j)
  case (Suc m)
  then have j: "j < k" "[j ..< k] = j # [Suc j ..< k]" by (auto simp: upt_conv_Cons)
  show ?case
  proof (cases "Suc j = k")
    case True
    then show ?thesis using Suc.prems(2) j by (simp add: unat_of_nat take_bit_nat_eq_self)
  next
    case False
    then have "vd_chain d (of_nat (Suc j)) [Suc j ..< k]"
      using Suc.hyps(2) Suc.prems j by (intro Suc.hyps(1)) auto
    moreover have "vd_next (d j) = of_nat (Suc j)" using Suc.prems(3)[of j] False j by simp
    ultimately show ?thesis using Suc.prems(2) j by (simp add: unat_of_nat take_bit_nat_eq_self)
  qed
qed simp

text \<open>The queue after \<open>virtq_init\<close> with \<open>qmax\<close> descriptors at \<open>mem\<close>.\<close>

definition virtq_fresh :: "u32 \<Rightarrow> addr \<Rightarrow> virtqueue \<Rightarrow> virtqueue" where
  "virtq_fresh qmax mem q =
     virtq_link qmax (virtq_clear qmax mem
       (q\<lparr>vq_num := ucast qmax, vq_free_head := 0, vq_num_free := ucast qmax, vq_last_used_idx := 0,
          vq_lock := SPINLOCK_INIT\<rparr>))"

lemma virtq_fresh_simps [simp]:
  "vq_num (virtq_fresh qmax mem q) = ucast qmax" "vq_num_free (virtq_fresh qmax mem q) = ucast qmax"
  "vq_free_head (virtq_fresh qmax mem q) = 0" "vq_last_used_idx (virtq_fresh qmax mem q) = 0"
  "vq_used_idx (virtq_fresh qmax mem q) = 0" "vq_avail_idx (virtq_fresh qmax mem q) = 0"
  "vq_lock (virtq_fresh qmax mem q) = SPINLOCK_INIT" "vq_buffers (virtq_fresh qmax mem q) = vq_buffers q"
  by (simp_all add: virtq_fresh_def virtq_link_def virtq_clear_def Let_def)

lemma virtq_fresh_free:
  assumes "0 < unat qmax" and "unat qmax \<le> VIRTQ_SIZE"
  shows "vq_free (unat qmax) (virtq_fresh qmax mem q) [0 ..< unat qmax]"
proof -
  have m: "unat (qmax - 1) = unat qmax - 1" using assms(1) by (simp add: unat_minus_one unat_gt_0)
  have "vd_chain (vq_desc (virtq_fresh qmax mem q)) (of_nat 0) [0 ..< unat qmax]"
    using assms by (intro vd_chain_upt)
      (auto simp: virtq_fresh_def virtq_link_def link_fold m Let_def VIRTQ_SIZE_def)
  moreover have "unat (ucast qmax :: u16) = unat qmax"
    using assms(2) by (simp add: unsigned_ucast_eq take_bit_nat_eq_self VIRTQ_SIZE_def)
  ultimately show ?thesis using assms by (auto simp: vq_free_def)
qed

lemma card_vq_live: "vq_free n q fs \<Longrightarrow> card (vq_live n fs) = n - length fs"
  by (auto simp: vq_live_def vq_free_def card_image inj_on_def card_Diff_subset distinct_card)

abbreviation vdesc_client :: "unit client_op list \<Rightarrow> addr list \<Rightarrow> virtqueue \<Rightarrow> (addr list \<times> virtqueue) option" where
  "vdesc_client \<equiv> client_run vq_get_desc vq_put_desc"

text \<open>Descriptors are neither lost nor handed out twice. On the queue \<open>virtq_init\<close> leaves, with any
  size up to 256, every sequence of \<open>virtq_alloc_desc\<close> and \<open>virtq_free_desc\<close> calls of a client that
  gives back only what it holds goes through, and at its end the descriptors held are different ones
  of the queue, and with the free ones they are all of them.\<close>

theorem virtq_client_safe:
  assumes "0 < unat qmax" and "unat qmax \<le> VIRTQ_SIZE"
  shows "\<exists>held q'. vdesc_client ops [] (virtq_fresh qmax mem q) = Some (held, q') \<and> distinct held \<and>
    set held \<subseteq> {0 ..< uint qmax} \<and> length held + unat (vq_num_free q') = unat qmax"
proof -
  note free = virtq_fresh_free[OF assms, of mem q]
  obtain held q' fs where r: "vdesc_client ops [] (virtq_fresh qmax mem q) = Some (held, q')"
    "vq_free (unat qmax) q' fs" "distinct held" "set held = vq_live (unat qmax) fs"
    using vdesc.client_run_safe[OF free, of "[]" ops] by (auto simp: vq_live_def[of _ "[0 ..< unat qmax]"] atLeast0LessThan)
  then have "length held = unat qmax - length fs" using card_vq_live[OF r(2)] distinct_card[OF r(3)] by simp
  then show ?thesis
    using r vq_free_length[OF r(2)] by (auto simp: vq_free_def vq_live_def int_less_uint)
qed

theorem virtq_client_safe_witness:
  "\<exists>held q'. vdesc_client [Get (), Get (), Put 0, Get ()] [] (virtq_fresh 4 0x4000 virtq_demo) = Some (held, q') \<and>
     distinct held \<and> set held \<subseteq> {0 ..< 4} \<and> length held + unat (vq_num_free q') = 4"
  using virtq_client_safe[of 4 "[Get (), Get (), Put 0, Get ()]" "0x4000" virtq_demo] by (simp add: VIRTQ_SIZE_def)

end
