(* ===== verification/Ring.thy ===== *)
theory Ring
  imports Base
begin

text \<open>
  Rings whose positions are 16-bit counters: the values in consecutive slots as a list, and the ring buffer
  whose head and tail are kept below the number of slots.
\<close>

section \<open>Consecutive slots\<close>

definition ring_list :: "(nat \<Rightarrow> 'a) \<Rightarrow> u16 \<Rightarrow> u16 \<Rightarrow> nat \<Rightarrow> 'a list" where
  "ring_list f num i m = map (\<lambda>j. f (unat ((i + of_nat j) mod num))) [0 ..< m]"

lemma length_ring_list [simp]: "length (ring_list f num i m) = m"
  by (simp add: ring_list_def)

lemma ring_list_0 [simp]: "ring_list f num i 0 = []"
  by (simp add: ring_list_def)

lemma ring_list_Suc: "ring_list f num i (Suc m) = f (unat (i mod num)) # ring_list f num (i + 1) m"
  by (simp add: ring_list_def upt_conv_Cons map_Suc_upt[symmetric] comp_def ac_simps del: upt_Suc map_Suc_upt)

lemma ring_list_snoc: "ring_list f num i (Suc m) = ring_list f num i m @ [f (unat ((i + of_nat m) mod num))]"
  by (simp add: ring_list_def)

lemma slot_at:
  assumes "unat (num :: u16) dvd 65536"
  shows "unat ((i + of_nat j) mod num) = (unat i + j) mod unat num"
proof -
  have "unat (i + of_nat j) mod unat num = (unat i + j mod 65536) mod 65536 mod unat num"
    by (simp add: unat_word_ariths unat_of_nat take_bit_eq_mod)
  also have "\<dots> = (unat i + j) mod unat num"
    using assms by (simp add: mod_mod_cancel mod_add_right_eq)
  finally show ?thesis by (simp add: unat_mod_distrib)
qed

lemma mod_add_inj:
  assumes "(a + j) mod n = (a + k) mod n" and "j < n" and "k < (n :: nat)"
  shows "j = k"
proof -
  have "(a + j) mod n = (a + k) mod n \<Longrightarrow> j \<le> k \<Longrightarrow> k < n \<Longrightarrow> j = k" for j k
  proof -
    assume e: "(a + j) mod n = (a + k) mod n" and jk: "j \<le> k" "k < n"
    have "n dvd (a + k) - (a + j)" using e jk by (metis mod_eq_dvd_iff_nat nat_add_left_cancel_le)
    then show "j = k" using jk by (auto dest: dvd_imp_le)
  qed
  from this[of j k] this[of k j] assms show ?thesis by (metis nat_le_linear)
qed

text \<open>A write \<open>m\<close> slots further, fewer than the ring has, is not seen.\<close>

lemma ring_list_upd:
  assumes "unat num dvd 65536" and "m < unat num"
  shows "ring_list (f(unat ((i + of_nat m) mod num) := v)) num i m = ring_list f num i m"
  using assms mod_add_inj[of "unat i" _ "unat num" m]
  by (auto simp: ring_list_def slot_at) (metis less_trans nat_neq_iff)

section \<open>Head and tail\<close>

definition ring_next :: "u16 \<Rightarrow> u16" where "ring_next i = (i + 1) mod 256"

definition ring_used :: "u16 \<Rightarrow> u16 \<Rightarrow> nat" where
  "ring_used h t = (unat h + 256 - unat t) mod 256"

lemma ring_next_nat: "unat (ring_next i) = (unat i + 1) mod 256"
proof -
  have "unat (ring_next i) = unat (i + 1) mod 256" unfolding ring_next_def by (simp add: unat_mod)
  also have "unat (i + 1) = (unat i + 1) mod 65536" by (simp add: unat_word_ariths)
  finally show ?thesis by (simp add: mod_mod_cancel)
qed

lemma ring_next_less [simp]: "unat (ring_next i) < 256"
  by (simp add: ring_next_nat)

lemma ring_used_less: "ring_used h t < 256" by (simp add: ring_used_def)

lemma ring_used_same [simp]: "unat t < 256 \<Longrightarrow> ring_used t t = 0"
  by (simp add: ring_used_def)

lemma ring_used_cases:
  assumes "unat h < 256" "unat t < 256"
  shows "ring_used h t = (if unat t \<le> unat h then unat h - unat t else unat h + 256 - unat t)"
proof (cases "unat t \<le> unat h")
  case True
  then have "unat h + 256 - unat t = 256 + (unat h - unat t)" by simp
  then have "ring_used h t = (unat h - unat t) mod 256" unfolding ring_used_def by (simp only: mod_add_self1)
  moreover have "unat h - unat t < 256" using assms by simp
  ultimately show ?thesis using True by simp
next
  case False
  then have "unat h + 256 - unat t < 256" by simp
  then show ?thesis unfolding ring_used_def using False by simp
qed

lemma ring_next_cases:
  assumes "unat h < 256"
  shows "unat (ring_next h) = (if unat h = 255 then 0 else unat h + 1)"
  using assms unfolding ring_next_nat by (simp add: mod_if)

lemma ring_used_push:
  assumes "unat h < 256" "unat t < 256" "ring_next h \<noteq> t"
  shows "ring_used (ring_next h) t = Suc (ring_used h t)"
proof -
  have n: "unat (ring_next h) \<noteq> unat t" using assms(3) by (simp add: word_unat_eq_iff)
  define H T N where "H = unat h" "T = unat t" "N = unat (ring_next h)"
  have "N = (if H = 255 then 0 else H + 1)" "N \<noteq> T" "H < 256" "T < 256"
    using ring_next_cases [OF assms(1)] n assms by (simp_all add: H_T_N_def)
  then show ?thesis
    unfolding ring_used_cases [OF assms(1,2)] ring_used_cases [OF ring_next_less assms(2)] H_T_N_def [symmetric]
    by (auto split: if_splits)
qed

lemma ring_used_full:
  assumes "unat h < 256" "unat t < 256"
  shows "ring_next h = t \<longleftrightarrow> ring_used h t = 255"
proof -
  define H T where "H = unat h" "T = unat t"
  have "ring_next h = t \<longleftrightarrow> (if H = 255 then 0 else H + 1) = T" "H < 256" "T < 256"
    using ring_next_cases [OF assms(1)] assms by (simp_all add: H_T_def word_unat_eq_iff)
  then show ?thesis
    unfolding ring_used_cases [OF assms(1,2)] H_T_def [symmetric] by (auto split: if_splits)
qed

lemma ring_used_pop:
  assumes "unat h < 256" "unat t < 256" "t \<noteq> h"
  shows "ring_used h t = Suc (ring_used h (ring_next t))"
proof -
  have n: "unat t \<noteq> unat h" using assms(3) by (simp add: word_unat_eq_iff)
  define H T N where "H = unat h" "T = unat t" "N = unat (ring_next t)"
  have "N = (if T = 255 then 0 else T + 1)" "T \<noteq> H" "H < 256" "T < 256"
    using ring_next_cases [OF assms(2)] n assms by (simp_all add: H_T_N_def)
  then show ?thesis
    unfolding ring_used_cases [OF assms(1,2)] ring_used_cases [OF assms(1) ring_next_less] H_T_N_def [symmetric]
    by (auto split: if_splits)
qed

lemma ring_used_zero:
  assumes "unat h < 256" "unat t < 256"
  shows "ring_used h t = 0 \<longleftrightarrow> t = h"
proof (cases "t = h")
  case False
  then show ?thesis using ring_used_pop [OF assms False] by simp
qed (use assms in simp)

text \<open>The values between tail and head, the oldest first.\<close>

definition ring_values :: "(nat \<Rightarrow> 'a) \<Rightarrow> u16 \<Rightarrow> u16 \<Rightarrow> 'a list" where
  "ring_values f h t = ring_list f 256 t (ring_used h t)"

lemma length_ring_values [simp]: "length (ring_values f h t) = ring_used h t"
  by (simp add: ring_values_def)

lemma ring_values_empty [simp]: "unat t < 256 \<Longrightarrow> ring_values f t t = []"
  by (simp add: ring_values_def)

lemma ring_list_next: "ring_list f 256 (ring_next i) m = ring_list f 256 (i + 1) m"
proof -
  have "unat ((ring_next i + of_nat j) mod 256) = unat ((i + 1 + of_nat j) mod 256)" for j
  proof -
    have "unat ((i + of_nat (1 + j)) mod 256) = (unat i + (1 + j)) mod 256"
      using slot_at [of "256 :: u16" i "1 + j"] by simp
    moreover have "unat ((ring_next i + of_nat j) mod 256) = (unat (ring_next i) + j) mod 256"
      using slot_at [of "256 :: u16" "ring_next i" j] by simp
    moreover have "(unat (ring_next i) + j) mod 256 = (unat i + (1 + j)) mod 256"
      unfolding ring_next_nat mod_add_left_eq by (simp add: ac_simps)
    moreover have "i + of_nat (1 + j) = i + 1 + of_nat j" by simp
    ultimately show ?thesis by metis
  qed
  then show ?thesis by (simp add: ring_list_def)
qed

lemma ring_values_pop:
  assumes "unat h < 256" "unat t < 256" "t \<noteq> h"
  shows "ring_values f h t = f (unat t) # ring_values f h (ring_next t)"
proof -
  have "unat (t mod 256) = unat t" using assms(2) by (simp add: unat_mod)
  then show ?thesis
    unfolding ring_values_def ring_used_pop [OF assms] ring_list_Suc ring_list_next by simp
qed

lemma ring_values_push:
  assumes "unat h < 256" "unat t < 256" "ring_next h \<noteq> t"
  shows "ring_values (f(unat h := v)) (ring_next h) t = ring_values f h t @ [v]"
proof -
  have "(unat t + ring_used h t) mod 256 = unat h"
  proof (cases "unat t \<le> unat h")
    case True
    then have "unat t + ring_used h t = unat h" using ring_used_cases [OF assms(1,2)] by simp
    then show ?thesis using assms(1) by simp
  next
    case False
    then have "unat t + ring_used h t = unat h + 256" using ring_used_cases [OF assms(1,2)] assms(2) by simp
    then show ?thesis using assms(1) by simp
  qed
  then have s: "unat ((t + of_nat (ring_used h t)) mod 256) = unat h"
    using slot_at [of "256 :: u16" t "ring_used h t"] by simp
  have "ring_list (f(unat h := v)) 256 t (ring_used h t) = ring_list f 256 t (ring_used h t)"
    using ring_list_upd [of "256 :: u16" "ring_used h t" f t v] ring_used_less [of h t] s by simp
  then show ?thesis
    unfolding ring_values_def ring_used_push [OF assms] ring_list_snoc s by simp
qed

end
