(* ===== verification/Eth_Ring.thy ===== *)
theory Eth_Ring
  imports Eth Virtq_Props Ring
begin

text \<open>
  The rings of a virtqueue as two lists: the chains posted and not yet taken by the device, and the
  chains the device has given back and the driver has not yet looked at. What posting, the device and
  collecting do to them, and the invariant of a queue.
\<close>

section \<open>Differences of indices\<close>

lemma less_65536: "unat (x :: u16) < 65536"
  using unsigned_less[of x, where 'a = nat] by simp

lemma diff_inc: "unat (a - b :: u16) < 65535 \<Longrightarrow> unat (a + 1 - b) = Suc (unat (a - b))"
  using unat_inc_16[of "a - b"] by (simp add: algebra_simps)

lemma diff_dec: "(a :: u16) \<noteq> b \<Longrightarrow> unat (a - b) = Suc (unat (a - (b + 1)))"
  using unat_minus_one[of "a - b"] by (simp add: algebra_simps unat_gt_0 right_minus_eq)

section \<open>What is on the rings\<close>

definition vq_posted :: "virtqueue \<Rightarrow> nat list" where
  "vq_posted q = map unat (ring_list (vq_avail q) (vq_num q) (vq_used_idx q) (unat (vq_avail_idx q - vq_used_idx q)))"

definition vq_returned :: "virtqueue \<Rightarrow> nat list" where
  "vq_returned q = map (\<lambda>e. unat (ucast (ue_id e) :: u16))
     (ring_list (vq_used q) (vq_num q) (vq_last_used_idx q) (unat (vq_used_idx q - vq_last_used_idx q)))"

lemma vq_posted_cong:
  "vq_avail q' = vq_avail q \<Longrightarrow> vq_num q' = vq_num q \<Longrightarrow> vq_used_idx q' = vq_used_idx q \<Longrightarrow>
   vq_avail_idx q' = vq_avail_idx q \<Longrightarrow> vq_posted q' = vq_posted q"
  by (simp add: vq_posted_def)

lemma vq_returned_cong:
  "vq_used q' = vq_used q \<Longrightarrow> vq_num q' = vq_num q \<Longrightarrow> vq_used_idx q' = vq_used_idx q \<Longrightarrow>
   vq_last_used_idx q' = vq_last_used_idx q \<Longrightarrow> vq_returned q' = vq_returned q"
  by (simp add: vq_returned_def)

lemma vq_posted_Nil: "vq_posted q = [] \<longleftrightarrow> vq_used_idx q = vq_avail_idx q"
  using right_minus_eq[of "vq_avail_idx q" "vq_used_idx q"]
  by (auto simp: vq_posted_def unsigned_eq_0_iff simp flip: length_0_conv)

lemma vq_returned_Nil: "vq_returned q = [] \<longleftrightarrow> vq_last_used_idx q = vq_used_idx q"
  using right_minus_eq[of "vq_used_idx q" "vq_last_used_idx q"]
  by (auto simp: vq_returned_def unsigned_eq_0_iff simp flip: length_0_conv)

lemma virtq_post_list:
  assumes n: "vq_num q \<noteq> 0" "unat (vq_num q) dvd 65536" and l: "length (vq_posted q) < unat (vq_num q)"
  shows "\<exists>q'. virtq_post h q = Some q' \<and> vq_posted q' = vq_posted q @ [unat h] \<and> vq_returned q' = vq_returned q \<and>
    q' = q\<lparr>vq_avail := vq_avail q', vq_avail_idx := vq_avail_idx q + 1\<rparr>"
proof -
  let ?m = "unat (vq_avail_idx q - vq_used_idx q)"
  let ?q = "q\<lparr>vq_avail := (vq_avail q)(unat (vq_avail_idx q mod vq_num q) := h), vq_avail_idx := vq_avail_idx q + 1\<rparr>"
  have m: "?m < unat (vq_num q)" using l by (simp add: vq_posted_def)
  have e: "vq_used_idx q + of_nat ?m = vq_avail_idx q" by simp
  have "?m < 65535" using m less_65536[of "vq_num q"] by simp
  then have "vq_posted ?q = vq_posted q @ [unat h]"
    using ring_list_upd[OF n(2) m, of "vq_avail q" "vq_used_idx q" h] e
    by (simp add: vq_posted_def diff_inc ring_list_snoc)
  then show ?thesis using n(1)
    by (intro exI[of _ ?q]) (auto simp: virtq_post_def ring_slot_def vq_returned_def)
qed

text \<open>
  The device, taking the chains in the order they were posted: the oldest one goes to the used ring
  with the number of bytes written.
\<close>

definition dev_return :: "u32 \<Rightarrow> virtqueue \<Rightarrow> virtqueue" where
  "dev_return len q =
     (let s = unat (vq_used_idx q mod vq_num q)
      in q\<lparr>vq_used := (vq_used q)(s := \<lparr>ue_id = ucast (vq_avail q s), ue_len = len\<rparr>),
           vq_used_idx := vq_used_idx q + 1\<rparr>)"

lemma dev_return_list:
  assumes n: "unat (vq_num q) dvd 65536" and l: "length (vq_returned q) < unat (vq_num q)"
    and ne: "vq_used_idx q \<noteq> vq_avail_idx q"
  shows "vq_posted q = unat (vq_avail q (unat (vq_used_idx q mod vq_num q))) # vq_posted (dev_return len q)"
    and "vq_returned (dev_return len q) = vq_returned q @ [hd (vq_posted q)]"
proof -
  show p: "vq_posted q = unat (vq_avail q (unat (vq_used_idx q mod vq_num q))) # vq_posted (dev_return len q)"
    using diff_dec[OF ne[symmetric]] by (simp add: vq_posted_def dev_return_def Let_def ring_list_Suc)
  let ?m = "unat (vq_used_idx q - vq_last_used_idx q)"
  have m: "?m < unat (vq_num q)" using l by (simp add: vq_returned_def)
  have e: "vq_last_used_idx q + of_nat ?m = vq_used_idx q" by simp
  have "?m < 65535" using m less_65536[of "vq_num q"] by simp
  then show "vq_returned (dev_return len q) = vq_returned q @ [hd (vq_posted q)]"
    using ring_list_upd[OF n m, of "vq_used q" "vq_last_used_idx q"] e p
    by (simp add: vq_returned_def dev_return_def Let_def diff_inc ring_list_snoc unsigned_ucast_eq
        take_bit_nat_eq_self less_65536)
qed

lemma vq_returned_next:
  assumes "vq_last_used_idx q \<noteq> vq_used_idx q"
  shows "vq_returned q = unat (ucast (ue_id (vq_used q (unat (vq_last_used_idx q mod vq_num q)))) :: u16) #
    vq_returned (q\<lparr>vq_last_used_idx := vq_last_used_idx q + 1\<rparr>)"
  using diff_dec[OF assms[symmetric]] by (simp add: vq_returned_def ring_list_Suc)

section \<open>The invariant of a queue\<close>

text \<open>
  Every descriptor is free, posted or given back, exactly one of the three, and exactly the ones in
  flight have a buffer, each its own.
\<close>

definition vq_flight :: "virtqueue \<Rightarrow> nat list" where
  "vq_flight q = vq_returned q @ vq_posted q"

definition vq_inv :: "virtqueue \<Rightarrow> nat list \<Rightarrow> bool" where
  "vq_inv q fs \<longleftrightarrow>
     vq_num q \<noteq> 0 \<and> unat (vq_num q) dvd 65536 \<and> vq_free (unat (vq_num q)) q fs \<and>
     distinct (fs @ vq_flight q) \<and> set (fs @ vq_flight q) = {..<unat (vq_num q)} \<and>
     (\<forall>h. vq_buffers q h \<noteq> None \<longleftrightarrow> h \<in> set (vq_flight q)) \<and>
     (\<forall>h k. vq_buffers q h = vq_buffers q k \<and> vq_buffers q h \<noteq> None \<longrightarrow> h = k)"

lemma vq_inv_length: "vq_inv q fs \<Longrightarrow> length fs + length (vq_returned q) + length (vq_posted q) = unat (vq_num q)"
  using distinct_card[of "fs @ vq_flight q"] by (simp add: vq_inv_def vq_flight_def)

lemma vq_inv_lock [simp]: "vq_inv (vq_lock_update f q) fs = vq_inv q fs"
  by (simp add: vq_inv_def vq_flight_def vq_posted_def vq_returned_def vq_free_def)

lemma vq_lists_lock [simp]:
  "vq_posted (vq_lock_update f q) = vq_posted q" "vq_returned (vq_lock_update f q) = vq_returned q"
  by (simp_all add: vq_posted_def vq_returned_def)

lemma vq_inv_bound: "vq_inv q fs \<Longrightarrow> i \<in> set (fs @ vq_flight q) \<Longrightarrow> i < 256"
  by (auto simp: vq_inv_def vq_free_def VIRTQ_SIZE_def subset_iff)

lemma unat_of_nat_256: "i < 256 \<Longrightarrow> unat (of_nat i :: u16) = i"
  by (simp add: unat_of_nat take_bit_nat_eq_self)

text \<open>Posting a chain of one descriptor with the buffer \<open>zb\<close>, as the sender does it.\<close>

lemma vq_post_inv:
  assumes inv: "vq_inv q (i # fs)" and zb: "\<forall>h. vq_buffers q h \<noteq> Some zb"
  shows "\<exists>q1 q2 q'. virtq_alloc_desc q = Some (int i, q1) \<and> vd_upd (of_nat i) f q1 = Some q2 \<and>
    virtq_post (of_nat i) (q2\<lparr>vq_buffers := (vq_buffers q2)(i := Some zb)\<rparr>) = Some q' \<and> vq_inv q' fs \<and>
    vq_posted q' = vq_posted q @ [i] \<and> vq_returned q' = vq_returned q \<and>
    vq_desc q' = (vq_desc q)(i := f (vq_desc q i)) \<and> vq_buffers q' = (vq_buffers q)(i := Some zb) \<and>
    vq_used_idx q' = vq_used_idx q \<and> vq_avail_idx q' = vq_avail_idx q + 1 \<and> vq_lock q' = vq_lock q"
proof -
  have free: "vq_free (unat (vq_num q)) q (i # fs)" and num: "vq_num q \<noteq> 0" "unat (vq_num q) dvd 65536"
    using inv by (auto simp: vq_inv_def)
  define q1 where "q1 = q\<lparr>vq_free_head := vd_next (vq_desc q i), vq_num_free := vq_num_free q - 1\<rparr>"
  define q2 where "q2 = q1\<lparr>vq_desc := (vq_desc q)(i := f (vq_desc q i))\<rparr>"
  define q3 where "q3 = q2\<lparr>vq_buffers := (vq_buffers q2)(i := Some zb)\<rparr>"
  have i: "i < 256" "unat (of_nat i :: u16) = i" "i \<notin> set fs"
    using vq_inv_bound[OF inv, of i] unat_of_nat_256 inv by (auto simp: vq_inv_def)
  have a: "virtq_alloc_desc q = Some (int i, q1)" "vq_free (unat (vq_num q)) q1 fs"
    using alloc_some[OF free] by (simp_all add: q1_def)
  have u: "vd_upd (of_nat i) f q1 = Some q2"
    using i by (simp add: vd_upd_def vd_ok_def VIRTQ_SIZE_def q2_def q1_def)
  have same: "vq_posted q3 = vq_posted q" "vq_returned q3 = vq_returned q" "vq_num q3 = vq_num q"
    by (simp_all add: q3_def q2_def q1_def vq_posted_def vq_returned_def)
  have "length (vq_posted q3) < unat (vq_num q3)" using vq_inv_length[OF inv] same by simp
  then obtain q' where q': "virtq_post (of_nat i) q3 = Some q'" "vq_posted q' = vq_posted q @ [i]"
    "vq_returned q' = vq_returned q" "q' = q3\<lparr>vq_avail := vq_avail q', vq_avail_idx := vq_avail_idx q3 + 1\<rparr>"
    using virtq_post_list[of q3 "of_nat i"] num same i(2) by auto
  have f': "vq_num q' = vq_num q" "vq_free_head q' = vq_free_head q1" "vq_num_free q' = vq_num_free q1"
    "vq_desc q' = (vq_desc q)(i := f (vq_desc q i))" "vq_buffers q' = (vq_buffers q)(i := Some zb)"
    "vq_used_idx q' = vq_used_idx q" "vq_avail_idx q' = vq_avail_idx q + 1" "vq_lock q' = vq_lock q"
    by (subst q'(4); simp add: q3_def q2_def q1_def)+
  have "vq_free (unat (vq_num q)) q' fs"
    using a(2) i(3) f' by (subst vq_free_cong[where q = q1]) (auto simp: q1_def)
  moreover have "set (fs @ vq_flight q') = set ((i # fs) @ vq_flight q)" "distinct (fs @ vq_flight q')"
    using inv q'(2,3) by (auto simp: vq_flight_def vq_inv_def)
  ultimately have "vq_inv q' fs"
    using inv zb f' q'(2,3) i(3) unfolding vq_inv_def vq_flight_def by (auto simp: fun_upd_def)
  then show ?thesis using a u q' f' by (auto simp: q3_def)
qed

lemma dev_return_inv:
  assumes inv: "vq_inv q fs" and ne: "vq_used_idx q \<noteq> vq_avail_idx q"
  shows "vq_inv (dev_return len q) fs" "vq_posted q = hd (vq_posted q) # vq_posted (dev_return len q)"
    "vq_returned (dev_return len q) = vq_returned q @ [hd (vq_posted q)]"
proof -
  have "vq_posted q \<noteq> []" using ne by (simp add: vq_posted_Nil)
  then have "length (vq_returned q) < unat (vq_num q)" using vq_inv_length[OF inv] by (cases "vq_posted q") auto
  note l = dev_return_list[OF _ this ne, of len]
  show p: "vq_posted q = hd (vq_posted q) # vq_posted (dev_return len q)"
    and r: "vq_returned (dev_return len q) = vq_returned q @ [hd (vq_posted q)]"
    using l inv by (auto simp: vq_inv_def)
  have "vq_flight (dev_return len q) = vq_flight q" using p r by (simp add: vq_flight_def)
  then show "vq_inv (dev_return len q) fs"
    using inv unfolding vq_inv_def vq_free_def by (auto simp: dev_return_def Let_def)
qed

text \<open>Collecting the oldest chain the device has given back.\<close>

lemma vq_collect_inv:
  assumes inv: "vq_inv q fs" and ne: "vq_last_used_idx q \<noteq> vq_used_idx q"
    and idx: "idx = ucast (ue_id (vq_used q (unat (vq_last_used_idx q mod vq_num q))))"
  shows "\<exists>q1 q' rs. vq_returned q = unat idx # rs \<and> unat idx < 256 \<and>
    virtq_free_desc idx (q\<lparr>vq_buffers := (vq_buffers q)(unat idx := None)\<rparr>) = Some q1 \<and>
    q' = q1\<lparr>vq_last_used_idx := vq_last_used_idx q1 + 1\<rparr> \<and> vq_inv q' (unat idx # fs) \<and>
    vq_returned q' = rs \<and> vq_posted q' = vq_posted q \<and> vq_used_idx q' = vq_used_idx q \<and>
    vq_avail_idx q' = vq_avail_idx q \<and> vq_lock q' = vq_lock q \<and>
    vq_buffers q' = (vq_buffers q)(unat idx := None) \<and>
    (\<forall>h. vd_addr (vq_desc q' h) = vd_addr (vq_desc q h) \<and> vd_len (vq_desc q' h) = vd_len (vq_desc q h))"
proof -
  let ?i = "unat idx" and ?q = "q\<lparr>vq_buffers := (vq_buffers q)(unat idx := None)\<rparr>"
  define rs where "rs = vq_returned (q\<lparr>vq_last_used_idx := vq_last_used_idx q + 1\<rparr>)"
  have r: "vq_returned q = ?i # rs" using vq_returned_next[OF ne] idx by (simp add: rs_def)
  have i: "?i < unat (vq_num q)" "?i \<notin> set fs" "?i < 256"
    using inv r vq_inv_bound[OF inv, of ?i] by (auto simp: vq_inv_def vq_flight_def)
  have "vq_free (unat (vq_num q)) ?q fs" using inv by (simp add: vq_inv_def vq_free_def)
  from free_desc[OF this i(1,2)] obtain q1 where q1: "virtq_free_desc idx ?q = Some q1"
    "vq_free (unat (vq_num q)) q1 (?i # fs)"
    "q1 = ?q\<lparr>vq_desc := (vq_desc q)(?i := (vq_desc q ?i)\<lparr>vd_next := vq_free_head q\<rparr>),
       vq_free_head := idx, vq_num_free := vq_num_free q + 1\<rparr>"
    by auto
  define q' where "q' = q1\<lparr>vq_last_used_idx := vq_last_used_idx q1 + 1\<rparr>"
  have rest: "vq_returned q' = rs" "vq_posted q' = vq_posted q" "vq_used_idx q' = vq_used_idx q"
    "vq_avail_idx q' = vq_avail_idx q" "vq_lock q' = vq_lock q" "vq_num q' = vq_num q"
    "vq_buffers q' = (vq_buffers q)(?i := None)"
    "\<forall>h. vd_addr (vq_desc q' h) = vd_addr (vq_desc q h) \<and> vd_len (vq_desc q' h) = vd_len (vq_desc q h)"
    by (simp_all add: q'_def q1(3) vq_posted_def vq_returned_def rs_def)
  have "vq_free (unat (vq_num q)) q' (?i # fs)" using q1(2) by (simp add: q'_def vq_free_def)
  moreover have "set ((?i # fs) @ vq_flight q') = set (fs @ vq_flight q)" "distinct ((?i # fs) @ vq_flight q')"
    using inv r rest(1,2) by (auto simp: vq_flight_def vq_inv_def)
  ultimately have "vq_inv q' (?i # fs)"
    using inv rest r unfolding vq_inv_def vq_flight_def by (auto simp: fun_upd_def split: if_splits)
  then show ?thesis using q1(1) q'_def r i rest by blast
qed

end
