(* ===== verification/Eth_Props.thy ===== *)
theory Eth_Props
  imports Eth_Ring Net_Props
begin

text \<open>
  Properties of the virtio network driver of \<open>drivers/eth/eth.c\<close>: frames sent are found by the device
  in the order they were sent, with the bytes they had, and their descriptors come back; no frame is ever
  received; and an interrupt that comes while a frame is being sent never returns.
\<close>

section \<open>Access\<close>

lemma vq_get_set [simp]: "vq_get x (vq_set y q w) = (if x = y then q else vq_get x w)"
  by (cases x; cases y) (simp_all add: vq_get_def vq_set_def ed_upd_def)

lemma vq_get_upd [simp]: "vq_get x (vq_upd y f w) = (if x = y then f (vq_get x w) else vq_get x w)"
  by (simp add: vq_upd_def)

lemma vq_set_upd [simp]: "vq_set x q (vq_upd x f w) = vq_set x q w" "vq_upd x f (vq_set x q w) = vq_set x (f q) w"
  by (cases x; simp add: vq_set_def vq_upd_def vq_get_def ed_upd_def)+

lemma vq_set_set [simp]: "vq_set x q (vq_set x p w) = vq_set x q w"
  by (cases x) (simp_all add: vq_set_def ed_upd_def)

lemma vq_set_other [simp]:
  "n_pool (vq_set x q w) = n_pool w" "n_nif (vq_set x q w) = n_nif w" "n_sched (vq_set x q w) = n_sched w"
  "ed_self (n_eth (vq_set x q w)) = ed_self (n_eth w)" "ed_netif (n_eth (vq_set x q w)) = ed_netif (n_eth w)"
  "ed_rx_packets (n_eth (vq_set x q w)) = ed_rx_packets (n_eth w)"
  "ed_tx_packets (n_eth (vq_set x q w)) = ed_tx_packets (n_eth w)"
  "ed_initialized (n_eth (vq_set x q w)) = ed_initialized (n_eth w)"
  "n_eth (w\<lparr>n_pool := z\<rparr>) = n_eth w" "vq_get x (w\<lparr>n_pool := z\<rparr>) = vq_get x w"
  by (cases x; simp add: vq_set_def vq_get_def ed_upd_def)+

lemma vq_upd_other [simp]:
  "n_pool (vq_upd x f w) = n_pool w" "n_nif (vq_upd x f w) = n_nif w"
  "ed_rx_packets (n_eth (vq_upd x f w)) = ed_rx_packets (n_eth w)"
  "ed_tx_packets (n_eth (vq_upd x f w)) = ed_tx_packets (n_eth w)"
  "vq_set x q (w\<lparr>n_pool := z\<rparr>) = (vq_set x q w)\<lparr>n_pool := z\<rparr>"
  by (simp_all add: vq_upd_def vq_set_def ed_upd_def split: vqsel.split)

lemma n_eth_nb [simp]: "n_eth (nb_free b w) = n_eth w" "n_eth (nb_upd b g w) = n_eth w"
  by (simp_all add: nb_free_def nb_upd_def)

lemma zbuf_free_mem [simp]: "zp_mem (zbuf_free p z) = zp_mem z" "zp_memory (zbuf_free p z) = zp_memory z"
  by (auto simp: zbuf_free_def zbuf_to_pool_def zb_set_prev_def atomic_sub_ref_def Let_def split: option.split)

lemma vq_get_cong: "n_eth w' = n_eth w \<Longrightarrow> vq_get x w' = vq_get x w"
  by (cases x) (simp_all add: vq_get_def)

lemma eth_regs [simp]:
  "vq_get x (eth_write off v w) = vq_get x w" "n_pool (eth_write off v w) = n_pool w"
  "ed_rx_packets (n_eth (eth_write off v w)) = ed_rx_packets (n_eth w)"
  "ed_tx_packets (n_eth (eth_write off v w)) = ed_tx_packets (n_eth w)"
  "vq_get x (snd (eth_read hw off w)) = vq_get x w" "n_pool (snd (eth_read hw off w)) = n_pool w"
  "ed_rx_packets (n_eth (snd (eth_read hw off w))) = ed_rx_packets (n_eth w)"
  "ed_tx_packets (n_eth (snd (eth_read hw off w))) = ed_tx_packets (n_eth w)"
  by (cases x; simp add: eth_write_def eth_read_def ed_upd_def vq_get_def)+

lemma vq_get_nb [simp]: "vq_get x (nb_free b w) = vq_get x w" "vq_get x (nb_upd b g w) = vq_get x w"
  by (simp_all add: nb_free_def nb_upd_def)

section \<open>The sending side\<close>

text \<open>What the device finds behind the posted chains, the oldest first.\<close>

definition desc_bytes :: "(addr \<Rightarrow> u8) \<Rightarrow> vring_desc \<Rightarrow> u8 list" where
  "desc_bytes m d = mem_bytes m (vd_addr d) (unat (vd_len d))"

definition tx_wire :: "net \<Rightarrow> u8 list list" where
  "tx_wire w = map (\<lambda>h. desc_bytes (zp_mem (n_pool w)) (vq_desc (vq_get TXQ w) h)) (vq_posted (vq_get TXQ w))"

text \<open>A posted chain reads inside the buffer kept for it.\<close>

definition desc_in :: "addr \<Rightarrow> vring_desc \<Rightarrow> bool" where
  "desc_in b d \<longleftrightarrow> b + 104 \<le> vd_addr d \<and> vd_addr d + uint (vd_len d) \<le> b + 2152"

definition tx_chains :: "zpool \<Rightarrow> virtqueue \<Rightarrow> bool" where
  "tx_chains z q \<longleftrightarrow> (\<forall>h b. vq_buffers q h = Some b \<longrightarrow> b \<in> set (zbuf_slots (zp_memory z)) \<and> desc_in b (vq_desc q h))"

definition tx_inv :: "net \<Rightarrow> nat list \<Rightarrow> bool" where
  "tx_inv w fs \<longleftrightarrow> vq_inv (vq_get TXQ w) fs \<and> sl_lock (vq_lock (vq_get TXQ w)) = 0 \<and> tx_chains (n_pool w) (vq_get TXQ w)"

text \<open>A buffer a caller may send: one of the pool's, laid out as the pool does it, and not in flight.\<close>

definition tx_buffer :: "addr \<Rightarrow> net \<Rightarrow> bool" where
  "tx_buffer zb w \<longleftrightarrow> zb \<in> set (zbuf_slots (zp_memory (n_pool w))) \<and> zb_layout zb (nb_get zb w) \<and>
     zb_wf (nb_get zb w) \<and> zb_dma_addr (nb_get zb w) = zb_head (nb_get zb w) \<and>
     (\<forall>h. vq_buffers (vq_get TXQ w) h \<noteq> Some zb)"

lemma desc_bytes_cong:
  "desc_in b d \<Longrightarrow> (\<And>a. b + 104 \<le> a \<Longrightarrow> a < b + 2152 \<Longrightarrow> m' a = m a) \<Longrightarrow> desc_bytes m' d = desc_bytes m d"
  by (auto simp: desc_bytes_def desc_in_def intro!: nth_equalityI dest!: int_less_uint)

text \<open>Bytes outside the buffers in flight do not show on the wire.\<close>

lemma tx_wire_mem:
  assumes "vq_inv q fs" and "tx_chains z q"
    and "\<And>h b a. vq_buffers q h = Some b \<Longrightarrow> b + 104 \<le> a \<Longrightarrow> a < b + 2152 \<Longrightarrow> m' a = m a"
  shows "map (\<lambda>h. desc_bytes m' (vq_desc q h)) (vq_posted q) = map (\<lambda>h. desc_bytes m (vq_desc q h)) (vq_posted q)"
proof (rule map_cong[OF refl])
  fix h assume "h \<in> set (vq_posted q)"
  then obtain b where b: "vq_buffers q h = Some b" using assms(1) by (auto simp: vq_inv_def vq_flight_def)
  then show "desc_bytes m' (vq_desc q h) = desc_bytes m (vq_desc q h)"
    using assms(2,3) by (intro desc_bytes_cong[where b = b]) (auto simp: tx_chains_def)
qed

text \<open>The header in front of the frame is written where no chain in flight reads.\<close>

lemma push_header_apart:
  assumes "b \<in> set (zbuf_slots m)" and "c \<in> set (zbuf_slots m)" and "b \<noteq> c"
    and "c + 104 \<le> x" and "x + int (length bs) \<le> c + 2152" and "b + 104 \<le> a" and "a < b + 2152"
  shows "mem_write x bs mem a = mem a"
  using zbuf_slots_apart[OF assms(1-3)] assms(4-) by (auto simp: mem_write_def zbuf_slot_value)

lemma nb_store_mem:
  "nb_store b a bs w = Some w' \<Longrightarrow> zp_mem (n_pool w') = mem_write a bs (zp_mem (n_pool w)) \<and>
     zp_memory (n_pool w') = zp_memory (n_pool w)"
  by (auto simp: nb_store_def zb_store_def split: if_splits)

lemma nb_op_mem:
  "nb_op b f w = (p, w') \<Longrightarrow> zp_mem (n_pool w') = zp_mem (n_pool w) \<and> zp_memory (n_pool w') = zp_memory (n_pool w)"
  by (auto simp: nb_op_def zb_op_def)

lemma fresh_buffer: "tx_buffer zb w \<Longrightarrow> \<forall>h. vq_buffers (vq_get TXQ w) h \<noteq> Some zb"
  by (simp add: tx_buffer_def)

text \<open>The header put in front: what the buffer and the memory are when the descriptor is filled in.\<close>

lemma tx_header:
  assumes b: "tx_buffer zb w" and room: "12 \<le> zb_data (nb_get zb w) - zb_head (nb_get zb w)"
  shows "\<exists>w1 w2 k. nb_op zb (zbuf_push 12) w = (Some (zb_data (nb_get zb w) - 12), w1) \<and>
    nb_store zb (zb_data (nb_get zb w) - 12) (replicate 12 0) w1 = Some w2 \<and> w2 = w\<lparr>n_pool := n_pool w2\<rparr> \<and>
    w1 = w\<lparr>n_pool := n_pool w1\<rparr> \<and>
    k = nb_get zb w2 \<and> zb_dma_addr k = zb_head k \<and> zb + 104 \<le> zb_data k \<and>
    zb_data k + uint (zb_len k) \<le> zb + 2152 \<and> zb_len k = zb_len (nb_get zb w) + 12 \<and>
    mem_bytes (zp_mem (n_pool w2)) (zb_data k) (unat (zb_len k)) = replicate 12 0 @ zb_payload zb (n_pool w) \<and>
    zp_memory (n_pool w2) = zp_memory (n_pool w) \<and>
    zp_mem (n_pool w2) = mem_write (zb_data (nb_get zb w) - 12) (replicate 12 0) (zp_mem (n_pool w))"
proof -
  have wf: "zb_wf (nb_get zb w)" and lay: "zb_layout zb (nb_get zb w)" and dma: "zb_dma_addr (nb_get zb w) = zb_head (nb_get zb w)"
    using b by (auto simp: tx_buffer_def)
  have r: "uint (12 :: u16) \<le> zb_data (nb_get zb w) - zb_head (nb_get zb w)" using room by simp
  obtain w1 w2 where w1: "nb_op zb (zbuf_push 12) w = (Some (zb_data (nb_get zb w) - 12), w1)" "w1 = w\<lparr>n_pool := n_pool w1\<rparr>"
    and w2: "nb_store zb (zb_data (nb_get zb w) - 12) (replicate 12 0) w1 = Some w2" "w2 = w\<lparr>n_pool := n_pool w2\<rparr>"
      "zb_wf (nb_get zb w2)" "zb_head (nb_get zb w2) = zb_head (nb_get zb w)" "nb_get zb w2 = nb_get zb w1"
      "zb_len (nb_get zb w2) = zb_len (nb_get zb w) + 12"
      "zb_payload zb (n_pool w2) = replicate 12 0 @ zb_payload zb (n_pool w)"
    using push_header[OF wf r, of "replicate 12 0"] by auto
  have "zb_dma_addr (nb_get zb w1) = zb_dma_addr (nb_get zb w)"
    using w1(1) by (auto simp: nb_op_def zb_op_def zbuf_push_def Let_def split: if_splits)
  then have k: "zb_dma_addr (nb_get zb w2) = zb_head (nb_get zb w2)" using w2(4,5) dma by simp
  have ends: "zb + 104 \<le> zb_data (nb_get zb w2)" "zb_data (nb_get zb w2) + uint (zb_len (nb_get zb w2)) \<le> zb + 2152"
    using w2(3,4) lay by (auto simp: zb_wf_def zb_layout_def sizeof_zbuf_def config_defs)
  have pay: "mem_bytes (zp_mem (n_pool w2)) (zb_data (nb_get zb w2)) (unat (zb_len (nb_get zb w2))) =
      replicate 12 0 @ zb_payload zb (n_pool w)"
    using w2(7) by (simp only: zb_payload_def)
  show ?thesis
    using w1 w2(1,2) k ends w2(6) pay nb_op_mem[OF w1(1)] nb_store_mem[OF w2(1)]
    by (intro exI[of _ w1] exI[of _ w2] exI[of _ "nb_get zb w2"]) simp
qed

lemma take_TXQ: "virtq_alloc_desc (vq_get TXQ w) = Some (i, q) \<Longrightarrow> vq_take TXQ w = Some (i, vq_set TXQ q w)"
  by (simp add: vq_take_def)

lemma acquire_free:
  "sl_lock (vq_lock (vq_get x w)) = 0 \<Longrightarrow>
   vq_acquire x w = Some (vq_upd x (\<lambda>q. q\<lparr>vq_lock := (vq_lock q)\<lparr>sl_lock := 1\<rparr>\<rparr>) w)"
  by (simp add: vq_acquire_def spin_lock_def vq_upd_def)

text \<open>What a step of the sending side leaves alone.\<close>

definition tx_only :: "net \<Rightarrow> net \<Rightarrow> bool" where
  "tx_only w w' \<longleftrightarrow> vq_get RXQ w' = vq_get RXQ w \<and> ed_rx_packets (n_eth w') = ed_rx_packets (n_eth w) \<and>
     zp_memory (n_pool w') = zp_memory (n_pool w)"

lemma tx_release: "sl_lock (vq_lock (vq_get TXQ (vq_release TXQ w))) = 0"
  by (simp add: vq_release_def spin_unlock_def)

lemma rx_other [simp]:
  "vq_get RXQ (ed_upd (\<lambda>d. d\<lparr>ed_tx_packets := f d, ed_tx_bytes := g d\<rparr>) w) = vq_get RXQ w"
  "vq_get x (ed_upd (\<lambda>d. d\<lparr>ed_tx_errors := g d\<rparr>) w) = vq_get x w"
  "vq_get TXQ (ed_upd (\<lambda>d. d\<lparr>ed_tx_packets := f d, ed_tx_bytes := g d\<rparr>) w) = vq_get TXQ w"
  "n_pool (ed_upd h w) = n_pool w"
  "ed_rx_packets (n_eth (ed_upd (\<lambda>d. d\<lparr>ed_tx_packets := f d, ed_tx_bytes := g d\<rparr>) w)) = ed_rx_packets (n_eth w)"
  "ed_tx_packets (n_eth (ed_upd (\<lambda>d. d\<lparr>ed_tx_packets := f d, ed_tx_bytes := g d\<rparr>) w)) = f (n_eth w)"
  "ed_rx_packets (n_eth (ed_upd (\<lambda>d. d\<lparr>ed_tx_errors := g d\<rparr>) w)) = ed_rx_packets (n_eth w)"
  "ed_tx_packets (n_eth (ed_upd (\<lambda>d. d\<lparr>ed_tx_errors := g d\<rparr>) w)) = ed_tx_packets (n_eth w)"
  by (cases x; simp add: vq_get_def ed_upd_def)+

text \<open>The last stretch of a send, from the state with the header in place and the lock held.\<close>

lemma eth_tx_post_ok:
  assumes inv: "vq_inv (vq_get TXQ w) (i # fs)" and zb: "\<forall>h. vq_buffers (vq_get TXQ w) h \<noteq> Some zb"
    and k: "k = nb_get zb w" "zb_dma_addr k = zb_head k"
  shows "\<exists>q1 w'. virtq_alloc_desc (vq_get TXQ w) = Some (int i, q1) \<and>
    eth_tx_post zb (of_nat i) (vq_set TXQ q1 w) = Some (STATUS_OK, w') \<and> vq_inv (vq_get TXQ w') fs \<and>
    sl_lock (vq_lock (vq_get TXQ w')) = 0 \<and>
    vq_posted (vq_get TXQ w') = vq_posted (vq_get TXQ w) @ [i] \<and>
    vq_returned (vq_get TXQ w') = vq_returned (vq_get TXQ w) \<and>
    vq_desc (vq_get TXQ w') = (vq_desc (vq_get TXQ w))(i := (vq_desc (vq_get TXQ w) i)\<lparr>vd_addr := zb_data k,
      vd_len := ucast (zb_len k), vd_flags := 0, vd_next := 0\<rparr>) \<and>
    vq_buffers (vq_get TXQ w') = (vq_buffers (vq_get TXQ w))(i := Some zb) \<and>
    vq_used_idx (vq_get TXQ w') = vq_used_idx (vq_get TXQ w) \<and>
    vq_avail_idx (vq_get TXQ w') = vq_avail_idx (vq_get TXQ w) + 1 \<and>
    n_pool w' = n_pool w \<and> tx_only w w' \<and> ed_tx_packets (n_eth w') = ed_tx_packets (n_eth w) + 1"
proof -
  let ?q = "vq_get TXQ w"
  let ?f = "\<lambda>d. d\<lparr>vd_addr := zb_dma_addr k + (zb_data k - zb_head k), vd_len := ucast (zb_len k),
    vd_flags := 0, vd_next := 0\<rparr>"
  have i: "i < 256" "unat (of_nat i :: u16) = i"
    using vq_inv_bound[OF inv, of i] unat_of_nat_256 by auto
  from vq_post_inv[OF inv zb, of ?f] obtain q1 q2 q' where q: "virtq_alloc_desc ?q = Some (int i, q1)"
    "vd_upd (of_nat i) ?f q1 = Some q2"
    "virtq_post (of_nat i) (q2\<lparr>vq_buffers := (vq_buffers q2)(i := Some zb)\<rparr>) = Some q'" "vq_inv q' fs"
    and l: "vq_posted q' = vq_posted ?q @ [i]" "vq_returned q' = vq_returned ?q"
      "vq_desc q' = (vq_desc ?q)(i := ?f (vq_desc ?q i))" "vq_buffers q' = (vq_buffers ?q)(i := Some zb)"
      "vq_used_idx q' = vq_used_idx ?q" "vq_avail_idx q' = vq_avail_idx ?q + 1"
    by blast
  define w' where "w' = eth_write VIRTIO_MMIO_QUEUE_NOTIFY VIRTQ_TX (vq_release TXQ
    (ed_upd (\<lambda>d. d\<lparr>ed_tx_packets := ed_tx_packets d + 1,
       ed_tx_bytes := ed_tx_bytes d + (ucast (zb_len k) - ucast VIRTIO_NET_HDR_SIZE)\<rparr>) (vq_set TXQ q' w)))"
  have post: "eth_tx_post zb (of_nat i) (vq_set TXQ q1 w) = Some (STATUS_OK, w')"
    using q(2,3) k i by (simp add: eth_tx_post_def vq_do_def Let_def w'_def)
  have "vq_get TXQ w' = q'\<lparr>vq_lock := spin_unlock (vq_lock q')\<rparr>" by (simp add: w'_def vq_release_def)
  moreover have "n_pool w' = n_pool w" "tx_only w w'" "ed_tx_packets (n_eth w') = ed_tx_packets (n_eth w) + 1"
    by (simp_all add: w'_def vq_release_def tx_only_def)
  ultimately show ?thesis
    using q(1,4) post l k by (intro exI[of _ q1] exI[of _ w']) (auto simp: spin_unlock_def)
qed

lemma uint_ucast_u32 [simp]: "uint (ucast (x :: u16) :: u32) = uint x"
  using uint_lt2p[of x] by (simp add: unsigned_ucast_eq take_bit_int_eq_self)

lemma unat_ucast_u32 [simp]: "unat (ucast (x :: u16) :: u32) = unat x"
  unfolding unat_eq_nat_uint by simp

text \<open>A send that is accepted, and one that is refused.\<close>

lemma eth_send_ok:
  assumes inv: "tx_inv w (i # j # fs)" and b: "tx_buffer zb w" and len: "zb_len (nb_get zb w) \<noteq> 0"
    and room: "12 \<le> zb_data (nb_get zb w) - zb_head (nb_get zb w)"
    and nif: "nif_priv (n_nif w nif) = Some (ed_self (n_eth w))"
  shows "\<exists>w'. eth_driver nif zb w = Some (STATUS_OK, w') \<and> tx_inv w' (j # fs) \<and>
    tx_wire w' = tx_wire w @ [replicate 12 0 @ zb_payload zb (n_pool w)] \<and>
    vq_used_idx (vq_get TXQ w') = vq_used_idx (vq_get TXQ w) \<and>
    vq_avail_idx (vq_get TXQ w') = vq_avail_idx (vq_get TXQ w) + 1 \<and>
    tx_only w w' \<and> ed_tx_packets (n_eth w') = ed_tx_packets (n_eth w) + 1"
proof -
  let ?q = "vq_get TXQ w"
  have q: "vq_inv ?q (i # j # fs)" "sl_lock (vq_lock ?q) = 0" "tx_chains (n_pool w) ?q"
    using inv by (auto simp: tx_inv_def)
  have lock: "vq_acquire TXQ w = Some (vq_upd TXQ (\<lambda>q. q\<lparr>vq_lock := (vq_lock q)\<lparr>sl_lock := 1\<rparr>\<rparr>) w)"
    (is "_ = Some ?wl") by (rule acquire_free[OF q(2)])
  have bl: "tx_buffer zb ?wl" using b by (simp add: tx_buffer_def)
  obtain w1 w2 k where h: "nb_op zb (zbuf_push 12) ?wl = (Some (zb_data (nb_get zb w) - 12), w1)"
    "nb_store zb (zb_data (nb_get zb w) - 12) (replicate 12 0) w1 = Some w2" "w2 = ?wl\<lparr>n_pool := n_pool w2\<rparr>"
    and k: "k = nb_get zb w2" "zb_dma_addr k = zb_head k" "zb + 104 \<le> zb_data k"
      "zb_data k + uint (zb_len k) \<le> zb + 2152"
    and pay: "mem_bytes (zp_mem (n_pool w2)) (zb_data k) (unat (zb_len k)) = replicate 12 0 @ zb_payload zb (n_pool w)"
    and m: "zp_memory (n_pool w2) = zp_memory (n_pool w)"
      "zp_mem (n_pool w2) = mem_write (zb_data (nb_get zb w) - 12) (replicate 12 0) (zp_mem (n_pool w))"
    using tx_header[OF bl] room by auto
  have q2: "vq_get TXQ w2 = ?q\<lparr>vq_lock := (vq_lock ?q)\<lparr>sl_lock := 1\<rparr>\<rparr>" by (subst h(3)) simp
  have fresh: "\<forall>h. vq_buffers ?q h \<noteq> Some zb" by (rule fresh_buffer[OF b])
  obtain q1 w' where a: "virtq_alloc_desc (vq_get TXQ w2) = Some (int i, q1)"
    "eth_tx_post zb (of_nat i) (vq_set TXQ q1 w2) = Some (STATUS_OK, w')" "vq_inv (vq_get TXQ w') (j # fs)"
    "sl_lock (vq_lock (vq_get TXQ w')) = 0" "vq_posted (vq_get TXQ w') = vq_posted ?q @ [i]"
    and d: "vq_desc (vq_get TXQ w') = (vq_desc ?q)(i := (vq_desc ?q i)\<lparr>vd_addr := zb_data k,
      vd_len := ucast (zb_len k), vd_flags := 0, vd_next := 0\<rparr>)"
    and bu: "vq_buffers (vq_get TXQ w') = (vq_buffers ?q)(i := Some zb)"
    and r: "vq_used_idx (vq_get TXQ w') = vq_used_idx ?q" "vq_avail_idx (vq_get TXQ w') = vq_avail_idx ?q + 1"
      "n_pool w' = n_pool w2" "tx_only w2 w'" "ed_tx_packets (n_eth w') = ed_tx_packets (n_eth w2) + 1"
    using eth_tx_post_ok[of w2 i "j # fs" zb k] q(1) k(1,2) fresh by (auto simp: q2)
  have "\<not> vq_num_free ?q < 2"
    using q(1) by (simp add: vq_inv_def vq_free_def word_less_nat_alt)
  then have "eth_driver nif zb w = Some (STATUS_OK, w')"
    using nif len h a by (simp add: eth_driver_def eth_send_def lock VIRTIO_NET_HDR_SIZE_def take_TXQ Let_def)
  moreover have "tx_chains (n_pool w') (vq_get TXQ w')"
    using q(3) b k(3,4) r(3) by (auto simp: tx_chains_def bu d desc_in_def m(1) tx_buffer_def)
  moreover have "tx_wire w' = tx_wire w @ [replicate 12 0 @ zb_payload zb (n_pool w)]"
  proof -
    have ni: "i \<notin> set (vq_posted ?q)" using q(1) by (auto simp: vq_inv_def vq_flight_def)
    have "zb_head (nb_get zb w) = zb + 104" "zb_end (nb_get zb w) = zb + 2152" "zb_wf (nb_get zb w)"
      using b by (simp_all add: tx_buffer_def zb_layout_def sizeof_zbuf_def config_defs)
    then have lay: "zb + 104 \<le> zb_data (nb_get zb w) - 12" "zb_data (nb_get zb w) \<le> zb + 2152"
      using room zb_wf_order[of "nb_get zb w"] by linarith+
    have "zp_mem (n_pool w2) a = zp_mem (n_pool w) a"
      if "vq_buffers ?q h = Some c" "c + 104 \<le> a" "a < c + 2152" for h c a
      unfolding m(2) using that q(3) b fresh lay
      by (intro push_header_apart[where m = "zp_memory (n_pool w)" and b = c and c = zb])
        (auto simp: tx_chains_def tx_buffer_def)
    then have "map (\<lambda>h. desc_bytes (zp_mem (n_pool w2)) (vq_desc ?q h)) (vq_posted ?q) = tx_wire w"
      unfolding tx_wire_def by (intro tx_wire_mem[OF q(1,3)]) auto
    then show ?thesis
      using ni pay a(5) r(3) by (simp add: tx_wire_def d desc_bytes_def)
  qed
  moreover have "vq_get RXQ w2 = vq_get RXQ w" "ed_rx_packets (n_eth w2) = ed_rx_packets (n_eth w)"
    "ed_tx_packets (n_eth w2) = ed_tx_packets (n_eth w)"
    by (subst h(3); simp)+
  moreover from this have "tx_only w w'" using r(4) m(1) by (simp add: tx_only_def)
  ultimately show ?thesis using a r by (auto simp: tx_inv_def)
qed

text \<open>The lock and anything but the bytes in flight do not matter.\<close>

lemma tx_inv_lock:
  assumes "tx_inv w fs" and "vq_get TXQ w' = (vq_get TXQ w)\<lparr>vq_lock := l\<rparr>" and "sl_lock l = 0"
    and "zp_mem (n_pool w') = zp_mem (n_pool w)" and "zp_memory (n_pool w') = zp_memory (n_pool w)"
  shows "tx_inv w' fs \<and> tx_wire w' = tx_wire w"
  using assms by (simp add: tx_inv_def tx_wire_def tx_chains_def)

lemma nb_op_eth: "nb_op b f w = (p, w') \<Longrightarrow> n_eth w' = n_eth w"
  by (auto simp: nb_op_def split: prod.splits)

lemma eth_tx_refuse_ok:
  assumes "tx_inv w fs" and "vq_get TXQ v = (vq_get TXQ w)\<lparr>vq_lock := l\<rparr>" and "vq_get RXQ v = vq_get RXQ w"
    and "zp_mem (n_pool v) = zp_mem (n_pool w)" and "zp_memory (n_pool v) = zp_memory (n_pool w)"
    and "ed_rx_packets (n_eth v) = ed_rx_packets (n_eth w)" and "ed_tx_packets (n_eth v) = ed_tx_packets (n_eth w)"
  shows "\<exists>w'. eth_tx_refuse zb v = (STATUS_NO_MEM, w') \<and> tx_inv w' fs \<and> tx_wire w' = tx_wire w \<and>
    vq_used_idx (vq_get TXQ w') = vq_used_idx (vq_get TXQ w) \<and>
    vq_avail_idx (vq_get TXQ w') = vq_avail_idx (vq_get TXQ w) \<and>
    tx_only w w' \<and> ed_tx_packets (n_eth w') = ed_tx_packets (n_eth w)"
proof -
  define w' where "w' = snd (eth_tx_refuse zb v)"
  have g: "vq_get x w' = vq_get x (vq_release TXQ v)" for x
    by (simp add: w'_def eth_tx_refuse_def)
  have p: "zp_mem (n_pool w') = zp_mem (n_pool v)" "zp_memory (n_pool w') = zp_memory (n_pool v)"
    "ed_rx_packets (n_eth w') = ed_rx_packets (n_eth v)" "ed_tx_packets (n_eth w') = ed_tx_packets (n_eth v)"
    by (simp_all add: w'_def eth_tx_refuse_def vq_release_def nb_free_def)
  have q: "vq_get TXQ w' = (vq_get TXQ w)\<lparr>vq_lock := l\<lparr>sl_lock := 0\<rparr>\<rparr>"
    unfolding g by (simp add: vq_release_def spin_unlock_def assms(2))
  have "tx_inv w' fs \<and> tx_wire w' = tx_wire w"
    by (rule tx_inv_lock[OF assms(1) q]) (use p assms in auto)
  moreover have "tx_only w w'" using p assms by (simp add: tx_only_def g vq_release_def)
  ultimately show ?thesis
    using p assms q by (intro exI[of _ w']) (auto simp: w'_def eth_tx_refuse_def)
qed

lemma eth_send_refused:
  assumes inv: "tx_inv w fs" and b: "tx_buffer zb w" and nif: "nif_priv (n_nif w nif) = Some (ed_self (n_eth w))"
    and no: "zb_len (nb_get zb w) = 0 \<or> length fs < 2 \<or> zb_data (nb_get zb w) - zb_head (nb_get zb w) < 12"
  shows "\<exists>st w'. eth_driver nif zb w = Some (st, w') \<and> st \<noteq> STATUS_OK \<and> tx_inv w' fs \<and> tx_wire w' = tx_wire w \<and>
    vq_used_idx (vq_get TXQ w') = vq_used_idx (vq_get TXQ w) \<and>
    vq_avail_idx (vq_get TXQ w') = vq_avail_idx (vq_get TXQ w) \<and>
    tx_only w w' \<and> ed_tx_packets (n_eth w') = ed_tx_packets (n_eth w)"
proof (cases "zb_len (nb_get zb w) = 0")
  case True
  have q: "vq_get TXQ (nb_free zb w) = (vq_get TXQ w)\<lparr>vq_lock := vq_lock (vq_get TXQ w)\<rparr>"
    by simp
  have "tx_inv (nb_free zb w) fs \<and> tx_wire (nb_free zb w) = tx_wire w"
    by (rule tx_inv_lock[OF inv q]) (use inv in \<open>auto simp: tx_inv_def nb_free_def\<close>)
  then show ?thesis using True nif q
    by (intro exI[of _ STATUS_INVALID] exI[of _ "nb_free zb w"])
      (auto simp: eth_driver_def eth_send_def tx_only_def nb_free_def)
next
  case False
  let ?wl = "vq_upd TXQ (\<lambda>q. q\<lparr>vq_lock := (vq_lock q)\<lparr>sl_lock := 1\<rparr>\<rparr>) w"
  have q: "sl_lock (vq_lock (vq_get TXQ w)) = 0" "vq_inv (vq_get TXQ w) fs" using inv by (auto simp: tx_inv_def)
  note lock = acquire_free[OF q(1)]
  have nf: "unat (vq_num_free (vq_get TXQ w)) = length fs" using q(2) by (simp add: vq_inv_def vq_free_def)
  show ?thesis
  proof (cases "length fs < 2")
    case True
    then have "eth_driver nif zb w = Some (eth_tx_refuse zb ?wl)"
      using False nif nf by (simp add: eth_driver_def eth_send_def lock word_less_nat_alt)
    then show ?thesis using eth_tx_refuse_ok[OF inv, of ?wl "(vq_lock (vq_get TXQ w))\<lparr>sl_lock := 1\<rparr>" zb] by auto
  next
    case two: False
    have "zbuf_push 12 (nb_get zb w) = (None, nb_get zb w)" using no False two by (simp add: zbuf_push_def)
    then obtain w1 where w1: "nb_op zb (zbuf_push 12) ?wl = (None, w1)" by (simp add: nb_op_def zb_op_def)
    then have "eth_driver nif zb w = Some (eth_tx_refuse zb w1)"
      using False nif two nf by (simp add: eth_driver_def eth_send_def lock VIRTIO_NET_HDR_SIZE_def word_less_nat_alt)
    moreover have "\<exists>w'. eth_tx_refuse zb w1 = (STATUS_NO_MEM, w') \<and> tx_inv w' fs \<and> tx_wire w' = tx_wire w \<and>
      vq_used_idx (vq_get TXQ w') = vq_used_idx (vq_get TXQ w) \<and>
      vq_avail_idx (vq_get TXQ w') = vq_avail_idx (vq_get TXQ w) \<and>
      tx_only w w' \<and> ed_tx_packets (n_eth w') = ed_tx_packets (n_eth w)"
      using nb_op_mem[OF w1] nb_op_eth[OF w1] vq_get_cong[OF nb_op_eth[OF w1]]
      by (intro eth_tx_refuse_ok[OF inv, where l = "(vq_lock (vq_get TXQ w))\<lparr>sl_lock := 1\<rparr>"]) simp_all
    ultimately show ?thesis by auto
  qed
qed

section \<open>The device, and what comes back\<close>

text \<open>
  A device that uses the chains in the order they were posted. Of the program's memory it writes the used
  rings, and of a receive chain the parts that are marked for it. A chain sent is read when it is used.
\<close>

definition in_desc :: "vring_desc \<Rightarrow> addr \<Rightarrow> bool" where
  "in_desc d a \<longleftrightarrow> vd_flags d AND VRING_DESC_F_WRITE \<noteq> 0 \<and> vd_addr d \<le> a \<and> a < vd_addr d + uint (vd_len d)"

definition dev_writable :: "virtqueue \<Rightarrow> nat \<Rightarrow> addr \<Rightarrow> bool" where
  "dev_writable q h a \<longleftrightarrow>
     (let d = vq_desc q h
      in in_desc d a \<or> vd_flags d AND VRING_DESC_F_NEXT \<noteq> 0 \<and> in_desc (vq_desc q (unat (vd_next d))) a)"

inductive dev_step :: "net \<Rightarrow> net \<Rightarrow> bool" where
  sent: "vq_used_idx (vq_get TXQ w) \<noteq> vq_avail_idx (vq_get TXQ w) \<Longrightarrow>
    dev_step w (vq_upd TXQ (dev_return len) w)"
| received: "vq_used_idx (vq_get RXQ w) \<noteq> vq_avail_idx (vq_get RXQ w) \<Longrightarrow>
    (\<And>a. m a \<noteq> zp_mem (n_pool w) a \<Longrightarrow> dev_writable (vq_get RXQ w) (hd (vq_posted (vq_get RXQ w))) a) \<Longrightarrow>
    dev_step w (vq_upd RXQ (dev_return len) (w\<lparr>n_pool := (n_pool w)\<lparr>zp_mem := m\<rparr>\<rparr>))"

definition in_order :: "device \<Rightarrow> bool" where
  "in_order dv \<longleftrightarrow> (\<forall>w. dev_step\<^sup>*\<^sup>* w (dv w))"

text \<open>
  The state after the frames \<open>ss\<close> have been accepted, seen from the state \<open>w0\<close> with empty rings: the
  device has used the first \<open>m\<close>, finds the others in order, and nothing has been received.
\<close>

definition tx_frame :: "u8 list \<Rightarrow> u8 list" where
  "tx_frame p = replicate (unat VIRTIO_NET_HDR_SIZE) 0 @ p"

definition rx_idle :: "net \<Rightarrow> bool" where
  "rx_idle w \<longleftrightarrow> vq_used_idx (vq_get RXQ w) = vq_avail_idx (vq_get RXQ w) \<and>
     vq_last_used_idx (vq_get RXQ w) = vq_used_idx (vq_get RXQ w)"

definition tx_sent :: "net \<Rightarrow> u8 list list \<Rightarrow> net \<Rightarrow> bool" where
  "tx_sent w0 ss w \<longleftrightarrow>
     (\<exists>fs m. vq_inv (vq_get TXQ w) fs \<and> m \<le> length ss \<and> tx_wire w = map tx_frame (drop m ss) \<and>
        vq_used_idx (vq_get TXQ w) = vq_used_idx (vq_get TXQ w0) + of_nat m) \<and>
     tx_chains (n_pool w) (vq_get TXQ w) \<and>
     ed_tx_packets (n_eth w) = ed_tx_packets (n_eth w0) + of_nat (length ss) \<and>
     rx_idle w \<and> vq_avail_idx (vq_get RXQ w) = vq_avail_idx (vq_get RXQ w0) \<and>
     ed_rx_packets (n_eth w) = ed_rx_packets (n_eth w0)"

definition vq_unlocked :: "net \<Rightarrow> bool" where
  "vq_unlocked w \<longleftrightarrow> (\<forall>x. sl_lock (vq_lock (vq_get x w)) = 0)"

lemma dev_return_simps [simp]:
  "vq_desc (dev_return len q) = vq_desc q" "vq_buffers (dev_return len q) = vq_buffers q"
  "vq_lock (dev_return len q) = vq_lock q" "vq_used_idx (dev_return len q) = vq_used_idx q + 1"
  "vq_avail_idx (dev_return len q) = vq_avail_idx q" "vq_last_used_idx (dev_return len q) = vq_last_used_idx q"
  by (simp_all add: dev_return_def Let_def)

lemma dev_step_sent:
  assumes s: "tx_sent w0 ss w" and d: "dev_step w w'"
  shows "tx_sent w0 ss w' \<and> (\<forall>x. vq_lock (vq_get x w') = vq_lock (vq_get x w))"
  using d
proof cases
  case (sent len)
  obtain fs m where inv: "vq_inv (vq_get TXQ w) fs" and m: "m \<le> length ss" "tx_wire w = map tx_frame (drop m ss)"
    "vq_used_idx (vq_get TXQ w) = vq_used_idx (vq_get TXQ w0) + of_nat m"
    using s by (auto simp: tx_sent_def)
  note r = dev_return_inv[OF inv sent(2), of len]
  obtain x xs where "vq_posted (vq_get TXQ w) = x # xs" "vq_posted (dev_return len (vq_get TXQ w)) = xs"
    using r(2) by (cases "vq_posted (vq_get TXQ w)") auto
  then have "tx_wire w = hd (tx_wire w) # tx_wire w'" using sent(1) by (simp add: tx_wire_def)
  then have "m < length ss" "tx_wire w' = map tx_frame (drop (Suc m) ss)"
    using m by (cases "m < length ss"; simp add: Cons_nth_drop_Suc[symmetric])+
  then have "\<exists>fs m. vq_inv (vq_get TXQ w') fs \<and> m \<le> length ss \<and> tx_wire w' = map tx_frame (drop m ss) \<and>
      vq_used_idx (vq_get TXQ w') = vq_used_idx (vq_get TXQ w0) + of_nat m"
    using r(1) m(3) sent(1) by (intro exI[of _ fs] exI[of _ "Suc m"]) (simp add: add.commute)
  then show ?thesis using s sent(1) by (auto simp: tx_sent_def tx_chains_def rx_idle_def split: vqsel.split)
next
  case (received m len)
  then show ?thesis using s by (simp add: tx_sent_def rx_idle_def)
qed

lemma dev_steps_sent:
  "dev_step\<^sup>*\<^sup>* w w' \<Longrightarrow> tx_sent w0 ss w \<Longrightarrow>
   tx_sent w0 ss w' \<and> (\<forall>x. vq_lock (vq_get x w') = vq_lock (vq_get x w))"
  by (induction rule: rtranclp_induct) (auto dest: dev_step_sent)

lemma dv_sent:
  "in_order dv \<Longrightarrow> tx_sent w0 ss w \<Longrightarrow>
   tx_sent w0 ss (dv w) \<and> (\<forall>x. vq_lock (vq_get x (dv w)) = vq_lock (vq_get x w))"
  using dev_steps_sent[of w "dv w"] by (auto simp: in_order_def)

text \<open>Locks and register accesses do not matter.\<close>

lemma tx_sent_lock [simp]:
  "tx_sent w0 ss (vq_upd x (vq_lock_update f) w) = tx_sent w0 ss w"
  "tx_sent w0 ss (vq_upd x (\<lambda>q. q\<lparr>vq_lock := l q\<rparr>) w) = tx_sent w0 ss w"
  by (cases x; simp add: tx_sent_def tx_wire_def tx_chains_def rx_idle_def)+

lemma tx_sent_release [simp]: "tx_sent w0 ss (vq_release x w) = tx_sent w0 ss w"
  by (simp add: vq_release_def)

lemma tx_sent_regs [simp]:
  "tx_sent w0 ss (eth_write off v w) = tx_sent w0 ss w"
  "tx_sent w0 ss (snd (eth_read hw off w)) = tx_sent w0 ss w"
  by (simp_all add: tx_sent_def tx_wire_def rx_idle_def)

lemma eth_tx_collect_ok:
  assumes s: "tx_sent w0 ss w" and ne: "vq_last_used_idx (vq_get TXQ w) \<noteq> vq_used_idx (vq_get TXQ w)"
  shows "\<exists>w'. eth_tx_collect w = Some w' \<and> tx_sent w0 ss w' \<and>
    (\<forall>x. vq_lock (vq_get x w') = vq_lock (vq_get x w)) \<and>
    vq_used_idx (vq_get TXQ w') = vq_used_idx (vq_get TXQ w) \<and> vq_posted (vq_get TXQ w') = vq_posted (vq_get TXQ w) \<and>
    length (vq_returned (vq_get TXQ w)) = Suc (length (vq_returned (vq_get TXQ w')))"
proof -
  let ?q = "vq_get TXQ w"
  define idx :: u16 where "idx = ucast (ue_id (vq_used ?q (unat (vq_last_used_idx ?q mod vq_num ?q))))"
  obtain fs m where inv: "vq_inv ?q fs" and m: "m \<le> length ss" "tx_wire w = map tx_frame (drop m ss)"
    "vq_used_idx ?q = vq_used_idx (vq_get TXQ w0) + of_nat m"
    using s by (auto simp: tx_sent_def)
  from vq_collect_inv[OF inv ne idx_def] obtain q1 q' rs where
    c: "vq_returned ?q = unat idx # rs" "unat idx < 256"
      "virtq_free_desc idx (?q\<lparr>vq_buffers := (vq_buffers ?q)(unat idx := None)\<rparr>) = Some q1"
      "q' = q1\<lparr>vq_last_used_idx := vq_last_used_idx q1 + 1\<rparr>" "vq_inv q' (unat idx # fs)"
    and r: "vq_returned q' = rs" "vq_posted q' = vq_posted ?q" "vq_used_idx q' = vq_used_idx ?q"
      "vq_lock q' = vq_lock ?q" "vq_buffers q' = (vq_buffers ?q)(unat idx := None)"
      "\<forall>h. vd_addr (vq_desc q' h) = vd_addr (vq_desc ?q h) \<and> vd_len (vq_desc q' h) = vd_len (vq_desc ?q h)"
    by blast
  define z where "z = (case vq_buffers ?q (unat idx) of None \<Rightarrow> n_pool w | Some b \<Rightarrow> zbuf_free (Some b) (n_pool w))"
  define w' where "w' = (vq_set TXQ q' w)\<lparr>n_pool := z\<rparr>"
  have z: "zp_mem z = zp_mem (n_pool w)" "zp_memory z = zp_memory (n_pool w)"
    by (auto simp: z_def split: option.split)
  have "vq_num ?q \<noteq> 0" using inv by (simp add: vq_inv_def)
  then have "eth_tx_collect w = Some w'"
    using c(2,3,4)
    by (cases "vq_buffers ?q (unat idx)")
      (simp_all add: eth_tx_collect_def ring_slot_def Let_def idx_def[symmetric] vd_get_def vd_ok_def VIRTQ_SIZE_def
        vq_do_def w'_def z_def nb_free_def vq_upd_def)
  moreover have "tx_wire w' = tx_wire w"
    using r(2,6) z by (simp add: tx_wire_def w'_def desc_bytes_def)
  then have "tx_sent w0 ss w'"
    using s m c(5) r(3,5,6) z unfolding tx_sent_def
    by (auto simp: w'_def tx_chains_def desc_in_def rx_idle_def fun_upd_def split: if_splits)
  ultimately show ?thesis using r c(1) by (intro exI[of _ w']) (auto simp: w'_def split: vqsel.split)
qed

lemma eth_tx_loop_sent:
  assumes "eth_tx_loop dv w = Some w'" and "in_order dv" and "tx_sent w0 ss w"
  shows "tx_sent w0 ss w' \<and> (\<forall>x. vq_lock (vq_get x w') = vq_lock (vq_get x w))"
proof (rule eth_tx_loop.raw_induct[where P = "\<lambda>dv w w'. in_order dv \<and> tx_sent w0 ss w \<longrightarrow>
      tx_sent w0 ss w' \<and> (\<forall>x. vq_lock (vq_get x w') = vq_lock (vq_get x w))",
      OF _ assms(1), THEN mp, OF _ conjI[OF assms(2,3)]], intro impI, elim conjE)
  fix loop dv w w'
  assume IH: "\<And>dv w w'. loop dv w = Some w' \<Longrightarrow> in_order dv \<and> tx_sent w0 ss w \<longrightarrow>
      tx_sent w0 ss w' \<and> (\<forall>x. vq_lock (vq_get x w') = vq_lock (vq_get x w))"
    and dv: "in_order dv" and s: "tx_sent w0 ss w"
    and step: "(let w = dv w in if vq_last_used_idx (vq_get TXQ w) = vq_used_idx (vq_get TXQ w) then Some w
      else eth_tx_collect w \<bind> loop dv) = Some w'"
  note d = dv_sent[OF dv s]
  show "tx_sent w0 ss w' \<and> (\<forall>x. vq_lock (vq_get x w') = vq_lock (vq_get x w))"
  proof (cases "vq_last_used_idx (vq_get TXQ (dv w)) = vq_used_idx (vq_get TXQ (dv w))")
    case True
    then show ?thesis using step d by (simp add: Let_def)
  next
    case False
    then obtain w1 where "eth_tx_collect (dv w) = Some w1" "tx_sent w0 ss w1"
      "\<forall>x. vq_lock (vq_get x w1) = vq_lock (vq_get x (dv w))"
      using eth_tx_collect_ok[of w0 ss "dv w"] d by auto
    then show ?thesis using step False IH[of dv w1 w'] dv d by (simp add: Let_def)
  qed
qed

lemma eth_rx_process_sent:
  assumes "in_order dv" and "tx_sent w0 ss w" and u: "vq_unlocked w"
  shows "\<exists>w'. eth_rx_process dv w = Some (Done () w') \<and> tx_sent w0 ss w' \<and> vq_unlocked w' \<and>
    (\<exists>v. w' = vq_release RXQ (dv v) \<and> vq_get TXQ v = vq_get TXQ w)"
proof -
  let ?wl = "vq_upd RXQ (\<lambda>q. q\<lparr>vq_lock := (vq_lock q)\<lparr>sl_lock := 1\<rparr>\<rparr>) w"
  have "vq_acquire RXQ w = Some ?wl" using u by (intro acquire_free) (simp add: vq_unlocked_def)
  moreover have "tx_sent w0 ss ?wl" using assms(2) by simp
  note d = dv_sent[OF assms(1) this]
  then have "vq_last_used_idx (vq_get RXQ (dv ?wl)) = vq_used_idx (vq_get RXQ (dv ?wl))"
    by (simp add: tx_sent_def rx_idle_def)
  ultimately have "eth_rx_process dv w = Some (Done () (vq_release RXQ (dv ?wl)))"
    by (simp add: eth_rx_process_def eth_rx_loop.simps[of dv ?wl])
  moreover have "vq_unlocked (vq_release RXQ (dv ?wl))"
    using d u by (auto simp: vq_unlocked_def vq_release_def spin_unlock_def)
  ultimately show ?thesis using d by (intro exI[of _ "vq_release RXQ (dv ?wl)"]) auto
qed

lemma eth_process_sent:
  assumes "eth_process dv w = Some r" and dv: "in_order dv" and s: "tx_sent w0 ss w" and u: "vq_unlocked w"
  shows "\<exists>w'. r = Done () w' \<and> tx_sent w0 ss w' \<and> vq_unlocked w'"
proof -
  obtain w1 where w1: "eth_rx_process dv w = Some (Done () w1)" "tx_sent w0 ss w1" "vq_unlocked w1"
    using eth_rx_process_sent[OF dv s u] by auto
  let ?wl = "vq_upd TXQ (\<lambda>q. q\<lparr>vq_lock := (vq_lock q)\<lparr>sl_lock := 1\<rparr>\<rparr>) w1"
  have l: "vq_acquire TXQ w1 = Some ?wl" using w1(3) by (intro acquire_free) (simp add: vq_unlocked_def)
  have s1: "tx_sent w0 ss ?wl" using w1(2) by simp
  obtain w2 where w2: "eth_tx_loop dv ?wl = Some w2" "r = Done () (vq_release TXQ w2)"
    using assms(1) w1(1) l by (auto simp: eth_process_def eth_tx_process_def Option.bind_eq_Some_conv)
  note e = eth_tx_loop_sent[OF w2(1) dv s1]
  have "vq_unlocked (vq_release TXQ w2)"
    using e w1(3) by (auto simp: vq_unlocked_def vq_release_def spin_unlock_def)
  then show ?thesis using w2(2) e by auto
qed

section \<open>Runs of the driver\<close>

text \<open>
  What can happen: a caller sends a buffer of its own, the device uses a chain, the interrupt or a poll
  comes (with the device at work meanwhile), or others work on anything but the device context and
  the buffers in flight. The label is the list of the frames accepted.
\<close>

inductive eth_step :: "mmio_hw \<Rightarrow> device \<Rightarrow> u8 list list \<Rightarrow> net \<Rightarrow> net \<Rightarrow> bool" for hw dv where
  send: "eth_driver nif zb w = Some (st, w') \<Longrightarrow> tx_buffer zb w \<Longrightarrow>
    eth_step hw dv (if st = STATUS_OK then [zb_payload zb (n_pool w)] else []) w w'"
| device: "dev_step w w' \<Longrightarrow> eth_step hw dv [] w w'"
| interrupt: "eth_interrupt hw dv w = Some r \<Longrightarrow> eth_step hw dv [] w (io_world r)"
| poll: "eth_poll dv w = Some r \<Longrightarrow> eth_step hw dv [] w (io_world r)"
| other: "n_eth w' = n_eth w \<Longrightarrow> zp_memory (n_pool w') = zp_memory (n_pool w) \<Longrightarrow>
    (\<And>h b a. vq_buffers (vq_get TXQ w) h = Some b \<Longrightarrow> b + 104 \<le> a \<Longrightarrow> a < b + 2152 \<Longrightarrow>
       zp_mem (n_pool w') a = zp_mem (n_pool w) a) \<Longrightarrow>
    eth_step hw dv [] w w'"

inductive eth_run :: "mmio_hw \<Rightarrow> device \<Rightarrow> u8 list list \<Rightarrow> net \<Rightarrow> net \<Rightarrow> bool" for hw dv where
  start: "eth_run hw dv [] w w"
| step: "eth_run hw dv ss w0 w \<Longrightarrow> eth_step hw dv ts w w' \<Longrightarrow> eth_run hw dv (ss @ ts) w0 w'"

text \<open>Both queues as \<open>virtq_init\<close> leaves them, of sizes that are powers of two, as the rings require.\<close>

definition queue_size :: "u32 \<Rightarrow> bool" where
  "queue_size n \<longleftrightarrow> n \<noteq> 0 \<and> unat n \<le> VIRTQ_SIZE \<and> unat n dvd 65536"

definition eth_ready :: "net \<Rightarrow> bool" where
  "eth_ready w \<longleftrightarrow> (\<forall>x. \<exists>n mem q. queue_size n \<and> vq_get x w = virtq_fresh n mem q \<and> (\<forall>h. vq_buffers q h = None))"

lemma fresh_lists [simp]: "vq_posted (virtq_fresh n mem q) = []" "vq_returned (virtq_fresh n mem q) = []"
  by (simp_all add: vq_posted_Nil vq_returned_Nil)

lemma fresh_inv:
  assumes "queue_size n" and "\<forall>h. vq_buffers q h = None"
  shows "vq_inv (virtq_fresh n mem q) [0 ..< unat n]"
proof -
  have n: "0 < unat n" "unat n \<le> VIRTQ_SIZE" using assms(1) by (auto simp: queue_size_def unat_gt_0)
  moreover have u: "unat (ucast n :: u16) = unat n"
    using n(2) by (simp add: unsigned_ucast_eq take_bit_nat_eq_self VIRTQ_SIZE_def)
  moreover have "(ucast n :: u16) \<noteq> 0" using n(1) u by (metis less_irrefl unsigned_0)
  ultimately show ?thesis
    using virtq_fresh_free[OF n, of mem q] assms by (auto simp: vq_inv_def vq_flight_def queue_size_def)
qed

lemma eth_ready_sent:
  assumes "eth_ready w"
  shows "tx_sent w [] w \<and> vq_unlocked w"
proof -
  have q: "\<exists>n mem q. queue_size n \<and> vq_get x w = virtq_fresh n mem q \<and> (\<forall>h. vq_buffers q h = None)" for x
    using assms by (auto simp: eth_ready_def)
  obtain n mem q where t: "queue_size n" "vq_get TXQ w = virtq_fresh n mem q" "\<forall>h. vq_buffers q h = None"
    using q by blast
  have "sl_lock (vq_lock (vq_get x w)) = 0" for x using q[of x] by (auto simp: SPINLOCK_INIT_def)
  then have "vq_unlocked w" by (simp add: vq_unlocked_def)
  moreover have "rx_idle w" using q[of RXQ] by (auto simp: rx_idle_def)
  ultimately show ?thesis
    using fresh_inv[OF t(1,3), of mem] t(2,3) by (auto simp: tx_sent_def tx_wire_def tx_chains_def)
qed

lemma eth_send_cases:
  assumes "eth_driver nif zb w = Some (st, w')" and "tx_buffer zb w" and "tx_inv w fs"
  shows "\<exists>fs'. tx_inv w' fs' \<and> tx_only w w' \<and> vq_used_idx (vq_get TXQ w') = vq_used_idx (vq_get TXQ w) \<and>
    tx_wire w' = tx_wire w @ (if st = STATUS_OK then [tx_frame (zb_payload zb (n_pool w))] else []) \<and>
    ed_tx_packets (n_eth w') = ed_tx_packets (n_eth w) + (if st = STATUS_OK then 1 else 0)"
proof -
  have nif: "nif_priv (n_nif w nif) = Some (ed_self (n_eth w))"
    using assms(1) by (auto simp: eth_driver_def eth_send_def split: if_splits)
  show ?thesis
  proof (cases "zb_len (nb_get zb w) = 0 \<or> length fs < 2 \<or> zb_data (nb_get zb w) - zb_head (nb_get zb w) < 12")
    case True
    then show ?thesis using eth_send_refused[OF assms(3,2) nif True] assms(1) by auto
  next
    case False
    then obtain i j gs where fs: "fs = i # j # gs" by (cases fs; cases "tl fs") auto
    show ?thesis
      using eth_send_ok[of w i j gs zb nif] assms nif False by (auto simp: fs tx_frame_def VIRTIO_NET_HDR_SIZE_def)
  qed
qed

lemma eth_step_sent:
  assumes "eth_step hw dv ts w w'" and dv: "in_order dv" and s: "tx_sent w0 ss w" and u: "vq_unlocked w"
  shows "tx_sent w0 (ss @ ts) w' \<and> vq_unlocked w'"
  using assms(1)
proof cases
  case (send nif zb st)
  obtain fs m where m: "vq_inv (vq_get TXQ w) fs" "m \<le> length ss" "tx_wire w = map tx_frame (drop m ss)"
    "vq_used_idx (vq_get TXQ w) = vq_used_idx (vq_get TXQ w0) + of_nat m"
    using s by (auto simp: tx_sent_def)
  have "tx_inv w fs" using m(1) s u by (simp add: tx_inv_def tx_sent_def vq_unlocked_def)
  from eth_send_cases[OF send(2,3) this] obtain fs' where
    w': "tx_inv w' fs'" "tx_only w w'" "vq_used_idx (vq_get TXQ w') = vq_used_idx (vq_get TXQ w)"
      "tx_wire w' = tx_wire w @ map tx_frame ts" "ed_tx_packets (n_eth w') = ed_tx_packets (n_eth w) + of_nat (length ts)"
    using send(1) by (auto split: if_splits)
  have "\<exists>fs m. vq_inv (vq_get TXQ w') fs \<and> m \<le> length (ss @ ts) \<and> tx_wire w' = map tx_frame (drop m (ss @ ts)) \<and>
      vq_used_idx (vq_get TXQ w') = vq_used_idx (vq_get TXQ w0) + of_nat m"
    using w' m by (intro exI[of _ fs'] exI[of _ m]) (auto simp: tx_inv_def)
  then have "tx_sent w0 (ss @ ts) w'"
    using s w' by (auto simp: tx_sent_def tx_inv_def tx_only_def rx_idle_def)
  moreover have "sl_lock (vq_lock (vq_get x w')) = 0" for x
    using u w'(1,2) by (cases x) (auto simp: vq_unlocked_def tx_inv_def tx_only_def)
  ultimately show ?thesis by (simp add: vq_unlocked_def)
next
  case device
  then show ?thesis using dev_step_sent[OF s] u by (auto simp: vq_unlocked_def)
next
  case (interrupt r)
  let ?w = "eth_write VIRTIO_MMIO_INTERRUPT_ACK (fst (eth_read hw VIRTIO_MMIO_INTERRUPT_STATUS w))
    (snd (eth_read hw VIRTIO_MMIO_INTERRUPT_STATUS w))"
  have "tx_sent w0 ss ?w" "vq_unlocked ?w" using s u by (simp_all add: vq_unlocked_def)
  then show ?thesis
    using interrupt eth_process_sent[OF _ dv, of ?w r w0 ss]
    by (auto simp: eth_interrupt_def split_beta Let_def split: if_splits)
next
  case (poll r)
  then show ?thesis using eth_process_sent[OF _ dv s u, of r] s u by (auto simp: eth_poll_def split: if_splits)
next
  case other
  have q: "vq_get x w' = vq_get x w" for x using other(2) by (rule vq_get_cong)
  obtain fs where "vq_inv (vq_get TXQ w) fs" "tx_chains (n_pool w) (vq_get TXQ w)" using s by (auto simp: tx_sent_def)
  from tx_wire_mem[OF this, of "zp_mem (n_pool w')" "zp_mem (n_pool w)"] other(4)
  have "tx_wire w' = tx_wire w" by (simp add: tx_wire_def q)
  then show ?thesis
    using s u other(1-3) by (simp add: tx_sent_def vq_unlocked_def q tx_chains_def rx_idle_def)
qed

lemma eth_run_sent:
  "eth_run hw dv ss w0 w \<Longrightarrow> in_order dv \<Longrightarrow> eth_ready w0 \<Longrightarrow> tx_sent w0 ss w \<and> vq_unlocked w"
  by (induction rule: eth_run.induct) (auto dest: eth_ready_sent eth_step_sent)

section \<open>What the driver promises\<close>

text \<open>For the witnesses: a network with both queues fresh, and a buffer of 100 bytes at address 0.\<close>

definition eth_world :: net where
  "eth_world = net_demo\<lparr>n_nif := (\<lambda>_. nif_demo\<lparr>nif_priv := Some 0x2000\<rparr>),
     n_pool := zpool_blank\<lparr>zp_memory := 0, zp_buf := (\<lambda>_. zbuf_ex\<lparr>zb_head := 104, zb_end := 2152, zb_data := 232,
       zb_tail := 332, zb_len := 100, zb_dma_addr := 104\<rparr>)\<rparr>\<rparr>"

lemma virtq_demo_fresh: "virtq_demo = virtq_fresh 256 0x4000 virtq_demo" "vq_buffers virtq_demo h = None"
  by (simp_all add: virtq_demo_def virtq_fresh_def virtq_link_def virtq_clear_def Let_def)

lemma eth_world_simps [simp]:
  "vq_get x eth_world = virtq_demo" "n_nif eth_world a = nif_demo\<lparr>nif_priv := Some 0x2000\<rparr>"
  "ed_self (n_eth eth_world) = 0x2000" "zp_memory (n_pool eth_world) = 0"
  by (cases x; simp add: eth_world_def net_demo_def eth_demo_def vq_get_def)+

lemma eth_world_ready: "eth_ready eth_world"
  unfolding eth_ready_def
  by (rule allI, rule exI[of _ 256], rule exI[of _ "0x4000"], rule exI[of _ virtq_demo])
    (use virtq_demo_fresh in \<open>simp add: queue_size_def VIRTQ_SIZE_def\<close>)

lemma eth_world_buffer: "tx_buffer 0 eth_world"
  using virtq_demo_fresh
  by (simp add: tx_buffer_def zbuf_slots_def zb_layout_def zb_wf_def sizeof_zbuf_def config_defs eth_world_def net_demo_def
      vq_get_def eth_demo_def image_iff) (metis atLeastLessThan_iff mult_zero_left of_nat_0 zero_le zero_less_numeral)

lemma eth_world_inv: "tx_inv eth_world [0 ..< 256]"
  using fresh_inv[of 256 virtq_demo "0x4000"] virtq_demo_fresh
  by (simp add: tx_inv_def queue_size_def VIRTQ_SIZE_def tx_chains_def)
    (metis SPINLOCK_INIT_def spinlock.select_convs(1) virtq_fresh_simps(7))

lemma eth_world_send: "\<exists>w. eth_driver 8 0 eth_world = Some (STATUS_OK, w)"
proof -
  have e: "[0 ..< 256] = (0 :: nat) # 1 # [2 ..< 256]" by (simp add: upt_conv_Cons)
  have "zb_len (nb_get 0 eth_world) \<noteq> 0" "12 \<le> zb_data (nb_get 0 eth_world) - zb_head (nb_get 0 eth_world)"
    "nif_priv (n_nif eth_world 8) = Some (ed_self (n_eth eth_world))"
    by (simp_all add: eth_world_def net_demo_def eth_demo_def)
  from eth_send_ok[OF eth_world_inv[unfolded e] eth_world_buffer this] show ?thesis by blast
qed

text \<open>C10: frames are transmitted in the order they were accepted. From the state after the two queues are
  set up, in any run of sends, interrupts, polls and work of others, over a device that uses the chains in
  the order of the available ring, the device has used some number of the frames accepted so far, and behind
  the chains it has not used yet it finds the other frames, in order, each with the bytes it had when it was
  sent, after twelve zero bytes. Every descriptor of the queue is free, in flight or waiting to be collected.\<close>

theorem eth_tx_in_order:
  assumes "in_order dv" and "eth_ready w0" and "eth_run hw dv ss w0 w"
  shows "\<exists>m \<le> length ss. tx_wire w = map tx_frame (drop m ss) \<and>
    vq_used_idx (vq_get TXQ w) = of_nat m \<and> ed_tx_packets (n_eth w) = ed_tx_packets (n_eth w0) + of_nat (length ss) \<and>
    unat (vq_num_free (vq_get TXQ w)) + length (vq_returned (vq_get TXQ w)) + length (vq_posted (vq_get TXQ w)) =
      unat (vq_num (vq_get TXQ w))"
proof -
  have s: "tx_sent w0 ss w" using eth_run_sent[OF assms(3,1,2)] by blast
  then obtain fs m where m: "vq_inv (vq_get TXQ w) fs" "m \<le> length ss" "tx_wire w = map tx_frame (drop m ss)"
    "vq_used_idx (vq_get TXQ w) = vq_used_idx (vq_get TXQ w0) + of_nat m"
    by (auto simp: tx_sent_def)
  obtain n mem q where "vq_get TXQ w0 = virtq_fresh n mem q" using assms(2) unfolding eth_ready_def by blast
  then show ?thesis
    using m vq_inv_length[OF m(1)] s by (intro exI[of _ m]) (auto simp: tx_sent_def vq_inv_def vq_free_def)
qed

theorem eth_tx_in_order_witness:
  "\<exists>w. eth_driver 8 0 eth_world = Some (STATUS_OK, w) \<and>
     (\<exists>m \<le> 1. tx_wire w = map tx_frame (drop m [zb_payload 0 (n_pool eth_world)]) \<and> vq_used_idx (vq_get TXQ w) = of_nat m)"
proof -
  obtain w where w: "eth_driver 8 0 eth_world = Some (STATUS_OK, w)" using eth_world_send by blast
  let ?hw = "\<lambda>_ _. 0"
  have "eth_run ?hw id ([] @ [zb_payload 0 (n_pool eth_world)]) eth_world w"
    using eth_step.send[OF w eth_world_buffer, of ?hw id] by (intro eth_run.step[OF eth_run.start]) simp
  moreover have "in_order id" by (simp add: in_order_def)
  ultimately show ?thesis
    using w eth_tx_in_order[OF _ eth_world_ready, of id ?hw "[zb_payload 0 (n_pool eth_world)]" w] by auto
qed

lemma rx_add_refused:
  assumes "sl_lock (vq_lock (vq_get RXQ w)) = 0"
  shows "\<exists>w'. eth_rx_add_buffer w = Some (STATUS_NO_MEM, w') \<and> vq_avail_idx (vq_get RXQ w') = vq_avail_idx (vq_get RXQ w)"
proof -
  have "zbuf_alloc_rx 2048 z = (None, z)" for z by (simp add: zbuf_alloc_rx_def zbuf_alloc_def config_defs)
  then show ?thesis
    by (simp add: eth_rx_add_buffer_def acquire_free[OF assms] config_defs vq_release_def)
qed

text \<open>C20: the machine receives nothing. \<open>eth_rx_add_buffer\<close> asks \<open>zbuf_alloc_rx\<close> for \<open>CONFIG_ZBUF_SIZE\<close> bytes,
  which are more than the size less the headroom that \<open>zbuf_alloc\<close> hands out: it always fails, filling the queue
  ends at once, the available ring for receiving stays empty, and in every run over a device that writes
  only to the chains posted, no frame is counted or passed to the stack.\<close>

theorem eth_never_receives:
  assumes "in_order dv" and "eth_ready w0" and "eth_run hw dv ss w0 w"
  shows "(\<exists>w'. eth_rx_add_buffer w = Some (STATUS_NO_MEM, w')) \<and>
    (\<exists>w'. eth_rx_fill w = Some w' \<and> vq_avail_idx (vq_get RXQ w') = 0) \<and>
    vq_avail_idx (vq_get RXQ w) = 0 \<and> ed_rx_packets (n_eth w) = ed_rx_packets (n_eth w0)"
proof -
  have s: "tx_sent w0 ss w" "vq_unlocked w" using eth_run_sent[OF assms(3,1,2)] by auto
  obtain n mem q where "vq_get RXQ w0 = virtq_fresh n mem q" using assms(2) unfolding eth_ready_def by blast
  then have a: "vq_avail_idx (vq_get RXQ w) = 0" using s(1) by (simp add: tx_sent_def)
  obtain w' where w': "eth_rx_add_buffer w = Some (STATUS_NO_MEM, w')" "vq_avail_idx (vq_get RXQ w') = 0"
    using rx_add_refused[of w] s(2) a by (auto simp: vq_unlocked_def)
  then have "eth_rx_fill w = Some w'" by (subst eth_rx_fill.simps) simp
  then show ?thesis using w' a s(1) by (auto simp: tx_sent_def)
qed

lemma id_in_order: "in_order id"
  by (simp add: in_order_def)

theorem eth_never_receives_witness:
  "\<exists>w. eth_driver 8 0 eth_world = Some (STATUS_OK, w) \<and> vq_avail_idx (vq_get RXQ w) = 0 \<and>
     (\<exists>w'. eth_rx_add_buffer w = Some (STATUS_NO_MEM, w'))"
proof -
  obtain w where w: "eth_driver 8 0 eth_world = Some (STATUS_OK, w)" using eth_world_send by blast
  have "eth_run (\<lambda>_ _. 0) id ([] @ [zb_payload 0 (n_pool eth_world)]) eth_world w"
    using eth_step.send[OF w eth_world_buffer, of "\<lambda>_ _. 0" id] by (intro eth_run.step[OF eth_run.start]) simp
  then show ?thesis using w eth_never_receives[OF id_in_order eth_world_ready] by blast
qed

text \<open>C29: a frame being sent and the interrupt. \<open>eth_send\<close> takes the lock of the transmit queue without masking
  interrupts. From any state of a run, once the lock is taken, the handler called for a used-buffer
  interrupt never returns: it waits for the lock that only the code it has interrupted can release.\<close>

theorem eth_interrupt_deadlock:
  assumes "in_order dv" and "eth_ready w0" and "eth_run hw dv ss w0 w"
    and "vq_acquire TXQ w = Some w1" and "fst (eth_read hw VIRTIO_MMIO_INTERRUPT_STATUS w1) AND 1 \<noteq> 0"
    and "net_of s = w1"
  shows "eth_irq_handler hw dv irq arg s = None"
proof -
  have s: "tx_sent w0 ss w" "vq_unlocked w" using eth_run_sent[OF assms(3,1,2)] by auto
  define w2 where "w2 = eth_write VIRTIO_MMIO_INTERRUPT_ACK (fst (eth_read hw VIRTIO_MMIO_INTERRUPT_STATUS w1))
    (snd (eth_read hw VIRTIO_MMIO_INTERRUPT_STATUS w1))"
  define w3 where "w3 = vq_upd RXQ (\<lambda>q. q\<lparr>vq_lock := (vq_lock q)\<lparr>sl_lock := 1\<rparr>\<rparr>) w2"
  have l: "sl_lock (vq_lock (vq_get TXQ w)) = 0" "sl_lock (vq_lock (vq_get RXQ w)) = 0"
    using s(2) by (auto simp: vq_unlocked_def)
  have w1: "w1 = vq_upd TXQ (\<lambda>q. q\<lparr>vq_lock := (vq_lock q)\<lparr>sl_lock := 1\<rparr>\<rparr>) w"
    using assms(4) acquire_free[OF l(1)] by simp
  have "tx_sent w0 ss w3" using s(1) by (simp add: w3_def w2_def w1)
  note d = dv_sent[OF assms(1) this]
  have "vq_acquire RXQ w2 = Some w3"
    unfolding w3_def by (rule acquire_free) (use l in \<open>simp add: w2_def w1\<close>)
  moreover have "vq_last_used_idx (vq_get RXQ (dv w3)) = vq_used_idx (vq_get RXQ (dv w3))"
    using d by (simp add: tx_sent_def rx_idle_def)
  moreover have "vq_lock (vq_get TXQ (dv w3)) = vq_lock (vq_get TXQ w3)" using d by blast
  then have "sl_lock (vq_lock (vq_get TXQ (vq_release RXQ (dv w3)))) \<noteq> 0"
    by (simp add: vq_release_def w3_def w2_def w1)
  then have "vq_acquire TXQ (vq_release RXQ (dv w3)) = None" by (simp add: vq_acquire_def spin_lock_def)
  ultimately have "eth_process dv w2 = None"
    by (simp add: eth_process_def eth_rx_process_def eth_rx_loop.simps[of dv w3] eth_tx_process_def)
  then have "eth_interrupt hw dv w1 = None"
    using assms(5) by (simp add: eth_interrupt_def split_beta Let_def w2_def)
  then show ?thesis using assms(6) by (simp add: eth_irq_handler_def)
qed

definition intr_at :: "net \<Rightarrow> net intr" where
  "intr_at w = \<lparr>in_table = (\<lambda>_. \<lparr>ie_handler = None, ie_arg = None\<rparr>), in_lock = SPINLOCK_INIT, in_nest = 0, in_gic = [],
     in_timer = (\<lambda>_. \<lparr>tm_expire = 0, tm_period = 0, tm_callback = None, tm_arg = None, tm_active = False,
       tm_periodic = False, tm_next = None\<rparr>), in_timer_list = None, in_timer_lock = SPINLOCK_INIT, in_cval = 0,
     in_ctl = 0, in_sched = n_sched w, in_app = w\<rparr>"

theorem eth_interrupt_deadlock_witness:
  "\<exists>w1. vq_acquire TXQ eth_world = Some w1 \<and> eth_irq_handler (\<lambda>_ _. 1) id 47 (Some 0x2000) (intr_at w1) = None"
proof -
  have "sl_lock (vq_lock (vq_get TXQ eth_world)) = 0" using eth_world_inv by (simp add: tx_inv_def)
  from acquire_free[OF this] obtain w1 where w1: "vq_acquire TXQ eth_world = Some w1" by blast
  have "net_of (intr_at w1) = w1" by (simp add: net_of_def intr_at_def)
  moreover have "fst (eth_read (\<lambda>_ _. 1) VIRTIO_MMIO_INTERRUPT_STATUS w1) AND 1 \<noteq> 0" by (simp add: eth_read_def)
  ultimately show ?thesis
    using w1 eth_interrupt_deadlock[OF id_in_order eth_world_ready eth_run.start w1] by blast
qed

lemma eth_tx_loop_quiet:
  assumes "tx_sent w0 ss w"
  shows "\<exists>w'. eth_tx_loop id w = Some w' \<and> tx_sent w0 ss w' \<and> vq_returned (vq_get TXQ w') = [] \<and>
    vq_posted (vq_get TXQ w') = vq_posted (vq_get TXQ w)"
  using assms
proof (induction "length (vq_returned (vq_get TXQ w))" arbitrary: w rule: less_induct)
  case less
  show ?case
  proof (cases "vq_last_used_idx (vq_get TXQ w) = vq_used_idx (vq_get TXQ w)")
    case True
    then show ?thesis using less.prems by (subst eth_tx_loop.simps) (simp add: vq_returned_Nil)
  next
    case False
    from eth_tx_collect_ok[OF less.prems False] obtain w1 where w1: "eth_tx_collect w = Some w1" "tx_sent w0 ss w1"
      "vq_posted (vq_get TXQ w1) = vq_posted (vq_get TXQ w)"
      "length (vq_returned (vq_get TXQ w)) = Suc (length (vq_returned (vq_get TXQ w1)))" by blast
    then show ?thesis using less.hyps[of w1] False by (subst eth_tx_loop.simps) simp
  qed
qed

text \<open>The interrupt returns, and descriptors come back. From any state of a run in which no lock is held,
  with a device that is quiet meanwhile, the handler's work ends: nothing is left to collect, and every
  descriptor not posted is free again.\<close>

theorem eth_interrupt_collects:
  assumes "in_order dv" and "eth_ready w0" and "eth_run hw dv ss w0 w"
    and "fst (eth_read hw VIRTIO_MMIO_INTERRUPT_STATUS w) AND 1 \<noteq> 0"
  shows "\<exists>w'. eth_interrupt hw id w = Some (Done () w') \<and> vq_returned (vq_get TXQ w') = [] \<and>
    vq_posted (vq_get TXQ w') = vq_posted (vq_get TXQ w) \<and>
    unat (vq_num_free (vq_get TXQ w')) + length (vq_posted (vq_get TXQ w)) = unat (vq_num (vq_get TXQ w'))"
proof -
  have s: "tx_sent w0 ss w" "vq_unlocked w" using eth_run_sent[OF assms(3,1,2)] by auto
  define w1 where "w1 = eth_write VIRTIO_MMIO_INTERRUPT_ACK (fst (eth_read hw VIRTIO_MMIO_INTERRUPT_STATUS w))
    (snd (eth_read hw VIRTIO_MMIO_INTERRUPT_STATUS w))"
  have 1: "tx_sent w0 ss w1" "vq_unlocked w1" "vq_get TXQ w1 = vq_get TXQ w"
    using s by (simp_all add: w1_def vq_unlocked_def)
  obtain w2 where w2: "eth_rx_process id w1 = Some (Done () w2)" "tx_sent w0 ss w2" "vq_unlocked w2"
    "vq_get TXQ w2 = vq_get TXQ w"
    using eth_rx_process_sent[OF id_in_order 1(1,2)] 1(3) by (auto simp: vq_release_def)
  let ?w = "vq_upd TXQ (\<lambda>q. q\<lparr>vq_lock := (vq_lock q)\<lparr>sl_lock := 1\<rparr>\<rparr>) w2"
  have l: "vq_acquire TXQ w2 = Some ?w" using w2(3) by (intro acquire_free) (simp add: vq_unlocked_def)
  obtain w3 where w3: "eth_tx_loop id ?w = Some w3" "tx_sent w0 ss w3" "vq_returned (vq_get TXQ w3) = []"
    "vq_posted (vq_get TXQ w3) = vq_posted (vq_get TXQ w)"
    using eth_tx_loop_quiet[of w0 ss ?w] w2(2,4) by auto
  have "eth_interrupt hw id w = Some (Done () (vq_release TXQ w3))"
    using assms(4) w2(1) l w3(1)
    by (simp add: eth_interrupt_def split_beta Let_def w1_def[symmetric] eth_process_def eth_tx_process_def)
  moreover obtain fs where "vq_inv (vq_get TXQ w3) fs" using w3(2) by (auto simp: tx_sent_def)
  note vq_inv_length[OF this] this
  ultimately show ?thesis using w3(3,4)
    by (intro exI[of _ "vq_release TXQ w3"]) (simp add: vq_release_def vq_inv_def vq_free_def)
qed

theorem eth_interrupt_collects_witness:
  "\<exists>w v w'. eth_driver 8 0 eth_world = Some (STATUS_OK, w) \<and> dev_step w v \<and>
     eth_interrupt (\<lambda>_ _. 1) id v = Some (Done () w') \<and> vq_returned (vq_get TXQ w') = []"
proof -
  obtain w where w: "eth_driver 8 0 eth_world = Some (STATUS_OK, w)" using eth_world_send by blast
  have r: "eth_run (\<lambda>_ _. 1) id ([] @ [zb_payload 0 (n_pool eth_world)]) eth_world w"
    using eth_step.send[OF w eth_world_buffer, of "\<lambda>_ _. 1" id] by (intro eth_run.step[OF eth_run.start]) simp
  obtain fs where "vq_used_idx (vq_get TXQ w) = vq_used_idx (vq_get TXQ eth_world)" "tx_wire w \<noteq> []"
    using eth_send_cases[OF w eth_world_buffer eth_world_inv] by auto
  then have "vq_used_idx (vq_get TXQ w) \<noteq> vq_avail_idx (vq_get TXQ w)"
    by (auto simp: tx_wire_def vq_posted_Nil)
  then have d: "dev_step w (vq_upd TXQ (dev_return 0) w)" by (rule dev_step.sent)
  have "eth_run (\<lambda>_ _. 1) id (([] @ [zb_payload 0 (n_pool eth_world)]) @ []) eth_world (vq_upd TXQ (dev_return 0) w)"
    by (rule eth_run.step[OF r eth_step.device[OF d]])
  from eth_interrupt_collects[OF id_in_order eth_world_ready this] show ?thesis
    using w d by (auto simp: eth_read_def)
qed

end
