(* ===== verification/Eth_Start.thy ===== *)
theory Eth_Start
  imports Eth_Props
begin

text \<open>
  Initialisation of the virtio network driver of \<open>drivers/eth/eth.c\<close>: the memory of the queues, what
  setting the device up changes, and the state it leaves, from which the runs of the driver start.
\<close>

section \<open>The memory of a queue\<close>

lemma uint_ucast_u64 [simp]: "uint (ucast (x :: u32) :: u64) = uint x"
  using uint_lt2p[of x] by (simp add: unsigned_ucast_eq take_bit_int_eq_self)

lemma virtq_align_page:
  assumes "0 < uint x" and "uint x \<le> 4096"
  shows "virtq_align x = 4096"
proof -
  have m: "VIRTQ_ALIGN - 1 = mask 12" by (simp add: VIRTQ_ALIGN_def mask_eq_exp_minus_1)
  have e: "x + VIRTQ_ALIGN - 1 = x + 4095" by (simp add: VIRTQ_ALIGN_def)
  have "uint (x + VIRTQ_ALIGN - 1) = uint x + 4095"
    unfolding e by (subst uint_add_no_wrap) (use assms in simp_all)
  then have "uint (virtq_align x) = (uint x + 4095) div 4096 * 4096"
    unfolding virtq_align_def m by (simp add: uint_and_not_mask)
  moreover have "(uint x + 4095) div 4096 = 1" by (rule int_div_pos_eq[where r = "uint x - 1"]) (use assms in simp_all)
  ultimately have "uint (virtq_align x) = uint (4096 :: u64)" by simp
  then show ?thesis by (simp only: word_uint_eq_iff)
qed

text \<open>Whatever the size of the queue, each of its three parts takes one page.\<close>

lemma queue_pages:
  assumes "0 < unat n" and "unat n \<le> VIRTQ_SIZE"
  shows "desc_size n + avail_size n + used_size n = 12288"
proof -
  have n: "1 \<le> uint n" "uint n \<le> 256" using assms unfolding unat_eq_nat_uint VIRTQ_SIZE_def by linarith+
  have "uint (16 * ucast n :: u64) = 16 * uint n" using n by (simp add: uint_word_ariths mod_pos_pos_trivial)
  moreover have "uint (2 * ucast (3 + n) :: u64) = 6 + 2 * uint n"
    using n by (simp add: uint_word_ariths mod_pos_pos_trivial)
  moreover have "uint (2 * 3 + 8 * ucast n :: u64) = 6 + 8 * uint n"
    using n by (simp add: uint_word_ariths mod_pos_pos_trivial)
  ultimately show ?thesis using n
    by (simp add: desc_size_def avail_size_def used_size_def virtq_align_page)
qed

section \<open>Initialisation\<close>

text \<open>What setting the device up leaves alone.\<close>

definition eth_same :: "net \<Rightarrow> net \<Rightarrow> bool" where
  "eth_same w w' \<longleftrightarrow> n_sched w' = n_sched w \<and> n_pool w' = n_pool w \<and> n_nif w' = n_nif w \<and>
     n_netif_list w' = n_netif_list w \<and> n_netif_default w' = n_netif_default w \<and>
     ed_self (n_eth w') = ed_self (n_eth w) \<and> ed_netif (n_eth w') = ed_netif (n_eth w) \<and>
     ed_irq (n_eth w') = ed_irq (n_eth w) \<and> ed_base (n_eth w') = ed_base (n_eth w)"

lemma eth_same_refl [simp]: "eth_same w w"
  by (simp add: eth_same_def)

lemma eth_same_trans: "eth_same w v \<Longrightarrow> eth_same v u \<Longrightarrow> eth_same w u"
  by (simp add: eth_same_def)

lemma eth_same_write [simp]: "eth_same w (eth_write off v u) = eth_same w u"
  and eth_same_read [simp]: "eth_same w (snd (eth_read hw off u)) = eth_same w u"
  and eth_same_vq [simp]: "eth_same w (vq_upd x f u) = eth_same w u"
  by (cases x; simp add: eth_same_def eth_write_def eth_read_def vq_upd_def vq_set_def ed_upd_def)+

lemma eth_heap [simp]:
  "n_heap (eth_write off v w) = n_heap w" "n_heap (snd (eth_read hw off w)) = n_heap w" "n_heap (vq_upd x f w) = n_heap w"
  "n_heap (ed_upd g w) = n_heap w"
  by (simp_all add: eth_write_def eth_read_def vq_upd_def vq_set_def ed_upd_def)

text \<open>A network device that accepts the features and offers queues of \<open>n\<close>.\<close>

definition virtio_net :: "mmio_hw \<Rightarrow> u32 \<Rightarrow> bool" where
  "virtio_net hw n \<longleftrightarrow> (\<forall>log.
     hw log (CONFIG_ETH_BASE + VIRTIO_MMIO_MAGIC) = 0x74726976 \<and>
     hw log (CONFIG_ETH_BASE + VIRTIO_MMIO_DEVICE_ID) = VIRTIO_DEV_NET \<and>
     hw log (CONFIG_ETH_BASE + VIRTIO_MMIO_STATUS) AND VIRTIO_STATUS_FEATURES_OK \<noteq> 0 \<and>
     hw log (CONFIG_ETH_BASE + VIRTIO_MMIO_QUEUE_NUM_MAX) = n)"

lemma eth_dma_pages:
  assumes "heap_alloc_aligned 12288 4096 (n_heap w) = Some (p, h)"
  shows "\<exists>w'. eth_dma_alloc 12288 w = Some (p, w') \<and> eth_same w w' \<and> n_eth w' = n_eth w \<and> n_heap w' = h"
  using assms by (simp add: eth_dma_alloc_def dma_alloc_def dma_pages_def eth_same_def)

lemma virtq_configure_same [simp]:
  "vq_get y (virtq_configure x n w) = vq_get y w" "eth_same u (virtq_configure x n w) = eth_same u w"
  "n_heap (virtq_configure x n w) = n_heap w"
  by (simp_all add: virtq_configure_def eth_write_addr_def Let_def)

lemma virtq_init_ok:
  assumes hw: "virtio_net hw n" and base: "ed_base (n_eth w) = CONFIG_ETH_BASE"
    and n: "n \<noteq> 0" "unat n \<le> VIRTQ_SIZE"
    and mem: "heap_alloc_aligned 12288 4096 (n_heap w) = Some (Some mem, h)"
  shows "\<exists>w'. virtq_init hw x qsel w = Some (STATUS_OK, w') \<and> eth_same w w' \<and> n_heap w' = h \<and>
    vq_get x w' = virtq_fresh n mem (vq_get x w) \<and> (\<forall>y. y \<noteq> x \<longrightarrow> vq_get y w' = vq_get y w)"
proof -
  define w1 where "w1 = snd (eth_read hw VIRTIO_MMIO_QUEUE_NUM_MAX (eth_write VIRTIO_MMIO_QUEUE_SEL qsel w))"
  define w2 where "w2 = vq_upd x (\<lambda>q. q\<lparr>vq_num := ucast n, vq_free_head := 0, vq_num_free := ucast n,
     vq_last_used_idx := 0, vq_lock := SPINLOCK_INIT\<rparr>) w1"
  have r: "eth_read hw VIRTIO_MMIO_QUEUE_NUM_MAX (eth_write VIRTIO_MMIO_QUEUE_SEL qsel w) = (n, w1)"
    using hw base by (simp add: w1_def eth_read_def eth_write_def ed_upd_def virtio_net_def)
  have cap: "\<not> of_nat VIRTQ_SIZE < n" using n(2) by (simp add: VIRTQ_SIZE_def word_less_nat_alt)
  have "0 < unat n" using n(1) by (simp add: unat_gt_0)
  note pages = queue_pages[OF this n(2)]
  have s2: "eth_same w w2" "n_heap w2 = n_heap w" by (simp_all add: w2_def w1_def)
  then obtain w3 where w3: "eth_dma_alloc 12288 w2 = Some (Some mem, w3)" "eth_same w2 w3" "n_eth w3 = n_eth w2" "n_heap w3 = h"
    using eth_dma_pages[of w2 "Some mem" h] mem by auto
  define w4 where "w4 = virtq_configure x n (vq_upd x (virtq_link n) (vq_upd x (virtq_clear n mem) w3))"
  have "virtq_init hw x qsel w = Some (STATUS_OK, w4)"
    using r cap n(1) w3(1) by (simp add: virtq_init_def Let_def w2_def[symmetric] pages w4_def)
  moreover have "vq_get y w3 = vq_get y w2" for y using w3(3) by (rule vq_get_cong)
  moreover have "eth_same w w4" using s2(1) w3(2) by (auto simp: w4_def intro: eth_same_trans)
  ultimately show ?thesis
    using w3(4) by (intro exI[of _ w4]) (simp add: w4_def w2_def w1_def virtq_fresh_def)
qed

lemma eth_config_bytes_same:
  "eth_same w (snd (eth_config_bytes hw i n w)) \<and> n_heap (snd (eth_config_bytes hw i n w)) = n_heap w \<and>
   (\<forall>x. vq_get x (snd (eth_config_bytes hw i n w)) = vq_get x w)"
proof (induction n arbitrary: i w)
  case (Suc n)
  show ?case
    using Suc.IH[of "snd (eth_read hw (VIRTIO_MMIO_CONFIG + int i) w)" "i + 1"]
    by (auto simp: split_beta Let_def
        intro: eth_same_trans[where v = "snd (eth_read hw (VIRTIO_MMIO_CONFIG + int i) w)"])
qed simp

lemma ed_mac_same [simp]:
  "eth_same u (ed_upd (ed_mac_update f) w) = eth_same u w" "vq_get x (ed_upd (ed_mac_update f) w) = vq_get x w"
  by (cases x; simp add: eth_same_def ed_upd_def vq_get_def)+

lemma eth_set_mac_same [simp]:
  "eth_same w (eth_set_mac hw fs w)" "n_heap (eth_set_mac hw fs w) = n_heap w" "vq_get x (eth_set_mac hw fs w) = vq_get x w"
  using eth_config_bytes_same[of w hw 0 6] by (simp_all add: eth_set_mac_def split_beta Let_def)

lemma eth_negotiate_ok:
  assumes "virtio_net hw n" and "ed_base (n_eth w) = CONFIG_ETH_BASE"
  shows "\<exists>fs w'. eth_negotiate hw w = (Some fs, w') \<and> eth_same w w' \<and> n_heap w' = n_heap w \<and> (\<forall>x. vq_get x w' = vq_get x w)"
proof -
  have rd: "fst (eth_read hw off v) = hw (ed_mmio (n_eth v)) (CONFIG_ETH_BASE + off)"
    if "eth_same w v" for off v
    using that assms(2) by (simp add: eth_read_def eth_same_def)
  show ?thesis using assms(1)
    by (auto simp: eth_negotiate_def Let_def split_beta virtio_net_def rd)
qed

lemma eth_rx_fill_none:
  assumes "vq_lock (vq_get RXQ w) = SPINLOCK_INIT"
  shows "\<exists>w'. eth_rx_fill w = Some w' \<and> (\<forall>x. vq_get x w' = vq_get x w) \<and> eth_same w w'"
proof -
  have l: "sl_lock (vq_lock (vq_get RXQ w)) = 0" using assms by (simp add: SPINLOCK_INIT_def)
  have no: "zbuf_alloc_rx 2048 z = (None, z)" for z by (simp add: zbuf_alloc_rx_def zbuf_alloc_def config_defs)
  let ?w = "vq_release RXQ (vq_upd RXQ (\<lambda>q. q\<lparr>vq_lock := (vq_lock q)\<lparr>sl_lock := 1\<rparr>\<rparr>) w)"
  have "eth_rx_add_buffer w = Some (STATUS_NO_MEM, ?w) \<or> eth_rx_add_buffer w = Some (STATUS_NO_MEM, ?w\<lparr>n_pool := n_pool w\<rparr>)"
    by (simp add: eth_rx_add_buffer_def acquire_free[OF l] config_defs no vq_release_def vq_upd_def)
  moreover have "(vq_get RXQ w)\<lparr>vq_lock := SPINLOCK_INIT\<rparr> = vq_get RXQ w" using assms by simp
  then have "vq_get x ?w = vq_get x w" for x
    using assms by (simp add: vq_release_def spin_unlock_def SPINLOCK_INIT_def)
  moreover have "eth_same w ?w" "eth_same w (?w\<lparr>n_pool := n_pool w\<rparr>)"
    by (simp_all add: vq_release_def eth_same_def vq_upd_def vq_set_def ed_upd_def)
  ultimately show ?thesis by (subst eth_rx_fill.simps) auto
qed

lemma irq_registers:
  assumes "sl_lock (in_lock s) = 0" and "unat irq < MAX_IRQS"
  shows "\<exists>s'. irq_register irq (Some h) arg s = Some (STATUS_OK, s') \<and> in_app s' = in_app s \<and>
    in_table s' (unat irq) = \<lparr>ie_handler = Some h, ie_arg = arg\<rparr>"
  using assms
  by (simp add: irq_register_def irq_lock_irq_def spin_lock_irq_def spin_lock_def Let_def split_beta
      irq_unlock_irq_def not_le)

lemma irq_enable_same [simp]: "in_app (irq_enable irq s) = in_app s" "in_table (irq_enable irq s) = in_table s"
  by (simp_all add: irq_enable_def mmio_write32_def)

lemma net_of_same [simp]:
  "vq_get x (net_of s) = vq_get x (in_app s)" "n_eth (net_of s) = n_eth (in_app s)" "n_nif (net_of s) = n_nif (in_app s)"
  "n_netif_list (net_of s) = n_netif_list (in_app s)"
  "n_heap (net_of s) = n_heap (in_app s)" "in_app (net_put w s) = w" "in_table (net_put w s) = in_table s"
  "in_lock (net_put w s) = in_lock s"
  by (cases x; simp add: net_of_def net_put_def vq_get_def)+

lemma netif_register_same [simp]:
  "vq_get x (snd (netif_register a w)) = vq_get x w" "n_eth (snd (netif_register a w)) = n_eth w"
  "n_netif_list (snd (netif_register a w)) = Some a"
  "nif_priv (n_nif (snd (netif_register a w)) b) = nif_priv (n_nif w b)"
  by (cases x; simp add: netif_register_def nif_upd_def vq_get_def Let_def)+

lemma ed_write_same [simp]:
  "ed_irq (n_eth (eth_write off v w)) = ed_irq (n_eth w)" "ed_self (n_eth (eth_write off v w)) = ed_self (n_eth w)"
  "ed_netif (n_eth (eth_write off v w)) = ed_netif (n_eth w)"
  by (simp_all add: eth_write_def ed_upd_def)

lemma eth_setup_netif_same [simp]:
  "vq_get x (eth_setup_netif w) = vq_get x w" "n_eth (eth_setup_netif w) = n_eth w"
  "nif_priv (n_nif (eth_setup_netif w) (ed_netif (n_eth w))) = Some (ed_self (n_eth w))"
  by (cases x; simp add: eth_setup_netif_def nif_upd_def vq_get_def)+

lemma ed_initialized_same [simp]:
  "vq_get x (ed_upd (ed_initialized_update f) w) = vq_get x w"
  "ed_self (n_eth (ed_upd (ed_initialized_update f) w)) = ed_self (n_eth w)"
  "ed_netif (n_eth (ed_upd (ed_initialized_update f) w)) = ed_netif (n_eth w)"
  "n_netif_list (ed_upd g w) = n_netif_list w" "n_nif (ed_upd g w) = n_nif w"
  by (cases x; simp add: ed_upd_def vq_get_def)+

text \<open>The device is set up and known to the rest of the system.\<close>

definition eth_running :: "addr \<Rightarrow> net intr \<Rightarrow> bool" where
  "eth_running h s \<longleftrightarrow> (let d = n_eth (net_of s) in
     in_table s (unat (ed_irq d)) = \<lparr>ie_handler = Some h, ie_arg = Some (ed_self d)\<rparr> \<and>
     n_netif_list (net_of s) = Some (ed_netif d) \<and> eth_get_netif (net_of s) = Some (ed_netif d) \<and>
     nif_priv (n_nif (net_of s) (ed_netif d)) = Some (ed_self d))"

lemma eth_start_ok:
  assumes lock: "sl_lock (in_lock s) = 0" and irq: "unat (ed_irq (n_eth w)) < MAX_IRQS"
    and rx: "vq_lock (vq_get RXQ w) = SPINLOCK_INIT"
  shows "\<exists>s'. eth_start h w s = Some (STATUS_OK, s') \<and> eth_running h s' \<and> (\<forall>x. vq_get x (net_of s') = vq_get x w)"
proof -
  let ?d = "n_eth w"
  define w1 where "w1 = eth_setup_netif (eth_write VIRTIO_MMIO_STATUS (VIRTIO_STATUS_ACK OR VIRTIO_STATUS_DRIVER OR
     VIRTIO_STATUS_FEATURES_OK OR VIRTIO_STATUS_DRIVER_OK) w)"
  have d: "ed_irq (n_eth w1) = ed_irq ?d" "ed_self (n_eth w1) = ed_self ?d" "ed_netif (n_eth w1) = ed_netif ?d"
    "nif_priv (n_nif w1 (ed_netif ?d)) = Some (ed_self ?d)"
    by (simp_all add: w1_def eth_write_def ed_upd_def eth_setup_netif_def nif_upd_def)
  obtain s1 where s1: "irq_register (ed_irq ?d) (Some h) (Some (ed_self ?d)) (net_put w1 s) = Some (STATUS_OK, s1)"
    "in_app s1 = w1" "in_table s1 (unat (ed_irq ?d)) = \<lparr>ie_handler = Some h, ie_arg = Some (ed_self ?d)\<rparr>"
    using irq_registers[of "net_put w1 s" "ed_irq ?d"] lock irq by auto
  let ?n = "net_of (irq_enable (ed_irq ?d) s1)"
  obtain w2 where w2: "eth_rx_fill ?n = Some w2" "\<forall>x. vq_get x w2 = vq_get x w" "eth_same ?n w2"
    using eth_rx_fill_none[of ?n] rx s1(2) by (auto simp: w1_def)
  define w3 where "w3 = ed_upd (ed_initialized_update (\<lambda>_. True)) (snd (netif_register (ed_netif ?d) w2))"
  have e: "ed_self (n_eth w3) = ed_self ?d" "ed_netif (n_eth w3) = ed_netif ?d" "ed_irq (n_eth w3) = ed_irq ?d"
    "nif_priv (n_nif w3 (ed_netif ?d)) = Some (ed_self ?d)" "n_netif_list w3 = Some (ed_netif ?d)" "ed_initialized (n_eth w3)"
    using w2(3) s1(2) d by (simp_all add: w3_def eth_same_def ed_upd_def)
  have "ed_netif (n_eth w2) = ed_netif ?d" using w2(3) s1(2) d by (simp add: eth_same_def)
  then have "eth_start h w s = Some (STATUS_OK, net_put w3 (irq_enable (ed_irq ?d) s1))"
    using s1 w2 d by (simp add: eth_start_def Let_def split_beta w1_def[symmetric] w3_def)
  then show ?thesis using e s1(3) w2(2)
    by (intro exI[of _ "net_put w3 (irq_enable (ed_irq ?d) s1)"])
      (simp add: eth_running_def Let_def eth_get_netif_def w3_def)
qed

lemma eth_init_aux:
  assumes hw: "virtio_net hw n" and n: "queue_size n" and buf: "\<forall>x h. vq_buffers (vq_get x (net_of s)) h = None"
    and m1: "heap_alloc_aligned 12288 4096 (n_heap (net_of s)) = Some (Some a, h1)"
    and m2: "heap_alloc_aligned 12288 4096 h1 = Some (Some b, h2)" and lock: "sl_lock (in_lock s) = 0"
  shows "\<exists>s'. eth_init hw h s = Some (STATUS_OK, s') \<and> eth_running h s' \<and> eth_ready (net_of s')"
proof -
  have n': "n \<noteq> 0" "unat n \<le> VIRTQ_SIZE" using n by (auto simp: queue_size_def)
  define w0 where "w0 = ed_upd (\<lambda>d. d\<lparr>ed_base := CONFIG_ETH_BASE, ed_irq := CONFIG_ETH_IRQ, ed_lock := SPINLOCK_INIT\<rparr>) (net_of s)"
  have w0: "ed_base (n_eth w0) = CONFIG_ETH_BASE" "ed_irq (n_eth w0) = CONFIG_ETH_IRQ" "n_heap w0 = n_heap (net_of s)"
    "\<forall>x h. vq_buffers (vq_get x w0) h = None"
    using buf by (simp_all add: w0_def ed_upd_def vq_get_def split: vqsel.splits)
  obtain fs w1 where w1: "eth_negotiate hw w0 = (Some fs, w1)" "eth_same w0 w1" "n_heap w1 = n_heap w0"
    "\<forall>x. vq_get x w1 = vq_get x w0"
    using eth_negotiate_ok[OF hw w0(1)] by blast
  define w2 where "w2 = eth_set_mac hw fs w1"
  have w2: "ed_base (n_eth w2) = CONFIG_ETH_BASE" "eth_same w0 w2" "n_heap w2 = n_heap (net_of s)" "\<forall>x. vq_get x w2 = vq_get x w0"
    using eth_set_mac_same(1)[where w = w1 and hw = hw and fs = fs] w1(2-4) w0 by (auto simp: w2_def eth_same_def)
  obtain w3 where w3: "virtq_init hw RXQ VIRTQ_RX w2 = Some (STATUS_OK, w3)" "eth_same w2 w3" "n_heap w3 = h1"
    "vq_get RXQ w3 = virtq_fresh n a (vq_get RXQ w0)" "vq_get TXQ w3 = vq_get TXQ w0"
    using virtq_init_ok[OF hw w2(1) n', of a h1 RXQ VIRTQ_RX] m1 w2 by auto
  obtain w4 where w4: "virtq_init hw TXQ VIRTQ_TX w3 = Some (STATUS_OK, w4)" "eth_same w3 w4"
    "vq_get RXQ w4 = virtq_fresh n a (vq_get RXQ w0)" "vq_get TXQ w4 = virtq_fresh n b (vq_get TXQ w0)"
    using virtq_init_ok[OF hw _ n', of w3 b h2 TXQ VIRTQ_TX] m2 w2(1) w3 by (auto simp: eth_same_def)
  have "eth_same w0 w4" using w2(2) w3(2) w4(2) by (blast intro: eth_same_trans)
  then have irq: "unat (ed_irq (n_eth w4)) < MAX_IRQS" using w0(2) by (simp add: eth_same_def CONFIG_ETH_IRQ_def MAX_IRQS_def)
  obtain s' where s': "eth_start h w4 s = Some (STATUS_OK, s')" "eth_running h s'" "\<forall>x. vq_get x (net_of s') = vq_get x w4"
    using eth_start_ok[OF lock irq, of h] w4(3) by auto
  have "eth_init hw h s = Some (STATUS_OK, s')"
    using w1(1) w3(1) w4(1) s'(1) by (simp add: eth_init_def Let_def w0_def[symmetric] w2_def[symmetric])
  moreover have "eth_ready (net_of s')"
    unfolding eth_ready_def
  proof
    fix x
    show "\<exists>n mem q. queue_size n \<and> vq_get x (net_of s') = virtq_fresh n mem q \<and> (\<forall>h. vq_buffers q h = None)"
      using n w0(4) s'(3) w4(3,4)
      by (intro exI[of _ n] exI[of _ "case x of RXQ \<Rightarrow> a | TXQ \<Rightarrow> b"] exI[of _ "vq_get x w0"]) (cases x; simp)
  qed
  ultimately show ?thesis using s'(2) by blast
qed

lemma heap_two_pages:
  assumes "heap_inv s r" and "ff_alloc 16432 r = Some x"
  shows "\<exists>a s'. heap_alloc_aligned 12288 4096 s = Some (Some a, s') \<and> heap_inv s' (snd x)"
proof -
  have "uint (heap_request 16392) = 16432" by (simp add: uint_heap_request)
  then obtain s' where "heap_alloc 16392 s = Some (Some (fst x + sizeof_heap_block), s')" "heap_inv s' (snd x)"
    using heap_alloc_sim[OF assms(1), of 16392] assms(2) by auto
  then show ?thesis by (simp add: heap_alloc_aligned_def HEAP_BLOCK_ALIGN_def sizeof_voidp_def Let_def)
qed

lemma heap0_queues:
  "\<exists>a h1 b h2. heap_alloc_aligned 12288 4096 heap0 = Some (Some a, h1) \<and> heap_alloc_aligned 12288 4096 h1 = Some (Some b, h2)"
proof -
  obtain a h1 where 1: "heap_alloc_aligned 12288 4096 heap0 = Some (Some a, h1)"
    "heap_inv h1 [Seg 4096 16432 True, Seg 20528 16760784 False]"
    using heap_two_pages[OF heap0_inv] by (auto simp: heap_consts)
  then obtain b h2 where "heap_alloc_aligned 12288 4096 h1 = Some (Some b, h2)"
    using heap_two_pages[OF 1(2)] by (auto simp: heap_consts)
  then show ?thesis using 1 by blast
qed

text \<open>Initialisation. Given a network device that accepts the features and offers queues of a size that
  is a power of two up to 256, memory for the two queues, and the lock of the handler table free, \<open>eth_init\<close>
  succeeds: both queues are fresh, so that the runs of the driver start from this state; the interrupt
  has its handler; the interface is the head of the list, refers to the device, and is handed out.\<close>

theorem eth_init_ready:
  assumes "virtio_net hw n" and "queue_size n" and "\<forall>x h. vq_buffers (vq_get x (net_of s)) h = None"
    and "heap_alloc_aligned 12288 4096 (n_heap (net_of s)) = Some (Some a, h1)"
    and "heap_alloc_aligned 12288 4096 h1 = Some (Some b, h2)" and "sl_lock (in_lock s) = 0"
  shows "\<exists>s'. eth_init hw h s = Some (STATUS_OK, s') \<and> eth_running h s' \<and> eth_ready (net_of s')"
  by (rule eth_init_aux[OF assms])

definition hw_demo :: mmio_hw where
  "hw_demo log a = (if a = 0x0A000000 then 0x74726976 else if a = 0x0A000008 then 1 else if a = 0x0A000034 then 64
     else if a = 0x0A000070 then 11 else 0)"

theorem eth_init_ready_witness:
  "\<exists>s'. eth_init hw_demo 0x5000 (intr_at eth_world) = Some (STATUS_OK, s') \<and> eth_running 0x5000 s' \<and> eth_ready (net_of s')"
proof -
  have hw: "virtio_net hw_demo 64"
    by (simp add: virtio_net_def hw_demo_def CONFIG_ETH_BASE_def VIRTIO_MMIO_MAGIC_def VIRTIO_MMIO_DEVICE_ID_def
        VIRTIO_MMIO_STATUS_def VIRTIO_MMIO_QUEUE_NUM_MAX_def VIRTIO_DEV_NET_def VIRTIO_STATUS_FEATURES_OK_def)
  have n: "queue_size 64" by (simp add: queue_size_def VIRTQ_SIZE_def)
  have i1: "\<forall>x h. vq_buffers (vq_get x (net_of (intr_at eth_world))) h = None"
    by (simp add: intr_at_def virtq_demo_fresh(2))
  have i2: "n_heap (net_of (intr_at eth_world)) = heap0" by (simp add: intr_at_def eth_world_def net_demo_def)
  have i3: "sl_lock (in_lock (intr_at eth_world)) = 0" by (simp add: intr_at_def SPINLOCK_INIT_def)
  obtain a h1 b h2 where "heap_alloc_aligned 12288 4096 heap0 = Some (Some a, h1)"
    "heap_alloc_aligned 12288 4096 h1 = Some (Some b, h2)" using heap0_queues by blast
  then show ?thesis using eth_init_ready[OF hw n i1 _ _ i3] i2 by auto
qed

section \<open>A packet on its way out\<close>

text \<open>Preparing the buffer to be sent keeps the sending side as it is.\<close>

lemma tx_ready_only_buf:
  assumes inv: "tx_inv w fs" and b: "tx_buffer zb w" and ob: "only_buf zb w w'" and wf: "zb_wf (nb_get zb w')"
  shows "tx_inv w' fs \<and> tx_buffer zb w' \<and> tx_wire w' = tx_wire w"
proof -
  have q: "vq_get x w' = vq_get x w" for x using ob by (intro vq_get_cong) (simp add: only_buf_def)
  have lay: "zb_head (nb_get zb w) = zb + 104" "zb_end (nb_get zb w) = zb + 2152"
    using b by (auto simp: tx_buffer_def zb_layout_def sizeof_zbuf_def config_defs)
  have mem: "zp_mem (n_pool w') a = zp_mem (n_pool w) a"
    if "vq_buffers (vq_get TXQ w) h = Some c" "c + 104 \<le> a" "a < c + 2152" for h c a
  proof -
    have "c \<in> set (zbuf_slots (zp_memory (n_pool w)))" "c \<noteq> zb" "zb \<in> set (zbuf_slots (zp_memory (n_pool w)))"
      using that(1) inv b by (auto simp: tx_inv_def tx_chains_def tx_buffer_def)
    from zbuf_slots_apart[OF this(1,3,2)] that(2,3) have "a < zb + 104 \<or> zb + 2152 \<le> a"
      by (auto simp: zbuf_slot_value)
    then show ?thesis using ob lay by (auto simp: only_buf_def)
  qed
  have i: "vq_inv (vq_get TXQ w) fs" "tx_chains (n_pool w) (vq_get TXQ w)" using inv by (auto simp: tx_inv_def)
  have "tx_wire w' = tx_wire w"
    using tx_wire_mem[OF i, of "zp_mem (n_pool w')" "zp_mem (n_pool w)"] mem by (simp add: tx_wire_def q)
  moreover have "tx_buffer zb w'" using b ob wf by (auto simp: tx_buffer_def only_buf_def zb_layout_def q)
  ultimately show ?thesis using inv ob by (simp add: tx_inv_def q tx_chains_def only_buf_def)
qed

text \<open>C12: an IP packet reaches the wire. From any state of a run with two descriptors free, for a buffer of the
  pool with 46 bytes of headroom and a route (a broadcast, or the next hop in the ARP cache), \<open>ip_output\<close> over
  this driver succeeds, and the device finds behind the posted chains one more frame: twelve zero bytes, the
  Ethernet header, an IP header that verifies, and the caller's payload.\<close>

theorem ip_packet_on_wire:
  assumes "in_order dv" and "eth_ready w0" and "eth_run hw dv ss w0 w" and "2 \<le> unat (vq_num_free (vq_get TXQ w))"
    and "tx_buffer zb w" and "46 \<le> zb_data (nb_get zb w) - zb_head (nb_get zb w)"
    and "n_netif_default w = Some nif" and "nif_priv (n_nif w nif) = Some (ed_self (n_eth w))"
    and "length mac = 6" and "length (nif_mac (n_nif w nif)) = 6"
    and "if ip_broadcast (n_nif w nif) dst then mac = replicate 6 0xFF
      else arp_lookup (n_arp w) (ip_next_hop (n_nif w nif) dst) 0 ARP_CACHE_SIZE = Some mac"
  shows "\<exists>w' hdr. ip_output eth_driver zb src dst proto w = Some (STATUS_OK, w') \<and>
    length hdr = 20 \<and> inet_checksum hdr = 0 \<and>
    tx_wire w' = tx_wire w @ [tx_frame (mac @ nif_mac (n_nif w nif) @ [8, 0] @ hdr @ zb_payload zb (n_pool w))]"
proof -
  have s: "tx_sent w0 ss w" "vq_unlocked w" using eth_run_sent[OF assms(3,1,2)] by auto
  then obtain fs where inv: "tx_inv w fs" by (auto simp: tx_sent_def tx_inv_def vq_unlocked_def)
  then have "2 \<le> length fs" using assms(4) by (simp add: tx_inv_def vq_inv_def vq_free_def)
  then obtain i j gs where fs: "fs = i # j # gs" by (cases fs; cases "tl fs") auto
  have wf: "zb_wf (nb_get zb w)" using assms(5) by (simp add: tx_buffer_def)
  define h where "h = (\<lambda>c. ip_hdr_bytes (zb_len (nb_get zb w) + 20) (n_ip_id w) proto c
      (if src = 0 then nif_ip (n_nif w nif) else src) dst)"
  have room: "34 \<le> zb_data (nb_get zb w) - zb_head (nb_get zb w)" using assms(6) by simp
  obtain w1 c where w1: "ip_output eth_driver zb src dst proto w = eth_driver nif zb w1" "zb_wf (nb_get zb w1)"
    "only_buf zb w w1" "zb_data (nb_get zb w1) = zb_data (nb_get zb w) - 34"
    "zb_payload zb (n_pool w1) = mac @ nif_mac (n_nif w nif) @ [8, 0] @ h c @ zb_payload zb (n_pool w)" "inet_checksum (h c) = 0"
    using ip_output_ok[OF assms(7) wf room assms(9-11) h_def, of eth_driver] by blast
  note r = tx_ready_only_buf[OF inv assms(5) w1(3,2)]
  have "length (zb_payload zb (n_pool w1)) \<noteq> 0" unfolding w1(5) using assms(9) by simp
  then have len: "zb_len (nb_get zb w1) \<noteq> 0" by (auto simp: zb_payload_def)
  have "12 \<le> zb_data (nb_get zb w1) - zb_head (nb_get zb w1)" using assms(6) w1(3,4) by (simp add: only_buf_def)
  moreover have "nif_priv (n_nif w1 nif) = Some (ed_self (n_eth w1))" using w1(3) assms(8) by (simp add: only_buf_def)
  ultimately obtain w' where "eth_driver nif zb w1 = Some (STATUS_OK, w')"
    "tx_wire w' = tx_wire w1 @ [replicate 12 0 @ zb_payload zb (n_pool w1)]"
    using eth_send_ok[of w1 i j gs zb nif] r len fs by blast
  then show ?thesis using w1 r
    by (intro exI[of _ w'] exI[of _ "h c"])
      (simp add: tx_frame_def VIRTIO_NET_HDR_SIZE_def h_def length_ip_hdr)
qed

theorem ip_packet_on_wire_witness:
  "\<exists>w' hdr. ip_output eth_driver 0 0 0xFFFFFFFF IP_PROTO_UDP eth_world = Some (STATUS_OK, w') \<and>
     length hdr = 20 \<and> inet_checksum hdr = 0 \<and>
     tx_wire w' = tx_wire eth_world @ [tx_frame (replicate 6 0xFF @ [2, 0, 0, 0, 0, 1] @ [8, 0] @ hdr @ zb_payload 0 (n_pool eth_world))]"
proof -
  have n: "n_netif_default eth_world = Some 8" "46 \<le> zb_data (nb_get 0 eth_world) - zb_head (nb_get 0 eth_world)"
    by (simp_all add: eth_world_def net_demo_def)
  have f: "2 \<le> unat (vq_num_free (vq_get TXQ eth_world))"
    using eth_world_inv by (simp add: tx_inv_def vq_inv_def vq_free_def)
  have r: "if ip_broadcast (n_nif eth_world 8) 0xFFFFFFFF then replicate 6 0xFF = replicate 6 (0xFF :: u8)
      else arp_lookup (n_arp eth_world) (ip_next_hop (n_nif eth_world 8) 0xFFFFFFFF) 0 ARP_CACHE_SIZE = Some (replicate 6 0xFF)"
    by (simp add: ip_broadcast_def IP4_ADDR_BROADCAST_def)
  have m: "nif_priv (n_nif eth_world 8) = Some (ed_self (n_eth eth_world))" "nif_mac (n_nif eth_world 8) = [2, 0, 0, 0, 0, 1]"
    by (simp_all add: nif_demo_def)
  show ?thesis
    using ip_packet_on_wire[OF id_in_order eth_world_ready eth_run.start f eth_world_buffer n(2,1) m(1) _ _ r] m(2) by simp
qed

end
