(* ===== verification/Uart.thy ===== *)
theory Uart
  imports Irq Sync
begin

text \<open>
  The serial port driver \<open>drivers/uart/uart.c\<close>: the two ring buffers, the interrupt handler that fills one
  and empties the other, blocking reads and writes, the polled ones, and setting the port up.

  The port's registers are not part of the program: the state keeps the accesses made to them, the latest
  first, and \<open>hw\<close> answers a read from what was accessed before. A receive callback runs inside the handler;
  \<open>cb\<close> says what the function at an address does there, \<open>None\<close> when it does not return. A head or a tail
  is a remainder by the size of its buffer whenever it is written, so that no index is checked.

  A loop that polls a register is a \<open>partial_function\<close>: it does not end when the register never changes. A call
  that waits on a semaphore is cut there; \<open>UWait\<close> carries its progress and what the yield did.
\<close>

section \<open>Registers\<close>

definition UART_DR :: addr where "UART_DR = 0x00"
definition UART_RSR :: addr where "UART_RSR = 0x04"
definition UART_FR :: addr where "UART_FR = 0x18"
definition UART_IBRD :: addr where "UART_IBRD = 0x24"
definition UART_FBRD :: addr where "UART_FBRD = 0x28"
definition UART_LCR_H :: addr where "UART_LCR_H = 0x2C"
definition UART_CR :: addr where "UART_CR = 0x30"
definition UART_IFLS :: addr where "UART_IFLS = 0x34"
definition UART_IMSC :: addr where "UART_IMSC = 0x38"
definition UART_MIS :: addr where "UART_MIS = 0x40"
definition UART_ICR :: addr where "UART_ICR = 0x44"

definition FR_TXFE :: u32 where "FR_TXFE = 0x80"
definition FR_TXFF :: u32 where "FR_TXFF = 0x20"
definition FR_RXFE :: u32 where "FR_RXFE = 0x10"
definition FR_BUSY :: u32 where "FR_BUSY = 0x08"

definition CR_RXE :: u32 where "CR_RXE = 0x200"
definition CR_TXE :: u32 where "CR_TXE = 0x100"
definition CR_UARTEN :: u32 where "CR_UARTEN = 1"

definition LCR_H_WLEN_8 :: u32 where "LCR_H_WLEN_8 = 0x60"
definition LCR_H_WLEN_7 :: u32 where "LCR_H_WLEN_7 = 0x40"
definition LCR_H_WLEN_6 :: u32 where "LCR_H_WLEN_6 = 0x20"
definition LCR_H_WLEN_5 :: u32 where "LCR_H_WLEN_5 = 0"
definition LCR_H_FEN :: u32 where "LCR_H_FEN = 0x10"
definition LCR_H_STP2 :: u32 where "LCR_H_STP2 = 0x08"
definition LCR_H_EPS :: u32 where "LCR_H_EPS = 0x04"
definition LCR_H_PEN :: u32 where "LCR_H_PEN = 0x02"

definition INT_OE :: u32 where "INT_OE = 0x400"
definition INT_BE :: u32 where "INT_BE = 0x200"
definition INT_PE :: u32 where "INT_PE = 0x100"
definition INT_FE :: u32 where "INT_FE = 0x80"
definition INT_RT :: u32 where "INT_RT = 0x40"
definition INT_TX :: u32 where "INT_TX = 0x20"
definition INT_RX :: u32 where "INT_RX = 0x10"

definition UART_BUFFER_SIZE :: nat where "UART_BUFFER_SIZE = 256"
definition CONFIG_UART_COUNT :: nat where "CONFIG_UART_COUNT = 1"
definition CONFIG_UART_BASE :: addr where "CONFIG_UART_BASE = 0x09000000"
definition CONFIG_UART_IRQ :: u32 where "CONFIG_UART_IRQ = 33"
definition CONFIG_UART_CLOCK :: u32 where "CONFIG_UART_CLOCK = 24000000"

section \<open>State\<close>

record uart_dev =
  ud_base :: addr
  ud_irq :: u32
  ud_clock :: u32
  ud_baud :: u32
  ud_rx_buffer :: "nat \<Rightarrow> u8"
  ud_rx_head :: u16
  ud_rx_tail :: u16
  ud_tx_buffer :: "nat \<Rightarrow> u8"
  ud_tx_head :: u16
  ud_tx_tail :: u16
  ud_tx_active :: bool
  ud_rx_sem :: semaphore
  ud_tx_sem :: semaphore
  ud_lock :: spinlock
  ud_rx_callback :: ptr
  ud_rx_callback_arg :: ptr
  ud_rx_count :: u32
  ud_tx_count :: u32
  ud_rx_errors :: u32
  ud_tx_errors :: u32
  ud_initialized :: bool

text \<open>
  The only port, \<open>uart_devices[0]\<close>, its address and those of its semaphores, and the accesses to its
  registers; the rest of the system around it is that of the interrupts.
\<close>

record 'w uart_env =
  ue_dev :: uart_dev
  ue_addr :: addr
  ue_rx_sem :: addr
  ue_tx_sem :: addr
  ue_regs :: "mmio list"
  ue_app :: 'w

type_synonym 'w usys = "'w uart_env intr"
type_synonym 'w rx_callback = "addr \<Rightarrow> ptr \<Rightarrow> u8 \<Rightarrow> 'w usys \<Rightarrow> 'w usys option"

datatype uart_parity = UART_PARITY_NONE | UART_PARITY_ODD | UART_PARITY_EVEN

record uart_config =
  uc_data_bits :: u8
  uc_stop_bits :: u8
  uc_parity :: uart_parity
  uc_hw_flow_ctrl :: bool

abbreviation udev :: "'w usys \<Rightarrow> uart_dev" where "udev s \<equiv> ue_dev (in_app s)"
abbreviation uregs :: "'w usys \<Rightarrow> mmio list" where "uregs s \<equiv> ue_regs (in_app s)"

definition ud_upd :: "(uart_dev \<Rightarrow> uart_dev) \<Rightarrow> 'w usys \<Rightarrow> 'w usys" where
  "ud_upd f s = s\<lparr>in_app := (in_app s)\<lparr>ue_dev := f (ue_dev (in_app s))\<rparr>\<rparr>"

definition uart_rd :: "mmio_hw \<Rightarrow> addr \<Rightarrow> 'w usys \<Rightarrow> u32 \<times> 'w usys" where
  "uart_rd hw off s =
     (let a = ud_base (udev s) + off
      in (hw (uregs s) a, s\<lparr>in_app := (in_app s)\<lparr>ue_regs := Rd a # uregs s\<rparr>\<rparr>))"

definition uart_wr :: "addr \<Rightarrow> u32 \<Rightarrow> 'w usys \<Rightarrow> 'w usys" where
  "uart_wr off v s = s\<lparr>in_app := (in_app s)\<lparr>ue_regs := Wr (ud_base (udev s) + off) v # uregs s\<rparr>\<rparr>"

definition uart_next :: "u16 \<Rightarrow> u16" where
  "uart_next i = (i + 1) mod of_nat UART_BUFFER_SIZE"

definition uart_post_rx :: "'w usys \<Rightarrow> 'w usys option" where
  "uart_post_rx s = do {
     (sem, sc) \<leftarrow> sem_post (ud_rx_sem (udev s)) (in_sched s);
     Some (ud_upd (ud_rx_sem_update (\<lambda>_. sem)) (s\<lparr>in_sched := sc\<rparr>))
   }"

definition uart_post_tx :: "'w usys \<Rightarrow> 'w usys option" where
  "uart_post_tx s = do {
     (sem, sc) \<leftarrow> sem_post (ud_tx_sem (udev s)) (in_sched s);
     Some (ud_upd (ud_tx_sem_update (\<lambda>_. sem)) (s\<lparr>in_sched := sc\<rparr>))
   }"

definition uart_lock :: "'w usys \<Rightarrow> 'w usys option" where
  "uart_lock s = do { l \<leftarrow> spin_lock (ud_lock (udev s)); Some (ud_upd (ud_lock_update (\<lambda>_. l)) s) }"

definition uart_unlock :: "'w usys \<Rightarrow> 'w usys" where
  "uart_unlock s = ud_upd (ud_lock_update spin_unlock) s"

definition uart_lock_irq :: "'w usys \<Rightarrow> 'w usys option" where
  "uart_lock_irq s = do {
     (l, daif) \<leftarrow> spin_lock_irq (ud_lock (udev s)) (cpu_daif (sc_cpu (in_sched s)));
     Some (ud_upd (ud_lock_update (\<lambda>_. l))
            (s\<lparr>in_sched := (in_sched s)\<lparr>sc_cpu := (sc_cpu (in_sched s))\<lparr>cpu_daif := daif\<rparr>\<rparr>\<rparr>))
   }"

definition uart_unlock_irq :: "'w usys \<Rightarrow> 'w usys" where
  "uart_unlock_irq s =
     (let (l, daif) = spin_unlock_irq (ud_lock (udev s)) (cpu_daif (sc_cpu (in_sched s)))
      in ud_upd (ud_lock_update (\<lambda>_. l))
           (s\<lparr>in_sched := (in_sched s)\<lparr>sc_cpu := (sc_cpu (in_sched s))\<lparr>cpu_daif := daif\<rparr>\<rparr>\<rparr>))"

section \<open>The interrupt\<close>

text \<open>One word read from the data register.\<close>

definition uart_rx_word :: "'w rx_callback \<Rightarrow> u32 \<Rightarrow> 'w usys \<Rightarrow> 'w usys option" where
  "uart_rx_word cb data s =
     (if data AND 0xF00 \<noteq> 0
      then Some (uart_wr UART_RSR 0 (ud_upd (ud_rx_errors_update (\<lambda>n. n + 1)) s))
      else
        let next_head = uart_next (ud_rx_head (udev s)) in
        if next_head \<noteq> ud_rx_tail (udev s) then do {
          let s = ud_upd (\<lambda>d. d\<lparr>ud_rx_buffer := (ud_rx_buffer d)(unat (ud_rx_head d) := ucast data)\<rparr>) s;
          let s = ud_upd (\<lambda>d. d\<lparr>ud_rx_head := next_head, ud_rx_count := ud_rx_count d + 1\<rparr>) s;
          s \<leftarrow> uart_post_rx s;
          case ud_rx_callback (udev s) of
            None \<Rightarrow> Some s
          | Some f \<Rightarrow> cb f (ud_rx_callback_arg (udev s)) (ucast data) s
        } else Some s)"

partial_function (option) uart_rx_loop :: "mmio_hw \<Rightarrow> 'w rx_callback \<Rightarrow> 'w usys \<Rightarrow> 'w usys option" where
  "uart_rx_loop hw cb s =
     (let (fr, s) = uart_rd hw UART_FR s
      in if fr AND FR_RXFE \<noteq> 0 then Some s
         else do {
           let (data, s) = uart_rd hw UART_DR s;
           s \<leftarrow> uart_rx_word cb data s;
           uart_rx_loop hw cb s
         })"

text \<open>The loop that moves bytes from the ring to the transmit register, in the handler and in \<open>uart_write\<close>.\<close>

partial_function (option) uart_tx_fill :: "mmio_hw \<Rightarrow> 'w usys \<Rightarrow> 'w usys option" where
  "uart_tx_fill hw s =
     (let (fr, s) = uart_rd hw UART_FR s
      in if fr AND FR_TXFF = 0 \<and> ud_tx_tail (udev s) \<noteq> ud_tx_head (udev s) then do {
           let s = uart_wr UART_DR (ucast (ud_tx_buffer (udev s) (unat (ud_tx_tail (udev s))))) s;
           let s = ud_upd (\<lambda>d. d\<lparr>ud_tx_tail := uart_next (ud_tx_tail d), ud_tx_count := ud_tx_count d + 1\<rparr>) s;
           s \<leftarrow> uart_post_tx s;
           uart_tx_fill hw s
         } else Some s)"

definition uart_irq_rx :: "mmio_hw \<Rightarrow> 'w rx_callback \<Rightarrow> 'w usys \<Rightarrow> 'w usys option" where
  "uart_irq_rx hw cb s = do {
     s \<leftarrow> uart_rx_loop hw cb s;
     Some (uart_wr UART_ICR (INT_RX OR INT_RT) s)
   }"

definition uart_irq_tx :: "mmio_hw \<Rightarrow> 'w usys \<Rightarrow> 'w usys option" where
  "uart_irq_tx hw s = do {
     s \<leftarrow> uart_lock s;
     s \<leftarrow> uart_tx_fill hw s;
     let s = (if ud_tx_tail (udev s) = ud_tx_head (udev s) then
                let (imsc, s) = uart_rd hw UART_IMSC s;
                    s = uart_wr UART_IMSC (imsc AND NOT INT_TX) s
                in ud_upd (ud_tx_active_update (\<lambda>_. False)) s
              else s);
     Some (uart_wr UART_ICR INT_TX (uart_unlock s))
   }"

definition uart_irq_handler :: "mmio_hw \<Rightarrow> 'w rx_callback \<Rightarrow> 'w usys \<Rightarrow> 'w usys option" where
  "uart_irq_handler hw cb s = do {
     let (mis, s) = uart_rd hw UART_MIS s;
     s \<leftarrow> (if mis AND (INT_RX OR INT_RT) \<noteq> 0 then uart_irq_rx hw cb s else Some s);
     s \<leftarrow> (if mis AND INT_TX \<noteq> 0 then uart_irq_tx hw s else Some s);
     Some (if mis AND (INT_OE OR INT_BE OR INT_PE OR INT_FE) \<noteq> 0
           then uart_wr UART_ICR (INT_OE OR INT_BE OR INT_PE OR INT_FE)
                  (ud_upd (ud_rx_errors_update (\<lambda>n. n + 1)) s)
           else s)
   }"

section \<open>Setting the port up\<close>

text \<open>\<open>16 * baud\<close> is a 32-bit product; a division by zero has no result.\<close>

definition uart_set_baudrate :: "u32 \<Rightarrow> 'w usys \<Rightarrow> 'w usys option" where
  "uart_set_baudrate baud s =
     (if 16 * baud = 0 then None
      else
        let clock = ud_clock (udev s);
            divider = clock div (16 * baud);
            remainder = clock mod (16 * baud);
            fraction = ((8 * remainder) div baud + 1) div 2
        in Some (uart_wr UART_FBRD fraction (uart_wr UART_IBRD divider s)))"

text \<open>\<open>while (REG & mask);\<close> and \<open>while (!(REG & mask));\<close> on the flag register.\<close>

partial_function (option) uart_while_set :: "mmio_hw \<Rightarrow> u32 \<Rightarrow> 'w usys \<Rightarrow> 'w usys option" where
  "uart_while_set hw bits s =
     (let (fr, s) = uart_rd hw UART_FR s
      in if fr AND bits \<noteq> 0 then uart_while_set hw bits s else Some s)"

partial_function (option) uart_while_clear :: "mmio_hw \<Rightarrow> u32 \<Rightarrow> 'w usys \<Rightarrow> 'w usys option" where
  "uart_while_clear hw bits s =
     (let (fr, s) = uart_rd hw UART_FR s
      in if fr AND bits = 0 then uart_while_clear hw bits s else Some s)"

definition uart_line_control :: "uart_config option \<Rightarrow> u32" where
  "uart_line_control config =
     (case config of
        None \<Rightarrow> LCR_H_FEN OR LCR_H_WLEN_8
      | Some c \<Rightarrow>
          let wlen = (if uc_data_bits c = 5 then LCR_H_WLEN_5 else if uc_data_bits c = 6 then LCR_H_WLEN_6
                      else if uc_data_bits c = 7 then LCR_H_WLEN_7 else LCR_H_WLEN_8);
              parity = (if uc_parity c = UART_PARITY_NONE then 0
                        else LCR_H_PEN OR (if uc_parity c = UART_PARITY_EVEN then LCR_H_EPS else 0));
              stop = (if uc_stop_bits c = 2 then LCR_H_STP2 else 0)
          in LCR_H_FEN OR wlen OR parity OR stop)"

definition uart_fresh :: "u32 \<Rightarrow> uart_dev \<Rightarrow> uart_dev" where
  "uart_fresh baud d =
     d\<lparr>ud_base := CONFIG_UART_BASE, ud_irq := CONFIG_UART_IRQ, ud_clock := CONFIG_UART_CLOCK, ud_baud := baud,
       ud_rx_head := 0, ud_rx_tail := 0, ud_tx_head := 0, ud_tx_tail := 0, ud_tx_active := False,
       ud_rx_sem := sem_init 0, ud_tx_sem := sem_init (of_nat UART_BUFFER_SIZE), ud_lock := SPINLOCK_INIT,
       ud_rx_count := 0, ud_tx_count := 0, ud_rx_errors := 0, ud_tx_errors := 0, ud_rx_callback := None\<rparr>"

text \<open>\<open>h\<close> is the address of \<open>uart_irq_handler\<close>.\<close>

definition uart_init ::
  "addr \<Rightarrow> nat \<Rightarrow> u32 \<Rightarrow> uart_config option \<Rightarrow> mmio_hw \<Rightarrow> 'w usys \<Rightarrow> (status \<times> 'w usys) option" where
  "uart_init h port baud config hw s =
     (if CONFIG_UART_COUNT \<le> port then Some (STATUS_INVALID, s)
      else do {
        let s = ud_upd (uart_fresh baud) s;
        let s = uart_wr UART_CR 0 s;
        s \<leftarrow> uart_while_set hw FR_BUSY s;
        let s = uart_wr UART_ICR 0x7FF (uart_wr UART_IMSC 0 s);
        s \<leftarrow> uart_set_baudrate baud s;
        let s = uart_wr UART_LCR_H (uart_line_control config) s;
        let s = uart_wr UART_IFLS 0 s;
        let s = uart_wr UART_IMSC (INT_RX OR INT_RT OR INT_OE OR INT_BE OR INT_PE OR INT_FE) s;
        (st, s) \<leftarrow> irq_register (ud_irq (udev s)) (Some h) (Some (ue_addr (in_app s))) s;
        let s = irq_enable (ud_irq (udev s)) s;
        let s = uart_wr UART_CR (CR_UARTEN OR CR_TXE OR CR_RXE) s;
        Some (STATUS_OK, ud_upd (ud_initialized_update (\<lambda>_. True)) s)
      })"

definition uart_deinit :: "nat \<Rightarrow> 'w usys \<Rightarrow> 'w usys" where
  "uart_deinit port s =
     (if CONFIG_UART_COUNT \<le> port \<or> \<not> ud_initialized (udev s) then s
      else
        let s = uart_wr UART_CR 0 s;
            s = uart_wr UART_IMSC 0 s;
            s = irq_disable (ud_irq (udev s)) s
        in ud_upd (ud_initialized_update (\<lambda>_. False)) s)"

section \<open>Blocking reads and writes\<close>

datatype ('r, 'w) uart_out = UDone 'r "'w usys" | UWait 'r "'w usys ctl"

text \<open>\<open>sem_wait\<close> on one of the two semaphores; \<open>Inl\<close> when it returned, \<open>Inr\<close> what its yield did.\<close>

definition uart_waited :: "((semaphore \<Rightarrow> semaphore) \<Rightarrow> uart_dev \<Rightarrow> uart_dev) \<Rightarrow> 'w usys \<Rightarrow> semaphore wait_out \<Rightarrow>
    'w usys + 'w usys ctl" where
  "uart_waited sem_upd s r =
     (case r of
        WDone st sem sc \<Rightarrow> Inl (ud_upd (sem_upd (\<lambda>_. sem)) (s\<lparr>in_sched := sc\<rparr>))
      | WBlock sem c \<Rightarrow>
          let s = ud_upd (sem_upd (\<lambda>_. sem)) s
          in Inr (case c of Ret sc \<Rightarrow> Ret (s\<lparr>in_sched := sc\<rparr>) | Sw sc \<Rightarrow> Sw (s\<lparr>in_sched := sc\<rparr>)))"

definition uart_wait_tx :: "'w usys \<Rightarrow> ('w usys + 'w usys ctl) option" where
  "uart_wait_tx s = do {
     r \<leftarrow> sem_wait (ue_tx_sem (in_app s)) (ud_tx_sem (udev s)) (in_sched s);
     Some (uart_waited ud_tx_sem_update s r)
   }"

definition uart_wait_tx_resume :: "addr \<Rightarrow> 'w usys \<Rightarrow> ('w usys + 'w usys ctl) option" where
  "uart_wait_tx_resume task s = do {
     r \<leftarrow> sem_wait_resume (ue_tx_sem (in_app s)) task (ud_tx_sem (udev s)) (in_sched s);
     Some (uart_waited ud_tx_sem_update s r)
   }"

definition uart_wait_rx :: "'w usys \<Rightarrow> ('w usys + 'w usys ctl) option" where
  "uart_wait_rx s = do {
     r \<leftarrow> sem_wait (ue_rx_sem (in_app s)) (ud_rx_sem (udev s)) (in_sched s);
     Some (uart_waited ud_rx_sem_update s r)
   }"

definition uart_wait_rx_resume :: "addr \<Rightarrow> 'w usys \<Rightarrow> ('w usys + 'w usys ctl) option" where
  "uart_wait_rx_resume task s = do {
     r \<leftarrow> sem_wait_resume (ue_rx_sem (in_app s)) task (ud_rx_sem (udev s)) (in_sched s);
     Some (uart_waited ud_rx_sem_update s r)
   }"

text \<open>The part of a round of \<open>uart_write\<close> under the lock; the flag says whether the byte was taken.\<close>

definition uart_put :: "mmio_hw \<Rightarrow> u8 \<Rightarrow> 'w usys \<Rightarrow> (bool \<times> 'w usys) option" where
  "uart_put hw b s = do {
     s \<leftarrow> uart_lock_irq s;
     let next_head = uart_next (ud_tx_head (udev s));
     let stored = (next_head \<noteq> ud_tx_tail (udev s));
     let s = (if stored
              then ud_upd (\<lambda>d. d\<lparr>ud_tx_buffer := (ud_tx_buffer d)(unat (ud_tx_head d) := b), ud_tx_head := next_head\<rparr>) s
              else s);
     s \<leftarrow> (if \<not> ud_tx_active (udev s) then do {
             let s = ud_upd (ud_tx_active_update (\<lambda>_. True)) s;
             s \<leftarrow> uart_tx_fill hw s;
             let (imsc, s) = uart_rd hw UART_IMSC s;
             Some (uart_wr UART_IMSC (imsc OR INT_TX) s)
           } else Some s);
     Some (stored, uart_unlock_irq s)
   }"

text \<open>The loop of \<open>uart_write\<close>, with \<open>sent\<close> bytes of the data taken so far.\<close>

partial_function (option) uart_write_loop ::
  "mmio_hw \<Rightarrow> u8 list \<Rightarrow> nat \<Rightarrow> 'w usys \<Rightarrow> (nat, 'w) uart_out option" where
  "uart_write_loop hw data sent s =
     (if length data \<le> sent then Some (UDone sent s)
      else do {
        r \<leftarrow> uart_wait_tx s;
        case r of
          Inr c \<Rightarrow> Some (UWait sent c)
        | Inl s \<Rightarrow> do {
            (stored, s) \<leftarrow> uart_put hw (data ! sent) s;
            uart_write_loop hw data (if stored then sent + 1 else sent) s
          }
      })"

definition uart_write_resume ::
  "mmio_hw \<Rightarrow> addr \<Rightarrow> u8 list \<Rightarrow> nat \<Rightarrow> 'w usys \<Rightarrow> (nat, 'w) uart_out option" where
  "uart_write_resume hw task data sent s = do {
     r \<leftarrow> uart_wait_tx_resume task s;
     case r of
       Inr c \<Rightarrow> Some (UWait sent c)
     | Inl s \<Rightarrow> do {
         (stored, s) \<leftarrow> uart_put hw (data ! sent) s;
         uart_write_loop hw data (if stored then sent + 1 else sent) s
       }
   }"

text \<open>\<open>None\<close> for the data is the null pointer; the value -1 of the call is \<open>UDone\<close> of \<open>None\<close>.\<close>

definition uart_done :: "('r, 'w) uart_out \<Rightarrow> ('r option, 'w) uart_out" where
  "uart_done r = (case r of UDone x s \<Rightarrow> UDone (Some x) s | UWait x c \<Rightarrow> UWait (Some x) c)"

definition uart_write ::
  "mmio_hw \<Rightarrow> nat \<Rightarrow> u8 list option \<Rightarrow> 'w usys \<Rightarrow> (nat option, 'w) uart_out option" where
  "uart_write hw port data s =
     (case data of
        None \<Rightarrow> Some (UDone None s)
      | Some d \<Rightarrow>
          if CONFIG_UART_COUNT \<le> port \<or> \<not> ud_initialized (udev s) then Some (UDone None s)
          else map_option uart_done (uart_write_loop hw d 0 s))"

definition uart_take :: "'w usys \<Rightarrow> (u8 list \<times> 'w usys) option" where
  "uart_take s = do {
     s \<leftarrow> uart_lock_irq s;
     let d = udev s;
     let (bs, s) = (if ud_rx_tail d \<noteq> ud_rx_head d
       then ([ud_rx_buffer d (unat (ud_rx_tail d))], ud_upd (ud_rx_tail_update uart_next) s)
       else ([], s));
     Some (bs, uart_unlock_irq s)
   }"

text \<open>The loop of \<open>uart_read\<close>, with the bytes \<open>got\<close> so far, for \<open>len\<close> bytes in all.\<close>

partial_function (option) uart_read_loop :: "nat \<Rightarrow> u8 list \<Rightarrow> 'w usys \<Rightarrow> (u8 list, 'w) uart_out option" where
  "uart_read_loop len got s =
     (if len \<le> length got then Some (UDone got s)
      else do {
        r \<leftarrow> uart_wait_rx s;
        case r of
          Inr c \<Rightarrow> Some (UWait got c)
        | Inl s \<Rightarrow> do {
            (bs, s) \<leftarrow> uart_take s;
            uart_read_loop len (got @ bs) s
          }
      })"

definition uart_read_resume :: "addr \<Rightarrow> nat \<Rightarrow> u8 list \<Rightarrow> 'w usys \<Rightarrow> (u8 list, 'w) uart_out option" where
  "uart_read_resume task len got s = do {
     r \<leftarrow> uart_wait_rx_resume task s;
     case r of
       Inr c \<Rightarrow> Some (UWait got c)
     | Inl s \<Rightarrow> do {
         (bs, s) \<leftarrow> uart_take s;
         uart_read_loop len (got @ bs) s
       }
   }"

text \<open>The caller's array is the list of the bytes stored; \<open>null\<close> says that there is none.\<close>

definition uart_read :: "nat \<Rightarrow> bool \<Rightarrow> nat \<Rightarrow> 'w usys \<Rightarrow> (u8 list option, 'w) uart_out option" where
  "uart_read port null len s =
     (if CONFIG_UART_COUNT \<le> port \<or> null \<or> \<not> ud_initialized (udev s) then Some (UDone None s)
      else map_option uart_done (uart_read_loop len [] s))"

section \<open>Polling, and the rest\<close>

definition uart_putc :: "mmio_hw \<Rightarrow> nat \<Rightarrow> u8 \<Rightarrow> 'w usys \<Rightarrow> 'w usys option" where
  "uart_putc hw port c s =
     (if CONFIG_UART_COUNT \<le> port then Some s
      else do {
        s \<leftarrow> uart_while_set hw FR_TXFF s;
        Some (uart_wr UART_DR (ucast c) s)
      })"

definition uart_getc :: "mmio_hw \<Rightarrow> nat \<Rightarrow> 'w usys \<Rightarrow> u32 option \<times> 'w usys" where
  "uart_getc hw port s =
     (if CONFIG_UART_COUNT \<le> port then (None, s)
      else
        let (fr, s) = uart_rd hw UART_FR s
        in if fr AND FR_RXFE \<noteq> 0 then (None, s)
           else let (data, s) = uart_rd hw UART_DR s in (Some (data AND 0xFF), s))"

text \<open>The bytes of the string up to the zero; line feed is 10 and carriage return 13.\<close>

fun uart_puts_loop :: "mmio_hw \<Rightarrow> nat \<Rightarrow> u8 list \<Rightarrow> 'w usys \<Rightarrow> 'w usys option" where
  "uart_puts_loop hw port [] s = Some s"
| "uart_puts_loop hw port (c # cs) s = do {
     s \<leftarrow> (if c = 10 then uart_putc hw port 13 s else Some s);
     s \<leftarrow> uart_putc hw port c s;
     uart_puts_loop hw port cs s
   }"

definition uart_puts :: "mmio_hw \<Rightarrow> nat \<Rightarrow> u8 list option \<Rightarrow> 'w usys \<Rightarrow> 'w usys option" where
  "uart_puts hw port str s =
     (case str of
        None \<Rightarrow> Some s
      | Some cs \<Rightarrow> if CONFIG_UART_COUNT \<le> port then Some s else uart_puts_loop hw port cs s)"

definition uart_readable :: "nat \<Rightarrow> 'w usys \<Rightarrow> bool" where
  "uart_readable port s \<longleftrightarrow> port < CONFIG_UART_COUNT \<and> ud_rx_head (udev s) \<noteq> ud_rx_tail (udev s)"

definition uart_writable :: "nat \<Rightarrow> 'w usys \<Rightarrow> bool" where
  "uart_writable port s \<longleftrightarrow> port < CONFIG_UART_COUNT \<and> uart_next (ud_tx_head (udev s)) \<noteq> ud_tx_tail (udev s)"

text \<open>
  \<open>uart_flush\<close> up to its next yield: the loop goes on with the same call when the task runs again, and
  interrupts may come in between.
\<close>

definition uart_flush_end :: "mmio_hw \<Rightarrow> 'w usys \<Rightarrow> 'w usys option" where
  "uart_flush_end hw s = do {
     s \<leftarrow> uart_while_clear hw FR_TXFE s;
     uart_while_set hw FR_BUSY s
   }"

definition uart_flush :: "mmio_hw \<Rightarrow> nat \<Rightarrow> 'w usys \<Rightarrow> (unit, 'w) uart_out option" where
  "uart_flush hw port s =
     (if CONFIG_UART_COUNT \<le> port then Some (UDone () s)
      else if ud_tx_tail (udev s) \<noteq> ud_tx_head (udev s) then do {
        r \<leftarrow> task_yield (in_sched s);
        Some (UWait () (case r of Ret sc \<Rightarrow> Ret (s\<lparr>in_sched := sc\<rparr>) | Sw sc \<Rightarrow> Sw (s\<lparr>in_sched := sc\<rparr>)))
      } else map_option (UDone ()) (uart_flush_end hw s))"

definition uart_set_rx_callback :: "nat \<Rightarrow> ptr \<Rightarrow> ptr \<Rightarrow> 'w usys \<Rightarrow> 'w usys" where
  "uart_set_rx_callback port callback arg s =
     (if CONFIG_UART_COUNT \<le> port then s
      else ud_upd (\<lambda>d. d\<lparr>ud_rx_callback := callback, ud_rx_callback_arg := arg\<rparr>) s)"

record uart_stats =
  us_rx_count :: u32
  us_tx_count :: u32
  us_rx_errors :: u32
  us_tx_errors :: u32

definition uart_get_stats :: "nat \<Rightarrow> 'w usys \<Rightarrow> uart_stats option" where
  "uart_get_stats port s =
     (if CONFIG_UART_COUNT \<le> port then None
      else Some \<lparr>us_rx_count = ud_rx_count (udev s), us_tx_count = ud_tx_count (udev s),
                 us_rx_errors = ud_rx_errors (udev s), us_tx_errors = ud_tx_errors (udev s)\<rparr>)"

end
