(* ===== verification/Uart_Props.thy ===== *)
theory Uart_Props
  imports Uart Ring Sync_Props "HOL-Library.Sublist"
begin

text \<open>
  Properties of the serial port driver of \<open>drivers/uart/uart.c\<close>: the bytes accepted for sending reach the
  data register in order, the bytes received are read in order, the divisors for a baud rate, and what
  the polled output writes.
\<close>

section \<open>Access\<close>

lemma uart_next_eq [simp]: "uart_next = ring_next"
  by (simp add: fun_eq_iff uart_next_def ring_next_def UART_BUFFER_SIZE_def)

lemma ud_upd_simps [simp]:
  "udev (ud_upd f s) = f (udev s)" "uregs (ud_upd f s) = uregs s" "in_sched (ud_upd f s) = in_sched s"
  "ue_addr (in_app (ud_upd f s)) = ue_addr (in_app s)"
  by (simp_all add: ud_upd_def)

lemma uart_rd_simps [simp]:
  "fst (uart_rd hw off s) = hw (uregs s) (ud_base (udev s) + off)"
  "udev (snd (uart_rd hw off s)) = udev s" "in_sched (snd (uart_rd hw off s)) = in_sched s"
  "uregs (snd (uart_rd hw off s)) = Rd (ud_base (udev s) + off) # uregs s"
  by (simp_all add: uart_rd_def Let_def)

lemma uart_wr_simps [simp]:
  "udev (uart_wr off v s) = udev s" "in_sched (uart_wr off v s) = in_sched s"
  "uregs (uart_wr off v s) = Wr (ud_base (udev s) + off) v # uregs s"
  by (simp_all add: uart_wr_def)

lemma sched_upd_simps [simp]:
  "udev (s\<lparr>in_sched := x\<rparr>) = udev s" "uregs (s\<lparr>in_sched := x\<rparr>) = uregs s"
  by simp_all

section \<open>What passed the data register\<close>

text \<open>The bytes written to the data register, and the words read from it, the oldest first.\<close>

fun dr_writes :: "addr \<Rightarrow> mmio list \<Rightarrow> u8 list" where
  "dr_writes b [] = []"
| "dr_writes b (Wr a v # h) = dr_writes b h @ (if a = b + UART_DR then [ucast v] else [])"
| "dr_writes b (Rd a # h) = dr_writes b h"

fun dr_reads :: "mmio_hw \<Rightarrow> addr \<Rightarrow> mmio list \<Rightarrow> u32 list" where
  "dr_reads hw b [] = []"
| "dr_reads hw b (Wr a v # h) = dr_reads hw b h"
| "dr_reads hw b (Rd a # h) = dr_reads hw b h @ (if a = b + UART_DR then [hw h a] else [])"

text \<open>The characters among them: the words without an error bit.\<close>

definition dr_chars :: "mmio_hw \<Rightarrow> addr \<Rightarrow> mmio list \<Rightarrow> u8 list" where
  "dr_chars hw b h = map ucast (filter (\<lambda>w. w AND 0xF00 = 0) (dr_reads hw b h))"

lemma dr_chars_simps [simp]:
  "dr_chars hw b (Wr a v # h) = dr_chars hw b h"
  "a \<noteq> b + UART_DR \<Longrightarrow> dr_chars hw b (Rd a # h) = dr_chars hw b h"
  "dr_chars hw b (Rd (b + UART_DR) # h) = dr_chars hw b h @
     (if hw h (b + UART_DR) AND 0xF00 = 0 then [ucast (hw h (b + UART_DR))] else [])"
  by (simp_all add: dr_chars_def)

lemma uart_offsets [simp]:
  "UART_FR \<noteq> UART_DR" "UART_RSR \<noteq> UART_DR" "UART_IMSC \<noteq> UART_DR" "UART_ICR \<noteq> UART_DR" "UART_MIS \<noteq> UART_DR"
  "UART_DR \<noteq> UART_FR" "UART_DR \<noteq> UART_RSR" "UART_DR \<noteq> UART_IMSC" "UART_DR \<noteq> UART_ICR" "UART_DR \<noteq> UART_MIS"
  by (simp_all add: UART_FR_def UART_DR_def UART_RSR_def UART_IMSC_def UART_ICR_def UART_MIS_def)

section \<open>The rings\<close>

definition tx_ring :: "uart_dev \<Rightarrow> u8 list" where
  "tx_ring d = ring_values (ud_tx_buffer d) (ud_tx_head d) (ud_tx_tail d)"

definition rx_ring :: "uart_dev \<Rightarrow> u8 list" where
  "rx_ring d = ring_values (ud_rx_buffer d) (ud_rx_head d) (ud_rx_tail d)"

text \<open>Indices inside the rings, and the locks free that \<open>sem_post\<close> takes.\<close>

definition uart_sane :: "uart_dev \<Rightarrow> bool" where
  "uart_sane d \<longleftrightarrow> unat (ud_rx_head d) < 256 \<and> unat (ud_rx_tail d) < 256 \<and>
     unat (ud_tx_head d) < 256 \<and> unat (ud_tx_tail d) < 256 \<and>
     sl_lock (sem_lock (ud_rx_sem d)) = 0 \<and> sl_lock (sem_lock (ud_tx_sem d)) = 0"

text \<open>
  The bytes accepted for sending since the history was \<open>W\<close> are those written to the data register and
  those in the ring. The bytes given to readers and those in the ring are characters received since \<open>G\<close>,
  in order, and all of them as long as no more came than the ring holds.
\<close>

definition uart_flow :: "mmio_hw \<Rightarrow> addr \<Rightarrow> u8 list \<Rightarrow> u8 list \<Rightarrow> u8 list \<Rightarrow> u8 list \<Rightarrow> uart_dev \<Rightarrow> mmio list \<Rightarrow> bool" where
  "uart_flow hw b W G acc taken d h \<longleftrightarrow>
     ud_base d = b \<and> uart_sane d \<and> dr_writes b h @ tx_ring d = W @ acc \<and>
     (\<exists>rcv. dr_chars hw b h = G @ rcv \<and> subseq (taken @ rx_ring d) rcv \<and>
        (length rcv \<le> 255 \<longrightarrow> taken @ rx_ring d = rcv))"

definition uart_view :: "uart_dev \<Rightarrow> _" where
  "uart_view d = (ud_base d, ud_rx_buffer d, ud_rx_head d, ud_rx_tail d, ud_tx_buffer d, ud_tx_head d, ud_tx_tail d,
     sl_lock (sem_lock (ud_rx_sem d)), sl_lock (sem_lock (ud_tx_sem d)))"

lemma uart_flow_cong: "uart_view d' = uart_view d \<Longrightarrow> uart_flow hw b W G acc taken d' h = uart_flow hw b W G acc taken d h"
  by (simp add: uart_view_def uart_flow_def uart_sane_def tx_ring_def rx_ring_def)

lemma uart_flow_access:
  "a \<noteq> b + UART_DR \<Longrightarrow> uart_flow hw b W G acc taken d (Rd a # h) = uart_flow hw b W G acc taken d h"
  "a \<noteq> b + UART_DR \<Longrightarrow> uart_flow hw b W G acc taken d (Wr a v # h) = uart_flow hw b W G acc taken d h"
  by (simp_all add: uart_flow_def)

lemma ucast_u8: "ucast (ucast (x :: u8) :: u32) = x"
  by (rule bit_word_eqI) (simp add: bit_simps)

lemma uart_flow_send:
  assumes "uart_flow hw b W G acc taken d h" "ud_tx_tail d \<noteq> ud_tx_head d"
    and "uart_view d' = uart_view (d\<lparr>ud_tx_tail := ring_next (ud_tx_tail d)\<rparr>)"
  shows "uart_flow hw b W G acc taken d' (Wr (b + UART_DR) (ucast (ud_tx_buffer d (unat (ud_tx_tail d)))) # h)"
proof -
  have "tx_ring d = ud_tx_buffer d (unat (ud_tx_tail d)) # tx_ring (d\<lparr>ud_tx_tail := ring_next (ud_tx_tail d)\<rparr>)"
    using assms(1,2) by (simp add: tx_ring_def uart_flow_def uart_sane_def ring_values_pop)
  then show ?thesis unfolding uart_flow_cong [OF assms(3)] using assms(1)
    by (simp add: uart_flow_def uart_sane_def rx_ring_def ucast_u8)
qed

lemma uart_flow_accept:
  assumes "uart_flow hw b W G acc taken d h" "ring_next (ud_tx_head d) \<noteq> ud_tx_tail d"
    and "uart_view d' = uart_view (d\<lparr>ud_tx_buffer := (ud_tx_buffer d)(unat (ud_tx_head d) := v), ud_tx_head := ring_next (ud_tx_head d)\<rparr>)"
  shows "uart_flow hw b W G (acc @ [v]) taken d' h"
  unfolding uart_flow_cong [OF assms(3)] using assms(1,2)
  by (simp add: uart_flow_def uart_sane_def rx_ring_def tx_ring_def ring_values_push)

lemma uart_flow_take:
  assumes "uart_flow hw b W G acc taken d h" "ud_rx_tail d \<noteq> ud_rx_head d"
    and "uart_view d' = uart_view (d\<lparr>ud_rx_tail := ring_next (ud_rx_tail d)\<rparr>)"
  shows "uart_flow hw b W G acc (taken @ [ud_rx_buffer d (unat (ud_rx_tail d))]) d' h"
proof -
  have "rx_ring d = ud_rx_buffer d (unat (ud_rx_tail d)) # rx_ring (d\<lparr>ud_rx_tail := ring_next (ud_rx_tail d)\<rparr>)"
    using assms(1,2) by (simp add: rx_ring_def uart_flow_def uart_sane_def ring_values_pop)
  then show ?thesis unfolding uart_flow_cong [OF assms(3)] using assms(1)
    by (simp add: uart_flow_def uart_sane_def tx_ring_def)
qed

text \<open>A word read with an error bit; a character put into the ring; a character there is no room for.\<close>

lemma uart_flow_error:
  assumes "uart_flow hw b W G acc taken d h" "hw h (b + UART_DR) AND 0xF00 \<noteq> 0"
  shows "uart_flow hw b W G acc taken d (Rd (b + UART_DR) # h)"
  using assms by (simp add: uart_flow_def)

lemma uart_flow_receive:
  assumes f: "uart_flow hw b W G acc taken d h" and c: "hw h (b + UART_DR) AND 0xF00 = 0" "v = ucast (hw h (b + UART_DR))"
    and r: "ring_next (ud_rx_head d) \<noteq> ud_rx_tail d"
    and v: "uart_view d' = uart_view (d\<lparr>ud_rx_buffer := (ud_rx_buffer d)(unat (ud_rx_head d) := v), ud_rx_head := ring_next (ud_rx_head d)\<rparr>)"
  shows "uart_flow hw b W G acc taken d' (Rd (b + UART_DR) # h)"
proof -
  obtain rcv where rcv: "dr_chars hw b h = G @ rcv" "subseq (taken @ rx_ring d) rcv"
    "length rcv \<le> 255 \<Longrightarrow> taken @ rx_ring d = rcv" using f unfolding uart_flow_def by blast
  let ?d = "d\<lparr>ud_rx_buffer := (ud_rx_buffer d)(unat (ud_rx_head d) := v), ud_rx_head := ring_next (ud_rx_head d)\<rparr>"
  have ring: "rx_ring ?d = rx_ring d @ [v]"
    using f r by (simp add: uart_flow_def uart_sane_def rx_ring_def ring_values_push)
  have "dr_chars hw b (Rd (b + UART_DR) # h) = G @ (rcv @ [v])" using rcv(1) c by simp
  moreover have "subseq (taken @ rx_ring ?d) (rcv @ [v])"
    unfolding ring append_assoc [symmetric] using rcv(2) by (rule list_emb_append_mono) simp
  moreover have "length (rcv @ [v]) \<le> 255 \<longrightarrow> taken @ rx_ring ?d = rcv @ [v]" using rcv(3) ring by simp
  ultimately show ?thesis unfolding uart_flow_cong [OF v] using f
    by (simp only: uart_flow_def) (auto simp: uart_sane_def tx_ring_def)
qed

lemma uart_flow_drop:
  assumes f: "uart_flow hw b W G acc taken d h" and c: "hw h (b + UART_DR) AND 0xF00 = 0"
    and r: "ring_next (ud_rx_head d) = ud_rx_tail d"
  shows "uart_flow hw b W G acc taken d (Rd (b + UART_DR) # h)"
proof -
  obtain rcv where rcv: "dr_chars hw b h = G @ rcv" "subseq (taken @ rx_ring d) rcv"
    "length rcv \<le> 255 \<Longrightarrow> taken @ rx_ring d = rcv" using f unfolding uart_flow_def by blast
  let ?v = "ucast (hw h (b + UART_DR)) :: u8"
  have "length (rx_ring d) = 255"
    using f r ring_used_full [of "ud_rx_head d" "ud_rx_tail d"] by (simp add: uart_flow_def uart_sane_def rx_ring_def)
  then have "255 \<le> length rcv" using list_emb_length [OF rcv(2)] by simp
  then have "length (rcv @ [?v]) \<le> 255 \<longrightarrow> taken @ rx_ring d = rcv @ [?v]" by simp
  moreover have "subseq (taken @ rx_ring d) (rcv @ [?v])" using rcv(2) by (rule subseq_rev_drop_many)
  moreover have "dr_chars hw b (Rd (b + UART_DR) # h) = G @ (rcv @ [?v])" using rcv(1) c by simp
  ultimately show ?thesis using f unfolding uart_flow_def dr_writes.simps by blast
qed

section \<open>The steps\<close>

lemma sem_post_free:
  assumes "sl_lock (sem_lock m) = 0"
  obtains m' s' where "sem_post m s = Some (m', s')" "sl_lock (sem_lock m') = 0" "sem_count m' = sem_count m + 1"
proof (cases "wait_list_remove_first (sem_wait_list m) (set_daif (cpu_daif (sc_cpu s) OR DAIF_I) s)")
  case (fields w list s1)
  then show ?thesis using that assms by (simp add: sem_post_def obj_lock_free obj_unlock_eq)
qed

text \<open>The flow at a state of the system, with the lock of the port free or taken.\<close>

definition uart_at :: "mmio_hw \<Rightarrow> addr \<Rightarrow> u8 list \<Rightarrow> u8 list \<Rightarrow> u8 list \<Rightarrow> u8 list \<Rightarrow> 'w usys \<Rightarrow> bool" where
  "uart_at hw b W G acc taken s \<longleftrightarrow> uart_flow hw b W G acc taken (udev s) (uregs s)"

abbreviation uart_open :: "'w usys \<Rightarrow> bool" where "uart_open s \<equiv> sl_lock (ud_lock (udev s)) = 0"

lemma uart_at_base: "uart_at hw b W G acc taken s \<Longrightarrow> ud_base (udev s) = b"
  by (simp add: uart_at_def uart_flow_def)

lemma uart_at_rd:
  assumes "uart_at hw b W G acc taken s" "off \<noteq> UART_DR" "uart_rd hw off s = (v, s')"
  shows "uart_at hw b W G acc taken s'" "udev s' = udev s"
  using assms(1,2) uart_at_base [OF assms(1)] uart_rd_simps [of hw off s, unfolded assms(3)]
  by (simp_all add: uart_at_def uart_flow_access)

lemma uart_at_wr:
  assumes "uart_at hw b W G acc taken s" "off \<noteq> UART_DR"
  shows "uart_at hw b W G acc taken (uart_wr off v s)"
  using assms uart_at_base [OF assms(1)] by (simp add: uart_at_def uart_flow_access)

lemma uart_at_upd:
  assumes "uart_at hw b W G acc taken s" "uart_view (f (udev s)) = uart_view (udev s)"
  shows "uart_at hw b W G acc taken (ud_upd f s)"
  using assms(1) uart_flow_cong [OF assms(2)] by (simp add: uart_at_def)

lemma uart_at_sane: "uart_at hw b W G acc taken s \<Longrightarrow> uart_sane (udev s)"
  by (simp add: uart_at_def uart_flow_def)

lemma uart_post_tx_ok:
  assumes "uart_at hw b W G acc taken s"
  shows "\<exists>s'. uart_post_tx s = Some s' \<and> uart_at hw b W G acc taken s' \<and> uregs s' = uregs s \<and>
    (\<exists>sem. udev s' = (udev s)\<lparr>ud_tx_sem := sem\<rparr>)"
proof -
  have l: "sl_lock (sem_lock (ud_tx_sem (udev s))) = 0" using uart_at_sane [OF assms] by (simp add: uart_sane_def)
  obtain m' sc where p: "sem_post (ud_tx_sem (udev s)) (in_sched s) = Some (m', sc)" "sl_lock (sem_lock m') = 0"
    by (rule sem_post_free [OF l, of "in_sched s"]) blast
  have v: "uart_view (udev s\<lparr>ud_tx_sem := m'\<rparr>) = uart_view (udev s)" using l p(2) by (simp add: uart_view_def)
  have "uart_at hw b W G acc taken (ud_upd (ud_tx_sem_update (\<lambda>_. m')) (s\<lparr>in_sched := sc\<rparr>))"
    using assms uart_flow_cong [OF v] by (simp add: uart_at_def)
  then show ?thesis using p by (auto simp: uart_post_tx_def)
qed

lemma uart_post_rx_ok:
  assumes "uart_at hw b W G acc taken s"
  shows "\<exists>s'. uart_post_rx s = Some s' \<and> uart_at hw b W G acc taken s' \<and> uregs s' = uregs s \<and>
    (\<exists>sem. udev s' = (udev s)\<lparr>ud_rx_sem := sem\<rparr>)"
proof -
  have l: "sl_lock (sem_lock (ud_rx_sem (udev s))) = 0" using uart_at_sane [OF assms] by (simp add: uart_sane_def)
  obtain m' sc where p: "sem_post (ud_rx_sem (udev s)) (in_sched s) = Some (m', sc)" "sl_lock (sem_lock m') = 0"
    by (rule sem_post_free [OF l, of "in_sched s"]) blast
  have v: "uart_view (udev s\<lparr>ud_rx_sem := m'\<rparr>) = uart_view (udev s)" using l p(2) by (simp add: uart_view_def)
  have "uart_at hw b W G acc taken (ud_upd (ud_rx_sem_update (\<lambda>_. m')) (s\<lparr>in_sched := sc\<rparr>))"
    using assms uart_flow_cong [OF v] by (simp add: uart_at_def)
  then show ?thesis using p by (auto simp: uart_post_rx_def)
qed

text \<open>The transmit loop ends, whatever the port answers: every round takes a byte out of the ring.\<close>

lemma uart_tx_fill_ok:
  assumes "uart_at hw b W G acc taken s"
  shows "\<exists>s'. uart_tx_fill hw s = Some s' \<and> uart_at hw b W G acc taken s' \<and>
    ud_lock (udev s') = ud_lock (udev s) \<and> ud_tx_active (udev s') = ud_tx_active (udev s)"
  using assms
proof (induction "length (tx_ring (udev s))" arbitrary: s rule: less_induct)
  case less
  obtain fr s1 where rd: "uart_rd hw UART_FR s = (fr, s1)" by (cases "uart_rd hw UART_FR s")
  note s1 = uart_at_rd [OF less.prems uart_offsets(1) rd]
  show ?case
  proof (cases "fr AND FR_TXFF = 0 \<and> ud_tx_tail (udev s1) \<noteq> ud_tx_head (udev s1)")
    case False
    then show ?thesis using s1 by (subst uart_tx_fill.simps) (auto simp: rd)
  next
    case True
    let ?d = "udev s1"
    let ?s2 = "uart_wr UART_DR (ucast (ud_tx_buffer ?d (unat (ud_tx_tail ?d)))) s1"
    let ?s3 = "ud_upd (\<lambda>d. d\<lparr>ud_tx_tail := uart_next (ud_tx_tail d), ud_tx_count := ud_tx_count d + 1\<rparr>) ?s2"
    have "uart_at hw b W G acc taken ?s3"
      unfolding uart_at_def ud_upd_simps uart_wr_simps uart_at_base [OF s1(1)]
      by (rule uart_flow_send [OF s1(1) [unfolded uart_at_def]]) (use True in \<open>simp_all add: uart_view_def\<close>)
    from uart_post_tx_ok [OF this] obtain s4 sem where s4: "uart_post_tx ?s3 = Some s4" "uart_at hw b W G acc taken s4"
      "udev s4 = (udev ?s3)\<lparr>ud_tx_sem := sem\<rparr>" by blast
    have "tx_ring ?d = ud_tx_buffer ?d (unat (ud_tx_tail ?d)) # tx_ring (udev s4)"
      using uart_at_sane [OF s1(1)] True by (simp add: s4(3) tx_ring_def uart_sane_def ring_values_pop)
    then have "length (tx_ring (udev s4)) < length (tx_ring (udev s))" using s1(2) by simp
    from less.hyps [OF this s4(2)] obtain s' where s': "uart_tx_fill hw s4 = Some s'" "uart_at hw b W G acc taken s'"
      "ud_lock (udev s') = ud_lock (udev s4)" "ud_tx_active (udev s') = ud_tx_active (udev s4)" by blast
    have "uart_tx_fill hw s = Some s'"
      using True s4(1) s'(1) by (subst uart_tx_fill.simps) (simp add: rd)
    then show ?thesis using s'(2-4) s4(3) s1(2) by simp
  qed
qed

text \<open>Callbacks that come back and leave the port alone.\<close>

definition rx_callback_ok :: "'w rx_callback \<Rightarrow> bool" where
  "rx_callback_ok cb \<longleftrightarrow> (\<forall>f a c s. \<exists>s'. cb f a c s = Some s' \<and> udev s' = udev s \<and> uregs s' = uregs s)"

lemma uart_rx_word_ok:
  assumes cb: "rx_callback_ok cb" and f: "uart_at hw b W G acc taken s0" and rd: "uart_rd hw UART_DR s0 = (data, s)"
  shows "\<exists>s'. uart_rx_word cb data s = Some s' \<and> uart_at hw b W G acc taken s' \<and>
    (uregs s' = uregs s \<or> uregs s' = Wr (b + UART_RSR) 0 # uregs s) \<and>
    ud_lock (udev s') = ud_lock (udev s) \<and> ud_tx_active (udev s') = ud_tx_active (udev s)"
proof -
  note b = uart_at_base [OF f]
  have s: "data = hw (uregs s0) (b + UART_DR)" "udev s = udev s0" "uregs s = Rd (b + UART_DR) # uregs s0"
    using uart_rd_simps [of hw UART_DR s0, unfolded rd] b by simp_all
  note f0 = f [unfolded uart_at_def]
  let ?next = "ring_next (ud_rx_head (udev s))"
  consider (error) "data AND 0xF00 \<noteq> 0" | (full) "data AND 0xF00 = 0" "?next = ud_rx_tail (udev s)"
    | (room) "data AND 0xF00 = 0" "?next \<noteq> ud_rx_tail (udev s)" by blast
  then show ?thesis
  proof cases
    case error
    have "uart_at hw b W G acc taken s" unfolding uart_at_def s(2,3) using uart_flow_error [OF f0] error s(1) by simp
    then have "uart_at hw b W G acc taken (uart_wr UART_RSR 0 (ud_upd (ud_rx_errors_update (\<lambda>n. n + 1)) s))"
      by (intro uart_at_wr uart_at_upd) (simp_all add: uart_view_def)
    then show ?thesis using error b s(2) by (simp add: uart_rx_word_def)
  next
    case full
    have "uart_at hw b W G acc taken s" unfolding uart_at_def s(2,3) using uart_flow_drop [OF f0] full s(1,2) by simp
    then show ?thesis using full by (simp add: uart_rx_word_def)
  next
    case room
    let ?s1 = "ud_upd (\<lambda>d. d\<lparr>ud_rx_buffer := (ud_rx_buffer d)(unat (ud_rx_head d) := ucast data)\<rparr>) s"
    let ?s2 = "ud_upd (\<lambda>d. d\<lparr>ud_rx_head := ?next, ud_rx_count := ud_rx_count d + 1\<rparr>) ?s1"
    have "uart_at hw b W G acc taken ?s2"
      unfolding uart_at_def ud_upd_simps s(3)
      by (rule uart_flow_receive [OF f0, where v = "ucast data"]) (use room s in \<open>simp_all add: uart_view_def\<close>)
    from uart_post_rx_ok [OF this] obtain s3 sem where s3: "uart_post_rx ?s2 = Some s3" "uart_at hw b W G acc taken s3"
      "uregs s3 = uregs s" "udev s3 = (udev ?s2)\<lparr>ud_rx_sem := sem\<rparr>" by auto
    show ?thesis
    proof (cases "ud_rx_callback (udev s3)")
      case None
      then show ?thesis using room s3 by (simp add: uart_rx_word_def)
    next
      case (Some g)
      obtain s4 where s4: "cb g (ud_rx_callback_arg (udev s3)) (ucast data) s3 = Some s4" "udev s4 = udev s3" "uregs s4 = uregs s3"
        using cb unfolding rx_callback_ok_def by blast
      then have "uart_at hw b W G acc taken s4" using s3(2) by (simp add: uart_at_def)
      then show ?thesis using room s3 s4 Some by (simp add: uart_rx_word_def)
    qed
  qed
qed

text \<open>
  The characters the port holds at a moment are finitely many: a measure of the history goes down with every
  character that is taken.
\<close>

definition rx_pending :: "mmio_hw \<Rightarrow> addr \<Rightarrow> (mmio list \<Rightarrow> nat) \<Rightarrow> bool" where
  "rx_pending hw b pend \<longleftrightarrow>
     (\<forall>h. hw h (b + UART_FR) AND FR_RXFE = 0 \<longrightarrow>
        pend (Rd (b + UART_DR) # Rd (b + UART_FR) # h) < pend h \<and>
        pend (Wr (b + UART_RSR) 0 # Rd (b + UART_DR) # Rd (b + UART_FR) # h) < pend h)"

lemma uart_rx_loop_ok:
  assumes "rx_callback_ok cb" "rx_pending hw b pend" "uart_at hw b W G acc taken s"
  shows "\<exists>s'. uart_rx_loop hw cb s = Some s' \<and> uart_at hw b W G acc taken s' \<and>
    ud_lock (udev s') = ud_lock (udev s) \<and> ud_tx_active (udev s') = ud_tx_active (udev s)"
  using assms(3)
proof (induction "pend (uregs s)" arbitrary: s rule: less_induct)
  case less
  obtain fr s1 where rd: "uart_rd hw UART_FR s = (fr, s1)" by (cases "uart_rd hw UART_FR s")
  note s1 = uart_at_rd [OF less.prems uart_offsets(1) rd]
  note b = uart_at_base [OF less.prems]
  have r1: "fr = hw (uregs s) (b + UART_FR)" "uregs s1 = Rd (b + UART_FR) # uregs s"
    using uart_rd_simps [of hw UART_FR s, unfolded rd] b by simp_all
  show ?case
  proof (cases "fr AND FR_RXFE \<noteq> 0")
    case True
    then show ?thesis using s1 by (subst uart_rx_loop.simps) (simp add: rd)
  next
    case False
    obtain data s2 where rd2: "uart_rd hw UART_DR s1 = (data, s2)" by (cases "uart_rd hw UART_DR s1")
    have r2: "uregs s2 = Rd (b + UART_DR) # uregs s1" "udev s2 = udev s1"
      using uart_rd_simps [of hw UART_DR s1, unfolded rd2] uart_at_base [OF s1(1)] by simp_all
    from uart_rx_word_ok [OF assms(1) s1(1) rd2] obtain s3 where s3: "uart_rx_word cb data s2 = Some s3"
      "uart_at hw b W G acc taken s3" "uregs s3 = uregs s2 \<or> uregs s3 = Wr (b + UART_RSR) 0 # uregs s2"
      "ud_lock (udev s3) = ud_lock (udev s2)" "ud_tx_active (udev s3) = ud_tx_active (udev s2)" by blast
    have "pend (uregs s3) < pend (uregs s)"
      using assms(2) False s3(3) unfolding rx_pending_def r1 r2 by auto
    from less.hyps [OF this s3(2)] obtain s' where s': "uart_rx_loop hw cb s3 = Some s'" "uart_at hw b W G acc taken s'"
      "ud_lock (udev s') = ud_lock (udev s3)" "ud_tx_active (udev s') = ud_tx_active (udev s3)" by blast
    have "uart_rx_loop hw cb s = Some s'"
      using False s3(1) s'(1) by (subst uart_rx_loop.simps) (simp add: rd rd2)
    then show ?thesis using s'(2-4) s3(4,5) r2(2) s1(2) by simp
  qed
qed

lemma uart_irq_tx_ok:
  assumes f: "uart_at hw b W G acc taken s" and l: "uart_open s"
  shows "\<exists>s'. uart_irq_tx hw s = Some s' \<and> uart_at hw b W G acc taken s' \<and> uart_open s'"
proof -
  let ?l = "(ud_lock (udev s))\<lparr>sl_lock := 1\<rparr>"
  have lock: "uart_lock s = Some (ud_upd (ud_lock_update (\<lambda>_. ?l)) s)"
    using l by (simp add: uart_lock_def spin_lock_def)
  have "uart_at hw b W G acc taken (ud_upd (ud_lock_update (\<lambda>_. ?l)) s)"
    by (rule uart_at_upd [OF f]) (simp add: uart_view_def)
  from uart_tx_fill_ok [OF this] obtain s1 where s1: "uart_tx_fill hw (ud_upd (ud_lock_update (\<lambda>_. ?l)) s) = Some s1"
    "uart_at hw b W G acc taken s1" by blast
  obtain imsc s2 where rd: "uart_rd hw UART_IMSC s1 = (imsc, s2)" by (cases "uart_rd hw UART_IMSC s1")
  note s2 = uart_at_rd [OF s1(2) uart_offsets(3) rd]
  let ?s3 = "if ud_tx_tail (udev s1) = ud_tx_head (udev s1)
    then ud_upd (ud_tx_active_update (\<lambda>_. False)) (uart_wr UART_IMSC (imsc AND NOT INT_TX) s2) else s1"
  have s3: "uart_at hw b W G acc taken ?s3"
    using s1(2) uart_at_upd [OF uart_at_wr [OF s2(1) uart_offsets(3)], of "ud_tx_active_update (\<lambda>_. False)"]
    by (simp add: uart_view_def)
  have "uart_at hw b W G acc taken (uart_wr UART_ICR INT_TX (uart_unlock ?s3))"
    unfolding uart_unlock_def by (rule uart_at_wr [OF uart_at_upd [OF s3]]) (simp_all add: uart_view_def)
  moreover have "uart_open (uart_wr UART_ICR INT_TX (uart_unlock ?s3))"
    by (simp add: uart_unlock_def spin_unlock_def)
  moreover have "uart_irq_tx hw s = Some (uart_wr UART_ICR INT_TX (uart_unlock ?s3))"
    by (simp add: uart_irq_tx_def lock s1(1) rd)
  ultimately show ?thesis by blast
qed

lemma uart_irq_handler_ok:
  assumes cb: "rx_callback_ok cb" "rx_pending hw b pend" and f: "uart_at hw b W G acc taken s" and l: "uart_open s"
  shows "\<exists>s'. uart_irq_handler hw cb s = Some s' \<and> uart_at hw b W G acc taken s' \<and> uart_open s'"
proof -
  obtain mis s1 where rd: "uart_rd hw UART_MIS s = (mis, s1)" by (cases "uart_rd hw UART_MIS s")
  note s1 = uart_at_rd [OF f uart_offsets(5) rd]
  obtain s2 where s2: "(if mis AND (INT_RX OR INT_RT) \<noteq> 0 then uart_irq_rx hw cb s1 else Some s1) = Some s2"
    "uart_at hw b W G acc taken s2" "uart_open s2"
  proof (cases "mis AND (INT_RX OR INT_RT) \<noteq> 0")
    case True
    from uart_rx_loop_ok [OF cb s1(1)] obtain s2 where r: "uart_rx_loop hw cb s1 = Some s2" "uart_at hw b W G acc taken s2"
      "ud_lock (udev s2) = ud_lock (udev s1)" by blast
    then show ?thesis using that True l s1(2) uart_at_wr [OF r(2) uart_offsets(4)] by (simp add: uart_irq_rx_def)
  next
    case False
    then show ?thesis using that s1 l by simp
  qed
  obtain s3 where s3: "(if mis AND INT_TX \<noteq> 0 then uart_irq_tx hw s2 else Some s2) = Some s3"
    "uart_at hw b W G acc taken s3" "uart_open s3"
    using uart_irq_tx_ok [OF s2(2,3)] s2(2,3) by (cases "mis AND INT_TX \<noteq> 0") auto
  let ?s4 = "if mis AND (INT_OE OR INT_BE OR INT_PE OR INT_FE) \<noteq> 0
    then uart_wr UART_ICR (INT_OE OR INT_BE OR INT_PE OR INT_FE) (ud_upd (ud_rx_errors_update (\<lambda>n. n + 1)) s3) else s3"
  have "uart_at hw b W G acc taken ?s4 \<and> uart_open ?s4"
    using s3 uart_at_wr [OF uart_at_upd [OF s3(2), of "ud_rx_errors_update (\<lambda>n. n + 1)"] uart_offsets(4)]
    by (simp add: uart_view_def)
  moreover have "uart_irq_handler hw cb s = Some ?s4"
    unfolding uart_irq_handler_def by (simp add: rd s2(1) s3(1) cong: if_cong)
  ultimately show ?thesis by blast
qed

lemma uart_lock_irq_ok:
  assumes "uart_open s"
  obtains d sc where "uart_lock_irq s = Some (ud_upd (ud_lock_update (\<lambda>_. d)) (s\<lparr>in_sched := sc\<rparr>))"
  using assms by (auto simp: uart_lock_irq_def spin_lock_irq_def spin_lock_def arch_irq_save_def)

lemma uart_unlock_irq_ok:
  obtains d sc where "uart_unlock_irq s = ud_upd (ud_lock_update (\<lambda>_. d)) (s\<lparr>in_sched := sc\<rparr>)" "sl_lock d = 0"
  by (simp add: uart_unlock_irq_def spin_unlock_irq_def spin_unlock_def)

lemma uart_at_sched: "uart_at hw b W G acc taken (s\<lparr>in_sched := sc\<rparr>) = uart_at hw b W G acc taken s"
  by (simp add: uart_at_def)

lemma uart_put_ok:
  assumes f: "uart_at hw b W G acc taken s" and l: "uart_open s"
  shows "\<exists>stored s'. uart_put hw v s = Some (stored, s') \<and> uart_open s' \<and>
    uart_at hw b W G (if stored then acc @ [v] else acc) taken s'"
proof -
  obtain d sc where lock: "uart_lock_irq s = Some (ud_upd (ud_lock_update (\<lambda>_. d)) (s\<lparr>in_sched := sc\<rparr>))"
    by (rule uart_lock_irq_ok [OF l])
  let ?s0 = "ud_upd (ud_lock_update (\<lambda>_. d)) (s\<lparr>in_sched := sc\<rparr>)"
  have s0: "uart_at hw b W G acc taken ?s0"
    by (rule uart_at_upd) (use f in \<open>simp_all add: uart_at_sched uart_view_def\<close>)
  let ?next = "ring_next (ud_tx_head (udev s))"
  define stored where "stored = (?next \<noteq> ud_tx_tail (udev s))"
  let ?acc = "if stored then acc @ [v] else acc"
  define s1 where "s1 = (if stored
    then ud_upd (\<lambda>d. d\<lparr>ud_tx_buffer := (ud_tx_buffer d)(unat (ud_tx_head d) := v), ud_tx_head := ?next\<rparr>) ?s0 else ?s0)"
  have s1: "uart_at hw b W G ?acc taken s1"
  proof (cases stored)
    case True
    then have "ring_next (ud_tx_head (udev ?s0)) \<noteq> ud_tx_tail (udev ?s0)" by (simp add: stored_def)
    from uart_flow_accept [OF s0 [unfolded uart_at_def] this, of _ v] True show ?thesis
      by (simp add: s1_def uart_at_def)
  qed (use s0 in \<open>simp add: s1_def\<close>)
  obtain s2 where s2: "(if \<not> ud_tx_active (udev s1) then do {
             let s = ud_upd (ud_tx_active_update (\<lambda>_. True)) s1;
             s \<leftarrow> uart_tx_fill hw s;
             let (imsc, s) = uart_rd hw UART_IMSC s;
             Some (uart_wr UART_IMSC (imsc OR INT_TX) s)
           } else Some s1) = Some s2" "uart_at hw b W G ?acc taken s2"
  proof (cases "ud_tx_active (udev s1)")
    case False
    have "uart_at hw b W G ?acc taken (ud_upd (ud_tx_active_update (\<lambda>_. True)) s1)"
      by (rule uart_at_upd [OF s1]) (simp add: uart_view_def)
    from uart_tx_fill_ok [OF this] obtain s3 where s3: "uart_tx_fill hw (ud_upd (ud_tx_active_update (\<lambda>_. True)) s1) = Some s3"
      "uart_at hw b W G ?acc taken s3" by blast
    obtain imsc s4 where rd: "uart_rd hw UART_IMSC s3 = (imsc, s4)" by (cases "uart_rd hw UART_IMSC s3")
    note s4 = uart_at_wr [OF uart_at_rd(1) [OF s3(2) uart_offsets(3) rd] uart_offsets(3)]
    show ?thesis by (rule that [OF _ s4]) (use False s3(1) rd in simp)
  qed (use that s1 in simp)
  obtain d' sc' where u: "uart_unlock_irq s2 = ud_upd (ud_lock_update (\<lambda>_. d')) (s2\<lparr>in_sched := sc'\<rparr>)" "sl_lock d' = 0"
    by (rule uart_unlock_irq_ok)
  have "uart_put hw v s = Some (stored, uart_unlock_irq s2)"
    using s2(1) unfolding uart_put_def lock by (simp add: stored_def s1_def cong: if_cong)
  moreover have "uart_at hw b W G ?acc taken (uart_unlock_irq s2)"
    unfolding u(1) by (rule uart_at_upd) (use s2(2) in \<open>simp_all add: uart_at_sched uart_view_def\<close>)
  moreover have "uart_open (uart_unlock_irq s2)" using u by simp
  ultimately show ?thesis by blast
qed

lemma uart_take_ok:
  assumes f: "uart_at hw b W G acc taken s" and l: "uart_open s"
  shows "\<exists>bs s'. uart_take s = Some (bs, s') \<and> uart_open s' \<and> uart_at hw b W G acc (taken @ bs) s'"
proof -
  obtain d sc where lock: "uart_lock_irq s = Some (ud_upd (ud_lock_update (\<lambda>_. d)) (s\<lparr>in_sched := sc\<rparr>))"
    by (rule uart_lock_irq_ok [OF l])
  let ?s0 = "ud_upd (ud_lock_update (\<lambda>_. d)) (s\<lparr>in_sched := sc\<rparr>)"
  have s0: "uart_at hw b W G acc taken ?s0"
    by (rule uart_at_upd) (use f in \<open>simp_all add: uart_at_sched uart_view_def\<close>)
  obtain bs s1 where r: "(if ud_rx_tail (udev s) \<noteq> ud_rx_head (udev s)
       then ([ud_rx_buffer (udev s) (unat (ud_rx_tail (udev s)))], ud_upd (ud_rx_tail_update uart_next) ?s0)
       else ([], ?s0)) = (bs, s1)" by (metis surj_pair)
  have s1: "uart_at hw b W G acc (taken @ bs) s1"
  proof (cases "ud_rx_tail (udev s) = ud_rx_head (udev s)")
    case False
    then have "ud_rx_tail (udev ?s0) \<noteq> ud_rx_head (udev ?s0)" by simp
    from uart_flow_take [OF s0 [unfolded uart_at_def] this] False r show ?thesis
      by (auto simp: uart_at_def uart_view_def)
  qed (use s0 r in auto)
  obtain d' sc' where u: "uart_unlock_irq s1 = ud_upd (ud_lock_update (\<lambda>_. d')) (s1\<lparr>in_sched := sc'\<rparr>)" "sl_lock d' = 0"
    by (rule uart_unlock_irq_ok)
  have "uart_take s = Some (bs, uart_unlock_irq s1)"
    using r unfolding uart_take_def lock by (auto simp: Let_def)
  moreover have "uart_at hw b W G acc (taken @ bs) (uart_unlock_irq s1)"
    unfolding u(1) by (rule uart_at_upd) (use s1 in \<open>simp_all add: uart_at_sched uart_view_def\<close>)
  moreover have "uart_open (uart_unlock_irq s1)" using u by simp
  ultimately show ?thesis by blast
qed

section \<open>Runs\<close>

text \<open>
  The steps no interrupt comes into: the handler, the two sections under the lock, and whatever the rest of the
  system does in between, such as waiting on the two semaphores.
\<close>

datatype 'w uart_op = U_irq | U_put u8 | U_take | U_env "'w usys \<Rightarrow> 'w usys"

definition uart_rely :: "('w usys \<Rightarrow> 'w usys) \<Rightarrow> bool" where
  "uart_rely f \<longleftrightarrow> (\<forall>s. uregs (f s) = uregs s \<and> uart_view (udev (f s)) = uart_view (udev s) \<and>
     ud_lock (udev (f s)) = ud_lock (udev s))"

text \<open>A run, with the bytes accepted for sending and the bytes given to readers.\<close>

fun uart_exec :: "mmio_hw \<Rightarrow> 'w rx_callback \<Rightarrow> 'w uart_op \<Rightarrow> u8 list \<times> u8 list \<times> 'w usys \<Rightarrow>
    (u8 list \<times> u8 list \<times> 'w usys) option" where
  "uart_exec hw cb U_irq (acc, taken, s) = do { s \<leftarrow> uart_irq_handler hw cb s; Some (acc, taken, s) }"
| "uart_exec hw cb (U_put v) (acc, taken, s) = do {
     (stored, s) \<leftarrow> uart_put hw v s;
     Some (if stored then acc @ [v] else acc, taken, s)
   }"
| "uart_exec hw cb U_take (acc, taken, s) = do { (bs, s) \<leftarrow> uart_take s; Some (acc, taken @ bs, s) }"
| "uart_exec hw cb (U_env f) (acc, taken, s) = Some (acc, taken, f s)"

fun uart_run :: "mmio_hw \<Rightarrow> 'w rx_callback \<Rightarrow> 'w uart_op list \<Rightarrow> u8 list \<times> u8 list \<times> 'w usys \<Rightarrow>
    (u8 list \<times> u8 list \<times> 'w usys) option" where
  "uart_run hw cb [] x = Some x"
| "uart_run hw cb (op # ops) x = do { x \<leftarrow> uart_exec hw cb op x; uart_run hw cb ops x }"

lemma uart_exec_ok:
  assumes cb: "rx_callback_ok cb" "rx_pending hw b pend" and f: "uart_at hw b W G acc taken s" and l: "uart_open s"
    and r: "\<And>f. op = U_env f \<Longrightarrow> uart_rely f"
  shows "\<exists>acc' taken' s'. uart_exec hw cb op (acc, taken, s) = Some (acc', taken', s') \<and>
    uart_at hw b W G acc' taken' s' \<and> uart_open s'"
proof (cases op)
  case U_irq
  then show ?thesis using uart_irq_handler_ok [OF cb f l] by auto
next
  case (U_put v)
  then show ?thesis using uart_put_ok [OF f l, of v] by fastforce
next
  case U_take
  then show ?thesis using uart_take_ok [OF f l] by fastforce
next
  case (U_env g)
  with r have "uregs (g s) = uregs s" "uart_view (udev (g s)) = uart_view (udev s)" "ud_lock (udev (g s)) = ud_lock (udev s)"
    by (simp_all add: uart_rely_def)
  then show ?thesis using U_env f l uart_flow_cong [of "udev (g s)" "udev s"] by (simp add: uart_at_def)
qed

lemma uart_run_ok:
  assumes cb: "rx_callback_ok cb" "rx_pending hw b pend" and f: "uart_at hw b W G acc taken s" and l: "uart_open s"
    and r: "\<forall>f. U_env f \<in> set ops \<longrightarrow> uart_rely f"
  shows "\<exists>acc' taken' s'. uart_run hw cb ops (acc, taken, s) = Some (acc', taken', s') \<and>
    uart_at hw b W G acc' taken' s' \<and> uart_open s'"
  using f l r
proof (induction ops arbitrary: acc taken s)
  case (Cons op ops)
  from uart_exec_ok [OF cb Cons.prems(1,2), of op] Cons.prems(3)
  obtain acc' taken' s' where "uart_exec hw cb op (acc, taken, s) = Some (acc', taken', s')"
    "uart_at hw b W G acc' taken' s'" "uart_open s'" by auto
  with Cons.IH [of acc' taken' s'] Cons.prems(3) show ?case by auto
qed auto

text \<open>Waiting on a semaphore is such a step.\<close>

lemma sem_wait_lock:
  assumes "sem_wait a m s = Some r"
  shows "sl_lock (sem_lock m) = 0 \<and> (case r of WDone st m' sc \<Rightarrow> sl_lock (sem_lock m') = 0 | WBlock m' c \<Rightarrow> sl_lock (sem_lock m') = 0)"
proof -
  have l: "sl_lock (sem_lock m) = 0"
    using assms by (auto simp: sem_wait_def obj_lock_def spin_lock_irq_def spin_lock_def arch_irq_save_def Let_def
        bind_eq_Some_conv split: if_splits)
  then show ?thesis using assms
    by (auto simp: sem_wait_def sem_wait_loop_def sem_release_def obj_lock_free obj_unlock_eq bind_eq_Some_conv
        case_prod_unfold Let_def split: if_splits)
qed

definition uart_after :: "('w usys + 'w usys ctl) option \<Rightarrow> 'w usys \<Rightarrow> 'w usys" where
  "uart_after r s = (case r of None \<Rightarrow> s | Some (Inl s') \<Rightarrow> s' | Some (Inr c) \<Rightarrow> ctl_state c)"

lemma uart_after_tx:
  assumes "sem_wait a (ud_tx_sem (udev s)) sc = Some r"
  defines "s' \<equiv> uart_after (Some (uart_waited ud_tx_sem_update s r)) s"
  shows "uregs s' = uregs s \<and> uart_view (udev s') = uart_view (udev s) \<and> ud_lock (udev s') = ud_lock (udev s)"
  using sem_wait_lock [OF assms(1)] unfolding s'_def
  by (cases r) (auto simp: uart_after_def uart_waited_def uart_view_def Let_def split: ctl.splits)

lemma uart_after_rx:
  assumes "sem_wait a (ud_rx_sem (udev s)) sc = Some r"
  defines "s' \<equiv> uart_after (Some (uart_waited ud_rx_sem_update s r)) s"
  shows "uregs s' = uregs s \<and> uart_view (udev s') = uart_view (udev s) \<and> ud_lock (udev s') = ud_lock (udev s)"
  using sem_wait_lock [OF assms(1)] unfolding s'_def
  by (cases r) (auto simp: uart_after_def uart_waited_def uart_view_def Let_def split: ctl.splits)

lemma uart_after_None [simp]: "uart_after None s = s"
  by (simp add: uart_after_def)

lemma uart_wait_rely: "uart_rely (\<lambda>s. uart_after (uart_wait_tx s) s)" "uart_rely (\<lambda>s. uart_after (uart_wait_rx s) s)"
  unfolding uart_rely_def uart_wait_tx_def uart_wait_rx_def
  by (auto simp: uart_after_tx uart_after_rx split: bind_splits)

section \<open>Setting up\<close>

lemma uart_while_set_udev: "uart_while_set hw bits s = Some s' \<Longrightarrow> udev s' = udev s"
  by (rule uart_while_set.raw_induct [where P = "\<lambda>hw bits s s'. udev s' = udev s"])
     (auto simp: Let_def uart_rd_def split: if_splits)

lemma irq_register_app: "irq_register i h a s = Some (st, s') \<Longrightarrow> in_app s' = in_app s"
  by (auto simp: irq_register_def irq_lock_irq_def irq_unlock_irq_def spin_unlock_irq_def Let_def bind_eq_Some_conv
      split: if_splits prod.splits)

lemma irq_enable_app: "in_app (irq_enable i s) = in_app s"
  by (simp add: irq_enable_def mmio_write32_def)

lemma uart_init_dev:
  assumes "uart_init h 0 baud config hw s = Some (STATUS_OK, s0)"
  shows "udev s0 = (uart_fresh baud (udev s))\<lparr>ud_initialized := True\<rparr>"
  using assms irq_register_app uart_while_set_udev
  by (fastforce simp: uart_init_def CONFIG_UART_COUNT_def uart_set_baudrate_def Let_def irq_enable_app bind_eq_Some_conv
      split: if_splits)

lemma uart_init_at:
  assumes "uart_init h 0 baud config hw s = Some (STATUS_OK, s0)"
  shows "uart_at hw CONFIG_UART_BASE (dr_writes CONFIG_UART_BASE (uregs s0)) (dr_chars hw CONFIG_UART_BASE (uregs s0)) [] [] s0"
    "uart_open s0"
  using uart_init_dev [OF assms]
  by (simp_all add: uart_at_def uart_flow_def uart_fresh_def uart_sane_def tx_ring_def rx_ring_def sem_init_def SPINLOCK_INIT_def)

section \<open>Divisors\<close>

text \<open>\<open>n / d\<close> rounded to the nearest half below, as the code computes it from \<open>8 r / baud\<close>.\<close>

lemma round_quotient:
  fixes b r :: nat
  assumes "0 < b"
  shows "b * (2 * (((8 * r) div b + 1) div 2)) \<le> 8 * r + b" "8 * r < b * (2 * (((8 * r) div b + 1) div 2) + 1)"
proof -
  define q where "q = (8 * r) div b"
  have q: "b * q \<le> 8 * r" "8 * r < b * (q + 1)"
    unfolding q_def using assms by (simp_all add: dividend_less_times_div add.commute)
  have f: "2 * ((q + 1) div 2) \<le> q + 1" "q \<le> 2 * ((q + 1) div 2)" by simp_all
  have "b * (2 * ((q + 1) div 2)) \<le> b * (q + 1)" using f(1) by (rule mult_le_mono2)
  then show "b * (2 * (((8 * r) div b + 1) div 2)) \<le> 8 * r + b" unfolding q_def [symmetric] using q(1) by simp
  have "b * (q + 1) \<le> b * (2 * ((q + 1) div 2) + 1)" using f(2) by (intro mult_le_mono2) simp
  then show "8 * r < b * (2 * (((8 * r) div b + 1) div 2) + 1)" unfolding q_def [symmetric] using q(2) by linarith
qed

lemma uart_baud_ok:
  assumes "0 < baud" "baud < 2 ^ 28" "ud_clock (udev s) < 2 ^ 29"
  shows "\<exists>i f. uart_set_baudrate baud s = Some (uart_wr UART_FBRD f (uart_wr UART_IBRD i s)) \<and> f \<le> 64 \<and>
    2 * unat baud * (64 * unat i + unat f) \<le> 8 * unat (ud_clock (udev s)) + unat baud \<and>
    8 * unat (ud_clock (udev s)) < 2 * unat baud * (64 * unat i + unat f) + unat baud"
proof -
  let ?c = "ud_clock (udev s)"
  define B C where "B = unat baud" and "C = unat ?c"
  have B: "0 < B" "B < 2 ^ 28" and C: "C < 2 ^ 29"
    using assms by (simp_all add: B_def C_def word_less_nat_alt unat_gt_0)
  have b16: "unat (16 * baud) = 16 * B"
    using B by (simp add: unat_word_ariths B_def)
  then have nz: "16 * baud \<noteq> 0" using B by auto
  define i where "i = ?c div (16 * baud)"
  define r where "r = ?c mod (16 * baud)"
  define f where "f = ((8 * r) div baud + 1) div 2"
  have i: "unat i = C div (16 * B)" and r: "unat r = C mod (16 * B)"
    by (simp_all add: i_def r_def unat_div unat_mod b16 C_def)
  define R where "R = C mod (16 * B)"
  have R: "R \<le> C" "R < 16 * B" unfolding R_def using B by simp_all
  have r8: "unat (8 * r) = 8 * R"
    using R(1) C by (simp add: unat_word_ariths r R_def [symmetric])
  define Q where "Q = (8 * R) div B"
  have Q: "Q < 128" unfolding Q_def using R(2) B by (simp add: div_less_iff_less_mult)
  have "unat ((8 * r) div baud) = Q" by (simp add: unat_div r8 B_def Q_def)
  then have "unat ((8 * r) div baud + 1) = Q + 1" using Q by (simp add: unat_word_ariths)
  then have f: "unat f = (Q + 1) div 2" unfolding f_def by (simp add: unat_div)
  then have "unat f \<le> 64" using Q by simp
  then have f64: "f \<le> 64" by (simp add: word_le_nat_alt)
  have CD: "C = 16 * B * unat i + R" unfolding i R_def by simp
  have e1: "B * (2 * unat f) \<le> 8 * R + B" "8 * R < B * (2 * unat f + 1)"
    unfolding f Q_def by (rule round_quotient [OF B(1)])+
  have "2 * B * (64 * unat i + unat f) = 8 * (16 * B * unat i) + B * (2 * unat f)" by (simp add: algebra_simps)
  then have "2 * B * (64 * unat i + unat f) \<le> 8 * C + B" "8 * C < 2 * B * (64 * unat i + unat f) + B"
    using e1 unfolding CD by (simp_all add: algebra_simps)
  moreover have "uart_set_baudrate baud s = Some (uart_wr UART_FBRD f (uart_wr UART_IBRD i s))"
    using nz by (simp add: uart_set_baudrate_def i_def r_def f_def Let_def)
  ultimately show ?thesis using f64 unfolding B_def C_def by blast
qed

section \<open>Polled output\<close>

definition crlf :: "u8 list \<Rightarrow> u8 list" where
  "crlf cs = concat (map (\<lambda>c. if c = 10 then [13, 10] else [c]) cs)"

text \<open>The port takes bytes: its transmit register does not stay full for ever.\<close>

definition tx_drains :: "mmio_hw \<Rightarrow> addr \<Rightarrow> (mmio list \<Rightarrow> nat) \<Rightarrow> bool" where
  "tx_drains hw b pend \<longleftrightarrow> (\<forall>h. hw h (b + UART_FR) AND FR_TXFF \<noteq> 0 \<longrightarrow> pend (Rd (b + UART_FR) # h) < pend h)"

lemma uart_while_full:
  assumes "tx_drains hw (ud_base (udev s)) pend"
  shows "\<exists>s'. uart_while_set hw FR_TXFF s = Some s' \<and> udev s' = udev s \<and>
    dr_writes (ud_base (udev s)) (uregs s') = dr_writes (ud_base (udev s)) (uregs s)"
  using assms
proof (induction "pend (uregs s)" arbitrary: s rule: less_induct)
  case less
  obtain fr s1 where rd: "uart_rd hw UART_FR s = (fr, s1)" by (cases "uart_rd hw UART_FR s")
  note r = uart_rd_simps [of hw UART_FR s, unfolded rd, simplified]
  show ?case
  proof (cases "fr AND FR_TXFF \<noteq> 0")
    case True
    then have "pend (uregs s1) < pend (uregs s)" using less.prems r by (simp add: tx_drains_def)
    from less.hyps [OF this] less.prems r obtain s' where "uart_while_set hw FR_TXFF s1 = Some s'"
      "udev s' = udev s1" "dr_writes (ud_base (udev s)) (uregs s') = dr_writes (ud_base (udev s)) (uregs s1)" by auto
    then show ?thesis using True r by (subst uart_while_set.simps) (simp add: rd)
  next
    case False
    then show ?thesis using r by (subst uart_while_set.simps) (simp add: rd)
  qed
qed

lemma uart_putc_ok:
  assumes "tx_drains hw (ud_base (udev s)) pend"
  shows "\<exists>s'. uart_putc hw 0 c s = Some s' \<and> udev s' = udev s \<and>
    dr_writes (ud_base (udev s)) (uregs s') = dr_writes (ud_base (udev s)) (uregs s) @ [c]"
  using uart_while_full [OF assms] by (auto simp: uart_putc_def CONFIG_UART_COUNT_def ucast_u8)

lemma uart_puts_ok:
  assumes "tx_drains hw (ud_base (udev s)) pend"
  shows "\<exists>s'. uart_puts_loop hw 0 cs s = Some s' \<and> udev s' = udev s \<and>
    dr_writes (ud_base (udev s)) (uregs s') = dr_writes (ud_base (udev s)) (uregs s) @ crlf cs"
  using assms
proof (induction cs arbitrary: s)
  case Nil
  then show ?case by (simp add: crlf_def)
next
  case (Cons c cs)
  obtain s1 where s1: "(if c = 10 then uart_putc hw 0 13 s else Some s) = Some s1" "udev s1 = udev s"
    "dr_writes (ud_base (udev s)) (uregs s1) = dr_writes (ud_base (udev s)) (uregs s) @ (if c = 10 then [13] else [])"
    using uart_putc_ok [OF Cons.prems, of 13] by (cases "c = 10") auto
  obtain s2 where s2: "uart_putc hw 0 c s1 = Some s2" "udev s2 = udev s1"
    "dr_writes (ud_base (udev s)) (uregs s2) = dr_writes (ud_base (udev s)) (uregs s1) @ [c]"
    using uart_putc_ok [of hw s1 pend c] Cons.prems s1(2) by auto
  obtain s3 where "uart_puts_loop hw 0 cs s2 = Some s3" "udev s3 = udev s2"
    "dr_writes (ud_base (udev s)) (uregs s3) = dr_writes (ud_base (udev s)) (uregs s2) @ crlf cs"
    using Cons.IH [of s2] Cons.prems s1(2) s2(2) by auto
  then show ?case using s1 s2 by (simp add: crlf_def)
qed

section \<open>A reader that waits\<close>

text \<open>What the port answers when one character has come: the interrupt, the flags, the character, the flags.\<close>

definition one_char :: "mmio_hw \<Rightarrow> addr \<Rightarrow> mmio list \<Rightarrow> u8 \<Rightarrow> bool" where
  "one_char hw b h c \<longleftrightarrow>
     hw h (b + UART_MIS) = INT_RX \<and> hw (Rd (b + UART_MIS) # h) (b + UART_FR) AND FR_RXFE = 0 \<and>
     hw (Rd (b + UART_FR) # Rd (b + UART_MIS) # h) (b + UART_DR) = ucast c \<and>
     hw (Rd (b + UART_DR) # Rd (b + UART_FR) # Rd (b + UART_MIS) # h) (b + UART_FR) AND FR_RXFE \<noteq> 0"

lemma char_no_error: "ucast (c :: u8) AND (0xF00 :: u32) = 0"
proof -
  have m: "(0xFF :: u32) = mask 8" by (simp add: mask_eq_exp_minus_1)
  have "ucast c = (ucast c :: u32) AND 0xFF"
    unfolding m by (rule bit_word_eqI) (auto simp: bit_simps dest: bit_imp_le_length)
  then have "ucast c AND (0xF00 :: u32) = ((ucast c :: u32) AND 0xFF) AND 0xF00" by simp
  also have "\<dots> = 0" by (simp add: and.assoc)
  finally show ?thesis .
qed


lemma one_char_handled:
  assumes o: "one_char hw (ud_base (udev s)) (uregs s) c" and cb: "ud_rx_callback (udev s) = None"
    and e: "ud_rx_head (udev s) = ud_rx_tail (udev s)" "unat (ud_rx_head (udev s)) < 256"
    and p: "sem_post (ud_rx_sem (udev s)) (in_sched s) = Some (sem, sc)"
  shows "\<exists>s'. uart_irq_handler hw cb s = Some s' \<and> rx_ring (udev s') = [c] \<and> in_sched s' = sc \<and> ud_rx_sem (udev s') = sem"
proof -
  let ?b = "ud_base (udev s)" and ?d = "udev s"
  let ?s = "snd (uart_rd hw UART_MIS s)"
  have n: "ring_next (ud_rx_head ?d) \<noteq> ud_rx_tail ?d"
    using ring_used_full [OF e(2), of "ud_rx_tail ?d"] ring_used_zero [OF e(2), of "ud_rx_tail ?d"] e by auto
  define s2 where "s2 = (snd (uart_rd hw UART_DR (snd (uart_rd hw UART_FR ?s))))"
  have d2: "udev s2 = ?d" "in_sched s2 = in_sched s"
    "uregs s2 = Rd (?b + UART_DR) # Rd (?b + UART_FR) # Rd (?b + UART_MIS) # uregs s" by (simp_all add: s2_def)
  obtain s3 where s3: "uart_rx_word cb (ucast c) s2 = Some s3" "rx_ring (udev s3) = [c]" "in_sched s3 = sc"
    "ud_rx_sem (udev s3) = sem" "uregs s3 = uregs s2" "ud_base (udev s3) = ?b"
    using n e p cb ring_values_push [OF e(2) _ n, of "ud_rx_buffer ?d" c]
    by (simp add: uart_rx_word_def char_no_error d2 uart_post_rx_def Let_def rx_ring_def ucast_u8)
  have "uart_rx_loop hw cb s3 = Some (snd (uart_rd hw UART_FR s3))"
    using o s3(5,6) d2(3) by (subst uart_rx_loop.simps) (simp add: one_char_def case_prod_unfold Let_def)
  moreover have "uart_rx_loop hw cb ?s = uart_rx_loop hw cb s3"
    using o s3(1) by (subst uart_rx_loop.simps) (simp add: one_char_def case_prod_unfold Let_def s2_def)
  ultimately have rx: "\<exists>s'. uart_rx_loop hw cb ?s = Some s' \<and> rx_ring (udev s') = [c] \<and> in_sched s' = sc \<and> ud_rx_sem (udev s') = sem"
    using s3 by simp
  then show ?thesis using o
    by (auto simp: uart_irq_handler_def uart_irq_rx_def one_char_def INT_RX_def INT_RT_def INT_TX_def
        INT_OE_def INT_BE_def INT_PE_def INT_FE_def Let_def case_prod_unfold)
qed


section \<open>Properties\<close>

text \<open>A machine at rest, and a port on which the characters of a list come in.\<close>

definition uart_dev_ex :: uart_dev where
  "uart_dev_ex = (uart_fresh 115200 undefined)\<lparr>ud_rx_buffer := \<lambda>_. 0, ud_tx_buffer := \<lambda>_. 0, ud_initialized := True\<rparr>"

definition uart_ex :: "unit usys" where
  "uart_ex = \<lparr>in_table = (\<lambda>_. undefined), in_lock = SPINLOCK_INIT, in_nest = 0, in_gic = [], in_timer = (\<lambda>_. undefined),
     in_timer_list = None, in_timer_lock = SPINLOCK_INIT, in_cval = 0, in_ctl = 0, in_sched = sched_ex 100,
     in_app = \<lparr>ue_dev = uart_dev_ex, ue_addr = 5000, ue_rx_sem = 5100, ue_tx_sem = 5200, ue_regs = [], ue_app = ()\<rparr>\<rparr>"

definition typing_hw :: "u8 list \<Rightarrow> mmio_hw" where
  "typing_hw cs h a =
     (let n = length (filter (\<lambda>m. m = Rd (CONFIG_UART_BASE + UART_DR)) h) in
      if a = CONFIG_UART_BASE + UART_FR then (if n < length cs then 0 else FR_RXFE)
      else if a = CONFIG_UART_BASE + UART_DR then (if n < length cs then ucast (cs ! n) else 0)
      else if a = CONFIG_UART_BASE + UART_MIS then INT_RX
      else 0)"

lemma typing_hw_pending:
  "rx_pending (typing_hw cs) CONFIG_UART_BASE
     (\<lambda>h. length cs - length (filter (\<lambda>m. m = Rd (CONFIG_UART_BASE + UART_DR)) h))"
  by (auto simp: rx_pending_def typing_hw_def FR_RXFE_def Let_def split: if_splits)

lemma irq_register_succeeds:
  assumes "unat i < MAX_IRQS" "sl_lock (in_lock s) = 0"
  shows "\<exists>s'. irq_register i (Some h) arg s = Some (STATUS_OK, s')"
  using assms by (simp add: irq_register_def irq_lock_irq_def spin_lock_irq_def spin_lock_def Let_def case_prod_unfold)

lemma uart_ex_init: "\<exists>s0. uart_init 700 0 115200 None (typing_hw cs) uart_ex = Some (STATUS_OK, s0)"
proof -
  let ?s = "uart_wr UART_CR 0 (ud_upd (uart_fresh 115200) uart_ex)"
  have "\<exists>s1. uart_while_set (typing_hw cs) FR_BUSY ?s = Some s1 \<and> udev s1 = udev ?s \<and> in_lock s1 = in_lock ?s"
    by (subst uart_while_set.simps)
       (simp add: typing_hw_def Let_def FR_BUSY_def FR_RXFE_def case_prod_unfold uart_fresh_def, simp add: uart_rd_def Let_def)
  then obtain s1 where s1: "uart_while_set (typing_hw cs) FR_BUSY ?s = Some s1" "udev s1 = udev ?s" "sl_lock (in_lock s1) = 0"
    by (auto simp: uart_wr_def ud_upd_def uart_ex_def SPINLOCK_INIT_def)
  have l: "sl_lock (in_lock (uart_wr r v s)) = sl_lock (in_lock s)" for r v and s :: "unit usys"
    by (simp add: uart_wr_def)
  have d: "ud_irq (udev s1) = CONFIG_UART_IRQ" using s1(2) by (simp add: uart_fresh_def)
  have i: "unat CONFIG_UART_IRQ < MAX_IRQS" by (simp add: CONFIG_UART_IRQ_def MAX_IRQS_def)
  have "\<exists>st s'. irq_register CONFIG_UART_IRQ (Some k) arg s = Some (st, s')" if "sl_lock (in_lock s) = 0"
    for k arg and s :: "unit usys" using irq_register_succeeds [OF i that] by blast
  then show ?thesis
    using s1(1,3) by (simp add: uart_init_def CONFIG_UART_COUNT_def uart_set_baudrate_def Let_def d l case_prod_unfold bind_eq_Some_conv)
qed

text \<open>C11: The driver carries two streams. On a port set up by \<open>uart_init\<close>, every sequence of interrupts, of
  bytes given to \<open>uart_write\<close>, of bytes fetched by \<open>uart_read\<close> and of steps of the rest of the system
  comes to its end. What was then written to the data register, followed by the transmit ring, is what was accepted
  for sending, in order. What readers were given, followed by the receive ring, is a subsequence of the characters
  read from the data register, and all of them as long as no more than 255 came in.\<close>

theorem uart_streams:
  assumes "uart_init h 0 baud config hw s = Some (STATUS_OK, s0)"
    and "rx_pending hw CONFIG_UART_BASE pend" and "rx_callback_ok cb" and "\<forall>f. U_env f \<in> set ops \<longrightarrow> uart_rely f"
  shows "\<exists>acc taken s' rcv. uart_run hw cb ops ([], [], s0) = Some (acc, taken, s') \<and>
    dr_writes CONFIG_UART_BASE (uregs s') @ tx_ring (udev s') = dr_writes CONFIG_UART_BASE (uregs s0) @ acc \<and>
    dr_chars hw CONFIG_UART_BASE (uregs s') = dr_chars hw CONFIG_UART_BASE (uregs s0) @ rcv \<and>
    subseq (taken @ rx_ring (udev s')) rcv \<and> (length rcv \<le> 255 \<longrightarrow> taken @ rx_ring (udev s') = rcv)"
proof -
  obtain acc taken s' where "uart_run hw cb ops ([], [], s0) = Some (acc, taken, s')"
    "uart_at hw CONFIG_UART_BASE (dr_writes CONFIG_UART_BASE (uregs s0)) (dr_chars hw CONFIG_UART_BASE (uregs s0)) acc taken s'"
    using uart_run_ok [OF assms(3,2) uart_init_at [OF assms(1)] assms(4)] by blast
  then show ?thesis unfolding uart_at_def uart_flow_def by blast
qed

theorem uart_streams_witness:
  "\<exists>s0 acc taken s'. uart_init 700 0 115200 None (typing_hw [72, 105]) uart_ex = Some (STATUS_OK, s0) \<and>
     uart_run (typing_hw [72, 105]) (\<lambda>f a c s. Some s) [U_irq, U_take, U_put 65, U_irq] ([], [], s0) = Some (acc, taken, s') \<and>
     dr_writes CONFIG_UART_BASE (uregs s') @ tx_ring (udev s') = dr_writes CONFIG_UART_BASE (uregs s0) @ acc"
proof -
  obtain s0 where s0: "uart_init 700 0 115200 None (typing_hw [72, 105]) uart_ex = Some (STATUS_OK, s0)"
    using uart_ex_init by blast
  have "rx_callback_ok (\<lambda>f a c s. Some (s :: unit usys))" by (simp add: rx_callback_ok_def)
  from uart_streams [OF s0 typing_hw_pending this, of "[U_irq, U_take, U_put 65, U_irq]"] show ?thesis using s0 by auto
qed

text \<open>The divisors written by \<open>uart_set_baudrate\<close> are right: 64 times the integer part plus the
  fraction is \<open>4 * clock / baud\<close> rounded to the nearest integer, and the fraction is at most 64.\<close>

theorem uart_baud_nearest:
  assumes "0 < baud" and "baud < 2 ^ 28" and "ud_clock (udev s) < 2 ^ 29"
  shows "\<exists>i f. uart_set_baudrate baud s = Some (uart_wr UART_FBRD f (uart_wr UART_IBRD i s)) \<and> f \<le> 64 \<and>
    2 * unat baud * (64 * unat i + unat f) \<le> 8 * unat (ud_clock (udev s)) + unat baud \<and>
    8 * unat (ud_clock (udev s)) < 2 * unat baud * (64 * unat i + unat f) + unat baud"
  using uart_baud_ok [OF assms] .

theorem uart_baud_nearest_witness:
  "\<exists>i f. uart_set_baudrate 115200 uart_ex = Some (uart_wr UART_FBRD f (uart_wr UART_IBRD i uart_ex)) \<and> f \<le> 64"
  using uart_baud_nearest [of 115200 uart_ex] by (auto simp: uart_ex_def uart_dev_ex_def uart_fresh_def CONFIG_UART_CLOCK_def)

text \<open>A rate at which the fraction is 64, which its register of six bits cannot hold.\<close>

lemma uart_baud_overflows: "uart_set_baudrate 750001 uart_ex = Some (uart_wr UART_FBRD 64 (uart_wr UART_IBRD 1 uart_ex))"
  by (simp add: uart_set_baudrate_def uart_ex_def uart_dev_ex_def uart_fresh_def CONFIG_UART_CLOCK_def Let_def)

text \<open>A polled string is written byte by byte, with a carriage return before every line feed.\<close>

theorem uart_puts_crlf:
  assumes "tx_drains hw (ud_base (udev s)) pend"
  shows "\<exists>s'. uart_puts hw 0 (Some cs) s = Some s' \<and> udev s' = udev s \<and>
    dr_writes (ud_base (udev s)) (uregs s') = dr_writes (ud_base (udev s)) (uregs s) @ crlf cs"
  using uart_puts_ok [OF assms] by (simp add: uart_puts_def CONFIG_UART_COUNT_def)

theorem uart_puts_crlf_witness:
  "\<exists>s'. uart_puts (typing_hw []) 0 (Some [72, 10]) uart_ex = Some s' \<and>
     dr_writes CONFIG_UART_BASE (uregs s') = [72, 13, 10]"
proof -
  have b: "ud_base (udev uart_ex) = CONFIG_UART_BASE" by (simp add: uart_ex_def uart_dev_ex_def uart_fresh_def)
  have "tx_drains (typing_hw []) (ud_base (udev uart_ex)) (\<lambda>_. 0)"
    by (simp add: tx_drains_def b typing_hw_def FR_TXFF_def FR_RXFE_def)
  from uart_puts_crlf [OF this, of "[72, 10]"] show ?thesis unfolding b by (auto simp: crlf_def uart_ex_def)
qed

text \<open>C30: A reader that has to wait reads nothing, ever. It blocks; the interrupt of the next
  character puts that character into the ring and makes the reader ready, but no ready list holds it, and no timer
  tick puts it on one.\<close>

theorem uart_reader_lost:
  assumes "run_inv (in_sched s) rl c" and "c \<noteq> sc_idle (in_sched s)" and "ud_initialized (udev s)" and "0 < len"
    and "sem_wait_list (ud_rx_sem (udev s)) = None" and "sem_count (ud_rx_sem (udev s)) = 0"
    and "sl_lock (sem_lock (ud_rx_sem (udev s))) = 0" and "ud_rx_callback (udev s) = None"
    and "ud_rx_head (udev s) = ud_rx_tail (udev s)" and "unat (ud_rx_head (udev s)) < 256"
    and "one_char hw (ud_base (udev s)) (uregs s) v"
  shows "\<exists>s1 s2 rl'. uart_read 0 False len s = Some (UWait (Some []) (Sw s1)) \<and>
    uart_irq_handler hw cb (s1\<lparr>in_sched := sched_unlock_irq (in_sched s1)\<rparr>) = Some s2 \<and>
    rx_ring (udev s2) = [v] \<and> t_state (sc_tcb (in_sched s2) c) = TASK_STATE_READY \<and>
    ready_inv (in_sched s2) rl' \<and> (\<forall>p. c \<notin> set (rl' p)) \<and>
    (\<forall>t. tick_wake c ((in_sched s2)\<lparr>sc_ticks := t\<rparr>) = Some ((in_sched s2)\<lparr>sc_ticks := t\<rparr>))"
proof -
  let ?sem = "ud_rx_sem (udev s)"
  obtain n rl' where th: "take_highest rl (sc_idle (in_sched s)) = (n, rl')" by (rule prod.exhaust)
  have inv: "ready_inv (in_sched s) rl" "\<forall>p. c \<notin> set (rl p)" using assms(1) by (auto simp: run_inv_def)
  have w: "wl (in_sched s) (sem_wait_list ?sem) []" "sint (sem_count ?sem) \<le> 0" using assms(5,6) by simp_all
  obtain sem1 t1 where b: "sem_wait (ue_rx_sem (in_app s)) ?sem (in_sched s) = Some (WBlock sem1 (Sw t1))"
    "sl_lock (sem_lock sem1) = 0" "ready_inv t1 rl'" "wl t1 (sem_wait_list sem1) [c]" "\<forall>q. c \<notin> set (rl' q)"
    using sem_wait_blocks_aux [OF assms(1,2) w(1) _ _ th w(2) assms(7), of "ue_rx_sem (in_app s)"] by force
  define s1 where "s1 = (ud_upd (ud_rx_sem_update (\<lambda>_. sem1)) s)\<lparr>in_sched := t1\<rparr>"
  have "uart_read_loop len [] s = Some (UWait [] (Sw s1))"
    using assms(4) b(1) by (subst uart_read_loop.simps) (simp add: uart_wait_rx_def uart_waited_def Let_def s1_def)
  then have rd: "uart_read 0 False len s = Some (UWait (Some []) (Sw s1))"
    using assms(3) by (simp add: uart_read_def CONFIG_UART_COUNT_def uart_done_def)
  obtain sem2 t2 where p: "sem_post sem1 (sched_unlock_irq t1) = Some (sem2, t2)" "ready_inv t2 rl'"
    "t_state (sc_tcb t2 c) = TASK_STATE_READY"
    using sem_post_aux [of "sched_unlock_irq t1" rl' sem1 c "[]"] b(2-5) by auto
  have "\<exists>s2. uart_irq_handler hw cb (s1\<lparr>in_sched := sched_unlock_irq t1\<rparr>) = Some s2 \<and> rx_ring (udev s2) = [v] \<and>
      in_sched s2 = t2"
    using one_char_handled [of hw "s1\<lparr>in_sched := sched_unlock_irq t1\<rparr>" v sem2 t2 cb] assms(8-11) p(1) by (auto simp: s1_def)
  then obtain s2 where "uart_irq_handler hw cb (s1\<lparr>in_sched := sched_unlock_irq t1\<rparr>) = Some s2" "rx_ring (udev s2) = [v]"
    "in_sched s2 = t2" by blast
  then show ?thesis using rd p(2,3) b(5) by (intro exI [of _ s1] exI [of _ s2] exI [of _ rl']) (simp add: s1_def tick_wake_def)
qed

theorem uart_reader_lost_witness:
  "\<exists>s1 s2. uart_read 0 False 1 uart_ex = Some (UWait (Some []) (Sw s1)) \<and>
     uart_irq_handler (typing_hw [65]) (\<lambda>f a c s. None) (s1\<lparr>in_sched := sched_unlock_irq (in_sched s1)\<rparr>) = Some s2 \<and>
     rx_ring (udev s2) = [65] \<and> t_state (sc_tcb (in_sched s2) 100) = TASK_STATE_READY"
proof -
  have r: "run_inv (in_sched uart_ex) rl_ex 100" "100 \<noteq> sc_idle (in_sched uart_ex)"
    using sched_ex_inv [of 100] by (simp_all add: uart_ex_def sched_ex_def)
  have o: "one_char (typing_hw [65]) (ud_base (udev uart_ex)) (uregs uart_ex) 65"
    by (simp add: one_char_def typing_hw_def uart_ex_def uart_dev_ex_def uart_fresh_def Let_def FR_RXFE_def UART_MIS_def
        UART_FR_def UART_DR_def)
  show ?thesis
    using uart_reader_lost [OF r _ _ _ _ _ _ _ _ o, of 1 "\<lambda>f a c s. None"]
    by (auto simp: uart_ex_def uart_dev_ex_def uart_fresh_def sem_init_def SPINLOCK_INIT_def)
qed

end
