(* ===== verification/Clock.thy ===== *)
theory Clock
  imports Irq
begin

text \<open>
  The timer driver \<open>drivers/timer/timer.c\<close>: the counter as a clock, busy delays, and software timers
  on a list. The names of its functions are those of \<open>kernel/interrupt.c\<close> again, so that a kernel has one of the two;
  here they start with \<open>sw\<close>.

  The state is that of the interrupts, whose compare and control registers of the timer the driver writes, with the driver's
  own variables \<open>timer_state\<close> and the timers at their addresses. What the counter shows is an argument. A
  callback is the address of a function; \<open>code\<close> says what it does.
\<close>

section \<open>State\<close>

record sw_timer =
  sw_next :: ptr
  sw_callback :: ptr
  sw_arg :: ptr
  sw_expire :: u32
  sw_period :: u32
  sw_periodic :: bool
  sw_active :: bool

record 'w clock =
  ck_freq :: u64
  ck_per_tick :: u64
  ck_ticks :: u32
  ck_list :: ptr
  ck_lock :: spinlock
  ck_epoch :: u64
  ck_initialized :: bool
  ck_timer :: "addr \<Rightarrow> sw_timer"
  ck_app :: 'w

type_synonym 'w csys = "'w clock intr"
type_synonym 'w sw_code = "addr \<Rightarrow> ptr \<Rightarrow> 'w csys \<Rightarrow> 'w csys ctl option"

abbreviation clk :: "'w csys \<Rightarrow> 'w clock" where "clk s \<equiv> in_app s"

definition ck_upd :: "('w clock \<Rightarrow> 'w clock) \<Rightarrow> 'w csys \<Rightarrow> 'w csys" where
  "ck_upd f s = s\<lparr>in_app := f (in_app s)\<rparr>"

definition sw_upd :: "addr \<Rightarrow> (sw_timer \<Rightarrow> sw_timer) \<Rightarrow> 'w csys \<Rightarrow> 'w csys" where
  "sw_upd t f s = ck_upd (\<lambda>c. c\<lparr>ck_timer := (ck_timer c)(t := f (ck_timer c t))\<rparr>) s"

abbreviation sw_at :: "'w csys \<Rightarrow> addr \<Rightarrow> sw_timer" where "sw_at s t \<equiv> ck_timer (clk s) t"

text \<open>\<open>*pp\<close> and \<open>*pp = p\<close> for a pointer to the head of the list or to the link of a timer.\<close>

definition sw_get :: "link \<Rightarrow> 'w csys \<Rightarrow> ptr" where
  "sw_get pp s = (case pp of Head \<Rightarrow> ck_list (clk s) | Next t \<Rightarrow> sw_next (sw_at s t))"

definition sw_set :: "link \<Rightarrow> ptr \<Rightarrow> 'w csys \<Rightarrow> 'w csys" where
  "sw_set pp p s =
     (case pp of Head \<Rightarrow> ck_upd (ck_list_update (\<lambda>_. p)) s | Next t \<Rightarrow> sw_upd t (sw_next_update (\<lambda>_. p)) s)"

definition sw_lock :: "'w csys \<Rightarrow> 'w csys option" where
  "sw_lock s = do { l \<leftarrow> spin_lock (ck_lock (clk s)); Some (ck_upd (ck_lock_update (\<lambda>_. l)) s) }"

definition sw_unlock :: "'w csys \<Rightarrow> 'w csys" where
  "sw_unlock s = ck_upd (ck_lock_update spin_unlock) s"

section \<open>The tick\<close>

partial_function (option) sw_process_loop :: "'w sw_code \<Rightarrow> u32 \<Rightarrow> link \<Rightarrow> 'w csys \<Rightarrow> 'w csys ctl option" where
  "sw_process_loop code now pp s =
     (case sw_get pp s of
        None \<Rightarrow> Some (Ret s)
      | Some t \<Rightarrow>
          let k = sw_at s t in
          if sw_active k \<and> sw_expire k \<le> now then
            let repeats = sw_periodic k \<and> 0 < sw_period k;
                s = (if repeats then sw_upd t (sw_expire_update (\<lambda>_. now + sw_period k)) s
                     else sw_set pp (sw_next k) (sw_upd t (sw_active_update (\<lambda>_. False)) s));
                pp = (if repeats then Next t else pp)
            in do {
              r \<leftarrow> (case sw_callback k of None \<Rightarrow> Some (Ret (sw_unlock s)) | Some f \<Rightarrow> code f (sw_arg k) (sw_unlock s));
              case r of
                Sw s \<Rightarrow> Some (Sw s)
              | Ret s \<Rightarrow> do { s \<leftarrow> sw_lock s; sw_process_loop code now pp s }
            }
          else sw_process_loop code now (Next t) s)"

definition process_sw_timers :: "'w sw_code \<Rightarrow> 'w csys \<Rightarrow> 'w csys ctl option" where
  "process_sw_timers code s =
     (let now = ck_ticks (clk s) in do {
        s \<leftarrow> sw_lock s;
        r \<leftarrow> sw_process_loop code now Head s;
        Some (case r of Sw s \<Rightarrow> Sw s | Ret s \<Rightarrow> Ret (sw_unlock s))
      })"

definition sw_tick_handler :: "'w sw_code \<Rightarrow> 'w csys \<Rightarrow> 'w csys ctl option" where
  "sw_tick_handler code s = process_sw_timers code (ck_upd (ck_ticks_update (\<lambda>n. n + 1)) s)"

definition sw_irq_handler :: "'w sw_code \<Rightarrow> 'w csys \<Rightarrow> 'w csys ctl option" where
  "sw_irq_handler code s = do {
     let s = s\<lparr>in_cval := in_cval s + ck_per_tick (clk s)\<rparr>;
     r \<leftarrow> scheduler_tick (in_sched s);
     case r of
       Sw sc \<Rightarrow> Some (Sw (s\<lparr>in_sched := sc\<rparr>))
     | Ret sc \<Rightarrow> sw_tick_handler code (s\<lparr>in_sched := sc\<rparr>)
   }"

section \<open>Setting up\<close>

text \<open>
  \<open>freq\<close> and \<open>cnt\<close> are what the frequency register and the counter show, and \<open>h\<close> is the address of the handler. The
  ratio of ticks is that of \<open>CONFIG_TICK_RATE_HZ\<close>.
\<close>

definition timer_driver_init :: "addr \<Rightarrow> u64 \<Rightarrow> u64 \<Rightarrow> 'w csys \<Rightarrow> (status \<times> 'w csys) option" where
  "timer_driver_init h freq cnt s =
     (if ck_initialized (clk s) then Some (STATUS_OK, s)
      else do {
        let s = ck_upd (ck_freq_update (\<lambda>_. if freq = 0 then CONFIG_CPU_FREQ_HZ else freq)) s;
        let s = ck_upd (\<lambda>c. c\<lparr>ck_per_tick := ck_freq c div of_int CONFIG_TICK_RATE_HZ\<rparr>) s;
        let s = ck_upd (\<lambda>c. c\<lparr>ck_ticks := 0, ck_list := None, ck_lock := SPINLOCK_INIT, ck_epoch := 0\<rparr>) s;
        let s = s\<lparr>in_ctl := 0\<rparr>;
        let s = s\<lparr>in_cval := cnt + ck_per_tick (clk s)\<rparr>;
        (st, s) \<leftarrow> irq_register CONFIG_TIMER_IRQ (Some h) None s;
        let s = irq_enable CONFIG_TIMER_IRQ s;
        let s = s\<lparr>in_ctl := 1\<rparr>;
        Some (STATUS_OK, ck_upd (ck_initialized_update (\<lambda>_. True)) s)
      })"

definition clk_get_system_ticks :: "'w csys \<Rightarrow> u32" where
  "clk_get_system_ticks s = ck_ticks (clk s)"

definition timer_get_frequency :: "'w csys \<Rightarrow> u64" where
  "timer_get_frequency s = ck_freq (clk s)"

definition timer_calibrate :: "u64 \<Rightarrow> 'w csys \<Rightarrow> 'w csys" where
  "timer_calibrate freq s =
     (if 0 < freq \<and> freq \<noteq> ck_freq (clk s)
      then ck_upd (\<lambda>c. c\<lparr>ck_freq := freq, ck_per_tick := freq div of_int CONFIG_TICK_RATE_HZ\<rparr>) s else s)"

section \<open>Time stamps and delays\<close>

text \<open>A division by zero has no result.\<close>

definition timer_get_ns :: "u64 \<Rightarrow> 'w csys \<Rightarrow> u64 option" where
  "timer_get_ns cnt s =
     (let freq = ck_freq (clk s) in
      if freq > 1000000000 then Some (cnt div (freq div 1000000000))
      else if freq = 0 then None else Some ((cnt * 1000000000) div freq))"

definition timer_get_us :: "u64 \<Rightarrow> 'w csys \<Rightarrow> u64 option" where
  "timer_get_us cnt s =
     (let freq = ck_freq (clk s) in if freq = 0 then None else Some ((cnt * 1000000) div freq))"

definition timer_get_ms :: "u64 \<Rightarrow> 'w csys \<Rightarrow> u64 option" where
  "timer_get_ms cnt s =
     (let freq = ck_freq (clk s) in if freq = 0 then None else Some ((cnt * 1000) div freq))"

text \<open>
  \<open>cnt i\<close> is what the reading number \<open>i\<close> of the counter shows; the number of readings made is what is left
  of a delay.
\<close>

definition delay_target :: "u64 \<Rightarrow> u32 \<Rightarrow> 'w csys \<Rightarrow> u64" where
  "delay_target start us s = start + (ucast us * ck_freq (clk s)) div 1000000"

partial_function (option) timer_wait_loop :: "(nat \<Rightarrow> u64) \<Rightarrow> u64 \<Rightarrow> nat \<Rightarrow> nat option" where
  "timer_wait_loop cnt target i = (if cnt i < target then timer_wait_loop cnt target (i + 1) else Some (i + 1))"

definition timer_delay_us :: "(nat \<Rightarrow> u64) \<Rightarrow> u32 \<Rightarrow> 'w csys \<Rightarrow> nat option" where
  "timer_delay_us cnt us s = timer_wait_loop cnt (delay_target (cnt 0) us s) 1"

definition timer_delay_ms :: "(nat \<Rightarrow> u64) \<Rightarrow> u32 \<Rightarrow> 'w csys \<Rightarrow> nat option" where
  "timer_delay_ms cnt ms s = timer_delay_us cnt (ms * 1000) s"

section \<open>Software timers\<close>

definition sw_init :: "ptr \<Rightarrow> ptr \<Rightarrow> ptr \<Rightarrow> 'w csys \<Rightarrow> 'w csys" where
  "sw_init timer callback arg s =
     (case timer of
        None \<Rightarrow> s
      | Some t \<Rightarrow> sw_upd t (\<lambda>k. k\<lparr>sw_callback := callback, sw_arg := arg, sw_expire := 0, sw_period := 0,
                     sw_periodic := False, sw_active := False, sw_next := None\<rparr>) s)"

text \<open>The walk that takes a timer off the list, and the one that looks for its place.\<close>

partial_function (option) sw_unlink :: "addr \<Rightarrow> link \<Rightarrow> 'w csys \<Rightarrow> 'w csys option" where
  "sw_unlink t pp s =
     (case sw_get pp s of
        None \<Rightarrow> Some s
      | Some a \<Rightarrow> if a = t then Some (sw_set pp (sw_next (sw_at s t)) s) else sw_unlink t (Next a) s)"

partial_function (option) sw_place :: "addr \<Rightarrow> link \<Rightarrow> 'w csys \<Rightarrow> link option" where
  "sw_place t pp s =
     (case sw_get pp s of
        None \<Rightarrow> Some pp
      | Some a \<Rightarrow> if sw_expire (sw_at s a) \<le> sw_expire (sw_at s t) then sw_place t (Next a) s else Some pp)"

definition sw_start :: "ptr \<Rightarrow> u32 \<Rightarrow> bool \<Rightarrow> 'w csys \<Rightarrow> (status \<times> 'w csys) option" where
  "sw_start timer delay periodic s =
     (case timer of
        None \<Rightarrow> Some (STATUS_INVALID, s)
      | Some t \<Rightarrow>
          if delay = 0 then Some (STATUS_INVALID, s)
          else do {
            s \<leftarrow> sw_lock s;
            s \<leftarrow> (if sw_active (sw_at s t) then sw_unlink t Head s else Some s);
            let s = sw_upd t (\<lambda>k. k\<lparr>sw_expire := ck_ticks (clk s) + delay, sw_period := if periodic then delay else 0,
                      sw_periodic := periodic, sw_active := True\<rparr>) s;
            pp \<leftarrow> sw_place t Head s;
            let s = sw_upd t (sw_next_update (\<lambda>_. sw_get pp s)) s;
            let s = sw_set pp (Some t) s;
            Some (STATUS_OK, sw_unlock s)
          })"

definition sw_stop :: "ptr \<Rightarrow> 'w csys \<Rightarrow> 'w csys option" where
  "sw_stop timer s =
     (case timer of
        None \<Rightarrow> Some s
      | Some t \<Rightarrow> do {
          s \<leftarrow> sw_lock s;
          s \<leftarrow> (if sw_active (sw_at s t) then sw_unlink t Head (sw_upd t (sw_active_update (\<lambda>_. False)) s) else Some s);
          Some (sw_unlock s)
        })"

definition sw_is_active :: "ptr \<Rightarrow> 'w csys \<Rightarrow> bool" where
  "sw_is_active timer s = (case timer of None \<Rightarrow> False | Some t \<Rightarrow> sw_active (sw_at s t))"

definition sw_remaining :: "ptr \<Rightarrow> 'w csys \<Rightarrow> u32" where
  "sw_remaining timer s =
     (case timer of
        None \<Rightarrow> 0
      | Some t \<Rightarrow>
          let now = ck_ticks (clk s) in
          if \<not> sw_active (sw_at s t) then 0
          else if sw_expire (sw_at s t) \<le> now then 0 else sw_expire (sw_at s t) - now)"

end
