(* ===== verification/Clock_Props.thy ===== *)
theory Clock_Props
  imports Clock
begin

text \<open>
  The timer driver: the list of timers as a list of addresses, every operation on it; the driver as a map from timers to
  deadlines, which starting, stopping and the ticks update; time stamps and delays.
\<close>

section \<open>The list\<close>

lemma ck_simps [simp]:
  "clk (ck_upd f s) = f (clk s)" "in_sched (ck_upd f s) = in_sched s"
  "clk (sw_upd t g s) = (clk s)\<lparr>ck_timer := (ck_timer (clk s))(t := g (sw_at s t))\<rparr>" "in_sched (sw_upd t g s) = in_sched s"
  "clk (sw_unlock s) = (clk s)\<lparr>ck_lock := spin_unlock (ck_lock (clk s))\<rparr>" "in_sched (sw_unlock s) = in_sched s"
  by (simp_all add: ck_upd_def sw_upd_def sw_unlock_def)

abbreviation sw_nx :: "'w csys \<Rightarrow> addr \<Rightarrow> ptr" where "sw_nx s \<equiv> \<lambda>a. sw_next (sw_at s a)"

definition sw_list :: "'w csys \<Rightarrow> addr list \<Rightarrow> bool" where
  "sw_list s xs \<longleftrightarrow> sseg (sw_nx s) (ck_list (clk s)) xs \<and> distinct xs"

text \<open>The link behind the timers \<open>ys\<close>.\<close>

definition link_at :: "addr list \<Rightarrow> link" where
  "link_at ys = (if ys = [] then Head else Next (last ys))"

lemma link_at_simps [simp]: "link_at [] = Head" "link_at (ys @ [t]) = Next t"
  by (simp_all add: link_at_def)

text \<open>A timer without its link.\<close>

definition sw_core :: "sw_timer \<Rightarrow> sw_timer" where "sw_core k = k\<lparr>sw_next := None\<rparr>"

lemma sw_core_next [simp]: "sw_core (k\<lparr>sw_next := p\<rparr>) = sw_core k"
  by (simp add: sw_core_def)

lemma sw_coreD:
  assumes "sw_core k = sw_core k'"
  shows "sw_callback k = sw_callback k'" "sw_arg k = sw_arg k'" "sw_expire k = sw_expire k'" "sw_period k = sw_period k'"
    "sw_periodic k = sw_periodic k'" "sw_active k = sw_active k'"
  using assms by (cases k; cases k'; simp add: sw_core_def)+

lemma sseg_append:
  assumes "distinct ys"
  shows "sseg nx p (ys @ zs) \<longleftrightarrow>
    (if ys = [] then sseg nx p zs else sseg (nx(last ys := None)) p ys \<and> sseg nx (nx (last ys)) zs)"
  using assms
proof (induction ys arbitrary: p)
  case (Cons a ys)
  then show ?case by (cases "ys = []") (auto simp: sseg_Some)
qed simp

lemma sw_list_at:
  "sw_list s (ys @ zs) \<longleftrightarrow> distinct (ys @ zs) \<and> sseg (sw_nx s) (sw_get (link_at ys) s) zs \<and>
     (ys \<noteq> [] \<longrightarrow> sseg ((sw_nx s)(last ys := None)) (ck_list (clk s)) ys)"
  by (cases "distinct ys") (auto simp: sw_list_def sseg_append sw_get_def link_at_def simp del: append_Nil2)

lemma sw_get_at:
  assumes "sw_list s (ys @ zs)"
  shows "sw_get (link_at ys) s = (case zs of [] \<Rightarrow> None | t # _ \<Rightarrow> Some t)"
  using assms unfolding sw_list_at by (cases zs) simp_all

text \<open>Writing the link behind \<open>ys\<close> replaces what follows.\<close>

lemma sw_set_at:
  assumes "sw_list s (ys @ zs)" and "sseg (sw_nx s) p ws" and "distinct ws" "set ws \<inter> set ys = {}"
  shows "sw_list (sw_set (link_at ys) p s) (ys @ ws)"
proof (cases "ys = []")
  case True
  then show ?thesis using assms(2,3) by (simp add: sw_list_def sw_set_def)
next
  case False
  then have l: "last ys \<notin> set ws" using assms(4) by (auto dest: last_in_set)
  have n: "sw_nx (sw_set (link_at ys) p s) = (sw_nx s)(last ys := p)" and h: "ck_list (clk (sw_set (link_at ys) p s)) = ck_list (clk s)"
    using False by (auto simp: sw_set_def link_at_def)
  have g: "sw_get (link_at ys) (sw_set (link_at ys) p s) = p" using False by (simp add: sw_get_def sw_set_def link_at_def)
  have "distinct ys" "sseg ((sw_nx s)(last ys := None)) (ck_list (clk s)) ys"
    using assms(1) False unfolding sw_list_at by simp_all
  then show ?thesis
    using False l assms(2-4) unfolding sw_list_at n h g by auto
qed

lemma sw_set_core [simp]: "sw_core (sw_at (sw_set pp p s) t) = sw_core (sw_at s t)"
  by (auto simp: sw_set_def split: link.splits)

lemma sw_set_frame [simp]:
  "ck_ticks (clk (sw_set pp p s)) = ck_ticks (clk s)" "ck_lock (clk (sw_set pp p s)) = ck_lock (clk s)"
  "ck_app (clk (sw_set pp p s)) = ck_app (clk s)" "in_sched (sw_set pp p s) = in_sched s"
  by (simp_all add: sw_set_def split: link.splits)

lemma sw_list_cong:
  assumes "ck_list (clk s') = ck_list (clk s)" "\<And>t. t \<in> set xs \<Longrightarrow> sw_next (sw_at s' t) = sw_next (sw_at s t)"
  shows "sw_list s' xs = sw_list s xs"
  unfolding sw_list_def assms(1) using sseg_cong [of xs "sw_nx s'" "sw_nx s"] assms(2) by simp

text \<open>Taking a timer off the list, and putting one on.\<close>

lemma sw_remove_at:
  assumes "sw_list s (ys @ t # zs)"
  shows "sw_list (sw_set (link_at ys) (sw_next (sw_at s t)) s) (ys @ zs)"
  using assms unfolding sw_list_at [of _ _ "t # zs"] by (intro sw_set_at [OF assms]) auto

lemma sw_insert_at:
  assumes "sw_list s (ys @ zs)" "t \<notin> set (ys @ zs)"
  shows "sw_list (sw_set (link_at ys) (Some t) (sw_upd t (sw_next_update (\<lambda>_. sw_get (link_at ys) s)) s)) (ys @ t # zs)"
proof -
  let ?s = "sw_upd t (sw_next_update (\<lambda>_. sw_get (link_at ys) s)) s"
  have n: "sw_nx ?s = (sw_nx s)(t := sw_get (link_at ys) s)" by auto
  have "sw_list ?s (ys @ zs)" using assms by (subst sw_list_cong [of _ s]) auto
  moreover have "sseg (sw_nx ?s) (Some t) (t # zs)"
    using assms unfolding n sw_list_at by simp
  ultimately show ?thesis
    using assms by (intro sw_set_at) (auto simp: sw_list_def)
qed

section \<open>A tick\<close>

text \<open>Callbacks that return and keep to their own data: \<open>g\<close> is what each does to it.\<close>

definition sw_quiet :: "'w sw_code \<Rightarrow> (addr \<Rightarrow> ptr \<Rightarrow> 'w \<Rightarrow> 'w) \<Rightarrow> bool" where
  "sw_quiet code g \<longleftrightarrow> (\<forall>f arg s. code f arg s = Some (Ret (ck_upd (ck_app_update (g f arg)) s)))"

definition sw_due :: "u32 \<Rightarrow> sw_timer \<Rightarrow> bool" where "sw_due now k \<longleftrightarrow> sw_active k \<and> sw_expire k \<le> now"
definition sw_repeats :: "sw_timer \<Rightarrow> bool" where "sw_repeats k \<longleftrightarrow> sw_periodic k \<and> 0 < sw_period k"

definition sw_ticked :: "u32 \<Rightarrow> sw_timer \<Rightarrow> sw_timer" where
  "sw_ticked now k =
     (if sw_due now k
      then if sw_repeats k then k\<lparr>sw_expire := now + sw_period k\<rparr> else k\<lparr>sw_active := False\<rparr>
      else k)"

definition sw_call :: "(addr \<Rightarrow> ptr \<Rightarrow> 'w \<Rightarrow> 'w) \<Rightarrow> sw_timer \<Rightarrow> 'w \<Rightarrow> 'w" where
  "sw_call g k = (case sw_callback k of None \<Rightarrow> id | Some f \<Rightarrow> g f (sw_arg k))"

lemma sw_core_facts:
  assumes "sw_core k = sw_core k'"
  shows "sw_due now k = sw_due now k'" "sw_repeats k = sw_repeats k'" "sw_call g k = sw_call g k'"
    "sw_core (sw_ticked now k) = sw_core (sw_ticked now k')"
  using sw_coreD [OF assms] assms
  by (simp_all add: sw_due_def sw_repeats_def sw_call_def sw_ticked_def sw_core_def split: option.split)

lemma ck_app_id [simp]: "ck_upd (ck_app_update id) s = s"
  by (simp add: ck_upd_def)

text \<open>What one timer that is due makes of the state, and the cursor behind it.\<close>

lemma sw_process_step:
  assumes q: "sw_quiet code g" and l: "sw_list s (ys @ t # zs)" "sl_lock (ck_lock (clk s)) = 1" and d: "sw_due now (sw_at s t)"
  defines "ys' \<equiv> (if sw_repeats (sw_at s t) then ys @ [t] else ys)"
  shows "\<exists>s1. sw_process_loop code now (link_at ys) s = sw_process_loop code now (link_at ys') s1 \<and>
    sw_list s1 (ys' @ zs) \<and> sl_lock (ck_lock (clk s1)) = 1 \<and> ck_ticks (clk s1) = ck_ticks (clk s) \<and>
    in_sched s1 = in_sched s \<and> ck_app (clk s1) = sw_call g (sw_at s t) (ck_app (clk s)) \<and>
    (\<forall>u. sw_core (sw_at s1 u) = (if u = t then sw_core (sw_ticked now (sw_at s t)) else sw_core (sw_at s u)))"
proof -
  let ?k = "sw_at s t"
  define s0 where "s0 = (if sw_repeats ?k then sw_upd t (sw_expire_update (\<lambda>_. now + sw_period ?k)) s
     else sw_set (link_at ys) (sw_next ?k) (sw_upd t (sw_active_update (\<lambda>_. False)) s))"
  define s1 where "s1 = ck_upd (\<lambda>c. c\<lparr>ck_lock := (ck_lock c)\<lparr>sl_lock := 1\<rparr>, ck_app := sw_call g ?k (ck_app c)\<rparr>) s0"
  have list0: "sw_list s0 (ys' @ zs)"
  proof (cases "sw_repeats ?k")
    case True
    then show ?thesis using l(1) by (simp add: s0_def ys'_def) (subst sw_list_cong [of _ s], auto)
  next
    case False
    have "sw_list (sw_upd t (sw_active_update (\<lambda>_. False)) s) (ys @ t # zs)" using l(1) by (subst sw_list_cong [of _ s]) auto
    from sw_remove_at [OF this] show ?thesis using False by (simp add: s0_def ys'_def)
  qed
  have f0: "sl_lock (ck_lock (clk s0)) = 1" "ck_ticks (clk s0) = ck_ticks (clk s)" "in_sched s0 = in_sched s" "ck_app (clk s0) = ck_app (clk s)"
    "\<And>u. sw_core (sw_at s0 u) = (if u = t then sw_core (sw_ticked now (sw_at s t)) else sw_core (sw_at s u))"
    using l(2) d by (simp_all add: s0_def sw_ticked_def)
  have "sw_list s1 (ys' @ zs)" using list0 by (subst sw_list_cong [of _ s0]) (simp_all add: s1_def)
  moreover have "sw_process_loop code now (link_at ys) s = sw_process_loop code now (link_at ys') s1"
  proof -
    have "sw_get (link_at ys) s = Some t" using sw_get_at [OF l(1)] by simp
    moreover have "sw_lock (ck_upd (ck_app_update (sw_call g ?k)) (sw_unlock s0)) = Some s1"
      by (simp add: sw_lock_def spin_lock_def spin_unlock_def s1_def ck_upd_def sw_unlock_def)
    ultimately show ?thesis
      using d q unfolding sw_process_loop.simps [of code now "link_at ys" s]
      by (cases "sw_callback ?k") (auto simp: sw_due_def sw_repeats_def sw_quiet_def Let_def s0_def ys'_def sw_call_def)
  qed
  ultimately show ?thesis using f0 by (intro exI [of _ s1]) (simp add: s1_def)
qed


lemma sw_process_loop_ok:
  assumes q: "sw_quiet code g"
  shows "sw_list s (ys @ zs) \<Longrightarrow> sl_lock (ck_lock (clk s)) = 1 \<Longrightarrow>
   \<exists>s'. sw_process_loop code now (link_at ys) s = Some (Ret s') \<and>
    sw_list s' (ys @ filter (\<lambda>t. sw_due now (sw_at s t) \<longrightarrow> sw_repeats (sw_at s t)) zs) \<and>
    sl_lock (ck_lock (clk s')) = 1 \<and> ck_ticks (clk s') = ck_ticks (clk s) \<and> in_sched s' = in_sched s \<and>
    ck_app (clk s') = fold (\<lambda>t. sw_call g (sw_at s t)) (filter (\<lambda>t. sw_due now (sw_at s t)) zs) (ck_app (clk s)) \<and>
    (\<forall>u. sw_core (sw_at s' u) = (if u \<in> set zs then sw_core (sw_ticked now (sw_at s u)) else sw_core (sw_at s u)))"
proof (induction zs arbitrary: ys s)
  case Nil
  then show ?case using sw_get_at [OF Nil(1)] by (subst sw_process_loop.simps) simp
next
  case (Cons t zs)
  have t: "t \<notin> set zs" using Cons.prems(1) by (simp add: sw_list_def)
  show ?case
  proof (cases "sw_due now (sw_at s t)")
    case False
    have "sw_process_loop code now (link_at ys) s = sw_process_loop code now (link_at (ys @ [t])) s"
      using sw_get_at [OF Cons.prems(1)] False by (subst sw_process_loop.simps) (auto simp: sw_due_def Let_def)
    then show ?thesis using Cons.IH [of s "ys @ [t]"] Cons.prems False t by (auto simp: sw_ticked_def)
  next
    case True
    define ys' where "ys' = (if sw_repeats (sw_at s t) then ys @ [t] else ys)"
    obtain s1 where s1: "sw_process_loop code now (link_at ys) s = sw_process_loop code now (link_at ys') s1"
      "sw_list s1 (ys' @ zs)" "sl_lock (ck_lock (clk s1)) = 1" "ck_ticks (clk s1) = ck_ticks (clk s)" "in_sched s1 = in_sched s"
      "ck_app (clk s1) = sw_call g (sw_at s t) (ck_app (clk s))"
      "\<And>u. sw_core (sw_at s1 u) = (if u = t then sw_core (sw_ticked now (sw_at s t)) else sw_core (sw_at s u))"
      using sw_process_step [OF q Cons.prems True] unfolding ys'_def by blast
    have same: "sw_core (sw_at s1 u) = sw_core (sw_at s u)" if "u \<in> set zs" for u using s1(7) that t by auto
    note c = sw_core_facts [OF same]
    have f: "filter (\<lambda>t. sw_due now (sw_at s1 t)) zs = filter (\<lambda>t. sw_due now (sw_at s t)) zs"
      "filter (\<lambda>t. sw_due now (sw_at s1 t) \<longrightarrow> sw_repeats (sw_at s1 t)) zs = filter (\<lambda>t. sw_due now (sw_at s t) \<longrightarrow> sw_repeats (sw_at s t)) zs"
      using c(1,2) by (auto intro!: filter_cong)
    have call: "fold (\<lambda>t. sw_call g (sw_at s1 t)) (filter (\<lambda>t. sw_due now (sw_at s t)) zs) w =
      fold (\<lambda>t. sw_call g (sw_at s t)) (filter (\<lambda>t. sw_due now (sw_at s t)) zs) w" for w
      using c(3) by (auto intro!: fold_cong)
    have "ys' @ filter (\<lambda>t. sw_due now (sw_at s t) \<longrightarrow> sw_repeats (sw_at s t)) zs =
      ys @ filter (\<lambda>t. sw_due now (sw_at s t) \<longrightarrow> sw_repeats (sw_at s t)) (t # zs)" using True by (simp add: ys'_def)
    moreover have "(if u \<in> set zs then sw_core (sw_ticked now (sw_at s1 u)) else sw_core (sw_at s1 u)) =
      (if u \<in> set (t # zs) then sw_core (sw_ticked now (sw_at s u)) else sw_core (sw_at s u))" for u
      using c(4) [of u now] s1(7) [of u] t by auto
    ultimately show ?thesis using Cons.IH [OF s1(2,3)] s1(1,4-6) True unfolding f call by simp
  qed
qed

text \<open>The timers on the list are the active ones.\<close>

definition sw_rep :: "'w csys \<Rightarrow> addr list \<Rightarrow> bool" where
  "sw_rep s xs \<longleftrightarrow> sw_list s xs \<and> (\<forall>t. sw_active (sw_at s t) \<longleftrightarrow> t \<in> set xs) \<and> sl_lock (ck_lock (clk s)) = 0"

lemma sw_unlock_list [simp]: "sw_list (sw_unlock s) xs = sw_list s xs"
  by (rule sw_list_cong) simp_all

lemma sw_lock_ok:
  assumes "sl_lock (ck_lock (clk s)) = 0"
  shows "\<exists>s1. sw_lock s = Some s1 \<and> clk s1 = (clk s)\<lparr>ck_lock := (ck_lock (clk s))\<lparr>sl_lock := 1\<rparr>\<rparr> \<and> in_sched s1 = in_sched s \<and>
    sw_list s1 = sw_list s"
  using assms by (auto simp: sw_lock_def spin_lock_def sw_list_def fun_eq_iff)

lemma sw_tick_ok:
  assumes q: "sw_quiet code g" and r: "sw_rep s xs" and now: "now = ck_ticks (clk s) + 1"
  shows "\<exists>s'. sw_tick_handler code s = Some (Ret s') \<and>
    sw_rep s' (filter (\<lambda>t. sw_due now (sw_at s t) \<longrightarrow> sw_repeats (sw_at s t)) xs) \<and>
    ck_ticks (clk s') = now \<and> in_sched s' = in_sched s \<and>
    ck_app (clk s') = fold (\<lambda>t. sw_call g (sw_at s t)) (filter (\<lambda>t. sw_due now (sw_at s t)) xs) (ck_app (clk s)) \<and>
    (\<forall>u. sw_core (sw_at s' u) = sw_core (sw_ticked now (sw_at s u)))"
proof -
  let ?s = "ck_upd (ck_ticks_update (\<lambda>n. n + 1)) s"
  have "sl_lock (ck_lock (clk ?s)) = 0" "sw_list ?s xs" using r sw_list_cong [of ?s s] by (simp_all add: sw_rep_def)
  then obtain s1 where s1: "sw_lock ?s = Some s1" "clk s1 = (clk ?s)\<lparr>ck_lock := (ck_lock (clk ?s))\<lparr>sl_lock := 1\<rparr>\<rparr>"
    "in_sched s1 = in_sched s" "sw_list s1 ([] @ xs)" using sw_lock_ok [of ?s] by auto
  obtain s' where s': "sw_process_loop code now Head s1 = Some (Ret s')"
    "sw_list s' (filter (\<lambda>t. sw_due now (sw_at s t) \<longrightarrow> sw_repeats (sw_at s t)) xs)"
    "ck_ticks (clk s') = now" "in_sched s' = in_sched s"
    "ck_app (clk s') = fold (\<lambda>t. sw_call g (sw_at s t)) (filter (\<lambda>t. sw_due now (sw_at s t)) xs) (ck_app (clk s))"
    "\<And>u. sw_core (sw_at s' u) = (if u \<in> set xs then sw_core (sw_ticked now (sw_at s u)) else sw_core (sw_at s u))"
    using sw_process_loop_ok [OF q s1(4), of now] s1(2,3) now by auto
  have core: "sw_core (sw_at s' u) = sw_core (sw_ticked now (sw_at s u))" for u
    using s'(6) [of u] r by (auto simp: sw_rep_def sw_ticked_def sw_due_def)
  have act: "sw_active (sw_at s' u) \<longleftrightarrow> u \<in> set (filter (\<lambda>t. sw_due now (sw_at s t) \<longrightarrow> sw_repeats (sw_at s t)) xs)" for u
    using sw_coreD(6) [OF core [of u]] r by (auto simp: sw_rep_def sw_ticked_def sw_due_def)
  have "sw_tick_handler code s = Some (Ret (sw_unlock s'))"
    using s1(1) s'(1) now by (simp add: sw_tick_handler_def process_sw_timers_def Let_def)
  then show ?thesis using s' core act by (intro exI [of _ "sw_unlock s'"]) (simp add: sw_rep_def spin_unlock_def)
qed


section \<open>Starting and stopping\<close>

lemma sw_unlink_ok:
  assumes "sw_list s (ys @ zs)" "t \<notin> set ys"
  shows "\<exists>s'. sw_unlink t (link_at ys) s = Some s' \<and> sw_list s' (ys @ filter (\<lambda>a. a \<noteq> t) zs) \<and>
    ck_ticks (clk s') = ck_ticks (clk s) \<and> ck_lock (clk s') = ck_lock (clk s) \<and> in_sched s' = in_sched s \<and>
    ck_app (clk s') = ck_app (clk s) \<and> (\<forall>u. sw_core (sw_at s' u) = sw_core (sw_at s u))"
  using assms
proof (induction zs arbitrary: ys)
  case Nil
  then show ?case using sw_get_at [OF Nil(1)] by (subst sw_unlink.simps) simp
next
  case (Cons a zs)
  note get = sw_get_at [OF Cons.prems(1)]
  show ?case
  proof (cases "a = t")
    case True
    have "filter (\<lambda>a. a \<noteq> t) zs = zs" using Cons.prems(1) True by (auto simp: sw_list_def filter_id_conv)
    then show ?thesis using sw_remove_at [of s ys t zs] Cons.prems(1) get True by (subst sw_unlink.simps) auto
  next
    case False
    then show ?thesis using Cons.IH [of "ys @ [a]"] Cons.prems get by (subst sw_unlink.simps) simp
  qed
qed

lemma sw_place_ok:
  assumes "sw_list s (ys @ zs)"
  shows "sw_place t (link_at ys) s = Some (link_at (ys @ takeWhile (\<lambda>a. sw_expire (sw_at s a) \<le> sw_expire (sw_at s t)) zs))"
  using assms
proof (induction zs arbitrary: ys)
  case Nil
  then show ?case using sw_get_at [OF Nil] by (subst sw_place.simps) simp
next
  case (Cons a zs)
  then show ?case using sw_get_at [OF Cons.prems] Cons.IH [of "ys @ [a]"] by (subst sw_place.simps) simp
qed

text \<open>A timer as \<open>timer_start\<close> sets it.\<close>

definition sw_started :: "u32 \<Rightarrow> u32 \<Rightarrow> bool \<Rightarrow> sw_timer \<Rightarrow> sw_timer" where
  "sw_started now d p k = k\<lparr>sw_expire := now + d, sw_period := if p then d else 0, sw_periodic := p, sw_active := True\<rparr>"

lemma sw_core_started: "sw_core k = sw_core k' \<Longrightarrow> sw_core (sw_started now d p k) = sw_core (sw_started now d p k')"
  by (cases k; cases k') (simp add: sw_core_def sw_started_def)

lemma sw_start_ok:
  assumes r: "sw_rep s xs" and d: "d \<noteq> 0"
  shows "\<exists>s' xs'. sw_start (Some t) d p s = Some (STATUS_OK, s') \<and> sw_rep s' xs' \<and>
    ck_ticks (clk s') = ck_ticks (clk s) \<and> in_sched s' = in_sched s \<and> ck_app (clk s') = ck_app (clk s) \<and>
    (\<forall>u. sw_core (sw_at s' u) = sw_core (if u = t then sw_started (ck_ticks (clk s)) d p (sw_at s t) else sw_at s u))"
proof -
  obtain s1 where s1: "sw_lock s = Some s1" "clk s1 = (clk s)\<lparr>ck_lock := (ck_lock (clk s))\<lparr>sl_lock := 1\<rparr>\<rparr>"
    "in_sched s1 = in_sched s" "sw_list s1 ([] @ xs)" using sw_lock_ok [of s] r by (auto simp: sw_rep_def)
  define ys where "ys = filter (\<lambda>a. a \<noteq> t) xs"
  obtain s2 where s2: "(if sw_active (sw_at s1 t) then sw_unlink t Head s1 else Some s1) = Some s2" "sw_list s2 ys"
    "ck_ticks (clk s2) = ck_ticks (clk s)" "ck_lock (clk s2) = ck_lock (clk s1)" "in_sched s2 = in_sched s"
    "ck_app (clk s2) = ck_app (clk s)" "\<And>u. sw_core (sw_at s2 u) = sw_core (sw_at s u)"
  proof (cases "sw_active (sw_at s1 t)")
    case True
    then show ?thesis using sw_unlink_ok [OF s1(4), of t] s1(2,3) that by (auto simp: ys_def)
  next
    case False
    then have "ys = xs" using r s1(2) by (auto simp: ys_def sw_rep_def filter_id_conv)
    then show ?thesis using False s1(2,3,4) that by auto
  qed
  define s3 where "s3 = sw_upd t (\<lambda>k. k\<lparr>sw_expire := ck_ticks (clk s2) + d, sw_period := if p then d else 0,
                      sw_periodic := p, sw_active := True\<rparr>) s2"
  have l3: "sw_list s3 ([] @ ys)" using s2(2) by (simp, subst sw_list_cong [of _ s2]) (auto simp: s3_def)
  define as bs where "as = takeWhile (\<lambda>a. sw_expire (sw_at s3 a) \<le> sw_expire (sw_at s3 t)) ys"
    and "bs = dropWhile (\<lambda>a. sw_expire (sw_at s3 a) \<le> sw_expire (sw_at s3 t)) ys"
  have ab: "as @ bs = ys" by (simp add: as_def bs_def)
  have pl: "sw_place t Head s3 = Some (link_at as)" using sw_place_ok [OF l3, of t] by (simp add: as_def)
  define s4 where "s4 = sw_set (link_at as) (Some t) (sw_upd t (sw_next_update (\<lambda>_. sw_get (link_at as) s3)) s3)"
  have l4: "sw_list s4 (as @ t # bs)" unfolding s4_def
    by (rule sw_insert_at) (use l3 in \<open>auto simp: ab\<close>, simp add: ys_def)
  have eq: "sw_start (Some t) d p s = Some (STATUS_OK, sw_unlock s4)"
    using d s1(1) s2(1) pl by (simp add: sw_start_def Let_def s3_def s4_def)
  have core: "sw_core (sw_at s4 u) = (if u = t then sw_core (sw_started (ck_ticks (clk s)) d p (sw_at s t)) else sw_core (sw_at s u))" for u
  proof -
    have "sw_core (sw_at s4 u) = sw_core (sw_at s3 u)" by (simp add: s4_def)
    also have "sw_at s3 u = (if u = t then sw_started (ck_ticks (clk s)) d p (sw_at s2 t) else sw_at s2 u)"
      by (simp add: s3_def sw_started_def s2(3))
    finally show ?thesis using s2(7) [of u] sw_core_started [OF s2(7) [of t]] by simp
  qed
  have set: "set (as @ t # bs) = insert t (set xs)" using arg_cong [OF ab, of set] by (auto simp: ys_def)
  have act: "sw_active (sw_at s4 u) \<longleftrightarrow> u \<in> set (as @ t # bs)" for u
    using sw_coreD(6) [of "sw_at s4 u" "if u = t then sw_started (ck_ticks (clk s)) d p (sw_at s t) else sw_at s u"]
      core [of u] r unfolding set by (auto simp: sw_rep_def sw_started_def split: if_splits)
  have "sw_rep (sw_unlock s4) (as @ t # bs)" using l4 act by (simp add: sw_rep_def spin_unlock_def)
  then show ?thesis using eq core s2(3-6) by (intro exI [of _ "sw_unlock s4"] exI [of _ "as @ t # bs"]) (simp add: s4_def s3_def)
qed

lemma sw_stop_ok:
  assumes r: "sw_rep s xs"
  shows "\<exists>s' xs'. sw_stop (Some t) s = Some s' \<and> sw_rep s' xs' \<and>
    ck_ticks (clk s') = ck_ticks (clk s) \<and> in_sched s' = in_sched s \<and> ck_app (clk s') = ck_app (clk s) \<and>
    (\<forall>u. sw_core (sw_at s' u) = sw_core (if u = t then (sw_at s t)\<lparr>sw_active := False\<rparr> else sw_at s u))"
proof -
  obtain s1 where s1: "sw_lock s = Some s1" "clk s1 = (clk s)\<lparr>ck_lock := (ck_lock (clk s))\<lparr>sl_lock := 1\<rparr>\<rparr>"
    "in_sched s1 = in_sched s" "sw_list s1 ([] @ xs)" using sw_lock_ok [of s] r by (auto simp: sw_rep_def)
  show ?thesis
  proof (cases "sw_active (sw_at s t)")
    case True
    let ?s1 = "sw_upd t (sw_active_update (\<lambda>_. False)) s1"
    have "sw_list ?s1 ([] @ xs)" using s1(4) by (simp, subst sw_list_cong [of _ s1]) auto
    from sw_unlink_ok [OF this, of t] obtain s2 where s2: "sw_unlink t Head ?s1 = Some s2" "sw_list s2 (filter (\<lambda>a. a \<noteq> t) xs)"
      "ck_ticks (clk s2) = ck_ticks (clk s)" "in_sched s2 = in_sched s" "ck_app (clk s2) = ck_app (clk s)"
      "\<And>u. sw_core (sw_at s2 u) = (if u = t then sw_core ((sw_at s t)\<lparr>sw_active := False\<rparr>) else sw_core (sw_at s u))"
      using s1(2,3) by auto
    have act: "sw_active (sw_at s2 u) \<longleftrightarrow> u \<in> set (filter (\<lambda>a. a \<noteq> t) xs)" for u
      using sw_coreD(6) [of "sw_at s2 u" "if u = t then (sw_at s t)\<lparr>sw_active := False\<rparr> else sw_at s u"]
        s2(6) [of u] r by (auto simp: sw_rep_def split: if_splits)
    then have "sw_rep (sw_unlock s2) (filter (\<lambda>a. a \<noteq> t) xs)" using s2(2) by (simp add: sw_rep_def spin_unlock_def)
    then show ?thesis using True s1(1,2) s2
      by (intro exI [of _ "sw_unlock s2"] exI [of _ "filter (\<lambda>a. a \<noteq> t) xs"]) (simp add: sw_stop_def)
  next
    case False
    have "sw_rep (sw_unlock s1) xs" using r s1(2,4) by (simp add: sw_rep_def spin_unlock_def)
    then show ?thesis using False s1
      by (intro exI [of _ "sw_unlock s1"] exI [of _ xs]) (simp add: sw_stop_def sw_core_def)
  qed
qed

section \<open>The driver as a map of deadlines\<close>

text \<open>
  The time, the deadlines of the timers that run, and the periods, 0 for a timer that runs once; and what the
  operations make of them.
\<close>

type_synonym deadlines = "u32 \<times> (addr \<rightharpoonup> u32) \<times> (addr \<Rightarrow> u32)"

definition sw_view :: "'w csys \<Rightarrow> deadlines" where
  "sw_view s = (ck_ticks (clk s), \<lambda>t. if sw_active (sw_at s t) then Some (sw_expire (sw_at s t)) else None,
     \<lambda>t. if sw_periodic (sw_at s t) then sw_period (sw_at s t) else 0)"

datatype sw_op = S_start addr u32 bool | S_stop addr | S_tick

fun sw_spec :: "sw_op \<Rightarrow> deadlines \<Rightarrow> deadlines" where
  "sw_spec (S_start t d p) (now, P, R) = (if d = 0 then (now, P, R) else (now, P(t \<mapsto> now + d), R(t := if p then d else 0)))"
| "sw_spec (S_stop t) (now, P, R) = (now, P(t := None), R)"
| "sw_spec S_tick (now, P, R) =
     (let now = now + 1 in
      (now, \<lambda>t. case P t of None \<Rightarrow> None
               | Some e \<Rightarrow> if now < e then Some e else if 0 < R t then Some (now + R t) else None, R))"

fun sw_exec :: "'w sw_code \<Rightarrow> sw_op \<Rightarrow> 'w csys \<Rightarrow> 'w csys option" where
  "sw_exec code (S_start t d p) s = map_option snd (sw_start (Some t) d p s)"
| "sw_exec code (S_stop t) s = sw_stop (Some t) s"
| "sw_exec code S_tick s = map_option ctl_state (sw_tick_handler code s)"

fun sw_run :: "'w sw_code \<Rightarrow> sw_op list \<Rightarrow> 'w csys \<Rightarrow> 'w csys option" where
  "sw_run code [] s = Some s"
| "sw_run code (op # ops) s = do { s \<leftarrow> sw_exec code op s; sw_run code ops s }"

lemma sw_view_core:
  assumes "\<And>u. sw_core (sw_at s' u) = sw_core (k u)"
  shows "sw_view s' = (ck_ticks (clk s'), \<lambda>t. if sw_active (k t) then Some (sw_expire (k t)) else None,
    \<lambda>t. if sw_periodic (k t) then sw_period (k t) else 0)"
  by (simp only: sw_view_def sw_coreD [OF assms])

lemma sw_exec_ok:
  assumes q: "sw_quiet code g" and r: "sw_rep s xs"
  shows "\<exists>s' xs'. sw_exec code op s = Some s' \<and> sw_rep s' xs' \<and> sw_view s' = sw_spec op (sw_view s)"
proof (cases op)
  case (S_start t d p)
  show ?thesis
  proof (cases "d = 0")
    case True
    then show ?thesis using r S_start by (auto simp: sw_start_def sw_view_def)
  next
    case False
    obtain s' xs' where s': "sw_start (Some t) d p s = Some (STATUS_OK, s')" "sw_rep s' xs'" "ck_ticks (clk s') = ck_ticks (clk s)"
      "\<And>u. sw_core (sw_at s' u) = sw_core (if u = t then sw_started (ck_ticks (clk s)) d p (sw_at s t) else sw_at s u)"
      using sw_start_ok [OF r False, of t p] by blast
    show ?thesis using s'(1-3) sw_view_core [OF s'(4)] S_start False
      by (auto simp: sw_view_def sw_started_def fun_eq_iff)
  qed
next
  case (S_stop t)
  obtain s' xs' where s': "sw_stop (Some t) s = Some s'" "sw_rep s' xs'" "ck_ticks (clk s') = ck_ticks (clk s)"
    "\<And>u. sw_core (sw_at s' u) = sw_core (if u = t then (sw_at s t)\<lparr>sw_active := False\<rparr> else sw_at s u)"
    using sw_stop_ok [OF r, of t] by blast
  show ?thesis using s'(1-3) sw_view_core [OF s'(4)] S_stop by (auto simp: sw_view_def fun_eq_iff)
next
  case S_tick
  obtain s' xs' where s': "sw_tick_handler code s = Some (Ret s')" "sw_rep s' xs'" "ck_ticks (clk s') = ck_ticks (clk s) + 1"
    "\<And>u. sw_core (sw_at s' u) = sw_core (sw_ticked (ck_ticks (clk s) + 1) (sw_at s u))"
    using sw_tick_ok [OF q r] by blast
  show ?thesis using s'(1-3) sw_view_core [OF s'(4)] S_tick
    by (auto simp: sw_view_def fun_eq_iff Let_def sw_ticked_def sw_due_def sw_repeats_def)
qed

lemma sw_run_ok:
  assumes "sw_quiet code g" and "sw_rep s xs"
  shows "\<exists>s' xs'. sw_run code ops s = Some s' \<and> sw_rep s' xs' \<and> sw_view s' = fold sw_spec ops (sw_view s)"
  using assms(2)
proof (induction ops arbitrary: s xs)
  case (Cons op ops)
  obtain s1 ys where "sw_exec code op s = Some s1" "sw_rep s1 ys" "sw_view s1 = sw_spec op (sw_view s)"
    using sw_exec_ok [OF assms(1) Cons.prems] by blast
  then show ?case using Cons.IH [of s1 ys] by auto
qed auto


section \<open>Delays and time stamps\<close>

lemma timer_wait_loop_ok:
  assumes "target \<le> cnt (i + n)"
  shows "\<exists>m \<ge> i. timer_wait_loop cnt target i = Some (m + 1) \<and> target \<le> cnt m \<and> (\<forall>j. i \<le> j \<longrightarrow> j < m \<longrightarrow> cnt j < target)"
  using assms
proof (induction n arbitrary: i)
  case 0
  then show ?case by (intro exI [of _ i]) (subst timer_wait_loop.simps, auto)
next
  case (Suc n)
  show ?case
  proof (cases "cnt i < target")
    case False
    then show ?thesis by (intro exI [of _ i]) (subst timer_wait_loop.simps, auto)
  next
    case True
    obtain m where m: "i + 1 \<le> m" "timer_wait_loop cnt target (i + 1) = Some (m + 1)" "target \<le> cnt m"
      "\<forall>j. i + 1 \<le> j \<longrightarrow> j < m \<longrightarrow> cnt j < target" using Suc.IH [of "i + 1"] Suc.prems by auto
    have "cnt j < target" if "i \<le> j" "j < m" for j using that m(4) True by (cases "j = i") auto
    then show ?thesis using m True by (intro exI [of _ m]) (subst timer_wait_loop.simps, auto)
  qed
qed

lemma delay_target_nat:
  assumes "unat us * unat (ck_freq (clk s)) < 2 ^ 64"
    and "unat start + unat us * unat (ck_freq (clk s)) div 1000000 < 2 ^ 64"
  shows "unat (delay_target start us s) = unat start + unat us * unat (ck_freq (clk s)) div 1000000"
proof -
  have "unat (ucast us * ck_freq (clk s)) = unat us * unat (ck_freq (clk s))"
  proof -
    have "unat (ucast us :: u64) = unat us"
      using unsigned_less [where w = us and ?'a = nat] by (simp add: unsigned_ucast_eq take_bit_nat_eq_self)
    then show ?thesis using assms(1) by (simp add: unat_word_ariths)
  qed
  then show ?thesis using assms(2) by (simp add: delay_target_def unat_word_ariths unat_div)
qed

lemma mult_div_exact:
  fixes cnt f :: u64
  assumes "unat cnt * unat k < 2 ^ 64"
  shows "unat ((cnt * k) div f) = unat cnt * unat k div unat f"
  using assms by (simp add: unat_div unat_word_ariths)

section \<open>Properties\<close>

definition clock_ex :: "addr list csys" where
  "clock_ex = \<lparr>in_table = (\<lambda>_. undefined), in_lock = SPINLOCK_INIT, in_nest = 0, in_gic = [], in_timer = (\<lambda>_. undefined),
     in_timer_list = None, in_timer_lock = SPINLOCK_INIT, in_cval = 0, in_ctl = 1, in_sched = undefined,
     in_app = \<lparr>ck_freq = 1000000000, ck_per_tick = 1000000, ck_ticks = 0, ck_list = None, ck_lock = SPINLOCK_INIT,
       ck_epoch = 0, ck_initialized = True,
       ck_timer = (\<lambda>t. \<lparr>sw_next = None, sw_callback = Some 900, sw_arg = Some t, sw_expire = 0, sw_period = 0,
         sw_periodic = False, sw_active = False\<rparr>), ck_app = []\<rparr>\<rparr>"

definition sw_log :: "addr list sw_code" where
  "sw_log f arg s = Some (Ret (ck_upd (ck_app_update (\<lambda>l. l @ [the arg])) s))"

lemma clock_ex_rep: "sw_rep clock_ex []"
  by (simp add: sw_rep_def sw_list_def clock_ex_def SPINLOCK_INIT_def)

lemma sw_log_quiet: "sw_quiet sw_log (\<lambda>f arg l. l @ [the arg])"
  by (simp add: sw_quiet_def sw_log_def)

text \<open>C16: The list of timers is a map of deadlines. From a driver whose list holds the active timers, any sequence of
  \<open>timer_start\<close>, \<open>timer_stop\<close> and ticks comes to its end, whatever order the list is in, and updates time, deadlines and periods as
  the abstract operations do: a start sets a deadline, a stop removes it, a tick removes what is due or moves it by its period. The callbacks are taken to
  return and to leave the driver alone.\<close>

theorem sw_run_refines:
  assumes "sw_quiet code g" and "sw_rep s xs"
  shows "\<exists>s' xs'. sw_run code ops s = Some s' \<and> sw_rep s' xs' \<and> sw_view s' = fold sw_spec ops (sw_view s)"
  using sw_run_ok [OF assms] .

theorem sw_run_refines_witness:
  "\<exists>s'. sw_run sw_log [S_start 10 2 True, S_start 20 1 False, S_tick, S_tick, S_stop 20] clock_ex = Some s' \<and>
     fst (sw_view s') = 2 \<and> fst (snd (sw_view s')) 10 = Some 4 \<and> fst (snd (sw_view s')) 20 = None"
proof -
  obtain s' where "sw_run sw_log [S_start 10 2 True, S_start 20 1 False, S_tick, S_tick, S_stop 20] clock_ex = Some s'"
    "sw_view s' = fold sw_spec [S_start 10 2 True, S_start 20 1 False, S_tick, S_tick, S_stop 20] (sw_view clock_ex)"
    using sw_run_refines [OF sw_log_quiet clock_ex_rep] by blast
  moreover have "sw_view clock_ex = (0, \<lambda>_. None, \<lambda>_. 0)" by (simp add: sw_view_def clock_ex_def)
  ultimately show ?thesis by (simp add: Let_def)
qed

text \<open>A tick calls the callbacks of exactly the timers whose deadline it reaches, each once, and all of them
  although the list is not sorted: a timer that repeats stays where it is when its deadline moves.\<close>

theorem sw_tick_fires:
  assumes "sw_quiet code g" and "sw_rep s xs" and "now = ck_ticks (clk s) + 1"
  shows "\<exists>s' ts. sw_tick_handler code s = Some (Ret s') \<and> distinct ts \<and>
    set ts = {t. sw_active (sw_at s t) \<and> sw_expire (sw_at s t) \<le> now} \<and>
    ck_app (clk s') = fold (\<lambda>t. sw_call g (sw_at s t)) ts (ck_app (clk s))"
proof -
  obtain s' where "sw_tick_handler code s = Some (Ret s')"
    "ck_app (clk s') = fold (\<lambda>t. sw_call g (sw_at s t)) (filter (\<lambda>t. sw_due now (sw_at s t)) xs) (ck_app (clk s))"
    using sw_tick_ok [OF assms] by blast
  moreover have "distinct (filter (\<lambda>t. sw_due now (sw_at s t)) xs)"
    "set (filter (\<lambda>t. sw_due now (sw_at s t)) xs) = {t. sw_active (sw_at s t) \<and> sw_expire (sw_at s t) \<le> now}"
    using assms(2) by (auto simp: sw_rep_def sw_list_def sw_due_def)
  ultimately show ?thesis by blast
qed

text \<open>Timer 10 expires at the next tick, timer 20 one tick later.\<close>

definition clock_two :: "addr list csys" where
  "clock_two = ck_upd (\<lambda>c. c\<lparr>ck_list := Some 10, ck_timer := (ck_timer c)(
     10 := (ck_timer c 10)\<lparr>sw_next := Some 20, sw_expire := 1, sw_period := 1, sw_periodic := True, sw_active := True\<rparr>,
     20 := (ck_timer c 20)\<lparr>sw_expire := 2, sw_active := True\<rparr>)\<rparr>) clock_ex"

theorem sw_tick_fires_witness:
  "\<exists>s'. sw_tick_handler sw_log clock_two = Some (Ret s') \<and> ck_app (clk s') = [10]"
proof -
  have r: "sw_rep clock_two [10, 20]" by (simp add: sw_rep_def sw_list_def clock_two_def clock_ex_def SPINLOCK_INIT_def)
  have due: "{t. sw_active (sw_at clock_two t) \<and> sw_expire (sw_at clock_two t) \<le> 1} = {10}"
    by (auto simp: clock_two_def clock_ex_def word_le_nat_alt)
  obtain s' ts where s': "sw_tick_handler sw_log clock_two = Some (Ret s')" "distinct ts" "set ts = {10}"
    "ck_app (clk s') = fold (\<lambda>t. sw_call (\<lambda>f arg l. l @ [the arg]) (sw_at clock_two t)) ts (ck_app (clk clock_two))"
    using sw_tick_fires [OF sw_log_quiet r, of 1] due by (auto simp: clock_two_def clock_ex_def)
  have "ts = [10]" using s'(2,3) by (cases ts; cases "tl ts") auto
  then show ?thesis using s'(1,4) by (simp add: sw_call_def clock_two_def clock_ex_def)
qed

text \<open>A busy delay ends as soon as the counter shows the target, no sooner: it comes back at the first reading that is at
  least \<open>us * freq / 1000000\<close> counts after the start, when the counter ever gets there and the target fits 64 bits.\<close>

theorem timer_delay_exact:
  assumes "unat us * unat (ck_freq (clk s)) < 2 ^ 64"
    and "unat (cnt 0) + unat us * unat (ck_freq (clk s)) div 1000000 < 2 ^ 64"
    and "0 < i" and "unat (cnt 0) + unat us * unat (ck_freq (clk s)) div 1000000 \<le> unat (cnt i)"
  shows "\<exists>n > 0. timer_delay_us cnt us s = Some (n + 1) \<and>
    unat (cnt 0) + unat us * unat (ck_freq (clk s)) div 1000000 \<le> unat (cnt n) \<and>
    (\<forall>j. 0 < j \<longrightarrow> j < n \<longrightarrow> unat (cnt j) < unat (cnt 0) + unat us * unat (ck_freq (clk s)) div 1000000)"
proof -
  note t = delay_target_nat [OF assms(1,2)]
  have "delay_target (cnt 0) us s \<le> cnt (1 + (i - 1))" using assms(3,4) by (simp add: word_le_nat_alt t)
  from timer_wait_loop_ok [where i = 1 and n = "i - 1" and cnt = cnt, OF this] obtain n where "1 \<le> n" "timer_wait_loop cnt (delay_target (cnt 0) us s) 1 = Some (n + 1)"
    "delay_target (cnt 0) us s \<le> cnt n" "\<forall>j. 1 \<le> j \<longrightarrow> j < n \<longrightarrow> cnt j < delay_target (cnt 0) us s" by blast
  then show ?thesis by (intro exI [of _ n]) (simp add: timer_delay_us_def word_le_nat_alt word_less_nat_alt t)
qed

theorem timer_delay_exact_witness:
  "\<exists>n > 0. timer_delay_us (\<lambda>i. of_nat (700 * i)) 5 clock_ex = Some (n + 1) \<and> 5000 \<le> unat (of_nat (700 * n) :: u64)"
  using timer_delay_exact [of 5 clock_ex "\<lambda>i. of_nat (700 * i)" 8] by (auto simp: clock_ex_def)

text \<open>A delay of 4294968 ms is one of 704 microseconds.\<close>

lemma timer_delay_ms_wraps: "timer_delay_ms cnt 4294968 s = timer_delay_us cnt 704 s"
proof -
  have "(4294968 :: u32) * 1000 = 704" by (simp add: word_unat_eq_iff)
  then show ?thesis unfolding timer_delay_ms_def by (rule arg_cong)
qed

text \<open>Time stamps in nanoseconds are right while the counter times a billion fits 64 bits, and then start
  again from the remainder: at the configured frequency the clock goes back to 0 after less than 19 seconds.\<close>

theorem timer_ns_wraps:
  assumes "0 < ck_freq (clk s)" and "ck_freq (clk s) \<le> CONFIG_CPU_FREQ_HZ"
  shows "(unat cnt * 1000000000 < 2 ^ 64 \<longrightarrow>
      map_option unat (timer_get_ns cnt s) = Some (unat cnt * 1000000000 div unat (ck_freq (clk s)))) \<and>
    (ck_freq (clk s) = CONFIG_CPU_FREQ_HZ \<longrightarrow>
      timer_get_ns 18446744073 s = Some 18446744073 \<and> timer_get_ns 18446744074 s = Some 0)"
proof -
  have n: "\<not> 1000000000 < ck_freq (clk s)" "ck_freq (clk s) \<noteq> 0" using assms by (auto simp: CONFIG_CPU_FREQ_HZ_def)
  then show ?thesis using mult_div_exact [of cnt 1000000000 "ck_freq (clk s)"]
    by (simp add: timer_get_ns_def Let_def CONFIG_CPU_FREQ_HZ_def)
qed

theorem timer_ns_wraps_witness:
  "timer_get_ns 18446744073 clock_ex = Some 18446744073 \<and> timer_get_ns 18446744074 clock_ex = Some 0"
  using timer_ns_wraps [of clock_ex 0] by (simp add: clock_ex_def CONFIG_CPU_FREQ_HZ_def)

text \<open>The clock interrupt that comes while a task holds the lock of the list never returns.\<close>

lemma sw_tick_deadlock: "sl_lock (ck_lock (clk s)) \<noteq> 0 \<Longrightarrow> sw_tick_handler code s = None"
  by (simp add: sw_tick_handler_def process_sw_timers_def sw_lock_def spin_lock_def Let_def)

end
