(* ===== verification/Paging.thy ===== *)
theory Paging
  imports Base
begin

text \<open>
  The page tables of \<open>X86_64-RTOS/arch/x86_64/mmu.c\<close>, with the tables the boot code of
  \<open>boot/multiboot2.asm\<close> leaves, mapping, unmapping and looking up a page.

  The tables are 64-bit words at their addresses, which are physical addresses: the region they lie in is
  mapped one to one. A register that is written is a field; the invalidations of the translation cache
  are kept, the latest first. The processor's answers to \<open>cpuid\<close> are a parameter. The stores that
  \<open>cpuid_call\<close> makes while it asks are in \<open>X86_Start\<close>; they are taken to miss the tables.
\<close>

section \<open>Entries and indices\<close>

definition PTE_PRESENT :: u64 where "PTE_PRESENT = 1"
definition PTE_WRITABLE :: u64 where "PTE_WRITABLE = 2"
definition PTE_HUGE :: u64 where "PTE_HUGE = 0x80"
definition PTE_ADDR_MASK :: u64 where "PTE_ADDR_MASK = 0x000FFFFFFFFFF000"

definition PML4_INDEX :: "u64 \<Rightarrow> u64" where "PML4_INDEX va = drop_bit 39 va AND 0x1FF"
definition PDPT_INDEX :: "u64 \<Rightarrow> u64" where "PDPT_INDEX va = drop_bit 30 va AND 0x1FF"
definition PD_INDEX :: "u64 \<Rightarrow> u64" where "PD_INDEX va = drop_bit 21 va AND 0x1FF"
definition PT_INDEX :: "u64 \<Rightarrow> u64" where "PT_INDEX va = drop_bit 12 va AND 0x1FF"

definition EFER_NXE :: u64 where "EFER_NXE = 0x800"
definition CR4_PGE :: u64 where "CR4_PGE = 0x80"
definition CPU_FEATURE_NX :: u32 where "CPU_FEATURE_NX = 0x100000"
definition CPU_FEATURE_PGE :: u32 where "CPU_FEATURE_PGE = 0x2000"

datatype tlb_op = Reload_cr3 u64 | Invlpg u64

record paging =
  pg_mem :: "u64 \<Rightarrow> u64"
  pg_pml4_table :: u64
  pg_kernel_pt_table :: u64
  pg_cr3 :: u64
  pg_cr4 :: u64
  pg_efer :: u64
  pg_tlb :: "tlb_op list"

text \<open>\<open>table[i]\<close> and \<open>table[i] = v\<close>, and the tests of an entry.\<close>

definition slot :: "u64 \<Rightarrow> u64 \<Rightarrow> u64" where "slot t i = t + 8 * i"

definition entry :: "paging \<Rightarrow> u64 \<Rightarrow> u64 \<Rightarrow> u64" where "entry s t i = pg_mem s (slot t i)"

definition set_entry :: "u64 \<Rightarrow> u64 \<Rightarrow> u64 \<Rightarrow> paging \<Rightarrow> paging" where
  "set_entry t i v s = s\<lparr>pg_mem := (pg_mem s)(slot t i := v)\<rparr>"

definition present :: "u64 \<Rightarrow> bool" where "present e \<longleftrightarrow> e AND PTE_PRESENT \<noteq> 0"
definition huge :: "u64 \<Rightarrow> bool" where "huge e \<longleftrightarrow> e AND PTE_HUGE \<noteq> 0"
definition target :: "u64 \<Rightarrow> u64" where "target e = e AND PTE_ADDR_MASK"

section \<open>Operations\<close>

definition mmu_flush_tlb :: "paging \<Rightarrow> paging" where
  "mmu_flush_tlb s = s\<lparr>pg_tlb := Reload_cr3 (pg_cr3 s) # pg_tlb s\<rparr>"

definition mmu_flush_page :: "u64 \<Rightarrow> paging \<Rightarrow> paging" where
  "mmu_flush_page a s = s\<lparr>pg_tlb := Invlpg a # pg_tlb s\<rparr>"

text \<open>\<open>cpuid leaf\<close> is the value the leaf gives in \<open>edx\<close>.\<close>

definition mmu_init :: "(u32 \<Rightarrow> u32) \<Rightarrow> paging \<Rightarrow> paging" where
  "mmu_init cpuid s =
     (let s = (if cpuid 0x80000001 AND CPU_FEATURE_NX \<noteq> 0 then s\<lparr>pg_efer := pg_efer s OR EFER_NXE\<rparr> else s);
          s = (if cpuid 1 AND CPU_FEATURE_PGE \<noteq> 0 then s\<lparr>pg_cr4 := pg_cr4 s OR CR4_PGE\<rparr> else s)
      in mmu_flush_tlb s)"

definition mmu_map_page :: "u64 \<Rightarrow> u64 \<Rightarrow> u64 \<Rightarrow> paging \<Rightarrow> paging" where
  "mmu_map_page virt phys flags s =
     (let e4 = entry s (pg_pml4_table s) (PML4_INDEX virt) in
      if \<not> present e4 then s else
      let e3 = entry s (target e4) (PDPT_INDEX virt) in
      if \<not> present e3 then s else
      if huge e3 then s else
      let pd = target e3 in
      if huge (entry s pd (PD_INDEX virt)) then s else
      let s = (if \<not> present (entry s pd (PD_INDEX virt))
               then set_entry pd (PD_INDEX virt) (pg_kernel_pt_table s OR PTE_PRESENT OR PTE_WRITABLE) s else s);
          pt = target (entry s pd (PD_INDEX virt));
          s = set_entry pt (PT_INDEX virt) ((phys AND PTE_ADDR_MASK) OR flags OR PTE_PRESENT) s
      in mmu_flush_page virt s)"

definition mmu_unmap_page :: "u64 \<Rightarrow> paging \<Rightarrow> paging" where
  "mmu_unmap_page virt s =
     (let e4 = entry s (pg_pml4_table s) (PML4_INDEX virt) in
      if \<not> present e4 then s else
      let e3 = entry s (target e4) (PDPT_INDEX virt) in
      if \<not> present e3 then s else
      if huge e3 then s else
      let e2 = entry s (target e3) (PD_INDEX virt) in
      if \<not> present e2 then s else
      if huge e2 then s else
      mmu_flush_page virt (set_entry (target e2) (PT_INDEX virt) 0 s))"

definition mmu_get_phys :: "u64 \<Rightarrow> paging \<Rightarrow> u64" where
  "mmu_get_phys virt s =
     (let e4 = entry s (pg_pml4_table s) (PML4_INDEX virt) in
      if \<not> present e4 then 0 else
      let e3 = entry s (target e4) (PDPT_INDEX virt) in
      if \<not> present e3 then 0 else
      if huge e3 then (e3 AND PTE_ADDR_MASK) + (virt AND 0x3FFFFFFF) else
      let e2 = entry s (target e3) (PD_INDEX virt) in
      if \<not> present e2 then 0 else
      if huge e2 then (e2 AND PTE_ADDR_MASK) + (virt AND 0x1FFFFF) else
      let e1 = entry s (target e2) (PT_INDEX virt) in
      if \<not> present e1 then 0 else (e1 AND PTE_ADDR_MASK) + (virt AND 0xFFF))"

section \<open>The tables of the boot code\<close>

text \<open>
  \<open>setup_page_tables\<close> of \<open>boot/multiboot2.asm\<close>: four tables in a row, at \<open>pml4_table\<close>, \<open>pdpt_table\<close> and
  the two pages of \<open>pd_table\<close>; all else of the four pages is cleared.
\<close>

definition setup_page_tables :: "u64 \<Rightarrow> (u64 \<Rightarrow> u64) \<Rightarrow> u64 \<Rightarrow> u64" where
  "setup_page_tables pml4 m =
     (let pdpt = pml4 + 4096; pd = pml4 + 2 * 4096;
          m = (\<lambda>a. if a - pml4 < 4 * 4096 then 0 else m a);
          m = m(pml4 := pdpt OR 3, slot pml4 256 := pdpt OR 3);
          m = m(pdpt := pd OR 3, slot pdpt 1 := (pd + 4096) OR 3)
      in fold (\<lambda>i m. m(slot pd (of_nat i) := 0x83 + of_nat i * 0x200000)) [0..<512 * 2] m)"

end
