(* ===== verification/Mmu.thy ===== *)
theory Mmu
  imports Paging
begin

text \<open>
  The page tables and the cache operations of \<open>ARM64-RTOS/arch/arm64/mmu.c\<close>, and the cache operations of
  \<open>X86_64-RTOS/arch/x86_64/mmu.c\<close>.

  The tables are 64-bit words at their addresses, system registers are fields, and the cache instructions are
  kept, the latest first.
\<close>

section \<open>Descriptors\<close>

definition TT_TYPE_BLOCK :: u64 where "TT_TYPE_BLOCK = 1"
definition TT_TYPE_TABLE :: u64 where "TT_TYPE_TABLE = 3"
definition TT_AF :: u64 where "TT_AF = 0x400"
definition TT_SH_INNER :: u64 where "TT_SH_INNER = 0x300"
definition TT_AP_RW :: u64 where "TT_AP_RW = 0"
definition TT_MAIR_DEV :: u64 where "TT_MAIR_DEV = 0"
definition TT_MAIR_WB :: u64 where "TT_MAIR_WB = 0xC"
definition TT_ATTR_NORMAL :: u64 where "TT_ATTR_NORMAL = TT_AF OR TT_SH_INNER OR TT_AP_RW OR TT_MAIR_WB"
definition TT_ATTR_DEVICE :: u64 where "TT_ATTR_DEVICE = TT_AF OR TT_AP_RW OR TT_MAIR_DEV"

datatype cache_op = Dc_ivac u64 | Dc_cvac u64 | Dc_civac u64 | Clflush u64

record arm_mmu =
  mm_mem :: "u64 \<Rightarrow> u64"
  mm_l1_table :: u64
  mm_l2_table :: u64
  mm_l2_device_table :: u64
  mm_mair :: u64
  mm_tcr :: u64
  mm_ttbr0 :: u64
  mm_sctlr :: u64
  mm_cache :: "cache_op list"

section \<open>Setting up\<close>

text \<open>\<open>for (i = 0; i < 512; i++) table[i] = e(i);\<close>\<close>

definition table_fill :: "u64 \<Rightarrow> (nat \<Rightarrow> u64) \<Rightarrow> (u64 \<Rightarrow> u64) \<Rightarrow> u64 \<Rightarrow> u64" where
  "table_fill t e m = fold (\<lambda>i m. m(slot t (of_nat i) := e i)) [0..<512] m"

definition l2_descriptor :: "nat \<Rightarrow> u64" where
  "l2_descriptor i =
     (let a = push_bit 21 (of_nat i) in
      if 0x08000000 \<le> a \<and> a < 0x10000000 then a OR TT_TYPE_BLOCK OR TT_ATTR_DEVICE
      else a OR TT_TYPE_BLOCK OR TT_ATTR_NORMAL)"

definition l2_device_descriptor :: "nat \<Rightarrow> u64" where
  "l2_device_descriptor i = (0x40000000 + push_bit 21 (of_nat i)) OR TT_TYPE_BLOCK OR TT_ATTR_DEVICE"

text \<open>The three tables are cleared in one loop, here one after the other: they are different pages.\<close>

definition arm_mmu_init :: "arm_mmu \<Rightarrow> arm_mmu" where
  "arm_mmu_init s =
     (let l1 = mm_l1_table s; l2 = mm_l2_table s; l2d = mm_l2_device_table s; m = mm_mem s;
          m = table_fill l2d (\<lambda>_. 0) (table_fill l2 (\<lambda>_. 0) (table_fill l1 (\<lambda>_. 0) m));
          m = table_fill l2 l2_descriptor m;
          m = table_fill l2d l2_device_descriptor m;
          m = m(slot l1 0 := l2 OR TT_TYPE_TABLE);
          m = m(slot l1 1 := l2d OR TT_TYPE_TABLE)
      in s\<lparr>mm_mem := m,
           mm_mair := push_bit 8 0x44 OR push_bit 16 0xBB OR push_bit 24 0xFF,
           mm_tcr := 16 OR push_bit 12 3 OR push_bit 23 1 OR push_bit 32 5,
           mm_ttbr0 := l1,
           mm_sctlr := mm_sctlr s OR 1\<rparr>)"

section \<open>The cache\<close>

partial_function (option) cache_loop :: "(u64 \<Rightarrow> cache_op) \<Rightarrow> u64 \<Rightarrow> u64 \<Rightarrow> cache_op list \<Rightarrow> cache_op list option" where
  "cache_loop op a e h = (if a < e then cache_loop op (a + 64) e (op a # h) else Some h)"

definition cache_range :: "(u64 \<Rightarrow> cache_op) \<Rightarrow> u64 \<Rightarrow> u64 \<Rightarrow> cache_op list \<Rightarrow> cache_op list option" where
  "cache_range op addr len h = cache_loop op (addr AND NOT 63) ((addr + len + 64 - 1) AND NOT 63) h"

definition dcache_invalidate :: "u64 \<Rightarrow> u64 \<Rightarrow> arm_mmu \<Rightarrow> arm_mmu option" where
  "dcache_invalidate addr len s = do { h \<leftarrow> cache_range Dc_ivac addr len (mm_cache s); Some (s\<lparr>mm_cache := h\<rparr>) }"

definition dcache_clean :: "u64 \<Rightarrow> u64 \<Rightarrow> arm_mmu \<Rightarrow> arm_mmu option" where
  "dcache_clean addr len s = do { h \<leftarrow> cache_range Dc_cvac addr len (mm_cache s); Some (s\<lparr>mm_cache := h\<rparr>) }"

definition dcache_clean_invalidate :: "u64 \<Rightarrow> u64 \<Rightarrow> arm_mmu \<Rightarrow> arm_mmu option" where
  "dcache_clean_invalidate addr len s = do { h \<leftarrow> cache_range Dc_civac addr len (mm_cache s); Some (s\<lparr>mm_cache := h\<rparr>) }"

text \<open>The functions of the other kernel, on the list of its cache instructions.\<close>

definition x86_dcache_invalidate :: "u64 \<Rightarrow> u64 \<Rightarrow> cache_op list \<Rightarrow> cache_op list option" where
  "x86_dcache_invalidate addr len h = cache_loop Clflush (addr AND NOT 63) ((addr + len + 63) AND NOT 63) h"

definition x86_dcache_clean :: "u64 \<Rightarrow> u64 \<Rightarrow> cache_op list \<Rightarrow> cache_op list option" where
  "x86_dcache_clean = x86_dcache_invalidate"

definition x86_dcache_clean_invalidate :: "u64 \<Rightarrow> u64 \<Rightarrow> cache_op list \<Rightarrow> cache_op list option" where
  "x86_dcache_clean_invalidate = x86_dcache_invalidate"

end
