(* ===== verification/Paging_Props.thy ===== *)
theory Paging_Props
  imports Paging
begin

text \<open>
  Properties of the page tables of \<open>X86_64-RTOS/arch/x86_64/mmu.c\<close>: what mapping and unmapping do to the
  translation of every address, the regions that share a table, and what the tables of the boot code
  translate.
\<close>

section \<open>Slots\<close>

text \<open>A table fills a page, so that slots of different tables or different indices differ.\<close>

definition page_aligned :: "u64 \<Rightarrow> bool" where "page_aligned t \<longleftrightarrow> unat t mod 4096 = 0"

lemma index_less: "unat (x AND 0x1FF :: u64) < 512"
proof -
  have "x AND 0x1FF \<le> (0x1FF :: u64)" by (rule word_and_le1)
  then show ?thesis by (simp add: word_le_nat_alt)
qed

lemmas index_less_simps [simp] =
  index_less [of "drop_bit 39 va" for va, folded PML4_INDEX_def]
  index_less [of "drop_bit 30 va" for va, folded PDPT_INDEX_def]
  index_less [of "drop_bit 21 va" for va, folded PD_INDEX_def]
  index_less [of "drop_bit 12 va" for va, folded PT_INDEX_def]

text \<open>Indices and offsets as numbers.\<close>

lemma unat_mask_bits: "unat (x AND mask n :: u64) = unat x mod 2 ^ n"
  unfolding take_bit_eq_mask [symmetric] unsigned_take_bit_eq by (simp only: take_bit_eq_mod)

lemma unat_shift: "unat (drop_bit n va :: u64) = unat va div 2 ^ n"
proof -
  have "unat va < 2 ^ 64" using unsigned_less [of va] by simp
  then show ?thesis unfolding unsigned_drop_bit_eq by (simp add: drop_bit_eq_div take_bit_eq_mod)
qed

lemma unat_index: "unat (drop_bit n va AND 0x1FF :: u64) = (unat va div 2 ^ n) mod 512"
  using unat_mask_bits [of "drop_bit n va" 9] by (simp add: mask_numeral unat_shift)

lemma unat_low: "unat (va AND 0x1FFFFF :: u64) = unat va mod 0x200000"
  using unat_mask_bits [of va 21] by (simp add: mask_numeral)

lemma target_aligned [simp]: "page_aligned (target e)"
proof -
  have "take_bit 12 (target e) = 0"
    unfolding target_def PTE_ADDR_MASK_def take_bit_and by (simp add: take_bit_numeral_numeral)
  then have "unat (take_bit 12 (target e)) = 0" by simp
  moreover have "unat (take_bit 12 (target e)) = take_bit 12 (unat (target e))"
    by (rule unsigned_take_bit_eq)
  ultimately show ?thesis unfolding page_aligned_def by (simp only: take_bit_eq_mod) simp
qed

lemma slot_unat:
  assumes "page_aligned t" "unat i < 512"
  shows "unat (slot t i) = unat t + 8 * unat i"
proof -
  obtain k where k: "unat t = 4096 * k" using assms(1) unfolding page_aligned_def by auto
  have "unat t < 2 ^ 64" using unsigned_less [of t] by simp
  then have "unat t + 4096 \<le> 2 ^ 64" unfolding k by simp
  moreover have i: "unat (8 * i) = 8 * unat i"
    using assms(2) by (simp add: unat_word_ariths)
  ultimately show ?thesis unfolding slot_def using assms(2)
    by (subst unat_add_lem [THEN iffD1]) (simp_all add: i)
qed

lemma slot_eq_iff:
  assumes "page_aligned t" "page_aligned u" "unat i < 512" "unat j < 512"
  shows "slot t i = slot u j \<longleftrightarrow> t = u \<and> i = j"
proof
  assume "slot t i = slot u j"
  then have e: "unat t + 8 * unat i = unat u + 8 * unat j"
    using assms by (metis slot_unat)
  obtain k l where k: "unat t = 4096 * k" and l: "unat u = 4096 * l"
    using assms(1,2) unfolding page_aligned_def by (auto elim!: dvdE simp: mod_eq_0_iff_dvd)
  have "k = l" using e assms(3,4) unfolding k l by linarith
  then have "unat t = unat u" by (simp add: k l)
  then show "t = u \<and> i = j" using e by (simp add: word_unat_eq_iff)
qed simp

lemma entry_set_entry:
  assumes "page_aligned t" "page_aligned u" "unat i < 512" "unat j < 512"
  shows "entry (set_entry t i v s) u j = (if u = t \<and> j = i then v else entry s u j)"
  using slot_eq_iff [OF assms(2,1,4,3)] by (auto simp: entry_def set_entry_def)

lemma set_entry_simps [simp]:
  "pg_pml4_table (set_entry t i v s) = pg_pml4_table s"
  "pg_kernel_pt_table (set_entry t i v s) = pg_kernel_pt_table s"
  by (simp_all add: set_entry_def)

lemma flush_simps [simp]:
  "pg_pml4_table (mmu_flush_page a s) = pg_pml4_table s"
  "pg_kernel_pt_table (mmu_flush_page a s) = pg_kernel_pt_table s"
  "entry (mmu_flush_page a s) t i = entry s t i"
  by (simp_all add: mmu_flush_page_def entry_def)

section \<open>Walking down\<close>

text \<open>The page directory, and the page table, the walk for an address comes to, where there is one.\<close>

definition pd_of :: "paging \<Rightarrow> u64 \<Rightarrow> u64 option" where
  "pd_of s va =
     (let e4 = entry s (pg_pml4_table s) (PML4_INDEX va); e3 = entry s (target e4) (PDPT_INDEX va)
      in if present e4 \<and> present e3 \<and> \<not> huge e3 then Some (target e3) else None)"

definition pt_of :: "paging \<Rightarrow> u64 \<Rightarrow> u64 option" where
  "pt_of s va =
     (case pd_of s va of
        None \<Rightarrow> None
      | Some pd \<Rightarrow> let e2 = entry s pd (PD_INDEX va) in if present e2 \<and> \<not> huge e2 then Some (target e2) else None)"

text \<open>An address for which mapping a page would not have to supply a page table.\<close>

definition settled :: "paging \<Rightarrow> u64 \<Rightarrow> bool" where
  "settled s va \<longleftrightarrow>
     (\<forall>pd. pd_of s va = Some pd \<longrightarrow> huge (entry s pd (PD_INDEX va)) \<or> present (entry s pd (PD_INDEX va)))"

lemma mmu_map_settled:
  assumes "settled s v"
  shows "mmu_map_page v p f s =
    (case pt_of s v of
       None \<Rightarrow> s
     | Some pt \<Rightarrow> mmu_flush_page v (set_entry pt (PT_INDEX v) ((p AND PTE_ADDR_MASK) OR f OR PTE_PRESENT) s))"
  using assms unfolding settled_def mmu_map_page_def pt_of_def pd_of_def Let_def by (auto split: if_splits)

lemma mmu_unmap_eq:
  "mmu_unmap_page v s =
    (case pt_of s v of None \<Rightarrow> s | Some pt \<Rightarrow> mmu_flush_page v (set_entry pt (PT_INDEX v) 0 s))"
  unfolding mmu_unmap_page_def pt_of_def pd_of_def Let_def by simp

lemma mmu_get_phys_eq:
  "mmu_get_phys va s =
    (case pt_of s va of
       Some pt \<Rightarrow> let e = entry s pt (PT_INDEX va) in if present e then target e + (va AND 0xFFF) else 0
     | None \<Rightarrow>
         let e4 = entry s (pg_pml4_table s) (PML4_INDEX va); e3 = entry s (target e4) (PDPT_INDEX va);
             e2 = entry s (target e3) (PD_INDEX va)
         in if \<not> present e4 \<or> \<not> present e3 then 0
            else if huge e3 then target e3 + (va AND 0x3FFFFFFF)
            else if present e2 \<and> huge e2 then target e2 + (va AND 0x1FFFFF) else 0)"
  unfolding mmu_get_phys_def pt_of_def pd_of_def Let_def target_def by simp

section \<open>Trees\<close>

text \<open>
  The tables by level: the one at the top, the tables \<open>T3\<close>, the directories \<open>T2\<close> and the page tables \<open>T1\<close>. An
  entry leads one level down, and no table has two levels.
\<close>

definition pg_tree :: "u64 set \<Rightarrow> u64 set \<Rightarrow> u64 set \<Rightarrow> paging \<Rightarrow> bool" where
  "pg_tree T3 T2 T1 s \<longleftrightarrow>
     page_aligned (pg_pml4_table s) \<and> (\<forall>t \<in> T3 \<union> T2 \<union> T1. page_aligned t) \<and>
     pg_pml4_table s \<notin> T1 \<and> T3 \<inter> T1 = {} \<and> T2 \<inter> T1 = {} \<and> pg_pml4_table s \<notin> T2 \<and> T3 \<inter> T2 = {} \<and>
     (\<forall>i. unat i < 512 \<and> present (entry s (pg_pml4_table s) i) \<longrightarrow> target (entry s (pg_pml4_table s) i) \<in> T3) \<and>
     (\<forall>t \<in> T3. \<forall>i. unat i < 512 \<and> present (entry s t i) \<and> \<not> huge (entry s t i) \<longrightarrow> target (entry s t i) \<in> T2) \<and>
     (\<forall>t \<in> T2. \<forall>i. unat i < 512 \<and> present (entry s t i) \<and> \<not> huge (entry s t i) \<longrightarrow> target (entry s t i) \<in> T1)"

lemma pd_of_level: "pg_tree T3 T2 T1 s \<Longrightarrow> pd_of s va = Some pd \<Longrightarrow> pd \<in> T2"
  unfolding pg_tree_def pd_of_def Let_def by (auto split: if_splits)

lemma pt_of_level:
  assumes "pg_tree T3 T2 T1 s" "pt_of s va = Some pt"
  shows "pt \<in> T1"
proof -
  obtain pd where pd: "pd_of s va = Some pd" "present (entry s pd (PD_INDEX va))" "\<not> huge (entry s pd (PD_INDEX va))"
    and pt: "pt = target (entry s pd (PD_INDEX va))"
    using assms(2) unfolding pt_of_def Let_def by (auto split: if_splits option.splits)
  have "pd \<in> T2" by (rule pd_of_level [OF assms(1) pd(1)])
  then show ?thesis using assms(1) pd(2,3) unfolding pt pg_tree_def by simp
qed

text \<open>Writing to a page table leaves all that is above it.\<close>

lemma upper_entries:
  assumes "pg_tree T3 T2 T1 s" "t \<in> T1" "unat i < 512"
    and "u = pg_pml4_table s \<or> u \<in> T3 \<or> u \<in> T2" "unat j < 512"
  shows "entry (set_entry t i v s) u j = entry s u j"
  using assms by (subst entry_set_entry) (auto simp: pg_tree_def)

lemma pg_tree_set:
  assumes "pg_tree T3 T2 T1 s" "t \<in> T1" "unat i < 512"
  shows "pg_tree T3 T2 T1 (set_entry t i v s)"
  using assms(1) upper_entries [OF assms] unfolding pg_tree_def by (simp cong: conj_cong)

lemma pd_of_set:
  assumes "pg_tree T3 T2 T1 s" "t \<in> T1" "unat i < 512"
  shows "pd_of (set_entry t i v s) va = pd_of s va"
proof -
  have 4: "entry (set_entry t i v s) (pg_pml4_table s) (PML4_INDEX va) = entry s (pg_pml4_table s) (PML4_INDEX va)"
    by (rule upper_entries [OF assms]) simp_all
  show ?thesis
  proof (cases "present (entry s (pg_pml4_table s) (PML4_INDEX va))")
    case True
    then have "target (entry s (pg_pml4_table s) (PML4_INDEX va)) \<in> T3"
      using assms(1) unfolding pg_tree_def by simp
    then show ?thesis unfolding pd_of_def Let_def set_entry_simps 4
      by (subst (1 2 3) upper_entries [OF assms]) simp_all
  qed (simp add: pd_of_def 4 Let_def)
qed

lemma pt_of_set:
  assumes "pg_tree T3 T2 T1 s" "t \<in> T1" "unat i < 512"
  shows "pt_of (set_entry t i v s) va = pt_of s va"
proof (cases "pd_of s va")
  case (Some pd)
  then have "entry (set_entry t i v s) pd (PD_INDEX va) = entry s pd (PD_INDEX va)"
    using pd_of_level [OF assms(1)] by (intro upper_entries [OF assms]) auto
  with Some show ?thesis by (simp add: pt_of_def pd_of_set [OF assms])
qed (simp add: pt_of_def pd_of_set [OF assms])

lemma settled_set:
  assumes "pg_tree T3 T2 T1 s" "t \<in> T1" "unat i < 512"
  shows "settled (set_entry t i v s) va = settled s va"
proof (cases "pd_of s va")
  case (Some pd)
  then have "entry (set_entry t i v s) pd (PD_INDEX va) = entry s pd (PD_INDEX va)"
    using pd_of_level [OF assms(1)] by (intro upper_entries [OF assms]) auto
  with Some show ?thesis by (simp add: settled_def pd_of_set [OF assms])
qed (simp add: settled_def pd_of_set [OF assms])

section \<open>Runs\<close>

datatype pg_op = Map u64 u64 u64 | Unmap u64

fun pg_virt :: "pg_op \<Rightarrow> u64" where
  "pg_virt (Map v p f) = v"
| "pg_virt (Unmap v) = v"

fun pg_step :: "pg_op \<Rightarrow> paging \<Rightarrow> paging" where
  "pg_step (Map v p f) s = mmu_map_page v p f s"
| "pg_step (Unmap v) s = mmu_unmap_page v s"

text \<open>Flags that leave the address alone.\<close>

fun pg_flags :: "pg_op \<Rightarrow> bool" where
  "pg_flags (Map v p f) \<longleftrightarrow> f AND PTE_ADDR_MASK = 0"
| "pg_flags (Unmap v) \<longleftrightarrow> True"

text \<open>
  The address space: what every address is translated to. An operation changes it at the addresses of
  the page it is for, wherever that page's entry is used.
\<close>

definition same_page :: "paging \<Rightarrow> u64 \<Rightarrow> u64 \<Rightarrow> bool" where
  "same_page s v w \<longleftrightarrow> pt_of s v \<noteq> None \<and> pt_of s v = pt_of s w \<and> PT_INDEX v = PT_INDEX w"

fun pg_page :: "pg_op \<Rightarrow> u64 \<Rightarrow> u64" where
  "pg_page (Map v p f) va = (p AND PTE_ADDR_MASK) + (va AND 0xFFF)"
| "pg_page (Unmap v) va = 0"

definition aspace_step :: "(u64 \<Rightarrow> u64 \<Rightarrow> bool) \<Rightarrow> pg_op \<Rightarrow> (u64 \<Rightarrow> u64) \<Rightarrow> u64 \<Rightarrow> u64" where
  "aspace_step same op A va = (if same (pg_virt op) va then pg_page op va else A va)"

fun pg_value :: "pg_op \<Rightarrow> u64" where
  "pg_value (Map v p f) = (p AND PTE_ADDR_MASK) OR f OR PTE_PRESENT"
| "pg_value (Unmap v) = 0"

lemma pg_step_eq:
  assumes "settled s (pg_virt op)"
  shows "pg_step op s =
    (case pt_of s (pg_virt op) of
       None \<Rightarrow> s
     | Some pt \<Rightarrow> mmu_flush_page (pg_virt op) (set_entry pt (PT_INDEX (pg_virt op)) (pg_value op) s))"
  using assms by (cases op) (simp_all add: mmu_map_settled mmu_unmap_eq split: option.splits)

lemma flush_walk [simp]:
  "pd_of (mmu_flush_page a s) = pd_of s" "pt_of (mmu_flush_page a s) = pt_of s"
  "settled (mmu_flush_page a s) = settled s" "pg_tree T3 T2 T1 (mmu_flush_page a s) = pg_tree T3 T2 T1 s"
  "mmu_get_phys va (mmu_flush_page a s) = mmu_get_phys va s"
  by (simp_all add: fun_eq_iff pd_of_def pt_of_def settled_def pg_tree_def mmu_get_phys_def Let_def split: option.splits)

lemma pg_step_walk:
  assumes "pg_tree T3 T2 T1 s" "settled s (pg_virt op)"
  shows "pg_tree T3 T2 T1 (pg_step op s)" "pt_of (pg_step op s) = pt_of s" "settled (pg_step op s) = settled s"
  using pt_of_level [OF assms(1), of "pg_virt op"]
  by (auto simp: assms(1) pg_step_eq [OF assms(2)] fun_eq_iff pg_tree_set [OF assms(1)] pt_of_set [OF assms(1)]
        settled_set [OF assms(1)] split: option.splits)

lemma entry_value:
  assumes "pg_flags op"
  shows "(if present (pg_value op) then target (pg_value op) + (va AND 0xFFF) else 0) = pg_page op va"
proof (cases op)
  case (Map v p f)
  have "f AND PTE_ADDR_MASK = 0" using assms Map by simp
  then have "target (pg_value op) = p AND PTE_ADDR_MASK"
    by (simp add: Map target_def bit.conj_disj_distrib2 PTE_PRESENT_def PTE_ADDR_MASK_def and.assoc)
  moreover have "present (pg_value op)"
    by (simp add: Map present_def bit.conj_disj_distrib2 PTE_PRESENT_def)
  ultimately show ?thesis by (simp add: Map)
qed (simp add: present_def)

lemma get_phys_set:
  assumes t: "pg_tree T3 T2 T1 s" and p: "t \<in> T1" "unat i < 512"
  shows "mmu_get_phys va (set_entry t i v s) =
    (if pt_of s va = Some t \<and> PT_INDEX va = i
     then (if present v then target v + (va AND 0xFFF) else 0) else mmu_get_phys va s)"
proof (cases "pt_of s va")
  case (Some pt)
  moreover have "pt \<in> T1" by (rule pt_of_level [OF t Some])
  then have "entry (set_entry t i v s) pt (PT_INDEX va) = (if pt = t \<and> PT_INDEX va = i then v else entry s pt (PT_INDEX va))"
    using t p by (intro entry_set_entry) (auto simp: pg_tree_def)
  ultimately show ?thesis unfolding mmu_get_phys_eq pt_of_set [OF t p] by (auto simp: Let_def)
next
  case None
  have u: "entry (set_entry t i v s) u j = entry s u j"
    if "u = pg_pml4_table s \<or> u \<in> T3 \<or> u \<in> T2" "unat j < 512" for u j
    by (rule upper_entries [OF t p that])
  have 3: "present (entry s (pg_pml4_table s) (PML4_INDEX va)) \<Longrightarrow> target (entry s (pg_pml4_table s) (PML4_INDEX va)) \<in> T3"
    using t unfolding pg_tree_def by simp
  have 2: "x \<in> T3 \<Longrightarrow> present (entry s x (PDPT_INDEX va)) \<Longrightarrow> \<not> huge (entry s x (PDPT_INDEX va)) \<Longrightarrow>
      target (entry s x (PDPT_INDEX va)) \<in> T2" for x
    using t unfolding pg_tree_def by simp
  show ?thesis unfolding mmu_get_phys_eq pt_of_set [OF t p] None using 3 2
    by (simp add: Let_def u)
qed

lemma get_phys_step:
  assumes "pg_tree T3 T2 T1 s" "settled s (pg_virt op)" "pg_flags op"
  shows "(\<lambda>va. mmu_get_phys va (pg_step op s)) = aspace_step (same_page s) op (\<lambda>va. mmu_get_phys va s)"
proof
  fix va
  show "mmu_get_phys va (pg_step op s) = aspace_step (same_page s) op (\<lambda>va. mmu_get_phys va s) va"
  proof (cases "pt_of s (pg_virt op)")
    case (Some pt)
    have "pt \<in> T1" by (rule pt_of_level [OF assms(1) Some])
    then show ?thesis using Some entry_value [OF assms(3), of va]
      by (auto simp: pg_step_eq [OF assms(2)] get_phys_set [OF assms(1)] aspace_step_def same_page_def)
  qed (simp add: pg_step_eq [OF assms(2)] aspace_step_def same_page_def)
qed

lemma pg_run_ok:
  assumes "pg_tree T3 T2 T1 s" "\<forall>op \<in> set ops. settled s (pg_virt op) \<and> pg_flags op"
  shows "(\<lambda>va. mmu_get_phys va (fold pg_step ops s)) = fold (aspace_step (same_page s)) ops (\<lambda>va. mmu_get_phys va s)"
  using assms
proof (induction ops arbitrary: s)
  case (Cons op ops)
  note w = pg_step_walk [OF Cons.prems(1), of op]
  have "same_page (pg_step op s) = same_page s" using w Cons.prems(2) by (simp add: same_page_def fun_eq_iff)
  then show ?case using Cons.IH [of "pg_step op s"] get_phys_step [OF Cons.prems(1), of op] w Cons.prems(2) by simp
qed simp

section \<open>Regions without a page table\<close>

lemma kernel_pt_target:
  assumes "k AND PTE_ADDR_MASK = k"
  shows "target (k OR PTE_PRESENT OR PTE_WRITABLE) = k" "present (k OR PTE_PRESENT OR PTE_WRITABLE)"
    "\<not> huge (k OR PTE_PRESENT OR PTE_WRITABLE)"
proof -
  have "k AND PTE_HUGE = (k AND PTE_ADDR_MASK) AND PTE_HUGE" by (simp only: assms)
  also have "\<dots> = 0" by (simp add: and.assoc PTE_ADDR_MASK_def PTE_HUGE_def)
  finally have h: "k AND PTE_HUGE = 0" .
  show "target (k OR PTE_PRESENT OR PTE_WRITABLE) = k"
    using assms by (simp add: target_def bit.conj_disj_distrib2 PTE_PRESENT_def PTE_WRITABLE_def PTE_ADDR_MASK_def)
  show "present (k OR PTE_PRESENT OR PTE_WRITABLE)"
    by (simp add: present_def bit.conj_disj_distrib2 PTE_PRESENT_def PTE_WRITABLE_def)
  show "\<not> huge (k OR PTE_PRESENT OR PTE_WRITABLE)"
    unfolding huge_def bit.conj_disj_distrib2 h by (simp add: PTE_PRESENT_def PTE_WRITABLE_def PTE_HUGE_def)
qed

lemma pg_tree_aligned:
  assumes "pg_tree T3 T2 T1 s" "u = pg_pml4_table s \<or> u \<in> T3 \<or> u \<in> T2 \<or> u \<in> T1"
  shows "page_aligned u"
  using assms unfolding pg_tree_def by blast

lemma directory_entry:
  assumes t: "pg_tree T3 T2 T1 s" and p: "pd \<in> T2" "unat i < 512"
    and u: "u = pg_pml4_table s \<or> u \<in> T3 \<or> u \<in> T2 \<or> u \<in> T1" "unat j < 512"
  shows "entry (set_entry pd i v s) u j = (if u = pd \<and> j = i then v else entry s u j)"
  using p u by (intro entry_set_entry pg_tree_aligned [OF t]) auto

lemma directory_set:
  assumes t: "pg_tree T3 T2 T1 s" and p: "pd \<in> T2" "unat i < 512" and v: "target v \<in> T1"
  shows "pg_tree T3 T2 T1 (set_entry pd i v s)" "pd_of (set_entry pd i v s) va = pd_of s va"
proof -
  note d = directory_entry [OF t p]
  have n: "pg_pml4_table s \<noteq> pd" "u \<in> T3 \<Longrightarrow> u \<noteq> pd" for u using t p(1) unfolding pg_tree_def by blast+
  have 4: "unat j < 512 \<Longrightarrow> entry (set_entry pd i v s) (pg_pml4_table s) j = entry s (pg_pml4_table s) j" for j
    using d [of "pg_pml4_table s" j] n by simp
  have 3: "u \<in> T3 \<Longrightarrow> unat j < 512 \<Longrightarrow> entry (set_entry pd i v s) u j = entry s u j" for u j
    using d [of u j] n by simp
  have 2: "u \<in> T2 \<Longrightarrow> unat j < 512 \<Longrightarrow> present (entry (set_entry pd i v s) u j) \<Longrightarrow>
      \<not> huge (entry (set_entry pd i v s) u j) \<Longrightarrow> target (entry (set_entry pd i v s) u j) \<in> T1" for u j
    using d [of u j] t v unfolding pg_tree_def by (simp split: if_splits)
  show "pg_tree T3 T2 T1 (set_entry pd i v s)"
    using t 4 3 2 unfolding pg_tree_def set_entry_simps by (simp cong: conj_cong)
  have "present (entry s (pg_pml4_table s) (PML4_INDEX va)) \<Longrightarrow> target (entry s (pg_pml4_table s) (PML4_INDEX va)) \<in> T3"
    using t unfolding pg_tree_def by simp
  then show "pd_of (set_entry pd i v s) va = pd_of s va"
    by (cases "present (entry s (pg_pml4_table s) (PML4_INDEX va))") (simp_all add: pd_of_def Let_def 4 3)
qed

text \<open>The first page of a region: the directory entry is filled in with the kernel's only table.\<close>

lemma mmu_map_supply:
  assumes t: "pg_tree T3 T2 T1 s" and k: "pg_kernel_pt_table s \<in> T1" "pg_kernel_pt_table s AND PTE_ADDR_MASK = pg_kernel_pt_table s"
    and pd: "pd_of s v = Some pd" "\<not> present (entry s pd (PD_INDEX v))" "\<not> huge (entry s pd (PD_INDEX v))"
    and m: "s' = mmu_map_page v p f s"
  shows "pg_tree T3 T2 T1 s'" "pd_of s' w = pd_of s w" "pg_kernel_pt_table s' = pg_kernel_pt_table s"
    "pe \<in> T2 \<Longrightarrow> unat j < 512 \<Longrightarrow> entry s' pe j = (if pe = pd \<and> j = PD_INDEX v
       then pg_kernel_pt_table s OR PTE_PRESENT OR PTE_WRITABLE else entry s pe j)"
    "unat j < 512 \<Longrightarrow> entry s' (pg_kernel_pt_table s) j = (if j = PT_INDEX v
       then (p AND PTE_ADDR_MASK) OR f OR PTE_PRESENT else entry s (pg_kernel_pt_table s) j)"
proof -
  let ?k = "pg_kernel_pt_table s" and ?e = "pg_kernel_pt_table s OR PTE_PRESENT OR PTE_WRITABLE"
  define s1 where "s1 = set_entry pd (PD_INDEX v) ?e s"
  have T2: "pd \<in> T2" by (rule pd_of_level [OF t pd(1)])
  note E = kernel_pt_target [OF k(2)]
  have d: "pg_tree T3 T2 T1 s1" "pd_of s1 va = pd_of s va" for va
    unfolding s1_def using directory_set [OF t T2, of "PD_INDEX v" ?e] E k by simp_all
  note e = directory_entry [OF t T2, of "PD_INDEX v" _ _ ?e, folded s1_def]
  have s': "s' = mmu_flush_page v (set_entry ?k (PT_INDEX v) ((p AND PTE_ADDR_MASK) OR f OR PTE_PRESENT) s1)"
  proof -
    have "entry s1 pd (PD_INDEX v) = ?e" using e [of pd] T2 by simp
    then show ?thesis using pd E unfolding m mmu_map_page_def pd_of_def s1_def Let_def
      by (auto split: if_splits)
  qed
  have k1: "pg_kernel_pt_table s1 = ?k" "pg_pml4_table s1 = pg_pml4_table s" by (simp_all add: s1_def)
  show "pg_tree T3 T2 T1 s'" unfolding s' using pg_tree_set [OF d(1) k(1)] by simp
  show "pd_of s' w = pd_of s w" unfolding s' using pd_of_set [OF d(1) k(1)] d(2) by simp
  show "pg_kernel_pt_table s' = pg_kernel_pt_table s" unfolding s' by (simp add: k1)
  show "pe \<in> T2 \<Longrightarrow> unat j < 512 \<Longrightarrow> entry s' pe j = (if pe = pd \<and> j = PD_INDEX v then ?e else entry s pe j)"
    unfolding s' using upper_entries [OF d(1) k(1), of "PT_INDEX v" pe j] e [of pe j] by simp
  show "unat j < 512 \<Longrightarrow> entry s' ?k j = (if j = PT_INDEX v
       then (p AND PTE_ADDR_MASK) OR f OR PTE_PRESENT else entry s ?k j)"
    unfolding s' using entry_set_entry [of ?k ?k "PT_INDEX v" j _ s1] pg_tree_aligned [OF t, of ?k] k(1) e [of ?k j] T2 t
    by (auto simp: pg_tree_def)
qed


lemma mmu_regions_aux:
  assumes t: "pg_tree T3 T2 T1 s" and k: "pg_kernel_pt_table s \<in> T1" "pg_kernel_pt_table s AND PTE_ADDR_MASK = pg_kernel_pt_table s"
    and v: "pd_of s v = Some pd" "\<not> present (entry s pd (PD_INDEX v))" "\<not> huge (entry s pd (PD_INDEX v))"
    and w: "pd_of s w = Some pe" "\<not> present (entry s pe (PD_INDEX w))" "\<not> huge (entry s pe (PD_INDEX w))"
    and n: "(pe, PD_INDEX w) \<noteq> (pd, PD_INDEX v)" and i: "PT_INDEX w = PT_INDEX v"
    and f: "f AND PTE_ADDR_MASK = 0" "g AND PTE_ADDR_MASK = 0"
  shows "mmu_get_phys v (mmu_map_page v p f s) = (p AND PTE_ADDR_MASK) + (v AND 0xFFF) \<and>
    mmu_get_phys v (mmu_map_page w q g (mmu_map_page v p f s)) = (q AND PTE_ADDR_MASK) + (v AND 0xFFF)"
proof -
  define s1 where "s1 = mmu_map_page v p f s"
  define s2 where "s2 = mmu_map_page w q g s1"
  have T2: "pd \<in> T2" "pe \<in> T2" using pd_of_level [OF t] v(1) w(1) by blast+
  note E = kernel_pt_target [OF k(2)]
  note m1 = mmu_map_supply [OF t k v s1_def]
  have e1: "entry s1 pd (PD_INDEX v) = pg_kernel_pt_table s OR PTE_PRESENT OR PTE_WRITABLE"
    "entry s1 pe (PD_INDEX w) = entry s pe (PD_INDEX w)"
    using m1(4) [OF T2(1), of "PD_INDEX v"] m1(4) [OF T2(2), of "PD_INDEX w"] n by auto
  have pt1: "pt_of s1 v = Some (pg_kernel_pt_table s)"
    unfolding pt_of_def m1(2) v(1) using e1 E by simp
  have w1: "pd_of s1 w = Some pe" "\<not> present (entry s1 pe (PD_INDEX w))" "\<not> huge (entry s1 pe (PD_INDEX w))"
    using w e1(2) m1(2) by simp_all
  have k1: "pg_kernel_pt_table s1 \<in> T1" "pg_kernel_pt_table s1 AND PTE_ADDR_MASK = pg_kernel_pt_table s1"
    using k m1(3) by simp_all
  note m2 = mmu_map_supply [OF m1(1) k1 w1 s2_def, unfolded m1(3)]
  have "entry s2 pd (PD_INDEX v) = entry s1 pd (PD_INDEX v)"
    using m2(4) [OF T2(1), of "PD_INDEX v"] n by auto
  then have pt2: "pt_of s2 v = Some (pg_kernel_pt_table s)"
    unfolding pt_of_def m2(2) m1(2) v(1) using e1 E by simp
  have "pg_page (Map u r h) v = (r AND PTE_ADDR_MASK) + (v AND 0xFFF)" for u r h by simp
  moreover have "mmu_get_phys v s1 = pg_page (Map v p f) v"
    unfolding mmu_get_phys_eq pt1 using m1(5) [of "PT_INDEX v"] entry_value [of "Map v p f" v, unfolded pg_value.simps] f by (simp add: Let_def)
  moreover have "mmu_get_phys v s2 = pg_page (Map w q g) v"
    unfolding mmu_get_phys_eq pt2 using m2(5) [of "PT_INDEX v"] entry_value [of "Map w q g" v, unfolded pg_value.simps] f i by (simp add: Let_def)
  ultimately show ?thesis unfolding s1_def s2_def by simp
qed

section \<open>Small trees\<close>

text \<open>One table at every level; the directory is empty, or its first entry is the page table.\<close>

definition pg_zero :: paging where
  "pg_zero = \<lparr>pg_mem = (\<lambda>_. 0), pg_pml4_table = 0x1000, pg_kernel_pt_table = 0x4000, pg_cr3 = 0x1000,
     pg_cr4 = 0, pg_efer = 0, pg_tlb = []\<rparr>"

definition pg_demo :: paging where
  "pg_demo = set_entry 0x2000 0 0x3003 (set_entry 0x1000 0 0x2003 pg_zero)"

definition pg_demo_full :: paging where
  "pg_demo_full = set_entry 0x3000 0 0x4003 pg_demo"

lemma pg_demo_aligned: "page_aligned 0x1000" "page_aligned 0x2000" "page_aligned 0x3000" "page_aligned 0x4000"
  by (simp_all add: page_aligned_def)

lemma pg_demo_entry:
  assumes "unat j < 512" "page_aligned u"
  shows "entry pg_demo u j = (if u = 0x2000 \<and> j = 0 then 0x3003 else if u = 0x1000 \<and> j = 0 then 0x2003 else 0)"
  using assms by (simp add: pg_demo_def entry_set_entry pg_demo_aligned) (simp add: pg_zero_def entry_def)

lemma pg_demo_tests:
  "present 0x2003" "\<not> huge 0x2003" "target 0x2003 = 0x2000" "present 0x3003" "\<not> huge 0x3003" "target 0x3003 = 0x3000"
  "present 0x4003" "\<not> huge 0x4003" "target 0x4003 = 0x4000" "\<not> present 0" "\<not> huge 0"
  by (simp_all add: present_def huge_def target_def PTE_PRESENT_def PTE_HUGE_def PTE_ADDR_MASK_def)

lemma pg_demo_pml4: "pg_pml4_table pg_demo = 0x1000" "pg_kernel_pt_table pg_demo = 0x4000"
  by (simp_all add: pg_demo_def pg_zero_def)

lemma pg_demo_tree: "pg_tree {0x2000} {0x3000} {0x4000} pg_demo"
proof -
  show ?thesis unfolding pg_tree_def
    by (simp add: pg_demo_pml4 pg_demo_entry pg_demo_aligned pg_demo_tests split: if_splits cong: conj_cong)
qed



section \<open>The tables of the boot code\<close>

lemma fold_slot_at:
  assumes inj: "\<And>i j. i < n \<Longrightarrow> j < n \<Longrightarrow> g i = g j \<Longrightarrow> i = j" and "k < n"
  shows "fold (\<lambda>i m. m(g i := V i)) [0..<n] m (g k) = V k"
  using assms
proof (induction n)
  case (Suc n)
  show ?case
  proof (cases "k = n")
    case False
    then have "g k \<noteq> g n" using Suc.prems by (metis lessI)
    then show ?thesis using Suc False by simp
  qed simp
qed simp

lemma fold_slot_other:
  assumes "\<And>i. i < n \<Longrightarrow> g i \<noteq> a"
  shows "fold (\<lambda>i m. m(g i := V i)) [0..<n] m a = m a"
  using assms
proof (induction n)
  case (Suc n)
  have "fold (\<lambda>i m. m(g i := V i)) [0..<n] m a = m a" by (rule Suc.IH) (use Suc.prems in auto)
  moreover have "a \<noteq> g n" using Suc.prems by auto
  ultimately show ?case by (simp add: fun_upd_other del: fun_upd_apply)
qed simp

text \<open>The four pages, for tables low in memory.\<close>

definition boot_tables :: "paging \<Rightarrow> bool" where
  "boot_tables s \<longleftrightarrow>
     page_aligned (pg_pml4_table s) \<and> unat (pg_pml4_table s) + 4 * 4096 \<le> 2 ^ 32 \<and>
     (\<exists>m. pg_mem s = setup_page_tables (pg_pml4_table s) m)"

lemma page_aligned_add: "page_aligned t \<Longrightarrow> unat u = unat t + 4096 * n \<Longrightarrow> page_aligned u"
  unfolding page_aligned_def by simp

lemma setup_tables_at:
  fixes t a :: u64
  assumes t: "unat t + 4 * 4096 \<le> 2 ^ 32" and a: "unat a = unat t + n" "n < 4 * 4096"
  shows "setup_page_tables t m a =
    (if n = 0 \<or> n = 2048 then (t + 4096) OR 3
     else if n = 4096 then (t + 8192) OR 3 else if n = 4104 then (t + 12288) OR 3
     else if 8192 \<le> n \<and> 8 dvd n then 0x83 + of_nat ((n - 8192) div 8) * 0x200000 else 0)"
proof -
  have at: "unat (t + of_nat k) = unat t + k" if "k < 4 * 4096" for k
    using t that by (simp add: unat_word_ariths unat_of_nat)
  have eq: "a = t + of_nat k \<longleftrightarrow> n = k" if "k < 4 * 4096" for k
    using at [OF that] a by (metis add_left_cancel word_unat_eq_iff)
  have d: "a - t < 4 * 4096"
  proof -
    have "a = t + of_nat n" using eq a(2) by blast
    then have "a - t = of_nat n" by simp
    then show ?thesis using a(2) by (simp add: word_less_nat_alt unat_of_nat)
  qed
  define g :: "nat \<Rightarrow> u64" where "g i = slot (t + 2 * 4096) (of_nat i)" for i
  have g: "g i = t + of_nat (8192 + 8 * i)" for i by (simp add: g_def slot_def)
  define M where "M = (\<lambda>x. if x - t < 4 * 4096 then 0 else m x)
    (t := (t + 4096) OR 3, slot t 256 := (t + 4096) OR 3, t + 4096 := (t + 2 * 4096) OR 3,
     slot (t + 4096) 1 := (t + 2 * 4096 + 4096) OR 3)"
  have M: "setup_page_tables t m a = fold (\<lambda>i m. m(g i := 0x83 + of_nat i * 0x200000)) [0..<512 * 2] M a"
    unfolding setup_page_tables_def M_def g_def Let_def ..
  show ?thesis
  proof (cases "8192 \<le> n \<and> 8 dvd n")
    case True
    then have "8 dvd n - 8192" by (simp add: dvd_diff_nat)
    then obtain k where "n - 8192 = 8 * k" ..
    with True have k: "n = 8192 + 8 * k" by linarith
    have "k < 1024" using k a(2) by simp
    moreover have "a = g k" using eq [of "8192 + 8 * k"] k a(2) by (simp add: g)
    moreover have "i = j" if "i < 1024" "j < 1024" "g i = g j" for i j
    proof -
      have gu: "unat (g l) = unat t + (8192 + 8 * l)" if "l < 1024" for l
      proof -
        have "8192 + 8 * l < 4 * 4096" using that by linarith
        from at [OF this] show ?thesis unfolding g .
      qed
      from gu [OF that(1)] gu [OF that(2)] show ?thesis unfolding that(3) by linarith
    qed
    ultimately have "setup_page_tables t m a = 0x83 + of_nat k * 0x200000"
      unfolding M using fold_slot_at [of 1024 g k "\<lambda>i. 0x83 + of_nat i * 0x200000" M] by simp
    then show ?thesis using k by simp
  next
    case False
    have "g i \<noteq> a" if "i < 1024" for i
      using eq [of "8192 + 8 * i"] that False unfolding g by auto
    then have "setup_page_tables t m a = M a" unfolding M by (intro fold_slot_other) simp
    moreover have h: "slot t 256 = t + of_nat 2048" "t + 4096 = t + of_nat 4096" "slot (t + 4096) 1 = t + of_nat 4104"
      by (simp_all add: slot_def)
    have "M a = (if n = 4104 then (t + 12288) OR 3 else if n = 4096 then (t + 8192) OR 3
        else if n = 2048 \<or> n = 0 then (t + 4096) OR 3 else 0)"
      using d eq [of 0] eq [of 2048] eq [of 4096] eq [of 4104]
      unfolding M_def fun_upd_apply slot_def by (simp add: ac_simps)
    ultimately show ?thesis using False by auto
  qed
qed

lemma boot_entries:
  assumes "boot_tables s"
  defines "t \<equiv> pg_pml4_table s"
  shows "unat i < 512 \<Longrightarrow> entry s t i = (if i = 0 \<or> i = 256 then (t + 4096) OR 3 else 0)"
    "unat i < 512 \<Longrightarrow> entry s (t + 4096) i = (if i = 0 then (t + 8192) OR 3 else if i = 1 then (t + 12288) OR 3 else 0)"
    "unat i < 512 \<Longrightarrow> entry s (t + 8192) i = 0x83 + i * 0x200000"
    "unat i < 512 \<Longrightarrow> entry s (t + 12288) i = 0x83 + (i + 512) * 0x200000"
proof -
  obtain m where m: "pg_mem s = setup_page_tables t m" and t: "page_aligned t" "unat t + 4 * 4096 \<le> 2 ^ 32"
    using assms unfolding boot_tables_def by auto
  have u: "unat (t + 4096) = unat t + 4096" "unat (t + 8192) = unat t + 8192" "unat (t + 12288) = unat t + 12288"
    using t(2) by (simp_all add: unat_word_ariths)
  have al: "page_aligned (t + 4096)" "page_aligned (t + 8192)" "page_aligned (t + 12288)"
    using page_aligned_add [OF t(1), of "t + 4096" 1] page_aligned_add [OF t(1), of "t + 8192" 2]
      page_aligned_add [OF t(1), of "t + 12288" 3] u by simp_all
  note at = setup_tables_at [OF t(2), of _ _ m]
  have i: "i = of_nat k \<longleftrightarrow> unat i = k" if "k < 512" for i :: u64 and k
    using that by (simp add: word_unat_eq_iff unat_of_nat)
  show "unat i < 512 \<Longrightarrow> entry s t i = (if i = 0 \<or> i = 256 then (t + 4096) OR 3 else 0)"
    using at [of "slot t i" "8 * unat i"] i [of 0 i] i [of 256 i] by (simp add: entry_def m slot_unat t)
  show "unat i < 512 \<Longrightarrow> entry s (t + 4096) i = (if i = 0 then (t + 8192) OR 3 else if i = 1 then (t + 12288) OR 3 else 0)"
    using at [of "slot (t + 4096) i" "4096 + 8 * unat i"] i [of 0 i] i [of 1 i] by (simp add: entry_def m slot_unat al u)
  show "unat i < 512 \<Longrightarrow> entry s (t + 8192) i = 0x83 + i * 0x200000"
    using at [of "slot (t + 8192) i" "8192 + 8 * unat i"] by (simp add: entry_def m slot_unat al u)
  show "unat i < 512 \<Longrightarrow> entry s (t + 12288) i = 0x83 + (i + 512) * 0x200000"
    using at [of "slot (t + 12288) i" "12288 + 8 * unat i"] by (simp add: entry_def m slot_unat al u)
qed


lemma target_id:
  assumes "page_aligned x" "unat x < 2 ^ 52"
  shows "x AND PTE_ADDR_MASK = x" "x AND 0xFFF = 0"
proof -
  have l: "unat (x AND mask 12) = 0"
    using unat_mask_bits [of x 12] assms(1) by (simp add: page_aligned_def)
  then have "x AND mask 12 = 0" by (simp add: word_unat_eq_iff)
  then show l': "x AND 0xFFF = 0" by (simp add: mask_numeral)
  have "unat (x AND mask 52) = unat x" using unat_mask_bits [of x 52] assms(2) by simp
  then have h: "x AND mask 52 = x" by (simp add: word_unat_eq_iff)
  have m: "PTE_ADDR_MASK = mask 52 XOR 0xFFF" by (simp add: PTE_ADDR_MASK_def mask_numeral)
  have "x AND PTE_ADDR_MASK = (x AND mask 52) XOR (x AND 0xFFF)"
    unfolding m by (simp add: bit.conj_xor_distrib)
  then show "x AND PTE_ADDR_MASK = x" unfolding h l' by simp
qed

lemma boot_block:
  assumes "page_aligned x" "unat x < 2 ^ 52"
  shows "present (0x83 + x)" "huge (0x83 + x)" "target (0x83 + x) = x"
proof -
  have "x AND 0x83 = (x AND 0xFFF) AND 0x83" by (simp add: and.assoc)
  then have "x AND 0x83 = 0" using target_id(2) [OF assms] by simp
  then have o: "0x83 + x = x OR 0x83" unfolding add.commute [of "0x83"] by (rule disjunctive_add_eq_or)
  show "present (0x83 + x)" unfolding o by (simp add: present_def bit.conj_disj_distrib2 PTE_PRESENT_def)
  show "huge (0x83 + x)" unfolding o by (simp add: huge_def bit.conj_disj_distrib2 PTE_HUGE_def)
  show "target (0x83 + x) = x" unfolding o
    using target_id(1) [OF assms] by (simp add: target_def bit.conj_disj_distrib2 PTE_ADDR_MASK_def)
qed

lemma boot_table:
  assumes "page_aligned x" "unat x < 2 ^ 52"
  shows "present (x OR 3)" "\<not> huge (x OR 3)" "target (x OR 3) = x"
  using kernel_pt_target [OF target_id(1) [OF assms]] by (simp_all add: PTE_PRESENT_def PTE_WRITABLE_def)

lemma boot_walk:
  assumes "boot_tables s"
  defines "t \<equiv> pg_pml4_table s"
  shows "present (entry s t (PML4_INDEX va)) \<longleftrightarrow> PML4_INDEX va = 0 \<or> PML4_INDEX va = 256"
    "PML4_INDEX va = 0 \<or> PML4_INDEX va = 256 \<Longrightarrow> target (entry s t (PML4_INDEX va)) = t + 4096"
    "present (entry s (t + 4096) (PDPT_INDEX va)) \<longleftrightarrow> PDPT_INDEX va = 0 \<or> PDPT_INDEX va = 1"
    "PDPT_INDEX va = 0 \<or> PDPT_INDEX va = 1 \<Longrightarrow> \<not> huge (entry s (t + 4096) (PDPT_INDEX va))"
    "PDPT_INDEX va = 0 \<or> PDPT_INDEX va = 1 \<Longrightarrow>
      entry s (target (entry s (t + 4096) (PDPT_INDEX va))) (PD_INDEX va) =
      0x83 + (PDPT_INDEX va * 512 + PD_INDEX va) * 0x200000"
proof -
  have t: "page_aligned t" "unat t + 4 * 4096 \<le> 2 ^ 32"
    using assms unfolding boot_tables_def by auto
  have u: "unat (t + 4096) = unat t + 4096" "unat (t + 8192) = unat t + 8192" "unat (t + 12288) = unat t + 12288"
    using t(2) by (simp_all add: unat_word_ariths)
  have al: "page_aligned (t + 4096)" "page_aligned (t + 8192)" "page_aligned (t + 12288)"
    using page_aligned_add [OF t(1), of "t + 4096" 1] page_aligned_add [OF t(1), of "t + 8192" 2]
      page_aligned_add [OF t(1), of "t + 12288" 3] u by simp_all
  have b: "unat (t + 4096) < 2 ^ 52" "unat (t + 8192) < 2 ^ 52" "unat (t + 12288) < 2 ^ 52"
    using t(2) unfolding u by simp_all
  note T = boot_table [OF al(1) b(1)] boot_table [OF al(2) b(2)] boot_table [OF al(3) b(3)]
  note e = boot_entries [OF assms(1), folded t_def]
  show "present (entry s t (PML4_INDEX va)) \<longleftrightarrow> PML4_INDEX va = 0 \<or> PML4_INDEX va = 256"
    "PML4_INDEX va = 0 \<or> PML4_INDEX va = 256 \<Longrightarrow> target (entry s t (PML4_INDEX va)) = t + 4096"
    by (auto simp: e(1) T pg_demo_tests)
  show "present (entry s (t + 4096) (PDPT_INDEX va)) \<longleftrightarrow> PDPT_INDEX va = 0 \<or> PDPT_INDEX va = 1"
    "PDPT_INDEX va = 0 \<or> PDPT_INDEX va = 1 \<Longrightarrow> \<not> huge (entry s (t + 4096) (PDPT_INDEX va))"
    by (auto simp: e(2) T pg_demo_tests)
  show "PDPT_INDEX va = 0 \<or> PDPT_INDEX va = 1 \<Longrightarrow>
      entry s (target (entry s (t + 4096) (PDPT_INDEX va))) (PD_INDEX va) =
      0x83 + (PDPT_INDEX va * 512 + PD_INDEX va) * 0x200000"
    by (auto simp: e T add.commute)
qed

lemma boot_phys:
  assumes "PDPT_INDEX va = 0 \<or> PDPT_INDEX va = 1"
  defines "x \<equiv> (PDPT_INDEX va * 512 + PD_INDEX va) * 0x200000"
  shows "page_aligned x" "unat x < 2 ^ 52" "x + (va AND 0x1FFFFF) = va AND 0x7FFFFFFF"
proof -
  let ?i = "(unat va div 2 ^ 30) mod 512" and ?j = "(unat va div 2 ^ 21) mod 512"
  have i: "unat (PDPT_INDEX va) = ?i" "unat (PD_INDEX va) = ?j"
    unfolding PDPT_INDEX_def PD_INDEX_def by (rule unat_index)+
  have i2: "?i < 2" using assms(1) i(1) by auto
  have x: "unat x = (?i * 512 + ?j) * 0x200000"
    unfolding x_def using i2 by (simp add: unat_word_ariths i)
  show "page_aligned x" unfolding page_aligned_def x by simp
  have "?j < 512" by simp
  then have xb: "unat x \<le> 1023 * 0x200000" using i2 unfolding x by simp
  then show "unat x < 2 ^ 52" by simp
  have l: "unat (va AND 0x7FFFFFFF) = unat va mod 2 ^ 31"
    using unat_mask_bits [of va 31] by (simp add: mask_numeral)
  have "(unat va div 2 ^ 30) mod 512 mod 2 = (unat va div 2 ^ 30) mod 2" by (rule mod_mod_cancel) simp
  then have "?i = (unat va div 2 ^ 30) mod 2" using i2 by simp
  moreover have "unat va mod 2 ^ 31 = ((unat va div 2 ^ 30) mod 2) * 2 ^ 30 + ?j * 2 ^ 21 + unat va mod 2 ^ 21"
  proof -
    have "unat va mod (2 ^ 30 * 2) = 2 ^ 30 * (unat va div 2 ^ 30 mod 2) + unat va mod 2 ^ 30"
      by (rule mod_mult2_eq)
    moreover have "unat va mod (2 ^ 21 * 512) = 2 ^ 21 * (unat va div 2 ^ 21 mod 512) + unat va mod 2 ^ 21"
      by (rule mod_mult2_eq)
    ultimately show ?thesis by simp
  qed
  ultimately have "unat x + unat (va AND 0x1FFFFF) = unat (va AND 0x7FFFFFFF)"
    unfolding x l unat_low by simp
  moreover have "unat (x + (va AND 0x1FFFFF)) = unat x + unat (va AND 0x1FFFFF)"
    using xb unat_low [of va] by (simp add: unat_word_ariths)
  ultimately show "x + (va AND 0x1FFFFF) = va AND 0x7FFFFFFF" by (simp add: word_unat_eq_iff)
qed


lemma boot_get_phys:
  assumes "boot_tables s"
  shows "mmu_get_phys va s =
    (if (PML4_INDEX va = 0 \<or> PML4_INDEX va = 256) \<and> (PDPT_INDEX va = 0 \<or> PDPT_INDEX va = 1)
     then va AND 0x7FFFFFFF else 0)"
proof (cases "PML4_INDEX va = 0 \<or> PML4_INDEX va = 256")
  case four: True
  show ?thesis
  proof (cases "PDPT_INDEX va = 0 \<or> PDPT_INDEX va = 1")
    case True
    note b = boot_block [OF boot_phys(1,2) [OF True]] boot_phys(3) [OF True]
    show ?thesis unfolding mmu_get_phys_def Let_def
      using boot_walk [OF assms, of va] four True b by (simp add: target_def [symmetric])
  next
    case False
    then show ?thesis unfolding mmu_get_phys_def Let_def using boot_walk(1-3) [OF assms, of va] four by simp
  qed
next
  case False
  then show ?thesis unfolding mmu_get_phys_def Let_def using boot_walk(1) [OF assms, of va] by simp
qed

lemma boot_fixed:
  assumes "boot_tables s"
  shows "mmu_map_page va p f s = s" "mmu_unmap_page va s = s"
proof -
  have h: "huge (entry s (target (entry s (target (entry s (pg_pml4_table s) (PML4_INDEX va))) (PDPT_INDEX va))) (PD_INDEX va))"
    if "PML4_INDEX va = 0 \<or> PML4_INDEX va = 256" "PDPT_INDEX va = 0 \<or> PDPT_INDEX va = 1"
    using boot_walk [OF assms, of va] boot_block(2) [OF boot_phys(1,2) [OF that(2)]] that by simp
  note w = boot_walk(1-3) [OF assms, of va]
  show "mmu_map_page va p f s = s"
  proof (cases "PML4_INDEX va = 0 \<or> PML4_INDEX va = 256")
    case True
    then show ?thesis unfolding mmu_map_page_def Let_def using w(1,2,3) h [OF True] by (simp cong: if_cong)
  qed (simp add: mmu_map_page_def w(1))
  show "mmu_unmap_page va s = s"
  proof (cases "PML4_INDEX va = 0 \<or> PML4_INDEX va = 256")
    case True
    then show ?thesis unfolding mmu_unmap_page_def Let_def using w(1,2,3) h [OF True] by (simp cong: if_cong)
  qed (simp add: mmu_unmap_page_def w(1))
qed

lemma boot_init:
  assumes "boot_tables s"
  shows "boot_tables (mmu_init cpuid s)"
  using assms unfolding boot_tables_def mmu_init_def mmu_flush_tlb_def Let_def by simp

lemma boot_run: "boot_tables s \<Longrightarrow> fold pg_step ops s = s"
proof (induction ops)
  case (Cons op ops)
  then show ?case by (cases op) (simp_all add: boot_fixed)
qed simp

text \<open>An address the processor accepts: bits 48 to 63 repeat bit 47.\<close>

definition canonical :: "u64 \<Rightarrow> bool" where
  "canonical va \<longleftrightarrow> va < 0x0000800000000000 \<or> 0xFFFF800000000000 \<le> va"

definition KERNEL_VIRT_BASE :: u64 where "KERNEL_VIRT_BASE = 0xFFFF800000000000"

lemma unat_31: "unat (va AND 0x7FFFFFFF :: u64) = unat va mod 2 ^ 31"
  using unat_mask_bits [of va 31] by (simp add: mask_numeral)

lemma boot_indices_low:
  assumes "va < 0x0000800000000000"
  shows "(PML4_INDEX va = 0 \<or> PML4_INDEX va = 256) \<and> (PDPT_INDEX va = 0 \<or> PDPT_INDEX va = 1) \<longleftrightarrow> va < 0x80000000"
    "va < 0x80000000 \<Longrightarrow> va AND 0x7FFFFFFF = va"
proof -
  have u: "unat va < 2 ^ 47" using assms by (simp add: word_less_nat_alt)
  have 4: "unat (PML4_INDEX va) = unat va div 2 ^ 39"
    unfolding PML4_INDEX_def unat_index using u by (intro mod_less) (simp add: div_less_iff_less_mult)
  have 3: "unat (PDPT_INDEX va) = (unat va div 2 ^ 30) mod 512" unfolding PDPT_INDEX_def by (rule unat_index)
  have "PML4_INDEX va = 0 \<longleftrightarrow> unat va < 2 ^ 39" "PML4_INDEX va \<noteq> 256"
    using 4 u by (auto simp: word_unat_eq_iff div_eq_0_iff div_less_iff_less_mult)
  moreover have "(PDPT_INDEX va = 0 \<or> PDPT_INDEX va = 1) \<longleftrightarrow> unat va < 2 ^ 31" if "unat va < 2 ^ 39"
  proof -
    have "unat (PDPT_INDEX va) = unat va div 2 ^ 30"
      unfolding 3 using that by (intro mod_less) (simp add: div_less_iff_less_mult)
    moreover have "unat va div 2 ^ 30 < 2 \<longleftrightarrow> unat va < 2 ^ 31" by (simp add: div_less_iff_less_mult)
    ultimately show ?thesis by (simp add: word_unat_eq_iff) linarith
  qed
  ultimately show "(PML4_INDEX va = 0 \<or> PML4_INDEX va = 256) \<and> (PDPT_INDEX va = 0 \<or> PDPT_INDEX va = 1) \<longleftrightarrow> va < 0x80000000"
    by (auto simp: word_less_nat_alt)
  show "va < 0x80000000 \<Longrightarrow> va AND 0x7FFFFFFF = va"
    using unat_31 [of va] by (simp add: word_unat_eq_iff word_less_nat_alt)
qed

lemma boot_indices_high:
  assumes "KERNEL_VIRT_BASE \<le> va"
  shows "(PML4_INDEX va = 0 \<or> PML4_INDEX va = 256) \<and> (PDPT_INDEX va = 0 \<or> PDPT_INDEX va = 1) \<longleftrightarrow>
      va - KERNEL_VIRT_BASE < 0x80000000"
    "va - KERNEL_VIRT_BASE < 0x80000000 \<Longrightarrow> va AND 0x7FFFFFFF = va - KERNEL_VIRT_BASE"
proof -
  define w where "w = unat (va - KERNEL_VIRT_BASE)"
  have va: "unat va = 2 ^ 47 * 131071 + w"
    using assms unfolding w_def KERNEL_VIRT_BASE_def by (simp add: unat_sub word_le_nat_alt)
  have "unat va < 2 ^ 64" using unsigned_less [of va] by simp
  then have w: "w < 2 ^ 47" unfolding va by simp
  have 4: "unat (PML4_INDEX va) = 256 + w div 2 ^ 39"
  proof -
    have "unat va div 2 ^ 39 = 512 * 65535 + (256 + w div 2 ^ 39)" unfolding va by simp
    moreover have "256 + w div 2 ^ 39 < 512" using w by (simp add: div_less_iff_less_mult)
    ultimately show ?thesis unfolding PML4_INDEX_def unat_index by (metis mod_less mod_mult_self4)
  qed
  have 3: "unat (PDPT_INDEX va) = (w div 2 ^ 30) mod 512"
  proof -
    have "unat va div 2 ^ 30 = 512 * 33554176 + w div 2 ^ 30" unfolding va by simp
    then show ?thesis unfolding PDPT_INDEX_def unat_index by (metis mod_mult_self4)
  qed
  have "PML4_INDEX va = 256 \<longleftrightarrow> w < 2 ^ 39" "PML4_INDEX va \<noteq> 0"
    using 4 by (auto simp: word_unat_eq_iff div_eq_0_iff)
  moreover have "(PDPT_INDEX va = 0 \<or> PDPT_INDEX va = 1) \<longleftrightarrow> w < 2 ^ 31" if "w < 2 ^ 39"
  proof -
    have "unat (PDPT_INDEX va) = w div 2 ^ 30"
      unfolding 3 using that by (intro mod_less) (simp add: div_less_iff_less_mult)
    moreover have "w div 2 ^ 30 < 2 \<longleftrightarrow> w < 2 ^ 31" by (simp add: div_less_iff_less_mult)
    ultimately show ?thesis by (simp add: word_unat_eq_iff) linarith
  qed
  ultimately show "(PML4_INDEX va = 0 \<or> PML4_INDEX va = 256) \<and> (PDPT_INDEX va = 0 \<or> PDPT_INDEX va = 1) \<longleftrightarrow>
      va - KERNEL_VIRT_BASE < 0x80000000"
    by (auto simp: word_less_nat_alt w_def [symmetric])
  show "va AND 0x7FFFFFFF = va - KERNEL_VIRT_BASE" if "va - KERNEL_VIRT_BASE < 0x80000000"
  proof -
    have l: "w < 2 ^ 31" using that by (simp add: word_less_nat_alt w_def)
    have "unat va = 2 ^ 31 * 8589869056 + w" unfolding va by simp
    then have "unat va mod 2 ^ 31 = w mod 2 ^ 31" by (metis mod_mult_self4)
    then have "unat va mod 2 ^ 31 = w" using l by simp
    then show ?thesis using unat_31 [of va] by (simp add: word_unat_eq_iff w_def)
  qed
qed

definition boot_phys_spec :: "u64 \<Rightarrow> u64" where
  "boot_phys_spec va =
     (if va < 0x80000000 then va
      else if KERNEL_VIRT_BASE \<le> va \<and> va - KERNEL_VIRT_BASE < 0x80000000 then va - KERNEL_VIRT_BASE else 0)"

lemma boot_translates:
  assumes "boot_tables s" "canonical va"
  shows "mmu_get_phys va (fold pg_step ops (mmu_init cpuid s)) = boot_phys_spec va"
proof -
  note b = boot_init [OF assms(1), of cpuid]
  show ?thesis
  proof (cases "va < 0x0000800000000000")
    case True
    then have "\<not> KERNEL_VIRT_BASE \<le> va" by (simp add: KERNEL_VIRT_BASE_def word_less_nat_alt word_le_nat_alt)
    with True show ?thesis
      using boot_indices_low [OF True] by (simp add: boot_run [OF b] boot_get_phys [OF b] boot_phys_spec_def)
  next
    case False
    then have h: "KERNEL_VIRT_BASE \<le> va" using assms(2) by (simp add: canonical_def KERNEL_VIRT_BASE_def)
    then have "\<not> va < 0x80000000" by (simp add: KERNEL_VIRT_BASE_def word_less_nat_alt word_le_nat_alt)
    with h show ?thesis
      using boot_indices_high [OF h] by (simp add: boot_run [OF b] boot_get_phys [OF b] boot_phys_spec_def)
  qed
qed
section \<open>The theorems\<close>

lemma pg_demo_full_tree: "pg_tree {0x2000} {0x3000} {0x4000} pg_demo_full" "pd_of pg_demo_full 0 = Some 0x3000"
    "pt_of pg_demo_full 0 = Some 0x4000"
proof -
  show "pg_tree {0x2000} {0x3000} {0x4000} pg_demo_full" unfolding pg_demo_full_def
    by (rule directory_set [OF pg_demo_tree]) (simp_all add: pg_demo_tests)
  have "pd_of pg_demo_full 0 = pd_of pg_demo 0" unfolding pg_demo_full_def
    by (rule directory_set [OF pg_demo_tree]) (simp_all add: pg_demo_tests)
  also have "\<dots> = Some 0x3000"
    by (simp add: pd_of_def PML4_INDEX_def PDPT_INDEX_def pg_demo_pml4 pg_demo_entry pg_demo_aligned pg_demo_tests Let_def)
  finally show pd: "pd_of pg_demo_full 0 = Some 0x3000" .
  have "entry pg_demo_full 0x3000 0 = 0x4003"
    unfolding pg_demo_full_def by (simp add: entry_set_entry pg_demo_aligned)
  then show "pt_of pg_demo_full 0 = Some 0x4000"
    unfolding pt_of_def pd by (simp add: PD_INDEX_def pg_demo_tests)
qed

text \<open>C17: a page mapped is a page translated. Over a tree of tables, after any sequence of mappings and
  unmappings at addresses that have a page table (or are inside a large page, where the code refuses),
  what \<open>mmu_get_phys\<close> returns for every address is what the sequence makes of the address space: the
  last operation on the page of an address decides, and no other page changes.\<close>

theorem mmu_run_refines:
  assumes "pg_tree T3 T2 T1 s" "\<forall>op \<in> set ops. settled s (pg_virt op) \<and> pg_flags op"
  shows "(\<lambda>va. mmu_get_phys va (fold pg_step ops s)) =
    fold (aspace_step (same_page s)) ops (\<lambda>va. mmu_get_phys va s)"
  by (rule pg_run_ok [OF assms])

theorem mmu_run_refines_witness:
  "mmu_get_phys 0x123 (fold pg_step [Map 0 0x5000 2, Map 0x1000 0x6000 2, Unmap 0x1000] pg_demo_full) = 0x5123"
proof -
  have pt: "pt_of pg_demo_full 0x1000 = Some 0x4000" "pt_of pg_demo_full 0x123 = Some 0x4000"
  proof -
    have i: "PML4_INDEX 0x1000 = PML4_INDEX 0" "PDPT_INDEX 0x1000 = PDPT_INDEX 0" "PD_INDEX 0x1000 = PD_INDEX 0"
      "PML4_INDEX 0x123 = PML4_INDEX 0" "PDPT_INDEX 0x123 = PDPT_INDEX 0" "PD_INDEX 0x123 = PD_INDEX 0"
      by (simp_all add: PML4_INDEX_def PDPT_INDEX_def PD_INDEX_def)
    show "pt_of pg_demo_full 0x1000 = Some 0x4000" "pt_of pg_demo_full 0x123 = Some 0x4000"
      unfolding pg_demo_full_tree(3) [symmetric] pt_of_def pd_of_def i by (rule refl)+
  qed
  have s: "settled pg_demo_full 0" "settled pg_demo_full 0x1000"
    using pg_demo_full_tree(3) pt(1) unfolding settled_def pt_of_def Let_def by (auto split: option.splits if_splits)
  have "(\<lambda>va. mmu_get_phys va (fold pg_step [Map 0 0x5000 2, Map 0x1000 0x6000 2, Unmap 0x1000] pg_demo_full)) =
    fold (aspace_step (same_page pg_demo_full)) [Map 0 0x5000 2, Map 0x1000 0x6000 2, Unmap 0x1000]
      (\<lambda>va. mmu_get_phys va pg_demo_full)"
    by (rule mmu_run_refines [OF pg_demo_full_tree(1)]) (simp add: s PTE_ADDR_MASK_def)
  from fun_cong [OF this, where x = "0x123"] show ?thesis
    by (simp add: aspace_step_def same_page_def pt pg_demo_full_tree(3) PT_INDEX_def PTE_ADDR_MASK_def)
qed

text \<open>One page table for all. Where the directory has no page table, \<open>mmu_map_page\<close> puts in the one
  static table there is. A page mapped in one such region reads back; a page mapped afterwards at the same
  index of another such region is what the first one then translates to.\<close>

theorem mmu_regions_share:
  assumes "pg_tree T3 T2 T1 s" "pg_kernel_pt_table s \<in> T1" "pg_kernel_pt_table s AND PTE_ADDR_MASK = pg_kernel_pt_table s"
    and "pd_of s v = Some pd" "\<not> present (entry s pd (PD_INDEX v))" "\<not> huge (entry s pd (PD_INDEX v))"
    and "pd_of s w = Some pe" "\<not> present (entry s pe (PD_INDEX w))" "\<not> huge (entry s pe (PD_INDEX w))"
    and "(pe, PD_INDEX w) \<noteq> (pd, PD_INDEX v)" "PT_INDEX w = PT_INDEX v"
    and "f AND PTE_ADDR_MASK = 0" "g AND PTE_ADDR_MASK = 0"
  shows "mmu_get_phys v (mmu_map_page v p f s) = (p AND PTE_ADDR_MASK) + (v AND 0xFFF) \<and>
    mmu_get_phys v (mmu_map_page w q g (mmu_map_page v p f s)) = (q AND PTE_ADDR_MASK) + (v AND 0xFFF)"
  by (rule mmu_regions_aux [OF assms])

theorem mmu_regions_share_witness:
  "mmu_get_phys 0 (mmu_map_page 0 0x5000 2 pg_demo) = 0x5000 \<and>
   mmu_get_phys 0 (mmu_map_page 0x200000 0x6000 2 (mmu_map_page 0 0x5000 2 pg_demo)) = 0x6000"
proof -
  have "pd_of pg_demo 0 = Some 0x3000" "pd_of pg_demo 0x200000 = Some 0x3000"
    by (simp_all add: pd_of_def PML4_INDEX_def PDPT_INDEX_def pg_demo_pml4 pg_demo_entry pg_demo_aligned pg_demo_tests Let_def)
  then show ?thesis
    using mmu_regions_share [OF pg_demo_tree, of 0 "0x3000" "0x200000" "0x3000" 2 2 "0x5000" "0x6000"]
    by (simp add: pg_demo_pml4 pg_demo_entry pg_demo_aligned pg_demo_tests PD_INDEX_def PT_INDEX_def PTE_ADDR_MASK_def)
qed

text \<open>C23: what the boot code maps is all there ever is. From the tables of the boot code, whatever pages
  the kernel maps and unmaps after \<open>mmu_init\<close>, an address is translated to itself below 2 GB, by its
  distance from the kernel's base in the 2 GB from there, and not at all anywhere else: all entries are
  large pages, which \<open>mmu_map_page\<close> and \<open>mmu_unmap_page\<close> leave alone without a word.\<close>

theorem boot_mapping_final:
  assumes "boot_tables s" "canonical va"
  shows "mmu_get_phys va (fold pg_step ops (mmu_init cpuid s)) = boot_phys_spec va"
  by (rule boot_translates [OF assms])

theorem boot_mapping_final_witness:
  "mmu_get_phys 0xFEE00000 (fold pg_step [Map 0xFEE00000 0xFEE00000 3]
     (mmu_init (\<lambda>_. 0) (pg_zero\<lparr>pg_mem := setup_page_tables 0x1000 (\<lambda>_. 0)\<rparr>))) = 0"
proof -
  have "boot_tables (pg_zero\<lparr>pg_mem := setup_page_tables 0x1000 (\<lambda>_. 0)\<rparr>)"
    by (auto simp: boot_tables_def pg_zero_def page_aligned_def)
  moreover have "canonical 0xFEE00000" by (simp add: canonical_def)
  ultimately show ?thesis
    using boot_mapping_final [of "pg_zero\<lparr>pg_mem := setup_page_tables 0x1000 (\<lambda>_. 0)\<rparr>" "0xFEE00000"
        "[Map 0xFEE00000 0xFEE00000 3]" "\<lambda>_. 0"]
    by (simp add: boot_phys_spec_def KERNEL_VIRT_BASE_def)
qed

end
