(* ===== verification/Mmu_Props.thy ===== *)
theory Mmu_Props
  imports Mmu Paging_Props
begin

text \<open>
  What the ARM64 page tables translate: the walk the architecture defines, from the level the tables are made for and from
  the level the translation control register selects. What the cache operations reach.
\<close>

section \<open>Filling tables\<close>

lemma table_fill_at:
  assumes "page_aligned t" "unat j < 512"
  shows "table_fill t e m (slot t j) = e (unat j)"
proof -
  have i: "unat (of_nat i :: u64) = i" if "i < 512" for i using that by (simp add: unat_of_nat)
  have "slot t j = slot t (of_nat (unat j))" by simp
  moreover have "i = k" if "i < 512" "k < 512" "slot t (of_nat i) = slot t (of_nat k)" for i k
    using that(3) slot_eq_iff [OF assms(1) assms(1), of "of_nat i" "of_nat k"] i [OF that(1)] i [OF that(2)] that(1,2)
    by (metis)
  ultimately show ?thesis
    using fold_slot_at [of 512 "\<lambda>i. slot t (of_nat i)" "unat j" e m] assms(2) by (simp add: table_fill_def)
qed

lemma table_fill_other:
  assumes "page_aligned t" "page_aligned u" "u \<noteq> t" "unat j < 512"
  shows "table_fill t e m (slot u j) = m (slot u j)"
  unfolding table_fill_def
proof (rule fold_slot_other)
  fix i :: nat assume "i < 512"
  then have "unat (of_nat i :: u64) < 512" by (simp add: unat_of_nat)
  then show "slot t (of_nat i) \<noteq> slot u j" using slot_eq_iff [OF assms(1,2) _ assms(4)] assms(3) by metis
qed

text \<open>Three different pages inside the 48 bits of a physical address.\<close>

definition arm_tables :: "arm_mmu \<Rightarrow> bool" where
  "arm_tables s \<longleftrightarrow> page_aligned (mm_l1_table s) \<and> page_aligned (mm_l2_table s) \<and> page_aligned (mm_l2_device_table s) \<and>
     distinct [mm_l1_table s, mm_l2_table s, mm_l2_device_table s] \<and>
     unat (mm_l2_table s) < 2 ^ 48 \<and> unat (mm_l2_device_table s) < 2 ^ 48"

lemma arm_init_entries:
  assumes "arm_tables s" "unat j < 512"
  shows "mm_mem (arm_mmu_init s) (slot (mm_l1_table s) j) =
      (if j = 0 then mm_l2_table s OR 3 else if j = 1 then mm_l2_device_table s OR 3 else 0)"
    "mm_mem (arm_mmu_init s) (slot (mm_l2_table s) j) = l2_descriptor (unat j)"
    "mm_mem (arm_mmu_init s) (slot (mm_l2_device_table s) j) = l2_device_descriptor (unat j)"
  using assms by (auto simp: arm_tables_def arm_mmu_init_def Let_def table_fill_at table_fill_other slot_eq_iff TT_TYPE_TABLE_def)

section \<open>Descriptors\<close>

text \<open>A block descriptor is an address without low bits, and attributes in the low bits.\<close>

lemma and_not_mask:
  assumes "x AND mask n = (0 :: u64)"
  shows "x AND NOT (mask n) = x"
proof (rule bit_word_eqI)
  fix i assume "i < LENGTH(64)"
  then show "bit (x AND NOT (mask n)) i = bit x i"
    using arg_cong [OF assms, of "\<lambda>w. bit w i"] by (auto simp: bit_simps)
qed

lemma block_fields:
  assumes "x AND mask 21 = 0" "c AND mask 21 = (c :: u64)"
  shows "n < 21 \<Longrightarrow> bit (x OR c) n = bit c n" "(x OR c) AND NOT (mask 21) = x"
    "(x OR c) AND NOT (mask 30) = x AND NOT (mask 30)" "drop_bit 2 (x OR c) AND 7 = drop_bit 2 c AND 7"
proof -
  have x: "\<not> bit x n" if "n < 21" for n
    using arg_cong [OF assms(1), of "\<lambda>w. bit w n"] that by (auto simp: bit_simps dest: bit_imp_le_length)
  have c: "n < 21" if "bit c n" for n
    using arg_cong [OF assms(2), of "\<lambda>w. bit w n"] that by (auto simp: bit_simps)
  show "n < 21 \<Longrightarrow> bit (x OR c) n = bit c n" using x by (simp add: bit_simps)
  show "(x OR c) AND NOT (mask 21) = x" by (rule bit_word_eqI) (use x c in \<open>auto simp: bit_simps\<close>)
  show "(x OR c) AND NOT (mask 30) = x AND NOT (mask 30)"
    by (rule bit_word_eqI) (use c in \<open>fastforce simp: bit_simps\<close>)
  have "(7 :: u64) = mask 3" by (simp add: mask_eq_exp_minus_1)
  show "drop_bit 2 (x OR c) AND 7 = drop_bit 2 c AND 7"
    unfolding \<open>7 = mask 3\<close> by (rule bit_word_eqI) (use x in \<open>auto simp: bit_simps\<close>)
qed


lemma device_attr: "TT_TYPE_BLOCK OR TT_ATTR_DEVICE = 0x401" "TT_TYPE_BLOCK OR TT_ATTR_NORMAL = 0x70D"
  by (simp_all add: TT_TYPE_BLOCK_def TT_ATTR_DEVICE_def TT_ATTR_NORMAL_def TT_AF_def TT_AP_RW_def TT_MAIR_DEV_def
      TT_SH_INNER_def TT_MAIR_WB_def)

definition device_index :: "nat \<Rightarrow> bool" where "device_index i \<longleftrightarrow> 64 \<le> i \<and> i < 128"

lemma push_index: "i < 512 \<Longrightarrow> unat (push_bit 21 (of_nat i) :: u64) = 2097152 * i"
  by (simp add: push_bit_eq_mult unat_word_ariths unat_of_nat)

lemma l2_descriptor_eq:
  assumes "i < 512"
  shows "l2_descriptor i = push_bit 21 (of_nat i) OR (if device_index i then 0x401 else 0x70D)"
proof -
  have "0x08000000 \<le> (push_bit 21 (of_nat i) :: u64) \<and> (push_bit 21 (of_nat i) :: u64) < 0x10000000 \<longleftrightarrow> device_index i"
    using push_index [OF assms] by (auto simp: word_le_nat_alt word_less_nat_alt device_index_def)
  then show ?thesis by (simp add: l2_descriptor_def Let_def or.assoc device_attr)
qed

lemma l2_device_descriptor_eq: "l2_device_descriptor i = (0x40000000 + push_bit 21 (of_nat i)) OR 0x401"
  by (simp add: l2_device_descriptor_def or.assoc device_attr)

section \<open>The walk of the architecture\<close>

text \<open>
  The translation of an address with pages of 4 KB: a table at level \<open>3 - r\<close> is indexed by nine bits of the address; a
  descriptor is invalid, a table of the next level, a page, or at the levels 1 and 2 a block whose access flag must be set. The
  result is the physical address and the index of the memory attributes. The bits of a block descriptor
  below its size are reserved and play no part.
\<close>

fun arm_walk :: "(u64 \<Rightarrow> u64) \<Rightarrow> nat \<Rightarrow> u64 \<Rightarrow> u64 \<Rightarrow> (u64 \<times> u64) option" where
  "arm_walk m r t va =
     (let d = m (slot t (drop_bit (12 + 9 * r) va AND 0x1FF)) in
      if \<not> bit d 0 then None
      else if 0 < r \<and> bit d 1 then arm_walk m (r - 1) (d AND 0x0000FFFFFFFFF000) va
      else if r = 0 \<and> \<not> bit d 1 \<or> r = 3 \<or> \<not> bit d 10 then None
      else Some (((d AND mask 48) AND NOT (mask (12 + 9 * r))) OR (va AND mask (12 + 9 * r)), drop_bit 2 d AND 7))"

declare arm_walk.simps [simp del]

text \<open>\<open>TCR_EL1.T0SZ\<close> gives the size of the addresses, which gives the level the walk starts from.\<close>

definition arm_translate :: "arm_mmu \<Rightarrow> u64 \<Rightarrow> (u64 \<times> u64) option" where
  "arm_translate s va =
     (let bits = 64 - unat (mm_tcr s AND 0x3F) in
      if 2 ^ bits \<le> unat va then None
      else arm_walk (mm_mem s) (if 39 < bits then 3 else if 30 < bits then 2 else 1) (mm_ttbr0 s) va)"

lemma arm_walk_invalid:
  assumes "m (slot t (drop_bit (12 + 9 * r) va AND 0x1FF)) = 0"
  shows "arm_walk m r t va = None"
  using assms by (subst arm_walk.simps) simp

lemma arm_walk_table:
  assumes "0 < r" "m (slot t (drop_bit (12 + 9 * r) va AND 0x1FF)) = u OR 3" "page_aligned u" "unat u < 2 ^ 48"
  shows "arm_walk m r t va = arm_walk m (r - 1) u va"
proof -
  have m: "u AND mask 12 = 0" "u AND mask 48 = u"
    using unat_mask_bits [of u 12] unat_mask_bits [of u 48] assms(3,4) by (simp_all add: word_unat_eq_iff page_aligned_def)
  have "(0x0000FFFFFFFFF000 :: u64) = mask 48 AND NOT (mask 12)" by (simp add: mask_numeral)
  then have "u AND 0x0000FFFFFFFFF000 = (u AND mask 48) AND NOT (mask 12)" by (simp only: and.assoc)
  then have "u AND 0x0000FFFFFFFFF000 = u" by (simp only: m(2) and_not_mask [OF m(1)])
  then have "(u OR 3) AND 0x0000FFFFFFFFF000 = u" by (simp add: bit.conj_disj_distrib2)
  then show ?thesis using assms(1,2) by (subst arm_walk.simps) (simp add: bit_simps)
qed

lemma arm_walk_block:
  assumes "0 < r" "r < 3" "m (slot t (drop_bit (12 + 9 * r) va AND 0x1FF)) = x OR c"
    and "x AND mask 21 = 0" "unat x < 2 ^ 48" "c \<in> {0x401, 0x70D}"
  shows "arm_walk m r t va = Some ((x AND NOT (mask (12 + 9 * r))) OR (va AND mask (12 + 9 * r)), if c = 0x401 then 0 else 3)"
proof -
  have c: "c AND mask 21 = c" using assms(6) by (auto simp: mask_numeral)
  have b: "bit (x OR c) 0" "\<not> bit (x OR c) 1" "bit (x OR c) 10"
    using block_fields(1) [OF assms(4) c] assms(6) by (auto simp: bit_simps)
  have m48: "(x OR c) AND mask 48 = x OR c"
  proof -
    have "x AND mask 48 = x" using unat_mask_bits [of x 48] assms(5) by (simp add: word_unat_eq_iff)
    moreover have "c AND mask 48 = c" using assms(6) by (auto simp: mask_numeral)
    ultimately show ?thesis by (simp add: bit.conj_disj_distrib2)
  qed
  have a: "(x OR c) AND NOT (mask (12 + 9 * r)) = x AND NOT (mask (12 + 9 * r))"
  proof -
    have "r = 1 \<or> r = 2" using assms(1,2) by auto
    moreover have "x AND NOT (mask 21) = x" by (rule and_not_mask [OF assms(4)])
    ultimately show ?thesis using block_fields(2,3) [OF assms(4) c] by auto
  qed
  have "drop_bit 2 (x OR c) AND 7 = (if c = 0x401 then 0 else 3)"
    using block_fields(4) [OF assms(4) c] assms(6) by auto
  then show ?thesis using assms(1-3) b by (subst arm_walk.simps) (simp add: m48 a)
qed


section \<open>Addresses\<close>

lemma index_21: "unat (drop_bit 21 va AND 0x1FF :: u64) < 512" "unat (drop_bit 30 va AND 0x1FF :: u64) < 512"
  by (rule index_less)+

lemma push_index_fields:
  assumes "i < 512"
  shows "(push_bit 21 (of_nat i) :: u64) AND mask 21 = 0" "unat (push_bit 21 (of_nat i) :: u64) < 2 ^ 30"
    "(push_bit 21 (of_nat i) :: u64) AND NOT (mask 30) = 0"
proof -
  show u: "unat (push_bit 21 (of_nat i) :: u64) < 2 ^ 30" using assms by (simp add: push_index)
  show "(push_bit 21 (of_nat i) :: u64) AND mask 21 = 0" by (rule bit_word_eqI) (auto simp: bit_simps)
  let ?x = "push_bit 21 (of_nat i) :: u64"
  have "?x AND mask 30 = ?x" using unat_mask_bits [of ?x 30] u by (simp add: word_unat_eq_iff)
  then have "?x AND NOT (mask 30) = (?x AND mask 30) AND NOT (mask 30)" by (simp only:)
  also have "\<dots> = ?x AND (mask 30 AND NOT (mask 30))" by (rule and.assoc)
  finally show "?x AND NOT (mask 30) = 0" by simp
qed

lemma device_block:
  assumes "i < 512"
  shows "(0x40000000 + push_bit 21 (of_nat i) :: u64) AND mask 21 = 0"
    "unat (0x40000000 + push_bit 21 (of_nat i) :: u64) < 2 ^ 31"
    "(0x40000000 + push_bit 21 (of_nat i) :: u64) = 0x40000000 OR push_bit 21 (of_nat i)"
    "(0x40000000 + push_bit 21 (of_nat i) :: u64) AND NOT (mask 30) = 0x40000000"
proof -
  let ?x = "push_bit 21 (of_nat i) :: u64"
  have m: "?x AND mask 30 = ?x" using unat_mask_bits [of ?x 30] push_index_fields(2) [OF assms] by (simp add: word_unat_eq_iff)
  have "0x40000000 AND ?x = 0x40000000 AND (?x AND mask 30)" by (simp only: m)
  also have "\<dots> = (0x40000000 AND mask 30) AND ?x" by (simp only: ac_simps)
  also have "\<dots> = 0" by (simp add: mask_numeral)
  finally show o: "0x40000000 + ?x = 0x40000000 OR ?x" by (rule disjunctive_add_eq_or)
  show "(0x40000000 + ?x) AND mask 21 = 0"
    using push_index_fields(1) [OF assms] unfolding o by (simp add: bit.conj_disj_distrib2 mask_numeral)
  show "unat (0x40000000 + ?x) < 2 ^ 31" using push_index_fields(2) [OF assms] by (simp add: unat_word_ariths)
  show "(0x40000000 + ?x) AND NOT (mask 30) = 0x40000000"
    using push_index_fields(3) [OF assms] unfolding o by (simp add: bit.conj_disj_distrib2 mask_numeral)
qed

text \<open>The index and the offset put together again.\<close>

lemma block_address: "push_bit 21 (drop_bit 21 va AND 0x1FF) OR (va AND mask 21) = (va AND mask 30 :: u64)"
proof -
  have m: "(0x1FF :: u64) = mask 9" by (simp add: mask_eq_exp_minus_1)
  show ?thesis unfolding m by (rule bit_word_eqI) (auto simp: bit_simps)
qed

lemma mask_30: "unat va < 2 ^ 30 \<Longrightarrow> va AND mask 30 = (va :: u64)"
  using unat_mask_bits [of va 30] by (simp add: word_unat_eq_iff)

lemma index_eq_iff: "k < 512 \<Longrightarrow> drop_bit n va AND 0x1FF = (of_nat k :: u64) \<longleftrightarrow> (unat va div 2 ^ n) mod 512 = k"
  by (simp add: word_unat_eq_iff unat_index unat_of_nat)

lemma second_gigabyte: "n div 2 ^ 30 = 1 \<Longrightarrow> n = 2 ^ 30 + n mod 2 ^ 30 \<and> n mod 2 ^ 30 < (2 ^ 30 :: nat)"
  using mult_div_mod_eq [of "2 ^ 30" n] by simp

lemma gigabyte:
  assumes "unat va div 2 ^ 30 = 1"
  shows "0x40000000 OR (va AND mask 30) = (va :: u64)"
proof -
  have l: "unat (va AND mask 30) = unat va mod 2 ^ 30" by (rule unat_mask_bits)
  have "0x40000000 AND (va AND mask 30) = va AND (0x40000000 AND mask 30)" by (simp add: ac_simps)
  then have "0x40000000 AND (va AND mask 30) = 0" by (simp add: mask_numeral)
  then have e: "0x40000000 OR (va AND mask 30) = 0x40000000 + (va AND mask 30)" by (rule disjunctive_add_eq_or [symmetric])
  have "unat va = 2 ^ 30 + unat va mod 2 ^ 30" using second_gigabyte [OF assms] by simp
  then have "unat (0x40000000 + (va AND mask 30)) = unat va" by (simp add: unat_word_ariths l)
  then show ?thesis unfolding e by (simp add: word_unat_eq_iff)
qed

section \<open>What is mapped\<close>

lemma walk_level1:
  assumes t: "arm_tables s" and va: "unat va < 2 ^ 39"
  shows "arm_walk (mm_mem (arm_mmu_init s)) 2 (mm_l1_table s) va =
    (if unat va < 2 ^ 31 then Some (va, if 2 ^ 30 \<le> unat va \<or> 0x08000000 \<le> unat va \<and> unat va < 0x10000000 then 0 else 3) else None)"
proof -
  let ?M = "mm_mem (arm_mmu_init s)" and ?j = "drop_bit 30 va AND 0x1FF" and ?i = "drop_bit 21 va AND 0x1FF"
  have j: "unat ?j = unat va div 2 ^ 30" using va by (simp add: unat_index)
  have i: "unat ?i = unat va div 2 ^ 21 mod 512" by (rule unat_index)
  have iw: "of_nat (unat ?i) = ?i" by simp
  have l1: "?M (slot (mm_l1_table s) ?j) = (if ?j = 0 then mm_l2_table s OR 3 else if ?j = 1 then mm_l2_device_table s OR 3 else 0)"
    by (rule arm_init_entries(1) [OF t index_21(2)])
  note l2 = arm_init_entries(2,3) [OF t index_21(1), of va]
  have pt: "page_aligned (mm_l2_table s)" "unat (mm_l2_table s) < 2 ^ 48" "page_aligned (mm_l2_device_table s)"
    "unat (mm_l2_device_table s) < 2 ^ 48" using t by (simp_all add: arm_tables_def)
  consider (0) "unat va div 2 ^ 30 = 0" | (1) "unat va div 2 ^ 30 = 1" | (2) "2 \<le> unat va div 2 ^ 30" by linarith
  then show ?thesis
  proof cases
    case 0
    then have v: "unat va < 2 ^ 30" by (simp add: div_eq_0_iff)
    have "?j = 0" using 0 j by (simp add: word_unat_eq_iff)
    then have "arm_walk ?M 2 (mm_l1_table s) va = arm_walk ?M 1 (mm_l2_table s) va"
      using arm_walk_table [of 2 ?M "mm_l1_table s" va] l1 pt by simp
    also have "\<dots> = Some (push_bit 21 ?i OR (va AND mask 21), if device_index (unat ?i) then 0 else 3)"
    proof -
      have "?M (slot (mm_l2_table s) ?i) = push_bit 21 ?i OR (if device_index (unat ?i) then 0x401 else 0x70D)"
        using l2(1) l2_descriptor_eq [OF index_21(1)] iw by simp
      from arm_walk_block [of 1 ?M "mm_l2_table s" va, OF _ _ _ push_index_fields(1) [OF index_21(1), unfolded iw]] this
      show ?thesis
        using push_index_fields(2) [OF index_21(1), of va] and_not_mask [OF push_index_fields(1) [OF index_21(1), of va]] iw
        by simp
    qed
    also have "device_index (unat ?i) \<longleftrightarrow> 0x08000000 \<le> unat va \<and> unat va < 0x10000000"
      unfolding i device_index_def using v by simp linarith
    finally show ?thesis unfolding block_address using v mask_30 [OF v] by simp
  next
    case 1
    then have v: "2 ^ 30 \<le> unat va" "unat va < 2 ^ 31" proof -
      have "(2 :: nat) ^ 31 = 2 ^ 30 + 2 ^ 30" by simp
      then show "2 ^ 30 \<le> unat va" "unat va < 2 ^ 31" using second_gigabyte [OF 1] by linarith+
    qed
    have "?j = 1" using 1 j by (simp add: word_unat_eq_iff)
    then have "arm_walk ?M 2 (mm_l1_table s) va = arm_walk ?M 1 (mm_l2_device_table s) va"
      using arm_walk_table [of 2 ?M "mm_l1_table s" va] l1 pt by simp
    also have "\<dots> = Some ((0x40000000 + push_bit 21 ?i) OR (va AND mask 21), 0)"
    proof -
      have "?M (slot (mm_l2_device_table s) ?i) = (0x40000000 + push_bit 21 ?i) OR 0x401"
        using l2(2) l2_device_descriptor_eq iw by simp
      from arm_walk_block [of 1 ?M "mm_l2_device_table s" va, OF _ _ _ device_block(1) [OF index_21(1), unfolded iw]] this
      show ?thesis
        using device_block(2) [OF index_21(1), of va] and_not_mask [OF device_block(1) [OF index_21(1), of va]] iw
        by simp
    qed
    also have "(0x40000000 + push_bit 21 ?i) OR (va AND mask 21) = va"
      using device_block(3) [OF index_21(1), of va] block_address [of va] gigabyte [OF 1] iw by (simp add: or.assoc)
    finally show ?thesis using v by simp
  next
    case 2
    then have "\<not> unat va < 2 ^ 31" by (simp add: le_div_geq less_eq_div_iff_mult_less_eq)
    moreover have "?j \<noteq> 0" "?j \<noteq> 1" using 2 j by (auto simp: word_unat_eq_iff)
    ultimately show ?thesis using l1 arm_walk_invalid [of ?M "mm_l1_table s" 2 va] by simp
  qed
qed


lemma walk_level0:
  assumes t: "arm_tables s" and va: "unat va < 2 ^ 48"
  shows "arm_walk (mm_mem (arm_mmu_init s)) 3 (mm_l1_table s) va =
    (if unat va < 2 ^ 39 then Some (va AND mask 30, if 2 ^ 36 \<le> unat va \<and> unat va < 2 ^ 37 then 0 else 3)
     else if unat va < 2 ^ 40 then Some (0x40000000 OR (va AND mask 30), 0) else None)"
proof -
  let ?M = "mm_mem (arm_mmu_init s)" and ?j = "drop_bit 39 va AND 0x1FF" and ?i = "drop_bit 30 va AND 0x1FF"
  have j: "unat ?j = unat va div 2 ^ 39" using va by (simp add: unat_index)
  have i: "unat ?i = unat va div 2 ^ 30 mod 512" by (rule unat_index)
  have iw: "of_nat (unat ?i) = ?i" by simp
  have l1: "?M (slot (mm_l1_table s) ?j) = (if ?j = 0 then mm_l2_table s OR 3 else if ?j = 1 then mm_l2_device_table s OR 3 else 0)"
    by (rule arm_init_entries(1) [OF t index_less])
  note l2 = arm_init_entries(2,3) [OF t index_21(2), of va]
  have pt: "page_aligned (mm_l2_table s)" "unat (mm_l2_table s) < 2 ^ 48" "page_aligned (mm_l2_device_table s)"
    "unat (mm_l2_device_table s) < 2 ^ 48" using t by (simp_all add: arm_tables_def)
  have p: "(2 :: nat) ^ 40 = 2 ^ 39 + 2 ^ 39" by simp
  consider (0) "unat va < 2 ^ 39" | (1) "2 ^ 39 \<le> unat va" "unat va < 2 ^ 40" | (2) "2 ^ 40 \<le> unat va" by linarith
  then show ?thesis
  proof cases
    case 0
    then have "?j = 0" using j by (simp add: word_unat_eq_iff)
    then have "arm_walk ?M 3 (mm_l1_table s) va = arm_walk ?M 2 (mm_l2_table s) va"
      using arm_walk_table [of 3 ?M "mm_l1_table s" va] l1 pt by simp
    also have "\<dots> = Some (va AND mask 30, if device_index (unat ?i) then 0 else 3)"
    proof -
      have "?M (slot (mm_l2_table s) ?i) = push_bit 21 ?i OR (if device_index (unat ?i) then 0x401 else 0x70D)"
        using l2(1) l2_descriptor_eq [OF index_21(2)] iw by simp
      from arm_walk_block [of 2 ?M "mm_l2_table s" va, OF _ _ _ push_index_fields(1) [OF index_21(2), unfolded iw]] this
      show ?thesis
        using push_index_fields(2,3) [OF index_21(2), of va] iw by simp
    qed
    also have "device_index (unat ?i) \<longleftrightarrow> 2 ^ 36 \<le> unat va \<and> unat va < 2 ^ 37"
      unfolding i device_index_def using 0 by simp linarith
    finally show ?thesis using 0 by simp
  next
    case 1
    then have "unat va div 2 ^ 39 = 1" by (simp add: div_nat_eqI)
    then have "?j = 1" using j by (simp add: word_unat_eq_iff)
    then have "arm_walk ?M 3 (mm_l1_table s) va = arm_walk ?M 2 (mm_l2_device_table s) va"
      using arm_walk_table [of 3 ?M "mm_l1_table s" va] l1 pt by simp
    also have "\<dots> = Some (0x40000000 OR (va AND mask 30), 0)"
    proof -
      have "?M (slot (mm_l2_device_table s) ?i) = (0x40000000 + push_bit 21 ?i) OR 0x401"
        using l2(2) l2_device_descriptor_eq iw by simp
      from arm_walk_block [of 2 ?M "mm_l2_device_table s" va, OF _ _ _ device_block(1) [OF index_21(2), unfolded iw]] this
      show ?thesis
        using device_block(2,4) [OF index_21(2), of va] iw by simp
    qed
    finally show ?thesis using 1 by simp
  next
    case 2
    then have "2 \<le> unat ?j" unfolding j by simp
    then have "?j \<noteq> 0" "?j \<noteq> 1" by auto
    then show ?thesis using 2 l1 arm_walk_invalid [of ?M "mm_l1_table s" 3 va] by simp
  qed
qed

section \<open>Cache lines\<close>

text \<open>The lines from \<open>a\<close> on, \<open>n\<close> of them.\<close>

lemma cache_loop_ok:
  assumes "unat a + 64 * n < 2 ^ 64" "e = a + of_nat (64 * n)"
  shows "cache_loop op a e h = Some (rev (map (\<lambda>k. op (a + of_nat (64 * k))) [0..<n]) @ h)"
  using assms
proof (induction n arbitrary: a h)
  case 0
  then show ?case by (subst cache_loop.simps) simp
next
  case (Suc n)
  have e: "unat e = unat a + 64 * Suc n" using Suc.prems by (simp add: unat_word_ariths unat_of_nat)
  have "unat (a + 64) = unat a + 64" using Suc.prems(1) by (simp add: unat_word_ariths)
  then have "cache_loop op (a + 64) e (op a # h) = Some (rev (map (\<lambda>k. op (a + 64 + of_nat (64 * k))) [0..<n]) @ op a # h)"
    using Suc.prems by (intro Suc.IH) (simp_all add: algebra_simps)
  moreover have "map (\<lambda>k. op (a + of_nat (64 * k))) [0..<Suc n] = op a # map (\<lambda>k. op (a + 64 + of_nat (64 * k))) [0..<n]"
    by (simp only: upt_conv_Cons map_Suc_upt [symmetric] zero_less_Suc list.map) (simp add: algebra_simps)
  ultimately show ?case using e by (subst cache_loop.simps) (simp add: word_less_nat_alt)
qed


lemma line_unat: "unat (x AND NOT 63 :: u64) = 64 * (unat x div 64)"
proof -
  have m: "(63 :: u64) = mask 6" by (simp add: mask_eq_exp_minus_1)
  have d: "x AND NOT 63 = push_bit 6 (drop_bit 6 x)" unfolding m by (rule bit_word_eqI) (auto simp: bit_simps)
  have "unat (drop_bit 6 x) = unat x div 64" using unat_shift [of 6 x] by simp
  moreover have "64 * (unat x div 64) < 2 ^ 64"
  proof -
    have "64 * (unat x div 64) \<le> unat x" by simp
    also have "\<dots> < 2 ^ 64" using unsigned_less [where w = x and ?'a = nat] by simp
    finally show ?thesis .
  qed
  ultimately show ?thesis unfolding d by (simp add: push_bit_eq_mult unat_word_ariths)
qed

lemma line_unat_neg: "unat (x AND - 64 :: u64) = 64 * (unat x div 64)"
  using line_unat [of x] by simp

text \<open>The lines that hold the bytes of a range.\<close>

definition lines_of :: "u64 \<Rightarrow> u64 \<Rightarrow> u64 set" where
  "lines_of addr len = {(addr + of_nat k) AND NOT 63 |k. k < unat len}"

lemma cache_lines_aux:
  fixes A L q :: nat
  assumes "0 < L"
  shows "(\<exists>k < L. (A + k) div 64 = q) \<longleftrightarrow> A div 64 \<le> q \<and> q < (A + L + 63) div 64"
proof
  assume "\<exists>k < L. (A + k) div 64 = q"
  then obtain k where k: "k < L" "(A + k) div 64 = q" by blast
  have "A div 64 \<le> (A + k) div 64" by (intro div_le_mono) simp
  moreover have "(A + k + 64) div 64 \<le> (A + L + 63) div 64" using k(1) by (intro div_le_mono) simp
  ultimately show "A div 64 \<le> q \<and> q < (A + L + 63) div 64" using k(2) by simp
next
  assume q: "A div 64 \<le> q \<and> q < (A + L + 63) div 64"
  have "(A + (64 * q - A)) div 64 = q"
  proof (cases "A \<le> 64 * q")
    case False
    then have "q \<le> A div 64" by (simp add: less_eq_div_iff_mult_less_eq mult.commute)
    then show ?thesis using q False by simp
  qed simp
  moreover have "64 * q - A < L"
  proof -
    have "64 * (q + 1) \<le> 64 * ((A + L + 63) div 64)" using q by simp
    also have "\<dots> \<le> A + L + 63" by simp
    finally show ?thesis using assms by simp
  qed
  ultimately show "\<exists>k < L. (A + k) div 64 = q" by blast
qed

lemma cache_range_ok:
  assumes b: "unat addr + unat len + 63 < 2 ^ 64" and l: "0 < len"
  shows "\<exists>ls. cache_loop op (addr AND NOT 63) ((addr + len + 63) AND NOT 63) h = Some (rev (map op ls) @ h) \<and>
    distinct ls \<and> set ls = lines_of addr len"
proof -
  define A L where "A = unat addr" and "L = unat len"
  have L: "0 < L" using l by (simp add: L_def word_less_nat_alt)
  have AL: "A + L + 63 < 2 ^ 64" using b by (simp add: A_def L_def)
  define q0 n where "q0 = A div 64" and "n = (A + L + 63) div 64 - A div 64"
  have le: "A div 64 \<le> (A + L + 63) div 64" by (intro div_le_mono) simp
  have top: "64 * ((A + L + 63) div 64) \<le> A + L + 63" by simp
  have ue: "unat (addr + len + 63) = A + L + 63" using AL by (simp add: unat_word_ariths A_def L_def)
  have a: "unat (addr AND NOT 63) = 64 * q0" by (simp add: line_unat_neg q0_def A_def)
  have e: "unat ((addr + len + 63) AND NOT 63) = 64 * (q0 + n)" unfolding line_unat ue using le by (simp add: q0_def n_def)
  have lim: "64 * (q0 + n) < 2 ^ 64" using top AL le by (simp add: q0_def n_def)
  define f :: "nat \<Rightarrow> u64" where "f k = (addr AND NOT 63) + of_nat (64 * k)" for k
  have f: "unat (f k) = 64 * (q0 + k)" if "k \<le> n" for k
    using lim that a unfolding f_def by (simp add: unat_word_ariths unat_of_nat)
  have "(addr + len + 63) AND NOT 63 = f n" using e f [of n] by (simp add: word_unat_eq_iff)
  then have "cache_loop op (addr AND NOT 63) ((addr + len + 63) AND NOT 63) h = Some (rev (map op (map f [0..<n])) @ h)"
    using cache_loop_ok [of "addr AND NOT 63" n "f n" op h] a lim by (simp add: f_def comp_def)
  moreover have "distinct (map f [0..<n])"
  proof -
    have "inj_on f {0..<n}" by (rule inj_onI) (use f in \<open>force simp: word_unat_eq_iff\<close>)
    then show ?thesis by (simp add: distinct_map)
  qed
  moreover have "set (map f [0..<n]) = lines_of addr len"
  proof -
    have sub: "unat ((addr + of_nat k) AND NOT 63) = 64 * ((A + k) div 64)" if "k < L" for k
      using AL that by (simp add: line_unat_neg unat_word_ariths unat_of_nat A_def)
    have "x \<in> f ` {0..<n} \<longleftrightarrow> x \<in> lines_of addr len" for x
    proof
      assume "x \<in> f ` {0..<n}"
      then obtain j where j: "j < n" "x = f j" by auto
      then have "A div 64 \<le> q0 + j \<and> q0 + j < (A + L + 63) div 64" by (simp add: q0_def n_def)
      then obtain k where "k < L" "(A + k) div 64 = q0 + j" using cache_lines_aux [OF L, of A "q0 + j"] by blast
      then have "x = (addr + of_nat k) AND NOT 63" using sub [of k] f [of j] j by (simp add: word_unat_eq_iff)
      then show "x \<in> lines_of addr len" using \<open>k < L\<close> by (auto simp: lines_of_def L_def)
    next
      assume "x \<in> lines_of addr len"
      then obtain k where k: "k < L" "x = (addr + of_nat k) AND NOT 63" by (auto simp: lines_of_def L_def)
      then have q: "q0 \<le> (A + k) div 64 \<and> (A + k) div 64 < q0 + n"
        using cache_lines_aux [OF L, of A "(A + k) div 64"] le by (auto simp: q0_def n_def)
      define j where "j = (A + k) div 64 - q0"
      have "j < n" "q0 + j = (A + k) div 64" using q by (auto simp: j_def)
      then have "x = f j" using sub [OF k(1)] f [of j] k(2) by (simp add: word_unat_eq_iff)
      then show "x \<in> f ` {0..<n}" using \<open>j < n\<close> by simp
    qed
    then show ?thesis by auto
  qed
  ultimately show ?thesis by blast
qed

lemma cache_range_eq: "cache_range op addr len h = cache_loop op (addr AND NOT 63) ((addr + len + 63) AND NOT 63) h"
  by (simp add: cache_range_def algebra_simps)

section \<open>Properties\<close>

definition arm_ex :: arm_mmu where
  "arm_ex = \<lparr>mm_mem = (\<lambda>_. 0), mm_l1_table = 0x40100000, mm_l2_table = 0x40101000, mm_l2_device_table = 0x40102000,
     mm_mair = 0, mm_tcr = 0, mm_ttbr0 = 0, mm_sctlr = 0, mm_cache = []\<rparr>"

lemma arm_ex_tables: "arm_tables arm_ex"
  by (simp add: arm_tables_def arm_ex_def page_aligned_def)

text \<open>The tables of \<open>mmu_init\<close> are the memory map they are written for. Walked from level 1, they translate every
  address below 2 GB to itself, as device memory from 0x08000000 to 0x0FFFFFFF and in the second gigabyte and as write-back memory
  elsewhere, and no other address.\<close>

theorem arm_tables_identity:
  assumes "arm_tables s" and "unat va < 2 ^ 39"
  shows "arm_walk (mm_mem (arm_mmu_init s)) 2 (mm_l1_table s) va =
    (if unat va < 2 ^ 31 then Some (va, if 2 ^ 30 \<le> unat va \<or> 0x08000000 \<le> unat va \<and> unat va < 0x10000000 then 0 else 3) else None)"
  using walk_level1 [OF assms] .

theorem arm_tables_identity_witness:
  "arm_walk (mm_mem (arm_mmu_init arm_ex)) 2 0x40100000 0x09000000 = Some (0x09000000, 0)"
  using arm_tables_identity [OF arm_ex_tables, of "0x09000000"] by (simp add: arm_ex_def)

text \<open>C21: But the control register selects addresses of 48 bits, whose walk starts from level 0, and the
  tables are read one level too high. Whatever the address, the first half terabyte shows the first gigabyte of memory over and
  over: the kernel, linked at 0x40000000, is looked for at address 0, and the registers of the devices below
  0x10000000 are write-back memory.\<close>

theorem arm_mmu_wrong_level:
  assumes "arm_tables s" and "unat va < 2 ^ 39"
  shows "arm_translate (arm_mmu_init s) va = Some (va AND 0x3FFFFFFF, if 2 ^ 36 \<le> unat va \<and> unat va < 2 ^ 37 then 0 else 3)"
proof -
  have "mm_tcr (arm_mmu_init s) AND 0x3F = 16" "mm_ttbr0 (arm_mmu_init s) = mm_l1_table s"
    by (simp_all add: arm_mmu_init_def Let_def)
  moreover have "(2 :: nat) ^ 39 < 2 ^ 48" by simp
  ultimately show ?thesis
    using walk_level0 [OF assms(1), of va] assms(2) by (simp add: arm_translate_def mask_numeral)
qed

theorem arm_mmu_wrong_level_witness:
  "arm_translate (arm_mmu_init arm_ex) 0x40000000 = Some (0, 3) \<and> arm_translate (arm_mmu_init arm_ex) 0x09000000 = Some (0x09000000, 3)"
  using arm_mmu_wrong_level [OF arm_ex_tables, of "0x40000000"] arm_mmu_wrong_level [OF arm_ex_tables, of "0x09000000"] by simp

text \<open>The cache operations end, and reach every line that holds a byte of the range, each once, and no other.\<close>

theorem dcache_reaches_lines:
  assumes "unat addr + unat len + 63 < 2 ^ 64" and "0 < len"
  shows "\<exists>ls. dcache_clean addr len s = Some (s\<lparr>mm_cache := rev (map Dc_cvac ls) @ mm_cache s\<rparr>) \<and>
    distinct ls \<and> set ls = lines_of addr len"
  using cache_range_ok [OF assms, of Dc_cvac "mm_cache s"] unfolding dcache_clean_def cache_range_eq by auto

theorem dcache_reaches_lines_witness:
  "\<exists>ls. dcache_clean 0x1010 0x40 arm_ex = Some (arm_ex\<lparr>mm_cache := rev (map Dc_cvac ls)\<rparr>) \<and> 0x1040 \<in> set ls"
proof -
  have "0x1040 \<in> lines_of 0x1010 0x40" unfolding lines_of_def by (rule CollectI, rule exI [of _ "0x30"]) simp
  then show ?thesis using dcache_reaches_lines [of "0x1010" "0x40" arm_ex] by (auto simp: arm_ex_def)
qed

end
