(* ===== verification/Startup.thy ===== *)
theory Startup
  imports Irq Eth Modbus_Tcp Opcua_Props Profinet_Frames
begin

text \<open>
  The start of the kernel, \<open>kernel/main.c\<close>: the console, the interface it registers, \<open>kernel_main\<close>, and what the
  tasks of the three protocols set up before their loops.

  The state \<open>board\<close> is the state of the interrupts with the network's inside, whose scheduler is the same one, and the accesses to the
  console's registers. An address of the image (a function, a stack, a static object) is a field
  of \<open>image\<close>, and \<open>lit\<close> gives the address of a string constant.
\<close>

section \<open>The console\<close>

text \<open>The accesses to the two registers of the port, the latest first; \<open>hw\<close> answers a read.\<close>

definition CON_DR :: addr where "CON_DR = 0x09000000"
definition CON_FR :: addr where "CON_FR = 0x09000018"

partial_function (option) con_wait :: "mmio_hw \<Rightarrow> mmio list \<Rightarrow> mmio list option" where
  "con_wait hw h = (if hw h CON_FR AND 0x20 \<noteq> 0 then con_wait hw (Rd CON_FR # h) else Some (Rd CON_FR # h))"

definition con_putc :: "mmio_hw \<Rightarrow> u8 \<Rightarrow> mmio list \<Rightarrow> mmio list option" where
  "con_putc hw c h = do { h \<leftarrow> con_wait hw h; Some (Wr CON_DR (ucast c) # h) }"

fun con_puts :: "mmio_hw \<Rightarrow> u8 list \<Rightarrow> mmio list \<Rightarrow> mmio list option" where
  "con_puts hw [] h = Some h"
| "con_puts hw (c # cs) h = do {
     h \<leftarrow> (if c = 10 then con_putc hw 13 h else Some h);
     h \<leftarrow> con_putc hw c h;
     con_puts hw cs h
   }"

definition hex_digits :: "u8 list" where "hex_digits = ascii ''0123456789ABCDEF''"

text \<open>\<open>for (i = 28; i >= 0; i -= 4) uart_putc(hex[(val >> i) & 0xF]);\<close>\<close>

fun print_nibbles :: "mmio_hw \<Rightarrow> u32 \<Rightarrow> nat list \<Rightarrow> mmio list \<Rightarrow> mmio list option" where
  "print_nibbles hw v [] h = Some h"
| "print_nibbles hw v (i # is) h = do {
     h \<leftarrow> con_putc hw (hex_digits ! unat (drop_bit i v AND 0xF)) h;
     print_nibbles hw v is h
   }"

definition print_hex :: "mmio_hw \<Rightarrow> u32 \<Rightarrow> mmio list \<Rightarrow> mmio list option" where
  "print_hex hw v h = do {
     h \<leftarrow> con_puts hw (ascii ''0x'') h;
     print_nibbles hw v [28, 24, 20, 16, 12, 8, 4, 0] h
   }"

text \<open>What \<open>sync_exception_handler\<close> prints before it waits for ever; its arguments are passed as 32-bit values.\<close>

definition sync_exception_report :: "mmio_hw \<Rightarrow> u64 \<Rightarrow> u64 \<Rightarrow> u64 \<Rightarrow> mmio list \<Rightarrow> mmio list option" where
  "sync_exception_report hw esr elr far h = do {
     h \<leftarrow> con_puts hw ([10] @ ascii ''!!! SYNC EXCEPTION !!!'' @ [10]) h;
     h \<leftarrow> con_puts hw (ascii ''ESR: '') h; h \<leftarrow> print_hex hw (ucast esr) h; h \<leftarrow> con_puts hw [10] h;
     h \<leftarrow> con_puts hw (ascii ''ELR: '') h; h \<leftarrow> print_hex hw (ucast elr) h; h \<leftarrow> con_puts hw [10] h;
     h \<leftarrow> con_puts hw (ascii ''FAR: '') h; h \<leftarrow> print_hex hw (ucast far) h; con_puts hw [10] h
   }"

text \<open>What \<open>fiq_handler\<close> and \<open>serror_handler\<close> print; the first returns, the second waits for ever.\<close>

definition fiq_report :: "mmio_hw \<Rightarrow> mmio list \<Rightarrow> mmio list option" where
  "fiq_report hw = con_puts hw (ascii ''FIQ!'' @ [10])"

definition serror_report :: "mmio_hw \<Rightarrow> mmio list \<Rightarrow> mmio list option" where
  "serror_report hw = con_puts hw (ascii ''SError!'' @ [10])"

section \<open>The interface\<close>

text \<open>The sending function of the interface: it releases the buffer.\<close>

definition main_eth_send :: driver where
  "main_eth_send nif zb w = Some (STATUS_OK, nb_free zb w)"

definition IP4_ADDR :: "u32 \<Rightarrow> u32 \<Rightarrow> u32 \<Rightarrow> u32 \<Rightarrow> u32" where
  "IP4_ADDR a b c d = push_bit 24 a OR push_bit 16 b OR push_bit 8 c OR d"

definition main_eth_init :: "addr \<Rightarrow> net \<Rightarrow> net" where
  "main_eth_init eth0 w =
     (let w = nif_upd eth0 (\<lambda>k. k\<lparr>nif_name := ''eth0'', nif_mac := [0x02, 0x00, 0x00, 0x00, 0x00, 0x01],
                nif_ip := IP4_ADDR 192 168 1 100, nif_netmask := IP4_ADDR 255 255 255 0,
                nif_gateway := IP4_ADDR 192 168 1 1, nif_mtu := 1500, nif_up := True, nif_priv := None\<rparr>) w
      in snd (netif_register eth0 w))"

section \<open>Starting\<close>

definition CONFIG_TASK_STACK_SIZE :: u64 where "CONFIG_TASK_STACK_SIZE = 4096"

record image =
  im_eth0 :: addr
  im_dma_pool :: addr
  im_timer_irq_handler :: addr
  im_main_tcb :: addr
  im_modbus_tcb :: addr
  im_opcua_tcb :: addr
  im_profinet_tcb :: addr
  im_main_task :: u64
  im_modbus_task :: u64
  im_opcua_task :: u64
  im_profinet_task :: u64
  im_main_stack :: u64
  im_modbus_stack :: u64
  im_opcua_stack :: u64
  im_profinet_stack :: u64
  im_idle_task :: u64
  im_idle_stack :: u64

record board =
  bd_console :: "mmio list"
  bd_sys :: "net intr"

definition say :: "mmio_hw \<Rightarrow> u8 list \<Rightarrow> board \<Rightarrow> board option" where
  "say hw cs b = do { h \<leftarrow> con_puts hw cs (bd_console b); Some (b\<lparr>bd_console := h\<rparr>) }"

definition on_net :: "(net \<Rightarrow> net) \<Rightarrow> board \<Rightarrow> board" where
  "on_net f b = b\<lparr>bd_sys := net_put (f (net_of (bd_sys b))) (bd_sys b)\<rparr>"

definition net_dma_pool_init :: "addr \<Rightarrow> net \<Rightarrow> net" where
  "net_dma_pool_init dma_pool w =
     w\<lparr>n_dma := dma_mempool (dma_pool_init dma_pool \<lparr>dma_heap = n_heap w, dma_mempool = n_dma w\<rparr>)\<rparr>"

definition on_sched :: "(sched \<Rightarrow> sched option) \<Rightarrow> board \<Rightarrow> board option" where
  "on_sched f b = do { s \<leftarrow> f (in_sched (bd_sys b)); Some (b\<lparr>bd_sys := (bd_sys b)\<lparr>in_sched := s\<rparr>\<rparr>) }"

definition create :: "addr \<Rightarrow> string \<Rightarrow> u64 \<Rightarrow> u8 \<Rightarrow> u64 \<Rightarrow> sched \<Rightarrow> sched option" where
  "create tcb name entry priority stack s =
     map_option snd (task_create (Some tcb) name entry 0 priority stack CONFIG_TASK_STACK_SIZE s)"

text \<open>The scheduler does not run yet, so that \<open>task_start\<close> comes back.\<close>

definition start :: "addr \<Rightarrow> sched \<Rightarrow> sched option" where
  "start tcb s = do { (st, r) \<leftarrow> task_start (Some tcb) s; case r of Ret s \<Rightarrow> Some s | Sw s \<Rightarrow> None }"

definition create_tasks :: "image \<Rightarrow> sched \<Rightarrow> sched option" where
  "create_tasks im s = do {
     s \<leftarrow> create (im_main_tcb im) ''main'' (im_main_task im) 8 (im_main_stack im) s;
     s \<leftarrow> create (im_modbus_tcb im) ''modbus'' (im_modbus_task im) 10 (im_modbus_stack im) s;
     s \<leftarrow> create (im_opcua_tcb im) ''opcua'' (im_opcua_task im) 10 (im_opcua_stack im) s;
     create (im_profinet_tcb im) ''profinet'' (im_profinet_task im) 12 (im_profinet_stack im) s
   }"

definition start_tasks :: "image \<Rightarrow> sched \<Rightarrow> sched option" where
  "start_tasks im s = do {
     s \<leftarrow> start (im_main_tcb im) s;
     s \<leftarrow> start (im_modbus_tcb im) s;
     s \<leftarrow> start (im_opcua_tcb im) s;
     start (im_profinet_tcb im) s
   }"

text \<open>
  \<open>kernel_main\<close>, with the first task that \<open>scheduler_start\<close> switches to; \<open>hw\<close> answers for the console, \<open>gic\<close> for the interrupt
  controller, and \<open>cnt\<close> is what the counter shows.
\<close>

definition kernel_main :: "mmio_hw \<Rightarrow> gic_hw \<Rightarrow> u64 \<Rightarrow> image \<Rightarrow> board \<Rightarrow> board option" where
  "kernel_main hw gic cnt im b = do {
     b \<leftarrow> say hw (ascii ''Initializing memory...'' @ [10]) b;
     let b = on_net (\<lambda>w. w\<lparr>n_heap := heap_init (n_heap w)\<rparr>) b;
     let b = on_net (net_dma_pool_init (im_dma_pool im)) b;
     b \<leftarrow> say hw (ascii ''Initializing zero-copy buffers...'' @ [10]) b;
     let b = on_net (\<lambda>w. w\<lparr>n_pool := snd (zbuf_pool_init (n_pool w))\<rparr>) b;
     b \<leftarrow> say hw (ascii ''Initializing interrupt controller...'' @ [10]) b;
     let b = b\<lparr>bd_sys := gic_init gic (bd_sys b)\<rparr>;
     b \<leftarrow> say hw (ascii ''Initializing timer...'' @ [10]) b;
     s \<leftarrow> clock_init cnt (im_timer_irq_handler im) (bd_sys b);
     b \<leftarrow> say hw (ascii ''Initializing network stack...'' @ [10]) (b\<lparr>bd_sys := s\<rparr>);
     let b = on_net net_stack_init b;
     let b = on_net (main_eth_init (im_eth0 im)) b;
     b \<leftarrow> say hw (ascii ''Creating tasks...'' @ [10]) b;
     b \<leftarrow> on_sched (create_tasks im) b;
     b \<leftarrow> on_sched (start_tasks im) b;
     b \<leftarrow> say hw (ascii ''Starting scheduler...'' @ [10, 10]) b;
     on_sched (scheduler_start (im_idle_task im) (im_idle_stack im)) b
   }"

section \<open>The tasks\<close>

text \<open>\<open>modbus_task\<close> up to its loop; \<open>coils\<close>, \<open>holding\<close> and \<open>input\<close> are its arrays.\<close>

definition modbus_task_data :: "addr \<Rightarrow> addr \<Rightarrow> addr \<Rightarrow> modbus_data \<Rightarrow> modbus_data" where
  "modbus_task_data coils holding input d =
     d\<lparr>md_coils := coils, md_coils_count := of_nat CONFIG_MODBUS_MAX_COILS,
       md_discrete_inputs := coils, md_discrete_inputs_count := of_nat CONFIG_MODBUS_MAX_COILS,
       md_holding_registers := holding, md_holding_registers_count := of_nat CONFIG_MODBUS_MAX_REGS,
       md_input_registers := input, md_input_registers_count := of_nat CONFIG_MODBUS_MAX_REGS,
       md_lock := SPINLOCK_INIT\<rparr>"

definition modbus_task_start ::
  "driver \<Rightarrow> addr \<Rightarrow> addr \<Rightarrow> addr \<Rightarrow> modbus_data \<Rightarrow> modbus_mem \<Rightarrow> net \<Rightarrow> (modbus_server \<times> status io) option" where
  "modbus_task_start drv coils holding input d m w =
     modbus_tcp_server_start drv (of_int CONFIG_MODBUS_TCP_PORT)
       (snd (modbus_server_init 1 (modbus_task_data coils holding input d) m)) w"

text \<open>The address space \<open>opcua_task\<close> builds.\<close>

definition OPCUA_NC_OBJECT :: u32 where "OPCUA_NC_OBJECT = 1"
definition OPCUA_NC_VARIABLE :: u32 where "OPCUA_NC_VARIABLE = 2"

definition int32_value :: "u32 \<Rightarrow> opcua_variant" where
  "int32_value v = \<lparr>va_type = OPCUA_TYPE_INT32, va_value = V_i32 v\<rparr>"

definition add_variable ::
  "(string \<Rightarrow> addr) \<Rightarrow> ptr \<Rightarrow> u32 \<Rightarrow> string \<Rightarrow> u32 \<Rightarrow> 'a opcua_server \<Rightarrow> heap \<Rightarrow> ('a opcua_server \<times> heap) option" where
  "add_variable lit parent i name v s h = do {
     (node, s, h) \<leftarrow> opcua_add_node parent (numeric_id 1 i) OPCUA_NC_VARIABLE (Some (lit name)) (Some (lit name)) s h;
     Some (if node \<noteq> None then snd (opcua_set_value node (int32_value v) s) else s, h)
   }"

definition opcua_task_space :: "(string \<Rightarrow> addr) \<Rightarrow> 'a opcua_server \<Rightarrow> heap \<Rightarrow> ('a opcua_server \<times> heap) option" where
  "opcua_task_space lit s h = do {
     let s = snd (opcua_server_init s);
     (root, s, h) \<leftarrow> opcua_add_node None (numeric_id 0 84) OPCUA_NC_OBJECT (Some (lit ''Root'')) (Some (lit ''Root Folder'')) s h;
     (objects, s, h) \<leftarrow> opcua_add_node root (numeric_id 0 85) OPCUA_NC_OBJECT (Some (lit ''Objects'')) (Some (lit ''Objects'')) s h;
     (s, h) \<leftarrow> add_variable lit objects 1001 ''Temperature'' 255 s h;
     add_variable lit objects 1002 ''Pressure'' 1013 s h
   }"

definition opcua_task_start ::
  "driver \<Rightarrow> (string \<Rightarrow> addr) \<Rightarrow> 'a opcua_server \<Rightarrow> net \<Rightarrow> ('a opcua_server \<times> status io) option" where
  "opcua_task_start drv lit s w = do {
     (s, h) \<leftarrow> opcua_task_space lit s (n_heap w);
     opcua_server_start drv CONFIG_OPCUA_PORT s (w\<lparr>n_heap := h\<rparr>)
   }"

text \<open>\<open>profinet_task\<close> up to its loop, and what a round of the loop does after the poll; \<open>counter\<close> is its static variable.\<close>

definition profinet_task_start :: "addr \<Rightarrow> 'a pnio_device \<Rightarrow> net \<Rightarrow> ('a pnio_device \<times> net) option" where
  "profinet_task_start eth0 d w = do {
     let d = snd (pnio_device_init eth0 (ascii ''rtos-device'') 0x1234 0x5678 w d);
     (st, d) \<leftarrow> pnio_add_slot 0 0x00000001 d;
     (st, d, w) \<leftarrow> pnio_add_subslot 0 1 0x00000001 0 0 d w;
     (st, d) \<leftarrow> pnio_add_slot 1 0x00000010 d;
     (st, d, w) \<leftarrow> pnio_add_subslot 1 1 0x00000001 8 8 d w;
     (st, d) \<leftarrow> pnio_plug_submodule 0 1 d;
     (st, d) \<leftarrow> pnio_plug_submodule 1 1 d;
     Some (snd (pnio_device_start d), w)
   }"

definition profinet_task_update :: "u8 \<Rightarrow> 'a pnio_device \<Rightarrow> net \<Rightarrow> u8 \<times> 'a pnio_device" where
  "profinet_task_update counter d w =
     (case pnio_get_input_data 1 1 d of
        None \<Rightarrow> (counter, d)
      | Some input \<Rightarrow>
          (counter + 1, d\<lparr>pd_mem := (pd_mem d)(input := counter, input + 1 := ucast (get_system_ticks (n_sched w) AND 0xFF))\<rparr>))"

text \<open>\<open>main_task\<close>: what it prints first, and a round of its loop after the second it sleeps, with the new \<open>uptime\<close>.\<close>

definition line :: "string \<Rightarrow> u8 list" where "line s = ascii s @ [10]"

definition main_banner :: "mmio_hw \<Rightarrow> mmio list \<Rightarrow> mmio list option" where
  "main_banner hw h = do {
     h \<leftarrow> con_puts hw [10] h;
     h \<leftarrow> con_puts hw (line ''========================================'') h;
     h \<leftarrow> con_puts hw (line '' Gracemont Industrial Control Framework'') h;
     h \<leftarrow> con_puts hw (line '' ARM64 RTOS with Zero-Copy Protocols'') h;
     h \<leftarrow> con_puts hw (line ''========================================'') h;
     h \<leftarrow> con_puts hw [10] h;
     h \<leftarrow> con_puts hw (line ''System Configuration:'') h;
     h \<leftarrow> con_puts hw (ascii ''  CPU: ARM64 @ '') h;
     h \<leftarrow> print_hex hw (ucast CONFIG_CPU_FREQ_HZ) h;
     h \<leftarrow> con_puts hw (line '' Hz'') h;
     h \<leftarrow> con_puts hw (ascii ''  Heap: '') h;
     h \<leftarrow> print_hex hw (of_int CONFIG_HEAP_SIZE) h;
     h \<leftarrow> con_puts hw (line '' bytes'') h;
     h \<leftarrow> con_puts hw (ascii ''  Zero-Copy Buffers: '') h;
     h \<leftarrow> print_hex hw (of_nat CONFIG_ZBUF_COUNT) h;
     h \<leftarrow> con_puts hw (ascii '' x '') h;
     h \<leftarrow> print_hex hw (of_int CONFIG_ZBUF_SIZE) h;
     h \<leftarrow> con_puts hw (line '' bytes'') h;
     h \<leftarrow> con_puts hw [10] h;
     h \<leftarrow> con_puts hw (line ''Network Configuration:'') h;
     h \<leftarrow> con_puts hw (line ''  Interface: eth0'') h;
     h \<leftarrow> con_puts hw (line ''  IP: 192.168.1.100'') h;
     h \<leftarrow> con_puts hw [10] h;
     h \<leftarrow> con_puts hw (line ''Industrial Protocols:'') h;
     h \<leftarrow> con_puts hw (line ''  Modbus TCP: Port 502'') h;
     h \<leftarrow> con_puts hw (line ''  OPC UA: Port 4840'') h;
     h \<leftarrow> con_puts hw (line ''  PROFINET RT: Active'') h;
     h \<leftarrow> con_puts hw [10] h;
     con_puts hw (ascii ''System running...'' @ [10, 10]) h
   }"

definition main_round :: "mmio_hw \<Rightarrow> zpool \<Rightarrow> u32 \<Rightarrow> mmio list \<Rightarrow> (u32 \<times> mmio list) option" where
  "main_round hw z uptime h =
     (let uptime = uptime + 1
      in if uptime mod 60 = 0 then do {
           h \<leftarrow> con_puts hw (ascii ''[System] Uptime: '') h;
           h \<leftarrow> print_hex hw uptime h;
           h \<leftarrow> con_puts hw (line '' seconds'') h;
           let (total, free, failures) = zbuf_pool_stats z;
           h \<leftarrow> con_puts hw (ascii ''  ZBuf Free: '') h;
           h \<leftarrow> print_hex hw free h;
           h \<leftarrow> con_puts hw (ascii ''/'') h;
           h \<leftarrow> print_hex hw total h;
           h \<leftarrow> con_puts hw [10] h;
           Some (uptime, h)
         } else Some (uptime, h))"

end
