(* ===== verification/Console.thy ===== *)
theory Console
  imports Config
begin

text \<open>
  Printing on a port, for the consoles of the two kernels: what a string and a number look like on the
  line, and the interface of a port that takes one character at a time.
\<close>

section \<open>Text\<close>

text \<open>A line feed is preceded by a carriage return.\<close>

fun crlf :: "u8 list \<Rightarrow> u8 list" where
  "crlf [] = []"
| "crlf (c # cs) = (if c = 10 then [13, 10] else [c]) @ crlf cs"

lemma crlf_append [simp]: "crlf (xs @ ys) = crlf xs @ crlf ys"
  by (induction xs) auto

lemma crlf_plain: "10 \<notin> set cs \<Longrightarrow> crlf cs = cs"
  by (induction cs) auto

section \<open>Numbers\<close>

definition hex_char :: "nat \<Rightarrow> u8" where
  "hex_char n = (if n < 10 then of_nat (48 + n) else of_nat (55 + n))"

definition digit_value :: "u8 \<Rightarrow> nat" where
  "digit_value c = (if c < 65 then unat c - 48 else unat c - 55)"

definition text_value :: "nat \<Rightarrow> u8 list \<Rightarrow> nat" where
  "text_value base ds = foldl (\<lambda>v d. base * v + digit_value d) 0 ds"

lemma unat_hex_char: "n < 16 \<Longrightarrow> unat (hex_char n) = (if n < 10 then 48 + n else 55 + n)"
proof -
  assume n: "n < 16"
  have u: "unat (of_nat m :: u8) = m" if "m < 256" for m
    using that by (simp only: unsigned_of_nat) (simp add: take_bit_eq_mod)
  show ?thesis
  proof (cases "n < 10")
    case True
    then show ?thesis using u[of "48 + n"] n by (simp only: hex_char_def if_True)
  next
    case False
    then show ?thesis using u[of "55 + n"] n by (simp only: hex_char_def if_False)
  qed
qed

lemma digit_value_hex: "n < 16 \<Longrightarrow> digit_value (hex_char n) = n"
  using unat_hex_char[of n] by (auto simp: digit_value_def word_less_nat_alt)

lemma hex_char_visible: "n < 16 \<Longrightarrow> hex_char n \<noteq> 10"
  using unat_hex_char[of n] by (auto split: if_splits)

text \<open>The \<open>k\<close> low digits of a number, the highest first.\<close>

definition hex_text :: "nat \<Rightarrow> nat \<Rightarrow> u8 list" where
  "hex_text k v = map (\<lambda>i. hex_char (v div 16 ^ i mod 16)) (rev [0 ..< k])"

lemma length_hex_text [simp]: "length (hex_text k v) = k"
  by (simp add: hex_text_def)

lemma hex_text_value: "text_value 16 (hex_text k v) = v mod 16 ^ k"
proof -
  have "foldl (\<lambda>a i. 16 * a + v div 16 ^ i mod 16) acc (rev [0 ..< k]) = acc * 16 ^ k + v mod 16 ^ k" for acc
  proof (induction k arbitrary: acc)
    case (Suc k)
    show ?case using Suc[of "16 * acc + v div 16 ^ k mod 16"] mod_mult2_eq[of v "16 ^ k" 16] by (simp add: algebra_simps)
  qed simp
  from this[of 0] show ?thesis by (simp add: text_value_def hex_text_def foldl_map digit_value_hex)
qed

lemma crlf_hex_text [simp]: "crlf (hex_text k v) = hex_text k v"
  by (rule crlf_plain) (auto simp: hex_text_def dest: sym[of 10] simp: hex_char_visible[symmetric])

text \<open>The tables of digits of the code, and the nibble at a position.\<close>

lemma hex_table:
  assumes "n < 16"
  shows "[48, 49, 50, 51, 52, 53, 54, 55, 56, 57, 65, 66, 67, 68, 69, 70] ! n = hex_char n"
proof -
  have "\<forall>k \<in> set [0 ..< 16]. [48, 49, 50, 51, 52, 53, 54, 55, 56, 57, 65, 66, 67, 68, 69, 70] ! k = hex_char k"
    by (simp add: upt_rec hex_char_def)
  then show ?thesis using assms by simp
qed

lemma nibble_value: "unat (drop_bit i v AND 0xF) = unat (v :: 'a :: len word) div 2 ^ i mod 16"
proof -
  have "drop_bit i v AND 0xF = take_bit 4 (drop_bit i v)" by (simp add: take_bit_eq_mask mask_eq_exp_minus_1)
  then have "unat (drop_bit i v AND 0xF) = unat (drop_bit i v) mod 16"
    by (simp only: unsigned_take_bit_eq) (simp add: take_bit_eq_mod)
  then show ?thesis by (simp only: unat_drop_bit_eq) (simp add: drop_bit_eq_div)
qed

text \<open>Decimal digits, without leading zeros.\<close>

fun dec_text :: "nat \<Rightarrow> u8 list" where
  "dec_text n = (if n < 10 then [of_nat (48 + n)] else dec_text (n div 10) @ [of_nat (48 + n mod 10)])"

declare dec_text.simps [simp del]

lemma dec_text_value: "text_value 10 (dec_text n) = n"
proof (induction n rule: dec_text.induct)
  case (1 n)
  have d: "digit_value (of_nat (48 + k)) = k" if "k < 10" for k
    using digit_value_hex[of k] that by (simp only: hex_char_def if_True)
  show ?case
  proof (cases "n < 10")
    case False
    have "text_value 10 (xs @ [c]) = 10 * text_value 10 xs + digit_value c" for xs c by (simp add: text_value_def)
    then show ?thesis using 1[OF False] False d[of "n mod 10"] by (subst dec_text.simps) simp
  qed (use d[of n] in \<open>simp add: dec_text.simps[of n] text_value_def\<close>)
qed

lemma dec_text_visible: "c \<in> set (dec_text n) \<Longrightarrow> 48 \<le> c \<and> c \<le> 57"
proof (induction n rule: dec_text.induct)
  case (1 n)
  have u: "unat (of_nat (48 + k) :: u8) = 48 + k" if "k < 10" for k
    using unat_hex_char[of k] that by (simp only: hex_char_def if_True)
  have d: "48 \<le> (of_nat (48 + k) :: u8) \<and> (of_nat (48 + k) :: u8) \<le> 57" if "k < 10" for k
    using u[OF that] that by (simp only: word_le_nat_alt) simp
  show ?case using 1 d[of n] d[of "n mod 10"] by (cases "n < 10") (auto simp: dec_text.simps[of n])
qed

lemma dec_text_no_zero: "0 < n \<Longrightarrow> hd (dec_text n) \<noteq> 48"
proof (induction n rule: dec_text.induct)
  case (1 n)
  have ne: "dec_text k \<noteq> []" for k by (simp add: dec_text.simps[of k])
  have "(of_nat (48 + n) :: u8) \<noteq> 48" if "n < 10" "0 < n"
    using arg_cong[where f = unat, of "of_nat (48 + n)" "48 :: u8"] unat_hex_char[of n] that
    by (simp only: hex_char_def if_True) auto
  then show ?case using 1 ne by (cases "n < 10") (auto simp: dec_text.simps[of n])
qed

section \<open>A port that takes characters\<close>

text \<open>
  \<open>putc\<close> sends one character and comes back, when the port is \<open>ready\<close>; \<open>sent\<close> is what went out. \<open>puts\<close> is
  the loop over a string, and \<open>digits\<close> one over a list of positions.
\<close>

locale char_out =
  fixes putc :: "u8 \<Rightarrow> 's \<Rightarrow> 's option" and puts :: "u8 list \<Rightarrow> 's \<Rightarrow> 's option"
    and digits :: "nat list \<Rightarrow> 's \<Rightarrow> 's option" and digit :: "nat \<Rightarrow> u8"
    and sent :: "'s \<Rightarrow> u8 list" and ready :: "'s \<Rightarrow> bool"
  assumes putc_out: "ready s \<Longrightarrow> \<exists>s'. putc c s = Some s' \<and> sent s' = sent s @ [c] \<and> ready s'"
    and puts_Nil: "puts [] s = Some s"
    and puts_Cons: "puts (c # cs) s =
      Option.bind (if c = 10 then putc 13 s else Some s) (\<lambda>s. Option.bind (putc c s) (puts cs))"
    and digits_Nil: "digits [] s = Some s"
    and digits_Cons: "digits (i # is) s = Option.bind (putc (digit i) s) (digits is)"
begin

lemma puts_out: "ready s \<Longrightarrow> \<exists>s'. puts cs s = Some s' \<and> sent s' = sent s @ crlf cs \<and> ready s'"
proof (induction cs arbitrary: s)
  case (Cons c cs)
  obtain s1 where s1: "(if c = 10 then putc 13 s else Some s) = Some s1" "ready s1"
    "sent s1 = sent s @ (if c = 10 then [13] else [])"
    using putc_out[OF Cons.prems, of 13] Cons.prems by (cases "c = 10") auto
  obtain s2 where s2: "putc c s1 = Some s2" "sent s2 = sent s1 @ [c]" "ready s2" using putc_out[OF s1(2)] by blast
  then show ?case using Cons.IH[OF s2(3)] s1 unfolding puts_Cons by auto
qed (simp add: puts_Nil)

lemma digits_out: "ready s \<Longrightarrow> \<exists>s'. digits is s = Some s' \<and> sent s' = sent s @ map digit is \<and> ready s'"
proof (induction "is" arbitrary: s)
  case (Cons i "is")
  obtain s1 where s1: "putc (digit i) s = Some s1" "sent s1 = sent s @ [digit i]" "ready s1" using putc_out[OF Cons.prems] by blast
  then show ?case using Cons.IH[OF s1(3)] by (auto simp: digits_Cons)
qed (simp add: digits_Nil)

end

end
