(* ===== verification/Startup_Props.thy ===== *)
theory Startup_Props
  imports Startup Console Irq_Props Eth_Props Eth_Start Profinet_Exchange
begin

text \<open>
  What the start-up code establishes: the text of the console, the state \<open>kernel_main\<close> hands to the first task, and what the
  protocol tasks have built when their loops begin.
\<close>

section \<open>The console\<close>

text \<open>What went out on the line, and a port whose transmitter always drains in the end.\<close>

fun sent :: "mmio list \<Rightarrow> u8 list" where
  "sent [] = []"
| "sent (Rd a # h) = sent h"
| "sent (Wr a v # h) = (if a = CON_DR then sent h @ [ucast v] else sent h)"

definition console_drains :: "mmio_hw \<Rightarrow> bool" where
  "console_drains hw \<longleftrightarrow> (\<forall>h. con_wait hw h \<noteq> None)"

lemma con_wait_sent: "con_wait hw h = Some h' \<Longrightarrow> sent h' = sent h"
  by (rule con_wait.raw_induct [where P = "\<lambda>hw h h'. sent h' = sent h"])
    (auto split: if_splits)

lemma ucast_char [simp]: "(ucast (ucast c :: u32) :: u8) = c"
  by (rule bit_word_eqI) (auto simp: bit_simps)

lemma con_putc_ok:
  assumes "console_drains hw"
  shows "\<exists>h'. con_putc hw c h = Some h' \<and> sent h' = sent h @ [c]"
proof -
  obtain h1 where "con_wait hw h = Some h1" using assms by (auto simp: console_drains_def)
  then show ?thesis using con_wait_sent[of hw h h1] by (simp add: con_putc_def)
qed

text \<open>The console is a port that takes characters.\<close>

interpretation con: char_out "con_putc hw" "con_puts hw" "print_nibbles hw v" "\<lambda>i. hex_digits ! unat (drop_bit i v AND 0xF)"
    sent "\<lambda>h. console_drains hw"
  for hw v
  by unfold_locales (simp_all add: con_putc_ok)

lemmas con_puts_ok = con.puts_out
lemmas print_nibbles_ok = con.digits_out

lemma say_ok:
  assumes "console_drains hw"
  shows "\<exists>h. say hw cs b = Some (b\<lparr>bd_console := h\<rparr>) \<and> sent h = sent (bd_console b) @ crlf cs"
  using con_puts_ok[OF assms, of cs "bd_console b"] by (auto simp: say_def)

section \<open>Numbers\<close>

lemma hex_digits_eq: "hex_digits = [48, 49, 50, 51, 52, 53, 54, 55, 56, 57, 65, 66, 67, 68, 69, 70]"
  by (simp add: hex_digits_def ascii_def of_char_def)

lemma hex_digits_nth: "n < 16 \<Longrightarrow> hex_digits ! n = hex_char n"
  unfolding hex_digits_eq by (rule hex_table)

definition hex8 :: "u32 \<Rightarrow> u8 list" where
  "hex8 v = hex_text 8 (unat v)"

lemma hex8_nibbles: "map (\<lambda>i. hex_digits ! unat (drop_bit i v AND 0xF)) [28, 24, 20, 16, 12, 8, 4, 0] = hex8 v"
proof -
  have "rev [0 ..< 8 :: nat] = [7, 6, 5, 4, 3, 2, 1, 0]" by (simp add: upt_rec)
  then show ?thesis by (simp add: hex8_def hex_text_def nibble_value hex_digits_nth)
qed

lemma print_hex_ok:
  assumes "console_drains hw"
  shows "\<exists>h'. print_hex hw v h = Some h' \<and> sent h' = sent h @ ascii ''0x'' @ hex8 v"
proof -
  have "crlf (ascii ''0x'') = ascii ''0x''" by (simp add: ascii_def of_char_def)
  then obtain h1 where h1: "con_puts hw (ascii ''0x'') h = Some h1" "sent h1 = sent h @ ascii ''0x''"
    using con_puts_ok[OF assms] by metis
  obtain h2 where "print_nibbles hw v [28, 24, 20, 16, 12, 8, 4, 0] h1 = Some h2" "sent h2 = sent h1 @ hex8 v"
    using print_nibbles_ok[OF assms] unfolding hex8_nibbles[symmetric] by blast
  then show ?thesis using h1 by (simp add: print_hex_def)
qed

lemma hex8_value: "text_value 16 (hex8 v) = unat v"
proof -
  have "unat v < 2 ^ 32" using unsigned_less[where w = v and ?'a = nat] by simp
  then show ?thesis by (simp add: hex8_def hex_text_value)
qed

section \<open>Tasks\<close>

lemma create_ok:
  assumes "unlocked s" and "entry \<noteq> 0" "stk \<noteq> 0" "unat prio < CONFIG_MAX_PRIORITY" "length (sc_table s) < CONFIG_MAX_TASKS"
  shows "\<exists>s'. create a name entry prio stk s = Some s' \<and> sc_table s' = sc_table s @ [a] \<and> unlocked s' \<and>
    sc_ready s' = sc_ready s \<and> sc_idle s' = sc_idle s \<and> sc_running s' = sc_running s \<and>
    (\<forall>b. b \<noteq> a \<longrightarrow> sc_tcb s' b = sc_tcb s b) \<and> t_state (sc_tcb s' a) = TASK_STATE_SUSPENDED \<and>
    t_priority (sc_tcb s' a) = prio \<and> (\<forall>b. t_regs (sc_tcb s' b) 11 = t_regs (sc_tcb s b) 11)"
proof -
  obtain s' where "task_create (Some a) name entry 0 prio stk CONFIG_TASK_STACK_SIZE s = Some (STATUS_OK, s')"
    and f: "sc_table s' = sc_table s @ [a] \<and> unlocked s' \<and>
    sc_ready s' = sc_ready s \<and> sc_idle s' = sc_idle s \<and> sc_running s' = sc_running s"
    "\<forall>b. b \<noteq> a \<longrightarrow> sc_tcb s' b = sc_tcb s b" "t_state (sc_tcb s' a) = TASK_STATE_SUSPENDED \<and>
    t_priority (sc_tcb s' a) = prio"  "\<forall>i. i \<notin> {0, 1, 29, 30} \<longrightarrow> t_regs (sc_tcb s' a) i = t_regs (sc_tcb s a) i"
    using task_create_ok[OF assms, of a name 0 CONFIG_TASK_STACK_SIZE] by blast
  moreover have "t_regs (sc_tcb s' b) 11 = t_regs (sc_tcb s b) 11" for b using f(2,4) by (cases "b = a") auto
  ultimately show ?thesis by (simp add: create_def)
qed


text \<open>Four created tasks are on no list, and \<open>task_start\<close> queues each behind those of its priority.\<close>

lemma start_ok:
  assumes "ready_inv s rl" "unlocked s" "t_state (sc_tcb s a) = TASK_STATE_SUSPENDED"
    and "t_priority (sc_tcb s a) = prio" "unat prio < CONFIG_MAX_PRIORITY" "a \<noteq> sc_idle s" "\<not> sc_running s"
  shows "\<exists>s'. start a s = Some s' \<and> ready_inv s' (rl(unat prio := rl (unat prio) @ [a])) \<and> unlocked s' \<and>
    sc_idle s' = sc_idle s \<and> \<not> sc_running s' \<and> sc_table s' = sc_table s \<and>
    (\<forall>b. b \<noteq> a \<longrightarrow> t_core (sc_tcb s' b) = t_core (sc_tcb s b)) \<and> (\<forall>b. t_regs (sc_tcb s' b) = t_regs (sc_tcb s b))"
proof -
  obtain s' where s': "task_start (Some a) s = Some (STATUS_OK, Ret s')" "ready_inv s' (rl(unat prio := rl (unat prio) @ [a]))"
    "unlocked s'" "sc_idle s' = sc_idle s" "sc_running s' = sc_running s" "sc_table s' = sc_table s"
    "\<forall>b. t_core (sc_tcb s' b) = t_core (if b = a then (sc_tcb s a)\<lparr>t_state := TASK_STATE_READY\<rparr> else sc_tcb s b)"
    using task_start_ok[OF assms(1-3), of "unat prio"] assms(4-7) by blast
  have "t_regs (sc_tcb s' b) = t_regs (sc_tcb s b)" for b
    using t_core_eqD(9)[OF spec[OF s'(7), of b]] by simp
  then show ?thesis using s' assms(7) by (auto simp: start_def)
qed

lemma scheduler_start_ok:
  assumes inv: "ready_inv s rl" and u: "unlocked s" and args: "entry \<noteq> 0" "stk \<noteq> 0" "length (sc_table s) < CONFIG_MAX_TASKS"
    and th: "take_highest rl (sc_idle s) = (n, rl')"
  shows "\<exists>s'. scheduler_start entry stk s = Some s' \<and> run_inv s' rl' n \<and> sc_running s' \<and>
    sc_table s' = sc_table s @ [sc_idle s] \<and> sc_idle s' = sc_idle s \<and>
    cpu_pc (sc_cpu s') = t_regs (sc_tcb s n) 11 \<and> arch_irq_enabled (cpu_daif (sc_cpu s'))"
proof -
  have prio: "unat (0 :: u8) < CONFIG_MAX_PRIORITY" by (simp add: CONFIG_MAX_PRIORITY_def)
  obtain s1 where s1: "task_create (Some (sc_idle s)) ''idle'' entry 0 0 stk (of_int CONFIG_IDLE_STACK_SIZE) s = Some (STATUS_OK, s1)"
    "sc_table s1 = sc_table s @ [sc_idle s]" "unlocked s1" "sc_ready s1 = sc_ready s" "sc_idle s1 = sc_idle s"
    "\<forall>b. b \<noteq> sc_idle s \<longrightarrow> sc_tcb s1 b = sc_tcb s b" "t_priority (sc_tcb s1 (sc_idle s)) = 0"
    "\<forall>i. i \<notin> {0, 1, 29, 30} \<longrightarrow> t_regs (sc_tcb s1 (sc_idle s)) i = t_regs (sc_tcb s (sc_idle s)) i"
    using task_create_ok[OF u args(1,2) prio args(3), of "sc_idle s" "''idle''" 0 "of_int CONFIG_IDLE_STACK_SIZE"] by blast
  define s2 where "s2 = t_upd (sc_idle s) (t_state_update (\<lambda>_. TASK_STATE_READY)) s1"
  have regs: "t_regs (sc_tcb s2 b) 11 = t_regs (sc_tcb s b) 11" for b using s1(6,8) by (auto simp: s2_def)
  have inv2: "ready_inv s2 rl"
  proof -
    have "sc_tcb s2 b = sc_tcb s b" if "b \<in> set (rl p)" for p b
      using lists_okD(5)[OF inv that] s1(6) by (simp add: s2_def s1(5))
    then have "lists_ok (sc_tcb s2) (sc_ready s) (sc_idle s) rl" by (intro lists_ok_frame[OF inv]) simp
    then show ?thesis by (simp add: s2_def s1(4,5))
  qed
  have idle2: "sc_idle s2 = sc_idle s" using s1(5) by (simp add: s2_def)
  have hn: "get_highest_ready s2 = n" using get_highest_ready_ok[OF inv2] th idle2 by (auto simp: take_highest_def split: option.splits)
  have n16: "unat (t_priority (sc_tcb s2 n)) < CONFIG_MAX_PRIORITY"
  proof (cases "n = sc_idle s")
    case False
    then obtain p where "n \<in> set (rl p)" using take_highest_notin(3)[OF inv th] by blast
    then show ?thesis using lists_okD(3,6)[OF inv2] by blast
  qed (use prio in \<open>simp add: s2_def s1(7)\<close>)
  obtain T R where rm: "(if n \<noteq> sc_idle s2 then ready_list_remove n s2 else Some s2) = Some (s2\<lparr>sc_tcb := T, sc_ready := R\<rparr>)"
    and ok: "lists_ok T R (sc_idle s2) rl'" and core: "\<forall>b. t_core (T b) = t_core (sc_tcb s2 b)"
  proof (cases "highest rl")
    case None
    then have "n = sc_idle s2" "rl' = rl" using th idle2 by (auto simp: take_highest_def)
    then show ?thesis using that[of "sc_ready s2" "sc_tcb s2"] inv2 by simp
  next
    case (Some p)
    then have "rl p \<noteq> []" "n = hd (rl p)" "rl' = rl(p := tl (rl p))" using th take_highest_Some[OF Some, of "sc_idle s"] by auto
    then show ?thesis using ready_list_remove_ok[OF inv2, of p "[]" n "tl (rl p)"] lists_okD(5)[OF inv2, of n p]
      by (auto intro: that)
  qed
  define s3 where "s3 = (t_upd n (t_state_update (\<lambda>_. TASK_STATE_RUNNING)) (s2\<lparr>sc_tcb := T, sc_ready := R\<rparr>))
    \<lparr>sc_current := Some n, sc_running := True\<rparr>"
  have run: "scheduler_start entry stk s = Some (arch_first_switch n s3)"
    using rm s1(1) idle2 by (cases "n = sc_idle s") (simp_all add: scheduler_start_def s1(5) s2_def[symmetric] hn s3_def Let_def)
  have first: "sc_tcb (arch_first_switch n s3) = sc_tcb s3" "sc_ready (arch_first_switch n s3) = sc_ready s3"
    "sc_idle (arch_first_switch n s3) = sc_idle s3" "sc_current (arch_first_switch n s3) = sc_current s3"
    "sc_running (arch_first_switch n s3) = sc_running s3" "sc_table (arch_first_switch n s3) = sc_table s3"
    "sc_lock (arch_first_switch n s3) = sc_lock s3" "cpu_pc (sc_cpu (arch_first_switch n s3)) = t_regs (sc_tcb s3 n) 11"
    "cpu_daif (sc_cpu (arch_first_switch n s3)) = arch_irq_enable (cpu_daif (sc_cpu s3))"
    by (simp_all add: arch_first_switch_def Let_def)
  have notin: "n \<notin> set (rl' q)" for q using take_highest_notin(1)[OF inv th] .
  have "ready_inv s3 rl'" using lists_ok_upd[OF ok notin] by (simp add: s3_def)
  moreover have "t_regs (T n) 11 = t_regs (sc_tcb s n) 11" "t_priority (T n) = t_priority (sc_tcb s2 n)"
    using t_core_eqD(1,9)[OF spec[OF core, of n]] regs[of n] by simp_all
  moreover have "arch_irq_enabled (arch_irq_enable d)" for d
    by (simp add: arch_irq_enabled_def arch_irq_enable_def DAIF_I_def ac_simps bit.conj_disj_distrib)
  ultimately show ?thesis using notin n16 s1(2,3)
    by (intro exI[of _ "arch_first_switch n s3"]) (simp add: run run_inv_def first, simp add: s3_def s2_def s1(5))
qed


text \<open>The state of the scheduler in a kernel that has just been loaded, and what the linker must give: five control blocks, code and
  stacks away from address 0.\<close>

definition cleared :: "sched \<Rightarrow> bool" where
  "cleared s \<longleftrightarrow> unlocked s \<and> sc_table s = [] \<and> (\<forall>p. sc_ready s p = None) \<and> \<not> sc_running s \<and>
     (\<forall>a. t_regs (sc_tcb s a) 11 = 0)"

definition image_ok :: "image \<Rightarrow> addr \<Rightarrow> bool" where
  "image_ok im idle \<longleftrightarrow> distinct [im_main_tcb im, im_modbus_tcb im, im_opcua_tcb im, im_profinet_tcb im, idle] \<and>
     0 \<notin> {im_main_task im, im_modbus_task im, im_opcua_task im, im_profinet_task im, im_idle_task im} \<and>
     0 \<notin> {im_main_stack im, im_modbus_stack im, im_opcua_stack im, im_profinet_stack im, im_idle_stack im}"

text \<open>Before the start: the table, the ready lists, and the created tasks that are not started yet with their priorities.\<close>

definition booting :: "sched \<Rightarrow> addr list \<Rightarrow> (nat \<Rightarrow> addr list) \<Rightarrow> (addr \<times> u8) list \<Rightarrow> bool" where
  "booting s table rl A \<longleftrightarrow> unlocked s \<and> sc_table s = table \<and> \<not> sc_running s \<and> (\<forall>a. t_regs (sc_tcb s a) 11 = 0) \<and>
     ready_inv s rl \<and> (\<forall>(a, p) \<in> set A. t_state (sc_tcb s a) = TASK_STATE_SUSPENDED \<and> t_priority (sc_tcb s a) = p \<and> unat p < CONFIG_MAX_PRIORITY)"

lemma cleared_booting: "cleared s \<Longrightarrow> booting s [] (\<lambda>_. []) []"
  by (simp add: cleared_def booting_def lists_ok_def cdll_def)

lemma create_step:
  assumes b: "booting s table (\<lambda>_. []) A" and "a \<notin> fst ` set A" and "entry \<noteq> 0" "stk \<noteq> 0" "unat prio < CONFIG_MAX_PRIORITY"
    "length table < CONFIG_MAX_TASKS"
  shows "\<exists>s'. create a name entry prio stk s = Some s' \<and> booting s' (table @ [a]) (\<lambda>_. []) (A @ [(a, prio)]) \<and> sc_idle s' = sc_idle s"
proof -
  have u: "unlocked s" "length (sc_table s) < CONFIG_MAX_TASKS" using b assms(6) by (simp_all add: booting_def)
  obtain s' where s': "create a name entry prio stk s = Some s'" "sc_table s' = sc_table s @ [a]" "unlocked s'"
    "sc_ready s' = sc_ready s" "sc_idle s' = sc_idle s" "sc_running s' = sc_running s"
    "\<forall>b. b \<noteq> a \<longrightarrow> sc_tcb s' b = sc_tcb s b" "t_state (sc_tcb s' a) = TASK_STATE_SUSPENDED" "t_priority (sc_tcb s' a) = prio"
    "\<forall>b. t_regs (sc_tcb s' b) 11 = t_regs (sc_tcb s b) 11"
    using create_ok[OF u(1) assms(3-5) u(2), of a name] by blast
  have "lists_ok (sc_tcb s') (sc_ready s) (sc_idle s) (\<lambda>_. [])"
    by (rule lists_ok_frame[of "sc_tcb s"]) (use b in \<open>simp_all add: booting_def\<close>)
  then have "ready_inv s' (\<lambda>_. [])" by (simp add: s'(4,5))
  then show ?thesis using s' b assms(2,5) by (intro exI[of _ s']) (force simp: booting_def)
qed

lemma start_step:
  assumes b: "booting s table rl ((a, prio) # A)" and "a \<notin> fst ` set A" and "a \<noteq> sc_idle s"
  shows "\<exists>s'. start a s = Some s' \<and> booting s' table (rl(unat prio := rl (unat prio) @ [a])) A \<and> sc_idle s' = sc_idle s"
proof -
  have p: "ready_inv s rl" "unlocked s" "t_state (sc_tcb s a) = TASK_STATE_SUSPENDED" "t_priority (sc_tcb s a) = prio"
    "unat prio < CONFIG_MAX_PRIORITY" "\<not> sc_running s" using b by (simp_all add: booting_def)
  obtain s' where s': "start a s = Some s'" "ready_inv s' (rl(unat prio := rl (unat prio) @ [a]))" "unlocked s'"
    "sc_idle s' = sc_idle s" "\<not> sc_running s'" "sc_table s' = sc_table s"
    "\<forall>b. b \<noteq> a \<longrightarrow> t_core (sc_tcb s' b) = t_core (sc_tcb s b)" "\<forall>b. t_regs (sc_tcb s' b) = t_regs (sc_tcb s b)"
    using start_ok[OF p(1-5) assms(3) p(6)] by blast
  have "t_state (sc_tcb s' b) = t_state (sc_tcb s b) \<and> t_priority (sc_tcb s' b) = t_priority (sc_tcb s b)" if "(b, p) \<in> set A" for b p
  proof -
    have "b \<noteq> a" using that assms(2) by force
    then show ?thesis using t_core_eqD(1,2)[of "sc_tcb s' b" "sc_tcb s b"] s'(7) by simp
  qed
  moreover have "\<forall>(b, p) \<in> set A. t_state (sc_tcb s b) = TASK_STATE_SUSPENDED \<and> t_priority (sc_tcb s b) = p \<and> unat p < CONFIG_MAX_PRIORITY"
    using b by (simp add: booting_def)
  ultimately have "\<forall>(b, p) \<in> set A. t_state (sc_tcb s' b) = TASK_STATE_SUSPENDED \<and> t_priority (sc_tcb s' b) = p \<and> unat p < CONFIG_MAX_PRIORITY"
    by auto
  then show ?thesis using s' b by (intro exI[of _ s']) (simp add: booting_def)
qed

definition task_tcbs :: "image \<Rightarrow> addr list" where
  "task_tcbs im = [im_main_tcb im, im_modbus_tcb im, im_opcua_tcb im, im_profinet_tcb im]"

lemma create_tasks_ok:
  assumes s: "cleared s" and im: "image_ok im (sc_idle s)"
  shows "\<exists>s'. create_tasks im s = Some s' \<and> booting s' (task_tcbs im) (\<lambda>_. []) (zip (task_tcbs im) [8, 10, 10, 12]) \<and>
    sc_idle s' = sc_idle s"
proof -
  have prio: "unat (8 :: u8) < CONFIG_MAX_PRIORITY" "unat (10 :: u8) < CONFIG_MAX_PRIORITY" "unat (12 :: u8) < CONFIG_MAX_PRIORITY"
    by (simp_all add: CONFIG_MAX_PRIORITY_def)
  have room: "k < CONFIG_MAX_TASKS" if "k < 5" for k using that by (simp add: CONFIG_MAX_TASKS_def)
  have im': "im_main_tcb im \<noteq> im_modbus_tcb im" "im_main_tcb im \<noteq> im_opcua_tcb im" "im_main_tcb im \<noteq> im_profinet_tcb im"
    "im_modbus_tcb im \<noteq> im_opcua_tcb im" "im_modbus_tcb im \<noteq> im_profinet_tcb im" "im_opcua_tcb im \<noteq> im_profinet_tcb im"
    "im_main_task im \<noteq> 0" "im_modbus_task im \<noteq> 0" "im_opcua_task im \<noteq> 0" "im_profinet_task im \<noteq> 0"
    "im_main_stack im \<noteq> 0" "im_modbus_stack im \<noteq> 0" "im_opcua_stack im \<noteq> 0" "im_profinet_stack im \<noteq> 0"
    using im by (auto simp: image_ok_def)
  obtain s1 where s1: "create (im_main_tcb im) ''main'' (im_main_task im) 8 (im_main_stack im) s = Some s1"
    "booting s1 [im_main_tcb im] (\<lambda>_. []) [(im_main_tcb im, 8)]" "sc_idle s1 = sc_idle s"
    using create_step[OF cleared_booting[OF s] _ im'(7,11) prio(1) room, where a = "im_main_tcb im" and name = "''main''"] by auto
  obtain s2 where s2: "create (im_modbus_tcb im) ''modbus'' (im_modbus_task im) 10 (im_modbus_stack im) s1 = Some s2"
    "booting s2 [im_main_tcb im, im_modbus_tcb im] (\<lambda>_. []) [(im_main_tcb im, 8), (im_modbus_tcb im, 10)]" "sc_idle s2 = sc_idle s"
    using create_step[OF s1(2) _ im'(8,12) prio(2) room, where a = "im_modbus_tcb im" and name = "''modbus''"] im'(1) s1(3) by auto
  obtain s3 where s3: "create (im_opcua_tcb im) ''opcua'' (im_opcua_task im) 10 (im_opcua_stack im) s2 = Some s3"
    "booting s3 [im_main_tcb im, im_modbus_tcb im, im_opcua_tcb im] (\<lambda>_. [])
       [(im_main_tcb im, 8), (im_modbus_tcb im, 10), (im_opcua_tcb im, 10)]" "sc_idle s3 = sc_idle s"
    using create_step[OF s2(2) _ im'(9,13) prio(2) room, where a = "im_opcua_tcb im" and name = "''opcua''"] im'(2,4) s2(3) by auto
  obtain s4 where s4: "create (im_profinet_tcb im) ''profinet'' (im_profinet_task im) 12 (im_profinet_stack im) s3 = Some s4"
    "booting s4 (task_tcbs im) (\<lambda>_. []) (zip (task_tcbs im) [8, 10, 10, 12])" "sc_idle s4 = sc_idle s"
    using create_step[OF s3(2) _ im'(10,14) prio(3) room, where a = "im_profinet_tcb im" and name = "''profinet''"] im'(3,5,6) s3(3) by (auto simp: task_tcbs_def)
  show ?thesis using s1(1) s2(1) s3(1) s4 by (intro exI[of _ s4]) (simp add: create_tasks_def)
qed

lemma start_tasks_ok:
  assumes b: "booting s (task_tcbs im) (\<lambda>_. []) (zip (task_tcbs im) [8, 10, 10, 12])" and im: "image_ok im (sc_idle s)"
  shows "\<exists>s'. start_tasks im s = Some s' \<and> booting s' (task_tcbs im)
      ((\<lambda>_. [])(8 := [im_main_tcb im], 10 := [im_modbus_tcb im, im_opcua_tcb im], 12 := [im_profinet_tcb im])) [] \<and>
    sc_idle s' = sc_idle s"
proof -
  have im': "im_main_tcb im \<noteq> im_modbus_tcb im" "im_main_tcb im \<noteq> im_opcua_tcb im" "im_main_tcb im \<noteq> im_profinet_tcb im"
    "im_modbus_tcb im \<noteq> im_opcua_tcb im" "im_modbus_tcb im \<noteq> im_profinet_tcb im" "im_opcua_tcb im \<noteq> im_profinet_tcb im"
    "im_main_tcb im \<noteq> sc_idle s" "im_modbus_tcb im \<noteq> sc_idle s" "im_opcua_tcb im \<noteq> sc_idle s" "im_profinet_tcb im \<noteq> sc_idle s"
    using im by (auto simp: image_ok_def)
  let ?t = "task_tcbs im" and ?m = "im_main_tcb im" and ?b = "im_modbus_tcb im" and ?o = "im_opcua_tcb im" and ?p = "im_profinet_tcb im"
  have b0: "booting s ?t (\<lambda>_. []) [(?m, 8), (?b, 10), (?o, 10), (?p, 12)]" using b by (simp add: task_tcbs_def)
  obtain s1 where s1: "start ?m s = Some s1" "booting s1 ?t ((\<lambda>_. [])(8 := [?m])) [(?b, 10), (?o, 10), (?p, 12)]" "sc_idle s1 = sc_idle s"
    using start_step[OF b0] im' by auto
  obtain s2 where s2: "start ?b s1 = Some s2" "booting s2 ?t ((\<lambda>_. [])(8 := [?m], 10 := [?b])) [(?o, 10), (?p, 12)]" "sc_idle s2 = sc_idle s"
    using start_step[OF s1(2)] im' s1(3) by auto
  obtain s3 where s3: "start ?o s2 = Some s3" "booting s3 ?t ((\<lambda>_. [])(8 := [?m], 10 := [?b, ?o])) [(?p, 12)]" "sc_idle s3 = sc_idle s"
    using start_step[OF s2(2)] im' s2(3) by auto
  obtain s4 where s4: "start ?p s3 = Some s4" "booting s4 ?t ((\<lambda>_. [])(8 := [?m], 10 := [?b, ?o], 12 := [?p])) []" "sc_idle s4 = sc_idle s"
    using start_step[OF s3(2)] im' s3(3) by auto
  show ?thesis using s1(1) s2(1) s3(1) s4 by (intro exI[of _ s4]) (simp add: start_tasks_def)
qed

section \<open>The start of the kernel\<close>

lemma mmio_fill_same [simp]:
  "in_app (mmio_fill reg v lo hi s) = in_app s" "in_sched (mmio_fill reg v lo hi s) = in_sched s"
  "in_lock (mmio_fill reg v lo hi s) = in_lock s" "in_table (mmio_fill reg v lo hi s) = in_table s"
  "in_timer (mmio_fill reg v lo hi s) = in_timer s"
proof -
  have "in_app (fold (\<lambda>i. mmio_write32 (reg i) v) is s) = in_app s \<and> in_sched (fold (\<lambda>i. mmio_write32 (reg i) v) is s) = in_sched s \<and>
    in_lock (fold (\<lambda>i. mmio_write32 (reg i) v) is s) = in_lock s \<and> in_table (fold (\<lambda>i. mmio_write32 (reg i) v) is s) = in_table s \<and>
    in_timer (fold (\<lambda>i. mmio_write32 (reg i) v) is s) = in_timer s" for "is"
    by (induction "is" arbitrary: s) (auto simp: mmio_write32_def)
  then show "in_app (mmio_fill reg v lo hi s) = in_app s" "in_sched (mmio_fill reg v lo hi s) = in_sched s"
    "in_lock (mmio_fill reg v lo hi s) = in_lock s" "in_table (mmio_fill reg v lo hi s) = in_table s"
    "in_timer (mmio_fill reg v lo hi s) = in_timer s" by (simp_all add: mmio_fill_def)
qed

lemma gic_init_same [simp]:
  "in_app (gic_init hw s) = in_app s" "in_sched (gic_init hw s) = in_sched s" "in_lock (gic_init hw s) = in_lock s"
  by (simp_all add: gic_init_def mmio_write32_def mmio_read32_def Let_def)

lemma clock_init_ok:
  assumes "sl_lock (in_lock s) = 0"
  shows "\<exists>s' c. clock_init cnt h s = Some s' \<and> in_cval s' = cnt + clock_step \<and> in_ctl s' = 1 \<and> in_app s' = in_app s \<and>
    in_table s' (unat CONFIG_TIMER_IRQ) = \<lparr>ie_handler = Some h, ie_arg = None\<rparr> \<and> in_sched s' = (in_sched s)\<lparr>sc_cpu := c\<rparr>"
  using assms
  by (simp add: clock_init_def CONFIG_TIMER_IRQ_def MAX_IRQS_def irq_register_def irq_lock_irq_def spin_lock_irq_def spin_lock_def
      Let_def split_beta irq_unlock_irq_def irq_enable_def mmio_write32_def) (metis sched.select_convs)

text \<open>The network's state once its parts are initialised and the interface is registered.\<close>

definition net_started :: "image \<Rightarrow> net \<Rightarrow> net" where
  "net_started im w = main_eth_init (im_eth0 im) (net_stack_init
     ((net_dma_pool_init (im_dma_pool im) (w\<lparr>n_heap := heap_init (n_heap w)\<rparr>))\<lparr>n_pool := snd (zbuf_pool_init (n_pool w))\<rparr>))"

lemma say_total:
  "console_drains hw \<Longrightarrow> say hw cs b = Some (b\<lparr>bd_console := the (con_puts hw cs (bd_console b))\<rparr>)"
  using con_puts_ok[of hw cs "bd_console b"] by (auto simp: say_def)

lemma net_of_put [simp]: "net_of (net_put w s) = w" "net_put w' (net_put w s) = net_put w' s"
  "in_sched (net_put w s) = n_sched w"
  by (simp_all add: net_of_def net_put_def)

lemma bd_sys_on [simp]: "bd_sys (on_net f b) = net_put (f (net_of (bd_sys b))) (bd_sys b)"
  by (simp add: on_net_def)

text \<open>What the console shows of the start.\<close>

definition boot_text :: "u8 list" where
  "boot_text = crlf (ascii ''Initializing memory...'' @ [10] @ ascii ''Initializing zero-copy buffers...'' @ [10] @
     ascii ''Initializing interrupt controller...'' @ [10] @ ascii ''Initializing timer...'' @ [10] @
     ascii ''Initializing network stack...'' @ [10] @ ascii ''Creating tasks...'' @ [10] @
     ascii ''Starting scheduler...'' @ [10, 10])"

lemma sent_puts: "console_drains hw \<Longrightarrow> sent (the (con_puts hw cs h)) = sent h @ crlf cs"
  using con_puts_ok[of hw cs h] by auto

text \<open>The initialisation of the network and the memory does not look at the scheduler.\<close>

lemma n_sched_frame:
  "main_eth_init e (w\<lparr>n_sched := s\<rparr>) = (main_eth_init e w)\<lparr>n_sched := s\<rparr>" "n_sched (main_eth_init e w) = n_sched w"
  "net_stack_init (w\<lparr>n_sched := s\<rparr>) = (net_stack_init w)\<lparr>n_sched := s\<rparr>" "n_sched (net_stack_init w) = n_sched w"
  "net_dma_pool_init a (w\<lparr>n_sched := s\<rparr>) = (net_dma_pool_init a w)\<lparr>n_sched := s\<rparr>" "n_sched (net_dma_pool_init a w) = n_sched w"
  by (simp_all add: main_eth_init_def nif_upd_def netif_register_def Let_def net_stack_init_def net_dma_pool_init_def
      cong: if_cong)

lemma n_sched_last:
  "w\<lparr>n_sched := s, n_heap := h\<rparr> = w\<lparr>n_heap := h, n_sched := s\<rparr>"
  "w\<lparr>n_sched := s, n_pool := z\<rparr> = w\<lparr>n_pool := z, n_sched := s\<rparr>"
  by simp_all

lemma kernel_main_runs:
  assumes con: "console_drains hw" and lock: "sl_lock (in_lock (bd_sys b)) = 0"
    and sch: "cleared (in_sched (bd_sys b))" and im: "image_ok im (sc_idle (in_sched (bd_sys b)))"
  shows "\<exists>b'. kernel_main hw gic cnt im b = Some b' \<and>
    run_inv (in_sched (bd_sys b')) ((\<lambda>_. [])(8 := [im_main_tcb im], 10 := [im_modbus_tcb im, im_opcua_tcb im])) (im_profinet_tcb im) \<and>
    sc_running (in_sched (bd_sys b')) \<and> cpu_pc (sc_cpu (in_sched (bd_sys b'))) = 0 \<and>
    sc_table (in_sched (bd_sys b')) = task_tcbs im @ [sc_idle (in_sched (bd_sys b))] \<and>
    arch_irq_enabled (cpu_daif (sc_cpu (in_sched (bd_sys b')))) \<and>
    in_cval (bd_sys b') = cnt + clock_step \<and> in_ctl (bd_sys b') = 1 \<and>
    in_table (bd_sys b') (unat CONFIG_TIMER_IRQ) = \<lparr>ie_handler = Some (im_timer_irq_handler im), ie_arg = None\<rparr> \<and>
    sent (bd_console b') = sent (bd_console b) @ boot_text \<and>
    (\<exists>s. in_app (bd_sys b') = (net_started im (in_app (bd_sys b)))\<lparr>n_sched := s\<rparr>)"
proof -
  let ?con = "the (con_puts hw (ascii ''Starting scheduler...'' @ [10, 10]) (the (con_puts hw (ascii ''Creating tasks...'' @ [10])
      (the (con_puts hw (ascii ''Initializing network stack...'' @ [10]) (the (con_puts hw (ascii ''Initializing timer...'' @ [10])
      (the (con_puts hw (ascii ''Initializing interrupt controller...'' @ [10])
      (the (con_puts hw (ascii ''Initializing zero-copy buffers...'' @ [10])
      (the (con_puts hw (ascii ''Initializing memory...'' @ [10]) (bd_console b))))))))))))))"
  let ?S = "bd_sys b" and ?idle = "sc_idle (in_sched (bd_sys b))"
  define wA where "wA = (net_dma_pool_init (im_dma_pool im) ((net_of ?S)\<lparr>n_heap := heap_init (n_heap (in_app ?S))\<rparr>))
    \<lparr>n_pool := snd (zbuf_pool_init (n_pool (net_of ?S)))\<rparr>"
  have poolA: "n_pool (net_dma_pool_init a w) = n_pool w" for a w by (simp add: net_dma_pool_init_def)
  have wA: "n_sched wA = in_sched ?S" by (simp add: wA_def n_sched_frame net_of_def)
  define S3 where "S3 = gic_init gic (net_put wA ?S)"
  have S3: "in_app S3 = wA" "in_sched S3 = in_sched ?S" "sl_lock (in_lock S3) = 0"
    using lock wA by (simp_all add: S3_def net_put_def)
  obtain S4 c where S4: "clock_init cnt (im_timer_irq_handler im) S3 = Some S4" "in_cval S4 = cnt + clock_step" "in_ctl S4 = 1"
    "in_app S4 = wA" "in_table S4 (unat CONFIG_TIMER_IRQ) = \<lparr>ie_handler = Some (im_timer_irq_handler im), ie_arg = None\<rparr>"
    "in_sched S4 = (in_sched ?S)\<lparr>sc_cpu := c\<rparr>"
    using clock_init_ok[OF S3(3)] S3(1,2) by metis
  define w5 where "w5 = main_eth_init (im_eth0 im) (net_stack_init (net_of S4))"
  have w5: "n_sched w5 = in_sched S4" by (simp add: w5_def n_sched_frame net_of_def)
  have clr: "cleared (in_sched S4)" "image_ok im (sc_idle (in_sched S4))" using sch im by (simp_all add: S4(6) cleared_def)
  obtain s1 where s1: "create_tasks im (in_sched S4) = Some s1" "booting s1 (task_tcbs im) (\<lambda>_. []) (zip (task_tcbs im) [8, 10, 10, 12])"
    "sc_idle s1 = ?idle" using create_tasks_ok[OF clr] S4(6) by auto
  obtain s2 where s2: "start_tasks im s1 = Some s2" "booting s2 (task_tcbs im)
      ((\<lambda>_. [])(8 := [im_main_tcb im], 10 := [im_modbus_tcb im, im_opcua_tcb im], 12 := [im_profinet_tcb im])) []" "sc_idle s2 = ?idle"
    using start_tasks_ok[OF s1(2)] im s1(3) by auto
  let ?rl = "(\<lambda>_. [])(8 := [im_main_tcb im], 10 := [im_modbus_tcb im, im_opcua_tcb im], 12 := [im_profinet_tcb im])"
  have "highest ?rl = Some 12" unfolding highest_Some by (auto simp: CONFIG_MAX_PRIORITY_def)
  then have th: "take_highest ?rl (sc_idle s2) =
      (im_profinet_tcb im, (\<lambda>_. [])(8 := [im_main_tcb im], 10 := [im_modbus_tcb im, im_opcua_tcb im]))"
    by (simp add: take_highest_def fun_eq_iff)
  have b2: "ready_inv s2 ?rl" "unlocked s2" "im_idle_task im \<noteq> 0" "im_idle_stack im \<noteq> 0" "length (sc_table s2) < CONFIG_MAX_TASKS"
    "sc_table s2 = task_tcbs im" "t_regs (sc_tcb s2 (im_profinet_tcb im)) 11 = 0"
    using s2(2) im by (simp_all add: booting_def image_ok_def task_tcbs_def CONFIG_MAX_TASKS_def)
  obtain s3 where s3: "scheduler_start (im_idle_task im) (im_idle_stack im) s2 = Some s3"
    "run_inv s3 ((\<lambda>_. [])(8 := [im_main_tcb im], 10 := [im_modbus_tcb im, im_opcua_tcb im])) (im_profinet_tcb im)" "sc_running s3"
    "sc_table s3 = task_tcbs im @ [?idle]" "cpu_pc (sc_cpu s3) = 0" "arch_irq_enabled (cpu_daif (sc_cpu s3))"
    using scheduler_start_ok[OF b2(1-5) th] b2(6,7) s2(3) by auto
  let ?S5 = "net_put w5 S4"
  have step1: "kernel_main hw gic cnt im b = Some (b\<lparr>bd_console := h, bd_sys := ?S5\<lparr>in_sched := s3\<rparr>\<rparr>)"
    if "h = ?con" for h
    using that s1(1) s2(1) s3(1) S4(1) w5
    by (simp add: kernel_main_def say_total[OF con] on_net_def on_sched_def Let_def poolA wA_def[symmetric] S3_def[symmetric]
        w5_def[symmetric])
  have shown: "sent h = sent (bd_console b) @ boot_text"
    if "h = ?con" for h
    unfolding that by (simp only: sent_puts[OF con] boot_text_def crlf_append append_assoc)
  have "in_app ?S5 = (net_started im (in_app ?S))\<lparr>n_sched := in_sched S4\<rparr>"
    by (simp add: net_put_def w5_def net_of_def S4(4) wA_def net_started_def n_sched_frame n_sched_last poolA)
  then show ?thesis using step1[OF refl] shown[OF refl] s3 S4(2,3,5) by (intro exI) (auto simp: net_put_def)
qed

lemma net_started_parts:
  "n_heap (net_started im w) = heap_init (n_heap w)" "n_pool (net_started im w) = snd (zbuf_pool_init (n_pool w))"
  "n_netif_default w = None \<Longrightarrow> n_netif_default (net_started im w) = Some (im_eth0 im)"
  "n_netif_list (net_started im w) = Some (im_eth0 im)"
  "nif_ip (n_nif (net_started im w) (im_eth0 im)) = 0xC0A80164" "nif_netmask (n_nif (net_started im w) (im_eth0 im)) = 0xFFFFFF00"
  "nif_up (n_nif (net_started im w) (im_eth0 im))" "i < CONFIG_NET_MAX_SOCKETS \<Longrightarrow> n_table (net_started im w) i = None"
  by (simp_all add: net_started_def main_eth_init_def netif_register_def nif_upd_def Let_def net_stack_init_def
      net_dma_pool_init_def IP4_ADDR_def)

lemma net_started_dma:
  "pool_rep (n_dma (net_started im w)) (pool_blocks (im_dma_pool im) 4096 1024, {})"
proof -
  have "pool_rep (snd (mempool_init (Some (im_dma_pool im)) 4096 (of_int (CONFIG_DMA_POOL_SIZE div 4096)) (n_dma w)))
      (pool_blocks (im_dma_pool im) 4096 1024, {})"
    using mempool_init_rep[of 4096 "of_int (CONFIG_DMA_POOL_SIZE div 4096)" "im_dma_pool im" "n_dma w"]
    by (simp add: CONFIG_DMA_POOL_SIZE_def)
  moreover have "n_dma (net_started im w) =
      snd (mempool_init (Some (im_dma_pool im)) 4096 (of_int (CONFIG_DMA_POOL_SIZE div 4096)) (n_dma w))"
    by (simp add: net_started_def main_eth_init_def netif_register_def nif_upd_def Let_def net_stack_init_def
      net_dma_pool_init_def dma_pool_init_def)
  ultimately show ?thesis by simp
qed

section \<open>Properties\<close>

text \<open>A board for the witnesses: a loaded kernel, with its objects at small addresses, a console and a controller that answer 0.\<close>

definition sched_loaded :: sched where
  "sched_loaded = sched_alone\<lparr>sc_current := None, sc_table := []\<rparr>"

definition board_demo :: board where
  "board_demo = \<lparr>bd_console = [], bd_sys = intr_at (net_demo\<lparr>n_sched := sched_loaded, n_netif_default := None\<rparr>)\<rparr>"

definition image_demo :: image where
  "image_demo = \<lparr>im_eth0 = 0x500, im_dma_pool = 0x100000, im_timer_irq_handler = 0x80, im_main_tcb = 0x1000, im_modbus_tcb = 0x2000,
     im_opcua_tcb = 0x3000, im_profinet_tcb = 0x4000, im_main_task = 0x100, im_modbus_task = 0x200, im_opcua_task = 0x300,
     im_profinet_task = 0x400, im_main_stack = 0x10000, im_modbus_stack = 0x11000, im_opcua_stack = 0x12000,
     im_profinet_stack = 0x13000, im_idle_task = 0x600, im_idle_stack = 0x14000\<rparr>"

lemma console_ready: "console_drains (\<lambda>_ _. 0)"
  unfolding console_drains_def by (subst con_wait.simps) simp

lemma board_demo_ok:
  "sl_lock (in_lock (bd_sys board_demo)) = 0" "cleared (in_sched (bd_sys board_demo))"
  "image_ok image_demo (sc_idle (in_sched (bd_sys board_demo)))" "n_netif_default (in_app (bd_sys board_demo)) = None"
  by (simp_all add: board_demo_def intr_at_def SPINLOCK_INIT_def cleared_def sched_loaded_def sched_alone_def sched_ex_def tcb_blank_def
      image_ok_def image_demo_def)

text \<open>C5: the start of the kernel. From a loaded image whose console drains, \<open>kernel_main\<close> comes to the first switch: the whole text
  is out, the heap is one free segment, every packet buffer and DMA page is free, the interface is the default one, the clock interrupt
  is armed with its handler, and the scheduler satisfies its invariant with the PROFINET task, of the highest priority, running,
  the Modbus and OPC UA tasks ready in this order, the main task below them, and the idle task last in the table.\<close>

theorem kernel_main_starts:
  assumes "console_drains hw" and "sl_lock (in_lock (bd_sys b)) = 0" and "cleared (in_sched (bd_sys b))"
    and "image_ok im (sc_idle (in_sched (bd_sys b)))" and "n_netif_default (in_app (bd_sys b)) = None"
  shows "\<exists>b'. kernel_main hw gic cnt im b = Some b' \<and> sent (bd_console b') = sent (bd_console b) @ boot_text \<and>
    run_inv (in_sched (bd_sys b')) ((\<lambda>_. [])(8 := [im_main_tcb im], 10 := [im_modbus_tcb im, im_opcua_tcb im])) (im_profinet_tcb im) \<and>
    sc_running (in_sched (bd_sys b')) \<and> last (sc_table (in_sched (bd_sys b'))) = sc_idle (in_sched (bd_sys b)) \<and>
    heap_inv (n_heap (in_app (bd_sys b'))) [Seg (heap_memory (n_heap (in_app (bd_sys b)))) CONFIG_HEAP_SIZE False] \<and>
    zpool_inv (n_pool (in_app (bd_sys b'))) (rev (zbuf_slots (zp_memory (n_pool (in_app (bd_sys b)))))) \<and>
    pool_rep (n_dma (in_app (bd_sys b'))) (pool_blocks (im_dma_pool im) 4096 1024, {}) \<and>
    n_netif_default (in_app (bd_sys b')) = Some (im_eth0 im) \<and>
    in_table (bd_sys b') (unat CONFIG_TIMER_IRQ) = \<lparr>ie_handler = Some (im_timer_irq_handler im), ie_arg = None\<rparr> \<and>
    in_cval (bd_sys b') = cnt + clock_step \<and> in_ctl (bd_sys b') = 1"
proof -
  let ?w = "in_app (bd_sys b)"
  obtain z where z: "zbuf_pool_init (n_pool ?w) = (z, snd (zbuf_pool_init (n_pool ?w)))" by (metis prod.collapse)
  have "heap_memory (heap_init (n_heap ?w)) = heap_memory (n_heap ?w)" by (simp add: heap_init_def)
  then show ?thesis
    using kernel_main_runs[OF assms(1-4), of gic cnt] heap_init_inv[of "n_heap ?w"] zbuf_pool_init_aux[OF z]
      net_started_parts(1-3)[where im = im] net_started_dma[of im ?w] assms(5)
    by (elim exE conjE, intro exI conjI) auto
qed

theorem kernel_main_starts_witness:
  "\<exists>b'. kernel_main (\<lambda>_ _. 0) (\<lambda>_ _. 0) 7 image_demo board_demo = Some b' \<and> sc_current (in_sched (bd_sys b')) = Some 0x4000"
  using kernel_main_starts[OF console_ready board_demo_ok, of "\<lambda>_ _. 0" 7]
  by (auto simp: run_inv_def image_demo_def)

text \<open>C22: the first task starts at address 0. \<open>task_create\<close> writes the entry point where the context switch does not look, and the
  first switch returns through a saved register that is still 0 from loading: after \<open>scheduler_start\<close> the processor goes on at address 0
  with interrupts enabled, whatever the task's function is.\<close>

theorem first_task_at_zero:
  assumes "console_drains hw" and "sl_lock (in_lock (bd_sys b)) = 0" and "cleared (in_sched (bd_sys b))"
    and "image_ok im (sc_idle (in_sched (bd_sys b)))"
  shows "\<exists>b'. kernel_main hw gic cnt im b = Some b' \<and> sc_current (in_sched (bd_sys b')) = Some (im_profinet_tcb im) \<and>
    cpu_pc (sc_cpu (in_sched (bd_sys b'))) = 0 \<and> im_profinet_task im \<noteq> 0 \<and> arch_irq_enabled (cpu_daif (sc_cpu (in_sched (bd_sys b'))))"
  using kernel_main_runs[OF assms, of gic cnt] assms(4) by (auto simp: run_inv_def image_ok_def)

theorem first_task_at_zero_witness:
  "\<exists>b'. kernel_main (\<lambda>_ _. 0) (\<lambda>_ _. 0) 7 image_demo board_demo = Some b' \<and> cpu_pc (sc_cpu (in_sched (bd_sys b'))) = 0"
  using first_task_at_zero[OF console_ready board_demo_ok(1-3), of "\<lambda>_ _. 0" 7] by auto

lemma sent_hex: "console_drains hw \<Longrightarrow> sent (the (print_hex hw v h)) = sent h @ ascii ''0x'' @ hex8 v"
  using print_hex_ok[of hw v h] by auto

lemma print_total:
  "console_drains hw \<Longrightarrow> con_puts hw cs h = Some (the (con_puts hw cs h))"
  "console_drains hw \<Longrightarrow> print_hex hw v h = Some (the (print_hex hw v h))"
  using con_puts_ok[of hw cs h] print_hex_ok[of hw v h] by auto

lemma report_texts:
  "crlf ([10] @ ascii ''!!! SYNC EXCEPTION !!!'' @ [10]) = [13, 10] @ ascii ''!!! SYNC EXCEPTION !!!'' @ [13, 10]"
  "crlf (ascii ''ESR: '') = ascii ''ESR: ''" "crlf (ascii ''ELR: '') = ascii ''ELR: ''" "crlf (ascii ''FAR: '') = ascii ''FAR: ''"
  by (simp_all add: ascii_def of_char_def)

lemma unat_low_half: "unat (ucast (v :: u64) :: u32) = unat v mod 2 ^ 32"
  by (simp add: unsigned_ucast_eq take_bit_eq_mod)

text \<open>The report of an exception. With a console that drains, a value is printed as the prefix and eight digits that read back as its
  number, so the report shows the syndrome, the return address and the faulting address, but of the two addresses only the low 32 bits:
  different addresses that agree there give the same text.\<close>

theorem exception_report_low_half:
  assumes "console_drains hw"
  shows "\<exists>h' x y z. sync_exception_report hw esr elr far h = Some h' \<and>
     sent h' = sent h @ [13, 10] @ ascii ''!!! SYNC EXCEPTION !!!'' @ [13, 10] @ ascii ''ESR: '' @ ascii ''0x'' @ x @ [13, 10] @
       ascii ''ELR: '' @ ascii ''0x'' @ y @ [13, 10] @ ascii ''FAR: '' @ ascii ''0x'' @ z @ [13, 10] \<and>
     map length [x, y, z] = [8, 8, 8] \<and>
     map (text_value 16) [x, y, z] = [unat esr mod 2 ^ 32, unat elr mod 2 ^ 32, unat far mod 2 ^ 32]"
proof -
  have len: "length (hex8 v) = 8" for v by (simp add: hex8_def)
  have run: "\<exists>h'. sync_exception_report hw esr elr far h = Some h' \<and>
     sent h' = sent h @ crlf ([10] @ ascii ''!!! SYNC EXCEPTION !!!'' @ [10]) @ crlf (ascii ''ESR: '') @ ascii ''0x'' @ hex8 (ucast esr) @
       crlf [10] @ crlf (ascii ''ELR: '') @ ascii ''0x'' @ hex8 (ucast elr) @ crlf [10] @
       crlf (ascii ''FAR: '') @ ascii ''0x'' @ hex8 (ucast far) @ crlf [10]"
    unfolding sync_exception_report_def
    apply (subst print_total[OF assms], simp only: bind.bind_lunit)+
    apply (subst print_total[OF assms])
    apply (simp only: option.inject ex_simps sent_puts[OF assms] sent_hex[OF assms] append_assoc simp_thms)
    done
  then obtain h' where h': "sync_exception_report hw esr elr far h = Some h'"
    "sent h' = sent h @ [13, 10] @ ascii ''!!! SYNC EXCEPTION !!!'' @ [13, 10] @ ascii ''ESR: '' @ ascii ''0x'' @ hex8 (ucast esr) @ [13, 10] @
       ascii ''ELR: '' @ ascii ''0x'' @ hex8 (ucast elr) @ [13, 10] @ ascii ''FAR: '' @ ascii ''0x'' @ hex8 (ucast far) @ [13, 10]"
    unfolding report_texts by auto
  show ?thesis
    by (intro exI conjI, rule h'(1), rule h'(2)) (simp_all only: list.map len hex8_value unat_low_half)
qed

text \<open>A fault at a kernel address far beyond 4 GB is reported as address 0x10.\<close>

theorem exception_report_low_half_witness:
  "\<exists>h' u z. sync_exception_report (\<lambda>_ _. 0) 0x96000045 0x1240080000 0xFFFF000000000010 [] = Some h' \<and>
    sent h' = u @ ascii ''FAR: '' @ ascii ''0x'' @ z @ [13, 10] \<and> text_value 16 z = 16"
proof -
  obtain h' x y z where h': "sync_exception_report (\<lambda>_ _. 0) 0x96000045 0x1240080000 0xFFFF000000000010 [] = Some h'"
    "sent h' = sent [] @ [13, 10] @ ascii ''!!! SYNC EXCEPTION !!!'' @ [13, 10] @ ascii ''ESR: '' @ ascii ''0x'' @ x @ [13, 10] @
       ascii ''ELR: '' @ ascii ''0x'' @ y @ [13, 10] @ ascii ''FAR: '' @ ascii ''0x'' @ z @ [13, 10]"
    "map (text_value 16) [x, y, z] = [unat (0x96000045 :: u64) mod 2 ^ 32, unat (0x1240080000 :: u64) mod 2 ^ 32,
       unat (0xFFFF000000000010 :: u64) mod 2 ^ 32]"
    using exception_report_low_half[OF console_ready, of "0x96000045" "0x1240080000" "0xFFFF000000000010" "[]"]
    by (elim exE conjE) (rule that)
  have "text_value 16 z = 16" using h'(3) by simp
  then show ?thesis using h'(1,2)
    by (intro exI[of _ h'] exI[of _ "[13, 10] @ ascii ''!!! SYNC EXCEPTION !!!'' @ [13, 10] @ ascii ''ESR: '' @ ascii ''0x'' @ x @ [13, 10] @
       ascii ''ELR: '' @ ascii ''0x'' @ y @ [13, 10]"] exI[of _ z]) simp
qed


section \<open>What the tasks build\<close>

text \<open>Allocation behind a run of blocks in use takes the next piece of the last free segment.\<close>

lemma ff_alloc_used:
  "\<forall>g \<in> set u. seg_used g \<Longrightarrow> ff_alloc n (u @ r) = map_option (\<lambda>(b, r'). (b, u @ r')) (ff_alloc n r)"
proof (induction u)
  case (Cons g u)
  then show ?case by (cases g) (auto simp: option.map_comp comp_def case_prod_unfold)
qed (simp add: option.map_ident case_prod_unfold)

lemma alloc_next:
  assumes "heap_inv h (u @ [Seg m n False])" and "\<forall>g \<in> set u. seg_used g" and "k \<noteq> 0" and "rq = uint (heap_request k)"
    and "rq + HEAP_MIN_SIZE \<le> n"
  shows "\<exists>h'. heap_alloc k h = Some (Some (m + sizeof_heap_block), h') \<and>
    heap_inv h' ((u @ [Seg m rq True]) @ [Seg (m + rq) (n - rq) False])"
  using heap_alloc_sim[OF assms(1,3)] assms(2,4,5) by (auto simp: ff_alloc_used heap_consts)

lemma opcua_task_space_ok:
  assumes al: "heap_alloc sizeof_opcua_node h = Some (Some a, h1)" "heap_alloc sizeof_opcua_node h1 = Some (Some b, h2)"
      "heap_alloc sizeof_opcua_node h2 = Some (Some c, h3)" "heap_alloc sizeof_opcua_node h3 = Some (Some d, h4)"
    and "distinct [a, b, c, d]"
  shows "\<exists>s'. opcua_task_space lit s h = Some (s', h4) \<and> space_ok s' [ONode a [ONode b [ONode d [], ONode c []]]] \<and>
    map (\<lambda>x. nd_id (os_node s' x)) [a, b, c, d] = [numeric_id 0 84, numeric_id 0 85, numeric_id 1 1001, numeric_id 1 1002] \<and>
    nd_value (os_node s' c) = int32_value 255 \<and> nd_value (os_node s' d) = int32_value 1013"
  using assms
  by (simp add: opcua_task_space_def add_variable_def opcua_add_node_def opcua_server_init_def nd_upd_def spin_lock_def spin_unlock_def
      SPINLOCK_INIT_def opcua_set_value_def space_ok_def)

text \<open>C33: the OPC UA task's address space. With a heap whose last segment is free and has 1024 bytes or more, all segments
  before it being used, the two process variables are found under their
  identifiers with the values 255 and 1013, at different nodes, and four more blocks of the heap are used.\<close>

theorem opcua_task_serves:
  assumes "heap_inv h (u @ [Seg m n False])" and "\<forall>g \<in> set u. seg_used g" and "1024 \<le> n"
  shows "\<exists>s' h' t p. opcua_task_space lit s h = Some (s', h') \<and> t \<noteq> p \<and>
    opcua_find_node (numeric_id 1 1001) s' = Some (Some t, s') \<and> nd_value (os_node s' t) = int32_value 255 \<and>
    opcua_find_node (numeric_id 1 1002) s' = Some (Some p, s') \<and> nd_value (os_node s' p) = int32_value 1013 \<and>
    (\<exists>us r. heap_inv h' (u @ us @ [r]) \<and> length us = 4 \<and> (\<forall>g \<in> set us. seg_used g))"
proof -
  have rq: "uint (heap_request sizeof_opcua_node) = 144" by (simp add: uint_heap_request sizeof_opcua_node_def)
  have k: "sizeof_opcua_node \<noteq> 0" by (simp add: sizeof_opcua_node_def)
  obtain h1 where h1: "heap_alloc sizeof_opcua_node h = Some (Some (m + 32), h1)"
    "heap_inv h1 ((u @ [Seg m 144 True]) @ [Seg (m + 144) (n - 144) False])"
    using alloc_next[OF assms(1,2) k rq[symmetric]] assms(3) by (auto simp: heap_consts ac_simps)
  obtain h2 where h2: "heap_alloc sizeof_opcua_node h1 = Some (Some (m + 176), h2)"
    "heap_inv h2 ((u @ [Seg m 144 True, Seg (m + 144) 144 True]) @ [Seg (m + 288) (n - 288) False])"
    using alloc_next[OF h1(2) _ k rq[symmetric]] assms(2,3) by (auto simp: heap_consts ac_simps)
  obtain h3 where h3: "heap_alloc sizeof_opcua_node h2 = Some (Some (m + 320), h3)"
    "heap_inv h3 ((u @ [Seg m 144 True, Seg (m + 144) 144 True, Seg (m + 288) 144 True]) @ [Seg (m + 432) (n - 432) False])"
    using alloc_next[OF h2(2) _ k rq[symmetric]] assms(2,3) by (auto simp: heap_consts ac_simps)
  obtain h4 where h4: "heap_alloc sizeof_opcua_node h3 = Some (Some (m + 464), h4)"
    "heap_inv h4 ((u @ [Seg m 144 True, Seg (m + 144) 144 True, Seg (m + 288) 144 True, Seg (m + 432) 144 True]) @
       [Seg (m + 576) (n - 576) False])"
    using alloc_next[OF h3(2) _ k rq[symmetric]] assms(2,3) by (auto simp: heap_consts ac_simps)
  obtain s' where s': "opcua_task_space lit s h = Some (s', h4)"
    "space_ok s' [ONode (m + 32) [ONode (m + 176) [ONode (m + 464) [], ONode (m + 320) []]]]"
    "map (\<lambda>x. nd_id (os_node s' x)) [m + 32, m + 176, m + 320, m + 464] =
      [numeric_id 0 84, numeric_id 0 85, numeric_id 1 1001, numeric_id 1 1002]"
    "nd_value (os_node s' (m + 320)) = int32_value 255" "nd_value (os_node s' (m + 464)) = int32_value 1013"
    using opcua_task_space_ok[OF h1(1) h2(1) h3(1) h4(1), of lit s] by auto
  have "opcua_find_node (numeric_id 1 1001) s' = Some (Some (m + 320), s')" "opcua_find_node (numeric_id 1 1002) s' = Some (Some (m + 464), s')"
    using s'(3) by (simp_all add: opcua_find_ok[OF s'(2)])
  then show ?thesis using s'(1,4,5) h4(2)
    by (intro exI[of _ s'] exI[of _ h4] exI[of _ "m + 320"] exI[of _ "m + 464"] conjI
        exI[of _ "[Seg m 144 True, Seg (m + 144) 144 True, Seg (m + 288) 144 True, Seg (m + 432) 144 True]"]
        exI[of _ "Seg (m + 576) (n - 576) False"]) auto
qed

theorem opcua_task_serves_witness:
  "\<exists>s' h' t. opcua_task_space (\<lambda>_. 0) opcua_demo heap0 = Some (s', h') \<and> opcua_find_node (numeric_id 1 1001) s' = Some (Some t, s') \<and>
     nd_value (os_node s' t) = int32_value 255"
proof -
  have "heap_inv heap0 ([] @ [Seg 4096 16777216 False])" using heap0_inv by simp
  from opcua_task_serves[OF this, of "\<lambda>_. 0" opcua_demo] show ?thesis by auto
qed

lemma two_slots:
  "find_slot d x i 2 = find_slot d x i (Suc (Suc 0))" "locate d x y i 2 = locate d x y i (Suc (Suc 0))"
  "plug_loop x y i 2 d = plug_loop x y i (Suc (Suc 0)) d"
  by (simp_all only: numeral_2_eq_2)

lemma name_ends: "\<exists>n < 64. set_name (take 63 cs) m n = 0"
  by (rule exI[of _ "length (take 63 cs)"]) (auto simp: set_name_def min_def)

lemma profinet_task_start_ok:
  assumes al: "heap_alloc 8 (n_heap w) = Some (Some a, h1)" "heap_alloc 8 h1 = Some (Some b, h2)" and apart: "a + 8 \<le> b"
  shows "\<exists>d'. profinet_task_start eth0 d w = Some (d', w\<lparr>n_heap := h2\<rparr>) \<and> dev_wf d' \<and> pd_running d' \<and> pd_netif d' = eth0 \<and>
    pnio_get_input_data 1 1 d' = Some a \<and> pnio_get_output_data 1 1 d' = Some b \<and>
    pb_plugged (pd_sub d' 0 0) \<and> pb_plugged (pd_sub d' 1 0) \<and>
    mem_bytes (pd_mem d') a 8 = replicate 8 0 \<and> mem_bytes (pd_mem d') b 8 = replicate 8 0"
proof -
  let ?m = "mem_write b (replicate 8 0) (mem_write a (replicate 8 0) (pd_mem d))"
  have m: "mem_bytes ?m a 8 = replicate 8 0" "mem_bytes ?m b 8 = replicate 8 0"
    using apart mem_bytes_write[of a "replicate 8 0" "pd_mem d"] mem_bytes_write[of b "replicate 8 0"]
    by (simp_all add: mem_bytes_write_apart)
  show ?thesis using assms m
    by (simp add: profinet_task_start_def pnio_device_init_def pnio_add_slot_def pnio_add_subslot_def pnio_plug_submodule_def
        pnio_device_start_def pd_lock_take_def pd_lock_give_def spin_lock_def spin_unlock_def SPINLOCK_INIT_def slot_upd_def sub_upd_def
        pnio_data_area_def area_at_def CONFIG_PROFINET_MAX_DEVICES_def CONFIG_PROFINET_MAX_SLOTS_def CONFIG_PROFINET_MAX_SUBSLOTS_def Let_def
        dev_wf_def dev_body_def less_2_cases_iff slot_ok_def pnio_get_input_data_def pnio_get_output_data_def pnio_locate_def pd_sub_def
        two_slots name_ends)
qed

lemma two_bytes: "mem_bytes m a 8 = replicate 8 0 \<Longrightarrow> mem_bytes (m(a := x, a + 1 := y)) a 8 = [x, y] @ replicate 6 0"
proof -
  assume z: "mem_bytes m a 8 = replicate 8 0"
  have "m (a + int i) = 0" if "i < 8" for i using arg_cong[OF z, of "\<lambda>l. l ! i"] that by simp
  then show ?thesis by (intro nth_equalityI) (auto simp: nth_append nth_Cons split: nat.splits)
qed

text \<open>The PROFINET task's process image. With a heap whose last segment is free, the device it builds is well formed and running on the
  interface, both its submodules are plugged, and the I/O module has an input and an output area of eight zero bytes that do not
  overlap; a round of the task then puts its counter and the low byte of the tick count into the first two input bytes, counts up,
  and leaves the other bytes of both areas and the device's invariant alone.\<close>

theorem profinet_task_image:
  assumes "heap_inv (n_heap w) (u @ [Seg m n False])" and "\<forall>g \<in> set u. seg_used g" and "256 \<le> n"
  shows "\<exists>d' h' a b. profinet_task_start eth0 d w = Some (d', w\<lparr>n_heap := h'\<rparr>) \<and> dev_wf d' \<and> pd_running d' \<and> pd_netif d' = eth0 \<and>
    pb_plugged (pd_sub d' 0 0) \<and> pb_plugged (pd_sub d' 1 0) \<and>
    pnio_get_input_data 1 1 d' = Some a \<and> pnio_get_output_data 1 1 d' = Some b \<and> a + 8 \<le> b \<and>
    mem_bytes (pd_mem d') a 8 = replicate 8 0 \<and> mem_bytes (pd_mem d') b 8 = replicate 8 0 \<and>
    (\<forall>c v. \<exists>d''. profinet_task_update c d' v = (c + 1, d'') \<and> dev_wf d'' \<and>
       mem_bytes (pd_mem d'') a 8 = [c, ucast (sc_ticks (n_sched v))] @ replicate 6 0 \<and> mem_bytes (pd_mem d'') b 8 = replicate 8 0)"
proof -
  have rq: "uint (heap_request 8) = 48" by (simp add: uint_heap_request)
  have k: "(8 :: u64) \<noteq> 0" by simp
  obtain h1 where h1: "heap_alloc 8 (n_heap w) = Some (Some (m + 32), h1)"
    "heap_inv h1 ((u @ [Seg m 48 True]) @ [Seg (m + 48) (n - 48) False])"
    using alloc_next[OF assms(1,2) k rq[symmetric]] assms(3) by (auto simp: heap_consts)
  obtain h2 where h2: "heap_alloc 8 h1 = Some (Some (m + 80), h2)"
    using alloc_next[OF h1(2) _ k rq[symmetric]] assms(2,3) by (auto simp: heap_consts ac_simps)
  obtain d' where d': "profinet_task_start eth0 d w = Some (d', w\<lparr>n_heap := h2\<rparr>)" "dev_wf d'" "pd_running d'" "pd_netif d' = eth0"
    "pnio_get_input_data 1 1 d' = Some (m + 32)" "pnio_get_output_data 1 1 d' = Some (m + 80)" "pb_plugged (pd_sub d' 0 0)"
    "pb_plugged (pd_sub d' 1 0)" "mem_bytes (pd_mem d') (m + 32) 8 = replicate 8 0" "mem_bytes (pd_mem d') (m + 80) 8 = replicate 8 0"
    using profinet_task_start_ok[OF h1(1) h2, of eth0 d] by auto
  have low: "(ucast (t AND 0xFF) :: u8) = ucast (t :: u32)" for t
    by (rule bit_word_eqI) (auto simp: bit_simps mask_FF)
  have "\<exists>d''. profinet_task_update c d' v = (c + 1, d'') \<and> dev_wf d'' \<and>
      mem_bytes (pd_mem d'') (m + 32) 8 = [c, ucast (sc_ticks (n_sched v))] @ replicate 6 0 \<and>
      mem_bytes (pd_mem d'') (m + 80) 8 = replicate 8 0" for c v
  proof -
    let ?d = "d'\<lparr>pd_mem := (pd_mem d')(m + 32 := c, m + 32 + 1 := ucast (sc_ticks (n_sched v)))\<rparr>"
    have "profinet_task_update c d' v = (c + 1, ?d)"
      using d'(5) by (simp add: profinet_task_update_def get_system_ticks_def low)
    moreover have "dev_wf ?d" using d'(2) by (simp add: dev_wf_def dev_body_def)
    moreover have "mem_bytes (pd_mem ?d) (m + 80) 8 = mem_bytes (pd_mem d') (m + 80) 8"
      by (rule nth_equalityI) auto
    ultimately show ?thesis using two_bytes[OF d'(9)] d'(10) by (intro exI[of _ ?d]) simp
  qed
  then show ?thesis using d' by (intro exI[of _ d'] exI[of _ h2] exI[of _ "m + 32"] exI[of _ "m + 80"]) simp
qed

theorem profinet_task_image_witness:
  "\<exists>d' h' a. profinet_task_start 8 pnio_demo net_demo = Some (d', net_demo\<lparr>n_heap := h'\<rparr>) \<and> pnio_get_input_data 1 1 d' = Some a \<and>
     mem_bytes (pd_mem (snd (profinet_task_update 7 d' net_demo))) a 8 = [7, 6, 0, 0, 0, 0, 0, 0]"
proof -
  have "heap_inv (n_heap net_demo) ([] @ [Seg 4096 16777216 False])" using heap0_inv by (simp add: net_demo_def)
  from profinet_task_image[OF this, of 8 pnio_demo] obtain d' h' a b where
    d': "profinet_task_start 8 pnio_demo net_demo = Some (d', net_demo\<lparr>n_heap := h'\<rparr>)" "pnio_get_input_data 1 1 d' = Some a"
    and up: "\<forall>c v. \<exists>d''. profinet_task_update c d' v = (c + 1, d'') \<and> dev_wf d'' \<and>
       mem_bytes (pd_mem d'') a 8 = [c, ucast (sc_ticks (n_sched v))] @ replicate 6 0 \<and> mem_bytes (pd_mem d'') b 8 = replicate 8 0" by auto
  obtain d'' where u: "profinet_task_update 7 d' net_demo = (7 + 1, d'')"
    "mem_bytes (pd_mem d'') a 8 = [7, ucast (sc_ticks (n_sched net_demo))] @ replicate 6 0" using up by blast
  have "ucast (sc_ticks (n_sched net_demo)) = (6 :: u8)" by (simp add: net_demo_def sched_alone_def sched_ex_def)
  then have "mem_bytes (pd_mem d'') a 8 = [7, 6, 0, 0, 0, 0, 0, 0]" using u(2) by (simp add: numeral_eq_Suc)
  then show ?thesis using d' u(1) by (intro exI[of _ d'] exI[of _ h'] exI[of _ a]) simp
qed


end
