(* ===== verification/X86_Ports.thy ===== *)
theory X86_Ports
  imports Console
begin

text \<open>
  The devices of the x86 kernel behind input and output ports: the serial port
  \<open>src/X86_64-RTOS/drivers/serial/uart_16550.c\<close> and the interval timer \<open>drivers/timer/pit.c\<close>.

  The state keeps the accesses, the latest first; a parameter \<open>hw\<close> answers a read of a port from what was accessed
  before. A loop that waits for the device is \<open>None\<close> when the device never lets it end.
\<close>

section \<open>Port accesses\<close>

datatype pio = In u16 | Out u16 u8

type_synonym pio_hw = "pio list \<Rightarrow> u16 \<Rightarrow> u8"

record com =
  cm_port :: u16          \<comment> \<open>\<open>uart_port\<close>\<close>
  cm_io :: "pio list"

definition outb :: "u16 \<Rightarrow> u8 \<Rightarrow> com \<Rightarrow> com" where
  "outb p v c = c\<lparr>cm_io := Out p v # cm_io c\<rparr>"

definition inb :: "pio_hw \<Rightarrow> u16 \<Rightarrow> com \<Rightarrow> u8 \<times> com" where
  "inb hw p c = (hw (cm_io c) p, c\<lparr>cm_io := In p # cm_io c\<rparr>)"

section \<open>The serial port\<close>

definition UART_RBR :: u16 where "UART_RBR = 0"
definition UART_THR :: u16 where "UART_THR = 0"
definition UART_DLL :: u16 where "UART_DLL = 0"
definition UART_IER :: u16 where "UART_IER = 1"
definition UART_DLH :: u16 where "UART_DLH = 1"
definition UART_IIR :: u16 where "UART_IIR = 2"
definition UART_FCR :: u16 where "UART_FCR = 2"
definition UART_LCR :: u16 where "UART_LCR = 3"
definition UART_MCR :: u16 where "UART_MCR = 4"
definition UART_LSR :: u16 where "UART_LSR = 5"
definition UART_SCR :: u16 where "UART_SCR = 7"

definition UART_LSR_DR :: u8 where "UART_LSR_DR = 0x01"
definition UART_LSR_THRE :: u8 where "UART_LSR_THRE = 0x20"
definition UART_LCR_DLAB :: u8 where "UART_LCR_DLAB = 0x80"
definition COM1_PORT :: u16 where "COM1_PORT = 0x3F8"

text \<open>The division faults for a rate of 0.\<close>

definition com_init_port :: "pio_hw \<Rightarrow> u16 \<Rightarrow> u32 \<Rightarrow> com \<Rightarrow> com option" where
  "com_init_port hw port baud c =
     (if baud = 0 then None
      else
        let divisor = (ucast (115200 div baud) :: u16);
            c = c\<lparr>cm_port := port\<rparr>;
            c = outb (port + UART_IER) 0x00 c;
            c = outb (port + UART_LCR) UART_LCR_DLAB c;
            c = outb (port + UART_DLL) (ucast (divisor AND 0xFF)) c;
            c = outb (port + UART_DLH) (ucast (drop_bit 8 divisor AND 0xFF)) c;
            c = outb (port + UART_LCR) 0x03 c;
            c = outb (port + UART_FCR) (0x01 OR 0x02 OR 0x04 OR 0xC0) c;
            c = outb (port + UART_MCR) (0x01 OR 0x02 OR 0x08) c;
            c = outb (port + UART_SCR) 0xAE c;
            (v, c) = inb hw (port + UART_SCR) c
        in if v \<noteq> 0xAE then Some c
           else
             let c = snd (inb hw (port + UART_IIR) c)
             in Some (snd (inb hw (port + UART_RBR) c)))"

definition com_init :: "pio_hw \<Rightarrow> com \<Rightarrow> com option" where
  "com_init hw c = com_init_port hw COM1_PORT 115200 c"

definition com_is_transmit_empty :: "pio_hw \<Rightarrow> com \<Rightarrow> bool \<times> com" where
  "com_is_transmit_empty hw c = (let (v, c) = inb hw (cm_port c + UART_LSR) c in (v AND UART_LSR_THRE \<noteq> 0, c))"

definition com_is_received :: "pio_hw \<Rightarrow> com \<Rightarrow> bool \<times> com" where
  "com_is_received hw c = (let (v, c) = inb hw (cm_port c + UART_LSR) c in (v AND UART_LSR_DR \<noteq> 0, c))"

partial_function (option) com_wait_empty :: "pio_hw \<Rightarrow> com \<Rightarrow> com option" where
  "com_wait_empty hw c = (let (e, c) = com_is_transmit_empty hw c in if e then Some c else com_wait_empty hw c)"

partial_function (option) com_wait_received :: "pio_hw \<Rightarrow> com \<Rightarrow> com option" where
  "com_wait_received hw c = (let (e, c) = com_is_received hw c in if e then Some c else com_wait_received hw c)"

definition com_putc :: "pio_hw \<Rightarrow> u8 \<Rightarrow> com \<Rightarrow> com option" where
  "com_putc hw ch c = do { c \<leftarrow> com_wait_empty hw c; Some (outb (cm_port c + UART_THR) ch c) }"

definition com_getc :: "pio_hw \<Rightarrow> com \<Rightarrow> (u8 \<times> com) option" where
  "com_getc hw c = do { c \<leftarrow> com_wait_received hw c; Some (inb hw (cm_port c + UART_RBR) c) }"

definition com_getc_nonblock :: "pio_hw \<Rightarrow> com \<Rightarrow> int \<times> com" where
  "com_getc_nonblock hw c =
     (let (r, c) = com_is_received hw c
      in if r then let (v, c) = inb hw (cm_port c + UART_RBR) c in (uint v, c) else (-1, c))"

fun com_puts :: "pio_hw \<Rightarrow> u8 list \<Rightarrow> com \<Rightarrow> com option" where
  "com_puts hw [] c = Some c"
| "com_puts hw (ch # s) c = do {
     c \<leftarrow> (if ch = 10 then com_putc hw 13 c else Some c);
     c \<leftarrow> com_putc hw ch c;
     com_puts hw s c
   }"

definition hex_chars :: "u8 list" where "hex_chars = map of_char ''0123456789ABCDEF''"

text \<open>The loops over the nibbles, from position \<open>i\<close> down in steps of four.\<close>

fun com_nibbles :: "pio_hw \<Rightarrow> u64 \<Rightarrow> nat list \<Rightarrow> com \<Rightarrow> com option" where
  "com_nibbles hw v [] c = Some c"
| "com_nibbles hw v (i # is) c = do {
     c \<leftarrow> com_putc hw (hex_chars ! unat (drop_bit i v AND 0xF)) c;
     com_nibbles hw v is c
   }"

definition com_puthex :: "pio_hw \<Rightarrow> u64 \<Rightarrow> com \<Rightarrow> com option" where
  "com_puthex hw v c = do {
     c \<leftarrow> com_puts hw (map of_char ''0x'') c;
     com_nibbles hw v [60, 56, 52, 48, 44, 40, 36, 32, 28, 24, 20, 16, 12, 8, 4, 0] c
   }"

definition com_puthex32 :: "pio_hw \<Rightarrow> u32 \<Rightarrow> com \<Rightarrow> com option" where
  "com_puthex32 hw v c = do {
     c \<leftarrow> com_puts hw (map of_char ''0x'') c;
     com_nibbles hw (ucast v) [28, 24, 20, 16, 12, 8, 4, 0] c
   }"

text \<open>The digits that the loop of \<open>uart_putdec\<close> leaves in \<open>buf[i ..]\<close>, from \<open>buf[i ..] = acc\<close>.\<close>

fun dec_digits :: "nat \<Rightarrow> u64 \<Rightarrow> u8 list \<Rightarrow> u8 list" where
  "dec_digits 0 v acc = acc"
| "dec_digits (Suc i) v acc = (if v > 0 then dec_digits i (v div 10) ((48 + ucast (v mod 10)) # acc) else acc)"

definition com_putdec :: "pio_hw \<Rightarrow> u64 \<Rightarrow> com \<Rightarrow> com option" where
  "com_putdec hw v c = (if v = 0 then com_putc hw 48 c else com_puts hw (dec_digits 20 v []) c)"

section \<open>The interval timer\<close>

definition PIT_CH0_DATA :: u16 where "PIT_CH0_DATA = 0x40"
definition PIT_CMD :: u16 where "PIT_CMD = 0x43"
definition PIT_FREQUENCY :: u32 where "PIT_FREQUENCY = 1193182"

definition pit_init :: "u32 \<Rightarrow> com \<Rightarrow> com option" where
  "pit_init frequency c =
     (if frequency = 0 then None
      else
        let divisor = (ucast (PIT_FREQUENCY div frequency) :: u16);
            c = outb PIT_CMD (0x00 OR 0x30 OR 0x04) c;
            c = outb PIT_CH0_DATA (ucast (divisor AND 0xFF)) c
        in Some (outb PIT_CH0_DATA (ucast (drop_bit 8 divisor AND 0xFF)) c))"

definition pit_read_count :: "pio_hw \<Rightarrow> com \<Rightarrow> u16 \<times> com" where
  "pit_read_count hw c =
     (let c = outb PIT_CMD 0x00 c;
          (lo, c) = inb hw PIT_CH0_DATA c;
          (hi, c) = inb hw PIT_CH0_DATA c
      in (ucast lo OR push_bit 8 (ucast hi), c))"

partial_function (option) pit_wait :: "pio_hw \<Rightarrow> com \<Rightarrow> com option" where
  "pit_wait hw c = (let (n, c) = pit_read_count hw c in if n > 0 then pit_wait hw c else Some c)"

definition pit_delay_ticks :: "u32 \<Rightarrow> u32" where
  "pit_delay_ticks ms = (let ticks = (PIT_FREQUENCY div 1000) * ms in if ticks > 65535 then 65535 else ticks)"

definition pit_delay_ms :: "pio_hw \<Rightarrow> u32 \<Rightarrow> com \<Rightarrow> com option" where
  "pit_delay_ms hw ms c =
     (let ticks = pit_delay_ticks ms;
          c = outb PIT_CMD (0x00 OR 0x30 OR 0x00) c;
          c = outb PIT_CH0_DATA (ucast (ticks AND 0xFF)) c;
          c = outb PIT_CH0_DATA (ucast (drop_bit 8 ticks AND 0xFF)) c
      in pit_wait hw c)"

end
