(* ===== verification/X86_Ports_Props.thy ===== *)
theory X86_Ports_Props
  imports X86_Ports
begin

text \<open>
  What goes out on the serial port of the x86 kernel, how the chip is set up, and what the busy wait on the interval
  timer waits for.
\<close>

section \<open>Printing\<close>

text \<open>The bytes written to the data register of port \<open>p\<close>, and a transmitter that becomes empty in the end.\<close>

fun com_out :: "u16 \<Rightarrow> pio list \<Rightarrow> u8 list" where
  "com_out p [] = []"
| "com_out p (In q # h) = com_out p h"
| "com_out p (Out q v # h) = (if q = p then com_out p h @ [v] else com_out p h)"

definition com_sent :: "com \<Rightarrow> u8 list" where "com_sent c = com_out (cm_port c) (cm_io c)"

definition com_ready :: "pio_hw \<Rightarrow> com \<Rightarrow> bool" where
  "com_ready hw c \<longleftrightarrow> (\<forall>h. com_wait_empty hw (c\<lparr>cm_io := h\<rparr>) \<noteq> None)"

lemma com_wait_empty_sent: "com_wait_empty hw c = Some c' \<Longrightarrow> cm_port c' = cm_port c \<and> com_out p (cm_io c') = com_out p (cm_io c)"
  by (rule com_wait_empty.raw_induct [where P = "\<lambda>hw c c'. cm_port c' = cm_port c \<and> com_out p (cm_io c') = com_out p (cm_io c)"])
    (auto simp: com_is_transmit_empty_def inb_def Let_def split: if_splits)

lemma com_putc_ok:
  assumes "com_ready hw c"
  shows "\<exists>c'. com_putc hw x c = Some c' \<and> com_sent c' = com_sent c @ [x] \<and> com_ready hw c'"
proof -
  obtain c1 where c1: "com_wait_empty hw c = Some c1"
    using assms[unfolded com_ready_def, rule_format, of "cm_io c"] by auto
  note same = com_wait_empty_sent[OF c1, of "cm_port c"]
  have "c\<lparr>cm_io := h\<rparr> = c1\<lparr>cm_io := h\<rparr>" for h using same by (cases c; cases c1) simp
  then have "com_ready hw (outb (cm_port c1 + UART_THR) x c1)"
    using assms by (simp add: com_ready_def outb_def)
  then show ?thesis using c1 same
    by (simp add: com_putc_def com_sent_def outb_def UART_THR_def)
qed

lemma hex_chars_nth: "n < 16 \<Longrightarrow> hex_chars ! n = hex_char n"
proof -
  have "hex_chars = [48, 49, 50, 51, 52, 53, 54, 55, 56, 57, 65, 66, 67, 68, 69, 70]"
    by (simp add: hex_chars_def of_char_def)
  then show "n < 16 \<Longrightarrow> hex_chars ! n = hex_char n" using hex_table[of n] by simp
qed

interpretation com: char_out "com_putc hw" "com_puts hw" "com_nibbles hw v" "\<lambda>i. hex_chars ! unat (drop_bit i v AND 0xF)"
    com_sent "com_ready hw"
  for hw v
  by unfold_locales (simp_all add: com_putc_ok)

lemma com_puthex_ok:
  assumes "com_ready hw c"
  shows "\<exists>c'. com_puthex hw v c = Some c' \<and> com_sent c' = com_sent c @ map of_char ''0x'' @ hex_text 16 (unat v) \<and> com_ready hw c'"
proof -
  have "crlf (map of_char ''0x'') = map of_char ''0x''" by (simp add: of_char_def)
  then obtain c1 where c1: "com_puts hw (map of_char ''0x'') c = Some c1" "com_sent c1 = com_sent c @ map of_char ''0x''" "com_ready hw c1"
    using com.puts_out[OF assms] by metis
  have "rev [0 ..< 16 :: nat] = [15, 14, 13, 12, 11, 10, 9, 8, 7, 6, 5, 4, 3, 2, 1, 0]" by (simp add: upt_rec)
  then have t: "map (\<lambda>i. hex_chars ! unat (drop_bit i v AND 0xF)) [60, 56, 52, 48, 44, 40, 36, 32, 28, 24, 20, 16, 12, 8, 4, 0] = hex_text 16 (unat v)"
    by (simp add: hex_text_def nibble_value hex_chars_nth)
  obtain c2 where "com_nibbles hw v [60, 56, 52, 48, 44, 40, 36, 32, 28, 24, 20, 16, 12, 8, 4, 0] c1 = Some c2"
    "com_sent c2 = com_sent c1 @ hex_text 16 (unat v)" "com_ready hw c2"
    using com.digits_out[OF c1(3)] unfolding t[symmetric] by blast
  then show ?thesis using c1 by (simp add: com_puthex_def)
qed

lemma dec_digits_text:
  assumes "0 < v" and "unat v < 10 ^ k"
  shows "dec_digits k v acc = dec_text (unat v) @ acc"
  using assms
proof (induction k arbitrary: v acc)
  case (Suc k)
  have m: "unat (v mod 10) = unat v mod 10" "unat (v div 10) = unat v div 10" by (simp_all add: unat_mod unat_div)
  have "(48 + ucast (v mod 10) :: u8) = of_nat (48 + unat v mod 10)"
    by (simp only: m(1)[symmetric] of_nat_add of_nat_numeral of_nat_unat)
  then show ?case
  proof (cases "unat v < 10")
    case True
    then have "v div 10 = 0" using m(2) by (simp add: unat_eq_0[symmetric])
    then have "dec_digits k (v div 10) bs = bs" for bs by (cases k) simp_all
    then show ?thesis using Suc.prems \<open>(48 + ucast _ :: u8) = _\<close> True by (simp add: dec_text.simps[of "unat v"])
  next
    case False
    then have "0 < v div 10" "unat (v div 10) < 10 ^ k" using m(2) Suc.prems by (simp_all add: word_less_nat_alt)
    then show ?thesis using Suc.IH[of "v div 10"] Suc.prems \<open>(48 + ucast _ :: u8) = _\<close> False m(2)
      by (simp add: dec_text.simps[of "unat v"])
  qed
qed (simp add: word_less_nat_alt)

lemma com_putdec_ok:
  assumes "com_ready hw c"
  shows "\<exists>c'. com_putdec hw v c = Some c' \<and> com_sent c' = com_sent c @ dec_text (unat v) \<and> com_ready hw c'"
proof (cases "v = 0")
  case True
  then show ?thesis using com_putc_ok[OF assms, of 48] by (simp add: com_putdec_def dec_text.simps[of 0])
next
  case False
  have "unat v < 2 ^ 64" using unsigned_less[where w = v and ?'a = nat] by simp
  then have "unat v < 10 ^ 20" by (rule less_trans) simp
  then have t: "dec_digits 20 v [] = dec_text (unat v)" using dec_digits_text[of v 20 "[]"] False by (simp add: word_neq_0_conv)
  have "crlf (dec_text (unat v)) = dec_text (unat v)"
    by (rule crlf_plain) (use dec_text_visible[of 10 "unat v"] in auto)
  then show ?thesis using com.puts_out[OF assms, of "dec_text (unat v)"] False by (auto simp: com_putdec_def t)
qed

text \<open>A number in decimal. Whatever the value, \<open>uart_putdec\<close> writes digits only, without leading zeros, that read back as the value.\<close>

theorem com_putdec_decimal:
  assumes "com_ready hw c"
  shows "\<exists>c' ds. com_putdec hw v c = Some c' \<and> com_sent c' = com_sent c @ ds \<and> text_value 10 ds = unat v \<and>
    (\<forall>d \<in> set ds. 48 \<le> d \<and> d \<le> 57) \<and> (v \<noteq> 0 \<longrightarrow> hd ds \<noteq> 48) \<and> (v = 0 \<longrightarrow> ds = [48])"
proof -
  have "v \<noteq> 0 \<longrightarrow> 0 < unat v" by (simp add: unat_gt_0)
  then show ?thesis
    using com_putdec_ok[OF assms, of v] dec_text_value[of "unat v"] dec_text_visible[of _ "unat v"] dec_text_no_zero[of "unat v"]
    by (fastforce simp: dec_text.simps[of 0])
qed

lemma com_ready_demo: "com_ready (\<lambda>_ _. 0x20) c"
  unfolding com_ready_def
  by (subst com_wait_empty.simps) (simp add: com_is_transmit_empty_def inb_def UART_LSR_THRE_def)

theorem com_putdec_decimal_witness:
  "\<exists>c' ds. com_putdec (\<lambda>_ _. 0x20) 4096 \<lparr>cm_port = COM1_PORT, cm_io = []\<rparr> = Some c' \<and> com_sent c' = ds \<and> text_value 10 ds = 4096"
  using com_putdec_decimal[OF com_ready_demo, of 4096 "\<lparr>cm_port = COM1_PORT, cm_io = []\<rparr>"] by (auto simp: com_sent_def)

section \<open>Setting up the chip\<close>

text \<open>The registers of the chip at port \<open>p\<close> after the accesses: line control, and the divisor latch behind its bit 7.\<close>

fun chip_lcr :: "u16 \<Rightarrow> pio list \<Rightarrow> u8" where
  "chip_lcr p [] = 0"
| "chip_lcr p (In q # h) = chip_lcr p h"
| "chip_lcr p (Out q v # h) = (if q = p + UART_LCR then v else chip_lcr p h)"

fun chip_latch :: "u16 \<Rightarrow> u16 \<Rightarrow> pio list \<Rightarrow> u8" where
  "chip_latch p r [] = 0"
| "chip_latch p r (In q # h) = chip_latch p r h"
| "chip_latch p r (Out q v # h) =
     (if q = p + r \<and> chip_lcr p h AND UART_LCR_DLAB \<noteq> 0 then v else chip_latch p r h)"

lemma low_high_bytes:
  "unat (ucast (d AND 0xFF) :: u8) + 256 * unat (ucast (drop_bit 8 d AND 0xFF) :: u8) = unat (d :: u16)"
proof -
  have "d AND 0xFF = take_bit 8 d" "drop_bit 8 d AND 0xFF = take_bit 8 (drop_bit 8 d)"
    by (simp_all add: take_bit_eq_mask mask_eq_exp_minus_1)
  then have "unat (ucast (d AND 0xFF) :: u8) = unat d mod 256" "unat (ucast (drop_bit 8 d AND 0xFF) :: u8) = unat d div 256 mod 256"
    by (simp_all only: unsigned_ucast_eq unsigned_take_bit_eq unat_drop_bit_eq) (simp_all add: take_bit_eq_mod drop_bit_eq_div)
  moreover have "unat d div 256 < 256" using unsigned_less[where w = d and ?'a = nat] by simp
  ultimately show ?thesis by simp
qed

text \<open>The divisor the chip gets is the quotient cut to 16 bits, the frame is eight data bits without parity, and the latch is closed.
  A rate above 115200 programs the divisor 0, and a rate of 1 a divisor for another rate.\<close>

theorem com_init_programs:
  assumes "baud \<noteq> 0"
  shows "\<exists>c'. com_init_port hw p baud c = Some c' \<and> cm_port c' = p \<and> chip_lcr p (cm_io c') = 3 \<and>
    unat (chip_latch p UART_DLL (cm_io c')) + 256 * unat (chip_latch p UART_DLH (cm_io c')) = 115200 div unat baud mod 65536"
proof -
  let ?d = "ucast (115200 div baud) :: u16"
  have "unat ?d = 115200 div unat baud mod 65536" by (simp add: unsigned_ucast_eq take_bit_eq_mod unat_div)
  then have d: "unat (ucast (?d AND 0xFF) :: u8) + 256 * unat (ucast (drop_bit 8 ?d AND 0xFF) :: u8) = 115200 div unat baud mod 65536"
    using low_high_bytes[of ?d] by simp
  show ?thesis using assms d
    by (simp add: com_init_port_def Let_def outb_def inb_def UART_IER_def UART_LCR_def UART_DLL_def UART_DLH_def UART_FCR_def UART_MCR_def
        UART_SCR_def UART_IIR_def UART_RBR_def UART_LCR_DLAB_def)
qed

theorem com_init_programs_witness:
  "\<exists>c'. com_init_port (\<lambda>_ _. 0) 0x3F8 9600 \<lparr>cm_port = 0, cm_io = []\<rparr> = Some c' \<and> chip_latch 0x3F8 UART_DLL (cm_io c') = 12"
  by (simp add: com_init_port_def Let_def outb_def inb_def UART_IER_def UART_LCR_def UART_DLL_def UART_DLH_def UART_FCR_def UART_MCR_def
        UART_SCR_def UART_IIR_def UART_RBR_def UART_LCR_DLAB_def)

section \<open>Waiting on the interval timer\<close>

text \<open>The latch commands so far, and a counter that has gone down by \<open>k\<close> from \<open>n\<close> between two of them, modulo \<open>2 ^ 16\<close>;
  the low byte is read first.\<close>

fun latches :: "pio list \<Rightarrow> nat" where
  "latches [] = 0"
| "latches (In p # h) = latches h"
| "latches (Out p v # h) = (if p = PIT_CMD \<and> v = 0 then Suc (latches h) else latches h)"

definition pit_counts :: "u16 \<Rightarrow> u16 \<Rightarrow> pio_hw \<Rightarrow> bool" where
  "pit_counts n k hw \<longleftrightarrow> (\<forall>h. let v = n - k * of_nat (latches h) in
     hw (Out PIT_CMD 0 # h) PIT_CH0_DATA = ucast v \<and> hw (In PIT_CH0_DATA # Out PIT_CMD 0 # h) PIT_CH0_DATA = ucast (drop_bit 8 v))"

lemma bytes_of_word: "ucast (ucast v :: u8) OR push_bit 8 (ucast (ucast (drop_bit 8 v) :: u8)) = (v :: u16)"
  by (rule bit_word_eqI) (auto simp: bit_simps not_less dest: bit_imp_le_length)

lemma pit_read_counts:
  "pit_counts n k hw \<Longrightarrow> pit_read_count hw c =
    (n - k * of_nat (latches (cm_io c)), c\<lparr>cm_io := In PIT_CH0_DATA # In PIT_CH0_DATA # Out PIT_CMD 0 # cm_io c\<rparr>)"
  by (simp add: pit_read_count_def outb_def inb_def pit_counts_def Let_def bytes_of_word)

lemma pit_wait_step:
  assumes "pit_counts n k hw"
  shows "pit_wait hw c = (if n = k * of_nat (latches (cm_io c))
    then Some (c\<lparr>cm_io := In PIT_CH0_DATA # In PIT_CH0_DATA # Out PIT_CMD 0 # cm_io c\<rparr>)
    else pit_wait hw (c\<lparr>cm_io := In PIT_CH0_DATA # In PIT_CH0_DATA # Out PIT_CMD 0 # cm_io c\<rparr>))"
  by (subst pit_wait.simps) (simp add: pit_read_counts[OF assms] word_neq_0_conv[symmetric])

lemma pit_poll_cases:
  assumes "\<And>hw c c'. f hw c = Some c' \<Longrightarrow> pit_counts n k hw \<longrightarrow> (\<exists>j \<ge> latches (cm_io c). n = k * of_nat j)"
    and "(let (n, c) = pit_read_count hw c in if n > 0 then f hw c else Some c) = Some c'" and "pit_counts n k hw"
  shows "\<exists>j \<ge> latches (cm_io c). n = k * of_nat j"
proof (cases "n = k * of_nat (latches (cm_io c))")
  case False
  let ?c = "c\<lparr>cm_io := In PIT_CH0_DATA # In PIT_CH0_DATA # Out PIT_CMD 0 # cm_io c\<rparr>"
  have "0 < n - k * of_nat (latches (cm_io c))" using False by (simp add: word_neq_0_conv[symmetric])
  then have "f hw ?c = Some c'" using assms(2) by (simp add: pit_read_counts[OF assms(3)])
  then obtain j where "latches (cm_io ?c) \<le> j" "n = k * of_nat j" using assms(1,3) by blast
  then show ?thesis by (intro exI[of _ j]) simp
qed blast

lemma pit_wait_Some:
  assumes "pit_wait hw c = Some c'" and "pit_counts n k hw"
  shows "\<exists>j \<ge> latches (cm_io c). n = k * of_nat j"
proof -
  have "pit_counts n k hw \<longrightarrow> (\<exists>j \<ge> latches (cm_io c). n = k * of_nat j)"
    by (rule pit_wait.raw_induct [where P = "\<lambda>hw c c'. pit_counts n k hw \<longrightarrow> (\<exists>j \<ge> latches (cm_io c). n = k * of_nat j)", OF _ assms(1)])
      (rule impI, elim pit_poll_cases)
  then show ?thesis using assms(2) by blast
qed

lemma pit_wait_ends:
  assumes hw: "pit_counts n k hw" and "n = k * of_nat (latches (cm_io c) + d)"
  shows "\<exists>c'. pit_wait hw c = Some c'"
  using assms(2)
proof (induction d arbitrary: c)
  case 0
  then show ?case by (subst pit_wait_step[OF hw]) simp
next
  case (Suc d)
  let ?c = "c\<lparr>cm_io := In PIT_CH0_DATA # In PIT_CH0_DATA # Out PIT_CMD 0 # cm_io c\<rparr>"
  have "\<exists>c'. pit_wait hw ?c = Some c'" using Suc.prems by (intro Suc.IH) simp
  then show ?case by (subst pit_wait_step[OF hw]) simp
qed

text \<open>C39: the delay, the first after the start, waits for an exact zero. The counter goes on below zero, so that the loop of \<open>pit_delay_ms\<close> ends if and only if the counter
  is 0 at the moment of a poll: with \<open>k\<close> counts between two polls, if some poll meets a multiple of \<open>k\<close> that is congruent to the count.\<close>

theorem pit_delay_ends_iff:
  assumes "pit_counts (ucast (pit_delay_ticks ms)) k hw" and "latches (cm_io c) = 0"
  shows "(\<exists>c'. pit_delay_ms hw ms c = Some c') \<longleftrightarrow> (\<exists>j. ucast (pit_delay_ticks ms) = k * of_nat j)"
proof -
  let ?c = "outb PIT_CH0_DATA (ucast (drop_bit 8 (pit_delay_ticks ms) AND 0xFF))
    (outb PIT_CH0_DATA (ucast (pit_delay_ticks ms AND 0xFF)) (outb PIT_CMD (0x00 OR 0x30 OR 0x00) c))"
  have l: "latches (cm_io ?c) = 0" using assms(2) by (simp add: outb_def PIT_CMD_def PIT_CH0_DATA_def)
  have run: "pit_delay_ms hw ms c = pit_wait hw ?c" by (simp add: pit_delay_ms_def Let_def)
  show ?thesis unfolding run using pit_wait_Some[OF _ assms(1), of ?c] pit_wait_ends[OF assms(1), of ?c] l
    by (metis add_0)
qed

text \<open>A millisecond is 1193 counts: when each poll takes two, the delay never ends.\<close>

definition pit_by_two :: pio_hw where
  "pit_by_two h p = (case h of
       Out q v # h \<Rightarrow> ucast (1193 - 2 * of_nat (latches h) :: u16)
     | In r # Out q v # h \<Rightarrow> ucast (drop_bit 8 (1193 - 2 * of_nat (latches h) :: u16))
     | _ \<Rightarrow> 0)"

theorem pit_delay_ends_iff_witness:
  "pit_delay_ms pit_by_two 1 \<lparr>cm_port = COM1_PORT, cm_io = []\<rparr> = None"
proof -
  have t: "(ucast (pit_delay_ticks 1) :: u16) = 1193" by (simp add: pit_delay_ticks_def PIT_FREQUENCY_def)
  have "pit_counts (ucast (pit_delay_ticks 1)) 2 pit_by_two" unfolding t by (simp add: pit_counts_def pit_by_two_def Let_def)
  moreover have "(1193 :: u16) \<noteq> 2 * of_nat j" for j
  proof
    assume "(1193 :: u16) = 2 * of_nat j"
    then have "bit (1193 :: u16) 0 = bit (2 * of_nat j :: u16) 0" by simp
    then show False by (simp add: bit_0)
  qed
  ultimately show ?thesis
    using pit_delay_ends_iff[of 1 2 pit_by_two "\<lparr>cm_port = COM1_PORT, cm_io = []\<rparr>"] unfolding t by auto
qed

end
