(* ===== verification/X86_Apic.thy ===== *)
theory X86_Apic
  imports Config
begin

text \<open>
  The interrupt controllers of the x86 kernel, \<open>src/X86_64-RTOS/arch/x86_64/apic.c\<close>: the local controller with its timer, and the
  I/O controller with its redirection table, and the timer driver \<open>drivers/timer/apic_timer.c\<close>.

  The state keeps the two base pointers, the model-specific register with the base address, and the accesses to the
  controllers, the latest first; \<open>hw\<close> answers a read.
\<close>

record apic =
  ap_lapic :: addr          \<comment> \<open>\<open>lapic_base\<close>\<close>
  ap_ioapic :: addr         \<comment> \<open>\<open>ioapic_base\<close>\<close>
  ap_msr :: u64             \<comment> \<open>\<open>MSR_IA32_APIC_BASE\<close>\<close>
  ap_io :: "mmio list"
  ap_ticks_per_ms :: u32    \<comment> \<open>\<open>apic_timer_ticks_per_ms\<close>\<close>

definition ap_wr :: "addr \<Rightarrow> u32 \<Rightarrow> apic \<Rightarrow> apic" where
  "ap_wr a v s = s\<lparr>ap_io := Wr a v # ap_io s\<rparr>"

definition ap_rd :: "mmio_hw \<Rightarrow> addr \<Rightarrow> apic \<Rightarrow> u32 \<times> apic" where
  "ap_rd hw a s = (hw (ap_io s) a, s\<lparr>ap_io := Rd a # ap_io s\<rparr>)"

section \<open>The local controller\<close>

definition LAPIC_ID :: u32 where "LAPIC_ID = 0x020"
definition LAPIC_TPR :: u32 where "LAPIC_TPR = 0x080"
definition LAPIC_EOI :: u32 where "LAPIC_EOI = 0x0B0"
definition LAPIC_SVR :: u32 where "LAPIC_SVR = 0x0F0"
definition LAPIC_ESR :: u32 where "LAPIC_ESR = 0x280"
definition LAPIC_LVT_TIMER :: u32 where "LAPIC_LVT_TIMER = 0x320"
definition LAPIC_LVT_THERMAL :: u32 where "LAPIC_LVT_THERMAL = 0x330"
definition LAPIC_LVT_PERF :: u32 where "LAPIC_LVT_PERF = 0x340"
definition LAPIC_LVT_LINT0 :: u32 where "LAPIC_LVT_LINT0 = 0x350"
definition LAPIC_LVT_LINT1 :: u32 where "LAPIC_LVT_LINT1 = 0x360"
definition LAPIC_LVT_ERROR :: u32 where "LAPIC_LVT_ERROR = 0x370"
definition LAPIC_TIMER_ICR :: u32 where "LAPIC_TIMER_ICR = 0x380"
definition LAPIC_TIMER_CCR :: u32 where "LAPIC_TIMER_CCR = 0x390"
definition LAPIC_TIMER_DCR :: u32 where "LAPIC_TIMER_DCR = 0x3E0"

definition LAPIC_SVR_ENABLE :: u32 where "LAPIC_SVR_ENABLE = 0x100"
definition LAPIC_LVT_MASKED :: u32 where "LAPIC_LVT_MASKED = 0x10000"
definition LAPIC_TIMER_PERIODIC :: u32 where "LAPIC_TIMER_PERIODIC = 0x20000"
definition LAPIC_TIMER_DIV_16 :: u32 where "LAPIC_TIMER_DIV_16 = 0x03"
definition APIC_TIMER_VECTOR :: u32 where "APIC_TIMER_VECTOR = 32"
definition APIC_ERROR_VECTOR :: u32 where "APIC_ERROR_VECTOR = 51"
definition APIC_SPURIOUS_VECTOR :: u32 where "APIC_SPURIOUS_VECTOR = 255"

definition lapic_at :: "u32 \<Rightarrow> apic \<Rightarrow> addr" where
  "lapic_at reg s = ap_lapic s + 4 * uint (reg div 4)"

definition lapic_read :: "mmio_hw \<Rightarrow> u32 \<Rightarrow> apic \<Rightarrow> u32 \<times> apic" where
  "lapic_read hw reg s = ap_rd hw (lapic_at reg s) s"

text \<open>A write is followed by a read of the identification, whose value is not used.\<close>

definition lapic_write :: "mmio_hw \<Rightarrow> u32 \<Rightarrow> u32 \<Rightarrow> apic \<Rightarrow> apic" where
  "lapic_write hw reg v s = (let s = ap_wr (lapic_at reg s) v s in snd (ap_rd hw (lapic_at LAPIC_ID s) s))"

definition lapic_get_id :: "mmio_hw \<Rightarrow> apic \<Rightarrow> u32 \<times> apic" where
  "lapic_get_id hw s = (let (v, s) = lapic_read hw LAPIC_ID s in (drop_bit 24 v AND 0xFF, s))"

definition lapic_eoi :: "mmio_hw \<Rightarrow> apic \<Rightarrow> apic" where
  "lapic_eoi hw s = lapic_write hw LAPIC_EOI 0 s"

definition apic_init :: "mmio_hw \<Rightarrow> apic \<Rightarrow> apic" where
  "apic_init hw s =
     (let m = ap_msr s;
          s = (if m AND 0x800 = 0 then s\<lparr>ap_msr := m OR 0x800\<rparr> else s);
          s = s\<lparr>ap_lapic := uint (ap_msr s AND 0xFFFFFF000)\<rparr>;
          s = lapic_write hw LAPIC_SVR (LAPIC_SVR_ENABLE OR APIC_SPURIOUS_VECTOR) s;
          s = lapic_write hw LAPIC_ESR 0 s;
          s = lapic_write hw LAPIC_ESR 0 s;
          s = lapic_write hw LAPIC_TPR 0 s;
          s = lapic_write hw LAPIC_LVT_TIMER LAPIC_LVT_MASKED s;
          s = lapic_write hw LAPIC_LVT_THERMAL LAPIC_LVT_MASKED s;
          s = lapic_write hw LAPIC_LVT_PERF LAPIC_LVT_MASKED s;
          s = lapic_write hw LAPIC_LVT_LINT0 LAPIC_LVT_MASKED s;
          s = lapic_write hw LAPIC_LVT_LINT1 LAPIC_LVT_MASKED s;
          s = lapic_write hw LAPIC_LVT_ERROR APIC_ERROR_VECTOR s
      in lapic_eoi hw s)"

section \<open>The timer\<close>

text \<open>The delay loop before the count is read has no effect of its own. The division by the frequency faults for 0.\<close>

definition apic_timer_init :: "mmio_hw \<Rightarrow> u32 \<Rightarrow> apic \<Rightarrow> apic option" where
  "apic_timer_init hw frequency s =
     (let s = lapic_write hw LAPIC_TIMER_DCR LAPIC_TIMER_DIV_16 s;
          s = lapic_write hw LAPIC_TIMER_ICR 0xFFFFFFFF s;
          (current, s) = lapic_read hw LAPIC_TIMER_CCR s;
          elapsed = 0xFFFFFFFF - current;
          s = s\<lparr>ap_ticks_per_ms := elapsed div 10\<rparr>
      in if frequency = 0 then None
         else
           let period_ms = 1000 div frequency;
               initial_count = ap_ticks_per_ms s * period_ms;
               initial_count = (if initial_count = 0 then 1 else initial_count);
               s = lapic_write hw LAPIC_LVT_TIMER (LAPIC_TIMER_PERIODIC OR APIC_TIMER_VECTOR) s;
               s = lapic_write hw LAPIC_TIMER_DCR LAPIC_TIMER_DIV_16 s
           in Some (lapic_write hw LAPIC_TIMER_ICR initial_count s))"

definition apic_timer_stop :: "mmio_hw \<Rightarrow> apic \<Rightarrow> apic" where
  "apic_timer_stop hw s = lapic_write hw LAPIC_TIMER_ICR 0 (lapic_write hw LAPIC_LVT_TIMER LAPIC_LVT_MASKED s)"

text \<open>The target of \<open>apic_timer_delay_ms\<close>, with \<open>ticks\<close> the count of \<open>apic_timer.c\<close> and \<open>frequency\<close> its rate.\<close>

definition apic_delay_target :: "u32 \<Rightarrow> u32 \<Rightarrow> u32 \<Rightarrow> u32" where
  "apic_delay_target ticks frequency ms = ticks + ms * frequency div 1000"

section \<open>The I/O controller\<close>

definition IOAPIC_REGSEL :: addr where "IOAPIC_REGSEL = 0x00"
definition IOAPIC_REGWIN :: addr where "IOAPIC_REGWIN = 0x10"
definition IOAPIC_VER :: u32 where "IOAPIC_VER = 0x01"
definition IOAPIC_REDTBL :: "u32 \<Rightarrow> u32" where "IOAPIC_REDTBL n = 0x10 + n * 2"
definition IOAPIC_MASKED :: u32 where "IOAPIC_MASKED = 0x10000"
definition IOAPIC_DEFAULT_BASE :: addr where "IOAPIC_DEFAULT_BASE = 0xFEC00000"

definition ioapic_read :: "mmio_hw \<Rightarrow> u32 \<Rightarrow> apic \<Rightarrow> u32 \<times> apic" where
  "ioapic_read hw reg s = ap_rd hw (ap_ioapic s + IOAPIC_REGWIN) (ap_wr (ap_ioapic s + IOAPIC_REGSEL) reg s)"

definition ioapic_write :: "u32 \<Rightarrow> u32 \<Rightarrow> apic \<Rightarrow> apic" where
  "ioapic_write reg v s = ap_wr (ap_ioapic s + IOAPIC_REGWIN) v (ap_wr (ap_ioapic s + IOAPIC_REGSEL) reg s)"

definition ioapic_set_irq :: "u8 \<Rightarrow> u8 \<Rightarrow> bool \<Rightarrow> apic \<Rightarrow> apic" where
  "ioapic_set_irq irq vector masked s =
     (let reg = IOAPIC_REDTBL (ucast irq);
          low = ucast vector;
          low = (if masked then low OR IOAPIC_MASKED else low);
          high = 0
      in ioapic_write (reg + 1) high (ioapic_write reg low s))"

text \<open>\<open>for (i = 0; i < max_irq; i++) ioapic_set_irq(i, 32 + i, true);\<close>\<close>

definition ioapic_mask_all :: "nat \<Rightarrow> apic \<Rightarrow> apic" where
  "ioapic_mask_all max_irq s = fold (\<lambda>i. ioapic_set_irq (of_nat i) (of_nat (32 + i)) True) [0 ..< max_irq] s"

definition ioapic_init :: "mmio_hw \<Rightarrow> apic \<Rightarrow> apic" where
  "ioapic_init hw s =
     (let s = s\<lparr>ap_ioapic := IOAPIC_DEFAULT_BASE\<rparr>;
          (ver, s) = ioapic_read hw IOAPIC_VER s;
          max_irq = (drop_bit 16 ver AND 0xFF) + 1
      in ioapic_mask_all (unat max_irq) s)"

definition apic_send_eoi :: "mmio_hw \<Rightarrow> apic \<Rightarrow> apic" where
  "apic_send_eoi hw s = lapic_eoi hw s"

definition apic_enable_irq :: "mmio_hw \<Rightarrow> u32 \<Rightarrow> apic \<Rightarrow> apic" where
  "apic_enable_irq hw irq s =
     (if irq < 24 then
        let reg = IOAPIC_REDTBL irq;
            (low, s) = ioapic_read hw reg s
        in ioapic_write reg (low AND NOT IOAPIC_MASKED) s
      else s)"

definition apic_disable_irq :: "mmio_hw \<Rightarrow> u32 \<Rightarrow> apic \<Rightarrow> apic" where
  "apic_disable_irq hw irq s =
     (if irq < 24 then
        let reg = IOAPIC_REDTBL irq;
            (low, s) = ioapic_read hw reg s
        in ioapic_write reg (low OR IOAPIC_MASKED) s
      else s)"

end
