(* ===== verification/X86_Apic_Props.thy ===== *)
theory X86_Apic_Props
  imports X86_Apic
begin

text \<open>
  The redirection table of the I/O controller as a set of enabled interrupts, and what the timer is started with.
\<close>

section \<open>The registers behind the window\<close>

text \<open>The register that is selected, and a register's value as the writes through the window left it; after a reset an entry of the
  redirection table is masked.\<close>

fun ioapic_sel :: "addr \<Rightarrow> mmio list \<Rightarrow> u32" where
  "ioapic_sel b [] = 0"
| "ioapic_sel b (Rd a # h) = ioapic_sel b h"
| "ioapic_sel b (Wr a v # h) = (if a = b + IOAPIC_REGSEL then v else ioapic_sel b h)"

fun ioapic_reg :: "addr \<Rightarrow> u32 \<Rightarrow> mmio list \<Rightarrow> u32" where
  "ioapic_reg b r [] = IOAPIC_MASKED"
| "ioapic_reg b r (Rd a # h) = ioapic_reg b r h"
| "ioapic_reg b r (Wr a v # h) = (if a = b + IOAPIC_REGWIN \<and> ioapic_sel b h = r then v else ioapic_reg b r h)"

text \<open>The mask and the vector of an entry are read as they were written; the other bits may be the device's.\<close>

definition ioapic_answers :: "addr \<Rightarrow> mmio_hw \<Rightarrow> bool" where
  "ioapic_answers b hw \<longleftrightarrow> (\<forall>h. 0x10 \<le> ioapic_sel b h \<longrightarrow>
     hw h (b + IOAPIC_REGWIN) AND 0x100FF = ioapic_reg b (ioapic_sel b h) h AND 0x100FF)"

lemma ioapic_write_reg [simp]:
  "ap_ioapic (ioapic_write q v s) = ap_ioapic s"
  "ap_ioapic s = b \<Longrightarrow> ioapic_reg b r (ap_io (ioapic_write q v s)) = (if r = q then v else ioapic_reg b r (ap_io s))"
  by (simp_all add: ioapic_write_def ap_wr_def IOAPIC_REGSEL_def IOAPIC_REGWIN_def)

lemma ioapic_read_reg [simp]:
  "ap_ioapic (snd (ioapic_read hw q s)) = ap_ioapic s"
  "ioapic_reg b r (ap_io (snd (ioapic_read hw q s))) = ioapic_reg b r (ap_io (ap_wr (ap_ioapic s + IOAPIC_REGSEL) q s))"
  by (simp_all add: ioapic_read_def ap_wr_def ap_rd_def)

lemma ioapic_select_same: "ioapic_reg (ap_ioapic s) r (ap_io (ap_wr (ap_ioapic s + IOAPIC_REGSEL) q s)) = ioapic_reg (ap_ioapic s) r (ap_io s)"
  by (simp add: ap_wr_def IOAPIC_REGSEL_def IOAPIC_REGWIN_def)

lemma ioapic_read_value:
  assumes "ioapic_answers (ap_ioapic s) hw" and "0x10 \<le> q"
  shows "fst (ioapic_read hw q s) AND 0x100FF = ioapic_reg (ap_ioapic s) q (ap_io s) AND 0x100FF"
proof -
  have "ioapic_sel (ap_ioapic s) (ap_io (ap_wr (ap_ioapic s + IOAPIC_REGSEL) q s)) = q" by (simp add: ap_wr_def)
  then show ?thesis using assms ioapic_select_same[of s q q]
    by (simp add: ioapic_read_def ap_rd_def ioapic_answers_def ap_wr_def)
qed

section \<open>The table as a set\<close>

lemma redtbl_nat: "i < 256 \<Longrightarrow> unat (IOAPIC_REDTBL (of_nat i)) = 16 + 2 * i"
  by (simp add: IOAPIC_REDTBL_def unat_word_ariths unat_of_nat)

lemma redtbl_inj: "i < 256 \<Longrightarrow> j < 256 \<Longrightarrow> IOAPIC_REDTBL (of_nat i) = IOAPIC_REDTBL (of_nat j) \<longleftrightarrow> i = j"
  using redtbl_nat[of i] redtbl_nat[of j] by (metis add_left_cancel mult_cancel1 zero_neq_numeral)

lemma redtbl_high: "i < 256 \<Longrightarrow> j < 256 \<Longrightarrow> IOAPIC_REDTBL (of_nat i) \<noteq> IOAPIC_REDTBL (of_nat j) + 1"
proof
  assume i: "i < 256" "j < 256" and eq: "IOAPIC_REDTBL (of_nat i) = IOAPIC_REDTBL (of_nat j) + 1"
  have "unat (IOAPIC_REDTBL (of_nat j) + 1) = 16 + 2 * j + 1" using redtbl_nat[OF i(2)] i(2) by (simp add: unat_word_ariths)
  then have "16 + 2 * i = 16 + 2 * j + 1" using redtbl_nat[OF i(1)] eq by simp
  then show False by presburger
qed

text \<open>An entry: its vector, and the mask bit unless it is enabled.\<close>

definition entry_value :: "nat \<Rightarrow> bool \<Rightarrow> u32" where
  "entry_value i on = ucast (of_nat (32 + i) :: u8) OR (if on then 0 else IOAPIC_MASKED)"

definition table_is :: "nat \<Rightarrow> nat set \<Rightarrow> apic \<Rightarrow> bool" where
  "table_is m E s \<longleftrightarrow> (\<forall>i < m. ioapic_reg (ap_ioapic s) (IOAPIC_REDTBL (of_nat i)) (ap_io s) AND 0x100FF = entry_value i (i \<in> E))"

lemma vector_low: "(ucast (w :: u8) :: u32) AND 0x100FF = ucast w" "(ucast (w :: u8) :: u32) AND NOT 0x10000 = ucast w"
proof -
  have e: "(0x100FF :: u32) = push_bit 16 1 OR mask 8" "(0x10000 :: u32) = push_bit 16 1" by (simp_all add: mask_eq_exp_minus_1)
  show "(ucast w :: u32) AND 0x100FF = ucast w" unfolding e
    by (rule bit_word_eqI) (auto simp: bit_simps simp del: push_bit_of_1 dest: bit_imp_le_length)
  show "(ucast w :: u32) AND NOT 0x10000 = ucast w" unfolding e
    by (rule bit_word_eqI) (auto simp: bit_simps simp del: push_bit_of_1 dest: bit_imp_le_length)
qed

lemma ioapic_mask_all_table:
  assumes "n \<le> 256"
  shows "ap_ioapic (ioapic_mask_all n s) = ap_ioapic s \<and> table_is n {} (ioapic_mask_all n s)"
  using assms
proof (induction n)
  case 0
  then show ?case by (simp add: ioapic_mask_all_def table_is_def)
next
  case (Suc n)
  let ?s = "ioapic_mask_all n s"
  have split: "ioapic_mask_all (Suc n) s = ioapic_set_irq (of_nat n) (of_nat (32 + n)) True ?s" by (simp add: ioapic_mask_all_def)
  have u: "(ucast (of_nat n :: u8) :: u32) = of_nat n" using Suc.prems
    by (simp add: word_unat_eq_iff unsigned_ucast_eq unat_of_nat take_bit_eq_mod)
  have v: "(ucast (of_nat (32 + n) :: u8) OR IOAPIC_MASKED) AND 0x100FF = entry_value n False"
    by (simp add: entry_value_def IOAPIC_MASKED_def bit.conj_disj_distrib2 vector_low del: of_nat_add)
  have "ioapic_reg (ap_ioapic s) (IOAPIC_REDTBL (of_nat i)) (ap_io (ioapic_mask_all (Suc n) s)) AND 0x100FF = entry_value i False"
    if "i < Suc n" for i
    using that Suc v u redtbl_inj[of i n] redtbl_high[of i n]
    by (auto simp: split ioapic_set_irq_def Let_def table_is_def less_Suc_eq simp del: of_nat_add)
  then show ?case using Suc by (auto simp: table_is_def split ioapic_set_irq_def Let_def)
qed

datatype irq_op = Enable u32 | Disable u32

definition ioapic_op :: "mmio_hw \<Rightarrow> irq_op \<Rightarrow> apic \<Rightarrow> apic" where
  "ioapic_op hw op s = (case op of Enable q \<Rightarrow> apic_enable_irq hw q s | Disable q \<Rightarrow> apic_disable_irq hw q s)"

definition spec_op :: "irq_op \<Rightarrow> nat set \<Rightarrow> nat set" where
  "spec_op op E = (case op of Enable q \<Rightarrow> if unat q < 24 then insert (unat q) E else E | Disable q \<Rightarrow> E - {unat q})"

text \<open>Only the first 24 inputs can be enabled, so that disabling the others has nothing to undo.\<close>

lemma ioapic_op_table:
  assumes hw: "ioapic_answers (ap_ioapic s) hw" and t: "table_is m E s" and m: "m \<le> 256" and E: "E \<subseteq> {..< 24}"
  shows "ap_ioapic (ioapic_op hw op s) = ap_ioapic s \<and> table_is m (spec_op op E) (ioapic_op hw op s) \<and> spec_op op E \<subseteq> {..< 24}"
proof -
  define q where "q = (case op of Enable q \<Rightarrow> unat q | Disable q \<Rightarrow> unat q)"
  define f where "f = (\<lambda>v :: u32. case op of Enable q \<Rightarrow> v AND NOT IOAPIC_MASKED | Disable q \<Rightarrow> v OR IOAPIC_MASKED)"
  have w: "ioapic_op hw op s = (if q < 24 then ioapic_write (IOAPIC_REDTBL (of_nat q)) (f (fst (ioapic_read hw (IOAPIC_REDTBL (of_nat q)) s)))
      (snd (ioapic_read hw (IOAPIC_REDTBL (of_nat q)) s)) else s)"
    by (cases op) (simp_all add: ioapic_op_def q_def f_def apic_enable_irq_def apic_disable_irq_def Let_def split_beta word_less_nat_alt)
  have sub: "spec_op op E \<subseteq> {..< 24}" using E by (cases op) (auto simp: spec_op_def)
  show ?thesis
  proof (cases "q < 24")
    case False
    then have "spec_op op E = E" using E by (cases op) (auto simp: spec_op_def q_def)
    then show ?thesis using w False t E by simp
  next
    case True
    let ?r = "IOAPIC_REDTBL (of_nat q)"
    have "0x10 \<le> ?r" using redtbl_nat[of q] True by (simp add: word_le_nat_alt)
    then have rd: "fst (ioapic_read hw ?r s) AND 0x100FF = ioapic_reg (ap_ioapic s) ?r (ap_io s) AND 0x100FF"
      by (rule ioapic_read_value[OF hw])
    have mask: "f v AND 0x100FF = (case op of Enable q \<Rightarrow> (v AND 0x100FF) AND NOT 0x10000 | Disable q \<Rightarrow> (v AND 0x100FF) OR 0x10000)" for v
    proof (cases op)
      case (Enable x)
      then show ?thesis by (simp add: f_def IOAPIC_MASKED_def ac_simps)
    next
      case (Disable x)
      then show ?thesis by (simp add: f_def IOAPIC_MASKED_def bit.conj_disj_distrib2)
    qed
    have old: "ioapic_reg (ap_ioapic s) ?r (ap_io s) AND 0x100FF = entry_value q (q \<in> E)" if "q < m"
      using t that by (simp add: table_is_def)
    have new: "f (fst (ioapic_read hw ?r s)) AND 0x100FF = entry_value q (q \<in> spec_op op E)" if "q < m"
      using True unfolding mask rd old[OF that]
      by (cases op) (auto simp: entry_value_def spec_op_def q_def IOAPIC_MASKED_def bit.conj_disj_distrib2 vector_low
          vector_low(2)[simplified] simp del: of_nat_add)
    have other: "i \<in> spec_op op E \<longleftrightarrow> i \<in> E" if "i \<noteq> q" for i using that by (cases op) (auto simp: spec_op_def q_def)
    have "ioapic_reg (ap_ioapic s) (IOAPIC_REDTBL (of_nat i)) (ap_io (ioapic_op hw op s)) AND 0x100FF = entry_value i (i \<in> spec_op op E)"
      if i: "i < m" for i
    proof (cases "i = q")
      case True
      then show ?thesis using w \<open>q < 24\<close> new i ioapic_write_reg(2)[of "snd (ioapic_read hw ?r s)" "ap_ioapic s"] by simp
    next
      case False
      then show ?thesis using w \<open>q < 24\<close> i m t other redtbl_inj[of i q] ioapic_select_same[of s]
          ioapic_write_reg(2)[of "snd (ioapic_read hw ?r s)" "ap_ioapic s"] by (simp add: table_is_def)
    qed
    then show ?thesis using sub w True by (simp add: table_is_def)
  qed
qed

section \<open>From the start on\<close>

text \<open>The number of entries that the version register states.\<close>

definition ioapic_pins :: "mmio_hw \<Rightarrow> apic \<Rightarrow> nat" where
  "ioapic_pins hw s = unat (drop_bit 16 (fst (ioapic_read hw IOAPIC_VER (s\<lparr>ap_ioapic := IOAPIC_DEFAULT_BASE\<rparr>))) AND 0xFF) + 1"

lemma ioapic_pins_le: "ioapic_pins hw s \<le> 256"
proof -
  have "unat (x AND 0xFF :: u32) \<le> 255" for x using word_and_le1[of x "0xFF"] by (simp add: word_le_nat_alt)
  then show ?thesis unfolding ioapic_pins_def using Suc_le_mono by fastforce
qed

lemma ioapic_init_table:
  "ap_ioapic (ioapic_init hw s) = IOAPIC_DEFAULT_BASE \<and> table_is (ioapic_pins hw s) {} (ioapic_init hw s)"
proof -
  let ?v = "drop_bit 16 (fst (ioapic_read hw IOAPIC_VER (s\<lparr>ap_ioapic := IOAPIC_DEFAULT_BASE\<rparr>))) AND 0xFF"
  let ?s = "snd (ioapic_read hw IOAPIC_VER (s\<lparr>ap_ioapic := IOAPIC_DEFAULT_BASE\<rparr>))"
  have "unat (?v + 1) = ioapic_pins hw s" using ioapic_pins_le[of hw s] by (simp add: ioapic_pins_def unat_word_ariths)
  then have "ioapic_init hw s = ioapic_mask_all (ioapic_pins hw s) ?s" by (simp add: ioapic_init_def Let_def split_beta)
  then show ?thesis using ioapic_mask_all_table[OF ioapic_pins_le, of hw s ?s] by simp
qed

lemma ioapic_ops_table:
  assumes "ioapic_answers (ap_ioapic s) hw" and "table_is m E s" and "m \<le> 256" and "E \<subseteq> {..< 24}"
  shows "table_is m (fold spec_op ops E) (fold (ioapic_op hw) ops s)"
  using assms
proof (induction ops arbitrary: s E)
  case Nil
  then show ?case by simp
next
  case (Cons op ops)
  then show ?case using ioapic_op_table[OF Cons.prems, of op] by (simp add: Cons.IH)
qed

text \<open>C18: After \<open>ioapic_init\<close> and any sequence of calls to enable and disable interrupts, the redirection table of the controller
  delivers exactly the interrupts that the calls left enabled, each as its vector 32 + i, whatever the controller keeps in the other
  bits of an entry; an interrupt above 23 is never enabled.\<close>

theorem ioapic_run_refines:
  assumes "ioapic_answers IOAPIC_DEFAULT_BASE hw"
  shows "\<forall>i < ioapic_pins hw s. ioapic_reg IOAPIC_DEFAULT_BASE (IOAPIC_REDTBL (of_nat i)) (ap_io (fold (ioapic_op hw) ops (ioapic_init hw s)))
    AND 0x100FF = entry_value i (i \<in> fold spec_op ops {})"
proof -
  have base: "ap_ioapic (fold (ioapic_op hw) ops s) = ap_ioapic s" for s
    by (induction ops arbitrary: s)
      (auto simp: ioapic_op_def apic_enable_irq_def apic_disable_irq_def Let_def split_beta split: irq_op.split)
  have b: "ap_ioapic (ioapic_init hw s) = IOAPIC_DEFAULT_BASE" and t: "table_is (ioapic_pins hw s) {} (ioapic_init hw s)"
    using ioapic_init_table by auto
  have "table_is (ioapic_pins hw s) (fold spec_op ops {}) (fold (ioapic_op hw) ops (ioapic_init hw s))"
    by (rule ioapic_ops_table[OF _ t ioapic_pins_le]) (simp_all add: b assms)
  then show ?thesis by (simp add: table_is_def base b)
qed

text \<open>A controller with 24 inputs that returns what is written.\<close>

definition plain_ioapic :: mmio_hw where
  "plain_ioapic h a = (if ioapic_sel IOAPIC_DEFAULT_BASE h = IOAPIC_VER then 0x170011
     else ioapic_reg IOAPIC_DEFAULT_BASE (ioapic_sel IOAPIC_DEFAULT_BASE h) h)"

lemma plain_ioapic_answers: "ioapic_answers IOAPIC_DEFAULT_BASE plain_ioapic"
  by (auto simp: ioapic_answers_def plain_ioapic_def IOAPIC_VER_def word_le_nat_alt)

theorem ioapic_run_refines_witness:
  "\<forall>s. ioapic_reg IOAPIC_DEFAULT_BASE (IOAPIC_REDTBL 4)
      (ap_io (fold (ioapic_op plain_ioapic) [Enable 1, Enable 4, Disable 1] (ioapic_init plain_ioapic s))) AND 0x100FF = 36"
proof
  fix s
  have n: "ioapic_pins plain_ioapic s = 24"
    by (simp add: ioapic_pins_def ioapic_read_def ap_rd_def ap_wr_def plain_ioapic_def IOAPIC_VER_def IOAPIC_REGSEL_def drop_bit_eq_div)
  show "ioapic_reg IOAPIC_DEFAULT_BASE (IOAPIC_REDTBL 4)
      (ap_io (fold (ioapic_op plain_ioapic) [Enable 1, Enable 4, Disable 1] (ioapic_init plain_ioapic s))) AND 0x100FF = 36"
    using ioapic_run_refines[OF plain_ioapic_answers, of s "[Enable 1, Enable 4, Disable 1]", rule_format, of 4]
    by (simp add: n entry_value_def spec_op_def)
qed

section \<open>The timer\<close>

text \<open>Above a thousand interrupts per second the period is rounded to nothing, and the timer is started with a count of one.\<close>

lemma apic_timer_fast:
  assumes "1000 < frequency"
  shows "\<exists>t. apic_timer_init hw frequency s = Some (lapic_write hw LAPIC_TIMER_ICR 1 t)"
proof -
  have "frequency \<noteq> 0" using assms by auto
  moreover have "1000 div frequency = 0" using assms by (simp add: word_less_nat_alt word_unat_eq_iff unat_div)
  ultimately show ?thesis by (simp add: apic_timer_init_def Let_def split_beta) blast
qed

end
