(* ===== verification/X86_Irq.thy ===== *)
theory X86_Irq
  imports X86_Ports X86_Apic
begin

text \<open>
  Interrupts of the x86 kernel: the descriptor table (\<open>src/X86_64-RTOS/arch/x86_64/idt.c\<close>), the entry points and the
  common stub (\<open>arch/x86_64/interrupt_vectors.asm\<close>), the handler table (\<open>kernel/interrupt.c\<close>) and the timer driver
  (\<open>drivers/timer/apic_timer.c\<close>).

  The machine has the registers and the memory as slots of eight bytes. The entry of an interrupt aligns the stack, so
  that every slot the stubs use starts at a multiple of eight. \<open>cc\<close> is what the compiled handler does to the
  machine, \<open>code\<close> what the function at an address does, \<open>hwc\<close> and \<open>hwa\<close> are the devices.
\<close>

section \<open>The machine\<close>

datatype gpr = RAX | RBX | RCX | RDX | RSI | RDI | RBP | R8 | R9 | R10 | R11 | R12 | R13 | R14 | R15

record x86 =
  x_reg :: "gpr \<Rightarrow> u64"
  x_rsp :: u64
  x_mem :: "u64 \<Rightarrow> u64"
  x_ds :: u16
  x_es :: u16
  x_ss :: u16
  x_cs :: u16
  x_rip :: u64
  x_flags :: u64

definition set_reg :: "gpr \<Rightarrow> u64 \<Rightarrow> x86 \<Rightarrow> x86" where
  "set_reg r v s = s\<lparr>x_reg := (x_reg s)(r := v)\<rparr>"

definition x86_push :: "u64 \<Rightarrow> x86 \<Rightarrow> x86" where
  "x86_push v s = s\<lparr>x_rsp := x_rsp s - 8, x_mem := (x_mem s)(x_rsp s - 8 := v)\<rparr>"

definition x86_pop :: "x86 \<Rightarrow> u64 \<times> x86" where
  "x86_pop s = (x_mem s (x_rsp s), s\<lparr>x_rsp := x_rsp s + 8\<rparr>)"

text \<open>\<open>mov ax, ...\<close> leaves the other bits of the register.\<close>

definition set_ax :: "u16 \<Rightarrow> u64 \<Rightarrow> u64" where
  "set_ax a v = (v AND NOT 0xFFFF) OR ucast a"

section \<open>The descriptor table\<close>

record idt_entry =
  ig_offset_low :: u16
  ig_selector :: u16
  ig_ist :: u8
  ig_type_attr :: u8
  ig_offset_middle :: u16
  ig_offset_high :: u32
  ig_reserved :: u32

record idt_ptr =
  ip_limit :: u16
  ip_base :: u64

definition IDT_ENTRIES :: nat where "IDT_ENTRIES = 256"
definition IDT_TYPE_INTERRUPT :: u8 where "IDT_TYPE_INTERRUPT = 0x8E"
definition IDT_TYPE_INTERRUPT3 :: u8 where "IDT_TYPE_INTERRUPT3 = 0xEE"
definition GDT_KERNEL_CODE :: u16 where "GDT_KERNEL_CODE = 0x08"

definition idt_set_gate :: "nat \<Rightarrow> u64 \<Rightarrow> u16 \<Rightarrow> u8 \<Rightarrow> idt_entry list \<Rightarrow> idt_entry list" where
  "idt_set_gate num handler selector type idt =
     idt[num := \<lparr>ig_offset_low = ucast (handler AND 0xFFFF), ig_selector = selector, ig_ist = 0, ig_type_attr = type,
       ig_offset_middle = ucast (drop_bit 16 handler AND 0xFFFF), ig_offset_high = ucast (drop_bit 32 handler AND 0xFFFFFFFF),
       ig_reserved = 0\<rparr>]"

text \<open>The vectors that have an entry point \<open>isr0\<close> to \<open>isr47\<close>, \<open>isr255\<close>; \<open>isr\<close> gives their addresses, \<open>base\<close> is that of the table.\<close>

definition isr_vectors :: "nat list" where "isr_vectors = [0 ..< 48] @ [255]"

definition idt_init :: "(nat \<Rightarrow> u64) \<Rightarrow> u64 \<Rightarrow> idt_entry list \<Rightarrow> idt_entry list \<times> idt_ptr" where
  "idt_init isr base idt =
     (let idt = fold (\<lambda>i. idt_set_gate i 0 0 0) [0 ..< IDT_ENTRIES] idt;
          idt = fold (\<lambda>i. idt_set_gate i (isr i) GDT_KERNEL_CODE (if i = 3 then IDT_TYPE_INTERRUPT3 else IDT_TYPE_INTERRUPT)) isr_vectors idt;
          idt = idt[2 := (idt ! 2)\<lparr>ig_ist := 1\<rparr>];
          idt = idt[8 := (idt ! 8)\<lparr>ig_ist := 1\<rparr>];
          idt = idt[18 := (idt ! 18)\<lparr>ig_ist := 1\<rparr>]
      in (idt, \<lparr>ip_limit = of_nat (16 * IDT_ENTRIES) - 1, ip_base = base\<rparr>))"

text \<open>
  What the processor does in 64-bit mode, in kernel mode, at an interrupt or exception: the stack it switches to is
  aligned, the old stack, flags and address are pushed, and the error code for the exceptions that have one. A vector
  without an interrupt gate is \<open>None\<close>: the processor raises a general protection fault there, which is not followed.
\<close>

definition gate_offset :: "idt_entry \<Rightarrow> u64" where
  "gate_offset g = ucast (ig_offset_low g) OR push_bit 16 (ucast (ig_offset_middle g)) OR push_bit 32 (ucast (ig_offset_high g))"

definition x86_deliver :: "idt_entry list \<Rightarrow> (u8 \<Rightarrow> u64) \<Rightarrow> nat \<Rightarrow> u64 option \<Rightarrow> x86 \<Rightarrow> x86 option" where
  "x86_deliver idt ist v err s =
     (let g = idt ! v
      in if ig_type_attr g AND 0x9F \<noteq> 0x8E then None
         else
           let top = (if ig_ist g = 0 then x_rsp s else ist (ig_ist g)) AND NOT 0xF;
               t = fold x86_push ([ucast (x_ss s), x_rsp s, x_flags s, ucast (x_cs s), x_rip s] @ (case err of None \<Rightarrow> [] | Some e \<Rightarrow> [e]))
                 (s\<lparr>x_rsp := top\<rparr>)
           in Some (t\<lparr>x_rip := gate_offset g, x_cs := ig_selector g, x_flags := x_flags s AND NOT 0x14300\<rparr>))"

section \<open>The entry points\<close>

definition isr_errcode :: "nat \<Rightarrow> bool" where
  "isr_errcode v \<longleftrightarrow> v \<in> {8, 10, 11, 12, 13, 14, 17, 21}"

definition isr_stub :: "nat \<Rightarrow> x86 \<Rightarrow> x86" where
  "isr_stub v s = (if isr_errcode v then x86_push (of_nat v) s else x86_push (of_nat v) (x86_push 0 s))"

definition isr_saved :: "gpr list" where
  "isr_saved = [RAX, RBX, RCX, RDX, RSI, RDI, RBP, R8, R9, R10, R11, R12, R13, R14, R15]"

text \<open>The common stub up to the comparison, and from \<open>.done\<close> on with \<open>iretq\<close>.\<close>

definition isr_save :: "x86 \<Rightarrow> x86" where
  "isr_save s =
     (let s = fold (\<lambda>r s. x86_push (x_reg s r) s) isr_saved s;
          s = set_reg RAX (set_ax (x_ds s) (x_reg s RAX)) s;
          s = x86_push (x_reg s RAX) s;
          s = set_reg RAX (set_ax 0x10 (x_reg s RAX)) s;
          s = s\<lparr>x_ds := 0x10, x_es := 0x10\<rparr>;
          s = set_reg RDI (x_rsp s) s
      in set_reg RAX (x_mem s (x_rsp s + 136)) s)"

definition isr_leave :: "x86 \<Rightarrow> x86" where
  "isr_leave s =
     (let (v, s) = x86_pop s;
          s = s\<lparr>x_ds := ucast v, x_es := ucast v\<rparr>;
          s = fold (\<lambda>r s. let (v, s) = x86_pop s in set_reg r v s) (rev isr_saved) s;
          s = s\<lparr>x_rsp := x_rsp s + 16\<rparr>;
          (rip, s) = x86_pop s;
          (cs, s) = x86_pop s;
          (flags, s) = x86_pop s;
          (rsp, s) = x86_pop s;
          (ss, s) = x86_pop s
      in s\<lparr>x_rip := rip, x_cs := ucast cs, x_flags := flags, x_rsp := rsp, x_ss := ucast ss\<rparr>)"

record interrupt_frame =
  fr_r15 :: u64
  fr_r14 :: u64
  fr_r13 :: u64
  fr_r12 :: u64
  fr_r11 :: u64
  fr_r10 :: u64
  fr_r9 :: u64
  fr_r8 :: u64
  fr_rbp :: u64
  fr_rdi :: u64
  fr_rsi :: u64
  fr_rdx :: u64
  fr_rcx :: u64
  fr_rbx :: u64
  fr_rax :: u64
  fr_int_no :: u64
  fr_error_code :: u64
  fr_rip :: u64
  fr_cs :: u64
  fr_rflags :: u64
  fr_rsp :: u64
  fr_ss :: u64

definition frame_at :: "(u64 \<Rightarrow> u64) \<Rightarrow> u64 \<Rightarrow> interrupt_frame" where
  "frame_at m p =
     \<lparr>fr_r15 = m p, fr_r14 = m (p + 8), fr_r13 = m (p + 16), fr_r12 = m (p + 24), fr_r11 = m (p + 32), fr_r10 = m (p + 40),
      fr_r9 = m (p + 48), fr_r8 = m (p + 56), fr_rbp = m (p + 64), fr_rdi = m (p + 72), fr_rsi = m (p + 80), fr_rdx = m (p + 88),
      fr_rcx = m (p + 96), fr_rbx = m (p + 104), fr_rax = m (p + 112), fr_int_no = m (p + 120), fr_error_code = m (p + 128),
      fr_rip = m (p + 136), fr_cs = m (p + 144), fr_rflags = m (p + 152), fr_rsp = m (p + 160), fr_ss = m (p + 168)\<rparr>"

section \<open>The handler table\<close>

record vec_entry =
  ve_handler :: ptr
  ve_arg :: ptr

record xlock =
  xl_lock :: u32
  xl_irq_flags :: u64

record 'w xirq =
  xi_table :: "nat \<Rightarrow> vec_entry"      \<comment> \<open>\<open>irq_table\<close>\<close>
  xi_lock :: xlock                    \<comment> \<open>\<open>irq_lock\<close>\<close>
  xi_nest :: u32                      \<comment> \<open>\<open>irq_nest_count\<close>\<close>
  xi_ticks :: u64                     \<comment> \<open>\<open>system_ticks\<close>\<close>
  xi_timer_ticks :: u64               \<comment> \<open>\<open>timer_ticks\<close> and \<open>timer_frequency\<close> of the timer driver\<close>
  xi_timer_frequency :: u32
  xi_flags :: u64                     \<comment> \<open>the flags register while the code runs\<close>
  xi_apic :: apic
  xi_com :: com
  xi_app :: 'w

type_synonym 'w xhandler = "addr \<Rightarrow> u32 \<Rightarrow> ptr \<Rightarrow> 'w xirq \<Rightarrow> 'w xirq option"

definition X86_MAX_IRQS :: u32 where "X86_MAX_IRQS = 256"

definition x86_irq_save :: "u64 \<Rightarrow> u64 \<times> u64" where
  "x86_irq_save flags = (flags, flags AND NOT 0x200)"

text \<open>The exchange sets the lock; on the one processor a lock that is held is not released while the loop spins.\<close>

definition x86_spin_lock_irq :: "'w xirq \<Rightarrow> 'w xirq option" where
  "x86_spin_lock_irq s =
     (let (saved, flags) = x86_irq_save (xi_flags s);
          s = s\<lparr>xi_lock := (xi_lock s)\<lparr>xl_irq_flags := saved\<rparr>, xi_flags := flags\<rparr>
      in if xl_lock (xi_lock s) \<noteq> 0 then None else Some (s\<lparr>xi_lock := (xi_lock s)\<lparr>xl_lock := 1\<rparr>\<rparr>))"

definition x86_spin_unlock_irq :: "'w xirq \<Rightarrow> 'w xirq" where
  "x86_spin_unlock_irq s = s\<lparr>xi_lock := (xi_lock s)\<lparr>xl_lock := 0\<rparr>, xi_flags := xl_irq_flags (xi_lock s)\<rparr>"

definition x86_irq_register :: "u32 \<Rightarrow> ptr \<Rightarrow> ptr \<Rightarrow> 'w xirq \<Rightarrow> (status \<times> 'w xirq) option" where
  "x86_irq_register irq handler arg s =
     (if irq \<ge> X86_MAX_IRQS then Some (STATUS_INVALID, s)
      else do {
        s \<leftarrow> x86_spin_lock_irq s;
        let s = s\<lparr>xi_table := (xi_table s)(unat irq := \<lparr>ve_handler = handler, ve_arg = arg\<rparr>)\<rparr>;
        Some (STATUS_OK, x86_spin_unlock_irq s)
      })"

definition x86_irq_unregister :: "u32 \<Rightarrow> 'w xirq \<Rightarrow> (status \<times> 'w xirq) option" where
  "x86_irq_unregister irq s =
     (if irq \<ge> X86_MAX_IRQS then Some (STATUS_INVALID, s)
      else do {
        s \<leftarrow> x86_spin_lock_irq s;
        let s = s\<lparr>xi_table := (xi_table s)(unat irq := \<lparr>ve_handler = None, ve_arg = None\<rparr>)\<rparr>;
        Some (STATUS_OK, x86_spin_unlock_irq s)
      })"

definition x86_irq_handler :: "mmio_hw \<Rightarrow> 'w xhandler \<Rightarrow> interrupt_frame \<Rightarrow> 'w xirq \<Rightarrow> 'w xirq option" where
  "x86_irq_handler hwa code f s = do {
     let int_no = (ucast (fr_int_no f) :: u32);
     let irq = int_no - 32;
     let s = s\<lparr>xi_nest := xi_nest s + 1\<rparr>;
     s \<leftarrow> (if int_no < X86_MAX_IRQS then
            (case ve_handler (xi_table s (unat int_no)) of
               Some h \<Rightarrow> code h irq (ve_arg (xi_table s (unat int_no))) s
             | None \<Rightarrow> Some s)
          else Some s);
     let s = s\<lparr>xi_apic := apic_send_eoi hwa (xi_apic s)\<rparr>;
     Some (s\<lparr>xi_nest := xi_nest s - 1\<rparr>)
   }"

definition x86_irq_enable :: "mmio_hw \<Rightarrow> u32 \<Rightarrow> 'w xirq \<Rightarrow> 'w xirq" where
  "x86_irq_enable hwa irq s = s\<lparr>xi_apic := apic_enable_irq hwa irq (xi_apic s)\<rparr>"

definition x86_irq_disable :: "mmio_hw \<Rightarrow> u32 \<Rightarrow> 'w xirq \<Rightarrow> 'w xirq" where
  "x86_irq_disable hwa irq s = s\<lparr>xi_apic := apic_disable_irq hwa irq (xi_apic s)\<rparr>"

definition x86_timer_tick :: "'w xirq \<Rightarrow> 'w xirq option" where
  "x86_timer_tick s = Some (s\<lparr>xi_ticks := xi_ticks s + 1\<rparr>)"

text \<open>\<open>tick\<close> is the address of \<open>timer_tick_handler\<close>.\<close>

definition interrupt_init :: "addr \<Rightarrow> 'w xirq \<Rightarrow> 'w xirq option" where
  "interrupt_init tick s = do {
     let s = s\<lparr>xi_table := fold (\<lambda>i t. t(i := \<lparr>ve_handler = None, ve_arg = None\<rparr>)) [0 ..< unat X86_MAX_IRQS] (xi_table s)\<rparr>;
     (_, s) \<leftarrow> x86_irq_register 32 (Some tick) None s;
     Some s
   }"

text \<open>The timer driver; \<open>sched\<close> is \<open>scheduler_tick\<close>, \<open>h\<close> the address of \<open>apic_timer_irq_handler\<close>.\<close>

definition apic_timer_irq_handler :: "('w xirq \<Rightarrow> 'w xirq option) \<Rightarrow> 'w xirq \<Rightarrow> 'w xirq option" where
  "apic_timer_irq_handler sched s = sched (s\<lparr>xi_timer_ticks := xi_timer_ticks s + 1\<rparr>)"

definition apic_timer_driver_init :: "mmio_hw \<Rightarrow> addr \<Rightarrow> u32 \<Rightarrow> 'w xirq \<Rightarrow> (status \<times> 'w xirq) option" where
  "apic_timer_driver_init hwa h freq s = do {
     let s = s\<lparr>xi_timer_frequency := freq, xi_timer_ticks := 0\<rparr>;
     (_, s) \<leftarrow> x86_irq_register 32 (Some h) None s;
     a \<leftarrow> apic_timer_init hwa freq (xi_apic s);
     Some (STATUS_OK, s\<lparr>xi_apic := a\<rparr>)
   }"

section \<open>Exceptions\<close>

definition exception_names :: "string list" where
  "exception_names = [''Divide Error'', ''Debug'', ''NMI'', ''Breakpoint'', ''Overflow'', ''Bound Range Exceeded'', ''Invalid Opcode'',
     ''Device Not Available'', ''Double Fault'', ''Coprocessor Segment Overrun'', ''Invalid TSS'', ''Segment Not Present'',
     ''Stack-Segment Fault'', ''General Protection Fault'', ''Page Fault'', ''Reserved'', ''x87 FPU Error'', ''Alignment Check'',
     ''Machine Check'', ''SIMD Floating-Point'', ''Virtualization'', ''Control Protection'',
     ''Reserved'', ''Reserved'', ''Reserved'', ''Reserved'', ''Reserved'', ''Reserved'', ''Reserved'', ''Reserved'', ''Reserved'', ''Reserved'']"

definition xputs :: "pio_hw \<Rightarrow> string \<Rightarrow> com \<Rightarrow> com option" where
  "xputs hwc s c = com_puts hwc (map of_char s) c"

definition xline :: "pio_hw \<Rightarrow> com \<Rightarrow> com option" where
  "xline hwc c = com_puts hwc [10] c"

text \<open>The output of \<open>exception_handler\<close>, which then halts with interrupts disabled, for ever.\<close>

definition exception_report :: "pio_hw \<Rightarrow> u64 \<Rightarrow> interrupt_frame \<Rightarrow> com \<Rightarrow> com option" where
  "exception_report hwc cr2 f c = do {
     let int_no = (ucast (fr_int_no f) :: u32);
     c \<leftarrow> xline hwc c; c \<leftarrow> xputs hwc ''!!! EXCEPTION: '' c;
     c \<leftarrow> xputs hwc (if int_no < 32 then exception_names ! unat int_no else ''Unknown'') c;
     c \<leftarrow> xputs hwc '' ('' c; c \<leftarrow> com_puthex hwc (ucast int_no) c; c \<leftarrow> xputs hwc '')'' c; c \<leftarrow> xline hwc c;
     c \<leftarrow> xputs hwc ''Error Code: '' c; c \<leftarrow> com_puthex hwc (fr_error_code f) c; c \<leftarrow> xline hwc c;
     c \<leftarrow> xputs hwc ''RIP: '' c; c \<leftarrow> com_puthex hwc (fr_rip f) c; c \<leftarrow> xputs hwc ''  RSP: '' c; c \<leftarrow> com_puthex hwc (fr_rsp f) c; c \<leftarrow> xline hwc c;
     c \<leftarrow> xputs hwc ''RAX: '' c; c \<leftarrow> com_puthex hwc (fr_rax f) c; c \<leftarrow> xputs hwc ''  RBX: '' c; c \<leftarrow> com_puthex hwc (fr_rbx f) c; c \<leftarrow> xline hwc c;
     c \<leftarrow> xputs hwc ''RCX: '' c; c \<leftarrow> com_puthex hwc (fr_rcx f) c; c \<leftarrow> xputs hwc ''  RDX: '' c; c \<leftarrow> com_puthex hwc (fr_rdx f) c; c \<leftarrow> xline hwc c;
     c \<leftarrow> (if int_no = 14 then do { c \<leftarrow> xputs hwc ''CR2 (fault address): '' c; c \<leftarrow> com_puthex hwc cr2 c; xline hwc c } else Some c);
     c \<leftarrow> xputs hwc ''System halted.'' c; xline hwc c
   }"

section \<open>An interrupt, from the processor to the return\<close>

datatype 'w isr_result = Halted "'w xirq" | Resumed x86 "'w xirq"

record 'w x86_env =
  xe_isr :: "nat \<Rightarrow> u64"       \<comment> \<open>the addresses of the entry points\<close>
  xe_ist :: "u8 \<Rightarrow> u64"        \<comment> \<open>the interrupt stacks\<close>
  xe_cc :: "x86 \<Rightarrow> x86"
  xe_com :: pio_hw
  xe_apic :: mmio_hw
  xe_code :: "'w xhandler"
  xe_cr2 :: u64

definition isr_common :: "'w x86_env \<Rightarrow> x86 \<Rightarrow> 'w xirq \<Rightarrow> 'w isr_result option" where
  "isr_common e s k =
     (let s = isr_save s;
          f = frame_at (x_mem s) (x_reg s RDI)
      in if sint (x_reg s RAX) < 32 then do {
           c \<leftarrow> exception_report (xe_com e) (xe_cr2 e) f (xi_com k);
           Some (Halted (k\<lparr>xi_com := c\<rparr>))
         } else do {
           k \<leftarrow> x86_irq_handler (xe_apic e) (xe_code e) f k;
           Some (Resumed (isr_leave (xe_cc e s)) k)
         })"

definition x86_interrupt :: "'w x86_env \<Rightarrow> idt_entry list \<Rightarrow> nat \<Rightarrow> u64 option \<Rightarrow> x86 \<Rightarrow> 'w xirq \<Rightarrow> 'w isr_result option" where
  "x86_interrupt e idt v err s k = do {
     s \<leftarrow> x86_deliver idt (xe_ist e) v err s;
     u \<leftarrow> find (\<lambda>u. xe_isr e u = x_rip s) isr_vectors;
     isr_common e (isr_stub u s) (k\<lparr>xi_flags := x_flags s\<rparr>)
   }"

end
