(* ===== verification/X86_Start.thy ===== *)
theory X86_Start
  imports Paging X86_Irq
begin

text \<open>
  The start of the x86 kernel: segments and task state (\<open>src/X86_64-RTOS/arch/x86_64/gdt.c\<close>), the detection of the processor
  (\<open>arch/x86_64/cpu.c\<close>, \<open>cpuid_call\<close> of \<open>arch/x86_64/boot/long_mode.asm\<close>) and \<open>kernel_main\<close> (\<open>kernel/main.c\<close>).

  Memory is bytes at physical addresses, and an access goes through the page tables. The tables themselves are kept
  apart: writes to memory are taken to miss them. Until the descriptor table is loaded an access that is not mapped
  resets the machine, which is \<open>None\<close>, like a wait for the serial port that does not end.
\<close>

section \<open>Segments and task state\<close>

record gdt_entry =
  ge_limit_low :: u16
  ge_base_low :: u16
  ge_base_middle :: u8
  ge_access :: u8
  ge_granularity :: u8
  ge_base_high :: u8

record tss_entry = gdt_entry +
  ge_base_upper :: u32
  ge_reserved :: u32

record tss =
  ts_rsp0 :: u64
  ts_rsp1 :: u64
  ts_rsp2 :: u64
  ts_ist :: "nat \<Rightarrow> u64"
  ts_iopb_offset :: u16

record gdt =
  gd_entries :: "gdt_entry list"
  gd_tss_entry :: tss_entry
  gd_tss :: tss
  gd_limit :: u16
  gd_base :: u64
  gd_tr :: u16

definition GDT_ACCESS_PRESENT :: u8 where "GDT_ACCESS_PRESENT = 0x80"
definition GDT_ACCESS_DPL0 :: u8 where "GDT_ACCESS_DPL0 = 0"
definition GDT_ACCESS_DPL3 :: u8 where "GDT_ACCESS_DPL3 = 0x60"
definition GDT_ACCESS_SEGMENT :: u8 where "GDT_ACCESS_SEGMENT = 0x10"
definition GDT_ACCESS_EXECUTABLE :: u8 where "GDT_ACCESS_EXECUTABLE = 0x08"
definition GDT_ACCESS_RW :: u8 where "GDT_ACCESS_RW = 0x02"
definition GDT_ACCESS_TSS :: u8 where "GDT_ACCESS_TSS = 0x89"
definition GDT_GRAN_4K :: u8 where "GDT_GRAN_4K = 0x80"
definition GDT_GRAN_32BIT :: u8 where "GDT_GRAN_32BIT = 0x40"
definition GDT_GRAN_64BIT :: u8 where "GDT_GRAN_64BIT = 0x20"
definition GDT_TSS :: u16 where "GDT_TSS = 0x28"

definition gdt_set_entry :: "nat \<Rightarrow> u32 \<Rightarrow> u32 \<Rightarrow> u8 \<Rightarrow> u8 \<Rightarrow> gdt \<Rightarrow> gdt" where
  "gdt_set_entry num base limit access gran g =
     g\<lparr>gd_entries := (gd_entries g)[num :=
       \<lparr>ge_limit_low = ucast (limit AND 0xFFFF), ge_base_low = ucast (base AND 0xFFFF), ge_base_middle = ucast (drop_bit 16 base AND 0xFF),
        ge_access = access, ge_granularity = ucast (drop_bit 16 limit AND 0x0F) OR (gran AND 0xF0),
        ge_base_high = ucast (drop_bit 24 base AND 0xFF)\<rparr>]\<rparr>"

definition gdt_set_tss :: "u64 \<Rightarrow> u32 \<Rightarrow> gdt \<Rightarrow> gdt" where
  "gdt_set_tss base limit g =
     g\<lparr>gd_tss_entry :=
       \<lparr>ge_limit_low = ucast (limit AND 0xFFFF), ge_base_low = ucast (base AND 0xFFFF), ge_base_middle = ucast (drop_bit 16 base AND 0xFF),
        ge_access = GDT_ACCESS_TSS, ge_granularity = ucast (drop_bit 16 limit AND 0x0F),
        ge_base_high = ucast (drop_bit 24 base AND 0xFF), ge_base_upper = ucast (drop_bit 32 base AND 0xFFFFFFFF), ge_reserved = 0\<rparr>\<rparr>"

text \<open>\<open>stack_top\<close>, \<open>interrupt_stack\<close>, \<open>tss\<close> and \<open>base\<close> are addresses of the image. The struct of the table is
  64 bytes, its 56 rounded up to the alignment.\<close>

definition gdt_init :: "u64 \<Rightarrow> u64 \<Rightarrow> u64 \<Rightarrow> u64 \<Rightarrow> gdt \<Rightarrow> gdt" where
  "gdt_init stack_top interrupt_stack tss base g =
     (let g = g\<lparr>gd_tss := \<lparr>ts_rsp0 = 0, ts_rsp1 = 0, ts_rsp2 = 0, ts_ist = (\<lambda>_. 0), ts_iopb_offset = 0\<rparr>\<rparr>;
          g = g\<lparr>gd_tss := (gd_tss g)\<lparr>ts_rsp0 := stack_top\<rparr>\<rparr>;
          g = g\<lparr>gd_tss := (gd_tss g)\<lparr>ts_ist := (ts_ist (gd_tss g))(1 := interrupt_stack + 8192)\<rparr>\<rparr>;
          g = g\<lparr>gd_tss := (gd_tss g)\<lparr>ts_iopb_offset := 104\<rparr>\<rparr>;
          g = gdt_set_entry 0 0 0 0 0 g;
          g = gdt_set_entry 1 0 0xFFFFF
                (GDT_ACCESS_PRESENT OR GDT_ACCESS_DPL0 OR GDT_ACCESS_SEGMENT OR GDT_ACCESS_EXECUTABLE OR GDT_ACCESS_RW)
                (GDT_GRAN_4K OR GDT_GRAN_64BIT) g;
          g = gdt_set_entry 2 0 0xFFFFF
                (GDT_ACCESS_PRESENT OR GDT_ACCESS_DPL0 OR GDT_ACCESS_SEGMENT OR GDT_ACCESS_RW) (GDT_GRAN_4K OR GDT_GRAN_32BIT) g;
          g = gdt_set_entry 3 0 0xFFFFF
                (GDT_ACCESS_PRESENT OR GDT_ACCESS_DPL3 OR GDT_ACCESS_SEGMENT OR GDT_ACCESS_EXECUTABLE OR GDT_ACCESS_RW)
                (GDT_GRAN_4K OR GDT_GRAN_64BIT) g;
          g = gdt_set_entry 4 0 0xFFFFF
                (GDT_ACCESS_PRESENT OR GDT_ACCESS_DPL3 OR GDT_ACCESS_SEGMENT OR GDT_ACCESS_RW) (GDT_GRAN_4K OR GDT_GRAN_32BIT) g;
          g = gdt_set_tss tss (104 - 1) g
      in g\<lparr>gd_limit := 64 - 1, gd_base := base, gd_tr := GDT_TSS\<rparr>)"

definition tss_set_rsp0 :: "u64 \<Rightarrow> gdt \<Rightarrow> gdt" where
  "tss_set_rsp0 rsp0 g = g\<lparr>gd_tss := (gd_tss g)\<lparr>ts_rsp0 := rsp0\<rparr>\<rparr>"

section \<open>Memory\<close>

record board86 =
  b8_mem :: "u64 \<Rightarrow> u8"
  b8_paging :: paging
  b8_com :: com
  b8_gdt :: gdt
  b8_idt :: "idt_entry list"
  b8_idt_ptr :: idt_ptr
  b8_apic :: apic
  b8_flags :: u64

text \<open>The walk of the processor through the tables: the physical address, unless an entry is not present or the address is not canonical.\<close>

definition x86_walk :: "u64 \<Rightarrow> paging \<Rightarrow> u64 option" where
  "x86_walk va s =
     (let e4 = entry s (pg_pml4_table s) (PML4_INDEX va);
          e3 = entry s (target e4) (PDPT_INDEX va);
          e2 = entry s (target e3) (PD_INDEX va);
          e1 = entry s (target e2) (PT_INDEX va)
      in if \<not> (va < 0x0000800000000000 \<or> 0xFFFF800000000000 \<le> va) then None
         else if present e4 \<and> present e3 \<and> (huge e3 \<or> present e2 \<and> (huge e2 \<or> present e1)) then Some (mmu_get_phys va s) else None)"

definition ld8 :: "u64 \<Rightarrow> board86 \<Rightarrow> u8 option" where
  "ld8 a b = map_option (b8_mem b) (x86_walk a (b8_paging b))"

definition st8 :: "u64 \<Rightarrow> u8 \<Rightarrow> board86 \<Rightarrow> board86 option" where
  "st8 a v b = map_option (\<lambda>p. b\<lparr>b8_mem := (b8_mem b)(p := v)\<rparr>) (x86_walk a (b8_paging b))"

definition ld32 :: "u64 \<Rightarrow> board86 \<Rightarrow> u32 option" where
  "ld32 a b = do {
     b0 \<leftarrow> ld8 a b; b1 \<leftarrow> ld8 (a + 1) b; b2 \<leftarrow> ld8 (a + 2) b; b3 \<leftarrow> ld8 (a + 3) b;
     Some (ucast b0 OR push_bit 8 (ucast b1) OR push_bit 16 (ucast b2) OR push_bit 24 (ucast b3))
   }"

definition st32 :: "u64 \<Rightarrow> u32 \<Rightarrow> board86 \<Rightarrow> board86 option" where
  "st32 a v b = do {
     b \<leftarrow> st8 a (ucast v) b; b \<leftarrow> st8 (a + 1) (ucast (drop_bit 8 v)) b;
     b \<leftarrow> st8 (a + 2) (ucast (drop_bit 16 v)) b; st8 (a + 3) (ucast (drop_bit 24 v)) b
   }"

definition ld64 :: "u64 \<Rightarrow> board86 \<Rightarrow> u64 option" where
  "ld64 a b = do { lo \<leftarrow> ld32 a b; hi \<leftarrow> ld32 (a + 4) b; Some (ucast lo OR push_bit 32 (ucast hi)) }"

definition st64 :: "u64 \<Rightarrow> u64 \<Rightarrow> board86 \<Rightarrow> board86 option" where
  "st64 a v b = do { b \<leftarrow> st32 a (ucast v) b; st32 (a + 4) (ucast (drop_bit 32 v)) b }"

section \<open>The processor\<close>

text \<open>
  \<open>cpuid_call\<close>: the arguments are in \<open>edi\<close>, \<open>rsi\<close>, \<open>rdx\<close>, \<open>rcx\<close>, \<open>r8\<close>, and the instruction \<open>cpuid\<close> overwrites \<open>rdx\<close> and
  \<open>rcx\<close>, through which the next instructions store. A \<open>cpuid\<close> gives \<open>eax\<close>, \<open>ebx\<close>, \<open>ecx\<close>, \<open>edx\<close>.
\<close>

type_synonym cpuid = "u32 \<Rightarrow> u32 \<times> u32 \<times> u32 \<times> u32"

definition cpuid_call :: "cpuid \<Rightarrow> u32 \<Rightarrow> u64 \<Rightarrow> u64 \<Rightarrow> u64 \<Rightarrow> u64 \<Rightarrow> board86 \<Rightarrow> board86 option" where
  "cpuid_call cpuid leaf rsi rdx rcx r8 b = do {
     let (eax, ebx, ecx, edx) = cpuid leaf;
     let rcx = ucast ecx; let rdx = ucast edx;
     b \<leftarrow> st32 rsi eax b;
     b \<leftarrow> st32 rdx ebx b;
     b \<leftarrow> st32 rcx ecx b;
     st32 r8 edx b
   }"

text \<open>The addresses of the variables \<open>eax\<close> to \<open>edx\<close> of a function; \<open>i\<close> below is the address of \<open>cpu_info\<close>, with \<open>brand\<close> at 13, and from
  64 on \<open>family\<close>, \<open>model\<close>, \<open>stepping\<close>, the feature words and, at 88, \<open>tsc_freq\<close>.\<close>

record regs_vars =
  rv_eax :: u64
  rv_ebx :: u64
  rv_ecx :: u64
  rv_edx :: u64

definition cpuid_vars :: "cpuid \<Rightarrow> u32 \<Rightarrow> regs_vars \<Rightarrow> board86 \<Rightarrow> board86 option" where
  "cpuid_vars cpuid leaf f b = cpuid_call cpuid leaf (rv_eax f) (rv_ebx f) (rv_ecx f) (rv_edx f) b"

definition copy32 :: "u64 \<Rightarrow> u64 \<Rightarrow> board86 \<Rightarrow> board86 option" where
  "copy32 dst src b = do { v \<leftarrow> ld32 src b; st32 dst v b }"

definition cpu_vendor :: "cpuid \<Rightarrow> regs_vars \<Rightarrow> u64 \<Rightarrow> board86 \<Rightarrow> board86 option" where
  "cpu_vendor cpuid f i b = do {
     b \<leftarrow> cpuid_vars cpuid 0 f b;
     b \<leftarrow> copy32 i (rv_ebx f) b;
     b \<leftarrow> copy32 (i + 4) (rv_edx f) b;
     b \<leftarrow> copy32 (i + 8) (rv_ecx f) b;
     st8 (i + 12) 0 b
   }"

definition cpu_version :: "cpuid \<Rightarrow> regs_vars \<Rightarrow> u64 \<Rightarrow> board86 \<Rightarrow> board86 option" where
  "cpu_version cpuid f i b = do {
     eax \<leftarrow> ld32 (rv_eax f) b;
     if eax \<ge> 1 then do {
       b \<leftarrow> cpuid_vars cpuid 1 f b;
       eax \<leftarrow> ld32 (rv_eax f) b; b \<leftarrow> st32 (i + 72) (eax AND 0xF) b;
       eax \<leftarrow> ld32 (rv_eax f) b; b \<leftarrow> st32 (i + 68) (drop_bit 4 eax AND 0xF) b;
       eax \<leftarrow> ld32 (rv_eax f) b; b \<leftarrow> st32 (i + 64) (drop_bit 8 eax AND 0xF) b;
       family \<leftarrow> ld32 (i + 64) b;
       b \<leftarrow> (if family = 0xF then do { eax \<leftarrow> ld32 (rv_eax f) b; st32 (i + 64) (family + (drop_bit 20 eax AND 0xFF)) b } else Some b);
       family \<leftarrow> ld32 (i + 64) b;
       b \<leftarrow> (if family \<ge> 6 then do {
              eax \<leftarrow> ld32 (rv_eax f) b; model \<leftarrow> ld32 (i + 68) b;
              st32 (i + 68) (model + push_bit 4 (drop_bit 16 eax AND 0xF)) b
            } else Some b);
       b \<leftarrow> copy32 (i + 76) (rv_edx f) b;
       copy32 (i + 80) (rv_ecx f) b
     } else Some b
   }"

definition cpu_extended :: "cpuid \<Rightarrow> regs_vars \<Rightarrow> u64 \<Rightarrow> board86 \<Rightarrow> board86 option" where
  "cpu_extended cpuid f i b = do {
     b \<leftarrow> cpuid_vars cpuid 0x80000000 f b;
     eax \<leftarrow> ld32 (rv_eax f) b;
     if eax \<ge> 0x80000001 then do {
       b \<leftarrow> cpuid_vars cpuid 0x80000001 f b;
       copy32 (i + 84) (rv_edx f) b
     } else Some b
   }"

fun str_copy :: "u64 \<Rightarrow> u8 list \<Rightarrow> board86 \<Rightarrow> board86 option" where
  "str_copy dst [] b = Some b"
| "str_copy dst (c # cs) b = do { b \<leftarrow> st8 dst c b; str_copy (dst + 1) cs b }"

partial_function (option) skip_spaces :: "u64 \<Rightarrow> board86 \<Rightarrow> u64 option" where
  "skip_spaces p b = do { c \<leftarrow> ld8 p b; if c = 32 then skip_spaces (p + 1) b else Some p }"

partial_function (option) move_string :: "u64 \<Rightarrow> u64 \<Rightarrow> board86 \<Rightarrow> board86 option" where
  "move_string dst p b = do {
     c \<leftarrow> ld8 p b;
     if c \<noteq> 0 then do { b \<leftarrow> st8 dst c b; move_string (dst + 1) (p + 1) b } else st8 dst 0 b
   }"

definition trim_spaces :: "u64 \<Rightarrow> board86 \<Rightarrow> board86 option" where
  "trim_spaces brand b = do { p \<leftarrow> skip_spaces brand b; if p \<noteq> brand then move_string brand p b else Some b }"

definition cpu_brand :: "cpuid \<Rightarrow> regs_vars \<Rightarrow> u64 \<Rightarrow> board86 \<Rightarrow> board86 option" where
  "cpu_brand cpuid f i b = do {
     b \<leftarrow> cpuid_vars cpuid 0x80000000 f b;
     eax \<leftarrow> ld32 (rv_eax f) b;
     let brand = i + 13;
     if eax \<ge> 0x80000004 then do {
       b \<leftarrow> cpuid_call cpuid 0x80000002 brand (brand + 4) (brand + 8) (brand + 12) b;
       b \<leftarrow> cpuid_call cpuid 0x80000003 (brand + 16) (brand + 20) (brand + 24) (brand + 28) b;
       b \<leftarrow> cpuid_call cpuid 0x80000004 (brand + 32) (brand + 36) (brand + 40) (brand + 44) b;
       b \<leftarrow> st8 (brand + 48) 0 b;
       trim_spaces brand b
     } else str_copy brand (map of_char ''Unknown'' @ [0]) b
   }"

definition cpu_tsc :: "cpuid \<Rightarrow> regs_vars \<Rightarrow> u64 \<Rightarrow> board86 \<Rightarrow> board86 option" where
  "cpu_tsc cpuid f i b = do {
     b \<leftarrow> cpuid_vars cpuid 0 f b;
     eax \<leftarrow> ld32 (rv_eax f) b;
     b \<leftarrow> (if eax \<ge> 0x15 then do {
            b \<leftarrow> cpuid_vars cpuid 0x15 f b;
            eax \<leftarrow> ld32 (rv_eax f) b; ebx \<leftarrow> ld32 (rv_ebx f) b; ecx \<leftarrow> ld32 (rv_ecx f) b;
            if eax \<noteq> 0 \<and> ebx \<noteq> 0 \<and> ecx \<noteq> 0 then st64 (i + 88) (ucast ecx * ucast ebx div ucast eax) b else Some b
          } else Some b);
     tsc \<leftarrow> ld64 (i + 88) b;
     if tsc = 0 then st64 (i + 88) 1000000000 b else Some b
   }"

definition cpu_detect :: "cpuid \<Rightarrow> regs_vars \<Rightarrow> u64 \<Rightarrow> board86 \<Rightarrow> board86 option" where
  "cpu_detect cpuid f i b = do {
     b \<leftarrow> cpu_vendor cpuid f i b;
     b \<leftarrow> cpu_version cpuid f i b;
     b \<leftarrow> cpu_extended cpuid f i b;
     b \<leftarrow> cpu_brand cpuid f i b;
     cpu_tsc cpuid f i b
   }"

end
