(* ===== verification/X86_Main.thy ===== *)
theory X86_Main
  imports X86_Start
begin

text \<open>
  \<open>kernel_main\<close> of the x86 kernel, \<open>src/X86_64-RTOS/kernel/main.c\<close>: what the boot loader passes, and the initialisations in
  their order.
\<close>

section \<open>The parts of the start\<close>

text \<open>In the lines of the banner \<open>#\<close> stands for a backslash.\<close>

definition banner_lines :: "string list" where
  "banner_lines = ['''',
     ''================================================================================'',
     ''  ____                                         _     ____ _____ ___  ____  '',
     '' / ___|_ __ __ _  ___ ___ _ __ ___   ___  _ __ | |_  |  _ #_   _/ _ #/ ___| '',
     ''| |  _| '__/ _` |/ __/ _ # '_ ` _ # / _ #| '_ #| __| | |_) || || | | #___ # '',
     ''| |_| | | | (_| | (_|  __/ | | | | | (_) | | | | |_  |  _ < | || |_| |___) |'',
     '' #____|_|  #__,_|#___#___|_| |_| |_|#___/|_| |_|#__| |_| #_#|_| #___/|____/ '',
     '''',
     ''  X86_64 Industrial Control RTOS'',
     ''  Copyright (C) 2024 Zixiao System'',
     ''================================================================================'',
     '''']"

definition art :: "string \<Rightarrow> u8 list" where
  "art s = map (\<lambda>c. if c = CHR ''#'' then 92 else of_char c) s @ [10]"

fun say_all :: "pio_hw \<Rightarrow> u8 list list \<Rightarrow> com \<Rightarrow> com option" where
  "say_all hwc [] c = Some c"
| "say_all hwc (l # ls) c = do { c \<leftarrow> com_puts hwc l c; say_all hwc ls c }"

definition print_banner :: "pio_hw \<Rightarrow> com \<Rightarrow> com option" where
  "print_banner hwc c = say_all hwc (map art banner_lines) c"

text \<open>A string in memory, up to its zero.\<close>

partial_function (option) mem_puts :: "pio_hw \<Rightarrow> board86 \<Rightarrow> u64 \<Rightarrow> com \<Rightarrow> com option" where
  "mem_puts hwc b p c = do {
     ch \<leftarrow> ld8 p b;
     if ch = 0 then Some c
     else do {
       c \<leftarrow> (if ch = 10 then com_putc hwc 13 c else Some c);
       c \<leftarrow> com_putc hwc ch c;
       mem_puts hwc b (p + 1) c
     }
   }"

definition MULTIBOOT2_BOOTLOADER_MAGIC :: u64 where "MULTIBOOT2_BOOTLOADER_MAGIC = 0x36D76289"
definition MULTIBOOT2_TAG_END :: u32 where "MULTIBOOT2_TAG_END = 0"
definition MULTIBOOT2_TAG_CMDLINE :: u32 where "MULTIBOOT2_TAG_CMDLINE = 1"
definition MULTIBOOT2_TAG_BOOTLOADER :: u32 where "MULTIBOOT2_TAG_BOOTLOADER = 2"
definition MULTIBOOT2_TAG_BASIC_MEMINFO :: u32 where "MULTIBOOT2_TAG_BASIC_MEMINFO = 4"

definition mb_tag :: "pio_hw \<Rightarrow> board86 \<Rightarrow> u64 \<Rightarrow> u32 \<Rightarrow> com \<Rightarrow> com option" where
  "mb_tag hwc b tag t c =
     (if t = MULTIBOOT2_TAG_CMDLINE then do {
        c \<leftarrow> xputs hwc ''[BOOT] Command line: '' c; c \<leftarrow> mem_puts hwc b (tag + 8) c; xline hwc c
      } else if t = MULTIBOOT2_TAG_BOOTLOADER then do {
        c \<leftarrow> xputs hwc ''[BOOT] Bootloader: '' c; c \<leftarrow> mem_puts hwc b (tag + 8) c; xline hwc c
      } else if t = MULTIBOOT2_TAG_BASIC_MEMINFO then do {
        c \<leftarrow> xputs hwc ''[BOOT] Memory: lower='' c; v \<leftarrow> ld32 (tag + 8) b; c \<leftarrow> com_putdec hwc (ucast v) c;
        c \<leftarrow> xputs hwc ''KB, upper='' c; v \<leftarrow> ld32 (tag + 12) b; c \<leftarrow> com_putdec hwc (ucast v) c;
        c \<leftarrow> xputs hwc ''KB'' c; xline hwc c
      } else Some c)"

definition mb_next :: "u64 \<Rightarrow> u32 \<Rightarrow> u64" where
  "mb_next tag sz = (tag + ucast sz + 7) AND NOT 7"

partial_function (option) mb_tags :: "pio_hw \<Rightarrow> board86 \<Rightarrow> u64 \<Rightarrow> com \<Rightarrow> com option" where
  "mb_tags hwc b tag c = do {
     t \<leftarrow> ld32 tag b;
     if t = MULTIBOOT2_TAG_END then Some c
     else do {
       c \<leftarrow> mb_tag hwc b tag t c;
       sz \<leftarrow> ld32 (tag + 4) b;
       mb_tags hwc b (mb_next tag sz) c
     }
   }"

definition parse_multiboot2_info :: "pio_hw \<Rightarrow> u64 \<Rightarrow> u64 \<Rightarrow> board86 \<Rightarrow> com \<Rightarrow> com option" where
  "parse_multiboot2_info hwc magic info_addr b c = do {
     c \<leftarrow> xputs hwc ''[BOOT] Parsing Multiboot2 info...'' c; c \<leftarrow> xline hwc c;
     if magic \<noteq> MULTIBOOT2_BOOTLOADER_MAGIC then do {
       c \<leftarrow> xputs hwc ''[BOOT] ERROR: Invalid Multiboot2 magic: '' c; c \<leftarrow> com_puthex hwc magic c; xline hwc c
     } else do {
       c \<leftarrow> xputs hwc ''[BOOT] Multiboot2 info size: '' c; sz \<leftarrow> ld32 info_addr b; c \<leftarrow> com_putdec hwc (ucast sz) c;
       c \<leftarrow> xputs hwc '' bytes'' c; c \<leftarrow> xline hwc c;
       mb_tags hwc b (info_addr + 8) c
     }
   }"

section \<open>The kernel\<close>

text \<open>
  The devices, the processor, and the addresses the linker gives. \<open>Page_fault\<close> is an access of the controllers' drivers that is
  not mapped, with the state it is raised in. \<open>None\<close> means that the first phase does not come to its end: an access to memory
  that is not mapped (a reset, or from \<open>mmu_init\<close> on, with the descriptor table loaded, a page fault), a wait for the serial
  port, or a walk over the tags or a string that does not end. The phases are separate functions, so that a theorem can say which
  it is.
\<close>

record env86 =
  k8_com :: pio_hw
  k8_apic :: mmio_hw
  k8_cpuid :: cpuid
  k8_isr :: "nat \<Rightarrow> u64"
  k8_detect_vars :: regs_vars
  k8_mmu_vars :: regs_vars
  k8_cpu_info :: u64
  k8_stack_top :: u64
  k8_interrupt_stack :: u64
  k8_tss :: u64
  k8_gdt :: u64
  k8_idt :: u64

datatype main86 = Page_fault u64 board86 | Runs board86

definition print86 :: "(com \<Rightarrow> com option) \<Rightarrow> board86 \<Rightarrow> board86 option" where
  "print86 f b = map_option (\<lambda>c. b\<lparr>b8_com := c\<rparr>) (f (b8_com b))"

definition say86 :: "pio_hw \<Rightarrow> string \<Rightarrow> board86 \<Rightarrow> board86 option" where
  "say86 hwc s b = print86 (\<lambda>c. do { c \<leftarrow> xputs hwc s c; xline hwc c }) b"

text \<open>The accesses to a controller go through the tables; the first that is not mapped faults, and those before it were made.\<close>

fun faulting :: "paging \<Rightarrow> mmio list \<Rightarrow> (u64 \<times> nat) option" where
  "faulting pg [] = None"
| "faulting pg (x # xs) =
     (let a = (case x of Rd a \<Rightarrow> of_int a | Wr a v \<Rightarrow> of_int a)
      in if x86_walk a pg = None then Some (a, 0) else map_option (\<lambda>(a, n). (a, n + 1)) (faulting pg xs))"

definition apic_step :: "(apic \<Rightarrow> apic) \<Rightarrow> board86 \<Rightarrow> main86" where
  "apic_step f b =
     (let old = b8_apic b;
          new = f old;
          made = rev (take (length (ap_io new) - length (ap_io old)) (ap_io new))
      in case faulting (b8_paging b) made of
           None \<Rightarrow> Runs (b\<lparr>b8_apic := new\<rparr>)
         | Some (a, n) \<Rightarrow> Page_fault a (b\<lparr>b8_apic := new\<lparr>ap_io := rev (take n made) @ ap_io old\<rparr>\<rparr>))"

definition mmu_step :: "cpuid \<Rightarrow> regs_vars \<Rightarrow> board86 \<Rightarrow> board86 option" where
  "mmu_step cpuid f b = do {
     b \<leftarrow> cpuid_vars cpuid 0x80000001 f b;
     b \<leftarrow> cpuid_vars cpuid 1 f b;
     Some (b\<lparr>b8_paging := mmu_init (\<lambda>leaf. snd (snd (snd (cpuid leaf)))) (b8_paging b)\<rparr>)
   }"

definition kernel_early :: "env86 \<Rightarrow> u64 \<Rightarrow> u64 \<Rightarrow> board86 \<Rightarrow> board86 option" where
  "kernel_early e magic info b = do {
     let hwc = k8_com e;
     b \<leftarrow> print86 (com_init hwc) b;
     b \<leftarrow> print86 (print_banner hwc) b;
     b \<leftarrow> say86 hwc ''[INIT] Starting X86_64 RTOS initialization...'' b;
     b \<leftarrow> print86 (parse_multiboot2_info hwc magic info b) b;
     b \<leftarrow> say86 hwc ''[INIT] Detecting CPU...'' b;
     b \<leftarrow> cpu_detect (k8_cpuid e) (k8_detect_vars e) (k8_cpu_info e) b;
     b \<leftarrow> print86 (xputs hwc ''[INIT] CPU: '') b;
     b \<leftarrow> print86 (mem_puts hwc b (k8_cpu_info e)) b;
     b \<leftarrow> print86 (xputs hwc '' '') b;
     b \<leftarrow> print86 (mem_puts hwc b (k8_cpu_info e + 13)) b;
     b \<leftarrow> print86 (xline hwc) b;
     b \<leftarrow> say86 hwc ''[INIT] Setting up GDT...'' b;
     let b = b\<lparr>b8_gdt := gdt_init (k8_stack_top e) (k8_interrupt_stack e) (k8_tss e) (k8_gdt e) (b8_gdt b)\<rparr>;
     b \<leftarrow> say86 hwc ''[INIT] Setting up IDT...'' b;
     let (idt, ptr) = idt_init (k8_isr e) (k8_idt e) (b8_idt b);
     let b = b\<lparr>b8_idt := idt, b8_idt_ptr := ptr\<rparr>;
     b \<leftarrow> say86 hwc ''[INIT] Initializing MMU...'' b;
     b \<leftarrow> mmu_step (k8_cpuid e) (k8_mmu_vars e) b;
     say86 hwc ''[INIT] Initializing APIC...'' b
   }"

definition kernel_timer :: "env86 \<Rightarrow> board86 \<Rightarrow> main86 option" where
  "kernel_timer e b = do {
     b \<leftarrow> say86 (k8_com e) ''[INIT] Starting APIC timer (1000 Hz)...'' b;
     a \<leftarrow> apic_timer_init (k8_apic e) 1000 (b8_apic b);
     (case apic_step (\<lambda>_. a) b of
        Page_fault va b \<Rightarrow> Some (Page_fault va b)
      | Runs b \<Rightarrow> do {
          b \<leftarrow> say86 (k8_com e) ''[INIT] Enabling interrupts...'' b;
          let b = b\<lparr>b8_flags := b8_flags b OR 0x200\<rparr>;
          b \<leftarrow> print86 (xline (k8_com e)) b;
          b \<leftarrow> say86 (k8_com e) ''[INIT] ========================================'' b;
          b \<leftarrow> say86 (k8_com e) ''[INIT] X86_64 RTOS initialized successfully!'' b;
          b \<leftarrow> say86 (k8_com e) ''[INIT] ========================================'' b;
          b \<leftarrow> print86 (xline (k8_com e)) b;
          b \<leftarrow> say86 (k8_com e) ''[MAIN] Entering main loop...'' b;
          Some (Runs b)
        })
   }"

definition kernel_main86 :: "env86 \<Rightarrow> u64 \<Rightarrow> u64 \<Rightarrow> board86 \<Rightarrow> main86 option" where
  "kernel_main86 e magic info b = do {
     b \<leftarrow> kernel_early e magic info b;
     (case apic_step (apic_init (k8_apic e)) b of
        Page_fault va b \<Rightarrow> Some (Page_fault va b)
      | Runs b \<Rightarrow>
          (case apic_step (ioapic_init (k8_apic e)) b of
             Page_fault va b \<Rightarrow> Some (Page_fault va b)
           | Runs b \<Rightarrow> kernel_timer e b))
   }"

text \<open>A round of the main loop, after an interrupt has ended the halt; the counter starts at 0.\<close>

definition heartbeat86 :: "pio_hw \<Rightarrow> u64 \<Rightarrow> com \<Rightarrow> (u64 \<times> com) option" where
  "heartbeat86 hwc counter c =
     (let counter = counter + 1
      in if counter mod 100000000 = 0 then do {
           c \<leftarrow> xputs hwc ''[MAIN] Heartbeat: '' c;
           c \<leftarrow> com_putdec hwc (counter div 100000000) c;
           c \<leftarrow> xline hwc c;
           Some (counter, c)
         } else Some (counter, c))"

end
