(* ===== verification/X86_Irq_Props.thy ===== *)
theory X86_Irq_Props
  imports X86_Irq X86_Ports_Props
begin

text \<open>
  What an interrupt of the x86 kernel comes to: the stack the stub leaves, the branch it takes, and what is restored.
\<close>

section \<open>The stack\<close>

lemma slot_eq: "(a :: u64) + 8 * of_nat i = a + 8 * of_nat j \<longleftrightarrow> i = j" if "i < 2 ^ 60" "j < 2 ^ 60"
proof
  assume "a + 8 * of_nat i = a + 8 * of_nat j"
  then have "unat (8 * of_nat i :: u64) = unat (8 * of_nat j :: u64)" by simp
  then show "i = j" using that by (simp add: unat_word_ariths unat_of_nat)
qed simp

text \<open>After pushing \<open>ws\<close>, the slots from the stack pointer up hold \<open>ws\<close> backwards.\<close>

lemma pushes_stack:
  assumes "length ws < 2 ^ 60"
  shows "x_rsp (fold x86_push ws s) = x_rsp s - 8 * of_nat (length ws) \<and>
    (\<forall>i < length ws. x_mem (fold x86_push ws s) (x_rsp (fold x86_push ws s) + 8 * of_nat i) = rev ws ! i)"
  using assms
proof (induction ws rule: rev_induct)
  case (snoc w ws)
  let ?t = "fold x86_push ws s"
  have "length ws < 2 ^ 60" using snoc.prems by simp
  note IH = conjunct1[OF snoc.IH[OF this]] conjunct2[OF snoc.IH[OF this]]
  have at: "x_mem (x86_push w ?t) (x_rsp ?t - 8 + 8 * of_nat i) = (w # rev ws) ! i" if "i \<le> length ws" for i
  proof (cases i)
    case (Suc j)
    let ?p = "x_rsp ?t - 8 + 8 * of_nat i"
    have ne: "?p \<noteq> x_rsp ?t - 8" using slot_eq[of i 0 "x_rsp ?t - 8"] Suc that snoc.prems by auto
    have eq: "?p = x_rsp ?t + 8 * of_nat j" using Suc by (simp add: algebra_simps)
    have "x_mem (x86_push w ?t) p = x_mem ?t p" if "p \<noteq> x_rsp ?t - 8" for p using that by (simp add: x86_push_def)
    from this[OF ne] have "x_mem (x86_push w ?t) ?p = x_mem ?t (x_rsp ?t + 8 * of_nat j)" unfolding eq .
    also have "\<dots> = rev ws ! j" using IH(2) that Suc by simp
    finally show ?thesis using Suc by simp
  qed (simp add: x86_push_def)
  have rsp: "x_rsp (x86_push w ?t) = x_rsp ?t - 8" by (simp add: x86_push_def)
  have eq: "fold x86_push (ws @ [w]) s = x86_push w ?t" by simp
  have "x_rsp ?t - 8 = x_rsp s - 8 * of_nat (length (ws @ [w]))" using IH(1) by (simp add: algebra_simps)
  then show ?case unfolding eq rsp using at by (simp add: less_Suc_eq_le)
qed simp

lemma pushes_rest [simp]:
  "x_reg (fold x86_push ws s) = x_reg s" "x_ds (fold x86_push ws s) = x_ds s" "x_es (fold x86_push ws s) = x_es s"
  "x_ss (fold x86_push ws s) = x_ss s" "x_cs (fold x86_push ws s) = x_cs s" "x_rip (fold x86_push ws s) = x_rip s"
  "x_flags (fold x86_push ws s) = x_flags s"
  by (induction ws rule: rev_induct; simp add: x86_push_def)+

lemma push_rest [simp]:
  "x_reg (x86_push w s) = x_reg s" "x_ds (x86_push w s) = x_ds s" "x_es (x86_push w s) = x_es s" "x_ss (x86_push w s) = x_ss s"
  "x_cs (x86_push w s) = x_cs s" "x_rip (x86_push w s) = x_rip s" "x_flags (x86_push w s) = x_flags s"
  by (simp_all add: x86_push_def)

lemma push_registers: "fold (\<lambda>r s. x86_push (x_reg s r) s) rs s = fold x86_push (map (x_reg s) rs) s"
proof (induction rs arbitrary: s)
  case (Cons r rs)
  have "x_reg (x86_push v s) = x_reg s" for v by (simp add: x86_push_def)
  then show ?case using Cons[of "x86_push (x_reg s r) s"] by simp
qed simp

text \<open>What the stack holds when the handler runs, from the stack pointer up; \<open>es\<close> is the error code the processor pushed, \<open>vs\<close> what the stub did.\<close>

definition isr_slots :: "x86 \<Rightarrow> u64 list \<Rightarrow> u64 list" where
  "isr_slots s vs = set_ax (x_ds s) (x_reg s RAX) # map (x_reg s) (rev isr_saved) @ vs @
     [x_rip s, ucast (x_cs s), x_flags s, x_rsp s, ucast (x_ss s)]"

lemma ucast_set_ax: "(ucast (set_ax a v) :: u16) = a"
proof -
  have e: "(0xFFFF :: u64) = mask 16" by (simp add: mask_eq_exp_minus_1)
  show ?thesis unfolding set_ax_def e by (rule bit_word_eqI) (auto simp: bit_simps)
qed

lemma isr_save_eq:
  "isr_save s = (let t = fold x86_push (map (x_reg s) isr_saved @ [set_ax (x_ds s) (x_reg s RAX)]) s
     in t\<lparr>x_reg := (x_reg s)(RAX := x_mem t (x_rsp t + 136), RDI := x_rsp t), x_ds := 0x10, x_es := 0x10\<rparr>)"
  unfolding isr_save_def push_registers Let_def by (simp add: set_reg_def x86_push_def fun_upd_twist)

lemma isr_entered:
  assumes e: "isr_errcode v = (err \<noteq> None)"
    and s': "s' = fold x86_push ([ucast (x_ss s), x_rsp s, x_flags s, ucast (x_cs s), x_rip s] @ (case err of None \<Rightarrow> [] | Some e \<Rightarrow> [e])) (s\<lparr>x_rsp := tp\<rparr>)"
    and t: "t = isr_save (isr_stub v (s'\<lparr>x_rip := r, x_cs := c, x_flags := f\<rparr>))"
  shows "(\<forall>i < 23. x_mem t (x_rsp t + 8 * of_nat i) = isr_slots s [of_nat v, case err of None \<Rightarrow> 0 | Some e \<Rightarrow> e] ! i)"
    and "x_reg t RDI = x_rsp t" "x_reg t RAX = (case err of None \<Rightarrow> 0 | Some e \<Rightarrow> e)" "x_rsp t = tp - 184"
proof -
  let ?e = "case err of None \<Rightarrow> 0 | Some e \<Rightarrow> e"
  define W where "W = [ucast (x_ss s), x_rsp s, x_flags s, ucast (x_cs s), x_rip s, ?e, of_nat v] @ map (x_reg s) isr_saved @ [set_ax (x_ds s) (x_reg s RAX)]"
  have rW: "rev W = isr_slots s [of_nat v, ?e]" by (simp add: W_def isr_slots_def isr_saved_def)
  let ?u = "fold x86_push W (s\<lparr>x_rsp := tp\<rparr>)"
  have stub: "isr_stub v (s'\<lparr>x_rip := r, x_cs := c, x_flags := f\<rparr>) =
      (fold x86_push [ucast (x_ss s), x_rsp s, x_flags s, ucast (x_cs s), x_rip s, ?e, of_nat v] (s\<lparr>x_rsp := tp\<rparr>))\<lparr>x_rip := r, x_cs := c, x_flags := f\<rparr>"
    using e by (cases err) (simp_all add: isr_stub_def s' x86_push_def)
  have upd: "fold x86_push ws (u\<lparr>x_rip := r, x_cs := c, x_flags := f\<rparr>) = (fold x86_push ws u)\<lparr>x_rip := r, x_cs := c, x_flags := f\<rparr>" for ws u
  proof (induction ws arbitrary: u)
    case (Cons w ws)
    have "x86_push w (u\<lparr>x_rip := r, x_cs := c, x_flags := f\<rparr>) = (x86_push w u)\<lparr>x_rip := r, x_cs := c, x_flags := f\<rparr>"
      by (cases u) (simp add: x86_push_def)
    then show ?case using Cons by simp
  qed simp
  have t': "t = ?u\<lparr>x_rip := r, x_cs := c, x_flags := f, x_reg := (x_reg s)(RAX := x_mem ?u (x_rsp ?u + 136), RDI := x_rsp ?u), x_ds := 0x10, x_es := 0x10\<rparr>"
    unfolding t stub isr_save_eq Let_def upd by (simp add: W_def)
  have len: "length W = 23" by (simp add: W_def isr_saved_def)
  then have "length W < 2 ^ 60" by simp
  note W = pushes_stack[OF this, of "s\<lparr>x_rsp := tp\<rparr>", unfolded len rW]
  have st1: "x_rsp ?u = tp - 184" using conjunct1[OF W] by simp
  note st = st1 conjunct2[OF W]
  have tu: "x_mem t = x_mem ?u" "x_rsp t = x_rsp ?u" by (simp_all add: t')
  show "\<forall>i < 23. x_mem t (x_rsp t + 8 * of_nat i) = isr_slots s [of_nat v, ?e] ! i" unfolding tu by (rule st(2))
  show "x_reg t RDI = x_rsp t" "x_rsp t = tp - 184" using st by (simp_all add: t')
  show "x_reg t RAX = ?e" using st(2)[rule_format, of 17] by (simp add: t' isr_slots_def isr_saved_def)
qed

lemma slot_values:
  assumes "\<forall>i < 23. m ((p :: u64) + 8 * of_nat i) = L ! i"
  shows "m p = L ! 0"
    "m (p + 8) = L ! 1"
    "m (p + 16) = L ! 2"
    "m (p + 24) = L ! 3"
    "m (p + 32) = L ! 4"
    "m (p + 40) = L ! 5"
    "m (p + 48) = L ! 6"
    "m (p + 56) = L ! 7"
    "m (p + 64) = L ! 8"
    "m (p + 72) = L ! 9"
    "m (p + 80) = L ! 10"
    "m (p + 88) = L ! 11"
    "m (p + 96) = L ! 12"
    "m (p + 104) = L ! 13"
    "m (p + 112) = L ! 14"
    "m (p + 120) = L ! 15"
    "m (p + 128) = L ! 16"
    "m (p + 136) = L ! 17"
    "m (p + 144) = L ! 18"
    "m (p + 152) = L ! 19"
    "m (p + 160) = L ! 20"
    "m (p + 168) = L ! 21"
    "m (p + 176) = L ! 22"
  using assms[rule_format, of 0] assms[rule_format, of 1] assms[rule_format, of 2] assms[rule_format, of 3] assms[rule_format, of 4] assms[rule_format, of 5] assms[rule_format, of 6] assms[rule_format, of 7] assms[rule_format, of 8] assms[rule_format, of 9] assms[rule_format, of 10] assms[rule_format, of 11] assms[rule_format, of 12] assms[rule_format, of 13] assms[rule_format, of 14] assms[rule_format, of 15] assms[rule_format, of 16] assms[rule_format, of 17] assms[rule_format, of 18] assms[rule_format, of 19] assms[rule_format, of 20] assms[rule_format, of 21] assms[rule_format, of 22]
  by simp_all

lemma isr_frame:
  assumes "\<forall>i < 23. m (p + 8 * of_nat i) = L ! i"
  shows "frame_at m p = \<lparr>fr_r15 = L ! 0, fr_r14 = L ! 1, fr_r13 = L ! 2, fr_r12 = L ! 3, fr_r11 = L ! 4, fr_r10 = L ! 5, fr_r9 = L ! 6,
    fr_r8 = L ! 7, fr_rbp = L ! 8, fr_rdi = L ! 9, fr_rsi = L ! 10, fr_rdx = L ! 11, fr_rcx = L ! 12, fr_rbx = L ! 13, fr_rax = L ! 14,
    fr_int_no = L ! 15, fr_error_code = L ! 16, fr_rip = L ! 17, fr_cs = L ! 18, fr_rflags = L ! 19, fr_rsp = L ! 20, fr_ss = L ! 21\<rparr>"
  unfolding frame_at_def slot_values[OF assms] ..

text \<open>Popping registers, the first from the stack pointer up.\<close>

definition pop_reg :: "gpr \<Rightarrow> x86 \<Rightarrow> x86" where
  "pop_reg r s = s\<lparr>x_reg := (x_reg s)(r := x_mem s (x_rsp s)), x_rsp := x_rsp s + 8\<rparr>"

lemma pop_reg_eq: "(\<lambda>r s. let (v, s) = x86_pop s in set_reg r v s) = pop_reg"
proof (intro ext)
  show "(let (v, s) = x86_pop s in set_reg r v s) = pop_reg r s" for r s
    by (cases s) (simp add: x86_pop_def set_reg_def pop_reg_def)
qed

lemma pops_stack:
  assumes "distinct rs"
  shows "x_rsp (fold pop_reg rs s) = x_rsp s + 8 * of_nat (length rs) \<and> x_mem (fold pop_reg rs s) = x_mem s \<and>
    (\<forall>i < length rs. x_reg (fold pop_reg rs s) (rs ! i) = x_mem s (x_rsp s + 8 * of_nat i)) \<and>
    x_ds (fold pop_reg rs s) = x_ds s \<and> x_es (fold pop_reg rs s) = x_es s"
  using assms
proof (induction rs rule: rev_induct)
  case (snoc r rs)
  then show ?case by (auto simp: pop_reg_def less_Suc_eq nth_append algebra_simps in_set_conv_nth)
qed simp

lemma ucast_16 [simp]: "(ucast (ucast (a :: u16) :: u64) :: u16) = a"
  by (rule bit_word_eqI) (simp add: bit_simps)

lemma isr_left:
  assumes m: "\<forall>i < 23. x_mem t (x_rsp t + 8 * of_nat i) = isr_slots s [a, b] ! i"
  shows "isr_leave t = s\<lparr>x_mem := x_mem t, x_es := x_ds s\<rparr>"
proof -
  note v = slot_values[OF m]
  let ?d = "ucast (x_mem t (x_rsp t)) :: u16"
  define t1 where "t1 = t\<lparr>x_rsp := x_rsp t + 8, x_ds := ?d, x_es := ?d\<rparr>"
  define u where "u = fold pop_reg (rev isr_saved) t1"
  have d: "distinct (rev isr_saved)" "length (rev isr_saved) = 15" by (simp_all add: isr_saved_def)
  note u = pops_stack[OF d(1), of t1, folded u_def, unfolded d(2)]
  have rsp: "x_rsp u = x_rsp t + 128" "x_mem u = x_mem t" "x_ds u = x_ds s" "x_es u = x_ds s"
    using u v(1) by (simp_all add: t1_def isr_slots_def ucast_set_ax)
  have "x_reg u (rev isr_saved ! i) = x_reg s (rev isr_saved ! i)" if "i < 15" for i
  proof -
    have "x_reg u (rev isr_saved ! i) = x_mem t (x_rsp t + 8 * of_nat (Suc i))" using u that by (simp add: t1_def algebra_simps)
    also have "\<dots> = isr_slots s [a, b] ! Suc i" using m that by (simp del: of_nat_Suc)
    also have "\<dots> = x_reg s (rev isr_saved ! i)" using that d(2) by (simp add: isr_slots_def nth_append rev_nth)
    finally show ?thesis .
  qed
  moreover have "\<exists>i < 15. g = rev isr_saved ! i" for g
  proof -
    have "g \<in> set (rev isr_saved)" by (cases g) (simp_all add: isr_saved_def)
    then show ?thesis using d(2) by (metis in_set_conv_nth)
  qed
  ultimately have reg: "x_reg u = x_reg s" by (metis ext)
  have "isr_leave t = u\<lparr>x_rip := x_mem t (x_rsp t + 144), x_cs := ucast (x_mem t (x_rsp t + 152)), x_flags := x_mem t (x_rsp t + 160),
      x_rsp := x_mem t (x_rsp t + 168), x_ss := ucast (x_mem t (x_rsp t + 176))\<rparr>"
  proof -
    have first: "x86_pop t = (x_mem t (x_rsp t), t\<lparr>x_rsp := x_rsp t + 8\<rparr>)" by (simp add: x86_pop_def)
    show ?thesis unfolding isr_leave_def pop_reg_eq unfolding first Let_def prod.case unfolding t1_def[symmetric]
      unfolding u_def[symmetric]
      by (simp add: x86_pop_def rsp add.assoc)
  qed
  moreover have "x_mem t (x_rsp t + 144) = x_rip s" "x_mem t (x_rsp t + 152) = ucast (x_cs s)" "x_mem t (x_rsp t + 160) = x_flags s"
    "x_mem t (x_rsp t + 168) = x_rsp s" "x_mem t (x_rsp t + 176) = ucast (x_ss s)"
    unfolding v by (simp_all add: isr_slots_def isr_saved_def)
  ultimately show ?thesis using rsp reg by (intro x86.equality) simp_all
qed

section \<open>The descriptor table\<close>

definition gate :: "u64 \<Rightarrow> u16 \<Rightarrow> u8 \<Rightarrow> idt_entry" where
  "gate h c t = \<lparr>ig_offset_low = ucast (h AND 0xFFFF), ig_selector = c, ig_ist = 0, ig_type_attr = t,
     ig_offset_middle = ucast (drop_bit 16 h AND 0xFFFF), ig_offset_high = ucast (drop_bit 32 h AND 0xFFFFFFFF), ig_reserved = 0\<rparr>"

lemma gate_offset_gate: "gate_offset (gate h c t) = h"
proof -
  have e: "(0xFFFF :: u64) = mask 16" "(0xFFFFFFFF :: u64) = mask 32" by (simp_all add: mask_eq_exp_minus_1)
  have n: "32 + (n - 32) = n \<or> n - 16 < (16 :: nat)" for n by arith
  show ?thesis unfolding gate_offset_def gate_def e
    by (rule bit_word_eqI) (use n in \<open>auto simp: bit_simps; metis\<close>)
qed

lemma set_gates:
  "length (fold (\<lambda>i. idt_set_gate i (h i) (c i) (t i)) vs idt) = length idt"
  "v < length idt \<Longrightarrow> fold (\<lambda>i. idt_set_gate i (h i) (c i) (t i)) vs idt ! v = (if v \<in> set vs then gate (h v) (c v) (t v) else idt ! v)"
  by (induction vs arbitrary: idt) (auto simp: idt_set_gate_def gate_def nth_list_update)

lemma idt_init_gate:
  assumes "length idt = 256" and "v \<in> set isr_vectors"
  shows "fst (idt_init isr base idt) ! v = (gate (isr v) GDT_KERNEL_CODE (if v = 3 then IDT_TYPE_INTERRUPT3 else IDT_TYPE_INTERRUPT))
    \<lparr>ig_ist := if v \<in> {2, 8, 18} then 1 else 0\<rparr>"
proof -
  have v: "v < 256" using assms(2) by (auto simp: isr_vectors_def)
  have m: "2 \<in> set isr_vectors" "8 \<in> set isr_vectors" "18 \<in> set isr_vectors" by (simp_all add: isr_vectors_def)
  show ?thesis unfolding idt_init_def Let_def using assms v m by (simp add: set_gates nth_list_update) (simp add: gate_def)
qed

text \<open>Every vector with an entry point is delivered to it, on the interrupt stack for three of them.\<close>

definition isr_top :: "'w x86_env \<Rightarrow> nat \<Rightarrow> x86 \<Rightarrow> u64" where
  "isr_top e v s = (if v \<in> {2, 8, 18} then xe_ist e 1 else x_rsp s) AND NOT 0xF"

definition isr_serve :: "'w x86_env \<Rightarrow> u64 \<Rightarrow> x86 \<Rightarrow> 'w xirq \<Rightarrow> 'w isr_result option" where
  "isr_serve e w t k =
     (let f = frame_at (x_mem t) (x_rsp t)
      in if sint w < 32 then do { c \<leftarrow> exception_report (xe_com e) (xe_cr2 e) f (xi_com k); Some (Halted (k\<lparr>xi_com := c\<rparr>)) }
         else map_option (Resumed (isr_leave (xe_cc e t))) (x86_irq_handler (xe_apic e) (xe_code e) f k))"

lemma isr_common_serve:
  "x_reg (isr_save u) RDI = x_rsp (isr_save u) \<Longrightarrow> x_reg (isr_save u) RAX = w \<Longrightarrow> isr_common e u k = isr_serve e w (isr_save u) k"
  by (simp add: isr_common_def isr_serve_def Let_def map_conv_bind_option comp_def)

lemma x86_interrupt_enters:
  assumes len: "length idt = 256" and v: "v \<in> set isr_vectors" and inj: "inj_on (xe_isr e) (set isr_vectors)"
    and err: "isr_errcode v = (err \<noteq> None)" and w: "(case err of None \<Rightarrow> 0 | Some w \<Rightarrow> w) = w"
  shows "\<exists>t. (\<forall>i < 23. x_mem t (x_rsp t + 8 * of_nat i) = isr_slots s [of_nat v, w] ! i) \<and>
    x86_interrupt e (fst (idt_init (xe_isr e) base idt)) v err s k = isr_serve e w t (k\<lparr>xi_flags := x_flags s AND NOT 0x14300\<rparr>)"
proof -
  let ?g = "fst (idt_init (xe_isr e) base idt) ! v"
  let ?W = "[ucast (x_ss s), x_rsp s, x_flags s, ucast (x_cs s), x_rip s] @ (case err of None \<Rightarrow> [] | Some e \<Rightarrow> [e])"
  let ?s = "fold x86_push ?W (s\<lparr>x_rsp := isr_top e v s\<rparr>)"
  let ?d = "?s\<lparr>x_rip := xe_isr e v, x_cs := GDT_KERNEL_CODE, x_flags := x_flags s AND NOT 0x14300\<rparr>"
  note g = idt_init_gate[OF len v, of "xe_isr e" base]
  have "gate_offset ?g = xe_isr e v" using gate_offset_gate[of "xe_isr e v"] unfolding g by (simp add: gate_offset_def)
  moreover have "ig_type_attr ?g AND 0x9F = 0x8E" "ig_selector ?g = GDT_KERNEL_CODE" "ig_ist ?g = (if v \<in> {2, 8, 18} then 1 else 0)"
    unfolding g by (simp_all add: gate_def IDT_TYPE_INTERRUPT_def IDT_TYPE_INTERRUPT3_def)
  ultimately have d: "x86_deliver (fst (idt_init (xe_isr e) base idt)) (xe_ist e) v err s = Some ?d"
    by (simp add: x86_deliver_def Let_def isr_top_def)
  have find: "find (\<lambda>u. xe_isr e u = xe_isr e v) isr_vectors = Some v"
  proof -
    have "distinct isr_vectors" by (simp add: isr_vectors_def)
    obtain i where i: "i < length isr_vectors" "isr_vectors ! i = v" using v by (auto simp: in_set_conv_nth)
    have "xe_isr e (isr_vectors ! j) \<noteq> xe_isr e v" if "j < i" for j
    proof
      assume "xe_isr e (isr_vectors ! j) = xe_isr e v"
      then have "isr_vectors ! j = isr_vectors ! i" using inj v i that by (auto dest: inj_onD)
      then show False using nth_eq_iff_index_eq[OF \<open>distinct isr_vectors\<close>, of j i] i that less_trans[OF that i(1)] by simp
    qed
    then show ?thesis using i by (auto simp: find_Some_iff)
  qed
  note t = isr_entered[where s = s and tp = "isr_top e v s" and r = "xe_isr e v" and c = GDT_KERNEL_CODE and f = "x_flags s AND NOT 0x14300", OF err refl refl]
  let ?t = "isr_save (isr_stub v ?d)"
  have "x86_interrupt e (fst (idt_init (xe_isr e) base idt)) v err s k = isr_common e (isr_stub v ?d) (k\<lparr>xi_flags := x_flags s AND NOT 0x14300\<rparr>)"
    unfolding x86_interrupt_def d by (simp add: find)
  also have "\<dots> = isr_serve e w ?t (k\<lparr>xi_flags := x_flags s AND NOT 0x14300\<rparr>)"
    by (rule isr_common_serve[OF t(2) t(3)[unfolded w]])
  finally show ?thesis using t(1) unfolding w by blast
qed

section \<open>The report\<close>

text \<open>A piece of code that prints \<open>txt\<close> and comes back.\<close>

definition prints :: "pio_hw \<Rightarrow> (com \<Rightarrow> com option) \<Rightarrow> u8 list \<Rightarrow> bool" where
  "prints hwc f txt \<longleftrightarrow> (\<forall>c. com_ready hwc c \<longrightarrow> (\<exists>c'. f c = Some c' \<and> com_sent c' = com_sent c @ txt \<and> com_ready hwc c'))"

lemma prints_bind: "prints hwc f t \<Longrightarrow> prints hwc g u \<Longrightarrow> prints hwc (\<lambda>c. Option.bind (f c) g) (t @ u)"
  unfolding prints_def by fastforce

lemma prints_some: "prints hwc Some []"
  by (simp add: prints_def)

lemma prints_puts: "prints hwc (xputs hwc s) (crlf (map of_char s))"
  using com.puts_out by (auto simp: prints_def xputs_def)

lemma prints_line: "prints hwc (xline hwc) [13, 10]"
  unfolding prints_def xline_def using com.puts_out[of hwc _ "[10]"] by fastforce

definition hex_number :: "u64 \<Rightarrow> u8 list" where
  "hex_number v = map of_char ''0x'' @ hex_text 16 (unat v)"

lemma prints_hex: "prints hwc (com_puthex hwc v) (hex_number v)"
  using com_puthex_ok by (auto simp: prints_def hex_number_def)

lemma prints_if: "(P \<Longrightarrow> prints hwc f t) \<Longrightarrow> (\<not> P \<Longrightarrow> prints hwc g u) \<Longrightarrow> prints hwc (\<lambda>c. if P then f c else g c) (if P then t else u)"
  by simp

definition field_text :: "string \<Rightarrow> u64 \<Rightarrow> u8 list" where
  "field_text name v = crlf (map of_char name) @ hex_number v"

definition report_text :: "u64 \<Rightarrow> interrupt_frame \<Rightarrow> u8 list" where
  "report_text cr2 f = (let n = ucast (fr_int_no f) :: u32 in
     [13, 10] @ crlf (map of_char ''!!! EXCEPTION: '') @ crlf (map of_char (if n < 32 then exception_names ! unat n else ''Unknown'')) @
     field_text '' ('' (ucast n) @ crlf (map of_char '')'') @ [13, 10] @
     field_text ''Error Code: '' (fr_error_code f) @ [13, 10] @
     field_text ''RIP: '' (fr_rip f) @ field_text ''  RSP: '' (fr_rsp f) @ [13, 10] @
     field_text ''RAX: '' (fr_rax f) @ field_text ''  RBX: '' (fr_rbx f) @ [13, 10] @
     field_text ''RCX: '' (fr_rcx f) @ field_text ''  RDX: '' (fr_rdx f) @ [13, 10] @
     (if n = 14 then field_text ''CR2 (fault address): '' cr2 @ [13, 10] else []) @
     crlf (map of_char ''System halted.'') @ [13, 10])"

lemma exception_report_prints: "prints hwc (exception_report hwc cr2 f) (report_text cr2 f)"
  unfolding exception_report_def report_text_def Let_def field_text_def append_assoc
  by (intro prints_bind prints_puts prints_line prints_hex prints_if prints_some)

section \<open>What interrupts come to\<close>

text \<open>C26: No interrupt of a device is ever served. The common stub looks for the vector where the error code is, which is 0
  for every vector without one: whatever the handler table holds, an interrupt with such a vector, of those that have a gate (0 to
  47 and 255), is taken for an exception, reported with the interrupted \<open>rax\<close> as its number and the registers shifted by one
  place, and the kernel halts.\<close>

theorem x86_interrupt_halts:
  assumes "length idt = 256" and "v \<in> set isr_vectors" and "\<not> isr_errcode v" and "inj_on (xe_isr e) (set isr_vectors)"
    and "com_ready (xe_com e) (xi_com k)"
  shows "\<exists>c f. x86_interrupt e (fst (idt_init (xe_isr e) base idt)) v None s k =
      Some (Halted (k\<lparr>xi_flags := x_flags s AND NOT 0x14300, xi_com := c\<rparr>)) \<and>
    com_sent c = com_sent (xi_com k) @ report_text (xe_cr2 e) f \<and>
    fr_int_no f = x_reg s RAX \<and> fr_error_code f = of_nat v \<and> fr_rip f = 0 \<and> fr_rsp f = x_flags s \<and>
    fr_rax f = x_reg s RBX \<and> fr_rbx f = x_reg s RCX \<and> fr_rcx f = x_reg s RDX \<and> fr_rdx f = x_reg s RSI"
proof -
  have "isr_errcode v = ((None :: u64 option) \<noteq> None)" using assms(3) by simp
  from x86_interrupt_enters[OF assms(1,2,4) this, where w = 0 and base = base and s = s and k = k]
  obtain t where t: "\<forall>i < 23. x_mem t (x_rsp t + 8 * of_nat i) = isr_slots s [of_nat v, 0] ! i"
    and run: "x86_interrupt e (fst (idt_init (xe_isr e) base idt)) v None s k = isr_serve e 0 t (k\<lparr>xi_flags := x_flags s AND NOT 0x14300\<rparr>)"
    by auto
  obtain c where "exception_report (xe_com e) (xe_cr2 e) (frame_at (x_mem t) (x_rsp t)) (xi_com k) = Some c"
      "com_sent c = com_sent (xi_com k) @ report_text (xe_cr2 e) (frame_at (x_mem t) (x_rsp t))"
    using exception_report_prints assms(5) unfolding prints_def by blast
  moreover have "frame_at (x_mem t) (x_rsp t) = \<lparr>fr_r15 = set_ax (x_ds s) (x_reg s RAX), fr_r14 = x_reg s R15, fr_r13 = x_reg s R14, fr_r12 = x_reg s R13,
      fr_r11 = x_reg s R12, fr_r10 = x_reg s R11, fr_r9 = x_reg s R10, fr_r8 = x_reg s R9, fr_rbp = x_reg s R8, fr_rdi = x_reg s RBP,
      fr_rsi = x_reg s RDI, fr_rdx = x_reg s RSI, fr_rcx = x_reg s RDX, fr_rbx = x_reg s RCX, fr_rax = x_reg s RBX, fr_int_no = x_reg s RAX,
      fr_error_code = of_nat v, fr_rip = 0, fr_cs = x_rip s, fr_rflags = ucast (x_cs s), fr_rsp = x_flags s, fr_ss = x_rsp s\<rparr>"
    unfolding isr_frame[OF t] by (simp add: isr_slots_def isr_saved_def)
  ultimately show ?thesis using run
    by (intro exI[of _ c] exI[of _ "frame_at (x_mem t) (x_rsp t)"]) (simp add: isr_serve_def Let_def)
qed

text \<open>C27: An exception with an error code of 32 or more does not stop the kernel: it is served like an interrupt whose number is the
  interrupted \<open>rax\<close>. When the handler returns, every register, the flags and the stack are those of the interrupted code, which
  goes on at the instruction that raised the exception; only \<open>es\<close> is set to \<open>ds\<close>. This holds for any handler that keeps the
  stack above it.\<close>

theorem x86_error_code_resumes:
  assumes "length idt = 256" and "v \<in> set isr_vectors" and "isr_errcode v" and "inj_on (xe_isr e) (set isr_vectors)"
    and "32 \<le> sint w"
    and "\<forall>t. x_rsp (xe_cc e t) = x_rsp t \<and> (\<forall>i < 23. x_mem (xe_cc e t) (x_rsp t + 8 * of_nat i) = x_mem t (x_rsp t + 8 * of_nat i))"
  shows "\<exists>m f. fr_int_no f = x_reg s RAX \<and> fr_error_code f = of_nat v \<and> fr_rip f = w \<and>
    x86_interrupt e (fst (idt_init (xe_isr e) base idt)) v (Some w) s k =
      map_option (Resumed (s\<lparr>x_mem := m, x_es := x_ds s\<rparr>))
        (x86_irq_handler (xe_apic e) (xe_code e) f (k\<lparr>xi_flags := x_flags s AND NOT 0x14300\<rparr>))"
proof -
  have "isr_errcode v = (Some w \<noteq> None)" using assms(3) by simp
  from x86_interrupt_enters[OF assms(1,2,4) this, where w = w and base = base and s = s and k = k]
  obtain t where t: "\<forall>i < 23. x_mem t (x_rsp t + 8 * of_nat i) = isr_slots s [of_nat v, w] ! i"
    and run: "x86_interrupt e (fst (idt_init (xe_isr e) base idt)) v (Some w) s k = isr_serve e w t (k\<lparr>xi_flags := x_flags s AND NOT 0x14300\<rparr>)"
    by auto
  have "\<forall>i < 23. x_mem (xe_cc e t) (x_rsp (xe_cc e t) + 8 * of_nat i) = isr_slots s [of_nat v, w] ! i"
    using t assms(6)[rule_format, of t] by simp
  note left = isr_left[OF this]
  have "fr_int_no (frame_at (x_mem t) (x_rsp t)) = x_reg s RAX \<and> fr_error_code (frame_at (x_mem t) (x_rsp t)) = of_nat v \<and>
      fr_rip (frame_at (x_mem t) (x_rsp t)) = w"
    unfolding isr_frame[OF t] by (simp add: isr_slots_def isr_saved_def)
  then show ?thesis using run left assms(5)
    by (intro exI[of _ "x_mem (xe_cc e t)"] exI[of _ "frame_at (x_mem t) (x_rsp t)"]) (simp add: isr_serve_def Let_def)
qed

text \<open>An example: the entry points at the numbers of their vectors, a port that is always ready, a handler table with one handler.\<close>

definition x86_ex :: "nat x86_env" where
  "x86_ex = \<lparr>xe_isr = of_nat, xe_ist = (\<lambda>_. 4096), xe_cc = (\<lambda>t. t), xe_com = (\<lambda>_ _. 0x20), xe_apic = (\<lambda>_ _. 0),
     xe_code = (\<lambda>h irq arg s. Some (s\<lparr>xi_app := xi_app s + 1\<rparr>)), xe_cr2 = 0\<rparr>"

definition x86_ex_kern :: "nat xirq" where
  "x86_ex_kern = \<lparr>xi_table = (\<lambda>_. \<lparr>ve_handler = Some 1000, ve_arg = None\<rparr>), xi_lock = \<lparr>xl_lock = 0, xl_irq_flags = 0\<rparr>, xi_nest = 0,
     xi_ticks = 0, xi_timer_ticks = 0, xi_timer_frequency = 0, xi_flags = 0x202,
     xi_apic = \<lparr>ap_lapic = 0xFEE00000, ap_ioapic = 0xFEC00000, ap_msr = 0x900, ap_io = [], ap_ticks_per_ms = 0\<rparr>,
     xi_com = \<lparr>cm_port = 0x3F8, cm_io = []\<rparr>, xi_app = 0\<rparr>"

definition x86_ex_state :: "u64 \<Rightarrow> x86" where
  "x86_ex_state a = \<lparr>x_reg = (\<lambda>r. if r = RAX then a else 7), x_rsp = 0x8000, x_mem = (\<lambda>_. 0), x_ds = 0x10, x_es = 0x10, x_ss = 0x10,
     x_cs = 8, x_rip = 0x100000, x_flags = 0x202\<rparr>"

lemma x86_ex_vectors: "inj_on (xe_isr x86_ex) (set isr_vectors)"
proof (rule inj_onI)
  fix a b :: nat
  assume "a \<in> set isr_vectors" "b \<in> set isr_vectors" and eq: "xe_isr x86_ex a = xe_isr x86_ex b"
  then have "a < 2 ^ 64" "b < 2 ^ 64" by (auto simp: isr_vectors_def)
  then show "a = b" using arg_cong[where f = unat, OF eq] by (simp add: x86_ex_def unat_of_nat)
qed

theorem x86_interrupt_halts_witness:
  "\<exists>c f. x86_interrupt x86_ex (fst (idt_init of_nat 0x9000 (replicate 256 (gate 0 0 0)))) 32 None (x86_ex_state 5) x86_ex_kern =
      Some (Halted (x86_ex_kern\<lparr>xi_flags := 2, xi_com := c\<rparr>)) \<and>
    com_sent c = report_text 0 f \<and> fr_int_no f = 5 \<and> fr_error_code f = 32"
proof -
  have r: "com_ready (xe_com x86_ex) (xi_com x86_ex_kern)" using com_ready_demo by (simp add: x86_ex_def)
  have v: "32 \<in> set isr_vectors" "\<not> isr_errcode 32" by (simp_all add: isr_vectors_def isr_errcode_def)
  from x86_interrupt_halts[OF _ v x86_ex_vectors r, of "replicate 256 (gate 0 0 0)" "0x9000" "x86_ex_state 5"] show ?thesis
    by (fastforce simp: x86_ex_state_def x86_ex_def x86_ex_kern_def com_sent_def)
qed

theorem x86_error_code_resumes_witness:
  "\<exists>m k. x86_interrupt x86_ex (fst (idt_init of_nat 0x9000 (replicate 256 (gate 0 0 0)))) 13 (Some 0x29) (x86_ex_state 32) x86_ex_kern =
      Some (Resumed (x86_ex_state 32\<lparr>x_mem := m\<rparr>) k) \<and> xi_app k = 1"
proof -
  have v: "13 \<in> set isr_vectors" "isr_errcode 13" by (simp_all add: isr_vectors_def isr_errcode_def)
  obtain m f where f: "fr_int_no f = 32"
    and run: "x86_interrupt x86_ex (fst (idt_init of_nat 0x9000 (replicate 256 (gate 0 0 0)))) 13 (Some 0x29) (x86_ex_state 32) x86_ex_kern =
      map_option (Resumed (x86_ex_state 32\<lparr>x_mem := m\<rparr>)) (x86_irq_handler (xe_apic x86_ex) (xe_code x86_ex) f (x86_ex_kern\<lparr>xi_flags := 2\<rparr>))"
    using x86_error_code_resumes[OF _ v x86_ex_vectors, of "replicate 256 (gate 0 0 0)" "0x29" "x86_ex_state 32" "0x9000" x86_ex_kern]
    by (auto simp: x86_ex_def x86_ex_state_def)
  show ?thesis unfolding run
    by (simp add: x86_irq_handler_def f x86_ex_def x86_ex_kern_def X86_MAX_IRQS_def Let_def) blast
qed

section \<open>The handler table\<close>

text \<open>A handler is run for the vector it is registered at, with the number of the interrupt above 32, and the end of the interrupt is
  signalled after it; the lock of the table leaves the interrupt flag as it was.\<close>

lemma x86_registered_serves:
  assumes "irq < 256" and "xl_lock (xi_lock s) = 0" and "ucast (fr_int_no f) = irq"
  shows "\<exists>s1. x86_irq_register irq (Some h) arg s = Some (STATUS_OK, s1) \<and> xi_flags s1 = xi_flags s \<and> xl_lock (xi_lock s1) = 0 \<and>
    x86_irq_handler hwa code f s1 =
      map_option (\<lambda>s. s\<lparr>xi_apic := lapic_eoi hwa (xi_apic s), xi_nest := xi_nest s - 1\<rparr>) (code h (irq - 32) arg (s1\<lparr>xi_nest := xi_nest s1 + 1\<rparr>))"
  using assms by (simp add: x86_irq_register_def x86_spin_lock_irq_def x86_spin_unlock_irq_def x86_irq_save_def x86_irq_handler_def
      X86_MAX_IRQS_def apic_send_eoi_def Let_def map_conv_bind_option comp_def)

text \<open>The timer driver takes the vector of the tick counter: after both initialisations the interrupt of the timer runs the driver's handler only.\<close>

lemma timer_driver_takes_vector:
  assumes "xl_lock (xi_lock s) = 0" and "interrupt_init tick s = Some s1" and "apic_timer_driver_init hwa h freq s1 = Some (r, s2)"
  shows "xi_table s2 32 = \<lparr>ve_handler = Some h, ve_arg = None\<rparr>"
  using assms by (auto simp: interrupt_init_def apic_timer_driver_init_def x86_irq_register_def x86_spin_lock_irq_def x86_spin_unlock_irq_def
      x86_irq_save_def X86_MAX_IRQS_def Let_def bind_eq_Some_conv)

end
