(* ===== verification/X86_Start_Props.thy ===== *)
theory X86_Start_Props
  imports X86_Main X86_Irq_Props Paging_Props
begin

text \<open>
  How far the start of the x86 kernel gets: the accesses through the tables the boot code leaves, what the detection of the
  processor stores where, and the information of the boot loader.
\<close>

section \<open>Addresses under the tables of the boot code\<close>

definition boot_region :: "u64 \<Rightarrow> bool" where
  "boot_region va \<longleftrightarrow> va < 0x80000000 \<or> KERNEL_VIRT_BASE \<le> va \<and> va - KERNEL_VIRT_BASE < 0x80000000"

lemma boot_walks:
  assumes "boot_tables s"
  shows "x86_walk va s = (if boot_region va then Some (va AND 0x7FFFFFFF) else None)"
proof -
  let ?in = "(PML4_INDEX va = 0 \<or> PML4_INDEX va = 256) \<and> (PDPT_INDEX va = 0 \<or> PDPT_INDEX va = 1)"
  have "x86_walk va s = (if canonical va \<and> ?in then Some (va AND 0x7FFFFFFF) else None)"
  proof (cases ?in)
    case True
    note b = boot_block[OF boot_phys(1,2)[OF conjunct2[OF True]]]
    show ?thesis using boot_walk[OF assms, of va] True b boot_get_phys[OF assms, of va]
      by (auto simp: x86_walk_def Let_def canonical_def)
  next
    case False
    then show ?thesis using boot_walk(1-3)[OF assms, of va] by (auto simp: x86_walk_def Let_def)
  qed
  moreover have "canonical va \<and> ?in \<longleftrightarrow> boot_region va"
  proof (cases "va < 0x0000800000000000")
    case True
    then have "\<not> KERNEL_VIRT_BASE \<le> va" by (simp add: KERNEL_VIRT_BASE_def word_less_nat_alt word_le_nat_alt)
    then show ?thesis using boot_indices_low(1)[OF True] True by (simp add: boot_region_def canonical_def)
  next
    case False
    then have "\<not> va < 0x80000000" by (simp add: word_less_nat_alt)
    then show ?thesis using boot_indices_high(1)[of va] False by (auto simp: boot_region_def canonical_def KERNEL_VIRT_BASE_def)
  qed
  ultimately show ?thesis by simp
qed

lemma boot_region_32: "boot_region (ucast (w :: u32)) \<longleftrightarrow> w < 0x80000000"
proof -
  have l: "unat w < 2 ^ 32" using unsigned_less[where w = w and ?'a = nat] by simp
  then have u: "unat (ucast w :: u64) = unat w" by (simp add: unsigned_ucast_eq take_bit_nat_eq_self_iff)
  from l have "\<not> KERNEL_VIRT_BASE \<le> ucast w" using u by (simp add: KERNEL_VIRT_BASE_def word_le_nat_alt)
  then show ?thesis using u by (simp add: boot_region_def word_less_nat_alt)
qed

section \<open>What the start leaves alone\<close>

definition mem_only :: "board86 \<Rightarrow> board86 \<Rightarrow> bool" where
  "mem_only b b' \<longleftrightarrow> (\<exists>m. b' = b\<lparr>b8_mem := m\<rparr>)"

lemma mem_only_refl [simp]: "mem_only b b"
  by (cases b) (auto simp: mem_only_def)

lemma mem_only_trans: "mem_only b c \<Longrightarrow> mem_only c d \<Longrightarrow> mem_only b d"
  by (auto simp: mem_only_def)

text \<open>\<open>keeps f\<close>: when \<open>f\<close> comes back it has changed memory only.\<close>

definition keeps :: "(board86 \<Rightarrow> board86 option) \<Rightarrow> bool" where
  "keeps f \<longleftrightarrow> (\<forall>b b'. f b = Some b' \<longrightarrow> mem_only b b')"

lemma keeps_bind: "keeps f \<Longrightarrow> keeps g \<Longrightarrow> keeps (\<lambda>b. Option.bind (f b) g)"
  unfolding keeps_def bind_eq_Some_conv using mem_only_trans by blast

lemma keeps_read: "(\<And>v. keeps (g v)) \<Longrightarrow> keeps (\<lambda>b. Option.bind (r b) (\<lambda>v. g v b))"
  unfolding keeps_def by (auto simp: bind_eq_Some_conv)

lemma keeps_if: "keeps f \<Longrightarrow> keeps g \<Longrightarrow> keeps (\<lambda>b. if P then f b else g b)"
  by (cases P) simp_all

lemma keeps_some: "keeps Some"
  by (simp add: keeps_def)

lemma keeps_st8: "keeps (st8 a v)"
  by (auto simp: keeps_def st8_def mem_only_def)

lemma keeps_st32: "keeps (st32 a v)"
  unfolding st32_def by (intro keeps_bind keeps_st8)

lemma keeps_st64: "keeps (st64 a v)"
  unfolding st64_def by (intro keeps_bind keeps_st32)

lemma keeps_cpuid: "keeps (cpuid_call cpuid leaf a1 a2 a3 a4)" "keeps (cpuid_vars cpuid leaf f)"
proof -
  show k: "keeps (cpuid_call cpuid leaf a1 a2 a3 a4)" for a1 a2 a3 a4
    unfolding cpuid_call_def Let_def split_beta by (intro keeps_bind keeps_st32)
  show "keeps (cpuid_vars cpuid leaf f)" unfolding cpuid_vars_def by (rule k)
qed

lemma keeps_copy32: "keeps (copy32 d a)"
  unfolding copy32_def by (intro keeps_read keeps_st32)

lemma keeps_str_copy: "keeps (str_copy d cs)"
proof (induction cs arbitrary: d)
  case (Cons c cs)
  have "str_copy d (c # cs) = (\<lambda>b. Option.bind (st8 d c b) (str_copy (d + 1) cs))" by (simp add: fun_eq_iff)
  then show ?case using keeps_bind[OF keeps_st8 Cons] by simp
qed (simp add: keeps_def)

lemma keeps_move_string: "keeps (move_string d p)"
proof -
  have "move_string d p b = Some b' \<Longrightarrow> mem_only b b'" for b b'
  proof (rule move_string.raw_induct[where P = "\<lambda>d p b b'. mem_only b b'"])
    fix rec d p b b'
    assume IH: "\<And>d p b b'. rec d p b = Some b' \<Longrightarrow> mem_only b b'"
      and r: "Option.bind (ld8 p b) (\<lambda>c. if c \<noteq> 0 then Option.bind (st8 d c b) (rec (d + 1) (p + 1)) else st8 d 0 b) = Some b'"
    have st: "st8 d c b = Some b1 \<Longrightarrow> mem_only b b1" for c b1 using keeps_st8[of d c] by (simp add: keeps_def)
    from r show "mem_only b b'" by (auto simp: bind_eq_Some_conv split: if_splits dest!: st IH intro: mem_only_trans)
  qed
  then show ?thesis by (simp add: keeps_def)
qed

lemma keeps_trim: "keeps (trim_spaces p)"
  unfolding trim_spaces_def by (intro keeps_read keeps_if keeps_move_string keeps_some)

lemmas keeps_intros = keeps_bind keeps_read keeps_if keeps_some keeps_st8 keeps_st32 keeps_st64 keeps_cpuid keeps_copy32 keeps_str_copy keeps_trim

lemma keeps_detect: "keeps (cpu_detect cpuid f i)"
proof -
  have "keeps (cpu_vendor cpuid f i)" unfolding cpu_vendor_def by (intro keeps_intros)
  moreover have "keeps (cpu_version cpuid f i)" unfolding cpu_version_def by (intro keeps_intros)
  moreover have "keeps (cpu_extended cpuid f i)" unfolding cpu_extended_def by (intro keeps_intros)
  moreover have "keeps (cpu_brand cpuid f i)" unfolding cpu_brand_def Let_def by (intro keeps_intros)
  moreover have "keeps (cpu_tsc cpuid f i)" unfolding cpu_tsc_def by (intro keeps_intros)
  ultimately show ?thesis unfolding cpu_detect_def by (intro keeps_bind)
qed

section \<open>The first access to the interrupt controller\<close>

lemma apic_base_bits: "(m OR 0x800) AND 0xFFFFFF000 = (m :: u64) AND 0xFFFFFF000"
  by (simp add: bit.conj_disj_distrib2)

lemma apic_init_first:
  assumes "ap_msr a AND 0xFFFFFF000 = 0xFEE00000"
  shows "\<exists>rest. ap_io (apic_init hwa a) = rest @ [Wr 0xFEE000F0 0x1FF] @ ap_io a"
  using assms
  by (auto simp: apic_init_def Let_def lapic_write_def lapic_eoi_def ap_wr_def ap_rd_def lapic_at_def apic_base_bits
      LAPIC_SVR_def LAPIC_SVR_ENABLE_def APIC_SPURIOUS_VECTOR_def)

lemma apic_step_faults:
  assumes "ap_msr (b8_apic b) AND 0xFFFFFF000 = 0xFEE00000" and "boot_tables (b8_paging b)"
  shows "\<exists>b'. apic_step (apic_init hwa) b = Page_fault 0xFEE000F0 b' \<and> b8_idt b' = b8_idt b \<and> b8_com b' = b8_com b \<and> b8_mem b' = b8_mem b \<and>
    ap_io (b8_apic b') = ap_io (b8_apic b)"
proof -
  obtain rest where r: "ap_io (apic_init hwa (b8_apic b)) = rest @ [Wr 0xFEE000F0 0x1FF] @ ap_io (b8_apic b)"
    using apic_init_first[OF assms(1)] by blast
  have "x86_walk 0xFEE000F0 (b8_paging b) = None"
    by (simp add: boot_walks[OF assms(2)] boot_region_def KERNEL_VIRT_BASE_def word_less_nat_alt word_le_nat_alt)
  then show ?thesis by (simp add: apic_step_def Let_def r)
qed

section \<open>Printing\<close>

lemma print86_Some: "print86 f b = Some b' \<Longrightarrow> \<exists>c. b' = b\<lparr>b8_com := c\<rparr>"
  by (auto simp: print86_def)

lemma say86_Some: "say86 hwc s b = Some b' \<Longrightarrow> \<exists>c. b' = b\<lparr>b8_com := c\<rparr>"
  unfolding say86_def by (rule print86_Some)

text \<open>What every part of the early start leaves as it was.\<close>

definition hardware :: "board86 \<Rightarrow> paging \<times> apic \<times> idt_entry list" where
  "hardware b = (b8_paging b, b8_apic b, b8_idt b)"

lemma hardware_simps:
  "print86 f b = Some b' \<Longrightarrow> hardware b' = hardware b"
  "say86 hwc t b = Some b' \<Longrightarrow> hardware b' = hardware b"
  "cpu_detect cpuid v i b = Some b' \<Longrightarrow> hardware b' = hardware b"
  "cpuid_vars cpuid leaf v b = Some b' \<Longrightarrow> hardware b' = hardware b"
proof -
  show "print86 f b = Some b' \<Longrightarrow> hardware b' = hardware b" by (auto simp: hardware_def dest!: print86_Some)
  show "say86 hwc t b = Some b' \<Longrightarrow> hardware b' = hardware b" by (auto simp: hardware_def dest!: say86_Some)
  have "mem_only b b' \<Longrightarrow> hardware b' = hardware b" by (auto simp: mem_only_def hardware_def)
  then show "cpu_detect cpuid v i b = Some b' \<Longrightarrow> hardware b' = hardware b"
    "cpuid_vars cpuid leaf v b = Some b' \<Longrightarrow> hardware b' = hardware b"
    using keeps_detect[of cpuid v i] keeps_cpuid(2)[of cpuid leaf v] by (simp_all add: keeps_def)
qed

lemma kernel_early_hardware:
  assumes "kernel_early e magic info b = Some b'"
  shows "hardware b' = (mmu_init (\<lambda>leaf. snd (snd (snd (k8_cpuid e leaf)))) (b8_paging b), b8_apic b,
    fst (idt_init (k8_isr e) (k8_idt e) (b8_idt b)))"
  using assms unfolding kernel_early_def Let_def split_beta mmu_step_def bind_eq_Some_conv
  by (elim exE conjE) (auto dest!: hardware_simps simp: hardware_def)

lemma kernel_main86_fault:
  assumes b: "boot_tables (b8_paging b)" and a: "ap_msr (b8_apic b) AND 0xFFFFFF000 = 0xFEE00000"
    and r: "kernel_main86 e magic info b = Some r"
  shows "\<exists>b'. r = Page_fault 0xFEE000F0 b' \<and> ap_io (b8_apic b') = ap_io (b8_apic b) \<and>
    b8_idt b' = fst (idt_init (k8_isr e) (k8_idt e) (b8_idt b))"
proof -
  obtain b1 where early: "kernel_early e magic info b = Some b1"
    and rest: "(case apic_step (apic_init (k8_apic e)) b1 of Page_fault va b \<Rightarrow> Some (Page_fault va b)
      | Runs b \<Rightarrow> (case apic_step (ioapic_init (k8_apic e)) b of Page_fault va b \<Rightarrow> Some (Page_fault va b) | Runs b \<Rightarrow> kernel_timer e b)) = Some r"
    using r unfolding kernel_main86_def bind_eq_Some_conv by blast
  note h = kernel_early_hardware[OF early]
  have "boot_tables (b8_paging b1)" "ap_msr (b8_apic b1) AND 0xFFFFFF000 = 0xFEE00000" using boot_init[OF b] a h by (simp_all add: hardware_def)
  from apic_step_faults[OF this(2,1), of "k8_apic e"] show ?thesis using rest h by (auto simp: hardware_def)
qed

text \<open>An exception with an error code below 32 is reported and halts.\<close>

lemma x86_error_halts:
  assumes "length idt = 256" and "v \<in> set isr_vectors" and "isr_errcode v" and "inj_on (xe_isr e) (set isr_vectors)"
    and "sint w < 32" and "com_ready (xe_com e) (xi_com k)"
  shows "\<exists>c. x86_interrupt e (fst (idt_init (xe_isr e) base idt)) v (Some w) s k =
      Some (Halted (k\<lparr>xi_flags := x_flags s AND NOT 0x14300, xi_com := c\<rparr>))"
proof -
  have "isr_errcode v = (Some w \<noteq> None)" using assms(3) by simp
  from x86_interrupt_enters[OF assms(1,2,4) this, where w = w and base = base and s = s and k = k]
  obtain t where run: "x86_interrupt e (fst (idt_init (xe_isr e) base idt)) v (Some w) s k = isr_serve e w t (k\<lparr>xi_flags := x_flags s AND NOT 0x14300\<rparr>)"
    by auto
  obtain c where "exception_report (xe_com e) (xe_cr2 e) (frame_at (x_mem t) (x_rsp t)) (xi_com k) = Some c"
    using exception_report_prints assms(6) unfolding prints_def by blast
  then show ?thesis using run assms(5) by (auto simp: isr_serve_def Let_def)
qed

section \<open>The detection of the processor\<close>

text \<open>Four bytes at \<open>p\<close> and four at \<open>q\<close> are different memory.\<close>

definition apart32 :: "u64 \<Rightarrow> u64 \<Rightarrow> bool" where
  "apart32 p q \<longleftrightarrow> (\<forall>i < 4. \<forall>j < 4. (p + of_nat i) AND 0x7FFFFFFF \<noteq> (q + of_nat j) AND (0x7FFFFFFF :: u64))"

lemma ld8_st8:
  assumes "boot_tables (b8_paging b)" and "st8 p v b = Some b'" and "p AND 0x7FFFFFFF \<noteq> q AND 0x7FFFFFFF"
  shows "ld8 q b' = ld8 q b"
  using assms by (auto simp: st8_def ld8_def boot_walks split: if_splits)

lemma apart32_at:
  assumes "apart32 p q" and "i < 4" and "j < 4"
  shows "(p + of_nat i) AND 0x7FFFFFFF \<noteq> (q + of_nat j) AND (0x7FFFFFFF :: u64)"
  using assms by (simp add: apart32_def)

lemma st8_paging: "st8 p v b = Some b' \<Longrightarrow> b8_paging b' = b8_paging b"
  by (auto simp: st8_def)

lemma ld32_cong:
  assumes "\<And>j. j < 4 \<Longrightarrow> ld8 (q + of_nat j) b' = ld8 (q + of_nat j) b"
  shows "ld32 q b' = ld32 q b"
  using assms[of 0] assms[of 1] assms[of 2] assms[of 3] by (simp add: ld32_def)

lemma ld32_st8:
  assumes "boot_tables (b8_paging b)" and "st8 (p + of_nat i) v b = Some b'" and "apart32 p q" and "i < 4"
  shows "ld32 q b' = ld32 q b"
  by (rule ld32_cong) (rule ld8_st8[OF assms(1,2)], rule apart32_at[OF assms(3,4)])

lemma ld32_st32:
  assumes b: "boot_tables (b8_paging b)" and st: "st32 p v b = Some b'" and ap: "apart32 p q"
  shows "ld32 q b' = ld32 q b \<and> b8_paging b' = b8_paging b"
proof -
  obtain b1 b2 b3 where "st8 (p + of_nat 0) (ucast v) b = Some b1" "st8 (p + of_nat 1) (ucast (drop_bit 8 v)) b1 = Some b2"
    "st8 (p + of_nat 2) (ucast (drop_bit 16 v)) b2 = Some b3" "st8 (p + of_nat 3) (ucast (drop_bit 24 v)) b3 = Some b'"
    using st by (auto simp: st32_def bind_eq_Some_conv)
  note s = this
  note pg = st8_paging[OF s(1)] st8_paging[OF s(2)] st8_paging[OF s(3)] st8_paging[OF s(4)]
  show ?thesis using ld32_st8[OF b s(1) ap] ld32_st8[OF _ s(2) ap] ld32_st8[OF _ s(3) ap] ld32_st8[OF _ s(4) ap] pg b by simp
qed

end
