(* ===== verification/X86_Boot_Props.thy ===== *)
theory X86_Boot_Props
  imports X86_Start_Props
begin

text \<open>
  Where the start of the x86 kernel stops: the detection of the processor and the first access to the interrupt
  controller; and what is read of the information of the boot loader.
\<close>

section \<open>The detection of the processor\<close>

lemma phys_step: "unat ((p + of_nat i) AND 0x7FFFFFFF :: u64) = (unat p + i) mod 2 ^ 31"
proof -
  have "unat (p + of_nat i) mod 2 ^ 31 = (unat p + i) mod 2 ^ 64 mod 2 ^ 31"
    by (simp add: unat_word_ariths unat_of_nat mod_simps)
  also have "\<dots> = (unat p + i) mod 2 ^ 31" by (rule mod_mod_cancel) simp
  finally show ?thesis by (simp add: unat_31)
qed

lemma mod_shift: "(a + d) mod m = a mod m \<Longrightarrow> d < m \<Longrightarrow> d = (0 :: nat)"
  using mod_eq_dvd_iff_nat[of a "a + d" m] by (auto dest: nat_dvd_not_less)

lemma phys_neighbours:
  assumes "i < 4" and "j < 4" and "i \<noteq> j"
  shows "(p + of_nat i) AND 0x7FFFFFFF \<noteq> (p + of_nat j) AND (0x7FFFFFFF :: u64)"
proof
  define m where "m = (2 :: nat) ^ 31"
  have m: "3 < m" by (simp add: m_def)
  assume "(p + of_nat i) AND 0x7FFFFFFF = (p + of_nat j) AND (0x7FFFFFFF :: u64)"
  then have e: "(unat p + i) mod m = (unat p + j) mod m" using phys_step[of p i] phys_step[of p j] unfolding m_def by metis
  show False
  proof (cases "i \<le> j")
    case True
    have "(unat p + i + (j - i)) mod m = (unat p + i) mod m" using True e by simp
    moreover have "j - i < m" using assms m by linarith
    ultimately have "j - i = 0" by (rule mod_shift)
    then show False using assms True by simp
  next
    case False
    have "(unat p + j + (i - j)) mod m = (unat p + j) mod m" using False e by simp
    moreover have "i - j < m" using assms m by linarith
    ultimately have "i - j = 0" by (rule mod_shift)
    then show False using assms False by simp
  qed
qed

lemma word_bytes:
  "ucast (ucast v :: u8) OR push_bit 8 (ucast (ucast (drop_bit 8 v) :: u8)) OR push_bit 16 (ucast (ucast (drop_bit 16 v) :: u8)) OR
    push_bit 24 (ucast (ucast (drop_bit 24 v) :: u8)) = (v :: u32)"
proof (rule bit_word_eqI)
  fix n :: nat
  assume "n < LENGTH(32)"
  then have "n < 32" by simp
  then have "n < 8 \<or> 8 \<le> n \<and> n < 16 \<or> 16 \<le> n \<and> n < 24 \<or> 24 \<le> n \<and> n < 32" by arith
  then show "bit (ucast (ucast v :: u8) OR push_bit 8 (ucast (ucast (drop_bit 8 v) :: u8)) OR push_bit 16 (ucast (ucast (drop_bit 16 v) :: u8)) OR
    push_bit 24 (ucast (ucast (drop_bit 24 v) :: u8)) :: u32) n = bit v n"
    by (elim disjE) (auto simp: bit_simps)
qed

lemma ld8_st8_same: "st8 p v b = Some b' \<Longrightarrow> ld8 p b' = Some v"
  by (auto simp: st8_def ld8_def)

lemma ld32_st32_same:
  assumes b: "boot_tables (b8_paging b)" and st: "st32 p v b = Some b'"
  shows "ld32 p b' = Some v"
proof -
  obtain b1 b2 b3 where s: "st8 (p + of_nat 0) (ucast v) b = Some b1" "st8 (p + of_nat 1) (ucast (drop_bit 8 v)) b1 = Some b2"
    "st8 (p + of_nat 2) (ucast (drop_bit 16 v)) b2 = Some b3" "st8 (p + of_nat 3) (ucast (drop_bit 24 v)) b3 = Some b'"
    using st by (auto simp: st32_def bind_eq_Some_conv)
  have pg: "b8_paging b1 = b8_paging b" "b8_paging b2 = b8_paging b" "b8_paging b3 = b8_paging b"
    using st8_paging[OF s(1)] st8_paging[OF s(2)] st8_paging[OF s(3)] by simp_all
  note keep = ld8_st8[OF _ s(2)] ld8_st8[OF _ s(3)] ld8_st8[OF _ s(4)]
  have "ld8 (p + of_nat 0) b' = Some (ucast v)"
    using ld8_st8_same[OF s(1)] keep(1)[of "p + of_nat 0"] keep(2)[of "p + of_nat 0"] keep(3)[of "p + of_nat 0"] pg b
      phys_neighbours[of 1 0 p] phys_neighbours[of 2 0 p] phys_neighbours[of 3 0 p] by simp
  moreover have "ld8 (p + of_nat 1) b' = Some (ucast (drop_bit 8 v))"
    using ld8_st8_same[OF s(2)] keep(2)[of "p + of_nat 1"] keep(3)[of "p + of_nat 1"] pg b
      phys_neighbours[of 2 1 p] phys_neighbours[of 3 1 p] by simp
  moreover have "ld8 (p + of_nat 2) b' = Some (ucast (drop_bit 16 v))"
    using ld8_st8_same[OF s(3)] keep(3)[of "p + of_nat 2"] pg b phys_neighbours[of 3 2 p] by simp
  moreover have "ld8 (p + of_nat 3) b' = Some (ucast (drop_bit 24 v))" by (rule ld8_st8_same[OF s(4)])
  ultimately show ?thesis using word_bytes[of v] by (simp add: ld32_def)
qed

text \<open>
  A hypervisor sets bit 31 of \<open>ecx\<close> in leaf 1, and a processor with a pending-break signal bit 31 of \<open>edx\<close>: \<open>cpuid_call\<close> takes
  both values as addresses.
\<close>

lemma st32_paging: "st32 a v b = Some b' \<Longrightarrow> b8_paging b' = b8_paging b"
  using keeps_st32[of a v, unfolded keeps_def mem_only_def] by fastforce

definition high_flags :: "cpuid \<Rightarrow> bool" where
  "high_flags cpuid \<longleftrightarrow> (case cpuid 1 of (eax, ebx, ecx, edx) \<Rightarrow> 0x80000000 \<le> ecx \<or> 0x80000000 \<le> edx)"

lemma cpuid_call_unmapped:
  assumes "boot_tables (b8_paging b)" and "high_flags cpuid"
  shows "cpuid_call cpuid 1 a1 a2 a3 a4 b = None"
proof -
  obtain eax ebx ecx edx where q: "cpuid 1 = (eax, ebx, ecx, edx)" by (metis prod.collapse)
  have hi: "\<not> boot_region (ucast ecx) \<or> \<not> boot_region (ucast edx)" using assms(2) q by (simp add: high_flags_def boot_region_32 not_less)
  have stop: "st32 p v b1 = None" if "boot_tables (b8_paging b1)" "\<not> boot_region p" for p v b1
    using that by (simp add: st32_def st8_def boot_walks)
  show ?thesis
  proof (rule ccontr)
    assume "\<not> ?thesis"
    then obtain b1 b2 b3 where st: "st32 a1 eax b = Some b1" "st32 (ucast edx) ebx b1 = Some b2" "st32 (ucast ecx) ecx b2 = Some b3"
      by (auto simp: cpuid_call_def q bind_eq_Some_conv)
    show False
      using st32_paging[OF st(1)] st32_paging[OF st(2)] stop[of b1 "ucast edx" ebx] stop[of b2 "ucast ecx" ecx] st hi assms(1) by auto
  qed
qed

text \<open>The maximal leaf that \<open>cpu_vendor\<close> is given survives the stores after it.\<close>

definition stray :: "cpuid \<Rightarrow> regs_vars \<Rightarrow> u64 \<Rightarrow> u64 set" where
  "stray cpuid f i = {ucast (snd (snd (snd (cpuid 0)))), ucast (fst (snd (snd (cpuid 0)))), rv_edx f, i, i + 4, i + 8, i + 12}"

lemma cpu_vendor_leaf:
  assumes b: "boot_tables (b8_paging b)" and run: "cpu_vendor cpuid f i b = Some b'"
    and ap: "\<forall>p \<in> stray cpuid f i. apart32 p (rv_eax f)"
  shows "ld32 (rv_eax f) b' = Some (fst (cpuid 0)) \<and> b8_paging b' = b8_paging b"
proof -
  obtain eax ebx ecx edx where q: "cpuid 0 = (eax, ebx, ecx, edx)" by (metis prod.collapse)
  define same where "same c c' \<longleftrightarrow> (boot_tables (b8_paging c) \<longrightarrow> ld32 (rv_eax f) c' = ld32 (rv_eax f) c \<and> b8_paging c' = b8_paging c)" for c c'
  have S: "st32 p v c = Some c' \<Longrightarrow> p \<in> stray cpuid f i \<Longrightarrow> same c c'" for p v c c'
    using ld32_st32 ap unfolding same_def by blast
  have S8: "st8 (i + 12) v c = Some c' \<Longrightarrow> same c c'" for v c c'
    using ld32_st8[of c "i + 12" 0 v c' "rv_eax f"] ap st8_paging[of "i + 12" v c c'] by (simp add: same_def stray_def)
  have trans: "same c d \<Longrightarrow> same d c' \<Longrightarrow> same c c'" for c d c' by (auto simp: same_def)
  obtain b1 b2 b3 b4 b5 b6 b7 v4 v5 v6 where s: "st32 (rv_eax f) eax b = Some b1" "st32 (ucast edx) ebx b1 = Some b2"
      "st32 (ucast ecx) ecx b2 = Some b3" "st32 (rv_edx f) edx b3 = Some b4" "st32 i v4 b4 = Some b5" "st32 (i + 4) v5 b5 = Some b6"
      "st32 (i + 8) v6 b6 = Some b7" "st8 (i + 12) 0 b7 = Some b'"
    using run by (auto simp: cpu_vendor_def cpuid_vars_def cpuid_call_def copy32_def q bind_eq_Some_conv)
  have "same b1 b'"
    by (rule trans[OF S[OF s(2)] trans[OF S[OF s(3)] trans[OF S[OF s(4)] trans[OF S[OF s(5)] trans[OF S[OF s(6)] trans[OF S[OF s(7)] S8[OF s(8)]]]]]]])
      (simp_all add: stray_def q)
  then show ?thesis using ld32_st32_same[OF b s(1)] st32_paging[OF s(1)] b q by (simp add: same_def)
qed

text \<open>The start up to the detection of the processor, and what happens there.\<close>

definition kernel_hello :: "env86 \<Rightarrow> u64 \<Rightarrow> u64 \<Rightarrow> board86 \<Rightarrow> board86 option" where
  "kernel_hello e magic info b = do {
     let hwc = k8_com e;
     b \<leftarrow> print86 (com_init hwc) b;
     b \<leftarrow> print86 (print_banner hwc) b;
     b \<leftarrow> say86 hwc ''[INIT] Starting X86_64 RTOS initialization...'' b;
     b \<leftarrow> print86 (parse_multiboot2_info hwc magic info b) b;
     say86 hwc ''[INIT] Detecting CPU...'' b
   }"

lemma kernel_hello_com: "kernel_hello e magic info b = Some c \<Longrightarrow> c = b\<lparr>b8_com := b8_com c\<rparr>"
  by (auto simp: kernel_hello_def Let_def bind_eq_Some_conv say86_def print86_def)

lemma kernel_main86_detects:
  assumes "\<And>c. kernel_hello e magic info b = Some c \<Longrightarrow> cpu_detect (k8_cpuid e) (k8_detect_vars e) (k8_cpu_info e) c = None"
  shows "kernel_main86 e magic info b = None"
proof (rule ccontr)
  assume "\<not> ?thesis"
  then obtain b1 where "kernel_early e magic info b = Some b1" by (auto simp: kernel_main86_def bind_eq_Some_conv)
  then obtain c1 c2 c3 c4 c5 d where r: "print86 (com_init (k8_com e)) b = Some c1" "print86 (print_banner (k8_com e)) c1 = Some c2"
      "say86 (k8_com e) ''[INIT] Starting X86_64 RTOS initialization...'' c2 = Some c3"
      "print86 (parse_multiboot2_info (k8_com e) magic info c3) c3 = Some c4" "say86 (k8_com e) ''[INIT] Detecting CPU...'' c4 = Some c5"
      "cpu_detect (k8_cpuid e) (k8_detect_vars e) (k8_cpu_info e) c5 = Some d"
    unfolding kernel_early_def Let_def bind_eq_Some_conv by blast
  have "kernel_hello e magic info b = Some c5" using r(1-5) by (simp add: kernel_hello_def)
  then show False using assms r(6) by simp
qed

lemma cpu_detect_stops:
  assumes b: "boot_tables (b8_paging b)" and "fst (cpuid 0) \<noteq> 0" and "high_flags cpuid"
    and ap: "\<forall>p \<in> stray cpuid f i. apart32 p (rv_eax f)" and run: "cpu_vendor cpuid f i b = Some d"
  shows "ld32 (rv_eax f) d = Some (fst (cpuid 0)) \<and> cpuid_vars cpuid 1 f d = None \<and> cpu_detect cpuid f i b = None"
proof -
  have l: "1 \<le> fst (cpuid 0)" using assms(2) by (simp add: word_le_nat_alt Suc_le_eq unat_gt_0)
  have c: "ld32 (rv_eax f) d = Some (fst (cpuid 0))" "cpuid_vars cpuid 1 f d = None"
    using cpu_vendor_leaf[OF b run ap] cpuid_call_unmapped[of d cpuid, OF _ assms(3)] b by (simp_all add: cpuid_vars_def)
  then have "cpu_version cpuid f i d = None" using l by (simp add: cpu_version_def)
  then show ?thesis using c run by (simp add: cpu_detect_def)
qed

lemma apart32I:
  assumes "unat p + 4 \<le> unat q \<or> unat q + 4 \<le> unat p" and "unat p + 4 \<le> 2 ^ 31" and "unat q + 4 \<le> 2 ^ 31"
  shows "apart32 p q"
proof -
  have "(p + of_nat i) AND 0x7FFFFFFF \<noteq> (q + of_nat j) AND (0x7FFFFFFF :: u64)" if "i < 4" "j < 4" for i j
  proof
    assume "(p + of_nat i) AND 0x7FFFFFFF = (q + of_nat j) AND (0x7FFFFFFF :: u64)"
    then have "(unat p + i) mod 2 ^ 31 = (unat q + j) mod 2 ^ 31" using phys_step[of p i] phys_step[of q j] by metis
    then show False using that assms by (auto simp: mod_less)
  qed
  then show ?thesis by (simp add: apart32_def)
qed

text \<open>The answers of an emulated processor, the variables on the stack and \<open>cpu_info\<close> low in memory.\<close>

definition qemu_cpuid :: cpuid where
  "qemu_cpuid leaf = (if leaf = 0 then (0xD, 0x54474354, 0x47435447, 0x43544743) else (0x60FB1, 0x800, 0x80802001, 0x078BFBFD))"

definition env86_ex :: "cpuid \<Rightarrow> env86" where
  "env86_ex cpuid = \<lparr>k8_com = (\<lambda>_ _. 0x20), k8_apic = (\<lambda>_ _. 0), k8_cpuid = cpuid, k8_isr = of_nat,
     k8_detect_vars = \<lparr>rv_eax = 0x9000, rv_ebx = 0x9004, rv_ecx = 0x9008, rv_edx = 0x900C\<rparr>,
     k8_mmu_vars = \<lparr>rv_eax = 0x9010, rv_ebx = 0x9014, rv_ecx = 0x9018, rv_edx = 0x901C\<rparr>,
     k8_cpu_info = 0xA000, k8_stack_top = 0x20000, k8_interrupt_stack = 0x30000, k8_tss = 0xB000, k8_gdt = 0xC000, k8_idt = 0xD000\<rparr>"

definition board86_ex :: board86 where
  "board86_ex = \<lparr>b8_mem = (\<lambda>_. 0), b8_paging = pg_zero\<lparr>pg_mem := setup_page_tables 0x1000 (\<lambda>_. 0)\<rparr>,
     b8_com = \<lparr>cm_port = 0x3F8, cm_io = []\<rparr>,
     b8_gdt = \<lparr>gd_entries = [], gd_tss_entry = \<lparr>ge_limit_low = 0, ge_base_low = 0, ge_base_middle = 0, ge_access = 0, ge_granularity = 0,
       ge_base_high = 0, ge_base_upper = 0, ge_reserved = 0\<rparr>,
       gd_tss = \<lparr>ts_rsp0 = 0, ts_rsp1 = 0, ts_rsp2 = 0, ts_ist = (\<lambda>_. 0), ts_iopb_offset = 0\<rparr>, gd_limit = 0, gd_base = 0, gd_tr = 0\<rparr>,
     b8_idt = replicate 256 (gate 0 0 0), b8_idt_ptr = \<lparr>ip_limit = 0, ip_base = 0\<rparr>,
     b8_apic = \<lparr>ap_lapic = 0, ap_ioapic = 0, ap_msr = 0xFEE00900, ap_io = [], ap_ticks_per_ms = 0\<rparr>, b8_flags = 2\<rparr>"

lemma board86_ex_tables: "boot_tables (b8_paging board86_ex)"
  by (auto simp: board86_ex_def boot_tables_def pg_zero_def page_aligned_def)

section \<open>Strings in memory\<close>

fun mem_string :: "board86 \<Rightarrow> u64 \<Rightarrow> u8 list \<Rightarrow> bool" where
  "mem_string b p [] \<longleftrightarrow> ld8 p b = Some 0"
| "mem_string b p (c # cs) \<longleftrightarrow> ld8 p b = Some c \<and> c \<noteq> 0 \<and> mem_string b (p + 1) cs"

lemma mem_puts_string: "mem_string b p cs \<Longrightarrow> mem_puts hwc b p c = com_puts hwc cs c"
proof (induction cs arbitrary: p c)
  case Nil
  then show ?case by (subst mem_puts.simps) simp
next
  case (Cons ch cs)
  then have "mem_puts hwc b (p + 1) = com_puts hwc cs" by (simp add: fun_eq_iff)
  then show ?case using Cons.prems by (subst mem_puts.simps) simp
qed

lemma prints_string: "mem_string b p cs \<Longrightarrow> prints hwc (mem_puts hwc b p) (crlf cs)"
  unfolding prints_def mem_puts_string using com.puts_out by blast

section \<open>A start that reaches the interrupt controller\<close>

lemma low_region: "a < 0x80000000 \<Longrightarrow> boot_region a \<and> a AND 0x7FFFFFFF = a"
  using boot_indices_low(2)[of a] by (auto simp: boot_region_def word_less_nat_alt)

lemma low_access:
  assumes "boot_tables (b8_paging b)" and "a < 0x80000000"
  shows "ld8 a b = Some (b8_mem b a)" and "st8 a v b = Some (b\<lparr>b8_mem := (b8_mem b)(a := v)\<rparr>)"
  using assms low_region[of a] by (simp_all add: ld8_def st8_def boot_walks)

text \<open>A processor that answers 0 to everything stores zeros, into memory that is zero.\<close>

definition no_cpuid :: cpuid where "no_cpuid leaf = (0, 0, 0, 0)"

definition zero_at :: "board86 \<Rightarrow> u64 \<Rightarrow> bool" where
  "zero_at b a \<longleftrightarrow> a < 0x7FFFFFF0 \<and> b8_mem b a = 0 \<and> b8_mem b (a + 1) = 0 \<and> b8_mem b (a + 2) = 0 \<and> b8_mem b (a + 3) = 0"

lemma low_steps: "a < 0x7FFFFFF0 \<Longrightarrow> a < 0x80000000 \<and> a + 1 < 0x80000000 \<and> a + 2 < 0x80000000 \<and> a + 3 < (0x80000000 :: u64)"
  by (auto simp: word_less_nat_alt unat_word_ariths)

lemma zero_access:
  assumes "boot_tables (b8_paging b)" and "zero_at b a"
  shows "ld32 a b = Some 0" and "st32 a 0 b = Some b"
proof -
  note low = low_steps[of a] low_access[OF assms(1)]
  have same: "b8_mem b p = 0 \<Longrightarrow> (b8_mem b)(p := 0) = b8_mem b" for p by auto
  show "ld32 a b = Some 0" using assms low by (simp add: ld32_def zero_at_def)
  show "st32 a 0 b = Some b" using assms low same by (simp add: st32_def zero_at_def)
qed

lemma no_cpuid_call:
  assumes "boot_tables (b8_paging b)" and "zero_at b a1" and "zero_at b a4" and "zero_at b 0"
  shows "cpuid_call no_cpuid leaf a1 a2 a3 a4 b = Some b"
  using zero_access(2)[OF assms(1)] assms by (simp add: cpuid_call_def no_cpuid_def)

definition unknown_mem :: "u64 \<Rightarrow> u8" where
  "unknown_mem = (\<lambda>_. 0)(0xA00D := 85, 0xA00E := 110, 0xA00F := 107, 0xA010 := 110, 0xA011 := 111, 0xA012 := 119, 0xA013 := 110)"

lemma unknown_copy:
  assumes "boot_tables (b8_paging b)" and "b8_mem b = (\<lambda>_. 0)"
  shows "str_copy 0xA00D (map of_char ''Unknown'' @ [0]) b = Some (b\<lparr>b8_mem := unknown_mem\<rparr>)"
  using assms by (simp add: low_access of_char_def) (simp add: unknown_mem_def fun_eq_iff)

lemma unknown_mem_at: "unknown_mem a = (if 0xA00D \<le> a \<and> a < 0xA014 then unknown_mem a else 0)"
  by (auto simp: unknown_mem_def word_le_nat_alt word_less_nat_alt)

lemma unknown_zero: "a < 0xA00A \<or> 0xA014 \<le> a \<and> a < 0x7FFFFFF0 \<Longrightarrow> zero_at (b\<lparr>b8_mem := unknown_mem\<rparr>) a"
proof -
  assume a: "a < 0xA00A \<or> 0xA014 \<le> a \<and> a < 0x7FFFFFF0"
  have z: "unknown_mem p = 0" if "unat p < 0xA00D \<or> 0xA014 \<le> unat p" for p
    by (subst unknown_mem_at) (use that in \<open>auto simp: word_le_nat_alt word_less_nat_alt\<close>)
  have u: "unat (a + 1) = unat a + 1" "unat (a + 2) = unat a + 2" "unat (a + 3) = unat a + 3"
    using a by (auto simp: unat_word_ariths word_le_nat_alt word_less_nat_alt)
  show ?thesis using a u z[of a] z[of "a + 1"] z[of "a + 2"] z[of "a + 3"] by (auto simp: zero_at_def word_le_nat_alt word_less_nat_alt)
qed

lemma detect_nothing:
  assumes b: "boot_tables (b8_paging b)" and m: "b8_mem b = (\<lambda>_. 0)"
  shows "\<exists>b'. cpu_detect no_cpuid (k8_detect_vars (env86_ex no_cpuid)) 0xA000 b = Some b' \<and> boot_tables (b8_paging b') \<and>
    mem_string b' 0xA000 [] \<and> mem_string b' 0xA00D (map of_char ''Unknown'') \<and> zero_at b' 0 \<and> zero_at b' 0x9010 \<and> zero_at b' 0x901C"
proof -
  let ?f = "k8_detect_vars (env86_ex no_cpuid)"
  have z: "zero_at b a" if "a < 0x7FFFFFF0" for a using that m by (simp add: zero_at_def)
  note zb = zero_access[OF b z] low_access[OF b]
  have vars: "cpuid_vars no_cpuid leaf ?f b = Some b" for leaf
    unfolding cpuid_vars_def by (rule no_cpuid_call[OF b]) (simp_all add: env86_ex_def z)
  have st8: "st8 0xA00C 0 b = Some b" using low_access(2)[OF b, of "0xA00C" 0] m by (simp add: fun_upd_idem)
  have 1: "cpu_vendor no_cpuid ?f 0xA000 b = Some b"
    by (simp add: cpu_vendor_def vars copy32_def zb st8) (simp add: env86_ex_def zb st8)
  have eax: "ld32 (rv_eax ?f) b = Some 0" by (simp add: env86_ex_def zb)
  have 2: "cpu_version no_cpuid ?f 0xA000 b = Some b" "cpu_extended no_cpuid ?f 0xA000 b = Some b"
    by (simp_all add: cpu_version_def cpu_extended_def vars eax)
  let ?c = "b\<lparr>b8_mem := unknown_mem\<rparr>"
  have 3: "cpu_brand no_cpuid ?f 0xA000 b = Some ?c" using unknown_copy[OF b m] by (simp add: cpu_brand_def vars eax)
  have c: "boot_tables (b8_paging ?c)" using b by simp
  note zc = zero_access[OF c unknown_zero]
  have vc: "cpuid_vars no_cpuid leaf ?f ?c = Some ?c" for leaf
    unfolding cpuid_vars_def by (rule no_cpuid_call[OF c]) (simp_all add: env86_ex_def unknown_zero)
  have eax: "ld32 (rv_eax ?f) ?c = Some 0" by (simp add: env86_ex_def zc)
  have tsc: "ld64 0xA058 ?c = Some 0" by (simp add: ld64_def zc)
  let ?d = "?c\<lparr>b8_mem := unknown_mem(0xA059 := 0xCA, 0xA05A := 0x9A, 0xA05B := 0x3B)\<rparr>"
  have "st32 0xA058 0x3B9ACA00 ?c = Some ?d"
    using low_access(2)[of _ "0xA058"] b by (simp add: st32_def low_access drop_bit_eq_div) (simp add: unknown_mem_def fun_eq_iff)
  moreover have "st32 0xA05C 0 ?d = Some ?d"
    by (rule zero_access(2)) (simp_all add: b zero_at_def unknown_mem_def)
  ultimately have 4: "cpu_tsc no_cpuid ?f 0xA000 ?c = Some ?d" by (simp add: cpu_tsc_def vc eax tsc st64_def drop_bit_eq_div)
  have "cpu_detect no_cpuid ?f 0xA000 b = Some ?d" by (simp add: cpu_detect_def 1 2 3 4)
  moreover have "mem_string ?d 0xA000 []" "mem_string ?d 0xA00D (map of_char ''Unknown'')"
    using b by (simp_all add: low_access of_char_def) (simp_all add: unknown_mem_def)
  ultimately show ?thesis using b by (auto simp: zero_at_def unknown_mem_def)
qed

text \<open>Printing leaves memory and tables as they are, so that a start goes on from one print to the next.\<close>

definition at_mem :: "(u64 \<Rightarrow> u8) \<Rightarrow> paging \<Rightarrow> board86 \<Rightarrow> bool" where
  "at_mem m pg b \<longleftrightarrow> b8_mem b = m \<and> b8_paging b = pg"

lemma print_step:
  assumes "at_mem m pg b" and "prints hwc f txt" and "\<forall>c. com_ready hwc c"
    and "\<And>b'. at_mem m pg b' \<Longrightarrow> \<exists>r. g b' = Some r"
  shows "\<exists>r. Option.bind (print86 f b) g = Some r"
proof -
  obtain c where c: "f (b8_com b) = Some c" using assms(2,3) unfolding prints_def by blast
  have "at_mem m pg (b\<lparr>b8_com := c\<rparr>)" using assms(1) by (simp add: at_mem_def)
  then show ?thesis using assms(4) c by (simp add: print86_def)
qed

lemma prints_say: "prints hwc (\<lambda>c. Option.bind (xputs hwc s c) (xline hwc)) (crlf (map of_char s) @ [13, 10])"
  by (intro prints_bind prints_puts prints_line)

lemma say_step:
  assumes "at_mem m pg b" and "\<forall>c. com_ready hwc c" and "\<And>b'. at_mem m pg b' \<Longrightarrow> \<exists>r. g b' = Some r"
  shows "\<exists>r. Option.bind (say86 hwc s b) g = Some r"
  unfolding say86_def by (rule print_step[OF assms(1) prints_say assms(2,3)])

lemma prints_all: "prints hwc (say_all hwc ls) (concat (map crlf ls))"
proof (induction ls)
  case (Cons l ls)
  have l: "prints hwc (com_puts hwc l) (crlf l)" using com.puts_out by (auto simp: prints_def)
  have "say_all hwc (l # ls) = (\<lambda>c. Option.bind (com_puts hwc l c) (say_all hwc ls))" by (simp add: fun_eq_iff)
  then show ?case using prints_bind[OF l Cons] by simp
qed (simp add: prints_def)

lemma prints_wrong_magic:
  assumes "magic \<noteq> MULTIBOOT2_BOOTLOADER_MAGIC"
  shows "\<exists>txt. prints hwc (parse_multiboot2_info hwc magic info b) txt"
proof -
  have e: "parse_multiboot2_info hwc magic info b = (\<lambda>c. Option.bind (xputs hwc ''[BOOT] Parsing Multiboot2 info...'' c) (\<lambda>c. Option.bind (xline hwc c)
      (\<lambda>c. Option.bind (xputs hwc ''[BOOT] ERROR: Invalid Multiboot2 magic: '' c) (\<lambda>c. Option.bind (com_puthex hwc magic c) (xline hwc)))))"
    using assms by (simp add: parse_multiboot2_info_def fun_eq_iff)
  show ?thesis unfolding e
    by (rule exI) (rule prints_bind[OF prints_puts prints_bind[OF prints_line prints_bind[OF prints_puts prints_bind[OF prints_hex prints_line]]]])
qed

lemma com_init_ready: "\<exists>c'. com_init hwc c = Some c'"
  by (simp add: com_init_def com_init_port_def Let_def split_beta)

lemma mmu_step_nothing:
  assumes "boot_tables (b8_paging b)" and "zero_at b 0" and "zero_at b 0x9010" and "zero_at b 0x901C"
  shows "mmu_step no_cpuid (k8_mmu_vars (env86_ex no_cpuid)) b = Some (b\<lparr>b8_paging := mmu_init (\<lambda>_. 0) (b8_paging b)\<rparr>)"
proof -
  have "cpuid_vars no_cpuid leaf (k8_mmu_vars (env86_ex no_cpuid)) b = Some b" for leaf
    unfolding cpuid_vars_def by (rule no_cpuid_call[OF assms(1)]) (simp_all add: env86_ex_def assms)
  then show ?thesis by (simp add: mmu_step_def no_cpuid_def)
qed

lemma at_mem_access:
  assumes "at_mem (b8_mem b0) (b8_paging b0) b"
  shows "mem_string b p cs = mem_string b0 p cs" and "zero_at b a = zero_at b0 a" and "boot_tables (b8_paging b) = boot_tables (b8_paging b0)"
proof -
  have "ld8 p b = ld8 p b0" for p using assms by (simp add: ld8_def at_mem_def)
  then show "mem_string b p cs = mem_string b0 p cs" by (induction cs arbitrary: p) simp_all
qed (use assms in \<open>simp_all add: at_mem_def zero_at_def\<close>)

lemma print_returns:
  assumes "prints hwc f txt" and "\<forall>c. com_ready hwc c"
  shows "\<exists>b'. print86 f b = Some b' \<and> at_mem (b8_mem b) (b8_paging b) b'"
proof -
  obtain c where "f (b8_com b) = Some c" using assms unfolding prints_def by blast
  then show ?thesis by (auto simp: print86_def at_mem_def)
qed

lemma say_returns:
  assumes "\<forall>c. com_ready hwc c"
  shows "\<exists>b'. say86 hwc s b = Some b' \<and> at_mem (b8_mem b) (b8_paging b) b'"
  unfolding say86_def by (rule print_returns[OF prints_say assms])

text \<open>A run of steps that each keep memory and tables.\<close>

lemma bind_step:
  assumes "\<exists>b'. f = Some b' \<and> at_mem m pg b'" and "\<And>b'. at_mem m pg b' \<Longrightarrow> \<exists>r. g b' = Some r"
  shows "\<exists>r. Option.bind f g = Some r"
  using assms by auto

lemma ex_step:
  assumes "\<exists>b'. f = Some b' \<and> Q b'" and "\<And>b'. Q b' \<Longrightarrow> \<exists>r. g b' = Some r"
  shows "\<exists>r. Option.bind f g = Some r"
  using assms by auto

lemma kernel_early_reaches:
  assumes b: "boot_tables (b8_paging b)" and m: "b8_mem b = (\<lambda>_. 0)" and r: "\<forall>c. com_ready (k8_com (env86_ex no_cpuid)) c"
  shows "\<exists>b'. kernel_early (env86_ex no_cpuid) 0 info b = Some b'"
proof -
  let ?e = "env86_ex no_cpuid" let ?hwc = "k8_com (env86_ex no_cpuid)"
  have magic: "(0 :: u64) \<noteq> MULTIBOOT2_BOOTLOADER_MAGIC" by (simp add: MULTIBOOT2_BOOTLOADER_MAGIC_def)
  have info: "k8_cpu_info ?e = 0xA000" "k8_cpuid ?e = no_cpuid" by (simp_all add: env86_ex_def)
  have say: "at_mem n pg c \<Longrightarrow> \<exists>c'. say86 ?hwc t c = Some c' \<and> at_mem n pg c'" for n pg t c
    using say_returns[OF r] by (auto simp: at_mem_def)
  have print: "at_mem n pg c \<Longrightarrow> prints ?hwc f tx \<Longrightarrow> \<exists>c'. print86 f c = Some c' \<and> at_mem n pg c'" for n pg f tx c
    using print_returns[OF _ r] by (fastforce simp: at_mem_def)
  have init: "\<exists>c. print86 (com_init ?hwc) b = Some c \<and> at_mem (\<lambda>_. 0) (b8_paging b) c"
    using com_init_ready[of ?hwc "b8_com b"] m by (auto simp: print86_def at_mem_def)
  have banner: "at_mem n pg c \<Longrightarrow> \<exists>c'. print86 (print_banner ?hwc) c = Some c' \<and> at_mem n pg c'" for n pg c
    unfolding print_banner_def by (rule print[OF _ prints_all])
  have parse: "at_mem n pg c \<Longrightarrow> \<exists>c'. print86 (parse_multiboot2_info ?hwc 0 info d) c = Some c' \<and> at_mem n pg c'" for n pg c d
    using print prints_wrong_magic[OF magic] by blast
  define Q where "Q d \<longleftrightarrow> boot_tables (b8_paging d) \<and> mem_string d 0xA000 [] \<and> mem_string d (0xA000 + 13) (map of_char ''Unknown'') \<and>
      zero_at d 0 \<and> zero_at d 0x9010 \<and> zero_at d 0x901C" for d
  have detect: "\<exists>d. cpu_detect no_cpuid (k8_detect_vars ?e) 0xA000 c = Some d \<and> Q d" if "at_mem (\<lambda>_. 0) (b8_paging b) c" for c
    using detect_nothing[of c] that b by (auto simp: at_mem_def Q_def)
  have string: "at_mem (b8_mem d) (b8_paging d) c \<Longrightarrow> mem_string d q cs \<Longrightarrow>
      \<exists>c'. print86 (mem_puts ?hwc c q) c = Some c' \<and> at_mem (b8_mem d) (b8_paging d) c'" for d c q cs
    using print[OF _ prints_string] at_mem_access(1) by blast
  have finish: "\<exists>r. Option.bind (mmu_step no_cpuid (k8_mmu_vars ?e) c) (say86 ?hwc ''[INIT] Initializing APIC...'') = Some r"
    if "boot_tables (b8_paging c)" "zero_at c 0" "zero_at c 0x9010" "zero_at c 0x901C" for c
    using say_returns[OF r] mmu_step_nothing[OF that] by auto
  show ?thesis
    unfolding kernel_early_def Let_def split_beta info
    apply (rule bind_step[OF init])
    apply (rule bind_step, erule banner)
    apply (rule bind_step, erule say)
    apply (rule bind_step, erule parse)
    apply (rule bind_step, erule say)
    apply (rule ex_step, erule detect)
    subgoal premises p for c1 c2 c3 c4 c5 d
      apply (rule bind_step[where m = "b8_mem d" and pg = "b8_paging d"])
       apply (rule print[OF _ prints_puts], simp add: at_mem_def)
      apply (rule bind_step, erule string, use p Q_def in blast)
      apply (rule bind_step, erule print, rule prints_puts)
      apply (rule bind_step, erule string, use p Q_def in blast)
      apply (rule bind_step, erule print, rule prints_line)
      apply (rule bind_step, erule say)
      apply (rule bind_step[where m = "b8_mem d" and pg = "b8_paging d"], rule say, simp add: at_mem_def)
      apply (rule bind_step[where m = "b8_mem d" and pg = "b8_paging d"], rule say, simp add: at_mem_def)
      apply (rule finish; use p in \<open>simp only: at_mem_access Q_def\<close>)
      done
    done
qed

lemma kernel_main86_starts:
  assumes "boot_tables (b8_paging b)" and "ap_msr (b8_apic b) AND 0xFFFFFF000 = 0xFEE00000" and "kernel_early e magic info b = Some b1"
  shows "\<exists>b2. kernel_main86 e magic info b = Some (Page_fault 0xFEE000F0 b2)"
proof -
  have "boot_tables (b8_paging b1)" "ap_msr (b8_apic b1) AND 0xFFFFFF000 = 0xFEE00000"
    using kernel_early_hardware[OF assms(3)] boot_init[OF assms(1)] assms(2) by (simp_all add: hardware_def)
  from apic_step_faults[OF this(2,1), of "k8_apic e"] show ?thesis using assms(3) by (auto simp: kernel_main86_def)
qed

text \<open>C24: The x86 kernel does not get past \<open>apic_init\<close>. The local controller is at 0xFEE00000 after a reset, and the boot code maps the
  first two gigabytes only: whenever the first phase of \<open>kernel_main\<close> (serial port, banner, boot information, processor, segments,
  interrupt table, MMU, up to the message before \<open>apic_init\<close>) comes to its end, \<open>kernel_main\<close> ends in a page fault (vector 14, a
  write by the kernel, error code 2) at the first write of \<open>apic_init\<close>, before any register of a controller is accessed, and the
  exception handler halts, given distinct entry points and a serial port that answers. Nothing is claimed here of a start that does
  not come to the end of the first phase; \<open>x86_hypervisor_resets\<close> is about such starts.\<close>

theorem x86_kernel_page_faults:
  assumes "boot_tables (b8_paging b)" and "ap_msr (b8_apic b) AND 0xFFFFFF000 = 0xFEE00000" and "length (b8_idt b) = 256"
    and "kernel_early e magic info b = Some b1"
    and "inj_on (xe_isr x) (set isr_vectors)" and "xe_isr x = k8_isr e" and "com_ready (xe_com x) (xi_com k)"
  shows "\<exists>b' c. kernel_main86 e magic info b = Some (Page_fault 0xFEE000F0 b') \<and> ap_io (b8_apic b') = ap_io (b8_apic b) \<and>
    x86_interrupt x (b8_idt b') 14 (Some 2) s k = Some (Halted (k\<lparr>xi_flags := x_flags s AND NOT 0x14300, xi_com := c\<rparr>))"
proof -
  obtain r where r: "kernel_main86 e magic info b = Some r"
    using kernel_main86_starts[OF assms(1,2,4)] by blast
  obtain b' where b': "r = Page_fault 0xFEE000F0 b'" "ap_io (b8_apic b') = ap_io (b8_apic b)"
    "b8_idt b' = fst (idt_init (xe_isr x) (k8_idt e) (b8_idt b))"
    using kernel_main86_fault[OF assms(1,2) r] assms(6) by auto
  have v: "14 \<in> set isr_vectors" "isr_errcode 14" by (simp_all add: isr_vectors_def isr_errcode_def)
  show ?thesis using x86_error_halts[OF assms(3) v assms(5) _ assms(7), of 2 "k8_idt e" s] b' r by auto
qed

theorem x86_kernel_page_faults_witness:
  "\<exists>b' c. kernel_main86 (env86_ex no_cpuid) 0 0x8000 board86_ex = Some (Page_fault 0xFEE000F0 b') \<and> ap_io (b8_apic b') = [] \<and>
    x86_interrupt x86_ex (b8_idt b') 14 (Some 2) (x86_ex_state 5) x86_ex_kern = Some (Halted (x86_ex_kern\<lparr>xi_flags := 2, xi_com := c\<rparr>))"
proof -
  have ready: "\<forall>c. com_ready (k8_com (env86_ex no_cpuid)) c" using com_ready_demo by (simp add: env86_ex_def)
  have msr: "ap_msr (b8_apic board86_ex) AND 0xFFFFFF000 = 0xFEE00000" and len: "length (b8_idt board86_ex) = 256"
    and isr: "xe_isr x86_ex = k8_isr (env86_ex no_cpuid)" and com: "com_ready (xe_com x86_ex) (xi_com x86_ex_kern)"
    using com_ready_demo by (simp_all add: board86_ex_def x86_ex_def env86_ex_def)
  obtain b1 where b1: "kernel_early (env86_ex no_cpuid) 0 0x8000 board86_ex = Some b1"
    using kernel_early_reaches[OF board86_ex_tables _ ready, of "0x8000"] by (auto simp: board86_ex_def)
  from x86_kernel_page_faults[OF board86_ex_tables msr len b1 x86_ex_vectors isr com, of "x86_ex_state 5"] show ?thesis
    by (auto simp: x86_ex_state_def board86_ex_def)
qed

section \<open>What the boot loader passes\<close>

lemma prints_dec: "prints hwc (com_putdec hwc v) (dec_text (unat v))"
  using com_putdec_ok by (auto simp: prints_def)

text \<open>The text a tag of type \<open>t\<close> at \<open>a\<close> is printed as, and a list of tags, each eight bytes or more and padded, up to the end tag.\<close>

definition mb_text :: "board86 \<Rightarrow> u64 \<Rightarrow> u32 \<Rightarrow> u8 list \<Rightarrow> bool" where
  "mb_text b a t txt \<longleftrightarrow>
     (if t = MULTIBOOT2_TAG_CMDLINE then \<exists>cs. mem_string b (a + 8) cs \<and> txt = crlf (map of_char ''[BOOT] Command line: '') @ crlf cs @ [13, 10]
      else if t = MULTIBOOT2_TAG_BOOTLOADER then \<exists>cs. mem_string b (a + 8) cs \<and> txt = crlf (map of_char ''[BOOT] Bootloader: '') @ crlf cs @ [13, 10]
      else if t = MULTIBOOT2_TAG_BASIC_MEMINFO then \<exists>lower upper. ld32 (a + 8) b = Some lower \<and> ld32 (a + 12) b = Some upper \<and>
        txt = crlf (map of_char ''[BOOT] Memory: lower='') @ dec_text (unat lower) @ crlf (map of_char ''KB, upper='') @ dec_text (unat upper) @
          crlf (map of_char ''KB'') @ [13, 10]
      else txt = [])"

fun mb_list :: "board86 \<Rightarrow> u64 \<Rightarrow> (u32 \<times> u32 \<times> u8 list) list \<Rightarrow> bool" where
  "mb_list b a [] \<longleftrightarrow> ld32 a b = Some MULTIBOOT2_TAG_END"
| "mb_list b a ((t, sz, txt) # ts) \<longleftrightarrow> t \<noteq> MULTIBOOT2_TAG_END \<and> ld32 a b = Some t \<and> ld32 (a + 4) b = Some sz \<and> mb_text b a t txt \<and>
     mb_list b (of_nat ((unat a + unat sz + 7) div 8 * 8)) ts"

lemma mb_next_padded: "mb_next a sz = of_nat ((unat a + unat sz + 7) div 8 * 8)"
proof -
  let ?n = "unat a + unat sz + 7"
  have sz: "unat (ucast sz :: u64) = unat sz"
    using unsigned_less[where w = sz and ?'a = nat] by (simp add: unsigned_ucast_eq take_bit_nat_eq_self_iff)
  have m: "?n mod 2 ^ 64 = 8 * (?n div 8 mod 2 ^ 61) + ?n mod 8"
    using mod_mult2_eq[of ?n 8 "2 ^ 61"] by simp
  have "unat (a + ucast sz + 7) = ?n mod 2 ^ 64" by (simp add: unat_word_ariths sz mod_simps)
  then have "unat (mb_next a sz) = ?n mod 2 ^ 64 div 8 * 8"
    using unat_and_not_mask[of "a + ucast sz + 7" 3] by (simp add: mb_next_def mask_numeral)
  also have "\<dots> = (?n div 8 mod 2 ^ 61) * 8" unfolding m by simp
  also have "\<dots> = (?n div 8 * 8) mod 2 ^ 64" using mult_mod_left[of "?n div 8" "2 ^ 61" 8] by simp
  also have "\<dots> = unat (of_nat (?n div 8 * 8) :: u64)" unfolding unat_of_nat by simp
  finally show ?thesis by (simp add: word_unat_eq_iff)
qed

lemma prints_tag:
  assumes "mb_text b a t txt"
  shows "prints hwc (mb_tag hwc b a t) txt"
proof -
  have line: "prints hwc (\<lambda>c. Option.bind (xputs hwc s c) (\<lambda>c. Option.bind (mem_puts hwc b p c) (xline hwc))) (crlf (map of_char s) @ crlf cs @ [13, 10])"
    if "mem_string b p cs" for s p cs
    by (intro prints_bind prints_puts prints_string[OF that] prints_line)
  have numbers: "prints hwc (\<lambda>c. Option.bind (xputs hwc s1 c) (\<lambda>c. Option.bind (com_putdec hwc v1 c) (\<lambda>c. Option.bind (xputs hwc s2 c)
      (\<lambda>c. Option.bind (com_putdec hwc v2 c) (\<lambda>c. Option.bind (xputs hwc s3 c) (xline hwc))))))
      (crlf (map of_char s1) @ dec_text (unat v1) @ crlf (map of_char s2) @ dec_text (unat v2) @ crlf (map of_char s3) @ [13, 10])" for s1 s2 s3 v1 v2
    by (intro prints_bind prints_puts prints_dec prints_line)
  have u: "unat (ucast (w :: u32) :: u64) = unat w" for w
    using unsigned_less[where w = w and ?'a = nat] by (simp add: unsigned_ucast_eq take_bit_nat_eq_self_iff)
  have tags: "(MULTIBOOT2_TAG_BOOTLOADER = MULTIBOOT2_TAG_CMDLINE) = False" "(MULTIBOOT2_TAG_BASIC_MEMINFO = MULTIBOOT2_TAG_CMDLINE) = False"
    "(MULTIBOOT2_TAG_BASIC_MEMINFO = MULTIBOOT2_TAG_BOOTLOADER) = False"
    by (simp_all add: MULTIBOOT2_TAG_CMDLINE_def MULTIBOOT2_TAG_BOOTLOADER_def MULTIBOOT2_TAG_BASIC_MEMINFO_def)
  consider "t = MULTIBOOT2_TAG_CMDLINE" | "t = MULTIBOOT2_TAG_BOOTLOADER" | "t = MULTIBOOT2_TAG_BASIC_MEMINFO"
    | "t \<noteq> MULTIBOOT2_TAG_CMDLINE" "t \<noteq> MULTIBOOT2_TAG_BOOTLOADER" "t \<noteq> MULTIBOOT2_TAG_BASIC_MEMINFO" by blast
  then show ?thesis
  proof cases
    case 1
    then obtain cs where cs: "mem_string b (a + 8) cs" "txt = crlf (map of_char ''[BOOT] Command line: '') @ crlf cs @ [13, 10]"
      using assms unfolding mb_text_def by (simp only: if_True refl) blast
    have e: "mb_tag hwc b a t = (\<lambda>c. Option.bind (xputs hwc ''[BOOT] Command line: '' c) (\<lambda>c. Option.bind (mem_puts hwc b (a + 8) c) (xline hwc)))"
      using 1 by (intro ext) (simp only: mb_tag_def if_True refl)
    show ?thesis unfolding e cs(2) by (rule line[OF cs(1)])
  next
    case 2
    then obtain cs where cs: "mem_string b (a + 8) cs" "txt = crlf (map of_char ''[BOOT] Bootloader: '') @ crlf cs @ [13, 10]"
      using assms unfolding mb_text_def by (simp only: if_True if_False refl tags) blast
    have e: "mb_tag hwc b a t = (\<lambda>c. Option.bind (xputs hwc ''[BOOT] Bootloader: '' c) (\<lambda>c. Option.bind (mem_puts hwc b (a + 8) c) (xline hwc)))"
      using 2 by (intro ext) (simp only: mb_tag_def if_True if_False refl tags)
    show ?thesis unfolding e cs(2) by (rule line[OF cs(1)])
  next
    case 3
    then obtain lower upper where v: "ld32 (a + 8) b = Some lower" "ld32 (a + 12) b = Some upper"
      "txt = crlf (map of_char ''[BOOT] Memory: lower='') @ dec_text (unat lower) @ crlf (map of_char ''KB, upper='') @ dec_text (unat upper) @
          crlf (map of_char ''KB'') @ [13, 10]"
      using assms unfolding mb_text_def by (simp only: if_True if_False refl tags) blast
    have e: "mb_tag hwc b a t = (\<lambda>c. Option.bind (xputs hwc ''[BOOT] Memory: lower='' c) (\<lambda>c. Option.bind (com_putdec hwc (ucast lower) c)
        (\<lambda>c. Option.bind (xputs hwc ''KB, upper='' c) (\<lambda>c. Option.bind (com_putdec hwc (ucast upper) c) (\<lambda>c. Option.bind (xputs hwc ''KB'' c) (xline hwc))))))"
      using 3 by (intro ext) (simp only: mb_tag_def v(1,2) if_True if_False refl tags bind.bind_lunit)
    show ?thesis using numbers[of "''[BOOT] Memory: lower=''" "ucast lower" "''KB, upper=''" "ucast upper" "''KB''"] unfolding e v(3) u .
  next
    case 4
    then show ?thesis using assms by (simp add: mb_text_def mb_tag_def prints_def)
  qed
qed

lemma prints_tags: "mb_list b a ts \<Longrightarrow> prints hwc (mb_tags hwc b a) (concat (map (\<lambda>(t, sz, txt). txt) ts))"
proof (induction ts arbitrary: a)
  case Nil
  then have "mb_tags hwc b a = Some" by (intro ext) (subst mb_tags.simps, simp)
  then show ?case by (simp add: prints_some)
next
  case (Cons x ts)
  obtain t sz tx where x: "x = (t, sz, tx)" by (cases x)
  have "mb_tags hwc b a = (\<lambda>c. Option.bind (mb_tag hwc b a t c) (mb_tags hwc b (mb_next a sz)))"
    using Cons.prems x by (intro ext) (subst mb_tags.simps, simp)
  then show ?case using prints_bind[OF prints_tag Cons.IH] Cons.prems x by (simp add: mb_next_padded)
qed

lemma prints_multiboot:
  assumes "mb_list b (info + 8) ts" and "ld32 info b = Some sum_sz"
  shows "prints hwc (parse_multiboot2_info hwc MULTIBOOT2_BOOTLOADER_MAGIC info b)
    (crlf (map of_char ''[BOOT] Parsing Multiboot2 info...'') @ [13, 10] @
      crlf (map of_char ''[BOOT] Multiboot2 info size: '') @ dec_text (unat sum_sz) @ crlf (map of_char '' bytes'') @ [13, 10] @
      concat (map (\<lambda>(t, sz, txt). txt) ts))"
proof -
  have u: "unat (ucast sum_sz :: u64) = unat sum_sz"
    using unsigned_less[where w = sum_sz and ?'a = nat] by (simp add: unsigned_ucast_eq take_bit_nat_eq_self_iff)
  have e: "parse_multiboot2_info hwc MULTIBOOT2_BOOTLOADER_MAGIC info b = (\<lambda>c. Option.bind (xputs hwc ''[BOOT] Parsing Multiboot2 info...'' c)
      (\<lambda>c. Option.bind (xline hwc c) (\<lambda>c. Option.bind (xputs hwc ''[BOOT] Multiboot2 info size: '' c)
      (\<lambda>c. Option.bind (com_putdec hwc (ucast sum_sz) c) (\<lambda>c. Option.bind (xputs hwc '' bytes'' c) (\<lambda>c. Option.bind (xline hwc c)
        (mb_tags hwc b (info + 8))))))))"
    by (intro ext) (simp only: parse_multiboot2_info_def assms(2) bind.bind_lunit not_True_eq_False if_False refl)
  show ?thesis unfolding e u[symmetric] by (intro prints_bind prints_puts prints_line prints_dec prints_tags assms(1))
qed

text \<open>What a boot loader that passes the two sizes of memory leaves at 0x8000.\<close>

definition multiboot_ex :: board86 where
  "multiboot_ex = board86_ex\<lparr>b8_mem := (\<lambda>_. 0)(0x8000 := 0x20, 0x8008 := 4, 0x800C := 16, 0x8010 := 0x7F, 0x8011 := 2, 0x8015 := 4)\<rparr>"

lemma multiboot_ex_words:
  "ld32 0x8000 multiboot_ex = Some 32" "ld32 0x8008 multiboot_ex = Some 4" "ld32 0x800C multiboot_ex = Some 16"
  "ld32 0x8010 multiboot_ex = Some 639" "ld32 0x8014 multiboot_ex = Some 1024" "ld32 0x8018 multiboot_ex = Some 0"
  using low_access(1)[of multiboot_ex] board86_ex_tables by (simp_all add: ld32_def multiboot_ex_def)

text \<open>C28: The information of the boot loader is printed tag by tag: with the right magic number and a list of tags up to the end tag, the
  output is the size and, in their order, the command line, the name of the boot loader and the two sizes of memory in
  decimal; every other tag is passed over, whatever its size.\<close>

theorem multiboot_prints:
  assumes "mb_list b (info + 8) ts" and "ld32 info b = Some sum_sz" and "com_ready hwc c"
  shows "\<exists>c'. parse_multiboot2_info hwc MULTIBOOT2_BOOTLOADER_MAGIC info b c = Some c' \<and>
    com_sent c' = com_sent c @ crlf (map of_char ''[BOOT] Parsing Multiboot2 info...'') @ [13, 10] @
      crlf (map of_char ''[BOOT] Multiboot2 info size: '') @ dec_text (unat sum_sz) @ crlf (map of_char '' bytes'') @ [13, 10] @
      concat (map (\<lambda>(t, sz, txt). txt) ts)"
  using prints_multiboot[OF assms(1,2), of hwc] assms(3) unfolding prints_def by blast

theorem multiboot_prints_witness:
  "\<exists>c'. parse_multiboot2_info (\<lambda>_ _. 0x20) MULTIBOOT2_BOOTLOADER_MAGIC 0x8000 multiboot_ex (b8_com multiboot_ex) = Some c' \<and>
    com_sent c' = com_sent (b8_com multiboot_ex) @ crlf (map of_char ''[BOOT] Parsing Multiboot2 info...'') @ [13, 10] @
      crlf (map of_char ''[BOOT] Multiboot2 info size: '') @ dec_text 32 @ crlf (map of_char '' bytes'') @ [13, 10] @
      crlf (map of_char ''[BOOT] Memory: lower='') @ dec_text 639 @ crlf (map of_char ''KB, upper='') @ dec_text 1024 @
        crlf (map of_char ''KB'') @ [13, 10]"
proof -
  let ?text = "crlf (map of_char ''[BOOT] Memory: lower='') @ dec_text 639 @ crlf (map of_char ''KB, upper='') @ dec_text 1024 @
        crlf (map of_char ''KB'') @ [13, 10]"
  have "mb_text multiboot_ex 0x8008 4 ?text"
    unfolding mb_text_def using multiboot_ex_words
    by (simp only: MULTIBOOT2_TAG_CMDLINE_def MULTIBOOT2_TAG_BOOTLOADER_def MULTIBOOT2_TAG_BASIC_MEMINFO_def) simp
  then have l: "mb_list multiboot_ex (0x8000 + 8) [(4, 16, ?text)]"
    using multiboot_ex_words by (simp add: MULTIBOOT2_TAG_END_def del: append.simps map_append)
  show ?thesis using multiboot_prints[OF l multiboot_ex_words(1) com_ready_demo, of "b8_com multiboot_ex"] by simp
qed

text \<open>A tag of size 0 is its own successor, and the walk does not end.\<close>

lemma mb_next_empty:
  assumes "a AND 7 = 0"
  shows "mb_next a 0 = a"
proof -
  have "(a AND NOT 7) OR (a AND 7) = a" by (rule bit_word_eqI) (auto simp: bit_simps)
  then have a: "a AND NOT 7 = a" using assms by simp
  have "a + 7 = a OR 7" using assms by (rule disjunctive_add_eq_or)
  then have "mb_next a 0 = (a OR 7) AND NOT 7" by (simp add: mb_next_def)
  also have "\<dots> = a AND NOT 7" by (rule bit_word_eqI) (auto simp: bit_simps)
  finally show ?thesis using a by simp
qed

lemma mb_tags_empty:
  assumes "ld32 a b = Some t" and "t \<noteq> MULTIBOOT2_TAG_END" and "ld32 (a + 4) b = Some 0" and "a AND 7 = 0"
  shows "mb_tags hwc b a c = None"
proof (rule ccontr)
  assume "mb_tags hwc b a c \<noteq> None"
  then obtain r where r: "mb_tags hwc b a c = Some r" by blast
  have "b = b \<longrightarrow> a \<noteq> a"
  proof (rule mb_tags.raw_induct[where P = "\<lambda>hwc d p c r. d = b \<longrightarrow> p \<noteq> a", OF _ r])
    fix f hwc d p c r
    assume ih: "\<And>hwc d p c r. f hwc d p c = Some r \<Longrightarrow> d = b \<longrightarrow> p \<noteq> a"
      and eq: "Option.bind (ld32 p d) (\<lambda>t. if t = MULTIBOOT2_TAG_END then Some c
        else Option.bind (mb_tag hwc d p t c) (\<lambda>c. Option.bind (ld32 (p + 4) d) (\<lambda>sz. f hwc d (mb_next p sz) c))) = Some r"
    show "d = b \<longrightarrow> p \<noteq> a"
    proof (intro impI notI)
      assume "d = b" and "p = a"
      then obtain c' where "f hwc b (mb_next a 0) c' = Some r"
        using eq assms(1-3) by (auto simp: bind_eq_Some_conv)
      from ih[OF this] show False using mb_next_empty[OF assms(4)] by simp
    qed
  qed
  then show False by simp
qed

section \<open>The detection of the processor\<close>

text \<open>C25: Under a hypervisor, and on a processor with the flag PBE, the x86 kernel does not get past the detection of the processor. Leaf 1
  of \<open>cpuid\<close> has bit 31 of \<open>ecx\<close> or of \<open>edx\<close> set there, which is no address of the two gigabytes that the boot code maps. If the
  start gets to \<open>cpu_detect\<close>, nothing but the serial port has changed, so that no descriptor table is loaded; and either an access to
  memory that \<open>cpu_detect\<close> makes for leaf 0 is not mapped, or the variable \<open>eax\<close> then has the maximal leaf and an access of
  \<open>cpuid_call\<close> for leaf 1 is not mapped, which resets the machine. Whether the start gets there or not (a serial port that does not
  answer, a list of tags without an end), \<open>kernel_main\<close> never goes on. It is assumed that the maximal leaf is not 0, and that the stray
  stores of leaf 0 and those to \<open>cpu_info\<close> leave the variable \<open>eax\<close> alone.\<close>

theorem x86_hypervisor_resets:
  assumes "boot_tables (b8_paging b)" and "fst (k8_cpuid e 0) \<noteq> 0" and "high_flags (k8_cpuid e)"
    and "\<forall>p \<in> stray (k8_cpuid e) (k8_detect_vars e) (k8_cpu_info e). apart32 p (rv_eax (k8_detect_vars e))"
  shows "(\<forall>c. kernel_hello e magic info b = Some c \<longrightarrow> c = b\<lparr>b8_com := b8_com c\<rparr> \<and>
      (cpu_vendor (k8_cpuid e) (k8_detect_vars e) (k8_cpu_info e) c = None \<or>
      (\<exists>d. cpu_vendor (k8_cpuid e) (k8_detect_vars e) (k8_cpu_info e) c = Some d \<and>
        ld32 (rv_eax (k8_detect_vars e)) d = Some (fst (k8_cpuid e 0)) \<and> cpuid_vars (k8_cpuid e) 1 (k8_detect_vars e) d = None))) \<and>
    kernel_main86 e magic info b = None"
proof (intro conjI allI impI kernel_main86_detects)
  fix c assume "kernel_hello e magic info b = Some c"
  then show com: "c = b\<lparr>b8_com := b8_com c\<rparr>" by (rule kernel_hello_com)
  have c: "boot_tables (b8_paging c)" using assms(1) by (subst com) simp
  note stop = cpu_detect_stops[OF c assms(2-4)]
  show "cpu_detect (k8_cpuid e) (k8_detect_vars e) (k8_cpu_info e) c = None"
    using stop by (cases "cpu_vendor (k8_cpuid e) (k8_detect_vars e) (k8_cpu_info e) c") (simp_all add: cpu_detect_def)
  show "cpu_vendor (k8_cpuid e) (k8_detect_vars e) (k8_cpu_info e) c = None \<or>
      (\<exists>d. cpu_vendor (k8_cpuid e) (k8_detect_vars e) (k8_cpu_info e) c = Some d \<and>
        ld32 (rv_eax (k8_detect_vars e)) d = Some (fst (k8_cpuid e 0)) \<and> cpuid_vars (k8_cpuid e) 1 (k8_detect_vars e) d = None)"
    using stop by (cases "cpu_vendor (k8_cpuid e) (k8_detect_vars e) (k8_cpu_info e) c") auto
qed

text \<open>An emulated processor, with what the boot loader of the example passes: the start gets to the detection.\<close>

lemma qemu_hello: "\<exists>c. kernel_hello (env86_ex qemu_cpuid) MULTIBOOT2_BOOTLOADER_MAGIC 0x8000 multiboot_ex = Some c"
proof -
  let ?hwc = "k8_com (env86_ex qemu_cpuid)"
  have r: "\<forall>c. com_ready ?hwc c" using com_ready_demo by (simp add: env86_ex_def)
  have say: "at_mem n pg c \<Longrightarrow> \<exists>c'. say86 ?hwc t c = Some c' \<and> at_mem n pg c'" for n pg t c
    using say_returns[OF r] by (auto simp: at_mem_def)
  have print: "at_mem n pg c \<Longrightarrow> prints ?hwc f tx \<Longrightarrow> \<exists>c'. print86 f c = Some c' \<and> at_mem n pg c'" for n pg f tx c
    using print_returns[OF _ r] by (fastforce simp: at_mem_def)
  let ?m = "b8_mem multiboot_ex" and ?pg = "b8_paging multiboot_ex"
  have init: "\<exists>c. print86 (com_init ?hwc) multiboot_ex = Some c \<and> at_mem ?m ?pg c"
    using com_init_ready[of ?hwc "b8_com multiboot_ex"] by (auto simp: print86_def at_mem_def)
  have parse: "\<exists>c'. print86 (parse_multiboot2_info ?hwc MULTIBOOT2_BOOTLOADER_MAGIC 0x8000 c) c = Some c' \<and> at_mem ?m ?pg c'"
    if "at_mem ?m ?pg c" for c
  proof -
    have "ld32 p c = ld32 p multiboot_ex" for p using that by (simp add: ld32_def ld8_def at_mem_def)
    then show ?thesis using multiboot_ex_words
      by (intro print[OF that prints_multiboot[where ts = "[(4, 16, _)]"]])
        (simp_all add: mb_text_def MULTIBOOT2_TAG_END_def MULTIBOOT2_TAG_CMDLINE_def MULTIBOOT2_TAG_BOOTLOADER_def MULTIBOOT2_TAG_BASIC_MEMINFO_def)
  qed
  show ?thesis unfolding kernel_hello_def Let_def
    apply (rule bind_step[OF init])
    apply (rule bind_step, erule print, unfold print_banner_def, rule prints_all)
    apply (rule bind_step, erule say)
    apply (rule bind_step, erule parse)
    using say by blast
qed

theorem x86_hypervisor_resets_witness:
  "\<exists>c. kernel_hello (env86_ex qemu_cpuid) MULTIBOOT2_BOOTLOADER_MAGIC 0x8000 multiboot_ex = Some c \<and>
    Option.bind (cpu_vendor qemu_cpuid (k8_detect_vars (env86_ex qemu_cpuid)) 0xA000 c)
      (cpuid_vars qemu_cpuid 1 (k8_detect_vars (env86_ex qemu_cpuid))) = None \<and>
    kernel_main86 (env86_ex qemu_cpuid) MULTIBOOT2_BOOTLOADER_MAGIC 0x8000 multiboot_ex = None"
proof -
  obtain c where c: "kernel_hello (env86_ex qemu_cpuid) MULTIBOOT2_BOOTLOADER_MAGIC 0x8000 multiboot_ex = Some c" using qemu_hello by blast
  have t: "boot_tables (b8_paging multiboot_ex)" using board86_ex_tables by (simp add: multiboot_ex_def)
  have q: "k8_cpuid (env86_ex qemu_cpuid) = qemu_cpuid" "k8_cpu_info (env86_ex qemu_cpuid) = 0xA000" by (simp_all add: env86_ex_def)
  have "\<forall>p \<in> stray qemu_cpuid (k8_detect_vars (env86_ex qemu_cpuid)) 0xA000. apart32 p (rv_eax (k8_detect_vars (env86_ex qemu_cpuid)))"
    by (auto simp: stray_def env86_ex_def qemu_cpuid_def intro!: apart32I)
  moreover have "fst (qemu_cpuid 0) \<noteq> 0" "high_flags qemu_cpuid" by (simp_all add: qemu_cpuid_def high_flags_def)
  ultimately show ?thesis
    using x86_hypervisor_resets[OF t, of "env86_ex qemu_cpuid" MULTIBOOT2_BOOTLOADER_MAGIC "0x8000"] c by (auto simp: q)
qed

end
