(* ===== verification/X86_Acpi.thy ===== *)
theory X86_Acpi
  imports X86_Start
begin

text \<open>
  The tables of the firmware, \<open>src/X86_64-RTOS/arch/x86_64/acpi.c\<close>: the search for the root pointer, the lookup of a table
  by its signature, and the entries of the table of interrupt controllers.

  Every access goes through the page tables, as in \<open>X86_Start\<close>, and \<open>None\<close> is one that is not mapped. A structure is
  read at the offsets of its packed declaration; a null pointer is 0. A search gives \<open>Some None\<close> when it finds nothing.
\<close>

definition ACPI_SIG_RSDP :: "u8 list" where "ACPI_SIG_RSDP = [82, 83, 68, 32, 80, 84, 82, 32]"
definition ACPI_SIG_RSDT :: "u8 list" where "ACPI_SIG_RSDT = [82, 83, 68, 84]"
definition ACPI_SIG_XSDT :: "u8 list" where "ACPI_SIG_XSDT = [88, 83, 68, 84]"
definition ACPI_SIG_MADT :: "u8 list" where "ACPI_SIG_MADT = [65, 80, 73, 67]"

definition MADT_TYPE_LOCAL_APIC :: u8 where "MADT_TYPE_LOCAL_APIC = 0"
definition MADT_TYPE_IOAPIC :: u8 where "MADT_TYPE_IOAPIC = 1"

text \<open>The sizes of \<open>acpi_header_t\<close> and \<open>acpi_madt_t\<close>.\<close>

definition ACPI_HEADER :: u64 where "ACPI_HEADER = 36"
definition ACPI_MADT :: u64 where "ACPI_MADT = 44"

record acpi =
  ac_rsdp :: u64
  ac_madt :: u64
  ac_local_apic_address :: u32
  ac_ioapic_address :: u32
  ac_num_cpus :: u32

definition acpi_zero :: acpi where
  "acpi_zero = \<lparr>ac_rsdp = 0, ac_madt = 0, ac_local_apic_address = 0, ac_ioapic_address = 0, ac_num_cpus = 0\<rparr>"

section \<open>Bytes\<close>

fun memcmp_simple :: "board86 \<Rightarrow> u64 \<Rightarrow> u8 list \<Rightarrow> int option" where
  "memcmp_simple b p [] = Some 0"
| "memcmp_simple b p (c # cs) = do {
     v \<leftarrow> ld8 p b;
     if v \<noteq> c then Some (uint v - uint c) else memcmp_simple b (p + 1) cs
   }"

fun acpi_sum :: "board86 \<Rightarrow> u64 \<Rightarrow> nat \<Rightarrow> u8 \<Rightarrow> u8 option" where
  "acpi_sum b p 0 s = Some s"
| "acpi_sum b p (Suc n) s = do { v \<leftarrow> ld8 p b; acpi_sum b (p + 1) n (s + v) }"

definition acpi_checksum :: "board86 \<Rightarrow> u64 \<Rightarrow> nat \<Rightarrow> u8 option" where
  "acpi_checksum b p len = acpi_sum b p len 0"

definition ld16 :: "u64 \<Rightarrow> board86 \<Rightarrow> u16 option" where
  "ld16 a b = do { b0 \<leftarrow> ld8 a b; b1 \<leftarrow> ld8 (a + 1) b; Some (ucast b0 OR push_bit 8 (ucast b1)) }"

section \<open>The root pointer\<close>

partial_function (option) rsdp_scan :: "board86 \<Rightarrow> u64 \<Rightarrow> u64 \<Rightarrow> u64 option option" where
  "rsdp_scan b stop addr =
     (if addr < stop then do {
        d \<leftarrow> memcmp_simple b addr ACPI_SIG_RSDP;
        if d = 0 then do {
          c \<leftarrow> acpi_checksum b addr 20;
          if c = 0 then Some (Some addr) else rsdp_scan b stop (addr + 16)
        } else rsdp_scan b stop (addr + 16)
      } else Some None)"

definition acpi_find_rsdp :: "board86 \<Rightarrow> u64 option" where
  "acpi_find_rsdp b = do {
     ebda_seg \<leftarrow> ld16 0x40E b;
     let ebda = push_bit 4 (ucast ebda_seg);
     r \<leftarrow> rsdp_scan b (ebda + 0x400) ebda;
     case r of
       Some a \<Rightarrow> Some a
     | None \<Rightarrow> do {
         r \<leftarrow> rsdp_scan b 0x100000 0xE0000;
         case r of Some a \<Rightarrow> Some a | None \<Rightarrow> Some 0
       }
   }"

section \<open>Tables\<close>

text \<open>The loop over \<open>ptrs[i]\<close>; \<open>ldp\<close> reads a pointer of \<open>w\<close> bytes, and \<open>n\<close> are left.\<close>

fun acpi_scan :: "board86 \<Rightarrow> (u64 \<Rightarrow> board86 \<Rightarrow> u64 option) \<Rightarrow> u64 \<Rightarrow> u8 list \<Rightarrow> u64 \<Rightarrow> nat \<Rightarrow> u64 option option" where
  "acpi_scan b ldp w sig p 0 = Some None"
| "acpi_scan b ldp w sig p (Suc n) = do {
     hdr \<leftarrow> ldp p b;
     d \<leftarrow> memcmp_simple b hdr sig;
     if d = 0 then Some (Some hdr) else acpi_scan b ldp w sig (p + w) n
   }"

text \<open>\<open>int entries\<close> is the low half of the 64-bit quotient.\<close>

definition acpi_entries :: "u64 \<Rightarrow> u32 \<Rightarrow> int" where
  "acpi_entries w len = sint (ucast ((ucast len - ACPI_HEADER) div w) :: u32)"

definition acpi_in_table :: "board86 \<Rightarrow> (u64 \<Rightarrow> board86 \<Rightarrow> u64 option) \<Rightarrow> u64 \<Rightarrow> u8 list \<Rightarrow> u64 \<Rightarrow> u8 list \<Rightarrow> u64 option option" where
  "acpi_in_table b ldp w root_sig root sig = do {
     d \<leftarrow> memcmp_simple b root root_sig;
     if d = 0 then do {
       len \<leftarrow> ld32 (root + 4) b;
       acpi_scan b ldp w sig (root + ACPI_HEADER) (nat (acpi_entries w len))
     } else Some None
   }"

definition ld_ptr32 :: "u64 \<Rightarrow> board86 \<Rightarrow> u64 option" where
  "ld_ptr32 a b = map_option ucast (ld32 a b)"

definition acpi_xsdt :: "board86 \<Rightarrow> u8 list \<Rightarrow> u64 \<Rightarrow> u64 option option" where
  "acpi_xsdt b sig rsdp = do {
     revision \<leftarrow> ld8 (rsdp + 15) b;
     if revision \<ge> 2 then do {
       xsdt \<leftarrow> ld64 (rsdp + 24) b;
       if xsdt \<noteq> 0 then acpi_in_table b ld64 8 ACPI_SIG_XSDT xsdt sig else Some None
     } else Some None
   }"

definition acpi_rsdt :: "board86 \<Rightarrow> u8 list \<Rightarrow> u64 \<Rightarrow> u64 option option" where
  "acpi_rsdt b sig rsdp = do {
     rsdt \<leftarrow> ld32 (rsdp + 16) b;
     if rsdt \<noteq> 0 then acpi_in_table b ld_ptr32 4 ACPI_SIG_RSDT (ucast rsdt) sig else Some None
   }"

definition acpi_find_table :: "board86 \<Rightarrow> u8 list \<Rightarrow> acpi \<Rightarrow> (u64 \<times> acpi) option" where
  "acpi_find_table b sig s = do {
     s \<leftarrow> (if ac_rsdp s = 0 then do { r \<leftarrow> acpi_find_rsdp b; Some (s\<lparr>ac_rsdp := r\<rparr>) } else Some s);
     if ac_rsdp s = 0 then Some (0, s)
     else do {
       r \<leftarrow> acpi_xsdt b sig (ac_rsdp s);
       case r of
         Some hdr \<Rightarrow> Some (hdr, s)
       | None \<Rightarrow> do {
           r \<leftarrow> acpi_rsdt b sig (ac_rsdp s);
           case r of Some hdr \<Rightarrow> Some (hdr, s) | None \<Rightarrow> Some (0, s)
         }
     }
   }"

section \<open>The interrupt controllers\<close>

definition madt_entry :: "board86 \<Rightarrow> u64 \<Rightarrow> acpi \<Rightarrow> acpi option" where
  "madt_entry b p s = do {
     t \<leftarrow> ld8 p b;
     if t = MADT_TYPE_LOCAL_APIC then do {
       flags \<leftarrow> ld32 (p + 4) b;
       Some (if flags AND 1 \<noteq> 0 then s\<lparr>ac_num_cpus := ac_num_cpus s + 1\<rparr> else s)
     } else if t = MADT_TYPE_IOAPIC then
       (if ac_ioapic_address s = 0 then do { a \<leftarrow> ld32 (p + 4) b; Some (s\<lparr>ac_ioapic_address := a\<rparr>) } else Some s)
     else Some s
   }"

partial_function (option) madt_walk :: "board86 \<Rightarrow> u64 \<Rightarrow> u64 \<Rightarrow> acpi \<Rightarrow> acpi option" where
  "madt_walk b stop p s =
     (if p < stop then do {
        s \<leftarrow> madt_entry b p s;
        len \<leftarrow> ld8 (p + 1) b;
        if len = 0 then Some s else madt_walk b stop (p + ucast len) s
      } else Some s)"

definition acpi_parse_madt :: "board86 \<Rightarrow> acpi \<Rightarrow> acpi option" where
  "acpi_parse_madt b s = do {
     (madt, s) \<leftarrow> acpi_find_table b ACPI_SIG_MADT s;
     let s = s\<lparr>ac_madt := madt\<rparr>;
     if madt = 0 then Some s
     else do {
       a \<leftarrow> ld32 (madt + ACPI_HEADER) b;
       let s = s\<lparr>ac_local_apic_address := a\<rparr>;
       len \<leftarrow> ld32 (madt + 4) b;
       madt_walk b (madt + ucast len) (madt + ACPI_MADT) s
     }
   }"

definition acpi_init :: "board86 \<Rightarrow> acpi \<Rightarrow> acpi option" where
  "acpi_init b s = do {
     r \<leftarrow> acpi_find_rsdp b;
     let s = s\<lparr>ac_rsdp := r\<rparr>;
     s \<leftarrow> (if r \<noteq> 0 then acpi_parse_madt b s else Some s);
     let s = (if ac_local_apic_address s = 0 then s\<lparr>ac_local_apic_address := 0xFEE00000\<rparr> else s);
     let s = (if ac_ioapic_address s = 0 then s\<lparr>ac_ioapic_address := 0xFEC00000\<rparr> else s);
     Some (if ac_num_cpus s = 0 then s\<lparr>ac_num_cpus := 1\<rparr> else s)
   }"

definition acpi_get_lapic_address :: "acpi \<Rightarrow> u32" where
  "acpi_get_lapic_address s = ac_local_apic_address s"

definition acpi_get_ioapic_address :: "acpi \<Rightarrow> u32" where
  "acpi_get_ioapic_address s = ac_ioapic_address s"

definition acpi_get_num_cpus :: "acpi \<Rightarrow> u32" where
  "acpi_get_num_cpus s = ac_num_cpus s"

end
