(* ===== verification/X86_Acpi_Props.thy ===== *)
theory X86_Acpi_Props
  imports X86_Acpi X86_Boot_Props
begin

text \<open>
  The firmware tables as the firmware lays them out, and what the search and the parser make of them.
\<close>

section \<open>Bytes in memory\<close>

fun phys_bytes :: "board86 \<Rightarrow> u64 \<Rightarrow> u8 list \<Rightarrow> bool" where
  "phys_bytes b p [] \<longleftrightarrow> True"
| "phys_bytes b p (c # cs) \<longleftrightarrow> ld8 p b = Some c \<and> phys_bytes b (p + 1) cs"

definition le4 :: "u32 \<Rightarrow> u8 list" where
  "le4 v = [ucast v, ucast (drop_bit 8 v), ucast (drop_bit 16 v), ucast (drop_bit 24 v)]"

definition le8 :: "u64 \<Rightarrow> u8 list" where
  "le8 v = le4 (ucast v) @ le4 (ucast (drop_bit 32 v))"

lemma length_le [simp]: "length (le4 v) = 4" "length (le8 w) = 8"
  by (simp_all add: le4_def le8_def)

lemma phys_bytes_append: "phys_bytes b p (xs @ ys) \<longleftrightarrow> phys_bytes b p xs \<and> phys_bytes b (p + of_nat (length xs)) ys"
  by (induction xs arbitrary: p) (auto simp: ac_simps)

lemma ld32_bytes: "phys_bytes b p (le4 v) \<Longrightarrow> ld32 p b = Some v"
  using word_bytes[of v] by (simp add: le4_def ld32_def ac_simps)

lemma word_halves: "ucast (ucast v :: u32) OR push_bit 32 (ucast (ucast (drop_bit 32 v) :: u32)) = (v :: u64)"
  by (rule bit_word_eqI) (auto simp: bit_simps)

lemma ld64_bytes: "phys_bytes b p (le8 v) \<Longrightarrow> ld64 p b = Some v"
  using word_halves[of v] by (auto simp: le8_def phys_bytes_append ld64_def dest!: ld32_bytes)

lemma memcmp_bytes:
  "phys_bytes b p bs \<Longrightarrow> length bs = length cs \<Longrightarrow> \<exists>d. memcmp_simple b p cs = Some d \<and> (d = 0 \<longleftrightarrow> bs = cs)"
  by (induction cs arbitrary: p bs) (auto simp: length_Suc_conv word_uint_eq_iff[symmetric])

lemma acpi_sum_bytes: "phys_bytes b p bs \<Longrightarrow> acpi_sum b p (length bs) s = Some (s + sum_list bs)"
  by (induction bs arbitrary: p s) (auto simp: ac_simps)

lemma bytes_readable:
  assumes "boot_tables (b8_paging b)" and "unat p + n \<le> 2 ^ 31"
  shows "\<exists>bs. length bs = n \<and> phys_bytes b p bs"
  using assms(2)
proof (induction n arbitrary: p)
  case (Suc n)
  have "p < 0x80000000" using Suc.prems by (simp add: word_less_nat_alt)
  then have l: "ld8 p b = Some (b8_mem b p)" by (rule low_access(1)[OF assms(1)])
  have "unat (p + 1) = unat p + 1" using Suc.prems by (simp add: unat_word_ariths)
  then obtain bs where "length bs = n" "phys_bytes b (p + 1) bs" using Suc.IH[of "p + 1"] Suc.prems by auto
  then show ?case using l by (intro exI[of _ "b8_mem b p # bs"]) simp
qed simp

lemma ucast_of_unat: "unat (x :: 'a::len word) = n \<Longrightarrow> (ucast x :: 'b::len word) = of_nat n"
  using of_nat_unat[of x, where ?'a = "'b word"] by simp

lemma phys_bytes_unique: "phys_bytes b p xs \<Longrightarrow> phys_bytes b p ys \<Longrightarrow> length xs = length ys \<Longrightarrow> xs = ys"
  by (induction xs ys arbitrary: p rule: list_induct2') auto

section \<open>The root pointer\<close>

text \<open>A root pointer: twenty bytes that start with the signature and whose sum is 0.\<close>

definition rsdp_valid :: "board86 \<Rightarrow> u64 \<Rightarrow> bool" where
  "rsdp_valid b a \<longleftrightarrow> (\<exists>bs. length bs = 20 \<and> phys_bytes b a bs \<and> take 8 bs = ACPI_SIG_RSDP \<and> sum_list bs = 0)"

fun slots :: "u64 \<Rightarrow> nat \<Rightarrow> u64 list" where
  "slots a 0 = []"
| "slots a (Suc n) = a # slots (a + 16) n"

text \<open>Where the firmware may put it: the first kilobyte of the extended data area, and the ROM below one megabyte.\<close>

definition rsdp_places :: "u16 \<Rightarrow> u64 list" where
  "rsdp_places seg = slots (push_bit 4 (ucast seg)) 64 @ slots 0xE0000 8192"

lemma rsdp_check:
  assumes "phys_bytes b a bs" and "length bs = 20"
  shows "\<exists>d. memcmp_simple b a ACPI_SIG_RSDP = Some d \<and> (d = 0 \<longleftrightarrow> take 8 bs = ACPI_SIG_RSDP)"
    and "acpi_checksum b a 20 = Some (sum_list bs)"
    and "rsdp_valid b a \<longleftrightarrow> take 8 bs = ACPI_SIG_RSDP \<and> sum_list bs = 0"
proof -
  have "phys_bytes b a (take 8 bs @ drop 8 bs)" using assms(1) by simp
  then have "phys_bytes b a (take 8 bs)" by (simp only: phys_bytes_append)
  then show "\<exists>d. memcmp_simple b a ACPI_SIG_RSDP = Some d \<and> (d = 0 \<longleftrightarrow> take 8 bs = ACPI_SIG_RSDP)"
    using assms(2) by (intro memcmp_bytes) (simp_all add: ACPI_SIG_RSDP_def)
  show "acpi_checksum b a 20 = Some (sum_list bs)"
    using acpi_sum_bytes[OF assms(1), of 0] assms(2) by (simp add: acpi_checksum_def)
  show "rsdp_valid b a \<longleftrightarrow> take 8 bs = ACPI_SIG_RSDP \<and> sum_list bs = 0"
    using assms phys_bytes_unique[of b a _ bs] unfolding rsdp_valid_def by metis
qed

lemma rsdp_scan_find:
  assumes "boot_tables (b8_paging b)" and "unat a + 16 * n + 20 \<le> 2 ^ 31"
  shows "rsdp_scan b (a + of_nat (16 * n)) a = Some (find (rsdp_valid b) (slots a n))"
  using assms(2)
proof (induction n arbitrary: a)
  case 0
  then show ?case by (subst rsdp_scan.simps) simp
next
  case (Suc n)
  obtain bs where bs: "length bs = 20" "phys_bytes b a bs" using bytes_readable[OF assms(1), of a 20] Suc.prems by auto
  obtain d where d: "memcmp_simple b a ACPI_SIG_RSDP = Some d" "d = 0 \<longleftrightarrow> take 8 bs = ACPI_SIG_RSDP"
    using rsdp_check(1)[OF bs(2,1)] by blast
  have u: "unat (a + 16) = unat a + 16" "unat (a + of_nat (16 * Suc n)) = unat a + 16 * Suc n"
    using Suc.prems by (simp_all add: unat_word_ariths unat_of_nat)
  then have lt: "a < a + of_nat (16 * Suc n)" by (simp add: word_less_nat_alt)
  have next_slot: "rsdp_scan b (a + of_nat (16 * Suc n)) (a + 16) = Some (find (rsdp_valid b) (slots (a + 16) n))"
    using Suc.IH[of "a + 16"] Suc.prems u(1) by (simp add: algebra_simps)
  show ?case
    by (subst rsdp_scan.simps) (use lt next_slot d rsdp_check(2,3)[OF bs(2,1)] in \<open>auto simp del: of_nat_mult of_nat_Suc\<close>)
qed

lemma acpi_find_rsdp_ok:
  assumes "boot_tables (b8_paging b)" and "ld16 0x40E b = Some seg"
  shows "acpi_find_rsdp b = Some (case find (rsdp_valid b) (rsdp_places seg) of Some a \<Rightarrow> a | None \<Rightarrow> 0)"
proof -
  let ?e = "push_bit 4 (ucast seg) :: u64"
  have "unat (ucast seg :: u64) < 2 ^ 16"
    using unsigned_less[where w = seg and ?'a = nat] by (simp add: unsigned_ucast_eq take_bit_nat_eq_self)
  then have "unat ?e < 2 ^ 20" by (simp add: push_bit_eq_mult unat_word_ariths)
  then have 1: "rsdp_scan b (?e + 0x400) ?e = Some (find (rsdp_valid b) (slots ?e 64))"
    using rsdp_scan_find[OF assms(1), of ?e 64] by simp
  have 2: "rsdp_scan b 0x100000 0xE0000 = Some (find (rsdp_valid b) (slots 0xE0000 8192))"
    using rsdp_scan_find[OF assms(1), of "0xE0000" 8192] by simp
  have f: "find P (xs @ ys) = (case find P xs of Some a \<Rightarrow> Some a | None \<Rightarrow> find P ys)" for P and xs ys :: "u64 list"
    by (induction xs) auto
  show ?thesis by (simp add: acpi_find_rsdp_def assms(2) 1 2 rsdp_places_def f split: option.split)
qed

section \<open>Tables\<close>

text \<open>An array of pointers to tables, with the signatures found there, and a root table that holds one.\<close>

fun ptrs_at :: "board86 \<Rightarrow> (u64 \<Rightarrow> board86 \<Rightarrow> u64 option) \<Rightarrow> u64 \<Rightarrow> u64 \<Rightarrow> (u64 \<times> u8 list) list \<Rightarrow> bool" where
  "ptrs_at b ldp w p [] \<longleftrightarrow> True"
| "ptrs_at b ldp w p ((h, sig) # ts) \<longleftrightarrow> ldp p b = Some h \<and> length sig = 4 \<and> phys_bytes b h sig \<and> ptrs_at b ldp w (p + w) ts"

definition root_at :: "board86 \<Rightarrow> (u64 \<Rightarrow> board86 \<Rightarrow> u64 option) \<Rightarrow> nat \<Rightarrow> u8 list \<Rightarrow> u64 \<Rightarrow> (u64 \<times> u8 list) list \<Rightarrow> bool" where
  "root_at b ldp w sig p ts \<longleftrightarrow> phys_bytes b p (sig @ le4 (of_nat (36 + w * length ts))) \<and> 36 + w * length ts < 2 ^ 32 \<and>
     ptrs_at b ldp (of_nat w) (p + 36) ts"

text \<open>The tables below a root pointer: by the extended root table from revision 2 on, by the 32-bit one before.\<close>

definition acpi_tables :: "board86 \<Rightarrow> u64 \<Rightarrow> (u64 \<times> u8 list) list \<Rightarrow> bool" where
  "acpi_tables b r ts \<longleftrightarrow> (\<exists>rev. ld8 (r + 15) b = Some rev \<and>
     (if 2 \<le> rev then \<exists>x. ld64 (r + 24) b = Some x \<and> x \<noteq> 0 \<and> root_at b ld64 8 ACPI_SIG_XSDT x ts
      else \<exists>x. ld32 (r + 16) b = Some x \<and> x \<noteq> 0 \<and> root_at b ld_ptr32 4 ACPI_SIG_RSDT (ucast x) ts))"

lemma acpi_scan_find:
  "ptrs_at b ldp w p ts \<Longrightarrow> length sig = 4 \<Longrightarrow>
    acpi_scan b ldp w sig p (length ts) = Some (map_option fst (find (\<lambda>(h, s). s = sig) ts))"
proof (induction ts arbitrary: p)
  case (Cons t ts)
  obtain h s where t: "t = (h, s)" by (cases t)
  then obtain d where "memcmp_simple b h sig = Some d" "d = 0 \<longleftrightarrow> s = sig"
    using Cons.prems memcmp_bytes[of b h s sig] by auto
  then show ?case using Cons t by simp
qed simp

lemma acpi_entries_count:
  assumes "w = 4 \<or> w = 8" and "36 + w * n < 2 ^ 32"
  shows "acpi_entries (of_nat w) (of_nat (36 + w * n)) = int n"
proof -
  have n: "n < 2 ^ 30" using assms by auto
  define len where "len = (of_nat (36 + w * n) :: u32)"
  have "unat len = 36 + w * n" using assms(2) unfolding len_def unat_of_nat by simp
  then have "unat (ucast len :: u64) = 36 + w * n"
    using assms(2) by (simp add: unsigned_ucast_eq take_bit_nat_eq_self)
  then have "unat ((ucast len :: u64) - ACPI_HEADER) = w * n"
    by (subst unat_sub) (simp_all add: ACPI_HEADER_def word_le_nat_alt)
  then have d: "unat (((ucast len :: u64) - ACPI_HEADER) div of_nat w) = n"
    using assms(1) by (auto simp: unat_div)
  have e: "((ucast len :: u64) - ACPI_HEADER) div of_nat w = of_nat n"
    unfolding d[symmetric] by (simp only: of_nat_unat ucast_id)
  have "sint (of_nat n :: u32) = int n"
    using n by (simp add: signed_of_nat signed_take_bit_int_eq_self)
  moreover have "(ucast (of_nat n :: u64) :: u32) = of_nat n" using n by (simp add: unsigned_of_nat take_bit_nat_eq_self)
  ultimately show ?thesis unfolding acpi_entries_def len_def[symmetric] e by simp
qed

lemma acpi_in_table_find:
  assumes "root_at b ldp w root_sig p ts" and "w = 4 \<or> w = 8" and "length root_sig = 4" and "length sig = 4"
  shows "acpi_in_table b ldp (of_nat w) root_sig p sig = Some (map_option fst (find (\<lambda>(h, s). s = sig) ts))"
proof -
  have "phys_bytes b p root_sig" "phys_bytes b (p + 4) (le4 (of_nat (36 + w * length ts)))"
    using assms(1,3) by (simp_all add: root_at_def phys_bytes_append)
  moreover have "memcmp_simple b p root_sig = Some 0"
    using memcmp_bytes[OF calculation(1), of root_sig] by auto
  moreover have "acpi_scan b ldp (of_nat w) sig (p + 36) (length ts) = Some (map_option fst (find (\<lambda>(h, s). s = sig) ts))"
    using assms by (intro acpi_scan_find) (simp_all add: root_at_def)
  moreover have "acpi_entries (of_nat w) (of_nat (36 + w * length ts)) = int (length ts)"
    using assms(1,2) by (intro acpi_entries_count) (simp_all add: root_at_def)
  ultimately show ?thesis by (simp add: acpi_in_table_def ld32_bytes ACPI_HEADER_def del: of_nat_add of_nat_mult)
qed

lemma acpi_find_table_ok:
  assumes "acpi_tables b (ac_rsdp s) ts" and "ac_rsdp s \<noteq> 0" and "length sig = 4" and "find (\<lambda>(h, t). t = sig) ts = Some (h, t)"
  shows "acpi_find_table b sig s = Some (h, s)"
proof -
  obtain rev where rev: "ld8 (ac_rsdp s + 15) b = Some rev" and root: "if 2 \<le> rev
      then \<exists>x. ld64 (ac_rsdp s + 24) b = Some x \<and> x \<noteq> 0 \<and> root_at b ld64 8 ACPI_SIG_XSDT x ts
      else \<exists>x. ld32 (ac_rsdp s + 16) b = Some x \<and> x \<noteq> 0 \<and> root_at b ld_ptr32 4 ACPI_SIG_RSDT (ucast x) ts"
    using assms(1) unfolding acpi_tables_def by blast
  show ?thesis
  proof (cases "2 \<le> rev")
    case True
    then obtain x where x: "ld64 (ac_rsdp s + 24) b = Some x" "x \<noteq> 0" "root_at b ld64 8 ACPI_SIG_XSDT x ts" using root by auto
    have "acpi_xsdt b sig (ac_rsdp s) = Some (Some h)"
      using acpi_in_table_find[OF x(3) _ _ assms(3)] assms(4) rev x(1,2) True by (simp add: acpi_xsdt_def ACPI_SIG_XSDT_def)
    then show ?thesis using assms(2) by (simp add: acpi_find_table_def)
  next
    case False
    then obtain x where x: "ld32 (ac_rsdp s + 16) b = Some x" "x \<noteq> 0" "root_at b ld_ptr32 4 ACPI_SIG_RSDT (ucast x) ts" using root by auto
    have "acpi_xsdt b sig (ac_rsdp s) = Some None" using rev False by (simp add: acpi_xsdt_def)
    moreover have "acpi_rsdt b sig (ac_rsdp s) = Some (Some h)"
      using acpi_in_table_find[OF x(3) _ _ assms(3)] assms(4) x(1,2) by (simp add: acpi_rsdt_def ACPI_SIG_RSDT_def)
    ultimately show ?thesis using assms(2) by (simp add: acpi_find_table_def)
  qed
qed

section \<open>The interrupt controllers\<close>

text \<open>The entries of the table, and their bytes.\<close>

datatype apic_entry =
    Local_apic u8 u8 u32
  | Io_apic u8 u32 u32
  | Other_entry u8 "u8 list"

fun entry_bytes :: "apic_entry \<Rightarrow> u8 list" where
  "entry_bytes (Local_apic cpu i flags) = [0, 8, cpu, i] @ le4 flags"
| "entry_bytes (Io_apic i a base) = [1, 12, i, 0] @ le4 a @ le4 base"
| "entry_bytes (Other_entry t body) = [t, of_nat (length body + 2)] @ body"

fun entry_wf :: "apic_entry \<Rightarrow> bool" where
  "entry_wf (Other_entry t body) \<longleftrightarrow> 2 \<le> t \<and> length body + 2 < 256"
| "entry_wf _ \<longleftrightarrow> True"

text \<open>What a kernel wants to know: the processors that are enabled, and the first I/O controller.\<close>

fun enabled :: "apic_entry \<Rightarrow> bool" where
  "enabled (Local_apic cpu i flags) \<longleftrightarrow> flags AND 1 \<noteq> 0"
| "enabled _ \<longleftrightarrow> False"

fun io_apics :: "apic_entry list \<Rightarrow> u32 list" where
  "io_apics [] = []"
| "io_apics (Io_apic i a base # es) = a # io_apics es"
| "io_apics (_ # es) = io_apics es"

definition first_nonzero :: "u32 list \<Rightarrow> u32" where
  "first_nonzero xs = (case filter (\<lambda>x. x \<noteq> 0) xs of [] \<Rightarrow> 0 | x # _ \<Rightarrow> x)"

definition cpus :: "apic_entry list \<Rightarrow> nat" where
  "cpus es = length (filter enabled es)"

definition madt_at :: "board86 \<Rightarrow> u64 \<Rightarrow> u32 \<Rightarrow> apic_entry list \<Rightarrow> bool" where
  "madt_at b p a es \<longleftrightarrow> (let bs = concat (map entry_bytes es) in list_all entry_wf es \<and> unat p + 44 + length bs < 2 ^ 32 \<and>
     phys_bytes b (p + 4) (le4 (of_nat (44 + length bs))) \<and> phys_bytes b (p + 36) (le4 a) \<and> phys_bytes b (p + 44) bs)"

definition madt_effect :: "apic_entry list \<Rightarrow> acpi \<Rightarrow> acpi" where
  "madt_effect es s = s\<lparr>ac_num_cpus := ac_num_cpus s + of_nat (cpus es),
     ac_ioapic_address := first_nonzero (ac_ioapic_address s # io_apics es)\<rparr>"

lemma madt_effect_Nil [simp]: "madt_effect [] s = s"
  by (cases s) (simp add: madt_effect_def cpus_def first_nonzero_def)

lemma madt_effect_Cons: "madt_effect (e # es) s = madt_effect es (madt_effect [e] s)"
  by (cases e) (auto simp: madt_effect_def cpus_def first_nonzero_def)

lemma madt_entry_ok:
  assumes "entry_wf e" and "phys_bytes b p (entry_bytes e)"
  shows "madt_entry b p s = Some (madt_effect [e] s)" and "ld8 (p + 1) b = Some (of_nat (length (entry_bytes e)))"
proof -
  show "ld8 (p + 1) b = Some (of_nat (length (entry_bytes e)))" using assms by (cases e) (simp_all)
  show "madt_entry b p s = Some (madt_effect [e] s)"
  proof (cases e)
    case (Local_apic cpu i flags)
    then have "ld8 p b = Some 0" "ld32 (p + 4) b = Some flags" using assms by (auto simp: add.assoc intro: ld32_bytes)
    then show ?thesis using Local_apic
      by (cases s) (simp add: madt_entry_def MADT_TYPE_LOCAL_APIC_def madt_effect_def cpus_def first_nonzero_def)
  next
    case (Io_apic i a base)
    then have "ld8 p b = Some 1" "ld32 (p + 4) b = Some a"
      using assms by (auto simp: add.assoc phys_bytes_append intro: ld32_bytes)
    then show ?thesis using Io_apic
      by (cases s) (simp add: madt_entry_def MADT_TYPE_LOCAL_APIC_def MADT_TYPE_IOAPIC_def madt_effect_def cpus_def first_nonzero_def)
  next
    case (Other_entry t body)
    then have "ld8 p b = Some t" "t \<noteq> 0" "t \<noteq> 1" using assms by (auto simp: word_le_nat_alt)
    then show ?thesis using Other_entry
      by (cases s) (simp add: madt_entry_def MADT_TYPE_LOCAL_APIC_def MADT_TYPE_IOAPIC_def madt_effect_def cpus_def first_nonzero_def)
  qed
qed


lemma cat_wf: "entry_wf e \<Longrightarrow> 2 \<le> length (entry_bytes e) \<and> length (entry_bytes e) < 256"
  by (cases e) simp_all

lemma madt_walk_ok:
  assumes "list_all entry_wf es" and "unat p + length (concat (map entry_bytes es)) < 2 ^ 64" and "phys_bytes b p (concat (map entry_bytes es))"
  shows "madt_walk b (p + of_nat (length (concat (map entry_bytes es)))) p s = Some (madt_effect es s)"
  using assms
proof (induction es arbitrary: p s)
  case Nil
  then show ?case by (subst madt_walk.simps) simp
next
  case (Cons e es)
  let ?n = "length (entry_bytes e)" let ?m = "length (concat (map entry_bytes es))"
  have n: "2 \<le> ?n" "?n < 256" and small: "unat p + ?n + ?m < 2 ^ 64" using cat_wf[of e] Cons.prems by auto
  have at: "phys_bytes b p (entry_bytes e)" "phys_bytes b (p + of_nat ?n) (concat (map entry_bytes es))"
    using Cons.prems(3) by (simp_all add: phys_bytes_append)
  have u: "unat (p + of_nat ?n) = unat p + ?n" "unat (p + of_nat (?n + ?m)) = unat p + (?n + ?m)"
    using small unfolding unat_word_ariths unat_of_nat by simp_all
  have lt: "p < p + of_nat (?n + ?m)" unfolding word_less_nat_alt u(2) using n(1) by linarith
  have len: "(of_nat ?n :: u8) \<noteq> 0" "ucast (of_nat ?n :: u8) = (of_nat ?n :: u64)"
  proof -
    have "unat (of_nat ?n :: u8) = ?n" using n unfolding unat_of_nat by simp
    then show "(of_nat ?n :: u8) \<noteq> 0" "ucast (of_nat ?n :: u8) = (of_nat ?n :: u64)"
      using n(1) ucast_of_unat[of "of_nat ?n :: u8" ?n] by fastforce+
  qed
  have "madt_walk b (p + of_nat ?n + of_nat ?m) (p + of_nat ?n) (madt_effect [e] s) = Some (madt_effect es (madt_effect [e] s))"
    using Cons.prems at(2) small u(1) by (intro Cons.IH) simp_all
  then have rest: "madt_walk b (p + of_nat (?n + ?m)) (p + of_nat ?n) (madt_effect [e] s) = Some (madt_effect (e # es) s)"
    by (simp add: madt_effect_Cons[of e es] ac_simps)
  have entry: "madt_entry b p s = Some (madt_effect [e] s)" "ld8 (p + 1) b = Some (of_nat ?n)"
    using madt_entry_ok(1)[of e b p s] madt_entry_ok(2)[of e b p] at(1) Cons.prems(1) by simp_all
  have "madt_walk b (p + of_nat (?n + ?m)) p s = Some (madt_effect (e # es) s)"
    by (subst madt_walk.simps) (simp only: lt if_True entry bind.bind_lunit len if_False rest)
  then show ?case by simp
qed

lemma acpi_parse_madt_ok:
  assumes "acpi_tables b (ac_rsdp s) ts" and "ac_rsdp s \<noteq> 0" and "find (\<lambda>(h, t). t = ACPI_SIG_MADT) ts = Some (h, t)"
    and "h \<noteq> 0" and "madt_at b h a es"
  shows "acpi_parse_madt b s = Some (madt_effect es (s\<lparr>ac_madt := h, ac_local_apic_address := a\<rparr>))"
proof -
  let ?bs = "concat (map entry_bytes es)"
  have m: "list_all entry_wf es" "unat h + 44 + length ?bs < 2 ^ 32" "phys_bytes b (h + 4) (le4 (of_nat (44 + length ?bs)))"
      "phys_bytes b (h + 36) (le4 a)" "phys_bytes b (h + 44) ?bs"
    using assms(5) by (simp_all add: madt_at_def Let_def)
  have u: "unat (h + 44) = unat h + 44" using m(2) by (simp add: unat_word_ariths)
  have "unat (of_nat (44 + length ?bs) :: u32) = 44 + length ?bs" using m(2) unfolding unat_of_nat by simp
  then have len: "ucast (of_nat (44 + length ?bs) :: u32) = (of_nat (44 + length ?bs) :: u64)" by (rule ucast_of_unat)
  have "madt_walk b (h + 44 + of_nat (length ?bs)) (h + 44) (s\<lparr>ac_madt := h, ac_local_apic_address := a\<rparr>) =
      Some (madt_effect es (s\<lparr>ac_madt := h, ac_local_apic_address := a\<rparr>))"
    using m u by (intro madt_walk_ok) simp_all
  then have walk: "madt_walk b (h + of_nat (44 + length ?bs)) (h + 44) (s\<lparr>ac_madt := h, ac_local_apic_address := a\<rparr>) =
      Some (madt_effect es (s\<lparr>ac_madt := h, ac_local_apic_address := a\<rparr>))"
    by (simp add: ac_simps)
  have sig: "length ACPI_SIG_MADT = 4" by (simp add: ACPI_SIG_MADT_def)
  show ?thesis
    using acpi_find_table_ok[OF assms(1,2) sig assms(3)] ld32_bytes[OF m(3)] ld32_bytes[OF m(4)] assms(4) walk
    by (simp add: acpi_parse_madt_def ACPI_HEADER_def ACPI_MADT_def len Let_def del: of_nat_add)
qed


section \<open>The initialisation\<close>

text \<open>What the firmware has to have set up: the segment of the extended data area, the root pointer \<open>r\<close>, the tables \<open>ts\<close>, and among
  them the table of interrupt controllers at \<open>h\<close>.\<close>

definition firmware :: "board86 \<Rightarrow> u64 \<Rightarrow> u64 \<Rightarrow> u32 \<Rightarrow> apic_entry list \<Rightarrow> bool" where
  "firmware b r h a es \<longleftrightarrow> (\<exists>seg ts t. ld16 0x40E b = Some seg \<and> find (rsdp_valid b) (rsdp_places seg) = Some r \<and> r \<noteq> 0 \<and>
     acpi_tables b r ts \<and> find (\<lambda>(h, t). t = ACPI_SIG_MADT) ts = Some (h, t) \<and> h \<noteq> 0 \<and> madt_at b h a es)"

definition or_else :: "u32 \<Rightarrow> u32 \<Rightarrow> u32" where
  "or_else x d = (if x = 0 then d else x)"

lemma acpi_init_ok:
  assumes "boot_tables (b8_paging b)" and "firmware b r h a es"
  shows "acpi_init b s = Some \<lparr>ac_rsdp = r, ac_madt = h, ac_local_apic_address = or_else a 0xFEE00000,
    ac_ioapic_address = or_else (first_nonzero (ac_ioapic_address s # io_apics es)) 0xFEC00000,
    ac_num_cpus = or_else (ac_num_cpus s + of_nat (cpus es)) 1\<rparr>"
proof -
  obtain seg ts t where f: "ld16 0x40E b = Some seg" "find (rsdp_valid b) (rsdp_places seg) = Some r" "r \<noteq> 0"
    "acpi_tables b r ts" "find (\<lambda>(h, t). t = ACPI_SIG_MADT) ts = Some (h, t)" "h \<noteq> 0" "madt_at b h a es"
    using assms(2) unfolding firmware_def by blast
  have "acpi_find_rsdp b = Some r" using acpi_find_rsdp_ok[OF assms(1) f(1)] f(2) by simp
  moreover have "acpi_parse_madt b (s\<lparr>ac_rsdp := r\<rparr>) = Some (madt_effect es (s\<lparr>ac_rsdp := r, ac_madt := h, ac_local_apic_address := a\<rparr>))"
    using acpi_parse_madt_ok[of b "s\<lparr>ac_rsdp := r\<rparr>" ts h t a es] f(3-7) by simp
  ultimately show ?thesis using f(3) by (cases s) (simp add: acpi_init_def madt_effect_def Let_def or_else_def)
qed


text \<open>The firmware's description of the interrupt controllers is read back. Wherever the first valid root pointer is in the two places
  of the search (twenty bytes with the signature and sum 0), whether its tables are in the extended or in the 32-bit root
  table, and whatever other tables and entries are beside: after \<open>acpi_init\<close> the kernel has the address of the local controllers, that of
  the first I/O controller and the number of enabled processors, each with its default where the firmware says none.\<close>

theorem acpi_init_reads:
  assumes "boot_tables (b8_paging b)" and "firmware b r h a es"
  shows "\<exists>s. acpi_init b acpi_zero = Some s \<and> acpi_get_lapic_address s = or_else a 0xFEE00000 \<and>
    acpi_get_ioapic_address s = or_else (first_nonzero (io_apics es)) 0xFEC00000 \<and>
    acpi_get_num_cpus s = or_else (of_nat (cpus es)) 1"
  by (simp add: acpi_init_ok[OF assms] acpi_get_lapic_address_def acpi_get_ioapic_address_def acpi_get_num_cpus_def acpi_zero_def first_nonzero_def)

text \<open>A machine with two processors, one of them disabled, described in the 32-bit root table.\<close>

definition place :: "u64 \<Rightarrow> u8 list \<Rightarrow> (u64 \<Rightarrow> u8) \<Rightarrow> u64 \<Rightarrow> u8" where
  "place p cs m a = (if unat (a - p) < length cs then cs ! unat (a - p) else m a)"

definition acpi_ex_entries :: "apic_entry list" where
  "acpi_ex_entries = [Local_apic 0 0 1, Local_apic 1 1 0, Other_entry 2 [0, 0, 2], Io_apic 2 0xFEC01000 0]"

definition acpi_ex_rsdp :: "u8 list" where
  "acpi_ex_rsdp = [82, 83, 68, 32, 80, 84, 82, 32, 0xD1, 0, 0, 0, 0, 0, 0, 0, 0, 0x10, 0, 0]"

definition acpi_ex :: board86 where
  "acpi_ex = board86_ex\<lparr>b8_mem := place 0x40E [0, 0x90] (place 0x90000 acpi_ex_rsdp (place 0x1000 [82, 83, 68, 84, 40]
     (place 0x1024 [0, 0x20] (place 0x2000 [65, 80, 73, 67, 77] (place 0x2024 [0, 0, 0xE0, 0xFE]
       (place 0x202C (concat (map entry_bytes acpi_ex_entries)) (\<lambda>_. 0)))))))\<rparr>"

lemma acpi_ex_bytes:
  "phys_bytes acpi_ex 0x90000 acpi_ex_rsdp" "phys_bytes acpi_ex 0x1000 ([82, 83, 68, 84] @ le4 40)" "phys_bytes acpi_ex 0x1024 (le4 0x2000)"
  "phys_bytes acpi_ex 0x2000 [65, 80, 73, 67]" "phys_bytes acpi_ex 0x2004 (le4 77)" "phys_bytes acpi_ex 0x2024 (le4 0xFEE00000)"
  "phys_bytes acpi_ex 0x202C (concat (map entry_bytes acpi_ex_entries))" "ld16 0x40E acpi_ex = Some 0x9000"
  using low_access(1)[of acpi_ex] board86_ex_tables
  by (simp_all add: ld16_def acpi_ex_def place_def acpi_ex_rsdp_def le4_def acpi_ex_entries_def)

lemma acpi_ex_firmware: "firmware acpi_ex 0x90000 0x2000 0xFEE00000 acpi_ex_entries"
proof -
  have v: "rsdp_valid acpi_ex 0x90000"
    using rsdp_check(3)[OF acpi_ex_bytes(1)] by (simp add: acpi_ex_rsdp_def ACPI_SIG_RSDP_def)
  have first: "slots 0x90000 64 = 0x90000 # slots 0x90010 63" using slots.simps(2)[of "0x90000" 63] by simp
  have f: "find (rsdp_valid acpi_ex) (rsdp_places 0x9000) = Some 0x90000"
    by (simp add: rsdp_places_def first v)
  have "ld8 0x9000F acpi_ex = Some 0" "ld32 0x90010 acpi_ex = Some 0x1000"
    using acpi_ex_bytes(1) ld32_bytes[of acpi_ex "0x90010" "0x1000"] by (simp_all add: acpi_ex_rsdp_def le4_def)
  moreover have "root_at acpi_ex ld_ptr32 4 ACPI_SIG_RSDT 0x1000 [(0x2000, ACPI_SIG_MADT)]"
    using acpi_ex_bytes(2-4) ld32_bytes[OF acpi_ex_bytes(3)]
    by (simp add: root_at_def ACPI_SIG_RSDT_def ACPI_SIG_MADT_def ld_ptr32_def)
  ultimately have "acpi_tables acpi_ex 0x90000 [(0x2000, ACPI_SIG_MADT)]" by (simp add: acpi_tables_def)
  moreover have "madt_at acpi_ex 0x2000 0xFEE00000 acpi_ex_entries"
    using acpi_ex_bytes(5-7) by (simp add: madt_at_def Let_def acpi_ex_entries_def)
  ultimately show ?thesis using f acpi_ex_bytes(8) unfolding firmware_def
    by (intro exI[of _ "0x9000"] exI[of _ "[(0x2000, ACPI_SIG_MADT)]"] exI[of _ ACPI_SIG_MADT]) simp
qed

theorem acpi_init_reads_witness:
  "\<exists>s. acpi_init acpi_ex acpi_zero = Some s \<and> acpi_get_lapic_address s = 0xFEE00000 \<and> acpi_get_ioapic_address s = 0xFEC01000 \<and>
    acpi_get_num_cpus s = 1"
proof -
  have b: "boot_tables (b8_paging acpi_ex)" using board86_ex_tables by (simp add: acpi_ex_def)
  show ?thesis using acpi_init_reads[OF b acpi_ex_firmware]
    by (simp add: or_else_def first_nonzero_def cpus_def acpi_ex_entries_def)
qed

text \<open>Without a root pointer the defaults are taken.\<close>

theorem acpi_init_defaults:
  assumes "boot_tables (b8_paging b)" and "ld16 0x40E b = Some seg" and "find (rsdp_valid b) (rsdp_places seg) = None"
  shows "acpi_init b acpi_zero = Some \<lparr>ac_rsdp = 0, ac_madt = 0, ac_local_apic_address = 0xFEE00000, ac_ioapic_address = 0xFEC00000,
    ac_num_cpus = 1\<rparr>"
  using acpi_find_rsdp_ok[OF assms(1,2)] assms(3) by (simp add: acpi_init_def acpi_zero_def)

text \<open>The count is not reset: a second call counts every processor again.\<close>

theorem acpi_init_twice:
  assumes "boot_tables (b8_paging b)" and "firmware b r h a es" and "0 < cpus es" and "2 * cpus es < 2 ^ 32"
  shows "map_option acpi_get_num_cpus (Option.bind (acpi_init b acpi_zero) (acpi_init b)) = Some (of_nat (2 * cpus es))"
proof -
  have nz: "of_nat n \<noteq> (0 :: u32)" if "0 < n" "n < 2 ^ 32" for n
  proof
    assume "of_nat n = (0 :: u32)"
    then have "unat (of_nat n :: u32) = 0" by simp
    then show False using that unfolding unat_of_nat by simp
  qed
  have "of_nat (cpus es) \<noteq> (0 :: u32)" "of_nat (2 * cpus es) \<noteq> (0 :: u32)" using nz[of "cpus es"] nz[of "2 * cpus es"] assms(3,4) by auto
  moreover have "of_nat (cpus es) + of_nat (cpus es) = (of_nat (2 * cpus es) :: u32)" by simp
  ultimately show ?thesis
    by (simp add: acpi_init_ok[OF assms(1,2)] acpi_get_num_cpus_def acpi_zero_def or_else_def del: of_nat_mult)
qed

end
