(* ===== verification/X86_Sched.thy ===== *)
theory X86_Sched
  imports Sched X86_Irq
begin

text \<open>
  The scheduler of the x86 kernel: \<open>src/X86_64-RTOS/kernel/scheduler.c\<close>, with the context switch and the entry of a task in
  \<open>arch/x86_64/context.asm\<close> and the spin locks of \<open>include/rtos_types.h\<close>.

  As in \<open>Sched\<close>, an operation that may switch gives \<open>Ret s\<close> when control comes back to its caller and \<open>Sw s\<close> right after the
  jump of a context switch, and \<open>None\<close> when it never comes back: a lock that is held, a null pointer, a halt with interrupts masked.
  The registers are those the switch saves; the stacks are one memory of 64-bit words. Of the frames the compiler makes only the
  return address that \<open>arch_context_switch\<close> finds is modelled. \<open>sx_ticks\<close> is the variable \<open>system_ticks\<close> that the file
  declares. The limits are those of \<open>Config\<close>.
\<close>

section \<open>Spin locks\<close>

definition x_lock :: "xlock \<Rightarrow> xlock option" where
  "x_lock l = (if xl_lock l \<noteq> 0 then None else Some (l\<lparr>xl_lock := 1\<rparr>))"

definition x_unlock :: "xlock \<Rightarrow> xlock" where
  "x_unlock l = l\<lparr>xl_lock := 0\<rparr>"

definition x_lock_irq :: "xlock \<Rightarrow> u64 \<Rightarrow> (xlock \<times> u64) option" where
  "x_lock_irq l flags =
     (let (saved, flags) = x86_irq_save flags in do { l \<leftarrow> x_lock (l\<lparr>xl_irq_flags := saved\<rparr>); Some (l, flags) })"

definition x_unlock_irq :: "xlock \<Rightarrow> u64 \<Rightarrow> xlock \<times> u64" where
  "x_unlock_irq l flags = (let l = x_unlock l in (l, xl_irq_flags l))"

section \<open>Tasks and scheduler state\<close>

record tcb86 =
  c_sp :: u64
  c_rbx :: u64
  c_rbp :: u64
  c_r12 :: u64
  c_r13 :: u64
  c_r14 :: u64
  c_r15 :: u64
  c_rip :: u64
  c_id :: u32
  c_name :: string
  c_priority :: u8
  c_state :: task_state
  c_stack_base :: u64
  c_stack_size :: u64
  c_wake_tick :: u64
  c_remaining_slice :: u64
  c_next :: ptr
  c_prev :: ptr
  c_wait_obj :: ptr
  c_wait_result :: status
  c_total_ticks :: u64
  c_switches :: u64

record cpu86 =
  p_rsp :: u64
  p_rbx :: u64
  p_rbp :: u64
  p_r12 :: u64
  p_r13 :: u64
  p_r14 :: u64
  p_r15 :: u64
  p_rip :: u64
  p_rax :: u64
  p_rdi :: u64
  p_flags :: u64

record sched86 =
  sx_tcb :: "addr \<Rightarrow> tcb86"
  sx_current :: ptr
  sx_ready :: "nat \<Rightarrow> ptr"
  sx_table :: "addr list"      \<comment> \<open>\<open>task_table[0 .. task_count-1]\<close>\<close>
  sx_ticks :: u64
  sx_running :: bool
  sx_lock :: xlock
  sx_cpu :: cpu86
  sx_stack :: "u64 \<Rightarrow> u64"
  sx_idle :: addr
  sx_trampoline :: u64         \<comment> \<open>\<open>task_entry_trampoline\<close>\<close>
  sx_exit_handler :: u64       \<comment> \<open>\<open>task_exit_handler\<close>\<close>
  sx_schedule_ra :: u64        \<comment> \<open>behind the call of \<open>arch_context_switch\<close>\<close>
  sx_entry_ra :: u64           \<comment> \<open>behind the two calls of the trampoline\<close>
  sx_exit_ra :: u64

definition x_upd :: "addr \<Rightarrow> (tcb86 \<Rightarrow> tcb86) \<Rightarrow> sched86 \<Rightarrow> sched86" where
  "x_upd a f s = s\<lparr>sx_tcb := (sx_tcb s)(a := f (sx_tcb s a))\<rparr>"

definition sched86_lock_irq :: "sched86 \<Rightarrow> sched86 option" where
  "sched86_lock_irq s = do {
     (l, flags) \<leftarrow> x_lock_irq (sx_lock s) (p_flags (sx_cpu s));
     Some (s\<lparr>sx_lock := l, sx_cpu := (sx_cpu s)\<lparr>p_flags := flags\<rparr>\<rparr>)
   }"

definition sched86_unlock_irq :: "sched86 \<Rightarrow> sched86" where
  "sched86_unlock_irq s =
     (let (l, flags) = x_unlock_irq (sx_lock s) (p_flags (sx_cpu s))
      in s\<lparr>sx_lock := l, sx_cpu := (sx_cpu s)\<lparr>p_flags := flags\<rparr>\<rparr>)"

definition task_current86 :: "sched86 \<Rightarrow> ptr" where
  "task_current86 s = sx_current s"

section \<open>Ready lists\<close>

definition ready_list_add86 :: "addr \<Rightarrow> sched86 \<Rightarrow> sched86 option" where
  "ready_list_add86 task s =
     (let prio = unat (c_priority (sx_tcb s task));
          s = x_upd task (c_state_update (\<lambda>_. TASK_STATE_READY)) s
      in if CONFIG_MAX_PRIORITY \<le> prio then None
         else case sx_ready s prio of
           None \<Rightarrow>
             let s = s\<lparr>sx_ready := (sx_ready s)(prio := Some task)\<rparr>;
                 s = x_upd task (c_next_update (\<lambda>_. Some task)) s
             in Some (x_upd task (c_prev_update (\<lambda>_. Some task)) s)
         | Some head \<Rightarrow>
             let s = x_upd task (c_next_update (\<lambda>_. Some head)) s;
                 s = x_upd task (c_prev_update (\<lambda>_. c_prev (sx_tcb s head))) s
             in do {
               hp \<leftarrow> c_prev (sx_tcb s head);
               let s = x_upd hp (c_next_update (\<lambda>_. Some task)) s;
               Some (x_upd head (c_prev_update (\<lambda>_. Some task)) s)
             })"

definition ready_list_remove86 :: "addr \<Rightarrow> sched86 \<Rightarrow> sched86 option" where
  "ready_list_remove86 task s =
     (let prio = unat (c_priority (sx_tcb s task)) in do {
        s \<leftarrow> (if CONFIG_MAX_PRIORITY \<le> prio then None
             else if c_next (sx_tcb s task) = Some task
             then Some (s\<lparr>sx_ready := (sx_ready s)(prio := None)\<rparr>)
             else do {
               p \<leftarrow> c_prev (sx_tcb s task);
               let s = x_upd p (c_next_update (\<lambda>_. c_next (sx_tcb s task))) s;
               n \<leftarrow> c_next (sx_tcb s task);
               let s = x_upd n (c_prev_update (\<lambda>_. c_prev (sx_tcb s task))) s;
               Some (if sx_ready s prio = Some task
                     then s\<lparr>sx_ready := (sx_ready s)(prio := c_next (sx_tcb s task))\<rparr> else s)
             });
        let s = x_upd task (c_next_update (\<lambda>_. None)) s;
        Some (x_upd task (c_prev_update (\<lambda>_. None)) s)
      })"

definition task_ready_add86 :: "addr \<Rightarrow> sched86 \<Rightarrow> sched86 option" where
  "task_ready_add86 task s = do {
     s \<leftarrow> sched86_lock_irq s;
     s \<leftarrow> ready_list_add86 task s;
     Some (sched86_unlock_irq s)
   }"

definition get_highest_ready86 :: "sched86 \<Rightarrow> addr" where
  "get_highest_ready86 s =
     (case highest_ready_below (sx_ready s) CONFIG_MAX_PRIORITY of Some a \<Rightarrow> a | None \<Rightarrow> sx_idle s)"

section \<open>Context switch\<close>

text \<open>A call pushes the address behind it.\<close>

definition call86 :: "u64 \<Rightarrow> sched86 \<Rightarrow> sched86" where
  "call86 ra s =
     (let sp = p_rsp (sx_cpu s) - 8
      in s\<lparr>sx_stack := (sx_stack s)(sp := ra), sx_cpu := (sx_cpu s)\<lparr>p_rsp := sp\<rparr>\<rparr>)"

definition load86 :: "tcb86 \<Rightarrow> cpu86 \<Rightarrow> cpu86" where
  "load86 t c = c\<lparr>p_rsp := c_sp t, p_rbx := c_rbx t, p_rbp := c_rbp t, p_r12 := c_r12 t, p_r13 := c_r13 t,
     p_r14 := c_r14 t, p_r15 := c_r15 t, p_rip := c_rip t\<rparr>"

definition arch_context_switch86 :: "addr \<Rightarrow> addr \<Rightarrow> sched86 \<Rightarrow> sched86" where
  "arch_context_switch86 p n s =
     (let c = (sx_cpu s)\<lparr>p_rax := sx_stack s (p_rsp (sx_cpu s))\<rparr>;
          s = x_upd p (\<lambda>t. t\<lparr>c_rip := p_rax c, c_rbx := p_rbx c, c_rbp := p_rbp c, c_r12 := p_r12 c, c_r13 := p_r13 c,
                c_r14 := p_r14 c, c_r15 := p_r15 c, c_sp := p_rsp c\<rparr>) s
      in s\<lparr>sx_cpu := load86 (sx_tcb s n) c\<rparr>)"

definition arch_first_switch86 :: "addr \<Rightarrow> sched86 \<Rightarrow> sched86" where
  "arch_first_switch86 n s =
     (let c = load86 (sx_tcb s n) (sx_cpu s) in s\<lparr>sx_cpu := c\<lparr>p_flags := p_flags c OR 0x200\<rparr>\<rparr>)"

text \<open>The trampoline up to the function of the task, and what it does when that function has returned to it.\<close>

definition trampoline_enter :: "sched86 \<Rightarrow> sched86" where
  "trampoline_enter s =
     (let c = sx_cpu s; rax = sx_stack s (p_rsp c); rdi = sx_stack s (p_rsp c + 8);
          s = call86 (sx_entry_ra s) (s\<lparr>sx_cpu := c\<lparr>p_rax := rax, p_rdi := rdi, p_rsp := p_rsp c + 16\<rparr>\<rparr>)
      in s\<lparr>sx_cpu := (sx_cpu s)\<lparr>p_rip := rax\<rparr>\<rparr>)"

definition trampoline_exit :: "sched86 \<Rightarrow> sched86" where
  "trampoline_exit s =
     (let c = sx_cpu s; rax = sx_stack s (p_rsp c);
          s = call86 (sx_exit_ra s) (s\<lparr>sx_cpu := c\<lparr>p_rax := rax, p_rsp := p_rsp c + 8\<rparr>\<rparr>)
      in s\<lparr>sx_cpu := (sx_cpu s)\<lparr>p_rip := rax\<rparr>\<rparr>)"

definition schedule_locked86 :: "sched86 \<Rightarrow> sched86 ctl option" where
  "schedule_locked86 s =
     (let next = get_highest_ready86 s in
      if Some next \<noteq> sx_current s then do {
        prev \<leftarrow> sx_current s;
        s \<leftarrow> (if next \<noteq> sx_idle s then ready_list_remove86 next s else Some s);
        let s = x_upd next (\<lambda>t. t\<lparr>c_state := TASK_STATE_RUNNING, c_switches := c_switches t + 1\<rparr>) s;
        let s = s\<lparr>sx_current := Some next\<rparr>;
        Some (Sw (arch_context_switch86 prev next (call86 (sx_schedule_ra s) s)))
      } else Some (Ret s))"

text \<open>What follows \<open>schedule_locked\<close> in its callers, where control comes back.\<close>

definition after_schedule86 :: "sched86 ctl \<Rightarrow> sched86 ctl" where
  "after_schedule86 r = (case r of Ret s \<Rightarrow> Ret (sched86_unlock_irq s) | Sw s \<Rightarrow> Sw s)"

section \<open>Task operations\<close>

definition task_create86 ::
    "ptr \<Rightarrow> string \<Rightarrow> u64 \<Rightarrow> u64 \<Rightarrow> u8 \<Rightarrow> u64 \<Rightarrow> u64 \<Rightarrow> sched86 \<Rightarrow> (status \<times> sched86) option" where
  "task_create86 tcbp name entry arg priority stack stack_size s =
     (case tcbp of
        None \<Rightarrow> Some (STATUS_INVALID, s)
      | Some a \<Rightarrow>
          if entry = 0 \<or> stack = 0 then Some (STATUS_INVALID, s)
          else if CONFIG_MAX_PRIORITY \<le> unat priority then Some (STATUS_INVALID, s)
          else if CONFIG_MAX_TASKS \<le> length (sx_table s) then Some (STATUS_NO_MEM, s)
          else
            let sp = ((stack + stack_size) AND NOT 15) - 24;
                s = x_upd a (\<lambda>t. t\<lparr>c_name := name, c_priority := priority, c_state := TASK_STATE_SUSPENDED,
                      c_stack_base := stack, c_stack_size := stack_size, c_remaining_slice := 10, c_wait_obj := None,
                      c_next := None, c_prev := None, c_total_ticks := 0, c_switches := 0\<rparr>) s;
                s = s\<lparr>sx_stack := (sx_stack s)(sp := entry, sp + 8 := arg, sp + 16 := sx_exit_handler s)\<rparr>;
                s = x_upd a (\<lambda>t. t\<lparr>c_sp := sp, c_rbx := 0, c_rbp := 0, c_r12 := 0, c_r13 := 0, c_r14 := 0, c_r15 := 0,
                      c_rip := sx_trampoline s\<rparr>) s
            in do {
              s \<leftarrow> sched86_lock_irq s;
              let s = x_upd a (c_id_update (\<lambda>_. of_nat (length (sx_table s)))) s;
              let s = s\<lparr>sx_table := sx_table s @ [a]\<rparr>;
              Some (STATUS_OK, sched86_unlock_irq s)
            })"

definition task_yield86 :: "sched86 \<Rightarrow> sched86 ctl option" where
  "task_yield86 s = do {
     s \<leftarrow> sched86_lock_irq s;
     c \<leftarrow> sx_current s;
     s \<leftarrow> (if c_state (sx_tcb s c) = TASK_STATE_RUNNING then do {
            s \<leftarrow> ready_list_add86 c s;
            Some (s\<lparr>sx_ready := (sx_ready s)(unat (c_priority (sx_tcb s c)) := c_next (sx_tcb s c))\<rparr>)
          } else Some s);
     r \<leftarrow> schedule_locked86 s;
     Some (after_schedule86 r)
   }"

definition task_start86 :: "ptr \<Rightarrow> sched86 \<Rightarrow> (status \<times> sched86 ctl) option" where
  "task_start86 tcbp s =
     (case tcbp of
        None \<Rightarrow> Some (STATUS_INVALID, Ret s)
      | Some a \<Rightarrow> do {
          s \<leftarrow> sched86_lock_irq s;
          if c_state (sx_tcb s a) = TASK_STATE_SUSPENDED then do {
            s \<leftarrow> ready_list_add86 a s;
            if sx_running s \<and> sx_current s \<noteq> None \<and>
               c_priority (sx_tcb s (the (sx_current s))) < c_priority (sx_tcb s a)
            then do {
              r \<leftarrow> task_yield86 (sched86_unlock_irq s);
              Some (STATUS_OK, r)
            } else Some (STATUS_OK, Ret (sched86_unlock_irq s))
          } else Some (STATUS_OK, Ret (sched86_unlock_irq s))
        })"

text \<open>When \<open>schedule_locked\<close> comes back to \<open>task_terminate\<close>, the task halts with interrupts masked.\<close>

definition task_terminate86 :: "sched86 \<Rightarrow> sched86 ctl option" where
  "task_terminate86 s = do {
     s \<leftarrow> sched86_lock_irq s;
     c \<leftarrow> sx_current s;
     r \<leftarrow> schedule_locked86 (x_upd c (c_state_update (\<lambda>_. TASK_STATE_TERMINATED)) s);
     case r of Ret s \<Rightarrow> None | Sw s \<Rightarrow> Some (Sw s)
   }"

definition task_exit_handler86 :: "sched86 \<Rightarrow> sched86 ctl option" where
  "task_exit_handler86 s = task_terminate86 s"

definition task_sleep86 :: "u64 \<Rightarrow> sched86 \<Rightarrow> sched86 ctl option" where
  "task_sleep86 ticks s = do {
     s \<leftarrow> sched86_lock_irq s;
     c \<leftarrow> sx_current s;
     let s = x_upd c (\<lambda>t. t\<lparr>c_state := TASK_STATE_BLOCKED, c_wake_tick := sx_ticks s + ticks\<rparr>) s;
     r \<leftarrow> schedule_locked86 s;
     Some (after_schedule86 r)
   }"

section \<open>Timer tick and start\<close>

definition tick_wake86 :: "addr \<Rightarrow> sched86 \<Rightarrow> sched86 option" where
  "tick_wake86 task s =
     (if c_state (sx_tcb s task) = TASK_STATE_BLOCKED \<and> c_wait_obj (sx_tcb s task) = None \<and>
         c_wake_tick (sx_tcb s task) \<le> sx_ticks s
      then do {
        l \<leftarrow> x_lock (sx_lock s);
        let s = s\<lparr>sx_lock := l\<rparr>;
        s \<leftarrow> (if c_state (sx_tcb s task) = TASK_STATE_BLOCKED then ready_list_add86 task s else Some s);
        Some (s\<lparr>sx_lock := x_unlock (sx_lock s)\<rparr>)
      } else Some s)"

fun tick_loop86 :: "addr list \<Rightarrow> sched86 \<Rightarrow> sched86 option" where
  "tick_loop86 [] s = Some s"
| "tick_loop86 (task # tasks) s = do { s \<leftarrow> tick_wake86 task s; tick_loop86 tasks s }"

definition scheduler_tick86 :: "sched86 \<Rightarrow> sched86 ctl option" where
  "scheduler_tick86 s = do {
     s \<leftarrow> tick_loop86 (sx_table s) s;
     case sx_current s of
       None \<Rightarrow> Some (Ret s)
     | Some c \<Rightarrow>
         if c = sx_idle s then Some (Ret s)
         else
           let s = x_upd c (\<lambda>t. t\<lparr>c_total_ticks := c_total_ticks t + 1, c_remaining_slice := c_remaining_slice t - 1\<rparr>) s
           in if c_remaining_slice (sx_tcb s c) = 0
              then task_yield86 (x_upd c (c_remaining_slice_update (\<lambda>_. 10)) s)
              else Some (Ret s)
   }"

text \<open>\<open>idle_task\<close> and \<open>idle_stack\<close> are addresses; the result of \<open>task_create\<close> is not looked at.\<close>

definition scheduler_start86 :: "u64 \<Rightarrow> u64 \<Rightarrow> sched86 \<Rightarrow> sched86 option" where
  "scheduler_start86 idle_task idle_stack s = do {
     (st, s) \<leftarrow> task_create86 (Some (sx_idle s)) ''idle'' idle_task 0 0 idle_stack 4096 s;
     let s = x_upd (sx_idle s) (c_state_update (\<lambda>_. TASK_STATE_READY)) s;
     let c = get_highest_ready86 s;
     let s = s\<lparr>sx_current := Some c\<rparr>;
     s \<leftarrow> (if c \<noteq> sx_idle s then ready_list_remove86 c s else Some s);
     let s = x_upd c (c_state_update (\<lambda>_. TASK_STATE_RUNNING)) s;
     Some (arch_first_switch86 c (s\<lparr>sx_running := True\<rparr>))
   }"

end
