(* ===== verification/X86_Sched_Props.thy ===== *)
theory X86_Sched_Props
  imports X86_Sched Sched_Props
begin

text \<open>
  The x86 scheduler against the ARM64 one: the same decisions, operation by operation, so that what \<open>Sched_Inv\<close> and
  \<open>Sched_Props\<close> show of the ready lists holds of both; and what is different, the switch itself.
\<close>

section \<open>The simulation\<close>

definition same_task :: "tcb86 \<Rightarrow> tcb \<Rightarrow> bool" where
  "same_task u v \<longleftrightarrow> c_id u = t_id v \<and> c_name u = t_name v \<and> c_priority u = t_priority v \<and> c_state u = t_state v \<and>
     c_stack_base u = t_stack_base v \<and> c_stack_size u = t_stack_size v \<and> c_next u = t_next v \<and> c_prev u = t_prev v \<and>
     c_wait_obj u = t_wait_obj v \<and> c_wait_result u = t_wait_result v"

definition sim :: "sched86 \<Rightarrow> sched \<Rightarrow> bool" where
  "sim s t \<longleftrightarrow> (\<forall>a. same_task (sx_tcb s a) (sc_tcb t a)) \<and> sx_current s = sc_current t \<and> sx_ready s = sc_ready t \<and>
     sx_table s = sc_table t \<and> sx_running s = sc_running t \<and> sx_idle s = sc_idle t \<and> xl_lock (sx_lock s) = sl_lock (sc_lock t)"

lemma simD:
  assumes "sim s t"
  shows "same_task (sx_tcb s a) (sc_tcb t a)" "sc_current t = sx_current s" "sc_ready t = sx_ready s" "sc_table t = sx_table s"
    "sc_running t = sx_running s" "sc_idle t = sx_idle s" "sl_lock (sc_lock t) = xl_lock (sx_lock s)"
    "t_priority (sc_tcb t a) = c_priority (sx_tcb s a)" "t_state (sc_tcb t a) = c_state (sx_tcb s a)"
    "t_next (sc_tcb t a) = c_next (sx_tcb s a)" "t_prev (sc_tcb t a) = c_prev (sx_tcb s a)"
    "t_wait_obj (sc_tcb t a) = c_wait_obj (sx_tcb s a)" "t_wait_result (sc_tcb t a) = c_wait_result (sx_tcb s a)"
  using assms by (auto simp: sim_def same_task_def)

lemma sim_upd: "sim s t \<Longrightarrow> same_task (f (sx_tcb s a)) (g (sc_tcb t a)) \<Longrightarrow> sim (x_upd a f s) (t_upd a g t)"
  by (simp add: sim_def x_upd_def)

lemma sim_ready: "sim s t \<Longrightarrow> sim (s\<lparr>sx_ready := r\<rparr>) (t\<lparr>sc_ready := r\<rparr>)"
  by (simp add: sim_def)

lemma x_upd_simps [simp]:
  "sx_ready (x_upd a f s) = sx_ready s" "sx_current (x_upd a f s) = sx_current s" "sx_table (x_upd a f s) = sx_table s"
  "sx_ticks (x_upd a f s) = sx_ticks s" "sx_running (x_upd a f s) = sx_running s" "sx_lock (x_upd a f s) = sx_lock s"
  "sx_cpu (x_upd a f s) = sx_cpu s" "sx_idle (x_upd a f s) = sx_idle s" "sx_stack (x_upd a f s) = sx_stack s"
  "sx_schedule_ra (x_upd a f s) = sx_schedule_ra s" "sx_trampoline (x_upd a f s) = sx_trampoline s"
  "sx_exit_handler (x_upd a f s) = sx_exit_handler s" "sx_entry_ra (x_upd a f s) = sx_entry_ra s"
  "sx_tcb (x_upd a f s) = (sx_tcb s)(a := f (sx_tcb s a))"
  by (simp_all add: x_upd_def)

lemma x_upd_twice: "x_upd a f (x_upd a g s) = x_upd a (\<lambda>u. f (g u)) s"
  by (simp add: x_upd_def)

lemma sim_next: "sim s t \<Longrightarrow> sim (x_upd a (c_next_update (\<lambda>_. x)) s) (t_upd a (t_next_update (\<lambda>_. x)) t)"
  by (rule sim_upd) (use simD(1)[of s t a] in \<open>simp_all add: same_task_def\<close>)

lemma sim_prev: "sim s t \<Longrightarrow> sim (x_upd a (c_prev_update (\<lambda>_. x)) s) (t_upd a (t_prev_update (\<lambda>_. x)) t)"
  by (rule sim_upd) (use simD(1)[of s t a] in \<open>simp_all add: same_task_def\<close>)

lemma sim_state: "sim s t \<Longrightarrow> sim (x_upd a (c_state_update (\<lambda>_. x)) s) (t_upd a (t_state_update (\<lambda>_. x)) t)"
  by (rule sim_upd) (use simD(1)[of s t a] in \<open>simp_all add: same_task_def\<close>)

lemma rel_bind:
  "rel_option P x y \<Longrightarrow> (\<And>a b. P a b \<Longrightarrow> rel_option Q (f a) (g b)) \<Longrightarrow> rel_option Q (Option.bind x f) (Option.bind y g)"
  by (cases x; cases y) auto


lemma rel_bind_eq: "x = y \<Longrightarrow> (\<And>a. rel_option Q (f a) (g a)) \<Longrightarrow> rel_option Q (Option.bind x f) (Option.bind y g)"
  by (cases y) auto

lemma sim_add:
  assumes sim: "sim s t"
  shows "rel_option sim (ready_list_add86 a s) (ready_list_add a t)"
proof -
  let ?p = "unat (c_priority (sx_tcb s a))"
  let ?s = "x_upd a (c_state_update (\<lambda>_. TASK_STATE_READY)) s"
  let ?t = "t_upd a (t_state_update (\<lambda>_. TASK_STATE_READY)) t"
  note 1 = sim_state[OF sim, of a TASK_STATE_READY]
  consider "CONFIG_MAX_PRIORITY \<le> ?p" | "\<not> CONFIG_MAX_PRIORITY \<le> ?p" "sx_ready s ?p = None"
    | h where "\<not> CONFIG_MAX_PRIORITY \<le> ?p" "sx_ready s ?p = Some h" by (cases "sx_ready s ?p") auto
  then show ?thesis
  proof cases
    case 2
    have "sim (x_upd a (c_prev_update (\<lambda>_. Some a)) (x_upd a (c_next_update (\<lambda>_. Some a)) (?s\<lparr>sx_ready := (sx_ready s)(?p := Some a)\<rparr>)))
        (t_upd a (\<lambda>t. t\<lparr>t_next := Some a, t_prev := Some a\<rparr>) (?t\<lparr>sc_ready := (sx_ready s)(?p := Some a)\<rparr>))"
      unfolding x_upd_twice
      by (rule sim_upd[OF sim_ready[OF 1]]) (use simD(1)[OF 1, of a] in \<open>simp add: same_task_def\<close>)
    then show ?thesis using 2 by (simp add: ready_list_add86_def ready_list_add_def Let_def simD[OF sim])
  next
    case 3
    note 2 = sim_next[OF 1, of a "Some h"]
    let ?s2 = "x_upd a (c_next_update (\<lambda>_. Some h)) ?s" and ?t2 = "t_upd a (t_next_update (\<lambda>_. Some h)) ?t"
    let ?s3 = "x_upd a (c_prev_update (\<lambda>_. c_prev (sx_tcb ?s2 h))) ?s2" and ?t3 = "t_upd a (t_prev_update (\<lambda>_. c_prev (sx_tcb ?s2 h))) ?t2"
    note 3 = sim_prev[OF 2, of a "c_prev (sx_tcb ?s2 h)"]
    have r86: "ready_list_add86 a s = Option.bind (c_prev (sx_tcb ?s3 h)) (\<lambda>q. Some (x_upd h (c_prev_update (\<lambda>_. Some a)) (x_upd q (c_next_update (\<lambda>_. Some a)) ?s3)))"
      using \<open>sx_ready s ?p = Some h\<close> \<open>\<not> CONFIG_MAX_PRIORITY \<le> ?p\<close> by (simp add: ready_list_add86_def Let_def)
    have r: "ready_list_add a t = Option.bind (t_prev (sc_tcb ?t3 h)) (\<lambda>q. Some (t_upd h (t_prev_update (\<lambda>_. Some a)) (t_upd q (t_next_update (\<lambda>_. Some a)) ?t3)))"
      using \<open>sx_ready s ?p = Some h\<close> \<open>\<not> CONFIG_MAX_PRIORITY \<le> ?p\<close> simD(11)[OF 2, of h] by (simp add: ready_list_add_def Let_def simD[OF sim])
    show ?thesis unfolding r86 r
      by (rule rel_bind_eq) (simp_all only: simD(11)[OF 3] option.rel_inject sim_prev sim_next 3)
  qed (simp add: ready_list_add86_def ready_list_add_def Let_def simD[OF sim])
qed

lemma sim_remove:
  assumes sim: "sim s t"
  shows "rel_option sim (ready_list_remove86 a s) (ready_list_remove a t)"
proof -
  let ?p = "unat (c_priority (sx_tcb s a))"
  define s1 where "s1 p = x_upd p (c_next_update (\<lambda>_. c_next (sx_tcb s a))) s" for p
  define t1 where "t1 p = t_upd p (t_next_update (\<lambda>_. t_next (sc_tcb t a))) t" for p
  have 1: "sim (s1 p) (t1 p)" for p unfolding s1_def t1_def simD(10)[OF sim] by (rule sim_next[OF sim])
  define s2 where "s2 p n = x_upd n (c_prev_update (\<lambda>_. c_prev (sx_tcb (s1 p) a))) (s1 p)" for p n
  define t2 where "t2 p n = t_upd n (t_prev_update (\<lambda>_. t_prev (sc_tcb (t1 p) a))) (t1 p)" for p n
  have 2: "sim (s2 p n) (t2 p n)" for p n unfolding s2_def t2_def simD(11)[OF 1] by (rule sim_prev[OF 1])
  define end86 where "end86 u = (if sx_ready u ?p = Some a then u\<lparr>sx_ready := (sx_ready u)(?p := c_next (sx_tcb u a))\<rparr> else u)" for u :: sched86
  define end64 where "end64 v = (if sc_ready v ?p = Some a then v\<lparr>sc_ready := (sc_ready v)(?p := t_next (sc_tcb v a))\<rparr> else v)" for v :: sched
  have ends: "sim u v \<Longrightarrow> sim (end86 u) (end64 v)" for u v using sim_ready[of u v] by (simp add: end86_def end64_def simD)
  define body86 where "body86 = (if CONFIG_MAX_PRIORITY \<le> ?p then None
      else if c_next (sx_tcb s a) = Some a then Some (s\<lparr>sx_ready := (sx_ready s)(?p := None)\<rparr>)
      else Option.bind (c_prev (sx_tcb s a)) (\<lambda>p. Option.bind (c_next (sx_tcb (s1 p) a)) (\<lambda>n. Some (end86 (s2 p n)))))"
  define body where "body = (if CONFIG_MAX_PRIORITY \<le> ?p then None
      else if t_next (sc_tcb t a) = Some a then Some (t\<lparr>sc_ready := (sc_ready t)(?p := None)\<rparr>)
      else Option.bind (t_prev (sc_tcb t a)) (\<lambda>p. Option.bind (t_next (sc_tcb (t1 p) a)) (\<lambda>n. Some (end64 (t2 p n)))))"
  have steps: "rel_option sim (Option.bind (c_prev (sx_tcb s a)) (\<lambda>p. Option.bind (c_next (sx_tcb (s1 p) a)) (\<lambda>n. Some (end86 (s2 p n)))))
      (Option.bind (t_prev (sc_tcb t a)) (\<lambda>p. Option.bind (t_next (sc_tcb (t1 p) a)) (\<lambda>n. Some (end64 (t2 p n)))))"
    by (intro rel_bind_eq) (simp_all add: simD(11)[OF sim] simD(10)[OF 1] ends[OF 2])
  have "rel_option sim body86 body"
    using steps sim_ready[OF sim] by (simp add: body86_def body_def simD(3,10)[OF sim])
  moreover have "ready_list_remove86 a s = Option.bind body86 (\<lambda>s. Some (x_upd a (c_prev_update (\<lambda>_. None)) (x_upd a (c_next_update (\<lambda>_. None)) s)))"
    by (simp only: ready_list_remove86_def body86_def Let_def s1_def s2_def end86_def)
  moreover have "ready_list_remove a t = Option.bind body (\<lambda>t. Some (t_upd a (\<lambda>t. t\<lparr>t_next := None, t_prev := None\<rparr>) t))"
    by (simp only: ready_list_remove_def body_def Let_def simD(8)[OF sim] t1_def t2_def end64_def)
  moreover have "rel_option sim (Some (x_upd a (c_prev_update (\<lambda>_. None)) (x_upd a (c_next_update (\<lambda>_. None)) u)))
      (Some (t_upd a (\<lambda>t. t\<lparr>t_next := None, t_prev := None\<rparr>) v))" if "sim u v" for u v
    unfolding x_upd_twice option.rel_inject by (rule sim_upd[OF that]) (use simD(1)[OF that, of a] in \<open>simp add: same_task_def\<close>)
  ultimately show ?thesis using rel_bind[of sim body86 body sim] by simp
qed

lemma sim_highest: "sim s t \<Longrightarrow> get_highest_ready86 s = get_highest_ready t"
  by (simp add: get_highest_ready86_def get_highest_ready_def simD split: option.split)

section \<open>Operations\<close>

lemma sim_lock: "sim s t \<Longrightarrow> rel_option sim (sched86_lock_irq s) (sched_lock_irq t)"
  by (auto simp: sched86_lock_irq_def x_lock_irq_def x_lock_def x86_irq_save_def sched_lock_irq_def spin_lock_irq_def spin_lock_def
      arch_irq_save_def sim_def)

lemma sim_unlock: "sim s t \<Longrightarrow> sim (sched86_unlock_irq s) (sched_unlock_irq t)"
  by (simp add: sched86_unlock_irq_def x_unlock_irq_def x_unlock_def sched_unlock_irq_def spin_unlock_irq_def spin_unlock_def Let_def sim_def)

lemma sim_switch:
  "sim s t \<Longrightarrow> sim (arch_context_switch86 p n (call86 ra s)) (arch_context_switch p n (t\<lparr>sc_cpu := c\<rparr>))"
  by (simp add: sim_def arch_context_switch86_def arch_context_switch_def call86_def Let_def same_task_def)

lemma remove_current: "ready_list_remove a t = Some t' \<Longrightarrow> sc_current t' = sc_current t"
  by (auto simp: ready_list_remove_def Let_def bind_eq_Some_conv split: if_splits)

abbreviation sim_ctl :: "sched86 ctl option \<Rightarrow> sched ctl option \<Rightarrow> bool" where
  "sim_ctl \<equiv> rel_option (rel_ctl sim)"

lemma sim_schedule:
  assumes "sim s t"
  shows "sim_ctl (schedule_locked86 s) (schedule_locked t)"
proof -
  let ?n = "get_highest_ready t"
  have run: "sim (x_upd ?n (\<lambda>t. t\<lparr>c_state := TASK_STATE_RUNNING, c_switches := c_switches t + 1\<rparr>) u)
      (t_upd ?n (t_state_update (\<lambda>_. TASK_STATE_RUNNING)) v)" if "sim u v" for u v
    by (rule sim_upd[OF that]) (use simD(1)[OF that, of ?n] in \<open>simp add: same_task_def\<close>)
  have cur: "sim u v \<Longrightarrow> sim (u\<lparr>sx_current := x\<rparr>) (v\<lparr>sc_current := x\<rparr>)" for u v x by (simp add: sim_def)
  have take: "rel_option sim (if ?n \<noteq> sx_idle s then ready_list_remove86 ?n s else Some s)
      (if ?n \<noteq> sc_idle t then ready_list_remove ?n t else Some t)"
    using sim_remove[OF assms] assms by (simp add: simD)
  show ?thesis
  proof (cases "sx_current s")
    case None
    then have "sc_current v = None" if "ready_list_remove ?n t = Some v" for v
      using remove_current[OF that] simD(2)[OF assms] by simp
    then show ?thesis using None
      by (cases "ready_list_remove ?n t") (auto simp: schedule_locked86_def schedule_locked_def Let_def sim_highest[OF assms] simD[OF assms])
  next
    case (Some p)
    have go: "sim_ctl (Option.bind x (\<lambda>u. Some (Sw (f u)))) (Option.bind y (\<lambda>v. Option.bind (sc_current v) (\<lambda>q. Some (Sw (g q v)))))"
      if "rel_option sim x y" and "\<And>v. y = Some v \<Longrightarrow> sc_current v = Some p" and "\<And>u v. sim u v \<Longrightarrow> sim (f u) (g p v)" for x y f g
      using that by (cases x; cases y) auto
    have prev: "sc_current v = Some p" if "(if ?n \<noteq> sc_idle t then ready_list_remove ?n t else Some t) = Some v" for v
      using that remove_current Some simD(2)[OF assms] by (auto split: if_splits)
    have "sim_ctl (Option.bind (if ?n \<noteq> sx_idle s then ready_list_remove86 ?n s else Some s) (\<lambda>u. Some (Sw (arch_context_switch86 p ?n
        (call86 (sx_schedule_ra u) ((x_upd ?n (\<lambda>t. t\<lparr>c_state := TASK_STATE_RUNNING, c_switches := c_switches t + 1\<rparr>) u)\<lparr>sx_current := Some ?n\<rparr>))))))
      (Option.bind (if ?n \<noteq> sc_idle t then ready_list_remove ?n t else Some t) (\<lambda>v. Option.bind (sc_current v) (\<lambda>q. Some (Sw (arch_context_switch q ?n
        ((t_upd ?n (t_state_update (\<lambda>_. TASK_STATE_RUNNING)) v)\<lparr>sc_current := Some ?n, sc_cpu := (sc_cpu v)\<lparr>cpu_x := (cpu_x (sc_cpu v))(30 := sc_schedule_ra v)\<rparr>\<rparr>))))))"
      by (rule go[OF take prev]) (assumption, rule sim_switch[OF cur[OF run]])
    then show ?thesis using Some
      by (auto simp: schedule_locked86_def schedule_locked_def Let_def sim_highest[OF assms] simD(2)[OF assms] assms)
  qed
qed


lemma sim_after: "sim_ctl x y \<Longrightarrow>
    sim_ctl (Option.bind x (\<lambda>r. Some (after_schedule86 r))) (Option.bind y (\<lambda>r. Some (after_schedule r)))"
  by (erule rel_bind) (auto simp: after_schedule86_def after_schedule_def sim_unlock split: ctl.split)

lemma sim_yield:
  assumes "sim s t"
  shows "sim_ctl (task_yield86 s) (task_yield t)"
  unfolding task_yield86_def task_yield_def
proof (rule rel_bind[OF sim_lock[OF assms]])
  fix u v
  assume uv: "sim u v"
  show "sim_ctl (Option.bind (sx_current u) (\<lambda>c. Option.bind (if c_state (sx_tcb u c) = TASK_STATE_RUNNING
        then Option.bind (ready_list_add86 c u) (\<lambda>s. Some (s\<lparr>sx_ready := (sx_ready s)(unat (c_priority (sx_tcb s c)) := c_next (sx_tcb s c))\<rparr>))
        else Some u) (\<lambda>s. Option.bind (schedule_locked86 s) (\<lambda>r. Some (after_schedule86 r)))))
      (Option.bind (sc_current v) (\<lambda>c. Option.bind (if t_state (sc_tcb v c) = TASK_STATE_RUNNING
        then Option.bind (ready_list_add c v) (\<lambda>s. Some (s\<lparr>sc_ready := (sc_ready s)(unat (t_priority (sc_tcb s c)) := t_next (sc_tcb s c))\<rparr>))
        else Some v) (\<lambda>s. Option.bind (schedule_locked s) (\<lambda>r. Some (after_schedule r)))))"
  proof (rule rel_bind_eq)
    fix c
    have "rel_option sim (if c_state (sx_tcb u c) = TASK_STATE_RUNNING
        then Option.bind (ready_list_add86 c u) (\<lambda>s. Some (s\<lparr>sx_ready := (sx_ready s)(unat (c_priority (sx_tcb s c)) := c_next (sx_tcb s c))\<rparr>))
        else Some u) (if t_state (sc_tcb v c) = TASK_STATE_RUNNING
        then Option.bind (ready_list_add c v) (\<lambda>s. Some (s\<lparr>sc_ready := (sc_ready s)(unat (t_priority (sc_tcb s c)) := t_next (sc_tcb s c))\<rparr>))
        else Some v)"
      using uv by (auto simp: simD intro!: rel_bind[OF sim_add[OF uv]] sim_ready)
    then show "sim_ctl (Option.bind (if c_state (sx_tcb u c) = TASK_STATE_RUNNING
        then Option.bind (ready_list_add86 c u) (\<lambda>s. Some (s\<lparr>sx_ready := (sx_ready s)(unat (c_priority (sx_tcb s c)) := c_next (sx_tcb s c))\<rparr>))
        else Some u) (\<lambda>s. Option.bind (schedule_locked86 s) (\<lambda>r. Some (after_schedule86 r))))
      (Option.bind (if t_state (sc_tcb v c) = TASK_STATE_RUNNING
        then Option.bind (ready_list_add c v) (\<lambda>s. Some (s\<lparr>sc_ready := (sc_ready s)(unat (t_priority (sc_tcb s c)) := t_next (sc_tcb s c))\<rparr>))
        else Some v) (\<lambda>s. Option.bind (schedule_locked s) (\<lambda>r. Some (after_schedule r))))"
      by (rule rel_bind) (intro sim_after sim_schedule)
  qed (simp add: simD(2)[OF uv])
qed

lemma sim_sleep:
  assumes "sim s t"
  shows "sim_ctl (task_sleep86 m s) (task_sleep n t)"
proof -
  have block: "sim (x_upd c (\<lambda>t. t\<lparr>c_state := TASK_STATE_BLOCKED, c_wake_tick := x\<rparr>) u) (t_upd c (\<lambda>t. t\<lparr>t_state := TASK_STATE_BLOCKED, t_wake_tick := y\<rparr>) v)"
    if "sim u v" for u v c x y
    by (rule sim_upd[OF that]) (use simD(1)[OF that, of c] in \<open>simp add: same_task_def\<close>)
  show ?thesis unfolding task_sleep86_def task_sleep_def Let_def
    by (intro rel_bind[OF sim_lock[OF assms]] rel_bind_eq sim_after sim_schedule block) (simp_all add: simD)
qed

text \<open>\<open>task_start\<close> reads the priority of a current task, and \<open>task_create\<close> sets the fields that both kernels have.\<close>

lemma sim_create:
  assumes "sim s t"
  shows "rel_option (rel_prod (=) sim) (task_create86 p name entry arg prio stack sz s) (task_create p name entry arg prio stack sz t)"
proof (cases p)
  case (Some a)
  let ?sp = "((stack + sz) AND NOT 15) - 24"
  define u where "u = x_upd a (\<lambda>t. t\<lparr>c_sp := ?sp, c_rbx := 0, c_rbp := 0, c_r12 := 0, c_r13 := 0, c_r14 := 0, c_r15 := 0, c_rip := sx_trampoline s\<rparr>)
     ((x_upd a (\<lambda>t. t\<lparr>c_name := name, c_priority := prio, c_state := TASK_STATE_SUSPENDED, c_stack_base := stack, c_stack_size := sz,
        c_remaining_slice := 10, c_wait_obj := None, c_next := None, c_prev := None, c_total_ticks := 0, c_switches := 0\<rparr>) s)
        \<lparr>sx_stack := (sx_stack s)(?sp := entry, ?sp + 8 := arg, ?sp + 16 := sx_exit_handler s)\<rparr>)"
  define v where "v = t_upd a (\<lambda>x. x\<lparr>t_name := name, t_priority := prio, t_state := TASK_STATE_SUSPENDED, t_stack_base := stack,
        t_stack_size := sz, t_time_slice := 10, t_remaining_slice := 10, t_wait_obj := None, t_next := None, t_prev := None,
        t_regs := (t_regs x)(0 := entry, 1 := arg, 29 := 0, 30 := 0), t_elr := sc_wrapper_addr t, t_spsr := 0x305,
        t_sp := ((stack + sz) AND NOT 15) - 34 * 8\<rparr>) t"
  have uv: "sim u v"
    using assms unfolding sim_def u_def v_def x_upd_def by (simp add: same_task_def)
  have fin: "sim x y \<Longrightarrow> sim (sched86_unlock_irq ((x_upd a (c_id_update (\<lambda>_. of_nat (length (sx_table x)))) x)\<lparr>sx_table := sx_table x @ [a]\<rparr>))
      (sched_unlock_irq ((t_upd a (t_id_update (\<lambda>_. of_nat (length (sc_table y)))) y)\<lparr>sc_table := sc_table y @ [a]\<rparr>))" for x y
    by (rule sim_unlock) (simp add: sim_def same_task_def)
  have "rel_option (rel_prod (=) sim)
      (Option.bind (sched86_lock_irq u) (\<lambda>x. Some (STATUS_OK, sched86_unlock_irq ((x_upd a (c_id_update (\<lambda>_. of_nat (length (sx_table x)))) x)\<lparr>sx_table := sx_table x @ [a]\<rparr>))))
      (Option.bind (sched_lock_irq v) (\<lambda>y. Some (STATUS_OK, sched_unlock_irq ((t_upd a (t_id_update (\<lambda>_. of_nat (length (sc_table y)))) y)\<lparr>sc_table := sc_table y @ [a]\<rparr>))))"
    by (rule rel_bind[OF sim_lock[OF uv]]) (simp add: fin)
  then show ?thesis using Some assms
    by (simp add: task_create86_def task_create_def Let_def u_def v_def simD(4)[OF assms])
qed (simp add: task_create86_def task_create_def assms)

lemma sim_start:
  assumes "sim s t"
  shows "rel_option (rel_prod (=) (rel_ctl sim)) (task_start86 p s) (task_start p t)"
proof (cases p)
  case (Some a)
  show ?thesis unfolding Some task_start86_def task_start_def option.case
  proof (rule rel_bind[OF sim_lock[OF assms]])
    fix u v
    assume uv: "sim u v"
    have ret: "rel_option (rel_prod (=) (rel_ctl sim)) (Some (STATUS_OK, Ret (sched86_unlock_irq x))) (Some (STATUS_OK, Ret (sched_unlock_irq y)))"
      if "sim x y" for x y using sim_unlock[OF that] by simp
    have yield: "rel_option (rel_prod (=) (rel_ctl sim)) (Option.bind (task_yield86 (sched86_unlock_irq x)) (\<lambda>r. Some (STATUS_OK, r)))
        (Option.bind (task_yield (sched_unlock_irq y)) (\<lambda>r. Some (STATUS_OK, r)))" if "sim x y" for x y
      by (rule rel_bind[OF sim_yield[OF sim_unlock[OF that]]]) simp
    show "rel_option (rel_prod (=) (rel_ctl sim))
      (if c_state (sx_tcb u a) = TASK_STATE_SUSPENDED then Option.bind (ready_list_add86 a u) (\<lambda>s. if sx_running s \<and> sx_current s \<noteq> None \<and>
          c_priority (sx_tcb s (the (sx_current s))) < c_priority (sx_tcb s a) then Option.bind (task_yield86 (sched86_unlock_irq s)) (\<lambda>r. Some (STATUS_OK, r))
          else Some (STATUS_OK, Ret (sched86_unlock_irq s))) else Some (STATUS_OK, Ret (sched86_unlock_irq u)))
      (if t_state (sc_tcb v a) = TASK_STATE_SUSPENDED then Option.bind (ready_list_add a v) (\<lambda>s. if sc_running s \<and> sc_current s \<noteq> None \<and>
          t_priority (sc_tcb s (the (sc_current s))) < t_priority (sc_tcb s a) then Option.bind (task_yield (sched_unlock_irq s)) (\<lambda>r. Some (STATUS_OK, r))
          else Some (STATUS_OK, Ret (sched_unlock_irq s))) else Some (STATUS_OK, Ret (sched_unlock_irq v)))"
      using ret[OF uv] ret yield by (auto simp: simD[OF uv] simD intro!: rel_bind[OF sim_add[OF uv]])
  qed
qed (simp add: task_start86_def task_start_def assms)


text \<open>The x86 scheduler takes the decisions of the ARM64 one. From states that agree on the tasks, the ready lists and the lock, creating,
  starting, yielding and sleeping give the same status and the same kind of return, agree again afterwards, and one of them never comes back
  exactly when the other does not; so the facts on the ready lists hold of both. (Registers, stacks and tick counts are not compared.)\<close>

theorem x86_scheduler_simulates:
  assumes "sim s t"
  shows "get_highest_ready86 s = get_highest_ready t \<and> sim_ctl (task_yield86 s) (task_yield t) \<and>
    (\<forall>m n. sim_ctl (task_sleep86 m s) (task_sleep n t)) \<and>
    (\<forall>p. rel_option (rel_prod (=) (rel_ctl sim)) (task_start86 p s) (task_start p t)) \<and>
    (\<forall>p name entry arg prio stack sz. rel_option (rel_prod (=) sim) (task_create86 p name entry arg prio stack sz s)
      (task_create p name entry arg prio stack sz t))"
  by (intro conjI allI sim_highest[OF assms] sim_yield[OF assms] sim_sleep[OF assms] sim_start[OF assms] sim_create[OF assms])

text \<open>Three tasks of priority 5, the first of them running, the second never run, as in the example of \<open>Sched_Props\<close>.\<close>

definition tcb86_of :: "tcb \<Rightarrow> u64 \<Rightarrow> tcb86" where
  "tcb86_of v sp = \<lparr>c_sp = sp, c_rbx = 0, c_rbp = 0, c_r12 = 0, c_r13 = 0, c_r14 = 0, c_r15 = 0, c_rip = 0x1000, c_id = t_id v,
     c_name = t_name v, c_priority = t_priority v, c_state = t_state v, c_stack_base = t_stack_base v, c_stack_size = t_stack_size v,
     c_wake_tick = 0, c_remaining_slice = 10, c_next = t_next v, c_prev = t_prev v, c_wait_obj = t_wait_obj v,
     c_wait_result = t_wait_result v, c_total_ticks = 0, c_switches = 0\<rparr>"

definition sched86_of :: "sched \<Rightarrow> sched86" where
  "sched86_of t = \<lparr>sx_tcb = (\<lambda>a. tcb86_of (sc_tcb t a) (of_int a * 0x1000)), sx_current = sc_current t, sx_ready = sc_ready t, sx_table = sc_table t,
     sx_ticks = 0, sx_running = sc_running t, sx_lock = \<lparr>xl_lock = sl_lock (sc_lock t), xl_irq_flags = 0\<rparr>,
     sx_cpu = \<lparr>p_rsp = 0x64F00, p_rbx = 1, p_rbp = 2, p_r12 = 3, p_r13 = 4, p_r14 = 5, p_r15 = 6, p_rip = 0x5000, p_rax = 0, p_rdi = 0, p_flags = 0x202\<rparr>,
     sx_stack = (\<lambda>_. 0)(0xC8000 := 0x6000, 0xC8008 := 7), sx_idle = sc_idle t, sx_trampoline = 0x1000, sx_exit_handler = 0x1100,
     sx_schedule_ra = 0x1200, sx_entry_ra = 0x1300, sx_exit_ra = 0x1400\<rparr>"

lemma sched86_of_sim: "sim (sched86_of t) t"
  by (simp add: sim_def sched86_of_def same_task_def tcb86_of_def)

theorem x86_scheduler_simulates_witness:
  "sim_ctl (task_yield86 (sched86_of (sched_ex 100))) (task_yield (sched_ex 100))"
  using x86_scheduler_simulates[OF sched86_of_sim, of "sched_ex 100"] by blast

section \<open>The switch\<close>

text \<open>What the list operations leave alone: everything but links and states.\<close>

definition c_context :: "tcb86 \<Rightarrow> u64 list" where
  "c_context t = [c_sp t, c_rbx t, c_rbp t, c_r12 t, c_r13 t, c_r14 t, c_r15 t, c_rip t]"

definition ctx :: "sched86 \<Rightarrow> (addr \<Rightarrow> u64 list) \<times> ptr \<times> (u64 \<Rightarrow> u64) \<times> u64 \<times> u64 \<times> u64 \<times> u64" where
  "ctx s = (\<lambda>a. c_context (sx_tcb s a), sx_current s, sx_stack s, p_rsp (sx_cpu s), sx_trampoline s, sx_entry_ra s, sx_schedule_ra s)"

definition lockbits :: "sched86 \<Rightarrow> u32 \<times> u64" where
  "lockbits s = (xl_lock (sx_lock s), p_flags (sx_cpu s))"

lemma ctx_upd: "(\<And>t. c_context (f t) = c_context t) \<Longrightarrow> ctx (x_upd a f s) = ctx s" "lockbits (x_upd a f s) = lockbits s"
  by (simp_all add: ctx_def lockbits_def x_upd_def fun_eq_iff)

lemma ctx_simps [simp]:
  "ctx (x_upd a (c_next_update f) s) = ctx s" "ctx (x_upd a (c_prev_update f) s) = ctx s" "ctx (x_upd a (c_state_update g) s) = ctx s"
  "ctx (x_upd a (\<lambda>t. t\<lparr>c_state := st, c_wake_tick := w\<rparr>) s) = ctx s"
  "ctx (x_upd a (\<lambda>t. t\<lparr>c_state := st, c_switches := k t\<rparr>) s) = ctx s"
  "ctx (s\<lparr>sx_ready := r\<rparr>) = ctx s" "lockbits (s\<lparr>sx_ready := r\<rparr>) = lockbits s" "ctx (sched86_unlock_irq s) = ctx s"
  "lockbits (x_upd a h s) = lockbits s"
  by (simp_all add: ctx_upd c_context_def) (simp_all add: ctx_def lockbits_def sched86_unlock_irq_def x_unlock_irq_def Let_def)

lemma ctx_add: "ready_list_add86 a s = Some s' \<Longrightarrow> ctx s' = ctx s \<and> lockbits s' = lockbits s"
  by (auto simp: ready_list_add86_def Let_def bind_eq_Some_conv simp del: x_upd_simps split: if_splits option.splits)

lemma ctx_remove: "ready_list_remove86 a s = Some s' \<Longrightarrow> ctx s' = ctx s \<and> lockbits s' = lockbits s"
  by (auto simp: ready_list_remove86_def Let_def bind_eq_Some_conv simp del: x_upd_simps split: if_splits)

lemma ctx_lock: "sched86_lock_irq s = Some s' \<Longrightarrow> ctx s' = ctx s \<and> lockbits s' = (1, p_flags (sx_cpu s) AND NOT 0x200)"
  by (auto simp: sched86_lock_irq_def x_lock_irq_def x_lock_def x86_irq_save_def ctx_def lockbits_def split: if_splits)

lemma lock_held: "xl_lock (sx_lock s) \<noteq> 0 \<Longrightarrow> sched86_lock_irq s = None"
  by (simp add: sched86_lock_irq_def x_lock_irq_def x_lock_def x86_irq_save_def)

text \<open>The state a switch ends in: the lock is still held, interrupts are masked, and the processor has the saved context of the incoming
  task \<open>n\<close>; of memory only the return address of the call has changed.\<close>

definition handed :: "sched86 \<Rightarrow> addr \<Rightarrow> sched86 \<Rightarrow> bool" where
  "handed s n s' \<longleftrightarrow> sx_current s' = Some n \<and> sx_current s \<noteq> Some n \<and> xl_lock (sx_lock s') = 1 \<and> p_flags (sx_cpu s') AND 0x200 = 0 \<and>
     p_rsp (sx_cpu s') = c_sp (sx_tcb s n) \<and> p_rip (sx_cpu s') = c_rip (sx_tcb s n) \<and>
     sx_stack s' = (sx_stack s)(p_rsp (sx_cpu s) - 8 := sx_schedule_ra s) \<and> sx_trampoline s' = sx_trampoline s \<and>
     sx_entry_ra s' = sx_entry_ra s"

lemma masked: "(x AND NOT 0x200) AND (0x200 :: u64) = 0"
  by (rule bit_word_eqI) (simp add: bit_simps)

lemma schedule_hands:
  assumes run: "schedule_locked86 u = Some (Sw s')" and "ctx u = ctx s" and "lockbits u = (1, x AND NOT 0x200)"
  shows "\<exists>n. handed s n s'"
proof -
  let ?n = "get_highest_ready86 u"
  obtain p w where p: "sx_current u = Some p" "Some ?n \<noteq> sx_current u"
    and w: "(if ?n \<noteq> sx_idle u then ready_list_remove86 ?n u else Some u) = Some w"
    and s': "s' = arch_context_switch86 p ?n (call86 (sx_schedule_ra w)
        ((x_upd ?n (\<lambda>t. t\<lparr>c_state := TASK_STATE_RUNNING, c_switches := c_switches t + 1\<rparr>) w)\<lparr>sx_current := Some ?n\<rparr>))"
    using run by (auto simp: schedule_locked86_def Let_def bind_eq_Some_conv split: if_splits)
  have "ctx w = ctx s \<and> lockbits w = (1, x AND NOT 0x200)" using w assms(2,3) ctx_remove by (auto split: if_splits)
  then have c: "c_context (sx_tcb w a) = c_context (sx_tcb s a)" "sx_stack w = sx_stack s" "p_rsp (sx_cpu w) = p_rsp (sx_cpu s)"
      "sx_trampoline w = sx_trampoline s" "sx_entry_ra w = sx_entry_ra s" "sx_schedule_ra w = sx_schedule_ra s"
      "xl_lock (sx_lock w) = 1" "p_flags (sx_cpu w) = x AND NOT 0x200" for a
    by (auto simp: ctx_def lockbits_def fun_eq_iff)
  have cs: "c_sp (sx_tcb w a) = c_sp (sx_tcb s a)" "c_rip (sx_tcb w a) = c_rip (sx_tcb s a)" for a
    using c(1)[of a] by (simp_all add: c_context_def)
  have "sx_current s = Some p" "?n \<noteq> p" using p assms(2) by (auto simp: ctx_def)
  then show ?thesis
    by (intro exI[of _ ?n]) (simp add: handed_def s' arch_context_switch86_def call86_def load86_def Let_def c cs masked[simplified])
qed

definition switched86 :: "sched86 \<Rightarrow> sched86 \<Rightarrow> bool" where
  "switched86 s s' \<longleftrightarrow> task_yield86 s = Some (Sw s') \<or> (\<exists>n. task_sleep86 n s = Some (Sw s')) \<or> task_terminate86 s = Some (Sw s') \<or>
     (\<exists>p st. task_start86 p s = Some (st, Sw s'))"

lemma after_Sw: "after_schedule86 r = Sw s' \<longleftrightarrow> r = Sw s'"
  by (cases r) (simp_all add: after_schedule86_def)

lemma only_Sw: "(case r of Ret s \<Rightarrow> None | Sw s \<Rightarrow> Some (Sw s)) = Some (Sw s') \<longleftrightarrow> r = Sw s'"
  by (cases r) simp_all

lemma yield_hands:
  assumes "task_yield86 s = Some (Sw s')"
  shows "\<exists>n. handed s n s'"
proof -
  obtain u c w where u: "sched86_lock_irq s = Some u" and w: "schedule_locked86 w = Some (Sw s')"
      "(if c_state (sx_tcb u c) = TASK_STATE_RUNNING then Option.bind (ready_list_add86 c u)
          (\<lambda>s. Some (s\<lparr>sx_ready := (sx_ready s)(unat (c_priority (sx_tcb s c)) := c_next (sx_tcb s c))\<rparr>)) else Some u) = Some w"
    using assms by (auto simp: task_yield86_def bind_eq_Some_conv after_Sw)
  have "ctx w = ctx u \<and> lockbits w = lockbits u" using w(2) ctx_add by (fastforce simp: bind_eq_Some_conv split: if_splits)
  then show ?thesis using schedule_hands[OF w(1)] ctx_lock[OF u] by simp
qed

lemma handed_cong: "handed u n s' \<Longrightarrow> ctx u = ctx s \<Longrightarrow> handed s n s'"
  by (auto simp: handed_def ctx_def c_context_def fun_eq_iff)

lemma switch_hands:
  assumes "switched86 s s'"
  shows "\<exists>n. handed s n s'"
proof -
  consider "task_yield86 s = Some (Sw s')" | n where "task_sleep86 n s = Some (Sw s')" | "task_terminate86 s = Some (Sw s')"
    | p st where "task_start86 p s = Some (st, Sw s')" using assms by (auto simp: switched86_def)
  then show ?thesis
  proof cases
    case 1
    then show ?thesis by (rule yield_hands)
  next
    case 2
    then obtain u w where "sched86_lock_irq s = Some u" "schedule_locked86 w = Some (Sw s')" "ctx w = ctx u" "lockbits w = lockbits u"
      by (auto simp: task_sleep86_def Let_def bind_eq_Some_conv after_Sw)
    then show ?thesis using schedule_hands ctx_lock by metis
  next
    case 3
    then obtain u w where "sched86_lock_irq s = Some u" "schedule_locked86 w = Some (Sw s')" "ctx w = ctx u" "lockbits w = lockbits u"
      by (auto simp: task_terminate86_def bind_eq_Some_conv only_Sw)
    then show ?thesis using schedule_hands ctx_lock by metis
  next
    case 4
    then obtain u a w where u: "sched86_lock_irq s = Some u" "ready_list_add86 a u = Some w" "task_yield86 (sched86_unlock_irq w) = Some (Sw s')"
      by (auto simp: task_start86_def bind_eq_Some_conv split: option.splits if_splits)
    have "ctx (sched86_unlock_irq w) = ctx s" using ctx_add[OF u(2)] ctx_lock[OF u(1)] by simp
    then show ?thesis using yield_hands[OF u(3)] handed_cong by blast
  qed
qed


text \<open>A task that is switched out and back in has its registers and goes on behind the call, but its stack pointer is eight bytes too low:
  the return address of the call is still on the stack.\<close>

theorem x86_switch_back:
  assumes "q \<noteq> p" and "c_context (sx_tcb u p) = c_context (sx_tcb (arch_context_switch86 p n (call86 ra s)) p)"
  shows "let c = sx_cpu (arch_context_switch86 q p u); c0 = sx_cpu s in
    [p_rbx c, p_rbp c, p_r12 c, p_r13 c, p_r14 c, p_r15 c] = [p_rbx c0, p_rbp c0, p_r12 c0, p_r13 c0, p_r14 c0, p_r15 c0] \<and>
    p_rip c = ra \<and> p_rsp c = p_rsp c0 - 8"
  using assms by (simp add: arch_context_switch86_def call86_def load86_def c_context_def Let_def)

theorem x86_switch_back_witness:
  "p_rsp (sx_cpu (arch_context_switch86 200 100 (arch_context_switch86 100 200 (call86 0x1200 (sched86_of (sched_ex 100)))))) = 0x64EF8"
  using x86_switch_back[of 200 100 "arch_context_switch86 100 200 (call86 0x1200 (sched86_of (sched_ex 100)))" 200 "0x1200" "sched86_of (sched_ex 100)"]
  by (simp add: Let_def) (simp add: sched86_of_def)

text \<open>A task that has never run: the switch enters the trampoline, with the function and its argument on the stack.\<close>

definition fresh86 :: "sched86 \<Rightarrow> addr \<Rightarrow> u64 \<Rightarrow> u64 \<Rightarrow> bool" where
  "fresh86 s a entry arg \<longleftrightarrow> c_rip (sx_tcb s a) = sx_trampoline s \<and> sx_stack s (c_sp (sx_tcb s a)) = entry \<and>
     sx_stack s (c_sp (sx_tcb s a) + 8) = arg"

lemma task_create_fresh:
  assumes "task_create86 (Some a) name entry arg prio stack sz s = Some (STATUS_OK, s')"
  shows "fresh86 s' a entry arg \<and> c_sp (sx_tcb s' a) = ((stack + sz) AND NOT 15) - 24"
proof -
  let ?sp = "((stack + sz) AND NOT 15) - 24"
  have ne: "(p :: u64) \<noteq> p + 8" "p \<noteq> p + 16" "p + 8 \<noteq> p + 16" for p by simp_all
  show ?thesis using assms
    by (auto simp: task_create86_def Let_def bind_eq_Some_conv sched86_lock_irq_def sched86_unlock_irq_def x_lock_irq_def x_unlock_irq_def
        x86_irq_save_def fresh86_def split: if_splits)
qed

text \<open>The second task of the x86 kernel never leaves the scheduler's lock. Whichever operation switches to a task that has not run yet,
  the function of the task is entered with its argument, interrupts masked and the lock held by nobody who will release it; from then on,
  as long as the lock stays as it is, every operation of the scheduler that the task calls spins for ever, and its return to the
  trampoline as well, which terminates it.\<close>

theorem x86_fresh_task_spins:
  assumes "switched86 s s'" and "sx_current s' = Some n" and "fresh86 s n entry arg"
    and "p_rsp (sx_cpu s) - 8 \<notin> {c_sp (sx_tcb s n), c_sp (sx_tcb s n) + 8}"
  shows "let u = trampoline_enter s' in
    p_rip (sx_cpu s') = sx_trampoline s' \<and> p_rip (sx_cpu u) = entry \<and> p_rdi (sx_cpu u) = arg \<and> p_flags (sx_cpu u) AND 0x200 = 0 \<and>
    (\<forall>v. sx_lock v = sx_lock u \<longrightarrow> task_yield86 v = None \<and> (\<forall>k. task_sleep86 k v = None) \<and> task_exit_handler86 v = None \<and>
      (\<forall>a. task_start86 (Some a) v = None) \<and> (\<forall>a. task_ready_add86 a v = None))"
proof -
  have h: "handed s n s'" using switch_hands[OF assms(1)] assms(2) by (auto simp: handed_def)
  have held: "sched86_lock_irq v = None" if "sx_lock v = sx_lock s'" for v using that h by (intro lock_held) (simp add: handed_def)
  have apart: "c_sp (sx_tcb s n) \<noteq> p_rsp (sx_cpu s) - 8" "c_sp (sx_tcb s n) + 8 \<noteq> p_rsp (sx_cpu s) - 8" using assms(4) by auto
  show ?thesis using h assms(3) apart held
    by (simp add: Let_def trampoline_enter_def call86_def handed_def fresh86_def task_yield86_def task_sleep86_def task_terminate86_def
        task_exit_handler86_def task_start86_def task_ready_add86_def)
qed

text \<open>In the example the task at 200 has never run; its function is at 0x6000 and gets the argument 7.\<close>

theorem x86_fresh_task_spins_witness:
  "\<exists>s'. task_yield86 (sched86_of (sched_ex 100)) = Some (Sw s') \<and> p_rip (sx_cpu (trampoline_enter s')) = 0x6000 \<and>
    p_rdi (sx_cpu (trampoline_enter s')) = 7 \<and> task_yield86 (trampoline_enter s') = None"
proof -
  let ?s = "sched86_of (sched_ex 100)"
  have hi: "highest (rl_ex(5 := rl_ex 5 @ [100])) = Some 5"
    by (auto simp: highest_Some rl_ex_def CONFIG_MAX_PRIORITY_def)
  obtain rl' where th: "take_highest (rl_ex(5 := rl_ex 5 @ [100])) (sc_idle (sched_ex 100)) = (200, rl')"
    using take_highest_Some[OF hi, of "sc_idle (sched_ex 100)"] by (simp add: rl_ex_def)
  have ex: "(100 :: addr) \<noteq> sc_idle (sched_ex 100)" "5 = unat (t_priority (sc_tcb (sched_ex 100) 100))"
    by (simp_all add: sched_ex_def tcb_blank_def)
  have run: "run_inv (sched_ex 100) rl_ex 100" by (rule sched_ex_inv) simp_all
  obtain t' where t': "task_yield (sched_ex 100) = Some (Sw t')" "sc_current t' = Some 200"
    using task_yield_switch[OF run ex th] by auto
  obtain s' where s': "task_yield86 ?s = Some (Sw s')" "sim s' t'"
  proof -
    obtain x where x: "task_yield86 ?s = Some x" "rel_ctl sim x (Sw t')"
      using sim_yield[OF sched86_of_sim, of "sched_ex 100"] unfolding t'(1) by (auto simp: option_rel_Some2)
    then obtain y where "x = Sw y" "sim y t'" by (cases x) auto
    then show ?thesis using that x(1) by blast
  qed
  have "sx_current s' = Some 200" using s'(2) t'(2) by (simp add: sim_def)
  moreover have "fresh86 ?s 200 0x6000 7" "p_rsp (sx_cpu ?s) - 8 \<notin> {c_sp (sx_tcb ?s 200), c_sp (sx_tcb ?s 200) + 8}"
    by (simp_all add: fresh86_def sched86_of_def tcb86_of_def)
  moreover have "switched86 ?s s'" using s'(1) by (simp add: switched86_def)
  ultimately show ?thesis using x86_fresh_task_spins[of ?s s' 200 "0x6000" 7] s'(1) by (auto simp: Let_def)
qed

end
