(* ===== verification/Spec2Isabelle.thy ===== *)
theory Spec2Isabelle
  imports Mempool Zbuf_Queue Sync_Props Irq_Props Modbus_Props Modbus_Tcp Tcp_Open Opcua_Props Profinet_Exchange Eth_Start Uart_Props Clock_Props Mmu_Props Startup_Props X86_Ports_Props X86_Apic_Props X86_Boot_Props X86_Acpi_Props X86_Sched_Props
begin

text \<open>
  The Gracemont real-time kernel for ARM64 (\<open>src/ARM64-RTOS\<close>), with its network stack and its
  industrial protocols, as definitions of HOL, and what was proved of them. All paths below are
  relative to \<open>src/ARM64-RTOS\<close>.

  \<^bold>\<open>The program.\<close> The kernel (\<open>kernel/memory.c\<close>, \<open>scheduler.c\<close>, \<open>sync.c\<close>, \<open>interrupt.c\<close>) gives memory,
  tasks of 16 priorities, blocking synchronisation, interrupt handlers and software timers. The network
  buffers (\<open>net/buffer/zbuf.c\<close>) carry packets without copying between the driver
  (\<open>drivers/eth/eth.c\<close>), the stack (\<open>net/stack/net_core.c\<close>, \<open>net/stack/tcp.c\<close>) and the protocols
  (\<open>protocols/modbus\<close>, \<open>opcua\<close>, \<open>profinet\<close>). A frame comes in through \<open>netif_input\<close>, which goes up to a
  socket or a protocol; a socket call goes down to \<open>nif->send\<close> of the interface, which is \<open>eth_send\<close>
  of the driver. A call that has to wait puts its task on a wait list of a synchronisation object and
  calls the scheduler.

  \<^bold>\<open>Theories.\<close>
  \<^item> \<open>Base\<close>, \<open>Config\<close>: \<open>include/rtos_types.h\<close> and the build configuration; linked segments in a store,
    facts on words.
  \<^item> \<open>Heap_Alloc\<close> (operations), \<open>Heap_Refine\<close> (segments of the heap area as the abstract state, and
    the refinement), \<open>Heap_Props\<close>: the first-fit heap of \<open>kernel/memory.c\<close>. \<open>Mempool\<close>: its fixed-block
    pool and the allocator of DMA memory. \<open>Allocator\<close>: the interface of the two, a locale with
    the client's safety; the descriptor table of the driver is its third provider.
  \<^item> \<open>Zbuf\<close>, \<open>Zbuf_Props\<close>, \<open>Zbuf_Queue\<close>: \<open>net/buffer/zbuf.c\<close>: the pool, reference counts, the data window,
    the queue. \<open>Fifo\<close>: the interface of a queue, also provided by the message queue of
    \<open>kernel/sync.c\<close>. \<open>Packet\<close>: bytes and fields of a packet, the facts every sender uses.
  \<^item> \<open>Sched\<close>, \<open>Sched_Inv\<close> (circular lists, the invariant of the ready lists), \<open>Sched_Props\<close>:
    \<open>kernel/scheduler.c\<close> and the context switch of \<open>arch/arm64/startup.S\<close>.
  \<^item> \<open>Sync\<close>, \<open>Sync_Props\<close>: \<open>kernel/sync.c\<close>: semaphores, mutexes with priority inheritance, event flags,
    message queues.
  \<^item> \<open>Irq\<close>, \<open>Irq_Props\<close>, \<open>Timer_Props\<close>: \<open>kernel/interrupt.c\<close> (interrupt controller, dispatch, software
    timers) and the clock interrupt of \<open>kernel/main.c\<close>.
  \<^item> \<open>Net\<close>, \<open>Net_Input\<close>, \<open>Net_Props\<close>: \<open>net/stack/net_core.c\<close>, output and input. \<open>Tcp\<close>, \<open>Tcp_Props\<close>,
    \<open>Tcp_States\<close> (the connection states as a transition relation), \<open>Tcp_Open\<close>: \<open>net/stack/tcp.c\<close>.
  \<^item> \<open>Virtq\<close>, \<open>Eth\<close> (operations), \<open>Virtq_Props\<close>, \<open>Eth_Ring\<close> (the rings as lists), \<open>Eth_Props\<close>,
    \<open>Eth_Start\<close>: the virtio network driver \<open>drivers/eth/eth.c\<close>.
  \<^item> \<open>Ring\<close>: consecutive slots of an array and rings with a head and a tail, for the two drivers.
    \<open>Uart\<close>, \<open>Uart_Props\<close>: the serial port \<open>drivers/uart/uart.c\<close>.
  \<^item> \<open>Clock\<close>, \<open>Clock_Props\<close>: the timer driver \<open>drivers/timer/timer.c\<close>.
    \<open>Mmu\<close>, \<open>Mmu_Props\<close>: translation tables and cache operations of \<open>arch/arm64/mmu.c\<close>.
  \<^item> \<open>Paging\<close>, \<open>Paging_Props\<close>: the page tables of the other kernel, \<open>src/X86_64-RTOS/arch/x86_64/mmu.c\<close>,
    and those its boot code leaves.
  \<^item> \<open>Startup\<close>, \<open>Startup_Props\<close>: \<open>kernel/main.c\<close>: \<open>kernel_main\<close> with the states of all components side by
    side, the console, and what the tasks of the protocols set up. \<open>Console\<close>: printed numbers and what they read back as.
  \<^item> \<open>X86_Ports\<close>, \<open>X86_Ports_Props\<close>, \<open>X86_Apic\<close>, \<open>X86_Apic_Props\<close>: serial port, interval timer and interrupt controllers of the
    other kernel (\<open>drivers/serial/uart_16550.c\<close>, \<open>drivers/timer/pit.c\<close>, \<open>arch/x86_64/apic.c\<close> under \<open>src/X86_64-RTOS\<close>).
    \<open>X86_Irq\<close>, \<open>X86_Irq_Props\<close>: its interrupts, from the descriptor table and the entry points (\<open>arch/x86_64/idt.c\<close>,
    \<open>interrupt_vectors.asm\<close>) to the handlers (\<open>kernel/interrupt.c\<close>, \<open>drivers/timer/apic_timer.c\<close>).
    \<open>X86_Start\<close>, \<open>X86_Main\<close>, \<open>X86_Start_Props\<close>, \<open>X86_Boot_Props\<close>: its start (\<open>kernel/main.c\<close>, \<open>arch/x86_64/gdt.c\<close>,
    \<open>cpu.c\<close>), with every access through the page tables of \<open>Paging\<close>. \<open>X86_Acpi\<close>, \<open>X86_Acpi_Props\<close>: the tables of the
    firmware (\<open>arch/x86_64/acpi.c\<close>). \<open>X86_Sched\<close>, \<open>X86_Sched_Props\<close>: its scheduler (\<open>kernel/scheduler.c\<close>,
    \<open>arch/x86_64/context.asm\<close>), and the simulation by the one of the ARM64 kernel.
  \<^item> \<open>Modbus\<close>, \<open>Modbus_Props\<close>, \<open>Modbus_Tcp\<close>: \<open>protocols/modbus/modbus.c\<close>. \<open>Opcua\<close>, \<open>Opcua_Server\<close>,
    \<open>Opcua_Props\<close>: \<open>protocols/opcua/opcua.c\<close>. \<open>Profinet\<close>, \<open>Profinet_Frames\<close>, \<open>Profinet_Props\<close>,
    \<open>Profinet_Exchange\<close>: \<open>protocols/profinet/profinet.c\<close>.

  \<^bold>\<open>State.\<close> A struct is a record with the fields of the C declaration (padding and fields no code reads
  aside), an enumeration a datatype or its numbers, an integer of the program a word of its width. A
  pointer is an address or \<open>None\<close>, and a component keeps one store per kind of object (\<open>addr \<Rightarrow> record option\<close>
  or a function on addresses), so that aliasing, dangling links and lists through the objects
  themselves are those of the code. Packet bytes are one memory. The states nest the way the code
  calls: the kernel's state \<open>kern\<close> is a part of the state \<open>sys\<close> of the interrupts and of the state
  \<open>net\<close> of the stack, on which the protocols have a state of their own.

  \<^bold>\<open>Outcomes.\<close> \<open>None\<close> is a run that faults (an access outside its object, a null pointer; the data areas of the PROFINET
  device alone are flat memory, with the null pointer at address 0) or never comes
  back; a theorem that a call returns says that it is \<open>Some\<close>. Status codes of the code are values. A walk
  along a list, a poll loop, or anything else that need not end is a \<open>partial_function (option)\<close>: there
  is no fuel in the model, and that it ends is proved from the invariants. A spin lock that is already held is never
  released on the single core, and taking it is \<open>None\<close>. Locks are part of the model of
  the scheduler, the synchronisation objects, the timers, the driver and TCP; elsewhere a lock that is taken
  and released in one function around code that cannot wait is left out, and the theory says so.
  A call that waits is cut where it yields: it returns what the yield made of the state, and a
  definition with the suffix \<open>_resume\<close> or \<open>_locked\<close> goes on when the task runs again.

  \<^bold>\<open>Parameters.\<close> What is not in the program is an argument: the answers of device registers (\<open>hw\<close>), what a
  virtio device writes to memory (\<open>dv\<close>), the code behind a function pointer (interrupt handlers, timer and
  protocol callbacks), and in the stack the interface's driver (\<open>drv\<close>); \<open>Eth_Start\<close> puts the
  modelled driver in its place; what an uninitialised local of the OPC UA server held before (\<open>leftovers\<close>). What a theorem needs of a parameter is an assumption of it, and its
  witness instantiates the parameter with a function.

  \<^bold>\<open>What is shown.\<close> Memory: no client of the heap or of a pool is ever given memory that is in use, allocation is first
  fit, release coalesces. Buffers: the pool, the data window, the queue as a
  fifo. Scheduler: the invariant of the ready lists, round robin; blocking and waking. Timers: the list as a sorted queue,
  the tick runs what has expired. Driver: the frames accepted reach the device in order with
  their bytes, descriptors come back, and the initialisation establishes the invariant. Serial port: what is accepted
  is written in order, what readers are given is what came in. Page tables: mapping and
  unmapping refine updates of an address space, and the ARM64 tables against the walk of the architecture. Timer driver: its list
  refines a map of deadlines, whatever its order. Network: an IP packet sent by one
  machine arrives at another, and is put on the wire by the driver; the life of the ARP cache; the TCP states as a transition system that
  every run refines, and the passive open. Protocols: a register, a variable or a
  cyclic value written is what is read; encodings and their decoders; CRC and checksums against their standards; the invariants of the
  OPC UA address space and of the PROFINET device over all runs.
  Start-up: \<open>kernel_main\<close> establishes the invariants of memory, buffers and scheduler that the other theorems
  start from, and the tasks an address space and a process image that are served.
  The other kernel: its scheduler takes the decisions of the ARM64 one (a simulation), the firmware's description of the
  controllers is read back, the redirection table of the interrupt controllers, decimal output, what is printed of the boot information; the
  start ends in a page fault at the interrupt controller, or inside its first phase, as it does under a hypervisor, before there
  is a handler, and an interrupt of a device halts.
  Other theorems show behaviour that is hardly meant: a woken waiter that is lost (\<open>Sync_Props\<close>), an
  interrupt handler that waits for a lock of the interrupted task, receive buffers that
  are never posted (\<open>Eth_Props\<close>), buffers that never come back to the pool (\<open>Zbuf_Props\<close>), a frame that hangs the device
  (\<open>Profinet_Exchange\<close>), responses that run over their array (\<open>Opcua_Props\<close>, \<open>Modbus_Props\<close>).

  \<^bold>\<open>Not modelled.\<close> Memory barriers: one core, and the device looks only where \<open>dv\<close> says.
  The endless loops of the tasks of \<open>kernel/main.c\<close>, of which \<open>Startup\<close> has the rounds. The declarations of \<open>modbus.h\<close>, \<open>opcua.h\<close> and \<open>profinet.h\<close> that have no body.
  \<open>src/X86_64-RTOS\<close>: its \<open>net\<close> and \<open>protocols\<close> directories hold the same files byte for byte, so that the theorems
  on them hold of both trees; of its kernel, the synchronisation, a variant of the one modelled, which its \<open>kernel_main\<close> never calls, and the heap, which is
  the same file.
\<close>

end
